(* ===== verification/Py_Float.thy ===== *)
theory Py_Float
  imports Complex_Main
begin

section \<open>IEEE 754 binary64 numbers, as Python's float has them\<close>

text \<open>
  The robot's code computes with Python floats: finite binary64 numbers, two infinities and
  NaN. A finite float is represented by its exact rational value; every arithmetic operation
  is computed exactly and then rounded by \<open>fl\<close>, to the nearest binary64 number, ties to even,
  with gradual underflow and overflow to an infinity. So \<open>fl (1 / 10)\<close> is the float of the
  literal \<open>0.1\<close>, and comparisons with NaN are false as in Python, which is what the guards of
  the code depend on.

  The sign of zero is not represented: the modelled code compares, adds, multiplies and divides
  floats, and Python raises on division by either zero, so no modelled function observes it.
\<close>

datatype pyfloat = Fin rat | PInf | NInf | NaN

subsection \<open>Rounding\<close>

definition pow2 :: "int \<Rightarrow> rat" where
  "pow2 e = (if 0 \<le> e then 2 ^ nat e else 1 / 2 ^ nat (- e))"

fun blen :: "nat \<Rightarrow> nat" where
  "blen n = (if n = 0 then 0 else Suc (blen (n div 2)))"

declare blen.simps [simp del]

definition flog2 :: "rat \<Rightarrow> int" where
  "flog2 q = (if 1 \<le> q then int (blen (nat \<lfloor>q\<rfloor>)) - 1
              else - int (blen (nat (\<lceil>1 / q\<rceil> - 1))))"

text \<open>Round half to even: Python's \<open>round\<close> to an integer, and the rounding of the significand.\<close>

definition rne :: "rat \<Rightarrow> int" where
  "rne q = (let f = \<lfloor>q\<rfloor>; r = q - of_int f in
            if r < 1 / 2 then f else if 1 / 2 < r then f + 1
            else if even f then f else f + 1)"

definition ulp_exp :: "rat \<Rightarrow> int" where
  "ulp_exp q = max (flog2 q - 52) (- 1074)"

definition rnd_pos :: "rat \<Rightarrow> rat" where
  "rnd_pos q = of_int (rne (q / pow2 (ulp_exp q))) * pow2 (ulp_exp q)"

definition rnd :: "rat \<Rightarrow> rat" where
  "rnd q = (if q = 0 then 0 else if 0 < q then rnd_pos q else - rnd_pos (- q))"

definition max_finite :: rat where
  "max_finite = (2 ^ 53 - 1) * 2 ^ 971"

definition fl :: "rat \<Rightarrow> pyfloat" where
  "fl q = (let r = rnd q in
           if max_finite < r then PInf else if r < - max_finite then NInf else Fin r)"

subsection \<open>Operations\<close>

abbreviation fzero :: pyfloat where "fzero \<equiv> Fin 0"

fun isfinite :: "pyfloat \<Rightarrow> bool" where
  "isfinite (Fin q) = True"
| "isfinite x = False"

fun fneg :: "pyfloat \<Rightarrow> pyfloat" where
  "fneg (Fin q) = Fin (- q)"
| "fneg PInf = NInf"
| "fneg NInf = PInf"
| "fneg NaN = NaN"

fun fabs :: "pyfloat \<Rightarrow> pyfloat" where
  "fabs (Fin q) = Fin \<bar>q\<bar>"
| "fabs PInf = PInf"
| "fabs NInf = PInf"
| "fabs NaN = NaN"

fun fadd :: "pyfloat \<Rightarrow> pyfloat \<Rightarrow> pyfloat" where
  "fadd (Fin a) (Fin b) = fl (a + b)"
| "fadd NaN y = NaN"
| "fadd x NaN = NaN"
| "fadd PInf NInf = NaN"
| "fadd NInf PInf = NaN"
| "fadd PInf y = PInf"
| "fadd NInf y = NInf"
| "fadd x PInf = PInf"
| "fadd x NInf = NInf"

definition fsub :: "pyfloat \<Rightarrow> pyfloat \<Rightarrow> pyfloat" where
  "fsub x y = fadd x (fneg y)"

definition inf_of_sign :: "rat \<Rightarrow> pyfloat" where
  "inf_of_sign s = (if 0 < s then PInf else if s < 0 then NInf else NaN)"

fun fmul :: "pyfloat \<Rightarrow> pyfloat \<Rightarrow> pyfloat" where
  "fmul (Fin a) (Fin b) = fl (a * b)"
| "fmul NaN y = NaN"
| "fmul x NaN = NaN"
| "fmul (Fin a) PInf = inf_of_sign a"
| "fmul (Fin a) NInf = inf_of_sign (- a)"
| "fmul PInf (Fin b) = inf_of_sign b"
| "fmul NInf (Fin b) = inf_of_sign (- b)"
| "fmul PInf PInf = PInf"
| "fmul PInf NInf = NInf"
| "fmul NInf PInf = NInf"
| "fmul NInf NInf = PInf"

text \<open>Division: \<open>None\<close> is Python's \<open>ZeroDivisionError\<close>.\<close>

fun fdiv :: "pyfloat \<Rightarrow> pyfloat \<Rightarrow> pyfloat option" where
  "fdiv x (Fin b) =
     (if b = 0 then None
      else Some (case x of Fin a \<Rightarrow> fl (a / b) | NaN \<Rightarrow> NaN
                 | PInf \<Rightarrow> inf_of_sign b | NInf \<Rightarrow> inf_of_sign (- b)))"
| "fdiv x NaN = Some NaN"
| "fdiv x PInf = Some (case x of Fin a \<Rightarrow> Fin 0 | _ \<Rightarrow> NaN)"
| "fdiv x NInf = Some (case x of Fin a \<Rightarrow> Fin 0 | _ \<Rightarrow> NaN)"

fun flt :: "pyfloat \<Rightarrow> pyfloat \<Rightarrow> bool" where
  "flt (Fin a) (Fin b) = (a < b)"
| "flt NaN y = False"
| "flt x NaN = False"
| "flt NInf NInf = False"
| "flt NInf y = True"
| "flt PInf y = False"
| "flt x PInf = True"
| "flt x NInf = False"

fun feq :: "pyfloat \<Rightarrow> pyfloat \<Rightarrow> bool" where
  "feq NaN y = False"
| "feq x NaN = False"
| "feq x y = (x = y)"

definition fle :: "pyfloat \<Rightarrow> pyfloat \<Rightarrow> bool" where
  "fle x y = (flt x y \<or> feq x y)"

text \<open>
  Python's \<open>max(a, b)\<close> keeps \<open>a\<close> unless \<open>b > a\<close>, and \<open>min(a, b)\<close> keeps \<open>a\<close> unless \<open>b < a\<close>;
  with a NaN argument the order of the arguments decides.
\<close>

definition pymax :: "pyfloat \<Rightarrow> pyfloat \<Rightarrow> pyfloat" where
  "pymax a b = (if flt a b then b else a)"

definition pymin :: "pyfloat \<Rightarrow> pyfloat \<Rightarrow> pyfloat" where
  "pymin a b = (if flt b a then b else a)"

text \<open>\<open>float(n)\<close> of an int: \<open>None\<close> is \<open>OverflowError\<close>.\<close>

definition float_of_int :: "int \<Rightarrow> pyfloat option" where
  "float_of_int n = (case fl (of_int n) of Fin q \<Rightarrow> Some (Fin q) | _ \<Rightarrow> None)"

text \<open>
  \<open>round(x)\<close> and \<open>int(x)\<close> of a float: \<open>None\<close> where Python raises (\<open>ValueError\<close> on NaN,
  \<open>OverflowError\<close> on an infinity).
\<close>

fun py_round :: "pyfloat \<Rightarrow> int option" where
  "py_round (Fin q) = Some (rne q)"
| "py_round x = None"

fun py_int :: "pyfloat \<Rightarrow> int option" where
  "py_int (Fin q) = Some (if 0 \<le> q then \<lfloor>q\<rfloor> else \<lceil>q\<rceil>)"
| "py_int x = None"

text \<open>
  \<open>x % w\<close>: the C remainder is exact; where its sign differs from that of the divisor, Python adds
  the divisor, which rounds.
\<close>

fun fmod_py :: "pyfloat \<Rightarrow> pyfloat \<Rightarrow> pyfloat option" where
  "fmod_py x (Fin w) =
     (if w = 0 then None
      else Some (case x of
        Fin a \<Rightarrow>
          (let k = a / w; t = (if 0 \<le> k then \<lfloor>k\<rfloor> else \<lceil>k\<rceil>); m = a - w * of_int t in
           if m \<noteq> 0 \<and> (w < 0) \<noteq> (m < 0) then fl (m + w) else Fin m)
      | _ \<Rightarrow> NaN))"
| "fmod_py x NaN = Some NaN"
| "fmod_py x PInf =
     Some (case x of Fin a \<Rightarrow> (if a < 0 then PInf else Fin a) | _ \<Rightarrow> NaN)"
| "fmod_py x NInf =
     Some (case x of Fin a \<Rightarrow> (if 0 < a then NInf else Fin a) | _ \<Rightarrow> NaN)"

text \<open>The rationals a binary64 number can have.\<close>

fun f64 :: "pyfloat \<Rightarrow> bool" where
  "f64 (Fin q) = (rnd q = q \<and> \<bar>q\<bar> \<le> max_finite)"
| "f64 x = True"

subsection \<open>The rounding function\<close>

text \<open>
  \<open>rnd\<close> is monotone, odd and idempotent, and exact on every dyadic number of at most 53 bits.
\<close>

lemma pow2_pos [simp]: "0 < pow2 e"
  by (simp add: pow2_def)

lemma pow2_nz [simp]: "pow2 e \<noteq> 0"
  using pow2_pos [of e] by linarith

lemma pow2_powi: "pow2 e = 2 powi e"
  by (simp add: pow2_def power_int_def field_simps)

lemma pow2_add: "pow2 (a + b) = pow2 a * pow2 b"
  by (simp add: pow2_powi power_int_add)

lemma pow2_mono: "a \<le> b \<Longrightarrow> pow2 a \<le> pow2 b"
  by (simp add: pow2_powi power_int_increasing)

lemma pow2_strict_mono: "a < b \<Longrightarrow> pow2 a < pow2 b"
  by (simp add: pow2_powi power_int_strict_increasing)

lemma pow2_nat: "0 \<le> e \<Longrightarrow> pow2 e = of_int (2 ^ nat e)"
  by (simp add: pow2_def)

lemma pow2_less_iff: "pow2 a < pow2 b \<longleftrightarrow> a < b"
  by (meson linorder_not_less pow2_mono pow2_strict_mono)

lemma pow2_diff_int: "e \<le> b \<Longrightarrow> pow2 b / pow2 e = of_int (2 ^ nat (b - e))"
proof -
  assume "e \<le> b"
  have "pow2 b = pow2 (b - e) * pow2 e" by (simp flip: pow2_add)
  then show ?thesis using \<open>e \<le> b\<close> pow2_pos [of e] by (simp add: pow2_nat)
qed

lemma blen_bounds: "0 < n \<Longrightarrow> 2 ^ (blen n - 1) \<le> n \<and> n < 2 ^ blen n \<and> 0 < blen n"
proof (induction n rule: blen.induct)
  case (1 n)
  show ?case
  proof (cases "n = 1")
    case True
    then show ?thesis by (simp add: blen.simps)
  next
    case False
    with 1 have IH: "2 ^ (blen (n div 2) - 1) \<le> n div 2" "n div 2 < 2 ^ blen (n div 2)"
      "0 < blen (n div 2)" by auto
    have b: "blen n = Suc (blen (n div 2))" using "1.prems" by (simp add: blen.simps)
    obtain m where m: "blen (n div 2) = Suc m" using IH(3) by (cases "blen (n div 2)") auto
    show ?thesis using IH b m by auto
  qed
qed

lemma flog2_bounds:
  assumes "0 < q"
  shows "pow2 (flog2 q) \<le> q" "q < pow2 (flog2 q + 1)"
proof -
  have "pow2 (flog2 q) \<le> q \<and> q < pow2 (flog2 q + 1)"
  proof (cases "1 \<le> q")
    case True
    define n where "n = nat \<lfloor>q\<rfloor>"
    have n: "0 < n" using True by (simp add: n_def)
    have nq: "of_nat n \<le> q" "q < of_nat n + 1"
      using True by (auto simp: n_def) linarith+
    have b: "2 ^ (blen n - 1) \<le> n" "n < 2 ^ blen n" "0 < blen n" using blen_bounds [OF n] by auto
    have "(2 ^ (blen n - 1) :: rat) \<le> of_nat n"
      using b(1) by (metis of_nat_mono of_nat_numeral of_nat_power)
    moreover have "of_nat n + 1 \<le> (2 ^ blen n :: rat)"
      using b(2) by (metis Suc_leI of_nat_Suc of_nat_mono add.commute of_nat_numeral of_nat_power)
    ultimately have "2 ^ (blen n - 1) \<le> q" "q < 2 ^ blen n" using nq by linarith+
    moreover have "flog2 q = int (blen n) - 1" using True by (simp add: flog2_def n_def)
    moreover have "nat (int (blen n) - 1) = blen n - 1" by simp
    ultimately show ?thesis using b(3) by (simp add: pow2_def)
  next
    case False
    define n where "n = nat (\<lceil>1 / q\<rceil> - 1)"
    have q1: "1 < 1 / q" using False assms by (simp add: field_simps)
    then have c: "1 < \<lceil>1 / q\<rceil>" by (simp add: less_ceiling_iff)
    then have n: "0 < n" by (simp add: n_def)
    have nq: "of_nat n < 1 / q" "1 / q \<le> of_nat n + 1"
      using c by (auto simp: n_def) linarith+
    have b: "2 ^ (blen n - 1) \<le> n" "n < 2 ^ blen n" "0 < blen n" using blen_bounds [OF n] by auto
    have "(2 ^ (blen n - 1) :: rat) \<le> of_nat n"
      using b(1) by (metis of_nat_mono of_nat_numeral of_nat_power)
    moreover have "of_nat n + 1 \<le> (2 ^ blen n :: rat)"
      using b(2) by (metis Suc_leI of_nat_Suc of_nat_mono add.commute of_nat_numeral of_nat_power)
    ultimately have x: "2 ^ (blen n - 1) < 1 / q" "1 / q \<le> 2 ^ blen n" using nq by linarith+
    have f: "flog2 q = - int (blen n)" using False by (simp add: flog2_def n_def)
    have p1: "pow2 (- int (blen n)) = 1 / 2 ^ blen n" by (simp add: pow2_def)
    have p2: "pow2 (1 - int (blen n)) = 1 / 2 ^ (blen n - 1)"
      using b(3) by (cases "blen n") (auto simp: pow2_def nat_diff_distrib)
    show ?thesis using x assms by (simp add: f p1 p2 field_simps)
  qed
  then show "pow2 (flog2 q) \<le> q" "q < pow2 (flog2 q + 1)" by auto
qed

lemma flog2_mono: "0 < q \<Longrightarrow> q \<le> r \<Longrightarrow> flog2 q \<le> flog2 r"
proof -
  assume a: "0 < q" "q \<le> r"
  have "pow2 (flog2 q) < pow2 (flog2 r + 1)"
    using flog2_bounds(1) [OF a(1)] flog2_bounds(2) [of r] a by linarith
  then show ?thesis by (simp add: pow2_less_iff)
qed

lemma rne_of_int [simp]: "rne (of_int n) = n"
  by (simp add: rne_def)

lemma rne_bounds: "\<lfloor>q\<rfloor> \<le> rne q" "rne q \<le> \<lfloor>q\<rfloor> + 1"
  by (auto simp: rne_def Let_def)

lemma rne_mono: "q \<le> r \<Longrightarrow> rne q \<le> rne r"
proof -
  assume a: "q \<le> r"
  have fm: "\<lfloor>q\<rfloor> \<le> \<lfloor>r\<rfloor>" using a by (rule floor_mono)
  show ?thesis
  proof (cases "\<lfloor>q\<rfloor> = \<lfloor>r\<rfloor>")
    case True
    then show ?thesis using a by (simp add: rne_def Let_def)
  next
    case False
    then show ?thesis using fm rne_bounds [of q] rne_bounds [of r] by linarith
  qed
qed

lemma rne_minus: "rne (- q) = - rne q"
proof (cases "q = of_int \<lfloor>q\<rfloor>")
  case True
  then show ?thesis by (metis of_int_minus rne_of_int)
next
  case False
  then have "\<lfloor>- q\<rfloor> = - \<lfloor>q\<rfloor> - 1" by linarith
  then show ?thesis using False by (simp add: rne_def Let_def) 
qed

lemma rnd_pos_mono: "0 < q \<Longrightarrow> q \<le> r \<Longrightarrow> rnd_pos q \<le> rnd_pos r"
proof -
  assume a: "0 < q" "q \<le> r"
  let ?u = "pow2 (ulp_exp q)" and ?v = "pow2 (ulp_exp r)"
  have fm: "flog2 q \<le> flog2 r" using flog2_mono a by blast
  show ?thesis
  proof (cases "ulp_exp q = ulp_exp r")
    case True
    have "rne (q / ?u) \<le> rne (r / ?u)" using a by (intro rne_mono divide_right_mono) (auto intro: less_imp_le)
    then show ?thesis using True by (simp add: rnd_pos_def mult_right_mono less_imp_le)
  next
    case False
    then have lt: "flog2 q < flog2 r" and nr: "ulp_exp r = flog2 r - 52" "- 1074 < flog2 r - 52"
      using fm by (auto simp: ulp_exp_def max_def split: if_splits)
    have ql: "ulp_exp q \<le> flog2 r" using lt nr by (simp add: ulp_exp_def)
    let ?B = "pow2 (flog2 r)"
    have "q \<le> ?B" using flog2_bounds(2) [OF a(1)] pow2_mono [of "flog2 q + 1" "flog2 r"] lt by linarith
    then have "rne (q / ?u) \<le> rne (?B / ?u)" by (intro rne_mono divide_right_mono) (auto intro: less_imp_le)
    also have "\<dots> = 2 ^ nat (flog2 r - ulp_exp q)" by (simp only: pow2_diff_int [OF ql] rne_of_int)
    finally have "of_int (rne (q / ?u)) \<le> ?B / ?u" by (simp only: pow2_diff_int [OF ql] of_int_le_iff)
    then have 1: "rnd_pos q \<le> ?B" by (simp add: rnd_pos_def pos_le_divide_eq)
    have rl: "ulp_exp r \<le> flog2 r" using nr by simp
    have "?B \<le> r" using flog2_bounds(1) a by force
    then have "rne (?B / ?v) \<le> rne (r / ?v)" by (intro rne_mono divide_right_mono) (auto intro: less_imp_le)
    then have "?B / ?v \<le> of_int (rne (r / ?v))" by (simp only: pow2_diff_int [OF rl] rne_of_int of_int_le_iff)
    then have 2: "?B \<le> rnd_pos r" by (simp add: rnd_pos_def pos_divide_le_eq)
    from 1 2 show ?thesis by linarith
  qed
qed

lemma rne_nonneg: "0 \<le> q \<Longrightarrow> 0 \<le> rne q"
  using rne_mono [of 0 q] rne_of_int [of 0] by simp

lemma rnd_pos_nonneg: "0 \<le> q \<Longrightarrow> 0 \<le> rnd_pos q"
  by (simp add: rnd_pos_def rne_nonneg less_imp_le)

lemma rnd_0 [simp]: "rnd 0 = 0" by (simp add: rnd_def)

lemma rnd_minus: "rnd (- q) = - rnd q" by (simp add: rnd_def)

lemma rnd_mono: "q \<le> r \<Longrightarrow> rnd q \<le> rnd r"
  using rnd_pos_mono [of q r] rnd_pos_mono [of "- r" "- q"] rnd_pos_nonneg [of r] rnd_pos_nonneg [of "- q"]
  by (auto simp: rnd_def)

lemma rnd_pos_exact:
  assumes k: "0 < k" "k \<le> 2 ^ 53" and e: "- 1074 \<le> e"
  shows "rnd_pos (of_int k * pow2 e) = of_int k * pow2 e"
proof -
  let ?q = "of_int k * pow2 e"
  have q: "0 < ?q" using k by simp
  have "of_int k \<le> (2 ^ 53 :: rat)" using k(2) by (metis of_int_le_iff of_int_numeral of_int_power)
  moreover have "(2 ^ 53 :: rat) = pow2 53" by (simp add: pow2_def)
  ultimately have le: "?q \<le> pow2 (53 + e)" by (simp only: pow2_add) simp
  have "pow2 (flog2 ?q) < pow2 (53 + e + 1)"
    using flog2_bounds(1) [OF q] le pow2_strict_mono [of "53 + e" "53 + e + 1"] by linarith
  then have f: "flog2 ?q \<le> 53 + e" by (simp add: pow2_less_iff)
  have "\<exists>n. ?q / pow2 (ulp_exp ?q) = of_int n"
  proof (cases "ulp_exp ?q \<le> e")
    case True
    have "?q / pow2 (ulp_exp ?q) = of_int k * (pow2 e / pow2 (ulp_exp ?q))" by simp
    also have "\<dots> = of_int (k * 2 ^ nat (e - ulp_exp ?q))" by (simp only: pow2_diff_int [OF True] of_int_mult)
    finally show ?thesis by blast
  next
    case False
    then have f': "flog2 ?q = 53 + e" and u: "ulp_exp ?q = e + 1" using f e by (auto simp: ulp_exp_def)
    have "pow2 (53 + e) \<le> ?q" using flog2_bounds(1) [OF q] f' by simp
    with le have "?q = pow2 (53 + e)" by simp
    moreover have "e + 1 \<le> 53 + e" by simp
    ultimately show ?thesis using u pow2_diff_int by metis
  qed
  then obtain n where n: "?q / pow2 (ulp_exp ?q) = of_int n" ..
  then have "rnd_pos ?q = of_int n * pow2 (ulp_exp ?q)" by (simp add: rnd_pos_def)
  also have "\<dots> = ?q" using n by (simp add: divide_eq_eq)
  finally show ?thesis .
qed

lemma rnd_exact: 
  assumes "\<bar>k\<bar> \<le> 2 ^ 53" "- 1074 \<le> e" shows "rnd (of_int k * pow2 e) = of_int k * pow2 e"
proof -
  consider "k = 0" | "0 < k" | "k < 0" by linarith
  then show ?thesis
  proof cases
    case 2
    then show ?thesis using rnd_pos_exact [of k e] assms by (simp add: rnd_def)
  next
    case 3
    then have "of_int k * pow2 e < 0" by (simp add: mult_neg_pos)
    then show ?thesis using rnd_pos_exact [of "- k" e] assms 3 by (simp add: rnd_def)
  qed simp
qed

lemma rnd_of_int: "\<bar>n\<bar> \<le> 2 ^ 53 \<Longrightarrow> rnd (of_int n) = of_int n"
  using rnd_exact [of n 0] by (simp add: pow2_def)

lemma rnd_form: "\<exists>k e. rnd q = of_int k * pow2 e \<and> \<bar>k\<bar> \<le> 2 ^ 53 \<and> - 1074 \<le> e"
proof -
  have pos: "\<exists>k e. rnd_pos q = of_int k * pow2 e \<and> \<bar>k\<bar> \<le> 2 ^ 53 \<and> - 1074 \<le> e" if q: "0 < q" for q
  proof -
    let ?e = "ulp_exp q"
    have "q \<le> pow2 (53 + ?e)"
    proof -
      have "flog2 q + 1 \<le> 53 + ?e" by (simp add: ulp_exp_def)
      then show ?thesis using flog2_bounds(2) [OF q] pow2_mono by fastforce
    qed
    then have "q / pow2 ?e \<le> pow2 (53 + ?e) / pow2 ?e" by (intro divide_right_mono) (auto intro: less_imp_le)
    then have "rne (q / pow2 ?e) \<le> rne (pow2 (53 + ?e) / pow2 ?e)" by (rule rne_mono)
    also have "\<dots> = 2 ^ 53" by (subst pow2_diff_int) (simp_all only: rne_of_int, simp_all)
    finally have "rne (q / pow2 ?e) \<le> 2 ^ 53" .
    moreover have "0 \<le> rne (q / pow2 ?e)" using q by (simp add: rne_nonneg less_imp_le)
    moreover have "- 1074 \<le> ?e" by (simp add: ulp_exp_def)
    ultimately show ?thesis unfolding rnd_pos_def by (metis abs_of_nonneg)
  qed
  consider "q = 0" | "0 < q" | "q < 0" by linarith
  then show ?thesis
  proof cases
    case 1
    show ?thesis by (rule exI [of _ 0], rule exI [of _ 0]) (simp add: 1)
  next
    case 2
    then show ?thesis using pos [of q] by (simp add: rnd_def)
  next
    case 3
    then obtain k e where "rnd_pos (- q) = of_int k * pow2 e" "\<bar>k\<bar> \<le> 2 ^ 53" "- 1074 \<le> e" using pos [of "- q"] by auto
    then show ?thesis using 3 by (intro exI [of _ "- k"] exI [of _ e]) (simp add: rnd_def)
  qed
qed

lemma rnd_idem: "rnd (rnd q) = rnd q"
  using rnd_form [of q] rnd_exact by metis

subsection \<open>Operations on binary64 numbers\<close>

lemma max_finite_pos [simp]: "0 < max_finite" "0 \<le> max_finite" "- max_finite \<le> max_finite"
  by (simp_all add: max_finite_def)

lemma fl_mono: "q \<le> r \<Longrightarrow> fle (fl q) (fl r)"
  using rnd_mono [of q r] by (auto simp: fl_def fle_def Let_def)

lemma f64_fl [simp]: "f64 (fl q)"
  by (auto simp: fl_def Let_def rnd_idem abs_le_iff)

lemma fl_not_NaN [simp]: "fl q \<noteq> NaN"
  by (simp add: fl_def Let_def)

lemma fl_id: "f64 (Fin q) \<Longrightarrow> fl q = Fin q"
  by (auto simp: fl_def)

lemma max_finite_ge: "2 ^ 53 \<le> max_finite"
  by (simp add: max_finite_def)

lemma rnd_dyadic:
  assumes "\<bar>k\<bar> \<le> 2 ^ 53" "n \<le> 1074" shows "rnd (of_int k / 2 ^ n) = of_int k / 2 ^ n"
  using rnd_exact [of k "- int n"] assms by (simp add: pow2_def split: if_splits)

lemma f64_dyadic:
  assumes "\<bar>k\<bar> \<le> 2 ^ 53" "n \<le> 1074" shows "f64 (Fin (of_int k / 2 ^ n))"
proof -
  have "\<bar>(of_int k :: rat)\<bar> \<le> 2 ^ 53" using assms(1) by (metis of_int_abs of_int_le_iff of_int_numeral of_int_power)
  moreover have "\<bar>(of_int k :: rat) / 2 ^ n\<bar> \<le> \<bar>of_int k\<bar>" by (simp add: divide_le_eq mult_le_cancel_left1)
  ultimately have "\<bar>(of_int k :: rat) / 2 ^ n\<bar> \<le> max_finite" using max_finite_ge by linarith
  then show ?thesis using rnd_dyadic [OF assms] by simp
qed

lemma fl_dyadic: "\<bar>k\<bar> \<le> 2 ^ 53 \<Longrightarrow> n \<le> 1074 \<Longrightarrow> fl (of_int k / 2 ^ n) = Fin (of_int k / 2 ^ n)"
  by (rule fl_id [OF f64_dyadic])

lemma fl_of_int: "\<bar>n\<bar> \<le> 2 ^ 53 \<Longrightarrow> fl (of_int n) = Fin (of_int n)"
  using fl_dyadic [of n 0] by simp

lemma fl_0 [simp]: "fl 0 = Fin 0" using fl_of_int [of 0] by simp
lemma fl_1 [simp]: "fl 1 = Fin 1" using fl_of_int [of 1] by simp
lemma fl_numeral [simp]: "(numeral n :: int) \<le> 2 ^ 53 \<Longrightarrow> fl (numeral n) = Fin (numeral n)"
  using fl_of_int [of "numeral n"] by simp
lemma fl_minus: "fl (- q) = fneg (fl q)"
  by (auto simp: fl_def rnd_minus Let_def) (use max_finite_pos in linarith)+
lemma fl_neg_numeral [simp]: "(numeral n :: int) \<le> 2 ^ 53 \<Longrightarrow> fl (- numeral n) = Fin (- numeral n)"
  by (simp add: fl_minus)
lemma fl_neg_1 [simp]: "fl (- 1) = Fin (- 1)"  by (simp add: fl_minus)

lemma float_of_int_small: "\<bar>n\<bar> \<le> 2 ^ 53 \<Longrightarrow> float_of_int n = Some (Fin (of_int n))"
  by (simp add: float_of_int_def fl_of_int)

lemma fneg_fneg [simp]: "fneg (fneg x) = x" by (cases x) auto
lemma f64_fneg [simp]: "f64 (fneg x) = f64 x" by (cases x) (auto simp: rnd_minus)
lemma f64_inf_of_sign [simp]: "f64 (inf_of_sign s)" by (simp add: inf_of_sign_def)
lemma f64_fabs [simp]: "f64 x \<Longrightarrow> f64 (fabs x)" by (cases x) (auto simp: abs_if rnd_minus)
lemma f64_fadd [simp]: "f64 (fadd x y)" by (cases x; cases y) auto
lemma f64_fsub [simp]: "f64 (fsub x y)" by (simp add: fsub_def)
lemma f64_fmul [simp]: "f64 (fmul x y)" by (cases x; cases y) auto
lemma f64_fdiv: "fdiv x y = Some z \<Longrightarrow> f64 z" by (cases x; cases y) (auto split: if_splits)
lemma f64_pymax: "f64 x \<Longrightarrow> f64 y \<Longrightarrow> f64 (pymax x y)" by (simp add: pymax_def)
lemma f64_pymin: "f64 x \<Longrightarrow> f64 y \<Longrightarrow> f64 (pymin x y)" by (simp add: pymin_def)

text \<open>Order.\<close>

lemma flt_irrefl [simp]: "\<not> flt x x" by (cases x) auto
lemma flt_trans [trans]: "flt x y \<Longrightarrow> flt y z \<Longrightarrow> flt x z" by (cases x; cases y; cases z) auto
lemma fle_trans [trans]: "fle x y \<Longrightarrow> fle y z \<Longrightarrow> fle x z" by (cases x; cases y; cases z) (auto simp: fle_def)
lemma flt_fle_trans [trans]: "flt x y \<Longrightarrow> fle y z \<Longrightarrow> flt x z" by (cases x; cases y; cases z) (auto simp: fle_def)
lemma fle_flt_trans [trans]: "fle x y \<Longrightarrow> flt y z \<Longrightarrow> flt x z" by (cases x; cases y; cases z) (auto simp: fle_def)
lemma flt_imp_fle: "flt x y \<Longrightarrow> fle x y" by (simp add: fle_def)
lemma not_flt: "x \<noteq> NaN \<Longrightarrow> y \<noteq> NaN \<Longrightarrow> \<not> flt x y \<longleftrightarrow> fle y x" by (cases x; cases y) (auto simp: fle_def)
lemma not_fle: "x \<noteq> NaN \<Longrightarrow> y \<noteq> NaN \<Longrightarrow> \<not> fle x y \<longleftrightarrow> flt y x" by (cases x; cases y) (auto simp: fle_def)
lemma flt_not_fle: "flt x y \<Longrightarrow> \<not> fle y x" by (cases x; cases y) (auto simp: fle_def)
lemma fle_not_flt: "fle x y \<Longrightarrow> \<not> flt y x" by (cases x; cases y) (auto simp: fle_def)
lemma fle_refl [simp]: "fle x x \<longleftrightarrow> x \<noteq> NaN" by (cases x) (auto simp: fle_def)
lemma fle_antisym: "fle x y \<Longrightarrow> fle y x \<Longrightarrow> x = y" by (cases x; cases y) (auto simp: fle_def)
lemma flt_asym: "flt x y \<Longrightarrow> \<not> flt y x" by (cases x; cases y) auto
lemma fle_Fin [simp]: "fle (Fin a) (Fin b) \<longleftrightarrow> a \<le> b" by (auto simp: fle_def)
lemma fle_NaN [simp]: "\<not> fle NaN y" "\<not> fle x NaN" by (cases y; simp add: fle_def) (cases x; simp add: fle_def)
lemma flt_NaN [simp]: "\<not> flt NaN y" "\<not> flt x NaN" by (cases y; simp) (cases x; simp)
lemma fle_not_NaN: "fle x y \<Longrightarrow> x \<noteq> NaN \<and> y \<noteq> NaN" by (auto)
lemma isfinite_iff: "isfinite x \<longleftrightarrow> (\<exists>q. x = Fin q)" by (cases x) auto
lemma fle_fneg: "fle (fneg x) (fneg y) = fle y x" by (cases x; cases y) (auto simp: fle_def)
lemma flt_fneg: "flt (fneg x) (fneg y) = flt y x" by (cases x; cases y) auto
lemma fle_between_finite: "fle (Fin a) x \<Longrightarrow> fle x (Fin b) \<Longrightarrow> \<exists>q. x = Fin q \<and> a \<le> q \<and> q \<le> b"
  by (cases x) (auto simp: fle_def)

text \<open>The clamp idiom \<open>max(lo, min(hi, x))\<close>: inside the bounds whatever \<open>x\<close> is, NaN included.\<close>

lemma pymax_pymin_bounds:
  "fle lo hi \<Longrightarrow> fle lo (pymax lo (pymin hi x)) \<and> fle (pymax lo (pymin hi x)) hi"
  by (cases lo; cases hi; cases x) (auto simp: pymax_def pymin_def fle_def)
lemma pymax_pymin_id: "fle lo x \<Longrightarrow> fle x hi \<Longrightarrow> pymax lo (pymin hi x) = x"
  by (cases lo; cases hi; cases x) (auto simp: pymax_def pymin_def fle_def)
lemma pymax_pymin_NaN: "fle lo hi \<Longrightarrow> pymax lo (pymin hi NaN) = hi"
  by (cases lo; cases hi) (auto simp: pymax_def pymin_def fle_def)

text \<open>Evaluation of roundings on numerals.\<close>

lemma floor_frac: "\<lfloor>(numeral a :: rat) / numeral b\<rfloor> = numeral a div numeral b"
  using floor_divide_of_int_eq [of "numeral a" "numeral b", where ?'a = rat] by simp
lemma floor_frac1: "\<lfloor>1 / (numeral b :: rat)\<rfloor> = 1 div numeral b"
  using floor_divide_of_int_eq [of 1 "numeral b", where ?'a = rat] by simp
lemma floor_neg_frac: "\<lfloor>- (numeral a / numeral b :: rat)\<rfloor> = (- numeral a) div numeral b"
  using floor_divide_of_int_eq [of "- numeral a" "numeral b", where ?'a = rat] by simp
lemma floor_neg_frac1: "\<lfloor>- (1 / numeral b :: rat)\<rfloor> = (- 1) div numeral b"
  using floor_divide_of_int_eq [of "- 1" "numeral b", where ?'a = rat] by simp
lemma ceiling_frac: "\<lceil>(numeral a :: rat) / numeral b\<rceil> = - ((- numeral a) div numeral b)"
  unfolding ceiling_def by (simp add: floor_neg_frac)
lemma ceiling_frac1: "\<lceil>1 / (numeral b :: rat)\<rceil> = - ((- 1) div numeral b)"
  unfolding ceiling_def by (simp add: floor_neg_frac1)

lemmas rat_floor_simps = floor_frac floor_frac1 floor_neg_frac floor_neg_frac1 ceiling_frac ceiling_frac1
lemmas fl_eval = fl_def rnd_def rnd_pos_def ulp_exp_def flog2_def blen.simps rne_def pow2_def max_finite_def rat_floor_simps Let_def

subsection \<open>binary32 message fields\<close>

text \<open>
  A float32 field of a ROS message holds the value rounded to binary32: 24 significant bits, with
  the same rule. The rounding is stated for any precision, and is monotone.
\<close>

definition ulp_at :: "int \<Rightarrow> int \<Rightarrow> rat \<Rightarrow> int" where
  "ulp_at p emin q = max (flog2 q - p) emin"

definition rnd_pos_at :: "int \<Rightarrow> int \<Rightarrow> rat \<Rightarrow> rat" where
  "rnd_pos_at p emin q = of_int (rne (q / pow2 (ulp_at p emin q))) * pow2 (ulp_at p emin q)"

definition rnd_at :: "int \<Rightarrow> int \<Rightarrow> rat \<Rightarrow> rat" where
  "rnd_at p emin q =
     (if q = 0 then 0 else if 0 < q then rnd_pos_at p emin q else - rnd_pos_at p emin (- q))"

definition max_finite32 :: rat where
  "max_finite32 = (2 ^ 24 - 1) * 2 ^ 104"

fun f32 :: "pyfloat \<Rightarrow> pyfloat" where
  "f32 (Fin q) = (let r = rnd_at 23 (- 149) q in
     if max_finite32 < r then PInf else if r < - max_finite32 then NInf else Fin r)"
| "f32 x = x"

lemma rnd_pos_at_mono: "0 \<le> p \<Longrightarrow> 0 < q \<Longrightarrow> q \<le> r \<Longrightarrow> rnd_pos_at p emin q \<le> rnd_pos_at p emin r"
proof -
  assume p: "0 \<le> p" and a: "0 < q" "q \<le> r"
  let ?u = "pow2 (ulp_at p emin q)" and ?v = "pow2 (ulp_at p emin r)"
  have fm: "flog2 q \<le> flog2 r" using flog2_mono a by blast
  show ?thesis
  proof (cases "ulp_at p emin q = ulp_at p emin r")
    case True
    have "rne (q / ?u) \<le> rne (r / ?u)" using a by (intro rne_mono divide_right_mono) (auto intro: less_imp_le)
    then show ?thesis using True by (simp add: rnd_pos_at_def mult_right_mono less_imp_le)
  next
    case False
    then have lt: "flog2 q < flog2 r" and nr: "ulp_at p emin r = flog2 r - p" "emin < flog2 r - p"
      using fm by (auto simp: ulp_at_def max_def split: if_splits)
    have ql: "ulp_at p emin q \<le> flog2 r" using lt nr p by (simp add: ulp_at_def)
    let ?B = "pow2 (flog2 r)"
    have "q \<le> ?B" using flog2_bounds(2) [OF a(1)] pow2_mono [of "flog2 q + 1" "flog2 r"] lt by linarith
    then have "rne (q / ?u) \<le> rne (?B / ?u)" by (intro rne_mono divide_right_mono) (auto intro: less_imp_le)
    also have "\<dots> = 2 ^ nat (flog2 r - ulp_at p emin q)" by (simp only: pow2_diff_int [OF ql] rne_of_int)
    finally have "of_int (rne (q / ?u)) \<le> ?B / ?u" by (simp only: pow2_diff_int [OF ql] of_int_le_iff)
    then have 1: "rnd_pos_at p emin q \<le> ?B" by (simp add: rnd_pos_at_def pos_le_divide_eq)
    have rl: "ulp_at p emin r \<le> flog2 r" using nr p by simp
    have "?B \<le> r" using flog2_bounds(1) a by force
    then have "rne (?B / ?v) \<le> rne (r / ?v)" by (intro rne_mono divide_right_mono) (auto intro: less_imp_le)
    then have "?B / ?v \<le> of_int (rne (r / ?v))" by (simp only: pow2_diff_int [OF rl] rne_of_int of_int_le_iff)
    then have 2: "?B \<le> rnd_pos_at p emin r" by (simp add: rnd_pos_at_def pos_divide_le_eq)
    from 1 2 show ?thesis by linarith
  qed
qed

lemma rnd_pos_at_nonneg: "0 \<le> q \<Longrightarrow> 0 \<le> rnd_pos_at p emin q"
  by (simp add: rnd_pos_at_def rne_nonneg less_imp_le)

lemma rnd_at_mono: "0 \<le> p \<Longrightarrow> q \<le> r \<Longrightarrow> rnd_at p emin q \<le> rnd_at p emin r"
  using rnd_pos_at_mono [of p q r emin] rnd_pos_at_mono [of p "- r" "- q" emin]
    rnd_pos_at_nonneg [of r p emin] rnd_pos_at_nonneg [of "- q" p emin]
  by (auto simp: rnd_at_def)

lemma max_finite32_pos [simp]: "- max_finite32 \<le> max_finite32"
  by (simp add: max_finite32_def)

lemma f32_mono: "fle x y \<Longrightarrow> fle (f32 x) (f32 y)"
proof (cases x; cases y)
  fix q r assume "x = Fin q" "y = Fin r" "fle x y"
  then have "rnd_at 23 (- 149) q \<le> rnd_at 23 (- 149) r" by (intro rnd_at_mono) simp_all
  then show ?thesis using \<open>x = Fin q\<close> \<open>y = Fin r\<close> by (auto simp: Let_def fle_def)
qed (auto simp: Let_def fle_def)

lemma f32_fneg: "f32 (fneg x) = fneg (f32 x)"
  using max_finite32_pos by (cases x) (auto simp: Let_def rnd_at_def simp del: max_finite32_pos)

lemma f32_0 [simp]: "f32 (Fin 0) = Fin 0"
  by (simp add: rnd_at_def max_finite32_def)

lemma f32_1 [simp]: "f32 (Fin 1) = Fin 1"
  using rne_of_int [of 8388608]
  by (simp add: rnd_at_def rnd_pos_at_def ulp_at_def flog2_def blen.simps pow2_def max_finite32_def Let_def)

declare f32.simps(1) [simp del]

lemma fneg_nonpos: "fle fzero r \<Longrightarrow> fle (fneg r) fzero"
  by (cases r) (auto simp: fle_def)

lemma isfinite_between: "fle a x \<Longrightarrow> fle x b \<Longrightarrow> isfinite a \<Longrightarrow> isfinite b \<Longrightarrow> isfinite x"
  by (cases a; cases b; cases x) (auto simp: fle_def)

lemma isfinite_fneg [simp]: "isfinite (fneg x) = isfinite x"
  by (cases x) auto

text \<open>Literals of the code.\<close>

definition eps6 :: pyfloat where "eps6 = fl (1 / 1000000)"

lemma eps6_eq: "eps6 = Fin (4722366482869645 / 4722366482869645213696)"
  by (simp add: eps6_def fl_eval)

lemma tenth_eq: "fl (1 / 10) = Fin (3602879701896397 / 36028797018963968)"
  by (simp add: fl_eval)

lemma pymax_nonneg: "fle fzero (pymax fzero x)"
  by (cases x) (auto simp: pymax_def fle_def)

lemma eps6_le_pymax: "fle eps6 (pymax eps6 x)"
  by (cases x) (auto simp: pymax_def fle_def eps6_eq)

lemma eps6_le_nonneg: "fle eps6 x \<Longrightarrow> fle (fneg x) x \<and> flt fzero x"
  by (cases x) (auto simp: fle_def eps6_eq)

lemma fl_between:
  assumes "- of_int n \<le> q" "q \<le> of_int n" "0 \<le> n" "n \<le> 2 ^ 53"
  obtains r where "fl q = Fin r" "- of_int n \<le> r" "r \<le> of_int n"
proof -
  have "fl (of_int n) = Fin (of_int n)" "fl (- of_int n) = Fin (- of_int n)"
    using fl_of_int [of n] assms(3,4) by (simp_all add: fl_minus)
  then have "fle (Fin (- of_int n)) (fl q)" "fle (fl q) (Fin (of_int n))"
    using fl_mono [OF assms(1)] fl_mono [OF assms(2)] by simp_all
  then show ?thesis using fle_between_finite that by blast
qed

end
