(* ===== verification/Prelude.thy ===== *)
theory Prelude
  imports Py_Float "HOL-Library.Word"
begin

section \<open>Shared types, lemmas and interfaces\<close>

text \<open>
  What every component of the development uses: results with an error as a value, collections of
  hints, machines run over lists of inputs, and the interfaces (locales) that several components
  implement: a stream decoder, a machine with an invariant, a latch, a gate for time stamps.
\<close>

named_theorems machine_simps \<open>step equations of the components' machines\<close>
named_theorems inv_intros \<open>preservation of the components' invariants\<close>

subsection \<open>Results\<close>

text \<open>A call that may raise: \<open>Inl\<close> the exception, \<open>Inr\<close> the value.\<close>

type_synonym ('e, 'a) result = "'e + 'a"

fun bind_res :: "'e + 'a \<Rightarrow> ('a \<Rightarrow> 'e + 'b) \<Rightarrow> 'e + 'b" where
  "bind_res (Inl e) f = Inl e"
| "bind_res (Inr x) f = f x"

definition raise_if :: "bool \<Rightarrow> 'e \<Rightarrow> 'e + unit" where
  "raise_if b e = (if b then Inl e else Inr ())"

fun of_option :: "'e \<Rightarrow> 'a option \<Rightarrow> 'e + 'a" where
  "of_option e None = Inl e"
| "of_option e (Some x) = Inr x"

fun is_ok :: "'e + 'a \<Rightarrow> bool" where
  "is_ok (Inl e) = False"
| "is_ok (Inr x) = True"

fun map_res :: "('a \<Rightarrow> 'e + 'b) \<Rightarrow> 'a list \<Rightarrow> 'e + 'b list" where
  "map_res f [] = Inr []"
| "map_res f (x # xs) = bind_res (f x) (\<lambda>y. bind_res (map_res f xs) (\<lambda>ys. Inr (y # ys)))"

lemma bind_res_eq_Inr: "bind_res r f = Inr y \<longleftrightarrow> (\<exists>x. r = Inr x \<and> f x = Inr y)"
  by (cases r) auto

lemma bind_res_eq_Inl: "bind_res r f = Inl e \<longleftrightarrow> r = Inl e \<or> (\<exists>x. r = Inr x \<and> f x = Inl e)"
  by (cases r) auto

lemma raise_if_eq_Inr [simp]: "raise_if b e = Inr u \<longleftrightarrow> \<not> b"
  by (simp add: raise_if_def)

lemma raise_if_eq_Inl [simp]: "raise_if b e = Inl x \<longleftrightarrow> b \<and> x = e"
  by (auto simp: raise_if_def)

lemma raise_if_False [simp]: "raise_if False e = Inr ()"
  by (simp add: raise_if_def)

lemma raise_if_True [simp]: "raise_if True e = Inl e"
  by (simp add: raise_if_def)

lemma of_option_eq_Inr [simp]: "of_option e x = Inr y \<longleftrightarrow> x = Some y"
  by (cases x) auto

lemma of_option_eq_Inl [simp]: "of_option e x = Inl d \<longleftrightarrow> x = None \<and> d = e"
  by (cases x) auto

lemma is_ok_iff: "is_ok r \<longleftrightarrow> (\<exists>x. r = Inr x)"
  by (cases r) auto

lemma map_res_Inr_length: "map_res f xs = Inr ys \<Longrightarrow> length ys = length xs"
  by (induction xs arbitrary: ys) (auto simp: bind_res_eq_Inr)

lemma map_res_Inr_nth:
  "map_res f xs = Inr ys \<Longrightarrow> i < length xs \<Longrightarrow> f (xs ! i) = Inr (ys ! i)"
  by (induction xs arbitrary: ys i) (auto simp: bind_res_eq_Inr nth_Cons split: nat.splits)

lemma map_res_Inr_set:
  "map_res f xs = Inr ys \<Longrightarrow> y \<in> set ys \<Longrightarrow> \<exists>x\<in>set xs. f x = Inr y"
  by (induction xs arbitrary: ys) (auto simp: bind_res_eq_Inr)

subsection \<open>Strings\<close>

text \<open>
  Python strings whose code points are below 256, as lists of characters: \<open>str.strip()\<close> and
  \<open>str.lower()\<close> on them.
\<close>

definition py_space :: "char \<Rightarrow> bool" where
  "py_space c = (let n = (of_char c :: nat) in 9 \<le> n \<and> n \<le> 13 \<or> 28 \<le> n \<and> n \<le> 32 \<or> n = 133 \<or> n = 160)"

definition py_strip :: "string \<Rightarrow> string" where
  "py_strip s = rev (dropWhile py_space (rev (dropWhile py_space s)))"

definition py_lower_char :: "char \<Rightarrow> char" where
  "py_lower_char c = (let n = (of_char c :: nat) in
     if 65 \<le> n \<and> n \<le> 90 \<or> 192 \<le> n \<and> n \<le> 222 \<and> n \<noteq> 215 then char_of (n + 32) else c)"

definition py_lower :: "string \<Rightarrow> string" where
  "py_lower s = map py_lower_char s"

lemma py_strip_Nil [simp]: "py_strip [] = []"
  by (simp add: py_strip_def)

lemma py_strip_idem [simp]: "py_strip (py_strip s) = py_strip s"
proof -
  define t where "t = dropWhile py_space s"
  have d: "dropWhile py_space (dropWhile py_space x) = dropWhile py_space x" for x
    by (simp add: dropWhile_idem)
  have "dropWhile py_space (rev (dropWhile py_space (rev t))) = rev (dropWhile py_space (rev t))"
  proof (cases "dropWhile py_space (rev t)")
    case (Cons c cs)
    obtain u where u: "rev t = u @ dropWhile py_space (rev t)" by (metis takeWhile_dropWhile_id)
    then have "t = rev (dropWhile py_space (rev t)) @ rev u" by (metis rev_append rev_rev_ident)
    then have "hd (rev (dropWhile py_space (rev t))) = hd t" using Cons by (metis hd_append2 list.distinct(1) rev_is_Nil_conv)
    moreover have "t \<noteq> []" using Cons by auto
    then have "\<not> py_space (hd t)" unfolding t_def by (metis hd_dropWhile)
    ultimately show ?thesis using Cons by (cases "rev (dropWhile py_space (rev t))") auto
  next
    case Nil
    then show ?thesis by (simp only: Nil rev.simps dropWhile.simps)
  qed
  then show ?thesis by (simp add: py_strip_def d flip: t_def)
qed

subsection \<open>Machines\<close>

text \<open>A component run over a list of inputs: the final state and the outputs, in order.\<close>

primrec run :: "('s \<Rightarrow> 'i \<Rightarrow> 's \<times> 'o list) \<Rightarrow> 's \<Rightarrow> 'i list \<Rightarrow> 's \<times> 'o list" where
  "run step s [] = (s, [])"
| "run step s (i # is) =
     (let (s1, os) = step s i; (s2, ps) = run step s1 is in (s2, os @ ps))"

lemma run_append:
  "run step s (is @ js) =
     (let (s1, os) = run step s is; (s2, ps) = run step s1 js in (s2, os @ ps))"
  by (induction "is" arbitrary: s) (auto simp: Let_def split: prod.splits)

lemma run_Cons:
  "run step s (i # is) =
     (fst (run step (fst (step s i)) is), snd (step s i) @ snd (run step (fst (step s i)) is))"
  by (simp add: Let_def case_prod_unfold)

lemma foldl_inv: "P s \<Longrightarrow> (\<And>s i. P s \<Longrightarrow> P (f s i)) \<Longrightarrow> P (foldl f s is)"
  by (induction "is" arbitrary: s) auto

text \<open>The interface of a machine whose steps keep an invariant, and of one that latches.\<close>

locale machine =
  fixes step :: "'s \<Rightarrow> 'i \<Rightarrow> 's \<times> 'o list"
    and inv :: "'s \<Rightarrow> bool"
  assumes step_inv: "inv s \<Longrightarrow> inv (fst (step s i))"
begin

lemma run_inv: "inv s \<Longrightarrow> inv (fst (run step s is))"
proof (induction "is" arbitrary: s)
  case (Cons i "is")
  then have "inv (fst (run step (fst (step s i)) is))" using step_inv by blast
  then show ?case
    by (cases "step s i"; cases "run step (fst (step s i)) is") (auto simp: Let_def)
qed simp

end

locale latch = machine step latched
  for step :: "'s \<Rightarrow> 'i \<Rightarrow> 's \<times> 'o list" and latched :: "'s \<Rightarrow> bool" +
  fixes allowed :: "'o \<Rightarrow> bool"
  assumes latched_out: "latched s \<Longrightarrow> x \<in> set (snd (step s i)) \<Longrightarrow> allowed x"
begin

lemma run_out: "latched s \<Longrightarrow> x \<in> set (snd (run step s is)) \<Longrightarrow> allowed x"
proof (induction "is" arbitrary: s)
  case (Cons i "is")
  obtain s1 os where st: "step s i = (s1, os)" by fastforce
  moreover have "latched s1" using step_inv [OF Cons.prems(1), of i] st by simp
  ultimately show ?case
    using Cons latched_out [OF Cons.prems(1), of x i] by (auto simp: Let_def split: prod.splits)
qed simp

end

subsection \<open>Stamp gates\<close>

text \<open>
  Several components accept an input only when its time stamp is later than the last one accepted.
  The interface states what one step does; the lemma is what makes replayed or reordered inputs
  harmless: the stamps of the inputs accepted over a run increase strictly.
\<close>

primrec accepted_stamps ::
    "('s \<Rightarrow> 'i \<Rightarrow> 's) \<Rightarrow> ('s \<Rightarrow> 'i \<Rightarrow> bool) \<Rightarrow> ('i \<Rightarrow> 'k) \<Rightarrow> 's \<Rightarrow> 'i list \<Rightarrow> 'k list" where
  "accepted_stamps step acc stamp s [] = []"
| "accepted_stamps step acc stamp s (i # is) =
     (if acc s i then [stamp i] else []) @ accepted_stamps step acc stamp (step s i) is"

locale stamp_gate =
  fixes step :: "'s \<Rightarrow> 'i \<Rightarrow> 's"
    and acc :: "'s \<Rightarrow> 'i \<Rightarrow> bool"
    and stamp :: "'i \<Rightarrow> 'k::linorder"
    and latest :: "'s \<Rightarrow> 'k option"
  assumes accept_new: "acc s i \<Longrightarrow> latest s = Some k \<Longrightarrow> k < stamp i"
    and accept_latest: "acc s i \<Longrightarrow> latest (step s i) = Some (stamp i)"
    and reject_latest: "\<not> acc s i \<Longrightarrow> latest (step s i) = latest s"
begin

lemma accepted_after: "latest s = Some k \<Longrightarrow> list_all (\<lambda>x. k < x) (accepted_stamps step acc stamp s is)"
proof (induction "is" arbitrary: s k)
  case (Cons i "is")
  show ?case
  proof (cases "acc s i")
    case True
    then have "k < stamp i" "latest (step s i) = Some (stamp i)"
      using Cons.prems accept_new accept_latest by auto
    then show ?thesis using Cons.IH [of "step s i" "stamp i"] True
      by (auto simp: list_all_iff dest: less_trans)
  qed (use Cons reject_latest in simp)
qed simp

lemma accepted_sorted: "sorted_wrt (<) (accepted_stamps step acc stamp s is)"
proof (induction "is" arbitrary: s)
  case (Cons i "is")
  then show ?case
    using accepted_after [of "step s i" "stamp i" "is"] accept_latest [of s i]
    by (auto simp: list_all_iff)
qed simp

end

subsection \<open>Stream decoders\<close>

text \<open>
  A decoder of a byte stream looks at what is buffered, and either waits for more or consumes a
  positive number of bytes and emits some frames. \<open>drain\<close> repeats that until it has to wait.
\<close>

type_synonym ('b, 'f) scanner = "'b list \<Rightarrow> ('f list \<times> nat) option"

primrec drain :: "('b, 'f) scanner \<Rightarrow> nat \<Rightarrow> 'b list \<Rightarrow> 'f list \<times> 'b list" where
  "drain sc 0 xs = ([], xs)"
| "drain sc (Suc k) xs =
     (case sc xs of None \<Rightarrow> ([], xs)
      | Some (fs, n) \<Rightarrow> (let (gs, r) = drain sc k (drop n xs) in (fs @ gs, r)))"

primrec drain_chunks :: "('b, 'f) scanner \<Rightarrow> 'b list \<Rightarrow> 'b list list \<Rightarrow> 'f list \<times> 'b list" where
  "drain_chunks sc buf [] = ([], buf)"
| "drain_chunks sc buf (c # cs) =
     (let (fs, r) = drain sc (length (buf @ c)) (buf @ c); (gs, r2) = drain_chunks sc r cs
      in (fs @ gs, r2))"

locale stream_scanner =
  fixes sc :: "('b, 'f) scanner"
  assumes consumes: "sc xs = Some (fs, n) \<Longrightarrow> 0 < n \<and> n \<le> length xs"
    and stable: "sc xs = Some (fs, n) \<Longrightarrow> sc (xs @ ys) = Some (fs, n)"
begin

lemma sc_Nil: "sc [] = None"
  using consumes [of "[]"] by (cases "sc []") auto

lemma drain_fuel: "length xs \<le> k \<Longrightarrow> drain sc k xs = drain sc (length xs) xs"
proof (induction k arbitrary: xs rule: less_induct)
  case (less k)
  show ?case
  proof (cases "sc xs")
    case None
    then show ?thesis by (cases k; cases "length xs") auto
  next
    case (Some p)
    obtain fs n where p: "p = (fs, n)" by fastforce
    with Some have n: "0 < n" "n \<le> length xs" using consumes by auto
    obtain k' l where k: "k = Suc k'" "length xs = Suc l"
      using less.prems n by (cases k; cases "length xs") auto
    have "drain sc k' (drop n xs) = drain sc (length (drop n xs)) (drop n xs)"
      using less.IH [of k' "drop n xs"] k n less.prems by simp
    moreover have "drain sc l (drop n xs) = drain sc (length (drop n xs)) (drop n xs)"
      using less.IH [of l "drop n xs"] k n less.prems
      by (cases "l = k'") (auto simp: calculation)
    ultimately show ?thesis using k Some p by simp
  qed
qed

lemma drain_step:
  "sc xs = Some (fs, n) \<Longrightarrow> drain sc (length xs) xs =
     (let (gs, r) = drain sc (length (drop n xs)) (drop n xs) in (fs @ gs, r))"
proof -
  assume a: "sc xs = Some (fs, n)"
  then have n: "0 < n" "n \<le> length xs" using consumes by auto
  then obtain l where l: "length xs = Suc l" by (cases "length xs") auto
  then have "drain sc l (drop n xs) = drain sc (length (drop n xs)) (drop n xs)"
    using n by (intro drain_fuel) simp
  then show ?thesis using a l by simp
qed

lemma drain_wait: "sc xs = None \<Longrightarrow> drain sc (length xs) xs = ([], xs)"
  by (cases "length xs") auto

lemma drain_append:
  "drain sc (length (xs @ ys)) (xs @ ys) =
     (let (fs, r) = drain sc (length xs) xs; (gs, r2) = drain sc (length (r @ ys)) (r @ ys)
      in (fs @ gs, r2))"
proof (induction "length xs" arbitrary: xs rule: less_induct)
  case less
  show ?case
  proof (cases "sc xs")
    case None
    then show ?thesis by (simp add: drain_wait del: length_append)
  next
    case (Some p)
    obtain fs n where p: "p = (fs, n)" by fastforce
    with Some have n: "0 < n" "n \<le> length xs" using consumes by auto
    have "sc (xs @ ys) = Some (fs, n)" using stable Some p by simp
    moreover have "drop n (xs @ ys) = drop n xs @ ys" using n by simp
    ultimately show ?thesis
      using less.hyps [of "drop n xs"] n Some p
      by (simp add: drain_step Let_def split: prod.splits del: length_append)
  qed
qed

lemma drain_residual_waits: "drain sc (length xs) xs = (fs, r) \<Longrightarrow> sc r = None"
proof (induction "length xs" arbitrary: xs fs rule: less_induct)
  case less
  show ?case
  proof (cases "sc xs")
    case None
    then show ?thesis using less.prems by (simp add: drain_wait)
  next
    case (Some p)
    obtain gs n where p: "p = (gs, n)" by fastforce
    then have "0 < n" "n \<le> length xs" using consumes Some by auto
    then show ?thesis using less.hyps [of "drop n xs"] less.prems p Some
      by (auto simp: drain_step Let_def split: prod.splits)
  qed
qed

text \<open>Cutting the stream into chunks changes nothing.\<close>

lemma drain_chunks_concat:
  "sc buf = None \<Longrightarrow>
     drain_chunks sc buf cs = drain sc (length (buf @ concat cs)) (buf @ concat cs)"
proof (induction cs arbitrary: buf)
  case Nil
  then show ?case by (simp add: drain_wait)
next
  case (Cons c cs)
  obtain fs r where d: "drain sc (length (buf @ c)) (buf @ c) = (fs, r)" by fastforce
  then have "sc r = None" by (rule drain_residual_waits)
  then have "drain_chunks sc r cs = drain sc (length (r @ concat cs)) (r @ concat cs)"
    by (rule Cons.IH)
  then show ?case
    using drain_append [of "buf @ c" "concat cs"] d by (simp add: Let_def del: length_append)
qed

end

end
