(* ===== verification/Esp_Protocol.thy ===== *)
theory Esp_Protocol
  imports Prelude
begin

unbundle bit_operations_syntax

section \<open>The UART protocol between the Raspberry Pi and the ESP32\<close>

text \<open>
  \<open>rpy_esp32_comms/controller.py\<close>, \<open>protocol.py\<close> and \<open>telemetry.py\<close> of the package
  \<open>salus_control\<close>: the command state with its clamping setters, the CRC, the encoder of command
  frames, the decoders of telemetry and battery frames and the resynchronising parser.
  Bytes are \<open>8 word\<close>; the integers the decoders assemble are Python ints.
\<close>

type_synonym byte = "8 word"

subsection \<open>CommandState\<close>

record command_state =
  cs_drive_enabled :: bool
  cs_estop :: bool
  cs_hazard_enabled :: bool
  cs_steer_pct :: int
  cs_speed_mps :: pyfloat
  cs_brake_pct :: int
  cs_max_speed_mps :: pyfloat
  cs_max_reverse_mps :: pyfloat

definition default_max_speed :: pyfloat where "default_max_speed = Fin 12"
definition default_max_reverse :: pyfloat where "default_max_reverse = fl (13 / 10)"

definition fclamp :: "pyfloat \<Rightarrow> pyfloat \<Rightarrow> pyfloat \<Rightarrow> pyfloat" where
  "fclamp value low high = pymax low (pymin high value)"

definition iclamp :: "int \<Rightarrow> int \<Rightarrow> int \<Rightarrow> int" where
  "iclamp value low high = max low (min high value)"

definition new_command_state :: "pyfloat \<Rightarrow> pyfloat \<Rightarrow> command_state" where
  "new_command_state max_speed max_reverse =
     \<lparr> cs_drive_enabled = False, cs_estop = False, cs_hazard_enabled = False, cs_steer_pct = 0,
       cs_speed_mps = fzero, cs_brake_pct = 0, cs_max_speed_mps = max_speed,
       cs_max_reverse_mps = max_reverse \<rparr>"

definition set_speed_mps :: "command_state \<Rightarrow> pyfloat \<Rightarrow> command_state \<times> pyfloat" where
  "set_speed_mps s value =
     (let clamped = fclamp value (fneg (cs_max_reverse_mps s)) (cs_max_speed_mps s)
      in (s \<lparr> cs_speed_mps := clamped \<rparr>, clamped))"

definition set_steer_pct :: "command_state \<Rightarrow> int \<Rightarrow> command_state \<times> int" where
  "set_steer_pct s value =
     (let clamped = iclamp value (- 100) 100 in (s \<lparr> cs_steer_pct := clamped \<rparr>, clamped))"

definition set_brake_pct :: "command_state \<Rightarrow> int \<Rightarrow> command_state \<times> int" where
  "set_brake_pct s value =
     (let clamped = iclamp value 0 100 in (s \<lparr> cs_brake_pct := clamped \<rparr>, clamped))"

definition set_drive_enabled :: "command_state \<Rightarrow> bool \<Rightarrow> command_state" where
  "set_drive_enabled s enabled = s \<lparr> cs_drive_enabled := enabled \<rparr>"

definition set_estop :: "command_state \<Rightarrow> bool \<Rightarrow> command_state" where
  "set_estop s enabled = s \<lparr> cs_estop := enabled \<rparr>"

definition set_hazard_enabled :: "command_state \<Rightarrow> bool \<Rightarrow> command_state" where
  "set_hazard_enabled s enabled = s \<lparr> cs_hazard_enabled := enabled \<rparr>"

definition safe_reset :: "command_state \<Rightarrow> command_state" where
  "safe_reset s =
     s \<lparr> cs_drive_enabled := False, cs_estop := False, cs_hazard_enabled := False,
         cs_speed_mps := fzero, cs_steer_pct := 0, cs_brake_pct := 0 \<rparr>"

text \<open>The setters never leave the ranges the frame encoder assumes.\<close>

definition command_state_ok :: "command_state \<Rightarrow> bool" where
  "command_state_ok s \<longleftrightarrow>
     isfinite (cs_max_speed_mps s) \<and> isfinite (cs_max_reverse_mps s) \<and>
     fle fzero (cs_max_speed_mps s) \<and> fle fzero (cs_max_reverse_mps s) \<and>
     fle (fneg (cs_max_reverse_mps s)) (cs_speed_mps s) \<and>
     fle (cs_speed_mps s) (cs_max_speed_mps s) \<and>
     - 100 \<le> cs_steer_pct s \<and> cs_steer_pct s \<le> 100 \<and>
     0 \<le> cs_brake_pct s \<and> cs_brake_pct s \<le> 100"

subsection \<open>Constants and CRC\<close>

definition pi_header :: byte where "pi_header = 0xAA"
definition esp_header :: byte where "esp_header = 0x55"
definition battery_header :: byte where "battery_header = 0x56"
definition valid_rx_headers :: "byte list" where
  "valid_rx_headers = [esp_header, battery_header]"
definition frame_size :: nat where "frame_size = 8"
definition protocol_version :: byte where "protocol_version = 2"

primrec crc_bits :: "nat \<Rightarrow> byte \<Rightarrow> byte" where
  "crc_bits 0 crc = crc"
| "crc_bits (Suc k) crc =
     crc_bits k (if crc AND 0x80 \<noteq> 0 then push_bit 1 crc XOR 0x31 else push_bit 1 crc)"

definition crc_byte :: "byte \<Rightarrow> byte \<Rightarrow> byte" where
  "crc_byte crc b = crc_bits 8 (crc XOR b)"

definition crc8_maxim :: "byte list \<Rightarrow> byte" where
  "crc8_maxim data = foldl crc_byte 0 data"

subsection \<open>Encoding a command frame\<close>

definition cmd_flags :: "command_state \<Rightarrow> byte" where
  "cmd_flags s =
     (if cs_estop s then 1 else 0) OR (if cs_drive_enabled s then 2 else 0) OR
     (if cs_hazard_enabled s then 8 else 0) OR (if flt (cs_speed_mps s) fzero then 4 else 0)"

definition ver_flags :: "command_state \<Rightarrow> byte" where
  "ver_flags s = push_bit 4 (protocol_version AND 0x0F) OR (cmd_flags s AND 0x0F)"

text \<open>\<open>int(round(abs(speed) * 100.0))\<close>: \<open>None\<close> where Python raises, on an infinity or NaN.\<close>

definition speed_centi :: "pyfloat \<Rightarrow> int option" where
  "speed_centi v = map_option (\<lambda>n. max 0 (min 65535 n)) (py_round (fmul (fabs v) (Fin 100)))"

definition encode_pi_frame :: "command_state \<Rightarrow> byte list option" where
  "encode_pi_frame s =
     (case speed_centi (cs_speed_mps s) of
        None \<Rightarrow> None
      | Some c \<Rightarrow>
          (let steer_i8 = max (- 100) (min 100 (cs_steer_pct s));
               brake_u8 = max 0 (min 100 (cs_brake_pct s));
               body = [pi_header, ver_flags s, word_of_int (steer_i8 AND 0xFF),
                       word_of_int (c AND 0xFF), word_of_int (drop_bit 8 c AND 0xFF),
                       word_of_int brake_u8]
           in Some (body @ [crc8_maxim body])))"

subsection \<open>Telemetry\<close>

datatype control_source = SrcNone | SrcPi | SrcRc | SrcTel

record telemetry =
  tel_status_flags :: byte
  tel_speed_mps :: "pyfloat option"
  tel_steer_deg :: "pyfloat option"
  tel_brake_applied_pct :: byte
  tel_raw_speed :: int
  tel_raw_steer :: int
  tel_rx_s :: pyfloat

definition tel_ready :: "telemetry \<Rightarrow> bool" where
  "tel_ready t = bit (tel_status_flags t) 0"
definition tel_estop_active :: "telemetry \<Rightarrow> bool" where
  "tel_estop_active t = bit (tel_status_flags t) 1"
definition tel_failsafe_active :: "telemetry \<Rightarrow> bool" where
  "tel_failsafe_active t = bit (tel_status_flags t) 2"
definition tel_pi_fresh :: "telemetry \<Rightarrow> bool" where
  "tel_pi_fresh t = bit (tel_status_flags t) 3"
definition tel_overspeed_active :: "telemetry \<Rightarrow> bool" where
  "tel_overspeed_active t = bit (tel_status_flags t) 6"

text \<open>\<open>ControlSource(n)\<close>: \<open>None\<close> is the \<open>ValueError\<close> of an unknown member.\<close>

definition control_source_of :: "int \<Rightarrow> control_source option" where
  "control_source_of n =
     (if n = 0 then Some SrcNone else if n = 1 then Some SrcPi
      else if n = 2 then Some SrcRc else if n = 3 then Some SrcTel else None)"

definition tel_control_source :: "telemetry \<Rightarrow> control_source option" where
  "tel_control_source t = control_source_of (uint (drop_bit 4 (tel_status_flags t) AND 0x03))"

record battery_telemetry =
  bt_status_flags :: byte
  bt_battery_voltage_v :: pyfloat
  bt_adc_pin_voltage_v :: pyfloat
  bt_sample_age_s :: pyfloat
  bt_raw_battery :: int
  bt_raw_adc :: int
  bt_raw_age :: int
  bt_rx_s :: pyfloat

definition bt_ready :: "battery_telemetry \<Rightarrow> bool" where
  "bt_ready t = bit (bt_status_flags t) 0"
definition bt_fresh :: "battery_telemetry \<Rightarrow> bool" where
  "bt_fresh t = bit (bt_status_flags t) 1"
definition bt_suspect :: "battery_telemetry \<Rightarrow> bool" where
  "bt_suspect t = bit (bt_status_flags t) 2"
definition bt_calibrated :: "battery_telemetry \<Rightarrow> bool" where
  "bt_calibrated t = bit (bt_status_flags t) 3"

subsection \<open>Decoding\<close>

datatype frame_error =
    FrameLength nat
  | FrameHeader byte
  | FrameCrc byte byte
  | FrameEmpty
  | FrameUnsupported byte

definition le16 :: "byte \<Rightarrow> byte \<Rightarrow> int" where
  "le16 lo hi = uint lo OR push_bit 8 (uint hi)"

text \<open>\<open>struct.unpack("<h", ...)\<close>: two's complement, little endian.\<close>

definition le16s :: "byte \<Rightarrow> byte \<Rightarrow> int" where
  "le16s lo hi = (let n = le16 lo hi in if n < 32768 then n else n - 65536)"

definition check_frame :: "byte \<Rightarrow> byte list \<Rightarrow> frame_error + unit" where
  "check_frame header frame =
     bind_res (raise_if (length frame \<noteq> frame_size) (FrameLength (length frame))) (\<lambda>_.
     bind_res (raise_if (frame ! 0 \<noteq> header) (FrameHeader (frame ! 0))) (\<lambda>_.
       raise_if (last frame \<noteq> crc8_maxim (butlast frame))
                (FrameCrc (last frame) (crc8_maxim (butlast frame)))))"

definition decode_esp_frame :: "byte list \<Rightarrow> pyfloat \<Rightarrow> frame_error + telemetry" where
  "decode_esp_frame frame now =
     bind_res (check_frame esp_header frame) (\<lambda>_.
       (let speed_raw = le16 (frame ! 2) (frame ! 3);
            steer_raw = le16s (frame ! 4) (frame ! 5)
        in Inr \<lparr> tel_status_flags = frame ! 1,
                 tel_speed_mps = (if speed_raw = 65535 then None
                                  else fdiv (Fin (of_int speed_raw)) (Fin 100)),
                 tel_steer_deg = (if steer_raw = - 32768 then None
                                  else fdiv (Fin (of_int steer_raw)) (Fin 100)),
                 tel_brake_applied_pct = frame ! 6,
                 tel_raw_speed = speed_raw,
                 tel_raw_steer = steer_raw,
                 tel_rx_s = now \<rparr>))"

definition decode_battery_frame :: "byte list \<Rightarrow> pyfloat \<Rightarrow> frame_error + battery_telemetry" where
  "decode_battery_frame frame now =
     bind_res (check_frame battery_header frame) (\<lambda>_.
       (let battery_raw = le16 (frame ! 2) (frame ! 3);
            adc_raw = le16 (frame ! 4) (frame ! 5);
            age = uint (frame ! 6)
        in Inr \<lparr> bt_status_flags = frame ! 1,
                 bt_battery_voltage_v = fl (of_int battery_raw / 100),
                 bt_adc_pin_voltage_v = fl (of_int adc_raw / 1000),
                 bt_sample_age_s = fl (of_int age / 10),
                 bt_raw_battery = battery_raw,
                 bt_raw_adc = adc_raw,
                 bt_raw_age = age,
                 bt_rx_s = now \<rparr>))"

datatype rx_frame = TelemetryFrame telemetry | BatteryFrame battery_telemetry

definition decode_transport_frame :: "byte list \<Rightarrow> pyfloat \<Rightarrow> frame_error + rx_frame" where
  "decode_transport_frame frame now =
     (if frame = [] then Inl FrameEmpty
      else if frame ! 0 = esp_header
      then bind_res (decode_esp_frame frame now) (\<lambda>t. Inr (TelemetryFrame t))
      else if frame ! 0 = battery_header
      then bind_res (decode_battery_frame frame now) (\<lambda>t. Inr (BatteryFrame t))
      else Inl (FrameUnsupported (frame ! 0)))"

subsection \<open>EspFrameParser\<close>

record parser =
  p_buffer :: "byte list"
  p_dropped :: nat
  p_crc_errors :: nat

definition new_parser :: parser where
  "new_parser = \<lparr> p_buffer = [], p_dropped = 0, p_crc_errors = 0 \<rparr>"

definition parser_reset :: "parser \<Rightarrow> parser" where
  "parser_reset p = p \<lparr> p_buffer := [] \<rparr>"

text \<open>\<open>bytearray.find\<close>, \<open>None\<close> for -1; the smallest index over the valid headers.\<close>

primrec bytes_find :: "byte \<Rightarrow> byte list \<Rightarrow> nat option" where
  "bytes_find h [] = None"
| "bytes_find h (b # bs) = (if b = h then Some 0 else map_option Suc (bytes_find h bs))"

fun opt_min :: "nat option \<Rightarrow> nat option \<Rightarrow> nat option" where
  "opt_min None y = y"
| "opt_min x None = x"
| "opt_min (Some a) (Some b) = Some (min a b)"

definition header_index :: "byte list \<Rightarrow> nat option" where
  "header_index bs = foldr (\<lambda>h acc. opt_min (bytes_find h bs) acc) valid_rx_headers None"

text \<open>The first half of the loop body: cut the buffer at the first header, or clear it.\<close>

definition align :: "parser \<Rightarrow> parser" where
  "align p =
     (if p_buffer p ! 0 \<in> set valid_rx_headers then p
      else case header_index (p_buffer p) of
        None \<Rightarrow> p \<lparr> p_buffer := [], p_dropped := p_dropped p + length (p_buffer p) \<rparr>
      | Some i \<Rightarrow> p \<lparr> p_buffer := drop i (p_buffer p), p_dropped := p_dropped p + i \<rparr>)"

lemma align_length: "length (p_buffer (align p)) \<le> length (p_buffer p)"
  by (simp add: align_def split: option.splits)

function feed_loop :: "parser \<Rightarrow> parser \<times> byte list list" where
  "feed_loop p =
     (if length (p_buffer p) < frame_size then (p, [])
      else
        (let q = align p in
         if length (p_buffer q) < frame_size then (q, [])
         else
           (let candidate = take frame_size (p_buffer q) in
            if last candidate = crc8_maxim (butlast candidate)
            then (let (r, fs) = feed_loop (q \<lparr> p_buffer := drop frame_size (p_buffer q) \<rparr>)
                  in (r, candidate # fs))
            else feed_loop (q \<lparr> p_buffer := tl (p_buffer q), p_dropped := p_dropped q + 1,
                               p_crc_errors := p_crc_errors q + 1 \<rparr>))))"
  by auto
termination
proof (relation "measure (\<lambda>p. length (p_buffer p))", goal_cases)
  case (2 p q c)
  then show ?case using align_length [of p] by (simp add: frame_size_def)
next
  case (3 p q c)
  then show ?case using align_length [of p] by (simp add: frame_size_def)
qed simp

declare feed_loop.simps [simp del]

definition feed :: "parser \<Rightarrow> byte list \<Rightarrow> parser \<times> byte list list" where
  "feed p data = (if data = [] then (p, []) else feed_loop (p \<lparr> p_buffer := p_buffer p @ data \<rparr>))"

text \<open>
  \<open>decode_stream_chunks\<close>: a new parser, the telemetry frames of all chunks in order. The
  \<open>i\<close>-th decoded frame is stamped with \<open>time.monotonic()\<close>, \<open>clock i\<close>.
\<close>

definition decode_stream_chunks :: "byte list list \<Rightarrow> (nat \<Rightarrow> pyfloat) \<Rightarrow> frame_error + telemetry list" where
  "decode_stream_chunks chunks clock =
     map_res (\<lambda>(i, f). decode_esp_frame f (clock i))
       (enumerate 0 (filter (\<lambda>f. f \<noteq> [] \<and> f ! 0 = esp_header) (snd (run feed new_parser chunks))))"

subsection \<open>Lemmas\<close>

lemma fclamp_bounds: "fle low high \<Longrightarrow> fle low (fclamp v low high) \<and> fle (fclamp v low high) high"
  unfolding fclamp_def by (rule pymax_pymin_bounds)

lemma fclamp_id: "fle low v \<Longrightarrow> fle v high \<Longrightarrow> fclamp v low high = v"
  unfolding fclamp_def by (rule pymax_pymin_id)

lemma fclamp_NaN: "fle low high \<Longrightarrow> fclamp NaN low high = high"
  unfolding fclamp_def by (rule pymax_pymin_NaN)

lemma limits_ordered: "fle fzero a \<Longrightarrow> fle fzero b \<Longrightarrow> fle (fneg b) a"
  by (cases a; cases b) (auto simp: fle_def)

datatype setter = SetSpeed pyfloat | SetSteer int | SetBrake int | SetDrive bool | SetEstop bool
  | SetHazard bool | SafeReset

fun apply_setter :: "command_state \<Rightarrow> setter \<Rightarrow> command_state" where
  "apply_setter s (SetSpeed v) = fst (set_speed_mps s v)"
| "apply_setter s (SetSteer n) = fst (set_steer_pct s n)"
| "apply_setter s (SetBrake n) = fst (set_brake_pct s n)"
| "apply_setter s (SetDrive b) = set_drive_enabled s b"
| "apply_setter s (SetEstop b) = set_estop s b"
| "apply_setter s (SetHazard b) = set_hazard_enabled s b"
| "apply_setter s SafeReset = safe_reset s"

lemmas setter_defs = set_speed_mps_def set_steer_pct_def set_brake_pct_def set_drive_enabled_def
  set_estop_def set_hazard_enabled_def safe_reset_def Let_def

lemma apply_setter_ok [inv_intros]: "command_state_ok s \<Longrightarrow> command_state_ok (apply_setter s op)"
proof (cases op)
  case (SetSpeed v)
  assume "command_state_ok s"
  then show ?thesis
    using fclamp_bounds [OF limits_ordered, of "cs_max_speed_mps s" "cs_max_reverse_mps s" v]
    by (simp add: SetSpeed setter_defs command_state_ok_def)
next
  case SafeReset
  assume "command_state_ok s"
  then show ?thesis
    by (cases "cs_max_reverse_mps s") (auto simp: SafeReset setter_defs command_state_ok_def)
qed (auto simp: setter_defs command_state_ok_def iclamp_def)

lemma new_command_state_ok:
  "isfinite a \<Longrightarrow> isfinite b \<Longrightarrow> fle fzero a \<Longrightarrow> fle fzero b \<Longrightarrow>
     command_state_ok (new_command_state a b)"
  by (cases a; cases b) (auto simp: new_command_state_def command_state_ok_def)

lemma crc_test_bit: "(c::byte) AND 0x80 \<noteq> 0 \<longleftrightarrow> bit c 7"
  using and_exp_eq_0_iff_not_bit [of c 7] by simp

lemma crc_step_inj:
  fixes a b :: byte
  assumes "(if bit a 7 then push_bit 1 a XOR 0x31 else push_bit 1 a) =
           (if bit b 7 then push_bit 1 b XOR 0x31 else push_bit 1 b)"
  shows "a = b"
proof (rule bit_eqI)
  fix n assume n: "possible_bit TYPE(byte) n"
  let ?f = "\<lambda>a::byte. if bit a 7 then push_bit 1 a XOR 0x31 else push_bit 1 a"
  have f0: "bit (?f c) 0 = bit c 7" for c :: byte by (simp add: bit_simps bit_0 even_xor_iff)
  have b7: "bit a 7 = bit b 7" using f0 [of a] f0 [of b] assms by simp
  then have p: "push_bit 1 a = push_bit 1 b" using assms
    by (metis (no_types, lifting) xor.assoc xor_self_eq xor.right_neutral)
  show "bit a n = bit b n"
  proof (cases "n = 7")
    case False
    then have "Suc n < 8" using n by simp
    then have "bit (push_bit 1 c) (Suc n) = bit c n" for c :: byte
      by (simp only: bit_push_bit_iff) simp
    then show ?thesis using p by metis
  qed (use b7 in simp)
qed

lemma crc_bits_inj: "crc_bits k a = crc_bits k b \<Longrightarrow> a = b"
proof (induction k arbitrary: a b)
  case (Suc k)
  let ?f = "\<lambda>a::byte. if bit a 7 then push_bit 1 a XOR 0x31 else push_bit 1 a"
  have "crc_bits k (?f a) = crc_bits k (?f b)"
    using Suc.prems by (simp only: crc_bits.simps(2) crc_test_bit)
  then show ?case by (rule crc_step_inj [OF Suc.IH])
qed simp

lemma xor_cancel: "(a::byte) XOR c = b XOR c \<longleftrightarrow> a = b"
  by (metis xor.assoc xor_self_eq xor.right_neutral)

lemma crc_byte_inj: "crc_byte c x = crc_byte c y \<longleftrightarrow> x = y"
  unfolding crc_byte_def by (metis crc_bits_inj xor_cancel xor.commute)

lemma crc_byte_inj_crc: "crc_byte a x = crc_byte b x \<longleftrightarrow> a = b"
  unfolding crc_byte_def by (metis crc_bits_inj xor_cancel)

lemma crc_fold_inj: "foldl crc_byte a xs = foldl crc_byte b xs \<longleftrightarrow> a = b"
  by (induction xs arbitrary: a b) (auto simp: crc_byte_inj_crc)

lemma crc8_one_byte:
  assumes "i < length xs" "x \<noteq> xs ! i"
  shows "crc8_maxim (xs[i := x]) \<noteq> crc8_maxim xs"
proof -
  have "crc8_maxim (xs[i := x]) = foldl crc_byte (crc_byte (foldl crc_byte 0 (take i xs)) x) (drop (Suc i) xs)"
    using assms by (simp add: crc8_maxim_def upd_conv_take_nth_drop)
  moreover have "crc8_maxim xs = foldl crc_byte (crc_byte (foldl crc_byte 0 (take i xs)) (xs ! i)) (drop (Suc i) xs)"
    using assms by (metis crc8_maxim_def foldl_append foldl_Cons id_take_nth_drop)
  ultimately show ?thesis using assms by (simp add: crc_fold_inj crc_byte_inj)
qed

lemma crc_bits_0 [simp]: "crc_bits k 0 = 0"
  by (induction k) auto

lemma crc8_append_self: "crc8_maxim (xs @ [crc8_maxim xs]) = 0"
  by (simp add: crc8_maxim_def crc_byte_def)

lemma check_frame_iff:
  "check_frame h f = Inr u \<longleftrightarrow>
     length f = frame_size \<and> f ! 0 = h \<and> last f = crc8_maxim (butlast f)"
  by (auto simp: check_frame_def bind_res_eq_Inr)

lemma check_frame_ok: "length f = frame_size \<Longrightarrow> f ! 0 = h \<Longrightarrow> last f = crc8_maxim (butlast f) \<Longrightarrow>
   check_frame h f = Inr ()"
  by (simp add: check_frame_iff)

lemma one_byte_frame:
  assumes "last f = crc8_maxim (butlast f)" "i < length f" "x \<noteq> f ! i"
  shows "last (f[i := x]) \<noteq> crc8_maxim (butlast (f[i := x]))"
proof (cases "i = length f - 1")
  case True
  then have "butlast (f[i := x]) = butlast f" by (simp add: butlast_list_update)
  moreover have "last (f[i := x]) = x" "last f = f ! i" using True assms(2)
    by (auto simp: last_conv_nth simp flip: length_greater_0_conv)
  ultimately show ?thesis using assms by simp
next
  case False
  then have i: "i < length (butlast f)" using assms(2) by simp
  have "butlast (f[i := x]) = (butlast f)[i := x]" using False by (simp add: butlast_list_update)
  moreover have "last (f[i := x]) = last f" using False assms(2)
    by (metis One_nat_def last_list_update length_greater_0_conv list.size(3) not_less_zero)
  moreover have "butlast f ! i = f ! i" using i by (simp add: nth_butlast)
  ultimately show ?thesis using crc8_one_byte [OF i, of x] assms by simp
qed

lemma le16_eq: "le16 lo hi = uint lo + 256 * uint hi"
proof -
  have "le16 lo hi = uint lo + push_bit 8 (uint hi)"
    unfolding le16_def
    by (intro disjunctive_add [symmetric]) (auto simp: bit_push_bit_iff bit_uint_iff)
  then show ?thesis by (simp add: push_bit_eq_mult)
qed

lemma uint_byte: "0 \<le> uint (b::byte)" "uint (b::byte) < 256"
  using uint_lt2p [of b] by simp_all

lemma le16_bounds: "0 \<le> le16 lo hi" "le16 lo hi < 65536"
  using uint_byte [of lo] uint_byte [of hi] by (simp_all add: le16_eq)

lemma le16s_bounds: "- 32768 \<le> le16s lo hi" "le16s lo hi < 32768"
  using le16_bounds [of lo hi] by (auto simp: le16s_def Let_def)

lemma le16_split:
  assumes "0 \<le> n" "n < 65536"
  shows "le16 (word_of_int (n AND 0xFF)) (word_of_int (drop_bit 8 n AND 0xFF)) = n"
proof -
  have m: "k AND 0xFF = k mod 256" for k :: int
  proof -
    have "k AND 0xFF = take_bit 8 k" by (simp add: take_bit_eq_mask mask_eq_exp_minus_1)
    then show ?thesis by (simp add: take_bit_eq_mod)
  qed
  have "n div 256 < 256" "0 \<le> n div 256" using assms by auto
  then show ?thesis by (simp add: le16_eq m uint_word_of_int drop_bit_eq_div)
qed


lemma encode_pi_frame_some_iff:
  "encode_pi_frame s = None \<longleftrightarrow> \<not> isfinite (fmul (fabs (cs_speed_mps s)) (Fin 100))"
  by (cases "fmul (fabs (cs_speed_mps s)) (Fin 100)") (auto simp: encode_pi_frame_def speed_centi_def Let_def)

lemma speed_centi_range: "speed_centi v = Some c \<Longrightarrow> 0 \<le> c \<and> c < 65536"
  by (auto simp: speed_centi_def)

subsection \<open>The parser as a stream decoder\<close>

abbreviation junk :: "byte \<Rightarrow> bool" where "junk b \<equiv> b \<notin> set valid_rx_headers"

abbreviation crc_valid :: "byte list \<Rightarrow> bool" where
  "crc_valid f \<equiv> last f = crc8_maxim (butlast f)"

definition valid_frame :: "byte list \<Rightarrow> bool" where
  "valid_frame f \<longleftrightarrow> length f = frame_size \<and> f ! 0 \<in> set valid_rx_headers \<and> crc_valid f"

definition esp_scan :: "(byte, byte list) scanner" where
  "esp_scan bs =
     (if bs = [] then None
      else if junk (bs ! 0) then Some ([], 1)
      else if length bs < frame_size then None
      else if crc_valid (take frame_size bs) then Some ([take frame_size bs], frame_size)
      else Some ([], 1))"

interpretation esp: stream_scanner esp_scan
  by unfold_locales (auto simp: esp_scan_def frame_size_def nth_append Suc_le_eq split: if_splits)

lemma drain_junk: "list_all junk js \<Longrightarrow>
   drain esp_scan (length (js @ xs)) (js @ xs) = drain esp_scan (length xs) xs"
proof (induction js)
  case (Cons j js)
  then have "esp_scan ((j # js) @ xs) = Some ([], 1)" by (simp add: esp_scan_def)
  then show ?case using Cons esp.drain_step [of "(j # js) @ xs"] by simp
qed simp

lemma drain_dropWhile: "drain esp_scan (length (dropWhile junk r @ ys)) (dropWhile junk r @ ys) =
   drain esp_scan (length (r @ ys)) (r @ ys)"
proof -
  have "list_all junk (takeWhile junk r)" by (auto simp: list_all_iff dest: set_takeWhileD)
  then have "drain esp_scan (length (takeWhile junk r @ (dropWhile junk r @ ys))) (takeWhile junk r @ (dropWhile junk r @ ys)) =
    drain esp_scan (length (dropWhile junk r @ ys)) (dropWhile junk r @ ys)" by (rule drain_junk)
  then show ?thesis by (simp flip: append_assoc add: takeWhile_dropWhile_id del: length_append)
qed

lemma drain_short: "length xs < frame_size \<Longrightarrow> drain esp_scan (length xs) xs = ([], dropWhile junk xs)"
proof -
  assume a: "length xs < frame_size"
  have "length (dropWhile junk xs) \<le> length xs" by (rule length_dropWhile_le)
  then have "esp_scan (dropWhile junk xs) = None"
    using a hd_dropWhile [of junk xs] by (auto simp: esp_scan_def hd_conv_nth)
  then show ?thesis using drain_dropWhile [of xs "[]"] esp.drain_wait by simp
qed

lemma header_index_Cons:
  "header_index (b # bs) = (if junk b then map_option Suc (header_index bs) else Some 0)"
  by (cases "bytes_find esp_header bs"; cases "bytes_find battery_header bs")
     (auto simp: header_index_def valid_rx_headers_def)

lemma header_index_dropWhile:
  "dropWhile junk bs = (case header_index bs of None \<Rightarrow> [] | Some i \<Rightarrow> drop i bs)"
proof (induction bs)
  case Nil
  then show ?case by (simp add: header_index_def valid_rx_headers_def)
next
  case (Cons b bs)
  then show ?case by (auto simp: header_index_Cons split: option.splits)
qed

lemma align_buffer: "p_buffer p \<noteq> [] \<Longrightarrow> p_buffer (align p) = dropWhile junk (p_buffer p)"
  by (cases "p_buffer p")
     (auto simp: align_def header_index_dropWhile simp del: dropWhile.simps
        simp add: dropWhile_eq_self_iff header_index_Cons split: option.splits)

lemma align_count:
  "length (p_buffer (align p)) + p_dropped (align p) = length (p_buffer p) + p_dropped p"
proof -
  have "header_index bs = Some i \<Longrightarrow> i < length bs" for bs i
    by (induction bs arbitrary: i) (auto simp: header_index_Cons split: if_splits, simp add: header_index_def valid_rx_headers_def)
  then show ?thesis by (fastforce simp: align_def split: option.splits dest: less_imp_le)
qed

lemma align_head:
  "p_buffer p \<noteq> [] \<Longrightarrow> p_buffer (align p) \<noteq> [] \<Longrightarrow> \<not> junk (p_buffer (align p) ! 0)"
  using hd_dropWhile [of junk "p_buffer p"] by (simp add: align_buffer hd_conv_nth)

lemma feed_loop_drain:
  "feed_loop p = (q, fs) \<Longrightarrow>
     drain esp_scan (length (p_buffer p)) (p_buffer p) = (fs, dropWhile junk (p_buffer q)) \<and>
     length (p_buffer q) < frame_size \<and>
     length (p_buffer p) + p_dropped p = length (p_buffer q) + frame_size * length fs + p_dropped q \<and>
     p_crc_errors p \<le> p_crc_errors q \<and> (\<forall>f\<in>set fs. valid_frame f)"
proof (induction p arbitrary: q fs rule: feed_loop.induct)
  case (1 p)
  let ?a = "align p"
  show ?case
  proof (cases "length (p_buffer p) < frame_size")
    case True
    then show ?thesis using "1.prems" by (auto simp: feed_loop.simps [of p] drain_short)
  next
    case False
    then have ne: "p_buffer p \<noteq> []" by (auto simp: frame_size_def)
    have cnt: "length (p_buffer ?a) + p_dropped ?a = length (p_buffer p) + p_dropped p" by (rule align_count)
    have dr: "drain esp_scan (length (p_buffer p)) (p_buffer p) = drain esp_scan (length (p_buffer ?a)) (p_buffer ?a)"
      using drain_dropWhile [of "p_buffer p" "[]"] by (simp add: align_buffer [OF ne])
    have ce: "p_crc_errors ?a = p_crc_errors p" by (simp add: align_def split: option.splits)
    show ?thesis
    proof (cases "length (p_buffer ?a) < frame_size")
      case True
      then have "q = ?a" "fs = []" using "1.prems" False by (auto simp: feed_loop.simps [of p] Let_def)
      then show ?thesis using True cnt dr ce by (simp add: drain_short)
    next
      case F2: False
      then have ne2: "p_buffer ?a \<noteq> []" by (auto simp: frame_size_def)
      have hd: "\<not> junk (p_buffer ?a ! 0)" using align_head [OF ne ne2] .
      show ?thesis
      proof (cases "crc_valid (take frame_size (p_buffer ?a))")
        case True
        let ?n = "?a \<lparr> p_buffer := drop frame_size (p_buffer ?a) \<rparr>"
        obtain gs where g: "feed_loop ?n = (q, gs)" "fs = take frame_size (p_buffer ?a) # gs"
          using "1.prems" False F2 True by (auto simp: feed_loop.simps [of p] Let_def split: prod.splits)
        note IH = "1.IH"(1) [OF False refl F2 refl True g(1)]
        have "esp_scan (p_buffer ?a) = Some ([take frame_size (p_buffer ?a)], frame_size)"
          using ne2 hd F2 True by (simp add: esp_scan_def)
        then have "drain esp_scan (length (p_buffer ?a)) (p_buffer ?a) = (fs, dropWhile junk (p_buffer q))"
          using IH g(2) by (simp add: esp.drain_step Let_def)
        moreover have "valid_frame (take frame_size (p_buffer ?a))"
          using F2 True hd by (simp add: valid_frame_def frame_size_def)
        ultimately show ?thesis using IH cnt dr ce g(2) F2 by auto
      next
        case F3: False
        let ?n = "?a \<lparr> p_buffer := tl (p_buffer ?a), p_dropped := p_dropped ?a + 1,
                               p_crc_errors := p_crc_errors ?a + 1 \<rparr>"
        have g: "feed_loop ?n = (q, fs)"
          using "1.prems" False F2 F3 by (simp add: feed_loop.simps [of p] Let_def)
        note IH = "1.IH"(2) [OF False refl F2 refl F3 g]
        have "esp_scan (p_buffer ?a) = Some ([], 1)"
          using ne2 hd F2 F3 by (simp add: esp_scan_def)
        then have "drain esp_scan (length (p_buffer ?a)) (p_buffer ?a) = (fs, dropWhile junk (p_buffer q))"
          using IH by (simp add: esp.drain_step Let_def drop_Suc)
        then show ?thesis using IH cnt dr ce ne2 by (cases "p_buffer ?a") auto
      qed
    qed
  qed
qed

lemma feed_drain:
  assumes "length (p_buffer p) < frame_size" "feed p data = (q, fs)"
  shows "drain esp_scan (length (p_buffer p @ data)) (p_buffer p @ data) = (fs, dropWhile junk (p_buffer q))"
    and "length (p_buffer q) < frame_size"
    and "length (p_buffer p) + length data + p_dropped p =
         length (p_buffer q) + frame_size * length fs + p_dropped q"
    and "p_crc_errors p \<le> p_crc_errors q" "\<forall>f\<in>set fs. valid_frame f"
  using assms feed_loop_drain [of "p \<lparr> p_buffer := p_buffer p @ data \<rparr>" q fs]
  by (auto simp: feed_def drain_short split: if_splits)

lemma run_feed_drain:
  "length (p_buffer p) < frame_size \<Longrightarrow>
     snd (run feed p cs) = fst (drain esp_scan (length (p_buffer p @ concat cs)) (p_buffer p @ concat cs))"
proof (induction cs arbitrary: p)
  case Nil
  then show ?case by (simp add: drain_short)
next
  case (Cons c cs)
  obtain q fs where f: "feed p c = (q, fs)" by fastforce
  note d = feed_drain [OF Cons.prems f]
  have "drain esp_scan (length ((p_buffer p @ c) @ concat cs)) ((p_buffer p @ c) @ concat cs) =
    (let (gs, r) = drain esp_scan (length (p_buffer q @ concat cs)) (p_buffer q @ concat cs) in (fs @ gs, r))"
    using esp.drain_append [of "p_buffer p @ c" "concat cs"] d(1) drain_dropWhile [of "p_buffer q" "concat cs"]
    by (simp add: Let_def del: length_append)
  then show ?case using Cons.IH [OF d(2)] f
    by (cases "run feed q cs") (simp add: Let_def split: prod.splits del: length_append)
qed

lemma drain_valid_frames:
  "(\<forall>(j, f)\<in>set jfs. list_all junk j \<and> valid_frame f) \<Longrightarrow>
     fst (drain esp_scan (length (concat (map (\<lambda>(j, f). j @ f) jfs) @ t)) (concat (map (\<lambda>(j, f). j @ f) jfs) @ t)) =
     map snd jfs @ fst (drain esp_scan (length t) t)"
proof (induction jfs)
  case (Cons jf jfs)
  obtain j f where jf: "jf = (j, f)" by fastforce
  let ?r = "concat (map (\<lambda>(j, f). j @ f) jfs) @ t"
  have v: "list_all junk j" "valid_frame f" using Cons.prems jf by auto
  have "esp_scan (f @ ?r) = Some ([f], frame_size)"
    using v(2) by (auto simp: esp_scan_def valid_frame_def frame_size_def nth_append)
  moreover have "drop frame_size (f @ ?r) = ?r" using v(2) by (simp add: valid_frame_def)
  ultimately have "fst (drain esp_scan (length (f @ ?r)) (f @ ?r)) = f # fst (drain esp_scan (length ?r) ?r)"
    using esp.drain_step [of "f @ ?r"] by (simp add: Let_def split: prod.splits del: length_append)
  then show ?case using Cons drain_junk [OF v(1), of "f @ ?r"] jf by (simp del: length_append)
qed simp

lemma sint_low_byte: "- 128 \<le> k \<Longrightarrow> k < 128 \<Longrightarrow> sint (word_of_int (k AND 0xFF) :: byte) = k"
proof -
  assume a: "- 128 \<le> k" "k < 128"
  have "(word_of_int (k AND 0xFF) :: byte) = word_of_int k"
  proof -
    have "k AND 0xFF = take_bit 8 k" by (simp add: take_bit_eq_mask mask_eq_exp_minus_1)
    then show ?thesis by (simp add: word_of_int_eq_iff)
  qed
  then show ?thesis using a by (simp add: sint_sbintrunc' signed_take_bit_int_eq_self)
qed

lemma uint_small_byte: "0 \<le> k \<Longrightarrow> k < 256 \<Longrightarrow> uint (word_of_int k :: byte) = k"
  by (simp add: uint_word_of_int)

lemma ver_flags_bits:
  "bit (ver_flags s) 0 = cs_estop s" "bit (ver_flags s) 1 = cs_drive_enabled s"
  "bit (ver_flags s) 2 = flt (cs_speed_mps s) fzero" "bit (ver_flags s) 3 = cs_hazard_enabled s"
  "drop_bit 4 (ver_flags s) = protocol_version"
  by (cases "cs_estop s"; cases "cs_drive_enabled s"; cases "cs_hazard_enabled s"; cases "flt (cs_speed_mps s) fzero";
      simp add: ver_flags_def cmd_flags_def protocol_version_def)+

definition sample_frame :: "byte list" where
  "sample_frame = [0x55, 0x19, 0x96, 0x00, 0x18, 0xFC, 0x0A, 0x01]"

lemma crc_bits_numeral [simp]: "crc_bits (numeral n) crc =
     crc_bits (pred_numeral n) (if crc AND 0x80 \<noteq> 0 then push_bit 1 crc XOR 0x31 else push_bit 1 crc)"
  by (simp add: numeral_eq_Suc)

lemma sample_frame_valid: "valid_frame sample_frame"
  by (simp add: valid_frame_def sample_frame_def frame_size_def valid_rx_headers_def esp_header_def
    crc8_maxim_def crc_byte_def)

lemma decode_valid: "is_ok (decode_transport_frame f now) \<longleftrightarrow> valid_frame f"
  by (auto simp: is_ok_iff valid_frame_def decode_transport_frame_def decode_esp_frame_def decode_battery_frame_def
     bind_res_eq_Inr check_frame_iff valid_rx_headers_def frame_size_def Let_def)

lemma run_feed_account:
  "length (p_buffer p) < frame_size \<Longrightarrow> run feed p cs = (q, fs) \<Longrightarrow>
     length (p_buffer p) + length (concat cs) + p_dropped p =
       length (p_buffer q) + frame_size * length fs + p_dropped q \<and>
     length (p_buffer q) < frame_size \<and> list_all valid_frame fs"
proof (induction cs arbitrary: p fs)
  case (Cons c cs)
  obtain p1 gs where f: "feed p c = (p1, gs)" by fastforce
  obtain hs where h: "run feed p1 cs = (q, hs)" "fs = gs @ hs"
    using Cons.prems(2) f by (auto simp: Let_def split: prod.splits)
  note d = feed_drain [OF Cons.prems(1) f]
  show ?case using Cons.IH [OF d(2) h(1)] d h(2) by (auto simp: list_all_iff algebra_simps)
qed auto

lemma pi_frame_fields:
  assumes "encode_pi_frame s = Some f"
  shows "length f = 7 \<and> f ! 0 = pi_header \<and> drop_bit 4 (f ! 1) = protocol_version \<and>
    bit (f ! 1) 0 = cs_estop s \<and> bit (f ! 1) 1 = cs_drive_enabled s \<and>
    bit (f ! 1) 2 = flt (cs_speed_mps s) fzero \<and> bit (f ! 1) 3 = cs_hazard_enabled s \<and>
    sint (f ! 2) = iclamp (cs_steer_pct s) (- 100) 100 \<and>
    Some (le16 (f ! 3) (f ! 4)) = speed_centi (cs_speed_mps s) \<and>
    uint (f ! 5) = iclamp (cs_brake_pct s) 0 100 \<and> crc8_maxim f = 0"
proof -
  obtain c where c: "speed_centi (cs_speed_mps s) = Some c"
    using assms by (auto simp: encode_pi_frame_def split: option.splits)
  define body where "body = [pi_header, ver_flags s, word_of_int (max (- 100) (min 100 (cs_steer_pct s)) AND 0xFF),
    word_of_int (c AND 0xFF), word_of_int (drop_bit 8 c AND 0xFF), word_of_int (max 0 (min 100 (cs_brake_pct s)))]"
  have f: "f = body @ [crc8_maxim body]"
    using assms c by (simp add: encode_pi_frame_def Let_def body_def)
  have "le16 (f ! 3) (f ! 4) = c"
    using le16_split [of c] speed_centi_range [OF c] by (simp add: f body_def)
  moreover have "sint (f ! 2) = iclamp (cs_steer_pct s) (- 100) 100"
    by (simp add: f body_def sint_low_byte iclamp_def)
  moreover have "uint (f ! 5) = iclamp (cs_brake_pct s) 0 100"
    by (simp add: f body_def uint_small_byte iclamp_def)
  moreover have "crc8_maxim f = 0" unfolding f by (rule crc8_append_self)
  ultimately show ?thesis by (simp add: c f body_def ver_flags_bits [unfolded One_nat_def])
qed

subsection \<open>Properties\<close>

text \<open>
  C27. The receive parser resynchronises: however the serial port cuts the stream into chunks, a stream
  in which every valid frame is preceded by any bytes that are not frame headers (and followed by
  such bytes) is delivered completely, in order, and nothing else is delivered.
\<close>

theorem parser_delivers:
  assumes "list_all (\<lambda>(j, f). list_all junk j \<and> valid_frame f) jfs" "list_all junk t"
    and "concat cs = concat (map (\<lambda>(j, f). j @ f) jfs) @ t"
  shows "snd (run feed new_parser cs) = map snd jfs"
proof -
  have "fst (drain esp_scan (length (t @ [])) (t @ [])) = []"
    using drain_junk [OF assms(2), of "[]"] by simp
  then show ?thesis
    using assms run_feed_drain [of new_parser cs] drain_valid_frames [of jfs t]
    by (simp add: new_parser_def frame_size_def list_all_iff del: length_append)
qed

lemma parser_delivers_witness:
  "snd (run feed new_parser [[0x00], 0x01 # take 3 sample_frame, drop 3 sample_frame @ [0x07]]) = [sample_frame]"
  using parser_delivers [of "[([0x00, 0x01], sample_frame)]" "[0x07]"
    "[[0x00], 0x01 # take 3 sample_frame, drop 3 sample_frame @ [0x07]]"] sample_frame_valid
  by (simp add: valid_rx_headers_def esp_header_def battery_header_def)

text \<open>
  The frames the parser delivers depend on the bytes received only, not on how the reads of the
  serial port cut them into chunks.
\<close>

lemma parser_chunking: "snd (run feed new_parser cs) = snd (feed new_parser (concat cs))"
proof -
  have "snd (run feed new_parser [concat cs]) = snd (feed new_parser (concat cs))"
    by (simp add: Let_def split: prod.splits)
  moreover have "snd (run feed new_parser ds) = fst (drain esp_scan (length (concat ds)) (concat ds))" for ds
    using run_feed_drain [of new_parser ds] by (simp add: new_parser_def frame_size_def)
  from this [of cs] this [of "[concat cs]"] calculation show ?thesis by simp
qed

text \<open>
  Every byte fed to the parser is accounted for: it is part of a delivered frame, counted as
  dropped, or one of the fewer than eight bytes still buffered; and every delivered frame is
  accepted by the frame decoder, so the decoder's error branch in the receive loop is dead.
\<close>

lemma parser_accounts:
  "let (q, fs) = run feed new_parser cs in
     length (concat cs) = length (p_buffer q) + 8 * length fs + p_dropped q \<and>
     length (p_buffer q) < 8 \<and> list_all (\<lambda>f. is_ok (decode_transport_frame f now)) fs"
proof -
  obtain q fs where "run feed new_parser cs = (q, fs)" by fastforce
  then show ?thesis using run_feed_account [of new_parser cs q fs]
    by (simp add: new_parser_def frame_size_def decode_valid)
qed

text \<open>
  A frame the decoder accepts is rejected after any change of any single byte, header and CRC byte
  included: the CRC step is injective in the byte and in the running value.
\<close>

lemma one_byte_corruption_rejected:
  assumes "is_ok (decode_transport_frame f now)" "i < length f" "x \<noteq> f ! i"
  shows "\<not> is_ok (decode_transport_frame (f[i := x]) now)"
  using assms one_byte_frame [of f i x] by (simp add: decode_valid valid_frame_def)

lemma one_byte_corruption_rejected_witness:
  "\<not> is_ok (decode_transport_frame (sample_frame[4 := 0x19]) fzero)"
  using one_byte_corruption_rejected [of sample_frame fzero 4 "0x19"] sample_frame_valid
  by (simp add: decode_valid sample_frame_def)

text \<open>
  An encoded command frame carries the command: header, protocol version, the four flags, the
  clamped steering percentage as a signed byte, the speed in centimetres per second little endian,
  the clamped brake, and a CRC byte that makes the CRC of the whole frame zero.
\<close>

lemma encode_pi_frame_fields:
  assumes "encode_pi_frame s = Some f"
  shows "length f = 7 \<and> f ! 0 = pi_header \<and> drop_bit 4 (f ! 1) = protocol_version \<and>
    bit (f ! 1) 0 = cs_estop s \<and> bit (f ! 1) 1 = cs_drive_enabled s \<and>
    bit (f ! 1) 2 = flt (cs_speed_mps s) fzero \<and> bit (f ! 1) 3 = cs_hazard_enabled s \<and>
    sint (f ! 2) = iclamp (cs_steer_pct s) (- 100) 100 \<and>
    Some (le16 (f ! 3) (f ! 4)) = speed_centi (cs_speed_mps s) \<and>
    uint (f ! 5) = iclamp (cs_brake_pct s) 0 100 \<and> crc8_maxim f = 0"
  using pi_frame_fields [OF assms] .

lemma encode_pi_frame_fields_witness:
  "\<exists>f. encode_pi_frame (new_command_state (Fin 12) (Fin 1) \<lparr> cs_speed_mps := Fin (3 / 2), cs_steer_pct := - 130 \<rparr>) = Some f \<and>
     sint (f ! 2) = - 100 \<and> le16 (f ! 3) (f ! 4) = 150"
proof -
  let ?s = "new_command_state (Fin 12) (Fin 1) \<lparr> cs_speed_mps := Fin (3 / 2), cs_steer_pct := - 130 \<rparr>"
  have sc: "speed_centi (cs_speed_mps ?s) = Some 150" using rne_of_int [of 150] by (simp add: speed_centi_def)
  then obtain f where f: "encode_pi_frame ?s = Some f" by (auto simp: encode_pi_frame_def Let_def)
  show ?thesis using encode_pi_frame_fields [OF f] f sc by (auto simp: iclamp_def)
qed

text \<open>
  Setting the speed to NaN sets the configured maximum speed: \<open>max(low, min(high, nan))\<close> is \<open>high\<close>
  under Python's argument order, so the clamp turns an invalid speed into full speed.
\<close>

lemma set_speed_nan: "command_state_ok s \<Longrightarrow> set_speed_mps s NaN = (s \<lparr> cs_speed_mps := cs_max_speed_mps s \<rparr>, cs_max_speed_mps s)"
  using limits_ordered [of "cs_max_speed_mps s" "cs_max_reverse_mps s"]
  by (simp add: set_speed_mps_def command_state_ok_def fclamp_NaN Let_def)

lemma set_speed_nan_witness:
  "set_speed_mps (new_command_state (Fin 12) (Fin 1)) NaN =
     (new_command_state (Fin 12) (Fin 1) \<lparr> cs_speed_mps := Fin 12 \<rparr>, Fin 12)"
  using set_speed_nan [of "new_command_state (Fin 12) (Fin 1)"] new_command_state_ok [of "Fin 12" "Fin 1"]
  by (simp add: new_command_state_def)

end
