(* ===== verification/Esp_Transport.thy ===== *)
theory Esp_Transport
  imports Esp_Protocol "HOL-Library.Multiset"
begin

section \<open>CommsClient: the two threads of the serial link\<close>

text \<open>
  \<open>rpy_esp32_comms/transport.py\<close>: the client's state, its start and stop, the transmit and the
  receive loop. The transmit path is cut where its locks are: the check of the stop event, the
  snapshot under \<open>_state_lock\<close> and the write under \<open>_serial_lock\<close> are three operations, and between any two
  of them the other threads may run. So is \<open>stop\<close>: the reset, the stop event, the return of the joins (ended or
  timed out), each snapshot and write of a safe frame, the close. A run is any sequence of operations, so it covers
  every interleaving of the client, the transmitters and the receiver at that granularity. A transmitter whose
  join timed out is still there after \<open>stop\<close>, and a later \<open>start\<close> adds another, so the client has a list of them.
  One iteration of the receiver is one operation, \<open>start\<close> as well, and a receiver whose join timed out is taken
  over by the next one. The serial port is outside the repository: whether it opens, writes or closes, and what it
  reads, is part of the event.
\<close>

record comms_stats =
  st_tx_ok :: nat
  st_tx_errors :: nat
  st_rx_ok :: nat
  st_rx_control :: nat
  st_rx_battery :: nat
  st_rx_crc_errors :: nat
  st_rx_drops :: nat

definition new_stats :: comms_stats where
  "new_stats = \<lparr> st_tx_ok = 0, st_tx_errors = 0, st_rx_ok = 0, st_rx_control = 0, st_rx_battery = 0,
     st_rx_crc_errors = 0, st_rx_drops = 0 \<rparr>"

text \<open>Where the thread that executes \<open>stop\<close> is; \<open>Writing\<close> holds the frame of its snapshot.\<close>

datatype stop_phase = NotStopping | Signalling | Joining | Sending nat | Writing nat "byte list" | Closing

text \<open>Where a transmit thread is: at the condition of its loop, in the body, between snapshot and write, or at its end.\<close>

datatype transmitter = AtLoop | InBody | Holding "byte list" | Ended

record comms =
  cc_state :: command_state
  cc_telemetry :: "telemetry option"
  cc_battery :: "battery_telemetry option"
  cc_stats :: comms_stats
  cc_serial :: "bool option"
  cc_stop_event :: bool
  cc_transmitters :: "transmitter list"
  cc_rx_alive :: bool
  cc_parser :: parser
  cc_running :: bool
  cc_log :: bool
  cc_phase :: stop_phase
  cc_tx_period :: pyfloat

datatype comms_error = TxHzNotPositive | TxHzZero | SerialOpenFailed | SerialCloseFailed

definition new_comms :: "pyfloat \<Rightarrow> pyfloat \<Rightarrow> pyfloat \<Rightarrow> comms_error + comms" where
  "new_comms tx_hz max_speed max_reverse =
     bind_res (raise_if (fle tx_hz fzero) TxHzNotPositive) (\<lambda>_.
     bind_res (of_option TxHzZero (fdiv (Fin 1) tx_hz)) (\<lambda>period.
       Inr \<lparr> cc_state = new_command_state max_speed max_reverse, cc_telemetry = None,
             cc_battery = None, cc_stats = new_stats, cc_serial = None, cc_stop_event = False,
             cc_transmitters = [], cc_rx_alive = False, cc_parser = new_parser, cc_running = False,
             cc_log = False, cc_phase = NotStopping, cc_tx_period = period \<rparr>))"

definition set_safe_state :: "comms \<Rightarrow> comms" where
  "set_safe_state c = c \<lparr> cc_state := safe_reset (cc_state c) \<rparr>"

text \<open>\<open>start\<close>: the port either opens or raises, after the state was reset.\<close>

definition start :: "bool \<Rightarrow> comms \<Rightarrow> comms \<times> (comms_error + unit)" where
  "start open_ok c =
     (if cc_running c then (c, Inr ())
      else
        (let c1 = set_safe_state c
         in if \<not> open_ok then (c1, Inl SerialOpenFailed)
            else (c1 \<lparr> cc_serial := Some True, cc_stop_event := False, cc_transmitters := cc_transmitters c @ [AtLoop],
                       cc_rx_alive := True, cc_parser := new_parser, cc_running := True \<rparr>, Inr ())))"

text \<open>\<open>_serial_write\<close>: raises when there is no open port, or when the write raises.\<close>

definition serial_write :: "bool \<Rightarrow> comms \<Rightarrow> bool" where
  "serial_write write_ok c = (cc_serial c = Some True \<and> write_ok)"

text \<open>
  \<open>_write_current_frame\<close>, first section: the snapshot and its frame; \<open>None\<close> when the encoder raises, which is
  outside the \<open>try\<close> block.
\<close>

definition snapshot_frame :: "comms \<Rightarrow> byte list option" where
  "snapshot_frame c = encode_pi_frame (cc_state c)"

text \<open>Second section: the frame is written to the port the client has by then, and a success or an error is counted.\<close>

definition write_frame :: "bool \<Rightarrow> byte list \<Rightarrow> comms \<Rightarrow> comms \<times> byte list list" where
  "write_frame write_ok frame c =
     (if serial_write write_ok c
      then (c \<lparr> cc_stats := (cc_stats c) \<lparr> st_tx_ok := st_tx_ok (cc_stats c) + 1 \<rparr> \<rparr>, [frame])
      else (c \<lparr> cc_stats := (cc_stats c) \<lparr> st_tx_errors := st_tx_errors (cc_stats c) + 1 \<rparr> \<rparr>, []))"

text \<open>One piece of an iteration of \<open>_tx_loop\<close> by the transmitter at a place; an exception of the encoder ends the thread.\<close>

definition move_transmitter :: "nat \<Rightarrow> transmitter \<Rightarrow> comms \<Rightarrow> comms" where
  "move_transmitter i x c = c \<lparr> cc_transmitters := (cc_transmitters c)[i := x] \<rparr>"

definition tx_step :: "bool \<Rightarrow> nat \<Rightarrow> comms \<Rightarrow> comms \<times> byte list list" where
  "tx_step write_ok i c =
     (if length (cc_transmitters c) \<le> i then (c, [])
      else case cc_transmitters c ! i of
        AtLoop \<Rightarrow> (move_transmitter i (if cc_stop_event c then Ended else InBody) c, [])
      | InBody \<Rightarrow> (move_transmitter i (case snapshot_frame c of None \<Rightarrow> Ended | Some f \<Rightarrow> Holding f) c, [])
      | Holding f \<Rightarrow> write_frame write_ok f (move_transmitter i AtLoop c)
      | Ended \<Rightarrow> (c, []))"

text \<open>The body of the \<open>for frame in frames\<close> loop of \<open>_rx_loop\<close>.\<close>

definition rx_deliver :: "pyfloat \<Rightarrow> comms \<Rightarrow> byte list \<Rightarrow> comms" where
  "rx_deliver now c frame =
     (let s = cc_stats c
      in case decode_transport_frame frame now of
           Inl e \<Rightarrow> c \<lparr> cc_stats := s \<lparr> st_rx_crc_errors := st_rx_crc_errors s + 1 \<rparr> \<rparr>
         | Inr (TelemetryFrame t) \<Rightarrow>
             c \<lparr> cc_stats := s \<lparr> st_rx_ok := st_rx_ok s + 1, st_rx_control := st_rx_control s + 1 \<rparr>,
                 cc_telemetry := Some t \<rparr>
         | Inr (BatteryFrame b) \<Rightarrow>
             c \<lparr> cc_stats := s \<lparr> st_rx_ok := st_rx_ok s + 1, st_rx_battery := st_rx_battery s + 1 \<rparr>,
                 cc_battery := Some b \<rparr>)"

text \<open>One iteration of \<open>_rx_loop\<close>; the read of the port is \<open>None\<close> when it raises.\<close>

definition rx_iteration :: "byte list option \<Rightarrow> pyfloat \<Rightarrow> comms \<Rightarrow> comms" where
  "rx_iteration read now c =
     (if cc_serial c \<noteq> Some True then c
      else case read of
        None \<Rightarrow> c
      | Some chunk \<Rightarrow>
          (if chunk = [] then c
           else
             (let (p, frames) = feed (cc_parser c) chunk;
                  s = cc_stats c;
                  c1 = c \<lparr> cc_parser := p,
                           cc_stats := s \<lparr> st_rx_drops := p_dropped p, st_rx_crc_errors := p_crc_errors p \<rparr> \<rparr>
              in foldl (rx_deliver now) c1 frames)))"

text \<open>\<open>stop\<close>, in the pieces between which other threads may run.\<close>

definition stop_begin :: "comms \<Rightarrow> comms" where
  "stop_begin c = (if \<not> cc_running c then c else (set_safe_state c) \<lparr> cc_phase := Signalling \<rparr>)"

definition stop_signal :: "comms \<Rightarrow> comms" where
  "stop_signal c = c \<lparr> cc_stop_event := True, cc_phase := Joining \<rparr>"

text \<open>The joins return when the last transmitter has ended, or they time out; then \<open>_send_safe_frames\<close> resets the state again.\<close>

definition joined :: "bool \<Rightarrow> comms \<Rightarrow> bool" where
  "joined timed_out c \<longleftrightarrow> timed_out \<or> cc_transmitters c = [] \<or> last (cc_transmitters c) = Ended"

definition stop_joined :: "comms \<Rightarrow> comms" where
  "stop_joined c = (set_safe_state c) \<lparr> cc_phase := Sending 3 \<rparr>"

text \<open>One pass of \<open>_send_safe_frames\<close>, which swallows every exception: the snapshot, and the write.\<close>

definition after_send :: "nat \<Rightarrow> stop_phase" where
  "after_send n = (if n \<le> 1 then Closing else Sending (n - 1))"

definition stop_snapshot :: "nat \<Rightarrow> comms \<Rightarrow> comms" where
  "stop_snapshot n c =
     c \<lparr> cc_phase := (case snapshot_frame c of None \<Rightarrow> after_send n | Some f \<Rightarrow> Writing n f) \<rparr>"

definition stop_write :: "bool \<Rightarrow> nat \<Rightarrow> byte list \<Rightarrow> comms \<Rightarrow> comms \<times> byte list list" where
  "stop_write write_ok n f c = write_frame write_ok f (c \<lparr> cc_phase := after_send n \<rparr>)"

definition stop_close :: "bool \<Rightarrow> comms \<Rightarrow> comms \<times> (comms_error + unit)" where
  "stop_close close_ok c =
     (let c1 = c \<lparr> cc_serial := None, cc_phase := NotStopping \<rparr>
      in if cc_serial c \<noteq> None \<and> \<not> close_ok then (c1, Inl SerialCloseFailed)
         else (c1 \<lparr> cc_running := False \<rparr>, Inr ()))"

datatype comms_event =
    Start bool
  | Set setter
  | SetLog bool
  | TxStep nat bool
  | RxIteration "byte list option" pyfloat
  | RxExit
  | StopBegin
  | StopSignal
  | StopJoined bool
  | StopSend bool
  | StopClose bool

text \<open>An event that is not possible in a state does nothing.\<close>

fun comms_step :: "comms \<Rightarrow> comms_event \<Rightarrow> comms \<times> byte list list" where
  "comms_step c (Start ok) = (if cc_phase c = NotStopping then fst (start ok c) else c, [])"
| "comms_step c (Set op) = (c \<lparr> cc_state := apply_setter (cc_state c) op \<rparr>, [])"
| "comms_step c (SetLog b) = (c \<lparr> cc_log := b \<rparr>, [])"
| "comms_step c (TxStep i ok) = tx_step ok i c"
| "comms_step c (RxIteration r now) = (if cc_rx_alive c then rx_iteration r now c else c, [])"
| "comms_step c RxExit = (if cc_stop_event c then c \<lparr> cc_rx_alive := False \<rparr> else c, [])"
| "comms_step c StopBegin = (if cc_phase c = NotStopping then stop_begin c else c, [])"
| "comms_step c StopSignal = (if cc_phase c = Signalling then stop_signal c else c, [])"
| "comms_step c (StopJoined timed_out) = (if cc_phase c = Joining \<and> joined timed_out c then stop_joined c else c, [])"
| "comms_step c (StopSend ok) =
     (case cc_phase c of Sending n \<Rightarrow> (stop_snapshot n c, []) | Writing n f \<Rightarrow> stop_write ok n f c | _ \<Rightarrow> (c, []))"
| "comms_step c (StopClose ok) = (if cc_phase c = Closing then fst (stop_close ok c) else c, [])"

subsection \<open>Invariant\<close>

text \<open>Speed limits at which the encoder cannot overflow.\<close>

definition limits_ok :: "command_state \<Rightarrow> bool" where
  "limits_ok s \<longleftrightarrow> fle (cs_max_speed_mps s) (Fin 1000000) \<and> fle (cs_max_reverse_mps s) (Fin 1000000)"

definition comms_inv :: "pyfloat \<Rightarrow> pyfloat \<Rightarrow> comms \<Rightarrow> bool" where
  "comms_inv mx rv c \<longleftrightarrow>
     command_state_ok (cc_state c) \<and> limits_ok (cc_state c) \<and>
     cs_max_speed_mps (cc_state c) = mx \<and> cs_max_reverse_mps (cc_state c) = rv \<and>
     length (p_buffer (cc_parser c)) < frame_size \<and>
     st_rx_ok (cc_stats c) = st_rx_control (cc_stats c) + st_rx_battery (cc_stats c)"

lemma safe_reset_setter: "safe_reset s = apply_setter s SafeReset"
  by simp

lemma apply_setter_limits [simp]:
  "cs_max_speed_mps (apply_setter s op) = cs_max_speed_mps s"
  "cs_max_reverse_mps (apply_setter s op) = cs_max_reverse_mps s"
  by (cases op; simp add: setter_defs)+

lemma safe_reset_ok [simp]:
  "command_state_ok s \<Longrightarrow> command_state_ok (safe_reset s)"
  "cs_max_speed_mps (safe_reset s) = cs_max_speed_mps s"
  "cs_max_reverse_mps (safe_reset s) = cs_max_reverse_mps s"
  "limits_ok (safe_reset s) = limits_ok s"
  using apply_setter_ok [of s SafeReset] apply_setter_limits [of s SafeReset]
  by (simp_all add: limits_ok_def)

lemma encodable:
  assumes "command_state_ok s" "limits_ok s"
  shows "\<exists>f. encode_pi_frame s = Some f"
proof -
  let ?v = "cs_speed_mps s"
  have "fle (fneg (Fin 1000000)) (fneg (cs_max_reverse_mps s))"
    using assms(2) by (simp only: fle_fneg limits_ok_def)
  then have "fle (Fin (- 1000000)) ?v" "fle ?v (Fin 1000000)"
    using assms by (auto simp: command_state_ok_def limits_ok_def intro: fle_trans)
  then obtain q where q: "?v = Fin q" "- 1000000 \<le> q" "q \<le> 1000000"
    using fle_between_finite by blast
  have "- of_int 100000000 \<le> \<bar>q\<bar> * 100" "\<bar>q\<bar> * 100 \<le> of_int 100000000" using q by auto
  then obtain r where "fl (\<bar>q\<bar> * 100) = Fin r" by (rule fl_between) simp_all
  then show ?thesis using encode_pi_frame_some_iff [of s] q by auto
qed

lemma rx_deliver_keeps:
  "cc_state (rx_deliver now c f) = cc_state c \<and> cc_parser (rx_deliver now c f) = cc_parser c \<and>
   (st_rx_ok (cc_stats c) = st_rx_control (cc_stats c) + st_rx_battery (cc_stats c) \<longrightarrow>
    st_rx_ok (cc_stats (rx_deliver now c f)) =
      st_rx_control (cc_stats (rx_deliver now c f)) + st_rx_battery (cc_stats (rx_deliver now c f)))"
  by (auto simp: rx_deliver_def Let_def split: sum.splits rx_frame.splits)

lemma foldl_rx_deliver_inv: "comms_inv mx rv c \<Longrightarrow> comms_inv mx rv (foldl (rx_deliver now) c fs)"
proof (induction fs arbitrary: c)
  case (Cons f fs)
  have "comms_inv mx rv (rx_deliver now c f)"
    using Cons.prems rx_deliver_keeps [of now c f] by (simp add: comms_inv_def)
  then show ?case using Cons.IH by simp
qed simp

lemma rx_iteration_inv: "comms_inv mx rv c \<Longrightarrow> comms_inv mx rv (rx_iteration r now c)"
proof -
  assume i: "comms_inv mx rv c"
  show ?thesis
  proof (cases "cc_serial c \<noteq> Some True \<or> r = None \<or> r = Some []")
    case False
    then obtain chunk where r: "r = Some chunk" "chunk \<noteq> []" "cc_serial c = Some True" by auto
    obtain p fs where f: "feed (cc_parser c) chunk = (p, fs)" by fastforce
    let ?c1 = "c \<lparr> cc_parser := p, cc_stats := (cc_stats c) \<lparr> st_rx_drops := p_dropped p, st_rx_crc_errors := p_crc_errors p \<rparr> \<rparr>"
    have "length (p_buffer p) < frame_size"
      using i f feed_drain(2) by (auto simp: comms_inv_def)
    then have "comms_inv mx rv ?c1" using i by (simp add: comms_inv_def)
    from foldl_rx_deliver_inv [OF this] show ?thesis using r f by (simp add: rx_iteration_def)
  qed (use i in \<open>auto simp: rx_iteration_def\<close>)
qed

definition frame_of :: "pyfloat \<Rightarrow> pyfloat \<Rightarrow> byte list \<Rightarrow> bool" where
  "frame_of mx rv f \<longleftrightarrow> (\<exists>s. command_state_ok s \<and> cs_max_speed_mps s = mx \<and>
     cs_max_reverse_mps s = rv \<and> encode_pi_frame s = Some f)"

text \<open>The frames that are between snapshot and write.\<close>

fun held_by :: "transmitter \<Rightarrow> byte list list" where
  "held_by (Holding f) = [f]"
| "held_by x = []"

definition held_frames :: "comms \<Rightarrow> byte list list" where
  "held_frames c = concat (map held_by (cc_transmitters c)) @ (case cc_phase c of Writing n f \<Rightarrow> [f] | _ \<Rightarrow> [])"

lemma held_moved:
  assumes "i < length ts"
  shows "mset (concat (map held_by (ts[i := x]))) + mset (held_by (ts ! i)) = mset (concat (map held_by ts)) + mset (held_by x)"
proof -
  have ts: "ts = take i ts @ ts ! i # drop (Suc i) ts" using assms by (rule id_take_nth_drop)
  have "ts[i := x] = take i ts @ x # drop (Suc i) ts" using assms by (rule upd_conv_take_nth_drop)
  moreover have "mset (concat (map held_by ts)) =
      mset (concat (map held_by (take i ts))) + mset (held_by (ts ! i)) + mset (concat (map held_by (drop (Suc i) ts)))"
    by (subst ts) simp
  ultimately show ?thesis by simp
qed

lemma write_frame_simps [simp]:
  "cc_state (fst (write_frame ok f c)) = cc_state c" "cc_phase (fst (write_frame ok f c)) = cc_phase c"
  "cc_transmitters (fst (write_frame ok f c)) = cc_transmitters c" "comms_inv mx rv (fst (write_frame ok f c)) = comms_inv mx rv c"
  "held_frames (fst (write_frame ok f c)) = held_frames c"
  by (simp_all add: write_frame_def comms_inv_def held_frames_def)

lemma write_frame_out: "snd (write_frame ok f c) = [] \<or> snd (write_frame ok f c) = [f]"
  by (simp add: write_frame_def)

lemma snapshot_frame_of: "comms_inv mx rv c \<Longrightarrow> snapshot_frame c = Some f \<Longrightarrow> frame_of mx rv f"
  by (auto simp: snapshot_frame_def comms_inv_def frame_of_def)

text \<open>
  What a step writes it held before, or it took it as a snapshot in that step: with multiplicities, for a transmitter, and for the
  stopping thread.
\<close>

lemma tx_step_held:
  "mset (snd (tx_step ok i c)) + mset (held_frames (fst (tx_step ok i c))) \<subseteq># mset (held_frames c) +
     (case snapshot_frame c of None \<Rightarrow> {#} | Some f \<Rightarrow> {#f#})"
proof (cases "i < length (cc_transmitters c)")
  case True
  let ?t = "\<lambda>x. mset (concat (map held_by ((cc_transmitters c)[i := x])))"
  note m = held_moved [OF True]
  show ?thesis
  proof (cases "cc_transmitters c ! i")
    case (Holding f)
    have h: "mset (held_frames (move_transmitter i AtLoop c)) + {#f#} = mset (held_frames c)"
      using m [of AtLoop] Holding by (simp add: held_frames_def move_transmitter_def)
    have "mset (snd (write_frame ok f (move_transmitter i AtLoop c))) \<subseteq># {#f#}"
      using write_frame_out [of ok f "move_transmitter i AtLoop c"] by auto
    then have "mset (snd (write_frame ok f (move_transmitter i AtLoop c))) + mset (held_frames (move_transmitter i AtLoop c)) \<subseteq># mset (held_frames c)"
      unfolding h [symmetric] by (simp add: add.commute)
    then show ?thesis using True Holding by (simp add: tx_step_def subset_mset.add_increasing2)
  qed (use True m in \<open>auto simp: tx_step_def held_frames_def move_transmitter_def split: option.splits\<close>)
qed (simp add: tx_step_def)

lemma send_held:
  "mset (snd (comms_step c (StopSend ok))) + mset (held_frames (fst (comms_step c (StopSend ok)))) \<subseteq># mset (held_frames c) +
     (case snapshot_frame c of None \<Rightarrow> {#} | Some f \<Rightarrow> {#f#})"
proof (cases "cc_phase c")
  case (Writing n f)
  let ?d = "c \<lparr> cc_phase := after_send n \<rparr>"
  have h: "mset (held_frames ?d) + {#f#} = mset (held_frames c)"
    using Writing by (simp add: held_frames_def after_send_def)
  have "mset (snd (write_frame ok f ?d)) \<subseteq># {#f#}" using write_frame_out [of ok f ?d] by auto
  then have "mset (snd (write_frame ok f ?d)) + mset (held_frames ?d) \<subseteq># mset (held_frames c)"
    unfolding h [symmetric] by (simp add: add.commute)
  then show ?thesis using Writing by (simp add: stop_write_def subset_mset.add_increasing2)
qed (auto simp: stop_snapshot_def held_frames_def after_send_def split: option.splits)

lemma set_safe_state_inv [simp]: "comms_inv mx rv c \<Longrightarrow> comms_inv mx rv (set_safe_state c)"
  by (simp add: comms_inv_def set_safe_state_def)

lemma comms_inv_control [simp]:
  "comms_inv mx rv (c \<lparr> cc_phase := ph \<rparr>) = comms_inv mx rv c"
  "comms_inv mx rv (c \<lparr> cc_serial := sr \<rparr>) = comms_inv mx rv c"
  "comms_inv mx rv (c \<lparr> cc_running := b \<rparr>) = comms_inv mx rv c"
  "comms_inv mx rv (c \<lparr> cc_transmitters := ts \<rparr>) = comms_inv mx rv c"
  "comms_inv mx rv (c \<lparr> cc_rx_alive := b \<rparr>) = comms_inv mx rv c"
  "comms_inv mx rv (c \<lparr> cc_stop_event := b \<rparr>) = comms_inv mx rv c"
  "comms_inv mx rv (c \<lparr> cc_log := b \<rparr>) = comms_inv mx rv c"
  by (simp_all add: comms_inv_def)

lemma start_inv: "comms_inv mx rv c \<Longrightarrow> comms_inv mx rv (fst (start ok c))"
proof -
  assume "comms_inv mx rv c"
  then have "comms_inv mx rv (set_safe_state c)" by simp
  then have "comms_inv mx rv ((set_safe_state c) \<lparr> cc_parser := new_parser \<rparr>)"
    by (simp add: comms_inv_def new_parser_def frame_size_def)
  then show ?thesis using \<open>comms_inv mx rv c\<close>
    by (simp add: start_def Let_def comms_inv_def set_safe_state_def)
qed

lemma stop_inv:
  "comms_inv mx rv c \<Longrightarrow> comms_inv mx rv (stop_begin c)"
  "comms_inv mx rv c \<Longrightarrow> comms_inv mx rv (stop_signal c)"
  "comms_inv mx rv c \<Longrightarrow> comms_inv mx rv (stop_joined c)"
  "comms_inv mx rv c \<Longrightarrow> comms_inv mx rv (fst (stop_close ok c))"
  by (simp_all add: stop_begin_def stop_signal_def stop_joined_def stop_close_def Let_def)

lemma tx_step_inv: "comms_inv mx rv (fst (tx_step ok i c)) = comms_inv mx rv c"
  by (auto simp: tx_step_def move_transmitter_def split: transmitter.splits option.splits)

lemma stop_send_inv: "comms_inv mx rv (fst (comms_step c (StopSend ok))) = comms_inv mx rv c"
  by (auto simp: stop_snapshot_def stop_write_def split: stop_phase.splits)

lemma rx_iteration_held: "held_frames (rx_iteration r now c) = held_frames c"
proof -
  have "cc_transmitters (foldl (rx_deliver now) d fs) = cc_transmitters d \<and> cc_phase (foldl (rx_deliver now) d fs) = cc_phase d" for d fs
    by (induction fs arbitrary: d) (simp_all add: rx_deliver_def Let_def split: sum.splits rx_frame.splits)
  then show ?thesis by (simp add: rx_iteration_def held_frames_def Let_def split: option.splits prod.splits)
qed

lemma comms_step_inv:
  "comms_inv mx rv c \<Longrightarrow> comms_inv mx rv (fst (comms_step c e))"
  by (cases e) (simp_all add: start_inv stop_inv tx_step_inv stop_send_inv rx_iteration_inv del: comms_step.simps(10),
    auto simp: comms_inv_def limits_ok_def apply_setter_ok)

interpretation comms: machine comms_step "comms_inv mx rv" for mx rv
  by unfold_locales (simp add: comms_step_inv)

text \<open>Every step: what is written or held after it was held before, or is the snapshot of the state before it.\<close>

lemma step_held:
  "mset (snd (comms_step c e)) + mset (held_frames (fst (comms_step c e))) \<subseteq># mset (held_frames c) +
     (case snapshot_frame c of None \<Rightarrow> {#} | Some f \<Rightarrow> {#f#})"
proof (cases e)
  case (TxStep i ok)
  then show ?thesis using tx_step_held by simp
next
  case (StopSend ok)
  then show ?thesis using send_held by simp
next
  case (RxIteration r now)
  then show ?thesis by (simp add: rx_iteration_held)
qed (auto simp: held_frames_def start_def set_safe_state_def stop_begin_def stop_signal_def stop_joined_def stop_close_def Let_def)

lemma step_from_held:
  assumes "list_all P (held_frames c)" "\<And>f. snapshot_frame c = Some f \<Longrightarrow> P f"
  shows "list_all P (held_frames (fst (comms_step c e))) \<and> list_all P (snd (comms_step c e))"
proof -
  have "P x" if "x \<in># mset (snd (comms_step c e)) + mset (held_frames (fst (comms_step c e)))" for x
    using mset_subset_eqD [OF step_held that] assms by (cases "snapshot_frame c") (auto simp: list_all_iff)
  then show ?thesis by (auto simp: list_all_iff)
qed

text \<open>The invariant with the frames that are on their way: whatever is written is a frame of a command state within the limits.\<close>

definition wire_inv :: "pyfloat \<Rightarrow> pyfloat \<Rightarrow> comms \<Rightarrow> bool" where
  "wire_inv mx rv c \<longleftrightarrow> comms_inv mx rv c \<and> list_all (frame_of mx rv) (held_frames c)"

lemma wire_step:
  assumes "wire_inv mx rv c"
  shows "wire_inv mx rv (fst (comms_step c e)) \<and> list_all (frame_of mx rv) (snd (comms_step c e))"
proof -
  have "comms_inv mx rv c" "list_all (frame_of mx rv) (held_frames c)" using assms by (simp_all add: wire_inv_def)
  with step_from_held [of "frame_of mx rv" c e] snapshot_frame_of show ?thesis by (simp add: wire_inv_def comms_step_inv)
qed

interpretation wire: latch comms_step "wire_inv mx rv" "frame_of mx rv" for mx rv
  by unfold_locales (use wire_step in \<open>auto simp: list_all_iff\<close>)

subsection \<open>Bounds of the frames on the wire\<close>

lemma speed_centi_mono:
  assumes "fle (fabs a) (fabs b)" "speed_centi a = Some m" "speed_centi b = Some n"
  shows "m \<le> n"
proof -
  obtain x where x: "fmul (fabs a) (Fin 100) = Fin x" "m = max 0 (min 65535 (rne x))"
    using assms(2) by (cases "fmul (fabs a) (Fin 100)") (auto simp: speed_centi_def)
  obtain y where y: "fmul (fabs b) (Fin 100) = Fin y" "n = max 0 (min 65535 (rne y))"
    using assms(3) by (cases "fmul (fabs b) (Fin 100)") (auto simp: speed_centi_def)
  have "fle (Fin x) (Fin y)"
  proof (cases a; cases b)
    fix p q assume a: "a = Fin p" "b = Fin q"
    then have "\<bar>p\<bar> * 100 \<le> \<bar>q\<bar> * 100" using assms(1) by simp
    from fl_mono [OF this] show ?thesis using x y a by simp
  qed (use assms x y in \<open>auto simp: inf_of_sign_def fle_def\<close>)
  then show ?thesis using x y rne_mono [of x y] by auto
qed

definition frame_bounded :: "pyfloat \<Rightarrow> pyfloat \<Rightarrow> byte list \<Rightarrow> bool" where
  "frame_bounded mx rv f \<longleftrightarrow>
     length f = 7 \<and> crc8_maxim f = 0 \<and>
     - 100 \<le> sint (f ! 2) \<and> sint (f ! 2) \<le> 100 \<and> uint (f ! 5) \<le> 100 \<and>
     (case speed_centi (if bit (f ! 1) 2 then rv else mx) of
        None \<Rightarrow> False | Some m \<Rightarrow> le16 (f ! 3) (f ! 4) \<le> m)"

lemma frame_of_bounded:
  assumes "frame_of mx rv f" "fle mx (Fin 1000000)" "fle rv (Fin 1000000)"
  shows "frame_bounded mx rv f"
proof -
  obtain s where s: "command_state_ok s" "cs_max_speed_mps s = mx" "cs_max_reverse_mps s = rv"
    "encode_pi_frame s = Some f"
    using assms(1) by (auto simp: frame_of_def)
  have F: "length f = 7" "bit (f ! 1) 2 = flt (cs_speed_mps s) fzero"
      "sint (f ! 2) = iclamp (cs_steer_pct s) (- 100) 100"
      "Some (le16 (f ! 3) (f ! 4)) = speed_centi (cs_speed_mps s)"
      "uint (f ! 5) = iclamp (cs_brake_pct s) 0 100" "crc8_maxim f = 0"
    using pi_frame_fields [OF s(4)] by auto
  define lim where "lim = (if bit (f ! 1) 2 then rv else mx)"
  have ok: "fle (fneg rv) (cs_speed_mps s)" "fle (cs_speed_mps s) mx" "fle fzero mx" "fle fzero rv"
    using s by (auto simp: command_state_ok_def)
  have le: "fle (fabs (cs_speed_mps s)) (fabs lim)"
    using ok F(2) by (cases "cs_speed_mps s"; cases mx; cases rv) (auto simp: lim_def fle_def)
  have "fle fzero lim" "fle lim (Fin 1000000)" using ok assms(2,3) by (simp_all add: lim_def)
  then obtain q where q: "lim = Fin q" "0 \<le> q" "q \<le> 1000000" using fle_between_finite by blast
  have "- of_int 100000000 \<le> \<bar>q\<bar> * 100" "\<bar>q\<bar> * 100 \<le> of_int 100000000" using q by auto
  then obtain r where "fl (\<bar>q\<bar> * 100) = Fin r" by (rule fl_between) simp_all
  then obtain m where m: "speed_centi lim = Some m" by (simp add: speed_centi_def q)
  have "le16 (f ! 3) (f ! 4) \<le> m" using speed_centi_mono [OF le F(4) [symmetric] m] .
  then show ?thesis using F m by (simp add: frame_bounded_def lim_def iclamp_def)
qed

lemma new_comms_inv:
  assumes "new_comms hz mx rv = Inr c" "isfinite mx" "isfinite rv" "fle fzero mx" "fle fzero rv"
    "fle mx (Fin 1000000)" "fle rv (Fin 1000000)"
  shows "comms_inv mx rv c"
proof -
  have "cc_state c = new_command_state mx rv" "cc_parser c = new_parser" "cc_stats c = new_stats"
    using assms(1) by (auto simp: new_comms_def bind_res_eq_Inr)
  then show ?thesis using assms new_command_state_ok [of mx rv]
    by (simp add: comms_inv_def limits_ok_def new_parser_def frame_size_def new_stats_def)
       (simp add: new_command_state_def)
qed

subsection \<open>Shutting down\<close>

definition safe_state :: "command_state \<Rightarrow> bool" where
  "safe_state s \<longleftrightarrow> safe_reset s = s"

definition safe_frame :: "byte list \<Rightarrow> bool" where
  "safe_frame f \<longleftrightarrow> length f = 7 \<and> \<not> bit (f ! 1) 1 \<and> le16 (f ! 3) (f ! 4) = 0 \<and>
     sint (f ! 2) = 0 \<and> uint (f ! 5) = 0"

fun is_set :: "comms_event \<Rightarrow> bool" where
  "is_set (Set op) = True"
| "is_set e = False"

text \<open>The client's steps without calls of the setters.\<close>

definition quiet_step :: "comms \<Rightarrow> comms_event \<Rightarrow> comms \<times> byte list list" where
  "quiet_step c e = (if is_set e then (c, []) else comms_step c e)"

lemma safe_reset_safe [simp]: "safe_state (safe_reset s)"
  by (simp add: safe_state_def safe_reset_def)

lemma set_safe_state_safe [simp]: "safe_state (cc_state (set_safe_state c))"
  by (simp add: set_safe_state_def)

lemma rne_0 [simp]: "rne 0 = 0"
  using rne_of_int [of 0] by simp

lemma safe_state_frame: "safe_state s \<Longrightarrow> encode_pi_frame s = Some f \<Longrightarrow> safe_frame f"
proof -
  assume s: "safe_state s" and e: "encode_pi_frame s = Some f"
  have "cs_speed_mps s = fzero" "cs_steer_pct s = 0" "cs_brake_pct s = 0" "\<not> cs_drive_enabled s"
    using s by (auto simp: safe_state_def safe_reset_def) (metis command_state.select_convs command_state.surjective command_state.update_convs)+
  then show ?thesis using pi_frame_fields [OF e] by (simp add: safe_frame_def speed_centi_def iclamp_def)
qed

lemma rx_iteration_state [simp]: "cc_state (rx_iteration r now c) = cc_state c"
proof -
  have "cc_state (foldl (rx_deliver now) d fs) = cc_state d" for d fs
    by (induction fs arbitrary: d) (simp_all add: rx_deliver_keeps)
  then show ?thesis by (simp add: rx_iteration_def Let_def split: option.splits prod.splits)
qed

lemma snapshot_safe: "safe_state (cc_state c) \<Longrightarrow> snapshot_frame c = Some f \<Longrightarrow> safe_frame f"
  by (simp add: snapshot_frame_def safe_state_frame)

text \<open>Without setters a safe state stays safe, and the unsafe frames that are written were on their way.\<close>

abbreviation unsafe :: "byte list list \<Rightarrow> byte list multiset" where
  "unsafe fs \<equiv> filter_mset (\<lambda>f. \<not> safe_frame f) (mset fs)"

lemma quiet_step_safe:
  assumes "safe_state (cc_state c)"
  shows "safe_state (cc_state (fst (quiet_step c e)))"
proof (cases e)
  case (StopSend ok)
  then show ?thesis using assms by (auto simp: quiet_step_def stop_snapshot_def stop_write_def split: stop_phase.splits)
qed (use assms in \<open>auto simp: quiet_step_def tx_step_def move_transmitter_def start_def stop_begin_def stop_signal_def stop_joined_def stop_close_def Let_def
  split: transmitter.splits\<close>)

lemma quiet_step_unsafe:
  assumes "safe_state (cc_state c)"
  shows "unsafe (snd (quiet_step c e)) + unsafe (held_frames (fst (quiet_step c e))) \<subseteq># unsafe (held_frames c)"
proof (cases "is_set e")
  case False
  have n: "filter_mset (\<lambda>f. \<not> safe_frame f) (case snapshot_frame c of None \<Rightarrow> {#} | Some f \<Rightarrow> {#f#}) = {#}"
    using snapshot_safe [OF assms] by (cases "snapshot_frame c") simp_all
  show ?thesis using multiset_filter_mono [OF step_held [of c e], of "\<lambda>f. \<not> safe_frame f"] False
    unfolding filter_union_mset n by (simp add: quiet_step_def)
qed (simp add: quiet_step_def)

lemma quiet_run_unsafe:
  "safe_state (cc_state c) \<Longrightarrow>
     unsafe (snd (run quiet_step c es)) + unsafe (held_frames (fst (run quiet_step c es))) \<subseteq># unsafe (held_frames c)"
proof (induction es arbitrary: c)
  case (Cons e es)
  let ?d = "fst (quiet_step c e)"
  have "unsafe (snd (run quiet_step ?d es)) + unsafe (held_frames (fst (run quiet_step ?d es))) \<subseteq># unsafe (held_frames ?d)"
    using Cons.IH quiet_step_safe [OF Cons.prems] by blast
  then have "unsafe (snd (quiet_step c e)) + (unsafe (snd (run quiet_step ?d es)) + unsafe (held_frames (fst (run quiet_step ?d es)))) \<subseteq>#
      unsafe (held_frames c)"
    using quiet_step_unsafe [OF Cons.prems, of e] by (meson subset_mset.add_left_mono subset_mset.order_trans)
  then show ?case by (simp add: run_Cons add.assoc del: run.simps(2))
qed simp

interpretation quiet: latch quiet_step "\<lambda>c. safe_state (cc_state c) \<and> list_all safe_frame (held_frames c)" safe_frame
proof unfold_locales
  fix c e
  assume c: "safe_state (cc_state c) \<and> list_all safe_frame (held_frames c)"
  then have "list_all safe_frame (held_frames (fst (quiet_step c e))) \<and> list_all safe_frame (snd (quiet_step c e))"
    using step_from_held [of safe_frame c e] snapshot_safe by (auto simp: quiet_step_def)
  then show "safe_state (cc_state (fst (quiet_step c e))) \<and> list_all safe_frame (held_frames (fst (quiet_step c e)))"
    and "x \<in> set (snd (quiet_step c e)) \<Longrightarrow> safe_frame x" for x
    using quiet_step_safe c by (auto simp: list_all_iff)
qed

subsection \<open>Properties\<close>

text \<open>
  Safety of the wire: for a client whose speed limits are finite, non-negative and at most
  1000000 m/s, and for every interleaving of its starts, stops, setter calls (with any floats, NaN
  and infinities included), transmit and receive iterations and port failures, every frame written
  to the serial port is complete, has a correct CRC, steers and brakes within range, and carries a
  speed of at most the limit of its direction; and the counters of received frames add up.
\<close>

lemma wire_frames_bounded:
  assumes "new_comms hz mx rv = Inr c" "isfinite mx" "isfinite rv" "fle fzero mx" "fle fzero rv"
    "fle mx (Fin 1000000)" "fle rv (Fin 1000000)" "run comms_step c events = (d, frames)"
  shows "list_all (frame_bounded mx rv) frames \<and>
    st_rx_ok (cc_stats d) = st_rx_control (cc_stats d) + st_rx_battery (cc_stats d)"
proof -
  have "cc_transmitters c = [] \<and> cc_phase c = NotStopping" using assms(1) by (auto simp: new_comms_def bind_res_eq_Inr)
  then have i: "wire_inv mx rv c" using assms new_comms_inv by (simp add: wire_inv_def held_frames_def)
  have "list_all (frame_of mx rv) frames" using wire.run_out [OF i, of _ events] assms(8) by (simp add: list_all_iff)
  then have "list_all (frame_bounded mx rv) frames"
    using frame_of_bounded assms(6,7) by (auto simp: list_all_iff)
  then show ?thesis using wire.run_inv [OF i, of events] assms(8) by (simp add: wire_inv_def comms_inv_def)
qed

text \<open>
  C28. Stopping is safe: once the stopping thread has reset the command state, at the begin of \<open>stop\<close> or after the joins, and as
  long as no setter is called, every frame that is written is a safe frame, with the drive disabled and speed, steering and brake
  zero, except a frame whose snapshot a transmitter had already taken and not yet written: of those each is written at most once. So
  when no transmitter is between its snapshot and its write at the reset, as when the join has returned because the transmitter ended,
  every frame written is safe.
\<close>

theorem stop_writes_safe_frames:
  assumes "c1 = stop_joined c \<or> cc_running c \<and> c1 = stop_begin c" "run quiet_step c1 events = (d, frames)"
  shows "unsafe frames \<subseteq># unsafe (concat (map held_by (cc_transmitters c))) \<and>
    ((\<forall>f. Holding f \<notin> set (cc_transmitters c)) \<longrightarrow> list_all safe_frame frames)"
proof -
  have c1: "safe_state (cc_state c1)" "held_frames c1 = concat (map held_by (cc_transmitters c))"
    using assms(1) by (auto simp: stop_joined_def stop_begin_def held_frames_def set_safe_state_def)
  have "unsafe frames + unsafe (held_frames d) \<subseteq># unsafe (held_frames c1)"
    using quiet_run_unsafe [OF c1(1), of events] assms(2) by simp
  then have u: "unsafe frames \<subseteq># unsafe (concat (map held_by (cc_transmitters c)))"
    unfolding c1(2) [symmetric] by (rule subset_mset.order_trans [OF mset_subset_eq_add_left])
  have "held_by x = []" if "\<forall>f. Holding f \<notin> set (cc_transmitters c)" "x \<in> set (cc_transmitters c)" for x
    using that by (cases x) auto
  then have "list_all safe_frame (held_frames c1)" if "\<forall>f. Holding f \<notin> set (cc_transmitters c)"
    using that by (auto simp: c1(2) list_all_iff)
  with quiet.run_out [of c1 _ events] c1(1) assms(2) u show ?thesis by (auto simp: list_all_iff)
qed

lemma sample_comms: "\<exists>c. new_comms (Fin 1) (Fin 12) (Fin 1) = Inr c"
  by (simp add: new_comms_def)

lemma wire_frames_bounded_witness:
  "\<exists>c. new_comms (Fin 1) (Fin 12) (Fin 1) = Inr c \<and>
     list_all (frame_bounded (Fin 12) (Fin 1)) (snd (run comms_step c [Start True, Set (SetSpeed NaN), TxStep 0 True, TxStep 0 True, TxStep 0 True]))"
proof -
  obtain c where c: "new_comms (Fin 1) (Fin 12) (Fin 1) = Inr c" using sample_comms by blast
  obtain d frames where "run comms_step c [Start True, Set (SetSpeed NaN), TxStep 0 True, TxStep 0 True, TxStep 0 True] = (d, frames)"
    by fastforce
  with wire_frames_bounded [OF c _ _ _ _ _ _ this] c show ?thesis by simp
qed

lemma sample_started:
  assumes "new_comms (Fin 1) (Fin 12) (Fin 1) = Inr c"
  shows "cc_transmitters (fst (start True c)) = [AtLoop]" "cc_running (fst (start True c))" "cc_phase (fst (start True c)) = NotStopping"
  using assms by (auto simp: new_comms_def bind_res_eq_Inr start_def set_safe_state_def)

lemma stop_writes_safe_frames_witness:
  "\<exists>c. new_comms (Fin 1) (Fin 12) (Fin 1) = Inr c \<and>
     list_all safe_frame (snd (run quiet_step (stop_begin (fst (start True c)))
       [TxStep 0 True, TxStep 0 True, StopSignal, StopJoined True, StopSend True, StopSend True, TxStep 0 True, StopClose True]))"
proof -
  obtain c where c: "new_comms (Fin 1) (Fin 12) (Fin 1) = Inr c" using sample_comms by blast
  obtain d frames where r: "run quiet_step (stop_begin (fst (start True c)))
       [TxStep 0 True, TxStep 0 True, StopSignal, StopJoined True, StopSend True, StopSend True, TxStep 0 True, StopClose True] = (d, frames)"
    by fastforce
  have "stop_begin (fst (start True c)) = stop_joined c' \<or> cc_running (fst (start True c)) \<and> stop_begin (fst (start True c)) = stop_begin (fst (start True c))" for c'
    using sample_started [OF c] by simp
  from stop_writes_safe_frames [OF this r] sample_started [OF c] c r show ?thesis by (simp del: run.simps)
qed

text \<open>
  The exception is real: a transmitter that took its snapshot before the reset and is then held up longer than the join waits
  writes its old frame after the safe frames of \<open>stop\<close>, as long as the port is not closed.
\<close>

lemma held_up_frame_written_last:
  assumes "cc_serial c = Some True" "cc_running c" "cc_phase c = NotStopping" "cc_transmitters c = [Holding f]"
    "encode_pi_frame (safe_reset (cc_state c)) = Some g"
  shows "snd (run quiet_step (stop_begin c)
    [StopSignal, StopJoined True, StopSend True, StopSend True, StopSend True, StopSend True, StopSend True, StopSend True, TxStep 0 True]) = [g, g, g, f]"
proof -
  have "safe_reset (safe_reset s) = safe_reset s" for s by (simp add: safe_reset_def)
  then show ?thesis using assms
  by (simp add: quiet_step_def stop_begin_def stop_signal_def stop_joined_def joined_def stop_snapshot_def stop_write_def snapshot_frame_def
    write_frame_def serial_write_def after_send_def set_safe_state_def tx_step_def move_transmitter_def)
qed

text \<open>
  A port that raises on closing leaves a client that still counts as running: a later \<open>start\<close>
  returns at once, without a port.
\<close>

lemma close_failure_sticks:
  "cc_serial c \<noteq> None \<Longrightarrow> cc_running c \<Longrightarrow>
     (let d = fst (stop_close False c) in cc_serial d = None \<and> start ok d = (d, Inr ()))"
  by (simp add: stop_close_def start_def Let_def)

end
