(* ===== verification/Battery.thy ===== *)
theory Battery
  imports Prelude
begin

section \<open>Battery estimation and the return-home guard\<close>

text \<open>
  \<open>salus_control/battery_estimator.py\<close> and \<open>external_battery.py\<close>: the validation of the
  state-of-charge curve, its evaluation, the latched return-home guard of \<open>BatteryEstimator\<close>, the
  label of the battery state, and the acceptance of an external battery message.
\<close>

type_synonym soc_curve = "(pyfloat \<times> pyfloat) list"

datatype curve_error =
    CurveTooShort
  | CurveVoltageNotFinite
  | CurveVoltageOrder
  | CurvePctOrder
  | CurvePairs
  | CurveZeroDivision

definition default_soc_curve :: soc_curve where
  "default_soc_curve =
     [(fl (445 / 10), fl 0), (fl (465 / 10), fl (15 / 100)), (fl 48, fl (35 / 100)),
      (fl 50, fl (60 / 100)), (fl 52, fl (85 / 100)), (fl (535 / 10), fl 1)]"

definition clamp01 :: "pyfloat \<Rightarrow> pyfloat" where
  "clamp01 v = pymax fzero (pymin (Fin 1) v)"

text \<open>The loop over the points, with the previous point.\<close>

fun check_points :: "(pyfloat \<times> pyfloat) option \<Rightarrow> soc_curve \<Rightarrow> curve_error + unit" where
  "check_points prev [] = Inr ()"
| "check_points prev ((v, p) # ps) =
     (if \<not> isfinite v then Inl CurveVoltageNotFinite
      else if (case prev of None \<Rightarrow> False | Some (lv, lp) \<Rightarrow> fle v lv) then Inl CurveVoltageOrder
      else if (case prev of None \<Rightarrow> False | Some (lv, lp) \<Rightarrow> flt p lp) then Inl CurvePctOrder
      else check_points (Some (v, p)) ps)"

definition ensure_monotonic_curve :: "soc_curve \<Rightarrow> curve_error + soc_curve" where
  "ensure_monotonic_curve points =
     (let curve = map (\<lambda>(v, p). (v, clamp01 p)) points
      in if length curve < 2 then Inl CurveTooShort
         else bind_res (check_points None curve) (\<lambda>_. Inr curve))"

fun pairs_of :: "pyfloat list \<Rightarrow> soc_curve" where
  "pairs_of (a # b # xs) = (a, b) # pairs_of xs"
| "pairs_of xs = []"

definition parse_soc_curve_points :: "pyfloat list \<Rightarrow> soc_curve \<Rightarrow> curve_error + soc_curve" where
  "parse_soc_curve_points values default_curve =
     (if values = [] then ensure_monotonic_curve default_curve
      else if length values < 4 \<or> length values mod 2 \<noteq> 0 then Inl CurvePairs
      else ensure_monotonic_curve (pairs_of values))"

text \<open>The loop over adjacent points; \<open>None\<close> for the division by zero that \<open>max(1.0e-6, ...)\<close> rules out.\<close>

fun soc_segments :: "pyfloat \<Rightarrow> soc_curve \<Rightarrow> pyfloat option" where
  "soc_segments v ((v0, p0) # (v1, p1) # ps) =
     (if fle v v1
      then map_option (\<lambda>ratio. clamp01 (fadd p0 (fmul ratio (fsub p1 p0))))
             (fdiv (fsub v v0) (pymax eps6 (fsub v1 v0)))
      else soc_segments v ((v1, p1) # ps))"
| "soc_segments v ps = Some (Fin 1)"

definition piecewise_soc :: "pyfloat \<Rightarrow> soc_curve \<Rightarrow> curve_error + pyfloat" where
  "piecewise_soc v points =
     (if \<not> isfinite v then Inr fzero
      else bind_res (ensure_monotonic_curve (if points = [] then default_soc_curve else points)) (\<lambda>curve.
        if fle v (fst (hd curve)) then Inr fzero
        else if fle (fst (last curve)) v then Inr (Fin 1)
        else of_option CurveZeroDivision (soc_segments v curve)))"

subsection \<open>BatteryEstimator\<close>

datatype guard_state = GuardOk | GuardLowEnergyGoHome

record estimator =
  es_curve :: soc_curve
  es_home_v :: pyfloat
  es_home_persist :: pyfloat
  es_clear_v :: pyfloat
  es_clear_persist :: pyfloat
  es_last :: "pyfloat option"
  es_low :: pyfloat
  es_clear :: pyfloat
  es_latched :: bool

definition new_estimator ::
    "soc_curve \<Rightarrow> pyfloat \<Rightarrow> pyfloat \<Rightarrow> pyfloat \<Rightarrow> pyfloat \<Rightarrow> curve_error + estimator" where
  "new_estimator points home_v home_persist clear_v clear_persist =
     bind_res (ensure_monotonic_curve (if points = [] then default_soc_curve else points)) (\<lambda>curve.
       Inr \<lparr> es_curve = curve, es_home_v = home_v, es_home_persist = pymax fzero home_persist,
             es_clear_v = pymax home_v clear_v, es_clear_persist = pymax fzero clear_persist,
             es_last = None, es_low = fzero, es_clear = fzero, es_latched = False \<rparr>)"

definition break_continuity :: "estimator \<Rightarrow> estimator" where
  "break_continuity s = s \<lparr> es_last := None, es_low := fzero, es_clear := fzero \<rparr>"

record sample =
  sm_voltage :: pyfloat
  sm_time :: pyfloat
  sm_traction :: bool
  sm_valid :: bool

record estimate =
  be_voltage :: pyfloat
  be_percentage :: pyfloat
  be_operator_soc :: pyfloat
  be_traction :: bool
  be_return_home :: bool
  be_guard :: guard_state
  be_low_persist :: pyfloat
  be_clear_persist :: pyfloat

definition sample_dt :: "pyfloat option \<Rightarrow> pyfloat \<Rightarrow> pyfloat" where
  "sample_dt prev time = (case prev of None \<Rightarrow> fzero | Some l \<Rightarrow> pymax fzero (fsub time l))"

definition guard_unlatched :: "estimator \<Rightarrow> pyfloat \<Rightarrow> pyfloat \<Rightarrow> estimator" where
  "guard_unlatched s v dt =
     (let low = (if fle v (es_home_v s) then fadd (es_low s) dt else fzero)
      in s \<lparr> es_clear := fzero, es_low := low,
             es_latched := fle (es_home_persist s) low \<rparr>)"

definition guard_latched :: "estimator \<Rightarrow> pyfloat \<Rightarrow> pyfloat \<Rightarrow> estimator" where
  "guard_latched s v dt =
     (let c = (if fle (es_clear_v s) v then fadd (es_clear s) dt else fzero)
      in if fle (es_clear_persist s) c
         then s \<lparr> es_latched := False, es_low := fzero, es_clear := fzero \<rparr>
         else s \<lparr> es_clear := c \<rparr>)"

definition guard_step :: "estimator \<Rightarrow> sample \<Rightarrow> estimator" where
  "guard_step s x =
     (let dt = sample_dt (es_last s) (sm_time x)
      in if \<not> sm_valid x then break_continuity s
         else (if es_latched s then guard_latched s (sm_voltage x) dt
               else guard_unlatched s (sm_voltage x) dt) \<lparr> es_last := Some (sm_time x) \<rparr>)"

definition update :: "estimator \<Rightarrow> sample \<Rightarrow> estimator \<times> (curve_error + estimate)" where
  "update s x =
     (let s1 = guard_step s x
      in (s1, bind_res (piecewise_soc (sm_voltage x) (es_curve s1)) (\<lambda>pct.
            Inr \<lparr> be_voltage = sm_voltage x, be_percentage = pct,
                  be_operator_soc = fmul (Fin 100) pct, be_traction = sm_traction x,
                  be_return_home = es_latched s1,
                  be_guard = (if es_latched s1 then GuardLowEnergyGoHome else GuardOk),
                  be_low_persist = es_low s1, be_clear_persist = es_clear s1 \<rparr>)))"

datatype battery_label =
  LblUnavailable | LblStale | LblSuspect | LblLowEnergyGoHome | LblBelowMinimum | LblCritical | LblLow | LblOk

definition battery_state_label ::
    "bool \<Rightarrow> bool \<Rightarrow> bool \<Rightarrow> bool \<Rightarrow> guard_state \<Rightarrow> pyfloat \<Rightarrow> pyfloat \<Rightarrow> pyfloat \<Rightarrow> pyfloat \<Rightarrow> battery_label" where
  "battery_state_label ready fresh link_fresh suspect guard v low critical minimum =
     (if \<not> ready then LblUnavailable
      else if \<not> link_fresh \<or> \<not> fresh then LblStale
      else if suspect then LblSuspect
      else if guard = GuardLowEnergyGoHome then LblLowEnergyGoHome
      else if flt v minimum then LblBelowMinimum
      else if fle v critical then LblCritical
      else if fle v low then LblLow
      else LblOk)"

subsection \<open>External battery\<close>

text \<open>
  The fields of the \<open>BatteryState\<close> message the code reads; its health constants are attributes of
  the message class, which is not part of the repository.
\<close>

record battery_msg =
  bm_present :: bool
  bm_voltage :: pyfloat
  bm_percentage :: pyfloat
  bm_current :: pyfloat
  bm_temperature :: pyfloat
  bm_charge :: pyfloat
  bm_capacity :: pyfloat
  bm_cell_voltage :: "pyfloat list"
  bm_cell_temperature :: "pyfloat list"
  bm_health :: int
  bm_health_unknown :: int
  bm_health_good :: int

datatype external_error = ExtVoltageInvalid | ExtSocInvalid

record external_battery =
  eb_voltage :: pyfloat
  eb_percentage :: pyfloat
  eb_current :: pyfloat
  eb_temperature :: pyfloat
  eb_charge :: pyfloat
  eb_capacity :: pyfloat
  eb_cell_voltage :: "pyfloat list"
  eb_cell_temperature :: "pyfloat list"
  eb_rx :: pyfloat
  eb_ready :: bool
  eb_fresh :: bool
  eb_suspect :: bool

definition external_battery_sample :: "battery_msg \<Rightarrow> pyfloat \<Rightarrow> external_error + external_battery" where
  "external_battery_sample msg received =
     bind_res (raise_if (\<not> bm_present msg \<or> \<not> isfinite (bm_voltage msg) \<or> fle (bm_voltage msg) fzero)
                ExtVoltageInvalid) (\<lambda>_.
     bind_res (raise_if (\<not> isfinite (bm_percentage msg) \<or>
                  \<not> (fle fzero (bm_percentage msg) \<and> fle (bm_percentage msg) (Fin 1))) ExtSocInvalid) (\<lambda>_.
       Inr \<lparr> eb_voltage = bm_voltage msg, eb_percentage = bm_percentage msg,
             eb_current = bm_current msg, eb_temperature = bm_temperature msg,
             eb_charge = bm_charge msg, eb_capacity = bm_capacity msg,
             eb_cell_voltage = bm_cell_voltage msg, eb_cell_temperature = bm_cell_temperature msg,
             eb_rx = received, eb_ready = True, eb_fresh = True,
             eb_suspect = bm_health msg \<notin> {bm_health_unknown msg, bm_health_good msg} \<rparr>))"

subsection \<open>Lemmas\<close>

lemma clamp01_range: "\<exists>q. clamp01 v = Fin q \<and> 0 \<le> q \<and> q \<le> 1"
  using pymax_pymin_bounds [of fzero "Fin 1" v] fle_between_finite [of 0 "clamp01 v" 1]
  by (simp add: clamp01_def)

lemma clamp01_idem [simp]: "clamp01 (clamp01 v) = clamp01 v"
  using clamp01_range [of v] by (auto simp: clamp01_def [of "Fin q" for q] pymax_def pymin_def)

lemma ensure_idem: "ensure_monotonic_curve ps = Inr c \<Longrightarrow> ensure_monotonic_curve c = Inr c"
proof -
  assume "ensure_monotonic_curve ps = Inr c"
  then have c: "c = map (\<lambda>(v, p). (v, clamp01 p)) ps" "\<not> length c < 2" "check_points None c = Inr ()"
    by (auto simp: ensure_monotonic_curve_def Let_def bind_res_eq_Inr split: if_splits)
  have "map (\<lambda>(v, p). (v, clamp01 p)) c = c" by (auto simp: c(1))
  then show ?thesis using c(2,3) by (simp add: ensure_monotonic_curve_def Let_def)
qed

lemma soc_segments_range: "\<exists>q. soc_segments v ps = Some (Fin q) \<and> 0 \<le> q \<and> q \<le> 1"
proof (induction v ps rule: soc_segments.induct)
  case (1 v v0 p0 v1 p1 ps)
  have "flt fzero (pymax eps6 (fsub v1 v0))" using eps6_le_nonneg [OF eps6_le_pymax] by blast
  then obtain r where "fdiv (fsub v v0) (pymax eps6 (fsub v1 v0)) = Some r"
    by (cases "pymax eps6 (fsub v1 v0)") auto
  then show ?case using 1 clamp01_range by simp
qed auto

lemma check_points_sorted:
  "check_points prev ps = Inr () \<Longrightarrow>
     sorted_wrt flt (map fst ps) \<and> list_all (\<lambda>(v, p). isfinite v) ps \<and>
     (case prev of None \<Rightarrow> True | Some (lv, lp) \<Rightarrow> isfinite lv \<longrightarrow> list_all (\<lambda>(v, p). flt lv v) ps)"
proof (induction prev ps rule: check_points.induct)
  case (2 prev v p ps)
  then have f: "isfinite v" and IH: "sorted_wrt flt (map fst ps)" "list_all (\<lambda>(v, p). isfinite v) ps"
      "list_all (\<lambda>(w, p). flt v w) ps"
    by (auto split: if_splits)
  have "isfinite lv \<Longrightarrow> flt lv v" if "prev = Some (lv, lp)" for lv lp
    using "2.prems" that f by (cases lv; cases v) (auto simp: fle_def split: if_splits)
  then show ?case using f IH
    by (auto simp: list_all_iff split: option.splits intro: flt_trans)
qed (auto split: option.splits)


text \<open>
  The guard over a history of samples. \<open>gap prev x\<close> is the time a sample adds after the sample
  \<open>prev\<close>; \<open>gaps\<close> lists them, and \<open>accrue\<close> adds them up as the code does, one float addition at a
  time.
\<close>

definition gap :: "sample option \<Rightarrow> sample \<Rightarrow> pyfloat" where
  "gap prev x = sample_dt (case prev of None \<Rightarrow> None | Some p \<Rightarrow> if sm_valid p then Some (sm_time p) else None)
                  (sm_time x)"

fun gaps :: "sample option \<Rightarrow> sample list \<Rightarrow> pyfloat list" where
  "gaps prev [] = []"
| "gaps prev (x # xs) = gap prev x # gaps (Some x) xs"

definition last_opt :: "sample list \<Rightarrow> sample option" where
  "last_opt xs = (if xs = [] then None else Some (last xs))"

definition accrue :: "pyfloat list \<Rightarrow> pyfloat" where
  "accrue ds = foldl fadd fzero ds"

definition history :: "estimator \<Rightarrow> sample list \<Rightarrow> estimator" where
  "history s xs = foldl guard_step s xs"

lemma gaps_append: "gaps prev (xs @ [x]) = gaps prev xs @ [gap (if xs = [] then prev else Some (last xs)) x]"
  by (induction xs arbitrary: prev) auto

text \<open>\<open>windowed P h e\<close>: the time \<open>e\<close> was accrued over a suffix of the history \<open>h\<close> of valid samples satisfying \<open>P\<close>.\<close>

definition windowed :: "(sample \<Rightarrow> bool) \<Rightarrow> sample list \<Rightarrow> pyfloat \<Rightarrow> bool" where
  "windowed P h e \<longleftrightarrow> (\<exists>pre win. h = pre @ win \<and> list_all (\<lambda>x. sm_valid x \<and> P x) win \<and>
      e = accrue (gaps (last_opt pre) win))"

lemma windowed_zero: "windowed P h fzero"
  unfolding windowed_def by (rule exI [of _ h], rule exI [of _ "[]"]) (simp add: accrue_def)

lemma windowed_snoc:
  assumes "windowed P h e" "sm_valid x" "P x"
  shows "windowed P (h @ [x]) (fadd e (gap (last_opt h) x))"
proof -
  obtain pre win where w: "h = pre @ win" "list_all (\<lambda>x. sm_valid x \<and> P x) win"
    "e = accrue (gaps (last_opt pre) win)"
    using assms(1) by (auto simp: windowed_def)
  have "(if win = [] then last_opt pre else Some (last win)) = last_opt h"
    using w(1) by (auto simp: last_opt_def)
  then have "accrue (gaps (last_opt pre) (win @ [x])) = fadd e (gap (last_opt h) x)"
    by (simp add: gaps_append accrue_def w(3))
  then show ?thesis unfolding windowed_def
    using w assms(2,3) by (intro exI [of _ pre] exI [of _ "win @ [x]"]) auto
qed

abbreviation low_sample :: "estimator \<Rightarrow> sample \<Rightarrow> bool" where
  "low_sample s x \<equiv> fle (sm_voltage x) (es_home_v s)"

abbreviation high_sample :: "estimator \<Rightarrow> sample \<Rightarrow> bool" where
  "high_sample s x \<equiv> fle (es_clear_v s) (sm_voltage x)"

definition same_config :: "estimator \<Rightarrow> estimator \<Rightarrow> bool" where
  "same_config s t \<longleftrightarrow> es_curve s = es_curve t \<and> es_home_v s = es_home_v t \<and>
     es_home_persist s = es_home_persist t \<and> es_clear_v s = es_clear_v t \<and>
     es_clear_persist s = es_clear_persist t"

definition guard_inv :: "estimator \<Rightarrow> sample list \<Rightarrow> estimator \<Rightarrow> bool" where
  "guard_inv s h t \<longleftrightarrow> same_config s t \<and>
     windowed (low_sample s) h (if es_latched t then fzero else es_low t) \<and>
     windowed (high_sample s) h (es_clear t) \<and>
     es_last t = (case last_opt h of None \<Rightarrow> None | Some p \<Rightarrow> if sm_valid p then Some (sm_time p) else None)"

lemma last_opt_snoc [simp]: "last_opt (h @ [x]) = Some x"
  by (simp add: last_opt_def)

lemma gap_last: "guard_inv s h t \<Longrightarrow> sample_dt (es_last t) (sm_time x) = gap (last_opt h) x"
  by (simp add: guard_inv_def gap_def)

lemma guard_inv_step [inv_intros]:
  assumes "guard_inv s h t"
  shows "guard_inv s (h @ [x]) (guard_step t x)"
proof -
  have c: "same_config s t" and l: "windowed (low_sample s) h (if es_latched t then fzero else es_low t)"
    and r: "windowed (high_sample s) h (es_clear t)"
    using assms by (auto simp: guard_inv_def)
  note snoc = windowed_snoc [OF l, of x] windowed_snoc [OF r, of x]
  note defs = guard_step_def guard_latched_def guard_unlatched_def break_continuity_def Let_def
    gap_last [OF assms] guard_inv_def same_config_def
  show ?thesis
  proof (cases "sm_valid x")
    case False
    then show ?thesis using c by (simp add: defs windowed_zero)
  next
    case True
    then show ?thesis using c snoc by (auto simp: defs windowed_zero)
  qed
qed

lemma history_snoc: "history s (h @ [x]) = guard_step (history s h) x"
  by (simp add: history_def)

definition fresh_estimator :: "estimator \<Rightarrow> bool" where
  "fresh_estimator s \<longleftrightarrow> es_last s = None \<and> es_low s = fzero \<and> es_clear s = fzero \<and> \<not> es_latched s \<and>
     fle fzero (es_home_persist s) \<and> fle fzero (es_clear_persist s)"

lemma new_estimator_fresh: "new_estimator ps a b c d = Inr s \<Longrightarrow> fresh_estimator s"
  by (auto simp: new_estimator_def fresh_estimator_def bind_res_eq_Inr pymax_nonneg)

lemma history_inv: "fresh_estimator s \<Longrightarrow> guard_inv s h (history s h)"
proof (induction h rule: rev_induct)
  case Nil
  then show ?case
    by (simp add: guard_inv_def same_config_def history_def fresh_estimator_def windowed_zero last_opt_def)
next
  case (snoc x h)
  then show ?case by (simp add: history_snoc guard_inv_step)
qed

lemma guard_flip_step:
  assumes "guard_inv s h t" "es_latched (guard_step t x) \<noteq> es_latched t"
  shows "sm_valid x \<and>
    (if es_latched t then \<exists>e. windowed (high_sample s) (h @ [x]) e \<and> fle (es_clear_persist s) e
     else \<exists>e. windowed (low_sample s) (h @ [x]) e \<and> fle (es_home_persist s) e)"
proof -
  have v: "sm_valid x" using assms(2) by (auto simp: guard_step_def break_continuity_def Let_def split: if_splits)
  have c: "same_config s t" and l: "windowed (low_sample s) h (if es_latched t then fzero else es_low t)"
    and r: "windowed (high_sample s) h (es_clear t)"
    using assms by (auto simp: guard_inv_def)
  note snoc = windowed_snoc [OF l v] windowed_snoc [OF r v]
  show ?thesis
  proof (cases "es_latched t")
    case True
    then show ?thesis using assms(2) v c snoc(2) windowed_zero
      by (auto simp: guard_step_def guard_latched_def gap_last [OF assms(1)] same_config_def Let_def split: if_splits)
  next
    case False
    then show ?thesis using assms(2) v c snoc(1) windowed_zero
      by (auto simp: guard_step_def guard_unlatched_def gap_last [OF assms(1)] same_config_def Let_def split: if_splits)
  qed
qed

lemma windowed_positive:
  assumes "windowed P h e" "fle p e" "flt fzero p"
  shows "\<exists>pre win. h = pre @ win \<and> win \<noteq> [] \<and> list_all (\<lambda>x. sm_valid x \<and> P x) win \<and>
    fle p (accrue (gaps (last_opt pre) win))"
proof -
  obtain pre win where w: "h = pre @ win" "list_all (\<lambda>x. sm_valid x \<and> P x) win"
    "e = accrue (gaps (last_opt pre) win)"
    using assms(1) by (auto simp: windowed_def)
  have "win \<noteq> []" using w(3) assms(2,3) flt_fle_trans [of fzero p e] by (auto simp: accrue_def)
  then show ?thesis using w assms(2) by blast
qed

subsection \<open>Properties\<close>

text \<open>
  The return-home guard changes only with persistent evidence. With positive persistence times,
  whenever a sample flips the guard of a new estimator, the history ends in a non-empty window of
  valid samples that are all at or below the return-home voltage (all at or above the clearing
  voltage, when the guard was latched), and the time accrued over that window reaches the
  persistence time. An invalid sample never flips the guard.
\<close>

lemma guard_flip_needs_window:
  assumes "new_estimator points hv hp cv cp = Inr s"
    and "flt fzero (es_home_persist s)" "flt fzero (es_clear_persist s)"
    and "es_latched (history s (h @ [x])) \<noteq> es_latched (history s h)"
  shows "\<exists>pre win. h @ [x] = pre @ win \<and> win \<noteq> [] \<and>
    list_all (\<lambda>y. sm_valid y \<and> (if es_latched (history s h) then high_sample s y else low_sample s y)) win \<and>
    fle (if es_latched (history s h) then es_clear_persist s else es_home_persist s)
        (accrue (gaps (last_opt pre) win))"
proof -
  have i: "guard_inv s h (history s h)" using assms(1) by (intro history_inv new_estimator_fresh)
  show ?thesis
    using guard_flip_step [OF i] assms(2-4) windowed_positive
    by (cases "es_latched (history s h)") (fastforce simp: history_snoc)+
qed

text \<open>
  With a return-home persistence of zero the guard latches on the first valid sample, whatever
  its voltage: zero accrued seconds reach the zero threshold also when the voltage is high.
\<close>

lemma zero_persistence_latches:
  assumes "new_estimator points hv hp cv cp = Inr s" "es_home_persist s = fzero" "sm_valid x"
    and "flt hv (sm_voltage x)"
  shows "es_latched (history s [x])"
proof -
  have "fresh_estimator s" "es_home_v s = hv"
    using assms(1) new_estimator_fresh by (auto simp: new_estimator_def bind_res_eq_Inr)
  moreover have "\<not> fle (sm_voltage x) hv" using assms(4) by (auto simp: fle_def dest: flt_asym) (cases hv; cases "sm_voltage x"; auto)
  ultimately show ?thesis using assms(2,3)
    by (simp add: history_def guard_step_def fresh_estimator_def guard_unlatched_def Let_def)
qed

text \<open>
  For an estimator's own curve the state of charge is always defined: the curve was validated
  and validates again, the result is a finite number between 0 and 1, it is 0 at or below the first
  voltage of the curve and 1 at or above the last one, and 0 for a voltage that is not finite.
\<close>

lemma soc_defined_and_bounded:
  assumes "new_estimator points hv hp cv cp = Inr s"
  shows "\<exists>q. piecewise_soc v (es_curve (history s h)) = Inr (Fin q) \<and> 0 \<le> q \<and> q \<le> 1 \<and>
    (fle v (fst (hd (es_curve s))) \<longrightarrow> q = 0) \<and>
    (isfinite v \<and> \<not> fle v (fst (hd (es_curve s))) \<and> fle (fst (last (es_curve s))) v \<longrightarrow> q = 1) \<and>
    (\<not> isfinite v \<longrightarrow> q = 0)"
proof -
  have c: "es_curve (history s h) = es_curve s"
    using history_inv [OF new_estimator_fresh [OF assms], of h] by (simp add: guard_inv_def same_config_def)
  obtain ps where e: "ensure_monotonic_curve ps = Inr (es_curve s)"
    using assms by (auto simp: new_estimator_def bind_res_eq_Inr)
  have ne: "es_curve s \<noteq> []"
    using e by (auto simp: ensure_monotonic_curve_def Let_def bind_res_eq_Inr split: if_splits)
  obtain q where "soc_segments v (es_curve s) = Some (Fin q)" "0 \<le> q" "q \<le> 1"
    using soc_segments_range by blast
  then show ?thesis using ne ensure_idem [OF e] 
    by (auto simp: c piecewise_soc_def)
qed

subsection \<open>Witnesses\<close>

definition sample_estimator :: "pyfloat \<Rightarrow> estimator" where
  "sample_estimator persist =
     \<lparr> es_curve = [(Fin 44, fzero), (Fin 53, Fin 1)], es_home_v = Fin 46, es_home_persist = persist,
       es_clear_v = Fin 48, es_clear_persist = Fin 10, es_last = None, es_low = fzero,
       es_clear = fzero, es_latched = False \<rparr>"

lemma sample_estimator_new:
  "fle fzero p \<Longrightarrow> new_estimator [(Fin 44, fzero), (Fin 53, Fin 1)] (Fin 46) p (Fin 48) (Fin 10) =
     Inr (sample_estimator p)"
  by (cases p) (auto simp: new_estimator_def ensure_monotonic_curve_def clamp01_def pymax_def pymin_def
    sample_estimator_def Let_def fle_def)

definition mk_sample :: "pyfloat \<Rightarrow> pyfloat \<Rightarrow> sample" where
  "mk_sample v t = \<lparr> sm_voltage = v, sm_time = t, sm_traction = False, sm_valid = True \<rparr>"

lemmas sample_simps = sample_estimator_def mk_sample_def history_def guard_step_def guard_latched_def
  guard_unlatched_def sample_dt_def Let_def pymax_def fsub_def

lemma guard_flip_needs_window_witness:
  "\<exists>pre win. [mk_sample (Fin 40) fzero, mk_sample (Fin 41) (Fin 10)] = pre @ win \<and> win \<noteq> [] \<and>
     list_all (low_sample (sample_estimator (Fin 10))) win \<and>
     fle (Fin 10) (accrue (gaps (last_opt pre) win))"
proof -
  have n: "new_estimator [(Fin 44, fzero), (Fin 53, Fin 1)] (Fin 46) (Fin 10) (Fin 48) (Fin 10) =
     Inr (sample_estimator (Fin 10))" by (rule sample_estimator_new) simp
  have "es_latched (history (sample_estimator (Fin 10)) ([mk_sample (Fin 40) fzero] @ [mk_sample (Fin 41) (Fin 10)])) \<noteq>
    es_latched (history (sample_estimator (Fin 10)) [mk_sample (Fin 40) fzero])"
    by (simp add: sample_simps)
  from guard_flip_needs_window [OF n _ _ this] show ?thesis
    by (fastforce simp: sample_simps list_all_iff)
qed

lemma zero_persistence_latches_witness:
  "es_latched (history (sample_estimator fzero) [mk_sample (Fin 53) fzero])"
  by (rule zero_persistence_latches [OF sample_estimator_new]) (simp_all add: sample_simps)

lemma soc_defined_and_bounded_witness:
  "\<exists>q. piecewise_soc (Fin 50) (es_curve (history (sample_estimator (Fin 10)) [])) = Inr (Fin q) \<and> 0 \<le> q \<and> q \<le> 1"
  using soc_defined_and_bounded [OF sample_estimator_new [of "Fin 10"], of "Fin 50" "[]"] by auto

end
