(* ===== verification/Control_Logic.thy ===== *)
theory Control_Logic
  imports Prelude
begin

section \<open>From a velocity command to a drive command\<close>

text \<open>
  \<open>salus_control/control_logic.py\<close>: the steering limit, the Ackermann steering computation, the
  conversion of a velocity command to a \<open>DesiredCommand\<close>, and the choice between a fresh command
  and the safe one. The functions of the C library (\<open>atan\<close>, \<open>tan\<close>) are parameters, since their
  last bits are not specified; \<open>tan\<close> returns \<open>None\<close> where Python raises (an infinite argument).
\<close>

definition clamp :: "pyfloat \<Rightarrow> pyfloat \<Rightarrow> pyfloat \<Rightarrow> pyfloat" where
  "clamp value low high = pymax low (pymin high value)"

definition src_unknown :: int where "src_unknown = 0"
definition src_auto :: int where "src_auto = 1"
definition src_manual :: int where "src_manual = 2"
definition src_safety :: int where "src_safety = 3"

definition effective_steering_limit_rad ::
    "pyfloat \<Rightarrow> pyfloat option \<Rightarrow> pyfloat option \<Rightarrow> int \<Rightarrow> pyfloat" where
  "effective_steering_limit_rad limit op_limit manual_limit source =
     (let steering_limit = pymax eps6 (fabs limit);
          configured = (if source = src_manual then manual_limit else op_limit)
      in case configured of
           None \<Rightarrow> steering_limit
         | Some c \<Rightarrow> pymin steering_limit (pymax eps6 (fabs c)))"

record desired_command =
  dc_drive_enabled :: bool
  dc_estop :: bool
  dc_speed :: pyfloat
  dc_steer :: int
  dc_brake :: int
  dc_req_linear :: pyfloat
  dc_req_angular :: pyfloat
  dc_ref_speed :: pyfloat
  dc_req_curv :: pyfloat
  dc_app_curv :: pyfloat
  dc_req_steer :: pyfloat
  dc_app_steer :: pyfloat
  dc_limit_used :: pyfloat
  dc_source :: int
  dc_saturated :: bool
  dc_fallback :: bool
  dc_limited :: bool
  dc_min_enforced :: bool

definition safe_command :: desired_command where
  "safe_command =
     \<lparr> dc_drive_enabled = False, dc_estop = False, dc_speed = fzero, dc_steer = 0, dc_brake = 0,
       dc_req_linear = fzero, dc_req_angular = fzero, dc_ref_speed = fzero, dc_req_curv = fzero,
       dc_app_curv = fzero, dc_req_steer = fzero, dc_app_steer = fzero, dc_limit_used = fzero,
       dc_source = src_unknown, dc_saturated = False, dc_fallback = False, dc_limited = False,
       dc_min_enforced = False \<rparr>"

record libm =
  m_atan :: "pyfloat \<Rightarrow> pyfloat"
  m_tan :: "pyfloat \<Rightarrow> pyfloat option"

text \<open>The keyword arguments of \<open>command_from_cmd_vel\<close> that come from the node's parameters.\<close>

record drive_params =
  dp_max_speed :: pyfloat
  dp_max_reverse :: pyfloat
  dp_deadband :: pyfloat
  dp_min_effective :: pyfloat
  dp_wheelbase :: pyfloat
  dp_steering_limit :: pyfloat
  dp_invert_steer :: bool
  dp_auto_drive_enabled :: bool
  dp_op_limit :: "pyfloat option"
  dp_manual_limit :: "pyfloat option"

record ackermann =
  ak_steer_pct :: int
  ak_ref_speed :: pyfloat
  ak_req_curv :: pyfloat
  ak_app_curv :: pyfloat
  ak_req_steer :: pyfloat
  ak_app_steer :: pyfloat
  ak_saturated :: bool
  ak_fallback :: bool

definition ackermann_zero :: ackermann where
  "ackermann_zero =
     \<lparr> ak_steer_pct = 0, ak_ref_speed = fzero, ak_req_curv = fzero, ak_app_curv = fzero,
       ak_req_steer = fzero, ak_app_steer = fzero, ak_saturated = False, ak_fallback = False \<rparr>"

text \<open>\<open>None\<close>: a division by zero, a \<open>tan\<close> that raises, or \<open>round\<close> of an infinity or NaN.\<close>

definition steer_from_ref :: "libm \<Rightarrow> pyfloat \<Rightarrow> pyfloat \<Rightarrow> pyfloat \<Rightarrow> pyfloat \<Rightarrow> pyfloat \<Rightarrow> bool \<Rightarrow>
    ackermann option" where
  "steer_from_ref M wheelbase steering_limit applied_limit ang ref fallback =
     Option.bind (fdiv ang ref) (\<lambda>req_curv.
       (let req_steer = m_atan M (fmul wheelbase req_curv);
            app_steer = clamp req_steer (fneg applied_limit) applied_limit
        in Option.bind (m_tan M app_steer) (\<lambda>t.
           Option.bind (fdiv t wheelbase) (\<lambda>app_curv.
           Option.bind (fdiv app_steer steering_limit) (\<lambda>ratio.
           Option.bind (py_round (fmul ratio (Fin 100))) (\<lambda>pct0.
           Option.bind (float_of_int pct0) (\<lambda>pctf.
           map_option (\<lambda>pct.
             \<lparr> ak_steer_pct = pct, ak_ref_speed = ref, ak_req_curv = req_curv,
               ak_app_curv = app_curv, ak_req_steer = req_steer, ak_app_steer = app_steer,
               ak_saturated = flt eps6 (fabs (fsub req_steer app_steer)),
               ak_fallback = fallback \<rparr>)
             (py_int (clamp pctf (Fin (- 100)) (Fin 100))))))))))"

definition compute_ackermann :: "libm \<Rightarrow> pyfloat \<Rightarrow> pyfloat \<Rightarrow> pyfloat \<Rightarrow> pyfloat \<Rightarrow> drive_params \<Rightarrow> int \<Rightarrow>
    ackermann option" where
  "compute_ackermann M lin ang deadband0 min_effective0 P source =
     (let wheelbase = pymax eps6 (fabs (dp_wheelbase P));
          steering_limit = pymax eps6 (fabs (dp_steering_limit P));
          applied_limit =
            effective_steering_limit_rad steering_limit (dp_op_limit P) (dp_manual_limit P) source;
          deadband = pymax fzero deadband0;
          min_effective = pymax fzero min_effective0
      in if fle (fabs lin) (pymax eps6 deadband)
         then if fle (fabs ang) eps6 then Some ackermann_zero
              else steer_from_ref M wheelbase steering_limit applied_limit ang
                     (pymax min_effective (fl (1 / 10))) True
         else steer_from_ref M wheelbase steering_limit applied_limit ang lin False)"

text \<open>The speed part: the applied speed and whether the request was limited.\<close>

definition applied_speed :: "drive_params \<Rightarrow> pyfloat \<Rightarrow> pyfloat \<times> bool" where
  "applied_speed P lin =
     (let max_speed = pymax fzero (dp_max_speed P);
          max_reverse = pymax fzero (dp_max_reverse P);
          deadband = pymax fzero (dp_deadband P)
      in if flt fzero lin
         then (let requested = clamp lin fzero max_speed
               in (if flt requested deadband then fzero else requested,
                   flt eps6 (fabs (fsub requested lin))))
         else if flt lin fzero
         then (let reverse = clamp (fabs lin) fzero max_reverse
               in (if flt reverse deadband then fzero else fneg reverse,
                   flt eps6 (fabs (fsub reverse (fabs lin)))))
         else (fzero, False))"

definition applied_brake :: "int \<Rightarrow> int option" where
  "applied_brake brake_pct =
     Option.bind (float_of_int brake_pct) (\<lambda>b. py_int (clamp b fzero (Fin 100)))"

definition command_from_cmd_vel ::
    "libm \<Rightarrow> drive_params \<Rightarrow> pyfloat \<Rightarrow> pyfloat \<Rightarrow> int \<Rightarrow> int \<Rightarrow> desired_command option" where
  "command_from_cmd_vel M P lin ang brake_pct source =
     (let deadband = pymax fzero (dp_deadband P);
          min_effective = clamp (dp_min_effective P) fzero (pymax fzero (dp_max_speed P));
          (speed, limited) = applied_speed P lin
      in Option.bind (compute_ackermann M lin ang deadband min_effective P source) (\<lambda>a.
         Option.bind (applied_brake brake_pct) (\<lambda>brake.
           (let steer = (if dp_invert_steer P then - ak_steer_pct a else ak_steer_pct a);
                estop = (0 < brake)
            in Some
              \<lparr> dc_drive_enabled = dp_auto_drive_enabled P,
                dc_estop = estop,
                dc_speed = (if estop then fzero else speed),
                dc_steer = (if estop then 0 else steer),
                dc_brake = brake,
                dc_req_linear = lin,
                dc_req_angular = ang,
                dc_ref_speed = ak_ref_speed a,
                dc_req_curv = ak_req_curv a,
                dc_app_curv = ak_app_curv a,
                dc_req_steer = ak_req_steer a,
                dc_app_steer = ak_app_steer a,
                dc_limit_used = effective_steering_limit_rad (dp_steering_limit P)
                                  (dp_op_limit P) (dp_manual_limit P) source,
                dc_source = source,
                dc_saturated = ak_saturated a,
                dc_fallback = ak_fallback a,
                dc_limited = limited,
                dc_min_enforced = False \<rparr>))))"

datatype arbitration_source = ArbAuto | ArbAutoTimeout

record arbitration_result =
  ar_command :: desired_command
  ar_source :: arbitration_source
  ar_fresh :: bool

definition select_effective_command ::
    "pyfloat \<Rightarrow> desired_command \<Rightarrow> pyfloat \<Rightarrow> pyfloat \<Rightarrow> arbitration_result" where
  "select_effective_command now auto_cmd auto_stamp auto_timeout =
     (if fle (fsub now auto_stamp) (pymax fzero auto_timeout)
      then \<lparr> ar_command = auto_cmd, ar_source = ArbAuto, ar_fresh = True \<rparr>
      else \<lparr> ar_command = safe_command, ar_source = ArbAutoTimeout, ar_fresh = False \<rparr>)"

subsection \<open>Lemmas\<close>

lemma clamp_bounds: "fle low high \<Longrightarrow> fle low (clamp v low high) \<and> fle (clamp v low high) high"
  unfolding clamp_def by (rule pymax_pymin_bounds)

lemma clamp_id: "fle low v \<Longrightarrow> fle v high \<Longrightarrow> clamp v low high = v"
  unfolding clamp_def by (rule pymax_pymin_id)

lemma clamp_NaN: "fle low high \<Longrightarrow> clamp NaN low high = high"
  unfolding clamp_def by (rule pymax_pymin_NaN)

lemma effective_limit_pos: "fle eps6 (effective_steering_limit_rad l p m src)"
  using eps6_le_pymax
  by (auto simp: effective_steering_limit_rad_def Let_def pymin_def split: option.splits)

lemma effective_limit_le:
  "fle (effective_steering_limit_rad l p m src) (pymax eps6 (fabs l))"
proof -
  have n: "pymax eps6 x \<noteq> NaN" for x using eps6_le_pymax fle_not_NaN by blast
  then show ?thesis
    by (auto simp: effective_steering_limit_rad_def Let_def pymin_def flt_imp_fle split: option.splits)
qed

lemma clamp_finite: "isfinite a \<Longrightarrow> isfinite b \<Longrightarrow> fle a b \<Longrightarrow> isfinite (clamp v a b)"
  using clamp_bounds [of a b v] by (auto simp: isfinite_iff dest: fle_between_finite)

lemma steer_from_ref_bounds:
  assumes "steer_from_ref M w sl al ang ref fb = Some a" "fle eps6 al"
  shows "- 100 \<le> ak_steer_pct a \<and> ak_steer_pct a \<le> 100 \<and>
    fle (fneg al) (ak_app_steer a) \<and> fle (ak_app_steer a) al"
proof -
  obtain c pctf pct where p: "py_int (clamp pctf (Fin (- 100)) (Fin 100)) = Some pct"
    and a: "ak_steer_pct a = pct" "ak_app_steer a = clamp c (fneg al) al"
    using assms(1) by (auto simp: steer_from_ref_def Let_def bind_eq_Some_conv)
  obtain q where "clamp pctf (Fin (- 100)) (Fin 100) = Fin q" "- 100 \<le> q" "q \<le> 100"
    using clamp_bounds [of "Fin (- 100)" "Fin 100" pctf] fle_between_finite by force
  then have "- 100 \<le> pct \<and> pct \<le> 100"
    using p by (auto simp: ceiling_le_iff le_floor_iff le_ceiling_iff floor_le_iff split: if_splits)
  then show ?thesis using a clamp_bounds [of "fneg al" al c] eps6_le_nonneg [OF assms(2)] by simp
qed

lemma compute_ackermann_bounds:
  assumes "compute_ackermann M lin ang db me P src = Some a"
  shows "- 100 \<le> ak_steer_pct a \<and> ak_steer_pct a \<le> 100 \<and>
    fle (fneg (effective_steering_limit_rad (pymax eps6 (fabs (dp_steering_limit P))) (dp_op_limit P) (dp_manual_limit P) src)) (ak_app_steer a) \<and>
    fle (ak_app_steer a) (effective_steering_limit_rad (pymax eps6 (fabs (dp_steering_limit P))) (dp_op_limit P) (dp_manual_limit P) src)"
    (is "_ \<and> _ \<and> fle (fneg ?L) _ \<and> _")
proof -
  have L: "fle eps6 ?L" by (rule effective_limit_pos)
  then have "fle (fneg ?L) fzero \<and> fle fzero ?L"
    using eps6_le_nonneg [OF L] by (cases ?L) (auto simp: fle_def)
  then show ?thesis using assms steer_from_ref_bounds [OF _ L]
    by (auto simp: compute_ackermann_def Let_def ackermann_zero_def split: if_splits)
qed

lemma pymax_eps6_idem: "pymax eps6 (fabs (pymax eps6 (fabs x))) = pymax eps6 (fabs x)"
  by (cases x) (auto simp: pymax_def eps6_eq)

lemma effective_limit_norm:
  "effective_steering_limit_rad (pymax eps6 (fabs l)) p m src = effective_steering_limit_rad l p m src"
  by (simp add: effective_steering_limit_rad_def Let_def pymax_eps6_idem)

lemma applied_speed_bounds:
  "fle (fneg (pymax fzero (dp_max_reverse P))) (fst (applied_speed P lin)) \<and>
   fle (fst (applied_speed P lin)) (pymax fzero (dp_max_speed P))"
proof -
  have z: "fle (fneg (pymax fzero x)) fzero" for x using pymax_nonneg [of x] fle_fneg [of fzero "pymax fzero x"] by (metis fneg.simps(1) minus_zero fle_fneg fneg_fneg)
  have tr: "fle (fneg (pymax fzero x)) y" if "fle fzero y" for x y using z that fle_trans by blast
  have "fle fzero (clamp v fzero (pymax fzero x)) \<and> fle (clamp v fzero (pymax fzero x)) (pymax fzero x)" for v x
    by (rule clamp_bounds [OF pymax_nonneg])
  moreover have "fle (fneg r) y" if "fle fzero r" "fle fzero y" for r y
    using fle_fneg [of fzero r] that by (metis fle_trans fneg.simps(1) fneg_fneg minus_zero fle_fneg)
  ultimately show ?thesis
    using z tr pymax_nonneg by (auto simp: applied_speed_def Let_def fle_fneg)
qed

lemma applied_speed_never_raises:
  "let v = fst (applied_speed P lin) in
     (flt fzero v \<longrightarrow> flt fzero lin \<and> fle v lin) \<and> (flt v fzero \<longrightarrow> flt lin fzero \<and> fle lin v)"
proof (cases lin)
  case (Fin q)
  show ?thesis
    by (cases "dp_max_speed P"; cases "dp_max_reverse P")
       (auto simp: Fin applied_speed_def Let_def clamp_def pymax_def pymin_def fle_def)
next
  case NaN
  then show ?thesis by (simp add: applied_speed_def Let_def)
next
  case PInf
  show ?thesis
    by (cases "dp_max_speed P"; cases "dp_max_reverse P")
       (auto simp: PInf applied_speed_def Let_def clamp_def pymax_def pymin_def fle_def)
next
  case NInf
  show ?thesis
    by (cases "dp_max_speed P"; cases "dp_max_reverse P")
       (auto simp: NInf applied_speed_def Let_def clamp_def pymax_def pymin_def fle_def)
qed

lemma applied_brake_range: "applied_brake b = Some n \<Longrightarrow> 0 \<le> n \<and> n \<le> 100"
proof -
  assume "applied_brake b = Some n"
  then obtain x where x: "py_int (clamp x fzero (Fin 100)) = Some n"
    by (auto simp: applied_brake_def bind_eq_Some_conv)
  obtain q where "clamp x fzero (Fin 100) = Fin q" "0 \<le> q" "q \<le> 100"
    using clamp_bounds [of fzero "Fin 100" x] fle_between_finite by force
  then show ?thesis using x by (auto simp: floor_le_iff)
qed

lemma applied_brake_small: "\<bar>b\<bar> \<le> 2 ^ 53 \<Longrightarrow> applied_brake b = Some (max 0 (min 100 b))"
  by (auto simp: applied_brake_def float_of_int_small clamp_def pymax_def pymin_def)

lemma steer_from_ref_total:
  assumes L: "sl = Fin L" "0 < L" and A: "al = Fin A" "0 < A" "A \<le> L"
    and w: "fle eps6 w" and r: "flt eps6 (fabs ref) \<or> ref = NaN"
    and t: "\<And>q. m_tan M (Fin q) \<noteq> None"
  shows "\<exists>a. steer_from_ref M w sl al ang ref fb = Some a"
proof -
  have "\<exists>c. fdiv ang ref = Some c" using r by (cases ref) (auto simp: eps6_eq)
  then obtain c where c: "fdiv ang ref = Some c" ..
  define s where "s = clamp (m_atan M (fmul w c)) (fneg al) al"
  obtain q where q: "s = Fin q" "- A \<le> q" "q \<le> A"
    using clamp_bounds [of "fneg al" al] A fle_between_finite by (force simp: s_def)
  obtain x where x: "m_tan M s = Some x" using t [of q] q by auto
  obtain y where y: "fdiv x w = Some y"
    using w by (cases w) (auto simp: eps6_eq fle_def)
  have "- 1 \<le> q / L" "q / L \<le> 1" using q A L by (simp_all add: le_divide_eq divide_le_eq)
  then obtain u where u: "fl (q / L) = Fin u" "- 1 \<le> u" "u \<le> 1" using fl_between [of 1 "q / L"] by auto
  obtain v where v: "fl (u * 100) = Fin v" "- 100 \<le> v" "v \<le> 100" using fl_between [of 100 "u * 100"] u by auto
  have "\<bar>rne v\<bar> \<le> 100" using rne_mono [OF v(2)] rne_mono [OF v(3)] rne_of_int [of 100] rne_of_int [of "- 100"] by simp
  then have f: "float_of_int (rne v) = Some (Fin (of_int (rne v)))" by (intro float_of_int_small) simp
  obtain k where k: "clamp (Fin (of_int (rne v))) (Fin (- 100)) (Fin 100) = Fin k"
    using clamp_finite [of "Fin (- 100)" "Fin 100"] by (auto simp: isfinite_iff)
  show ?thesis using c x y u v f k q L
    by (simp add: steer_from_ref_def Let_def flip: s_def)
qed

lemma cmd_within_limits:
  assumes "command_from_cmd_vel M P lin ang brake src = Some d"
  shows "fle (fneg (pymax fzero (dp_max_reverse P))) (dc_speed d) \<and>
    fle (dc_speed d) (pymax fzero (dp_max_speed P)) \<and>
    - 100 \<le> dc_steer d \<and> dc_steer d \<le> 100 \<and> 0 \<le> dc_brake d \<and> dc_brake d \<le> 100 \<and>
    fle (fneg (dc_limit_used d)) (dc_app_steer d) \<and> fle (dc_app_steer d) (dc_limit_used d) \<and>
    dc_estop d = (0 < dc_brake d) \<and> (dc_estop d \<longrightarrow> dc_speed d = fzero \<and> dc_steer d = 0)"
proof -
  obtain a b where a: "compute_ackermann M lin ang (pymax fzero (dp_deadband P))
      (clamp (dp_min_effective P) fzero (pymax fzero (dp_max_speed P))) P src = Some a"
    and b: "applied_brake brake = Some b"
    using assms by (auto simp: command_from_cmd_vel_def bind_eq_Some_conv split: prod.splits)
  have z: "fle (fneg (pymax fzero x)) fzero" for x
    by (metis fle_fneg fneg.simps(1) minus_zero pymax_nonneg)
  show ?thesis
    using assms a b compute_ackermann_bounds [OF a] applied_speed_bounds [of P lin] applied_brake_range [OF b] z pymax_nonneg
    by (auto simp: command_from_cmd_vel_def effective_limit_norm Let_def split: prod.splits)
qed

lemma command_exists:
  assumes "isfinite (dp_steering_limit P)" "\<bar>brake\<bar> \<le> 2 ^ 53"
    and "\<And>q. m_tan M (Fin q) \<noteq> None"
  shows "\<exists>d. command_from_cmd_vel M P lin ang brake src = Some d"
proof -
  let ?sl = "pymax eps6 (fabs (dp_steering_limit P))"
  let ?al = "effective_steering_limit_rad ?sl (dp_op_limit P) (dp_manual_limit P) src"
  obtain L where L: "?sl = Fin L" "0 < L"
  proof -
    have "isfinite ?sl" using assms(1) by (cases "dp_steering_limit P") (auto simp: pymax_def eps6_eq)
    moreover have "flt fzero ?sl" using eps6_le_nonneg [OF eps6_le_pymax] by blast
    ultimately show ?thesis using that by (auto simp: isfinite_iff)
  qed
  have "fle ?al (Fin L)"
    using effective_limit_le [of ?sl "dp_op_limit P" "dp_manual_limit P" src]
      pymax_eps6_idem [of "dp_steering_limit P"] L by simp
  moreover have "flt fzero ?al" using effective_limit_pos eps6_le_nonneg by blast
  ultimately obtain A where A: "?al = Fin A" "0 < A" "A \<le> L"
    by (cases ?al) (auto simp: fle_def)
  have "\<exists>a. steer_from_ref M w ?sl ?al ang ref fb = Some a"
    if w: "fle eps6 w" and r: "flt eps6 (fabs ref) \<or> ref = NaN" for w ref fb
    using steer_from_ref_total [OF L A w r assms(3)] .
  moreover have "fle eps6 (pymax eps6 w)" for w by (rule eps6_le_pymax)
  moreover have "flt eps6 (fabs (pymax m (fl (1 / 10))))" if "fle fzero m" for m
    using that by (cases m) (auto simp: pymax_def tenth_eq eps6_eq)
  moreover have "flt eps6 (fabs lin) \<or> lin = NaN" if "\<not> fle (fabs lin) (pymax eps6 d)" for d
    using that eps6_le_pymax [of d] by (cases lin; cases "pymax eps6 d") (auto simp: eps6_eq fle_def)
  ultimately have "\<exists>a. compute_ackermann M lin ang d m P src = Some a" for d m
    using pymax_nonneg by (auto simp: compute_ackermann_def Let_def)
  then obtain a where "compute_ackermann M lin ang (pymax fzero (dp_deadband P))
      (clamp (dp_min_effective P) fzero (pymax fzero (dp_max_speed P))) P src = Some a" by blast
  moreover obtain b where "applied_brake brake = Some b" using applied_brake_small [OF assms(2)] by simp
  ultimately show ?thesis by (simp add: command_from_cmd_vel_def Let_def split: prod.splits)
qed

subsection \<open>Properties\<close>

text \<open>
  C29. Whatever the request, a converted command respects the limits of the vehicle: the speed lies
  between the configured reverse and forward limits, the steering percentage between -100 and 100
  and the steering angle within the limit of the command's source; any brake stops the vehicle.
\<close>

theorem command_within_limits:
  assumes "command_from_cmd_vel M P lin ang brake src = Some d"
  shows "fle (fneg (pymax fzero (dp_max_reverse P))) (dc_speed d) \<and>
    fle (dc_speed d) (pymax fzero (dp_max_speed P)) \<and>
    - 100 \<le> dc_steer d \<and> dc_steer d \<le> 100 \<and> 0 \<le> dc_brake d \<and> dc_brake d \<le> 100 \<and>
    fle (fneg (dc_limit_used d)) (dc_app_steer d) \<and> fle (dc_app_steer d) (dc_limit_used d) \<and>
    dc_estop d = (0 < dc_brake d) \<and> (dc_estop d \<longrightarrow> dc_speed d = fzero \<and> dc_steer d = 0)"
  using cmd_within_limits [OF assms] .

text \<open>
  The conversion never raises a command: the vehicle moves only in the requested direction, and
  never faster than requested, so a small positive request is not lifted to a downstream minimum.
\<close>

lemma command_never_raises_speed:
  assumes "command_from_cmd_vel M P lin ang brake src = Some d"
  shows "(flt fzero (dc_speed d) \<longrightarrow> flt fzero lin \<and> fle (dc_speed d) lin) \<and>
    (flt (dc_speed d) fzero \<longrightarrow> flt lin fzero \<and> fle lin (dc_speed d))"
proof -
  have "dc_speed d = fzero \<or> dc_speed d = fst (applied_speed P lin)"
    using assms by (cases "applied_speed P lin")
      (auto simp: command_from_cmd_vel_def bind_eq_Some_conv Let_def)
  then show ?thesis using applied_speed_never_raises [of P lin] by (auto simp: Let_def)
qed

text \<open>
  Totality: with finite geometry (and a tangent that is defined on the steering range) the
  conversion returns a command for every pair of floats, infinities and NaN included.
\<close>

lemma command_total:
  assumes "isfinite (dp_steering_limit P)" "\<bar>brake\<bar> \<le> 2 ^ 53"
    and "\<And>q. m_tan M (Fin q) \<noteq> None"
  shows "\<exists>d. command_from_cmd_vel M P lin ang brake src = Some d"
  using command_exists [OF assms] .

text \<open>
  A NaN yaw rate is not rejected but becomes full lock: the clamp turns the NaN angle into the
  upper steering limit, and the saturation flag stays down.
\<close>

lemma command_nan_yaw_full_lock:
  assumes "command_from_cmd_vel M P lin NaN brake src = Some d" "m_atan M NaN = NaN"
  shows "dc_app_steer d = dc_limit_used d \<and> \<not> dc_saturated d"
proof -
  have "ak_app_steer a = al \<and> \<not> ak_saturated a"
    if st: "steer_from_ref M w sl al NaN ref fb = Some a" and al: "fle eps6 al" for w sl al ref fb a
  proof -
    have "fle (fneg al) al" using eps6_le_nonneg al by blast
    moreover obtain c where "fdiv NaN ref = Some c"
      using st by (cases "fdiv NaN ref") (auto simp: steer_from_ref_def)
    then have "c = NaN" by (cases ref) (auto split: if_splits)
    ultimately show ?thesis using st assms(2)
      by (cases w) (auto simp: steer_from_ref_def bind_eq_Some_conv clamp_NaN Let_def fsub_def \<open>fdiv NaN ref = Some c\<close>)
  qed
  then show ?thesis using assms(1) effective_limit_pos
    by (auto simp: command_from_cmd_vel_def compute_ackermann_def bind_eq_Some_conv Let_def effective_limit_norm
        split: if_splits prod.splits)
qed

text \<open>
  Arbitration fails safe: the automatic command passes exactly when its age is at most the
  (non-negative) timeout, and otherwise, so also for an age or timeout that is NaN, the result is
  the stopped command with the drive disabled.
\<close>

lemma stale_command_is_safe:
  "let r = select_effective_command now auto_cmd stamp timeout in
     ar_fresh r = fle (fsub now stamp) (pymax fzero timeout) \<and>
     ar_command r = (if ar_fresh r then auto_cmd else safe_command) \<and>
     dc_speed safe_command = fzero \<and> \<not> dc_drive_enabled safe_command \<and>
     \<not> ar_fresh (select_effective_command NaN auto_cmd stamp timeout)"
  by (cases stamp; cases "pymax fzero timeout")
     (auto simp: select_effective_command_def safe_command_def Let_def fsub_def)

subsection \<open>Witnesses\<close>

definition sample_params :: drive_params where
  "sample_params =
     \<lparr> dp_max_speed = Fin 4, dp_max_reverse = Fin 1, dp_deadband = fzero, dp_min_effective = Fin (1 / 2),
       dp_wheelbase = Fin 1, dp_steering_limit = Fin (1 / 2), dp_invert_steer = False,
       dp_auto_drive_enabled = True, dp_op_limit = None, dp_manual_limit = None \<rparr>"

text \<open>A library whose arc tangent is NaN on NaN and zero elsewhere.\<close>

definition sample_libm :: libm where
  "sample_libm = \<lparr> m_atan = (\<lambda>x. if x = NaN then NaN else fzero), m_tan = (\<lambda>x. Some fzero) \<rparr>"

lemma command_total_witness:
  "\<exists>d. command_from_cmd_vel sample_libm sample_params PInf NaN 0 src_auto = Some d"
  using command_total [of sample_params 0 sample_libm] by (simp add: sample_params_def sample_libm_def)

lemma sample_command:
  "command_from_cmd_vel sample_libm sample_params (Fin 8) ang 0 src_auto = Some d \<Longrightarrow> dc_speed d = Fin 4"
  by (auto simp: command_from_cmd_vel_def applied_speed_def sample_params_def clamp_def pymax_def pymin_def
      applied_brake_small Let_def bind_eq_Some_conv fsub_def)

lemma sample_command_some:
  "\<exists>d. command_from_cmd_vel sample_libm sample_params (Fin 8) NaN 0 src_auto = Some d"
  using rne_of_int [of 100]
  by (simp add: command_from_cmd_vel_def compute_ackermann_def steer_from_ref_def applied_brake_small
      sample_params_def sample_libm_def clamp_def pymax_def pymin_def eps6_eq effective_steering_limit_rad_def
      Let_def float_of_int_small fle_def split: prod.splits)

lemma command_within_limits_witness:
  "\<exists>d. command_from_cmd_vel sample_libm sample_params (Fin 8) NaN 0 src_auto = Some d \<and>
       fle (dc_speed d) (Fin 4) \<and> dc_steer d \<le> 100"
proof -
  obtain d where d: "command_from_cmd_vel sample_libm sample_params (Fin 8) NaN 0 src_auto = Some d"
    using sample_command_some by blast
  show ?thesis using d command_within_limits [OF d] by (auto simp: sample_params_def pymax_def)
qed

lemma command_never_raises_speed_witness:
  "\<exists>d. command_from_cmd_vel sample_libm sample_params (Fin 8) NaN 0 src_auto = Some d \<and>
       fle (dc_speed d) (Fin 8)"
proof -
  obtain d where d: "command_from_cmd_vel sample_libm sample_params (Fin 8) NaN 0 src_auto = Some d"
    using sample_command_some by blast
  show ?thesis using d command_never_raises_speed [OF d] sample_command [OF d] by auto
qed

lemma command_nan_yaw_full_lock_witness:
  "\<exists>d. command_from_cmd_vel sample_libm sample_params (Fin 8) NaN 0 src_auto = Some d \<and>
       dc_app_steer d = dc_limit_used d \<and> \<not> dc_saturated d"
proof -
  obtain d where d: "command_from_cmd_vel sample_libm sample_params (Fin 8) NaN 0 src_auto = Some d"
    using sample_command_some by blast
  show ?thesis using d command_nan_yaw_full_lock [OF d] by (simp add: sample_libm_def)
qed

end
