(* ===== verification/Canonical_Command.thy ===== *)
theory Canonical_Command
  imports Control_Logic
begin

section \<open>The canonical vehicle command\<close>

text \<open>
  \<open>salus_control/canonical_command_consumer.py\<close>: validation of canonical commands against the
  vehicle's limits and the ROS clock, the watchdog on the monotonic clock, and the translation to
  a \<open>DesiredCommand\<close>.
\<close>

definition valid_sources :: "int list" where
  "valid_sources = [src_unknown, src_auto, src_manual, src_safety]"

record canonical_config =
  kc_max_forward :: pyfloat
  kc_max_reverse :: pyfloat
  kc_max_steering :: pyfloat
  kc_max_valid :: pyfloat
  kc_max_skew :: pyfloat

datatype config_error = LimitsNotFinite | LimitsNotPositive

definition check_canonical_config :: "canonical_config \<Rightarrow> config_error + canonical_config" where
  "check_canonical_config c =
     bind_res (raise_if (\<not> list_all (\<lambda>v. isfinite v \<and> fle fzero v)
                  [kc_max_forward c, kc_max_reverse c, kc_max_steering c, kc_max_valid c, kc_max_skew c])
                LimitsNotFinite) (\<lambda>_.
     bind_res (raise_if (feq (kc_max_steering c) fzero \<or> feq (kc_max_valid c) fzero) LimitsNotPositive)
       (\<lambda>_. Inr c))"

record canonical_sample =
  ks_stamp :: int
  ks_source :: int
  ks_drive :: bool
  ks_estop :: bool
  ks_brake :: pyfloat
  ks_speed :: pyfloat
  ks_steer :: pyfloat
  ks_steer_velocity :: pyfloat
  ks_acceleration :: pyfloat
  ks_jerk :: pyfloat
  ks_valid_for :: pyfloat

datatype reason =
    NoCommand | WatchdogTimeout
  | NonfiniteCommand | InvalidSource | InvalidStamp | NonmonotonicStamp | FutureStamp
  | InvalidValidity | StaleOnArrival | InvalidBrakeRatio | SpeedOutOfRange | SteeringOutOfRange
  | EmergencyStop | DriveDisabled | ServiceBrake | Accepted

record effective =
  ke_source :: int
  ke_drive :: bool
  ke_estop :: bool
  ke_brake :: pyfloat
  ke_speed :: pyfloat
  ke_steer :: pyfloat
  ke_valid :: bool
  ke_reason :: reason

definition safe_effective :: "reason \<Rightarrow> effective" where
  "safe_effective r =
     \<lparr> ke_source = src_safety, ke_drive = False, ke_estop = True, ke_brake = Fin 1,
       ke_speed = fzero, ke_steer = fzero, ke_valid = False, ke_reason = r \<rparr>"

text \<open>\<open>None\<close>: the \<open>ValueError\<close> of an unusable limit, or \<open>round\<close> of an infinity or NaN.\<close>

definition desired_from_canonical :: "effective \<Rightarrow> pyfloat \<Rightarrow> desired_command option" where
  "desired_from_canonical e steering_limit =
     (let limit = fabs steering_limit
      in if \<not> isfinite limit \<or> fle limit fzero then None
         else
           Option.bind (fdiv (ke_steer e) limit) (\<lambda>ratio.
           Option.bind (py_round (fmul ratio (Fin 100))) (\<lambda>steer.
           Option.bind (py_round (fmul (ke_brake e) (Fin 100))) (\<lambda>brake.
             Some (safe_command
               \<lparr> dc_drive_enabled := ke_drive e, dc_estop := ke_estop e, dc_speed := ke_speed e,
                 dc_steer := max (- 100) (min 100 steer), dc_brake := max 0 (min 100 brake),
                 dc_req_linear := ke_speed e, dc_req_steer := ke_steer e,
                 dc_app_steer := ke_steer e, dc_limit_used := limit, dc_source := ke_source e \<rparr>)))))"

record consumer =
  co_config :: canonical_config
  co_last_stamp :: "int option"
  co_received :: "pyfloat option"
  co_effective :: effective
  co_validity :: pyfloat

definition new_consumer :: "canonical_config \<Rightarrow> consumer" where
  "new_consumer c =
     \<lparr> co_config = c, co_last_stamp = None, co_received = None,
       co_effective = safe_effective NoCommand, co_validity = fzero \<rparr>"

definition ns_of :: "pyfloat \<Rightarrow> int option" where
  "ns_of s = py_round (fmul s (Fin 1000000000))"

text \<open>\<open>_invalid_reason\<close>: \<open>Some None\<close> is the empty string; \<open>None\<close> when \<open>round\<close> raises.\<close>

definition invalid_reason :: "consumer \<Rightarrow> canonical_sample \<Rightarrow> int \<Rightarrow> reason option option" where
  "invalid_reason c s ros_now =
     (let K = co_config c in
      if \<not> list_all isfinite [ks_brake s, ks_speed s, ks_steer s, ks_steer_velocity s,
              ks_acceleration s, ks_jerk s, ks_valid_for s] then Some (Some NonfiniteCommand)
      else if ks_source s \<notin> set valid_sources then Some (Some InvalidSource)
      else if ks_stamp s \<le> 0 then Some (Some InvalidStamp)
      else if (case co_last_stamp c of None \<Rightarrow> False | Some l \<Rightarrow> ks_stamp s \<le> l)
           then Some (Some NonmonotonicStamp)
      else Option.bind (ns_of (kc_max_skew K)) (\<lambda>skew.
        if skew < ks_stamp s - ros_now then Some (Some FutureStamp)
        else if fle (ks_valid_for s) fzero then Some (Some InvalidValidity)
        else Option.bind (ns_of (pymin (ks_valid_for s) (kc_max_valid K))) (\<lambda>validity.
          if validity < ros_now - ks_stamp s then Some (Some StaleOnArrival)
          else if \<not> (fle fzero (ks_brake s) \<and> fle (ks_brake s) (Fin 1)) then Some (Some InvalidBrakeRatio)
          else if \<not> (fle (fneg (kc_max_reverse K)) (ks_speed s) \<and> fle (ks_speed s) (kc_max_forward K))
               then Some (Some SpeedOutOfRange)
          else if flt (kc_max_steering K) (fabs (ks_steer s)) then Some (Some SteeringOutOfRange)
          else Some None)))"

definition effective_of :: "canonical_sample \<Rightarrow> effective" where
  "effective_of s =
     (let inhibited = ks_estop s \<or> \<not> ks_drive s
      in \<lparr> ke_source = ks_source s,
           ke_drive = ks_drive s \<and> \<not> ks_estop s,
           ke_estop = ks_estop s,
           ke_brake = (if ks_estop s then Fin 1 else ks_brake s),
           ke_speed = (if inhibited \<or> flt fzero (ks_brake s) then fzero else ks_speed s),
           ke_steer = (if inhibited then fzero else ks_steer s),
           ke_valid = True,
           ke_reason = (if ks_estop s then EmergencyStop else if \<not> ks_drive s then DriveDisabled
                        else if flt fzero (ks_brake s) then ServiceBrake else Accepted) \<rparr>)"

text \<open>\<open>ingest\<close>; an exception leaves the consumer as it was (\<open>None\<close>).\<close>

definition ingest :: "consumer \<Rightarrow> canonical_sample \<Rightarrow> int \<Rightarrow> pyfloat \<Rightarrow> consumer option" where
  "ingest c s ros_now mono_now =
     map_option (\<lambda>r. case r of
         Some reason \<Rightarrow> c \<lparr> co_received := None, co_effective := safe_effective reason \<rparr>
       | None \<Rightarrow> c \<lparr> co_last_stamp := Some (ks_stamp s), co_received := Some mono_now,
                   co_validity := pymin (ks_valid_for s) (kc_max_valid (co_config c)),
                   co_effective := effective_of s \<rparr>)
       (invalid_reason c s ros_now)"

definition tick :: "consumer \<Rightarrow> pyfloat \<Rightarrow> consumer" where
  "tick c now =
     (case co_received c of
        None \<Rightarrow> c
      | Some t \<Rightarrow>
          if flt (co_validity c) (fsub now t)
          then c \<lparr> co_received := None, co_effective := safe_effective WatchdogTimeout \<rparr>
          else c)"

subsection \<open>The consumer as a machine\<close>

datatype consumer_event = Ingest canonical_sample int pyfloat | Tick pyfloat

fun consumer_step :: "consumer \<Rightarrow> consumer_event \<Rightarrow> consumer" where
  "consumer_step c (Ingest s ros_now mono_now) =
     (case ingest c s ros_now mono_now of None \<Rightarrow> c | Some c' \<Rightarrow> c')"
| "consumer_step c (Tick now) = tick c now"

fun consumer_accepts :: "consumer \<Rightarrow> consumer_event \<Rightarrow> bool" where
  "consumer_accepts c (Ingest s ros_now mono_now) = (invalid_reason c s ros_now = Some None)"
| "consumer_accepts c (Tick now) = False"

fun event_stamp :: "consumer_event \<Rightarrow> int" where
  "event_stamp (Ingest s ros_now mono_now) = ks_stamp s"
| "event_stamp (Tick now) = 0"

lemma invalid_reason_NoneD:
  "invalid_reason c s n = Some None \<Longrightarrow>
     list_all isfinite [ks_brake s, ks_speed s, ks_steer s, ks_valid_for s] \<and>
     ks_source s \<in> set valid_sources \<and> 0 < ks_stamp s \<and>
     (case co_last_stamp c of None \<Rightarrow> True | Some l \<Rightarrow> l < ks_stamp s) \<and>
     fle fzero (ks_brake s) \<and> fle (ks_brake s) (Fin 1) \<and>
     fle (fneg (kc_max_reverse (co_config c))) (ks_speed s) \<and>
     fle (ks_speed s) (kc_max_forward (co_config c)) \<and>
     \<not> flt (kc_max_steering (co_config c)) (fabs (ks_steer s)) \<and> \<not> fle (ks_valid_for s) fzero"
  by (auto simp: invalid_reason_def Let_def bind_eq_Some_conv split: if_splits option.splits)

interpretation consumer: stamp_gate consumer_step consumer_accepts event_stamp co_last_stamp
proof
  fix c e k
  assume "consumer_accepts c e" "co_last_stamp c = Some k"
  then show "k < event_stamp e" by (cases e) (auto dest: invalid_reason_NoneD)
next
  fix c e
  assume "consumer_accepts c e"
  then show "co_last_stamp (consumer_step c e) = Some (event_stamp e)" by (cases e) (auto simp: ingest_def)
next
  fix c e
  assume "\<not> consumer_accepts c e"
  then show "co_last_stamp (consumer_step c e) = co_last_stamp c"
    by (cases e) (auto simp: ingest_def tick_def split: option.splits)
qed

text \<open>What an effective command may be: the safe one, or one within the limits.\<close>

definition effective_ok :: "canonical_config \<Rightarrow> effective \<Rightarrow> bool" where
  "effective_ok K e \<longleftrightarrow>
     (if ke_valid e then
        ke_source e \<in> set valid_sources \<and>
        fle fzero (ke_brake e) \<and> fle (ke_brake e) (Fin 1) \<and>
        fle (fneg (kc_max_reverse K)) (ke_speed e) \<and> fle (ke_speed e) (kc_max_forward K) \<and>
        fle (fabs (ke_steer e)) (kc_max_steering K) \<and>
        (ke_estop e \<longrightarrow> \<not> ke_drive e \<and> ke_brake e = Fin 1) \<and>
        (\<not> ke_drive e \<longrightarrow> ke_speed e = fzero \<and> ke_steer e = fzero) \<and>
        (flt fzero (ke_brake e) \<longrightarrow> ke_speed e = fzero)
      else e = safe_effective (ke_reason e))"

definition consumer_inv :: "canonical_config \<Rightarrow> consumer \<Rightarrow> bool" where
  "consumer_inv K c \<longleftrightarrow> co_config c = K \<and> effective_ok K (co_effective c) \<and>
     (ke_valid (co_effective c) \<longrightarrow> co_received c \<noteq> None \<and> fle (co_validity c) (kc_max_valid K))"

lemma safe_effective_ok [simp]: "effective_ok K (safe_effective r)"
  by (simp add: effective_ok_def safe_effective_def)

lemma safe_effective_valid [simp]: "\<not> ke_valid (safe_effective r)"
  by (simp add: safe_effective_def)

lemma config_ok:
  "check_canonical_config c = Inr K \<Longrightarrow> K = c \<and> fle fzero (kc_max_forward K) \<and>
     fle (fneg (kc_max_reverse K)) fzero \<and> fle fzero (kc_max_steering K) \<and> kc_max_steering K \<noteq> NaN \<and>
     fle fzero (kc_max_valid K) \<and> isfinite (kc_max_valid K)"
  by (cases "kc_max_reverse c")
     (auto simp: check_canonical_config_def bind_res_eq_Inr)

lemma effective_of_ok:
  assumes K: "check_canonical_config K0 = Inr K" and i: "invalid_reason c s n = Some None" "co_config c = K"
  shows "effective_ok K (effective_of s)"
proof -
  note D = invalid_reason_NoneD [OF i(1)]
  have k: "fle fzero (kc_max_forward K)" "fle (fneg (kc_max_reverse K)) fzero" "fle fzero (kc_max_steering K)"
    using config_ok [OF K] by auto
  have "fabs (ks_steer s) \<noteq> NaN" using D by (cases "ks_steer s") auto
  moreover have "kc_max_steering K \<noteq> NaN" "\<not> flt (kc_max_steering K) (fabs (ks_steer s))"
    using config_ok [OF K] D unfolding i(2) by blast+
  ultimately have a: "fle (fabs (ks_steer s)) (kc_max_steering K)" by (simp add: not_flt)
  have d: "ks_source s \<in> set valid_sources" "fle fzero (ks_brake s)" "fle (ks_brake s) (Fin 1)"
     "fle (fneg (kc_max_reverse K)) (ks_speed s)" "fle (ks_speed s) (kc_max_forward K)"
    using D unfolding i(2) by blast+
  show ?thesis using a d k unfolding effective_ok_def effective_of_def Let_def
    by (cases "ks_estop s"; cases "ks_drive s"; cases "flt fzero (ks_brake s)") simp_all
qed

lemma pymin_le: "b \<noteq> NaN \<Longrightarrow> a \<noteq> NaN \<Longrightarrow> fle (pymin a b) b"
  by (auto simp: pymin_def not_flt)

lemma consumer_step_inv:
  assumes K: "check_canonical_config K0 = Inr K" and c: "consumer_inv K c"
  shows "consumer_inv K (consumer_step c e)"
proof (cases e)
  case (Ingest s ros_now mono_now)
  have cfg: "co_config c = K" using c by (simp add: consumer_inv_def)
  show ?thesis
  proof (cases "invalid_reason c s ros_now")
    case None
    then show ?thesis using c by (simp add: Ingest ingest_def)
  next
    case (Some r)
    show ?thesis
    proof (cases r)
      case None
      then have "fle (pymin (ks_valid_for s) (kc_max_valid K)) (kc_max_valid K)"
        using pymin_le [of "kc_max_valid K" "ks_valid_for s"] invalid_reason_NoneD [of c s ros_now]
          config_ok [OF K] Some None fle_not_NaN
        by (cases "ks_valid_for s") auto
      moreover have "effective_ok K (effective_of s)"
        using effective_of_ok [OF K _ cfg] Some None by simp
      ultimately show ?thesis using Some None cfg by (simp add: Ingest ingest_def consumer_inv_def)
    next
      case (Some r')
      then show ?thesis using \<open>invalid_reason c s ros_now = Some r\<close> cfg
        by (simp add: Ingest ingest_def consumer_inv_def)
    qed
  qed
next
  case (Tick now)
  then show ?thesis using c
    by (cases "co_received c") (auto simp: tick_def consumer_inv_def)
qed

lemma history_consumer_inv:
  "check_canonical_config K0 = Inr K \<Longrightarrow> consumer_inv K c \<Longrightarrow> consumer_inv K (foldl consumer_step c es)"
  by (induction es arbitrary: c) (auto simp: consumer_step_inv)

lemma new_consumer_inv: "consumer_inv K (new_consumer K)"
  by (simp add: consumer_inv_def new_consumer_def)

subsection \<open>Properties\<close>

text \<open>
  C30. The canonical consumer fails safe: with a configuration that passed its checks, after any
  sequence of commands (of any content) and watchdog ticks followed by a tick, the effective command
  is either the safe one (emergency stop, full brake, speed and steering zero, drive disabled) or
  one accepted at most its validity, and at most the configured maximum, before the tick, whose
  speed, steering, brake and source respect the configured limits, that does not move while it
  stops, brakes or has the drive disabled.
\<close>

theorem canonical_effective_safe:
  assumes "check_canonical_config K0 = Inr K" and "c = tick (foldl consumer_step (new_consumer K) events) now"
  shows "effective_ok K (co_effective c) \<and>
    (ke_valid (co_effective c) \<longrightarrow>
      (\<exists>t. co_received c = Some t \<and> \<not> flt (co_validity c) (fsub now t) \<and> fle (co_validity c) (kc_max_valid K)))"
proof -
  let ?b = "foldl consumer_step (new_consumer K) events"
  have b: "consumer_inv K ?b" using assms(1) by (intro history_consumer_inv new_consumer_inv)
  have "consumer_inv K c" using consumer_step_inv [OF assms(1) b, of "Tick now"] assms(2) by simp
  then show ?thesis using assms(2) b
    by (auto simp: consumer_inv_def tick_def split: option.splits if_splits)
qed

text \<open>
  Replay protection: over any sequence of commands and ticks, the stamps of the accepted
  canonical commands increase strictly.
\<close>

lemma canonical_stamps_increase:
  "sorted_wrt (<) (accepted_stamps consumer_step consumer_accepts event_stamp (new_consumer K) events)"
  by (rule consumer.accepted_sorted)

definition sample_config :: canonical_config where
  "sample_config = \<lparr> kc_max_forward = Fin 4, kc_max_reverse = Fin 1, kc_max_steering = Fin (1 / 2),
     kc_max_valid = Fin (1 / 2), kc_max_skew = fzero \<rparr>"

definition sample_consumer_command :: "pyfloat \<Rightarrow> canonical_sample" where
  "sample_consumer_command v = \<lparr> ks_stamp = 5, ks_source = src_auto, ks_drive = True, ks_estop = False,
     ks_brake = fzero, ks_speed = v, ks_steer = fzero, ks_steer_velocity = fzero,
     ks_acceleration = fzero, ks_jerk = fzero, ks_valid_for = Fin 1 \<rparr>"

lemma sample_config_ok: "check_canonical_config sample_config = Inr sample_config"
  by (simp add: check_canonical_config_def sample_config_def)

lemma canonical_effective_safe_witness:
  "effective_ok sample_config (co_effective (tick (foldl consumer_step (new_consumer sample_config)
     [Ingest (sample_consumer_command (Fin 2)) 5 fzero, Ingest (sample_consumer_command NaN) 6 fzero]) (Fin 1)))"
  using canonical_effective_safe [OF sample_config_ok refl] by blast

end
