(* ===== verification/Controller_Server.thy ===== *)
theory Controller_Server
  imports Esp_Transport Battery Canonical_Command
begin

section \<open>The controller server\<close>

text \<open>
  \<open>salus_control/controller_server_node.py\<close> with the UART backend of \<open>transport_backends.py\<close>: the
  subscription handlers, the control tick that picks the command and applies it to the client, the
  external battery input and the battery and drive part of the telemetry tick. ROS publishers,
  parameters and the JSON status strings are left out; the handlers return what is published.
  Times are readings of the monotonic clock, passed in.
\<close>

definition validate_command_input_mode :: "string \<Rightarrow> string \<Rightarrow> string option" where
  "validate_command_input_mode mode0 backend0 =
     (let mode = py_lower (py_strip mode0); backend = py_lower (py_strip backend0)
      in if mode \<notin> {''legacy_cmd_vel'', ''canonical_vehicle_command''} then None
         else if mode = ''canonical_vehicle_command'' \<and> backend \<noteq> ''sim_gazebo'' then None
         else Some mode)"

datatype battery_source = BatteryTransport | BatteryExternal

datatype command_origin = OriginInit | OriginAuto | OriginTimeout | OriginEstop | OriginCanonical reason

record controller =
  cn_params :: drive_params
  cn_auto_timeout :: pyfloat
  cn_estop_brake :: int
  cn_telemetry_stale :: pyfloat
  cn_battery_stale :: pyfloat
  cn_battery_source :: battery_source
  cn_battery_low :: pyfloat
  cn_battery_critical :: pyfloat
  cn_battery_empty :: pyfloat
  cn_sim_max_steer :: pyfloat
  cn_consumer :: "consumer option"
  cn_auto_cmd :: desired_command
  cn_auto_stamp :: pyfloat
  cn_last_source :: command_origin
  cn_last_saturated :: bool
  cn_external :: "(external_battery \<times> int \<times> int) option"
  cn_estimator :: estimator
  cn_client :: comms

subsection \<open>Commands\<close>

record cmd_vel_msg =
  cv_linear :: pyfloat
  cv_angular :: pyfloat
  cv_brake :: int
  cv_source :: int

text \<open>\<open>None\<close>: an exception leaves the handler.\<close>

definition on_cmd_vel_final :: "libm \<Rightarrow> pyfloat \<Rightarrow> cmd_vel_msg \<Rightarrow> controller \<Rightarrow> controller option" where
  "on_cmd_vel_final M now msg c =
     map_option (\<lambda>cmd. c \<lparr> cn_auto_cmd := cmd, cn_auto_stamp := now, cn_last_saturated := dc_saturated cmd \<rparr>)
       (command_from_cmd_vel M (cn_params c) (cv_linear msg) (cv_angular msg) (cv_brake msg) (cv_source msg))"

record vehicle_msg =
  vm_sec :: int
  vm_nanosec :: int
  vm_source :: int
  vm_drive :: bool
  vm_estop :: bool
  vm_brake :: pyfloat
  vm_speed :: pyfloat
  vm_steer :: pyfloat
  vm_steer_velocity :: pyfloat
  vm_acceleration :: pyfloat
  vm_jerk :: pyfloat
  vm_valid_sec :: int
  vm_valid_nanosec :: int

definition sec_nanosec :: "int \<Rightarrow> int \<Rightarrow> pyfloat" where
  "sec_nanosec sec nanosec = fadd (Fin (of_int sec)) (fl (of_int nanosec / 1000000000))"

definition sample_of_msg :: "vehicle_msg \<Rightarrow> canonical_sample" where
  "sample_of_msg m =
     \<lparr> ks_stamp = vm_sec m * 1000000000 + vm_nanosec m, ks_source = vm_source m, ks_drive = vm_drive m,
       ks_estop = vm_estop m, ks_brake = vm_brake m, ks_speed = vm_speed m, ks_steer = vm_steer m,
       ks_steer_velocity = vm_steer_velocity m, ks_acceleration = vm_acceleration m,
       ks_jerk = vm_jerk m, ks_valid_for = sec_nanosec (vm_valid_sec m) (vm_valid_nanosec m) \<rparr>"

definition on_canonical_command :: "int \<Rightarrow> pyfloat \<Rightarrow> vehicle_msg \<Rightarrow> controller \<Rightarrow> controller option" where
  "on_canonical_command ros_now now msg c =
     Option.bind (cn_consumer c) (\<lambda>k.
     Option.bind (ingest k (sample_of_msg msg) ros_now now) (\<lambda>k1.
     map_option (\<lambda>cmd. c \<lparr> cn_consumer := Some k1, cn_auto_cmd := cmd, cn_auto_stamp := now,
                         cn_last_source := OriginCanonical (ke_reason (co_effective k1)) \<rparr>)
       (desired_from_canonical (co_effective k1) (cn_sim_max_steer c))))"

text \<open>\<open>UartTransportBackend.apply_command\<close>: five setter calls.\<close>

definition command_setters :: "desired_command \<Rightarrow> setter list" where
  "command_setters cmd =
     [SetDrive (dc_drive_enabled cmd), SetEstop (dc_estop cmd), SetSpeed (dc_speed cmd),
      SetSteer (dc_steer cmd), SetBrake (dc_brake cmd)]"

definition apply_command :: "desired_command \<Rightarrow> comms \<Rightarrow> comms" where
  "apply_command cmd d = foldl (\<lambda>d op. fst (comms_step d (Set op))) d (command_setters cmd)"

text \<open>The command and the origin the legacy branch of the control tick picks.\<close>

definition pick_command :: "controller \<Rightarrow> pyfloat \<Rightarrow> desired_command \<times> command_origin \<times> bool" where
  "pick_command c now =
     (let r = select_effective_command now (cn_auto_cmd c) (cn_auto_stamp c) (cn_auto_timeout c);
          cmd = ar_command r
      in if dc_estop cmd
         then (safe_command \<lparr> dc_estop := True, dc_brake := max (dc_brake cmd) (cn_estop_brake c) \<rparr>,
               OriginEstop, ar_fresh r)
         else (cmd, (case ar_source r of ArbAuto \<Rightarrow> OriginAuto | ArbAutoTimeout \<Rightarrow> OriginTimeout), ar_fresh r))"

record control_status =
  sx_source :: command_origin
  sx_fresh :: bool
  sx_command :: desired_command

definition control_tick :: "pyfloat \<Rightarrow> controller \<Rightarrow> (controller \<times> control_status) option" where
  "control_tick now c =
     (case cn_consumer c of
        Some k0 \<Rightarrow>
          (let k = tick k0 now; e = co_effective k
           in map_option (\<lambda>cmd.
                (c \<lparr> cn_consumer := Some k, cn_auto_cmd := cmd, cn_client := apply_command cmd (cn_client c),
                     cn_last_source := OriginCanonical (ke_reason e) \<rparr>,
                 \<lparr> sx_source = OriginCanonical (ke_reason e), sx_fresh = ke_valid e, sx_command = cmd \<rparr>))
              (desired_from_canonical e (cn_sim_max_steer c)))
      | None \<Rightarrow>
          (let (cmd, source, fresh) = pick_command c now
           in Some (c \<lparr> cn_client := apply_command cmd (cn_client c), cn_last_source := source \<rparr>,
                    \<lparr> sx_source = source, sx_fresh = fresh, sx_command = cmd \<rparr>)))"

subsection \<open>Battery and drive telemetry\<close>

text \<open>A clock reading in nanoseconds over \<open>1e9\<close>: the int is first converted to a float.\<close>

definition ros_seconds :: "int \<Rightarrow> pyfloat option" where
  "ros_seconds ns = Option.bind (float_of_int ns) (\<lambda>f. fdiv f (Fin 1000000000))"

definition on_external_battery ::
    "int \<Rightarrow> pyfloat \<Rightarrow> battery_msg \<Rightarrow> int \<Rightarrow> int \<Rightarrow> controller \<Rightarrow> controller option" where
  "on_external_battery ros_now now msg sec nanosec c =
     map_option (\<lambda>t.
       (let age = fsub t (sec_nanosec sec nanosec) in
        if \<not> (fle fzero age \<and> fle age (cn_battery_stale c)) then c
        else if (case cn_external c of None \<Rightarrow> False
                 | Some (b, psec, pnano) \<Rightarrow> sec < psec \<or> sec = psec \<and> nanosec \<le> pnano) then c
        else
          (let c1 = (case cn_external c of
                       None \<Rightarrow> c
                     | Some (b, s) \<Rightarrow>
                         if flt (cn_battery_stale c) (fsub now (eb_rx b))
                         then c \<lparr> cn_estimator := break_continuity (cn_estimator c) \<rparr> else c)
           in case external_battery_sample msg (fsub now age) of
                Inr b \<Rightarrow> c1 \<lparr> cn_external := Some (b, sec, nanosec) \<rparr>
              | Inl e \<Rightarrow> c1 \<lparr> cn_estimator := break_continuity (cn_estimator c1), cn_external := None \<rparr>)))
     (ros_seconds ros_now)"

definition battery_traction_active :: "telemetry option \<Rightarrow> command_state \<Rightarrow> bool" where
  "battery_traction_active tel cs =
     (let brake = (case tel of Some t \<Rightarrow> uint (tel_brake_applied_pct t) | None \<Rightarrow> cs_brake_pct cs);
          requested = fabs (cs_speed_mps cs);
          measured = (case tel of Some t \<Rightarrow> (case tel_speed_mps t of Some v \<Rightarrow> fabs v | None \<Rightarrow> fzero)
                      | None \<Rightarrow> fzero)
      in cs_drive_enabled cs \<and> brake < 5 \<and> flt (fl (35 / 100)) requested \<and>
         flt (fadd measured (fl (15 / 100))) requested)"

text \<open>The battery inputs of the two sources, with what the tick reads of them.\<close>

record battery_input =
  bi_voltage :: pyfloat
  bi_percentage :: pyfloat
  bi_rx :: pyfloat
  bi_ready :: bool
  bi_fresh :: bool
  bi_suspect :: bool

definition battery_input_of :: "controller \<Rightarrow> battery_input option" where
  "battery_input_of c =
     (case cn_battery_source c of
        BatteryExternal \<Rightarrow> map_option (\<lambda>(b, s).
          \<lparr> bi_voltage = eb_voltage b, bi_percentage = eb_percentage b, bi_rx = eb_rx b,
            bi_ready = eb_ready b, bi_fresh = eb_fresh b, bi_suspect = eb_suspect b \<rparr>) (cn_external c)
      | BatteryTransport \<Rightarrow> map_option (\<lambda>b.
          \<lparr> bi_voltage = bt_battery_voltage_v b, bi_percentage = fzero, bi_rx = bt_rx_s b,
            bi_ready = bt_ready b, bi_fresh = bt_fresh b, bi_suspect = bt_suspect b \<rparr>) (cc_battery (cn_client c)))"

record guard_msg =
  gm_ready :: bool
  gm_fresh :: bool
  gm_traction :: bool
  gm_return_home :: bool
  gm_state :: battery_label
  gm_voltage :: pyfloat
  gm_soc_pct :: pyfloat
  gm_low_persist :: pyfloat
  gm_clear_persist :: pyfloat

definition clamp01_node :: "pyfloat \<Rightarrow> pyfloat" where
  "clamp01_node v = pymax fzero (pymin (Fin 1) v)"

text \<open>The battery part of \<open>_telemetry_tick\<close>: the estimator update and the published guard message.\<close>

definition battery_tick :: "pyfloat \<Rightarrow> controller \<Rightarrow> controller \<times> (curve_error + guard_msg option)" where
  "battery_tick now c =
     (let external = (cn_battery_source c = BatteryExternal) in
      case battery_input_of c of
        Some b \<Rightarrow>
          (let age = pymax fzero (fsub now (bi_rx b));
               link_fresh = fle age (cn_battery_stale c);
               traction = battery_traction_active (cc_telemetry (cn_client c)) (cc_state (cn_client c));
               (es, r) = update (cn_estimator c)
                 \<lparr> sm_voltage = bi_voltage b, sm_time = bi_rx b, sm_traction = traction,
                   sm_valid = (\<not> external \<or> link_fresh \<and> \<not> bi_suspect b) \<rparr>
           in (c \<lparr> cn_estimator := es \<rparr>,
               bind_res r (\<lambda>e.
                 (let pct = (if external then bi_percentage b else clamp01_node (be_percentage e))
                  in Inr (Some
                    \<lparr> gm_ready = bi_ready b,
                      gm_fresh = (bi_fresh b \<and> link_fresh),
                      gm_traction = be_traction e,
                      gm_return_home = be_return_home e,
                      gm_state = battery_state_label (bi_ready b) (bi_fresh b) link_fresh (bi_suspect b)
                        (be_guard e) (be_voltage e) (cn_battery_low c) (cn_battery_critical c) (cn_battery_empty c),
                      gm_voltage = be_voltage e,
                      gm_soc_pct = (if \<not> external \<or> link_fresh then fmul (Fin 100) pct else NaN),
                      gm_low_persist = be_low_persist e,
                      gm_clear_persist = be_clear_persist e \<rparr>)))))
      | None \<Rightarrow>
          if external
          then (c \<lparr> cn_estimator := break_continuity (cn_estimator c) \<rparr>,
                Inr (Some \<lparr> gm_ready = False, gm_fresh = False, gm_traction = False,
                            gm_return_home = es_latched (break_continuity (cn_estimator c)),
                            gm_state = LblUnavailable, gm_voltage = fzero, gm_soc_pct = NaN,
                            gm_low_persist = fzero, gm_clear_persist = fzero \<rparr>))
          else (c, Inr None))"

record drive_msg =
  dm_ready :: bool
  dm_fresh :: bool
  dm_drive_enabled :: bool
  dm_estop :: bool
  dm_reverse :: bool
  dm_speed_valid :: bool
  dm_steer_valid :: bool
  dm_source :: control_source
  dm_speed :: pyfloat
  dm_steer :: pyfloat
  dm_brake :: int

definition drive_telemetry :: "pyfloat \<Rightarrow> controller \<Rightarrow> drive_msg option" where
  "drive_telemetry now c =
     (let cs = cc_state (cn_client c) in
      case cc_telemetry (cn_client c) of
        None \<Rightarrow> Some
          \<lparr> dm_ready = False, dm_fresh = False, dm_drive_enabled = cs_drive_enabled cs,
            dm_estop = cs_estop cs, dm_reverse = flt (cs_speed_mps cs) fzero, dm_speed_valid = False,
            dm_steer_valid = False, dm_source = SrcNone, dm_speed = fzero, dm_steer = fzero, dm_brake = 0 \<rparr>
      | Some t \<Rightarrow> map_option (\<lambda>src.
          \<lparr> dm_ready = tel_ready t,
            dm_fresh = fle (pymax fzero (fsub now (tel_rx_s t))) (cn_telemetry_stale c),
            dm_drive_enabled = cs_drive_enabled cs,
            dm_estop = tel_estop_active t,
            dm_reverse = flt (cs_speed_mps cs) fzero,
            dm_speed_valid = (tel_speed_mps t \<noteq> None),
            dm_steer_valid = (tel_steer_deg t \<noteq> None),
            dm_source = src,
            dm_speed = (case tel_speed_mps t of Some v \<Rightarrow> v | None \<Rightarrow> fzero),
            dm_steer = (case tel_steer_deg t of Some v \<Rightarrow> v | None \<Rightarrow> fzero),
            dm_brake = uint (tel_brake_applied_pct t) \<rparr>)
          (tel_control_source t))"

subsection \<open>Lemmas\<close>

lemma validate_mode_iff:
  "validate_command_input_mode m b = Some x \<longleftrightarrow>
     x = py_lower (py_strip m) \<and>
     (x = ''legacy_cmd_vel'' \<or> x = ''canonical_vehicle_command'' \<and> py_lower (py_strip b) = ''sim_gazebo'')"
  by (auto simp: validate_command_input_mode_def Let_def)

lemma apply_command_fields:
  "cc_state (apply_command cmd d) =
     (cc_state d) \<lparr> cs_drive_enabled := dc_drive_enabled cmd, cs_estop := dc_estop cmd,
       cs_speed_mps := fclamp (dc_speed cmd) (fneg (cs_max_reverse_mps (cc_state d))) (cs_max_speed_mps (cc_state d)),
       cs_steer_pct := iclamp (dc_steer cmd) (- 100) 100, cs_brake_pct := iclamp (dc_brake cmd) 0 100 \<rparr>"
  by (simp add: apply_command_def command_setters_def setter_defs)

lemma apply_command_inv: "comms_inv mx rv d \<Longrightarrow> comms_inv mx rv (apply_command cmd d)"
  unfolding apply_command_def
  by (rule foldl_inv [where P = "comms_inv mx rv"]) (simp_all only: comms_step_inv)

lemma tel_control_source_total: "tel_control_source t \<noteq> None"
proof -
  have "uint (drop_bit 4 (tel_status_flags t) AND 3) < 4"
  proof -
    have "drop_bit 4 (tel_status_flags t) AND 3 = take_bit 2 (drop_bit 4 (tel_status_flags t))"
      by (simp add: take_bit_eq_mask mask_eq_exp_minus_1)
    then show ?thesis by (simp add: unsigned_take_bit_eq take_bit_int_less_exp [of 2, simplified])
  qed
  then have "uint (drop_bit 4 (tel_status_flags t) AND 3) \<in> {0, 1, 2, 3}"
    using uint_ge_0 [of "drop_bit 4 (tel_status_flags t) AND 3"] by (simp only: insert_iff) arith
  then show ?thesis by (auto simp: tel_control_source_def control_source_of_def)
qed

lemma battery_label_no_link: "battery_state_label r f False s g v lo cr mi \<in> {LblStale, LblUnavailable}"
  by (simp add: battery_state_label_def)

subsection \<open>Properties\<close>

text \<open>
  The legacy commands and the control ticks, with their times. An exception would leave \<open>rclpy.spin\<close> and end the node; here the
  controller is left as it was, so the histories include those of the node up to then, and more.
\<close>

datatype control_event = VelocityCommand pyfloat cmd_vel_msg | ControlTick pyfloat

fun control_step :: "libm \<Rightarrow> controller \<Rightarrow> control_event \<Rightarrow> controller" where
  "control_step M c (VelocityCommand now msg) = (case on_cmd_vel_final M now msg c of None \<Rightarrow> c | Some d \<Rightarrow> d)"
| "control_step M c (ControlTick now) = (case control_tick now c of None \<Rightarrow> c | Some (d, st) \<Rightarrow> d)"

text \<open>
  What a history says of the last velocity command: its time, and the command it was converted to. A message is taken only when the
  conversion returns, which depends on the parameters alone.
\<close>

fun last_velocity :: "libm \<Rightarrow> drive_params \<Rightarrow> control_event list \<Rightarrow> (pyfloat \<times> desired_command) option" where
  "last_velocity M P [] = None"
| "last_velocity M P (e # h) =
     (case last_velocity M P h of
        Some x \<Rightarrow> Some x
      | None \<Rightarrow> (case e of
           VelocityCommand t m \<Rightarrow>
             map_option (\<lambda>cmd. (t, cmd)) (command_from_cmd_vel M P (cv_linear m) (cv_angular m) (cv_brake m) (cv_source m))
         | ControlTick t \<Rightarrow> None))"

definition legacy_of :: "controller \<Rightarrow> controller \<Rightarrow> bool" where
  "legacy_of c d \<longleftrightarrow> cn_consumer d = None \<and> cn_params d = cn_params c \<and> cn_auto_timeout d = cn_auto_timeout c \<and>
     cn_estop_brake d = cn_estop_brake c"

lemma control_step_legacy:
  assumes "cn_consumer d = None"
  shows "legacy_of d (control_step M d e) \<and>
    (case last_velocity M (cn_params d) [e] of
       None \<Rightarrow> cn_auto_stamp (control_step M d e) = cn_auto_stamp d \<and> cn_auto_cmd (control_step M d e) = cn_auto_cmd d
     | Some (t, cmd) \<Rightarrow> cn_auto_stamp (control_step M d e) = t \<and> cn_auto_cmd (control_step M d e) = cmd)"
proof (cases e)
  case (VelocityCommand t m)
  then show ?thesis using assms
    by (cases "command_from_cmd_vel M (cn_params d) (cv_linear m) (cv_angular m) (cv_brake m) (cv_source m)")
      (auto simp: legacy_of_def on_cmd_vel_final_def)
qed (use assms in \<open>auto simp: legacy_of_def control_tick_def split: prod.splits\<close>)

lemma history_legacy:
  assumes "cn_consumer c = None"
  shows "legacy_of c (foldl (control_step M) c h) \<and>
    (case last_velocity M (cn_params c) h of
       None \<Rightarrow> cn_auto_stamp (foldl (control_step M) c h) = cn_auto_stamp c \<and> cn_auto_cmd (foldl (control_step M) c h) = cn_auto_cmd c
     | Some (t, cmd) \<Rightarrow> cn_auto_stamp (foldl (control_step M) c h) = t \<and> cn_auto_cmd (foldl (control_step M) c h) = cmd)"
  using assms
proof (induction h arbitrary: c)
  case (Cons e h)
  let ?d = "control_step M c e"
  note s = control_step_legacy [OF Cons.prems, of M e]
  then have d: "cn_consumer ?d = None" "cn_params ?d = cn_params c" by (simp_all add: legacy_of_def)
  from Cons.IH [OF d(1)] s show ?case
    by (cases "last_velocity M (cn_params c) h"; cases "last_velocity M (cn_params c) [e]") (auto simp: legacy_of_def d(2))
qed (simp add: legacy_of_def)

text \<open>
  C31. The legacy control tick fails safe, after any history of velocity commands and control ticks: it applies to the client exactly
  the command it reports. When the time since the last velocity command (the stamp the controller started with, when there was
  none) is not at most the timeout (a negative timeout counts as zero), that is the stopped command with the drive disabled and
  the steering centred, and the report says that it is not fresh; otherwise it is the last command, unless that is an
  emergency stop. An emergency stop disables the drive, stops, centres the steering and brakes at least as hard as configured (up to
  full brake).
\<close>

theorem control_tick_fails_safe:
  assumes "cn_consumer c0 = None" "c = foldl (control_step M) c0 h" "control_tick now c = Some (d, st)"
    "(stamp, cmd) = (case last_velocity M (cn_params c0) h of None \<Rightarrow> (cn_auto_stamp c0, cn_auto_cmd c0) | Some x \<Rightarrow> x)"
  shows "cn_client d = apply_command (sx_command st) (cn_client c) \<and>
    sx_fresh st = fle (fsub now stamp) (pymax fzero (cn_auto_timeout c0)) \<and>
    (\<not> fle (fsub now stamp) (pymax fzero (cn_auto_timeout c0)) \<longrightarrow> sx_command st = safe_command \<and>
       \<not> cs_drive_enabled (cc_state (cn_client d)) \<and> cs_steer_pct (cc_state (cn_client d)) = 0) \<and>
    (fle (fsub now stamp) (pymax fzero (cn_auto_timeout c0)) \<and> \<not> dc_estop cmd \<longrightarrow> sx_command st = cmd) \<and>
    (cs_estop (cc_state (cn_client d)) \<longrightarrow>
       \<not> cs_drive_enabled (cc_state (cn_client d)) \<and> dc_speed (sx_command st) = fzero \<and>
       cs_steer_pct (cc_state (cn_client d)) = 0 \<and>
       iclamp (cn_estop_brake c0) 0 100 \<le> cs_brake_pct (cc_state (cn_client d)))"
proof -
  have c: "cn_consumer c = None" "cn_auto_timeout c = cn_auto_timeout c0" "cn_estop_brake c = cn_estop_brake c0"
    "cn_auto_stamp c = stamp" "cn_auto_cmd c = cmd"
    using history_legacy [OF assms(1), of M h] assms(2,4) by (auto simp: legacy_of_def split: option.splits)
  have "cn_client d = apply_command (sx_command st) (cn_client c)"
    using assms(3) c(1) by (auto simp: control_tick_def split: prod.splits)
  moreover have p: "(sx_command st, sx_source st, sx_fresh st) = pick_command c now"
    using assms(3) c(1) by (auto simp: control_tick_def split: prod.splits)
  then have "sx_fresh st = fle (fsub now stamp) (pymax fzero (cn_auto_timeout c0))"
    "\<not> sx_fresh st \<longrightarrow> sx_command st = safe_command" "sx_fresh st \<and> \<not> dc_estop cmd \<longrightarrow> sx_command st = cmd"
    "dc_estop (sx_command st) \<longrightarrow> (\<exists>b. sx_command st = safe_command \<lparr> dc_estop := True, dc_brake := max b (cn_estop_brake c0) \<rparr>)"
    using c(2-5) by (auto simp: pick_command_def select_effective_command_def safe_command_def Let_def split: if_splits)
  ultimately show ?thesis
    by (auto simp: apply_command_fields safe_command_def iclamp_def)
qed

text \<open>
  A stale external battery never changes the mission guard: when the battery message is missing
  or older than the stale timeout, the telemetry tick keeps the return-home recommendation as it
  was, latched or not, and reports the battery as not fresh and as stale or unavailable.
\<close>

lemma stale_battery_keeps_guard:
  assumes "cn_battery_source c = BatteryExternal"
    and "case battery_input_of c of None \<Rightarrow> True
         | Some b \<Rightarrow> \<not> fle (pymax fzero (fsub now (bi_rx b))) (cn_battery_stale c)"
    and "battery_tick now c = (d, Inr (Some m))"
  shows "es_latched (cn_estimator d) = es_latched (cn_estimator c) \<and>
    gm_return_home m = es_latched (cn_estimator c) \<and> \<not> gm_fresh m \<and> gm_state m \<in> {LblStale, LblUnavailable}"
proof (cases "battery_input_of c")
  case None
  then show ?thesis using assms by (auto simp: battery_tick_def break_continuity_def)
next
  case (Some b)
  then show ?thesis using assms battery_label_no_link
    by (fastforce simp: battery_tick_def update_def guard_step_def break_continuity_def bind_res_eq_Inr Let_def)
qed

subsection \<open>Witnesses\<close>

definition sample_client :: comms where
  "sample_client =
     \<lparr> cc_state = new_command_state (Fin 4) (Fin 1), cc_telemetry = None, cc_battery = None,
       cc_stats = new_stats, cc_serial = None, cc_stop_event = False, cc_transmitters = [],
       cc_rx_alive = False, cc_parser = new_parser, cc_running = False, cc_log = False,
       cc_phase = NotStopping, cc_tx_period = Fin 1 \<rparr>"

definition sample_controller :: controller where
  "sample_controller =
     \<lparr> cn_params = sample_params, cn_auto_timeout = Fin (1 / 2), cn_estop_brake = 100,
       cn_telemetry_stale = Fin 1, cn_battery_stale = Fin 3, cn_battery_source = BatteryExternal,
       cn_battery_low = Fin 47, cn_battery_critical = Fin 45, cn_battery_empty = Fin 44,
       cn_sim_max_steer = Fin (1 / 2), cn_consumer = None, cn_auto_cmd = safe_command \<lparr> dc_estop := True, dc_brake := 30 \<rparr>,
       cn_auto_stamp = Fin 7, cn_last_source = OriginInit, cn_last_saturated = False,
       cn_external = None, cn_estimator = (sample_estimator (Fin 10)) \<lparr> es_latched := True \<rparr>,
       cn_client = sample_client \<rparr>"

definition forward_msg :: cmd_vel_msg where
  "forward_msg = \<lparr> cv_linear = Fin 2, cv_angular = fzero, cv_brake = 0, cv_source = src_safety \<rparr>"

text \<open>A command at 7 s, and ticks at 7.25 s and 9 s, with the timeout of half a second.\<close>

lemma control_tick_fails_safe_witness:
  "\<exists>cmd d st e su. command_from_cmd_vel sample_libm sample_params (Fin 2) fzero 0 src_safety = Some cmd \<and>
     control_tick (Fin (29 / 4)) (foldl (control_step sample_libm) sample_controller [VelocityCommand (Fin 7) forward_msg]) = Some (d, st) \<and>
     sx_fresh st \<and>
     control_tick (Fin 9) (foldl (control_step sample_libm) sample_controller [VelocityCommand (Fin 7) forward_msg, ControlTick (Fin 8)]) = Some (e, su) \<and>
     sx_command su = safe_command \<and> \<not> cs_drive_enabled (cc_state (cn_client e))"
proof -
  have n: "cn_consumer sample_controller = None" "cn_auto_timeout sample_controller = Fin (1 / 2)" "cn_params sample_controller = sample_params"
    by (simp_all add: sample_controller_def)
  obtain cmd where cmd: "command_from_cmd_vel sample_libm sample_params (Fin 2) fzero 0 src_safety = Some cmd"
    using command_total [of sample_params 0 sample_libm "Fin 2" fzero src_safety] by (auto simp: sample_params_def sample_libm_def)
  let ?c = "\<lambda>h. foldl (control_step sample_libm) sample_controller h"
  have tick: "\<exists>d st. control_tick now (?c h) = Some (d, st)" for now h
    using history_legacy [OF n(1), of sample_libm h] by (cases "pick_command (?c h) now") (simp add: legacy_of_def control_tick_def)
  let ?h1 = "[VelocityCommand (Fin 7) forward_msg]" and ?h2 = "[VelocityCommand (Fin 7) forward_msg, ControlTick (Fin 8)]"
  have v: "(Fin 7, cmd) = (case last_velocity sample_libm (cn_params sample_controller) h of
      None \<Rightarrow> (cn_auto_stamp sample_controller, cn_auto_cmd sample_controller) | Some x \<Rightarrow> x)" if "h \<in> {?h1, ?h2}" for h
    using that cmd by (auto simp: n(3) forward_msg_def)
  obtain d st e su where t: "control_tick (Fin (29 / 4)) (?c ?h1) = Some (d, st)" "control_tick (Fin 9) (?c ?h2) = Some (e, su)"
    using tick by meson
  have "fl (1 / 4) = Fin (1 / 4)" using fl_dyadic [of 1 2] by simp
  then have "fle (fsub (Fin (29 / 4)) (Fin 7)) (pymax fzero (cn_auto_timeout sample_controller))"
    "\<not> fle (fsub (Fin 9) (Fin 7)) (pymax fzero (cn_auto_timeout sample_controller))" by (simp_all add: n(2) fsub_def pymax_def)
  then have "sx_fresh st" "sx_command su = safe_command \<and> \<not> cs_drive_enabled (cc_state (cn_client e))"
    using control_tick_fails_safe [OF n(1) refl t(1) v] control_tick_fails_safe [OF n(1) refl t(2) v] by blast+
  with cmd t show ?thesis by blast
qed

lemma stale_battery_keeps_guard_witness:
  "\<exists>d m. battery_tick (Fin 50) sample_controller = (d, Inr (Some m)) \<and> gm_return_home m \<and> gm_state m \<in> {LblStale, LblUnavailable}"
proof -
  have e: "cn_battery_source sample_controller = BatteryExternal" "battery_input_of sample_controller = None"
    by (simp_all add: sample_controller_def battery_input_of_def)
  then obtain d m where t: "battery_tick (Fin 50) sample_controller = (d, Inr (Some m))"
    by (simp add: battery_tick_def)
  show ?thesis using stale_battery_keeps_guard [OF e(1) _ t] e t
    by (simp add: sample_controller_def)
qed

end
