(* ===== verification/Command_Arbiter.thy ===== *)
theory Command_Arbiter
  imports Controller_Server
begin

section \<open>The command arbiter of the navigation server\<close>

text \<open>
  \<open>salus_navigation/nav_command_server.py\<close>: the policy that decides which velocity commands reach
  \<open>/cmd_vel_final\<close>, with the handlers that feed it, and the keepout test of goals. The numbers of the
  Nav2 collision monitor (the action \<open>STOP\<close> and the initial action) are parameters; those of
  \<open>CmdVelFinal\<close> and \<open>PathHealth\<close> are the repository's messages. A published command is a
  \<open>cmd_vel_msg\<close>; times are readings of the monotonic clock.
\<close>

definition path_keep :: int where "path_keep = 0"
definition path_stop_and_wait :: int where "path_stop_and_wait = 2"

definition clamp_brake_pct :: "int \<Rightarrow> int" where
  "clamp_brake_pct value = max 0 (min 100 value)"

subsection \<open>Keepouts\<close>

type_synonym point = "pyfloat \<times> pyfloat"

text \<open>One edge of \<open>_ring_contains\<close>; \<open>None\<close> is a division by zero.\<close>

definition crosses :: "point \<Rightarrow> point \<Rightarrow> point \<Rightarrow> bool option" where
  "crosses prev p q =
     (let (px, py) = p; (vx, vy) = prev; (x, y) = q in
      if flt y py = flt y vy then Some False
      else map_option (\<lambda>d. flt x (fadd d px)) (fdiv (fmul (fsub vx px) (fsub y py)) (fsub vy py)))"

fun ring_parity :: "point \<Rightarrow> point list \<Rightarrow> point \<Rightarrow> bool \<Rightarrow> bool option" where
  "ring_parity prev [] q inside = Some inside"
| "ring_parity prev (p # ps) q inside =
     Option.bind (crosses prev p q) (\<lambda>c. ring_parity p ps q (inside \<noteq> c))"

definition ring_contains :: "point list \<Rightarrow> point \<Rightarrow> bool option" where
  "ring_contains points q = (case points of [] \<Rightarrow> Some False | _ \<Rightarrow> ring_parity (last points) points q False)"

text \<open>\<open>len(points) >= 3 and _ring_contains(...)\<close>, and \<open>any\<close> over the holes.\<close>

definition area_contains :: "point list \<Rightarrow> point \<Rightarrow> bool option" where
  "area_contains points q = (if 3 \<le> length points then ring_contains points q else Some False)"

fun any_contains :: "point list list \<Rightarrow> point \<Rightarrow> bool option" where
  "any_contains [] q = Some False"
| "any_contains (h # hs) q = Option.bind (area_contains h q) (\<lambda>b. if b then Some True else any_contains hs q)"

fun polygons_contain :: "(point list \<times> point list list) list \<Rightarrow> point \<Rightarrow> bool option" where
  "polygons_contain [] q = Some False"
| "polygons_contain ((outer, holes) # ps) q =
     Option.bind (area_contains outer q) (\<lambda>b.
       if b then Option.bind (any_contains holes q) (\<lambda>h. if h then polygons_contain ps q else Some True)
       else polygons_contain ps q)"

definition projected_keepouts_contain ::
    "(string \<times> (point list \<times> point list list) list) option \<Rightarrow> point \<Rightarrow> bool option" where
  "projected_keepouts_contain msg q =
     (case msg of None \<Rightarrow> Some False
      | Some (frame, polygons) \<Rightarrow> if frame \<noteq> ''map'' then Some False else polygons_contain polygons q)"

subsection \<open>The arbiter\<close>

record arbiter =
  ab_manual_timeout :: pyfloat
  ab_monitor_timeout :: pyfloat
  ab_required :: bool
  ab_manual :: bool
  ab_command :: "cmd_vel_msg option"
  ab_stamp :: "pyfloat option"
  ab_stop_sent :: bool
  ab_scan :: "pyfloat option"
  ab_monitor :: int
  ab_polygon :: string
  ab_health :: int
  ab_health_reason :: string

definition new_arbiter :: "int \<Rightarrow> pyfloat \<Rightarrow> pyfloat \<Rightarrow> bool \<Rightarrow> arbiter" where
  "new_arbiter do_nothing manual_timeout monitor_timeout required =
     \<lparr> ab_manual_timeout = pymax (fl (1 / 10)) manual_timeout, ab_monitor_timeout = pymax (fl (1 / 10)) monitor_timeout,
       ab_required = required, ab_manual = False, ab_command = None, ab_stamp = None, ab_stop_sent = False,
       ab_scan = None, ab_monitor = do_nothing, ab_polygon = [], ab_health = path_keep,
       ab_health_reason = ''path_health_unavailable'' \<rparr>"

definition scan_is_fresh :: "arbiter \<Rightarrow> pyfloat \<Rightarrow> bool" where
  "scan_is_fresh a now =
     (case ab_scan a of None \<Rightarrow> False
      | Some t \<Rightarrow> fle fzero (fsub now t) \<and> fle (fsub now t) (ab_monitor_timeout a))"

definition set_scan_received :: "arbiter \<Rightarrow> pyfloat \<Rightarrow> pyfloat \<Rightarrow> arbiter" where
  "set_scan_received a now age =
     a \<lparr> ab_scan := (if isfinite age \<and> fle fzero age then Some (fsub now age) else None) \<rparr>"

definition set_monitor_state :: "arbiter \<Rightarrow> int \<Rightarrow> string \<Rightarrow> arbiter" where
  "set_monitor_state a action polygon = a \<lparr> ab_monitor := action, ab_polygon := polygon \<rparr>"

definition set_path_health :: "arbiter \<Rightarrow> int \<Rightarrow> string \<Rightarrow> arbiter" where
  "set_path_health a state reason = a \<lparr> ab_health := state, ab_health_reason := reason \<rparr>"

definition set_manual_mode :: "arbiter \<Rightarrow> bool \<Rightarrow> arbiter" where
  "set_manual_mode a enabled =
     (let a1 = a \<lparr> ab_manual := enabled, ab_stop_sent := False \<rparr>
      in if enabled then a1 else a1 \<lparr> ab_command := None, ab_stamp := None \<rparr>)"

definition command_msg :: "pyfloat \<Rightarrow> pyfloat \<Rightarrow> int \<Rightarrow> int \<Rightarrow> cmd_vel_msg" where
  "command_msg lin ang brake source =
     \<lparr> cv_linear = lin, cv_angular = ang, cv_brake = clamp_brake_pct brake, cv_source = source \<rparr>"

definition stop_msg :: "int \<Rightarrow> int \<Rightarrow> cmd_vel_msg" where
  "stop_msg source brake = command_msg fzero fzero brake source"

definition accept_manual :: "arbiter \<Rightarrow> cmd_vel_msg \<Rightarrow> pyfloat \<Rightarrow> arbiter \<times> cmd_vel_msg option" where
  "accept_manual a msg now =
     (if \<not> ab_manual a then (a, None)
      else
        (let cmd = command_msg (cv_linear msg) (cv_angular msg) (cv_brake msg) src_manual
         in (a \<lparr> ab_command := Some cmd, ab_stamp := Some now, ab_stop_sent := False \<rparr>, Some cmd)))"

datatype auto_reason = ManualEnabled | ScanStale | PathHealthStop | CollisionStop | AutoOk

definition health_brake :: "string \<Rightarrow> int" where
  "health_brake reason = (if take 9 reason = ''maneuver:'' then 100 else 0)"

definition automatic_output :: "int \<Rightarrow> arbiter \<Rightarrow> point \<Rightarrow> pyfloat \<Rightarrow> cmd_vel_msg option \<times> auto_reason" where
  "automatic_output monitor_stop a tw now =
     (if ab_manual a then (None, ManualEnabled)
      else if ab_required a \<and> \<not> scan_is_fresh a now then (Some (stop_msg src_safety 0), ScanStale)
      else if ab_health a = path_stop_and_wait
      then (Some (stop_msg src_safety (health_brake (ab_health_reason a))), PathHealthStop)
      else if ab_monitor a = monitor_stop then (Some (stop_msg src_safety 0), CollisionStop)
      else (Some (command_msg (fst tw) (snd tw) 0 src_auto), AutoOk))"

definition manual_watchdog_output :: "arbiter \<Rightarrow> pyfloat \<Rightarrow> arbiter \<times> cmd_vel_msg option" where
  "manual_watchdog_output a now =
     (case ab_stamp a of
        None \<Rightarrow> (a, None)
      | Some t \<Rightarrow>
          if \<not> ab_manual a then (a, None)
          else if fle (fsub now t) (ab_manual_timeout a) \<or> ab_stop_sent a then (a, None)
          else (a \<lparr> ab_stop_sent := True \<rparr>, Some (stop_msg src_manual 0)))"

text \<open>
  The handlers: what each event does to the arbiter and publishes. \<open>BrakeHold\<close> is one turn of the
  publishing loop of a brake hold.
\<close>

datatype nav_event =
    Scan pyfloat pyfloat
  | Monitor int string
  | Health int string
  | ManualMode bool
  | Teleop cmd_vel_msg pyfloat
  | SafeVelocity point pyfloat
  | ManualWatchdog pyfloat
  | BrakeHold int

fun arbiter_step :: "int \<Rightarrow> arbiter \<Rightarrow> nav_event \<Rightarrow> arbiter \<times> cmd_vel_msg list" where
  "arbiter_step S a (Scan now age) = (set_scan_received a now age, [])"
| "arbiter_step S a (Monitor action polygon) = (set_monitor_state a action polygon, [])"
| "arbiter_step S a (Health state reason) =
     (set_path_health a state reason,
      if state = path_stop_and_wait \<and> \<not> ab_manual a then [stop_msg src_safety (health_brake reason)] else [])"
| "arbiter_step S a (ManualMode enabled) = (set_manual_mode a enabled, [])"
| "arbiter_step S a (Teleop msg now) =
     (let (a1, out) = accept_manual a msg now in (a1, case out of None \<Rightarrow> [] | Some m \<Rightarrow> [m]))"
| "arbiter_step S a (SafeVelocity tw now) =
     (a, case fst (automatic_output S a tw now) of None \<Rightarrow> [] | Some m \<Rightarrow> [m])"
| "arbiter_step S a (ManualWatchdog now) =
     (let (a1, out) = manual_watchdog_output a now in (a1, case out of None \<Rightarrow> [] | Some m \<Rightarrow> [m]))"
| "arbiter_step S a (BrakeHold brake) = (a, [stop_msg src_safety (clamp_brake_pct brake)])"

subsection \<open>The specification over the history of events\<close>

text \<open>What the last scan, mode, health and monitor messages of a history say.\<close>

definition last_scan :: "nav_event list \<Rightarrow> pyfloat option" where
  "last_scan h = foldl (\<lambda>s e. case e of
       Scan now age \<Rightarrow> if isfinite age \<and> fle fzero age then Some (fsub now age) else None | _ \<Rightarrow> s) None h"

definition last_mode :: "nav_event list \<Rightarrow> bool" where
  "last_mode h = foldl (\<lambda>s e. case e of ManualMode b \<Rightarrow> b | _ \<Rightarrow> s) False h"

definition last_health :: "nav_event list \<Rightarrow> int \<times> string" where
  "last_health h = foldl (\<lambda>s e. case e of Health st r \<Rightarrow> (st, r) | _ \<Rightarrow> s) (path_keep, ''path_health_unavailable'') h"

definition last_monitor :: "int \<Rightarrow> nav_event list \<Rightarrow> int" where
  "last_monitor d h = foldl (\<lambda>s e. case e of Monitor action p \<Rightarrow> action | _ \<Rightarrow> s) d h"

text \<open>The last scan is recent enough, where scans are required, and automatic motion is permitted.\<close>

definition scan_ok :: "pyfloat \<Rightarrow> bool \<Rightarrow> nav_event list \<Rightarrow> pyfloat \<Rightarrow> bool" where
  "scan_ok timeout required h now \<longleftrightarrow>
     (required \<longrightarrow> (case last_scan h of None \<Rightarrow> False
        | Some t \<Rightarrow> fle fzero (fsub now t) \<and> fle (fsub now t) (pymax (fl (1 / 10)) timeout)))"

definition permitted :: "int \<Rightarrow> int \<Rightarrow> pyfloat \<Rightarrow> bool \<Rightarrow> nav_event list \<Rightarrow> pyfloat \<Rightarrow> bool" where
  "permitted S d timeout required h now \<longleftrightarrow>
     \<not> last_mode h \<and> scan_ok timeout required h now \<and> fst (last_health h) \<noteq> path_stop_and_wait \<and> last_monitor d h \<noteq> S"

lemma arbiter_snoc:
  "fst (run (arbiter_step S) a (h @ [e])) = fst (arbiter_step S (fst (run (arbiter_step S) a h)) e)"
  by (simp add: run_append case_prod_unfold Let_def)

lemmas arbiter_defs = set_scan_received_def set_monitor_state_def set_path_health_def set_manual_mode_def
  accept_manual_def manual_watchdog_output_def Let_def

definition agrees :: "int \<Rightarrow> pyfloat \<Rightarrow> pyfloat \<Rightarrow> bool \<Rightarrow> nav_event list \<Rightarrow> arbiter \<Rightarrow> bool" where
  "agrees d mt st req h a \<longleftrightarrow> ab_scan a = last_scan h \<and> ab_manual a = last_mode h \<and>
     (ab_health a, ab_health_reason a) = last_health h \<and> ab_monitor a = last_monitor d h \<and>
     ab_required a = req \<and> ab_monitor_timeout a = pymax (fl (1 / 10)) st \<and> ab_manual_timeout a = pymax (fl (1 / 10)) mt"

lemma agrees_step: "agrees d mt st req h a \<Longrightarrow> agrees d mt st req (h @ [e]) (fst (arbiter_step S a e))"
  by (cases e) (auto simp: agrees_def last_scan_def last_mode_def last_health_def last_monitor_def arbiter_defs
      split: option.splits)

lemma agrees_run: "agrees d mt st req h (fst (run (arbiter_step S) (new_arbiter d mt st req) h))"
proof (induction h rule: rev_induct)
  case Nil
  then show ?case
    by (simp add: agrees_def new_arbiter_def last_scan_def last_mode_def last_health_def last_monitor_def)
next
  case (snoc e h)
  then show ?case by (simp add: arbiter_snoc agrees_step)
qed

subsection \<open>The manual watchdog\<close>

text \<open>Neither a teleoperation command nor a mode change.\<close>

fun no_manual :: "nav_event \<Rightarrow> bool" where
  "no_manual (Teleop m t) = False" | "no_manual (ManualMode b) = False" | "no_manual e = True"

fun late :: "pyfloat \<Rightarrow> pyfloat \<Rightarrow> nav_event \<Rightarrow> bool" where
  "late timeout t (ManualWatchdog now) = (\<not> fle (fsub now t) timeout)" | "late timeout t e = False"

definition manual_stops :: "cmd_vel_msg list \<Rightarrow> nat" where
  "manual_stops ms = length (filter (\<lambda>m. cv_source m = src_manual) ms)"

lemma manual_stops_simps [simp]:
  "manual_stops [] = 0" "manual_stops (xs @ ys) = manual_stops xs + manual_stops ys"
  by (simp_all add: manual_stops_def)

lemmas msg_defs = stop_msg_def command_msg_def src_safety_def src_manual_def src_auto_def

lemma quiet_event_step:
  assumes "ab_manual a" "ab_stamp a = Some t" "no_manual e" "arbiter_step S a e = (b, ms)"
  shows "ab_manual b \<and> ab_stamp b = Some t \<and> ab_manual_timeout b = ab_manual_timeout a \<and>
    ab_stop_sent b = (ab_stop_sent a \<or> late (ab_manual_timeout a) t e) \<and>
    manual_stops ms = (if late (ab_manual_timeout a) t e \<and> \<not> ab_stop_sent a then 1 else 0)"
  using assms by (cases e) (auto simp: arbiter_defs manual_stops_def automatic_output_def msg_defs split: if_splits)

lemma quiet_run:
  "ab_manual a \<Longrightarrow> ab_stamp a = Some t \<Longrightarrow> list_all no_manual es \<Longrightarrow> run (arbiter_step S) a es = (b, ms) \<Longrightarrow>
     manual_stops ms = (if list_ex (late (ab_manual_timeout a) t) es \<and> \<not> ab_stop_sent a then 1 else 0)"
proof (induction es arbitrary: a ms)
  case (Cons e es)
  obtain a1 ms1 where st: "arbiter_step S a e = (a1, ms1)" by fastforce
  obtain ms2 where r: "run (arbiter_step S) a1 es = (b, ms2)" "ms = ms1 @ ms2"
    using Cons.prems(4) st by (auto simp: Let_def split: prod.splits)
  note q = quiet_event_step [OF Cons.prems(1,2) _ st]
  have "no_manual e" "list_all no_manual es" using Cons.prems(3) by simp_all
  then show ?case using q Cons.IH [OF _ _ _ r(1)] r(2) by (auto split: if_splits)
qed simp

subsection \<open>Properties\<close>

text \<open>
  C36. The arbiter implements its specification over the history of events: a velocity of the
  navigation stack is forwarded exactly when automatic motion is permitted (no manual mode, no
  path-health stop, no collision stop and, when required, a scan whose age is within the timeout), it is
  ignored in manual mode, and otherwise a stop is published in its place, with full brake when the scan
  is recent and a maneuver holds the vehicle.
\<close>

theorem automatic_command_specified:
  "snd (arbiter_step S (fst (run (arbiter_step S) (new_arbiter d mt timeout required) h)) (SafeVelocity tw now)) =
     (if last_mode h then []
      else if permitted S d timeout required h now then [command_msg (fst tw) (snd tw) 0 src_auto]
      else [stop_msg src_safety
        (if scan_ok timeout required h now \<and> fst (last_health h) = path_stop_and_wait
         then health_brake (snd (last_health h)) else 0)])"
proof -
  define a where "a = fst (run (arbiter_step S) (new_arbiter d mt timeout required) h)"
  have ag: "agrees d mt timeout required h a" unfolding a_def by (rule agrees_run)
  then have hl: "fst (last_health h) = ab_health a" "snd (last_health h) = ab_health_reason a"
    by (auto simp: agrees_def dest: sym)
  show ?thesis unfolding a_def [symmetric] using ag hl
    by (auto simp: agrees_def permitted_def scan_ok_def automatic_output_def scan_is_fresh_def split: option.splits)
qed

text \<open>
  The manual watchdog stops the vehicle once: after a manual command was taken at time \<open>t\<close>, and as
  long as no other manual command and no mode change arrives, the events that follow publish exactly one
  manual stop if some turn of the watchdog finds the command older than the timeout, and none otherwise.
\<close>

lemma manual_watchdog_stops_once:
  assumes "ab_manual a" "list_all no_manual events"
    "run (arbiter_step S) (fst (arbiter_step S a (Teleop msg t))) events = (b, ms)"
  shows "manual_stops ms = (if list_ex (late (ab_manual_timeout a) t) events then 1 else 0)"
  using assms quiet_run [of "fst (arbiter_step S a (Teleop msg t))" t events S b ms] by (simp add: accept_manual_def Let_def)

subsection \<open>Witnesses\<close>

definition sample_arbiter :: arbiter where
  "sample_arbiter = (new_arbiter 0 (Fin 1) (Fin 1) True) \<lparr> ab_manual := True \<rparr>"

lemma manual_watchdog_stops_once_witness:
  "manual_stops (snd (run (arbiter_step 1) (fst (arbiter_step 1 sample_arbiter (Teleop (stop_msg 0 0) (Fin 0))))
     [ManualWatchdog (Fin 1), Monitor 2 [], ManualWatchdog (Fin 2), ManualWatchdog (Fin 3)])) = 1"
proof -
  let ?es = "[ManualWatchdog (Fin 1), Monitor 2 [], ManualWatchdog (Fin 2), ManualWatchdog (Fin 3)]"
  have late: "list_ex (late (ab_manual_timeout sample_arbiter) (Fin 0)) ?es" "ab_manual sample_arbiter" "list_all no_manual ?es"
    by (simp_all add: sample_arbiter_def new_arbiter_def tenth_eq pymax_def fsub_def)
  obtain b ms where r: "run (arbiter_step 1) (fst (arbiter_step 1 sample_arbiter (Teleop (stop_msg 0 0) (Fin 0)))) ?es = (b, ms)"
    by fastforce
  from manual_watchdog_stops_once [OF late(2,3) r] late(1) r show ?thesis by simp
qed

end
