(* ===== verification/Handlers.thy ===== *)
theory Handlers
  imports Prelude
begin

section \<open>Handlers that change a state and may raise\<close>

text \<open>
  A callback of a node changes the state of the node and publishes; an exception leaves the changes made so
  far. An action maps a state to the state it leaves, with its result or the exception. The weakest
  precondition \<open>wp\<close> of an action for a condition on the result and a condition on the state that an
  exception leaves is computed by simplification with \<open>wp_simps\<close>.
\<close>

type_synonym ('s, 'f, 'a) action = "'s \<Rightarrow> 's \<times> ('f + 'a)"

definition ret :: "'a \<Rightarrow> ('s, 'f, 'a) action" where
  "ret x s = (s, Inr x)"

definition throw :: "'f \<Rightarrow> ('s, 'f, 'a) action" where
  "throw f s = (s, Inl f)"

definition gets :: "('s \<Rightarrow> 'a) \<Rightarrow> ('s, 'f, 'a) action" where
  "gets g s = (s, Inr (g s))"

definition modify :: "('s \<Rightarrow> 's) \<Rightarrow> ('s, 'f, unit) action" where
  "modify g s = (g s, Inr ())"

definition after :: "('s, 'f, 'a) action \<Rightarrow> ('a \<Rightarrow> ('s, 'f, 'b) action) \<Rightarrow> ('s, 'f, 'b) action" where
  "after m k s = (case m s of (s1, Inl f) \<Rightarrow> (s1, Inl f) | (s1, Inr x) \<Rightarrow> k x s1)"

text \<open>A sequence of actions without results.\<close>

primrec sequence :: "('s, 'f, unit) action list \<Rightarrow> ('s, 'f, unit) action" where
  "sequence [] = ret ()"
| "sequence (m # ms) = after m (\<lambda>_. sequence ms)"

definition act_if :: "bool \<Rightarrow> ('s, 'f, unit) action \<Rightarrow> ('s, 'f, unit) action" where
  "act_if b m = (if b then m else ret ())"

text \<open>The value of an option, or an exception.\<close>

definition require :: "'f \<Rightarrow> 'a option \<Rightarrow> ('s, 'f, 'a) action" where
  "require f x = (case x of None \<Rightarrow> throw f | Some y \<Rightarrow> ret y)"

subsection \<open>Weakest preconditions\<close>

definition wp :: "('s, 'f, 'a) action \<Rightarrow> ('a \<Rightarrow> 's \<Rightarrow> bool) \<Rightarrow> ('s \<Rightarrow> bool) \<Rightarrow> 's \<Rightarrow> bool" where
  "wp m Q E s = (case m s of (s1, Inl f) \<Rightarrow> E s1 | (s1, Inr x) \<Rightarrow> Q x s1)"

named_theorems wp_simps

lemma wp_ret [wp_simps]: "wp (ret x) Q E s = Q x s" by (simp add: wp_def ret_def)
lemma wp_throw [wp_simps]: "wp (throw f) Q E s = E s" by (simp add: wp_def throw_def)
lemma wp_gets [wp_simps]: "wp (gets g) Q E s = Q (g s) s" by (simp add: wp_def gets_def)
lemma wp_modify [wp_simps]: "wp (modify g) Q E s = Q () (g s)" by (simp add: wp_def modify_def)

lemma wp_after [wp_simps]: "wp (after m k) Q E s = wp m (\<lambda>x. wp (k x) Q E) E s"
  by (auto simp: wp_def after_def split: prod.splits sum.splits)

lemma wp_sequence_Nil [wp_simps]: "wp (sequence []) Q E s = Q () s" by (simp add: wp_ret)

lemma wp_sequence_Cons [wp_simps]: "wp (sequence (m # ms)) Q E s = wp m (\<lambda>_. wp (sequence ms) Q E) E s"
  by (simp add: wp_after)

lemma wp_if [wp_simps]: "wp (if b then m else n) Q E s = (if b then wp m Q E s else wp n Q E s)" by simp

lemma wp_act_if [wp_simps]: "wp (act_if b m) Q E s = (if b then wp m Q E s else Q () s)"
  by (simp add: act_if_def wp_ret)

lemma wp_option [wp_simps]:
  "wp (case x of None \<Rightarrow> m | Some y \<Rightarrow> n y) Q E s = (case x of None \<Rightarrow> wp m Q E s | Some y \<Rightarrow> wp (n y) Q E s)"
  by (cases x) simp_all

lemma wp_sum [wp_simps]:
  "wp (case x of Inl e \<Rightarrow> m e | Inr y \<Rightarrow> n y) Q E s = (case x of Inl e \<Rightarrow> wp (m e) Q E s | Inr y \<Rightarrow> wp (n y) Q E s)"
  by (cases x) simp_all

lemma wp_prod [wp_simps]: "wp (case x of (a, b) \<Rightarrow> m a b) Q E s = (case x of (a, b) \<Rightarrow> wp (m a b) Q E s)"
  by (cases x) simp_all

lemma wp_require [wp_simps]: "wp (require f x) Q E s = (case x of None \<Rightarrow> E s | Some y \<Rightarrow> Q y s)"
  by (cases x) (simp_all add: require_def wp_throw wp_ret)

lemma wp_mono: "wp m Q E s \<Longrightarrow> (\<And>x t. Q x t \<Longrightarrow> Q' x t) \<Longrightarrow> (\<And>t. E t \<Longrightarrow> E' t) \<Longrightarrow> wp m Q' E' s"
  by (auto simp: wp_def split: prod.splits sum.splits)

lemma wp_conj: "wp m Q E s \<Longrightarrow> wp m Q' E' s \<Longrightarrow> wp m (\<lambda>x t. Q x t \<and> Q' x t) (\<lambda>t. E t \<and> E' t) s"
  by (auto simp: wp_def split: prod.splits sum.splits)

lemma wp_state: "wp m (\<lambda>_. P) P s = P (fst (m s))"
  by (auto simp: wp_def split: prod.splits sum.splits)

text \<open>What a handler keeps, whether or not it raises.\<close>

definition keeps :: "('s \<Rightarrow> bool) \<Rightarrow> ('s, 'f, 'a) action \<Rightarrow> bool" where
  "keeps P m \<longleftrightarrow> (\<forall>s. P s \<longrightarrow> P (fst (m s)))"

lemma keepsI: "(\<And>s. P s \<Longrightarrow> wp m (\<lambda>_. P) P s) \<Longrightarrow> keeps P m"
  by (simp add: keeps_def wp_state)

lemma keepsD: "keeps P m \<Longrightarrow> P s \<Longrightarrow> wp m (\<lambda>_. P) P s"
  by (simp add: keeps_def wp_state)

end
