(* ===== verification/Web_Protocol.thy ===== *)
theory Web_Protocol
  imports Prelude
begin

section \<open>The Cockpit request protocol\<close>

text \<open>
  \<open>salus_web/protocol.py\<close>: parsing and validation of the operator's requests. The JSON text itself is
  decoded by the library; the model starts at the decoded value. A request is refused with a
  \<open>ProtocolError\<close>, and the exceptions the code does not turn into one are values of their own.
\<close>

datatype jval =
    JNull | JBool bool | JInt int | JFloat pyfloat | JStr string | JList "jval list" | JObj "(string \<times> jval) list"

type_synonym jobject = "string \<rightharpoonup> jval"

subsection \<open>Numbers and strings of the language\<close>

definition digit :: "char \<Rightarrow> bool" where
  "digit c = (let n = (of_char c :: nat) in 48 \<le> n \<and> n \<le> 57)"

definition digit_value :: "char \<Rightarrow> int" where
  "digit_value c = (of_char c :: int) - 48"

definition decimal :: "string \<Rightarrow> int" where
  "decimal ds = foldl (\<lambda>n c. n * 10 + digit_value c) 0 ds"

text \<open>Underscores of a numeric literal: only between digits.\<close>

fun drop_underscores :: "char option \<Rightarrow> string \<Rightarrow> string option" where
  "drop_underscores prev [] = (if prev = Some (CHR ''_'') then None else Some [])"
| "drop_underscores prev (c # cs) =
     (if c = CHR ''_''
      then (case prev of None \<Rightarrow> None | Some p \<Rightarrow> if digit p then drop_underscores (Some c) cs else None)
      else if prev = Some (CHR ''_'') \<and> \<not> digit c then None
      else map_option ((#) c) (drop_underscores (Some c) cs))"

definition split_sign :: "string \<Rightarrow> bool \<times> string" where
  "split_sign s =
     (case s of c # cs \<Rightarrow> if c = CHR ''-'' then (True, cs) else if c = CHR ''+'' then (False, cs) else (False, s)
      | [] \<Rightarrow> (False, []))"

definition parse_exponent :: "string \<Rightarrow> int option" where
  "parse_exponent s =
     (case s of [] \<Rightarrow> Some 0
      | c # cs \<Rightarrow>
          if c \<in> {CHR ''e'', CHR ''E''}
          then (let (neg, ds) = split_sign cs in
                if ds \<noteq> [] \<and> list_all digit ds then Some (if neg then - decimal ds else decimal ds) else None)
          else None)"

definition ten_power :: "int \<Rightarrow> rat" where
  "ten_power k = (if 0 \<le> k then 10 ^ nat k else 1 / 10 ^ nat (- k))"

text \<open>\<open>float(s)\<close> of a string; \<open>None\<close> is its \<open>ValueError\<close>.\<close>

definition py_float_of_string :: "string \<Rightarrow> pyfloat option" where
  "py_float_of_string s =
     (case drop_underscores None (py_strip s) of None \<Rightarrow> None
      | Some t \<Rightarrow>
          (let (neg, r) = split_sign t; low = py_lower r in
           if low \<in> {''inf'', ''infinity''} then Some (if neg then NInf else PInf)
           else if low = ''nan'' then Some NaN
           else
             (let ip = takeWhile digit r; r1 = dropWhile digit r;
                  (fp, r2) = (case r1 of c # q \<Rightarrow> if c = CHR ''.'' then (takeWhile digit q, dropWhile digit q) else ([], r1)
                              | [] \<Rightarrow> ([], []))
              in if ip = [] \<and> fp = [] then None
                 else case parse_exponent r2 of None \<Rightarrow> None
                 | Some e \<Rightarrow>
                     (let q = rat_of_int (decimal (ip @ fp)) * ten_power (e - int (length fp))
                      in Some (fl (if neg then - q else q))))))"

fun nat_digits :: "nat \<Rightarrow> string" where
  "nat_digits n = (if n < 10 then [char_of (48 + n)] else nat_digits (n div 10) @ [char_of (48 + n mod 10)])"

declare nat_digits.simps [simp del]

definition str_of_int :: "int \<Rightarrow> string" where
  "str_of_int n = (if n < 0 then CHR ''-'' # nat_digits (nat (- n)) else nat_digits (nat n))"

subsection \<open>Requests\<close>

record protocol_error =
  pe_code :: string
  pe_message :: string
  pe_request :: string
  pe_id :: "string option"

datatype py_exception = OverflowError | TypeError

datatype web_error = Refused protocol_error | Raised py_exception

record request =
  rq_op :: string
  rq_id :: "string option"
  rq_fields :: jobject

definition id_aliases :: "string list" where
  "id_aliases = [''client_req_id'', ''requestId'', ''clientReqId'', ''request_id'']"

definition known_operations :: "string list" where
  "known_operations =
     [''list_routes'', ''get_route'', ''save_route'', ''delete_route'',
      ''recordings_status'', ''recordings_list'', ''recordings_start'', ''recordings_stop'',
      ''get_state'', ''set_control_lock'', ''control_heartbeat'', ''set_zones_geojson'',
      ''load_zones_file'', ''save_waypoints_file'', ''load_waypoints_file'', ''set_goal_ll'',
      ''cancel_goal'', ''brake'', ''set_route_ll'', ''cancel_route'', ''set_patrol_ll'',
      ''cancel_patrol'', ''request_return_home'', ''set_navigation_profile'',
      ''set_manual_mode'', ''set_manual_cmd'', ''get_nav_snapshot'', ''set_sensor_info_view'',
      ''camera_pan'', ''camera_zoom_toggle'', ''get_camera_status'', ''camera_ptz_move'',
      ''camera_ptz_preset'', ''camera_ptz_set_preset'', ''get_camera_ptz_state'']"

definition datum_mutations :: "string list" where
  "datum_mutations =
     [''set_datum'', ''save_datum'', ''delete_datum'', ''select_datum'', ''capture_current_gps_datum'']"

definition refuse :: "string \<Rightarrow> string \<Rightarrow> request \<Rightarrow> web_error" where
  "refuse code message r =
     Refused \<lparr> pe_code = code, pe_message = message, pe_request = rq_op r, pe_id = rq_id r \<rparr>"

definition invalid_request :: "string \<Rightarrow> protocol_error" where
  "invalid_request message =
     \<lparr> pe_code = ''invalid_request'', pe_message = message, pe_request = ''invalid_request'', pe_id = None \<rparr>"

fun id_text :: "jval \<Rightarrow> string option" where
  "id_text (JStr s) = Some s"
| "id_text (JInt n) = Some (str_of_int n)"
| "id_text (JBool b) = Some (if b then ''True'' else ''False'')"
| "id_text v = None"

definition supplied_ids :: "jobject \<Rightarrow> jval list" where
  "supplied_ids v = filter (\<lambda>x. x \<noteq> JNull) (List.map_filter v id_aliases)"

definition request_id :: "jobject \<Rightarrow> string \<Rightarrow> protocol_error + string option" where
  "request_id v op =
     (let supplied = supplied_ids v; texts = List.map_filter id_text supplied in
      if supplied = [] then Inr None
      else if length texts < length supplied
      then Inl ((invalid_request ''request id must be a string or integer'') \<lparr> pe_request := op \<rparr>)
      else if length (remdups texts) \<noteq> 1
      then Inl ((invalid_request ''request id aliases disagree'') \<lparr> pe_request := op \<rparr>)
      else Inr (Some (hd texts)))"

definition parse_request :: "jval \<Rightarrow> protocol_error + request" where
  "parse_request raw =
     (case raw of
        JObj kvs \<Rightarrow>
          (let v = map_of kvs in
           case v ''op'' of
             Some (JStr op0) \<Rightarrow>
               (let op = py_strip op0 in
                if op = [] then Inl (invalid_request ''request op must be a non-empty string'')
                else
                  bind_res (request_id v op) (\<lambda>rid.
                  bind_res (case v ''payload'' of
                      None \<Rightarrow> Inr Map.empty | Some JNull \<Rightarrow> Inr Map.empty | Some (JObj p) \<Rightarrow> Inr (map_of p)
                    | Some _ \<Rightarrow> Inl \<lparr> pe_code = ''invalid_request'', pe_message = ''payload must be an object'',
                        pe_request = op, pe_id = rid \<rparr>) (\<lambda>payload.
                    Inr \<lparr> rq_op = op, rq_id = rid,
                      rq_fields = payload ++ (v |` (- set (''op'' # ''payload'' # id_aliases))) \<rparr>)))
           | _ \<Rightarrow> Inl (invalid_request ''request op must be a non-empty string''))
      | _ \<Rightarrow> Inl (invalid_request ''request must be a JSON object''))"

subsection \<open>Validation\<close>

text \<open>\<open>float(value)\<close> of a field, NaN where the code turns \<open>TypeError\<close> and \<open>ValueError\<close> into NaN.\<close>

fun number_of :: "jval \<Rightarrow> py_exception + pyfloat" where
  "number_of (JInt n) = (case float_of_int n of None \<Rightarrow> Inl OverflowError | Some x \<Rightarrow> Inr x)"
| "number_of (JFloat x) = Inr x"
| "number_of (JStr s) = (case py_float_of_string s of None \<Rightarrow> Inr NaN | Some x \<Rightarrow> Inr x)"
| "number_of v = Inr NaN"

definition finite_number :: "request \<Rightarrow> string \<Rightarrow> jval \<Rightarrow> web_error + pyfloat" where
  "finite_number r key dflt =
     (case number_of (case rq_fields r key of None \<Rightarrow> dflt | Some v \<Rightarrow> v) of
        Inl e \<Rightarrow> Inl (Raised e)
      | Inr x \<Rightarrow> if isfinite x then Inr x else Inl (refuse ''invalid_request'' (key @ '' must be finite'') r))"

definition require_bool :: "request \<Rightarrow> string \<Rightarrow> web_error + bool" where
  "require_bool r key =
     (case rq_fields r key of Some (JBool b) \<Rightarrow> Inr b
      | _ \<Rightarrow> Inl (refuse ''invalid_request'' (key @ '' must be boolean'') r))"

definition set_number :: "string \<Rightarrow> request \<Rightarrow> web_error + request" where
  "set_number key r =
     bind_res (finite_number r key JNull) (\<lambda>x. Inr (r \<lparr> rq_fields := (rq_fields r)(key \<mapsto> JFloat x) \<rparr>))"

definition set_number_if_present :: "string \<Rightarrow> request \<Rightarrow> web_error + request" where
  "set_number_if_present key r = (if rq_fields r key = None then Inr r else set_number key r)"

definition ptz_axes :: "string list" where
  "ptz_axes = [''pan_deg'', ''tilt_deg'', ''zoom_level'']"

definition validate_manual_cmd :: "request \<Rightarrow> web_error + request" where
  "validate_manual_cmd r =
     bind_res (set_number ''linear_x'' r) (\<lambda>r1.
     bind_res (set_number ''angular_z'' r1) (\<lambda>r2.
     bind_res (finite_number r2 ''brake_pct'' (JFloat fzero)) (\<lambda>brake.
       Inr (r2 \<lparr> rq_fields := (rq_fields r2)(''brake_pct'' \<mapsto> JFloat (pymax fzero (pymin (Fin 100) brake))) \<rparr>))))"

text \<open>\<open>profile not in {...}\<close> hashes the value: a list or an object raises \<open>TypeError\<close>.\<close>

definition validate_profile :: "request \<Rightarrow> web_error + request" where
  "validate_profile r =
     (case rq_fields r ''profile'' of
        Some (JList l) \<Rightarrow> Inl (Raised TypeError)
      | Some (JObj l) \<Rightarrow> Inl (Raised TypeError)
      | Some (JStr p) \<Rightarrow>
          if p \<in> {''urban'', ''rural''} then Inr r
          else Inl (refuse ''invalid_request'' ''profile must be urban or rural'' r)
      | _ \<Rightarrow> Inl (refuse ''invalid_request'' ''profile must be urban or rural'' r))"

definition validate_sensor_view :: "request \<Rightarrow> web_error + request" where
  "validate_sensor_view r =
     bind_res (require_bool r ''enabled'') (\<lambda>_.
     bind_res (if rq_fields r ''interval_s'' \<in> {None, Some JNull} then Inr r else set_number ''interval_s'' r) (\<lambda>r1.
     case rq_fields r1 ''tab'' of None \<Rightarrow> Inr r1 | Some JNull \<Rightarrow> Inr r1 | Some (JStr t) \<Rightarrow> Inr r1
     | Some _ \<Rightarrow> Inl (refuse ''invalid_request'' ''tab must be a string'' r)))"

definition validate_ptz_move :: "request \<Rightarrow> web_error + request" where
  "validate_ptz_move r =
     bind_res (require_bool r ''relative'') (\<lambda>_.
     bind_res (set_number_if_present ''pan_deg'' r) (\<lambda>r1.
     bind_res (set_number_if_present ''tilt_deg'' r1) (\<lambda>r2.
     bind_res (set_number_if_present ''zoom_level'' r2) (\<lambda>r3.
       if list_all (\<lambda>key. rq_fields r3 key = None) ptz_axes
       then Inl (refuse ''invalid_request'' ''camera PTZ move needs one axis'' r) else Inr r3))))"

definition validate_preset :: "request \<Rightarrow> web_error + request" where
  "validate_preset r =
     bind_res (case rq_fields r ''preset'' of
         Some (JStr p) \<Rightarrow>
           if py_strip p = [] then Inl (refuse ''invalid_request'' ''preset is required'' r)
           else Inr (r \<lparr> rq_fields := (rq_fields r)(''preset'' \<mapsto> JStr (py_strip p)) \<rparr>)
       | _ \<Rightarrow> Inl (refuse ''invalid_request'' ''preset is required'' r)) (\<lambda>r1.
       if rq_op r = ''camera_ptz_set_preset'' then bind_res (require_bool r1 ''save_zoom'') (\<lambda>_. Inr r1) else Inr r1)"

definition validate_request :: "request \<Rightarrow> web_error + request" where
  "validate_request r =
     (let op = rq_op r in
      if op \<in> set datum_mutations
      then Inl (refuse ''UNSUPPORTED_FIXED_DATUM'' ''datum mutation is unavailable while SALUS uses a fixed datum'' r)
      else if op \<notin> set known_operations then Inl (refuse ''unknown_op'' ''unsupported operation'' r)
      else if op = ''set_control_lock'' then bind_res (require_bool r ''locked'') (\<lambda>_. Inr r)
      else if op = ''set_manual_mode'' then bind_res (require_bool r ''enabled'') (\<lambda>_. Inr r)
      else if op = ''set_manual_cmd'' then validate_manual_cmd r
      else if op = ''set_navigation_profile'' then validate_profile r
      else if op = ''set_sensor_info_view'' then validate_sensor_view r
      else if op = ''camera_pan'' then set_number ''angle'' r
      else if op = ''camera_ptz_move'' then validate_ptz_move r
      else if op \<in> {''camera_ptz_preset'', ''camera_ptz_set_preset''} then validate_preset r
      else Inr r)"

definition controlled_operations :: "string list" where
  "controlled_operations =
     [''recordings_start'', ''recordings_stop'', ''set_goal_ll'', ''set_route_ll'', ''set_patrol_ll'',
      ''set_navigation_profile'', ''request_return_home'', ''set_manual_cmd'', ''camera_pan'',
      ''camera_zoom_toggle'', ''camera_ptz_move'', ''camera_ptz_preset'', ''camera_ptz_set_preset'']"

definition is_controlled :: "request \<Rightarrow> bool" where
  "is_controlled r \<longleftrightarrow> rq_op r \<in> set controlled_operations \<or>
     rq_op r = ''set_manual_mode'' \<and> rq_fields r ''enabled'' = Some (JBool True)"

text \<open>The whole front end: decoded value to validated request.\<close>

definition accept_request :: "jval \<Rightarrow> web_error + request" where
  "accept_request raw =
     (case parse_request raw of Inl e \<Rightarrow> Inl (Refused e) | Inr r \<Rightarrow> validate_request r)"

subsection \<open>Lemmas\<close>

text \<open>A field that holds a finite float is what validation leaves, and what it accepts unchanged.\<close>

definition has_number :: "request \<Rightarrow> string \<Rightarrow> bool" where
  "has_number r key \<longleftrightarrow> (case rq_fields r key of Some (JFloat x) \<Rightarrow> isfinite x | _ \<Rightarrow> False)"

lemma has_numberE: "has_number r key \<Longrightarrow> \<exists>x. rq_fields r key = Some (JFloat x) \<and> isfinite x"
  by (auto simp: has_number_def split: option.splits jval.splits)

lemma finite_number_Inr: "finite_number r key d = Inr x \<Longrightarrow> isfinite x"
  by (auto simp: finite_number_def split: sum.splits if_splits)

lemma set_number_Inr:
  "set_number key r = Inr q \<longleftrightarrow> (\<exists>x. finite_number r key JNull = Inr x \<and>
     q = r \<lparr> rq_fields := (rq_fields r)(key \<mapsto> JFloat x) \<rparr>)"
  by (auto simp: set_number_def bind_res_eq_Inr)

lemma has_number_same: "rq_fields r key = Some (JFloat x) \<Longrightarrow> has_number r key = isfinite x"
  by (simp add: has_number_def)

lemma finite_number_same:
  "rq_fields r key = Some (JFloat x) \<Longrightarrow> isfinite x \<Longrightarrow> finite_number r key d = Inr x"
  by (simp add: finite_number_def)

lemma set_number_same: "has_number r key \<Longrightarrow> set_number key r = Inr r"
  by (auto dest!: has_numberE simp: set_number_def finite_number_same fun_upd_idem)

lemma set_number_has: "set_number key r = Inr q \<Longrightarrow> has_number q key"
  by (auto simp: set_number_Inr has_number_def dest: finite_number_Inr)

lemma set_number_other: "set_number key r = Inr q \<Longrightarrow> k \<noteq> key \<Longrightarrow> rq_fields q k = rq_fields r k"
  by (auto simp: set_number_Inr)

lemma set_number_op: "set_number key r = Inr q \<Longrightarrow> rq_op q = rq_op r \<and> rq_id q = rq_id r"
  by (auto simp: set_number_Inr)

definition number_or_absent :: "request \<Rightarrow> string \<Rightarrow> bool" where
  "number_or_absent r key \<longleftrightarrow> rq_fields r key = None \<or> has_number r key"

lemma set_if_same: "number_or_absent r key \<Longrightarrow> set_number_if_present key r = Inr r"
  by (auto simp: number_or_absent_def set_number_if_present_def set_number_same)

lemma set_if_has: "set_number_if_present key r = Inr q \<Longrightarrow> number_or_absent q key"
  by (auto simp: number_or_absent_def set_number_if_present_def set_number_has split: if_splits)

lemma set_if_other: "set_number_if_present key r = Inr q \<Longrightarrow> k \<noteq> key \<Longrightarrow> rq_fields q k = rq_fields r k"
  by (auto simp: set_number_if_present_def set_number_other split: if_splits)

lemma set_if_op: "set_number_if_present key r = Inr q \<Longrightarrow> rq_op q = rq_op r \<and> rq_id q = rq_id r"
  by (auto simp: set_number_if_present_def dest: set_number_op split: if_splits)

lemma number_or_absent_cong: "rq_fields q k = rq_fields r k \<Longrightarrow> number_or_absent q k = number_or_absent r k"
  by (simp add: number_or_absent_def has_number_def)

lemma has_number_cong: "rq_fields q k = rq_fields r k \<Longrightarrow> has_number q k = has_number r k"
  by (simp add: has_number_def)

lemmas set_facts = set_number_op set_number_other set_number_has set_if_op set_if_other set_if_has

lemma brake_clamp_bounds:
  "isfinite b \<Longrightarrow> fle fzero (pymax fzero (pymin (Fin 100) b)) \<and> fle (pymax fzero (pymin (Fin 100) b)) (Fin 100) \<and>
     isfinite (pymax fzero (pymin (Fin 100) b))"
  by (cases b) (auto simp: pymax_def pymin_def fle_def)

lemma brake_clamp_idem:
  "isfinite b \<Longrightarrow> pymax fzero (pymin (Fin 100) (pymax fzero (pymin (Fin 100) b))) = pymax fzero (pymin (Fin 100) b)"
  by (cases b) (auto simp: pymax_def pymin_def)

text \<open>What each operation's validation establishes, and that it then changes nothing.\<close>

definition manual_ok :: "request \<Rightarrow> bool" where
  "manual_ok r \<longleftrightarrow> has_number r ''linear_x'' \<and> has_number r ''angular_z'' \<and>
     (\<exists>b. rq_fields r ''brake_pct'' = Some (JFloat b) \<and> isfinite b \<and> fle fzero b \<and> fle b (Fin 100))"

lemma manual_valid:
  assumes "validate_manual_cmd r = Inr q"
  shows "manual_ok q \<and> rq_op q = rq_op r \<and> rq_id q = rq_id r"
proof -
  obtain r1 r2 b where s: "set_number ''linear_x'' r = Inr r1" "set_number ''angular_z'' r1 = Inr r2"
      "finite_number r2 ''brake_pct'' (JFloat fzero) = Inr b"
    and q: "q = r2 \<lparr> rq_fields := (rq_fields r2)(''brake_pct'' \<mapsto> JFloat (pymax fzero (pymin (Fin 100) b))) \<rparr>"
    using assms by (auto simp: validate_manual_cmd_def bind_res_eq_Inr)
  have "has_number r2 ''linear_x''" using has_number_cong [of r2 "''linear_x''" r1] s set_number_other [OF s(2)] set_number_has [OF s(1)]
    by simp
  then show ?thesis
    using set_number_has [OF s(2)] set_number_op [OF s(1)] set_number_op [OF s(2)] brake_clamp_bounds finite_number_Inr [OF s(3)]
    by (auto simp: manual_ok_def q has_number_def)
qed

lemma clamp_in_range: "isfinite b \<Longrightarrow> fle fzero b \<Longrightarrow> fle b (Fin 100) \<Longrightarrow> pymax fzero (pymin (Fin 100) b) = b"
  by (cases b) (auto simp: pymax_def pymin_def fle_def)

lemma manual_fixed: "manual_ok r \<Longrightarrow> validate_manual_cmd r = Inr r"
  by (auto simp: manual_ok_def validate_manual_cmd_def set_number_same finite_number_same clamp_in_range fun_upd_idem)

definition ptz_ok :: "request \<Rightarrow> bool" where
  "ptz_ok r \<longleftrightarrow> (\<exists>b. rq_fields r ''relative'' = Some (JBool b)) \<and> list_all (number_or_absent r) ptz_axes \<and>
     list_ex (\<lambda>key. rq_fields r key \<noteq> None) ptz_axes"

lemma require_bool_Inr: "require_bool r key = Inr b \<longleftrightarrow> rq_fields r key = Some (JBool b)"
  by (auto simp: require_bool_def split: option.splits jval.splits)

lemma ptz_valid:
  assumes "validate_ptz_move r = Inr q"
  shows "ptz_ok q \<and> rq_op q = rq_op r \<and> rq_id q = rq_id r"
proof -
  obtain b r1 r2 where s: "rq_fields r ''relative'' = Some (JBool b)" "set_number_if_present ''pan_deg'' r = Inr r1"
      "set_number_if_present ''tilt_deg'' r1 = Inr r2" "set_number_if_present ''zoom_level'' r2 = Inr q"
    and ax: "\<not> list_all (\<lambda>key. rq_fields q key = None) ptz_axes"
    using assms by (auto simp: validate_ptz_move_def bind_res_eq_Inr require_bool_Inr split: if_splits)
  note o = set_if_other [OF s(2)] set_if_other [OF s(3)] set_if_other [OF s(4)]
  have "number_or_absent q ''pan_deg''" "number_or_absent q ''tilt_deg''"
    using number_or_absent_cong [of q "''pan_deg''" r1] number_or_absent_cong [of q "''tilt_deg''" r2]
      set_if_has [OF s(2)] set_if_has [OF s(3)] o by simp_all
  then show ?thesis using set_if_has [OF s(4)] s(1) ax o set_if_op [OF s(2)] set_if_op [OF s(3)] set_if_op [OF s(4)]
    by (auto simp: ptz_ok_def ptz_axes_def)
qed

lemma ptz_fixed: "ptz_ok r \<Longrightarrow> validate_ptz_move r = Inr r"
  by (auto simp: ptz_ok_def validate_ptz_move_def ptz_axes_def set_if_same require_bool_Inr bind_res_eq_Inr)

definition sensor_ok :: "request \<Rightarrow> bool" where
  "sensor_ok r \<longleftrightarrow> (\<exists>b. rq_fields r ''enabled'' = Some (JBool b)) \<and>
     (rq_fields r ''interval_s'' \<in> {None, Some JNull} \<or> has_number r ''interval_s'') \<and>
     (rq_fields r ''tab'' \<in> {None, Some JNull} \<or> (\<exists>t. rq_fields r ''tab'' = Some (JStr t)))"

lemma sensor_interval:
  "(if rq_fields r ''interval_s'' \<in> {None, Some JNull} then Inr r else set_number ''interval_s'' r) = Inr q \<Longrightarrow>
     (rq_fields q ''interval_s'' \<in> {None, Some JNull} \<or> has_number q ''interval_s'') \<and>
     rq_fields q ''enabled'' = rq_fields r ''enabled'' \<and> rq_op q = rq_op r \<and> rq_id q = rq_id r"
  using set_number_other [of "''interval_s''" r q "''enabled''"]
  by (auto split: if_splits dest: set_number_has set_number_op)

lemma sensor_valid:
  assumes "validate_sensor_view r = Inr q"
  shows "sensor_ok q \<and> rq_op q = rq_op r \<and> rq_id q = rq_id r"
proof -
  obtain b where b: "rq_fields r ''enabled'' = Some (JBool b)"
    and i: "(if rq_fields r ''interval_s'' \<in> {None, Some JNull} then Inr r else set_number ''interval_s'' r) = Inr q"
    and t: "rq_fields q ''tab'' \<in> {None, Some JNull} \<or> (\<exists>t. rq_fields q ''tab'' = Some (JStr t))"
    using assms unfolding validate_sensor_view_def bind_res_eq_Inr require_bool_Inr
    by (fastforce split: option.splits jval.splits)
  show ?thesis using sensor_interval [OF i] b t by (simp add: sensor_ok_def)
qed

lemma sensor_fixed: "sensor_ok r \<Longrightarrow> validate_sensor_view r = Inr r"
proof -
  assume a: "sensor_ok r"
  then obtain b where "require_bool r ''enabled'' = Inr b" by (auto simp: sensor_ok_def require_bool_Inr)
  moreover have "(if rq_fields r ''interval_s'' \<in> {None, Some JNull} then Inr r else set_number ''interval_s'' r) = Inr r"
    using a by (auto simp: sensor_ok_def set_number_same)
  ultimately show ?thesis using a unfolding validate_sensor_view_def by (auto simp: sensor_ok_def)
qed

definition preset_ok :: "request \<Rightarrow> bool" where
  "preset_ok r \<longleftrightarrow> (\<exists>p. rq_fields r ''preset'' = Some (JStr p) \<and> p \<noteq> [] \<and> py_strip p = p) \<and>
     (rq_op r = ''camera_ptz_set_preset'' \<longrightarrow> (\<exists>b. rq_fields r ''save_zoom'' = Some (JBool b)))"

lemma preset_valid: "validate_preset r = Inr q \<Longrightarrow> preset_ok q \<and> rq_op q = rq_op r \<and> rq_id q = rq_id r"
  by (auto simp: validate_preset_def preset_ok_def bind_res_eq_Inr require_bool_Inr split: if_splits option.splits jval.splits)

lemma preset_fixed: "preset_ok r \<Longrightarrow> validate_preset r = Inr r"
proof -
  assume a: "preset_ok r"
  then obtain p where p: "rq_fields r ''preset'' = Some (JStr p)" "p \<noteq> []" "py_strip p = p" by (auto simp: preset_ok_def)
  then have u: "(rq_fields r)(''preset'' \<mapsto> JStr p) = rq_fields r" by (simp add: fun_upd_idem)
  show ?thesis
  proof (cases "rq_op r = ''camera_ptz_set_preset''")
    case True
    then obtain b where "require_bool r ''save_zoom'' = Inr b" using a by (auto simp: preset_ok_def require_bool_Inr)
    then show ?thesis using p u True by (simp add: validate_preset_def)
  next
    case False
    then show ?thesis using p u by (simp add: validate_preset_def)
  qed
qed

lemma number_valid: "set_number key r = Inr q \<Longrightarrow> set_number key q = Inr q \<and> rq_op q = rq_op r \<and> rq_id q = rq_id r"
  using set_number_same [OF set_number_has] set_number_op by blast

lemma profile_valid: "validate_profile r = Inr q \<Longrightarrow> q = r \<and> rq_fields r ''profile'' \<in> {Some (JStr ''urban''), Some (JStr ''rural'')}"
  by (auto simp: validate_profile_def split: option.splits jval.splits if_splits)

text \<open>What validation establishes for each operation.\<close>

definition fields_ok :: "request \<Rightarrow> bool" where
  "fields_ok r \<longleftrightarrow>
     (rq_op r = ''set_control_lock'' \<longrightarrow> (\<exists>b. rq_fields r ''locked'' = Some (JBool b))) \<and>
     (rq_op r = ''set_manual_mode'' \<longrightarrow> (\<exists>b. rq_fields r ''enabled'' = Some (JBool b))) \<and>
     (rq_op r = ''set_manual_cmd'' \<longrightarrow> manual_ok r) \<and>
     (rq_op r = ''set_navigation_profile'' \<longrightarrow>
        rq_fields r ''profile'' \<in> {Some (JStr ''urban''), Some (JStr ''rural'')}) \<and>
     (rq_op r = ''set_sensor_info_view'' \<longrightarrow> sensor_ok r) \<and>
     (rq_op r = ''camera_pan'' \<longrightarrow> has_number r ''angle'') \<and>
     (rq_op r = ''camera_ptz_move'' \<longrightarrow> ptz_ok r) \<and>
     (rq_op r \<in> {''camera_ptz_preset'', ''camera_ptz_set_preset''} \<longrightarrow> preset_ok r)"

definition special_operations :: "string list" where
  "special_operations = [''set_control_lock'', ''set_manual_mode'', ''set_manual_cmd'', ''set_navigation_profile'',
     ''set_sensor_info_view'', ''camera_pan'', ''camera_ptz_move'', ''camera_ptz_preset'', ''camera_ptz_set_preset'']"

lemma validate_known:
  "validate_request r = Inr q \<Longrightarrow> rq_op r \<in> set known_operations \<and> rq_op r \<notin> set datum_mutations"
  unfolding validate_request_def Let_def by (metis Inl_Inr_False)

lemma validate_op:
  "rq_op r = ''set_control_lock'' \<Longrightarrow> validate_request r = bind_res (require_bool r ''locked'') (\<lambda>_. Inr r)"
  "rq_op r = ''set_manual_mode'' \<Longrightarrow> validate_request r = bind_res (require_bool r ''enabled'') (\<lambda>_. Inr r)"
  "rq_op r = ''set_manual_cmd'' \<Longrightarrow> validate_request r = validate_manual_cmd r"
  "rq_op r = ''set_navigation_profile'' \<Longrightarrow> validate_request r = validate_profile r"
  "rq_op r = ''set_sensor_info_view'' \<Longrightarrow> validate_request r = validate_sensor_view r"
  "rq_op r = ''camera_pan'' \<Longrightarrow> validate_request r = set_number ''angle'' r"
  "rq_op r = ''camera_ptz_move'' \<Longrightarrow> validate_request r = validate_ptz_move r"
  "rq_op r = ''camera_ptz_preset'' \<Longrightarrow> validate_request r = validate_preset r"
  "rq_op r = ''camera_ptz_set_preset'' \<Longrightarrow> validate_request r = validate_preset r"
  by (simp_all add: validate_request_def known_operations_def datum_mutations_def)

lemma validate_plain:
  "rq_op r \<in> set known_operations \<Longrightarrow> rq_op r \<notin> set datum_mutations \<Longrightarrow> rq_op r \<notin> set special_operations \<Longrightarrow>
     validate_request r = Inr r"
  unfolding validate_request_def Let_def special_operations_def by (simp only: if_False if_True list.set insert_iff empty_iff simp_thms de_Morgan_disj)

lemma fields_ok_op:
  "rq_op r = ''set_control_lock'' \<Longrightarrow> fields_ok r \<longleftrightarrow> (\<exists>b. require_bool r ''locked'' = Inr b)"
  "rq_op r = ''set_manual_mode'' \<Longrightarrow> fields_ok r \<longleftrightarrow> (\<exists>b. require_bool r ''enabled'' = Inr b)"
  "rq_op r = ''set_manual_cmd'' \<Longrightarrow> fields_ok r \<longleftrightarrow> manual_ok r"
  "rq_op r = ''set_navigation_profile'' \<Longrightarrow> fields_ok r \<longleftrightarrow>
     rq_fields r ''profile'' \<in> {Some (JStr ''urban''), Some (JStr ''rural'')}"
  "rq_op r = ''set_sensor_info_view'' \<Longrightarrow> fields_ok r \<longleftrightarrow> sensor_ok r"
  "rq_op r = ''camera_pan'' \<Longrightarrow> fields_ok r \<longleftrightarrow> has_number r ''angle''"
  "rq_op r = ''camera_ptz_move'' \<Longrightarrow> fields_ok r \<longleftrightarrow> ptz_ok r"
  "rq_op r = ''camera_ptz_preset'' \<Longrightarrow> fields_ok r \<longleftrightarrow> preset_ok r"
  "rq_op r = ''camera_ptz_set_preset'' \<Longrightarrow> fields_ok r \<longleftrightarrow> preset_ok r"
  by (simp_all add: fields_ok_def require_bool_Inr)

lemma fields_ok_plain: "rq_op r \<notin> set special_operations \<Longrightarrow> fields_ok r"
  by (simp add: fields_ok_def special_operations_def)

lemma special_operation_cases:
  assumes "op \<in> set special_operations"
  obtains "op = ''set_control_lock''" | "op = ''set_manual_mode''" | "op = ''set_manual_cmd''" | "op = ''set_navigation_profile''"
    | "op = ''set_sensor_info_view''" | "op = ''camera_pan''" | "op = ''camera_ptz_move''" | "op = ''camera_ptz_preset''"
    | "op = ''camera_ptz_set_preset''"
proof -
  have "op = ''set_control_lock'' \<or> op = ''set_manual_mode'' \<or> op = ''set_manual_cmd'' \<or> op = ''set_navigation_profile'' \<or>
    op = ''set_sensor_info_view'' \<or> op = ''camera_pan'' \<or> op = ''camera_ptz_move'' \<or> op = ''camera_ptz_preset'' \<or>
    op = ''camera_ptz_set_preset''"
    using assms by (simp only: special_operations_def list.set insert_iff empty_iff simp_thms)
  then show ?thesis by (elim disjE) (erule that)+
qed

lemma validate_special_ok:
  assumes "validate_request r = Inr q" "rq_op r \<in> set special_operations"
  shows "fields_ok q \<and> rq_op q = rq_op r \<and> rq_id q = rq_id r"
  using assms(2)
proof (cases rule: special_operation_cases)
  case 1
  then show ?thesis using assms(1) by (auto simp: validate_op fields_ok_op bind_res_eq_Inr)
next
  case 2
  then show ?thesis using assms(1) by (auto simp: validate_op fields_ok_op bind_res_eq_Inr)
next
  case 3
  then show ?thesis using assms(1) manual_valid [of r q] by (simp add: validate_op fields_ok_op)
next
  case 4
  then show ?thesis using assms(1) profile_valid [of r q] by (auto simp: validate_op fields_ok_op)
next
  case 5
  then show ?thesis using assms(1) sensor_valid [of r q] by (simp add: validate_op fields_ok_op)
next
  case 6
  then show ?thesis using assms(1) set_number_has [of "''angle''" r q] set_number_op [of "''angle''" r q]
    by (simp add: validate_op fields_ok_op)
next
  case 7
  then show ?thesis using assms(1) ptz_valid [of r q] by (simp add: validate_op fields_ok_op)
next
  case 8
  then show ?thesis using assms(1) preset_valid [of r q] by (simp add: validate_op fields_ok_op)
next
  case 9
  then show ?thesis using assms(1) preset_valid [of r q] by (simp add: validate_op fields_ok_op)
qed

lemma validate_ok:
  assumes "validate_request r = Inr q"
  shows "fields_ok q \<and> rq_op q = rq_op r \<and> rq_id q = rq_id r"
proof (cases "rq_op r \<in> set special_operations")
  case False
  then have "q = r" using validate_plain [of r] validate_known [OF assms] assms by simp
  then show ?thesis using fields_ok_plain False by simp
qed (rule validate_special_ok [OF assms])

lemma validate_special_fixed:
  assumes "fields_ok r" "rq_op r \<in> set special_operations"
  shows "validate_request r = Inr r"
  using assms(2)
proof (cases rule: special_operation_cases)
  case 4
  then show ?thesis using assms(1) by (auto simp: validate_op fields_ok_op validate_profile_def)
qed (use assms(1) in \<open>auto simp: validate_op fields_ok_op manual_fixed sensor_fixed ptz_fixed preset_fixed set_number_same\<close>)

lemma validate_fixed:
  "rq_op r \<in> set known_operations \<Longrightarrow> rq_op r \<notin> set datum_mutations \<Longrightarrow> fields_ok r \<Longrightarrow> validate_request r = Inr r"
  using validate_plain validate_special_fixed by (cases "rq_op r \<in> set special_operations") auto

text \<open>The exceptions that leave \<open>validate_request\<close>.\<close>

lemma escaping_number:
  "rq_fields r key = Some (JInt n) \<Longrightarrow> float_of_int n = None \<Longrightarrow> set_number key r = Inl (Raised OverflowError)"
  by (simp add: set_number_def finite_number_def)

lemma float_of_big_int: "2 ^ 1024 \<le> n \<Longrightarrow> float_of_int n = None"
proof -
  assume "2 ^ 1024 \<le> n"
  then have "(2 ^ 1024 :: rat) \<le> of_int n" by (metis of_int_le_iff of_int_numeral of_int_power)
  then have "fle (fl (2 ^ 1024)) (fl (of_int n))" by (rule fl_mono)
  moreover have "fl (2 ^ 1024) = PInf"
  proof -
    have p: "(2 ^ 1024 :: rat) = of_int 1 * pow2 1024" by (simp add: pow2_def)
    have "rnd (2 ^ 1024) = 2 ^ 1024" unfolding p by (rule rnd_exact) simp_all
    moreover have "max_finite < 2 ^ 1024" by (simp add: max_finite_def)
    ultimately show ?thesis by (simp only: fl_def Let_def if_True)
  qed
  ultimately have "fl (of_int n) = PInf" by (cases "fl (of_int n)") (auto simp: fle_def)
  then show ?thesis by (simp add: float_of_int_def)
qed

subsection \<open>Properties\<close>

text \<open>
  A request the front end accepts is normal: it names a supported operation that does not change the
  datum, a manual command carries finite velocities and a brake within 0 and 100, and the fields of the
  other operations have the types and values their handlers rely on; validating it again changes
  nothing, and whether it needs the operator lock does not depend on the order of the two.
\<close>

lemma accepted_request_normal:
  assumes "accept_request raw = Inr r"
  shows "rq_op r \<in> set known_operations \<and> rq_op r \<notin> set datum_mutations \<and> fields_ok r \<and>
    validate_request r = Inr r \<and>
    (\<exists>r0. parse_request raw = Inr r0 \<and> rq_op r = rq_op r0 \<and> rq_id r = rq_id r0 \<and> is_controlled r = is_controlled r0)"
proof -
  obtain r0 where r0: "parse_request raw = Inr r0" "validate_request r0 = Inr r"
    using assms by (auto simp: accept_request_def split: sum.splits)
  note ok = validate_ok [OF r0(2)] and k = validate_known [OF r0(2)]
  have "rq_fields r ''enabled'' = rq_fields r0 ''enabled''" if "rq_op r0 = ''set_manual_mode''"
    using r0(2) that by (auto simp: validate_op bind_res_eq_Inr)
  then have "is_controlled r = is_controlled r0" using ok by (auto simp: is_controlled_def)
  then show ?thesis using ok k r0(1) validate_fixed [of r] by simp
qed

text \<open>
  Two kinds of well-formed JSON requests are not refused with a \<open>ProtocolError\<close> but raise out of the
  validation: a velocity, an angle or an axis given as an integer too large for a float, and a profile
  given as a list.
\<close>

lemma malformed_value_escapes:
  assumes "2 ^ 1024 \<le> n"
  shows "accept_request (JObj [(''op'', JStr ''set_manual_cmd''), (''linear_x'', JInt n)]) = Inl (Raised OverflowError) \<and>
    accept_request (JObj [(''op'', JStr ''camera_pan''), (''angle'', JInt n)]) = Inl (Raised OverflowError) \<and>
    accept_request (JObj [(''op'', JStr ''set_navigation_profile''), (''profile'', JList l)]) = Inl (Raised TypeError)"
proof -
  have o: "float_of_int n = None" by (rule float_of_big_int [OF assms])
  have strip: "py_strip ''set_manual_cmd'' = ''set_manual_cmd''" "py_strip ''camera_pan'' = ''camera_pan''"
    "py_strip ''set_navigation_profile'' = ''set_navigation_profile''" by code_simp+
  have "set_number ''linear_x'' r = Inl (Raised OverflowError)" if "rq_fields r ''linear_x'' = Some (JInt n)" for r
    by (rule escaping_number [OF that o])
  moreover have "set_number ''angle'' r = Inl (Raised OverflowError)" if "rq_fields r ''angle'' = Some (JInt n)" for r
    by (rule escaping_number [OF that o])
  ultimately show ?thesis
    by (simp add: accept_request_def parse_request_def request_id_def supplied_ids_def id_aliases_def strip List.map_filter_def
        validate_op validate_manual_cmd_def validate_profile_def restrict_map_def map_add_def Let_def)
qed

lemma accepted_request_normal_witness:
  "\<exists>r. accept_request (JObj [(''op'', JStr ''brake''), (''request_id'', JInt 7)]) = Inr r \<and> fields_ok r \<and> validate_request r = Inr r"
proof -
  have "py_strip ''brake'' = ''brake''" by code_simp
  then have "accept_request (JObj [(''op'', JStr ''brake''), (''request_id'', JInt 7)]) =
      Inr \<lparr> rq_op = ''brake'', rq_id = Some ''7'', rq_fields = Map.empty \<rparr>"
    by (simp add: accept_request_def parse_request_def request_id_def supplied_ids_def id_aliases_def List.map_filter_def
        str_of_int_def nat_digits.simps validate_request_def known_operations_def datum_mutations_def restrict_map_def map_add_def fun_eq_iff Let_def char_of_def bit_0)
  from this accepted_request_normal [OF this] show ?thesis by blast
qed

lemma malformed_value_escapes_witness:
  "accept_request (JObj [(''op'', JStr ''set_manual_cmd''), (''linear_x'', JInt (2 ^ 1024))]) = Inl (Raised OverflowError)"
  using malformed_value_escapes [OF order_refl] by blast

end
