(* ===== verification/Route_Actions.thy ===== *)
theory Route_Actions
  imports Web_Protocol
begin

section \<open>Waypoint actions\<close>

text \<open>
  \<open>salus_navigation/route_actions.py\<close>: the actions a waypoint carries as JSON text, and their execution
  one after the other. The JSON library is a parameter: \<open>loads\<close> gives the decoded value of a text, or
  \<open>None\<close> where it raises \<open>ValueError\<close>; \<open>dumps\<close> prints a value with sorted keys and no blanks. \<open>str()\<close> of
  a decoded value is modelled for strings, integers, Booleans and null, and is the parameter \<open>shown\<close> for
  floats and containers.
\<close>

subsection \<open>Parsing\<close>

record route_action =
  ac_kind :: string
  ac_duration :: pyfloat
  ac_brake :: int
  ac_profile :: string
  ac_label :: string

datatype action_error =
    InvalidJson int
  | NotAnArray int
  | NotAnObject int nat
  | InvalidBrakeHold int
  | BadBrakeDuration int
  | BadProfile int
  | UnsupportedAction string

record json_lib =
  js_loads :: "string \<Rightarrow> jval option"
  js_dumps :: "jval \<Rightarrow> string"
  js_shown :: "jval \<Rightarrow> string"

fun py_str :: "json_lib \<Rightarrow> jval \<Rightarrow> string" where
  "py_str J (JStr s) = s"
| "py_str J (JInt n) = str_of_int n"
| "py_str J (JBool b) = (if b then ''True'' else ''False'')"
| "py_str J JNull = ''None''"
| "py_str J v = js_shown J v"

text \<open>The truth value of a decoded value.\<close>

fun truthy :: "jval \<Rightarrow> bool" where
  "truthy JNull = False"
| "truthy (JBool b) = b"
| "truthy (JInt n) = (n \<noteq> 0)"
| "truthy (JFloat x) = (\<not> feq x fzero)"
| "truthy (JStr s) = (s \<noteq> [])"
| "truthy (JList l) = (l \<noteq> [])"
| "truthy (JObj l) = (l \<noteq> [])"

text \<open>\<open>float(value)\<close>: \<open>Inr None\<close> is a \<open>TypeError\<close> or \<open>ValueError\<close>, which the code catches.\<close>

fun float_call :: "jval \<Rightarrow> py_exception + pyfloat option" where
  "float_call (JBool b) = Inr (Some (Fin (if b then 1 else 0)))"
| "float_call (JInt n) = (case float_of_int n of None \<Rightarrow> Inl OverflowError | Some x \<Rightarrow> Inr (Some x))"
| "float_call (JFloat x) = Inr (Some x)"
| "float_call (JStr s) = Inr (py_float_of_string s)"
| "float_call v = Inr None"

text \<open>\<open>int(x)\<close> of a float, with the same convention.\<close>

fun int_call :: "pyfloat \<Rightarrow> py_exception + int option" where
  "int_call PInf = Inl OverflowError"
| "int_call NInf = Inl OverflowError"
| "int_call x = Inr (py_int x)"

definition get_key :: "jobject \<Rightarrow> string \<Rightarrow> jval \<Rightarrow> jval" where
  "get_key item key dflt = (case item key of None \<Rightarrow> dflt | Some v \<Rightarrow> v)"

definition action_label :: "json_lib \<Rightarrow> jobject \<Rightarrow> string" where
  "action_label J item =
     (let v = get_key item ''label'' (JStr []) in
      take 80 (py_strip (py_str J (if truthy v then v else JStr []))))"

definition plain_action :: "string \<Rightarrow> string \<Rightarrow> route_action" where
  "plain_action kind label =
     \<lparr> ac_kind = kind, ac_duration = fzero, ac_brake = 0, ac_profile = [], ac_label = label \<rparr>"

type_synonym 'a parsed = "py_exception + (action_error + 'a)"

text \<open>The next step of a parser, unless an exception escaped or an error was returned.\<close>

fun bind_parsed :: "'a parsed \<Rightarrow> ('a \<Rightarrow> 'b parsed) \<Rightarrow> 'b parsed" where
  "bind_parsed (Inl e) f = Inl e"
| "bind_parsed (Inr (Inl e)) f = Inr (Inl e)"
| "bind_parsed (Inr (Inr x)) f = f x"

lemma bind_parsed_eq: "bind_parsed r f = Inr (Inr y) \<longleftrightarrow> (\<exists>x. r = Inr (Inr x) \<and> f x = Inr (Inr y))"
  by (cases "(r, f)" rule: bind_parsed.cases) auto

definition parse_brake_hold :: "int \<Rightarrow> jobject \<Rightarrow> string \<Rightarrow> route_action parsed" where
  "parse_brake_hold w item label =
     bind_res (float_call (get_key item ''duration_s'' (JFloat fzero))) (\<lambda>duration.
     case duration of None \<Rightarrow> Inr (Inl (InvalidBrakeHold w)) | Some d \<Rightarrow>
     bind_res (float_call (get_key item ''brake_pct'' (JInt 100))) (\<lambda>pct.
     case pct of None \<Rightarrow> Inr (Inl (InvalidBrakeHold w)) | Some p \<Rightarrow>
     bind_res (int_call p) (\<lambda>brake.
     case brake of None \<Rightarrow> Inr (Inl (InvalidBrakeHold w)) | Some b \<Rightarrow>
       Inr (if \<not> isfinite d \<or> \<not> (flt fzero d \<and> fle d (Fin 600)) then Inl (BadBrakeDuration w)
            else Inr ((plain_action ''brake_hold'' label) \<lparr> ac_duration := d, ac_brake := max 0 (min 100 b) \<rparr>)))))"

definition parse_profile :: "json_lib \<Rightarrow> int \<Rightarrow> jobject \<Rightarrow> string \<Rightarrow> route_action parsed" where
  "parse_profile J w item label =
     (let profile = py_lower (py_strip (py_str J (get_key item ''profile'' (JStr [])))) in
      if profile \<notin> {''urban'', ''rural''} then Inr (Inl (BadProfile w))
      else Inr (Inr ((plain_action ''set_navigation_profile'' label) \<lparr> ac_profile := profile \<rparr>)))"

definition parse_item :: "json_lib \<Rightarrow> int \<Rightarrow> nat \<Rightarrow> jval \<Rightarrow> route_action parsed" where
  "parse_item J w i v =
     (case v of
        JObj kvs \<Rightarrow>
          (let item = map_of kvs; kind = py_strip (py_str J (get_key item ''type'' (JStr [])));
               label = action_label J item
           in if kind = ''brake_hold'' then parse_brake_hold w item label
              else if kind = ''set_navigation_profile'' then parse_profile J w item label
              else Inr (Inl (UnsupportedAction kind)))
      | _ \<Rightarrow> Inr (Inl (NotAnObject w i)))"

text \<open>The entry of the canonical JSON, its keys in the order in which they are printed.\<close>

definition canonical_value :: "route_action \<Rightarrow> jval" where
  "canonical_value a =
     (let label = (if ac_label a = [] then [] else [(''label'', JStr (ac_label a))]) in
      if ac_kind a = ''brake_hold''
      then JObj ([(''brake_pct'', JInt (ac_brake a)), (''duration_s'', JFloat (ac_duration a))] @ label @
             [(''type'', JStr (ac_kind a))])
      else JObj (label @ [(''profile'', JStr (ac_profile a)), (''type'', JStr (ac_kind a))]))"

fun parse_items :: "json_lib \<Rightarrow> int \<Rightarrow> nat \<Rightarrow> jval list \<Rightarrow> route_action list parsed" where
  "parse_items J w i [] = Inr (Inr [])"
| "parse_items J w i (v # vs) =
     bind_parsed (parse_item J w i v) (\<lambda>a.
     bind_parsed (parse_items J w (Suc i) vs) (\<lambda>as. Inr (Inr (a # as))))"

definition parse_payload :: "json_lib \<Rightarrow> int \<Rightarrow> jval \<Rightarrow> (route_action list \<times> string) parsed" where
  "parse_payload J w payload =
     (if payload \<in> {JNull, JStr [], JList []} then Inr (Inr ([], []))
      else case payload of
        JList items \<Rightarrow>
          bind_parsed (parse_items J w 0 items) (\<lambda>as.
            Inr (Inr (as, js_dumps J (JList (map canonical_value as)))))
      | _ \<Rightarrow> Inr (Inl (NotAnArray w)))"

definition parse_actions :: "json_lib \<Rightarrow> string \<Rightarrow> int \<Rightarrow> (route_action list \<times> string) parsed" where
  "parse_actions J raw w =
     (let text = py_strip raw in
      if text = [] then Inr (Inr ([], []))
      else case js_loads J text of
        None \<Rightarrow> Inr (Inl (InvalidJson w))
      | Some payload \<Rightarrow> parse_payload J w payload)"

subsection \<open>Execution\<close>

datatype action_state = ActPending | ActRunning | ActSucceeded | ActFailed | ActCancelled

record execution =
  ex_waypoint :: int
  ex_actions :: "route_action list"
  ex_state :: action_state
  ex_cursor :: nat
  ex_started :: "pyfloat option"
  ex_deadline :: "pyfloat option"
  ex_error :: string

definition new_execution :: "int \<Rightarrow> route_action list \<Rightarrow> execution" where
  "new_execution w as =
     \<lparr> ex_waypoint = w, ex_actions = as, ex_state = ActPending, ex_cursor = 0, ex_started = None,
       ex_deadline = None, ex_error = [] \<rparr>"

definition ex_current :: "execution \<Rightarrow> route_action option" where
  "ex_current e = (if ex_cursor e < length (ex_actions e) then Some (ex_actions e ! ex_cursor e) else None)"

definition ex_start :: "execution \<Rightarrow> pyfloat \<Rightarrow> execution \<times> route_action option" where
  "ex_start e now =
     (if ex_state e \<notin> {ActPending, ActRunning} then (e, None)
      else case ex_current e of
        None \<Rightarrow> (e \<lparr> ex_state := ActSucceeded \<rparr>, None)
      | Some a \<Rightarrow>
          (e \<lparr> ex_state := ActRunning, ex_started := Some now,
               ex_deadline := (if ac_kind a = ''brake_hold'' then Some (fadd now (ac_duration a)) else None) \<rparr>,
           Some a))"

definition ex_complete :: "execution \<Rightarrow> pyfloat \<Rightarrow> execution \<times> route_action option" where
  "ex_complete e now =
     (if ex_state e \<noteq> ActRunning then (e, None)
      else
        (let e1 = e \<lparr> ex_cursor := ex_cursor e + 1, ex_started := None, ex_deadline := None \<rparr> in
         if length (ex_actions e1) \<le> ex_cursor e1 then (e1 \<lparr> ex_state := ActSucceeded \<rparr>, None)
         else ex_start e1 now))"

definition ex_fail :: "execution \<Rightarrow> string \<Rightarrow> execution" where
  "ex_fail e error = e \<lparr> ex_state := ActFailed, ex_error := error \<rparr>"

definition ex_cancel :: "execution \<Rightarrow> string \<Rightarrow> execution" where
  "ex_cancel e reason =
     (if ex_state e \<in> {ActPending, ActRunning} then e \<lparr> ex_state := ActCancelled, ex_error := reason \<rparr> else e)"

definition ex_remaining :: "execution \<Rightarrow> pyfloat \<Rightarrow> pyfloat" where
  "ex_remaining e now =
     (let until = (case ex_deadline e of None \<Rightarrow> now | Some t \<Rightarrow> if feq t fzero then now else t)
      in pymax fzero (fsub until now))"

datatype action_event = Begin pyfloat | Complete pyfloat | Fail string | Cancel string

text \<open>The calls on an execution; the output is the index of the action that the caller must now perform.\<close>

definition begun :: "execution \<times> route_action option \<Rightarrow> execution \<times> (nat \<times> route_action) list" where
  "begun r = (fst r, case snd r of None \<Rightarrow> [] | Some a \<Rightarrow> [(ex_cursor (fst r), a)])"

fun execution_step :: "execution \<Rightarrow> action_event \<Rightarrow> execution \<times> (nat \<times> route_action) list" where
  "execution_step e (Begin now) = begun (ex_start e now)"
| "execution_step e (Complete now) = begun (ex_complete e now)"
| "execution_step e (Fail error) = (ex_fail e error, [])"
| "execution_step e (Cancel reason) = (ex_cancel e reason, [])"

subsection \<open>What parsing guarantees\<close>

definition action_ok :: "route_action \<Rightarrow> bool" where
  "action_ok a \<longleftrightarrow> length (ac_label a) \<le> 80 \<and>
     (ac_kind a = ''brake_hold'' \<and> flt fzero (ac_duration a) \<and> fle (ac_duration a) (Fin 600) \<and>
        0 \<le> ac_brake a \<and> ac_brake a \<le> 100 \<and> ac_profile a = [] \<or>
      ac_kind a = ''set_navigation_profile'' \<and> ac_profile a \<in> {''urban'', ''rural''} \<and>
        ac_duration a = fzero \<and> ac_brake a = 0)"

lemma label_short: "length (action_label J item) \<le> 80"
  by (simp add: action_label_def Let_def)

lemma parse_brake_hold_ok:
  "parse_brake_hold w item label = Inr (Inr a) \<Longrightarrow> length label \<le> 80 \<Longrightarrow> action_ok a"
  by (auto simp: parse_brake_hold_def bind_res_eq_Inr action_ok_def plain_action_def split: option.splits if_splits)

lemma parse_profile_ok:
  "parse_profile J w item label = Inr (Inr a) \<Longrightarrow> length label \<le> 80 \<Longrightarrow> action_ok a"
  by (auto simp: parse_profile_def Let_def action_ok_def plain_action_def split: if_splits)

lemma parse_item_ok: "parse_item J w i v = Inr (Inr a) \<Longrightarrow> action_ok a"
  using label_short [of J]
  by (auto simp: parse_item_def Let_def split: jval.splits if_splits dest: parse_brake_hold_ok parse_profile_ok)

lemma parse_items_ok: "parse_items J w i vs = Inr (Inr as) \<Longrightarrow> list_all action_ok as"
  by (induction J w i vs arbitrary: "as" rule: parse_items.induct)
    (auto simp: bind_parsed_eq dest: parse_item_ok)

lemma parse_payload_ok:
  "parse_payload J w v = Inr (Inr (as, c)) \<Longrightarrow> list_all action_ok as"
  by (auto simp: parse_payload_def bind_parsed_eq split: if_splits jval.splits dest: parse_items_ok)

lemma parse_payload_canonical:
  "parse_payload J w v = Inr (Inr (as, c)) \<Longrightarrow> as \<noteq> [] \<Longrightarrow> c = js_dumps J (JList (map canonical_value as))"
  by (auto simp: parse_payload_def bind_parsed_eq split: if_splits jval.splits)

text \<open>Parsing a canonical entry gives the action back, its label without the blanks that truncation left.\<close>

definition strip_label :: "route_action \<Rightarrow> route_action" where
  "strip_label a = a \<lparr> ac_label := py_strip (ac_label a) \<rparr>"

lemma py_strip_short: "length (py_strip s) \<le> length s"
proof -
  have "length (dropWhile py_space t) \<le> length t" for t by (rule length_dropWhile_le)
  from this [of "rev (dropWhile py_space (rev s'))" for s'] this [of "rev (dropWhile py_space s)"] this [of s]
  show ?thesis by (simp add: py_strip_def)
qed

lemma kind_strips:
  "py_strip ''brake_hold'' = ''brake_hold''" "py_strip ''set_navigation_profile'' = ''set_navigation_profile''"
  "py_lower (py_strip ''urban'') = ''urban''" "py_lower (py_strip ''rural'') = ''rural''"
  by code_simp+

lemma canonical_label:
  assumes "length (ac_label a) \<le> 80" "map_of kvs ''label'' = (if ac_label a = [] then None else Some (JStr (ac_label a)))"
  shows "action_label J (map_of kvs) = py_strip (ac_label a)"
  using assms py_strip_short [of "ac_label a"] by (auto simp: action_label_def get_key_def)

lemma percent_call:
  assumes "0 \<le> n" "n \<le> 100" shows "float_call (JInt n) = Inr (Some (Fin (of_int n)))" "int_call (Fin (of_int n)) = Inr (Some n)"
  using assms float_of_int_small [of n] by auto

lemma parse_canonical_brake:
  assumes "action_ok a" "ac_kind a = ''brake_hold''"
  shows "parse_item J w i (canonical_value a) = Inr (Inr (strip_label a))"
proof -
  define kvs where "kvs = [(''brake_pct'', JInt (ac_brake a)), (''duration_s'', JFloat (ac_duration a))] @
    (if ac_label a = [] then [] else [(''label'', JStr (ac_label a))]) @ [(''type'', JStr (ac_kind a))]"
  have c: "canonical_value a = JObj kvs" using assms(2) by (simp add: canonical_value_def kvs_def)
  have ok: "length (ac_label a) \<le> 80" "flt fzero (ac_duration a)" "fle (ac_duration a) (Fin 600)"
      "0 \<le> ac_brake a" "ac_brake a \<le> 100" "ac_profile a = []" using assms by (auto simp: action_ok_def)
  have m: "map_of kvs ''label'' = (if ac_label a = [] then None else Some (JStr (ac_label a)))"
    "map_of kvs ''brake_pct'' = Some (JInt (ac_brake a))" "map_of kvs ''duration_s'' = Some (JFloat (ac_duration a))"
    "map_of kvs ''type'' = Some (JStr (ac_kind a))" by (auto simp: kvs_def)
  have "isfinite (ac_duration a)" using isfinite_between [of fzero "ac_duration a" "Fin 600"] ok flt_imp_fle by simp
  then have "parse_brake_hold w (map_of kvs) (py_strip (ac_label a)) = Inr (Inr (strip_label a))"
    using ok assms(2) by (simp add: parse_brake_hold_def get_key_def m percent_call plain_action_def strip_label_def del: float_call.simps(2))
  then show ?thesis
    by (simp add: parse_item_def c Let_def get_key_def m canonical_label [OF ok(1) m(1)] assms(2) kind_strips)
qed

lemma parse_canonical_profile:
  assumes "action_ok a" "ac_kind a = ''set_navigation_profile''"
  shows "parse_item J w i (canonical_value a) = Inr (Inr (strip_label a))"
proof -
  define kvs where "kvs = (if ac_label a = [] then [] else [(''label'', JStr (ac_label a))]) @
    [(''profile'', JStr (ac_profile a)), (''type'', JStr (ac_kind a))]"
  have c: "canonical_value a = JObj kvs" using assms(2) by (simp add: canonical_value_def kvs_def)
  have ok: "length (ac_label a) \<le> 80" "ac_profile a \<in> {''urban'', ''rural''}" "ac_duration a = fzero" "ac_brake a = 0"
    using assms by (auto simp: action_ok_def)
  have m: "map_of kvs ''label'' = (if ac_label a = [] then None else Some (JStr (ac_label a)))"
    "map_of kvs ''profile'' = Some (JStr (ac_profile a))" "map_of kvs ''type'' = Some (JStr (ac_kind a))" by (auto simp: kvs_def)
  have "parse_profile J w (map_of kvs) (py_strip (ac_label a)) = Inr (Inr (strip_label a))"
    using ok assms(2) kind_strips by (auto simp: parse_profile_def get_key_def m plain_action_def strip_label_def)
  then show ?thesis
    by (simp add: parse_item_def c Let_def get_key_def m canonical_label [OF ok(1) m(1)] assms(2) kind_strips)
qed

lemma parse_canonical: "action_ok a \<Longrightarrow> parse_item J w i (canonical_value a) = Inr (Inr (strip_label a))"
  using parse_canonical_brake parse_canonical_profile by (auto simp: action_ok_def)

lemma parse_canonical_items:
  "list_all action_ok as \<Longrightarrow> parse_items J w i (map canonical_value as) = Inr (Inr (map strip_label as))"
  by (induction "as" arbitrary: i) (auto simp: parse_canonical)

subsection \<open>What execution guarantees\<close>

lemma remdups_adj_snoc:
  "remdups_adj (xs @ [x]) = (if xs \<noteq> [] \<and> last xs = x then remdups_adj xs else remdups_adj xs @ [x])"
  by (induction xs rule: remdups_adj.induct) auto

lemma remdups_upt_same: "remdups_adj xs = [0..<Suc c] \<Longrightarrow> remdups_adj (xs @ [c]) = [0..<Suc c]"
proof -
  assume a: "remdups_adj xs = [0..<Suc c]"
  then have "last xs = c" "xs \<noteq> []" using last_remdups_adj [of xs] by auto
  then show ?thesis using a by (simp add: remdups_adj_snoc)
qed

lemma remdups_upt_next: "remdups_adj xs = [0..<c] \<Longrightarrow> remdups_adj (xs @ [c]) = [0..<Suc c]"
proof -
  assume a: "remdups_adj xs = [0..<c]"
  then have "xs = [] \<or> last xs \<noteq> c" by (metis atLeastLessThan_iff last_in_set less_irrefl remdups_adj_set set_upt)
  then show ?thesis using a by (auto simp: remdups_adj_snoc)
qed

text \<open>The indices begun so far, a run of the same index counted once, are an initial segment.\<close>

definition progress_ok :: "route_action list \<Rightarrow> execution \<Rightarrow> (nat \<times> route_action) list \<Rightarrow> bool" where
  "progress_ok as e os \<longleftrightarrow> ex_actions e = as \<and> list_all (\<lambda>(i, a). i < length as \<and> a = as ! i) os \<and>
     (\<exists>k\<le>length as. remdups_adj (map fst os) = [0..<k] \<and>
       (ex_state e = ActPending \<longrightarrow> k = 0 \<and> ex_cursor e = 0) \<and>
       (ex_state e = ActRunning \<longrightarrow> k = Suc (ex_cursor e) \<and> ex_cursor e < length as) \<and>
       (ex_state e = ActSucceeded \<longrightarrow> k = length as))"

lemma progress_okI:
  "ex_actions e = as \<Longrightarrow> list_all (\<lambda>(i, a). i < length as \<and> a = as ! i) os \<Longrightarrow> k \<le> length as \<Longrightarrow>
     remdups_adj (map fst os) = [0..<k] \<Longrightarrow> (ex_state e = ActPending \<Longrightarrow> k = 0 \<and> ex_cursor e = 0) \<Longrightarrow>
     (ex_state e = ActRunning \<Longrightarrow> k = Suc (ex_cursor e) \<and> ex_cursor e < length as) \<Longrightarrow>
     (ex_state e = ActSucceeded \<Longrightarrow> k = length as) \<Longrightarrow> progress_ok as e os"
  by (auto simp: progress_ok_def)

lemmas execution_defs = begun_def ex_start_def ex_complete_def ex_fail_def ex_cancel_def ex_current_def Let_def

lemma progress_begin:
  assumes "progress_ok as e os"
  shows "progress_ok as (fst (execution_step e (Begin t))) (os @ snd (execution_step e (Begin t)))"
proof (cases "ex_state e = ActRunning")
  case True
  then have "remdups_adj (map fst os) = [0..<Suc (ex_cursor e)]" using assms by (auto simp: progress_ok_def)
  then have "remdups_adj (map fst os @ [ex_cursor e]) = [0..<Suc (ex_cursor e)]" by (rule remdups_upt_same)
  then show ?thesis using assms True
    by (intro progress_okI [where k = "Suc (ex_cursor e)"]) (auto simp: progress_ok_def execution_defs)
next
  case False
  then show ?thesis using assms
    by (cases "as = []") (auto simp: progress_ok_def execution_defs Suc_le_eq)
qed

lemma progress_complete:
  assumes "progress_ok as e os"
  shows "progress_ok as (fst (execution_step e (Complete t))) (os @ snd (execution_step e (Complete t)))"
proof (cases "ex_state e = ActRunning")
  case True
  then have k: "remdups_adj (map fst os) = [0..<Suc (ex_cursor e)]" "ex_cursor e < length as" "ex_actions e = as"
    "list_all (\<lambda>(i, a). i < length as \<and> a = as ! i) os" using assms by (auto simp: progress_ok_def)
  show ?thesis
  proof (cases "length as \<le> Suc (ex_cursor e)")
    case last: True
    then show ?thesis using k True
      by (intro progress_okI [where k = "Suc (ex_cursor e)"]) (auto simp: execution_defs)
  next
    case False
    then show ?thesis using k True remdups_upt_next [OF k(1)]
      by (intro progress_okI [where k = "Suc (Suc (ex_cursor e))"]) (auto simp: execution_defs)
  qed
next
  case False
  then show ?thesis using assms by (simp add: execution_defs)
qed

lemma progress_stop:
  "progress_ok as e os \<Longrightarrow> progress_ok as (ex_fail e m) os" "progress_ok as e os \<Longrightarrow> progress_ok as (ex_cancel e m) os"
  by (auto simp: progress_ok_def execution_defs)

lemma progress_step: "progress_ok as e os \<Longrightarrow> progress_ok as (fst (execution_step e v)) (os @ snd (execution_step e v))"
  by (cases v) (use progress_begin progress_complete progress_stop in auto)

lemma progress_run:
  "progress_ok as e os \<Longrightarrow> progress_ok as (fst (run execution_step e vs)) (os @ snd (run execution_step e vs))"
proof (induction vs arbitrary: e os)
  case (Cons v vs)
  then show ?case using Cons.IH [OF progress_step [OF Cons.prems, of v]] by (simp add: case_prod_unfold Let_def)
qed simp

lemma progress_new: "progress_ok as (new_execution w as) []"
  by (simp add: progress_ok_def new_execution_def)

text \<open>A finished execution begins nothing.\<close>

definition ex_over :: "execution \<Rightarrow> bool" where
  "ex_over e \<longleftrightarrow> ex_state e \<in> {ActSucceeded, ActFailed, ActCancelled}"

lemma over_step: "ex_over e \<Longrightarrow> ex_over (fst (execution_step e v)) \<and> snd (execution_step e v) = []"
  by (cases v) (auto simp: ex_over_def execution_defs)

interpretation action_end: latch execution_step ex_over "\<lambda>_. False"
  by unfold_locales (auto simp: over_step)

subsection \<open>Properties\<close>

text \<open>
  Parsed actions are well typed: whatever the text and the JSON library, every action that
  \<open>parse_actions\<close> returns is a brake hold with a finite duration of at most ten minutes and a brake
  percentage between 0 and 100, or a profile change to one of the two profiles, and no label exceeds 80
  characters.
\<close>

lemma parsed_actions_ok:
  assumes "parse_actions J raw w = Inr (Inr (as, c))"
  shows "list_all action_ok as"
  using assms by (auto simp: parse_actions_def Let_def split: if_splits option.splits dest: parse_payload_ok)

text \<open>
  Canonical text is faithful: parsing the canonical JSON of parsed actions gives the same actions
  again, up to blanks that the truncation of a label left at its end. The hypotheses say of the JSON
  library that it reads back the canonical value from the text it printed, and that this text is not blank
  at its ends.
\<close>

lemma canonical_roundtrip:
  assumes "parse_actions J raw w = Inr (Inr (as, c))" "as \<noteq> []"
    and read_back: "js_loads J c = Some (JList (map canonical_value as))"
    and trimmed: "py_strip c = c" "c \<noteq> []"
  shows "parse_actions J c v =
    Inr (Inr (map strip_label as, js_dumps J (JList (map (canonical_value \<circ> strip_label) as))))"
proof -
  have ok: "list_all action_ok as" using assms(1)
    by (auto simp: parse_actions_def Let_def split: if_splits option.splits dest: parse_payload_ok)
  show ?thesis using assms(2) trimmed
    by (simp add: parse_actions_def parse_payload_def read_back parse_canonical_items [OF ok])
qed

text \<open>
  Actions run in order and none is skipped: over any sequence of calls on an execution, the indices of
  the actions begun, with a repeated begin of the running action counted once, are \<open>0, 1, ...\<close> without
  gaps, each with its own action; success means that all of them were begun.
\<close>

lemma actions_run_in_order:
  "\<exists>k\<le>length as.
     (let r = run execution_step (new_execution w as) calls in
      remdups_adj (map fst (snd r)) = [0..<k] \<and> list_all (\<lambda>(i, a). i < length as \<and> a = as ! i) (snd r) \<and>
      (if ex_state (fst r) = ActSucceeded then k = length as else True))"
  using progress_run [OF progress_new [of "as" w], of calls]
  by (auto simp: progress_ok_def Let_def)

subsection \<open>Witnesses\<close>

definition sample_payload :: jval where
  "sample_payload = JList [JObj [(''profile'', JStr '' Urban''), (''type'', JStr ''set_navigation_profile'')]]"

definition sample_canonical :: jval where
  "sample_canonical = JList [JObj [(''profile'', JStr ''urban''), (''type'', JStr ''set_navigation_profile'')]]"

definition sample_json :: json_lib where
  "sample_json = \<lparr> js_loads = (\<lambda>s. if s = ''c'' then Some sample_canonical else Some sample_payload), js_dumps = (\<lambda>v. ''c''),
     js_shown = (\<lambda>v. []) \<rparr>"

definition sample_action :: route_action where
  "sample_action = (plain_action ''set_navigation_profile'' []) \<lparr> ac_profile := ''urban'' \<rparr>"

lemma sample_parse: "parse_actions sample_json ''x'' 0 = Inr (Inr ([sample_action], ''c''))"
proof -
  have s: "py_strip ''x'' = ''x''" "py_lower (py_strip '' Urban'') = ''urban''" by code_simp+
  show ?thesis
    by (simp add: parse_actions_def s kind_strips sample_json_def sample_payload_def parse_payload_def parse_item_def
        parse_profile_def get_key_def action_label_def sample_action_def plain_action_def)
qed

lemma parsed_actions_ok_witness: "list_all action_ok [sample_action]"
  by (rule parsed_actions_ok [OF sample_parse])

lemma canonical_roundtrip_witness:
  "parse_actions sample_json ''c'' 3 = Inr (Inr (map strip_label [sample_action], ''c''))"
proof -
  have a: "js_loads sample_json ''c'' = Some (JList (map canonical_value [sample_action]))"
    by (simp add: sample_json_def sample_canonical_def canonical_value_def sample_action_def plain_action_def)
  have b: "py_strip ''c'' = ''c''" by code_simp
  have c: "[sample_action] \<noteq> []" "''c'' \<noteq> []" by simp_all
  show ?thesis using canonical_roundtrip [OF sample_parse c(1) a b c(2), of 3] by (simp add: sample_json_def)
qed

end
