(* ===== verification/Route_Chunker.thy ===== *)
theory Route_Chunker
  imports Prelude
begin

section \<open>Prepared routes and their chunks\<close>

text \<open>
  \<open>salus_navigation/route_model.py\<close> and \<open>route_chunker.py\<close>: prepared routes, the finite windows
  (chunks) of waypoints that are sent to the navigator, the start of the next window and its
  limitation to a horizon. Indices of waypoints are natural numbers after the code's \<open>%\<close>. The
  function \<open>hypot\<close> of the C library is a parameter. A loop over the route takes as fuel the number of
  waypoints; the lemmas on windows show that it never runs out.
\<close>

record waypoint =
  wp_lat :: pyfloat
  wp_lon :: pyfloat
  wp_yaw :: pyfloat
  wp_input_index :: int
  wp_key :: bool
  wp_action :: string
  wp_role :: string
  wp_x :: "pyfloat option"
  wp_y :: "pyfloat option"
  wp_yaw_explicit :: bool

record route =
  rt_waypoints :: "waypoint list"
  rt_loop :: bool
  rt_input_count :: int
  rt_leg_spacing :: pyfloat
  rt_chunk_span :: pyfloat
  rt_chunk_max :: int

record chunk =
  ch_waypoints :: "waypoint list"
  ch_start :: int
  ch_end :: int
  ch_iteration :: int
  ch_iterations :: "int list"

definition or_zero :: "pyfloat option \<Rightarrow> pyfloat" where
  "or_zero x = (case x of None \<Rightarrow> fzero | Some v \<Rightarrow> v)"

type_synonym hypot = "pyfloat \<Rightarrow> pyfloat \<Rightarrow> pyfloat"

definition distance_to :: "hypot \<Rightarrow> waypoint \<Rightarrow> waypoint \<Rightarrow> pyfloat" where
  "distance_to H a b =
     H (fsub (or_zero (wp_x a)) (or_zero (wp_x b))) (fsub (or_zero (wp_y a)) (or_zero (wp_y b)))"

definition checkpoint_offsets :: "chunk \<Rightarrow> nat list" where
  "checkpoint_offsets c = filter (\<lambda>i. wp_key (ch_waypoints c ! i)) [0..<length (ch_waypoints c)]"

definition checkpoint_occurrences :: "chunk \<Rightarrow> (nat \<times> int \<times> int) list" where
  "checkpoint_occurrences c =
     (let offsets = checkpoint_offsets c;
          its = (if length (ch_iterations c) \<noteq> length offsets
                 then replicate (length offsets) (ch_iteration c) else ch_iterations c)
      in map (\<lambda>(i, it). (i, wp_input_index (ch_waypoints c ! i), it)) (zip offsets its))"

datatype chunk_error =
    NoCheckpoint | BadMode | BadDenseDistance | PastOpenRoute | BadHorizon | BadRobot

subsection \<open>Start of a dispatch\<close>

record dispatch_start =
  ds_index :: "nat option"
  ds_reached :: nat
  ds_synthetic :: nat

definition distance_to_waypoint :: "hypot \<Rightarrow> waypoint \<Rightarrow> pyfloat \<Rightarrow> pyfloat \<Rightarrow> pyfloat" where
  "distance_to_waypoint H p x y = H (fsub (or_zero (wp_x p)) x) (fsub (or_zero (wp_y p)) y)"

definition passed_synthetic :: "hypot \<Rightarrow> waypoint \<Rightarrow> waypoint \<Rightarrow> pyfloat \<Rightarrow> pyfloat \<Rightarrow> pyfloat \<Rightarrow> bool" where
  "passed_synthetic H a b x y tolerance =
     (let ax = or_zero (wp_x a); ay = or_zero (wp_y a);
          dx = fsub (or_zero (wp_x b)) ax; dy = fsub (or_zero (wp_y b)) ay;
          length_sq = fadd (fmul dx dx) (fmul dy dy)
      in if fle length_sq (fl (1 / 1000000000)) then False
         else case fdiv (fadd (fmul (fsub x ax) dx) (fmul (fsub y ay) dy)) length_sq of
           None \<Rightarrow> False
         | Some ratio0 \<Rightarrow>
             if fle ratio0 fzero then False
             else
               (let ratio = pymin (Fin 1) ratio0
                in fle (H (fsub x (fadd ax (fmul ratio dx))) (fsub y (fadd ay (fmul ratio dy)))) tolerance))"

text \<open>The two loops; \<open>k\<close> counts the skipped points, \<open>n\<close> is the number of steps left.\<close>

fun skip_reached ::
    "hypot \<Rightarrow> route \<Rightarrow> (nat \<Rightarrow> bool) \<Rightarrow> pyfloat \<Rightarrow> pyfloat \<Rightarrow> pyfloat \<Rightarrow> nat \<Rightarrow> nat \<Rightarrow> nat \<Rightarrow> nat \<times> nat" where
  "skip_reached H r prot x y tol 0 cur k = (cur, k)"
| "skip_reached H r prot x y tol (Suc n) cur k =
     (let pts = rt_waypoints r; total = length pts in
      if prot cur \<or> wp_key (pts ! cur) then (cur, k)
      else if flt tol (distance_to_waypoint H (pts ! cur) x y) then (cur, k)
      else if rt_loop r then skip_reached H r prot x y tol n ((cur + 1) mod total) (k + 1)
      else if total \<le> cur + 1 then (total, k)
      else skip_reached H r prot x y tol n (cur + 1) (k + 1))"

fun skip_synthetic ::
    "hypot \<Rightarrow> route \<Rightarrow> (nat \<Rightarrow> bool) \<Rightarrow> pyfloat \<Rightarrow> pyfloat \<Rightarrow> pyfloat \<Rightarrow> nat \<Rightarrow> nat \<Rightarrow> nat \<Rightarrow> nat \<times> nat" where
  "skip_synthetic H r prot x y tol 0 cur k = (cur, k)"
| "skip_synthetic H r prot x y tol (Suc n) cur k =
     (let pts = rt_waypoints r; total = length pts in
      if \<not> (cur < total \<and> \<not> wp_key (pts ! cur) \<and> \<not> prot cur) then (cur, k)
      else
        (let nxt = (if rt_loop r then (cur + 1) mod total else cur + 1) in
         if \<not> rt_loop r \<and> total \<le> nxt then (cur, k)
         else if nxt = cur \<or> \<not> passed_synthetic H (pts ! cur) (pts ! nxt) x y tol then (cur, k)
         else skip_synthetic H r prot x y tol n nxt (k + 1)))"

definition resolve_dispatch_start ::
    "hypot \<Rightarrow> route \<Rightarrow> int \<Rightarrow> (pyfloat \<times> pyfloat) option \<Rightarrow> pyfloat \<Rightarrow> pyfloat \<Rightarrow> int list \<Rightarrow> dispatch_start" where
  "resolve_dispatch_start H r start robot reached_tol synthetic_tol protected0 =
     (let pts = rt_waypoints r; total = length pts;
          nowhere = \<lparr> ds_index = None, ds_reached = 0, ds_synthetic = 0 \<rparr>
      in if pts = [] then nowhere
         else
           (let requested = nat (max 0 start) in
            if \<not> rt_loop r \<and> total \<le> requested then nowhere
            else
              (let cur0 = (if rt_loop r then requested mod total else requested) in
               case robot of
                 None \<Rightarrow> nowhere \<lparr> ds_index := Some cur0 \<rparr>
               | Some (x, y) \<Rightarrow>
                   if \<not> (isfinite x \<and> isfinite y) then nowhere \<lparr> ds_index := Some cur0 \<rparr>
                   else
                     (let prot = (\<lambda>i. int i \<in> set protected0 \<or>
                                 i < total \<and> wp_key (pts ! i) \<and> wp_action (pts ! i) \<noteq> []);
                          tol1 = pymax (fl (5 / 100)) reached_tol;
                          tol2 = pymax (fl (5 / 100)) synthetic_tol;
                          (cur1, k1) = skip_reached H r prot x y tol1 (total - 1) cur0 0;
                          (cur2, k2) = skip_synthetic H r prot x y tol2 (total - 1) cur1 0
                      in \<lparr> ds_index = Some cur2, ds_reached = k1, ds_synthetic = k2 \<rparr>))))"

subsection \<open>Chunks\<close>

text \<open>The index after \<open>i\<close> in route order.\<close>

definition step_index :: "route \<Rightarrow> nat \<Rightarrow> nat" where
  "step_index r i = (if rt_loop r then (i + 1) mod length (rt_waypoints r) else i + 1)"

text \<open>
  The truncation after the last key (\<open>selected[:last_key + 1]\<close>, empty when there is none).
\<close>

definition upto_last_key :: "waypoint list \<Rightarrow> waypoint list" where
  "upto_last_key sel = rev (dropWhile (\<lambda>p. \<not> wp_key p) (rev sel))"

text \<open>Mode \<open>single_checkpoint\<close>: the loop returns the selection and the index after it.\<close>

primrec single_loop :: "route \<Rightarrow> nat \<Rightarrow> nat \<Rightarrow> waypoint list \<Rightarrow> waypoint list \<times> nat" where
  "single_loop r 0 index sel = (sel, index)"
| "single_loop r (Suc fuel) index sel =
     (let pts = rt_waypoints r; total = length pts in
      if rt_loop r \<and> \<not> length sel < max 1 (total - 1) then (sel, index)
      else
        (let sel1 = sel @ [pts ! index] in
         if wp_key (pts ! index) then (sel1, step_index r index)
         else if \<not> rt_loop r \<and> total \<le> index + 1 then (sel1, index + 1)
         else single_loop r fuel ((index + 1) mod total) sel1))"

definition build_single :: "route \<Rightarrow> int \<Rightarrow> int \<Rightarrow> chunk_error + chunk option" where
  "build_single r start0 iteration =
     (let pts = rt_waypoints r; total = length pts in
      if pts = [] \<or> \<not> rt_loop r \<and> int total \<le> start0 then Inr None
      else
        (let start = nat (start0 mod int total);
             (sel0, index0) = single_loop r total start [];
             (sel, index) =
               (if rt_loop r \<and> sel0 \<noteq> [] \<and> \<not> wp_key (last sel0)
                then (upto_last_key sel0, (start + length (upto_last_key sel0)) mod total)
                else (sel0, index0))
         in if sel \<noteq> [] \<and> \<not> list_ex wp_key sel then Inl NoCheckpoint
            else Inr (Some
              \<lparr> ch_waypoints = sel, ch_start = int start,
                ch_end = (if rt_loop r then (int index - 1) mod int total else int index - 1),
                ch_iteration = iteration, ch_iterations = [] \<rparr>)))"

definition pair_eligible :: "waypoint \<Rightarrow> bool" where
  "pair_eligible p \<longleftrightarrow> wp_key p \<and> wp_role p = ''normal'' \<and> wp_action p = [] \<and> \<not> wp_yaw_explicit p"

text \<open>Mode \<open>legacy_pair\<close>: the loop returns the selection and the iterations of its checkpoints.\<close>

primrec pair_loop ::
    "route \<Rightarrow> nat \<Rightarrow> nat \<Rightarrow> nat \<Rightarrow> int \<Rightarrow> waypoint list \<Rightarrow> int list \<Rightarrow> waypoint list \<times> int list" where
  "pair_loop r start 0 index it sel its = (sel, its)"
| "pair_loop r start (Suc fuel) index it sel its =
     (let pts = rt_waypoints r; total = length pts;
          first_pairable = pair_eligible (pts ! start);
          sel1 = sel @ [pts ! index];
          its1 = (if wp_key (pts ! index) then its @ [it] else its)
      in if wp_key (pts ! index) \<and>
            (length sel1 = 1 \<and> \<not> first_pairable \<or> 1 < length sel1 \<or> \<not> first_pairable)
         then (sel1, its1)
         else if rt_loop r then
           (let nxt = (index + 1) mod total in
            if nxt = start then (sel1, its1)
            else pair_loop r start fuel nxt (if nxt = 0 \<and> index \<noteq> 0 then it + 1 else it) sel1 its1)
         else if total \<le> index + 1 then (sel1, its1)
         else pair_loop r start fuel (index + 1) it sel1 its1)"

definition finish_chunk :: "route \<Rightarrow> nat \<Rightarrow> int \<Rightarrow> waypoint list \<Rightarrow> int list \<Rightarrow> chunk" where
  "finish_chunk r start iteration sel its =
     \<lparr> ch_waypoints = sel, ch_start = int start,
       ch_end = (if rt_loop r then (int start + int (length sel) - 1) mod int (length (rt_waypoints r))
                 else int start + int (length sel) - 1),
       ch_iteration = iteration, ch_iterations = its \<rparr>"

definition build_legacy_pair :: "route \<Rightarrow> int \<Rightarrow> int \<Rightarrow> chunk_error + chunk option" where
  "build_legacy_pair r start0 iteration =
     (let pts = rt_waypoints r; total = length pts in
      if pts = [] \<or> \<not> rt_loop r \<and> int total \<le> start0 then Inr None
      else
        (let start = nat (start0 mod int total);
             (sel, its) = pair_loop r start total start iteration [] []
         in if \<not> list_ex wp_key sel then Inl NoCheckpoint
            else if \<not> wp_key (last sel)
            then Inr (Some (finish_chunk r start iteration (upto_last_key sel) (take 1 its)))
            else Inr (Some (finish_chunk r start iteration sel its))))"

text \<open>Mode \<open>adaptive_dense\<close>.\<close>

primrec route_distance :: "hypot \<Rightarrow> route \<Rightarrow> nat \<Rightarrow> nat \<Rightarrow> nat \<Rightarrow> pyfloat \<Rightarrow> chunk_error + pyfloat" where
  "route_distance H r 0 index stop_at acc = (if index = stop_at then Inr acc else Inl PastOpenRoute)"
| "route_distance H r (Suc fuel) index stop_at acc =
     (if index = stop_at then Inr acc
      else
        (let pts = rt_waypoints r; nxt = step_index r index in
         if length pts \<le> nxt then Inl PastOpenRoute
         else route_distance H r fuel nxt stop_at (fadd acc (distance_to H (pts ! index) (pts ! nxt)))))"

primrec next_key_index :: "route \<Rightarrow> nat \<Rightarrow> nat \<Rightarrow> nat \<Rightarrow> nat option" where
  "next_key_index r start 0 cur = None"
| "next_key_index r start (Suc n) cur =
     (let nxt = step_index r cur; pts = rt_waypoints r in
      if \<not> rt_loop r \<and> length pts \<le> nxt then None
      else if nxt = start then None
      else if wp_key (pts ! nxt) then Some nxt
      else next_key_index r start n nxt)"

text \<open>Whether the window ends at this key: its boundary, its successor and the dense distances.\<close>

definition dense_stop ::
    "hypot \<Rightarrow> route \<Rightarrow> pyfloat \<Rightarrow> pyfloat \<Rightarrow> nat \<Rightarrow> nat \<Rightarrow> nat list \<Rightarrow> chunk_error + bool" where
  "dense_stop H r leg_max horizon start index keys =
     (let pts = rt_waypoints r; total = length pts in
      if length keys = 1 \<and> \<not> pair_eligible (pts ! start) then Inr True
      else if 1 < length keys \<and> \<not> pair_eligible (pts ! index) then Inr True
      else case next_key_index r start (total - 1) index of
        None \<Rightarrow> Inr True
      | Some next_key \<Rightarrow>
          if length keys < 2 then Inr False
          else
            bind_res (route_distance H r total (keys ! (length keys - 2)) index fzero) (\<lambda>previous_leg.
            bind_res (route_distance H r total index next_key fzero) (\<lambda>next_leg.
            bind_res (route_distance H r total start next_key fzero) (\<lambda>span.
              Inr (flt leg_max previous_leg \<or> flt leg_max next_leg \<or> flt horizon span)))))"

primrec dense_loop ::
    "hypot \<Rightarrow> route \<Rightarrow> pyfloat \<Rightarrow> pyfloat \<Rightarrow> nat \<Rightarrow> nat \<Rightarrow> nat \<Rightarrow> int \<Rightarrow> waypoint list \<Rightarrow> int list \<Rightarrow> nat list \<Rightarrow>
      chunk_error + waypoint list \<times> int list" where
  "dense_loop H r leg_max horizon start 0 index it sel its keys = Inr (sel, its)"
| "dense_loop H r leg_max horizon start (Suc fuel) index it sel its keys =
     (let pts = rt_waypoints r; total = length pts; key = wp_key (pts ! index);
          sel1 = sel @ [pts ! index];
          its1 = (if key then its @ [it] else its);
          keys1 = (if key then keys @ [index] else keys)
      in bind_res (if key then dense_stop H r leg_max horizon start index keys1 else Inr False) (\<lambda>stop.
           if stop then Inr (sel1, its1)
           else if rt_loop r then
             (let nxt = (index + 1) mod total in
              if nxt = start then Inr (sel1, its1)
              else if (nxt + 1) mod total = start then Inr (sel1, its1)
              else dense_loop H r leg_max horizon start fuel nxt
                     (if nxt = 0 \<and> index \<noteq> 0 then it + 1 else it) sel1 its1 keys1)
           else if total \<le> index + 1 then Inr (sel1, its1)
           else dense_loop H r leg_max horizon start fuel (index + 1) it sel1 its1 keys1))"

definition build_adaptive_dense ::
    "hypot \<Rightarrow> route \<Rightarrow> int \<Rightarrow> int \<Rightarrow> pyfloat \<Rightarrow> pyfloat \<Rightarrow> chunk_error + chunk option" where
  "build_adaptive_dense H r start0 iteration leg_max horizon =
     (let pts = rt_waypoints r; total = length pts in
      if fle leg_max fzero \<or> fle horizon fzero then Inl BadDenseDistance
      else if pts = [] \<or> \<not> rt_loop r \<and> int total \<le> start0 then Inr None
      else
        (let start = nat (start0 mod int total)
         in bind_res (dense_loop H r leg_max horizon start total start iteration [] [] []) (\<lambda>(sel, its).
              if \<not> list_ex wp_key sel then Inl NoCheckpoint
              else if \<not> wp_key (last sel)
              then (let sel1 = upto_last_key sel in
                    Inr (Some (finish_chunk r start iteration sel1 (take (length (filter wp_key sel1)) its))))
              else Inr (Some (finish_chunk r start iteration sel its)))))"

definition build_chunk ::
    "hypot \<Rightarrow> string \<Rightarrow> pyfloat \<Rightarrow> pyfloat \<Rightarrow> route \<Rightarrow> int \<Rightarrow> int \<Rightarrow> chunk_error + chunk option" where
  "build_chunk H mode leg_max horizon r start iteration =
     (if mode = ''legacy_pair'' then build_legacy_pair r start iteration
      else if mode = ''adaptive_dense'' then build_adaptive_dense H r start iteration leg_max horizon
      else if mode \<noteq> ''single_checkpoint'' then Inl BadMode
      else build_single r start iteration)"

definition next_start :: "route \<Rightarrow> chunk \<Rightarrow> int" where
  "next_start r c = (if rt_loop r then (ch_end c + 1) mod int (length (rt_waypoints r)) else ch_end c + 1)"

definition limit_to_horizon ::
    "hypot \<Rightarrow> route \<Rightarrow> chunk \<Rightarrow> pyfloat \<times> pyfloat \<Rightarrow> pyfloat \<Rightarrow> chunk_error + chunk option" where
  "limit_to_horizon H r c robot limit =
     (if \<not> isfinite limit \<or> fle limit fzero then Inl BadHorizon
      else if \<not> (isfinite (fst robot) \<and> isfinite (snd robot)) then Inl BadRobot
      else
        (let sel = takeWhile (\<lambda>p. \<not> flt limit (distance_to_waypoint H p (fst robot) (snd robot))) (ch_waypoints c)
         in if length sel = length (ch_waypoints c) then Inr (Some c)
            else if sel = [] then Inr None
            else Inr (Some (c \<lparr> ch_waypoints := sel,
                   ch_end := (if rt_loop r then (ch_start c + int (length sel) - 1) mod int (length (rt_waypoints r))
                              else ch_start c + int (length sel) - 1),
                   ch_iterations := take (length (filter wp_key sel)) (ch_iterations c) \<rparr>))))"

subsection \<open>Windows of a route\<close>

text \<open>The \<open>n\<close> waypoints from \<open>start\<close> on, in route order.\<close>

definition window :: "route \<Rightarrow> nat \<Rightarrow> nat \<Rightarrow> waypoint list" where
  "window r start n = map (\<lambda>i. rt_waypoints r ! ((start + i) mod length (rt_waypoints r))) [0..<n]"

text \<open>A selection that is such a window, within one turn of the route.\<close>

definition is_window :: "route \<Rightarrow> nat \<Rightarrow> waypoint list \<Rightarrow> bool" where
  "is_window r start sel \<longleftrightarrow> sel = window r start (length sel) \<and> length sel \<le> length (rt_waypoints r) \<and>
     (\<not> rt_loop r \<longrightarrow> start + length sel \<le> length (rt_waypoints r))"

lemma length_window [simp]: "length (window r start n) = n"
  by (simp add: window_def)

lemma window_Suc: "window r start (Suc n) = window r start n @ [rt_waypoints r ! ((start + n) mod length (rt_waypoints r))]"
  by (simp add: window_def)

lemma take_window: "k \<le> n \<Longrightarrow> take k (window r start n) = window r start k"
  by (simp add: window_def take_map)

lemma is_window_Nil [simp]: "is_window r start [] = (\<not> rt_loop r \<longrightarrow> start \<le> length (rt_waypoints r))"
  by (simp add: is_window_def window_def)

lemma is_window_snoc:
  assumes "is_window r start sel" "length sel < length (rt_waypoints r)"
    and "\<not> rt_loop r \<Longrightarrow> start + length sel < length (rt_waypoints r)"
    and "index = (start + length sel) mod length (rt_waypoints r)"
  shows "is_window r start (sel @ [rt_waypoints r ! index])"
proof -
  have s: "sel = window r start (length sel)" using assms(1) by (simp add: is_window_def)
  have "window r start (Suc (length sel)) = sel @ [rt_waypoints r ! index]"
    by (simp only: window_Suc assms(4) s [symmetric])
  then show ?thesis using assms(1-3) by (auto simp: is_window_def Suc_le_eq)
qed

lemma is_window_take: "is_window r start sel \<Longrightarrow> is_window r start (take k sel)"
  using take_window [of "min k (length sel)" "length sel" r start]
  by (auto simp: is_window_def min_def)

lemma upto_last_key_take: "upto_last_key sel = take (length (upto_last_key sel)) sel"
proof -
  have "sel = rev (takeWhile (\<lambda>p. \<not> wp_key p) (rev sel) @ dropWhile (\<lambda>p. \<not> wp_key p) (rev sel))" by simp
  then have "sel = upto_last_key sel @ rev (takeWhile (\<lambda>p. \<not> wp_key p) (rev sel))"
    by (simp only: rev_append upto_last_key_def)
  then show ?thesis by (metis append_eq_conv_conj)
qed

lemma upto_last_key_last: "list_ex wp_key sel \<Longrightarrow> upto_last_key sel \<noteq> [] \<and> wp_key (last (upto_last_key sel))"
  using hd_dropWhile [of "\<lambda>p. \<not> wp_key p" "rev sel"]
  by (auto simp: upto_last_key_def last_rev list_ex_iff dropWhile_eq_Nil_conv)

lemma upto_last_key_none: "\<not> list_ex wp_key sel \<Longrightarrow> upto_last_key sel = []"
  by (auto simp: upto_last_key_def list_ex_iff dropWhile_eq_Nil_conv)

lemma upto_last_key_window: "is_window r start sel \<Longrightarrow> is_window r start (upto_last_key sel)"
  using is_window_take upto_last_key_take by metis

lemma mod_step: "index = (start + n) mod t \<Longrightarrow> (index + 1) mod t = (start + Suc n) mod (t::nat)"
  by (simp add: mod_Suc_eq)

lemma single_loop_window:
  fixes start :: nat
  assumes "single_loop r fuel index sel = (sel1, index1)" "is_window r start sel"
    and "index = (start + length sel) mod length (rt_waypoints r)" "start < length (rt_waypoints r)"
    and "length sel + fuel = length (rt_waypoints r)"
    and "rt_loop r \<Longrightarrow> length sel \<le> max 1 (length (rt_waypoints r) - 1)"
    and "\<not> rt_loop r \<Longrightarrow> start + length sel < length (rt_waypoints r)"
    and "\<not> list_ex wp_key sel"
  shows "is_window r start sel1 \<and> sel1 \<noteq> [] \<and> \<not> list_ex wp_key (butlast sel1) \<and>
    index1 = (if rt_loop r then (start + length sel1) mod length (rt_waypoints r) else start + length sel1) \<and>
    (wp_key (last sel1) \<or> rt_loop r \<and> length sel1 = max 1 (length (rt_waypoints r) - 1) \<or>
     \<not> rt_loop r \<and> start + length sel1 = length (rt_waypoints r))"
  using assms
proof (induction fuel arbitrary: index sel)
  case 0
  then show ?case by (auto simp: max_def in_set_butlastD list_ex_iff split: if_splits)
next
  case (Suc fuel)
  let ?pts = "rt_waypoints r" and ?p = "rt_waypoints r ! index"
  show ?case
  proof (cases "rt_loop r \<and> \<not> length sel < max 1 (length ?pts - 1)")
    case True
    then show ?thesis using Suc.prems by (auto simp: in_set_butlastD list_ex_iff)
  next
    case False
    have w: "is_window r start (sel @ [?p])"
      using Suc.prems by (intro is_window_snoc) auto
    have i: "(index + 1) mod length ?pts = (start + length (sel @ [?p])) mod length ?pts"
      using mod_step [OF Suc.prems(3)] by simp
    have o: "\<not> rt_loop r \<Longrightarrow> index = start + length sel" using Suc.prems(3,7) by simp
    show ?thesis
    proof (cases "wp_key ?p \<or> \<not> rt_loop r \<and> length ?pts \<le> index + 1")
      case True
      then have "sel1 = sel @ [?p]" "index1 = step_index r index"
        using Suc.prems(1) False by (auto simp: Let_def step_index_def split: if_splits)
      then show ?thesis using w i o True Suc.prems(8,7) by (auto simp: step_index_def)
    next
      case F: False
      then have "single_loop r fuel ((index + 1) mod length ?pts) (sel @ [?p]) = (sel1, index1)"
        using Suc.prems(1) False by (auto simp: Let_def split: if_splits)
      from Suc.IH [OF this w i] show ?thesis using F False o Suc.prems(4-8) by auto
    qed
  qed
qed

lemma mod_turn: "start < t \<Longrightarrow> 0 < m \<Longrightarrow> m \<le> t \<Longrightarrow> (start + m) mod t = start \<Longrightarrow> m = (t::nat)"
  by (cases "start + m < t") (auto simp: mod_if split: if_splits)

lemma pair_loop_window:
  fixes start :: nat
  assumes "pair_loop r start fuel index it sel its = (sel1, its1)" "is_window r start sel"
    and "index = (start + length sel) mod length (rt_waypoints r)" "start < length (rt_waypoints r)"
    and "length sel + fuel = length (rt_waypoints r)" "0 < fuel"
    and "\<not> rt_loop r \<Longrightarrow> start + length sel < length (rt_waypoints r)"
    and "length its = length (filter wp_key sel)"
  shows "is_window r start sel1 \<and> sel1 \<noteq> [] \<and> length its1 = length (filter wp_key sel1) \<and>
    (wp_key (last sel1) \<or> rt_loop r \<and> length sel1 = length (rt_waypoints r) \<or>
     \<not> rt_loop r \<and> start + length sel1 = length (rt_waypoints r))"
  using assms
proof (induction fuel arbitrary: index sel it its)
  case (Suc fuel)
  let ?pts = "rt_waypoints r" and ?p = "rt_waypoints r ! index"
  let ?its = "if wp_key ?p then its @ [it] else its"
  have w: "is_window r start (sel @ [?p])"
    using Suc.prems by (intro is_window_snoc) auto
  have i: "(index + 1) mod length ?pts = (start + length (sel @ [?p])) mod length ?pts"
    using mod_step [OF Suc.prems(3)] by simp
  have o: "\<not> rt_loop r \<Longrightarrow> index = start + length sel" using Suc.prems(3,7) by simp
  have l: "length ?its = length (filter wp_key (sel @ [?p]))" using Suc.prems(8) by simp
  show ?case
  proof (cases "wp_key ?p \<and> (length (sel @ [?p]) = 1 \<and> \<not> pair_eligible (?pts ! start) \<or>
      1 < length (sel @ [?p]) \<or> \<not> pair_eligible (?pts ! start))")
    case True
    then have "sel1 = sel @ [?p]" "its1 = ?its" using Suc.prems(1) by (auto simp: Let_def)
    then show ?thesis using w l True by simp
  next
    case F: False
    show ?thesis
    proof (cases "rt_loop r \<and> (index + 1) mod length ?pts = start \<or> \<not> rt_loop r \<and> length ?pts \<le> index + 1")
      case True
      then have "sel1 = sel @ [?p]" "its1 = ?its" using Suc.prems(1) F by (auto simp: Let_def split: if_splits)
      then show ?thesis
        using w l o True Suc.prems(7) mod_turn [OF Suc.prems(4), of "Suc (length sel)"] i Suc.prems(5) by auto
    next
      case G: False
      obtain it' where rec: "pair_loop r start fuel ((index + 1) mod length ?pts) it' (sel @ [?p]) ?its = (sel1, its1)"
      proof (cases "rt_loop r")
        case True
        then show ?thesis using that Suc.prems(1) F G by (auto simp: Let_def split: if_splits)
      next
        case False
        then have "(index + 1) mod length ?pts = index + 1" using G by simp
        then show ?thesis using that False Suc.prems(1) F G by (auto simp: Let_def split: if_splits)
      qed
      have pos: "0 < fuel"
      proof (rule ccontr)
        assume "\<not> 0 < fuel"
        then have t: "Suc (length sel) = length ?pts" using Suc.prems(5) by simp
        then have "rt_loop r" using G o by (cases "rt_loop r") auto
        then show False using G i t Suc.prems(4) by simp
      qed
      have A: "length (sel @ [?p]) + fuel = length ?pts" using Suc.prems(5) by simp
      have B: "start + length (sel @ [?p]) < length ?pts" if "\<not> rt_loop r" using that G o by auto
      show ?thesis by (rule Suc.IH [OF rec w i Suc.prems(4) A pos B l])
    qed
  qed
qed simp


lemma step_index_loop: "rt_loop r \<Longrightarrow> index < length (rt_waypoints r) \<Longrightarrow>
    step_index r index = (if index + 1 = length (rt_waypoints r) then 0 else index + 1)"
  by (auto simp: step_index_def)

lemma step_index_open: "\<not> rt_loop r \<Longrightarrow> step_index r index = index + 1"
  by (simp add: step_index_def)

text \<open>The number of steps from one index to another in route order.\<close>

definition route_gap :: "route \<Rightarrow> nat \<Rightarrow> nat \<Rightarrow> nat" where
  "route_gap r a b = (if a \<le> b then b - a else b + length (rt_waypoints r) - a)"

lemma route_distance_total:
  assumes "index < length (rt_waypoints r)" "stop_at < length (rt_waypoints r)"
    and "\<not> rt_loop r \<Longrightarrow> index \<le> stop_at" and "route_gap r index stop_at \<le> fuel"
  shows "\<exists>d. route_distance H r fuel index stop_at acc = Inr d"
  using assms
proof (induction fuel arbitrary: index acc)
  case 0
  then have "index = stop_at" by (auto simp: route_gap_def split: if_splits)
  then show ?case by simp
next
  case (Suc fuel)
  let ?t = "length (rt_waypoints r)"
  show ?case
  proof (cases "index = stop_at")
    case False
    let ?n = "step_index r index"
    have "?n < ?t \<and> (\<not> rt_loop r \<longrightarrow> ?n \<le> stop_at) \<and> route_gap r ?n stop_at \<le> fuel"
      using Suc.prems False
      by (cases "rt_loop r") (auto simp: step_index_loop step_index_open route_gap_def split: if_splits)
    with Suc.IH [of ?n] Suc.prems(2) False show ?thesis by (simp add: Let_def)
  qed simp
qed

lemma next_key_index_bounds:
  "next_key_index r start n cur = Some k \<Longrightarrow> cur < length (rt_waypoints r) \<Longrightarrow>
     k < length (rt_waypoints r) \<and> (\<not> rt_loop r \<longrightarrow> cur < k)"
proof (induction n arbitrary: cur)
  case (Suc n)
  let ?n = "step_index r cur"
  have nl: "rt_loop r \<or> ?n < length (rt_waypoints r)" and e: "k = ?n \<or> next_key_index r start n ?n = Some k"
    using Suc.prems(1) by (auto simp: Let_def split: if_splits)
  have n: "?n < length (rt_waypoints r)" using nl step_index_loop [OF _ Suc.prems(2)] Suc.prems(2) by (cases "rt_loop r") auto
  have c: "\<not> rt_loop r \<longrightarrow> cur < ?n" by (simp add: step_index_open)
  show ?case
  proof (cases "k = ?n")
    case False
    then have "k < length (rt_waypoints r) \<and> (\<not> rt_loop r \<longrightarrow> ?n < k)" using e Suc.IH [OF _ n] by simp
    then show ?thesis using c by auto
  qed (use n c in simp)
qed simp

lemma dense_stop_total:
  assumes "start < length (rt_waypoints r)" "index < length (rt_waypoints r)"
    and "list_all (\<lambda>k. k < length (rt_waypoints r) \<and> (\<not> rt_loop r \<longrightarrow> k \<le> index)) keys"
    and "\<not> rt_loop r \<Longrightarrow> start \<le> index"
  shows "\<exists>b. dense_stop H r lm hz start index keys = Inr b"
proof (cases "next_key_index r start (length (rt_waypoints r) - 1) index")
  case None
  then show ?thesis by (auto simp: dense_stop_def Let_def)
next
  case (Some k)
  let ?t = "length (rt_waypoints r)"
  have k: "k < ?t" "\<not> rt_loop r \<Longrightarrow> index < k" using next_key_index_bounds [OF Some assms(2)] by auto
  have fuel: "route_gap r a b \<le> ?t" if "b < ?t" for a b
    using that by (auto simp: route_gap_def)
  have rd: "\<exists>d. route_distance H r ?t a b acc = Inr d"
    if "a < ?t" "b < ?t" "\<not> rt_loop r \<Longrightarrow> a \<le> b" for a b acc
    using route_distance_total [OF that fuel [OF that(2)]] .
  show ?thesis
  proof (cases "length keys < 2")
    case True
    then show ?thesis by (auto simp: dense_stop_def Some [unfolded One_nat_def] Let_def)
  next
    case False
    then have "keys ! (length keys - 2) \<in> set keys" by simp
    then have p: "keys ! (length keys - 2) < ?t" "\<not> rt_loop r \<Longrightarrow> keys ! (length keys - 2) \<le> index"
      using assms(3) by (auto simp: list_all_iff)
    obtain a where "route_distance H r ?t (keys ! (length keys - 2)) index fzero = Inr a"
      using rd [OF p(1) assms(2) p(2)] by blast
    moreover obtain b where "route_distance H r ?t index k fzero = Inr b"
      using rd [OF assms(2) k(1)] k(2) by fastforce
    moreover obtain c where "route_distance H r ?t start k fzero = Inr c"
      using rd [OF assms(1) k(1)] k(2) assms(4) by fastforce
    ultimately show ?thesis using False by (auto simp: dense_stop_def Some [unfolded One_nat_def] Let_def)
  qed
qed

lemma dense_loop_window:
  fixes start :: nat
  assumes "is_window r start sel"
    and "index = (start + length sel) mod length (rt_waypoints r)" "start < length (rt_waypoints r)"
    and "length sel + fuel = length (rt_waypoints r)" "0 < fuel"
    and "\<not> rt_loop r \<Longrightarrow> start + length sel < length (rt_waypoints r)"
    and "length its = length (filter wp_key sel)"
    and "list_all (\<lambda>k. k < length (rt_waypoints r) \<and> (\<not> rt_loop r \<longrightarrow> k < index)) keys"
  shows "\<exists>sel1 its1. dense_loop H r lm hz start fuel index it sel its keys = Inr (sel1, its1) \<and>
    is_window r start sel1 \<and> sel1 \<noteq> [] \<and> length its1 = length (filter wp_key sel1) \<and>
    (wp_key (last sel1) \<or> rt_loop r \<and> length (rt_waypoints r) \<le> length sel1 + 1 \<or>
     \<not> rt_loop r \<and> start + length sel1 = length (rt_waypoints r))"
  using assms
proof (induction fuel arbitrary: index sel it its keys)
  case (Suc fuel)
  let ?pts = "rt_waypoints r" and ?p = "rt_waypoints r ! index"
  let ?its = "if wp_key ?p then its @ [it] else its" and ?keys = "if wp_key ?p then keys @ [index] else keys"
  have w: "is_window r start (sel @ [?p])"
    using Suc.prems by (intro is_window_snoc) auto
  have i: "(index + 1) mod length ?pts = (start + length (sel @ [?p])) mod length ?pts"
    using mod_step [OF Suc.prems(2)] by simp
  have "0 < length ?pts" using Suc.prems(3) by linarith
  then have i0: "index < length ?pts" using Suc.prems(2) by simp
  have o: "\<not> rt_loop r \<Longrightarrow> index = start + length sel" using Suc.prems(2,6) by simp
  have l: "length ?its = length (filter wp_key (sel @ [?p]))" using Suc.prems(7) by simp
  have kl: "list_all (\<lambda>k. k < length ?pts \<and> (\<not> rt_loop r \<longrightarrow> k \<le> index)) ?keys"
    using Suc.prems(8) i0 by (auto simp: list_all_iff)
  obtain stop where st: "(if wp_key ?p then dense_stop H r lm hz start index ?keys else Inr False) = Inr stop"
  proof (cases "wp_key ?p")
    case True
    have "\<not> rt_loop r \<Longrightarrow> start \<le> index" using o by simp
    from dense_stop_total [OF Suc.prems(3) i0 kl this] obtain b
      where "dense_stop H r lm hz start index ?keys = Inr b" by blast
    then show ?thesis using that True by simp
  qed (use that in simp)
  have A: "length (sel @ [?p]) + fuel = length ?pts" using Suc.prems(4) by simp
  show ?case
  proof (cases stop)
    case True
    then have "wp_key ?p" using st by (auto split: if_splits)
    then show ?thesis using w l st True by (auto simp: Let_def)
  next
    case F: False
    show ?thesis
    proof (cases "rt_loop r")
      case True
      consider "(index + 1) mod length ?pts = start" | "((index + 1) mod length ?pts + 1) mod length ?pts = start"
        | (go) "(index + 1) mod length ?pts \<noteq> start" "((index + 1) mod length ?pts + 1) mod length ?pts \<noteq> start" by blast
      then show ?thesis
      proof cases
        case 1
        then have "Suc (length sel) = length ?pts"
          using mod_turn [OF Suc.prems(3), of "Suc (length sel)"] i Suc.prems(4) by simp
        then show ?thesis using w l st F True 1 by (auto simp: Let_def)
      next
        case 2
        have e: "((index + 1) mod length ?pts + 1) mod length ?pts = (start + Suc (Suc (length sel))) mod length ?pts"
          by (simp only: mod_step [OF i]) simp
        have "length ?pts \<le> Suc (Suc (length sel))"
        proof (rule ccontr)
          assume a: "\<not> length ?pts \<le> Suc (Suc (length sel))"
          then have "Suc (Suc (length sel)) = length ?pts"
            using mod_turn [OF Suc.prems(3), of "Suc (Suc (length sel))"] 2 e by simp
          with a show False by simp
        qed
        then show ?thesis using w l st F True 2 by (auto simp: Let_def)
      next
        case go
        have pos: "0 < fuel"
        proof (rule ccontr)
          assume "\<not> 0 < fuel"
          then have "Suc (length sel) = length ?pts" using Suc.prems(4) by simp
          then show False using go(1) i Suc.prems(3) by simp
        qed
        have kl2: "list_all (\<lambda>k. k < length ?pts \<and> (\<not> rt_loop r \<longrightarrow> k < (index + 1) mod length ?pts)) ?keys"
          using kl True by (auto simp: list_all_iff)
        show ?thesis
          using Suc.IH [OF w i Suc.prems(3) A pos _ l kl2] True st F go by (simp add: Let_def)
      qed
    next
      case False
      show ?thesis
      proof (cases "length ?pts \<le> index + 1")
        case True
        then show ?thesis using w l st F False o Suc.prems(6) by (auto simp: Let_def)
      next
        case G: False
        then have m: "(index + 1) mod length ?pts = index + 1" by simp
        have B: "start + length (sel @ [?p]) < length ?pts" using G o False by simp
        have pos: "0 < fuel" using A B by auto
        have kl2: "list_all (\<lambda>k. k < length ?pts \<and> (\<not> rt_loop r \<longrightarrow> k < (index + 1) mod length ?pts)) ?keys"
          by (rule list.pred_mono_strong [OF kl]) (use m in auto)
        show ?thesis
          using Suc.IH [OF w i Suc.prems(3) A pos B l kl2] False st F G m by (simp add: Let_def)
      qed
    qed
  qed
qed simp

lemma single_loop_start:
  assumes "rt_waypoints r \<noteq> []" "start < length (rt_waypoints r)"
    and "single_loop r (length (rt_waypoints r)) start [] = (sel, index)"
  shows "is_window r start sel \<and> sel \<noteq> [] \<and> \<not> list_ex wp_key (butlast sel) \<and>
    index = (if rt_loop r then (start + length sel) mod length (rt_waypoints r) else start + length sel) \<and>
    (wp_key (last sel) \<or> rt_loop r \<and> length sel = max 1 (length (rt_waypoints r) - 1) \<or>
     \<not> rt_loop r \<and> start + length sel = length (rt_waypoints r))"
  by (rule single_loop_window [OF assms(3)]) (use assms in auto)

lemma list_ex_last: "xs \<noteq> [] \<Longrightarrow> list_ex P xs \<longleftrightarrow> list_ex P (butlast xs) \<or> P (last xs)"
  by (cases xs rule: rev_cases) (auto simp: list_ex_iff)

abbreviation start_of :: "route \<Rightarrow> int \<Rightarrow> nat" where
  "start_of r s \<equiv> nat (s mod int (length (rt_waypoints r)))"

lemma start_of_less: "rt_waypoints r \<noteq> [] \<Longrightarrow> start_of r s < length (rt_waypoints r)"
  by (simp add: nat_less_iff)

lemma start_of_int: "rt_waypoints r \<noteq> [] \<Longrightarrow> int (start_of r s) = s mod int (length (rt_waypoints r))"
  by simp

text \<open>What a chunk is: a window of the route that ends at a key.\<close>

definition chunk_ok :: "route \<Rightarrow> int \<Rightarrow> chunk \<Rightarrow> bool" where
  "chunk_ok r s c \<longleftrightarrow>
     is_window r (start_of r s) (ch_waypoints c) \<and> ch_start c = s mod int (length (rt_waypoints r)) \<and>
     (ch_waypoints c \<noteq> [] \<longrightarrow> wp_key (last (ch_waypoints c))) \<and>
     (rt_loop r \<or> ch_waypoints c \<noteq> []) \<and>
     next_start r c = (if rt_loop r then (ch_start c + int (length (ch_waypoints c))) mod int (length (rt_waypoints r))
                       else ch_start c + int (length (ch_waypoints c)))"

lemma finish_chunk_ok:
  assumes "rt_waypoints r \<noteq> []" "is_window r (start_of r s) sel" "sel \<noteq> []" "wp_key (last sel)"
  shows "chunk_ok r s (finish_chunk r (start_of r s) it sel its)"
  using assms by (simp add: chunk_ok_def finish_chunk_def next_start_def mod_add_left_eq)

lemma build_single_ok:
  assumes "build_single r s it = Inr (Some c)"
  shows "chunk_ok r s c \<and> \<not> list_ex wp_key (butlast (ch_waypoints c))"
proof -
  let ?pts = "rt_waypoints r"
  have ne: "?pts \<noteq> []" using assms by (auto simp: build_single_def Let_def)
  obtain sel0 index0 where l: "single_loop r (length ?pts) (start_of r s) [] = (sel0, index0)" by fastforce
  note W = single_loop_start [OF ne start_of_less [OF ne] l]
  show ?thesis
  proof (cases "rt_loop r \<and> \<not> wp_key (last sel0)")
    case True
    then have "\<not> list_ex wp_key sel0" using W by (auto simp: list_ex_last)
    then have "upto_last_key sel0 = []" by (rule upto_last_key_none)
    then have "ch_waypoints c = []" "ch_start c = int (start_of r s)"
      "ch_end c = (int (start_of r s mod length ?pts) - 1) mod int (length ?pts)"
      using assms l True W ne by (auto simp: build_single_def Let_def split: if_splits)
    then show ?thesis using True ne start_of_less [OF ne, of s]
      by (simp add: chunk_ok_def next_start_def mod_add_left_eq)
  next
    case False
    then have c: "ch_waypoints c = sel0" "ch_start c = int (start_of r s)"
      "ch_end c = (if rt_loop r then (int index0 - 1) mod int (length ?pts) else int index0 - 1)"
      "list_ex wp_key sel0"
      using assms l W ne by (auto simp: build_single_def Let_def split: if_splits)
    have "wp_key (last sel0)" using c(4) W by (auto simp: list_ex_last)
    moreover have "next_start r c = (if rt_loop r then (ch_start c + int (length sel0)) mod int (length ?pts)
                       else ch_start c + int (length sel0))"
      using W c ne by (simp add: next_start_def mod_add_left_eq of_nat_mod)
    ultimately show ?thesis using W c ne by (simp add: chunk_ok_def)
  qed
qed

lemma build_pair_ok:
  assumes "build_legacy_pair r s it = Inr (Some c)"
  shows "chunk_ok r s c"
proof -
  let ?pts = "rt_waypoints r"
  have ne: "?pts \<noteq> []" using assms by (auto simp: build_legacy_pair_def Let_def)
  obtain sel its where l: "pair_loop r (start_of r s) (length ?pts) (start_of r s) it [] [] = (sel, its)" by fastforce
  have W: "is_window r (start_of r s) sel \<and> sel \<noteq> []"
    using pair_loop_window [OF l] start_of_less [OF ne] ne by auto
  have ex: "list_ex wp_key sel" using assms l ne by (auto simp: build_legacy_pair_def Let_def split: if_splits)
  show ?thesis
    using assms l ne W ex upto_last_key_last [OF ex] upto_last_key_window finish_chunk_ok [OF ne]
    by (auto simp: build_legacy_pair_def Let_def split: if_splits)
qed

lemma dense_loop_start:
  assumes "rt_waypoints r \<noteq> []" "start < length (rt_waypoints r)"
  obtains sel its where
    "dense_loop H r lm hz start (length (rt_waypoints r)) start it [] [] [] = Inr (sel, its)"
    "is_window r start sel" "sel \<noteq> []"
    "wp_key (last sel) \<or> rt_loop r \<and> length (rt_waypoints r) \<le> length sel + 1 \<or>
      \<not> rt_loop r \<and> start + length sel = length (rt_waypoints r)"
  using dense_loop_window [of r start "[]" start "length (rt_waypoints r)" "[]" "[]" H lm hz it] assms by auto

lemma build_dense_ok:
  assumes "build_adaptive_dense H r s it lm hz = Inr (Some c)"
  shows "chunk_ok r s c"
proof -
  let ?pts = "rt_waypoints r"
  have ne: "?pts \<noteq> []" using assms by (auto simp: build_adaptive_dense_def Let_def split: if_splits)
  obtain sel its where l: "dense_loop H r lm hz (start_of r s) (length ?pts) (start_of r s) it [] [] [] = Inr (sel, its)"
    and W: "is_window r (start_of r s) sel" "sel \<noteq> []"
    using dense_loop_start [OF ne start_of_less [OF ne]] by blast
  have ex: "list_ex wp_key sel" using assms l ne by (auto simp: build_adaptive_dense_def Let_def split: if_splits)
  show ?thesis
    using assms l ne W ex upto_last_key_last [OF ex] upto_last_key_window finish_chunk_ok [OF ne]
    by (auto simp: build_adaptive_dense_def Let_def split: if_splits)
qed

lemma build_ok: "build_chunk H mode lm hz r s it = Inr (Some c) \<Longrightarrow> chunk_ok r s c"
  using build_single_ok build_pair_ok build_dense_ok
  by (auto simp: build_chunk_def split: if_splits)

subsection \<open>Open routes\<close>

lemma window_open: "start + n \<le> length (rt_waypoints r) \<Longrightarrow> window r start n = take n (drop start (rt_waypoints r))"
  by (rule nth_equalityI) (auto simp: window_def)

lemma window_last_open:
  "is_window r start sel \<Longrightarrow> \<not> rt_loop r \<Longrightarrow> sel \<noteq> [] \<Longrightarrow> start + length sel = length (rt_waypoints r) \<Longrightarrow>
     last sel = last (rt_waypoints r)"
proof -
  assume a: "is_window r start sel" "\<not> rt_loop r" "sel \<noteq> []" "start + length sel = length (rt_waypoints r)"
  have "sel = drop start (rt_waypoints r)"
    using a window_open [of start "length sel" r] by (auto simp: is_window_def)
  then show ?thesis using a by (metis last_drop drop_eq_Nil linorder_not_le)
qed

definition valid_mode :: "string \<Rightarrow> bool" where
  "valid_mode mode \<longleftrightarrow> mode = ''single_checkpoint'' \<or> mode = ''legacy_pair'' \<or> mode = ''adaptive_dense''"

lemma build_open_total:
  assumes "\<not> rt_loop r" "rt_waypoints r \<noteq> []" "wp_key (last (rt_waypoints r))" "0 \<le> s"
    "s < int (length (rt_waypoints r))" "valid_mode mode" "flt fzero lm" "flt fzero hz"
  shows "\<exists>c. build_chunk H mode lm hz r s it = Inr (Some c)"
proof -
  let ?pts = "rt_waypoints r" and ?s = "start_of r s"
  have st: "?s < length ?pts" using start_of_less [OF assms(2)] .
  have ex: "list_ex wp_key sel" if "is_window r ?s sel" "sel \<noteq> []" "wp_key (last sel) \<or> ?s + length sel = length ?pts" for sel
    using that window_last_open [OF that(1) assms(1) that(2)] assms(3) by (auto simp: list_ex_last)
  have nd: "\<not> fle lm fzero" "\<not> fle hz fzero"
    using assms(7,8) by (simp_all add: flt_not_fle)
  show ?thesis
  proof (cases "mode = ''legacy_pair''")
    case True
    obtain sel its where l: "pair_loop r ?s (length ?pts) ?s it [] [] = (sel, its)" by fastforce
    have "list_ex wp_key sel" using pair_loop_window [OF l] st assms(1,2) by (intro ex) auto
    then show ?thesis using l True assms by (auto simp: build_chunk_def build_legacy_pair_def Let_def)
  next
    case F: False
    show ?thesis
    proof (cases "mode = ''adaptive_dense''")
      case True
      obtain sel its where l: "dense_loop H r lm hz ?s (length ?pts) ?s it [] [] [] = Inr (sel, its)"
        "is_window r ?s sel" "sel \<noteq> []" "wp_key (last sel) \<or> ?s + length sel = length ?pts"
        using dense_loop_start [OF assms(2) st, of H lm hz it] assms(1) by metis
      have "list_ex wp_key sel" by (rule ex [OF l(2-4)])
      then show ?thesis using l True assms nd by (auto simp: build_chunk_def build_adaptive_dense_def Let_def)
    next
      case False
      obtain sel index where l: "single_loop r (length ?pts) ?s [] = (sel, index)" by fastforce
      have "list_ex wp_key sel" using single_loop_start [OF assms(2) st l] assms(1) by (intro ex) auto
      then show ?thesis using l F False assms
        by (auto simp: build_chunk_def build_single_def Let_def valid_mode_def)
    qed
  qed
qed

text \<open>
  The chunks of a route that \<open>build_chunk\<close> makes one after the other, each from \<open>next_start\<close> of the last. Moving the start over points
  already reached and cutting a chunk at the horizon, which \<open>_dispatch\<close> does around it, are not part of it.
\<close>

primrec plan ::
    "hypot \<Rightarrow> string \<Rightarrow> pyfloat \<Rightarrow> pyfloat \<Rightarrow> route \<Rightarrow> nat \<Rightarrow> int \<Rightarrow> chunk list" where
  "plan H mode lm hz r 0 s = []"
| "plan H mode lm hz r (Suc n) s =
     (case build_chunk H mode lm hz r s 0 of
        Inr (Some c) \<Rightarrow> c # plan H mode lm hz r n (next_start r c)
      | _ \<Rightarrow> [])"

lemma plan_open:
  assumes "\<not> rt_loop r" "rt_waypoints r \<noteq> []" "wp_key (last (rt_waypoints r))"
    "valid_mode mode" "flt fzero lm" "flt fzero hz"
  shows "s \<le> length (rt_waypoints r) \<Longrightarrow> length (rt_waypoints r) - s \<le> n \<Longrightarrow>
     concat (map ch_waypoints (plan H mode lm hz r n (int s))) = drop s (rt_waypoints r) \<and>
     list_all (\<lambda>c. ch_waypoints c \<noteq> [] \<and> wp_key (last (ch_waypoints c))) (plan H mode lm hz r n (int s))"
proof (induction n arbitrary: s)
  case (Suc n)
  let ?pts = "rt_waypoints r"
  show ?case
  proof (cases "s = length ?pts")
    case True
    then have "build_chunk H mode lm hz r (int s) 0 \<noteq> Inr (Some c)" for c
      using assms(1) by (auto simp: build_chunk_def build_single_def build_legacy_pair_def build_adaptive_dense_def Let_def)
    then show ?thesis using True by (auto split: sum.splits option.splits)
  next
    case False
    then have s: "s < length ?pts" using Suc.prems by simp
    obtain c where c: "build_chunk H mode lm hz r (int s) 0 = Inr (Some c)"
      using build_open_total [OF assms(1-3) _ _ assms(4-6), of "int s" H 0] s by auto
    have ok: "chunk_ok r (int s) c" using build_ok [OF c] .
    have so: "start_of r (int s) = s" using s by simp
    have w: "ch_waypoints c = take (length (ch_waypoints c)) (drop s ?pts)" "s + length (ch_waypoints c) \<le> length ?pts"
      using ok assms(1) so window_open [of s "length (ch_waypoints c)" r] by (auto simp: chunk_ok_def is_window_def)
    have nn: "ch_waypoints c \<noteq> []" "wp_key (last (ch_waypoints c))" "next_start r c = int (s + length (ch_waypoints c))"
      using ok assms(1) s by (auto simp: chunk_ok_def)
    have "0 < length (ch_waypoints c)" using nn(1) by simp
    then have "length ?pts - (s + length (ch_waypoints c)) \<le> n" using Suc.prems(2) w(2) by linarith
    then have IH: "concat (map ch_waypoints (plan H mode lm hz r n (int (s + length (ch_waypoints c))))) = drop (s + length (ch_waypoints c)) ?pts"
      "list_all (\<lambda>c. ch_waypoints c \<noteq> [] \<and> wp_key (last (ch_waypoints c))) (plan H mode lm hz r n (int (s + length (ch_waypoints c))))"
      using Suc.IH [of "s + length (ch_waypoints c)"] w(2) by simp_all
    have "ch_waypoints c @ drop (s + length (ch_waypoints c)) ?pts = drop s ?pts"
      by (subst w(1)) (metis add.commute append_take_drop_id drop_drop)
    then show ?thesis using c nn IH by simp
  qed
qed simp

subsection \<open>Properties\<close>

text \<open>
  C32. The chunks of an open route cover it exactly: for a non-empty open route that ends at a
  checkpoint, in every chunk mode, dispatching chunk after chunk from the first waypoint yields
  non-empty windows that each end at a checkpoint, and their concatenation is the route: no waypoint
  is skipped, repeated or reordered, and planning ends.
\<close>

theorem open_route_covered:
  assumes "\<not> rt_loop r" "rt_waypoints r \<noteq> []" "wp_key (last (rt_waypoints r))" "valid_mode mode"
    "flt fzero lm" "flt fzero hz"
  shows "concat (map ch_waypoints (plan H mode lm hz r (length (rt_waypoints r)) 0)) = rt_waypoints r \<and>
    list_all (\<lambda>c. ch_waypoints c \<noteq> [] \<and> wp_key (last (ch_waypoints c)))
      (plan H mode lm hz r (length (rt_waypoints r)) 0)"
  using plan_open [OF assms, of 0 "length (rt_waypoints r)" H] by simp

text \<open>
  Loops keep moving: on a loop with at least two checkpoints, from every start, a single-checkpoint
  chunk exists, is not empty, ends at a checkpoint and contains no other checkpoint.
\<close>

lemma loop_chunk_progress:
  assumes "rt_loop r" "i < j" "j < length (rt_waypoints r)"
    and "wp_key (rt_waypoints r ! i)" "wp_key (rt_waypoints r ! j)"
  shows "\<exists>c. build_chunk H ''single_checkpoint'' lm hz r s it = Inr (Some c) \<and> ch_waypoints c \<noteq> [] \<and>
    wp_key (last (ch_waypoints c)) \<and> \<not> list_ex wp_key (butlast (ch_waypoints c))"
proof -
  let ?pts = "rt_waypoints r" and ?s = "start_of r s" and ?t = "length (rt_waypoints r)"
  have ne: "?pts \<noteq> []" using assms by auto
  have st: "?s < ?t" using start_of_less [OF ne] .
  obtain sel index where l: "single_loop r ?t ?s [] = (sel, index)" by fastforce
  note W = single_loop_start [OF ne st l]
  have last: "wp_key (last sel)"
  proof (rule ccontr)
    assume a: "\<not> wp_key (last sel)"
    then have len: "length sel = ?t - 1" and nk: "\<not> list_ex wp_key sel"
      using W assms by (auto simp: max_def list_ex_last split: if_splits)
    have hit: "wp_key (?pts ! k) \<Longrightarrow> k < ?t \<Longrightarrow> k = (?s + (?t - 1)) mod ?t" for k
    proof (rule ccontr)
      assume k: "wp_key (?pts ! k)" "k < ?t" "k \<noteq> (?s + (?t - 1)) mod ?t"
      define d where "d = (if ?s \<le> k then k - ?s else k + ?t - ?s)"
      have d: "(?s + d) mod ?t = k" "d < ?t" using k(2) st by (auto simp: d_def)
      then have "d \<noteq> ?t - 1" using k(3) by auto
      then have "d < length sel" using d(2) len by simp
      then have "?pts ! k \<in> set (window r ?s (length sel))" using d(1) by (force simp: window_def)
      then show False using k(1) nk W by (auto simp: is_window_def list_ex_iff)
    qed
    from hit [OF assms(4)] hit [OF assms(5)] assms(2,3) show False by simp
  qed
  then have "build_chunk H ''single_checkpoint'' lm hz r s it = Inr (Some
      \<lparr> ch_waypoints = sel, ch_start = int ?s, ch_end = (int index - 1) mod int ?t,
        ch_iteration = it, ch_iterations = [] \<rparr>)"
    using l W assms(1) ne by (auto simp: build_chunk_def build_single_def Let_def list_ex_last)
  then show ?thesis using last W by simp
qed

definition steps_from :: "route \<Rightarrow> nat \<Rightarrow> nat \<Rightarrow> nat" where
  "steps_from r i m = (if rt_loop r then (i + m) mod length (rt_waypoints r) else i + m)"

text \<open>The points skipped when moving \<open>m\<close> steps on from \<open>i\<close>.\<close>

definition skips_ok :: "route \<Rightarrow> (nat \<Rightarrow> bool) \<Rightarrow> nat \<Rightarrow> nat \<Rightarrow> bool" where
  "skips_ok r prot i m \<longleftrightarrow>
     list_all (\<lambda>k. \<not> wp_key (rt_waypoints r ! steps_from r i k) \<and> \<not> prot (steps_from r i k)) [0..<m] \<and>
     (\<not> rt_loop r \<longrightarrow> i + m \<le> length (rt_waypoints r))"

lemma steps_from_add: "steps_from r (steps_from r i a) b = steps_from r i (a + b)"
  by (simp add: steps_from_def mod_add_left_eq add.assoc)

lemma skips_ok_add:
  assumes "skips_ok r prot i a" "skips_ok r prot (steps_from r i a) b"
  shows "skips_ok r prot i (a + b)"
proof -
  have "k < a + b \<Longrightarrow> \<not> wp_key (rt_waypoints r ! steps_from r i k) \<and> \<not> prot (steps_from r i k)" for k
  proof (cases "k < a")
    case False
    assume "k < a + b"
    then have "k - a < b" using False by simp
    then have "\<not> wp_key (rt_waypoints r ! steps_from r (steps_from r i a) (k - a)) \<and>
        \<not> prot (steps_from r (steps_from r i a) (k - a))"
      using assms(2) by (simp add: skips_ok_def list_all_iff)
    then show ?thesis using False by (simp add: steps_from_add)
  qed (use assms(1) in \<open>auto simp: skips_ok_def list_all_iff\<close>)
  then show ?thesis using assms by (auto simp: skips_ok_def list_all_iff steps_from_def)
qed

lemma skips_ok_0: "\<not> rt_loop r \<Longrightarrow> i \<le> length (rt_waypoints r) \<Longrightarrow> skips_ok r prot i 0"
    "rt_loop r \<Longrightarrow> skips_ok r prot i 0"
  by (simp_all add: skips_ok_def)

lemma skips_ok_1: "i < length (rt_waypoints r) \<Longrightarrow> \<not> wp_key (rt_waypoints r ! i) \<Longrightarrow> \<not> prot i \<Longrightarrow>
    skips_ok r prot i 1"
  by (auto simp: skips_ok_def steps_from_def)

lemma skip_reached_steps:
  "skip_reached H r prot x y tol n cur k = (cur1, k1) \<Longrightarrow> cur < length (rt_waypoints r) \<Longrightarrow>
     \<exists>m. cur1 = steps_from r cur m \<and> skips_ok r prot cur m"
proof (induction n arbitrary: cur k)
  case 0
  then show ?case by (intro exI [of _ 0]) (auto simp: steps_from_def skips_ok_def)
next
  case (Suc n)
  let ?t = "length (rt_waypoints r)"
  show ?case
  proof (cases "cur1 = cur")
    case True
    then show ?thesis using Suc.prems(2) by (intro exI [of _ 0]) (auto simp: steps_from_def skips_ok_def)
  next
    case False
    then have s: "skips_ok r prot cur 1" 
      using Suc.prems by (intro skips_ok_1) (auto simp: Let_def split: if_splits)
    show ?thesis
    proof (cases "\<not> rt_loop r \<and> ?t \<le> cur + 1")
      case True
      then have "cur1 = ?t" using Suc.prems False by (auto simp: Let_def split: if_splits)
      then show ?thesis using True s Suc.prems(2) by (intro exI [of _ 1]) (auto simp: steps_from_def)
    next
      case F: False
      have "skip_reached H r prot x y tol n (steps_from r cur 1) (k + 1) = (cur1, k1)"
        using Suc.prems(1) False F by (auto simp: Let_def steps_from_def split: if_splits)
      moreover have "0 < ?t" using Suc.prems(2) by linarith
      then have "steps_from r cur 1 < ?t" using F Suc.prems(2) by (auto simp: steps_from_def)
      ultimately obtain m where m: "cur1 = steps_from r (steps_from r cur 1) m" "skips_ok r prot (steps_from r cur 1) m"
        using Suc.IH by blast
      then show ?thesis using skips_ok_add [OF s m(2)] by (auto simp: steps_from_add)
    qed
  qed
qed

lemma skip_synthetic_steps:
  "skip_synthetic H r prot x y tol n cur k = (cur1, k1) \<Longrightarrow> cur \<le> length (rt_waypoints r) \<Longrightarrow>
     \<exists>m. cur1 = steps_from r cur m \<and> skips_ok r prot cur m \<or> cur1 = cur"
proof (induction n arbitrary: cur k)
  case 0
  then show ?case by simp
next
  case (Suc n)
  let ?t = "length (rt_waypoints r)" and ?nxt = "steps_from r cur 1"
  have nx: "(if rt_loop r then (cur + 1) mod ?t else cur + 1) = ?nxt" by (simp add: steps_from_def)
  show ?case
  proof (cases "cur1 = cur")
    case False
    have c: "cur < ?t" "\<not> wp_key (rt_waypoints r ! cur)" "\<not> prot cur" "rt_loop r \<or> ?nxt < ?t"
      and rec: "skip_synthetic H r prot x y tol n ?nxt (k + 1) = (cur1, k1)"
      using Suc.prems(1) False by (auto simp: Let_def nx split: if_splits)
    have s: "skips_ok r prot cur 1" by (rule skips_ok_1) (use c in auto)
    have "0 < ?t" using c(1) by linarith
    then have "?nxt \<le> ?t" using c(4) by (cases "rt_loop r") (auto simp: steps_from_def less_imp_le)
    from Suc.IH [OF rec this] obtain m where
      "cur1 = steps_from r ?nxt m \<and> skips_ok r prot ?nxt m \<or> cur1 = ?nxt" by blast
    then show ?thesis using s skips_ok_add [OF s, of m] by (auto simp: steps_from_add)
  qed auto
qed

text \<open>
  Pruning before a dispatch only moves forward and only skips synthetic geometry: the resolved
  start lies some steps after the requested one in route order, and none of the waypoints skipped
  on the way is a checkpoint or a protected index.
\<close>

lemma dispatch_start_forward:
  assumes "ds_index (resolve_dispatch_start H r start robot tol1 tol2 protected) = Some i"
  shows "\<exists>m. i = steps_from r (steps_from r (nat (max 0 start)) 0) m \<and>
    skips_ok r (\<lambda>k. int k \<in> set protected) (steps_from r (nat (max 0 start)) 0) m"
proof -
  let ?t = "length (rt_waypoints r)" and ?c = "steps_from r (nat (max 0 start)) 0"
  define prot where "prot = (\<lambda>i. int i \<in> set protected \<or> i < ?t \<and> wp_key (rt_waypoints r ! i) \<and> wp_action (rt_waypoints r ! i) \<noteq> [])"
  have ne: "rt_waypoints r \<noteq> []" and op: "rt_loop r \<or> nat (max 0 start) < ?t"
    using assms by (auto simp: resolve_dispatch_start_def Let_def split: if_splits)
  have c: "?c < ?t" using ne op by (cases "rt_loop r") (auto simp: steps_from_def)
  have z: "\<exists>m. ?c = steps_from r ?c m \<and> skips_ok r prot ?c m"
    using c by (intro exI [of _ 0]) (auto simp: steps_from_def skips_ok_def)
  have weak: "skips_ok r prot ?c m \<Longrightarrow> skips_ok r (\<lambda>k. int k \<in> set protected) ?c m" for m
    by (auto simp: skips_ok_def list_all_iff prot_def)
  show ?thesis
  proof (cases "\<exists>x y. robot = Some (x, y) \<and> isfinite x \<and> isfinite y")
    case False
    then have "i = ?c" using assms ne op
      by (auto simp: resolve_dispatch_start_def Let_def steps_from_def split: if_splits option.splits)
    then show ?thesis using z weak by blast
  next
    case True
    then obtain x y where rb: "robot = Some (x, y)" "isfinite x" "isfinite y" by blast
    obtain c1 k1 where s1: "skip_reached H r prot x y (pymax (fl (5 / 100)) tol1) (?t - 1) ?c 0 = (c1, k1)" by fastforce
    obtain c2 k2 where s2: "skip_synthetic H r prot x y (pymax (fl (5 / 100)) tol2) (?t - 1) c1 0 = (c2, k2)" by fastforce
    have i: "i = c2" using assms ne op rb s1 s2
      by (auto simp: resolve_dispatch_start_def Let_def steps_from_def prot_def split: if_splits)
    obtain m1 where m1: "c1 = steps_from r ?c m1" "skips_ok r prot ?c m1"
      using skip_reached_steps [OF s1 c] by blast
    have "0 < ?t" using c by linarith
    then have "c1 \<le> ?t" using m1 by (cases "rt_loop r") (auto simp: steps_from_def skips_ok_def less_imp_le)
    from skip_synthetic_steps [OF s2 this] obtain m2 where
      "c2 = steps_from r c1 m2 \<and> skips_ok r prot c1 m2 \<or> c2 = c1" by blast
    then have "\<exists>m. c2 = steps_from r ?c m \<and> skips_ok r prot ?c m"
      using m1 skips_ok_add [OF m1(2), of m2] by (auto simp: steps_from_add)
    then show ?thesis using weak i by blast
  qed
qed

subsection \<open>Witnesses\<close>

definition sample_point :: "bool \<Rightarrow> waypoint" where
  "sample_point key = \<lparr> wp_lat = fzero, wp_lon = fzero, wp_yaw = fzero, wp_input_index = 0, wp_key = key,
     wp_action = [], wp_role = ''normal'', wp_x = Some fzero, wp_y = None, wp_yaw_explicit = False \<rparr>"

definition sample_route :: "bool \<Rightarrow> route" where
  "sample_route loop = \<lparr> rt_waypoints = [sample_point True, sample_point False, sample_point True],
     rt_loop = loop, rt_input_count = 2, rt_leg_spacing = Fin 5, rt_chunk_span = Fin 30, rt_chunk_max = 10 \<rparr>"

lemma open_route_covered_witness:
  "concat (map ch_waypoints (plan (\<lambda>x y. fzero) ''legacy_pair'' (Fin 8) (Fin 35) (sample_route False) 3 0)) =
     rt_waypoints (sample_route False)"
  using open_route_covered [of "sample_route False" "''legacy_pair''" "Fin 8" "Fin 35" "\<lambda>x y. fzero"]
  by (simp add: sample_route_def sample_point_def valid_mode_def numeral_3_eq_3 del: plan.simps)

lemma loop_chunk_progress_witness:
  "\<exists>c. build_chunk (\<lambda>x y. fzero) ''single_checkpoint'' (Fin 8) (Fin 35) (sample_route True) 7 0 = Inr (Some c) \<and>
     wp_key (last (ch_waypoints c))"
  using loop_chunk_progress [of "sample_route True" 0 2 "\<lambda>x y. fzero" "Fin 8" "Fin 35" 7 0]
  by (auto simp: sample_route_def sample_point_def)

lemma sample_dispatch: "ds_index (resolve_dispatch_start (\<lambda>x y. fzero) (sample_route True) 1 None (Fin 1) (Fin 1) []) = Some 1"
  by (simp add: resolve_dispatch_start_def sample_route_def Let_def)

lemma dispatch_start_forward_witness:
  "\<exists>m. 1 = steps_from (sample_route True) (steps_from (sample_route True) 1 0) m"
  using dispatch_start_forward [OF sample_dispatch] by (auto simp: nat_numeral)

end
