(* ===== verification/Route_Recovery.thy ===== *)
theory Route_Recovery
  imports Route_Chunker
begin

section \<open>Mission phases, checkpoint evidence and blocked recovery\<close>

text \<open>
  \<open>salus_navigation/route_state_machine.py\<close>, \<open>route_checkpoint_tracker.py\<close> and \<open>route_recovery.py\<close>:
  the allowed phase changes of a route mission, the tracker that credits checkpoints from odometry,
  the pending part of a chunk, the recovery policy with its retry budget, and the forward re-anchor.
\<close>

subsection \<open>Route phases\<close>

datatype route_phase = RIdle | RPreparing | RActive | RPaused | RCompleted | RCancelled | RAborted

fun allowed_phases :: "route_phase \<Rightarrow> route_phase list" where
  "allowed_phases RIdle = [RPreparing]"
| "allowed_phases RPreparing = [RActive, RAborted]"
| "allowed_phases RActive = [RPaused, RCompleted, RCancelled, RAborted]"
| "allowed_phases RPaused = [RCancelled, RAborted]"
| "allowed_phases RCompleted = [RPreparing]"
| "allowed_phases RCancelled = [RPreparing]"
| "allowed_phases RAborted = [RPreparing]"

record mission =
  mi_prepared :: "route option"
  mi_phase :: route_phase
  mi_id :: string
  mi_target :: int
  mi_chunk :: int
  mi_iteration :: int
  mi_reached :: int
  mi_pause_reason :: string

text \<open>\<open>None\<close>: the \<open>ValueError\<close> of an invalid transition.\<close>

definition transition :: "mission \<Rightarrow> route_phase \<Rightarrow> string \<Rightarrow> mission option" where
  "transition m target reason =
     (if target \<in> set (allowed_phases (mi_phase m))
      then Some (m \<lparr> mi_phase := target, mi_pause_reason := reason \<rparr>) else None)"

inductive phase_step :: "route_phase \<Rightarrow> route_phase \<Rightarrow> bool" where
  "transition m target reason = Some m1 \<Longrightarrow> phase_step (mi_phase m) (mi_phase m1)"

inductive_cases phase_stepE: "phase_step a b"

inductive_simps phase_step_simps: "phase_step a b"

lemma phase_step_iff: "phase_step a b \<longleftrightarrow> b \<in> set (allowed_phases a)"
proof
  assume "b \<in> set (allowed_phases a)"
  then have "transition (m0 \<lparr> mi_phase := a \<rparr>) b [] = Some (m0 \<lparr> mi_phase := b, mi_pause_reason := [] \<rparr>)" for m0
    by (simp add: transition_def)
  from phase_step.intros [OF this] show "phase_step a b" by simp
qed (auto elim!: phase_stepE simp: transition_def split: if_splits)

lemma active_after_preparing: "phase_step a RActive \<Longrightarrow> a = RPreparing"
  by (cases a) (auto simp: phase_step_iff)

subsection \<open>Checkpoint evidence\<close>

record occurrence =
  oc_index :: int
  oc_iteration :: int
  oc_x :: pyfloat
  oc_y :: pyfloat

record pose_sample =
  ps_x :: pyfloat
  ps_y :: pyfloat
  ps_stamp :: pyfloat
  ps_received :: pyfloat

datatype evidence_reason =
    InvalidPose | NonPositiveStamp | NonMonotonicStamp | ClockRegression | StalePose
  | NothingPending | OutsideRadius | WithinRadius

record evidence =
  ev_accepted :: bool
  ev_reason :: evidence_reason
  ev_occurrence :: "occurrence option"
  ev_distance :: "pyfloat option"

record tracker =
  tk_occurrences :: "occurrence list"
  tk_radius :: pyfloat
  tk_max_age :: pyfloat
  tk_future :: pyfloat
  tk_next :: nat
  tk_last :: "pyfloat option"
  tk_min :: "pyfloat list"

datatype tracker_error = BadRadius | BadAge | BadFuture | BadCoordinates

definition new_tracker ::
    "occurrence list \<Rightarrow> pyfloat \<Rightarrow> pyfloat \<Rightarrow> pyfloat \<Rightarrow> tracker_error + tracker" where
  "new_tracker occs radius max_age future =
     bind_res (raise_if (\<not> isfinite radius \<or> fle radius fzero) BadRadius) (\<lambda>_.
     bind_res (raise_if (\<not> isfinite max_age \<or> \<not> (flt fzero max_age \<and> fle max_age (Fin 2))) BadAge) (\<lambda>_.
     bind_res (raise_if (\<not> isfinite future \<or> flt future fzero) BadFuture) (\<lambda>_.
     bind_res (raise_if (list_ex (\<lambda>oc. \<not> (isfinite (oc_x oc) \<and> isfinite (oc_y oc))) occs) BadCoordinates) (\<lambda>_.
       Inr \<lparr> tk_occurrences = occs, tk_radius = radius, tk_max_age = max_age, tk_future = future,
             tk_next = 0, tk_last = None, tk_min = replicate (length occs) PInf \<rparr>))))"

definition tk_complete :: "tracker \<Rightarrow> bool" where
  "tk_complete t = (tk_next t = length (tk_occurrences t))"

definition tk_acknowledged :: "tracker \<Rightarrow> occurrence list" where
  "tk_acknowledged t = take (tk_next t) (tk_occurrences t)"

definition tk_pending :: "tracker \<Rightarrow> occurrence list" where
  "tk_pending t = drop (tk_next t) (tk_occurrences t)"

definition no_evidence :: "evidence_reason \<Rightarrow> evidence" where
  "no_evidence r = \<lparr> ev_accepted = False, ev_reason = r, ev_occurrence = None, ev_distance = None \<rparr>"

text \<open>The checks of \<open>observe\<close> before the stamp is recorded.\<close>

definition sample_problem :: "tracker \<Rightarrow> pose_sample \<Rightarrow> pyfloat \<Rightarrow> pyfloat \<Rightarrow> evidence_reason option" where
  "sample_problem t s now_ros now_steady =
     (if \<not> list_all isfinite [ps_x s, ps_y s, ps_stamp s, ps_received s, now_ros, now_steady] then Some InvalidPose
      else if fle (ps_stamp s) fzero then Some NonPositiveStamp
      else if (case tk_last t of None \<Rightarrow> False | Some l \<Rightarrow> fle (ps_stamp s) l) then Some NonMonotonicStamp
      else
        (let ros_age = fsub now_ros (ps_stamp s); steady_age = fsub now_steady (ps_received s) in
         if flt ros_age (fneg (tk_future t)) \<or> flt steady_age fzero then Some ClockRegression
         else if flt (tk_max_age t) ros_age \<or> flt (tk_max_age t) steady_age then Some StalePose
         else None))"

definition observe :: "hypot \<Rightarrow> tracker \<Rightarrow> pose_sample \<Rightarrow> pyfloat \<Rightarrow> pyfloat \<Rightarrow> tracker \<times> evidence" where
  "observe H t s now_ros now_steady =
     (case sample_problem t s now_ros now_steady of
        Some r \<Rightarrow> (t, no_evidence r)
      | None \<Rightarrow>
          (let t1 = t \<lparr> tk_last := Some (ps_stamp s) \<rparr> in
           if tk_complete t1 then (t1, no_evidence NothingPending)
           else
             (let oc = tk_occurrences t ! tk_next t;
                  distance = H (fsub (ps_x s) (oc_x oc)) (fsub (ps_y s) (oc_y oc));
                  t2 = t1 \<lparr> tk_min := (tk_min t)[tk_next t := pymin (tk_min t ! tk_next t) distance] \<rparr>
              in if flt (tk_radius t) distance
                 then (t2, (no_evidence OutsideRadius) \<lparr> ev_distance := Some distance \<rparr>)
                 else (t2 \<lparr> tk_next := tk_next t + 1 \<rparr>,
                       \<lparr> ev_accepted = True, ev_reason = WithinRadius, ev_occurrence = Some oc,
                         ev_distance = Some distance \<rparr>))))"

type_synonym observation = "pose_sample \<times> pyfloat \<times> pyfloat"

definition tracker_step :: "hypot \<Rightarrow> tracker \<Rightarrow> observation \<Rightarrow> tracker \<times> evidence list" where
  "tracker_step H t = (\<lambda>(s, now_ros, now_steady).
     (let (t1, e) = observe H t s now_ros now_steady in (t1, [e])))"

definition tracker_inv :: "tracker \<Rightarrow> bool" where
  "tracker_inv t \<longleftrightarrow> tk_next t \<le> length (tk_occurrences t) \<and> length (tk_min t) = length (tk_occurrences t) \<and>
     (case tk_last t of None \<Rightarrow> True | Some l \<Rightarrow> isfinite l)"

lemma sample_problem_None:
  "sample_problem t s nr ns = None \<Longrightarrow> isfinite (ps_stamp s) \<and>
     (case tk_last t of None \<Rightarrow> True | Some l \<Rightarrow> \<not> fle (ps_stamp s) l)"
  by (auto simp: sample_problem_def Let_def split: if_splits option.splits)

lemma observe_inv: "tracker_inv t \<Longrightarrow> tracker_inv (fst (observe H t s nr ns))"
  using sample_problem_None [of t s nr ns]
  by (auto simp: observe_def tracker_inv_def tk_complete_def Let_def split: option.splits)

interpretation tracker: machine "tracker_step H" tracker_inv for H
  by unfold_locales (use observe_inv in \<open>auto simp: tracker_step_def Let_def split: prod.splits\<close>; metis fst_conv observe_inv)

text \<open>The stamp of a finite float, and the gate of the recorded stamps.\<close>

fun finite_stamp :: "pyfloat option \<Rightarrow> rat option" where
  "finite_stamp (Some (Fin q)) = Some q"
| "finite_stamp x = None"

definition tracker_next :: "hypot \<Rightarrow> tracker \<Rightarrow> observation \<Rightarrow> tracker" where
  "tracker_next H t i = fst (tracker_step H t i)"

definition tracker_records :: "tracker \<Rightarrow> observation \<Rightarrow> bool" where
  "tracker_records t = (\<lambda>(s, nr, ns). sample_problem t s nr ns = None)"

definition observation_stamp :: "observation \<Rightarrow> rat" where
  "observation_stamp = (\<lambda>(s, nr, ns). case ps_stamp s of Fin q \<Rightarrow> q | _ \<Rightarrow> 0)"

lemma observe_last:
  "tk_last (fst (observe H t s nr ns)) =
     (if sample_problem t s nr ns = None then Some (ps_stamp s) else tk_last t)"
  by (cases "sample_problem t s nr ns") (auto simp: observe_def Let_def)

interpretation tracker_gate: stamp_gate "tracker_next H" tracker_records observation_stamp
    "\<lambda>t. finite_stamp (tk_last t)" for H
proof
  fix t i k
  assume a: "tracker_records t i" "finite_stamp (tk_last t) = Some k"
  obtain s nr ns where i: "i = (s, nr, ns)" by (cases i)
  have l: "tk_last t = Some (Fin k)" using a(2) by (cases "tk_last t" rule: finite_stamp.cases) auto
  have "isfinite (ps_stamp s)" "\<not> fle (ps_stamp s) (Fin k)"
    using a(1) sample_problem_None [of t s nr ns] l by (auto simp: tracker_records_def i)
  then show "k < observation_stamp i"
    by (cases "ps_stamp s") (auto simp: observation_stamp_def i)
next
  fix t i
  assume a: "tracker_records t i"
  obtain s nr ns where i: "i = (s, nr, ns)" by (cases i)
  then have f: "isfinite (ps_stamp s)" using a sample_problem_None [of t s nr ns] by (auto simp: tracker_records_def)
  have "tk_last (fst (observe H t s nr ns)) = Some (ps_stamp s)"
    using a by (simp add: i tracker_records_def observe_last)
  then show "finite_stamp (tk_last (tracker_next H t i)) = Some (observation_stamp i)"
    using f by (cases "observe H t s nr ns"; cases "ps_stamp s")
      (simp_all add: i tracker_next_def tracker_step_def observation_stamp_def)
next
  fix t i
  assume a: "\<not> tracker_records t i"
  obtain s nr ns where i: "i = (s, nr, ns)" by (cases i)
  have "tk_last (fst (observe H t s nr ns)) = tk_last t" using a by (auto simp: i tracker_records_def observe_last)
  then show "finite_stamp (tk_last (tracker_next H t i)) = finite_stamp (tk_last t)"
    by (cases "observe H t s nr ns") (simp add: i tracker_next_def tracker_step_def)
qed

text \<open>The credited checkpoints of a run are those the final state acknowledges and the first did not.\<close>

definition credited :: "evidence list \<Rightarrow> occurrence option list" where
  "credited es = map ev_occurrence (filter ev_accepted es)"

text \<open>
  A credit that is earned: the observed pose is within the radius of the credited checkpoint, that distance is the reported one, and
  the pose is fresh on both clocks.
\<close>

definition pose_distance :: "hypot \<Rightarrow> pose_sample \<Rightarrow> occurrence \<Rightarrow> pyfloat" where
  "pose_distance H s oc = H (fsub (ps_x s) (oc_x oc)) (fsub (ps_y s) (oc_y oc))"

definition credit_earned :: "hypot \<Rightarrow> pyfloat \<Rightarrow> pyfloat \<Rightarrow> observation \<Rightarrow> evidence \<Rightarrow> bool" where
  "credit_earned H radius max_age = (\<lambda>(s, now_ros, now_steady) e.
     ev_accepted e \<longrightarrow> (\<exists>oc. ev_occurrence e = Some oc \<and> ev_distance e = Some (pose_distance H s oc) \<and>
       \<not> flt radius (pose_distance H s oc) \<and>
       \<not> flt max_age (fsub now_ros (ps_stamp s)) \<and> \<not> flt max_age (fsub now_steady (ps_received s))))"

lemma observe_credit:
  assumes "tracker_inv t" "observe H t s nr ns = (t1, e)"
  shows "tk_occurrences t1 = tk_occurrences t \<and> tk_radius t1 = tk_radius t \<and>
    map Some (tk_pending t) = credited [e] @ map Some (tk_pending t1) \<and>
    tk_max_age t1 = tk_max_age t \<and> credit_earned H (tk_radius t) (tk_max_age t) (s, nr, ns) e"
proof -
  have "tk_next t < length (tk_occurrences t) \<Longrightarrow>
    drop (tk_next t) (tk_occurrences t) = tk_occurrences t ! tk_next t # drop (Suc (tk_next t)) (tk_occurrences t)"
    by (rule Cons_nth_drop_Suc [symmetric])
  moreover have "\<not> flt (tk_max_age t) (fsub nr (ps_stamp s)) \<and> \<not> flt (tk_max_age t) (fsub ns (ps_received s))"
    if "sample_problem t s nr ns = None"
    using that by (auto simp: sample_problem_def Let_def split: if_splits)
  ultimately show ?thesis using assms
    by (auto simp: observe_def tracker_inv_def tk_complete_def no_evidence_def credited_def tk_pending_def credit_earned_def pose_distance_def
        Let_def le_less split: option.splits if_splits)
qed

lemma run_credit:
  assumes "tracker_inv t" "run (tracker_step H) t is = (t1, es)"
  shows "map Some (tk_pending t) = credited es @ map Some (tk_pending t1) \<and>
    list_all2 (credit_earned H (tk_radius t) (tk_max_age t)) is es"
  using assms
proof (induction "is" arbitrary: t es)
  case (Cons i "is")
  obtain s nr ns where i: "i = (s, nr, ns)" by (cases i)
  obtain t2 e where o: "observe H t s nr ns = (t2, e)" by fastforce
  have st: "tracker_step H t i = (t2, [e])" using o by (simp add: i tracker_step_def)
  obtain es2 where r: "run (tracker_step H) t2 is = (t1, es2)" "es = e # es2"
    using Cons.prems(2) st by (auto simp: Let_def split: prod.splits)
  have inv2: "tracker_inv t2" using observe_inv [OF Cons.prems(1), of H s nr ns] o by simp
  note c = observe_credit [OF Cons.prems(1) o] and IH = Cons.IH [OF inv2 r(1)]
  have "credited (e # es2) = credited [e] @ credited es2" by (simp add: credited_def)
  moreover have "tk_radius t2 = tk_radius t" "tk_max_age t2 = tk_max_age t" using c by simp_all
  ultimately show ?case using c IH r(2) i by auto
qed (simp add: credited_def)

lemma run_occurrences: "tk_occurrences (fst (run (tracker_step H) t is)) = tk_occurrences t"
proof (induction "is" arbitrary: t)
  case (Cons i "is")
  have "tk_occurrences (fst (tracker_step H t i)) = tk_occurrences t"
    by (cases i) (auto simp: tracker_step_def observe_def Let_def split: prod.splits option.splits if_splits)
  then show ?case using Cons.IH [of "fst (tracker_step H t i)"]
    by (cases "tracker_step H t i"; cases "run (tracker_step H) (fst (tracker_step H t i)) is") (simp add: Let_def)
qed simp

subsection \<open>The pending suffix of a chunk\<close>

definition pending_cut :: "(int \<times> int) list \<Rightarrow> (nat \<times> int \<times> int) list \<Rightarrow> nat" where
  "pending_cut reached occs =
     (case rev (takeWhile (\<lambda>(off, idx, it). (it, idx) \<in> set reached) occs) of
        [] \<Rightarrow> 0 | (off, idx, it) # _ \<Rightarrow> off + 1)"

text \<open>\<open>None\<close>: the \<open>ValueError\<close> of mismatched checkpoint iterations.\<close>

definition pending_suffix :: "chunk \<Rightarrow> (int \<times> int) list \<Rightarrow> chunk option" where
  "pending_suffix c reached =
     (let its = ch_iterations c; offsets = checkpoint_offsets c; occs = checkpoint_occurrences c in
      if its \<noteq> [] \<and> length its \<noteq> length offsets then None
      else
        (let cut = pending_cut reached occs in
         if length (ch_waypoints c) \<le> cut then Some c
         else
           (let consumed = length (filter (\<lambda>off. off < cut) offsets);
                next_it = (if consumed < length occs then snd (snd (occs ! consumed))
                           else if 0 < consumed then snd (snd (last occs)) else ch_iteration c)
            in Some (c \<lparr> ch_waypoints := drop cut (ch_waypoints c), ch_iteration := next_it,
                         ch_iterations := drop consumed its \<rparr>))))"

subsection \<open>The recovery policy\<close>

datatype recovery_state = Clear | Pending | WaitingData | WaitingRetry | Recovering | NeedsOperator

datatype recovery_action = NoAction | CancelAndBrake | BeginRetry | Resume

definition profile_change_allowed :: "route_phase \<Rightarrow> recovery_state \<Rightarrow> bool" where
  "profile_change_allowed phase rs \<longleftrightarrow> phase \<notin> {RActive, RPaused} \<or> rs = NeedsOperator"

record recovery_obs =
  ro_now :: pyfloat
  ro_path_reason :: string
  ro_wait_remaining :: pyfloat
  ro_nav_failure :: string
  ro_collision :: bool
  ro_tf_fresh :: bool
  ro_costmap_fresh :: bool

record recovery_decision =
  rd_state :: recovery_state
  rd_action :: recovery_action
  rd_reason :: string
  rd_attempt :: int
  rd_remaining :: pyfloat

definition blocking_codes :: "string list" where
  "blocking_codes =
     [''NO_VALID_PATH'', ''CONTROLLER_COLLISION'', ''COLLISION_STOP'', ''COLLISION_STOP_ACTIVE'',
      ''SMOOTHED_PATH_COLLISION'', ''RECOVERY_FAILED'', ''RECOVERY_OFF_GRID'',
      ''COSTMAP_CLEAR_TIMEOUT'', ''NAV_ABORTED'']"

record recovery =
  rp_persistence :: pyfloat
  rp_retry_wait :: pyfloat
  rp_max_attempts :: int
  rp_state :: recovery_state
  rp_reason :: string
  rp_attempt :: int
  rp_pending_since :: "pyfloat option"
  rp_retry_at :: "pyfloat option"
  rp_resume :: recovery_state
  rp_maneuver_remaining :: pyfloat

definition recovery_reset :: "recovery \<Rightarrow> recovery" where
  "recovery_reset p =
     p \<lparr> rp_state := Clear, rp_reason := [], rp_attempt := 0, rp_pending_since := None,
         rp_retry_at := None, rp_resume := Clear, rp_maneuver_remaining := fzero \<rparr>"

definition new_recovery :: "pyfloat \<Rightarrow> pyfloat \<Rightarrow> int \<Rightarrow> recovery" where
  "new_recovery persistence retry_wait max_attempts =
     \<lparr> rp_persistence = pymax fzero persistence, rp_retry_wait = pymax fzero retry_wait,
       rp_max_attempts = max 0 max_attempts, rp_state = Clear, rp_reason = [], rp_attempt = 0,
       rp_pending_since = None, rp_retry_at = None, rp_resume = Clear, rp_maneuver_remaining = fzero \<rparr>"

definition decision :: "recovery \<Rightarrow> pyfloat \<Rightarrow> recovery_action \<Rightarrow> recovery_decision" where
  "decision p now action =
     (let remaining0 = (if rp_state p = WaitingData \<and>
            rp_reason p \<in> {''PLANNER_LOOP'', ''PLANNER_U_TURN'', ''MANEUVER_GEOMETRY_INVALID''}
            then rp_maneuver_remaining p else fzero);
          remaining = (case rp_retry_at p of
             Some t \<Rightarrow> if rp_state p = WaitingRetry then pymax fzero (fsub t now) else remaining0
           | None \<Rightarrow> remaining0)
      in \<lparr> rd_state = rp_state p, rd_action = action, rd_reason = rp_reason p,
           rd_attempt = rp_attempt p, rd_remaining = remaining \<rparr>)"

definition blocking_reason :: "recovery_obs \<Rightarrow> string" where
  "blocking_reason ob =
     (if ro_nav_failure ob \<in> set blocking_codes then ro_nav_failure ob
      else if ro_collision ob then ''COLLISION_STOP_ACTIVE'' else [])"

text \<open>
  \<open>path_reason.split(":", 2)\<close> of a reason that starts with \<open>maneuver:\<close>: the phase and the cause;
  \<open>None\<close> when there is no second colon, where unpacking raises.
\<close>

definition is_maneuver :: "string \<Rightarrow> bool" where
  "is_maneuver s = (take 9 s = ''maneuver:'')"

definition maneuver_parts :: "string \<Rightarrow> (string \<times> string) option" where
  "maneuver_parts s =
     (let rest = drop 9 s; phase = takeWhile (\<lambda>c. c \<noteq> CHR '':'') rest
      in if length phase = length rest then None else Some (phase, drop (length phase + 1) rest))"

text \<open>The part of \<open>observe\<close> after the data checks, by state.\<close>

definition observe_clear :: "recovery \<Rightarrow> recovery_obs \<Rightarrow> recovery \<times> recovery_decision" where
  "observe_clear p ob =
     (let now = ro_now ob; reason = blocking_reason ob in
      if reason = [] then
        (let q = p \<lparr> rp_state := Clear, rp_reason := [], rp_pending_since := None \<rparr> in (q, decision q now NoAction))
      else if rp_state p \<noteq> Pending \<or> rp_reason p \<noteq> reason then
        (let q = p \<lparr> rp_state := Pending, rp_reason := reason, rp_pending_since := Some now \<rparr>
         in (q, decision q now NoAction))
      else
        (let since = (case rp_pending_since p of Some t \<Rightarrow> t | None \<Rightarrow> now) in
         if flt (fsub now since) (rp_persistence p) then (p, decision p now NoAction)
         else if rp_max_attempts p = 0 then
           (let q = p \<lparr> rp_state := NeedsOperator \<rparr> in (q, decision q now CancelAndBrake))
         else
           (let q = p \<lparr> rp_state := WaitingRetry, rp_retry_at := Some (fadd now (rp_retry_wait p)) \<rparr>
            in (q, decision q now CancelAndBrake))))"

definition observe_running :: "recovery \<Rightarrow> recovery_obs \<Rightarrow> recovery \<times> recovery_decision" where
  "observe_running p ob =
     (let now = ro_now ob in
      if rp_state p \<in> {NeedsOperator, Recovering} then (p, decision p now NoAction)
      else if rp_state p = WaitingRetry then
        (if (case rp_retry_at p of None \<Rightarrow> True | Some t \<Rightarrow> flt now t) then (p, decision p now NoAction)
         else if rp_max_attempts p \<le> rp_attempt p then
           (let q = p \<lparr> rp_state := NeedsOperator \<rparr> in (q, decision q now NoAction))
         else
           (let q = p \<lparr> rp_attempt := rp_attempt p + 1, rp_state := Recovering \<rparr>
            in (q, decision q now BeginRetry)))
      else observe_clear p ob)"

definition observe_recovery :: "recovery \<Rightarrow> recovery_obs \<Rightarrow> (recovery \<times> recovery_decision) option" where
  "observe_recovery p ob =
     (let now = ro_now ob in
      if rp_state p = NeedsOperator then Some (p, decision p now NoAction)
      else if is_maneuver (ro_path_reason ob) then
        map_option (\<lambda>(phase, cause).
          (let p1 = p \<lparr> rp_reason := cause, rp_maneuver_remaining := ro_wait_remaining ob \<rparr> in
           if phase = ''NEEDS_OPERATOR''
           then (let q = p1 \<lparr> rp_state := NeedsOperator \<rparr> in (q, decision q now CancelAndBrake))
           else (let q = p1 \<lparr> rp_state := WaitingData, rp_resume := Clear \<rparr> in (q, decision q now NoAction))))
          (maneuver_parts (ro_path_reason ob))
      else if \<not> ro_tf_fresh ob \<or> \<not> ro_costmap_fresh ob then
        (let reason = (if \<not> ro_tf_fresh ob then ''TF_STALE'' else ''COSTMAP_STALE'');
             p1 = (if rp_state p \<noteq> WaitingData then p \<lparr> rp_resume := rp_state p \<rparr> else p);
             q = p1 \<lparr> rp_state := WaitingData, rp_reason := reason \<rparr>
         in Some (q, decision q now NoAction))
      else if rp_state p = WaitingData then
        (let p1 = p \<lparr> rp_state := (if rp_resume p \<noteq> WaitingData then rp_resume p else Clear) \<rparr> in
         if rp_state p1 = Clear
         then (let q = p1 \<lparr> rp_reason := [] \<rparr> in Some (q, decision q now Resume))
         else Some (observe_running p1 ob))
      else Some (observe_running p ob))"

text \<open>\<open>None\<close>: the \<open>RuntimeError\<close> of a result while no retry is active.\<close>

definition finish_retry :: "recovery \<Rightarrow> pyfloat \<Rightarrow> bool \<Rightarrow> string \<Rightarrow> (recovery \<times> recovery_decision) option" where
  "finish_retry p now accepted reason =
     (if rp_state p \<noteq> Recovering then None
      else if accepted then
        (let q = p \<lparr> rp_state := Clear, rp_reason := [], rp_retry_at := None \<rparr> in Some (q, decision q now Resume))
      else
        (let p1 = p \<lparr> rp_reason := (if reason \<noteq> [] then reason else if rp_reason p \<noteq> [] then rp_reason p
                                     else ''RETRY_REJECTED'') \<rparr>;
             q = (if rp_max_attempts p \<le> rp_attempt p then p1 \<lparr> rp_state := NeedsOperator \<rparr>
                  else p1 \<lparr> rp_state := WaitingRetry, rp_retry_at := Some (fadd now (rp_retry_wait p)) \<rparr>)
         in Some (q, decision q now CancelAndBrake)))"

datatype recovery_event = ObserveRecovery recovery_obs | FinishRetry pyfloat bool string

text \<open>A call that raises changes nothing and decides nothing.\<close>

fun recovery_step :: "recovery \<Rightarrow> recovery_event \<Rightarrow> recovery \<times> recovery_decision list" where
  "recovery_step p (ObserveRecovery ob) =
     (case observe_recovery p ob of None \<Rightarrow> (p, []) | Some (q, d) \<Rightarrow> (q, [d]))"
| "recovery_step p (FinishRetry now accepted reason) =
     (case finish_retry p now accepted reason of None \<Rightarrow> (p, []) | Some (q, d) \<Rightarrow> (q, [d]))"

subsection \<open>Re-anchoring\<close>

datatype reanchor_reason = EmptyRoute | PoseUnavailable | NoForwardMatch | ForwardMatch | AlreadyAnchored

record reanchor =
  ra_requested :: int
  ra_resolved :: int
  ra_reanchored :: bool
  ra_reason :: reanchor_reason
  ra_distance :: pyfloat

text \<open>
  Python's \<open>** 2\<close> is a parameter, \<open>None\<close> where it raises \<open>OverflowError\<close>; \<open>None\<close> of the definitions below
  is that exception.
\<close>

type_synonym square = "pyfloat \<Rightarrow> pyfloat option"

definition sq_distance :: "square \<Rightarrow> waypoint \<Rightarrow> pyfloat \<Rightarrow> pyfloat \<Rightarrow> pyfloat option" where
  "sq_distance sq p x y =
     (case (sq (fsub (or_zero (wp_x p)) x), sq (fsub (or_zero (wp_y p)) y)) of
        (Some a, Some b) \<Rightarrow> Some (fadd a b)
      | _ \<Rightarrow> None)"

text \<open>\<open>min\<close> with a key: the first index whose key no later one is below.\<close>

fun min_by :: "('a \<Rightarrow> pyfloat option) \<Rightarrow> 'a \<Rightarrow> pyfloat \<Rightarrow> 'a list \<Rightarrow> ('a \<times> pyfloat) option" where
  "min_by f best key [] = Some (best, key)"
| "min_by f best key (x # xs) =
     (case f x of None \<Rightarrow> None
      | Some k \<Rightarrow> if flt k key then min_by f x k xs else min_by f best key xs)"

definition resolve_reanchor ::
    "square \<Rightarrow> (pyfloat \<Rightarrow> pyfloat) \<Rightarrow> route \<Rightarrow> int \<Rightarrow> pyfloat option \<Rightarrow> pyfloat option \<Rightarrow> pyfloat \<Rightarrow> int option \<Rightarrow>
     reanchor option" where
  "resolve_reanchor sq sqrt_f r current_index rx ry tolerance max_index =
     (let pts = rt_waypoints r; n = int (length pts);
          stay = (\<lambda>i why d. Some \<lparr> ra_requested = i, ra_resolved = i, ra_reanchored = False,
            ra_reason = why, ra_distance = d \<rparr>) in
      if pts = [] then stay current_index EmptyRoute PInf
      else
        (let current = max 0 (min current_index (n - 1)) in
         case (rx, ry) of
           (Some x, Some y) \<Rightarrow>
             (let upper = (case max_index of None \<Rightarrow> n - 1 | Some m \<Rightarrow> max current (min m (n - 1)));
                  key = (\<lambda>i. sq_distance sq (pts ! nat i) x y) in
              case Option.bind (key current) (\<lambda>k. min_by key current k [current + 1..upper]) of
                None \<Rightarrow> None
              | Some (nearest, squared) \<Rightarrow>
                  (let distance = sqrt_f squared in
                   if flt (pymax fzero tolerance) distance then stay current NoForwardMatch distance
                   else Some \<lparr> ra_requested = current, ra_resolved = nearest, ra_reanchored = (nearest \<noteq> current),
                     ra_reason = (if nearest \<noteq> current then ForwardMatch else AlreadyAnchored),
                     ra_distance = distance \<rparr>))
         | _ \<Rightarrow> stay current PoseUnavailable PInf))"

definition checkpoint_within_tolerance ::
    "hypot \<Rightarrow> pyfloat option \<Rightarrow> pyfloat option \<Rightarrow> pyfloat option \<Rightarrow> pyfloat option \<Rightarrow> pyfloat \<Rightarrow> bool" where
  "checkpoint_within_tolerance H cx cy rx ry tolerance =
     (case (cx, cy, rx, ry) of
        (Some a, Some b, Some c, Some d) \<Rightarrow> fle (H (fsub a c) (fsub b d)) (pymax fzero tolerance)
      | _ \<Rightarrow> False)"

subsection \<open>Lemmas on the pending suffix\<close>

lemma occurrences_fst: "length (ch_iterations c) = length (checkpoint_offsets c) \<or> ch_iterations c = [] \<Longrightarrow>
   map fst (checkpoint_occurrences c) = checkpoint_offsets c"
  by (auto simp: checkpoint_occurrences_def Let_def comp_def case_prod_unfold)

lemma offsets_sorted: "sorted_wrt (<) (checkpoint_offsets c)"
  by (simp add: checkpoint_offsets_def sorted_wrt_filter)

lemma offsets_split:
  assumes "k \<le> length (ch_waypoints c)"
  shows "checkpoint_offsets c = filter (\<lambda>off. off < k) (checkpoint_offsets c) @
    map (\<lambda>i. i + k) (checkpoint_offsets (c \<lparr> ch_waypoints := drop k (ch_waypoints c) \<rparr>))"
proof -
  define P where "P = (\<lambda>i. wp_key (ch_waypoints c ! i))"
  have s: "[0..<length (ch_waypoints c)] = [0..<k] @ [k..<length (ch_waypoints c)]"
    using assms upt_add_eq_append [of 0 k "length (ch_waypoints c) - k"] by simp
  have "map (\<lambda>i. i + k) [0..<length (ch_waypoints c) - k] = [k..<length (ch_waypoints c)]"
    using assms map_add_upt [of k "length (ch_waypoints c) - k"] by (simp add: comp_def)
  then have "map (\<lambda>i. i + k) (filter (\<lambda>i. P (i + k)) [0..<length (ch_waypoints c) - k]) =
    filter P [k..<length (ch_waypoints c)]"
    using filter_map [of P "\<lambda>i. i + k" "[0..<length (ch_waypoints c) - k]"] by (simp add: comp_def)
  moreover have "filter (\<lambda>i. i < k) (filter P [0..<k] @ filter P [k..<length (ch_waypoints c)]) = filter P [0..<k]"
    by (auto simp: filter_empty_conv filter_id_conv intro: filter_cong)
  moreover have "wp_key (drop k (ch_waypoints c) ! i) = P (i + k)" if "i < length (ch_waypoints c) - k" for i
    using assms that by (simp add: P_def add.commute)
  then have "filter (\<lambda>i. wp_key (drop k (ch_waypoints c) ! i)) [0..<length (ch_waypoints c) - k] =
    filter (\<lambda>i. P (i + k)) [0..<length (ch_waypoints c) - k]"
    by (intro filter_cong) auto
  ultimately show ?thesis unfolding checkpoint_offsets_def s by (simp add: P_def [symmetric])
qed

lemma cut_reached:
  assumes "sorted_wrt (<) (map fst occs)" "(off, idx, it) \<in> set occs" "off < pending_cut reached occs"
  shows "(it, idx) \<in> set reached"
proof -
  define Q where "Q = (\<lambda>(off::nat, idx, it). (it, idx) \<in> set reached)"
  obtain o1 x1 t1 ys where y: "rev (takeWhile Q occs) = (o1, x1, t1) # ys"
    using assms(3) by (cases "rev (takeWhile Q occs)") (auto simp: pending_cut_def Q_def)
  then have o: "off \<le> o1" using assms(3) by (simp add: pending_cut_def Q_def)
  have tw: "takeWhile Q occs = rev ys @ [(o1, x1, t1)]" using y by (metis rev.simps(2) rev_rev_ident)
  have s: "occs = rev ys @ (o1, x1, t1) # dropWhile Q occs"
    using takeWhile_dropWhile_id [of Q occs] tw by simp
  have "\<forall>z\<in>set (dropWhile Q occs). o1 < fst z"
    using assms(1) s by (metis (no_types, lifting) fst_conv image_eqI list.set_map list.simps(9) map_append sorted_wrt.simps(2) sorted_wrt_append)
  then have "(off, idx, it) \<notin> set (dropWhile Q occs)" using o by fastforce
  then have "(off, idx, it) \<in> set (takeWhile Q occs)" using assms(2) takeWhile_dropWhile_id [of Q occs]
    by (metis UnE set_append)
  then show ?thesis by (auto dest: set_takeWhileD simp: Q_def)
qed

definition kept_occurrences :: "nat \<Rightarrow> (nat \<times> int \<times> int) list \<Rightarrow> (nat \<times> int \<times> int) list" where
  "kept_occurrences k occs = map (\<lambda>(off, idx, it). (off - k, idx, it)) (filter (\<lambda>(off, idx, it). k \<le> off) occs)"


lemma checkpoint_offsets_waypoints:
  "ch_waypoints c = ch_waypoints d \<Longrightarrow> checkpoint_offsets c = checkpoint_offsets d"
  by (simp add: checkpoint_offsets_def)

lemma filter_ge_map: "filter (\<lambda>off. k \<le> off) (map (\<lambda>i. i + k) xs) = map (\<lambda>i. i + (k::nat)) xs"
  by (simp add: filter_True)

lemma zip_append_drop: "length zs = length (xs @ ys) \<Longrightarrow>
   zip (xs @ ys) zs = zip xs (take (length xs) zs) @ zip ys (drop (length xs) zs)"
  by (metis append_take_drop_id zip_append1)

text \<open>The occurrences of the suffix, for the iterations the chunk resolves to.\<close>

definition resolved_iterations :: "chunk \<Rightarrow> int list" where
  "resolved_iterations c = (if length (ch_iterations c) \<noteq> length (checkpoint_offsets c)
     then replicate (length (checkpoint_offsets c)) (ch_iteration c) else ch_iterations c)"

lemma occurrences_alt:
  "checkpoint_occurrences c =
     map (\<lambda>(i, it). (i, wp_input_index (ch_waypoints c ! i), it)) (zip (checkpoint_offsets c) (resolved_iterations c))"
  by (simp add: checkpoint_occurrences_def resolved_iterations_def Let_def)

lemma length_resolved [simp]: "length (resolved_iterations c) = length (checkpoint_offsets c)"
  by (simp add: resolved_iterations_def)

lemma kept_suffix:
  assumes "k \<le> length (ch_waypoints c)" "ch_waypoints d = drop k (ch_waypoints c)"
    "resolved_iterations d = drop (length (filter (\<lambda>off. off < k) (checkpoint_offsets c))) (resolved_iterations c)"
  shows "checkpoint_occurrences d = kept_occurrences k (checkpoint_occurrences c)"
proof -
  define A where "A = filter (\<lambda>off. off < k) (checkpoint_offsets c)"
  define B where "B = checkpoint_offsets d"
  have "B = checkpoint_offsets (c \<lparr> ch_waypoints := drop k (ch_waypoints c) \<rparr>)"
    unfolding B_def by (rule checkpoint_offsets_waypoints) (simp add: assms(2))
  then have off: "checkpoint_offsets c = A @ map (\<lambda>i. i + k) B"
    using offsets_split [OF assms(1)] by (simp add: A_def)
  have z: "zip (checkpoint_offsets c) (resolved_iterations c) =
      zip A (take (length A) (resolved_iterations c)) @ zip (map (\<lambda>i. i + k) B) (resolved_iterations d)"
    using zip_append_drop [of "resolved_iterations c" A "map (\<lambda>i. i + k) B"] by (simp add: assms(3) off flip: A_def) (simp add: A_def)
  let ?occ = "\<lambda>(i, it). (i, wp_input_index (ch_waypoints c ! i), it)"
  have 1: "filter (\<lambda>(off, idx, it). k \<le> off) (map ?occ (zip A is)) = []" for "is" :: "int list"
    by (auto simp: filter_empty_conv A_def dest!: set_zip_leftD)
  have 2: "filter (\<lambda>(off, idx, it). k \<le> off) (map ?occ (zip (map (\<lambda>i. i + k) B) is)) =
      map ?occ (zip (map (\<lambda>i. i + k) B) is)" for "is" :: "int list"
    by (auto simp: filter_id_conv dest!: set_zip_leftD)
  have 3: "map (\<lambda>(off, idx, it). (off - k, idx, it)) (map ?occ (zip (map (\<lambda>i. i + k) B) is)) =
      map (\<lambda>(i, it). (i, wp_input_index (ch_waypoints d ! i), it)) (zip B is)" for "is" :: "int list"
    using assms(1) by (auto simp: zip_map1 assms(2) add.commute)
  show ?thesis
    unfolding kept_occurrences_def occurrences_alt z map_append filter_append 1 2 append_Nil 3
    by (simp add: B_def)
qed

lemma pending_suffix_kept:
  assumes "pending_suffix c reached = Some d" "d \<noteq> c"
  shows "ch_waypoints d = drop (pending_cut reached (checkpoint_occurrences c)) (ch_waypoints c) \<and>
    pending_cut reached (checkpoint_occurrences c) < length (ch_waypoints c) \<and>
    checkpoint_occurrences d = kept_occurrences (pending_cut reached (checkpoint_occurrences c)) (checkpoint_occurrences c)"
proof -
  define k where "k = pending_cut reached (checkpoint_occurrences c)"
  define n where "n = length (filter (\<lambda>off. off < k) (checkpoint_offsets c))"
  have k: "k < length (ch_waypoints c)"
    and its: "ch_iterations c = [] \<or> length (ch_iterations c) = length (checkpoint_offsets c)"
    and w: "ch_waypoints d = drop k (ch_waypoints c)" and di: "ch_iterations d = drop n (ch_iterations c)"
    and dn: "n < length (checkpoint_occurrences c) \<Longrightarrow> ch_iteration d = snd (snd (checkpoint_occurrences c ! n))"
    using assms by (auto simp: pending_suffix_def Let_def k_def n_def split: if_splits)
  have "checkpoint_offsets d = checkpoint_offsets (c \<lparr> ch_waypoints := drop k (ch_waypoints c) \<rparr>)"
    by (rule checkpoint_offsets_waypoints) (simp add: w)
  then have l: "length (checkpoint_offsets c) = n + length (checkpoint_offsets d)"
    using offsets_split [of k c] k by (metis (no_types, lifting) length_append length_map less_imp_le n_def)
  have occ_it: "snd (snd (checkpoint_occurrences c ! i)) = resolved_iterations c ! i" if "i < length (checkpoint_offsets c)" for i
    using that by (simp add: occurrences_alt)
  have lo: "length (checkpoint_occurrences c) = length (checkpoint_offsets c)" by (simp add: occurrences_alt)
  have "resolved_iterations d = drop n (resolved_iterations c)"
  proof (cases "length (ch_iterations c) = length (checkpoint_offsets c)")
    case True
    then show ?thesis using l di by (simp add: resolved_iterations_def)
  next
    case False
    then have r: "ch_iterations c = []" "resolved_iterations c = replicate (length (checkpoint_offsets c)) (ch_iteration c)"
      using its by (auto simp: resolved_iterations_def)
    show ?thesis
    proof (cases "checkpoint_offsets d")
      case Nil
      then have "resolved_iterations d = []" using length_resolved [of d] by (simp del: length_resolved)
      then show ?thesis using l Nil by simp
    next
      case (Cons x xs)
      then have "n < length (checkpoint_offsets c)" using l by simp
      then have "ch_iteration d = ch_iteration c" using dn lo occ_it [of n] r(2) by (metis nth_replicate)
      then show ?thesis using r(1) di l Cons by (simp add: resolved_iterations_def r(2) drop_replicate del: replicate.simps)
    qed
  qed
  then have "checkpoint_occurrences d = kept_occurrences k (checkpoint_occurrences c)"
    using kept_suffix [of k c d] k w by (simp add: n_def)
  then show ?thesis using k w by (simp add: k_def)
qed


subsection \<open>Lemmas on the recovery policy\<close>

lemma decision_simps [simp]:
  "rd_action (decision p now a) = a" "rd_state (decision p now a) = rp_state p"
  by (simp_all add: decision_def Let_def)

text \<open>A blocked mission has stopped and may start a retry without another stop.\<close>

definition armed :: "recovery \<Rightarrow> bool" where
  "armed p \<longleftrightarrow> rp_state p = WaitingRetry \<or> rp_state p = WaitingData \<and> rp_resume p = WaitingRetry"

definition recovery_inv :: "recovery \<Rightarrow> bool" where
  "recovery_inv p \<longleftrightarrow> 0 \<le> rp_attempt p \<and> rp_attempt p \<le> rp_max_attempts p \<and> rp_resume p \<noteq> WaitingData"

definition retries :: "recovery_decision list \<Rightarrow> int" where
  "retries ds = int (length (filter (\<lambda>d. rd_action d = BeginRetry) ds))"

definition brakes :: "recovery_decision list \<Rightarrow> int" where
  "brakes ds = int (length (filter (\<lambda>d. rd_action d = CancelAndBrake) ds))"

lemma retries_simps [simp]:
  "retries [] = 0" "brakes [] = 0"
  "retries (d # ds) = (if rd_action d = BeginRetry then 1 else 0) + retries ds"
  "brakes (d # ds) = (if rd_action d = CancelAndBrake then 1 else 0) + brakes ds"
  "retries (ds @ es) = retries ds + retries es" "brakes (ds @ es) = brakes ds + brakes es"
  by (simp_all add: retries_def brakes_def)

definition recovery_ok :: "recovery \<Rightarrow> recovery \<Rightarrow> recovery_decision list \<Rightarrow> bool" where
  "recovery_ok p q ds \<longleftrightarrow> recovery_inv q \<and> rp_max_attempts q = rp_max_attempts p \<and>
     rp_attempt q = rp_attempt p + retries ds \<and>
     retries ds + (if armed q then 1 else 0) \<le> brakes ds + (if armed p then 1 else 0)"

lemmas recovery_defs = recovery_ok_def recovery_inv_def armed_def

lemma observe_clear_ok:
  "recovery_inv p \<Longrightarrow> rp_state p \<notin> {WaitingRetry, WaitingData} \<Longrightarrow> observe_clear p ob = (q, d) \<Longrightarrow> recovery_ok p q [d]"
  by (auto simp: observe_clear_def recovery_defs Let_def split: if_splits option.splits)

lemma observe_running_ok:
  "recovery_inv p \<Longrightarrow> rp_state p \<noteq> WaitingData \<Longrightarrow> observe_running p ob = (q, d) \<Longrightarrow> recovery_ok p q [d]"
  using observe_clear_ok [of p ob q d]
  by (cases "rp_state p") (auto simp: observe_running_def recovery_defs Let_def split: if_splits option.splits)

lemma observe_recovery_ok:
  assumes "recovery_inv p" "observe_recovery p ob = Some (q, d)"
  shows "recovery_ok p q [d]"
proof (cases "rp_state p = WaitingData \<and> ro_tf_fresh ob \<and> ro_costmap_fresh ob \<and> \<not> is_maneuver (ro_path_reason ob)")
  case True
  define p1 where "p1 = p \<lparr> rp_state := rp_resume p \<rparr>"
  have inv1: "recovery_inv p1" "rp_state p1 \<noteq> WaitingData" "armed p1 = armed p" "rp_attempt p1 = rp_attempt p"
      "rp_max_attempts p1 = rp_max_attempts p"
    using assms(1) True by (auto simp: p1_def recovery_inv_def armed_def)
  show ?thesis
  proof (cases "rp_resume p = Clear")
    case True2: True
    then show ?thesis using assms True by (auto simp: observe_recovery_def Let_def recovery_defs)
  next
    case False
    then have "observe_running p1 ob = (q, d)"
      using assms True by (auto simp: observe_recovery_def Let_def p1_def recovery_inv_def)
    then show ?thesis using observe_running_ok [of p1 ob q d] inv1 by (simp add: recovery_ok_def)
  qed
next
  case False
  show ?thesis
  proof (cases "rp_state p = NeedsOperator")
    case True
    then show ?thesis using assms by (auto simp: observe_recovery_def Let_def recovery_defs)
  next
    case active: False
    show ?thesis
    proof (cases "is_maneuver (ro_path_reason ob)")
      case True
      then obtain phase cause where "maneuver_parts (ro_path_reason ob) = Some (phase, cause)"
        using assms(2) active by (auto simp: observe_recovery_def Let_def)
      then show ?thesis using assms True active
        by (cases "phase = ''NEEDS_OPERATOR''") (auto simp: observe_recovery_def Let_def recovery_defs)
    next
      case no_maneuver: False
      show ?thesis
      proof (cases "ro_tf_fresh ob \<and> ro_costmap_fresh ob")
        case True
        then show ?thesis using False active no_maneuver assms observe_running_ok [of p ob q d]
          by (auto simp: observe_recovery_def Let_def)
      next
        case stale: False
        then show ?thesis using active no_maneuver assms
          by (cases "rp_state p = WaitingData") (auto simp: observe_recovery_def Let_def recovery_defs)
      qed
    qed
  qed
qed

lemma finish_retry_ok: "recovery_inv p \<Longrightarrow> finish_retry p now acc why = Some (q, d) \<Longrightarrow> recovery_ok p q [d]"
  by (cases "rp_state p = Recovering"; cases acc; cases "rp_max_attempts p \<le> rp_attempt p")
    (auto simp: finish_retry_def Let_def recovery_defs)

lemma recovery_ok_refl: "recovery_inv p \<Longrightarrow> recovery_ok p p []"
  by (simp add: recovery_ok_def)

lemma recovery_step_ok: "recovery_inv p \<Longrightarrow> recovery_step p e = (q, ds) \<Longrightarrow> recovery_ok p q ds"
  by (cases e) (auto split: option.splits intro: observe_recovery_ok finish_retry_ok recovery_ok_refl)

lemma recovery_run_ok: "recovery_inv p \<Longrightarrow> run recovery_step p es = (q, ds) \<Longrightarrow> recovery_ok p q ds"
proof (induction es arbitrary: p ds)
  case (Cons e es)
  obtain p1 ds1 where st: "recovery_step p e = (p1, ds1)" by fastforce
  obtain ds2 where r: "run recovery_step p1 es = (q, ds2)" "ds = ds1 @ ds2"
    using Cons.prems(2) st by (auto simp: Let_def split: prod.splits)
  have 1: "recovery_ok p p1 ds1" using recovery_step_ok [OF Cons.prems(1) st] .
  then have "recovery_ok p1 q ds2" using Cons.IH [OF _ r(1)] by (simp add: recovery_ok_def)
  then show ?case using 1 r(2) by (simp add: recovery_ok_def)
qed (simp add: recovery_ok_def)

lemma needs_operator_step: "rp_state p = NeedsOperator \<Longrightarrow>
   fst (recovery_step p e) = p \<and> (\<forall>d\<in>set (snd (recovery_step p e)). rd_action d = NoAction \<and> rd_state d = NeedsOperator)"
  by (cases e) (auto simp: observe_recovery_def finish_retry_def Let_def)

interpretation operator_latch: latch recovery_step "\<lambda>p. p = p0 \<and> rp_state p0 = NeedsOperator"
    "\<lambda>d. rd_action d = NoAction \<and> rd_state d = NeedsOperator" for p0
  by unfold_locales (use needs_operator_step in \<open>auto\<close>)

lemma needs_operator_run: "rp_state p = NeedsOperator \<Longrightarrow> fst (run recovery_step p es) = p"
  using operator_latch.run_inv [of p p es] by simp

subsection \<open>Lemmas on the re-anchor\<close>

lemma min_by_mem: "min_by f b k xs = Some (x, d) \<Longrightarrow> x = b \<or> x \<in> set xs"
  by (induction f b k xs rule: min_by.induct) (auto split: option.splits if_splits)

subsection \<open>Properties\<close>

text \<open>
  C33. A tracker built over a list of checkpoint occurrences credits, over any run of pose samples,
  exactly a prefix of that list, in order and each one once. A sample that is credited with a checkpoint was within the
  radius of that checkpoint, at the distance the evidence reports, and no older than the maximal age on either
  clock; and the stamps of the samples that pass the checks increase strictly.
\<close>

theorem checkpoints_credited_in_order:
  assumes "new_tracker occs radius max_age future = Inr t" "run (tracker_step H) t samples = (t1, es)"
  shows "credited es = map Some (take (tk_next t1) occs) \<and> list_all2 (credit_earned H radius max_age) samples es \<and>
    sorted_wrt (<) (accepted_stamps (tracker_next H) tracker_records observation_stamp t samples)"
proof -
  have t: "tracker_inv t" "tk_occurrences t = occs" "tk_radius t = radius" "tk_max_age t = max_age" "tk_next t = 0"
    using assms(1) by (auto simp: new_tracker_def bind_res_eq_Inr tracker_inv_def)
  have t1: "tracker_inv t1 \<and> tk_occurrences t1 = occs"
    using tracker.run_inv [OF t(1), of H samples] run_occurrences [of H t samples] assms(2) t(2) by simp
  have "map Some occs = credited es @ map Some (drop (tk_next t1) occs)" "list_all2 (credit_earned H radius max_age) samples es"
    using run_credit [OF t(1) assms(2)] t t1 by (auto simp: tk_pending_def)
  moreover have "map Some occs = map Some (take (tk_next t1) occs) @ map Some (drop (tk_next t1) occs)"
    by (simp flip: map_append)
  ultimately show ?thesis using tracker_gate.accepted_sorted [of H t samples] by simp
qed

text \<open>
  The retry budget of a mission: over any sequence of observations and retry results the policy
  starts at most \<open>max_attempts\<close> retries, never more retries than it has commanded stops, and it counts
  them in \<open>attempt\<close>.
\<close>

lemma retry_budget:
  assumes "run recovery_step (new_recovery persistence wait k) events = (p, ds)"
  shows "retries ds = rp_attempt p \<and> retries ds \<le> max 0 k \<and> retries ds \<le> brakes ds"
proof -
  have "recovery_ok (new_recovery persistence wait k) p ds"
    by (rule recovery_run_ok [OF _ assms]) (simp add: recovery_inv_def new_recovery_def)
  then show ?thesis by (auto simp: recovery_defs new_recovery_def split: if_splits)
qed

text \<open>
  A mission that needs an operator stays so: whatever is observed or reported afterwards, the
  policy does not change and commands nothing.
\<close>

lemma needs_operator_absorbs:
  assumes "rp_state p = NeedsOperator" "run recovery_step p events = (q, ds)"
  shows "q = p \<and> (\<forall>d\<in>set ds. rd_action d = NoAction \<and> rd_state d = NeedsOperator)"
  using needs_operator_run [OF assms(1), of events] operator_latch.run_out [of p p _ events] assms by auto

text \<open>
  The pending part of a chunk drops only checkpoints that have been credited: the waypoints are a
  suffix, not empty when the chunk is not, and the checkpoint occurrences left are those of the chunk
  from the cut on, with the same input indices and loop iterations.
\<close>

lemma pending_suffix_drops_reached:
  assumes "pending_suffix c reached = Some d"
  shows "\<exists>k. ch_waypoints d = drop k (ch_waypoints c) \<and>
    (ch_waypoints c \<noteq> [] \<longrightarrow> ch_waypoints d \<noteq> []) \<and>
    checkpoint_occurrences d = kept_occurrences k (checkpoint_occurrences c) \<and>
    (\<forall>(off, idx, it)\<in>set (checkpoint_occurrences c). off < k \<longrightarrow> (it, idx) \<in> set reached)"
proof (cases "d = c")
  case True
  have "kept_occurrences 0 occs = occs" for occs by (simp add: kept_occurrences_def)
  then show ?thesis using True by (intro exI [of _ 0]) auto
next
  case False
  note kept = pending_suffix_kept [OF assms False]
  have "sorted_wrt (<) (map fst (checkpoint_occurrences c))"
    using occurrences_fst [of c] offsets_sorted [of c] assms by (auto simp: pending_suffix_def Let_def split: if_splits)
  then show ?thesis using kept cut_reached [of "checkpoint_occurrences c"]
    by (intro exI [of _ "pending_cut reached (checkpoint_occurrences c)"]) auto
qed

text \<open>
  A re-anchor never moves backwards: from an index of the route, the index it resolves to is at
  least the current one and at most the bound given, and it changes only to a waypoint whose distance
  to the robot is within the tolerance.
\<close>

lemma reanchor_forward:
  assumes "resolve_reanchor sq sqrt_f r current rx ry tolerance max_index = Some a"
    "0 \<le> current" "current < int (length (rt_waypoints r))"
  shows "current \<le> ra_resolved a \<and> ra_resolved a < int (length (rt_waypoints r)) \<and>
    (case max_index of None \<Rightarrow> True | Some m \<Rightarrow> ra_resolved a \<le> max current m) \<and>
    (ra_resolved a \<noteq> current \<longrightarrow> ra_reanchored a \<and> \<not> flt (pymax fzero tolerance) (ra_distance a))"
proof -
  have c: "rt_waypoints r \<noteq> []" "max 0 (min current (int (length (rt_waypoints r)) - 1)) = current"
    using assms(2,3) by auto
  show ?thesis using assms c
    by (auto simp: resolve_reanchor_def Let_def max_def min_def dest!: min_by_mem split: option.splits prod.splits if_splits
        bind_splits)
qed


subsection \<open>Witnesses\<close>

definition sample_occurrences :: "occurrence list" where
  "sample_occurrences = [\<lparr> oc_index = 0, oc_iteration = 0, oc_x = Fin 0, oc_y = Fin 0 \<rparr>]"

definition sample_tracker :: tracker where
  "sample_tracker = \<lparr> tk_occurrences = sample_occurrences, tk_radius = Fin 2, tk_max_age = Fin 1, tk_future = Fin 0,
     tk_next = 0, tk_last = None, tk_min = [PInf] \<rparr>"

definition sample_pose :: pose_sample where
  "sample_pose = \<lparr> ps_x = Fin 0, ps_y = Fin 0, ps_stamp = Fin 1, ps_received = Fin 1 \<rparr>"

lemma sample_tracker_new: "new_tracker sample_occurrences (Fin 2) (Fin 1) (Fin 0) = Inr sample_tracker"
  by (simp add: new_tracker_def sample_tracker_def sample_occurrences_def)

lemma sample_run:
  "run (tracker_step (\<lambda>x y. Fin 1)) sample_tracker [(sample_pose, Fin 1, Fin 1)] =
     (sample_tracker \<lparr> tk_last := Some (Fin 1), tk_next := 1, tk_min := [Fin 1] \<rparr>,
      [\<lparr> ev_accepted = True, ev_reason = WithinRadius, ev_occurrence = Some (hd sample_occurrences), ev_distance = Some (Fin 1) \<rparr>])"
  by (simp add: tracker_step_def observe_def sample_problem_def sample_tracker_def sample_pose_def sample_occurrences_def
      tk_complete_def pymin_def fsub_def fle_def Let_def)

lemma checkpoints_credited_in_order_witness:
  "credited (snd (run (tracker_step (\<lambda>x y. Fin 1)) sample_tracker [(sample_pose, Fin 1, Fin 1)])) = map Some (take 1 sample_occurrences) \<and>
   list_all2 (credit_earned (\<lambda>x y. Fin 1) (Fin 2) (Fin 1)) [(sample_pose, Fin 1, Fin 1)]
     (snd (run (tracker_step (\<lambda>x y. Fin 1)) sample_tracker [(sample_pose, Fin 1, Fin 1)]))"
  using checkpoints_credited_in_order [OF sample_tracker_new sample_run] unfolding sample_run by simp

definition sample_events :: "recovery_event list" where
  "sample_events =
     (let ob = (\<lambda>t. ObserveRecovery \<lparr> ro_now = t, ro_path_reason = [], ro_wait_remaining = Fin 0,
            ro_nav_failure = ''NAV_ABORTED'', ro_collision = False, ro_tf_fresh = True, ro_costmap_fresh = True \<rparr>)
      in [ob (Fin 0), ob (Fin 2), ob (Fin 3), FinishRetry (Fin 4) False []])"

lemma sample_recovery_run:
  "\<exists>p ds. run recovery_step (new_recovery (Fin 1) (Fin 1) 1) sample_events = (p, ds) \<and>
     rp_state p = NeedsOperator \<and> rp_attempt p = 1 \<and> retries ds = 1 \<and> brakes ds = 2"
  by (simp add: sample_events_def new_recovery_def observe_recovery_def observe_running_def observe_clear_def
      finish_retry_def blocking_reason_def blocking_codes_def is_maneuver_def pymax_def fsub_def fle_def Let_def)

lemma retry_budget_witness:
  "\<exists>p ds. run recovery_step (new_recovery (Fin 1) (Fin 1) 1) sample_events = (p, ds) \<and> retries ds = 1 \<and> retries ds \<le> max 0 1"
  using sample_recovery_run retry_budget [of "Fin 1" "Fin 1" 1 sample_events] by blast

lemma needs_operator_absorbs_witness:
  "let p = (new_recovery (Fin 1) (Fin 1) 1) \<lparr> rp_state := NeedsOperator \<rparr> in fst (run recovery_step p sample_events) = p"
  using needs_operator_absorbs [of "(new_recovery (Fin 1) (Fin 1) 1) \<lparr> rp_state := NeedsOperator \<rparr>" sample_events]
  by (simp add: Let_def prod_eq_iff)

definition sample_chunk :: chunk where
  "sample_chunk = \<lparr> ch_waypoints = [sample_point True, sample_point False, sample_point True], ch_start = 0, ch_end = 3,
     ch_iteration = 4, ch_iterations = [4, 5] \<rparr>"

lemma sample_suffix:
  "pending_suffix sample_chunk [(4, wp_input_index (sample_point True))] =
     Some (sample_chunk \<lparr> ch_waypoints := [sample_point False, sample_point True], ch_iteration := 5, ch_iterations := [5] \<rparr>)"
  by (simp add: pending_suffix_def sample_chunk_def checkpoint_offsets_def checkpoint_occurrences_def pending_cut_def
      sample_point_def Let_def upt_rec numeral_2_eq_2)

lemma pending_suffix_drops_reached_witness:
  "\<exists>k d. pending_suffix sample_chunk [(4, wp_input_index (sample_point True))] = Some d \<and>
     ch_waypoints d = drop k (ch_waypoints sample_chunk) \<and> length (ch_waypoints d) = 2"
  using pending_suffix_drops_reached [OF sample_suffix] sample_suffix by auto

definition reanchor_route :: route where
  "reanchor_route = (sample_route False) \<lparr> rt_waypoints :=
     [(sample_point True) \<lparr> wp_x := Some (Fin 1) \<rparr>, sample_point True] \<rparr>"

lemma sample_reanchor:
  "resolve_reanchor (\<lambda>x. Some (fmul x x)) (\<lambda>x. x) reanchor_route 0 (Some (Fin 0)) (Some (Fin 0)) (Fin 1) None =
     Some \<lparr> ra_requested = 0, ra_resolved = 1, ra_reanchored = True, ra_reason = ForwardMatch, ra_distance = Fin 0 \<rparr>"
  by (simp add: resolve_reanchor_def reanchor_route_def sample_route_def sample_point_def sq_distance_def or_zero_def
      fsub_def fle_def pymax_def Let_def upto.simps)

lemma reanchor_forward_witness:
  "\<exists>a. resolve_reanchor (\<lambda>x. Some (fmul x x)) (\<lambda>x. x) reanchor_route 0 (Some (Fin 0)) (Some (Fin 0)) (Fin 1) None = Some a \<and>
     ra_resolved a = 1 \<and> ra_reanchored a"
proof -
  have "0 < int (length (rt_waypoints reanchor_route))" by (simp add: reanchor_route_def)
  from reanchor_forward [OF sample_reanchor order_refl this] show ?thesis unfolding sample_reanchor by simp
qed

end
