(* ===== verification/Route_Preparation.thy ===== *)
theory Route_Preparation
  imports Route_Actions Route_Recovery
begin

section \<open>Preparation of routes\<close>

text \<open>
  \<open>salus_navigation/route_preparation.py\<close>: validation of a requested route, resolution of the headings,
  expansion of long legs by synthetic points, and the headings of a dispatched chunk. The trigonometric
  functions of the C library are parameters; \<open>degrees\<close> multiplies by the constant the library uses.
\<close>

record trig =
  tg_atan2 :: "pyfloat \<Rightarrow> pyfloat \<Rightarrow> pyfloat"
  tg_cos :: "pyfloat \<Rightarrow> pyfloat"
  tg_sin :: "pyfloat \<Rightarrow> pyfloat"
  tg_hypot :: hypot

definition degrees :: "pyfloat \<Rightarrow> pyfloat" where
  "degrees x = fmul x (Fin (1007958012753983 / 17592186044416))"

subsection \<open>Floor division\<close>

definition floor_fin :: "pyfloat \<Rightarrow> pyfloat" where
  "floor_fin x = (case x of Fin q \<Rightarrow> Fin (of_int \<lfloor>q\<rfloor>) | _ \<Rightarrow> x)"

text \<open>\<open>x // w\<close> of floats: \<open>None\<close> is a division by zero.\<close>

definition ffloordiv :: "pyfloat \<Rightarrow> pyfloat \<Rightarrow> pyfloat option" where
  "ffloordiv x w =
     (case (x, w) of
        (Fin a, Fin b) \<Rightarrow>
          if b = 0 then None
          else
            (let k = a / b; m = a - b * of_int (if 0 \<le> k then \<lfloor>k\<rfloor> else \<lceil>k\<rceil>) in
             Option.bind (fdiv (fsub x (Fin m)) w) (\<lambda>d0.
               let d = (if m \<noteq> 0 \<and> (b < 0) \<noteq> (m < 0) then fsub d0 (Fin 1) else d0); f = floor_fin d
               in Some (if flt (Fin (1 / 2)) (fsub d f) then fadd f (Fin 1) else f)))
      | (_, Fin b) \<Rightarrow> if b = 0 then None else Some NaN
      | (Fin a, PInf) \<Rightarrow> Some (if a < 0 then Fin (- 1) else fzero)
      | (Fin a, NInf) \<Rightarrow> Some (if 0 < a then Fin (- 1) else fzero)
      | _ \<Rightarrow> Some NaN)"

subsection \<open>Validation\<close>

text \<open>\<open>None\<close> is the \<open>ValueError\<close> of an unknown policy.\<close>

definition curve_tangent_policy :: "string \<Rightarrow> bool option" where
  "curve_tangent_policy v =
     (if v \<in> {[], ''route_tangent''} then Some True else if v = ''legacy'' then Some False else None)"

datatype input_error = BadSizes | BadActionCount | BadRoleCount | NotFinite | BadRole | BadAction action_error

fun actions_error :: "json_lib \<Rightarrow> int \<Rightarrow> string list \<Rightarrow> py_exception + input_error option" where
  "actions_error J i [] = Inr None"
| "actions_error J i (a # as) =
     (case parse_actions J a i of Inl e \<Rightarrow> Inl e | Inr (Inl e) \<Rightarrow> Inr (Some (BadAction e))
      | Inr (Inr r) \<Rightarrow> actions_error J (i + 1) as)"

definition validate_inputs ::
    "json_lib \<Rightarrow> pyfloat list \<Rightarrow> pyfloat list \<Rightarrow> pyfloat list \<Rightarrow> string list \<Rightarrow> string list \<Rightarrow>
     py_exception + input_error option" where
  "validate_inputs J lats lons yaws actions roles =
     (if lats = [] \<or> length lats \<noteq> length lons \<or> length lats \<noteq> length yaws then Inr (Some BadSizes)
      else if actions \<noteq> [] \<and> length actions \<noteq> length lats then Inr (Some BadActionCount)
      else if roles \<noteq> [] \<and> length roles \<noteq> length lats then Inr (Some BadRoleCount)
      else if \<not> list_all isfinite (lats @ lons) then Inr (Some NotFinite)
      else if \<not> list_all (\<lambda>v. v \<in> {[], ''normal'', ''hard''}) roles then Inr (Some BadRole)
      else actions_error J 0 actions)"

subsection \<open>Headings\<close>

definition nano :: pyfloat where "nano = fl (1 / 1000000000)"

definition bearing :: "trig \<Rightarrow> waypoint \<Rightarrow> waypoint \<Rightarrow> pyfloat option" where
  "bearing T a b =
     (let dx = fsub (or_zero (wp_x b)) (or_zero (wp_x a)); dy = fsub (or_zero (wp_y b)) (or_zero (wp_y a))
      in if flt nano (tg_hypot T dx dy) then Some (tg_atan2 T dy dx) else None)"

text \<open>The heading of the point at \<open>i\<close>, in degrees, where it has none; the other points are read, not their headings.\<close>

definition legacy_yaw :: "trig \<Rightarrow> bool \<Rightarrow> waypoint list \<Rightarrow> nat \<Rightarrow> pyfloat" where
  "legacy_yaw T lp pts i =
     (let n = length pts; p = pts ! i;
          (origin, following) =
            (if i + 1 < n \<or> lp then (p, pts ! ((i + 1) mod n)) else (if i \<noteq> 0 then pts ! (i - 1) else p, p))
      in degrees (tg_atan2 T (fsub (or_zero (wp_y following)) (or_zero (wp_y origin)))
           (fsub (or_zero (wp_x following)) (or_zero (wp_x origin)))))"

definition tangent_yaw :: "trig \<Rightarrow> bool \<Rightarrow> waypoint list \<Rightarrow> nat \<Rightarrow> pyfloat" where
  "tangent_yaw T lp pts i =
     (let n = length pts; p = pts ! i;
          previous = (if i \<noteq> 0 then Some (pts ! (i - 1)) else if lp \<and> 1 < n then Some (pts ! (n - 1)) else None);
          following = (if i + 1 < n \<or> lp \<and> 1 < n then Some (pts ! ((i + 1) mod n)) else None);
          incoming = Option.bind previous (\<lambda>q. bearing T q p);
          outgoing = Option.bind following (\<lambda>q. bearing T p q)
      in degrees (case (incoming, outgoing) of
           (None, None) \<Rightarrow> fzero
         | (None, Some b) \<Rightarrow> b
         | (Some a, None) \<Rightarrow> a
         | (Some a, Some b) \<Rightarrow>
             (let x = fadd (tg_cos T a) (tg_cos T b); y = fadd (tg_sin T a) (tg_sin T b)
              in if fle (tg_hypot T x y) eps6 then b else tg_atan2 T y x)))"

definition resolve_yaw :: "trig \<Rightarrow> bool \<Rightarrow> bool \<Rightarrow> waypoint list \<Rightarrow> nat \<Rightarrow> waypoint" where
  "resolve_yaw T lp curve pts i =
     (let p = pts ! i in
      if isfinite (wp_yaw p) then p
      else p \<lparr> wp_yaw := (if curve then tangent_yaw T lp pts i else legacy_yaw T lp pts i) \<rparr>)"

definition resolve_yaws :: "trig \<Rightarrow> waypoint list \<Rightarrow> bool \<Rightarrow> bool \<Rightarrow> waypoint list" where
  "resolve_yaws T pts lp curve = map (resolve_yaw T lp curve pts) [0..<length pts]"

definition turn_deg :: "pyfloat \<Rightarrow> pyfloat \<Rightarrow> pyfloat" where
  "turn_deg a b =
     (case fmod_py (fadd (fsub a b) (Fin 180)) (Fin 360) of None \<Rightarrow> NaN | Some m \<Rightarrow> fabs (fsub m (Fin 180)))"

definition finite_xy :: "pyfloat option \<Rightarrow> bool" where
  "finite_xy v = (case v of None \<Rightarrow> False | Some x \<Rightarrow> isfinite x)"

text \<open>The heading of a leg that has a length, in degrees.\<close>

definition leg_heading :: "trig \<Rightarrow> pyfloat \<Rightarrow> pyfloat \<Rightarrow> pyfloat \<Rightarrow> pyfloat \<Rightarrow> pyfloat option" where
  "leg_heading T x1 y1 x2 y2 =
     (let dx = fsub x2 x1; dy = fsub y2 y1
      in if flt nano (tg_hypot T dx dy) then Some (degrees (tg_atan2 T dy dx)) else None)"

definition approach_yaw :: "trig \<Rightarrow> (pyfloat \<times> pyfloat) option \<Rightarrow> waypoint \<Rightarrow> pyfloat option" where
  "approach_yaw T approach first =
     (case (approach, wp_x first, wp_y first) of
        (Some (ax, ay), Some fx, Some fy) \<Rightarrow>
          if list_all isfinite [ax, ay, fx, fy] then leg_heading T ax ay fx fy else None
      | _ \<Rightarrow> None)"

text \<open>The first heading under the tangent policy: the reference replaces it where the join is sharp.\<close>

definition join_yaw :: "nat \<Rightarrow> pyfloat option \<Rightarrow> pyfloat \<Rightarrow> pyfloat \<Rightarrow> pyfloat" where
  "join_yaw n approach heading yaw =
     (let reference = (case approach of
            None \<Rightarrow> heading
          | Some a \<Rightarrow> if 1 < n \<and> fle (turn_deg a heading) (Fin 60) then a else heading)
      in if flt (Fin 60) (turn_deg yaw reference) then reference else yaw)"

definition terminal_yaw :: "trig \<Rightarrow> waypoint list \<Rightarrow> pyfloat list \<Rightarrow> pyfloat list" where
  "terminal_yaw T pts yaws =
     (if length pts < 2 \<or> wp_yaw_explicit (last pts) then yaws
      else
        (let previous = pts ! (length pts - 2); terminal = last pts in
         case (wp_x previous, wp_y previous, wp_x terminal, wp_y terminal) of
           (Some x1, Some y1, Some x2, Some y2) \<Rightarrow>
             if list_all isfinite [x1, y1, x2, y2]
             then (case leg_heading T x1 y1 x2 y2 of None \<Rightarrow> yaws | Some h \<Rightarrow> yaws[length yaws - 1 := h])
             else yaws
         | _ \<Rightarrow> yaws))"

definition dispatch_yaws ::
    "trig \<Rightarrow> waypoint list \<Rightarrow> (pyfloat \<times> pyfloat) option \<Rightarrow> pyfloat option \<Rightarrow> bool \<Rightarrow> pyfloat list" where
  "dispatch_yaws T pts approach heading curve =
     (let yaws = map wp_yaw pts in
      case pts of
        [] \<Rightarrow> yaws
      | first # rest \<Rightarrow>
          (let a = approach_yaw T approach first;
               aligned = (case a of
                 None \<Rightarrow> yaws
               | Some h \<Rightarrow>
                   if \<not> wp_yaw_explicit first \<and> (wp_key first \<or> \<not> curve) \<and>
                      (\<not> curve \<or> flt (Fin 60) (turn_deg (wp_yaw first) h))
                   then yaws[0 := h] else yaws)
           in case heading of
                Some h \<Rightarrow>
                  if curve \<and> wp_key first \<and> \<not> wp_yaw_explicit first \<and> isfinite h
                  then yaws[0 := join_yaw (length pts) a h (wp_yaw first)]
                  else if curve then aligned else terminal_yaw T pts aligned
              | None \<Rightarrow> if curve then aligned else terminal_yaw T pts aligned))"

subsection \<open>Expansion\<close>

definition drop_closure :: "trig \<Rightarrow> waypoint list \<Rightarrow> bool \<Rightarrow> pyfloat \<Rightarrow> waypoint list" where
  "drop_closure T pts lp tolerance =
     (if lp \<and> 2 < length pts \<and> fle (distance_to (tg_hypot T) (hd pts) (last pts)) tolerance then butlast pts else pts)"

definition between :: "pyfloat \<Rightarrow> pyfloat \<Rightarrow> pyfloat \<Rightarrow> pyfloat" where
  "between a b fraction = fadd a (fmul (fsub b a) fraction)"

definition synthetic_point :: "waypoint \<Rightarrow> waypoint \<Rightarrow> pyfloat \<Rightarrow> pyfloat \<Rightarrow> waypoint" where
  "synthetic_point a b yaw fraction =
     \<lparr> wp_lat = between (wp_lat a) (wp_lat b) fraction, wp_lon = between (wp_lon a) (wp_lon b) fraction, wp_yaw = yaw,
       wp_input_index = wp_input_index a, wp_key = False, wp_action = [], wp_role = ''normal'',
       wp_x = Some (between (or_zero (wp_x a)) (or_zero (wp_x b)) fraction),
       wp_y = Some (between (or_zero (wp_y a)) (or_zero (wp_y b)) fraction), wp_yaw_explicit = False \<rparr>"

text \<open>The loop over the steps of a leg; \<open>None\<close> is an exception.\<close>

fun leg_points :: "(pyfloat \<Rightarrow> waypoint) \<Rightarrow> pyfloat \<Rightarrow> pyfloat \<Rightarrow> int list \<Rightarrow> waypoint list option" where
  "leg_points mk distance spacing [] = Some []"
| "leg_points mk distance spacing (step # steps) =
     Option.bind (float_of_int step) (\<lambda>k.
     Option.bind (fdiv spacing (Fin 2)) (\<lambda>half.
       let travelled = fmul k spacing in
       if flt (fsub distance travelled) half then Some []
       else Option.bind (fdiv travelled distance) (\<lambda>fraction.
         map_option ((#) (mk fraction)) (leg_points mk distance spacing steps))))"

definition expand_leg :: "trig \<Rightarrow> pyfloat \<Rightarrow> bool \<Rightarrow> waypoint \<times> waypoint \<Rightarrow> waypoint list option" where
  "expand_leg T spacing curve leg =
     (let (a, b) = leg; distance = distance_to (tg_hypot T) a b;
          yaw = (if curve then degrees (or_zero (bearing T a b)) else wp_yaw a)
      in Option.bind (ffloordiv distance spacing) (\<lambda>q.
         Option.bind (py_int q) (\<lambda>count.
           map_option ((#) a) (leg_points (synthetic_point a b yaw) distance spacing [1..count]))))"

fun expand_legs :: "trig \<Rightarrow> pyfloat \<Rightarrow> bool \<Rightarrow> (waypoint \<times> waypoint) list \<Rightarrow> waypoint list option" where
  "expand_legs T spacing curve [] = Some []"
| "expand_legs T spacing curve (leg # legs) =
     Option.bind (expand_leg T spacing curve leg) (\<lambda>ps.
       map_option ((@) ps) (expand_legs T spacing curve legs))"

definition expand_route :: "trig \<Rightarrow> waypoint list \<Rightarrow> pyfloat \<Rightarrow> bool \<Rightarrow> bool \<Rightarrow> waypoint list option" where
  "expand_route T pts spacing lp curve =
     (if fle spacing fzero \<or> length pts < 2 then Some pts
      else
        map_option (\<lambda>r. if lp then r else r @ [last pts])
          (expand_legs T spacing curve (zip pts (tl pts @ (if lp then [hd pts] else [])))))"

text \<open>The prepared route with its heading policy.\<close>

definition prepare_route ::
    "trig \<Rightarrow> waypoint list \<Rightarrow> bool \<Rightarrow> int \<Rightarrow> pyfloat \<Rightarrow> pyfloat \<Rightarrow> int \<Rightarrow> bool \<Rightarrow> (route \<times> string) option" where
  "prepare_route T pts lp input_count spacing span_m maximum curve =
     (let resolved = resolve_yaws T (drop_closure T pts lp (fl (5 / 100))) lp curve in
      map_option (\<lambda>expanded.
          (\<lparr> rt_waypoints = expanded, rt_loop = lp, rt_input_count = input_count, rt_leg_spacing = spacing,
             rt_chunk_span = span_m, rt_chunk_max = maximum \<rparr>, if curve then ''route_tangent'' else []))
        (expand_route T resolved spacing lp curve))"

subsection \<open>What expansion and resolution keep\<close>

definition synthetic_of :: "waypoint \<Rightarrow> waypoint \<Rightarrow> bool" where
  "synthetic_of a p \<longleftrightarrow> \<not> wp_key p \<and> \<not> wp_yaw_explicit p \<and> wp_action p = [] \<and> wp_input_index p = wp_input_index a"

lemma leg_points_synthetic:
  "leg_points (synthetic_point a b yaw) d sp ks = Some ps \<Longrightarrow> list_all (synthetic_of a) ps"
proof (induction ks arbitrary: ps)
  case (Cons k ks)
  then show ?case
    by (auto simp: bind_eq_Some_conv Let_def synthetic_of_def synthetic_point_def split: if_splits)
qed simp

lemma expand_leg_shape:
  "expand_leg T sp curve (a, b) = Some ps \<Longrightarrow> \<exists>qs. ps = a # qs \<and> list_all (synthetic_of a) qs"
  by (auto simp: expand_leg_def Let_def bind_eq_Some_conv dest: leg_points_synthetic)

lemma synthetic_no_key: "list_all (synthetic_of a) qs \<Longrightarrow> filter wp_key qs = []"
  by (induction qs) (auto simp: synthetic_of_def)

lemma expand_legs_keys:
  "expand_legs T sp curve legs = Some ps \<Longrightarrow> filter wp_key ps = filter wp_key (map fst legs)"
proof (induction legs arbitrary: ps)
  case (Cons leg legs)
  obtain a b where l: "leg = (a, b)" by fastforce
  obtain qs rs where "expand_leg T sp curve (a, b) = Some qs" "expand_legs T sp curve legs = Some rs" "ps = qs @ rs"
    using Cons.prems l by (auto simp: bind_eq_Some_conv)
  then show ?case using expand_leg_shape [of T sp curve a b qs] synthetic_no_key Cons.IH l by auto
qed simp

lemma leg_origins:
  "map fst (zip pts (tl pts @ (if lp then [hd pts] else []))) = (if lp then pts else butlast pts)"
proof (cases pts)
  case (Cons p ps)
  have "map fst (zip (p # ps) ps) = butlast (p # ps)"
    by (simp add: map_fst_zip_take butlast_conv_take min_def)
  then show ?thesis using Cons by (simp add: map_fst_zip_take)
qed simp

lemma expand_route_keys:
  assumes "expand_route T pts sp lp curve = Some ps" shows "filter wp_key ps = filter wp_key pts"
proof (cases "fle sp fzero \<or> length pts < 2")
  case False
  define legs where "legs = zip pts (tl pts @ (if lp then [hd pts] else []))"
  from False assms obtain r where r: "expand_legs T sp curve legs = Some r" "ps = (if lp then r else r @ [last pts])"
    by (auto simp: expand_route_def legs_def)
  have "filter wp_key r = filter wp_key (if lp then pts else butlast pts)"
    using expand_legs_keys [OF r(1)] leg_origins [of pts lp] by (simp add: legs_def)
  moreover have "pts = butlast pts @ [last pts]" using False by (cases pts rule: rev_cases) auto
  then have "filter wp_key pts = filter wp_key (butlast pts) @ filter wp_key [last pts]" by (metis filter_append)
  ultimately show ?thesis using r(2) by simp
qed (use assms in \<open>auto simp: expand_route_def\<close>)

text \<open>The same waypoint up to a heading that was missing.\<close>

definition resolves :: "waypoint \<Rightarrow> waypoint \<Rightarrow> bool" where
  "resolves p q \<longleftrightarrow> q \<lparr> wp_yaw := wp_yaw p \<rparr> = p \<and> (if isfinite (wp_yaw p) then q = p else True)"

lemma resolve_yaws_resolves: "list_all2 resolves pts (resolve_yaws T pts lp curve)"
  by (auto simp: list_all2_conv_all_nth resolve_yaws_def resolves_def resolve_yaw_def Let_def)

lemma resolves_key: "resolves p q \<Longrightarrow> wp_key q = wp_key p"
proof -
  assume "resolves p q"
  moreover have "wp_key (q \<lparr> wp_yaw := wp_yaw p \<rparr>) = wp_key q" by simp
  ultimately show ?thesis by (simp add: resolves_def)
qed

lemma resolves_keys: "list_all2 resolves pts qs \<Longrightarrow> list_all wp_key pts \<Longrightarrow> filter wp_key qs = qs"
  by (induction rule: list_all2_induct) (auto dest: resolves_key)

text \<open>Only the first and the last heading of a dispatch may differ from those of the points.\<close>

definition inner_same :: "waypoint list \<Rightarrow> pyfloat list \<Rightarrow> bool" where
  "inner_same pts ys \<longleftrightarrow> length ys = length pts \<and>
     (\<forall>i<length pts. (wp_yaw_explicit (pts ! i) \<or> 0 < i \<and> i + 1 < length pts) \<longrightarrow> ys ! i = wp_yaw (pts ! i))"

lemma inner_same_yaws: "inner_same pts (map wp_yaw pts)"
  by (simp add: inner_same_def)

lemma inner_same_first: "\<not> wp_yaw_explicit first \<Longrightarrow> inner_same (first # rest) (h # map wp_yaw rest)"
  by (auto simp: inner_same_def nth_Cons split: nat.splits)

lemma inner_same_last:
  "inner_same pts ys \<Longrightarrow> pts \<noteq> [] \<Longrightarrow> \<not> wp_yaw_explicit (last pts) \<Longrightarrow> inner_same pts (ys[length ys - 1 := h])"
  by (auto simp: inner_same_def nth_list_update last_conv_nth)

lemma inner_same_terminal: "inner_same pts ys \<Longrightarrow> inner_same pts (terminal_yaw T pts ys)"
  using inner_same_last [of pts ys] by (cases "pts = []") (auto simp: terminal_yaw_def Let_def split: option.splits)

subsection \<open>Properties\<close>

text \<open>
  Preparation keeps the mission: the checkpoints of a prepared route are exactly the requested points,
  in their order (the point that closes a loop a second time aside), and they differ from them at most in a
  heading that the operator left open; what is inserted between them is never a checkpoint.
\<close>

lemma prepared_checkpoints:
  assumes "prepare_route T pts lp n sp chunk_span maximum curve = Some (r, policy)" "list_all wp_key pts"
  shows "list_all2 resolves (drop_closure T pts lp (fl (5 / 100))) (filter wp_key (rt_waypoints r))"
proof -
  define kept where "kept = drop_closure T pts lp (fl (5 / 100))"
  have "list_all wp_key kept" using assms(2) by (auto simp: kept_def drop_closure_def list_all_iff dest: in_set_butlastD)
  then have k: "filter wp_key (resolve_yaws T kept lp curve) = resolve_yaws T kept lp curve"
    by (rule resolves_keys [OF resolve_yaws_resolves])
  obtain e where "expand_route T (resolve_yaws T kept lp curve) sp lp curve = Some e" "rt_waypoints r = e"
    using assms(1) by (auto simp: prepare_route_def kept_def)
  then have "filter wp_key (rt_waypoints r) = resolve_yaws T kept lp curve" using expand_route_keys k by simp
  then show ?thesis using resolve_yaws_resolves [of kept T lp curve] by (simp add: kept_def)
qed

text \<open>
  A dispatch respects the operator: it has one heading per point, and whatever the approach and the
  policy, a heading that the operator gave and every heading between the first and the last point is the
  one of the prepared route.
\<close>

lemma dispatch_keeps_headings:
  "inner_same pts (dispatch_yaws T pts approach heading curve)"
proof (cases pts)
  case (Cons first rest)
  have "inner_same (first # rest) (wp_yaw first # map wp_yaw rest)" using inner_same_yaws [of "first # rest"] by simp
  then show ?thesis unfolding Cons
    by (auto simp: dispatch_yaws_def Let_def intro!: inner_same_terminal inner_same_first split: option.splits)
qed (simp add: dispatch_yaws_def inner_same_def)

subsection \<open>Witnesses\<close>

definition sample_trig :: trig where
  "sample_trig = \<lparr> tg_atan2 = (\<lambda>y x. fzero), tg_cos = (\<lambda>x. Fin 1), tg_sin = (\<lambda>x. fzero), tg_hypot = (\<lambda>x y. fabs x) \<rparr>"

definition sample_stop :: "rat \<Rightarrow> int \<Rightarrow> waypoint" where
  "sample_stop x i =
     \<lparr> wp_lat = Fin 0, wp_lon = Fin 0, wp_yaw = Fin 0, wp_input_index = i, wp_key = True, wp_action = [],
       wp_role = ''normal'', wp_x = Some (Fin x), wp_y = Some (Fin 0), wp_yaw_explicit = True \<rparr>"

lemma prepared_checkpoints_witness:
  "\<exists>r policy. prepare_route sample_trig [sample_stop 0 0, sample_stop 4 1] False 2 (Fin 2) (Fin 10) 5 True = Some (r, policy) \<and>
     length (rt_waypoints r) = 3 \<and> length (filter wp_key (rt_waypoints r)) = 2"
proof -
  let ?pts = "[sample_stop 0 0, sample_stop 4 1]"
  have "\<exists>r policy. prepare_route sample_trig ?pts False 2 (Fin 2) (Fin 10) 5 True = Some (r, policy) \<and> length (rt_waypoints r) = 3"
    by (simp add: prepare_route_def drop_closure_def resolve_yaws_def resolve_yaw_def sample_stop_def expand_route_def
        expand_leg_def distance_to_def or_zero_def sample_trig_def fsub_def ffloordiv_def floor_fin_def bearing_def upto.simps
        float_of_int_def nano_def Let_def)
  then obtain r policy where r: "prepare_route sample_trig ?pts False 2 (Fin 2) (Fin 10) 5 True = Some (r, policy)"
    "length (rt_waypoints r) = 3" by blast
  have "list_all wp_key ?pts" by (simp add: sample_stop_def)
  from prepared_checkpoints [OF r(1) this] have "length (filter wp_key (rt_waypoints r)) = 2"
    by (auto dest!: list_all2_lengthD simp: drop_closure_def)
  then show ?thesis using r by blast
qed

end
