(* ===== verification/Route_Anchor.thy ===== *)
theory Route_Anchor
  imports Route_Preparation
begin

section \<open>Entry into a route and progress along a chunk\<close>

text \<open>
  \<open>salus_navigation/route_anchor.py\<close>, \<open>route_progress.py\<close> and the distance to a segment of
  \<open>route_geometry.py\<close>: where a mission enters its route from the pose of the robot, and the projection of
  the robot on the active chunk. \<open>None\<close> is a division by zero.
\<close>

definition pico :: pyfloat where "pico = fl (1 / 1000000000000)"

definition segment_ratio :: "pyfloat \<Rightarrow> pyfloat \<Rightarrow> pyfloat \<Rightarrow> pyfloat \<Rightarrow> pyfloat \<Rightarrow> pyfloat \<Rightarrow> pyfloat \<Rightarrow> pyfloat option" where
  "segment_ratio x y ax ay dx dy length_sq =
     fdiv (fadd (fmul (fsub x ax) dx) (fmul (fsub y ay) dy)) length_sq"

definition distance_to_segment :: "hypot \<Rightarrow> pyfloat \<times> pyfloat \<Rightarrow> pyfloat \<times> pyfloat \<Rightarrow> pyfloat \<times> pyfloat \<Rightarrow> pyfloat option" where
  "distance_to_segment H p a b =
     (let (px, py) = p; (ax, ay) = a; (bx, by') = b; dx = fsub bx ax; dy = fsub by' ay;
          length_sq = fadd (fmul dx dx) (fmul dy dy)
      in if fle length_sq pico then Some (H (fsub px ax) (fsub py ay))
         else map_option (\<lambda>q.
             let ratio = pymax fzero (pymin (Fin 1) q)
             in H (fsub px (fadd ax (fmul ratio dx))) (fsub py (fadd ay (fmul ratio dy))))
           (segment_ratio px py ax ay dx dy length_sq))"

subsection \<open>Open routes\<close>

definition px :: "waypoint \<Rightarrow> pyfloat" where "px p = or_zero (wp_x p)"
definition py :: "waypoint \<Rightarrow> pyfloat" where "py p = or_zero (wp_y p)"

text \<open>The loop that skips reached points: the first index from \<open>i\<close> that is the last one or is not reached.\<close>

fun skip_near :: "hypot \<Rightarrow> waypoint list \<Rightarrow> pyfloat \<Rightarrow> pyfloat \<Rightarrow> pyfloat \<Rightarrow> nat \<Rightarrow> nat list \<Rightarrow> nat" where
  "skip_near H pts x y tol i [] = i"
| "skip_near H pts x y tol i (j # js) =
     (if i + 1 < length pts \<and> fle (H (fsub (px (pts ! i)) x) (fsub (py (pts ! i)) y)) tol
      then skip_near H pts x y tol (i + 1) js else i)"

fun pass_segments :: "hypot \<Rightarrow> waypoint list \<Rightarrow> pyfloat \<Rightarrow> pyfloat \<Rightarrow> pyfloat \<Rightarrow> nat \<Rightarrow> nat list \<Rightarrow> nat option" where
  "pass_segments H pts x y tol i [] = Some i"
| "pass_segments H pts x y tol i (l # ls) =
     (let a = pts ! l; b = pts ! (l + 1); dx = fsub (px b) (px a); dy = fsub (py b) (py a);
          length2 = fadd (fmul dx dx) (fmul dy dy)
      in if feq length2 fzero then pass_segments H pts x y tol i ls
         else Option.bind (segment_ratio x y (px a) (py a) dx dy length2) (\<lambda>t.
           if fle fzero t \<and> fle t (Fin 1) \<and>
              fle (H (fsub x (fadd (px a) (fmul t dx))) (fsub y (fadd (py a) (fmul t dy)))) tol
           then pass_segments H pts x y tol (max i (l + 1)) ls
           else pass_segments H pts x y tol i ls))"

definition select_open_anchor :: "hypot \<Rightarrow> waypoint list \<Rightarrow> pyfloat \<Rightarrow> pyfloat \<Rightarrow> pyfloat \<Rightarrow> pyfloat \<Rightarrow> nat option" where
  "select_open_anchor H pts x y reached_tol segment_tol =
     (let i = skip_near H pts x y reached_tol 0 [0..<length pts]
      in pass_segments H pts x y segment_tol i [i..<length pts - 1])"

subsection \<open>Loops\<close>

record anchor_candidate =
  an_start :: nat
  an_end :: nat
  an_distance :: pyfloat
  an_projection :: pyfloat
  an_heading_error :: "pyfloat option"

datatype anchor_reason =
    OpenRoute | EmptyAnchorRoute | OrientationUnavailable | NoNearSegment | NoForwardSegment | AmbiguousSegments | BestForward

record anchor_selection =
  as_anchor :: "nat option"
  as_reason :: anchor_reason
  as_candidates :: "anchor_candidate list"

definition heading_error :: "trig \<Rightarrow> pyfloat option \<Rightarrow> pyfloat \<Rightarrow> pyfloat \<Rightarrow> pyfloat option" where
  "heading_error T heading dx dy =
     (case heading of None \<Rightarrow> None
      | Some h \<Rightarrow> if isfinite h then Some (turn_deg (degrees (tg_atan2 T dy dx)) h) else None)"

definition is_forward :: "anchor_candidate \<Rightarrow> bool" where
  "is_forward c \<longleftrightarrow> (case an_heading_error c of None \<Rightarrow> False | Some e \<Rightarrow> flt e (Fin 90))"

text \<open>The candidate of the segment that leaves the point at \<open>l\<close>; \<open>Some None\<close> where it is not one.\<close>

definition segment_candidate ::
    "trig \<Rightarrow> waypoint list \<Rightarrow> pyfloat \<Rightarrow> pyfloat \<Rightarrow> pyfloat \<Rightarrow> pyfloat option \<Rightarrow> nat \<Rightarrow> anchor_candidate option option" where
  "segment_candidate T pts x y tol heading l =
     (let r = (l + 1) mod length pts; a = pts ! l; b = pts ! r; dx = fsub (px b) (px a); dy = fsub (py b) (py a);
          length_sq = fadd (fmul dx dx) (fmul dy dy)
      in if fle length_sq pico then Some None
         else Option.bind (segment_ratio x y (px a) (py a) dx dy length_sq) (\<lambda>t.
           if \<not> (fle fzero t \<and> fle t (Fin 1)) then Some None
           else Option.bind (distance_to_segment (tg_hypot T) (x, y) (px a, py a) (px b, py b)) (\<lambda>d.
             if flt tol d then Some None
             else Some (Some \<lparr> an_start = l, an_end = r, an_distance = d, an_projection = t,
                    an_heading_error = heading_error T heading dx dy \<rparr>))))"

definition near_candidate ::
    "trig \<Rightarrow> waypoint list \<Rightarrow> pyfloat \<Rightarrow> pyfloat \<Rightarrow> pyfloat \<Rightarrow> pyfloat option \<Rightarrow> nat \<Rightarrow> anchor_candidate option" where
  "near_candidate T pts x y tol heading l =
     (let r = (l + 1) mod length pts; a = pts ! l; b = pts ! r; d = tg_hypot T (fsub x (px a)) (fsub y (py a));
          dx = fsub (px b) (px a); dy = fsub (py b) (py a)
      in if flt tol d \<or> fle (tg_hypot T dx dy) pico then None
         else Some \<lparr> an_start = l, an_end = r, an_distance = d, an_projection = fzero,
                an_heading_error = heading_error T heading dx dy \<rparr>)"

fun segment_candidates ::
    "trig \<Rightarrow> waypoint list \<Rightarrow> pyfloat \<Rightarrow> pyfloat \<Rightarrow> pyfloat \<Rightarrow> pyfloat option \<Rightarrow> nat list \<Rightarrow> anchor_candidate list option" where
  "segment_candidates T pts x y tol heading [] = Some []"
| "segment_candidates T pts x y tol heading (l # ls) =
     Option.bind (segment_candidate T pts x y tol heading l) (\<lambda>c.
       map_option (\<lambda>cs. case c of None \<Rightarrow> cs | Some d \<Rightarrow> d # cs) (segment_candidates T pts x y tol heading ls))"

text \<open>The dictionary keeps the place of an entry that is replaced; new entries go last.\<close>

fun put_candidate :: "anchor_candidate \<Rightarrow> anchor_candidate list \<Rightarrow> anchor_candidate list" where
  "put_candidate c [] = [c]"
| "put_candidate c (d # ds) =
     (if an_start d = an_start c then (if flt (an_distance c) (an_distance d) then c # ds else d # ds)
      else d # put_candidate c ds)"

definition dominates :: "anchor_candidate \<Rightarrow> anchor_candidate \<Rightarrow> bool" where
  "dominates b c \<longleftrightarrow>
     (case (an_heading_error b, an_heading_error c) of
        (Some e, Some f) \<Rightarrow> fle (an_distance b) (an_distance c) \<and> fle e f \<and> (flt (an_distance b) (an_distance c) \<or> flt e f)
      | _ \<Rightarrow> False)"

definition select_loop_anchor ::
    "trig \<Rightarrow> waypoint list \<Rightarrow> pyfloat \<Rightarrow> pyfloat \<Rightarrow> pyfloat \<Rightarrow> pyfloat \<Rightarrow> pyfloat option \<Rightarrow> anchor_selection option" where
  "select_loop_anchor T pts x y reached_tol segment_tol heading =
     (if pts = [] then Some \<lparr> as_anchor = None, as_reason = EmptyAnchorRoute, as_candidates = [] \<rparr>
      else
        map_option (\<lambda>segs.
          let near = List.map_filter (near_candidate T pts x y reached_tol heading) [0..<length pts];
              cands = fold put_candidate near segs;
              forward = filter is_forward cands;
              best = filter (\<lambda>c. \<not> list_ex (\<lambda>b. dominates b c) forward) forward;
              none = (\<lambda>why cs. \<lparr> as_anchor = None, as_reason = why, as_candidates = cs \<rparr>)
          in if \<not> (case heading of None \<Rightarrow> False | Some h \<Rightarrow> isfinite h) then none OrientationUnavailable cands
             else if cands = [] then none NoNearSegment []
             else if forward = [] then none NoForwardSegment cands
             else (case best of
                 [c] \<Rightarrow> \<lparr> as_anchor = Some (an_end c), as_reason = BestForward, as_candidates = cands \<rparr>
               | _ \<Rightarrow> none AmbiguousSegments cands))
          (segment_candidates T pts x y segment_tol heading [0..<length pts]))"

definition select_anchor ::
    "trig \<Rightarrow> route \<Rightarrow> pyfloat \<Rightarrow> pyfloat \<Rightarrow> pyfloat \<Rightarrow> pyfloat \<Rightarrow> pyfloat option \<Rightarrow> anchor_selection option" where
  "select_anchor T r x y reached_tol segment_tol heading =
     (if \<not> rt_loop r
      then map_option (\<lambda>i. \<lparr> as_anchor = Some i, as_reason = OpenRoute, as_candidates = [] \<rparr>)
             (select_open_anchor (tg_hypot T) (rt_waypoints r) x y reached_tol segment_tol)
      else select_loop_anchor T (rt_waypoints r) x y reached_tol segment_tol heading)"

subsection \<open>Progress\<close>

record progress =
  pg_expanded :: int
  pg_checkpoint :: int
  pg_ratio :: pyfloat
  pg_cross :: pyfloat
  pg_distance :: pyfloat

definition no_progress :: progress where
  "no_progress = \<lparr> pg_expanded = - 1, pg_checkpoint = - 1, pg_ratio = fzero, pg_cross = fzero, pg_distance = PInf \<rparr>"

record foot =
  ft_distance :: pyfloat
  ft_along :: pyfloat
  ft_local :: nat
  ft_fraction :: pyfloat

definition foot_less :: "foot \<Rightarrow> foot \<Rightarrow> bool" where
  "foot_less a b =
     (if feq (ft_distance a) (ft_distance b) then flt (ft_along a) (ft_along b) else flt (ft_distance a) (ft_distance b))"

definition foot_of :: "hypot \<Rightarrow> waypoint \<Rightarrow> waypoint \<Rightarrow> pyfloat \<Rightarrow> pyfloat \<Rightarrow> pyfloat \<Rightarrow> pyfloat \<Rightarrow> nat \<Rightarrow> foot option" where
  "foot_of H a b len x y travelled l =
     map_option (\<lambda>fraction.
         let qx = fadd (px a) (fmul fraction (fsub (px b) (px a))); qy = fadd (py a) (fmul fraction (fsub (py b) (py a)))
         in \<lparr> ft_distance = H (fsub x qx) (fsub y qy), ft_along = fadd travelled (fmul fraction len), ft_local = l,
              ft_fraction = fraction \<rparr>)
       (if fle len nano then Some fzero
        else map_option (\<lambda>q. pymax fzero (pymin (Fin 1) q))
               (segment_ratio x y (px a) (py a) (fsub (px b) (px a)) (fsub (py b) (py a)) (fmul len len)))"

fun best_foot :: "hypot \<Rightarrow> waypoint list \<Rightarrow> pyfloat \<Rightarrow> pyfloat \<Rightarrow> pyfloat \<Rightarrow> foot option \<Rightarrow> (nat \<times> pyfloat) list \<Rightarrow> foot option option" where
  "best_foot H pts x y travelled best [] = Some best"
| "best_foot H pts x y travelled best ((l, len) # rest) =
     Option.bind (foot_of H (pts ! l) (pts ! (l + 1)) len x y travelled l) (\<lambda>f.
       best_foot H pts x y (fadd travelled len)
         (case best of None \<Rightarrow> Some f | Some b \<Rightarrow> if foot_less f b then Some f else best) rest)"

definition last_checkpoint :: "waypoint list \<Rightarrow> int" where
  "last_checkpoint pts = foldl (\<lambda>i p. if wp_key p then wp_input_index p else i) (- 1) pts"

definition project :: "hypot \<Rightarrow> chunk \<Rightarrow> pyfloat \<Rightarrow> pyfloat \<Rightarrow> progress option" where
  "project H c x y =
     (let pts = ch_waypoints c in
      case pts of
        [] \<Rightarrow> Some no_progress
      | [p] \<Rightarrow>
          (let d = H (fsub (px p) x) (fsub (py p) y)
           in Some \<lparr> pg_expanded = ch_start c, pg_checkpoint = (if wp_key p then wp_input_index p else - 1), pg_ratio = Fin 1,
                pg_cross = d, pg_distance = d \<rparr>)
      | _ \<Rightarrow>
          (let lengths = map (\<lambda>i. distance_to H (pts ! i) (pts ! (i + 1))) [0..<length pts - 1];
               total = foldl fadd fzero lengths
           in Option.bind (best_foot H pts x y fzero None (zip [0..<length pts - 1] lengths)) (\<lambda>best.
                case best of None \<Rightarrow> None
                | Some f \<Rightarrow>
                    (let e = ft_local f + (if fle (Fin 1) (ft_fraction f) then 1 else 0) in
                     map_option (\<lambda>ratio.
                         \<lparr> pg_expanded = ch_start c + int e, pg_checkpoint = last_checkpoint (take (e + 1) pts), pg_ratio = ratio,
                           pg_cross = ft_distance f, pg_distance = H (fsub (px (last pts)) x) (fsub (py (last pts)) y) \<rparr>)
                       (if fle total nano then Some (Fin 1) else fdiv (ft_along f) total)))))"

subsection \<open>Lemmas\<close>

text \<open>An open anchor is an index of the route: it never skips the last point.\<close>

lemma skip_near_bound: "i < length pts \<Longrightarrow> skip_near H pts x y tol i js < length pts \<and> i \<le> skip_near H pts x y tol i js"
  by (induction js arbitrary: i) (force simp: less_diff_conv)+

lemma pass_segments_bound:
  "pass_segments H pts x y tol i ls = Some j \<Longrightarrow> i < length pts \<Longrightarrow> list_all (\<lambda>l. l + 1 < length pts) ls \<Longrightarrow> i \<le> j \<and> j < length pts"
proof (induction ls arbitrary: i)
  case (Cons l ls)
  from Cons.prems show ?case
    by (auto simp: Let_def bind_eq_Some_conv split: if_splits dest: Cons.IH)
qed simp

lemma open_anchor_bound:
  assumes "select_open_anchor H pts x y rt st = Some j" "pts \<noteq> []" shows "j < length pts"
proof -
  define i where "i = skip_near H pts x y rt 0 [0..<length pts]"
  have "i < length pts" using skip_near_bound [of 0 pts] assms(2) by (auto simp: i_def)
  moreover have "list_all (\<lambda>l. l + 1 < length pts) [i..<length pts - 1]" by (auto simp: list_all_iff)
  ultimately show ?thesis using pass_segments_bound assms(1) by (auto simp: select_open_anchor_def Let_def simp flip: i_def)
qed

lemma put_candidate_set: "set (put_candidate c ds) \<subseteq> insert c (set ds)"
  by (induction ds) auto

lemma fold_put_set: "set (fold put_candidate cs ds) \<subseteq> set cs \<union> set ds"
proof (induction cs arbitrary: ds)
  case (Cons c cs)
  then show ?case using put_candidate_set [of c ds] by fastforce
qed simp

definition candidate_ok :: "trig \<Rightarrow> waypoint list \<Rightarrow> pyfloat \<Rightarrow> pyfloat \<Rightarrow> anchor_candidate \<Rightarrow> bool" where
  "candidate_ok T pts rt st c \<longleftrightarrow> an_start c < length pts \<and> an_end c = (an_start c + 1) mod length pts \<and>
     (\<not> flt st (an_distance c) \<or> \<not> flt rt (an_distance c))"

lemma segment_candidate_ok:
  "segment_candidate T pts x y st h l = Some (Some c) \<Longrightarrow> l < length pts \<Longrightarrow> candidate_ok T pts rt st c"
  by (auto simp: segment_candidate_def Let_def bind_eq_Some_conv candidate_ok_def split: if_splits)

lemma segment_candidates_ok:
  "segment_candidates T pts x y st h ls = Some cs \<Longrightarrow> list_all (\<lambda>l. l < length pts) ls \<Longrightarrow> list_all (candidate_ok T pts rt st) cs"
  by (induction ls arbitrary: cs) (auto simp: bind_eq_Some_conv split: option.splits dest: segment_candidate_ok)

lemma near_candidate_ok: "near_candidate T pts x y rt h l = Some c \<Longrightarrow> l < length pts \<Longrightarrow> candidate_ok T pts rt st c"
  by (auto simp: near_candidate_def Let_def candidate_ok_def split: if_splits)

subsection \<open>Property\<close>

text \<open>
  A loop is entered forwards: an accepted entry is the end of a segment close to the robot whose
  direction differs from the heading by less than a right angle, and no other such segment is better in
  both distance and heading; the entry is an index of the route.
\<close>

lemma loop_anchor_forward:
  assumes "rt_loop r" "select_anchor T r x y rt st heading = Some s" "as_anchor s = Some i"
  shows "i < length (rt_waypoints r) \<and>
    (\<exists>c\<in>set (as_candidates s). an_end c = i \<and> candidate_ok T (rt_waypoints r) rt st c \<and> is_forward c \<and>
       list_all (\<lambda>b. \<not> (is_forward b \<and> dominates b c)) (as_candidates s))"
proof -
  define pts where "pts = rt_waypoints r"
  from assms obtain segs where segs: "segment_candidates T pts x y st heading [0..<length pts] = Some segs" "pts \<noteq> []"
    by (auto simp: select_anchor_def select_loop_anchor_def pts_def split: if_splits)
  define cands where "cands = fold put_candidate (List.map_filter (near_candidate T pts x y rt heading) [0..<length pts]) segs"
  define forward where "forward = filter is_forward cands"
  have "list_all (candidate_ok T pts rt st) segs" using segment_candidates_ok [OF segs(1)] by (simp add: list_all_iff)
  moreover have "candidate_ok T pts rt st c" if "c \<in> set (List.map_filter (near_candidate T pts x y rt heading) [0..<length pts])" for c
    using that near_candidate_ok by (fastforce simp: List.map_filter_def)
  ultimately have ok: "list_all (candidate_ok T pts rt st) cands"
    using fold_put_set [of "List.map_filter (near_candidate T pts x y rt heading) [0..<length pts]" segs]
    by (auto simp: cands_def list_all_iff)
  have "\<exists>c. filter (\<lambda>c. \<not> list_ex (\<lambda>b. dominates b c) forward) forward = [c] \<and> i = an_end c \<and> as_candidates s = cands"
    using assms segs
    by (auto simp: select_anchor_def select_loop_anchor_def Let_def simp flip: pts_def cands_def forward_def
        split: if_splits list.splits)
  then obtain c where c: "filter (\<lambda>c. \<not> list_ex (\<lambda>b. dominates b c) forward) forward = [c]" "i = an_end c" "as_candidates s = cands"
    by blast
  have "c \<in> set (filter (\<lambda>c. \<not> list_ex (\<lambda>b. dominates b c) forward) forward)" unfolding c(1) by simp
  then have m: "c \<in> set cands" "is_forward c" "list_all (\<lambda>b. \<not> (is_forward b \<and> dominates b c)) cands"
    by (auto simp: forward_def list_ex_iff list_all_iff)
  then have "candidate_ok T pts rt st c" using ok by (simp add: list_all_iff)
  moreover from this have "i < length pts" using segs(2) c(2) by (simp add: candidate_ok_def)
  ultimately show ?thesis using m c by (auto simp: pts_def)
qed

subsection \<open>Witness\<close>

definition anchor_sample_trig :: trig where
  "anchor_sample_trig = \<lparr> tg_atan2 = (\<lambda>y x. if flt x fzero then Fin 3 else fzero), tg_cos = (\<lambda>x. fzero), tg_sin = (\<lambda>x. fzero),
     tg_hypot = (\<lambda>x y. fzero) \<rparr>"

definition anchor_sample_route :: route where
  "anchor_sample_route = \<lparr> rt_waypoints = [sample_point True, (sample_point True) \<lparr> wp_x := Some (Fin 2) \<rparr>],
     rt_loop = True, rt_input_count = 2, rt_leg_spacing = Fin 5, rt_chunk_span = Fin 30, rt_chunk_max = 10 \<rparr>"


lemma pico_eq: "pico = Fin (4951760157141521 / 4951760157141521099596496896)"
  by (simp add: pico_def fl_eval)

lemma anchor_sample_sq: "fmul (Fin 2) (Fin 2) = Fin 4" "fadd (Fin 4) fzero = Fin 4" "fdiv (Fin 2) (Fin 4) = Some (Fin (1/2))"
  "fmul (Fin (-2)) (Fin (-2)) = Fin 4"  "fmul (Fin (-1)) (Fin (-2)) = Fin 2"
  by (simp_all add: fl_eval)


lemma anchor_sample_points: "length (rt_waypoints anchor_sample_route) = 2"
  "px (rt_waypoints anchor_sample_route ! 0) = fzero" "py (rt_waypoints anchor_sample_route ! 0) = fzero"
  "px (rt_waypoints anchor_sample_route ! 1) = Fin 2" "py (rt_waypoints anchor_sample_route ! 1) = fzero"
  "rt_waypoints anchor_sample_route \<noteq> []" "rt_loop anchor_sample_route"
  by (simp_all add: anchor_sample_route_def sample_point_def px_def py_def or_zero_def)

lemma anchor_sample_segment:
  "segment_candidate anchor_sample_trig (rt_waypoints anchor_sample_route) (Fin 1) fzero (Fin 5) (Some fzero) 0 =
     Some (Some \<lparr> an_start = 0, an_end = 1, an_distance = fzero, an_projection = Fin (1/2), an_heading_error = Some fzero \<rparr>)"
  "segment_candidate anchor_sample_trig (rt_waypoints anchor_sample_route) (Fin 1) fzero (Fin 5) (Some fzero) 1 =
     Some (Some \<lparr> an_start = 1, an_end = 0, an_distance = fzero, an_projection = Fin (1/2),
       an_heading_error = Some (turn_deg (degrees (Fin 3)) fzero) \<rparr>)"
   by (simp_all add: segment_candidate_def anchor_sample_points anchor_sample_points [simplified] Let_def pico_eq segment_ratio_def distance_to_segment_def
     anchor_sample_trig_def fsub_def anchor_sample_sq heading_error_def turn_deg_def degrees_def pymax_def pymin_def fl_eval)

lemma anchor_sample_near: "near_candidate anchor_sample_trig (rt_waypoints anchor_sample_route) (Fin 1) fzero (Fin 1) (Some fzero) l = None"
  by (simp add: near_candidate_def anchor_sample_trig_def pico_eq Let_def)

lemma anchor_sample_turn: "\<not> flt (turn_deg (degrees (Fin 3)) fzero) (Fin 90)"
  by (simp add: turn_deg_def degrees_def fsub_def fl_eval)

lemma sample_anchor:
  "map_option as_anchor (select_anchor anchor_sample_trig anchor_sample_route (Fin 1) fzero (Fin 1) (Fin 5) (Some fzero)) = Some (Some 1)"
  by (simp add: select_anchor_def select_loop_anchor_def Let_def anchor_sample_points anchor_sample_segment anchor_sample_segment [simplified]
      anchor_sample_near List.map_filter_def is_forward_def upt_rec dominates_def anchor_sample_turn)

lemma loop_anchor_forward_witness:
  "\<exists>s. select_anchor anchor_sample_trig anchor_sample_route (Fin 1) fzero (Fin 1) (Fin 5) (Some fzero) = Some s \<and>
     (\<exists>c\<in>set (as_candidates s). an_end c = 1 \<and> is_forward c)"
proof -
  obtain s where s: "select_anchor anchor_sample_trig anchor_sample_route (Fin 1) fzero (Fin 1) (Fin 5) (Some fzero) = Some s" "as_anchor s = Some 1"
    using sample_anchor by auto
  have "rt_loop anchor_sample_route" by (simp add: anchor_sample_route_def)
  from loop_anchor_forward [OF this s] s(1) show ?thesis by blast
qed
end
