(* ===== verification/Route_Executor.thy ===== *)
theory Route_Executor
  imports Handlers Route_Anchor
begin

section \<open>The route executor\<close>

text \<open>
  \<open>salus_navigation/route_executor_node.py\<close>: the node that owns a route mission. It prepares a requested
  route while the old mission goes on, sends chunks of the route as navigation goals, credits checkpoints,
  runs the actions of waypoints, recovers from blocked paths, and serves the set, cancel and profile
  services. Handlers do their work under the node's lock, and each is one step. Where a handler gives the lock up in
  between (\<open>_tick_recovery\<close> before it stops or retries), what another could do in the gap is not modelled. What a
  handler reads from outside is part of its event: the answers of services, and the clock, a function from
  the place of a reading in the handler to its value. Published messages and service calls go to a log.
  The fields of diagnostic events are left out, except those of reached checkpoints.
\<close>

subsection \<open>State\<close>

record executor_params =
  xp_reached_tol :: pyfloat
  xp_mode :: string
  xp_leg_max :: pyfloat
  xp_dense_horizon :: pyfloat
  xp_goal_horizon :: pyfloat
  xp_pose_age :: pyfloat
  xp_fromll_timeout :: pyfloat
  xp_persistence :: pyfloat
  xp_retry_wait :: pyfloat
  xp_max_attempts :: int
  xp_segment_tol :: pyfloat
  xp_clear_timeout :: pyfloat

record route_world =
  rw_trig :: trig
  rw_json :: json_lib
  rw_params :: executor_params

record mission_request =
  mq_lats :: "pyfloat list"
  mq_lons :: "pyfloat list"
  mq_yaws :: "pyfloat list"
  mq_actions :: "string list"
  mq_roles :: "string list"
  mq_loop :: bool
  mq_spacing :: pyfloat
  mq_span :: pyfloat
  mq_max :: int
  mq_policy :: string

record route_job =
  jb_epoch :: int
  jb_raw :: "waypoint list"
  jb_converted :: "waypoint list"
  jb_next :: nat
  jb_future :: bool
  jb_request :: mission_request
  jb_deadline :: pyfloat

record goal_request =
  gr_lats :: "pyfloat list"
  gr_lons :: "pyfloat list"
  gr_yaws :: "pyfloat list"
  gr_suppress :: bool

record clear_job =
  cj_deadline :: pyfloat
  cj_pending :: chunk
  cj_size :: nat

record path_health_msg =
  hm_stop :: bool
  hm_reason :: string
  hm_wait :: pyfloat

type_synonym identity = "string \<times> int \<times> int"

type_synonym tracker_key = "string \<times> int \<times> (int \<times> int \<times> pyfloat \<times> pyfloat) list"

datatype route_output =
    SetGoal int string goal_request
  | CancelGoal
  | BrakeNav pyfloat int
  | ApplyProfile string
  | ClearCostmaps
  | AskConversion pyfloat pyfloat
  | PublishPaths
  | CheckpointReached identity int string
  | RouteEvent string
  | Accepted
  | Rejected string
  | Uncaught

datatype fault = AttributeFault | IndexFault | ValueFault | TypeFault | RuntimeFault | ArithmeticFault

record executor =
  rx_mission :: mission
  rx_progress :: progress
  rx_policy :: string
  rx_preparation :: "route_job option"
  rx_preparation_epoch :: int
  rx_pose :: "(pyfloat \<times> pyfloat) option"
  rx_heading :: "pyfloat option"
  rx_sample :: "pose_sample option"
  rx_chunk :: "chunk option"
  rx_tracker :: "tracker option"
  rx_tracker_key :: "tracker_key option"
  rx_reached :: "identity list"
  rx_offset :: int
  rx_goal_epoch :: int
  rx_pending :: bool
  rx_dispatch_start :: "dispatch_start option"
  rx_floor :: int
  rx_last_result :: int
  rx_action :: "execution option"
  rx_action_future :: bool
  rx_profile :: string
  rx_health :: "path_health_msg option"
  rx_collision :: bool
  rx_failure :: string
  rx_recovery :: recovery
  rx_clears :: "clear_job option"
  rx_at_checkpoint :: bool
  rx_event_id :: int
  rx_log :: "route_output list"

type_synonym 'a act = "(executor, fault, 'a) action"

type_synonym readings = "nat \<Rightarrow> pyfloat"

definition idle_mission :: mission where
  "idle_mission = \<lparr> mi_prepared = None, mi_phase = RIdle, mi_id = [], mi_target = 0, mi_chunk = 0, mi_iteration = 0,
     mi_reached = 0, mi_pause_reason = [] \<rparr>"

text \<open>The constructor; \<open>None\<close> is the \<open>ValueError\<close> of a parameter out of range.\<close>

definition new_executor :: "executor_params \<Rightarrow> executor option" where
  "new_executor p =
     (if xp_mode p \<notin> {''single_checkpoint'', ''legacy_pair'', ''adaptive_dense''} \<or>
         fle (xp_leg_max p) fzero \<or> fle (xp_dense_horizon p) fzero \<or>
         \<not> isfinite (xp_goal_horizon p) \<or> fle (xp_goal_horizon p) fzero \<or>
         \<not> (flt fzero (xp_pose_age p) \<and> fle (xp_pose_age p) (Fin 2))
      then None
      else Some
        \<lparr> rx_mission = idle_mission, rx_progress = no_progress, rx_policy = [], rx_preparation = None,
          rx_preparation_epoch = 0, rx_pose = None, rx_heading = None, rx_sample = None, rx_chunk = None,
          rx_tracker = None, rx_tracker_key = None, rx_reached = [], rx_offset = 0, rx_goal_epoch = 0,
          rx_pending = False, rx_dispatch_start = None, rx_floor = - 1, rx_last_result = - 1, rx_action = None,
          rx_action_future = False, rx_profile = ''urban'', rx_health = None, rx_collision = False,
          rx_failure = [], rx_recovery = new_recovery (xp_persistence p) (xp_retry_wait p) (xp_max_attempts p),
          rx_clears = None, rx_at_checkpoint = False, rx_event_id = 0, rx_log = [] \<rparr>)"

subsection \<open>Publishing and the mission\<close>

definition emit :: "route_output \<Rightarrow> unit act" where
  "emit o1 = modify (\<lambda>s. s \<lparr> rx_log := rx_log s @ [o1] \<rparr>)"

definition event :: "string \<Rightarrow> unit act" where
  "event code = modify (\<lambda>s. s \<lparr> rx_event_id := rx_event_id s + 1, rx_log := rx_log s @ [RouteEvent code] \<rparr>)"

definition stop_brake :: "unit act" where
  "stop_brake = emit (BrakeNav (Fin (1 / 4)) 100)"

definition enter_phase :: "route_phase \<Rightarrow> string \<Rightarrow> unit act" where
  "enter_phase target reason =
     after (gets (\<lambda>s. transition (rx_mission s) target reason)) (\<lambda>t.
     after (require ValueFault t) (\<lambda>m. modify (\<lambda>s. s \<lparr> rx_mission := m \<rparr>)))"

definition pause :: "string \<Rightarrow> unit act" where
  "pause reason = sequence
     [modify (\<lambda>s. s \<lparr> rx_pending := False, rx_at_checkpoint := False \<rparr>),
      after (gets (\<lambda>s. mi_phase (rx_mission s))) (\<lambda>ph. act_if (ph = RActive) (enter_phase RPaused reason)),
      modify (\<lambda>s. s \<lparr> rx_goal_epoch := rx_goal_epoch s + 1, rx_action := None,
        rx_action_future := (if rx_action s = None then rx_action_future s else False) \<rparr>),
      emit CancelGoal]"

definition the_route :: "route act" where
  "the_route = after (gets (\<lambda>s. mi_prepared (rx_mission s))) (require AttributeFault)"

definition the_chunk :: "chunk act" where
  "the_chunk = after (gets rx_chunk) (require AttributeFault)"

text \<open>Indexing as Python does it, from the end for negative indices.\<close>

definition py_nth :: "'a list \<Rightarrow> int \<Rightarrow> 'a option" where
  "py_nth xs i =
     (let k = (if i < 0 then i + int (length xs) else i)
      in if 0 \<le> k \<and> k < int (length xs) then Some (xs ! nat k) else None)"

subsection \<open>Checkpoints\<close>

definition occurrence_of :: "chunk \<Rightarrow> nat \<times> int \<times> int \<Rightarrow> occurrence option" where
  "occurrence_of c oc =
     (let (off, idx, it) = oc; p = ch_waypoints c ! off in
      case (wp_x p, wp_y p) of
        (Some x, Some y) \<Rightarrow> Some \<lparr> oc_index = idx, oc_iteration = it, oc_x = x, oc_y = y \<rparr>
      | _ \<Rightarrow> None)"

fun occurrences_of :: "chunk \<Rightarrow> (nat \<times> int \<times> int) list \<Rightarrow> occurrence list option" where
  "occurrences_of c [] = Some []"
| "occurrences_of c (x # xs) =
     Option.bind (occurrence_of c x) (\<lambda>y. map_option ((#) y) (occurrences_of c xs))"

definition chunk_key :: "mission \<Rightarrow> occurrence list \<Rightarrow> tracker_key" where
  "chunk_key m occs = (mi_id m, mi_chunk m, map (\<lambda>oc. (oc_index oc, oc_iteration oc, oc_x oc, oc_y oc)) occs)"

definition prepare_tracker :: "route_world \<Rightarrow> unit act" where
  "prepare_tracker W =
     after the_chunk (\<lambda>c.
     after (require IndexFault (py_nth (ch_waypoints c) (- 1))) (\<lambda>terminal.
     after (require TypeFault (occurrences_of c (checkpoint_occurrences c))) (\<lambda>occs.
     after (gets (\<lambda>s. (rx_tracker_key s, chunk_key (rx_mission s) occs))) (\<lambda>(old, key).
       if old = Some key then ret ()
       else
         after (modify (\<lambda>s. s \<lparr> rx_tracker_key := Some key \<rparr>)) (\<lambda>_.
           case new_tracker (if wp_key terminal then butlast occs else occs) (Fin (5 / 2)) (xp_pose_age (rw_params W))
             (fl (1 / 10)) of
             Inl e \<Rightarrow> throw ValueFault
           | Inr t \<Rightarrow> modify (\<lambda>s. s \<lparr> rx_tracker := Some t \<rparr>))))))"

definition identity_of :: "mission \<Rightarrow> occurrence \<Rightarrow> identity" where
  "identity_of m oc = (mi_id m, oc_iteration oc, oc_index oc)"

definition record_checkpoint :: "occurrence \<Rightarrow> string \<Rightarrow> bool act" where
  "record_checkpoint oc source =
     after (gets (\<lambda>s. identity_of (rx_mission s) oc)) (\<lambda>who.
     after (gets (\<lambda>s. who \<in> set (rx_reached s))) (\<lambda>known.
       if known then ret False
       else after (modify (\<lambda>s. s \<lparr> rx_reached := rx_reached s @ [who],
              rx_mission := (rx_mission s) \<lparr> mi_reached := mi_reached (rx_mission s) + 1 \<rparr>,
              rx_event_id := rx_event_id s + 1,
              rx_log := rx_log s @ [CheckpointReached who (mi_chunk (rx_mission s)) source] \<rparr>)) (\<lambda>_. ret True)))"

subsection \<open>Sending a chunk\<close>

text \<open>\<open>None\<close> is the \<open>ValueError\<close> of an empty chunk.\<close>

definition chunk_goal_request ::
    "route_world \<Rightarrow> chunk option \<Rightarrow> route \<Rightarrow> string \<Rightarrow> (pyfloat \<times> pyfloat) option \<Rightarrow> pyfloat option \<Rightarrow> goal_request option" where
  "chunk_goal_request W c r policy approach heading =
     (case c of None \<Rightarrow> None
      | Some c \<Rightarrow>
          if ch_waypoints c = [] then None
          else Some \<lparr> gr_lats = map wp_lat (ch_waypoints c), gr_lons = map wp_lon (ch_waypoints c),
                 gr_yaws = dispatch_yaws (rw_trig W) (ch_waypoints c) approach heading (policy = ''route_tangent''),
                 gr_suppress = (rt_loop r \<or> next_start r c < int (length (rt_waypoints r))) \<rparr>)"

definition approach_xy :: "(pyfloat \<times> pyfloat) option \<Rightarrow> (pyfloat \<times> pyfloat) option" where
  "approach_xy pose = (case pose of Some (x, y) \<Rightarrow> if isfinite x \<and> isfinite y then Some (x, y) else None | None \<Rightarrow> None)"

definition send_chunk :: "route_world \<Rightarrow> unit act" where
  "send_chunk W =
     after the_chunk (\<lambda>c. sequence
       [modify (\<lambda>s. s \<lparr> rx_offset := int (length (ch_waypoints c)) - 1 \<rparr>),
        prepare_tracker W,
        modify (\<lambda>s. s \<lparr> rx_at_checkpoint := False \<rparr>),
        after the_route (\<lambda>r.
        after (gets (\<lambda>s. chunk_goal_request W (Some c) r (rx_policy s) (approach_xy (rx_pose s)) (rx_heading s))) (\<lambda>q.
        after (require ValueFault q) (\<lambda>request. sequence
          [act_if (list_ex (\<lambda>p. wp_x p = None \<or> wp_y p = None) (ch_waypoints c)) (throw TypeFault),
           event ''ROUTE_CHUNK_DISPATCHED'',
           modify (\<lambda>s. s \<lparr> rx_goal_epoch := rx_goal_epoch s + 1, rx_pending := True,
             rx_log := rx_log s @ [SetGoal (rx_goal_epoch s + 1) (mi_id (rx_mission s)) request] \<rparr>)])))])"

definition complete_mission :: "unit act" where
  "complete_mission = enter_phase RCompleted []"

definition dispatch_chunk :: "route_world \<Rightarrow> unit act" where
  "dispatch_chunk W =
     (let P = rw_params W; H = tg_hypot (rw_trig W) in
      after the_route (\<lambda>r.
      after (gets (\<lambda>s. resolve_dispatch_start H r (mi_target (rx_mission s)) (rx_pose s) (xp_reached_tol P) (xp_segment_tol P) []))
        (\<lambda>start.
      case ds_index start of
        None \<Rightarrow> after complete_mission (\<lambda>_. modify (\<lambda>s. s \<lparr> rx_chunk := None \<rparr>))
      | Some i \<Rightarrow>
          after (modify (\<lambda>s. s \<lparr> rx_mission := (rx_mission s) \<lparr> mi_target := int i \<rparr>, rx_dispatch_start := Some start \<rparr>)) (\<lambda>_.
          after (gets (\<lambda>s. build_chunk H (xp_mode P) (xp_leg_max P) (xp_dense_horizon P) r (int i) (mi_iteration (rx_mission s))))
            (\<lambda>built.
          case built of
            Inl e \<Rightarrow> throw ValueFault
          | Inr None \<Rightarrow> after (modify (\<lambda>s. s \<lparr> rx_chunk := None \<rparr>)) (\<lambda>_. complete_mission)
          | Inr (Some c) \<Rightarrow>
              after (modify (\<lambda>s. s \<lparr> rx_chunk := Some c \<rparr>)) (\<lambda>_.
              after (gets rx_pose) (\<lambda>pose.
              case pose of
                None \<Rightarrow> pause ''ROUTE_POSE_UNAVAILABLE''
              | Some robot \<Rightarrow>
                  (case limit_to_horizon H r c robot (xp_goal_horizon P) of
                     Inl e \<Rightarrow> throw ValueFault
                   | Inr None \<Rightarrow> sequence [pause ''ROUTE_GOAL_HORIZON_UNREACHABLE'', event ''ROUTE_GOAL_HORIZON_UNREACHABLE'']
                   | Inr (Some bounded) \<Rightarrow> sequence
                       [modify (\<lambda>s. s \<lparr> rx_chunk := Some bounded, rx_offset := 0 \<rparr>), emit PublishPaths, send_chunk W]))))))))"

definition advance :: "route_world \<Rightarrow> unit act" where
  "advance W =
     after the_route (\<lambda>r.
     after the_chunk (\<lambda>c.
     after (modify (\<lambda>s.
         (let m = rx_mission s; target = next_start r c in
          s \<lparr> rx_mission := m \<lparr> mi_target := target, mi_chunk := mi_chunk m + 1,
                mi_iteration := (if rt_loop r \<and> target = 0 \<and> ch_end c \<noteq> 0 then mi_iteration m + 1 else mi_iteration m) \<rparr> \<rparr>)))
       (\<lambda>_. dispatch_chunk W)))"

subsection \<open>Waypoint actions\<close>

definition begin_action :: "route_action \<Rightarrow> unit act" where
  "begin_action a =
     after (emit (if ac_kind a = ''brake_hold'' then BrakeNav (ac_duration a) (ac_brake a) else ApplyProfile (ac_profile a)))
       (\<lambda>_. modify (\<lambda>s. s \<lparr> rx_action_future := True \<rparr>))"

definition start_actions :: "int \<Rightarrow> route_action list \<Rightarrow> pyfloat \<Rightarrow> unit act" where
  "start_actions index as now =
     (let (e, first) = ex_start (new_execution index as) now in
      after (modify (\<lambda>s. s \<lparr> rx_action := Some e \<rparr>)) (\<lambda>_.
      after (require AttributeFault first) (\<lambda>a. sequence [event ''ROUTE_WAYPOINT_ACTION_STARTED'', begin_action a])))"

definition fail_action :: "string \<Rightarrow> unit act" where
  "fail_action error = sequence [pause (''ROUTE_ACTION_FAILED: '' @ error), event ''ROUTE_WAYPOINT_ACTION_FAILED'']"

text \<open>The answer of the service that an action calls: the text of a failure, or the active profile.\<close>

datatype 'a answer = Waiting | Failed string | Answered 'a

definition tick_action :: "route_world \<Rightarrow> string answer \<Rightarrow> readings \<Rightarrow> unit act" where
  "tick_action W answer ck =
     after (gets rx_action) (\<lambda>running.
     case running of
       None \<Rightarrow> ret ()
     | Some e \<Rightarrow>
         if ex_state e \<noteq> ActRunning then ret ()
         else after (gets rx_action_future) (\<lambda>future.
           if future then
             (case answer of
                Waiting \<Rightarrow> ret ()
              | Failed error \<Rightarrow>
                  after (modify (\<lambda>s. s \<lparr> rx_action := Some (ex_fail e error) \<rparr>)) (\<lambda>_. fail_action error)
              | Answered profile \<Rightarrow>
                  (case ex_current e of
                     None \<Rightarrow> after (modify (\<lambda>s. s \<lparr> rx_action := Some (ex_fail e ''no current action'') \<rparr>)) (\<lambda>_. fail_action ''no current action'')
                   | Some a \<Rightarrow> modify (\<lambda>s. s \<lparr> rx_profile := (if ac_kind a = ''set_navigation_profile'' then profile else rx_profile s),
                       rx_action_future := False \<rparr>)))
           else
             after (require AttributeFault (ex_current e)) (\<lambda>a.
               if ac_kind a = ''brake_hold'' \<and> flt fzero (ex_remaining e (ck 0)) then ret ()
               else
                 (let (e1, following) = ex_complete e (ck 1) in sequence
                   [modify (\<lambda>s. s \<lparr> rx_action := Some e1 \<rparr>), event ''ROUTE_WAYPOINT_ACTION_FINISHED'',
                    (case following of
                       Some b \<Rightarrow> begin_action b
                     | None \<Rightarrow> after (modify (\<lambda>s. s \<lparr> rx_action := None \<rparr>)) (\<lambda>_. advance W))]))))"

subsection \<open>Completion of a chunk\<close>

text \<open>The actions of a waypoint; the canonical JSON was parsed before.\<close>

definition parsed_actions :: "route_world \<Rightarrow> waypoint \<Rightarrow> fault + route_action list" where
  "parsed_actions W p =
     (case parse_actions (rw_json W) (wp_action p) (wp_input_index p) of
        Inl e \<Rightarrow> Inl ArithmeticFault | Inr (Inl e) \<Rightarrow> Inl ValueFault | Inr (Inr (as, canonical)) \<Rightarrow> Inr as)"

definition complete_chunk :: "route_world \<Rightarrow> string \<Rightarrow> readings \<Rightarrow> unit act" where
  "complete_chunk W source ck =
     after (gets (\<lambda>s. case rx_tracker s of None \<Rightarrow> False | Some t \<Rightarrow> \<not> tk_complete t)) (\<lambda>incomplete.
       if incomplete then sequence
         [pause ''ROUTE_CHECKPOINT_SEQUENCE_INCOMPLETE'', stop_brake, event ''ROUTE_CHECKPOINT_SEQUENCE_INCOMPLETE'']
       else
         after the_chunk (\<lambda>c.
         after (require IndexFault (py_nth (ch_waypoints c) (- 1))) (\<lambda>terminal.
           if \<not> wp_key terminal then
             after the_route (\<lambda>r. sequence
               [modify (\<lambda>s. (let m = rx_mission s in
                  if rt_loop r \<and> int (length (rt_waypoints r)) \<le> mi_target m + rx_offset s
                  then s \<lparr> rx_mission := m \<lparr> mi_iteration := mi_iteration m + 1 \<rparr> \<rparr> else s)),
                advance W])
           else
             after (require IndexFault (py_nth (checkpoint_occurrences c) (- 1))) (\<lambda>oc.
             after (require TypeFault (occurrence_of c oc)) (\<lambda>occ.
             after (record_checkpoint occ source) (\<lambda>newly.
             after (modify (\<lambda>s. s \<lparr> rx_mission := (rx_mission s) \<lparr> mi_iteration := oc_iteration occ \<rparr> \<rparr>)) (\<lambda>_.
             after (gets (\<lambda>s. py_nth (ch_waypoints c) (rx_offset s))) (\<lambda>p.
             after (require IndexFault p) (\<lambda>endpoint.
             case parsed_actions W endpoint of
               Inl f \<Rightarrow> throw f
             | Inr as \<Rightarrow>
                 if newly \<and> wp_key endpoint \<and> as \<noteq> [] then start_actions (wp_input_index endpoint) as (ck 0)
                 else advance W)))))))))"

subsection \<open>Blocked recovery\<close>

definition finish_recovery :: "bool \<Rightarrow> string \<Rightarrow> pyfloat \<Rightarrow> unit act" where
  "finish_recovery accepted reason now =
     after (modify (\<lambda>s. s \<lparr> rx_clears := None \<rparr>)) (\<lambda>_.
     after (gets (\<lambda>s. finish_retry (rx_recovery s) now accepted reason)) (\<lambda>finished.
     after (require RuntimeFault finished) (\<lambda>(q, d). sequence
       [modify (\<lambda>s. s \<lparr> rx_recovery := q \<rparr>),
        if accepted then sequence
          [modify (\<lambda>s. s \<lparr> rx_failure := [], rx_collision := False \<rparr>), event ''ROUTE_BLOCKED_CLEARED'']
        else if rd_state d = NeedsOperator then event ''ROUTE_BLOCKED_NEEDS_OPERATOR''
        else event ''ROUTE_BLOCKED_RETRY_FAILED''])))"

definition check_clears :: "route_world \<Rightarrow> unit answer \<Rightarrow> readings \<Rightarrow> unit act" where
  "check_clears W answer ck =
     after (gets rx_clears) (\<lambda>job.
     case job of
       None \<Rightarrow> ret ()
     | Some j \<Rightarrow>
         (case answer of
            Failed error \<Rightarrow> finish_recovery False (''COSTMAP_CLEAR_FAILED: '' @ error) (ck 2)
          | Answered _ \<Rightarrow>
              after (modify (\<lambda>s. s \<lparr> rx_clears := None, rx_chunk := Some (cj_pending j) \<rparr>)) (\<lambda>_.
              after the_route (\<lambda>r. sequence
                [modify (\<lambda>s.
                   (let m = rx_mission s;
                        start = mi_target m + (int (cj_size j) - int (length (ch_waypoints (cj_pending j))))
                    in s \<lparr> rx_mission := m \<lparr>
                           mi_target := (if rt_loop r then start mod int (length (rt_waypoints r)) else start),
                           mi_iteration := ch_iteration (cj_pending j) \<rparr>,
                         rx_tracker_key := None \<rparr>)),
                 emit PublishPaths, send_chunk W]))
          | Waiting \<Rightarrow>
              if fle (cj_deadline j) (ck 1) then finish_recovery False ''COSTMAP_CLEAR_TIMEOUT'' (ck 2) else ret ()))"

definition stop_for_recovery :: "unit act" where
  "stop_for_recovery = sequence
     [modify (\<lambda>s. s \<lparr> rx_pending := False, rx_goal_epoch := rx_goal_epoch s + 1 \<rparr>),
      emit CancelGoal, stop_brake, event ''ROUTE_BLOCKED_WAITING'']"

definition credited_pairs :: "executor \<Rightarrow> (int \<times> int) list" where
  "credited_pairs s = map snd (filter (\<lambda>(m, p). m = mi_id (rx_mission s)) (rx_reached s))"

definition begin_recovery_retry :: "route_world \<Rightarrow> bool \<Rightarrow> readings \<Rightarrow> unit act" where
  "begin_recovery_retry W clear_ready ck =
     after (gets rx_at_checkpoint) (\<lambda>at_checkpoint.
       if at_checkpoint then sequence
         [modify (\<lambda>s. s \<lparr> rx_at_checkpoint := False, rx_failure := [], rx_collision := False \<rparr>),
          finish_recovery True [] (ck 3), complete_chunk W ''recovery_geometry'' (\<lambda>i. ck (4 + i))]
       else
         after the_chunk (\<lambda>c.
         after (gets (\<lambda>s. pending_suffix c (credited_pairs s))) (\<lambda>p.
         after (require ValueFault p) (\<lambda>pending.
           if \<not> clear_ready then finish_recovery False ''COSTMAP_CLEAR_TIMEOUT'' (ck 3)
           else sequence
             [emit ClearCostmaps,
              modify (\<lambda>s. s \<lparr> rx_clears := Some \<lparr> cj_deadline = fadd (ck 3) (xp_clear_timeout (rw_params W)),
                cj_pending = pending, cj_size = length (ch_waypoints c) \<rparr> \<rparr>),
              event ''ROUTE_BLOCKED_RETRYING'']))))"

definition has_infix :: "string \<Rightarrow> string \<Rightarrow> bool" where
  "has_infix pat s = list_ex (\<lambda>i. take (length pat) (drop i s) = pat) [0..<length s + 1]"

definition recovery_observation :: "executor \<Rightarrow> pyfloat \<Rightarrow> recovery_obs" where
  "recovery_observation s now =
     (let reason = (case rx_health s of None \<Rightarrow> [] | Some h \<Rightarrow> hm_reason h);
          stopped = (case rx_health s of None \<Rightarrow> False | Some h \<Rightarrow> hm_stop h);
          tf_fresh = (\<not> (stopped \<and> has_infix ''tf'' (py_lower reason)))
      in \<lparr> ro_now = now, ro_path_reason = reason,
           ro_wait_remaining = (case rx_health s of None \<Rightarrow> fzero | Some h \<Rightarrow> hm_wait h),
           ro_nav_failure = rx_failure s, ro_collision = rx_collision s, ro_tf_fresh = tf_fresh,
           ro_costmap_fresh = (\<not> (stopped \<and> tf_fresh)) \<rparr>)"

text \<open>Whether the robot stands at the end of the chunk; a fault where the chunk has no such point.\<close>

definition at_chunk_end :: "route_world \<Rightarrow> executor \<Rightarrow> bool option" where
  "at_chunk_end W s =
     (case (rx_chunk s, rx_pose s) of
        (Some c, Some (x, y)) \<Rightarrow>
          map_option (\<lambda>p. checkpoint_within_tolerance (tg_hypot (rw_trig W)) (wp_x p) (wp_y p) (Some x) (Some y)
              (xp_reached_tol (rw_params W)))
            (py_nth (ch_waypoints c) (rx_offset s))
      | _ \<Rightarrow> Some False)"

definition tick_recovery :: "route_world \<Rightarrow> unit answer \<Rightarrow> bool \<Rightarrow> readings \<Rightarrow> unit act" where
  "tick_recovery W clears clear_ready ck =
     after (gets (\<lambda>s. mi_phase (rx_mission s))) (\<lambda>ph.
       if ph \<noteq> RActive then ret ()
       else
         after (gets (\<lambda>s. recovery_observation s (ck 0))) (\<lambda>ob.
         after (gets (\<lambda>s. observe_recovery (rx_recovery s) ob)) (\<lambda>observed.
         after (require ValueFault observed) (\<lambda>(q, d).
         after (modify (\<lambda>s. s \<lparr> rx_recovery := q \<rparr>)) (\<lambda>_.
         after (gets (\<lambda>s. if is_maneuver (ro_path_reason ob) \<or> rd_state d = Clear then Some False else at_chunk_end W s)) (\<lambda>near.
         after (require IndexFault near) (\<lambda>here. sequence
           [act_if here (modify (\<lambda>s. s \<lparr> rx_at_checkpoint := True \<rparr>)),
            check_clears W clears ck,
            if rd_action d = CancelAndBrake then stop_for_recovery
            else if rd_action d = BeginRetry then begin_recovery_retry W clear_ready ck
            else ret ()])))))))"

subsection \<open>Poses and telemetry\<close>

record odometry =
  od_sec :: int
  od_nanosec :: int
  od_x :: pyfloat
  od_y :: pyfloat
  od_quaternion :: "pyfloat \<times> pyfloat \<times> pyfloat \<times> pyfloat"

text \<open>The quotient by a norm that is not zero.\<close>

definition quot :: "pyfloat \<Rightarrow> pyfloat \<Rightarrow> pyfloat" where
  "quot a n = (case fdiv a n of None \<Rightarrow> NaN | Some q \<Rightarrow> q)"

definition heading_of :: "trig \<Rightarrow> pyfloat \<times> pyfloat \<times> pyfloat \<times> pyfloat \<Rightarrow> pyfloat option" where
  "heading_of T q =
     (let (x0, y0, z0, w0) = q; n = tg_hypot T (tg_hypot T x0 y0) (tg_hypot T z0 w0) in
      if \<not> list_all isfinite [x0, y0, z0, w0] \<or> \<not> flt pico n then None
      else
        (let x = quot x0 n; y = quot y0 n; z = quot z0 n; w = quot w0 n
         in Some (degrees (tg_atan2 T (fmul (Fin 2) (fadd (fmul w z) (fmul x y)))
              (fsub (Fin 1) (fmul (Fin 2) (fadd (fmul y y) (fmul z z))))))))"

definition odometry_sample :: "odometry \<Rightarrow> pyfloat \<Rightarrow> pose_sample" where
  "odometry_sample o1 received =
     \<lparr> ps_x = od_x o1, ps_y = od_y o1,
       ps_stamp = fadd (Fin (of_int (od_sec o1))) (fmul (Fin (of_int (od_nanosec o1))) nano),
       ps_received = received \<rparr>"

definition on_pose :: "route_world \<Rightarrow> odometry \<Rightarrow> pyfloat \<Rightarrow> readings \<Rightarrow> unit act" where
  "on_pose W o1 now_ros ck =
     (let sample = odometry_sample o1 (ck 0) in
      after (modify (\<lambda>s. s \<lparr> rx_pose := Some (od_x o1, od_y o1), rx_heading := heading_of (rw_trig W) (od_quaternion o1),
          rx_sample := Some sample \<rparr>)) (\<lambda>_.
      after (gets (\<lambda>s. (mi_phase (rx_mission s), rx_tracker s))) (\<lambda>(ph, tracker).
      case tracker of
        None \<Rightarrow> ret ()
      | Some t \<Rightarrow>
          if ph \<noteq> RActive then ret ()
          else
            (let (t1, e) = observe (tg_hypot (rw_trig W)) t sample now_ros (ck 1) in
             after (modify (\<lambda>s. s \<lparr> rx_tracker := Some t1 \<rparr>)) (\<lambda>_.
               case ev_occurrence e of
                 None \<Rightarrow> ret ()
               | Some oc \<Rightarrow>
                   if ev_accepted e then after (record_checkpoint oc ''fresh_odometry_radius'') (\<lambda>_. ret ()) else ret ())))))"

definition pose_is_fresh :: "executor_params \<Rightarrow> executor \<Rightarrow> pyfloat \<Rightarrow> pyfloat \<Rightarrow> bool" where
  "pose_is_fresh P s now_ros now_steady =
     (case rx_sample s of
        None \<Rightarrow> False
      | Some p \<Rightarrow>
          list_all isfinite [ps_x p, ps_y p, ps_stamp p, ps_received p, now_ros, now_steady] \<and>
          (let ros_age = fsub now_ros (ps_stamp p); steady_age = fsub now_steady (ps_received p)
           in flt fzero (ps_stamp p) \<and> fle (fl (- 1 / 10)) ros_age \<and> fle fzero steady_age \<and>
              fle ros_age (xp_pose_age P) \<and> fle steady_age (xp_pose_age P)))"

record telemetry_msg =
  tm_manual :: bool
  tm_collision :: bool
  tm_goal_active :: bool
  tm_result :: string
  tm_result_id :: int
  tm_failure :: string

definition terminal_result_is_current :: "bool \<Rightarrow> bool \<Rightarrow> string \<Rightarrow> int \<Rightarrow> int \<Rightarrow> int \<Rightarrow> bool" where
  "terminal_result_is_current pending goal_active result result_id floor_id last_id =
     (if pending \<or> goal_active \<or> result \<notin> {''succeeded'', ''aborted'', ''cancelled'', ''goal rejected''} then False
      else max floor_id last_id < result_id)"

definition update_progress :: "route_world \<Rightarrow> unit act" where
  "update_progress W =
     after (gets (\<lambda>s. (rx_chunk s, rx_pose s))) (\<lambda>(chunk, pose).
     case (chunk, pose) of
       (Some c, Some (x, y)) \<Rightarrow>
         after (require ArithmeticFault (project (tg_hypot (rw_trig W)) c x y)) (\<lambda>p. modify (\<lambda>s. s \<lparr> rx_progress := p \<rparr>))
     | _ \<Rightarrow> ret ())"

definition terminal_result :: "route_world \<Rightarrow> telemetry_msg \<Rightarrow> readings \<Rightarrow> unit act" where
  "terminal_result W msg ck =
     after (gets (\<lambda>s. case rx_health s of None \<Rightarrow> False | Some h \<Rightarrow> is_maneuver (hm_reason h))) (\<lambda>maneuver.
       if tm_result msg = ''succeeded'' then
         (if maneuver then ret ()
          else
            after (modify (\<lambda>s. s \<lparr> rx_recovery := recovery_reset (rx_recovery s), rx_at_checkpoint := False \<rparr>)) (\<lambda>_.
            after the_chunk (\<lambda>c.
            after (gets (\<lambda>s. py_nth (ch_waypoints c) (rx_offset s))) (\<lambda>p.
            after (require IndexFault p) (\<lambda>_. complete_chunk W ''nav2_succeeded'' ck)))))
       else if tm_result msg = ''goal rejected'' then pause ''NAV_GOAL_REJECTED: Nav2 route chunk rejected''
       else
         after (gets (\<lambda>s. rp_state (rx_recovery s))) (\<lambda>rs.
           if tm_result msg = ''cancelled'' \<and> rs \<noteq> Clear then ret ()
           else if tm_result msg = ''aborted'' then
             modify (\<lambda>s. s \<lparr> rx_failure := (if tm_failure msg = [] then ''NAV_ABORTED'' else tm_failure msg) \<rparr>)
           else pause (''navigation '' @ tm_result msg)))"

definition on_telemetry :: "route_world \<Rightarrow> telemetry_msg \<Rightarrow> readings \<Rightarrow> unit act" where
  "on_telemetry W msg ck =
     after (gets (\<lambda>s. mi_phase (rx_mission s))) (\<lambda>ph.
       if ph \<noteq> RActive then ret ()
       else if tm_manual msg then pause ''manual takeover''
       else
         after (modify (\<lambda>s. s \<lparr> rx_collision := tm_collision msg \<rparr>)) (\<lambda>_.
         after (gets (\<lambda>s. rx_action s \<noteq> None)) (\<lambda>acting.
           if tm_collision msg \<and> acting then pause ''collision stop during waypoint action''
           else sequence
             [act_if (tm_goal_active msg) (modify (\<lambda>s. s \<lparr> rx_failure := [] \<rparr>)),
              update_progress W,
              after (gets (\<lambda>s. terminal_result_is_current (rx_pending s) (tm_goal_active msg) (tm_result msg)
                  (tm_result_id msg) (rx_floor s) (rx_last_result s))) (\<lambda>current.
                act_if current (after (modify (\<lambda>s. s \<lparr> rx_last_result := tm_result_id msg \<rparr>)) (\<lambda>_. terminal_result W msg ck)))])))"

text \<open>The answer to a navigation goal: the text of a failure, or the id of the goal event.\<close>

definition on_goal_request :: "int \<Rightarrow> string + int \<Rightarrow> pyfloat \<Rightarrow> unit act" where
  "on_goal_request epoch answer now =
     after (gets (\<lambda>s. epoch \<noteq> rx_goal_epoch s \<or> mi_phase (rx_mission s) \<noteq> RActive)) (\<lambda>stale.
       if stale then ret ()
       else
         after (modify (\<lambda>s. s \<lparr> rx_pending := False \<rparr>)) (\<lambda>_.
         after (gets (\<lambda>s. rp_state (rx_recovery s) = Recovering)) (\<lambda>recovering.
         case answer of
           Inr floor_id \<Rightarrow>
             after (modify (\<lambda>s. s \<lparr> rx_floor := floor_id \<rparr>)) (\<lambda>_. act_if recovering (finish_recovery True [] now))
         | Inl error \<Rightarrow>
             if recovering then finish_recovery False (''NAV_GOAL_REJECTED: '' @ error) now
             else pause (''NAV_GOAL_REJECTED: '' @ error))))"

subsection \<open>Preparation and activation\<close>

text \<open>The raw waypoints of a request; an exception of the parser, or an error of the request.\<close>

fun canonical_actions :: "json_lib \<Rightarrow> int \<Rightarrow> string list \<Rightarrow> string list option" where
  "canonical_actions J i [] = Some []"
| "canonical_actions J i (a # as) =
     (case parse_actions J a i of
        Inr (Inr (_, c)) \<Rightarrow> map_option ((#) c) (canonical_actions J (i + 1) as) | _ \<Rightarrow> None)"

definition raw_waypoint :: "pyfloat \<times> pyfloat \<times> pyfloat \<Rightarrow> int \<Rightarrow> string \<Rightarrow> string \<Rightarrow> waypoint" where
  "raw_waypoint pos i canonical role =
     (let (lat, lon, yaw) = pos in
      \<lparr> wp_lat = lat, wp_lon = lon, wp_yaw = yaw, wp_input_index = i, wp_key = True, wp_action = canonical,
        wp_role = (if role = [] then ''normal'' else role), wp_x = None, wp_y = None, wp_yaw_explicit = isfinite yaw \<rparr>)"

definition raw_waypoints :: "json_lib \<Rightarrow> mission_request \<Rightarrow> waypoint list option" where
  "raw_waypoints J q =
     (let n = length (mq_lats q); actions = (if mq_actions q = [] then replicate n [] else mq_actions q);
          roles = (if mq_roles q = [] then replicate n ''normal'' else mq_roles q)
      in map_option (\<lambda>cs.
          map (\<lambda>i. raw_waypoint (mq_lats q ! i, mq_lons q ! i, mq_yaws q ! i) (int i) (cs ! i) (roles ! i)) [0..<n])
        (canonical_actions J 0 actions))"

definition set_mission :: "route_world \<Rightarrow> mission_request \<Rightarrow> readings \<Rightarrow> unit act" where
  "set_mission W q ck =
     (case validate_inputs (rw_json W) (mq_lats q) (mq_lons q) (mq_yaws q) (mq_actions q) (mq_roles q) of
        Inl e \<Rightarrow> throw ArithmeticFault
      | Inr error \<Rightarrow>
          if curve_tangent_policy (mq_policy q) = None then emit (Rejected ''policy'')
          else if error \<noteq> None then emit (Rejected ''request'')
          else
            after (require ValueFault (raw_waypoints (rw_json W) q)) (\<lambda>raw. sequence
              [modify (\<lambda>s. s \<lparr> rx_preparation_epoch := rx_preparation_epoch s + 1,
                 rx_preparation := Some \<lparr> jb_epoch = rx_preparation_epoch s + 1, jb_raw = raw, jb_converted = [],
                   jb_next = 0, jb_future = False, jb_request = q,
                   jb_deadline = fadd (ck 0) (xp_fromll_timeout (rw_params W)) \<rparr> \<rparr>),
               emit Accepted]))"

text \<open>The entry of a loop: its index, or the reason why the loop is not entered.\<close>

datatype loop_entry = EntryAt nat | NoEntry

definition loop_entry_of :: "route_world \<Rightarrow> route \<Rightarrow> executor \<Rightarrow> pyfloat \<Rightarrow> pyfloat \<Rightarrow> loop_entry option" where
  "loop_entry_of W r s now_ros now_steady =
     (case rx_pose s of
        None \<Rightarrow> Some NoEntry
      | Some (x, y) \<Rightarrow>
          map_option (\<lambda>sel. case as_anchor sel of
              None \<Rightarrow> NoEntry
            | Some i \<Rightarrow> if pose_is_fresh (rw_params W) s now_ros now_steady then EntryAt i else NoEntry)
            (select_anchor (rw_trig W) r x y (xp_reached_tol (rw_params W)) (xp_segment_tol (rw_params W)) (rx_heading s)))"

definition open_entry_of :: "route_world \<Rightarrow> route \<Rightarrow> executor \<Rightarrow> nat option" where
  "open_entry_of W r s =
     (case rx_pose s of
        None \<Rightarrow> Some 0
      | Some (x, y) \<Rightarrow>
          Option.bind (select_anchor (rw_trig W) r x y (xp_reached_tol (rw_params W)) (xp_segment_tol (rw_params W)) None) as_anchor)"

definition new_mission :: "route \<Rightarrow> string \<Rightarrow> nat \<Rightarrow> mission" where
  "new_mission r uuid anchor =
     idle_mission \<lparr> mi_prepared := Some r, mi_phase := RPreparing, mi_id := uuid, mi_target := int anchor \<rparr>"

definition start_mission :: "route_world \<Rightarrow> route \<Rightarrow> string \<Rightarrow> string \<Rightarrow> nat \<Rightarrow> unit act" where
  "start_mission W r policy uuid anchor =
     after (require ValueFault (transition (new_mission r uuid anchor) RActive [])) (\<lambda>m. sequence
       [modify (\<lambda>s. s \<lparr> rx_recovery := recovery_reset (rx_recovery s), rx_clears := None, rx_tracker := None,
          rx_tracker_key := None, rx_reached := [], rx_mission := m, rx_progress := no_progress, rx_policy := policy,
          rx_preparation := None \<rparr>),
        dispatch_chunk W])"

definition activate_prepared :: "route_world \<Rightarrow> route_job \<Rightarrow> string \<Rightarrow> pyfloat \<Rightarrow> readings \<Rightarrow> unit act" where
  "activate_prepared W j uuid now_ros ck =
     (let q = jb_request j in
      after (require ValueFault (curve_tangent_policy (mq_policy q))) (\<lambda>curve.
      after (require ArithmeticFault (prepare_route (rw_trig W) (jb_converted j) (mq_loop q) (int (length (jb_raw j)))
        (mq_spacing q) (mq_span q) (mq_max q) curve)) (\<lambda>(r, policy).
      if rt_loop r then
        after (gets (\<lambda>s. loop_entry_of W r s now_ros (ck 3))) (\<lambda>found.
        after (require ArithmeticFault found) (\<lambda>entry.
        case entry of
          NoEntry \<Rightarrow> sequence [modify (\<lambda>s. s \<lparr> rx_preparation := None \<rparr>), event ''ROUTE_ANCHOR_REJECTED'']
        | EntryAt i \<Rightarrow> sequence [event ''ROUTE_ANCHOR_SELECTED'', start_mission W r policy uuid i]))
      else
        after (gets (open_entry_of W r)) (\<lambda>found.
        after (require ArithmeticFault found) (\<lambda>i. start_mission W r policy uuid i)))))"

definition located :: "waypoint \<Rightarrow> pyfloat \<times> pyfloat \<Rightarrow> waypoint" where
  "located p xy = p \<lparr> wp_x := Some (fst xy), wp_y := Some (snd xy) \<rparr>"

text \<open>The end of the tick: activation, or the next conversion.\<close>

definition continue_preparation ::
    "route_world \<Rightarrow> route_job \<Rightarrow> bool \<Rightarrow> string \<Rightarrow> pyfloat \<Rightarrow> readings \<Rightarrow> unit act" where
  "continue_preparation W j ready uuid now_ros ck =
     (if jb_next j = length (jb_raw j) then activate_prepared W j uuid now_ros ck
      else if \<not> ready then
        act_if (flt (jb_deadline j) (ck 2)) (modify (\<lambda>s. s \<lparr> rx_preparation := None \<rparr>))
      else
        (let p = jb_raw j ! jb_next j in sequence
          [modify (\<lambda>s. s \<lparr> rx_preparation := Some (j \<lparr> jb_future := True \<rparr>) \<rparr>), emit (AskConversion (wp_lat p) (wp_lon p))]))"

definition tick_route_preparation ::
    "route_world \<Rightarrow> (pyfloat \<times> pyfloat) answer \<Rightarrow> bool \<Rightarrow> string \<Rightarrow> pyfloat \<Rightarrow> readings \<Rightarrow> unit act" where
  "tick_route_preparation W answer ready uuid now_ros ck =
     after (gets rx_preparation) (\<lambda>job.
     case job of
       None \<Rightarrow> ret ()
     | Some j \<Rightarrow>
         if \<not> jb_future j then continue_preparation W j ready uuid now_ros ck
         else
           (case answer of
              Waiting \<Rightarrow> act_if (flt (jb_deadline j) (ck 0)) (modify (\<lambda>s. s \<lparr> rx_preparation := None \<rparr>))
            | Failed e \<Rightarrow> modify (\<lambda>s. s \<lparr> rx_preparation := None \<rparr>)
            | Answered xy \<Rightarrow>
                (let j1 = j \<lparr> jb_converted := jb_converted j @ [located (jb_raw j ! jb_next j) xy],
                       jb_next := jb_next j + 1, jb_future := False,
                       jb_deadline := fadd (ck 1) (xp_fromll_timeout (rw_params W)) \<rparr>
                 in after (modify (\<lambda>s. s \<lparr> rx_preparation := Some j1 \<rparr>)) (\<lambda>_.
                      continue_preparation W j1 ready uuid now_ros ck))))"

subsection \<open>Cancellation and profiles\<close>

definition cancel_mission :: "unit answer \<Rightarrow> unit act" where
  "cancel_mission answer = sequence
     [modify (\<lambda>s. s \<lparr> rx_preparation_epoch := rx_preparation_epoch s + 1, rx_preparation := None, rx_pending := False,
        rx_recovery := recovery_reset (rx_recovery s), rx_clears := None, rx_at_checkpoint := False, rx_tracker := None,
        rx_tracker_key := None, rx_reached := [], rx_action := None, rx_action_future := False \<rparr>),
      after (gets (\<lambda>s. mi_phase (rx_mission s))) (\<lambda>ph.
        act_if (ph = RActive \<or> ph = RPaused) (enter_phase RCancelled ''cancelled'')),
      modify (\<lambda>s. s \<lparr> rx_goal_epoch := rx_goal_epoch s + 1 \<rparr>),
      emit CancelGoal, stop_brake,
      (case answer of
         Waiting \<Rightarrow> sequence [event ''ROUTE_CANCEL_TIMEOUT'', emit (Rejected ''timeout'')]
       | Failed e \<Rightarrow> sequence [event ''ROUTE_CANCEL_FAILED'', emit (Rejected e)]
       | Answered _ \<Rightarrow> emit Accepted)]"

text \<open>The answer of the profile coordinator: whether it accepted, and the active profile.\<close>

definition set_profile :: "string \<Rightarrow> bool \<Rightarrow> (bool \<times> string) answer \<Rightarrow> unit act" where
  "set_profile profile ready answer =
     (let target = py_lower (py_strip profile) in
      if target \<notin> {''urban'', ''rural''} then emit (Rejected ''profile'')
      else
        after (gets (\<lambda>s. profile_change_allowed (mi_phase (rx_mission s)) (rp_state (rx_recovery s)))) (\<lambda>allowed.
          if \<not> allowed then emit (Rejected ''mission active'')
          else if \<not> ready then emit (Rejected ''unavailable'')
          else after (emit (ApplyProfile target)) (\<lambda>_.
            case answer of
              Waiting \<Rightarrow> emit (Rejected ''timeout'')
            | Failed e \<Rightarrow> emit (Rejected e)
            | Answered (ok, active) \<Rightarrow>
                if ok then sequence [modify (\<lambda>s. s \<lparr> rx_profile := active \<rparr>), emit Accepted]
                else emit (Rejected ''refused''))))"

subsection \<open>The node\<close>

datatype route_event =
    Pose odometry pyfloat
  | Telemetry telemetry_msg
  | Health path_health_msg
  | TickPreparation "(pyfloat \<times> pyfloat) answer" bool string pyfloat
  | TickRecovery "unit answer" bool
  | TickAction "string answer"
  | GoalAnswer int "string + int"
  | SetMission mission_request
  | CancelMission "unit answer"
  | SetProfile string bool "(bool \<times> string) answer"

fun route_handler :: "route_world \<Rightarrow> route_event \<Rightarrow> readings \<Rightarrow> unit act" where
  "route_handler W (Pose o1 now_ros) ck = on_pose W o1 now_ros ck"
| "route_handler W (Telemetry msg) ck = on_telemetry W msg ck"
| "route_handler W (Health h) ck = modify (\<lambda>s. s \<lparr> rx_health := Some h \<rparr>)"
| "route_handler W (TickPreparation answer ready uuid now_ros) ck = tick_route_preparation W answer ready uuid now_ros ck"
| "route_handler W (TickRecovery clears clear_ready) ck = tick_recovery W clears clear_ready ck"
| "route_handler W (TickAction answer) ck = tick_action W answer ck"
| "route_handler W (GoalAnswer epoch answer) ck = on_goal_request epoch answer (ck 0)"
| "route_handler W (SetMission q) ck = set_mission W q ck"
| "route_handler W (CancelMission answer) ck = cancel_mission answer"
| "route_handler W (SetProfile profile ready answer) ck = set_profile profile ready answer"

text \<open>One step: the handler runs on an empty log, which is then the output; an exception is its last entry.\<close>

definition executor_step :: "route_world \<Rightarrow> executor \<Rightarrow> route_event \<times> readings \<Rightarrow> executor \<times> route_output list" where
  "executor_step W s = (\<lambda>(v, ck).
     case route_handler W v ck (s \<lparr> rx_log := [] \<rparr>) of
       (s1, Inr u) \<Rightarrow> (s1 \<lparr> rx_log := [] \<rparr>, rx_log s1)
     | (s1, Inl f) \<Rightarrow> (s1 \<lparr> rx_log := [] \<rparr>, rx_log s1 @ [Uncaught]))"

end
