(* ===== verification/Goal_Server.thy ===== *)
theory Goal_Server
  imports Command_Arbiter Route_Executor
begin

section \<open>Goals of the navigation server\<close>

text \<open>
  \<open>salus_navigation/nav_command_server.py\<close>, the goal side of \<open>NavCommandServer\<close>, and the evidence of
  \<open>planner_failure.py\<close>. The node runs its callbacks on several threads; what is atomic is a section that holds
  its lock. A request for a goal (from the service or from RViz), a cancellation, a takeover and the answers of
  Nav2 are therefore cut into such sections, and a history interleaves the sections of any number of requests.
  A request is a number, and its stage tells which section comes next. Nav2 answers every goal that was sent
  once, and an accepted goal has one result, after its result callback was registered. The start of a brake hold
  is an output; the texts of errors are shortened.
\<close>

subsection \<open>Requests\<close>

datatype goal_error = LoopRequest | UnequalArrays | EmptyArrays | NotFiniteGoal | SeveralWaypoints

record ll_request =
  lr_lats :: "pyfloat list"
  lr_lons :: "pyfloat list"
  lr_yaws :: "pyfloat list"
  lr_single :: "pyfloat \<times> pyfloat \<times> pyfloat"
  lr_loop :: bool

definition goal_waypoints :: "ll_request \<Rightarrow> goal_error + (pyfloat \<times> pyfloat \<times> pyfloat) list" where
  "goal_waypoints q =
     (if lr_loop q then Inl LoopRequest
      else
        (let populated = (lr_lats q \<noteq> [] \<or> lr_lons q \<noteq> [] \<or> lr_yaws q \<noteq> []);
             check = (\<lambda>ws. if list_all (\<lambda>(a, b, c). isfinite a \<and> isfinite b \<and> isfinite c) ws then Inr ws else Inl NotFiniteGoal)
         in if \<not> populated then check [lr_single q]
            else if length (lr_lats q) \<noteq> length (lr_lons q) \<or> length (lr_lats q) \<noteq> length (lr_yaws q) then Inl UnequalArrays
            else if lr_lats q = [] then Inl EmptyArrays
            else check (zip (lr_lats q) (zip (lr_lons q) (lr_yaws q)))))"

definition single_waypoint :: "ll_request \<Rightarrow> goal_error + pyfloat \<times> pyfloat \<times> pyfloat" where
  "single_waypoint q =
     bind_res (goal_waypoints q) (\<lambda>ws. case ws of [w] \<Rightarrow> Inr w | _ \<Rightarrow> Inl SeveralWaypoints)"

text \<open>The answers of the conversion clients in the order in which they are tried: the first point, or the last error.\<close>

datatype goal_conversion = NoService | ConversionTimeout | ConversionFailed string | Converted point

fun convert_goal :: "string \<Rightarrow> goal_conversion list \<Rightarrow> string + point" where
  "convert_goal err [] = Inl err"
| "convert_goal err (NoService # cs) = convert_goal err cs"
| "convert_goal err (ConversionTimeout # cs) = convert_goal ''fromLL conversion timed out'' cs"
| "convert_goal err (ConversionFailed e # cs) = convert_goal (''fromLL conversion failed: '' @ e) cs"
| "convert_goal err (Converted p # cs) = Inr p"

text \<open>The waypoints are converted in order, each with the answers that its conversion gets.\<close>

fun convert_all :: "'a list \<Rightarrow> goal_conversion list list \<Rightarrow> string + point list" where
  "convert_all [] answers = Inr []"
| "convert_all (w # ws) [] = Inl ''fromLL service unavailable''"
| "convert_all (w # ws) (cs # rest) =
     bind_res (convert_goal ''fromLL service unavailable'' cs) (\<lambda>p. bind_res (convert_all ws rest) (\<lambda>ps. Inr (p # ps)))"

text \<open>A goal of RViz: its position and heading in the map frame; \<open>sqrt\<close> is a parameter.\<close>

datatype rviz_error = NotMapFrame | NotFiniteRviz | BadOrientation

definition rviz_map_goal ::
    "trig \<Rightarrow> (pyfloat \<Rightarrow> pyfloat) \<Rightarrow> string \<Rightarrow> point \<Rightarrow> pyfloat \<times> pyfloat \<times> pyfloat \<times> pyfloat \<Rightarrow>
     rviz_error + pyfloat \<times> pyfloat \<times> pyfloat" where
  "rviz_map_goal T sqrt_f frame p q =
     (let (x0, y0, z0, w0) = q; (px, py) = p in
      if dropWhile (\<lambda>c. c = CHR ''/'') frame \<noteq> ''map'' then Inl NotMapFrame
      else if \<not> list_all isfinite [px, py, x0, y0, z0, w0] then Inl NotFiniteRviz
      else
        (let n = sqrt_f (foldl fadd fzero [fmul x0 x0, fmul y0 y0, fmul z0 z0, fmul w0 w0]) in
         if flt n eps6 then Inl BadOrientation
         else
           (let x = quot x0 n; y = quot y0 n; z = quot z0 n; w = quot w0 n
            in Inr (px, py, degrees (tg_atan2 T (fmul (Fin 2) (fadd (fmul w z) (fmul x y)))
                 (fsub (Fin 1) (fmul (Fin 2) (fadd (fmul y y) (fmul z z)))))))))"

text \<open>Whether some waypoint lies in a keepout zone; \<open>None\<close> is a division by zero.\<close>

fun any_in_keepout :: "(string \<times> (point list \<times> point list list) list) option \<Rightarrow> point list \<Rightarrow> bool option" where
  "any_in_keepout k [] = Some False"
| "any_in_keepout k (p # ps) = Option.bind (projected_keepouts_contain k p) (\<lambda>b. if b then Some True else any_in_keepout k ps)"

subsection \<open>Evidence of planner failures\<close>

record planner_evidence =
  pe_epoch :: int
  pe_observed :: "pyfloat option"

definition begin_evidence :: "int \<Rightarrow> planner_evidence" where
  "begin_evidence e = \<lparr> pe_epoch = e, pe_observed = None \<rparr>"

definition last_name :: "string \<Rightarrow> string" where
  "last_name s = rev (takeWhile (\<lambda>c. c \<noteq> CHR ''/'') (rev s))"

definition observe_log :: "planner_evidence \<Rightarrow> string \<Rightarrow> string \<Rightarrow> pyfloat \<Rightarrow> planner_evidence" where
  "observe_log e name message now =
     (if pe_epoch e < 0 \<or> take 14 (last_name name) \<noteq> ''planner_server'' then e
      else if has_infix ''failed to create plan'' (py_lower message) \<or>
              has_infix ''failed to generate a valid path'' (py_lower message)
      then e \<lparr> pe_observed := Some now \<rparr> else e)"

definition aborted_for_no_path :: "planner_evidence \<Rightarrow> int \<Rightarrow> pyfloat \<Rightarrow> bool" where
  "aborted_for_no_path e epoch now \<longleftrightarrow> pe_epoch e = epoch \<and>
     (case pe_observed e of None \<Rightarrow> False | Some t \<Rightarrow> fle fzero (fsub now t) \<and> fle (fsub now t) (Fin 12))"

subsection \<open>State\<close>

datatype goal_status = StatusUnknown | StatusSucceeded | StatusCanceled | StatusOther

text \<open>What a request does next, with its points or its action, and whether success must not brake. A request
  that waits for the end of the previous goal also keeps whether that event was set since it began to wait.\<close>

datatype stage =
    NoRequest
  | Checking "point list" bool
  | Validating "point list" bool bool
  | Replacing string bool
  | AwaitTerminal string bool bool
  | Ready string bool
  | Begun int
  | Prepared int
  | Sending int
  | Announcing

datatype goal_output =
    SendToNav2 int
  | CancelHandle nat
  | StopNow
  | HoldBrake pyfloat
  | NavEventOut int string
  | GoalRefused nat string
  | GoalRaised nat
  | GoalAccepted nat int
  | CancelReply nat bool

record goal_server =
  gs_manual :: bool
  gs_event_id :: int
  gs_epoch :: int
  gs_pending :: bool
  gs_handle :: "nat option"
  gs_cancel_requested :: bool
  gs_cancel_reason :: string
  gs_terminal :: bool
  gs_status :: goal_status
  gs_text :: string
  gs_result_id :: int
  gs_suppress :: bool
  gs_action :: string
  gs_failure :: string
  gs_planner :: planner_evidence
  gs_stage :: "nat \<Rightarrow> stage"
  gs_waiting :: "int list"
  gs_accepting :: "(int \<times> nat \<times> bool) list"
  gs_running :: "int list"
  gs_cancels :: "nat \<Rightarrow> bool option"
  gs_keepouts :: "(string \<times> (point list \<times> point list list) list) option"

definition new_goal_server :: goal_server where
  "new_goal_server = \<lparr> gs_manual = False, gs_event_id = 0, gs_epoch = 0, gs_pending = False, gs_handle = None,
     gs_cancel_requested = False, gs_cancel_reason = [], gs_terminal = True, gs_status = StatusUnknown, gs_text = ''idle'',
     gs_result_id = 0, gs_suppress = False, gs_action = ''none'', gs_failure = [], gs_planner = begin_evidence (- 1),
     gs_stage = (\<lambda>_. NoRequest), gs_waiting = [], gs_accepting = [], gs_running = [], gs_cancels = (\<lambda>_. None), gs_keepouts = None \<rparr>"

definition goal_active :: "goal_server \<Rightarrow> bool" where
  "goal_active s \<longleftrightarrow> gs_pending s \<or> gs_handle s \<noteq> None"

definition note_event :: "goal_server \<Rightarrow> string \<Rightarrow> goal_server \<times> goal_output" where
  "note_event s code = (s \<lparr> gs_event_id := gs_event_id s + 1 \<rparr>, NavEventOut (gs_event_id s + 1) code)"

definition set_stage :: "goal_server \<Rightarrow> nat \<Rightarrow> stage \<Rightarrow> goal_server" where
  "set_stage s r st = s \<lparr> gs_stage := (gs_stage s)(r := st) \<rparr>"

text \<open>
  \<open>_goal_terminal_event.set()\<close> wakes every thread that waits for it: the requests that replace a goal and the
  calls of the cancel service, which keep that they were woken even when the event is cleared by the next goal
  before they run.
\<close>

fun wake :: "stage \<Rightarrow> stage" where
  "wake (AwaitTerminal action suppress b) = AwaitTerminal action suppress True"
| "wake st = st"

definition set_terminal :: "goal_server \<Rightarrow> goal_server" where
  "set_terminal s = s \<lparr> gs_terminal := True, gs_stage := (\<lambda>r. wake (gs_stage s r)),
     gs_cancels := (\<lambda>k. map_option (\<lambda>_. True) (gs_cancels s k)) \<rparr>"

text \<open>
  The result of a wait for the event: it may return true when the event is set or was set meanwhile, and
  may time out at any moment; \<open>None\<close> is a wait that goes on.
\<close>

definition wait_result :: "goal_server \<Rightarrow> bool \<Rightarrow> bool option \<Rightarrow> bool option" where
  "wait_result s woken answer = (if answer = Some True \<and> \<not> gs_terminal s \<and> \<not> woken then None else answer)"

text \<open>A request that is refused: it ends, with an event.\<close>

definition refuse_goal :: "goal_server \<Rightarrow> nat \<Rightarrow> string \<Rightarrow> goal_server \<times> goal_output list" where
  "refuse_goal s r why = (let (s1, o1) = note_event (set_stage s r NoRequest) ''GOAL_REJECTED'' in (s1, [o1, GoalRefused r why]))"

definition manual_error :: string where
  "manual_error = ''manual control enabled; disable manual mode to send goals''"

subsection \<open>The sections of a request\<close>

text \<open>The start of \<open>_on_set_goal\<close> and of \<open>_on_rviz_goal\<close>: what happens before \<open>_request_map_goals\<close>.\<close>

definition service_request ::
    "goal_server \<Rightarrow> nat \<Rightarrow> ll_request \<Rightarrow> bool \<Rightarrow> bool \<Rightarrow> goal_conversion list list \<Rightarrow> goal_server \<times> goal_output list" where
  "service_request s r q suppress client_ready conversions =
     (if gs_stage s r \<noteq> NoRequest then (s, [])
      else if gs_manual s then (s, [GoalRefused r manual_error])
      else case goal_waypoints q of
        Inl e \<Rightarrow> refuse_goal s r ''invalid request''
      | Inr ws \<Rightarrow>
          (if \<not> client_ready
           then (let (s1, o1) = note_event s ''FROMLL_FAILED'' in (s1, [o1, GoalRefused r ''fromLL service unavailable'']))
           else case convert_all ws conversions of
             Inl e \<Rightarrow> (let (s1, o1) = note_event s ''FROMLL_FAILED'' in (s1, [o1, GoalRefused r e]))
           | Inr ps \<Rightarrow> (set_stage s r (Checking ps suppress), [])))"

definition rviz_request :: "goal_server \<Rightarrow> nat \<Rightarrow> rviz_error + pyfloat \<times> pyfloat \<times> pyfloat \<Rightarrow> goal_server \<times> goal_output list" where
  "rviz_request s r goal =
     (if gs_stage s r \<noteq> NoRequest then (s, [])
      else case goal of
        Inl e \<Rightarrow> refuse_goal s r ''invalid RViz goal''
      | Inr (x, y, yaw) \<Rightarrow> (set_stage s r (Checking [(x, y)] False), []))"

definition check_request :: "goal_server \<Rightarrow> nat \<Rightarrow> goal_server \<times> goal_output list" where
  "check_request s r =
     (case gs_stage s r of
        Checking ps suppress \<Rightarrow>
          if ps = [] then refuse_goal s r ''at least one map waypoint is required''
          else if gs_manual s then refuse_goal s r manual_error
          else (set_stage s r (Validating ps suppress (goal_active s)), [])
      | _ \<Rightarrow> (s, []))"

definition action_name :: "'a list \<Rightarrow> string" where
  "action_name ps = (if 1 < length ps then ''NavigateThroughPoses'' else ''NavigateToPose'')"

definition validate_goal :: "goal_server \<Rightarrow> nat \<Rightarrow> bool \<Rightarrow> goal_server \<times> goal_output list" where
  "validate_goal s r server_ready =
     (case gs_stage s r of
        Validating ps suppress replacing \<Rightarrow>
          (case any_in_keepout (gs_keepouts s) ps of
             None \<Rightarrow> (set_stage s r NoRequest, [GoalRaised r])
           | Some inside \<Rightarrow>
               if inside then refuse_goal s r ''goal lies in keepout zone''
               else if \<not> server_ready then refuse_goal s r (action_name ps @ '' action server unavailable'')
               else (set_stage s r (if replacing then Replacing (action_name ps) suppress else Ready (action_name ps) suppress), []))
      | _ \<Rightarrow> (s, []))"

text \<open>The locked section of \<open>_cancel_goal\<close> with what follows it: whether a goal was active, and the outputs.\<close>

definition request_cancel :: "goal_server \<Rightarrow> string \<Rightarrow> bool \<Rightarrow> goal_server \<times> bool \<times> goal_output list" where
  "request_cancel s reason brake =
     (if \<not> goal_active s then (s, False, [])
      else
        (s \<lparr> gs_cancel_requested := True, gs_cancel_reason := reason, gs_text := ''cancelling: '' @ reason \<rparr>, True,
         (case gs_handle s of Some h \<Rightarrow> if gs_cancel_requested s then [] else [CancelHandle h] | None \<Rightarrow> []) @
         (if brake then [StopNow, HoldBrake (fl (4 / 10))] else [])))"

definition cancel_previous :: "goal_server \<Rightarrow> nat \<Rightarrow> goal_server \<times> goal_output list" where
  "cancel_previous s r =
     (case gs_stage s r of
        Replacing action suppress \<Rightarrow>
          (let (s1, was_active, os) = request_cancel s ''replaced by new goal'' False
           in (set_stage s1 r (if was_active then AwaitTerminal action suppress False else Ready action suppress), os))
      | _ \<Rightarrow> (s, []))"

definition await_previous :: "goal_server \<Rightarrow> nat \<Rightarrow> bool option \<Rightarrow> goal_server \<times> goal_output list" where
  "await_previous s r answer =
     (case gs_stage s r of
        AwaitTerminal action suppress woken \<Rightarrow>
          (case wait_result s woken answer of
             None \<Rightarrow> (s, [])
           | Some True \<Rightarrow> (set_stage s r (Ready action suppress), [])
           | Some False \<Rightarrow> refuse_goal s r ''previous navigation goal cancellation did not reach a terminal state'')
      | _ \<Rightarrow> (s, []))"

definition begin_goal :: "goal_server \<Rightarrow> nat \<Rightarrow> goal_server \<times> goal_output list" where
  "begin_goal s r =
     (case gs_stage s r of
        Ready action suppress \<Rightarrow>
          if gs_manual s then refuse_goal s r manual_error
          else if goal_active s then refuse_goal s r ''previous navigation goal is still active''
          else
            (set_stage (s \<lparr> gs_epoch := gs_epoch s + 1, gs_planner := begin_evidence (gs_epoch s + 1), gs_failure := [],
               gs_pending := True, gs_cancel_requested := False, gs_cancel_reason := [], gs_terminal := False,
               gs_suppress := suppress, gs_action := action, gs_status := StatusUnknown, gs_text := ''sending navigation goal'' \<rparr>)
               r (Begun (gs_epoch s + 1)), [])
      | _ \<Rightarrow> (s, []))"

definition reset_guard :: "goal_server \<Rightarrow> nat \<Rightarrow> bool \<Rightarrow> goal_server \<times> goal_output list" where
  "reset_guard s r ok =
     (case gs_stage s r of
        Begun e \<Rightarrow>
          if ok then (set_stage s r (Prepared e), [])
          else refuse_goal (set_terminal (s \<lparr> gs_pending := False \<rparr>)) r ''path admission reset failed''
      | _ \<Rightarrow> (s, []))"

definition prepare_send :: "goal_server \<Rightarrow> nat \<Rightarrow> goal_server \<times> goal_output list" where
  "prepare_send s r =
     (case gs_stage s r of
        Prepared e \<Rightarrow>
          if e \<noteq> gs_epoch s then (set_stage s r Announcing, [])
          else if gs_manual s
          then (set_stage (set_terminal (s \<lparr> gs_pending := False, gs_text := ''manual control enabled before goal dispatch'' \<rparr>))
                  r Announcing, [])
          else (set_stage s r (Sending e), [])
      | _ \<Rightarrow> (s, []))"

definition send_goal :: "goal_server \<Rightarrow> nat \<Rightarrow> goal_server \<times> goal_output list" where
  "send_goal s r =
     (case gs_stage s r of
        Sending e \<Rightarrow> (set_stage (s \<lparr> gs_waiting := gs_waiting s @ [e] \<rparr>) r Announcing, [SendToNav2 e])
      | _ \<Rightarrow> (s, []))"

definition announce_goal :: "goal_server \<Rightarrow> nat \<Rightarrow> goal_server \<times> goal_output list" where
  "announce_goal s r =
     (if gs_stage s r \<noteq> Announcing then (s, [])
      else
        (let (s1, o1) = note_event (set_stage s r NoRequest) ''GOAL_REQUESTED'' in (s1, [o1, GoalAccepted r (gs_event_id s1)])))"

subsection \<open>The answers of Nav2\<close>

text \<open>\<open>_on_goal_response\<close>: the handle of an accepted goal, or \<open>None\<close>. The end of the callback is \<open>finish_response\<close>.\<close>

definition goal_response :: "goal_server \<Rightarrow> int \<Rightarrow> nat option \<Rightarrow> goal_server \<times> goal_output list" where
  "goal_response s e handle =
     (if e \<notin> set (gs_waiting s) then (s, [])
      else
        (let s1 = s \<lparr> gs_waiting := remove1 e (gs_waiting s) \<rparr>; stale = (e \<noteq> gs_epoch s) in
         case handle of
           None \<Rightarrow>
             if stale then (s1, [])
             else
               (let (s2, o1) = note_event s1 ''GOAL_REJECTED''
                in (set_terminal (s2 \<lparr> gs_pending := False, gs_cancel_requested := False, gs_cancel_reason := [],
                      gs_text := ''goal rejected'', gs_result_id := gs_event_id s2 \<rparr>), [o1]))
         | Some h \<Rightarrow>
             if stale then (s1, [CancelHandle h])
             else
               (s1 \<lparr> gs_pending := False, gs_handle := Some h,
                  gs_text := (if gs_cancel_requested s then ''cancelling: '' @ gs_cancel_reason s else ''navigating''),
                  gs_accepting := gs_accepting s @ [(e, h, gs_cancel_requested s \<or> gs_manual s)] \<rparr>, [])))"

definition finish_response :: "goal_server \<Rightarrow> goal_server \<times> goal_output list" where
  "finish_response s =
     (case gs_accepting s of
        [] \<Rightarrow> (s, [])
      | (e, h, cancel) # rest \<Rightarrow>
          (let (s1, o1) = note_event (s \<lparr> gs_accepting := rest, gs_running := gs_running s @ [e] \<rparr>) ''GOAL_ACCEPTED''
           in (s1, o1 # (if cancel then [CancelHandle h] else []))))"

definition goal_result :: "goal_server \<Rightarrow> int \<Rightarrow> goal_status \<Rightarrow> pyfloat \<Rightarrow> goal_server \<times> goal_output list" where
  "goal_result s e status now =
     (if e \<notin> set (gs_running s) then (s, [])
      else
        (let s1 = s \<lparr> gs_running := remove1 e (gs_running s) \<rparr> in
         if e \<noteq> gs_epoch s then (s1, [])
         else
           (let failure = (if status \<notin> {StatusSucceeded, StatusCanceled} \<and> aborted_for_no_path (gs_planner s) e now
                           then ''NO_VALID_PATH'' else gs_failure s);
                (s2, o1) = note_event s1 (case status of StatusSucceeded \<Rightarrow> ''GOAL_RESULT_SUCCEEDED''
                  | StatusCanceled \<Rightarrow> ''GOAL_CANCELLED'' | _ \<Rightarrow> ''GOAL_RESULT_ABORTED'')
            in (set_terminal (s2 \<lparr> gs_handle := None, gs_pending := False, gs_cancel_requested := False, gs_cancel_reason := [],
                  gs_status := status, gs_text := (case status of StatusSucceeded \<Rightarrow> ''succeeded''
                    | StatusCanceled \<Rightarrow> ''cancelled'' | _ \<Rightarrow> ''aborted''),
                  gs_action := ''none'', gs_failure := failure, gs_result_id := gs_event_id s2 \<rparr>),
                o1 # (if status = StatusSucceeded \<and> \<not> gs_suppress s then [HoldBrake (Fin (1 / 4))] else [])))))"

subsection \<open>Cancellation and takeover\<close>

definition cancel_call :: "goal_server \<Rightarrow> nat \<Rightarrow> goal_server \<times> goal_output list" where
  "cancel_call s k =
     (let (s1, was_active, os) = request_cancel s ''cancelled by service'' True
      in if was_active then (s1 \<lparr> gs_cancels := (gs_cancels s1)(k := Some False) \<rparr>, os) else (s1, [CancelReply k True]))"

definition cancel_wait :: "goal_server \<Rightarrow> nat \<Rightarrow> bool option \<Rightarrow> goal_server \<times> goal_output list" where
  "cancel_wait s k answer =
     (case gs_cancels s k of
        None \<Rightarrow> (s, [])
      | Some woken \<Rightarrow>
          (let s1 = s \<lparr> gs_cancels := (gs_cancels s)(k := None) \<rparr> in
           case wait_result s woken answer of
             None \<Rightarrow> (s, [])
           | Some True \<Rightarrow> (s1, [CancelReply k True])
           | Some False \<Rightarrow> (let (s2, o1) = note_event s1 ''GOAL_CANCEL_TIMEOUT'' in (s2, [o1, CancelReply k False]))))"

definition takeover_cancel :: "goal_server \<Rightarrow> goal_server \<times> goal_output list" where
  "takeover_cancel s =
     (let (s1, was_active, os) = request_cancel s ''manual takeover'' True
      in if was_active then (let (s2, o1) = note_event s1 ''GOAL_CANCEL_REQUESTED'' in (s2, os @ [o1])) else (s1, []))"

definition change_mode :: "goal_server \<Rightarrow> bool \<Rightarrow> goal_server \<times> goal_output list" where
  "change_mode s enabled = (let (s1, o1) = note_event (s \<lparr> gs_manual := enabled \<rparr>) ''MANUAL_MODE_CHANGED'' in (s1, [o1]))"

definition planner_log :: "goal_server \<Rightarrow> string \<Rightarrow> string \<Rightarrow> pyfloat \<Rightarrow> goal_server \<times> goal_output list" where
  "planner_log s name message now =
     (if goal_active s then (s \<lparr> gs_planner := observe_log (gs_planner s) name message now \<rparr>, []) else (s, []))"

datatype goal_section =
    ServiceRequest nat ll_request bool bool "goal_conversion list list"
  | RvizRequest nat "rviz_error + pyfloat \<times> pyfloat \<times> pyfloat"
  | Keepouts "string \<times> (point list \<times> point list list) list"
  | CheckRequest nat
  | ValidateRequest nat bool
  | CancelPrevious nat
  | AwaitPrevious nat "bool option"
  | BeginGoal nat
  | ResetGuard nat bool
  | PrepareSend nat
  | SendIt nat
  | AnnounceGoal nat
  | GoalResponse int "nat option"
  | FinishResponse
  | GoalResult int goal_status pyfloat
  | CancelCall nat
  | CancelWait nat "bool option"
  | TakeoverCancel
  | ChangeMode bool
  | PlannerLog string string pyfloat
  | OtherEvent string

fun goal_step :: "goal_server \<Rightarrow> goal_section \<Rightarrow> goal_server \<times> goal_output list" where
  "goal_step s (ServiceRequest r q suppress ready conversions) = service_request s r q suppress ready conversions"
| "goal_step s (RvizRequest r goal) = rviz_request s r goal"
| "goal_step s (Keepouts k) = (s \<lparr> gs_keepouts := Some k \<rparr>, [])"
| "goal_step s (CheckRequest r) = check_request s r"
| "goal_step s (ValidateRequest r ready) = validate_goal s r ready"
| "goal_step s (CancelPrevious r) = cancel_previous s r"
| "goal_step s (AwaitPrevious r b) = await_previous s r b"
| "goal_step s (BeginGoal r) = begin_goal s r"
| "goal_step s (ResetGuard r ok) = reset_guard s r ok"
| "goal_step s (PrepareSend r) = prepare_send s r"
| "goal_step s (SendIt r) = send_goal s r"
| "goal_step s (AnnounceGoal r) = announce_goal s r"
| "goal_step s (GoalResponse e handle) = goal_response s e handle"
| "goal_step s FinishResponse = finish_response s"
| "goal_step s (GoalResult e status now) = goal_result s e status now"
| "goal_step s (CancelCall k) = cancel_call s k"
| "goal_step s (CancelWait k b) = cancel_wait s k b"
| "goal_step s TakeoverCancel = takeover_cancel s"
| "goal_step s (ChangeMode b) = change_mode s b"
| "goal_step s (PlannerLog name message now) = planner_log s name message now"
| "goal_step s (OtherEvent code) = (let (s1, o1) = note_event s code in (s1, [o1]))"

subsection \<open>What the executor is told\<close>

text \<open>The telemetry of the node, as far as the route executor reads it.\<close>

definition telemetry_of :: "goal_server \<Rightarrow> bool \<Rightarrow> string \<Rightarrow> telemetry_msg" where
  "telemetry_of s collision safety_failure =
     \<lparr> tm_manual = gs_manual s, tm_collision = collision, tm_goal_active = goal_active s, tm_result = gs_text s,
       tm_result_id = gs_result_id s, tm_failure = (if safety_failure = [] then gs_failure s else safety_failure) \<rparr>"

subsection \<open>The invariant\<close>

text \<open>The goal that a request has begun and not yet handed to Nav2.\<close>

fun begun_epoch :: "stage \<Rightarrow> int option" where
  "begun_epoch (Begun e) = Some e"
| "begun_epoch (Prepared e) = Some e"
| "begun_epoch (Sending e) = Some e"
| "begun_epoch st = None"

definition outstanding :: "goal_server \<Rightarrow> int list" where
  "outstanding s = gs_waiting s @ map fst (gs_accepting s) @ gs_running s"

definition handle_ok :: "nat option \<Rightarrow> int \<Rightarrow> (int \<times> nat \<times> bool) list \<Rightarrow> int list \<Rightarrow> bool" where
  "handle_ok h e acc ru \<longleftrightarrow>
     (case h of None \<Rightarrow> acc = [] \<and> ru = []
      | Some k \<Rightarrow> (\<exists>c. acc = [(e, k, c)]) \<and> ru = [] \<or> acc = [] \<and> ru = [e])"

definition owners_ok :: "(nat \<Rightarrow> stage) \<Rightarrow> int \<Rightarrow> bool \<Rightarrow> int list \<Rightarrow> bool" where
  "owners_ok st e pending wa \<longleftrightarrow>
     (\<forall>r. begun_epoch (st r) \<noteq> None \<longrightarrow> begun_epoch (st r) = Some e \<and> pending \<and> wa = []) \<and>
     (\<forall>r r'. begun_epoch (st r) \<noteq> None \<longrightarrow> begun_epoch (st r') \<noteq> None \<longrightarrow> r = r')"

definition server_inv :: "goal_server \<Rightarrow> bool" where
  "server_inv s \<longleftrightarrow> gs_terminal s = (\<not> goal_active s) \<and> \<not> (gs_pending s \<and> gs_handle s \<noteq> None) \<and>
     owners_ok (gs_stage s) (gs_epoch s) (gs_pending s) (gs_waiting s) \<and>
     (gs_waiting s = [] \<or> gs_waiting s = [gs_epoch s] \<and> gs_pending s) \<and>
     handle_ok (gs_handle s) (gs_epoch s) (gs_accepting s) (gs_running s)"

lemmas goal_defs = set_terminal_def server_inv_def goal_active_def set_stage_def refuse_goal_def note_event_def Let_def

text \<open>A stage that owns no goal can be set freely; the stages of the owner follow each other.\<close>

lemma owners_free: "owners_ok st e p wa \<Longrightarrow> begun_epoch x = None \<Longrightarrow> owners_ok (st(r := x)) e p wa"
  by (auto simp: owners_ok_def)

lemma owners_same: "owners_ok st e p wa \<Longrightarrow> begun_epoch x = begun_epoch (st r) \<Longrightarrow> owners_ok (st(r := x)) e p wa"
  by (auto simp: owners_ok_def)

lemma owners_release:
  "owners_ok st e p wa \<Longrightarrow> begun_epoch (st r) \<noteq> None \<Longrightarrow> begun_epoch x = None \<Longrightarrow> owners_ok (st(r := x)) e' p' wa'"
  by (auto simp: owners_ok_def)

lemma begun_wake [simp]: "begun_epoch (wake x) = begun_epoch x"
  by (cases x) simp_all

lemma owners_wake [simp]: "owners_ok (\<lambda>r. wake (st r)) e p wa = owners_ok st e p wa"
  by (simp add: owners_ok_def)

lemma owners_none: "owners_ok st e False wa \<Longrightarrow> owners_ok st e' p' wa'"
  by (auto simp: owners_ok_def)

lemma owners_begin: "owners_ok st e False wa \<Longrightarrow> owners_ok (st(r := Begun e')) e' True []"
  by (auto simp: owners_ok_def)

lemma owners_waiting: "owners_ok st e p [k] \<Longrightarrow> owners_ok st e' p' wa'"
  by (auto simp: owners_ok_def)

lemma owners_owner: "owners_ok st e p wa \<Longrightarrow> begun_epoch (st r) = Some k \<Longrightarrow> k = e \<and> p \<and> wa = []"
  by (auto simp: owners_ok_def)

lemma owner_facts: "server_inv s \<Longrightarrow> begun_epoch (gs_stage s r) = Some k \<Longrightarrow> k = gs_epoch s \<and> gs_pending s \<and> gs_waiting s = []"
  using owners_owner unfolding server_inv_def by blast

text \<open>A section that only frees a stage, writes an event or sets fields outside the invariant.\<close>

lemma inv_stage: "server_inv s \<Longrightarrow> begun_epoch x = None \<Longrightarrow> server_inv (set_stage s r x)"
  by (simp add: server_inv_def set_stage_def goal_active_def owners_free)

lemma inv_update:
  "server_inv (s \<lparr> gs_event_id := n \<rparr>) = server_inv s" "server_inv (s \<lparr> gs_manual := b \<rparr>) = server_inv s"
  "server_inv (s \<lparr> gs_keepouts := k \<rparr>) = server_inv s" "server_inv (s \<lparr> gs_planner := p \<rparr>) = server_inv s"
  "server_inv (s \<lparr> gs_cancels := f \<rparr>) = server_inv s" "server_inv (s \<lparr> gs_text := w \<rparr>) = server_inv s"
  "server_inv (s \<lparr> gs_cancel_requested := b \<rparr>) = server_inv s" "server_inv (s \<lparr> gs_cancel_reason := w \<rparr>) = server_inv s"
  by (simp_all add: server_inv_def goal_active_def)

lemma inv_event: "server_inv (fst (note_event s code)) = server_inv s"
  by (simp add: note_event_def inv_update)

lemma inv_refuse: "server_inv s \<Longrightarrow> server_inv (fst (refuse_goal s r why))"
  by (simp add: refuse_goal_def note_event_def Let_def inv_update inv_stage)

lemma inv_cancel: "server_inv s \<Longrightarrow> server_inv (fst (request_cancel s reason brake))"
  by (simp add: request_cancel_def inv_update)

lemmas inv_simps = inv_update inv_stage inv_refuse inv_event note_event_def Let_def

lemma inv_requests:
  assumes "server_inv s"
  shows "server_inv (fst (service_request s r q suppress ready conv))" "server_inv (fst (rviz_request s r g))"
    "server_inv (fst (check_request s r))" "server_inv (fst (validate_goal s r ready))" "server_inv (fst (await_previous s r a))"
    "server_inv (fst (announce_goal s r))"
  using assms
  by (simp_all add: service_request_def rviz_request_def check_request_def validate_goal_def await_previous_def announce_goal_def inv_simps
      split: sum.splits stage.splits option.splits bool.splits)

lemma inv_cancels:
  assumes "server_inv s"
  shows "server_inv (fst (cancel_previous s r))" "server_inv (fst (cancel_call s k))" "server_inv (fst (cancel_wait s k a))"
    "server_inv (fst (takeover_cancel s))" "server_inv (fst (change_mode s b))" "server_inv (fst (planner_log s name message now))"
proof -
  show "server_inv (fst (cancel_previous s r))"
    using inv_cancel [OF assms, of "''replaced by new goal''" False] assms
    by (auto simp: cancel_previous_def inv_simps split: stage.splits prod.splits)
  show "server_inv (fst (cancel_call s k))"
    using inv_cancel [OF assms, of "''cancelled by service''" True] by (auto simp: cancel_call_def inv_simps split: prod.splits)
  show "server_inv (fst (takeover_cancel s))"
    using inv_cancel [OF assms, of "''manual takeover''" True] by (auto simp: takeover_cancel_def inv_simps split: prod.splits)
qed (use assms in \<open>simp_all add: cancel_wait_def change_mode_def planner_log_def inv_simps split: option.splits bool.splits\<close>)

lemma inv_begin: "server_inv s \<Longrightarrow> server_inv (fst (begin_goal s r))"
proof (cases "gs_stage s r")
  case (Ready action suppress)
  assume inv: "server_inv s"
  show ?thesis
  proof (cases "gs_manual s \<or> goal_active s")
    case True
    then show ?thesis using inv Ready by (auto simp: begin_goal_def inv_refuse)
  next
    case False
    then have h: "\<not> gs_pending s" "gs_handle s = None" by (simp_all add: goal_active_def)
    then have w: "gs_waiting s = []" "gs_accepting s = []" "gs_running s = []" using inv by (simp_all add: server_inv_def handle_ok_def)
    have "owners_ok (gs_stage s) (gs_epoch s) False []" using inv h w by (simp add: server_inv_def)
    with h w show ?thesis using False Ready
      by (simp add: begin_goal_def set_stage_def server_inv_def goal_active_def handle_ok_def owners_begin)
  qed
qed (simp_all add: begin_goal_def)

text \<open>The owner of the begun goal gives it up, or goes on.\<close>

lemma inv_release:
  assumes "server_inv s" "begun_epoch (gs_stage s r) = Some k" "begun_epoch x = None"
  shows "server_inv (set_stage (set_terminal (s \<lparr> gs_pending := False \<rparr>)) r x)"
proof -
  have f: "gs_pending s" "gs_waiting s = []" "k = gs_epoch s" using owner_facts [OF assms(1,2)] by simp_all
  then have n: "gs_handle s = None" using assms(1) by (simp add: server_inv_def)
  then have h: "gs_handle s = None" "gs_accepting s = []" "gs_running s = []"
    using assms(1) by (simp_all add: server_inv_def handle_ok_def)
  have "owners_ok (\<lambda>r. wake (gs_stage s r)) (gs_epoch s) True []" using assms(1) f by (simp add: server_inv_def)
  from owners_release [OF this, of r x] assms(2,3)
  have "owners_ok ((\<lambda>r. wake (gs_stage s r))(r := x)) (gs_epoch s) False []" by simp
  then show ?thesis using f h by (simp add: set_stage_def set_terminal_def server_inv_def goal_active_def handle_ok_def)
qed

lemma set_stage_text: "set_stage (set_terminal (s \<lparr> gs_pending := b, gs_text := w \<rparr>)) r x = (set_stage (set_terminal (s \<lparr> gs_pending := b \<rparr>)) r x) \<lparr> gs_text := w \<rparr>"
  by (simp add: set_stage_def set_terminal_def)

lemma inv_same: "server_inv s \<Longrightarrow> begun_epoch x = begun_epoch (gs_stage s r) \<Longrightarrow> server_inv (set_stage s r x)"
  by (simp add: server_inv_def set_stage_def goal_active_def owners_same)

lemma inv_reset: "server_inv s \<Longrightarrow> server_inv (fst (reset_guard s r ok))"
  by (cases "gs_stage s r")
     (simp_all add: reset_guard_def inv_same refuse_goal_def note_event_def Let_def set_stage_text inv_update inv_release)

lemma inv_prepare: "server_inv s \<Longrightarrow> server_inv (fst (prepare_send s r))"
  using owner_facts [of s r]
  by (cases "gs_stage s r") (simp_all add: prepare_send_def inv_same set_stage_text inv_update inv_release)

lemma inv_send: "server_inv s \<Longrightarrow> server_inv (fst (send_goal s r))"
proof (cases "gs_stage s r")
  case (Sending e)
  assume inv: "server_inv s"
  have f: "gs_pending s" "gs_waiting s = []" "e = gs_epoch s" using owner_facts [OF inv, of r e] Sending by simp_all
  then have own: "owners_ok (gs_stage s) (gs_epoch s) True []" using inv by (simp add: server_inv_def)
  have "owners_ok ((gs_stage s)(r := Announcing)) (gs_epoch s) True [e]"
    using owners_release [OF own, of r Announcing] Sending by simp
  moreover have "gs_handle s = None" using inv f by (simp add: server_inv_def)
  ultimately show ?thesis using inv f Sending by (simp add: send_goal_def server_inv_def goal_active_def set_stage_def)
qed (simp_all add: send_goal_def)

lemma inv_response: "server_inv s \<Longrightarrow> server_inv (fst (goal_response s e h))"
  by (cases h) (auto simp: goal_response_def goal_defs handle_ok_def intro: owners_waiting)

lemma inv_finish: "server_inv s \<Longrightarrow> server_inv (fst (finish_response s))"
  by (auto simp: finish_response_def goal_defs handle_ok_def split: list.splits option.splits)

lemma inv_result: "server_inv s \<Longrightarrow> server_inv (fst (goal_result s e st now))"
  by (cases "gs_handle s") (auto simp: goal_result_def goal_defs handle_ok_def)

lemma goal_step_inv: "server_inv s \<Longrightarrow> server_inv (fst (goal_step s v))"
  by (cases v) (simp_all add: inv_requests inv_cancels inv_begin inv_reset inv_prepare inv_send inv_response inv_finish inv_result inv_simps)

interpretation goals: machine goal_step server_inv
  by unfold_locales (rule goal_step_inv)

lemma new_goal_server_inv: "server_inv new_goal_server"
  by (simp add: new_goal_server_def goal_defs owners_ok_def handle_ok_def)

lemma reachable_inv: "server_inv (fst (run goal_step new_goal_server vs))"
  by (rule goals.run_inv) (rule new_goal_server_inv)

subsection \<open>Sent goals\<close>

fun sent_epoch :: "goal_output \<Rightarrow> int list" where
  "sent_epoch (SendToNav2 e) = [e]"
| "sent_epoch o1 = []"

definition sends :: "goal_output list \<Rightarrow> int list" where
  "sends os = concat (map sent_epoch os)"

lemma sends_simps [simp]:
  "sends [] = []" "sends (o1 # os) = sent_epoch o1 @ sends os" "sends (os @ os2) = sends os @ sends os2"
  by (simp_all add: sends_def)

text \<open>The goals sent so far increase; a goal that is begun and not sent is later than all of them.\<close>

definition sends_ok :: "int list \<Rightarrow> goal_server \<Rightarrow> bool" where
  "sends_ok l s \<longleftrightarrow> sorted_wrt (<) l \<and> list_all (\<lambda>e. e \<le> gs_epoch s) l \<and>
     (\<forall>r. begun_epoch (gs_stage s r) \<noteq> None \<longrightarrow> list_all (\<lambda>e. e < gs_epoch s) l)"

lemmas section_defs = set_terminal_def service_request_def rviz_request_def check_request_def validate_goal_def cancel_previous_def await_previous_def
  reset_guard_def prepare_send_def announce_goal_def goal_response_def finish_response_def goal_result_def cancel_call_def
  cancel_wait_def takeover_cancel_def change_mode_def planner_log_def request_cancel_def set_stage_def refuse_goal_def note_event_def Let_def

text \<open>Sections that neither begin nor send a goal leave the epoch and give no request a goal.\<close>

definition neutral :: "goal_server \<Rightarrow> goal_server \<times> goal_output list \<Rightarrow> bool" where
  "neutral s x \<longleftrightarrow> gs_epoch (fst x) = gs_epoch s \<and> sends (snd x) = [] \<and>
     (\<forall>r. begun_epoch (gs_stage (fst x) r) \<noteq> None \<longrightarrow> begun_epoch (gs_stage s r) \<noteq> None)"

fun begins :: "goal_section \<Rightarrow> bool" where
  "begins (BeginGoal r) = True"
| "begins (SendIt r) = True"
| "begins v = False"

lemma neutral_step: "\<not> begins v \<Longrightarrow> neutral s (goal_step s v)"
  by (cases v)
     (simp_all add: neutral_def section_defs split: sum.splits stage.splits option.splits list.splits goal_status.splits bool.splits)

lemma sends_ok_step:
  assumes "server_inv s" "sends_ok l s" "goal_step s v = (s1, os)"
  shows "sends_ok (l @ sends os) s1"
proof (cases "begins v")
  case False
  then have "neutral s (s1, os)" using neutral_step [of v s] assms(3) by simp
  then show ?thesis using assms(2) by (auto simp: neutral_def sends_ok_def)
next
  case True
  then consider r where "v = BeginGoal r" | r where "v = SendIt r" by (cases v) auto
  then show ?thesis
  proof cases
    case 1
    have "list_all (\<lambda>e. e \<le> gs_epoch s) l" using assms(2) by (simp add: sends_ok_def)
    then have "list_all (\<lambda>e. e \<le> gs_epoch s + 1) l" "list_all (\<lambda>e. e < gs_epoch s + 1) l" by (auto simp: list_all_iff)
    then show ?thesis using 1 assms(2,3)
      by (auto simp: begin_goal_def sends_ok_def set_stage_def refuse_goal_def note_event_def Let_def split: stage.splits if_splits)
  next
    case 2
    show ?thesis
    proof (cases "\<exists>e. gs_stage s r = Sending e")
      case True
      then obtain e where e: "gs_stage s r = Sending e" by blast
      have own: "owners_ok (gs_stage s) (gs_epoch s) (gs_pending s) (gs_waiting s)" using assms(1) by (simp add: server_inv_def)
      have ee: "e = gs_epoch s" using owners_owner [OF own, of r e] e by simp
      have only: "begun_epoch (gs_stage s r') = None" if "r' \<noteq> r" for r' using own that e by (auto simp: owners_ok_def)
      have "begun_epoch (gs_stage s r) \<noteq> None" using e by simp
      then have "list_all (\<lambda>x. x < e) l" using assms(2) ee unfolding sends_ok_def by blast
      then show ?thesis using 2 assms(2,3) e ee only
        by (auto simp: send_goal_def sends_ok_def set_stage_def sorted_wrt_append list_all_iff split: if_splits)
    next
      case False
      then have "s1 = s" "os = []" using 2 assms(3) by (auto simp: send_goal_def split: stage.splits)
      then show ?thesis using assms(2) by simp
    qed
  qed
qed

lemma sends_ok_run:
  "server_inv s \<Longrightarrow> sends_ok l s \<Longrightarrow> sends_ok (l @ sends (snd (run goal_step s vs))) (fst (run goal_step s vs))"
proof (induction vs arbitrary: s l)
  case (Cons v vs)
  obtain s1 os where st: "goal_step s v = (s1, os)" by fastforce
  have "server_inv s1" using goal_step_inv [OF Cons.prems(1), of v] st by simp
  from Cons.IH [OF this sends_ok_step [OF Cons.prems st]] st show ?case by (simp add: run_Cons del: run.simps(2))
qed simp

subsection \<open>Properties\<close>

text \<open>
  C1. At most one goal is outstanding: however the sections of any number of requests, cancellations,
  takeovers and answers interleave, at most one goal was sent without having ended, it is the newest one, and
  the goals handed to Nav2 carry strictly increasing numbers.
\<close>

theorem single_goal_outstanding:
  "length (outstanding (fst (run goal_step new_goal_server vs))) \<le> 1 \<and>
   sorted_wrt (<) (sends (snd (run goal_step new_goal_server vs)))"
proof -
  define s where "s = fst (run goal_step new_goal_server vs)"
  have "server_inv s" unfolding s_def by (rule reachable_inv)
  then have "length (outstanding s) \<le> 1"
    by (auto simp: outstanding_def server_inv_def handle_ok_def split: option.splits)
  moreover have "sends_ok [] new_goal_server" by (simp add: sends_ok_def)
  then have "sends_ok ([] @ sends (snd (run goal_step new_goal_server vs))) s"
    unfolding s_def by (rule sends_ok_run [OF new_goal_server_inv])
  ultimately show ?thesis by (simp add: s_def sends_ok_def)
qed

text \<open>A goal is gone when it is not the current one or no goal is active; it stays gone.\<close>

definition gone :: "int \<Rightarrow> goal_server \<Rightarrow> bool" where
  "gone e s \<longleftrightarrow> e < gs_epoch s \<or> e = gs_epoch s \<and> \<not> goal_active s"

definition forward :: "goal_server \<Rightarrow> goal_server \<Rightarrow> bool" where
  "forward s s1 \<longleftrightarrow> gs_epoch s < gs_epoch s1 \<or> gs_epoch s = gs_epoch s1 \<and> (goal_active s1 \<longrightarrow> goal_active s)"

definition woken_ok :: "int \<Rightarrow> nat \<Rightarrow> goal_server \<Rightarrow> bool" where
  "woken_ok e k s \<longleftrightarrow> e \<le> gs_epoch s \<and> (gs_cancels s k = Some True \<longrightarrow> gone e s)"

lemma gone_forward: "forward s s1 \<Longrightarrow> gone e s \<Longrightarrow> gone e s1"
  by (auto simp: gone_def forward_def)

lemma woken_same: "woken_ok e k s \<Longrightarrow> forward s s1 \<Longrightarrow> gs_cancels s1 k = Some True \<longrightarrow> gs_cancels s k = Some True \<or> \<not> goal_active s1 \<Longrightarrow> woken_ok e k s1"
  by (auto simp: woken_ok_def gone_def forward_def)

text \<open>A step keeps the goals moving forward, and wakes a waiting caller only when no goal is active any more.\<close>

definition steady :: "nat \<Rightarrow> goal_server \<Rightarrow> goal_server \<Rightarrow> bool" where
  "steady k s s1 \<longleftrightarrow> forward s s1 \<and> (gs_cancels s1 k = Some True \<longrightarrow> gs_cancels s k = Some True \<or> \<not> goal_active s1)"

lemma steady_same:
  "gs_epoch s1 = gs_epoch s \<Longrightarrow> gs_pending s1 = gs_pending s \<Longrightarrow> gs_handle s1 = gs_handle s \<Longrightarrow>
   gs_cancels s1 k = gs_cancels s k \<or> gs_cancels s1 k \<noteq> Some True \<Longrightarrow> steady k s s1"
  by (auto simp: steady_def forward_def goal_active_def)

lemma steady_terminal: "gs_epoch s1 = gs_epoch s \<Longrightarrow> \<not> goal_active s1 \<Longrightarrow> steady k s s1"
  by (auto simp: steady_def forward_def)

fun ends_or_starts :: "goal_section \<Rightarrow> bool" where
  "ends_or_starts (BeginGoal r) = True"
| "ends_or_starts (ResetGuard r ok) = True"
| "ends_or_starts (PrepareSend r) = True"
| "ends_or_starts (GoalResponse e h) = True"
| "ends_or_starts (GoalResult e st now) = True"
| "ends_or_starts v = False"

lemma steady_others: "\<not> ends_or_starts v \<Longrightarrow> steady k s (fst (goal_step s v))"
  by (rule steady_same; cases v)
     (simp_all add: section_defs send_goal_def split: sum.splits stage.splits option.splits list.splits bool.splits)

lemma steady_reset: "server_inv s \<Longrightarrow> steady k s (fst (reset_guard s r ok))"
proof (cases "gs_stage s r")
  case (Begun e)
  assume inv: "server_inv s"
  then have "gs_handle s = None" using owner_facts [OF inv, of r e] Begun by (simp add: server_inv_def)
  with Begun show ?thesis
    by (cases ok) (simp_all add: reset_guard_def section_defs steady_terminal goal_active_def steady_same)
qed (simp_all add: reset_guard_def steady_same)

lemma steady_prepare: "server_inv s \<Longrightarrow> steady k s (fst (prepare_send s r))"
proof (cases "gs_stage s r")
  case (Prepared e)
  assume inv: "server_inv s"
  then have "gs_handle s = None" using owner_facts [OF inv, of r e] Prepared by (simp add: server_inv_def)
  with Prepared show ?thesis
    by (simp add: prepare_send_def set_stage_def set_terminal_def steady_terminal goal_active_def steady_same)
qed (simp_all add: prepare_send_def steady_same)

lemma steady_response: "server_inv s \<Longrightarrow> steady k s (fst (goal_response s e h))"
proof (cases "e \<in> set (gs_waiting s) \<and> e = gs_epoch s")
  case True
  assume inv: "server_inv s"
  then have p: "gs_handle s = None" "gs_pending s" using True by (auto simp: server_inv_def)
  show ?thesis
  proof (cases h)
    case None
    with p True show ?thesis by (auto simp: goal_response_def note_event_def set_terminal_def Let_def goal_active_def intro!: steady_terminal)
  next
    case (Some x)
    with p True show ?thesis by (simp add: goal_response_def Let_def steady_def forward_def goal_active_def)
  qed
next
  case False
  then show ?thesis by (auto simp: goal_response_def Let_def steady_same split: option.splits)
qed

lemma step_steady: "server_inv s \<Longrightarrow> steady k s (fst (goal_step s v))"
proof (cases "ends_or_starts v")
  case True
  assume inv: "server_inv s"
  show ?thesis
  proof (cases v)
    case (BeginGoal r)
    then show ?thesis
      by (cases "gs_stage s r") (simp_all add: begin_goal_def refuse_goal_def note_event_def set_stage_def Let_def steady_same,
        simp add: steady_def forward_def goal_active_def)
  next
    case (GoalResult e st now)
    then show ?thesis
      by (simp add: goal_result_def note_event_def set_terminal_def Let_def steady_terminal goal_active_def steady_same)
  qed (use True inv in \<open>simp_all add: steady_reset steady_prepare steady_response\<close>)
qed (rule steady_others)

lemma gone_run: "server_inv s \<Longrightarrow> gone e s \<Longrightarrow> gone e (fst (run goal_step s vs))"
proof (induction vs arbitrary: s)
  case (Cons v vs)
  have "gone e (fst (goal_step s v))" using gone_forward step_steady [OF Cons.prems(1), of 0 v] Cons.prems(2) unfolding steady_def by blast
  then show ?case using Cons.IH [OF goal_step_inv [OF Cons.prems(1), of v]] by (simp add: run_Cons del: run.simps(2))
qed simp

lemma woken_run: "server_inv s \<Longrightarrow> woken_ok e k s \<Longrightarrow> woken_ok e k (fst (run goal_step s vs))"
proof (induction vs arbitrary: s)
  case (Cons v vs)
  have "woken_ok e k (fst (goal_step s v))"
    using woken_same [OF Cons.prems(2)] step_steady [OF Cons.prems(1), of k v] unfolding steady_def by blast
  then show ?case using Cons.IH [OF goal_step_inv [OF Cons.prems(1), of v]] by (simp add: run_Cons del: run.simps(2))
qed simp

text \<open>
  C2. A cancellation that is answered with success has ended the goal it was asked for: when the cancel
  service is called in a reachable state and its call is answered ok, at once or after a wait during which anything else
  may happen, even new goals, then the goal that was current at the call is no longer outstanding at Nav2.
\<close>

theorem cancel_ok_ends_the_goal:
  assumes "s = fst (run goal_step new_goal_server vs)" "s1 = fst (run goal_step s (CancelCall k # vs1))"
    "CancelReply k True \<in> set (snd (goal_step s (CancelCall k))) \<or>
     CancelReply k True \<in> set (snd (goal_step s1 (CancelWait k answer)))"
  shows "gs_epoch s \<notin> set (outstanding s1)"
proof -
  have inv: "server_inv s" unfolding assms(1) by (rule reachable_inv)
  have inv1: "server_inv s1" unfolding assms(2) by (rule goals.run_inv) (rule inv)
  have s1: "s1 = fst (run goal_step (fst (goal_step s (CancelCall k))) vs1)"
    using assms(2) by (simp add: run_Cons del: run.simps(2))
  have inv2: "server_inv (fst (goal_step s (CancelCall k)))" by (rule goal_step_inv [OF inv])
  have "gone (gs_epoch s) s1"
  proof (cases "goal_active s")
    case False
    then have "gone (gs_epoch s) (fst (goal_step s (CancelCall k)))"
      by (simp add: cancel_call_def request_cancel_def gone_def)
    then show ?thesis unfolding s1 by (rule gone_run [OF inv2])
  next
    case True
    then have "woken_ok (gs_epoch s) k (fst (goal_step s (CancelCall k)))"
      by (simp add: cancel_call_def request_cancel_def woken_ok_def)
    then have w: "woken_ok (gs_epoch s) k s1" unfolding s1 by (rule woken_run [OF inv2])
    have "CancelReply k True \<in> set (snd (cancel_wait s1 k answer))"
      using assms(3) True by (auto simp: cancel_call_def request_cancel_def split: option.splits if_splits)
    then have "gs_terminal s1 \<or> gs_cancels s1 k = Some True"
      by (auto simp: cancel_wait_def wait_result_def note_event_def Let_def split: option.splits bool.splits if_splits)
    then show ?thesis using w inv1 by (auto simp: woken_ok_def gone_def server_inv_def)
  qed
  then show ?thesis using inv1
    by (auto simp: gone_def outstanding_def server_inv_def goal_active_def handle_ok_def split: option.splits)
qed

text \<open>
  A goal that Nav2 rejects before the request is announced is lost to the route executor: the rejection
  gets an event number below the one that the request returns, so the executor, which ignores results up to
  that number, never treats the rejection as the result of its goal.
\<close>

lemma early_rejection_is_ignored:
  assumes "gs_stage s r = Sending e" "server_inv s"
  shows "\<exists>s1 os fl. run goal_step s [SendIt r, GoalResponse e None, AnnounceGoal r] = (s1, os) \<and>
    GoalAccepted r fl \<in> set os \<and> gs_text s1 = ''goal rejected'' \<and> \<not> goal_active s1 \<and> gs_result_id s1 < fl \<and>
    \<not> terminal_result_is_current False (tm_goal_active (telemetry_of s1 c f)) (tm_result (telemetry_of s1 c f))
        (tm_result_id (telemetry_of s1 c f)) fl last_id"
proof -
  have e: "e = gs_epoch s" "gs_waiting s = []" "gs_handle s = None"
    using assms owners_owner [of "gs_stage s" "gs_epoch s" "gs_pending s" "gs_waiting s" r e] by (auto simp: server_inv_def)
  show ?thesis using assms(1) e
    by (simp add: set_terminal_def send_goal_def goal_response_def announce_goal_def set_stage_def note_event_def Let_def goal_active_def
        telemetry_of_def terminal_result_is_current_def)
qed

subsection \<open>Witnesses\<close>

definition goal_sample :: "goal_section list" where
  "goal_sample = [RvizRequest 0 (Inr (fzero, fzero, fzero)), CheckRequest 0, ValidateRequest 0 True, BeginGoal 0, ResetGuard 0 True, PrepareSend 0]"

lemma goal_sample_stage: "gs_stage (fst (run goal_step new_goal_server goal_sample)) 0 = Sending 1"
  by (simp add: goal_sample_def new_goal_server_def rviz_request_def check_request_def validate_goal_def begin_goal_def reset_guard_def
      prepare_send_def set_stage_def goal_active_def projected_keepouts_contain_def action_name_def Let_def)

lemma early_rejection_is_ignored_witness:
  "\<exists>s1 os fl. run goal_step (fst (run goal_step new_goal_server goal_sample)) [SendIt 0, GoalResponse 1 None, AnnounceGoal 0] = (s1, os) \<and>
     GoalAccepted 0 fl \<in> set os \<and> gs_text s1 = ''goal rejected'' \<and> gs_result_id s1 < fl"
  using early_rejection_is_ignored [OF goal_sample_stage reachable_inv] by blast

lemma cancel_ok_ends_the_goal_witness:
  "\<exists>s1 os. run goal_step (fst (run goal_step new_goal_server goal_sample)) [CancelCall 0, SendIt 0, GoalResponse 1 None] = (s1, os) \<and>
     snd (goal_step s1 (CancelWait 0 (Some True))) = [CancelReply 0 True] \<and> outstanding s1 = []"
proof -
  let ?s = "fst (run goal_step new_goal_server goal_sample)"
  have w: "gs_stage ?s 0 = Sending 1 \<and> gs_pending ?s \<and> gs_waiting ?s = [] \<and> gs_accepting ?s = [] \<and> gs_running ?s = [] \<and> gs_epoch ?s = 1 \<and> gs_handle ?s = None"
    by (simp add: goal_sample_def new_goal_server_def rviz_request_def check_request_def validate_goal_def begin_goal_def reset_guard_def
      prepare_send_def set_stage_def goal_active_def projected_keepouts_contain_def action_name_def Let_def)
  obtain s1 os where s1: "run goal_step ?s [CancelCall 0, SendIt 0, GoalResponse 1 None] = (s1, os)" by fastforce
  have a: "snd (goal_step s1 (CancelWait 0 (Some True))) = [CancelReply 0 True]" "gs_waiting s1 = []" "gs_accepting s1 = []" "gs_running s1 = []"
    using s1 w by (auto simp: cancel_call_def request_cancel_def goal_active_def send_goal_def goal_response_def set_stage_def set_terminal_def
      note_event_def cancel_wait_def wait_result_def Let_def)
  have "gs_epoch ?s \<notin> set (outstanding s1)"
    using cancel_ok_ends_the_goal [OF refl, of s1 goal_sample 0 "[SendIt 0, GoalResponse 1 None]" "Some True"] s1 a by simp
  then show ?thesis using s1 a by (auto simp: outstanding_def)
qed

end
