(* ===== verification/Maneuver_Guard.thy ===== *)
theory Maneuver_Guard
  imports Route_Preparation
begin

section \<open>Admission of planner maneuvers\<close>

text \<open>
  \<open>salus_navigation/maneuver_guard.py\<close>: detection of loops and U turns in a planned path, the wait with a
  budget that cannot be renewed, and the projection on the path ahead. \<open>None\<close> is an exception of the float
  arithmetic (a division by zero, \<open>floor\<close> of an infinity or NaN). \<open>math.dist\<close> is the library's \<open>hypot\<close> of
  the differences.
\<close>

type_synonym xy = "pyfloat \<times> pyfloat"

definition py_pi :: pyfloat where "py_pi = Fin (884279719003555 / 281474976710656)"

record maneuver_config =
  mc_return :: pyfloat
  mc_opposing :: pyfloat
  mc_loop :: pyfloat
  mc_goal_radius :: pyfloat
  mc_wait :: pyfloat

text \<open>\<open>__post_init__\<close>: the values that are accepted.\<close>

definition maneuver_config_ok :: "maneuver_config \<Rightarrow> bool" where
  "maneuver_config_ok g \<longleftrightarrow>
     list_all (\<lambda>v. isfinite v \<and> \<not> fle v fzero) [mc_return g, mc_goal_radius g, mc_wait g] \<and>
     flt (fmul py_pi (Fin (1 / 2))) (mc_opposing g) \<and> flt (mc_opposing g) py_pi \<and>
     flt py_pi (mc_loop g) \<and> fle (mc_loop g) (fmul (Fin 2) py_pi)"

datatype maneuver_reason = NoReason | PlannerLoop | PlannerUTurn | GeometryInvalid

record maneuver_result =
  mr_reason :: maneuver_reason
  mr_turn :: pyfloat
  mr_return :: pyfloat

definition no_maneuver :: maneuver_result where
  "no_maneuver = \<lparr> mr_reason = NoReason, mr_turn = fzero, mr_return = fzero \<rparr>"

definition dist_xy :: "trig \<Rightarrow> xy \<Rightarrow> xy \<Rightarrow> pyfloat" where
  "dist_xy T p q = tg_hypot T (fsub (fst p) (fst q)) (fsub (snd p) (snd q))"

definition angle_delta :: "trig \<Rightarrow> pyfloat \<Rightarrow> pyfloat \<Rightarrow> pyfloat" where
  "angle_delta T a b = tg_atan2 T (tg_sin T (fsub a b)) (tg_cos T (fsub a b))"

subsection \<open>One leg\<close>

text \<open>The points without repetitions, and the directions between them.\<close>

fun vertices_from :: "trig \<Rightarrow> xy \<Rightarrow> xy list \<Rightarrow> xy list" where
  "vertices_from T v [] = [v]"
| "vertices_from T v (p # ps) =
     (if flt eps6 (dist_xy T v p) then v # vertices_from T p ps else vertices_from T v ps)"

definition tangent :: "trig \<Rightarrow> xy \<times> xy \<Rightarrow> pyfloat" where
  "tangent T ab = tg_atan2 T (fsub (snd (snd ab)) (snd (fst ab))) (fsub (fst (snd ab)) (fst (fst ab)))"

definition tangents :: "trig \<Rightarrow> xy list \<Rightarrow> pyfloat list" where
  "tangents T vs = map (tangent T) (zip vs (tl vs))"

definition floor_cell :: "pyfloat \<Rightarrow> pyfloat \<Rightarrow> int option" where
  "floor_cell v cell = Option.bind (fdiv v cell) (\<lambda>q. case q of Fin a \<Rightarrow> Some \<lfloor>a\<rfloor> | _ \<Rightarrow> None)"

type_synonym sectors = "((int \<times> int) \<times> (xy \<times> pyfloat)) list"

text \<open>A point visited before in this or a neighbouring cell, a full winding ago and close by.\<close>

definition loop_hit :: "trig \<Rightarrow> maneuver_config \<Rightarrow> sectors \<Rightarrow> int \<times> int \<Rightarrow> xy \<Rightarrow> pyfloat \<Rightarrow> bool" where
  "loop_hit T g seen cell p winding =
     list_ex (\<lambda>((c, r), (earlier, turn)).
         \<bar>c - fst cell\<bar> \<le> 1 \<and> \<bar>r - snd cell\<bar> \<le> 1 \<and>
         fle (mc_loop g) (fabs (fsub winding turn)) \<and> fle (dist_xy T p earlier) (mc_return g)) seen"

record winding_state =
  wd_signed :: pyfloat
  wd_high :: pyfloat
  wd_low :: pyfloat
  wd_previous :: pyfloat
  wd_seen :: sectors

text \<open>The walk along the vertices, each with its tangent: \<open>Inl\<close> where a loop is found.\<close>

fun wind :: "trig \<Rightarrow> maneuver_config \<Rightarrow> winding_state \<Rightarrow> (xy \<times> pyfloat) list \<Rightarrow> (maneuver_result + winding_state) option" where
  "wind T g w [] = Some (Inr w)"
| "wind T g w ((p, t) # rest) =
     (let winding = fadd (wd_signed w) (angle_delta T t (wd_previous w));
          high = pymax (wd_high w) winding; low = pymin (wd_low w) winding
      in Option.bind (floor_cell (fst p) (mc_return g)) (\<lambda>col.
         Option.bind (floor_cell (snd p) (mc_return g)) (\<lambda>row.
           if loop_hit T g (wd_seen w) (col, row) p winding
           then Some (Inl \<lparr> mr_reason = PlannerLoop, mr_turn = fsub high low, mr_return = fzero \<rparr>)
           else wind T g \<lparr> wd_signed = winding, wd_high = high, wd_low = low, wd_previous = t,
                  wd_seen = wd_seen w @ [((col, row), (p, winding))] \<rparr> rest)))"

text \<open>How far the path falls back along a reference direction: the loop over the projections.\<close>

fun regression_of :: "pyfloat \<Rightarrow> pyfloat \<Rightarrow> pyfloat list \<Rightarrow> pyfloat" where
  "regression_of high reg [] = reg"
| "regression_of high reg (v # vs) = regression_of (pymax high v) (pymax reg (fsub high v)) vs"

fun py_max_list :: "pyfloat \<Rightarrow> pyfloat list \<Rightarrow> pyfloat" where
  "py_max_list m [] = m"
| "py_max_list m (x # xs) = py_max_list (if flt m x then x else m) xs"

fun u_turn :: "trig \<Rightarrow> maneuver_config \<Rightarrow> xy list \<Rightarrow> pyfloat list \<Rightarrow> pyfloat \<Rightarrow> pyfloat list \<Rightarrow> maneuver_result option" where
  "u_turn T g points ts peak [] = None"
| "u_turn T g points ts peak (reference # rest) =
     (let ux = tg_cos T reference; uy = tg_sin T reference;
          projections = map (\<lambda>(x, y). fadd (fmul x ux) (fmul y uy)) points;
          regression = regression_of (hd projections) fzero projections;
          deltas = map (\<lambda>t. fabs (angle_delta T t reference)) ts;
          opposing = py_max_list (hd deltas) (tl deltas)
      in if fle (mc_return g) regression \<and> fle (mc_opposing g) opposing
         then Some \<lparr> mr_reason = PlannerUTurn, mr_turn = peak, mr_return = regression \<rparr>
         else u_turn T g points ts peak rest)"

text \<open>A leg has at least one point.\<close>

definition inspect_leg :: "trig \<Rightarrow> maneuver_config \<Rightarrow> xy list \<Rightarrow> pyfloat option \<Rightarrow> maneuver_result option" where
  "inspect_leg T g points heading =
     (let vs = vertices_from T (hd points) (tl points); ts = tangents T vs in
      if ts = [] then Some no_maneuver
      else
        Option.bind (wind T g \<lparr> wd_signed = fzero, wd_high = fzero, wd_low = fzero, wd_previous = hd ts, wd_seen = [] \<rparr>
            (zip vs (ts @ [last ts]))) (\<lambda>r.
          case r of Inl found \<Rightarrow> Some found
          | Inr w \<Rightarrow>
              (let peak = fsub (wd_high w) (wd_low w);
                   first = tangent T (hd points, last points);
                   references = (case heading of None \<Rightarrow> [first] | Some h \<Rightarrow> [first, h])
               in Some (case u_turn T g points ts peak references of
                    Some found \<Rightarrow> found
                  | None \<Rightarrow> \<lparr> mr_reason = NoReason, mr_turn = peak, mr_return = fzero \<rparr>))))"

subsection \<open>The whole path\<close>

text \<open>The first ordered entry into the region of a goal, after \<open>start\<close>.\<close>

definition goal_hit :: "trig \<Rightarrow> maneuver_config \<Rightarrow> xy list \<Rightarrow> nat \<Rightarrow> xy \<Rightarrow> nat option" where
  "goal_hit T g points start goal =
     List.find (\<lambda>i. fle (dist_xy T (points ! i) goal) (mc_goal_radius g)) [start + 1..<length points]"

fun split_legs :: "trig \<Rightarrow> maneuver_config \<Rightarrow> xy list \<Rightarrow> nat \<Rightarrow> xy list \<Rightarrow> xy list list" where
  "split_legs T g points start [] = (if start + 1 < length points then [drop start points] else [])"
| "split_legs T g points start (goal # goals) =
     (case goal_hit T g points start goal of
        None \<Rightarrow> (if start + 1 < length points then [drop start points] else [])
      | Some hit \<Rightarrow> take (hit + 1 - start) (drop start points) # split_legs T g points hit goals)"

fun inspect_legs :: "trig \<Rightarrow> maneuver_config \<Rightarrow> pyfloat option \<Rightarrow> xy list list \<Rightarrow> maneuver_result option" where
  "inspect_legs T g heading [] = Some no_maneuver"
| "inspect_legs T g heading (leg # legs) =
     Option.bind (inspect_leg T g leg heading) (\<lambda>r.
       if mr_reason r \<noteq> NoReason then Some r else inspect_legs T g None legs)"

definition inspect_maneuver ::
    "trig \<Rightarrow> maneuver_config \<Rightarrow> xy list \<Rightarrow> pyfloat \<Rightarrow> xy list \<Rightarrow> maneuver_result option" where
  "inspect_maneuver T g points robot_yaw goals =
     (if \<not> isfinite robot_yaw \<or> \<not> list_all (\<lambda>(x, y). isfinite x \<and> isfinite y) (points @ goals)
      then Some (no_maneuver \<lparr> mr_reason := GeometryInvalid \<rparr>)
      else if length points < 2 then Some no_maneuver
      else inspect_legs T g (Some robot_yaw) (split_legs T g points 0 goals))"

subsection \<open>The wait\<close>

datatype guard_outcome = Clear | WaitingReplan | GuardNeedsOperator

record maneuver_decision =
  md_state :: guard_outcome
  md_reason :: string
  md_remaining :: pyfloat

text \<open>The key of a path is a natural number here: the code only compares keys.\<close>

record maneuver_wait =
  mw_wait :: pyfloat
  mw_deadline :: "pyfloat option"
  mw_cause :: string
  mw_approved :: "nat option"
  mw_terminal :: bool

definition wait_reset :: "maneuver_wait \<Rightarrow> maneuver_wait" where
  "wait_reset w = w \<lparr> mw_deadline := None, mw_cause := [], mw_approved := None, mw_terminal := False \<rparr>"

definition wait_snapshot :: "maneuver_wait \<Rightarrow> pyfloat \<Rightarrow> maneuver_wait \<times> maneuver_decision" where
  "wait_snapshot w now =
     (case mw_deadline w of
        None \<Rightarrow> (w, \<lparr> md_state = Clear, md_reason = [], md_remaining = fzero \<rparr>)
      | Some t \<Rightarrow>
          (let w1 = (if fle t now then w \<lparr> mw_terminal := True \<rparr> else w)
           in (w1, \<lparr> md_state = (if mw_terminal w1 then GuardNeedsOperator else WaitingReplan), md_reason = mw_cause w1,
                     md_remaining = pymax fzero (fsub t now) \<rparr>)))"

record maneuver_observation =
  mo_now :: pyfloat
  mo_reason :: string
  mo_key :: "nat option"
  mo_candidate :: bool
  mo_valid :: bool

definition wait_observe :: "maneuver_wait \<Rightarrow> maneuver_observation \<Rightarrow> maneuver_wait \<times> maneuver_decision" where
  "wait_observe w0 ob =
     (let now = mo_now ob;
          w = (if (case mw_deadline w0 of None \<Rightarrow> False | Some t \<Rightarrow> fle t now) then w0 \<lparr> mw_terminal := True \<rparr> else w0)
      in if mw_terminal w then wait_snapshot w now
         else
           (let w1 = (if mo_reason ob \<noteq> [] \<and> mw_deadline w = None
                      then w \<lparr> mw_deadline := Some (fadd now (mw_wait w)), mw_cause := mo_reason ob \<rparr> else w);
                w2 = (if mw_deadline w1 = None then w1
                      else if mo_candidate ob \<and> mo_valid ob \<and> mo_reason ob = [] then w1 \<lparr> mw_approved := mo_key ob \<rparr>
                      else if \<not> mo_candidate ob \<and> mo_valid ob \<and> mo_reason ob = [] \<and> mo_key ob = mw_approved w1 \<and> mo_key ob \<noteq> None
                      then wait_reset w1 else w1)
            in wait_snapshot w2 now))"

definition guard_text :: "maneuver_decision \<Rightarrow> string" where
  "guard_text d =
     ''maneuver:'' @ (case md_state d of Clear \<Rightarrow> ''CLEAR'' | WaitingReplan \<Rightarrow> ''WAITING_REPLAN''
       | GuardNeedsOperator \<Rightarrow> ''NEEDS_OPERATOR'') @ '':'' @ md_reason d"

subsection \<open>The path ahead\<close>

record projection =
  pj_distance :: pyfloat
  pj_along :: pyfloat
  pj_segment :: nat
  pj_xy :: xy

definition project_segment ::
    "trig \<Rightarrow> square \<Rightarrow> xy \<Rightarrow> pyfloat \<Rightarrow> pyfloat \<Rightarrow> pyfloat \<Rightarrow> pyfloat \<Rightarrow> nat \<Rightarrow> xy \<times> xy \<Rightarrow>
     projection option" where
  "project_segment T sq robot progress search walked len i ab =
     (let (a, b) = ab; dx = fsub (fst b) (fst a); dy = fsub (snd b) (snd a) in
      Option.bind (fdiv (fsub progress walked) len) (\<lambda>lo.
      Option.bind (fdiv (fsub (fadd progress search) walked) len) (\<lambda>hi.
      Option.bind (sq len) (\<lambda>len2.
      Option.bind (fdiv (fadd (fmul (fsub (fst robot) (fst a)) dx) (fmul (fsub (snd robot) (snd a)) dy)) len2) (\<lambda>raw.
        let ratio = pymin (pymin (Fin 1) hi) (pymax (pymax fzero lo) raw);
            p = (fadd (fst a) (fmul ratio dx), fadd (snd a) (fmul ratio dy))
        in Some \<lparr> pj_distance = dist_xy T robot p, pj_along = fadd walked (fmul ratio len), pj_segment = i, pj_xy = p \<rparr>)))))"

fun best_projection ::
    "trig \<Rightarrow> square \<Rightarrow> xy \<Rightarrow> pyfloat \<Rightarrow> pyfloat \<Rightarrow> pyfloat \<Rightarrow> nat \<Rightarrow> projection option \<Rightarrow> (xy \<times> xy) list \<Rightarrow>
     projection option option" where
  "best_projection T sq robot progress search walked i best [] = Some best"
| "best_projection T sq robot progress search walked i best (ab # rest) =
     (let len = dist_xy T (fst ab) (snd ab) in
      if fle len eps6 then best_projection T sq robot progress search walked (Suc i) best rest
      else if fle progress (fadd walked len) \<and> fle walked (fadd progress search)
      then Option.bind (project_segment T sq robot progress search walked len i ab) (\<lambda>pj.
             best_projection T sq robot progress search (fadd walked len) (Suc i)
               (case best of None \<Rightarrow> Some pj
                | Some q \<Rightarrow> if flt (pj_distance pj) (pj_distance q) then Some pj else best) rest)
      else best_projection T sq robot progress search (fadd walked len) (Suc i) best rest)"

definition forward_suffix :: "trig \<Rightarrow> square \<Rightarrow> xy list \<Rightarrow> xy \<Rightarrow> pyfloat \<Rightarrow> pyfloat \<Rightarrow> (xy list \<times> pyfloat) option" where
  "forward_suffix T sq points robot progress search =
     map_option (\<lambda>best. case best of None \<Rightarrow> (points, progress)
         | Some pj \<Rightarrow> (pj_xy pj # drop (pj_segment pj + 1) points, pj_along pj))
       (best_projection T sq robot progress search fzero 0 None (zip points (tl points)))"

subsection \<open>Every segment is inspected\<close>

definition join_legs :: "'a list list \<Rightarrow> 'a list" where
  "join_legs legs = (case legs of [] \<Rightarrow> [] | l # ls \<Rightarrow> l @ concat (map tl ls))"

lemma goal_hit_bounds: "goal_hit T g points start goal = Some hit \<Longrightarrow> start < hit \<and> hit < length points"
  by (auto simp: goal_hit_def find_Some_iff)

lemma split_tails:
  "start < length points \<Longrightarrow> concat (map tl (split_legs T g points start goals)) = drop (start + 1) points"
proof (induction goals arbitrary: start)
  case Nil
  then show ?case by (auto simp: tl_drop drop_Suc)
next
  case (Cons goal goals)
  show ?case
  proof (cases "goal_hit T g points start goal")
    case None
    then show ?thesis using Cons.prems by (auto simp: tl_drop drop_Suc)
  next
    case (Some hit)
    then have h: "start < hit" "hit < length points" using goal_hit_bounds by auto
    then obtain k where k: "hit = start + k" by (metis less_imp_add_positive)
    have "tl (take (hit + 1 - start) (drop start points)) = take k (drop (start + 1) points)"
      by (simp add: k tl_take tl_drop drop_Suc)
    moreover have "drop (hit + 1) points = drop k (drop (start + 1) points)" by (simp add: k add.commute)
    ultimately have "tl (take (hit + 1 - start) (drop start points)) @ drop (hit + 1) points = drop (start + 1) points"
      by (simp only: append_take_drop_id)
    then show ?thesis using Some Cons.IH [OF h(2)] by simp
  qed
qed

lemma split_long: "start < length points \<Longrightarrow> list_all (\<lambda>l. 2 \<le> length l) (split_legs T g points start goals)"
proof (induction goals arbitrary: start)
  case (Cons goal goals)
  show ?case
  proof (cases "goal_hit T g points start goal")
    case (Some hit)
    then have "start < hit" "hit < length points" using goal_hit_bounds by auto
    then have "2 \<le> hit + 1 - start" "2 \<le> length points - start" by arith+
    then show ?thesis using Some \<open>hit < length points\<close> Cons.IH [of hit] by simp
  next
    case None
    then show ?thesis using Cons.prems by auto
  qed
qed auto

lemma split_hd: "start + 1 < length points \<Longrightarrow>
    \<exists>l ls. split_legs T g points start goals = l # ls \<and> l \<noteq> [] \<and> hd l = points ! start"
  by (cases goals) (auto simp: hd_drop_conv_nth split: option.splits dest: goal_hit_bounds)

lemma join_legs_split:
  assumes "start + 1 < length points"
  shows "join_legs (split_legs T g points start goals) = drop start points"
proof -
  obtain l ls where l: "split_legs T g points start goals = l # ls" "l \<noteq> []" "hd l = points ! start"
    using split_hd [OF assms] by metis
  have "join_legs (l # ls) = hd l # concat (map tl (l # ls))" using l(2) by (simp add: join_legs_def)
  also have "concat (map tl (l # ls)) = drop (start + 1) points" using split_tails [of start points T g goals] assms l(1) by simp
  finally show ?thesis using l assms by (simp add: Cons_nth_drop_Suc)
qed

subsection \<open>The wait cannot be renewed\<close>

definition wait_step :: "maneuver_wait \<Rightarrow> maneuver_observation \<Rightarrow> maneuver_wait \<times> maneuver_decision list" where
  "wait_step w ob = (let (w1, d) = wait_observe w ob in (w1, [d]))"

text \<open>The maneuver_observation by which the controller adopts the path that was approved, in time.\<close>

definition adopts :: "maneuver_wait \<Rightarrow> maneuver_observation \<Rightarrow> bool" where
  "adopts w ob \<longleftrightarrow> \<not> mo_candidate ob \<and> mo_valid ob \<and> mo_reason ob = [] \<and> mo_key ob = mw_approved w \<and> mo_key ob \<noteq> None \<and>
     \<not> mw_terminal w \<and> (case mw_deadline w of None \<Rightarrow> False | Some t \<Rightarrow> \<not> fle t (mo_now ob))"

primrec adopted :: "maneuver_wait \<Rightarrow> maneuver_observation list \<Rightarrow> bool" where
  "adopted w [] = False"
| "adopted w (ob # obs) = (adopts w ob \<or> adopted (fst (wait_step w ob)) obs)"

definition must_stop :: "pyfloat \<Rightarrow> maneuver_observation \<Rightarrow> maneuver_decision \<Rightarrow> bool" where
  "must_stop t ob d \<longleftrightarrow> md_state d \<noteq> Clear \<and> (fle t (mo_now ob) \<longrightarrow> md_state d = GuardNeedsOperator)"

lemma snapshot_kept:
  assumes "mw_deadline w = Some t" "wait_snapshot w (mo_now ob) = (w1, d)"
  shows "mw_deadline w1 = Some t \<and> must_stop t ob d \<and> (mw_terminal w \<longrightarrow> mw_terminal w1 \<and> md_state d = GuardNeedsOperator)"
proof -
  have "w1 = (if fle t (mo_now ob) then w \<lparr> mw_terminal := True \<rparr> else w)"
    "md_state d = (if mw_terminal w \<or> fle t (mo_now ob) then GuardNeedsOperator else WaitingReplan)"
    using assms by (simp_all add: wait_snapshot_def Let_def split: if_splits) auto
  then show ?thesis using assms(1) by (simp add: must_stop_def)
qed

lemma observe_over: "mw_deadline w = Some t \<Longrightarrow> mw_terminal w \<or> fle t (mo_now ob) \<Longrightarrow>
    wait_observe w ob = wait_snapshot (w \<lparr> mw_terminal := True \<rparr>) (mo_now ob)"
  by (cases "fle t (mo_now ob)"; cases w) (simp_all add: wait_observe_def Let_def)

lemma observe_open: "mw_deadline w = Some t \<Longrightarrow> \<not> mw_terminal w \<Longrightarrow> \<not> fle t (mo_now ob) \<Longrightarrow> \<not> adopts w ob \<Longrightarrow>
    \<exists>k. wait_observe w ob = wait_snapshot (w \<lparr> mw_approved := k \<rparr>) (mo_now ob)"
proof -
  assume a: "mw_deadline w = Some t" "\<not> mw_terminal w" "\<not> fle t (mo_now ob)" "\<not> adopts w ob"
  have s: "w \<lparr> mw_approved := mw_approved w \<rparr> = w" by simp
  show ?thesis
  proof (cases "mo_candidate ob \<and> mo_valid ob \<and> mo_reason ob = []")
    case True
    then show ?thesis using a by (intro exI [of _ "mo_key ob"]) (simp add: wait_observe_def)
  next
    case False
    then have "wait_observe w ob = wait_snapshot w (mo_now ob)" using a by (auto simp: wait_observe_def adopts_def)
    then show ?thesis using s by metis
  qed
qed

lemma wait_kept:
  assumes "mw_deadline w = Some t" "\<not> adopts w ob" "wait_observe w ob = (w1, d)"
  shows "mw_deadline w1 = Some t \<and> must_stop t ob d \<and> (mw_terminal w \<longrightarrow> mw_terminal w1 \<and> md_state d = GuardNeedsOperator)"
proof (cases "mw_terminal w \<or> fle t (mo_now ob)")
  case True
  then show ?thesis using snapshot_kept [of "w \<lparr> mw_terminal := True \<rparr>" t ob w1 d] observe_over [OF assms(1) True] assms by simp
next
  case False
  then obtain k where "wait_observe w ob = wait_snapshot (w \<lparr> mw_approved := k \<rparr>) (mo_now ob)"
    using observe_open [OF assms(1) _ _ assms(2)] by auto
  then show ?thesis using snapshot_kept [of "w \<lparr> mw_approved := k \<rparr>" t ob w1 d] assms False by simp
qed

lemma wait_run:
  "mw_deadline w = Some t \<Longrightarrow> \<not> adopted w obs \<Longrightarrow> run wait_step w obs = (w1, ds) \<Longrightarrow>
     mw_deadline w1 = Some t \<and> list_all2 (must_stop t) obs ds"
proof (induction obs arbitrary: w ds)
  case (Cons ob obs)
  obtain w2 d where o: "wait_observe w ob = (w2, d)" by fastforce
  then have st: "wait_step w ob = (w2, [d])" by (simp add: wait_step_def)
  have "\<not> adopts w ob" "\<not> adopted w2 obs" using Cons.prems(2) st by auto
  moreover have "run wait_step w (ob # obs) = (fst (run wait_step w2 obs), d # snd (run wait_step w2 obs))"
    using st by (simp add: run_Cons del: run.simps(2))
  then have "run wait_step w2 obs = (w1, snd (run wait_step w2 obs))" "ds = d # snd (run wait_step w2 obs)"
    using Cons.prems(3) by (auto simp: prod_eq_iff)
  ultimately show ?case using wait_kept [OF Cons.prems(1) _ o] Cons.IH [of w2 "snd (run wait_step w2 obs)"] by simp
qed simp

definition wait_over :: "maneuver_wait \<Rightarrow> bool" where
  "wait_over w \<longleftrightarrow> mw_terminal w \<and> mw_deadline w \<noteq> None"

lemma over_kept: "wait_over w \<Longrightarrow> wait_over (fst (wait_step w ob)) \<and> (\<forall>d\<in>set (snd (wait_step w ob)). md_state d = GuardNeedsOperator)"
  by (auto simp: wait_over_def wait_step_def wait_observe_def wait_snapshot_def Let_def split: if_splits)

interpretation wait_latch: latch wait_step wait_over "\<lambda>d. md_state d = GuardNeedsOperator"
  by unfold_locales (use over_kept in auto)

subsection \<open>Properties\<close>

text \<open>
  A wait has one budget: once a planner maneuver opened a wait with a deadline, then, over any sequence
  of observations in which the controller does not adopt an approved path in time, the deadline stays the
  same, no decision is clear, and every decision at or after the deadline asks for the operator, as does
  every decision after it, adoption or not.
\<close>

lemma wait_budget_fixed:
  assumes "mw_deadline w = Some t" "\<not> adopted w obs" "run wait_step w obs = (w1, ds)"
    "run wait_step w1 later = (w2, es)"
  shows "mw_deadline w1 = Some t \<and> list_all2 (must_stop t) obs ds \<and>
    (if mw_terminal w1 then list_all (\<lambda>d. md_state d = GuardNeedsOperator) es else True)"
proof -
  have k: "mw_deadline w1 = Some t \<and> list_all2 (must_stop t) obs ds" using wait_run [OF assms(1-3)] .
  then have "list_all (\<lambda>d. md_state d = GuardNeedsOperator) es" if "mw_terminal w1"
    using that wait_latch.run_out [of w1 _ later] assms(4) by (auto simp: wait_over_def list_all_iff)
  then show ?thesis using k by simp
qed

text \<open>
  Every segment of a path is inspected: the legs in which \<open>inspect_maneuver\<close> cuts a path at the
  requested visits have at least one segment each, and chained at their common points they are the path.
\<close>

lemma legs_cover_path:
  assumes "2 \<le> length points"
  shows "join_legs (split_legs T g points 0 goals) = points \<and>
    list_all (\<lambda>l. 2 \<le> length l) (split_legs T g points 0 goals)"
  using assms join_legs_split [of 0 points T g goals] split_long [of 0 points T g goals] by (cases "points = []") auto

subsection \<open>Witnesses\<close>

definition sample_wait :: maneuver_wait where
  "sample_wait = \<lparr> mw_wait = Fin 15, mw_deadline = Some (Fin 20), mw_cause = ''PLANNER_LOOP'', mw_approved = None, mw_terminal = False \<rparr>"

definition sample_observation :: "rat \<Rightarrow> maneuver_observation" where
  "sample_observation t = \<lparr> mo_now = Fin t, mo_reason = [], mo_key = Some 1, mo_candidate = False, mo_valid = True \<rparr>"

lemma wait_budget_fixed_witness:
  "map md_state (snd (run wait_step sample_wait [sample_observation 10, sample_observation 20])) = [WaitingReplan, GuardNeedsOperator]"
proof -
  let ?obs = "[sample_observation 10, sample_observation 20]"
  obtain w1 ds where r: "run wait_step sample_wait ?obs = (w1, ds)" by fastforce
  have a: "mw_deadline sample_wait = Some (Fin 20)" "\<not> adopted sample_wait ?obs"
    by (simp_all add: sample_wait_def adopted.simps adopts_def sample_observation_def wait_step_def wait_observe_def
      wait_snapshot_def)
  have l: "run wait_step w1 [] = (w1, [])" by simp
  have "list_all2 (must_stop (Fin 20)) ?obs ds" using wait_budget_fixed [OF a r l] by simp
  moreover have "map md_state ds = [WaitingReplan, GuardNeedsOperator]" using r
    by (auto simp: sample_wait_def sample_observation_def wait_step_def wait_observe_def wait_snapshot_def Let_def)
  ultimately show ?thesis using r by simp
qed

definition sample_maneuver_config :: maneuver_config where
  "sample_maneuver_config = \<lparr> mc_return = Fin 1, mc_opposing = Fin 2, mc_loop = Fin 4, mc_goal_radius = Fin 1, mc_wait = Fin 15 \<rparr>"

lemma legs_cover_path_witness:
  "join_legs (split_legs sample_trig sample_maneuver_config [(Fin 0, Fin 0), (Fin 5, Fin 0), (Fin 9, Fin 0)] 0 [(Fin 5, Fin 0)]) =
     [(Fin 0, Fin 0), (Fin 5, Fin 0), (Fin 9, Fin 0)]"
  using legs_cover_path [of "[(Fin 0, Fin 0), (Fin 5, Fin 0), (Fin 9, Fin 0)]" sample_trig sample_maneuver_config "[(Fin 5, Fin 0)]"] by simp

end
