(* ===== verification/Path_Health.thy ===== *)
theory Path_Health
  imports Maneuver_Guard Command_Arbiter
begin

section \<open>Health of the planned path\<close>

text \<open>
  \<open>salus_navigation/path_health.py\<close>: \<open>PathHealthPolicy\<close>, which samples the rest of a path on the costmap and
  decides whether to keep it, and \<open>PathHealthNode\<close>, which combines it with the admission of maneuvers. The loop
  over the samples of a segment need not end for every parameter, so the sampling is a partial function: \<open>None\<close>
  is a loop that does not end. An exception is a value; the node turns it into a stop. \<open>math.dist\<close>, \<open>hypot\<close>,
  \<open>atan2\<close>, \<open>sin\<close> and \<open>cos\<close> are the fields of a \<open>trig\<close>.
\<close>

definition path_replan :: int where "path_replan = 1"

record costmap_view =
  cm_resolution :: pyfloat
  cm_width :: int
  cm_height :: int
  cm_origin :: xy
  cm_stamp :: pyfloat
  cm_data :: "int list"

record health_result =
  hr_state :: int
  hr_reason :: string
  hr_age :: pyfloat
  hr_max :: int
  hr_checked :: int
  hr_error :: pyfloat
  hr_far :: "xy option"

definition health :: "int \<Rightarrow> string \<Rightarrow> pyfloat \<Rightarrow> int \<Rightarrow> int \<Rightarrow> pyfloat \<Rightarrow> health_result" where
  "health state reason age maximum checked error =
     \<lparr> hr_state = state, hr_reason = reason, hr_age = age, hr_max = maximum, hr_checked = checked, hr_error = error, hr_far = None \<rparr>"

subsection \<open>Geometry\<close>

text \<open>\<open>round(x, 2)\<close>: the nearest multiple of 1/100, ties to even, as a float; infinities and NaN are kept.\<close>

definition round2 :: "pyfloat \<Rightarrow> pyfloat" where
  "round2 x = (case x of Fin a \<Rightarrow> fl (of_int (rne (a * 100)) / 100) | _ \<Rightarrow> x)"

type_synonym signature = "string \<times> nat \<times> xy list"

definition path_signature :: "string \<Rightarrow> xy list \<Rightarrow> signature" where
  "path_signature frame ps =
     (frame, length ps, if ps = [] then []
      else map (\<lambda>(x, y). (round2 x, round2 y)) [hd ps, ps ! (length ps div 2), last ps])"

text \<open>Equality of the tuples compares floats, so a NaN differs from itself.\<close>

definition same_signature :: "signature \<Rightarrow> signature \<Rightarrow> bool" where
  "same_signature a b \<longleftrightarrow> fst a = fst b \<and> fst (snd a) = fst (snd b) \<and>
     list_all2 (\<lambda>p q. feq (fst p) (fst q) \<and> feq (snd p) (snd q)) (snd (snd a)) (snd (snd b))"

definition segment_distance :: "trig \<Rightarrow> xy \<Rightarrow> xy \<Rightarrow> xy \<Rightarrow> (pyfloat \<times> pyfloat) option" where
  "segment_distance T p a b =
     (let dx = fsub (fst b) (fst a); dy = fsub (snd b) (snd a); len2 = fadd (fmul dx dx) (fmul dy dy) in
      if fle len2 (fl (1 / 10 ^ 9)) then Some (tg_hypot T (fsub (fst p) (fst a)) (fsub (snd p) (snd a)), fzero)
      else
        map_option (\<lambda>q.
            let ratio = pymax fzero (pymin (Fin 1) q)
            in (tg_hypot T (fsub (fst p) (fadd (fst a) (fmul ratio dx))) (fsub (snd p) (fadd (snd a) (fmul ratio dy))), ratio))
          (fdiv (fadd (fmul (fsub (fst p) (fst a)) dx) (fmul (fsub (snd p) (snd a)) dy)) len2))"

fun track_error :: "trig \<Rightarrow> xy \<Rightarrow> pyfloat \<times> pyfloat \<times> pyfloat \<Rightarrow> (xy \<times> xy) list \<Rightarrow> (pyfloat \<times> pyfloat) option" where
  "track_error T p (best, progress, walked) [] = Some (best, progress)"
| "track_error T p (best, progress, walked) ((a, b) # rest) =
     (let len = tg_hypot T (fsub (fst b) (fst a)) (fsub (snd b) (snd a)) in
      Option.bind (segment_distance T p a b) (\<lambda>(distance, ratio).
        track_error T p (if flt distance best then (distance, fadd walked (fmul ratio len), fadd walked len)
                         else (best, progress, fadd walked len)) rest))"

definition cross_track_error :: "trig \<Rightarrow> xy list \<Rightarrow> xy \<Rightarrow> (pyfloat \<times> pyfloat) option" where
  "cross_track_error T ps p =
     (if length ps < 2 then Some (fzero, fzero) else track_error T p (PInf, fzero, fzero) (zip ps (tl ps)))"

subsection \<open>The policy\<close>

record path_policy =
  pp_max_distance :: pyfloat
  pp_step :: pyfloat
  pp_high :: int
  pp_lethal :: int
  pp_high_samples :: nat
  pp_replan :: pyfloat
  pp_recover :: pyfloat
  pp_confirmations :: nat
  pp_cooldown :: pyfloat
  pp_costmap_timeout :: pyfloat
  pp_progress_timeout :: pyfloat
  pp_near :: pyfloat
  pp_persistence :: pyfloat

text \<open>The parameters that the constructor accepts, and those of the node: the others keep their defaults.\<close>

definition policy_ok :: "path_policy \<Rightarrow> bool" where
  "policy_ok P \<longleftrightarrow> isfinite (pp_max_distance P) \<and> \<not> fle (pp_max_distance P) fzero \<and>
     flt fzero (pp_near P) \<and> flt (pp_near P) (pp_max_distance P) \<and>
     isfinite (pp_persistence P) \<and> \<not> fle (pp_persistence P) fzero"

definition node_policy :: "pyfloat \<Rightarrow> pyfloat \<Rightarrow> pyfloat \<Rightarrow> pyfloat \<Rightarrow> path_policy" where
  "node_policy max_distance timeout near persistence =
     \<lparr> pp_max_distance = max_distance, pp_step = Fin (1 / 4), pp_high = 100, pp_lethal = 253, pp_high_samples = 3,
       pp_replan = fl (9 / 10), pp_recover = fl (6 / 10), pp_confirmations = 3, pp_cooldown = Fin (3 / 2),
       pp_costmap_timeout = timeout, pp_progress_timeout = Fin 5, pp_near = near, pp_persistence = persistence \<rparr>"

record policy_state =
  ps_cross :: nat
  ps_last_replan :: pyfloat
  ps_signature :: "signature option"
  ps_best :: pyfloat
  ps_progress_at :: pyfloat
  ps_far_since :: "pyfloat option"
  ps_far_stamp :: "pyfloat option"
  ps_far_count :: nat
  ps_far_xy :: "xy option"
  ps_keepout :: "int option"

definition new_policy_state :: policy_state where
  "new_policy_state = \<lparr> ps_cross = 0, ps_last_replan = NInf, ps_signature = None, ps_best = fzero, ps_progress_at = fzero,
     ps_far_since = None, ps_far_stamp = None, ps_far_count = 0, ps_far_xy = None, ps_keepout = None \<rparr>"

definition reset_far :: "policy_state \<Rightarrow> policy_state" where
  "reset_far s = s \<lparr> ps_far_since := None, ps_far_stamp := None, ps_far_count := 0, ps_far_xy := None \<rparr>"

subsection \<open>Samples\<close>

text \<open>\<open>None\<close> is an exception: a division by zero, the floor of an infinity or NaN, an index out of range.\<close>

definition cell_cost :: "costmap_view \<Rightarrow> xy \<Rightarrow> int option" where
  "cell_cost m p =
     Option.bind (floor_cell (fsub (fst p) (fst (cm_origin m))) (cm_resolution m)) (\<lambda>col.
     Option.bind (floor_cell (fsub (snd p) (snd (cm_origin m))) (cm_resolution m)) (\<lambda>row.
       if \<not> (0 \<le> col \<and> col < cm_width m \<and> 0 \<le> row \<and> row < cm_height m) then Some 0
       else if nat (row * cm_width m + col) < length (cm_data m) then Some (cm_data m ! nat (row * cm_width m + col))
       else None))"

definition corners :: "xy list" where
  "corners = [(fzero, fzero), (fl (105 / 100), fl (38 / 100)), (fl (105 / 100), fl (- 38 / 100)),
     (fl (- 12 / 100), fl (- 38 / 100)), (fl (- 12 / 100), fl (38 / 100))]"

definition corner_at :: "xy \<Rightarrow> pyfloat \<Rightarrow> pyfloat \<Rightarrow> xy \<Rightarrow> xy" where
  "corner_at p c s d =
     (fsub (fadd (fst p) (fmul (fst d) c)) (fmul (snd d) s), fadd (fadd (snd p) (fmul (fst d) s)) (fmul (snd d) c))"

fun max_cost :: "costmap_view \<Rightarrow> xy list \<Rightarrow> int option \<Rightarrow> int option" where
  "max_cost m [] best = best"
| "max_cost m (p # ps) best =
     Option.bind (cell_cost m p) (\<lambda>c. max_cost m ps (Some (case best of None \<Rightarrow> c | Some b \<Rightarrow> max b c)))"

definition footprint_cost :: "trig \<Rightarrow> costmap_view \<Rightarrow> xy \<Rightarrow> pyfloat \<Rightarrow> int option" where
  "footprint_cost T m p yaw = max_cost m (map (corner_at p (tg_cos T yaw) (tg_sin T yaw)) corners) None"

record path_segment =
  sg_from :: xy
  sg_dx :: pyfloat
  sg_dy :: pyfloat
  sg_length :: pyfloat
  sg_yaw :: pyfloat

definition segment_of :: "trig \<Rightarrow> xy \<times> xy \<Rightarrow> path_segment" where
  "segment_of T ab =
     (let (a, b) = ab; dx = fsub (fst b) (fst a); dy = fsub (snd b) (snd a)
      in \<lparr> sg_from = a, sg_dx = dx, sg_dy = dy, sg_length = tg_hypot T dx dy, sg_yaw = tg_atan2 T dy dx \<rparr>)"

definition sample_cost :: "trig \<Rightarrow> costmap_view \<Rightarrow> path_segment \<Rightarrow> pyfloat \<Rightarrow> (xy \<times> int) option" where
  "sample_cost T m g distance =
     Option.bind (fdiv distance (sg_length g)) (\<lambda>ratio.
       let p = (fadd (fst (sg_from g)) (fmul ratio (sg_dx g)), fadd (snd (sg_from g)) (fmul ratio (sg_dy g)))
       in map_option (\<lambda>c. (p, c)) (footprint_cost T m p (sg_yaw g)))"

text \<open>The variables of the scan; a far obstacle was observed when it has a place.\<close>

record scan =
  sc_max :: int
  sc_checked :: int
  sc_sustained :: nat
  sc_far :: "xy option"
  sc_remaining :: pyfloat

definition first_far :: "xy \<Rightarrow> bool \<Rightarrow> xy option \<Rightarrow> xy option" where
  "first_far p b far = (if b \<and> far = None then Some p else far)"

text \<open>The body of the loop: \<open>Inl\<close> rejects the path.\<close>

definition inspect_sample :: "path_policy \<Rightarrow> bool \<Rightarrow> xy \<times> int \<Rightarrow> scan \<Rightarrow> (string \<times> scan) + scan" where
  "inspect_sample P tracked sample sc =
     (let (p, cost) = sample;
          s1 = sc \<lparr> sc_max := max (sc_max sc) cost, sc_checked := sc_checked sc + 1 \<rparr>;
          near = (\<not> tracked \<or> fle (fsub (pp_max_distance P) (sc_remaining sc)) (pp_near P)) in
      if pp_lethal P \<le> cost \<and> near then Inl (''path_collision'', s1)
      else
        (let s2 = s1 \<lparr> sc_far := first_far p (pp_lethal P \<le> cost) (sc_far s1),
                sc_sustained := (if pp_high P \<le> cost then sc_sustained s1 + 1 else 0) \<rparr>;
             high = (pp_high_samples P \<le> sc_sustained s2) in
         if high \<and> near then Inl (''clearance_degraded'', s2)
         else Inr (s2 \<lparr> sc_far := first_far p high (sc_far s2), sc_remaining := fsub (sc_remaining s2) (pp_step P) \<rparr>)))"

datatype scan_outcome = Raised | Rejected string scan | Scanned scan

partial_function (option) scan_segment ::
    "trig \<Rightarrow> path_policy \<Rightarrow> bool \<Rightarrow> costmap_view \<Rightarrow> path_segment \<Rightarrow> pyfloat \<Rightarrow> scan \<Rightarrow> scan_outcome option" where
  "scan_segment T P tracked m g distance sc =
     (if fle distance (sg_length g) \<and> fle fzero (sc_remaining sc)
      then (case sample_cost T m g distance of
              None \<Rightarrow> Some Raised
            | Some sample \<Rightarrow>
                (case inspect_sample P tracked sample sc of
                   Inl (why, s1) \<Rightarrow> Some (Rejected why s1)
                 | Inr s1 \<Rightarrow> scan_segment T P tracked m g (fadd distance (pp_step P)) s1))
      else Some (Scanned sc))"

fun scan_path ::
    "trig \<Rightarrow> path_policy \<Rightarrow> bool \<Rightarrow> costmap_view \<Rightarrow> pyfloat \<Rightarrow> pyfloat \<Rightarrow> scan \<Rightarrow> path_segment list \<Rightarrow> scan_outcome option" where
  "scan_path T P tracked m progress walked sc [] = Some (Scanned sc)"
| "scan_path T P tracked m progress walked sc (g # gs) =
     (if fle (sg_length g) eps6 then scan_path T P tracked m progress walked sc gs
      else
        Option.bind (scan_segment T P tracked m g (pymax fzero (fsub progress walked)) sc) (\<lambda>r.
          case r of
            Scanned s1 \<Rightarrow>
              if flt (sc_remaining s1) fzero then Some (Scanned s1)
              else scan_path T P tracked m progress (fadd walked (sg_length g)) s1 gs
          | _ \<Rightarrow> Some r))"

definition path_segments :: "trig \<Rightarrow> xy list \<Rightarrow> path_segment list" where
  "path_segments T ps = map (segment_of T) (zip ps (tl ps))"

definition new_scan :: "path_policy \<Rightarrow> scan" where
  "new_scan P = \<lparr> sc_max = 0, sc_checked = 0, sc_sustained = 0, sc_far = None, sc_remaining = pp_max_distance P \<rparr>"

text \<open>\<open>_evaluate_geometry\<close>: the inner \<open>None\<close> is an exception.\<close>

definition evaluate_geometry ::
    "trig \<Rightarrow> path_policy \<Rightarrow> bool \<Rightarrow> costmap_view \<Rightarrow> xy list \<Rightarrow> pyfloat \<Rightarrow> pyfloat \<Rightarrow> pyfloat \<Rightarrow> health_result option option" where
  "evaluate_geometry T P tracked m ps progress error age =
     map_option (\<lambda>r.
         case r of
           Raised \<Rightarrow> None
         | Rejected why s \<Rightarrow> Some (health path_replan why age (sc_max s) (sc_checked s) error)
         | Scanned s \<Rightarrow>
             Some (health path_keep (if sc_far s \<noteq> None then ''far_obstacle_observed'' else ''path_healthy'')
                age (sc_max s) (sc_checked s) error \<lparr> hr_far := sc_far s \<rparr>))
       (scan_path T P tracked m progress fzero (new_scan P) (path_segments T ps))"

subsection \<open>Evaluation of a path\<close>

definition note_progress :: "policy_state \<Rightarrow> signature \<Rightarrow> pyfloat \<Rightarrow> pyfloat \<Rightarrow> policy_state" where
  "note_progress s signature progress now =
     (if (case ps_signature s of None \<Rightarrow> True | Some old \<Rightarrow> \<not> same_signature signature old)
      then reset_far (s \<lparr> ps_signature := Some signature, ps_best := progress, ps_progress_at := now, ps_cross := 0 \<rparr>)
      else if flt (fadd (ps_best s) (fl (5 / 100))) progress then s \<lparr> ps_best := progress, ps_progress_at := now \<rparr>
      else s)"

definition note_cross :: "path_policy \<Rightarrow> policy_state \<Rightarrow> pyfloat \<Rightarrow> policy_state" where
  "note_cross P s error =
     (if fle (pp_replan P) error then s \<lparr> ps_cross := ps_cross s + 1 \<rparr>
      else if fle error (pp_recover P) then s \<lparr> ps_cross := 0 \<rparr> else s)"

definition note_far ::
    "trig \<Rightarrow> path_policy \<Rightarrow> policy_state \<Rightarrow> health_result \<Rightarrow> pyfloat \<Rightarrow> pyfloat \<Rightarrow> policy_state \<times> health_result" where
  "note_far T P s geometry stamp now =
     (case (if hr_reason geometry = ''far_obstacle_observed'' then hr_far geometry else None) of
        None \<Rightarrow> (reset_far s, geometry)
      | Some q \<Rightarrow>
          (let moved = (case ps_far_xy s of None \<Rightarrow> False
                 | Some p \<Rightarrow> flt (Fin 1) (tg_hypot T (fsub (fst q) (fst p)) (fsub (snd q) (snd p))));
               s1 = (if moved then reset_far s else s);
               s2 = (if ps_far_since s1 = None then s1 \<lparr> ps_far_since := Some now, ps_far_xy := Some q \<rparr> else s1);
               s3 = (if (case ps_far_stamp s2 of None \<Rightarrow> True | Some t \<Rightarrow> \<not> feq t stamp)
                     then s2 \<lparr> ps_far_stamp := Some stamp, ps_far_count := ps_far_count s2 + 1 \<rparr> else s2)
           in (s3, if 2 \<le> ps_far_count s3 \<and>
                      (case ps_far_since s3 of None \<Rightarrow> False | Some t \<Rightarrow> fle (pp_persistence P) (fsub now t))
                   then health path_replan ''far_obstacle_persistent'' (hr_age geometry) (hr_max geometry)
                          (hr_checked geometry) (hr_error geometry)
                   else geometry)))"

definition judge :: "path_policy \<Rightarrow> policy_state \<Rightarrow> health_result \<Rightarrow> pyfloat \<Rightarrow> policy_state \<times> health_result" where
  "judge P s geometry now =
     (let replan = (\<lambda>why. (s \<lparr> ps_last_replan := now \<rparr>,
            health path_replan why (hr_age geometry) (hr_max geometry) (hr_checked geometry) (hr_error geometry))) in
      if hr_state geometry = path_replan then (s \<lparr> ps_last_replan := now \<rparr>, geometry)
      else if fle (pp_cooldown P) (fsub now (ps_last_replan s))
      then (if pp_confirmations P \<le> ps_cross s then replan ''cross_track_error''
            else if fle (pp_progress_timeout P) (fsub now (ps_progress_at s)) then replan ''progress_stalled''
            else (s, geometry))
      else (s, geometry))"

record path_query =
  pq_frame :: string
  pq_path :: "xy list"
  pq_robot :: xy
  pq_costmap :: "costmap_view option"
  pq_now :: pyfloat
  pq_tf :: bool
  pq_tracked :: bool
  pq_revision :: "int option"

text \<open>The projected keepouts changed since the last evaluation of the active path.\<close>

definition revision_changed :: "policy_state \<Rightarrow> path_query \<Rightarrow> bool" where
  "revision_changed s q \<longleftrightarrow> pq_tracked q \<and> pq_revision q \<noteq> None \<and> ps_keepout s \<noteq> None \<and> pq_revision q \<noteq> ps_keepout s"

definition note_revision :: "policy_state \<Rightarrow> path_query \<Rightarrow> policy_state" where
  "note_revision s q = (if pq_tracked q \<and> pq_revision q \<noteq> None then s \<lparr> ps_keepout := pq_revision q \<rparr> else s)"

definition conclude ::
    "trig \<Rightarrow> path_policy \<Rightarrow> policy_state \<Rightarrow> path_query \<Rightarrow> costmap_view \<Rightarrow> health_result option \<Rightarrow> policy_state \<times> health_result option" where
  "conclude T P s q m r =
     (case r of
        None \<Rightarrow> (s, None)
      | Some geometry \<Rightarrow>
          (let (s1, g1) = note_far T P s geometry (cm_stamp m) (pq_now q); (s2, g2) = judge P s1 g1 (pq_now q)
           in (s2, Some g2)))"

text \<open>What follows when the costmap is fresh and the path has a segment.\<close>

definition evaluate_sampled ::
    "trig \<Rightarrow> path_policy \<Rightarrow> policy_state \<Rightarrow> path_query \<Rightarrow> costmap_view \<Rightarrow> pyfloat \<Rightarrow>
     (policy_state \<times> health_result option) option" where
  "evaluate_sampled T P s q m age =
     (case cross_track_error T (pq_path q) (pq_robot q) of
        None \<Rightarrow> Some (s, None)
      | Some (error, progress) \<Rightarrow>
          if \<not> pq_tracked q
          then map_option (\<lambda>r. (s, r)) (evaluate_geometry T P False m (pq_path q) progress error age)
          else
            (let s2 = note_cross P (note_progress s (path_signature (pq_frame q) (pq_path q)) progress (pq_now q)) error in
             map_option (conclude T P s2 q m) (evaluate_geometry T P True m (pq_path q) progress error age)))"

definition costmap_age :: "path_query \<Rightarrow> costmap_view \<Rightarrow> pyfloat" where
  "costmap_age q m = pymax fzero (fsub (pq_now q) (cm_stamp m))"

definition evaluate_path ::
    "trig \<Rightarrow> path_policy \<Rightarrow> policy_state \<Rightarrow> path_query \<Rightarrow> (policy_state \<times> health_result option) option" where
  "evaluate_path T P s q =
     (let stop = (\<lambda>why age. Some (if pq_tracked q then reset_far s else s, Some (health path_stop_and_wait why age 0 0 fzero))) in
      if \<not> pq_tf q then stop ''tf_unavailable'' PInf
      else case pq_costmap q of
        None \<Rightarrow> stop ''costmap_unavailable'' PInf
      | Some m \<Rightarrow>
          (if flt (pp_costmap_timeout P) (costmap_age q m) then stop ''costmap_stale'' (costmap_age q m)
           else if length (pq_path q) < 2 then Some (s, Some (health path_replan ''path_too_short'' (costmap_age q m) 0 0 fzero))
           else if revision_changed s q
           then Some (reset_far (note_revision s q), Some (health path_replan ''keepout_revision_changed'' (costmap_age q m) 0 0 fzero))
           else evaluate_sampled T P (note_revision s q) q m (costmap_age q m)))"

subsection \<open>The node\<close>

text \<open>The transform of the base in the frame of the path; \<open>None\<close> is an exception of the lookup.\<close>

record base_transform =
  bt_sec :: int
  bt_nanosec :: int
  bt_xy :: xy
  bt_rotation :: "pyfloat \<times> pyfloat \<times> pyfloat \<times> pyfloat"

datatype query_context = ActivePath | CandidatePath | ResetGuardContext

text \<open>The number of a path is equal for two requests with the same frame and points.\<close>

record path_request =
  rq_context :: query_context
  rq_frame :: string
  rq_points :: "xy list"
  rq_goals :: "xy list"
  rq_key :: nat
  rq_now :: pyfloat
  rq_monotonic :: pyfloat
  rq_transform :: "base_transform option"

record path_node =
  pn_wait :: maneuver_wait
  pn_key :: "nat option"
  pn_progress :: pyfloat
  pn_costmap :: "(string \<times> costmap_view) option"
  pn_revision :: "int option"
  pn_policy :: policy_state

record path_env =
  pe_trig :: trig
  pe_square :: square
  pe_config :: maneuver_config
  pe_policy :: path_policy
  pe_tf_timeout :: pyfloat
  pe_search :: pyfloat

definition new_path_node :: "path_env \<Rightarrow> path_node" where
  "new_path_node E =
     \<lparr> pn_wait = \<lparr> mw_wait = mc_wait (pe_config E), mw_deadline = None, mw_cause = [], mw_approved = None, mw_terminal = False \<rparr>,
       pn_key = None, pn_progress = fzero, pn_costmap = None, pn_revision = None, pn_policy = new_policy_state \<rparr>"

definition transform_age :: "base_transform \<Rightarrow> pyfloat \<Rightarrow> pyfloat" where
  "transform_age t now =
     pymax fzero (fsub (fsub now (Fin (of_int (bt_sec t)))) (fmul (Fin (of_int (bt_nanosec t))) (fl (1 / 10 ^ 9))))"

definition robot_yaw :: "trig \<Rightarrow> square \<Rightarrow> base_transform \<Rightarrow> pyfloat option" where
  "robot_yaw T sq t =
     (let (x, y, z, w) = bt_rotation t in
      Option.bind (sq y) (\<lambda>y2. map_option (\<lambda>z2.
          tg_atan2 T (fmul (Fin 2) (fadd (fmul w z) (fmul x y))) (fsub (Fin 1) (fmul (Fin 2) (fadd y2 z2)))) (sq z)))"

text \<open>
  The body of the \<open>try\<close>: the state it leaves, the maneuver and the key when they were computed, and the result;
  \<open>None\<close> there is an exception. The outer \<open>None\<close> is a loop that does not end.
\<close>

type_synonym inspection = "path_node \<times> maneuver_result option \<times> nat option \<times> health_result option"

definition inspected :: "path_env \<Rightarrow> path_node \<Rightarrow> path_request \<Rightarrow> xy \<Rightarrow> maneuver_result \<Rightarrow> inspection option" where
  "inspected E s q p found =
     map_option (\<lambda>(ps, r). (s \<lparr> pn_policy := ps \<rparr>, Some found, Some (rq_key q),
         map_option (\<lambda>h. if rq_context q = CandidatePath \<and> hr_state h \<noteq> path_keep
            then health path_stop_and_wait (''candidate_invalid:'' @ hr_reason h) (hr_age h) (hr_max h) (hr_checked h) (hr_error h)
            else h) r))
       (evaluate_path (pe_trig E) (pe_policy E) (pn_policy s)
          \<lparr> pq_frame = rq_frame q, pq_path = rq_points q, pq_robot = p, pq_costmap = map_option snd (pn_costmap s),
            pq_now = rq_now q, pq_tf = True, pq_tracked = (rq_context q = ActivePath), pq_revision = pn_revision s \<rparr>)"

text \<open>An active path with another key starts again from zero; only an active path is cut at the robot.\<close>

definition rekey :: "path_node \<Rightarrow> path_request \<Rightarrow> path_node" where
  "rekey s q =
     (if rq_context q = ActivePath \<and> pn_key s \<noteq> Some (rq_key q) then s \<lparr> pn_key := Some (rq_key q), pn_progress := fzero \<rparr> else s)"

definition path_ahead :: "path_env \<Rightarrow> path_node \<Rightarrow> path_request \<Rightarrow> base_transform \<Rightarrow> (xy list \<times> pyfloat) option" where
  "path_ahead E s q t =
     (if rq_context q = ActivePath
      then forward_suffix (pe_trig E) (pe_square E) (rq_points q) (bt_xy t) (pn_progress s) (pe_search E)
      else Some (rq_points q, pn_progress s))"

definition inspect_path :: "path_env \<Rightarrow> path_node \<Rightarrow> path_request \<Rightarrow> inspection option" where
  "inspect_path E s q =
     (case rq_transform q of
        None \<Rightarrow> Some (s, None, None, None)
      | Some t \<Rightarrow>
          if flt (pe_tf_timeout E) (transform_age t (rq_now q)) then Some (s, None, None, None)
          else case robot_yaw (pe_trig E) (pe_square E) t of
            None \<Rightarrow> Some (s, None, None, None)
          | Some yaw \<Rightarrow>
              (case path_ahead E (rekey s q) q t of
                 None \<Rightarrow> Some (rekey s q, None, Some (rq_key q), None)
               | Some (remaining, progress) \<Rightarrow>
                   (let s2 = (rekey s q) \<lparr> pn_progress := progress \<rparr> in
                    case inspect_maneuver (pe_trig E) (pe_config E) remaining yaw (rq_goals q) of
                      None \<Rightarrow> Some (s2, None, Some (rq_key q), None)
                    | Some found \<Rightarrow> inspected E s2 q (bt_xy t) found)))"

definition node_reset_far :: "path_request \<Rightarrow> path_node \<Rightarrow> path_node" where
  "node_reset_far q s = (if rq_context q = ActivePath then s \<lparr> pn_policy := reset_far (pn_policy s) \<rparr> else s)"

definition node_result :: "path_env \<Rightarrow> path_node \<Rightarrow> path_request \<Rightarrow> inspection option" where
  "node_result E s q =
     (if length (rq_points q) < 2 then Some (s, None, None, Some (health path_replan ''path_missing'' fzero 0 0 fzero))
      else if rq_frame q = [] then Some (node_reset_far q s, None, None, Some (health path_stop_and_wait ''path_frame_missing'' PInf 0 0 fzero))
      else if (case pn_costmap s of None \<Rightarrow> False | Some (frame, m) \<Rightarrow> rq_frame q \<noteq> frame)
      then Some (node_reset_far q s, None, None, Some (health path_stop_and_wait ''costmap_frame_mismatch'' PInf 0 0 fzero))
      else
        map_option (\<lambda>(s1, found, key, r).
            case r of
              Some h \<Rightarrow> (s1, found, key, Some h)
            | None \<Rightarrow> (node_reset_far q s1, found, key, Some (health path_stop_and_wait ''tf_unavailable:'' PInf 0 0 fzero)))
          (inspect_path E s q))"

text \<open>A message of the node: published or answered, its state, its reason and what is left of the wait.\<close>

datatype health_output = Published int string pyfloat | Answered int string pyfloat

fun reason_code :: "maneuver_reason \<Rightarrow> string" where
  "reason_code NoReason = []"
| "reason_code PlannerLoop = ''PLANNER_LOOP''"
| "reason_code PlannerUTurn = ''PLANNER_U_TURN''"
| "reason_code GeometryInvalid = ''MANEUVER_GEOMETRY_INVALID''"

definition found_reason :: "maneuver_result option \<Rightarrow> string" where
  "found_reason found = (case found of None \<Rightarrow> [] | Some r \<Rightarrow> reason_code (mr_reason r))"

definition answer_path :: "path_request \<Rightarrow> path_node \<times> maneuver_result option \<times> nat option \<times> health_result \<Rightarrow> path_node \<times> health_output list" where
  "answer_path q x =
     (let (s, found, key, r) = x;
          candidate = (rq_context q = CandidatePath);
          admissible = (hr_state r = path_keep);
          (w, d) = wait_observe (pn_wait s) \<lparr> mo_now = rq_monotonic q, mo_reason = found_reason found, mo_key = key,
                     mo_candidate = candidate, mo_valid = admissible \<rparr>;
          stopped = (path_stop_and_wait, guard_text d);
          own = (hr_state r, hr_reason r);
          published = (if md_state d = Clear then own else stopped);
          answered = (if md_state d = Clear then own
                      else if candidate \<and> admissible \<and> found \<noteq> None \<and> found_reason found = [] \<and> md_state d = WaitingReplan then own
                      else stopped)
      in (s \<lparr> pn_wait := w \<rparr>, [Published (fst published) (snd published) (md_remaining d),
            Answered (fst answered) (snd answered) (md_remaining d)]))"

definition on_evaluate :: "path_env \<Rightarrow> path_node \<Rightarrow> path_request \<Rightarrow> (path_node \<times> health_output list) option" where
  "on_evaluate E s q =
     (if rq_context q = ResetGuardContext
      then Some (s \<lparr> pn_wait := wait_reset (pn_wait s), pn_key := None, pn_progress := fzero \<rparr>,
             [Published path_stop_and_wait ''new_goal_pending_path'' fzero, Answered path_stop_and_wait ''new_goal_pending_path'' fzero])
      else
        Option.bind (node_result E s q) (\<lambda>(s1, found, key, r).
          map_option (\<lambda>h. answer_path q (s1, found, key, h)) r))"

definition tick_wait :: "path_node \<Rightarrow> pyfloat \<Rightarrow> path_node \<times> health_output list" where
  "tick_wait s now =
     (let (w, d) = wait_snapshot (pn_wait s) now
      in (s \<lparr> pn_wait := w \<rparr>, if md_state d = Clear then [] else [Published path_stop_and_wait (guard_text d) (md_remaining d)]))"

datatype path_event =
    EvaluateRequest path_request
  | CostmapReceived string costmap_view
  | KeepoutsReceived int
  | WaitTick pyfloat

fun path_step :: "path_env \<Rightarrow> path_node \<Rightarrow> path_event \<Rightarrow> (path_node \<times> health_output list) option" where
  "path_step E s (EvaluateRequest q) = on_evaluate E s q"
| "path_step E s (CostmapReceived frame m) = Some (s \<lparr> pn_costmap := Some (frame, m) \<rparr>, [])"
| "path_step E s (KeepoutsReceived r) = Some (s \<lparr> pn_revision := Some r \<rparr>, [])"
| "path_step E s (WaitTick now) = Some (tick_wait s now)"

subsection \<open>The samples of a path\<close>

text \<open>
  The samples that a complete scan visits, computed without the costmap: each with its segment, its place on
  the segment and the distance that remained to be inspected.
\<close>

type_synonym path_sample = "path_segment \<times> pyfloat \<times> pyfloat"

partial_function (option) segment_samples ::
    "path_policy \<Rightarrow> path_segment \<Rightarrow> pyfloat \<Rightarrow> pyfloat \<Rightarrow> (path_sample list \<times> pyfloat) option" where
  "segment_samples P g distance remaining =
     (if fle distance (sg_length g) \<and> fle fzero remaining
      then Option.bind (segment_samples P g (fadd distance (pp_step P)) (fsub remaining (pp_step P))) (\<lambda>(xs, r).
             Some ((g, distance, remaining) # xs, r))
      else Some ([], remaining))"

fun path_samples :: "path_policy \<Rightarrow> pyfloat \<Rightarrow> pyfloat \<Rightarrow> pyfloat \<Rightarrow> path_segment list \<Rightarrow> path_sample list option" where
  "path_samples P progress walked remaining [] = Some []"
| "path_samples P progress walked remaining (g # gs) =
     (if fle (sg_length g) eps6 then path_samples P progress walked remaining gs
      else
        Option.bind (segment_samples P g (pymax fzero (fsub progress walked)) remaining) (\<lambda>(xs, r).
          if flt r fzero then Some xs
          else map_option ((@) xs) (path_samples P progress (fadd walked (sg_length g)) r gs)))"

fun scan_list :: "trig \<Rightarrow> path_policy \<Rightarrow> bool \<Rightarrow> costmap_view \<Rightarrow> scan \<Rightarrow> path_sample list \<Rightarrow> scan_outcome" where
  "scan_list T P tracked m sc [] = Scanned sc"
| "scan_list T P tracked m sc ((g, distance, remaining) # xs) =
     (case sample_cost T m g distance of
        None \<Rightarrow> Raised
      | Some sample \<Rightarrow>
          (case inspect_sample P tracked sample sc of
             Inl (why, s1) \<Rightarrow> Rejected why s1
           | Inr s1 \<Rightarrow> scan_list T P tracked m s1 xs))"

lemma scan_list_append:
  "scan_list T P tracked m sc (xs @ ys) =
     (case scan_list T P tracked m sc xs of Scanned s \<Rightarrow> scan_list T P tracked m s ys | r \<Rightarrow> r)"
  by (induction xs arbitrary: sc) (auto split: option.splits sum.splits)

lemma inspect_remaining: "inspect_sample P tracked sample sc = Inr s1 \<Longrightarrow> sc_remaining s1 = fsub (sc_remaining sc) (pp_step P)"
  by (auto simp: inspect_sample_def Let_def split: prod.splits if_splits)

fun samples_at :: "path_policy \<Rightarrow> pyfloat \<Rightarrow> path_sample list \<Rightarrow> pyfloat \<Rightarrow> bool" where
  "samples_at P r [] r1 = (r = r1)"
| "samples_at P r ((g, d, rem) # xs) r1 = (rem = r \<and> samples_at P (fsub r (pp_step P)) xs r1)"

lemma samples_at_append: "samples_at P r xs r1 \<Longrightarrow> samples_at P r1 ys r2 \<Longrightarrow> samples_at P r (xs @ ys) r2"
  by (induction xs arbitrary: r) auto

text \<open>With a step of a quarter the remaining distance falls by at least that, up to the next eighth.\<close>

lemma step_down:
  assumes "0 \<le> r" "r \<le> 2 ^ 50"
  shows "\<exists>r'. fsub (Fin r) (Fin (1 / 4)) = Fin r' \<and> \<lceil>8 * r'\<rceil> \<le> \<lceil>8 * r\<rceil> - 2 \<and> r' \<le> 2 ^ 50"
proof -
  define k where "k = \<lceil>8 * r\<rceil>"
  have k: "8 * r \<le> of_int k" "0 \<le> k" using assms(1) unfolding k_def by simp_all
  have "8 * r \<le> of_int (2 ^ 53)" using assms(2) by simp
  then have k2: "k \<le> 2 ^ 53" unfolding k_def by (simp only: ceiling_le_iff)
  have "\<bar>k - 2\<bar> \<le> 2 ^ 53" using k k2 by auto
  then have up: "fl (of_int (k - 2) / 2 ^ 3) = Fin (of_int (k - 2) / 2 ^ 3)" by (rule fl_dyadic) simp
  have lo: "fl (- 1 / 4) = Fin (- 1 / 4)" using fl_dyadic [of "- 1" 2] by simp
  have "fle (fl (- 1 / 4)) (fl (r - 1 / 4))" using assms(1) by (intro fl_mono) simp
  moreover have "fle (fl (r - 1 / 4)) (fl (of_int (k - 2) / 2 ^ 3))" using k(1) by (intro fl_mono) (simp add: field_simps)
  ultimately obtain r' where r': "fl (r - 1 / 4) = Fin r'" "r' \<le> of_int (k - 2) / 2 ^ 3"
    unfolding up lo using fle_between_finite by blast
  have "8 * r' \<le> of_int (k - 2)" using r'(2) by simp
  then have c: "\<lceil>8 * r'\<rceil> \<le> k - 2" by (simp only: ceiling_le_iff)
  have "r' \<le> 2 ^ 50" using r'(2) k2 by simp
  then show ?thesis using r'(1) c by (simp add: fsub_def k_def)
qed

definition quarter_steps :: "path_policy \<Rightarrow> bool" where
  "quarter_steps P \<longleftrightarrow> pp_step P = Fin (1 / 4)"

lemma segment_scan:
  assumes "quarter_steps P" "r \<le> 2 ^ 50"
  shows "\<exists>xs r'. segment_samples P g d (Fin r) = Some (xs, Fin r') \<and> r' \<le> 2 ^ 50 \<and> samples_at P (Fin r) xs (Fin r') \<and>
    (\<forall>sc. sc_remaining sc = Fin r \<longrightarrow> scan_segment T P tracked m g d sc = Some (scan_list T P tracked m sc xs) \<and>
       (\<forall>s1. scan_list T P tracked m sc xs = Scanned s1 \<longrightarrow> sc_remaining s1 = Fin r'))"
  using assms(2)
proof (induction "nat (\<lceil>8 * r\<rceil> + 2)" arbitrary: r d rule: less_induct)
  case less
  have step: "pp_step P = Fin (1 / 4)" using assms(1) by (simp add: quarter_steps_def)
  show ?case
  proof (cases "fle d (sg_length g) \<and> fle fzero (Fin r)")
    case False
    then have "segment_samples P g d (Fin r) = Some ([], Fin r)" unfolding segment_samples.simps [of P g d "Fin r"] by (simp only: if_False)
    moreover have "scan_segment T P tracked m g d sc = Some (Scanned sc)" if "sc_remaining sc = Fin r" for sc
      using False unfolding scan_segment.simps [of T P tracked m g d sc] that by (simp only: if_False)
    ultimately show ?thesis using less.prems by auto
  next
    case True
    then have r0: "0 \<le> r" by simp
    obtain r1 where r1: "fsub (Fin r) (Fin (1 / 4)) = Fin r1" "\<lceil>8 * r1\<rceil> \<le> \<lceil>8 * r\<rceil> - 2" "r1 \<le> 2 ^ 50"
      using step_down [OF r0 less.prems] by blast
    have "0 \<le> \<lceil>8 * r\<rceil>" using r0 by simp
    then have "nat (\<lceil>8 * r1\<rceil> + 2) < nat (\<lceil>8 * r\<rceil> + 2)" using r1(2) by linarith
    from less.hyps [OF this r1(3), of "fadd d (pp_step P)"] obtain xs r2 where IH:
      "segment_samples P g (fadd d (pp_step P)) (Fin r1) = Some (xs, Fin r2)" "r2 \<le> 2 ^ 50" "samples_at P (Fin r1) xs (Fin r2)"
      "\<And>sc. sc_remaining sc = Fin r1 \<Longrightarrow> scan_segment T P tracked m g (fadd d (pp_step P)) sc = Some (scan_list T P tracked m sc xs)"
      "\<And>sc s1. sc_remaining sc = Fin r1 \<Longrightarrow> scan_list T P tracked m sc xs = Scanned s1 \<Longrightarrow> sc_remaining s1 = Fin r2" by blast
    have a: "segment_samples P g d (Fin r) = Some ((g, d, Fin r) # xs, Fin r2)"
      unfolding segment_samples.simps [of P g d "Fin r"] using True IH(1) r1(1) by (simp add: step)
    have b: "scan_segment T P tracked m g d sc = Some (scan_list T P tracked m sc ((g, d, Fin r) # xs)) \<and>
       (\<forall>s1. scan_list T P tracked m sc ((g, d, Fin r) # xs) = Scanned s1 \<longrightarrow> sc_remaining s1 = Fin r2)"
      if sc: "sc_remaining sc = Fin r" for sc
    proof (cases "sample_cost T m g d")
      case None
      then show ?thesis using True sc unfolding scan_segment.simps [of T P tracked m g d sc] by simp
    next
      case (Some sample)
      show ?thesis
      proof (cases "inspect_sample P tracked sample sc")
        case (Inl e)
        then show ?thesis using True sc Some unfolding scan_segment.simps [of T P tracked m g d sc] by (cases e) simp
      next
        case (Inr s1)
        have "sc_remaining s1 = Fin r1" using inspect_remaining [OF Inr] sc r1(1) by (simp add: step)
        then show ?thesis using True sc Some Inr IH(4,5) [of s1] unfolding scan_segment.simps [of T P tracked m g d sc] by simp
      qed
    qed
    have "samples_at P (Fin r) ((g, d, Fin r) # xs) (Fin r2)" using IH(3) r1(1) by (simp add: step)
    then show ?thesis using a b IH(2) by blast
  qed
qed

lemma path_scan:
  assumes "quarter_steps P" "r \<le> 2 ^ 50"
  shows "\<exists>xs. path_samples P progress walked (Fin r) gs = Some xs \<and> (\<exists>r1. samples_at P (Fin r) xs r1) \<and>
    (\<forall>sc. sc_remaining sc = Fin r \<longrightarrow> scan_path T P tracked m progress walked sc gs = Some (scan_list T P tracked m sc xs))"
  using assms(2)
proof (induction gs arbitrary: walked r)
  case (Cons g gs)
  show ?case
  proof (cases "fle (sg_length g) eps6")
    case True
    then show ?thesis using Cons.IH [OF Cons.prems, of walked] by simp
  next
    case False
    obtain xs r1 where s: "segment_samples P g (pymax fzero (fsub progress walked)) (Fin r) = Some (xs, Fin r1)" "r1 \<le> 2 ^ 50" "samples_at P (Fin r) xs (Fin r1)"
      "\<And>sc. sc_remaining sc = Fin r \<Longrightarrow>
          scan_segment T P tracked m g (pymax fzero (fsub progress walked)) sc = Some (scan_list T P tracked m sc xs)"
      "\<And>sc s1. sc_remaining sc = Fin r \<Longrightarrow> scan_list T P tracked m sc xs = Scanned s1 \<Longrightarrow> sc_remaining s1 = Fin r1"
      using segment_scan [OF assms(1) Cons.prems, of g "pymax fzero (fsub progress walked)" T tracked m] by blast
    obtain ys where ys: "path_samples P progress (fadd walked (sg_length g)) (Fin r1) gs = Some ys" "\<exists>r2. samples_at P (Fin r1) ys r2"
      "\<And>sc. sc_remaining sc = Fin r1 \<Longrightarrow>
         scan_path T P tracked m progress (fadd walked (sg_length g)) sc gs = Some (scan_list T P tracked m sc ys)"
      using Cons.IH [OF s(2), of "fadd walked (sg_length g)"] by blast
    show ?thesis
    proof (cases "flt (Fin r1) fzero")
      case True
      have "scan_path T P tracked m progress walked sc (g # gs) = Some (scan_list T P tracked m sc xs)" if "sc_remaining sc = Fin r" for sc
        using False True s(4,5) [OF that] by (cases "scan_list T P tracked m sc xs") simp_all
      moreover have "path_samples P progress walked (Fin r) (g # gs) = Some xs" using False True s(1) by simp
      ultimately show ?thesis using s(3) by blast
    next
      case on: False
      have "scan_path T P tracked m progress walked sc (g # gs) = Some (scan_list T P tracked m sc (xs @ ys))"
        if "sc_remaining sc = Fin r" for sc
        using False on s(4,5) [OF that] ys(3) by (cases "scan_list T P tracked m sc xs") (simp_all add: scan_list_append)
      moreover have "path_samples P progress walked (Fin r) (g # gs) = Some (xs @ ys)" using False on s(1) ys(1) by simp
      moreover have "\<exists>r2. samples_at P (Fin r) (xs @ ys) r2" using s(3) ys(2) samples_at_append by blast
      ultimately show ?thesis by blast
    qed
  qed
qed auto

text \<open>The policy of a node whose inspected distance is at most 2 ^ 50 metres.\<close>

definition bounded_policy :: "path_policy \<Rightarrow> bool" where
  "bounded_policy P \<longleftrightarrow> quarter_steps P \<and> isfinite (pp_max_distance P) \<and> fle (pp_max_distance P) (Fin (2 ^ 50))"

lemma geometry_scan:
  assumes "bounded_policy P"
  obtains xs where "path_samples P progress fzero (pp_max_distance P) (path_segments T ps) = Some xs"
    "scan_path T P tracked m progress fzero (new_scan P) (path_segments T ps) = Some (scan_list T P tracked m (new_scan P) xs)"
    "\<exists>r1. samples_at P (pp_max_distance P) xs r1"
proof -
  obtain r where r: "pp_max_distance P = Fin r" "r \<le> 2 ^ 50" "quarter_steps P"
    using assms by (auto simp: bounded_policy_def isfinite_iff)
  obtain xs where "path_samples P progress fzero (Fin r) (path_segments T ps) = Some xs" "\<exists>r1. samples_at P (Fin r) xs r1"
    "\<And>sc. sc_remaining sc = Fin r \<Longrightarrow>
       scan_path T P tracked m progress fzero sc (path_segments T ps) = Some (scan_list T P tracked m sc xs)"
    using path_scan [OF r(3,2), of progress fzero "path_segments T ps" T tracked m] by blast
  then show ?thesis using that [of xs] r(1) by (simp add: new_scan_def)
qed

subsection \<open>Admission of a candidate\<close>

text \<open>Some window of consecutive samples all of whose costs are high.\<close>

definition high_window :: "nat \<Rightarrow> int \<Rightarrow> int list \<Rightarrow> bool" where
  "high_window n h cs = list_ex (\<lambda>i. list_all (\<lambda>j. h \<le> cs ! (i + j)) [0..<n]) [0..<Suc (length cs) - n]"

lemma high_window_iff: "high_window n h cs \<longleftrightarrow> (\<exists>i. i + n \<le> length cs \<and> (\<forall>j<n. h \<le> cs ! (i + j)))"
  unfolding high_window_def list_ex_iff list_all_iff Bex_def set_upt atLeastLessThan_iff less_diff_conv less_Suc_eq_le
  by (auto simp: less_diff_conv less_Suc_eq_le)

fun runs_below :: "nat \<Rightarrow> int \<Rightarrow> nat \<Rightarrow> int list \<Rightarrow> bool" where
  "runs_below n h k [] = True"
| "runs_below n h k (c # cs) = (let k1 = (if h \<le> c then k + 1 else 0) in k1 < n \<and> runs_below n h k1 cs)"

lemma window_prefix: "high_window n h ws \<Longrightarrow> high_window n h (ws @ cs)"
proof -
  assume "high_window n h ws"
  then obtain i where "i + n \<le> length ws" "\<And>j. j < n \<Longrightarrow> h \<le> ws ! (i + j)" by (auto simp: high_window_iff)
  then show ?thesis unfolding high_window_iff by (intro exI [of _ i]) (auto simp: nth_append)
qed

lemma window_break:
  assumes "length hs < n" "c < h"
  shows "high_window n h (hs @ c # cs) = high_window n h cs"
proof
  assume "high_window n h (hs @ c # cs)"
  then obtain i where i: "i + n \<le> length hs + Suc (length cs)" "\<And>j. j < n \<Longrightarrow> h \<le> (hs @ c # cs) ! (i + j)"
    by (auto simp: high_window_iff)
  have "length hs < i"
  proof (rule ccontr)
    assume "\<not> length hs < i"
    then have "length hs - i < n" "i + (length hs - i) = length hs" using assms(1) by auto
    with i(2) [of "length hs - i"] show False using assms(2) by simp
  qed
  then have "h \<le> cs ! (i - Suc (length hs) + j)" if "j < n" for j
    using i(2) [OF that] by (simp add: nth_append Suc_diff_Suc [symmetric] add.commute)
  moreover have "i - Suc (length hs) + n \<le> length cs" using i(1) \<open>length hs < i\<close> by simp
  ultimately show "high_window n h cs" unfolding high_window_iff by blast
next
  assume "high_window n h cs"
  then obtain i where i: "i + n \<le> length cs" "\<And>j. j < n \<Longrightarrow> h \<le> cs ! (i + j)" by (auto simp: high_window_iff)
  have "h \<le> (hs @ c # cs) ! (Suc (length hs) + i + j)" if "j < n" for j using i(2) [OF that] by (simp add: nth_append)
  then show "high_window n h (hs @ c # cs)" using i(1) unfolding high_window_iff by (intro exI [of _ "Suc (length hs) + i"]) simp
qed

lemma runs_below_window:
  "length hs < n \<Longrightarrow> list_all ((\<le>) h) hs \<Longrightarrow> runs_below n h (length hs) cs = (\<not> high_window n h (hs @ cs))"
proof (induction cs arbitrary: hs)
  case Nil
  then show ?case by (auto simp: high_window_iff)
next
  case (Cons c cs)
  show ?case
  proof (cases "h \<le> c")
    case False
    then show ?thesis using Cons.prems Cons.IH [of "[]"] window_break [of hs n c h cs] by simp
  next
    case True
    show ?thesis
    proof (cases "Suc (length hs) < n")
      case less: True
      then show ?thesis using True Cons.IH [of "hs @ [c]"] Cons.prems by simp
    next
      case False
      then have "n = length (hs @ [c])" using Cons.prems by simp
      moreover have "list_all ((\<le>) h) (hs @ [c])" using True Cons.prems by simp
      ultimately have "high_window n h (hs @ [c])" by (auto simp: high_window_iff list_all_length intro!: exI [of _ 0])
      from window_prefix [OF this, of cs] show ?thesis using True False by simp
    qed
  qed
qed

definition sample_value :: "trig \<Rightarrow> costmap_view \<Rightarrow> path_sample \<Rightarrow> int option" where
  "sample_value T m x = map_option snd (sample_cost T m (fst x) (fst (snd x)))"

lemma candidate_scan:
  "(\<exists>s. scan_list T P False m sc xs = Scanned s) \<longleftrightarrow>
     list_all (\<lambda>x. sample_value T m x \<noteq> None) xs \<and> list_all (\<lambda>x. the (sample_value T m x) < pp_lethal P) xs \<and>
     runs_below (pp_high_samples P) (pp_high P) (sc_sustained sc) (map (the \<circ> sample_value T m) xs)"
proof (induction xs arbitrary: sc)
  case (Cons x xs)
  obtain g d r where x: "x = (g, d, r)" by (cases x)
  show ?case
  proof (cases "sample_cost T m g d")
    case None
    then show ?thesis by (simp add: x sample_value_def)
  next
    case (Some pc)
    obtain p c where pc: "pc = (p, c)" by (cases pc)
    show ?thesis using Some Cons.IH
      by (auto simp: x pc sample_value_def inspect_sample_def Let_def)
  qed
qed simp

subsection \<open>Properties of the scan\<close>

text \<open>
  With the node's sample step and an inspected distance of at most 2 ^ 50 metres, the evaluation of any path, with
  any geometry, costmap and state, ends.
\<close>

lemma evaluation_ends:
  assumes "bounded_policy P"
  shows "evaluate_path T P s q \<noteq> None"
proof -
  have g: "(evaluate_geometry T P tracked m ps progress error age = None) = False" for tracked m ps progress error age
    by (rule geometry_scan [OF assms, of progress T ps tracked m]) (simp add: evaluate_geometry_def)
  show ?thesis by (simp add: evaluate_path_def evaluate_sampled_def Let_def g del: not_None_eq split: option.splits prod.splits)
qed

text \<open>
  C4. What a candidate must satisfy: the geometry of a candidate path is kept exactly when the footprint has
  a cost at every sample of the inspected part, none of these costs is lethal, and no window of
  \<open>high_samples\<close> consecutive samples is high throughout, however these samples fall on the segments.
\<close>

theorem candidate_admission:
  assumes "bounded_policy P" "0 < pp_high_samples P"
  shows "\<exists>xs. path_samples P progress fzero (pp_max_distance P) (path_segments T ps) = Some xs \<and>
    ((\<exists>h. evaluate_geometry T P False m ps progress error age = Some (Some h) \<and> hr_state h = path_keep) =
     (list_all (\<lambda>x. sample_value T m x \<noteq> None) xs \<and> list_all (\<lambda>x. the (sample_value T m x) < pp_lethal P) xs \<and>
      \<not> high_window (pp_high_samples P) (pp_high P) (map (the \<circ> sample_value T m) xs)))"
proof -
  obtain xs where xs: "path_samples P progress fzero (pp_max_distance P) (path_segments T ps) = Some xs"
    "scan_path T P False m progress fzero (new_scan P) (path_segments T ps) = Some (scan_list T P False m (new_scan P) xs)"
    using geometry_scan [OF assms(1)] by blast
  have "(\<exists>h. evaluate_geometry T P False m ps progress error age = Some (Some h) \<and> hr_state h = path_keep) =
    (\<exists>s. scan_list T P False m (new_scan P) xs = Scanned s)"
    by (cases "scan_list T P False m (new_scan P) xs")
       (simp_all add: evaluate_geometry_def xs(2) health_def path_keep_def path_replan_def)
  also have "\<dots> = (list_all (\<lambda>x. sample_value T m x \<noteq> None) xs \<and> list_all (\<lambda>x. the (sample_value T m x) < pp_lethal P) xs \<and>
      \<not> high_window (pp_high_samples P) (pp_high P) (map (the \<circ> sample_value T m) xs))"
    using runs_below_window [of "[]" "pp_high_samples P" "pp_high P" "map (the \<circ> sample_value T m) xs"] assms(2)
    by (simp add: candidate_scan new_scan_def)
  finally show ?thesis using xs(1) by blast
qed

subsection \<open>What a kept path was checked for\<close>

definition near_sample :: "path_policy \<Rightarrow> path_sample \<Rightarrow> bool" where
  "near_sample P x = fle (fsub (pp_max_distance P) (snd (snd x))) (pp_near P)"

text \<open>No near sample of the footprint is lethal.\<close>

definition near_clear :: "trig \<Rightarrow> path_policy \<Rightarrow> costmap_view \<Rightarrow> path_sample list \<Rightarrow> bool" where
  "near_clear T P m xs =
     list_all (\<lambda>x. case sample_value T m x of None \<Rightarrow> False | Some c \<Rightarrow> c < pp_lethal P) (filter (near_sample P) xs)"

lemma tracked_scan:
  "scan_list T P tracked m sc xs = Scanned s \<Longrightarrow> samples_at P (sc_remaining sc) xs r1 \<Longrightarrow> near_clear T P m xs"
proof (induction xs arbitrary: sc)
  case (Cons x xs)
  obtain g d r where x: "x = (g, d, r)" by (cases x)
  obtain p c s1 where st: "sample_cost T m g d = Some (p, c)" "inspect_sample P tracked (p, c) sc = Inr s1"
    "scan_list T P tracked m s1 xs = Scanned s"
    using Cons.prems(1) by (auto simp: x split: option.splits sum.splits)
  have r: "r = sc_remaining sc" "samples_at P (sc_remaining s1) xs r1"
    using Cons.prems(2) inspect_remaining [OF st(2)] by (simp_all add: x)
  have "near_sample P x \<Longrightarrow> c < pp_lethal P"
    using st(2) r(1) by (auto simp: x near_sample_def inspect_sample_def Let_def split: if_splits)
  moreover have "near_clear T P m xs" by (rule Cons.IH [OF st(3) r(2)])
  ultimately show ?case using st(1) by (simp add: near_clear_def sample_value_def x)
qed (simp add: near_clear_def)

lemma kept_geometry:
  assumes "bounded_policy P" "evaluate_geometry T P tracked m ps progress error age = Some (Some h)" "hr_state h = path_keep"
  shows "\<exists>xs. path_samples P progress fzero (pp_max_distance P) (path_segments T ps) = Some xs \<and> near_clear T P m xs"
proof -
  obtain xs where xs: "path_samples P progress fzero (pp_max_distance P) (path_segments T ps) = Some xs"
    "scan_path T P tracked m progress fzero (new_scan P) (path_segments T ps) = Some (scan_list T P tracked m (new_scan P) xs)"
    "\<exists>r1. samples_at P (pp_max_distance P) xs r1"
    using geometry_scan [OF assms(1)] by blast
  then obtain s where "scan_list T P tracked m (new_scan P) xs = Scanned s"
    using assms(2,3) by (cases "scan_list T P tracked m (new_scan P) xs") (auto simp: evaluate_geometry_def health_def path_keep_def path_replan_def)
  moreover obtain r1 where "samples_at P (sc_remaining (new_scan P)) xs r1" using xs(3) by (auto simp: new_scan_def)
  ultimately show ?thesis using tracked_scan xs(1) by blast
qed

lemma note_far_keeps: "snd (note_far T P s g stamp now) = g' \<Longrightarrow> hr_state g' = path_keep \<Longrightarrow> hr_state g = path_keep"
  by (auto simp: note_far_def Let_def health_def path_keep_def path_replan_def split: option.splits if_splits)

lemma judge_keeps: "snd (judge P s g now) = g' \<Longrightarrow> hr_state g' = path_keep \<Longrightarrow> hr_state g = path_keep"
  by (auto simp: judge_def Let_def health_def path_keep_def path_replan_def split: if_splits)

text \<open>A path that is kept was sampled on a fresh costmap from the progress of the robot, and its near part is clear.\<close>

definition checked_path :: "trig \<Rightarrow> path_policy \<Rightarrow> path_query \<Rightarrow> bool" where
  "checked_path T P q =
     (case pq_costmap q of None \<Rightarrow> False
      | Some m \<Rightarrow> \<not> flt (pp_costmap_timeout P) (costmap_age q m) \<and>
          (case cross_track_error T (pq_path q) (pq_robot q) of None \<Rightarrow> False
           | Some (error, progress) \<Rightarrow>
               (case path_samples P progress fzero (pp_max_distance P) (path_segments T (pq_path q)) of None \<Rightarrow> False
                | Some xs \<Rightarrow> near_clear T P m xs)))"

lemma kept_sampled:
  assumes "bounded_policy P" "evaluate_sampled T P s q m age = Some (s1, Some h)" "hr_state h = path_keep"
  shows "\<exists>error progress xs. cross_track_error T (pq_path q) (pq_robot q) = Some (error, progress) \<and>
    path_samples P progress fzero (pp_max_distance P) (path_segments T (pq_path q)) = Some xs \<and> near_clear T P m xs"
proof -
  obtain error progress where ct: "cross_track_error T (pq_path q) (pq_robot q) = Some (error, progress)"
    using assms(2) by (cases "cross_track_error T (pq_path q) (pq_robot q)") (auto simp: evaluate_sampled_def)
  obtain g where g: "evaluate_geometry T P (pq_tracked q) m (pq_path q) progress error age = Some (Some g)" "hr_state g = path_keep"
  proof (cases "pq_tracked q")
    case False
    then show ?thesis using that assms(2,3) ct by (auto simp: evaluate_sampled_def)
  next
    case True
    define s2 where "s2 = note_cross P (note_progress s (path_signature (pq_frame q) (pq_path q)) progress (pq_now q)) error"
    obtain r where r: "evaluate_geometry T P True m (pq_path q) progress error age = Some r" "conclude T P s2 q m r = (s1, Some h)"
      using assms(2) ct True by (auto simp: evaluate_sampled_def s2_def Let_def)
    then obtain geometry where geo: "r = Some geometry" by (cases r) (auto simp: conclude_def)
    obtain s3 g3 where f: "note_far T P s2 geometry (cm_stamp m) (pq_now q) = (s3, g3)" by fastforce
    have "snd (judge P s3 g3 (pq_now q)) = h" using r(2) geo f by (auto simp: conclude_def split: prod.splits)
    then have "hr_state g3 = path_keep" using judge_keeps assms(3) by blast
    then have "hr_state geometry = path_keep" using note_far_keeps [of T P s2 geometry] f by (metis snd_conv)
    then show ?thesis using that r(1) geo True by simp
  qed
  from kept_geometry [OF assms(1) g] ct show ?thesis by blast
qed

lemma kept_path:
  assumes "bounded_policy P" "evaluate_path T P s q = Some (s1, Some h)" "hr_state h = path_keep"
  shows "checked_path T P q"
proof -
  have n: "pq_tf q" "pq_costmap q \<noteq> None" using assms(2,3)
    by (auto simp: evaluate_path_def Let_def health_def path_keep_def path_stop_and_wait_def split: if_splits option.splits)
  then obtain m where m: "pq_costmap q = Some m" by blast
  have fresh: "\<not> flt (pp_costmap_timeout P) (costmap_age q m)"
    and "evaluate_sampled T P (note_revision s q) q m (costmap_age q m) = Some (s1, Some h)"
    using assms(2,3) n m
    by (auto simp: evaluate_path_def Let_def health_def path_keep_def path_stop_and_wait_def path_replan_def split: if_splits)
  from kept_sampled [OF assms(1) this(2) assms(3)] fresh m show ?thesis by (auto simp: checked_path_def)
qed

text \<open>The wait of the node: a terminal wait has a deadline.\<close>

definition wait_sound :: "maneuver_wait \<Rightarrow> bool" where
  "wait_sound w \<longleftrightarrow> (if mw_terminal w then mw_deadline w \<noteq> None else True)"

lemma wait_sound_observe: "wait_sound w \<Longrightarrow> wait_sound (fst (wait_observe w ob))"
  by (auto simp: wait_sound_def wait_observe_def wait_snapshot_def wait_reset_def Let_def split: option.splits)

lemma wait_sound_snapshot: "wait_sound w \<Longrightarrow> wait_sound (fst (wait_snapshot w now))"
  by (auto simp: wait_sound_def wait_snapshot_def Let_def split: option.splits)

lemma clear_observation:
  assumes "wait_observe w ob = (w1, d)" "md_state d = Clear" "wait_sound w"
  shows "mo_reason ob = [] \<and> mw_deadline w1 = None"
  using assms
  by (auto simp: wait_sound_def wait_observe_def wait_snapshot_def wait_reset_def Let_def split: option.splits if_splits)

definition node_sound :: "path_node \<Rightarrow> bool" where
  "node_sound s \<longleftrightarrow> wait_sound (pn_wait s)"

definition query_of :: "path_node \<Rightarrow> path_request \<Rightarrow> xy \<Rightarrow> path_query" where
  "query_of s q p =
     \<lparr> pq_frame = rq_frame q, pq_path = rq_points q, pq_robot = p, pq_costmap = map_option snd (pn_costmap s),
       pq_now = rq_now q, pq_tf = True, pq_tracked = (rq_context q = ActivePath), pq_revision = pn_revision s \<rparr>"

text \<open>The maneuver inspection of a request, with the transform and the part of the path that it used.\<close>

definition inspected_with :: "path_env \<Rightarrow> path_request \<Rightarrow> base_transform \<Rightarrow> maneuver_result \<Rightarrow> bool" where
  "inspected_with E q t found \<longleftrightarrow>
     rq_transform q = Some t \<and> \<not> flt (pe_tf_timeout E) (transform_age t (rq_now q)) \<and>
     (\<exists>yaw ahead. robot_yaw (pe_trig E) (pe_square E) t = Some yaw \<and>
        inspect_maneuver (pe_trig E) (pe_config E) ahead yaw (rq_goals q) = Some found \<and>
        (if rq_context q = ActivePath
         then \<exists>from to. forward_suffix (pe_trig E) (pe_square E) (rq_points q) (bt_xy t) from (pe_search E) = Some (ahead, to)
         else ahead = rq_points q))"

lemma checked_query: "pn_costmap s1 = pn_costmap s \<Longrightarrow> checked_path T P (query_of s1 q p) = checked_path T P (query_of s q p)"
  by (auto simp: checked_path_def query_of_def costmap_age_def split: option.splits)

definition candidate_check :: "path_request \<Rightarrow> health_result \<Rightarrow> health_result" where
  "candidate_check q h =
     (if rq_context q = CandidatePath \<and> hr_state h \<noteq> path_keep
      then health path_stop_and_wait (''candidate_invalid:'' @ hr_reason h) (hr_age h) (hr_max h) (hr_checked h) (hr_error h)
      else h)"

lemma candidate_check_keep: "hr_state (candidate_check q h) = path_keep \<Longrightarrow> hr_state h = path_keep"
  by (simp add: candidate_check_def health_def path_keep_def path_stop_and_wait_def split: if_splits)

lemma inspected_eq:
  "inspected E s q p f =
     map_option (\<lambda>(ps, r). (s \<lparr> pn_policy := ps \<rparr>, Some f, Some (rq_key q), map_option (candidate_check q) r))
       (evaluate_path (pe_trig E) (pe_policy E) (pn_policy s) (query_of s q p))"
  unfolding inspected_def query_of_def candidate_check_def ..

lemma inspected_found: "inspected E s q p f = Some (s1, Some found, key, r) \<Longrightarrow> found = f \<and> pn_wait s1 = pn_wait s"
  by (auto simp: inspected_eq)

lemma inspected_kept:
  assumes "inspected E s q p f = Some (s1, found, key, Some h)" "hr_state h = path_keep"
  obtains ps y where "evaluate_path (pe_trig E) (pe_policy E) (pn_policy s) (query_of s q p) = Some (ps, Some y)" "hr_state y = path_keep"
proof -
  obtain ps r where e: "evaluate_path (pe_trig E) (pe_policy E) (pn_policy s) (query_of s q p) = Some (ps, r)"
    "map_option (candidate_check q) r = Some h"
    using assms(1) by (auto simp: inspected_eq)
  then obtain y where "r = Some y" "candidate_check q y = h" by auto
  then show ?thesis using that e(1) candidate_check_keep [of q y] assms(2) by simp
qed

lemma kept_costmap:
  "evaluate_path T P s q = Some (s1, Some h) \<Longrightarrow> hr_state h = path_keep \<Longrightarrow> pq_costmap q \<noteq> None"
  by (cases "pq_costmap q") (auto simp: evaluate_path_def Let_def health_def path_keep_def path_stop_and_wait_def split: if_splits)

lemma inspected_costmap:
  assumes "inspected E s q p f = Some (s1, found, key, Some h)" "hr_state h = path_keep"
  shows "pn_costmap s \<noteq> None"
proof -
  obtain ps y where "evaluate_path (pe_trig E) (pe_policy E) (pn_policy s) (query_of s q p) = Some (ps, Some y)" "hr_state y = path_keep"
    using inspected_kept [OF assms] .
  from kept_costmap [OF this] show ?thesis by (simp add: query_of_def)
qed

lemma inspected_checked:
  assumes "bounded_policy (pe_policy E)" "inspected E s q p f = Some (s1, Some found, key, Some h)" "hr_state h = path_keep"
  shows "checked_path (pe_trig E) (pe_policy E) (query_of s q p)"
  by (rule inspected_kept [OF assms(2,3)]) (rule kept_path [OF assms(1)])

lemma inspect_wait: "inspect_path E s q = Some (s1, found, key, r) \<Longrightarrow> pn_wait s1 = pn_wait s"
  by (auto simp: inspect_path_def inspected_def rekey_def Let_def split: option.splits prod.splits if_splits)

lemma inspect_found:
  assumes "inspect_path E s q = Some (s1, Some found, key, r)"
  obtains t s2 where "inspected_with E q t found" "inspected E s2 q (bt_xy t) found = Some (s1, Some found, key, r)"
    "pn_costmap s2 = pn_costmap s"
proof -
  obtain t where t: "rq_transform q = Some t" "\<not> flt (pe_tf_timeout E) (transform_age t (rq_now q))"
    using assms by (auto simp: inspect_path_def split: option.splits if_splits)
  then obtain yaw where y: "robot_yaw (pe_trig E) (pe_square E) t = Some yaw"
    using assms by (auto simp: inspect_path_def split: option.splits)
  then obtain ahead progress where a: "path_ahead E (rekey s q) q t = Some (ahead, progress)"
    using assms t by (auto simp: inspect_path_def split: option.splits)
  then obtain f where f: "inspect_maneuver (pe_trig E) (pe_config E) ahead yaw (rq_goals q) = Some f"
    "inspected E ((rekey s q) \<lparr> pn_progress := progress \<rparr>) q (bt_xy t) f = Some (s1, Some found, key, r)"
    using assms t y a by (auto simp: inspect_path_def Let_def split: option.splits)
  have "f = found" using inspected_found [OF f(2)] by simp
  moreover have "inspected_with E q t f"
    using t y f(1) a by (auto simp: inspected_with_def path_ahead_def split: if_splits)
  moreover have "pn_costmap ((rekey s q) \<lparr> pn_progress := progress \<rparr>) = pn_costmap s" by (simp add: rekey_def)
  ultimately show ?thesis using that f(2) by simp
qed

lemma result_wait: "node_result E s q = Some (s1, found, key, r) \<Longrightarrow> pn_wait s1 = pn_wait s"
  by (auto simp: node_result_def node_reset_far_def dest: inspect_wait split: if_splits option.splits)

text \<open>A request for which a maneuver inspection was made keeps its path, or the wait is not clear, or it stops.\<close>

lemma result_keeps:
  assumes "node_result E s q = Some (s1, found, key, Some h)" "hr_state h = path_keep"
  shows "\<exists>f frame m. found = Some f \<and> pn_costmap s = Some (frame, m) \<and> rq_frame q = frame \<and>
     inspect_path E s q = Some (s1, Some f, key, Some h)"
proof -
  have n: "\<not> length (rq_points q) < 2" "rq_frame q \<noteq> []" "\<not> (case pn_costmap s of None \<Rightarrow> False | Some (frame, m) \<Rightarrow> rq_frame q \<noteq> frame)"
    using assms by (auto simp: node_result_def health_def path_keep_def path_replan_def path_stop_and_wait_def split: if_splits)
  have "inspect_path E s q \<noteq> None" using assms(1) n by (cases "inspect_path E s q") (simp_all add: node_result_def)
  then obtain s2 f k r where i: "inspect_path E s q = Some (s2, f, k, r)" by (cases "inspect_path E s q") (auto elim: prod_cases4)
  have "r \<noteq> None" using i n assms by (cases r) (auto simp: node_result_def health_def path_keep_def path_stop_and_wait_def)
  then have r: "inspect_path E s q = Some (s1, found, key, Some h)"
    using i n assms(1) by (auto simp: node_result_def)
  have "found \<noteq> None"
  proof
    assume "found = None"
    with r show False by (auto simp: inspect_path_def inspected_def Let_def split: option.splits prod.splits if_splits)
  qed
  then obtain f where f: "found = Some f" by blast
  obtain t s3 where t: "inspected_with E q t f" "inspected E s3 q (bt_xy t) f = Some (s1, Some f, key, Some h)" "pn_costmap s3 = pn_costmap s"
    using inspect_found [OF r [unfolded f]] .
  have "pn_costmap s3 \<noteq> None" by (rule inspected_costmap [OF t(2) assms(2)])
  then show ?thesis using f r n(3) t(3) by (auto split: prod.splits)
qed

lemma published_keep:
  assumes "answer_path q (s2, found, key, h) = (s1, outs)" "Published path_keep why w \<in> set outs" "wait_sound (pn_wait s2)"
  shows "found_reason found = [] \<and> hr_state h = path_keep \<and> mw_deadline (pn_wait s1) = None"
proof -
  define ob where "ob = \<lparr> mo_now = rq_monotonic q, mo_reason = found_reason found, mo_key = key,
      mo_candidate = (rq_context q = CandidatePath), mo_valid = (hr_state h = path_keep) \<rparr>"
  obtain w1 d where o: "wait_observe (pn_wait s2) ob = (w1, d)" by fastforce
  have k: "path_stop_and_wait \<noteq> path_keep" by (simp add: path_keep_def path_stop_and_wait_def)
  have s1: "s1 = s2 \<lparr> pn_wait := w1 \<rparr>" and
    outs: "Published path_keep why w \<in> set outs \<longrightarrow> (if md_state d = Clear then hr_state h else path_stop_and_wait) = path_keep"
    using assms(1) o unfolding answer_path_def ob_def by (auto simp: Let_def split: if_splits)
  have cl: "md_state d = Clear" "hr_state h = path_keep" using outs assms(2) k by (simp_all split: if_splits)
  from clear_observation [OF o cl(1) assms(3)] s1 cl(2) show ?thesis by (simp add: ob_def)
qed

lemma evaluated:
  assumes "on_evaluate E s q = Some (s1, outs)" "rq_context q \<noteq> ResetGuardContext"
  obtains s2 found key h where "node_result E s q = Some (s2, found, key, Some h)" "answer_path q (s2, found, key, h) = (s1, outs)"
proof -
  obtain x where x: "node_result E s q = Some x" using assms by (cases "node_result E s q") (simp_all add: on_evaluate_def)
  obtain s2 found key r where "x = (s2, found, key, r)" by (cases x)
  then show ?thesis using that x assms by (cases r) (simp_all add: on_evaluate_def)
qed

lemma keep_published_by:
  assumes "path_step E s v = Some (s1, outs)" "Published path_keep why w \<in> set outs"
  obtains q where "v = EvaluateRequest q" "on_evaluate E s q = Some (s1, outs)" "rq_context q \<noteq> ResetGuardContext"
proof (cases v)
  case (EvaluateRequest q)
  then show ?thesis using that assms by (cases "rq_context q") (auto simp: on_evaluate_def path_keep_def path_stop_and_wait_def)
next
  case (WaitTick now)
  then show ?thesis using assms
    by (cases "wait_snapshot (pn_wait s) now") (auto simp: tick_wait_def path_keep_def path_stop_and_wait_def split: if_splits)
qed (use assms in auto)

text \<open>
  C3. Motion needs an inspected path: whenever the node publishes that the path may be kept, this message answers an
  evaluation whose transform was fresh and whose frame was that of a fresh costmap, on which the footprint had
  a sub-lethal cost at every near sample ahead of the robot; the inspection of the path ahead found no maneuver, and
  no maneuver wait is open.
\<close>

theorem motion_needs_inspected_path:
  assumes "bounded_policy (pe_policy E)" "node_sound s" "path_step E s v = Some (s1, outs)" "Published path_keep why w \<in> set outs"
  shows "\<exists>q t found m. v = EvaluateRequest q \<and> inspected_with E q t found \<and> mr_reason found = NoReason \<and>
    pn_costmap s = Some (rq_frame q, m) \<and> checked_path (pe_trig E) (pe_policy E) (query_of s q (bt_xy t)) \<and>
    mw_deadline (pn_wait s1) = None"
proof -
  obtain q where q: "v = EvaluateRequest q" "on_evaluate E s q = Some (s1, outs)" "rq_context q \<noteq> ResetGuardContext"
    using keep_published_by [OF assms(3,4)] .
  obtain s2 found key h where r: "node_result E s q = Some (s2, found, key, Some h)" "answer_path q (s2, found, key, h) = (s1, outs)"
    using evaluated [OF q(2,3)] .
  have "wait_sound (pn_wait s2)" using result_wait [OF r(1)] assms(2) by (simp add: node_sound_def)
  from published_keep [OF r(2) assms(4) this]
  have ob: "found_reason found = []" and cl: "hr_state h = path_keep" and free: "mw_deadline (pn_wait s1) = None" by simp_all
  obtain f m where f: "found = Some f" "pn_costmap s = Some (rq_frame q, m)" "inspect_path E s q = Some (s2, Some f, key, Some h)"
    using result_keeps [OF r(1) cl] by blast
  have no: "mr_reason f = NoReason" using ob f(1) by (cases "mr_reason f") (simp_all add: found_reason_def)
  obtain t s3 where t: "inspected_with E q t f" "inspected E s3 q (bt_xy t) f = Some (s2, Some f, key, Some h)" "pn_costmap s3 = pn_costmap s"
    using inspect_found [OF f(3)] .
  have "checked_path (pe_trig E) (pe_policy E) (query_of s q (bt_xy t))"
    using inspected_checked [OF assms(1) t(2) cl] checked_query [OF t(3)] by simp
  then show ?thesis using q(1) t(1) no f(2) free by blast
qed

text \<open>The soundness of the node is an invariant.\<close>

lemma answer_wait: "\<exists>ob. pn_wait (fst (answer_path q (s, found, key, h))) = fst (wait_observe (pn_wait s) ob)"
  by (intro exI [of _ "\<lparr> mo_now = rq_monotonic q, mo_reason = found_reason found, mo_key = key,
      mo_candidate = (rq_context q = CandidatePath), mo_valid = (hr_state h = path_keep) \<rparr>"])
     (simp add: answer_path_def Let_def split: prod.split)

lemma path_step_sound:
  assumes "node_sound s" "path_step E s v = Some (s1, outs)"
  shows "node_sound s1"
proof (cases v)
  case (EvaluateRequest q)
  then have e: "on_evaluate E s q = Some (s1, outs)" using assms(2) by simp
  show ?thesis
  proof (cases "rq_context q = ResetGuardContext")
    case True
    then show ?thesis using e by (auto simp: on_evaluate_def node_sound_def wait_sound_def wait_reset_def)
  next
    case False
    obtain s2 found key h where r: "node_result E s q = Some (s2, found, key, Some h)" "answer_path q (s2, found, key, h) = (s1, outs)"
      using evaluated [OF e False] .
    have "wait_sound (pn_wait s2)" using result_wait [OF r(1)] assms(1) by (simp add: node_sound_def)
    moreover obtain ob where "pn_wait (fst (answer_path q (s2, found, key, h))) = fst (wait_observe (pn_wait s2) ob)"
      using answer_wait by blast
    ultimately show ?thesis using wait_sound_observe r(2) by (simp add: node_sound_def)
  qed
next
  case (WaitTick now)
  then show ?thesis using wait_sound_snapshot [of "pn_wait s" now] assms
    by (cases "wait_snapshot (pn_wait s) now") (auto simp: tick_wait_def node_sound_def)
qed (use assms in \<open>auto simp: node_sound_def\<close>)

text \<open>
  C5. Every request is answered: with the sample step of the node and an inspected distance of at most 2 ^ 50
  metres, the evaluation of any request, with any path, costmap, transform and state, ends, and it ends with one
  published message and one answer, whatever exception occurs inside.
\<close>

theorem request_answered:
  assumes "bounded_policy (pe_policy E)"
  shows "\<exists>s1 st why w st2 why2. on_evaluate E s q = Some (s1, [Published st why w, Answered st2 why2 w])"
proof (cases "rq_context q = ResetGuardContext")
  case True
  then show ?thesis by (simp add: on_evaluate_def)
next
  case False
  have "inspected E s2 q p f \<noteq> None" for s2 p f
    using evaluation_ends [OF assms] by (simp add: inspected_eq)
  then have "inspect_path E s q \<noteq> None"
    by (auto simp: inspect_path_def Let_def simp del: not_None_eq split: option.splits)
  then obtain s2 f k r where i: "inspect_path E s q = Some (s2, f, k, r)" by (cases "inspect_path E s q") (auto elim: prod_cases4)
  then have "\<exists>s3 f3 k3 h. node_result E s q = Some (s3, f3, k3, Some h)" by (cases r) (simp_all add: node_result_def)
  then obtain s3 f3 k3 h where n: "node_result E s q = Some (s3, f3, k3, Some h)" by blast
  have "\<exists>s1 st why w st2 why2. answer_path q (s3, f3, k3, h) = (s1, [Published st why w, Answered st2 why2 w])"
    by (simp add: answer_path_def Let_def split: prod.split)
  then show ?thesis using n False by (simp add: on_evaluate_def)
qed

definition inspectable :: "path_node \<Rightarrow> path_request \<Rightarrow> bool" where
  "inspectable s q \<longleftrightarrow> rq_context q \<noteq> ResetGuardContext \<and> 2 \<le> length (rq_points q) \<and> rq_frame q \<noteq> [] \<and>
     (case pn_costmap s of None \<Rightarrow> True | Some (frame, m) \<Rightarrow> rq_frame q = frame)"

lemma guard_text_brakes: "health_brake (guard_text d) = 100"
  by (simp add: guard_text_def health_brake_def)

lemma answer_outputs:
  assumes "answer_path q (s2, found, key, h) = (s1, outs)" "found_reason found \<noteq> []" "wait_sound (pn_wait s2)"
  shows "\<exists>d a. outs = [Published path_stop_and_wait (guard_text d) (md_remaining d), a]"
proof -
  define ob where "ob = \<lparr> mo_now = rq_monotonic q, mo_reason = found_reason found, mo_key = key,
      mo_candidate = (rq_context q = CandidatePath), mo_valid = (hr_state h = path_keep) \<rparr>"
  obtain w1 d where o: "wait_observe (pn_wait s2) ob = (w1, d)" by fastforce
  have "md_state d \<noteq> Clear" using clear_observation [OF o _ assms(3)] assms(2) by (auto simp: ob_def)
  then show ?thesis using assms(1) o unfolding answer_path_def ob_def by (auto simp: Let_def)
qed

text \<open>
  A rejected maneuver brakes: when the inspection of a path finds a maneuver, the node publishes a
  stop whose reason makes the arbiter, as long as this is its last word on the path, replace every
  automatic velocity by a stop with full brake.
\<close>

lemma rejected_maneuver_brakes:
  assumes "node_sound s" "inspectable s q" "inspect_path E s q = Some (s2, Some found, key, r)" "mr_reason found \<noteq> NoReason"
    "on_evaluate E s q = Some (s1, outs)" "\<not> ab_manual a" "if ab_required a then scan_is_fresh a now else True"
  shows "\<exists>text w. Published path_stop_and_wait text w \<in> set outs \<and>
    fst (automatic_output monitor_stop (set_path_health a path_stop_and_wait text) tw now) = Some (stop_msg src_safety 100)"
proof -
  have c: "rq_context q \<noteq> ResetGuardContext" using assms(2) by (simp add: inspectable_def)
  obtain s3 f k h where e: "node_result E s q = Some (s3, f, k, Some h)" "answer_path q (s3, f, k, h) = (s1, outs)"
    using evaluated [OF assms(5) c] .
  have "f = Some found" using e(1) assms(2,3) by (cases r) (auto simp: node_result_def inspectable_def split: option.splits)
  then have "found_reason f \<noteq> []" using assms(4) by (cases "mr_reason found") (simp_all add: found_reason_def)
  moreover have "wait_sound (pn_wait s3)" using result_wait [OF e(1)] assms(1) by (simp add: node_sound_def)
  ultimately obtain d a1 where o: "outs = [Published path_stop_and_wait (guard_text d) (md_remaining d), a1]"
    using answer_outputs [OF e(2)] by blast
  have "fst (automatic_output monitor_stop (set_path_health a path_stop_and_wait (guard_text d)) tw now) = Some (stop_msg src_safety 100)"
    using assms(6,7) by (auto simp: automatic_output_def set_path_health_def guard_text_brakes scan_is_fresh_def split: option.splits)
  then show ?thesis using o by auto
qed

subsection \<open>Paths with short segments\<close>

lemma zip_take_take: "zip (take (Suc n) xs) (take n ys) = take n (zip xs ys)"
  by (rule nth_equalityI) auto

lemma fsub_quarter: "k \<le> 2 ^ 50 \<Longrightarrow> fsub (Fin (of_nat k / 4)) (Fin (1 / 4)) = Fin ((of_nat k - 1) / 4)"
proof -
  assume "k \<le> 2 ^ 50"
  then have "\<bar>int k - 1\<bar> \<le> 2 ^ 53" by simp
  then have "fl (of_int (int k - 1) / 2 ^ 2) = Fin (of_int (int k - 1) / 2 ^ 2)" by (rule fl_dyadic) simp
  then show ?thesis by (simp add: fsub_def diff_divide_distrib)
qed

lemma starts_at_zero: "fle fzero walked \<Longrightarrow> pymax fzero (fsub fzero walked) = fzero"
proof -
  assume w: "fle fzero walked"
  have "\<not> flt fzero (fsub fzero walked)"
  proof (cases walked)
    case (Fin a)
    then have "fle (fl (- a)) (fl 0)" using w by (intro fl_mono) simp
    then show ?thesis using Fin fle_not_flt by (simp add: fsub_def)
  qed (use w in \<open>simp_all add: fsub_def fle_def\<close>)
  then show ?thesis by (simp add: pymax_def)
qed

lemma fadd_nonneg: "fle fzero x \<Longrightarrow> fle fzero y \<Longrightarrow> fle fzero (fadd x y)"
proof (cases x; cases y)
  fix a b assume "fle fzero x" "fle fzero y" "x = Fin a" "y = Fin b"
  then show ?thesis using fl_mono [of 0 "a + b"] by simp
qed (auto simp: fle_def)

definition short_segment :: "path_segment \<Rightarrow> bool" where
  "short_segment g \<longleftrightarrow> flt eps6 (sg_length g) \<and> flt (sg_length g) (Fin (1 / 4))"

lemma short_scan:
  assumes "quarter_steps P" "short_segment g" "scan_segment T P tracked m g fzero sc = Some (Scanned s1)" "sc_remaining sc = Fin (of_nat k / 4)"
    "k \<le> 2 ^ 50"
  shows "sc_remaining s1 = Fin ((of_nat k - 1) / 4)"
proof -
  have q: "fl (1 / 4) = Fin (1 / 4)" using fl_dyadic [of 1 2] by simp
  have l: "fle fzero (sg_length g)" "\<not> fle (Fin (1 / 4)) (sg_length g)"
    using assms(2) flt_not_fle [of "sg_length g"] fle_trans [of fzero eps6 "sg_length g"]
    by (auto simp: short_segment_def eps6_eq intro: flt_imp_fle)
  have u: "scan_segment T P tracked m g fzero sc =
      (case sample_cost T m g fzero of None \<Rightarrow> Some Raised
       | Some sample \<Rightarrow> (case inspect_sample P tracked sample sc of
            Inl (why, s1) \<Rightarrow> Some (Rejected why s1)
          | Inr s1 \<Rightarrow> scan_segment T P tracked m g (fadd fzero (pp_step P)) s1))"
    using l(1) assms(4) by (subst scan_segment.simps) simp
  have v: "scan_segment T P tracked m g (fadd fzero (pp_step P)) s' = Some (Scanned s')" for s'
    using l(2) assms(1) by (subst scan_segment.simps) (simp add: quarter_steps_def q)
  from assms(3) [unfolded u] obtain sample s' where "inspect_sample P tracked sample sc = Inr s'" "s' = s1"
    by (auto simp: v split: option.splits sum.splits)
  then show ?thesis using inspect_remaining fsub_quarter [OF assms(5)] assms(1,4) by (fastforce simp: quarter_steps_def)
qed

lemma short_path:
  assumes "quarter_steps P"
  shows "list_all short_segment gs \<Longrightarrow> length gs = Suc k \<Longrightarrow> k \<le> 2 ^ 50 \<Longrightarrow> sc_remaining sc = Fin (of_nat k / 4) \<Longrightarrow>
    fle fzero walked \<Longrightarrow>
    scan_path T P tracked m fzero walked sc (gs @ beyond) = scan_path T P tracked m fzero walked sc gs"
proof (induction k arbitrary: gs sc walked)
  case (Suc k)
  then obtain g hs where gs: "gs = g # hs" "short_segment g" "list_all short_segment hs" "length hs = Suc k" by (cases gs) auto
  have len: "\<not> fle (sg_length g) eps6" "fle fzero (sg_length g)"
    using gs(2) flt_not_fle fle_trans [of fzero eps6 "sg_length g"] by (auto simp: short_segment_def eps6_eq intro: flt_imp_fle)
  note w = fadd_nonneg [OF Suc.prems(5) len(2)]
  have "scan_path T P tracked m fzero (fadd walked (sg_length g)) s1 (hs @ beyond) =
      scan_path T P tracked m fzero (fadd walked (sg_length g)) s1 hs"
    if "scan_segment T P tracked m g fzero sc = Some (Scanned s1)" for s1
    using Suc.IH [OF gs(3,4) _ _ w, of s1] short_scan [OF assms gs(2) that Suc.prems(4,3)] Suc.prems(3) by simp
  then show ?case using len gs(1)
    by (cases "scan_segment T P tracked m g fzero sc") (auto simp: starts_at_zero [OF Suc.prems(5)] split: scan_outcome.splits)
next
  case 0
  then obtain g where gs: "gs = [g]" "short_segment g" by (cases gs) auto
  have len: "\<not> fle (sg_length g) eps6" using gs(2) flt_not_fle by (auto simp: short_segment_def)
  have "flt (sc_remaining s1) fzero" if "scan_segment T P tracked m g fzero sc = Some (Scanned s1)" for s1
    using short_scan [OF assms gs(2) that 0(4,3)] by simp
  then show ?case using len gs(1)
    by (cases "scan_segment T P tracked m g fzero sc") (auto simp: starts_at_zero [OF 0(5)] split: scan_outcome.splits)
qed

lemma segments_take: "path_segments T (take (Suc n) ps) = take n (path_segments T ps)"
proof -
  have "zip (take (Suc n) ps) (take n (tl ps)) = take n (zip ps (tl ps))" by (simp add: zip_take_take)
  then show ?thesis by (simp add: path_segments_def take_map tl_take)
qed

text \<open>
  Dense paths are inspected only in part: on a path that starts at the robot, whose first n + 1 segments
  are all shorter than the sample step, the scan of an inspected distance of n steps ends after n + 1
  segments however short they are, so that nothing on the rest of the path can change the result.
\<close>

lemma dense_path_is_cut:
  assumes "quarter_steps P" "pp_max_distance P = Fin (of_nat n / 4)" "n \<le> 2 ^ 50" "n + 2 \<le> length ps"
    "list_all short_segment (take (n + 1) (path_segments T ps))"
  shows "evaluate_geometry T P tracked m ps fzero error age = evaluate_geometry T P tracked m (take (n + 2) ps) fzero error age"
proof -
  have "length (path_segments T ps) = length ps - 1" by (simp add: path_segments_def)
  then have "length (take (n + 1) (path_segments T ps)) = Suc n" using assms(4) by simp
  from short_path [OF assms(1,5) this assms(3), of "new_scan P" fzero T tracked m "drop (n + 1) (path_segments T ps)"]
  have "scan_path T P tracked m fzero fzero (new_scan P) (path_segments T ps) =
      scan_path T P tracked m fzero fzero (new_scan P) (take (n + 1) (path_segments T ps))"
    by (simp add: new_scan_def assms(2))
  then show ?thesis using segments_take [of T "n + 1" ps] by (simp add: evaluate_geometry_def)
qed

subsection \<open>Witnesses\<close>

definition flat_trig :: trig where
  "flat_trig = \<lparr> tg_atan2 = (\<lambda>_ _. fzero), tg_cos = (\<lambda>_. Fin 1), tg_sin = (\<lambda>_. fzero), tg_hypot = (\<lambda>_ _. Fin (1 / 8)) \<rparr>"

definition sample_policy :: path_policy where
  "sample_policy = node_policy (Fin 12) (Fin (3 / 2)) (Fin 5) (Fin 1)"

definition empty_costmap :: costmap_view where
  "empty_costmap = \<lparr> cm_resolution = Fin 1, cm_width = 0, cm_height = 0, cm_origin = (fzero, fzero), cm_stamp = fzero, cm_data = [] \<rparr>"

definition sample_env :: path_env where
  "sample_env = \<lparr> pe_trig = flat_trig, pe_square = (\<lambda>_. Some fzero),
     pe_config = \<lparr> mc_return = Fin 1, mc_opposing = Fin 2, mc_loop = Fin 5, mc_goal_radius = Fin 1, mc_wait = Fin 15 \<rparr>,
     pe_policy = sample_policy, pe_tf_timeout = Fin 1, pe_search = Fin 4 \<rparr>"

definition sample_transform :: base_transform where
  "sample_transform = \<lparr> bt_sec = 0, bt_nanosec = 0, bt_xy = (fzero, fzero), bt_rotation = (fzero, fzero, fzero, Fin 1) \<rparr>"

definition flat_request :: "xy list \<Rightarrow> path_request" where
  "flat_request goals = \<lparr> rq_context = CandidatePath, rq_frame = ''map'', rq_points = [(fzero, fzero), (Fin (1 / 8), fzero)],
     rq_goals = goals, rq_key = 0, rq_now = fzero, rq_monotonic = fzero, rq_transform = Some sample_transform \<rparr>"

definition sample_node :: path_node where
  "sample_node = (new_path_node sample_env) \<lparr> pn_costmap := Some (''map'', empty_costmap) \<rparr>"

lemma sample_bounded: "bounded_policy sample_policy"
  by (simp add: bounded_policy_def sample_policy_def node_policy_def quarter_steps_def)

lemma request_answered_witness:
  "\<exists>s1 st why w st2 why2. on_evaluate sample_env sample_node (flat_request []) = Some (s1, [Published st why w, Answered st2 why2 w])"
  by (rule request_answered) (simp add: sample_env_def sample_bounded)

lemma candidate_admission_witness:
  "\<exists>xs. path_samples sample_policy fzero fzero (Fin 12) (path_segments flat_trig (rq_points (flat_request []))) = Some xs \<and>
    ((\<exists>h. evaluate_geometry flat_trig sample_policy False empty_costmap (rq_points (flat_request [])) fzero fzero fzero = Some (Some h) \<and>
        hr_state h = path_keep) =
     (list_all (\<lambda>x. sample_value flat_trig empty_costmap x \<noteq> None) xs \<and>
      list_all (\<lambda>x. the (sample_value flat_trig empty_costmap x) < 253) xs \<and>
      \<not> high_window 3 100 (map (the \<circ> sample_value flat_trig empty_costmap) xs)))"
proof -
  have p: "pp_max_distance sample_policy = Fin 12" "pp_lethal sample_policy = 253" "pp_high_samples sample_policy = 3" "pp_high sample_policy = 100"
    by (simp_all add: sample_policy_def node_policy_def)
  show ?thesis
    using candidate_admission [OF sample_bounded, of fzero flat_trig "rq_points (flat_request [])" empty_costmap fzero fzero] unfolding p by simp
qed

lemma flat_short: "list_all short_segment (path_segments flat_trig ps)"
  by (simp add: path_segments_def list_all_iff short_segment_def segment_of_def flat_trig_def Let_def eps6_eq split: prod.split)

lemma dense_path_is_cut_witness:
  "evaluate_geometry flat_trig sample_policy True empty_costmap (replicate 60 (fzero, fzero)) fzero fzero fzero =
   evaluate_geometry flat_trig sample_policy True empty_costmap (replicate 50 (fzero, fzero)) fzero fzero fzero"
proof -
  have p: "quarter_steps sample_policy" "pp_max_distance sample_policy = Fin (of_nat 48 / 4)"
    by (simp_all add: sample_policy_def node_policy_def quarter_steps_def)
  have "list_all short_segment (take (48 + 1) (path_segments flat_trig (replicate 60 (fzero, fzero))))"
    using flat_short [of "replicate 60 (fzero, fzero)"] by (simp add: list_all_iff) (meson in_set_takeD)
  from dense_path_is_cut [OF p _ _ this, of True empty_costmap fzero fzero] show ?thesis by (simp add: take_replicate)
qed

lemma sample_inspection:
  assumes "inspect_maneuver flat_trig (pe_config sample_env) [(fzero, fzero), (Fin (1 / 8), fzero)] fzero goals = Some found"
  shows "inspect_path sample_env sample_node (flat_request goals) = inspected sample_env sample_node (flat_request goals) (fzero, fzero) found"
proof -
  have age: "\<not> flt (Fin 1) (transform_age sample_transform fzero)"
    by (simp add: transform_age_def sample_transform_def fsub_def pymax_def) (simp add: fl_eval)
  have yaw: "robot_yaw flat_trig (\<lambda>_. Some fzero) sample_transform = Some fzero"
    by (simp add: robot_yaw_def sample_transform_def flat_trig_def)
  have n: "(sample_node \<lparr> pn_progress := fzero \<rparr>) = sample_node" by (simp add: sample_node_def new_path_node_def)
  show ?thesis
    using age yaw assms n
    by (simp add: inspect_path_def sample_env_def flat_request_def path_ahead_def rekey_def sample_transform_def Let_def)
qed

lemma sample_answer:
  assumes "inspect_maneuver flat_trig (pe_config sample_env) [(fzero, fzero), (Fin (1 / 8), fzero)] fzero goals = Some found"
  obtains s2 r s1 outs where "inspect_path sample_env sample_node (flat_request goals) = Some (s2, Some found, Some 0, r)"
    "on_evaluate sample_env sample_node (flat_request goals) = Some (s1, outs)"
proof -
  have b: "bounded_policy (pe_policy sample_env)" by (simp add: sample_env_def sample_bounded)
  have "\<exists>s2 r. inspect_path sample_env sample_node (flat_request goals) = Some (s2, Some found, Some 0, r)"
    using evaluation_ends [OF b, of "pe_trig sample_env"]
    unfolding sample_inspection [OF assms] inspected_eq by (auto simp: flat_request_def)
  then show ?thesis using that request_answered [OF b, of sample_node "flat_request goals"] by blast
qed

lemma sample_sound: "node_sound sample_node" "inspectable sample_node (flat_request goals)"
  by (simp_all add: node_sound_def wait_sound_def sample_node_def new_path_node_def inspectable_def flat_request_def)

lemma rejected_maneuver_brakes_witness:
  "\<exists>s1 outs text w. on_evaluate sample_env sample_node (flat_request [(NaN, fzero)]) = Some (s1, outs) \<and>
     Published path_stop_and_wait text w \<in> set outs \<and>
     fst (automatic_output 1 (set_path_health (new_arbiter 0 (Fin 1) (Fin 1) False) path_stop_and_wait text) (Fin 1, fzero) fzero) =
       Some (stop_msg src_safety 100)"
proof -
  have "inspect_maneuver flat_trig (pe_config sample_env) [(fzero, fzero), (Fin (1 / 8), fzero)] fzero [(NaN, fzero)] =
      Some (no_maneuver \<lparr> mr_reason := GeometryInvalid \<rparr>)"
    by (simp add: inspect_maneuver_def)
  from sample_answer [OF this] obtain s2 r s1 outs where
    i: "inspect_path sample_env sample_node (flat_request [(NaN, fzero)]) = Some (s2, Some (no_maneuver \<lparr> mr_reason := GeometryInvalid \<rparr>), Some 0, r)"
    and e: "on_evaluate sample_env sample_node (flat_request [(NaN, fzero)]) = Some (s1, outs)" .
  have a: "\<not> ab_manual (new_arbiter 0 (Fin 1) (Fin 1) False)"
    "if ab_required (new_arbiter 0 (Fin 1) (Fin 1) False) then scan_is_fresh (new_arbiter 0 (Fin 1) (Fin 1) False) fzero else True"
    by (simp_all add: new_arbiter_def)
  from rejected_maneuver_brakes [OF sample_sound i _ e a, of 1 "(Fin 1, fzero)"] e show ?thesis by auto
qed

lemma eighth: "fl (1 / 8) = Fin (1 / 8)" "fl (1 / 64) = Fin (1 / 64)" "fl (1 / 4) = Fin (1 / 4)" "fl (47 / 4) = Fin (47 / 4)"
  using fl_dyadic [of 1 3] fl_dyadic [of 1 6] fl_dyadic [of 1 2] fl_dyadic [of 47 2] by simp_all

lemma sample_maneuver: "inspect_maneuver flat_trig (pe_config sample_env) [(fzero, fzero), (Fin (1 / 8), fzero)] fzero [] = Some no_maneuver"
  by (simp add: inspect_maneuver_def inspect_leg_def flat_trig_def sample_env_def no_maneuver_def dist_xy_def eps6_eq tangents_def tangent_def
    angle_delta_def floor_cell_def loop_hit_def fsub_def pymax_def pymin_def eighth Let_def)

lemma empty_cells: "f64 (Fin a) \<Longrightarrow> f64 (Fin b) \<Longrightarrow> cell_cost empty_costmap (Fin a, Fin b) = Some 0"
  by (simp add: cell_cost_def empty_costmap_def floor_cell_def fsub_def fl_id del: f64.simps)

lemma small_corner: "\<exists>a b. corner_at (fzero, fzero) (Fin 1) fzero (fl x, fl y) = (Fin a, Fin b) \<and> f64 (Fin a) \<and> f64 (Fin b)"
  if small: "\<bar>x\<bar> \<le> 2" "\<bar>y\<bar> \<le> 2"
proof -
  have f: "\<exists>a. fl z = Fin a \<and> f64 (Fin a)" if "\<bar>z\<bar> \<le> 2" for z
  proof -
    have "fle (fl (- 2)) (fl z)" "fle (fl z) (fl 2)" using that fl_mono [of "- 2" z] fl_mono [of z 2] by auto
    then obtain a where "fl z = Fin a" using fle_between_finite [of "- 2" "fl z" 2] by auto
    then show ?thesis using f64_fl [of z] by metis
  qed
  obtain a where "fl x = Fin a" "f64 (Fin a)" using f [OF small(1)] by blast
  moreover obtain b where "fl y = Fin b" "f64 (Fin b)" using f [OF small(2)] by blast
  ultimately show ?thesis by (simp add: corner_at_def fsub_def fl_id del: f64.simps)
qed

lemma sample_footprint: "footprint_cost flat_trig empty_costmap (fzero, fzero) fzero = Some 0"
proof -
  have c: "cell_cost empty_costmap (corner_at (fzero, fzero) (Fin 1) fzero (fl x, fl y)) = Some 0" if "\<bar>x\<bar> \<le> 2" "\<bar>y\<bar> \<le> 2" for x y
    using small_corner [OF that] empty_cells by auto
  have "cell_cost empty_costmap (corner_at (fzero, fzero) (Fin 1) fzero (fzero, fzero)) = Some 0" using c [of 0 0] by simp
  then show ?thesis by (simp add: footprint_cost_def corners_def flat_trig_def c)
qed

lemma sample_track: "cross_track_error flat_trig [(fzero, fzero), (Fin (1 / 8), fzero)] (fzero, fzero) = Some (Fin (1 / 8), fzero)"
proof -
  have n: "\<not> fle (Fin (1 / 64)) (fl (1 / 10 ^ 9))" by (simp add: fl_eval)
  show ?thesis using n
    by (simp add: cross_track_error_def segment_distance_def flat_trig_def fsub_def eighth pymax_def pymin_def Let_def)
qed

lemma sample_geometry:
  "evaluate_geometry flat_trig sample_policy False empty_costmap [(fzero, fzero), (Fin (1 / 8), fzero)] fzero e age =
     Some (Some (health path_keep ''path_healthy'' age 0 1 e))"
proof -
  have g: "path_segments flat_trig [(fzero, fzero), (Fin (1 / 8), fzero)] =
      [\<lparr> sg_from = (fzero, fzero), sg_dx = Fin (1 / 8), sg_dy = fzero, sg_length = Fin (1 / 8), sg_yaw = fzero \<rparr>]" (is "_ = [?g]")
    by (simp add: path_segments_def segment_of_def flat_trig_def fsub_def eighth)
  have c: "sample_cost flat_trig empty_costmap ?g fzero = Some ((fzero, fzero), 0)"
    by (simp add: sample_cost_def sample_footprint)
  have r: "fsub (Fin 12) (Fin (1 / 4)) = Fin (47 / 4)" using eighth(4) by (simp add: fsub_def)
  define s1 where "s1 = \<lparr> sc_max = 0, sc_checked = 1, sc_sustained = 0, sc_far = None, sc_remaining = Fin (47 / 4) \<rparr>"
  have i: "inspect_sample sample_policy False ((fzero, fzero), 0) (new_scan sample_policy) = Inr s1"
    by (simp add: inspect_sample_def new_scan_def sample_policy_def node_policy_def first_far_def s1_def r)
  have "scan_segment flat_trig sample_policy False empty_costmap ?g (Fin (1 / 4)) s1 = Some (Scanned s1)"
    by (subst scan_segment.simps) simp
  then have "scan_segment flat_trig sample_policy False empty_costmap ?g fzero (new_scan sample_policy) = Some (Scanned s1)"
    by (subst scan_segment.simps) (simp add: c i, simp add: sample_policy_def node_policy_def new_scan_def eighth)
  then show ?thesis
    by (simp add: evaluate_geometry_def g eps6_eq fsub_def pymax_def s1_def health_def)
qed

lemma sample_path:
  "evaluate_path flat_trig sample_policy st (query_of sample_node (flat_request []) (fzero, fzero)) =
     Some (st, Some (health path_keep ''path_healthy'' fzero 0 1 (Fin (1 / 8))))"
proof -
  have q: "pq_costmap (query_of sample_node (flat_request []) (fzero, fzero)) = Some empty_costmap"
    "pq_path (query_of sample_node (flat_request []) (fzero, fzero)) = [(fzero, fzero), (Fin (1 / 8), fzero)]"
    "pq_robot (query_of sample_node (flat_request []) (fzero, fzero)) = (fzero, fzero)"
    "pq_tf (query_of sample_node (flat_request []) (fzero, fzero))" "\<not> pq_tracked (query_of sample_node (flat_request []) (fzero, fzero))"
    "costmap_age (query_of sample_node (flat_request []) (fzero, fzero)) empty_costmap = fzero"
    by (simp_all add: query_of_def sample_node_def flat_request_def costmap_age_def empty_costmap_def fsub_def pymax_def)
  have t: "pp_costmap_timeout sample_policy = Fin (3 / 2)" by (simp add: sample_policy_def node_policy_def)
  show ?thesis
    by (simp add: evaluate_path_def q t revision_changed_def note_revision_def evaluate_sampled_def sample_track sample_geometry)
qed

lemma motion_needs_inspected_path_witness:
  "\<exists>s1 outs. path_step sample_env sample_node (EvaluateRequest (flat_request [])) = Some (s1, outs) \<and>
     Published path_keep ''path_healthy'' fzero \<in> set outs \<and> mw_deadline (pn_wait s1) = None"
proof -
  let ?q = "flat_request []"
  have e: "pe_trig sample_env = flat_trig" "pe_policy sample_env = sample_policy" by (simp_all add: sample_env_def)
  have "inspect_path sample_env sample_node ?q = Some (sample_node, Some no_maneuver, Some 0,
      Some (health path_keep ''path_healthy'' fzero 0 1 (Fin (1 / 8))))"
    unfolding sample_inspection [OF sample_maneuver] inspected_eq e sample_path
    by (simp add: candidate_check_def health_def flat_request_def)
  then have n: "node_result sample_env sample_node ?q = Some (sample_node, Some no_maneuver, Some 0,
      Some (health path_keep ''path_healthy'' fzero 0 1 (Fin (1 / 8))))"
    by (simp add: node_result_def) (simp add: flat_request_def sample_node_def)
  have c: "rq_context ?q = CandidatePath" by (simp add: flat_request_def)
  let ?x = "(sample_node, Some no_maneuver, Some (0::nat), health path_keep ''path_healthy'' fzero 0 1 (Fin (1 / 8)))"
  have o: "on_evaluate sample_env sample_node ?q = Some (answer_path ?q ?x)" by (simp add: on_evaluate_def n c)
  obtain s1 outs where x: "answer_path ?q ?x = (s1, outs)" by fastforce
  have w: "pn_wait sample_node = \<lparr> mw_wait = Fin 15, mw_deadline = None, mw_cause = [], mw_approved = None, mw_terminal = False \<rparr>"
    by (simp add: sample_node_def new_path_node_def sample_env_def)
  have "found_reason (Some no_maneuver) = []" by (simp add: found_reason_def no_maneuver_def)
  then have "snd (answer_path ?q ?x) = [Published path_keep ''path_healthy'' fzero, Answered path_keep ''path_healthy'' fzero]"
    by (simp add: answer_path_def w wait_observe_def wait_snapshot_def health_def Let_def)
  then have s: "on_evaluate sample_env sample_node ?q = Some (s1, outs)" "Published path_keep ''path_healthy'' fzero \<in> set outs"
    using o x by simp_all
  have "bounded_policy (pe_policy sample_env)" by (simp add: e sample_bounded)
  from motion_needs_inspected_path [OF this sample_sound(1) _ s(2), of "EvaluateRequest ?q"] s show ?thesis by auto
qed

end
