(* ===== verification/Source_Selection.thy ===== *)
theory Source_Selection
  imports Prelude
begin

section \<open>Selection of the sensor sources\<close>

text \<open>
  \<open>salus_localization/imu_selection_policy.py\<close>, \<open>gnss_selection_policy.py\<close> and the policy of
  \<open>orientation_source_selector.py\<close>, with the handlers of the nodes around them. Each accepts the samples of one
  configured source and republishes them; none falls back to another source. \<open>float(x) ** 2\<close> is a parameter
  \<open>pow2f\<close>, \<open>None\<close> where it raises \<open>OverflowError\<close>.
\<close>

type_synonym squaring = "pyfloat \<Rightarrow> pyfloat option"

record stamp_msg =
  sm_frame :: string
  sm_sec :: int
  sm_nanosec :: int

record imu_msg = stamp_msg +
  im_orientation :: "pyfloat list"
  im_angular :: "pyfloat list"
  im_linear :: "pyfloat list"
  im_orientation_cov :: "pyfloat list"
  im_angular_cov :: "pyfloat list"
  im_linear_cov :: "pyfloat list"

record fix_msg = stamp_msg +
  fm_status :: int
  fm_latitude :: pyfloat
  fm_longitude :: pyfloat
  fm_altitude :: pyfloat
  fm_cov :: "pyfloat list"

definition stamp_ns :: "'a stamp_msg_scheme \<Rightarrow> int" where
  "stamp_ns m = sm_sec m * 1000000000 + sm_nanosec m"

subsection \<open>Inertial sensors\<close>

definition imu_sources :: "string list" where
  "imu_sources = [''imu_primary'', ''imu_secondary'']"

record imu_config =
  ic_selected :: string
  ic_primary_frame :: string
  ic_secondary_frame :: string

text \<open>\<open>None\<close> is the \<open>ValueError\<close>.\<close>

definition create_imu_config :: "string \<Rightarrow> string \<Rightarrow> string \<Rightarrow> imu_config option" where
  "create_imu_config selected primary secondary =
     (if selected \<notin> set imu_sources then None
      else if py_strip primary = [] \<or> py_strip secondary = [] then None
      else Some \<lparr> ic_selected = selected, ic_primary_frame = primary, ic_secondary_frame = secondary \<rparr>)"

definition expected_frame_for :: "imu_config \<Rightarrow> string \<Rightarrow> string option" where
  "expected_frame_for c source =
     (if source = ''imu_primary'' then Some (ic_primary_frame c)
      else if source = ''imu_secondary'' then Some (ic_secondary_frame c) else None)"

definition message_stamp_ns :: "'a stamp_msg_scheme \<Rightarrow> int option" where
  "message_stamp_ns m =
     (if sm_sec m < 0 \<or> \<not> (0 \<le> sm_nanosec m \<and> sm_nanosec m < 1000000000) then None
      else if 0 < stamp_ns m then Some (stamp_ns m) else None)"

definition has_only_finite_values :: "imu_msg \<Rightarrow> bool" where
  "has_only_finite_values m = list_all isfinite
     (im_orientation m @ im_angular m @ im_linear m @ im_orientation_cov m @ im_angular_cov m @ im_linear_cov m)"

fun sum_squares :: "squaring \<Rightarrow> pyfloat \<Rightarrow> pyfloat list \<Rightarrow> pyfloat option" where
  "sum_squares sq acc [] = Some acc"
| "sum_squares sq acc (x # xs) = Option.bind (sq x) (\<lambda>y. sum_squares sq (fadd acc y) xs)"

definition has_valid_known_orientation :: "squaring \<Rightarrow> imu_msg \<Rightarrow> bool option" where
  "has_valid_known_orientation sq m =
     (if feq (im_orientation_cov m ! 0) (Fin (- 1)) then Some True
      else
        Option.bind (sq (im_orientation m ! 0)) (\<lambda>x.
          map_option (\<lambda>n. flt (fl (1 / 10 ^ 12)) n) (sum_squares sq x (tl (im_orientation m)))))"

datatype selection_reason =
    UnsupportedSource | SourceNotSelected | UnexpectedFrame | InvalidStamp | NonMonotonicStamp
  | NonFiniteValue | BadQuaternion | NonFiniteCovariance | LatitudeOutOfRange | LongitudeOutOfRange
  | NotNormalized | InvalidCovariance | OrientationUnavailable | Accepted

text \<open>\<open>None\<close> is an exception; the state is the last accepted stamp.\<close>

definition not_later :: "int option \<Rightarrow> int \<Rightarrow> bool" where
  "not_later latest t = (case latest of None \<Rightarrow> False | Some l \<Rightarrow> t \<le> l)"

lemma not_later_simps [simp]: "not_later None t = False" "not_later (Some l) t = (t \<le> l)"
  by (simp_all add: not_later_def)

definition select_imu :: "squaring \<Rightarrow> imu_config \<Rightarrow> int option \<Rightarrow> string \<Rightarrow> imu_msg \<Rightarrow> (selection_reason \<times> int option) option" where
  "select_imu sq c latest source m =
     (if source \<notin> set imu_sources then Some (UnsupportedSource, latest)
      else if source \<noteq> ic_selected c then Some (SourceNotSelected, latest)
      else if Some (sm_frame m) \<noteq> expected_frame_for c source then Some (UnexpectedFrame, latest)
      else case message_stamp_ns m of
        None \<Rightarrow> Some (InvalidStamp, latest)
      | Some t \<Rightarrow>
          if not_later latest t then Some (NonMonotonicStamp, latest)
          else if \<not> has_only_finite_values m then Some (NonFiniteValue, latest)
          else map_option (\<lambda>ok. if ok then (Accepted, Some t) else (BadQuaternion, latest)) (has_valid_known_orientation sq m))"

text \<open>\<open>_on_imu\<close>: an exception leaves the state as it was.\<close>

definition on_imu :: "squaring \<Rightarrow> imu_config \<Rightarrow> int option \<Rightarrow> imu_msg \<Rightarrow> int option \<times> imu_msg list" where
  "on_imu sq c latest m =
     (case select_imu sq c latest (ic_selected c) m of
        None \<Rightarrow> (latest, [])
      | Some (why, latest1) \<Rightarrow> (latest1, if why = Accepted then [m] else []))"

subsection \<open>Satellite positions\<close>

record gnss_policy =
  gp_selected :: string
  gp_frame :: string
  gp_latest :: "int option"

definition new_gnss_policy :: "string \<Rightarrow> string \<Rightarrow> gnss_policy option" where
  "new_gnss_policy source frame =
     (let selected = py_lower (py_strip source) in
      if selected \<notin> {''gnss_primary'', ''gnss_secondary''} then None
      else if py_strip frame = [] then None
      else Some \<lparr> gp_selected = selected, gp_frame = py_strip frame, gp_latest = None \<rparr>)"

definition status_no_fix :: int where "status_no_fix = - 1"

definition position_reason :: "fix_msg \<Rightarrow> selection_reason" where
  "position_reason m =
     (if fm_status m = status_no_fix then Accepted
      else if \<not> list_all isfinite [fm_latitude m, fm_longitude m, fm_altitude m] then NonFiniteValue
      else if \<not> (fle (Fin (- 90)) (fm_latitude m) \<and> fle (fm_latitude m) (Fin 90)) then LatitudeOutOfRange
      else if \<not> (fle (Fin (- 180)) (fm_longitude m) \<and> fle (fm_longitude m) (Fin 180)) then LongitudeOutOfRange
      else Accepted)"

definition gnss_reason :: "gnss_policy \<Rightarrow> string \<Rightarrow> fix_msg \<Rightarrow> selection_reason" where
  "gnss_reason g source m =
     (if py_lower (py_strip source) \<noteq> gp_selected g then SourceNotSelected
      else if sm_frame m \<noteq> gp_frame g then UnexpectedFrame
      else if stamp_ns m \<le> 0 \<or> \<not> (0 \<le> sm_nanosec m \<and> sm_nanosec m < 1000000000) then InvalidStamp
      else if not_later (gp_latest g) (stamp_ns m) then NonMonotonicStamp
      else if \<not> list_all isfinite (fm_cov m) then NonFiniteCovariance
      else position_reason m)"

definition evaluate_gnss :: "gnss_policy \<Rightarrow> string \<Rightarrow> fix_msg \<Rightarrow> gnss_policy \<times> selection_reason" where
  "evaluate_gnss g source m =
     (let why = gnss_reason g source m
      in (if why = Accepted then g \<lparr> gp_latest := Some (stamp_ns m) \<rparr> else g, why))"

definition on_gnss :: "gnss_policy \<Rightarrow> fix_msg \<Rightarrow> gnss_policy \<times> fix_msg list" where
  "on_gnss g m = (let (g1, why) = evaluate_gnss g (gp_selected g) m in (g1, if why = Accepted then [m] else []))"

subsection \<open>Orientation\<close>

definition normalize_orientation_source :: "string \<Rightarrow> string option" where
  "normalize_orientation_source value =
     (let source = py_lower (py_strip value)
      in if source \<in> {''course_over_ground'', ''external_heading''} then Some source else None)"

record orientation_policy =
  op_selected :: string
  op_frame :: string
  op_latest :: "int option"

definition new_orientation_policy :: "string \<Rightarrow> string \<Rightarrow> orientation_policy option" where
  "new_orientation_policy source frame =
     Option.bind (normalize_orientation_source source) (\<lambda>s.
       if py_strip frame = [] then None
       else Some \<lparr> op_selected = s, op_frame = py_strip frame, op_latest = None \<rparr>)"

definition norm_squared :: "pyfloat list \<Rightarrow> pyfloat" where
  "norm_squared q = foldl fadd fzero (map (\<lambda>v. fmul v v) q)"

definition orientation_reason :: "orientation_policy \<Rightarrow> string \<Rightarrow> imu_msg \<Rightarrow> selection_reason" where
  "orientation_reason p source m =
     (if py_lower (py_strip source) \<noteq> op_selected p then SourceNotSelected
      else if sm_frame m \<noteq> op_frame p then UnexpectedFrame
      else if stamp_ns m \<le> 0 then InvalidStamp
      else if not_later (op_latest p) (stamp_ns m) then NonMonotonicStamp
      else if \<not> list_all isfinite (im_orientation m) then NonFiniteValue
      else if fle (norm_squared (im_orientation m)) (fl (1 / 10 ^ 9)) then BadQuaternion
      else if flt (fl (1 / 1000)) (fabs (fsub (norm_squared (im_orientation m)) (Fin 1))) then NotNormalized
      else if length (im_orientation_cov m) \<noteq> 9 \<or> \<not> list_all isfinite (im_orientation_cov m) then InvalidCovariance
      else if flt (im_orientation_cov m ! 0) fzero \<or> flt (im_orientation_cov m ! 4) fzero \<or>
              fle (im_orientation_cov m ! 8) fzero then OrientationUnavailable
      else Accepted)"

definition evaluate_orientation :: "orientation_policy \<Rightarrow> string \<Rightarrow> imu_msg \<Rightarrow> orientation_policy \<times> selection_reason" where
  "evaluate_orientation p source m =
     (let why = orientation_reason p source m
      in (if why = Accepted then p \<lparr> op_latest := Some (stamp_ns m) \<rparr> else p, why))"

definition on_orientation :: "orientation_policy \<Rightarrow> imu_msg \<Rightarrow> orientation_policy \<times> imu_msg list" where
  "on_orientation p m = (let (p1, why) = evaluate_orientation p (op_selected p) m in (p1, if why = Accepted then [m] else []))"

subsection \<open>A selector as a machine\<close>

text \<open>
  The interface of the three nodes: a node publishes nothing or the message it received, publishes it only when its
  stamp is later than the latest, which it then is, and only when the message is good for its configuration, which
  it does not change.
\<close>

locale selector =
  fixes step :: "'s \<Rightarrow> 'm \<Rightarrow> 's \<times> 'm list"
    and stamp :: "'m \<Rightarrow> int"
    and latest :: "'s \<Rightarrow> int option"
    and conf :: "'s \<Rightarrow> 'c"
    and good :: "'c \<Rightarrow> 'm \<Rightarrow> bool"
  assumes published: "snd (step s m) = [] \<and> latest (fst (step s m)) = latest s \<or>
      snd (step s m) = [m] \<and> latest (fst (step s m)) = Some (stamp m) \<and> good (conf s) m"
    and later: "snd (step s m) = [m] \<Longrightarrow> latest s = Some k \<Longrightarrow> k < stamp m"
    and same_conf: "conf (fst (step s m)) = conf s"
begin

lemma run_later: "latest s = Some k \<Longrightarrow> list_all (\<lambda>m. k < stamp m) (snd (run step s ms))"
proof (induction ms arbitrary: s k)
  case (Cons m ms)
  obtain s1 os where st: "step s m = (s1, os)" by fastforce
  show ?case
  proof (cases "os = []")
    case True
    then have "latest s1 = Some k" using published [of s m] st Cons.prems by auto
    then show ?thesis using Cons.IH [of s1 k] st True by (simp add: run_Cons del: run.simps(2))
  next
    case False
    then have o: "os = [m]" "latest s1 = Some (stamp m)" using published [of s m] st by auto
    then have "k < stamp m" using later [of s m k] st Cons.prems by simp
    moreover have "list_all (\<lambda>x. stamp m < stamp x) (snd (run step s1 ms))" by (rule Cons.IH [OF o(2)])
    ultimately show ?thesis using st o by (auto simp: run_Cons list_all_iff simp del: run.simps(2))
  qed
qed simp

lemma run_published: "sorted_wrt (<) (map stamp (snd (run step s ms))) \<and> list_all (good (conf s)) (snd (run step s ms))"
proof (induction ms arbitrary: s)
  case (Cons m ms)
  obtain s1 os where st: "step s m = (s1, os)" by fastforce
  have "conf s1 = conf s" using same_conf [of s m] st by simp
  then have IH: "sorted_wrt (<) (map stamp (snd (run step s1 ms)))" "list_all (good (conf s)) (snd (run step s1 ms))"
    using Cons.IH [of s1] by simp_all
  consider "os = []" | "os = [m]" "latest s1 = Some (stamp m)" "good (conf s) m" using published [of s m] st by auto
  then show ?case
  proof cases
    case 1
    then show ?thesis using IH st by (simp add: run_Cons del: run.simps(2))
  next
    case 2
    then show ?thesis using IH st run_later [OF 2(2), of ms] by (simp add: run_Cons list_all_iff del: run.simps(2))
  qed
qed simp

end

definition imu_step :: "squaring \<Rightarrow> imu_config \<times> int option \<Rightarrow> imu_msg \<Rightarrow> (imu_config \<times> int option) \<times> imu_msg list" where
  "imu_step sq s m = (let (l, os) = on_imu sq (fst s) (snd s) m in ((fst s, l), os))"

definition good_imu :: "squaring \<Rightarrow> imu_config \<Rightarrow> imu_msg \<Rightarrow> bool" where
  "good_imu sq c m \<longleftrightarrow> Some (sm_frame m) = expected_frame_for c (ic_selected c) \<and> 0 < stamp_ns m \<and>
     has_only_finite_values m \<and> has_valid_known_orientation sq m = Some True"

definition good_fix :: "string \<times> string \<Rightarrow> fix_msg \<Rightarrow> bool" where
  "good_fix c m \<longleftrightarrow> sm_frame m = snd c \<and> 0 < stamp_ns m \<and> list_all isfinite (fm_cov m) \<and>
     (fm_status m = status_no_fix \<or>
      fle (Fin (- 90)) (fm_latitude m) \<and> fle (fm_latitude m) (Fin 90) \<and>
      fle (Fin (- 180)) (fm_longitude m) \<and> fle (fm_longitude m) (Fin 180) \<and> isfinite (fm_altitude m))"

definition good_orientation :: "string \<times> string \<Rightarrow> imu_msg \<Rightarrow> bool" where
  "good_orientation c m \<longleftrightarrow> sm_frame m = snd c \<and> 0 < stamp_ns m \<and> list_all isfinite (im_orientation m) \<and>
     \<not> flt (fl (1 / 1000)) (fabs (fsub (norm_squared (im_orientation m)) (Fin 1))) \<and>
     length (im_orientation_cov m) = 9 \<and> flt fzero (im_orientation_cov m ! 8)"

lemma accepted_imu:
  "select_imu sq c latest source m = Some (Accepted, l) \<Longrightarrow>
     l = Some (stamp_ns m) \<and> \<not> not_later latest (stamp_ns m) \<and> good_imu sq c m"
  by (auto simp: select_imu_def good_imu_def message_stamp_ns_def split: if_splits option.splits)

lemma rejected_imu: "select_imu sq c latest source m = Some (why, l) \<Longrightarrow> why \<noteq> Accepted \<Longrightarrow> l = latest"
  by (auto simp: select_imu_def split: if_splits option.splits)

interpretation imu_selector: selector "imu_step sq" stamp_ns snd fst "good_imu sq" for sq
proof (unfold_locales, goal_cases)
  case (1 s m)
  then show ?case using accepted_imu [of sq "fst s" "snd s" "ic_selected (fst s)" m] rejected_imu [of sq "fst s" "snd s" "ic_selected (fst s)" m]
    by (auto simp: imu_step_def on_imu_def split: option.splits prod.splits if_splits)
next
  case (2 s m k)
  then show ?case using accepted_imu [of sq "fst s" "snd s" "ic_selected (fst s)" m]
    by (auto simp: imu_step_def on_imu_def not_later_def split: option.splits prod.splits if_splits)
qed (simp add: imu_step_def split: prod.split)

lemma accepted_fix:
  "gnss_reason g source m = Accepted \<Longrightarrow> \<not> not_later (gp_latest g) (stamp_ns m) \<and> good_fix (gp_selected g, gp_frame g) m"
  by (auto simp: gnss_reason_def good_fix_def position_reason_def split: if_splits)

interpretation gnss_selector: selector on_gnss stamp_ns gp_latest "\<lambda>g. (gp_selected g, gp_frame g)" good_fix
  by unfold_locales
     (auto simp: on_gnss_def evaluate_gnss_def Let_def dest: accepted_fix split: if_splits)

lemma accepted_orientation:
  "orientation_reason p source m = Accepted \<Longrightarrow>
     \<not> not_later (op_latest p) (stamp_ns m) \<and> good_orientation (op_selected p, op_frame p) m"
proof -
  assume a: "orientation_reason p source m = Accepted"
  have l: "length (im_orientation_cov m) = 9" "list_all isfinite (im_orientation_cov m)" "\<not> fle (im_orientation_cov m ! 8) fzero"
    using a by (auto simp: orientation_reason_def split: if_splits)
  then have "isfinite (im_orientation_cov m ! 8)" by (simp add: list_all_length)
  then have "flt fzero (im_orientation_cov m ! 8)" using l(3) by (auto simp: isfinite_iff)
  then show ?thesis using a l(1) by (auto simp: orientation_reason_def good_orientation_def split: if_splits)
qed

interpretation orientation_selector: selector on_orientation stamp_ns op_latest "\<lambda>p. (op_selected p, op_frame p)" good_orientation
  by unfold_locales
     (auto simp: on_orientation_def evaluate_orientation_def Let_def dest: accepted_orientation split: if_splits)

subsection \<open>Properties\<close>

text \<open>
  C24. One source, in order: over any history of messages, what the selectors of the inertial sensor, of the
  satellite receiver and of the orientation publish comes in strictly increasing stamps, from the configured
  frame, and each message is finite and usable: a known orientation has a quaternion that is not
  degenerate, a fix lies in the geographic range, an orientation has a unit quaternion and a positive yaw variance.
\<close>

theorem selectors_publish_usable_samples:
  "(let os = snd (run (imu_step sq) (c, None) ms) in sorted_wrt (<) (map stamp_ns os) \<and> list_all (good_imu sq c) os) \<and>
   (let os = snd (run on_gnss g fs) in sorted_wrt (<) (map stamp_ns os) \<and> list_all (good_fix (gp_selected g, gp_frame g)) os) \<and>
   (let os = snd (run on_orientation p ms) in
      sorted_wrt (<) (map stamp_ns os) \<and> list_all (good_orientation (op_selected p, op_frame p)) os)"
  using imu_selector.run_published [of sq "(c, None)" ms] gnss_selector.run_published [of g fs]
    orientation_selector.run_published [of p ms]
  by (simp add: Let_def)

end
