(* ===== verification/Wheel_Odometry.thy ===== *)
theory Wheel_Odometry
  imports Control_Logic Maneuver_Guard
begin

unbundle bit_operations_syntax

section \<open>Odometry from the wheels\<close>

text \<open>
  \<open>salus_localization/ackermann_odometry.py\<close> with its node, and \<open>kinematic_ackermann_odometry_domain.py\<close> with the
  handlers of its node. The loops of \<open>normalize_angle\<close> need not end (an infinite or huge angle is not changed by
  subtracting a turn), so they are partial functions, with \<open>None\<close> where they do not end. An exception is \<open>None\<close> inside
  the result. \<open>tan\<close> of the C library comes from a \<open>libm\<close>, \<open>sin\<close> and \<open>cos\<close> from a \<open>trig\<close>.
\<close>

subsection \<open>Angles\<close>

definition two_pi :: pyfloat where
  "two_pi = fmul (Fin 2) py_pi"

partial_function (option) raise_angle :: "pyfloat \<Rightarrow> pyfloat option" where
  "raise_angle a = (if fle a (fneg py_pi) then raise_angle (fadd a two_pi) else Some a)"

partial_function (option) lower_angle :: "pyfloat \<Rightarrow> pyfloat option" where
  "lower_angle a = (if flt py_pi a then lower_angle (fsub a two_pi) else Some a)"

definition normalize_angle :: "pyfloat \<Rightarrow> pyfloat option" where
  "normalize_angle a = Option.bind (raise_angle a) lower_angle"

subsection \<open>Integration\<close>

definition compute_yaw_rate :: "libm \<Rightarrow> pyfloat \<Rightarrow> pyfloat \<Rightarrow> pyfloat \<Rightarrow> pyfloat option" where
  "compute_yaw_rate M speed steer wheelbase =
     (if \<not> isfinite speed \<or> \<not> isfinite steer then Some fzero
      else if flt (fabs wheelbase) eps6 then Some fzero
      else Option.bind (m_tan M steer) (\<lambda>t. fdiv (fmul speed t) wheelbase))"

definition apply_measured_steer_sign :: "pyfloat \<Rightarrow> bool \<Rightarrow> pyfloat" where
  "apply_measured_steer_sign steer invert = (if \<not> isfinite steer then fzero else if invert then fneg steer else steer)"

type_synonym planar = "pyfloat \<times> pyfloat \<times> pyfloat"

text \<open>\<open>sin\<close> and \<open>cos\<close> raise on an infinity.\<close>

definition integrate_planar :: "trig \<Rightarrow> planar \<Rightarrow> pyfloat \<Rightarrow> pyfloat \<Rightarrow> pyfloat \<Rightarrow> planar option option" where
  "integrate_planar T p speed rate dt =
     (let (x, y, yaw) = p in
      if \<not> isfinite dt \<or> fle dt fzero then Some (Some p)
      else
        (let mid = fadd yaw (fmul (fmul (Fin (1 / 2)) rate) dt) in
         if mid = PInf \<or> mid = NInf then Some None
         else
           map_option (\<lambda>a. Some (fadd x (fmul (fmul speed (tg_cos T mid)) dt), fadd y (fmul (fmul speed (tg_sin T mid)) dt), a))
             (normalize_angle (fadd yaw (fmul rate dt)))))"

definition stamp_to_seconds :: "int \<Rightarrow> int \<Rightarrow> pyfloat" where
  "stamp_to_seconds sec nanosec =
     fadd (Fin (of_int sec)) (case fdiv (Fin (of_int nanosec)) (Fin 1000000000) of None \<Rightarrow> NaN | Some q \<Rightarrow> q)"

subsection \<open>The telemetry odometry node\<close>

record wheel_params =
  wl_wheelbase :: pyfloat
  wl_limit :: pyfloat
  wl_invert :: bool
  wl_max_dt :: pyfloat
  wl_require_steer :: bool

definition wheel_params_of :: "pyfloat \<Rightarrow> pyfloat \<Rightarrow> bool \<Rightarrow> pyfloat \<Rightarrow> bool \<Rightarrow> wheel_params" where
  "wheel_params_of wheelbase limit invert max_dt require_steer =
     \<lparr> wl_wheelbase = pymax eps6 wheelbase, wl_limit = fabs limit, wl_invert = invert,
       wl_max_dt = pymax (fl (1 / 100)) max_dt, wl_require_steer = require_steer \<rparr>"

record wheel_telemetry =
  dt_sec :: int
  dt_nanosec :: int
  dt_fresh :: bool
  dt_reverse :: bool
  dt_speed_valid :: bool
  dt_steer_valid :: bool
  dt_speed :: pyfloat
  dt_steer :: pyfloat

record wheel_odometry =
  wo_pose :: planar
  wo_last :: "pyfloat option"

definition new_wheel_odometry :: wheel_odometry where
  "new_wheel_odometry = \<lparr> wo_pose = (fzero, fzero, fzero), wo_last = None \<rparr>"

text \<open>What is published: the pose, the speed and the yaw rate.\<close>

type_synonym odometry_out = "planar \<times> pyfloat \<times> pyfloat"

definition radians :: "pyfloat \<Rightarrow> pyfloat" where
  "radians x = fmul x (fl (884279719003555 / 281474976710656 / 180))"

definition telemetry_motion :: "wheel_params \<Rightarrow> wheel_telemetry \<Rightarrow> pyfloat \<times> pyfloat" where
  "telemetry_motion P m =
     (let v = fabs (dt_speed m);
          steer = radians (apply_measured_steer_sign (if dt_steer_valid m then dt_steer m else fzero) (wl_invert P))
      in (if dt_reverse m then fneg v else v, pymax (fneg (wl_limit P)) (pymin (wl_limit P) steer)))"

definition telemetry_stamp :: "wheel_telemetry \<Rightarrow> pyfloat \<Rightarrow> pyfloat" where
  "telemetry_stamp m now = (let s = stamp_to_seconds (dt_sec m) (dt_nanosec m) in if fle s fzero then now else s)"

text \<open>The integration of a fresh sample; the time base moves to its stamp.\<close>

definition advance_odometry ::
    "trig \<Rightarrow> wheel_params \<Rightarrow> wheel_odometry \<Rightarrow> pyfloat \<Rightarrow> pyfloat \<Rightarrow> pyfloat \<Rightarrow> wheel_odometry option option" where
  "advance_odometry T P s stamp speed rate =
     (case wo_last s of
        None \<Rightarrow> Some (Some (s \<lparr> wo_last := Some stamp \<rparr>))
      | Some t \<Rightarrow>
          (let dt = fsub stamp t in
           if flt fzero dt \<and> fle dt (wl_max_dt P)
           then map_option (map_option (\<lambda>p. \<lparr> wo_pose = p, wo_last = Some stamp \<rparr>)) (integrate_planar T (wo_pose s) speed rate dt)
           else Some (Some (s \<lparr> wo_last := Some stamp \<rparr>))))"

definition on_drive_telemetry ::
    "libm \<Rightarrow> trig \<Rightarrow> wheel_params \<Rightarrow> wheel_odometry \<Rightarrow> wheel_telemetry \<Rightarrow> pyfloat \<Rightarrow> (wheel_odometry \<times> odometry_out list) option option" where
  "on_drive_telemetry M T P s m now =
     (if \<not> dt_speed_valid m \<or> wl_require_steer P \<and> \<not> dt_steer_valid m then Some (Some (s, []))
      else
        (let (speed, steer) = telemetry_motion P m in
         case compute_yaw_rate M speed steer (wl_wheelbase P) of
           None \<Rightarrow> Some None
         | Some rate \<Rightarrow>
             if dt_fresh m
             then map_option (map_option (\<lambda>s1. (s1, [(wo_pose s1, speed, rate)]))) (advance_odometry T P s (telemetry_stamp m now) speed rate)
             else Some (Some (s, [(wo_pose s, fzero, fzero)]))))"

subsection \<open>Kinematic samples\<close>

record kinematic_sample =
  kx_source :: string
  kx_stamp :: pyfloat
  kx_type :: int
  kx_status :: int
  kx_available :: int
  kx_measured :: int
  kx_calculated :: int
  kx_inferred :: int
  kx_value :: pyfloat

record kinematic_config =
  kg_traction :: string
  kg_steering :: string
  kg_wheelbase :: pyfloat
  kg_max_skew :: pyfloat
  kg_max_dt :: pyfloat

definition create_kinematic_config :: "string \<Rightarrow> string \<Rightarrow> pyfloat \<Rightarrow> pyfloat \<Rightarrow> pyfloat \<Rightarrow> kinematic_config option" where
  "create_kinematic_config traction steering wheelbase skew max_dt =
     (if py_strip traction = [] \<or> py_strip steering = [] then None
      else if \<not> list_all (\<lambda>v. isfinite v \<and> flt fzero v) [wheelbase, skew, max_dt] then None
      else Some \<lparr> kg_traction = py_strip traction, kg_steering = py_strip steering, kg_wheelbase = wheelbase,
        kg_max_skew = skew, kg_max_dt = max_dt \<rparr>)"

record kinematic_state =
  ks_pose :: planar
  ks_baseline :: "pyfloat option"
  ks_traction :: "kinematic_sample option"
  ks_steering :: "kinematic_sample option"

definition new_kinematic_state :: kinematic_state where
  "new_kinematic_state = \<lparr> ks_pose = (fzero, fzero, fzero), ks_baseline = None, ks_traction = None, ks_steering = None \<rparr>"

record emission =
  em_stamp :: pyfloat
  em_pose :: planar
  em_speed :: pyfloat
  em_rate :: pyfloat

text \<open>Every available field has exactly one origin.\<close>

definition consumable :: "kinematic_sample \<Rightarrow> int \<Rightarrow> int \<Rightarrow> bool" where
  "consumable s expected required \<longleftrightarrow>
     kx_status s = 1 \<and> kx_type s = expected \<and> isfinite (kx_stamp s) \<and> \<not> fle (kx_stamp s) fzero \<and> isfinite (kx_value s) \<and>
     kx_available s AND required \<noteq> 0 \<and>
     list_all (\<lambda>m. m AND (NOT (kx_available s)) = 0) [kx_measured s, kx_calculated s, kx_inferred s] \<and>
     kx_measured s AND kx_calculated s = 0 \<and> kx_measured s AND kx_inferred s = 0 \<and> kx_calculated s AND kx_inferred s = 0 \<and>
     (kx_measured s OR kx_calculated s) OR kx_inferred s = kx_available s"

definition traction_ok :: "kinematic_sample \<Rightarrow> bool" where
  "traction_ok s = consumable s 2 4"

definition steering_ok :: "kinematic_sample \<Rightarrow> bool" where
  "steering_ok s = consumable s 4 1"

text \<open>The pair of samples is consumed, used or not.\<close>

definition use_pair ::
    "libm \<Rightarrow> trig \<Rightarrow> kinematic_config \<Rightarrow> kinematic_state \<Rightarrow> kinematic_sample \<Rightarrow> kinematic_sample \<Rightarrow>
     (kinematic_state \<times> emission list) option option" where
  "use_pair M T K s traction steering =
     (if flt (kg_max_skew K) (fabs (fsub (kx_stamp traction) (kx_stamp steering))) then Some (Some (s, []))
      else
        (let stamp = pymax (kx_stamp traction) (kx_stamp steering); speed = kx_value traction in
         case compute_yaw_rate M speed (kx_value steering) (kg_wheelbase K) of
           None \<Rightarrow> Some None
         | Some rate \<Rightarrow>
             (let emit = (\<lambda>p. (s \<lparr> ks_pose := p, ks_baseline := Some stamp \<rparr>,
                    [\<lparr> em_stamp = stamp, em_pose = p, em_speed = speed, em_rate = rate \<rparr>])) in
              case ks_baseline s of
                None \<Rightarrow> Some (Some (emit (ks_pose s)))
              | Some t \<Rightarrow>
                  if fle stamp t then Some (Some (s \<lparr> ks_baseline := (if flt stamp t then None else Some t) \<rparr>, []))
                  else if flt (kg_max_dt K) (fsub stamp t) then Some (Some (emit (ks_pose s)))
                  else map_option (map_option emit) (integrate_planar T (ks_pose s) speed rate (fsub stamp t)))))"

definition pair_if_ready ::
    "libm \<Rightarrow> trig \<Rightarrow> kinematic_config \<Rightarrow> kinematic_state \<Rightarrow> (kinematic_state \<times> emission list) option option" where
  "pair_if_ready M T K s =
     (case (ks_traction s, ks_steering s) of
        (Some a, Some b) \<Rightarrow> use_pair M T K (s \<lparr> ks_traction := None, ks_steering := None \<rparr>) a b
      | _ \<Rightarrow> Some (Some (s, [])))"

definition accept_traction ::
    "libm \<Rightarrow> trig \<Rightarrow> kinematic_config \<Rightarrow> kinematic_state \<Rightarrow> kinematic_sample \<Rightarrow> (kinematic_state \<times> emission list) option option" where
  "accept_traction M T K s x =
     (if kx_source x \<noteq> kg_traction K then Some (Some (s, []))
      else if \<not> traction_ok x then Some (Some (s \<lparr> ks_traction := None \<rparr>, []))
      else pair_if_ready M T K (s \<lparr> ks_traction := Some x \<rparr>))"

definition accept_steering ::
    "libm \<Rightarrow> trig \<Rightarrow> kinematic_config \<Rightarrow> kinematic_state \<Rightarrow> kinematic_sample \<Rightarrow> (kinematic_state \<times> emission list) option option" where
  "accept_steering M T K s x =
     (if kx_source x \<noteq> kg_steering K then Some (Some (s, []))
      else if \<not> steering_ok x then Some (Some (s \<lparr> ks_steering := None \<rparr>, []))
      else pair_if_ready M T K (s \<lparr> ks_steering := Some x \<rparr>))"

datatype kinematic_event = TractionSample kinematic_sample | SteeringSample kinematic_sample

fun kinematic_step ::
    "libm \<Rightarrow> trig \<Rightarrow> kinematic_config \<Rightarrow> kinematic_state \<Rightarrow> kinematic_event \<Rightarrow> (kinematic_state \<times> emission list) option option" where
  "kinematic_step M T K s (TractionSample x) = accept_traction M T K s x"
| "kinematic_step M T K s (SteeringSample x) = accept_steering M T K s x"

text \<open>
  A history of the node, in which \<open>rclpy.spin\<close> calls one handler after the other: an exception of a handler leaves \<open>spin\<close> and ends
  the node, which is \<open>Some None\<close>; \<open>None\<close> is a handler that does not end.
\<close>

fun kinematic_run ::
    "libm \<Rightarrow> trig \<Rightarrow> kinematic_config \<Rightarrow> kinematic_state \<Rightarrow> kinematic_event list \<Rightarrow> (kinematic_state \<times> emission list) option option" where
  "kinematic_run M T K s [] = Some (Some (s, []))"
| "kinematic_run M T K s (e # es) =
     (case kinematic_step M T K s e of
        None \<Rightarrow> None
      | Some None \<Rightarrow> Some None
      | Some (Some (s1, os)) \<Rightarrow> map_option (map_option (\<lambda>(s2, os2). (s2, os @ os2))) (kinematic_run M T K s1 es))"

text \<open>The stamp of the published message, in whole seconds and nanoseconds.\<close>

definition published_stamp :: "emission \<Rightarrow> (int \<times> int) option" where
  "published_stamp e =
     (case em_stamp e of
        Fin a \<Rightarrow>
          (let sec = \<lfloor>a\<rfloor> in
           map_option (\<lambda>ns. if ns = 1000000000 then (sec + 1, 0) else (sec, ns))
             (py_round (fmul (fsub (Fin a) (Fin (of_int sec))) (Fin 1000000000))))
      | _ \<Rightarrow> None)"

subsection \<open>The normalization ends\<close>

lemma two_pi_value: "two_pi = Fin (884279719003555 / 140737488355328)"
proof -
  have "fl (of_int 884279719003555 / 2 ^ 47) = Fin (of_int 884279719003555 / 2 ^ 47)" by (rule fl_dyadic) simp_all
  then show ?thesis by (simp add: two_pi_def py_pi_def)
qed

lemma turn_down:
  assumes "884279719003555 / 281474976710656 < r" "r \<le> 2 ^ 50"
  shows "\<exists>r'. fsub (Fin r) two_pi = Fin r' \<and> \<lceil>r'\<rceil> \<le> \<lceil>r\<rceil> - 6 \<and> - 884279719003555 / 281474976710656 \<le> r' \<and> r' \<le> 2 ^ 50"
proof -
  define k where "k = \<lceil>r\<rceil>"
  have k: "r \<le> of_int k" "k \<le> 2 ^ 50" "0 \<le> k" using assms unfolding k_def by (simp_all add: ceiling_le_iff)
  have "\<bar>k - 6\<bar> \<le> 2 ^ 53" using k by auto
  then have up: "fl (of_int (k - 6)) = Fin (of_int (k - 6))" by (rule fl_of_int)
  have lo: "fl (of_int (- 884279719003555) / 2 ^ 48) = Fin (of_int (- 884279719003555) / 2 ^ 48)" by (rule fl_dyadic) simp_all
  have "fle (fl (of_int (- 884279719003555) / 2 ^ 48)) (fl (r - 884279719003555 / 140737488355328))"
    using assms(1) by (intro fl_mono) simp
  moreover have "fle (fl (r - 884279719003555 / 140737488355328)) (fl (of_int (k - 6)))"
    using k(1) by (intro fl_mono) simp
  ultimately obtain r' where r': "fl (r - 884279719003555 / 140737488355328) = Fin r'" "of_int (- 884279719003555) / 2 ^ 48 \<le> r'"
    "r' \<le> of_int (k - 6)"
    unfolding up lo using fle_between_finite by blast
  then have "\<lceil>r'\<rceil> \<le> k - 6" by (simp only: ceiling_le_iff)
  moreover have "k - 6 \<le> 2 ^ 50" using k(2) by simp
  then have "(of_int (k - 6) :: rat) \<le> of_int (2 ^ 50)" by (simp only: of_int_le_iff)
  then have "r' \<le> 2 ^ 50" using r'(3) by simp
  ultimately show ?thesis using r'(1,2) by (simp add: fsub_def two_pi_value k_def)
qed

lemma turn_up:
  assumes "r \<le> - 884279719003555 / 281474976710656" "- (2 ^ 50) \<le> r"
  shows "\<exists>r'. fadd (Fin r) two_pi = Fin r' \<and> \<lfloor>r\<rfloor> + 6 \<le> \<lfloor>r'\<rfloor> \<and> r' \<le> 884279719003555 / 281474976710656 \<and> - (2 ^ 50) \<le> r'"
proof -
  define k where "k = \<lfloor>r\<rfloor>"
  have k: "of_int k \<le> r" "- (2 ^ 50) \<le> k" "k \<le> 0" using assms unfolding k_def by (simp_all add: le_floor_iff floor_le_iff)
  have "\<bar>k + 6\<bar> \<le> 2 ^ 53" using k by auto
  then have lo: "fl (of_int (k + 6)) = Fin (of_int (k + 6))" by (rule fl_of_int)
  have up: "fl (of_int 884279719003555 / 2 ^ 48) = Fin (of_int 884279719003555 / 2 ^ 48)" by (rule fl_dyadic) simp_all
  have "fle (fl (r + 884279719003555 / 140737488355328)) (fl (of_int 884279719003555 / 2 ^ 48))"
    using assms(1) by (intro fl_mono) simp
  moreover have "fle (fl (of_int (k + 6))) (fl (r + 884279719003555 / 140737488355328))"
    using k(1) by (intro fl_mono) simp
  ultimately obtain r' where r': "fl (r + 884279719003555 / 140737488355328) = Fin r'" "r' \<le> of_int 884279719003555 / 2 ^ 48"
    "of_int (k + 6) \<le> r'"
    unfolding up lo using fle_between_finite by blast
  then have "k + 6 \<le> \<lfloor>r'\<rfloor>" by (simp only: le_floor_iff)
  moreover have "- (2 ^ 50) \<le> k + 6" using k(2) by simp
  then have "(of_int (- (2 ^ 50)) :: rat) \<le> of_int (k + 6)" by (simp only: of_int_le_iff)
  then have "- (2 ^ 50) \<le> r'" using r'(3) by simp
  ultimately show ?thesis using r'(1,2) by (simp add: two_pi_value k_def)
qed

definition pi_rat :: rat where "pi_rat = 884279719003555 / 281474976710656"

lemma py_pi_rat: "py_pi = Fin pi_rat" by (simp add: py_pi_def pi_rat_def)

lemma raise_ends: "- (2 ^ 50) \<le> r \<Longrightarrow> \<exists>r'. raise_angle (Fin r) = Some (Fin r') \<and> - pi_rat < r' \<and> r' \<le> max r pi_rat"
proof (induction "nat (- \<lfloor>r\<rfloor>)" arbitrary: r rule: less_induct)
  case less
  show ?case
  proof (cases "r \<le> - pi_rat")
    case False
    then have "raise_angle (Fin r) = Some (Fin r)" by (subst raise_angle.simps) (simp add: py_pi_rat)
    then show ?thesis using False by simp
  next
    case True
    then obtain r' where r': "fadd (Fin r) two_pi = Fin r'" "\<lfloor>r\<rfloor> + 6 \<le> \<lfloor>r'\<rfloor>" "r' \<le> pi_rat" "- (2 ^ 50) \<le> r'"
      using turn_up [of r] less.prems unfolding pi_rat_def by auto
    have "\<lfloor>r\<rfloor> < 0" using True by (simp add: pi_rat_def floor_less_iff)
    then have "nat (- \<lfloor>r'\<rfloor>) < nat (- \<lfloor>r\<rfloor>)" using r'(2) by simp
    from less.hyps [OF this r'(4)] obtain r2 where "raise_angle (Fin r') = Some (Fin r2)" "- pi_rat < r2" "r2 \<le> max r' pi_rat" by blast
    moreover have "raise_angle (Fin r) = raise_angle (Fin r')" using True r'(1) by (subst raise_angle.simps) (simp add: py_pi_rat)
    ultimately show ?thesis using r'(3) by auto
  qed
qed

lemma lower_ends: "r \<le> 2 ^ 50 \<Longrightarrow> - pi_rat \<le> r \<Longrightarrow> \<exists>r'. lower_angle (Fin r) = Some (Fin r') \<and> - pi_rat \<le> r' \<and> r' \<le> pi_rat"
proof (induction "nat (\<lceil>r\<rceil>)" arbitrary: r rule: less_induct)
  case less
  show ?case
  proof (cases "pi_rat < r")
    case False
    then have "lower_angle (Fin r) = Some (Fin r)" by (subst lower_angle.simps) (simp add: py_pi_rat)
    then show ?thesis using False less.prems by simp
  next
    case True
    then obtain r' where r': "fsub (Fin r) two_pi = Fin r'" "\<lceil>r'\<rceil> \<le> \<lceil>r\<rceil> - 6" "- pi_rat \<le> r'" "r' \<le> 2 ^ 50"
      using turn_down [of r] less.prems unfolding pi_rat_def by auto
    have "0 < \<lceil>r\<rceil>" using True by (simp add: pi_rat_def less_ceiling_iff)
    then have "nat \<lceil>r'\<rceil> < nat \<lceil>r\<rceil>" using r'(2) by simp
    from less.hyps [OF this r'(4,3)] obtain r2 where "lower_angle (Fin r') = Some (Fin r2)" "- pi_rat \<le> r2" "r2 \<le> pi_rat" by blast
    moreover have "lower_angle (Fin r) = lower_angle (Fin r')" using True r'(1) by (subst lower_angle.simps) (simp add: py_pi_rat)
    ultimately show ?thesis by auto
  qed
qed

lemma normalize_ends:
  assumes "- (2 ^ 50) \<le> r" "r \<le> 2 ^ 50"
  shows "\<exists>r'. normalize_angle (Fin r) = Some (Fin r') \<and> - pi_rat \<le> r' \<and> r' \<le> pi_rat"
proof -
  obtain a where a: "raise_angle (Fin r) = Some (Fin a)" "- pi_rat < a" "a \<le> max r pi_rat" using raise_ends [OF assms(1)] by blast
  then have "a \<le> 2 ^ 50" using assms(2) by (simp add: pi_rat_def max_def split: if_splits)
  from lower_ends [OF this] a show ?thesis by (simp add: normalize_angle_def less_imp_le)
qed

text \<open>An angle that a turn does not change makes the loop endless: here an infinite one.\<close>

lemma infinite_angle: "normalize_angle PInf = None"
proof -
  have l: "flt py_pi PInf" "\<not> fle PInf (fneg py_pi)" "fsub PInf two_pi = PInf" by (simp_all add: py_pi_def fle_def fsub_def two_pi_value)
  have "PInf \<noteq> PInf" if y: "lower_angle PInf = Some y" for y
  proof (rule lower_angle.raw_induct [of "\<lambda>a y. a \<noteq> PInf", OF _ y])
    fix f a z
    assume IH: "\<And>x w. f x = Some w \<Longrightarrow> x \<noteq> PInf" and e: "(if flt py_pi a then f (fsub a two_pi) else Some a) = Some z"
    show "a \<noteq> PInf"
    proof
      assume "a = PInf"
      then have "f PInf = Some z" using e l by simp
      from IH [OF this] show False by simp
    qed
  qed
  then have "lower_angle PInf = None" by (cases "lower_angle PInf") auto
  moreover have "raise_angle PInf = Some PInf" using l by (subst raise_angle.simps) simp
  ultimately show ?thesis by (simp add: normalize_angle_def)
qed

subsection \<open>Integration stays in range\<close>

lemma fl_bounded: "\<bar>q\<bar> \<le> 2 ^ k \<Longrightarrow> k \<le> 53 \<Longrightarrow> \<exists>a. fl q = Fin a \<and> \<bar>a\<bar> \<le> 2 ^ k"
proof -
  assume q: "\<bar>q\<bar> \<le> 2 ^ k" "k \<le> 53"
  have b: "\<bar>(2::int) ^ k\<bar> \<le> 2 ^ 53" using power_increasing [of k 53 "2 :: int"] q(2) by simp
  have e: "fl (2 ^ k) = Fin (2 ^ k)" "fl (- (2 ^ k)) = Fin (- (2 ^ k))" using fl_of_int [OF b] fl_of_int [of "- (2 ^ k)"] b by simp_all
  have "fle (fl (- (2 ^ k))) (fl q)" "fle (fl q) (fl (2 ^ k))" using q(1) by (auto intro!: fl_mono)
  then obtain a where "fl q = Fin a" "- (2 ^ k) \<le> a" "a \<le> 2 ^ k" unfolding e using fle_between_finite by blast
  then show ?thesis by auto
qed

definition mag :: "nat \<Rightarrow> pyfloat \<Rightarrow> bool" where
  "mag k x \<longleftrightarrow> (case x of Fin a \<Rightarrow> \<bar>a\<bar> \<le> 2 ^ k | _ \<Rightarrow> False)"

lemma mag_mul: "mag i x \<Longrightarrow> mag j y \<Longrightarrow> i + j \<le> 53 \<Longrightarrow> mag (i + j) (fmul x y)"
proof (cases x; cases y)
  fix a b assume "mag i x" "mag j y" "i + j \<le> 53" "x = Fin a" "y = Fin b"
  moreover then have "\<bar>a * b\<bar> \<le> 2 ^ (i + j)" by (simp add: mag_def abs_mult power_add mult_mono)
  ultimately show ?thesis using fl_bounded [of "a * b" "i + j"] by (auto simp: mag_def)
qed (simp_all add: mag_def)

lemma mag_add: "mag i x \<Longrightarrow> mag i y \<Longrightarrow> i < 53 \<Longrightarrow> mag (Suc i) (fadd x y)"
proof (cases x; cases y)
  fix a b assume "mag i x" "mag i y" "i < 53" "x = Fin a" "y = Fin b"
  moreover then have "\<bar>a + b\<bar> \<le> 2 ^ Suc i" using abs_triangle_ineq [of a b] by (simp add: mag_def)
  ultimately show ?thesis using fl_bounded [of "a + b" "Suc i"] by (auto simp: mag_def)
qed (simp_all add: mag_def)

lemma mag_mono: "mag i x \<Longrightarrow> i \<le> j \<Longrightarrow> mag j x"
  using power_increasing [of i j "2 :: rat"] by (auto simp: mag_def split: pyfloat.splits intro: order_trans)

definition yaw_ok :: "planar \<Rightarrow> bool" where
  "yaw_ok p \<longleftrightarrow> (case snd (snd p) of Fin a \<Rightarrow> - pi_rat \<le> a \<and> a \<le> pi_rat | _ \<Rightarrow> False)"

lemma yaw_within: "yaw_ok p \<Longrightarrow> mag 40 (snd (snd p))"
  by (auto simp: yaw_ok_def mag_def pi_rat_def split: pyfloat.splits)

lemma integrate_ends:
  assumes "yaw_ok p" "mag 24 rate" "mag 10 dt"
  shows "\<exists>p1. integrate_planar T p speed rate dt = Some (Some p1) \<and> yaw_ok p1"
proof -
  obtain x y yaw where p: "p = (x, y, yaw)" by (cases p)
  have r: "mag 40 (fmul rate dt)" by (rule mag_mono [OF mag_mul [OF assms(2,3)]]) simp_all
  have h: "mag 24 (fmul (Fin (1 / 2)) rate)"
    using mag_mul [of 0 "Fin (1 / 2)" 24 rate] assms(2) by (simp add: mag_def)
  have m: "mag 40 (fmul (fmul (Fin (1 / 2)) rate) dt)" by (rule mag_mono [OF mag_mul [OF h assms(3)]]) simp_all
  have w: "mag 40 yaw" using yaw_within [OF assms(1)] p by simp
  have mid: "mag 41 (fadd yaw (fmul (fmul (Fin (1 / 2)) rate) dt))" using mag_add [OF w m] by simp
  have "mag 41 (fadd yaw (fmul rate dt))" using mag_add [OF w r] by simp
  then obtain a where a: "fadd yaw (fmul rate dt) = Fin a" "- (2 ^ 50) \<le> a" "a \<le> 2 ^ 50"
    by (auto simp: mag_def abs_le_iff split: pyfloat.splits)
  from normalize_ends [OF a(2,3)] obtain b where b: "normalize_angle (Fin a) = Some (Fin b)" "- pi_rat \<le> b" "b \<le> pi_rat" by blast
  show ?thesis
    using mid a(1) b assms(1) by (auto simp: integrate_planar_def p yaw_ok_def mag_def Let_def)
qed

subsection \<open>Histories of the kinematic odometry\<close>

text \<open>The configuration and the samples of a vehicle: a wheelbase of at least 1/16 m, at most 1024 s between pairs,
  speeds up to 1024 m/s and steering angles whose tangent is at most 1024.\<close>

definition vehicle_config :: "kinematic_config \<Rightarrow> bool" where
  "vehicle_config K \<longleftrightarrow> mag 10 (kg_max_dt K) \<and> (case kg_wheelbase K of Fin b \<Rightarrow> 1 / 16 \<le> b | _ \<Rightarrow> False)"

fun vehicle_event :: "libm \<Rightarrow> kinematic_event \<Rightarrow> bool" where
  "vehicle_event M (TractionSample x) = mag 10 (kx_value x)"
| "vehicle_event M (SteeringSample x) = (case m_tan M (kx_value x) of None \<Rightarrow> False | Some t \<Rightarrow> mag 10 t)"

lemma rate_within:
  assumes "mag 10 v" "m_tan M d = Some t" "mag 10 t" "wb = Fin b" "1 / 16 \<le> b" "isfinite d"
  shows "\<exists>rate. compute_yaw_rate M v d wb = Some rate \<and> mag 24 rate"
proof -
  have "mag 20 (fmul v t)" using mag_mul [OF assms(1,3)] by simp
  then obtain a where a: "fmul v t = Fin a" "\<bar>a\<bar> \<le> 2 ^ 20" by (auto simp: mag_def split: pyfloat.splits)
  have "\<bar>a / b\<bar> \<le> 2 ^ 20 / (1 / 16)" using a(2) assms(5) by (simp only: abs_divide) (rule frac_le, simp_all)
  then obtain q where "fl (a / b) = Fin q" "\<bar>q\<bar> \<le> 2 ^ 24" using fl_bounded [of "a / b" 24] by auto
  moreover have "isfinite v" using assms(1) by (simp add: mag_def split: pyfloat.splits)
  moreover have "\<not> flt (fabs wb) eps6" using assms(4,5) by (simp add: eps6_eq)
  ultimately show ?thesis using a(1) assms by (simp add: compute_yaw_rate_def mag_def)
qed

text \<open>What a state keeps: a yaw in range and pending samples that were checked when they came.\<close>

definition kinematic_inv :: "libm \<Rightarrow> kinematic_state \<Rightarrow> bool" where
  "kinematic_inv M s \<longleftrightarrow> yaw_ok (ks_pose s) \<and> (case ks_baseline s of None \<Rightarrow> True | Some t \<Rightarrow> isfinite t) \<and>
     (case ks_traction s of None \<Rightarrow> True | Some x \<Rightarrow> traction_ok x \<and> vehicle_event M (TractionSample x)) \<and>
     (case ks_steering s of None \<Rightarrow> True | Some x \<Rightarrow> steering_ok x \<and> vehicle_event M (SteeringSample x))"

lemma consumable_finite: "consumable x a b \<Longrightarrow> isfinite (kx_value x) \<and> isfinite (kx_stamp x)"
  by (simp add: consumable_def)

lemma later_gap: "\<not> fle stamp t \<Longrightarrow> \<not> flt m (fsub stamp t) \<Longrightarrow> isfinite stamp \<Longrightarrow> isfinite t \<Longrightarrow> mag 10 m \<Longrightarrow> mag 10 (fsub stamp t)"
proof -
  assume a: "\<not> fle stamp t" "\<not> flt m (fsub stamp t)" "isfinite stamp" "isfinite t" "mag 10 m"
  then obtain x y c where f: "stamp = Fin x" "t = Fin y" "m = Fin c" "c \<le> 2 ^ 10"
    by (auto simp: isfinite_iff mag_def split: pyfloat.splits)
  have "fle (fl 0) (fl (x - y))" using a(1) f by (intro fl_mono) simp
  then have "fle (Fin 0) (fsub stamp t)" "fle (fsub stamp t) (Fin c)"
    using a(2) f not_flt [of m "fsub stamp t"] by (simp_all add: fsub_def)
  then obtain q where "fsub stamp t = Fin q" "0 \<le> q" "q \<le> c" using fle_between_finite by blast
  then show ?thesis using f(4) by (simp add: mag_def)
qed

lemma inv_source: "kinematic_inv M s \<Longrightarrow> traction_ok x \<Longrightarrow> vehicle_event M (TractionSample x) \<Longrightarrow> kinematic_inv M (s \<lparr> ks_traction := Some x \<rparr>)"
  "kinematic_inv M s \<Longrightarrow> steering_ok y \<Longrightarrow> vehicle_event M (SteeringSample y) \<Longrightarrow> kinematic_inv M (s \<lparr> ks_steering := Some y \<rparr>)"
  "kinematic_inv M s \<Longrightarrow> kinematic_inv M (s \<lparr> ks_traction := None \<rparr>)"
  "kinematic_inv M s \<Longrightarrow> kinematic_inv M (s \<lparr> ks_steering := None \<rparr>)"
  by (simp_all add: kinematic_inv_def)

text \<open>Why a pose moved: from a baseline that is not too old, by a pair of checked samples that belong together.\<close>

definition moved_by :: "kinematic_config \<Rightarrow> kinematic_state \<Rightarrow> kinematic_sample \<Rightarrow> kinematic_sample \<Rightarrow> bool" where
  "moved_by K s a b \<longleftrightarrow> traction_ok a \<and> steering_ok b \<and>
     \<not> flt (kg_max_skew K) (fabs (fsub (kx_stamp a) (kx_stamp b))) \<and>
     (case ks_baseline s of None \<Rightarrow> False
      | Some t \<Rightarrow> \<not> fle (pymax (kx_stamp a) (kx_stamp b)) t \<and> \<not> flt (kg_max_dt K) (fsub (pymax (kx_stamp a) (kx_stamp b)) t))"

lemma use_pair_ok:
  assumes "vehicle_config K" "kinematic_inv M s" "traction_ok a" "steering_ok b"
    "vehicle_event M (TractionSample a)" "vehicle_event M (SteeringSample b)"
  shows "\<exists>s1 os. use_pair M T K s a b = Some (Some (s1, os)) \<and> kinematic_inv M s1 \<and> length os \<le> 1 \<and>
    ks_traction s1 = ks_traction s \<and> ks_steering s1 = ks_steering s \<and>
    (ks_pose s1 = ks_pose s \<or> moved_by K s a b) \<and> list_all (\<lambda>e. em_pose e = ks_pose s1) os"
proof (cases "flt (kg_max_skew K) (fabs (fsub (kx_stamp a) (kx_stamp b)))")
  case True
  then show ?thesis using assms(2) by (simp add: use_pair_def)
next
  case False
  define stamp where "stamp = pymax (kx_stamp a) (kx_stamp b)"
  have fin: "isfinite (kx_value b)" "isfinite stamp"
    using assms(3,4) consumable_finite by (auto simp: traction_ok_def steering_ok_def stamp_def pymax_def)
  obtain t where t: "m_tan M (kx_value b) = Some t" "mag 10 t" using assms(6) by (auto split: option.splits)
  obtain wb where wb: "kg_wheelbase K = Fin wb" "1 / 16 \<le> wb" "mag 10 (kg_max_dt K)"
    using assms(1) by (auto simp: vehicle_config_def split: pyfloat.splits)
  obtain rate where rate: "compute_yaw_rate M (kx_value a) (kx_value b) (kg_wheelbase K) = Some rate" "mag 24 rate"
    using rate_within [OF _ t wb(1,2) fin(1)] assms(5) wb(1) by auto
  have inv: "kinematic_inv M (s \<lparr> ks_pose := p, ks_baseline := Some stamp \<rparr>)" if "yaw_ok p" for p
    using assms(2) that fin(2) by (simp add: kinematic_inv_def)
  have pose: "yaw_ok (ks_pose s)" using assms(2) by (simp add: kinematic_inv_def)
  show ?thesis
  proof (cases "ks_baseline s")
    case None
    then show ?thesis using False rate inv [OF pose] by (simp add: use_pair_def stamp_def [symmetric] Let_def)
  next
    case (Some t0)
    have t0: "isfinite t0" using assms(2) Some by (simp add: kinematic_inv_def)
    show ?thesis
    proof (cases "fle stamp t0")
      case True
      then show ?thesis using False rate Some assms(2) t0
        by (simp add: use_pair_def stamp_def [symmetric] Let_def kinematic_inv_def)
    next
      case later: False
      show ?thesis
      proof (cases "flt (kg_max_dt K) (fsub stamp t0)")
        case True
        then show ?thesis using False rate Some later inv [OF pose] by (simp add: use_pair_def stamp_def [symmetric] Let_def)
      next
        case near: False
        have "mag 10 (fsub stamp t0)" by (rule later_gap [OF later near fin(2) t0 wb(3)])
        from integrate_ends [OF pose rate(2) this] obtain p1 where
          p1: "integrate_planar T (ks_pose s) (kx_value a) rate (fsub stamp t0) = Some (Some p1)" "yaw_ok p1" by blast
        have "moved_by K s a b" using assms(3,4) False later near Some by (simp add: moved_by_def stamp_def)
        then show ?thesis using False rate Some later near inv [OF p1(2)] p1(1)
          by (simp add: use_pair_def stamp_def [symmetric] Let_def)
      qed
    qed
  qed
qed

definition pending :: "'a option \<Rightarrow> nat" where
  "pending x = (if x = None then 0 else 1)"

fun traction_count :: "kinematic_event list \<Rightarrow> nat" where
  "traction_count es = length (filter (\<lambda>e. case e of TractionSample x \<Rightarrow> True | _ \<Rightarrow> False) es)"

fun steering_count :: "kinematic_event list \<Rightarrow> nat" where
  "steering_count es = length (filter (\<lambda>e. case e of SteeringSample x \<Rightarrow> True | _ \<Rightarrow> False) es)"

text \<open>One step: it ends without an exception, and a pose that moved did so by a pair that the event completed.\<close>

definition step_fine :: "libm \<Rightarrow> kinematic_config \<Rightarrow> kinematic_state \<Rightarrow> kinematic_event \<Rightarrow> kinematic_state \<Rightarrow> emission list \<Rightarrow> bool" where
  "step_fine M K s e s1 os \<longleftrightarrow> kinematic_inv M s1 \<and>
     length os + pending (ks_traction s1) \<le> pending (ks_traction s) + traction_count [e] \<and>
     length os + pending (ks_steering s1) \<le> pending (ks_steering s) + steering_count [e] \<and>
     (ks_pose s1 = ks_pose s \<or>
      (\<exists>a b. moved_by K s a b \<and> (e = TractionSample a \<and> ks_steering s = Some b \<or> e = SteeringSample b \<and> ks_traction s = Some a)))"

lemma traction_step:
  assumes "vehicle_config K" "kinematic_inv M s" "vehicle_event M (TractionSample x)"
  shows "\<exists>s1 os. accept_traction M T K s x = Some (Some (s1, os)) \<and> step_fine M K s (TractionSample x) s1 os"
proof (cases "kx_source x = kg_traction K \<and> traction_ok x")
  case False
  then show ?thesis using assms(2) inv_source(3) [OF assms(2)]
    by (auto simp: accept_traction_def step_fine_def pending_def)
next
  case True
  then have e: "accept_traction M T K s x = pair_if_ready M T K (s \<lparr> ks_traction := Some x \<rparr>)" by (simp add: accept_traction_def)
  show ?thesis
  proof (cases "ks_steering s")
    case None
    then show ?thesis using inv_source(1) [OF assms(2)] True assms(3) by (simp add: e pair_if_ready_def step_fine_def pending_def)
  next
    case (Some b)
    define s0 where "s0 = s \<lparr> ks_traction := None, ks_steering := None \<rparr>"
    have b: "steering_ok b" "vehicle_event M (SteeringSample b)" using assms(2) Some by (simp_all add: kinematic_inv_def)
    have i: "kinematic_inv M s0" using inv_source(4) [OF inv_source(3) [OF assms(2)]] by (simp add: s0_def)
    obtain s1 os where u: "use_pair M T K s0 x b = Some (Some (s1, os))" "kinematic_inv M s1" "length os \<le> 1"
      "ks_traction s1 = None" "ks_steering s1 = None" "ks_pose s1 = ks_pose s0 \<or> moved_by K s0 x b"
      using use_pair_ok [OF assms(1) i _ b(1) assms(3) b(2), of T] True by (auto simp: s0_def)
    have "accept_traction M T K s x = Some (Some (s1, os))" using u(1) Some by (simp add: e pair_if_ready_def s0_def)
    moreover have "moved_by K s0 x b = moved_by K s x b" "ks_pose s0 = ks_pose s" by (simp_all add: moved_by_def s0_def)
    ultimately show ?thesis using u(2-6) Some by (auto simp: step_fine_def pending_def)
  qed
qed

lemma steering_step:
  assumes "vehicle_config K" "kinematic_inv M s" "vehicle_event M (SteeringSample x)"
  shows "\<exists>s1 os. accept_steering M T K s x = Some (Some (s1, os)) \<and> step_fine M K s (SteeringSample x) s1 os"
proof (cases "kx_source x = kg_steering K \<and> steering_ok x")
  case False
  then show ?thesis using assms(2) inv_source(4) [OF assms(2)]
    by (auto simp: accept_steering_def step_fine_def pending_def)
next
  case True
  then have e: "accept_steering M T K s x = pair_if_ready M T K (s \<lparr> ks_steering := Some x \<rparr>)" by (simp add: accept_steering_def)
  show ?thesis
  proof (cases "ks_traction s")
    case None
    then show ?thesis using inv_source(2) [OF assms(2)] True assms(3) by (simp add: e pair_if_ready_def step_fine_def pending_def)
  next
    case (Some a)
    define s0 where "s0 = s \<lparr> ks_traction := None, ks_steering := None \<rparr>"
    have a: "traction_ok a" "vehicle_event M (TractionSample a)" using assms(2) Some by (simp_all add: kinematic_inv_def)
    have i: "kinematic_inv M s0" using inv_source(4) [OF inv_source(3) [OF assms(2)]] by (simp add: s0_def)
    obtain s1 os where u: "use_pair M T K s0 a x = Some (Some (s1, os))" "kinematic_inv M s1" "length os \<le> 1"
      "ks_traction s1 = None" "ks_steering s1 = None" "ks_pose s1 = ks_pose s0 \<or> moved_by K s0 a x"
      using use_pair_ok [OF assms(1) i a(1) _ a(2) assms(3), of T] True by (auto simp: s0_def)
    have "accept_steering M T K s x = Some (Some (s1, os))" using u(1) Some by (simp add: e pair_if_ready_def s0_def)
    moreover have "moved_by K s0 a x = moved_by K s a x" "ks_pose s0 = ks_pose s" by (simp_all add: moved_by_def s0_def)
    ultimately show ?thesis using u(2-6) Some by (auto simp: step_fine_def pending_def)
  qed
qed

lemma event_step:
  "vehicle_config K \<Longrightarrow> kinematic_inv M s \<Longrightarrow> vehicle_event M e \<Longrightarrow>
     \<exists>s1 os. kinematic_step M T K s e = Some (Some (s1, os)) \<and> step_fine M K s e s1 os"
  using traction_step steering_step by (cases e) simp_all

lemma history_fine:
  assumes "vehicle_config K"
  shows "kinematic_inv M s \<Longrightarrow> list_all (vehicle_event M) es \<Longrightarrow>
    \<exists>s1 os. kinematic_run M T K s es = Some (Some (s1, os)) \<and> kinematic_inv M s1 \<and>
      length os + pending (ks_traction s1) \<le> pending (ks_traction s) + traction_count es \<and>
      length os + pending (ks_steering s1) \<le> pending (ks_steering s) + steering_count es"
proof (induction es arbitrary: s)
  case (Cons e es)
  obtain s1 os where st: "kinematic_step M T K s e = Some (Some (s1, os))" "step_fine M K s e s1 os"
    using event_step [OF assms Cons.prems(1), of e T] Cons.prems(2) by auto
  then have "kinematic_inv M s1" by (simp add: step_fine_def)
  from Cons.IH [OF this] Cons.prems(2) obtain s2 os2 where "kinematic_run M T K s1 es = Some (Some (s2, os2))" "kinematic_inv M s2"
    "length os2 + pending (ks_traction s2) \<le> pending (ks_traction s1) + traction_count es"
    "length os2 + pending (ks_steering s2) \<le> pending (ks_steering s1) + steering_count es" by auto
  then show ?case using st by (auto simp: step_fine_def)
qed simp

lemma new_kinematic_inv: "kinematic_inv M new_kinematic_state"
  by (simp add: kinematic_inv_def new_kinematic_state_def yaw_ok_def pi_rat_def)

subsection \<open>Properties\<close>

text \<open>
  C22. The kinematic odometry never hangs and never raises: on the samples of a vehicle, every handler of any history ends without
  an exception (one that raised would make the run \<open>Some None\<close>), the yaw stays within a half turn to either side, and no sample is used for two
  messages: there are at most as many messages as samples of traction, and of steering.
\<close>

theorem odometry_always_answers:
  assumes "vehicle_config K" "list_all (vehicle_event M) es"
  shows "\<exists>s os. kinematic_run M T K new_kinematic_state es = Some (Some (s, os)) \<and> yaw_ok (ks_pose s) \<and>
    length os \<le> traction_count es \<and> length os \<le> steering_count es"
  using history_fine [OF assms(1) new_kinematic_inv assms(2), of T]
  by (auto simp: kinematic_inv_def new_kinematic_state_def pending_def split: if_splits)

text \<open>
  The pose moves only on fresh pairs: when, after any history, an event moves the pose, then it completed a
  pair of a traction and a steering sample that both say where each of their fields comes from and are close in time, and the
  time since the last pair is positive and at most \<open>max_dt_s\<close>.
\<close>

lemma pose_moves_on_fresh_pairs:
  assumes "vehicle_config K" "list_all (vehicle_event M) (es @ [e])"
    "kinematic_run M T K new_kinematic_state es = Some (Some (s, os))" "kinematic_step M T K s e = Some (Some (s1, os1))" "ks_pose s1 \<noteq> ks_pose s"
  shows "\<exists>a b. moved_by K s a b \<and> (e = TractionSample a \<and> ks_steering s = Some b \<or> e = SteeringSample b \<and> ks_traction s = Some a)"
proof -
  have "kinematic_inv M s" using history_fine [OF assms(1) new_kinematic_inv, of M es T] assms(2,3) by auto
  then have "step_fine M K s e s1 os1" using event_step [OF assms(1), of M s e T] assms(2,4) by auto
  then show ?thesis using assms(5) by (auto simp: step_fine_def)
qed

subsection \<open>Witnesses\<close>

definition flat_libm :: libm where
  "flat_libm = \<lparr> m_atan = (\<lambda>_. fzero), m_tan = (\<lambda>_. Some fzero) \<rparr>"

definition east_trig :: trig where
  "east_trig = \<lparr> tg_atan2 = (\<lambda>_ _. fzero), tg_cos = (\<lambda>_. Fin 1), tg_sin = (\<lambda>_. fzero), tg_hypot = (\<lambda>_ _. fzero) \<rparr>"

definition wheel_config :: kinematic_config where
  "wheel_config = \<lparr> kg_traction = ''t'', kg_steering = ''s'', kg_wheelbase = Fin 1, kg_max_skew = Fin 1, kg_max_dt = Fin 2 \<rparr>"

definition traction_at :: "rat \<Rightarrow> kinematic_sample" where
  "traction_at t = \<lparr> kx_source = ''t'', kx_stamp = Fin t, kx_type = 2, kx_status = 1, kx_available = 4, kx_measured = 4,
     kx_calculated = 0, kx_inferred = 0, kx_value = Fin 1 \<rparr>"

definition steering_at :: "rat \<Rightarrow> kinematic_sample" where
  "steering_at t = \<lparr> kx_source = ''s'', kx_stamp = Fin t, kx_type = 4, kx_status = 1, kx_available = 1, kx_measured = 1,
     kx_calculated = 0, kx_inferred = 0, kx_value = fzero \<rparr>"

abbreviation sample_traction :: "rat \<Rightarrow> kinematic_event" where
  "sample_traction t \<equiv> TractionSample (traction_at t)"

abbreviation sample_steering :: "rat \<Rightarrow> kinematic_event" where
  "sample_steering t \<equiv> SteeringSample (steering_at t)"

lemma sample_vehicle: "vehicle_config wheel_config" "vehicle_event flat_libm (sample_traction t)" "vehicle_event flat_libm (sample_steering t)"
  by (simp_all add: vehicle_config_def wheel_config_def mag_def traction_at_def steering_at_def flat_libm_def)

lemma sample_checked: "0 < t \<Longrightarrow> traction_ok (traction_at t)" "0 < t \<Longrightarrow> steering_ok (steering_at t)"
  by (simp_all add: traction_ok_def steering_ok_def consumable_def traction_at_def steering_at_def)

lemma odometry_always_answers_witness:
  "\<exists>s os. kinematic_run flat_libm east_trig wheel_config new_kinematic_state [sample_traction 10, sample_steering 10] = Some (Some (s, os)) \<and>
     length os \<le> 1"
  using odometry_always_answers [OF sample_vehicle(1), of flat_libm "[sample_traction 10, sample_steering 10]" east_trig] sample_vehicle(2,3)
  by auto

text \<open>The states on the way: waiting for the steering, and after a pair.\<close>

definition waiting :: "rat \<Rightarrow> kinematic_state \<Rightarrow> kinematic_state" where
  "waiting t s = s \<lparr> ks_traction := Some (traction_at t) \<rparr>"

definition at_rest :: "pyfloat option \<Rightarrow> kinematic_state" where
  "at_rest b = new_kinematic_state \<lparr> ks_baseline := b \<rparr>"

definition sample_emission :: "rat \<Rightarrow> emission" where
  "sample_emission t = \<lparr> em_stamp = Fin t, em_pose = (fzero, fzero, fzero), em_speed = Fin 1, em_rate = fzero \<rparr>"

lemma wait_pair: "0 < t \<Longrightarrow> kinematic_step M T wheel_config (at_rest b) (sample_traction t) = Some (Some (waiting t (at_rest b), []))"
  using sample_checked(1) [of t]
  by (simp add: accept_traction_def pair_if_ready_def at_rest_def new_kinematic_state_def waiting_def wheel_config_def)
     (simp add: traction_at_def)

lemma steer_step: "0 < t \<Longrightarrow> kinematic_step M T wheel_config (waiting t (at_rest b)) (sample_steering t) =
    use_pair M T wheel_config (at_rest b) (traction_at t) (steering_at t)"
proof -
  assume "0 < t"
  then have "steering_ok (steering_at t)" by (rule sample_checked)
  moreover have "kx_source (steering_at t) = kg_steering wheel_config" by (simp add: steering_at_def wheel_config_def)
  ultimately show ?thesis by (simp add: accept_steering_def pair_if_ready_def waiting_def at_rest_def new_kinematic_state_def)
qed

lemma pair_facts:
  "\<not> flt (kg_max_skew wheel_config) (fabs (fsub (kx_stamp (traction_at t)) (kx_stamp (steering_at t))))"
  "pymax (kx_stamp (traction_at t)) (kx_stamp (steering_at t)) = Fin t"
  "compute_yaw_rate flat_libm (kx_value (traction_at t)) (kx_value (steering_at t)) (kg_wheelbase wheel_config) = Some fzero"
  "kx_value (traction_at t) = Fin 1" "kg_max_dt wheel_config = Fin 2"
  by (simp_all add: traction_at_def steering_at_def wheel_config_def fsub_def pymax_def compute_yaw_rate_def flat_libm_def eps6_eq)

lemma first_pair: "use_pair flat_libm T wheel_config (at_rest None) (traction_at t) (steering_at t) =
    Some (Some (at_rest (Some (Fin t)), [sample_emission t]))"
  unfolding use_pair_def Let_def pair_facts(1-3) by (simp add: at_rest_def new_kinematic_state_def sample_emission_def pair_facts)

lemma earlier_pair: "t < u \<Longrightarrow> use_pair flat_libm T wheel_config (at_rest (Some (Fin u))) (traction_at t) (steering_at t) =
    Some (Some (at_rest None, []))"
  unfolding use_pair_def Let_def pair_facts(1-3) by (simp add: at_rest_def new_kinematic_state_def pair_facts)

lemma second_pair: "use_pair flat_libm east_trig wheel_config (at_rest (Some (Fin 10))) (traction_at 11) (steering_at 11) =
    Some (Some (at_rest (Some (Fin 11)) \<lparr> ks_pose := (Fin 1, fzero, fzero) \<rparr>, [sample_emission 11 \<lparr> em_pose := (Fin 1, fzero, fzero) \<rparr>]))"
proof -
  have "normalize_angle fzero = Some fzero"
    by (simp add: normalize_angle_def raise_angle.simps [of fzero] lower_angle.simps [of fzero] py_pi_def)
  then have "integrate_planar east_trig (fzero, fzero, fzero) (Fin 1) fzero (Fin 1) = Some (Some (Fin 1, fzero, fzero))"
    by (simp add: integrate_planar_def east_trig_def Let_def)
  moreover have gap: "fsub (Fin 11) (Fin 10) = Fin 1" by (simp add: fsub_def)
  ultimately show ?thesis
    unfolding use_pair_def Let_def pair_facts(1-3) using gap
    by (simp add: at_rest_def new_kinematic_state_def pair_facts sample_emission_def)
qed

lemma new_at_rest: "new_kinematic_state = at_rest None"
  by (simp add: at_rest_def new_kinematic_state_def)

lemma pose_moves_on_fresh_pairs_witness:
  "\<exists>a b. moved_by wheel_config (waiting 11 (at_rest (Some (Fin 10)))) a b \<and> sample_steering 11 = SteeringSample b"
proof -
  have r: "kinematic_run flat_libm east_trig wheel_config new_kinematic_state [sample_traction 10, sample_steering 10, sample_traction 11] =
      Some (Some (waiting 11 (at_rest (Some (Fin 10))), [sample_emission 10]))"
    by (simp add: new_at_rest wait_pair steer_step first_pair del: kinematic_step.simps)
  have s: "kinematic_step flat_libm east_trig wheel_config (waiting 11 (at_rest (Some (Fin 10)))) (sample_steering 11) =
      Some (Some (at_rest (Some (Fin 11)) \<lparr> ks_pose := (Fin 1, fzero, fzero) \<rparr>, [sample_emission 11 \<lparr> em_pose := (Fin 1, fzero, fzero) \<rparr>]))"
    by (simp add: steer_step second_pair del: kinematic_step.simps)
  have p: "ks_pose (at_rest (Some (Fin 11)) \<lparr> ks_pose := (Fin 1, fzero, fzero) \<rparr>) \<noteq> ks_pose (waiting 11 (at_rest (Some (Fin 10))))"
    by (simp add: at_rest_def waiting_def new_kinematic_state_def)
  show ?thesis
    using pose_moves_on_fresh_pairs [OF sample_vehicle(1) _ r s p] sample_vehicle(2,3) by auto
qed

text \<open>
  The comment \<open>Never publish a non-monotonic odometry timestamp\<close> does not hold: a pair with an
  earlier stamp publishes nothing but forgets the time base, so the next pair is published with its stamp whatever was
  published before. Here the pairs at 10, 5 and 6 seconds publish the stamps 10 and 6.
\<close>

lemma odometry_stamps_regress:
  "\<exists>s os. kinematic_run flat_libm east_trig wheel_config new_kinematic_state
      [sample_traction 10, sample_steering 10, sample_traction 5, sample_steering 5, sample_traction 6, sample_steering 6] = Some (Some (s, os)) \<and>
    map em_stamp os = [Fin 10, Fin 6]"
  by (simp add: new_at_rest wait_pair steer_step first_pair earlier_pair sample_emission_def del: kinematic_step.simps)

end
