(* ===== verification/Course_Heading.thy ===== *)
theory Course_Heading
  imports Wheel_Odometry
begin

section \<open>Heading from the course over ground\<close>

text \<open>
  \<open>salus_localization/heading_turn_policy.py\<close> and \<open>gps_course_heading.py\<close>: the classification of turns from the
  motion samples, the estimator that takes a heading from two satellite fixes, and the node around it. The attributes
  that are only written (\<open>last_valid\<close>, \<open>last_valid_at\<close>, the limits of steering and yaw rate) are left out. \<open>sin\<close>, \<open>cos\<close>, \<open>atan2\<close>
  and \<open>hypot\<close> come from a \<open>trig\<close>.
\<close>

subsection \<open>The turn policy\<close>

record turn_config =
  tc_enter_rate :: pyfloat
  tc_exit_rate :: pyfloat
  tc_enter_duration :: pyfloat
  tc_exit_duration :: pyfloat
  tc_min_speed :: pyfloat
  tc_min_steer :: pyfloat
  tc_max_age :: pyfloat
  tc_max_excursion :: pyfloat

definition turn_config_ok :: "turn_config \<Rightarrow> bool" where
  "turn_config_ok c \<longleftrightarrow>
     list_all (\<lambda>v. isfinite v \<and> flt fzero v) [tc_enter_rate c, tc_exit_rate c, tc_enter_duration c, tc_exit_duration c, tc_min_speed c,
       tc_min_steer c, tc_max_age c, tc_max_excursion c] \<and> \<not> fle (tc_enter_rate c) (tc_exit_rate c)"

datatype turn_state = TurnNormal | StrongTurn | Reacquire

datatype turn_reason = NoMotion | MotionInvalid | MotionContradictory | InState turn_state

record turn_policy =
  tp_state :: turn_state
  tp_reason :: turn_reason
  tp_last :: "pyfloat option"
  tp_confirm :: "pyfloat option"
  tp_angle :: pyfloat
  tp_history :: "(pyfloat \<times> pyfloat) list"
  tp_generation :: nat

definition new_turn_policy :: turn_policy where
  "new_turn_policy = \<lparr> tp_state = TurnNormal, tp_reason = NoMotion, tp_last = None, tp_confirm = None, tp_angle = fzero, tp_history = [],
     tp_generation = 0 \<rparr>"

record motion_sample =
  mo_stamp :: pyfloat
  mo_now :: pyfloat
  mo_speed :: pyfloat
  mo_steer :: pyfloat
  mo_valid :: bool
  mo_rate :: pyfloat

text \<open>\<open>0 <= now - stamp <= limit\<close>.\<close>

definition fresh_by :: "pyfloat \<Rightarrow> pyfloat \<Rightarrow> pyfloat \<Rightarrow> bool" where
  "fresh_by limit now stamp \<longleftrightarrow> fle fzero (fsub now stamp) \<and> fle (fsub now stamp) limit"

definition motion_rejected :: "turn_config \<Rightarrow> turn_policy \<Rightarrow> motion_sample \<Rightarrow> bool" where
  "motion_rejected c p m \<longleftrightarrow>
     \<not> mo_valid m \<or> \<not> list_all isfinite [mo_stamp m, mo_now m, mo_speed m, mo_steer m, mo_rate m] \<or>
     \<not> fresh_by (tc_max_age c) (mo_now m) (mo_stamp m) \<or> (case tp_last p of None \<Rightarrow> False | Some l \<Rightarrow> fle (mo_stamp m) l)"

definition reject_motion :: "turn_policy \<Rightarrow> turn_policy" where
  "reject_motion p =
     (let q = (if tp_history p = [] then p else p \<lparr> tp_history := [], tp_generation := Suc (tp_generation p) \<rparr>)
      in q \<lparr> tp_reason := MotionInvalid, tp_confirm := None \<rparr>)"

definition advance_angle :: "turn_config \<Rightarrow> turn_policy \<Rightarrow> motion_sample \<Rightarrow> turn_policy" where
  "advance_angle c p m =
     (case tp_last p of
        None \<Rightarrow> p
      | Some l \<Rightarrow>
          (let dt = fsub (mo_stamp m) l in
           if flt (tc_max_age c) dt then p \<lparr> tp_history := [], tp_confirm := None, tp_generation := Suc (tp_generation p) \<rparr>
           else p \<lparr> tp_angle := fadd (tp_angle p) (fmul (mo_rate m) dt) \<rparr>))"

definition moving :: "turn_config \<Rightarrow> motion_sample \<Rightarrow> bool" where
  "moving c m = fle (tc_min_speed c) (fabs (mo_speed m))"

definition turning :: "turn_config \<Rightarrow> motion_sample \<Rightarrow> bool" where
  "turning c m \<longleftrightarrow> moving c m \<and> fle (tc_enter_rate c) (fabs (mo_rate m)) \<and> fle (tc_min_steer c) (fabs (mo_steer m))"

definition quiet_rate :: "turn_config \<Rightarrow> motion_sample \<Rightarrow> bool" where
  "quiet_rate c m = fle (fabs (mo_rate m)) (tc_exit_rate c)"

definition turn_condition :: "turn_config \<Rightarrow> turn_state \<Rightarrow> motion_sample \<Rightarrow> bool" where
  "turn_condition c st m = (if st = StrongTurn then quiet_rate c m else turning c m)"

definition turn_duration :: "turn_config \<Rightarrow> turn_state \<Rightarrow> pyfloat" where
  "turn_duration c st = (if st = StrongTurn then tc_exit_duration c else tc_enter_duration c)"

definition confirm_turn :: "turn_config \<Rightarrow> turn_policy \<Rightarrow> motion_sample \<Rightarrow> turn_policy" where
  "confirm_turn c p m =
     (if turn_condition c (tp_state p) m then
        (let since = (case tp_confirm p of None \<Rightarrow> mo_stamp m | Some t \<Rightarrow> t) in
         if fle (turn_duration c (tp_state p)) (fsub (mo_stamp m) since)
         then p \<lparr> tp_state := (if tp_state p = StrongTurn then Reacquire else StrongTurn), tp_confirm := None,
                  tp_history := [(mo_stamp m, tp_angle p)], tp_generation := Suc (tp_generation p) \<rparr>
         else p \<lparr> tp_confirm := Some since \<rparr>)
      else p \<lparr> tp_confirm := None \<rparr>)"

definition record_motion :: "turn_policy \<Rightarrow> motion_sample \<Rightarrow> turn_policy" where
  "record_motion p m = p \<lparr> tp_last := Some (mo_stamp m),
     tp_history := filter (\<lambda>h. fle (fsub (mo_stamp m) (Fin 13)) (fst h)) (tp_history p @ [(mo_stamp m, tp_angle p)]) \<rparr>"

definition explain_turn :: "turn_config \<Rightarrow> turn_policy \<Rightarrow> motion_sample \<Rightarrow> turn_policy" where
  "explain_turn c p m = p \<lparr> tp_reason :=
     (if moving c m \<and> fle (tc_enter_rate c) (fabs (mo_rate m)) \<and> flt (fabs (mo_steer m)) (tc_min_steer c) then MotionContradictory
      else InState (tp_state p)) \<rparr>"

definition turn_update :: "turn_config \<Rightarrow> turn_policy \<Rightarrow> motion_sample \<Rightarrow> turn_policy \<times> bool" where
  "turn_update c p m =
     (if motion_rejected c p m then (reject_motion p, False)
      else (let q = record_motion (advance_angle c p m) m in (explain_turn c (confirm_turn c q m) m, True)))"

text \<open>\<open>max\<close> and \<open>min\<close> of a list that is not empty.\<close>

definition list_max :: "pyfloat list \<Rightarrow> pyfloat" where
  "list_max xs = foldl pymax (hd xs) (tl xs)"

definition list_min :: "pyfloat list \<Rightarrow> pyfloat" where
  "list_min xs = foldl pymin (hd xs) (tl xs)"

definition window_valid :: "turn_config \<Rightarrow> turn_policy \<Rightarrow> pyfloat \<Rightarrow> pyfloat \<Rightarrow> bool" where
  "window_valid c p start stop =
     (let before = filter (\<lambda>h. fle (fst h) start) (tp_history p);
          inside = filter (\<lambda>h. flt start (fst h) \<and> fle (fst h) stop) (tp_history p)
      in if before = [] \<or> inside = [] \<or> flt (tc_max_age c) (fsub stop (fst (last inside))) then False
         else (let angles = snd (last before) # map snd inside in fle (fsub (list_max angles) (list_min angles)) (tc_max_excursion c)))"

subsection \<open>The estimator\<close>

record heading_config =
  hc_min_distance :: pyfloat
  hc_min_speed :: pyfloat
  hc_max_fix_age :: pyfloat
  hc_max_sample_dt :: pyfloat
  hc_turn :: turn_config

datatype heading_reason =
    InvalidFix | StaleOrFutureFix | NonMonotonicFix | InStrongTurn | NoRecentMotion | NoFixYet | StaleFix | TooSlow | SteerInvalid
  | WindowExcursion | TooClose | RtkRejected

text \<open>A fix: latitude, longitude, stamp.\<close>

type_synonym gnss_fix = "pyfloat \<times> pyfloat \<times> pyfloat"

definition fix_stamp :: "gnss_fix \<Rightarrow> pyfloat" where
  "fix_stamp f = snd (snd f)"

record heading_estimator =
  he_fixes :: "gnss_fix list"
  he_turn :: turn_policy
  he_generation :: nat
  he_rejection :: "heading_reason option"
  he_last_fix :: "pyfloat option"

definition new_course_estimator :: heading_estimator where
  "new_course_estimator = \<lparr> he_fixes = [], he_turn = new_turn_policy, he_generation = 0, he_rejection = None, he_last_fix = None \<rparr>"

definition update_motion :: "heading_config \<Rightarrow> heading_estimator \<Rightarrow> motion_sample \<Rightarrow> heading_estimator" where
  "update_motion C s m =
     (let t = fst (turn_update (hc_turn C) (he_turn s) m); s1 = s \<lparr> he_turn := t \<rparr>
      in if tp_generation t \<noteq> he_generation s then s1 \<lparr> he_fixes := [], he_generation := tp_generation t \<rparr> else s1)"

definition fix_problem :: "heading_config \<Rightarrow> heading_estimator \<Rightarrow> gnss_fix \<Rightarrow> pyfloat \<Rightarrow> heading_reason option" where
  "fix_problem C s f now =
     (if \<not> list_all isfinite [fst f, fst (snd f), fix_stamp f, now] then Some InvalidFix
      else if \<not> fresh_by (hc_max_fix_age C) now (fix_stamp f) then Some StaleOrFutureFix
      else if (case he_last_fix s of None \<Rightarrow> False | Some l \<Rightarrow> fle (fix_stamp f) l) then Some NonMonotonicFix
      else None)"

definition add_fix :: "heading_config \<Rightarrow> heading_estimator \<Rightarrow> gnss_fix \<Rightarrow> pyfloat \<Rightarrow> heading_estimator" where
  "add_fix C s f now =
     (let why = fix_problem C s f now;
          s1 = (if why \<noteq> None then s
                else s \<lparr> he_last_fix := Some (fix_stamp f),
                  he_fixes := (if tp_state (he_turn s) \<noteq> StrongTurn then he_fixes s @ [f] else he_fixes s) \<rparr>)
      in s1 \<lparr> he_rejection := why, he_fixes := dropWhile (\<lambda>g. flt (fix_stamp g) (fsub (fix_stamp f) (Fin 12))) (he_fixes s1) \<rparr>)"

text \<open>A heading: yaw, distance and the time between the two fixes.\<close>

type_synonym heading = "pyfloat \<times> pyfloat \<times> pyfloat"

definition displacement :: "trig \<Rightarrow> gnss_fix \<Rightarrow> gnss_fix \<Rightarrow> pyfloat \<times> pyfloat" where
  "displacement T older latest =
     (fmul (fsub (fst latest) (fst older)) (Fin 111320),
      fmul (fmul (fsub (fst (snd latest)) (fst (snd older))) (Fin 111320)) (tg_cos T (radians (fst older))))"

definition pair_distance :: "trig \<Rightarrow> gnss_fix \<Rightarrow> gnss_fix \<Rightarrow> pyfloat" where
  "pair_distance T older latest = (let (north, east) = displacement T older latest in tg_hypot T north east)"

definition pair_heading :: "trig \<Rightarrow> gnss_fix \<Rightarrow> gnss_fix \<Rightarrow> heading" where
  "pair_heading T older latest =
     (let (north, east) = displacement T older latest
      in (tg_atan2 T north east, pair_distance T older latest, fsub (fix_stamp latest) (fix_stamp older)))"

fun search_pair :: "trig \<Rightarrow> heading_config \<Rightarrow> turn_policy \<Rightarrow> gnss_fix \<Rightarrow> bool \<Rightarrow> gnss_fix list \<Rightarrow> heading_reason + heading" where
  "search_pair T C p latest rejected [] = Inl (if rejected then WindowExcursion else TooClose)"
| "search_pair T C p latest rejected (g # gs) =
     (if flt (hc_max_sample_dt C) (fsub (fix_stamp latest) (fix_stamp g)) then Inl (if rejected then WindowExcursion else TooClose)
      else
        (let far = fle (hc_min_distance C) (pair_distance T g latest) in
         if far \<and> \<not> window_valid (hc_turn C) p (fix_stamp g) (fix_stamp latest) then search_pair T C p latest True gs
         else if far then Inr (pair_heading T g latest)
         else search_pair T C p latest rejected gs))"

record drive_view =
  dv_speed :: pyfloat
  dv_steer :: "pyfloat option"
  dv_steer_valid :: bool

definition estimate_gate :: "heading_config \<Rightarrow> heading_estimator \<Rightarrow> pyfloat \<Rightarrow> drive_view \<Rightarrow> heading_reason option" where
  "estimate_gate C s now d =
     (if he_rejection s \<noteq> None then he_rejection s
      else if tp_state (he_turn s) = StrongTurn then Some InStrongTurn
      else if (case tp_last (he_turn s) of None \<Rightarrow> True | Some l \<Rightarrow> \<not> fresh_by (tc_max_age (hc_turn C)) now l) then Some NoRecentMotion
      else if tp_reason (he_turn s) = MotionInvalid then Some NoRecentMotion
      else if he_fixes s = [] then Some NoFixYet
      else if flt (hc_max_fix_age C) (fsub now (fix_stamp (last (he_fixes s)))) then Some StaleFix
      else if \<not> isfinite (dv_speed d) \<or> flt (dv_speed d) (hc_min_speed C) then Some TooSlow
      else if \<not> dv_steer_valid d \<or> (case dv_steer d of None \<Rightarrow> True | Some x \<Rightarrow> \<not> isfinite x) then Some SteerInvalid
      else None)"

definition estimate_heading :: "trig \<Rightarrow> heading_config \<Rightarrow> heading_estimator \<Rightarrow> pyfloat \<Rightarrow> drive_view \<Rightarrow> heading_estimator \<times> (heading_reason + heading)" where
  "estimate_heading T C s now d =
     (case estimate_gate C s now d of
        Some why \<Rightarrow> (s, Inl why)
      | None \<Rightarrow>
          (case search_pair T C (he_turn s) (last (he_fixes s)) False (rev (butlast (he_fixes s))) of
             Inl why \<Rightarrow> (s, Inl why)
           | Inr h \<Rightarrow> (s \<lparr> he_turn := (he_turn s) \<lparr> tp_state := TurnNormal \<rparr> \<rparr>, Inr h)))"

subsection \<open>The gate of the receiver\<close>

datatype rtk_wire = LegacyString | TypedStatus

function py_words :: "string \<Rightarrow> string list" where
  "py_words s = (case dropWhile py_space s of [] \<Rightarrow> []
     | c # cs \<Rightarrow> takeWhile (\<lambda>x. \<not> py_space x) (c # cs) # py_words (dropWhile (\<lambda>x. \<not> py_space x) (c # cs)))"
  by pat_completeness auto
termination
proof (relation "measure length", simp)
  fix s c cs assume d: "dropWhile py_space s = c # cs"
  then have "\<not> py_space c" by (metis hd_dropWhile list.sel(1) list.simps(3))
  moreover have "length (c # cs) \<le> length s" using length_dropWhile_le [of py_space s] d by simp
  ultimately show "(dropWhile (\<lambda>x. \<not> py_space x) (c # cs), s) \<in> measure length"
    using length_dropWhile_le [of "\<lambda>x. \<not> py_space x" cs] by simp
qed

declare py_words.simps [simp del]

fun underscored :: "string list \<Rightarrow> string" where
  "underscored [] = []"
| "underscored [w] = w"
| "underscored (w # ws) = w @ ''_'' @ underscored ws"

definition normalize_rtk_status_label :: "string \<Rightarrow> string" where
  "normalize_rtk_status_label s =
     underscored (py_words (map (\<lambda>c. if c = CHR ''-'' then CHR ''_'' else c) (py_lower (py_strip s))))"

record rtk_view =
  rv_legacy :: string
  rv_quality :: "int option"
  rv_at :: "pyfloat option"

definition rtk_fixed_quality :: int where "rtk_fixed_quality = 5"

definition rtk_status_allows_heading :: "rtk_wire \<Rightarrow> bool \<Rightarrow> rtk_view \<Rightarrow> pyfloat option \<Rightarrow> pyfloat \<Rightarrow> bool" where
  "rtk_status_allows_heading wire required v age limit =
     (if wire = LegacyString \<and> \<not> required then True
      else case age of
        None \<Rightarrow> False
      | Some a \<Rightarrow>
          \<not> flt limit a \<and>
          (case wire of LegacyString \<Rightarrow> normalize_rtk_status_label (rv_legacy v) \<in> {''rtk_fixed'', ''rtk_fix''}
           | TypedStatus \<Rightarrow> rv_quality v = Some rtk_fixed_quality))"

subsection \<open>The node\<close>

record heading_node_config =
  hg_heading :: heading_config
  hg_wire :: rtk_wire
  hg_require_rtk :: bool
  hg_rtk_max_age :: pyfloat

text \<open>A message: the stamp of the fix and the yaw.\<close>

record heading_msg =
  hm_sec :: int
  hm_nanosec :: int
  hm_yaw :: pyfloat

record heading_node =
  hn_estimator :: heading_estimator
  hn_drive :: drive_view
  hn_rate :: pyfloat
  hn_drive_stamp :: "pyfloat option"
  hn_rtk :: rtk_view
  hn_pending :: "heading_msg option"

definition new_heading_node :: heading_node where
  "new_heading_node = \<lparr> hn_estimator = new_course_estimator, hn_drive = \<lparr> dv_speed = fzero, dv_steer = None, dv_steer_valid = False \<rparr>,
     hn_rate = fzero, hn_drive_stamp = None, hn_rtk = \<lparr> rv_legacy = [], rv_quality = None, rv_at = None \<rparr>, hn_pending = None \<rparr>"

record fix_event =
  fe_lat :: pyfloat
  fe_lon :: pyfloat
  fe_sec :: int
  fe_nanosec :: int
  fe_now :: pyfloat
  fe_monotonic :: pyfloat
  fe_subscribers :: nat

definition event_fix :: "fix_event \<Rightarrow> gnss_fix" where
  "event_fix x = (fe_lat x, fe_lon x, stamp_to_seconds (fe_sec x) (fe_nanosec x))"

definition rtk_valid :: "heading_node_config \<Rightarrow> rtk_view \<Rightarrow> pyfloat \<Rightarrow> bool" where
  "rtk_valid G v monotonic =
     rtk_status_allows_heading (hg_wire G) (hg_require_rtk G) v (map_option (\<lambda>t. pymax fzero (fsub monotonic t)) (rv_at v)) (hg_rtk_max_age G)"

definition heading_result :: "trig \<Rightarrow> heading_node_config \<Rightarrow> heading_node \<Rightarrow> pyfloat \<Rightarrow> pyfloat \<Rightarrow> heading_estimator \<times> (heading_reason + heading)" where
  "heading_result T G s now monotonic =
     (if rtk_valid G (hn_rtk s) monotonic then estimate_heading T (hg_heading G) (hn_estimator s) now (hn_drive s)
      else (hn_estimator s, Inl RtkRejected))"

definition deliver_heading :: "nat \<Rightarrow> heading_msg \<Rightarrow> heading_node \<Rightarrow> heading_node \<times> heading_msg list" where
  "deliver_heading subscribers msg s =
     (if 0 < subscribers then (s \<lparr> hn_pending := None \<rparr>, [msg]) else (s \<lparr> hn_pending := Some msg \<rparr>, []))"

definition on_heading_fix :: "trig \<Rightarrow> heading_node_config \<Rightarrow> heading_node \<Rightarrow> fix_event \<Rightarrow> heading_node \<times> heading_msg list" where
  "on_heading_fix T G s x =
     (let s1 = s \<lparr> hn_estimator := add_fix (hg_heading G) (hn_estimator s) (event_fix x) (fe_now x) \<rparr>;
          (e, r) = heading_result T G s1 (fe_now x) (fe_monotonic x); s2 = s1 \<lparr> hn_estimator := e \<rparr>
      in case r of
           Inl why \<Rightarrow> (s2 \<lparr> hn_pending := None \<rparr>, [])
         | Inr h \<Rightarrow> deliver_heading (fe_subscribers x) \<lparr> hm_sec = fe_sec x, hm_nanosec = fe_nanosec x, hm_yaw = fst h \<rparr> s2)"

text \<open>The node keeps the last speed and yaw rate of the odometry; without a steering value NaN is given on.\<close>

definition on_heading_odom :: "heading_node_config \<Rightarrow> heading_node \<Rightarrow> int \<Rightarrow> int \<Rightarrow> pyfloat \<Rightarrow> pyfloat \<Rightarrow> pyfloat \<Rightarrow> heading_node" where
  "on_heading_odom G s sec nanosec speed rate now =
     (let C = hg_heading G;
          drive_fresh = (case hn_drive_stamp s of None \<Rightarrow> False | Some t \<Rightarrow> fresh_by (tc_max_age (hc_turn C)) now t);
          m = \<lparr> mo_stamp = stamp_to_seconds sec nanosec, mo_now = now, mo_speed = speed,
                mo_steer = (case dv_steer (hn_drive s) of None \<Rightarrow> NaN | Some x \<Rightarrow> x),
                mo_valid = (dv_steer_valid (hn_drive s) \<and> drive_fresh), mo_rate = rate \<rparr>;
          e = update_motion C (hn_estimator s) m;
          s1 = s \<lparr> hn_estimator := e, hn_drive := (hn_drive s) \<lparr> dv_speed := speed \<rparr>, hn_rate := rate \<rparr>
      in if tp_state (he_turn e) = StrongTurn then s1 \<lparr> hn_pending := None \<rparr> else s1)"

definition on_heading_drive :: "heading_node \<Rightarrow> int \<Rightarrow> int \<Rightarrow> bool \<Rightarrow> pyfloat \<Rightarrow> heading_node" where
  "on_heading_drive s sec nanosec valid steer =
     s \<lparr> hn_drive_stamp := Some (stamp_to_seconds sec nanosec), hn_drive := (hn_drive s) \<lparr> dv_steer_valid := valid, dv_steer := Some steer \<rparr> \<rparr>"

definition flush_cleared :: "heading_node_config \<Rightarrow> heading_node \<Rightarrow> pyfloat \<Rightarrow> heading_node" where
  "flush_cleared G s now =
     (let t = he_turn (hn_estimator s) in
      if tp_state t = StrongTurn \<or> tp_reason t = MotionInvalid \<or>
         (case tp_last t of None \<Rightarrow> True | Some l \<Rightarrow> \<not> fresh_by (tc_max_age (hc_turn (hg_heading G))) now l)
      then s \<lparr> hn_pending := None \<rparr> else s)"

definition flush_pending :: "heading_node_config \<Rightarrow> heading_node \<Rightarrow> pyfloat \<Rightarrow> pyfloat \<Rightarrow> nat \<Rightarrow> heading_node \<times> heading_msg list" where
  "flush_pending G s now later subscribers =
     (let s1 = flush_cleared G s now in
      case hn_pending s1 of
        None \<Rightarrow> (s1, [])
      | Some msg \<Rightarrow>
          if subscribers = 0 then (s1, [])
          else if flt (hc_max_fix_age (hg_heading G)) (pymax fzero (fsub later (stamp_to_seconds (hm_sec msg) (hm_nanosec msg))))
          then (s1 \<lparr> hn_pending := None \<rparr>, [])
          else (s1 \<lparr> hn_pending := None \<rparr>, [msg]))"

datatype heading_event =
    FixEvent fix_event
  | OdomEvent int int pyfloat pyfloat pyfloat
  | DriveEvent int int bool pyfloat
  | LegacyRtk string pyfloat
  | TypedRtk int pyfloat
  | FlushEvent pyfloat pyfloat nat

fun heading_step :: "trig \<Rightarrow> heading_node_config \<Rightarrow> heading_node \<Rightarrow> heading_event \<Rightarrow> heading_node \<times> heading_msg list" where
  "heading_step T G s (FixEvent x) = on_heading_fix T G s x"
| "heading_step T G s (OdomEvent sec nanosec speed rate now) = (on_heading_odom G s sec nanosec speed rate now, [])"
| "heading_step T G s (DriveEvent sec nanosec valid steer) = (on_heading_drive s sec nanosec valid steer, [])"
| "heading_step T G s (LegacyRtk label t) =
     (if hg_wire G = LegacyString then s \<lparr> hn_rtk := (hn_rtk s) \<lparr> rv_legacy := label, rv_at := Some t \<rparr> \<rparr> else s, [])"
| "heading_step T G s (TypedRtk q t) =
     (if hg_wire G = TypedStatus then s \<lparr> hn_rtk := (hn_rtk s) \<lparr> rv_quality := Some q, rv_at := Some t \<rparr> \<rparr> else s, [])"
| "heading_step T G s (FlushEvent now later subscribers) = flush_pending G s now later subscribers"

definition heading_run :: "trig \<Rightarrow> heading_node_config \<Rightarrow> heading_event list \<Rightarrow> heading_node \<times> heading_msg list" where
  "heading_run T G es = foldl (\<lambda>(s, out) e. let (s', o') = heading_step T G s e in (s', out @ o')) (new_heading_node, []) es"

lemma heading_run_nil: "heading_run T G [] = (new_heading_node, [])"
  by (simp add: heading_run_def)

lemma heading_run_snoc:
  "heading_run T G (es @ [e]) = (fst (heading_step T G (fst (heading_run T G es)) e),
     snd (heading_run T G es) @ snd (heading_step T G (fst (heading_run T G es)) e))"
  by (simp add: heading_run_def Let_def split: prod.splits)

text \<open>What stands behind a message: the fix arrived while the receiver passed its gate, no strong turn was on and the motion
was recent; the yaw is the course between two fixes that are far enough apart, not too old, and between which the vehicle
kept its heading.\<close>

definition heading_source :: "trig \<Rightarrow> heading_node_config \<Rightarrow> heading_node \<Rightarrow> fix_event \<Rightarrow> heading_msg \<Rightarrow> bool" where
  "heading_source T G s x msg \<longleftrightarrow>
     (let C = hg_heading G; e = add_fix C (hn_estimator s) (event_fix x) (fe_now x); t = he_turn e in
      hm_sec msg = fe_sec x \<and> hm_nanosec msg = fe_nanosec x \<and> rtk_valid G (hn_rtk s) (fe_monotonic x) \<and>
      tp_state t \<noteq> StrongTurn \<and> (\<exists>l. tp_last t = Some l \<and> fresh_by (tc_max_age (hc_turn C)) (fe_now x) l) \<and>
      fle (hc_min_speed C) (dv_speed (hn_drive s)) \<and>
      (\<exists>g\<in>set (he_fixes e). \<exists>l\<in>set (he_fixes e).
         hm_yaw msg = fst (pair_heading T g l) \<and> fle (hc_min_distance C) (pair_distance T g l) \<and>
         \<not> flt (hc_max_sample_dt C) (fsub (fix_stamp l) (fix_stamp g)) \<and> window_valid (hc_turn C) t (fix_stamp g) (fix_stamp l)))"

lemma search_pair_sound:
  "search_pair T C p latest r gs = Inr h \<Longrightarrow>
   \<exists>g\<in>set gs. h = pair_heading T g latest \<and> fle (hc_min_distance C) (pair_distance T g latest) \<and>
     \<not> flt (hc_max_sample_dt C) (fsub (fix_stamp latest) (fix_stamp g)) \<and> window_valid (hc_turn C) p (fix_stamp g) (fix_stamp latest)"
  by (induction T C p latest r gs rule: search_pair.induct) (auto simp: Let_def split: if_splits)

lemma estimate_heading_sound:
  assumes "estimate_heading T C s now d = (s', Inr h)" "hc_min_speed C \<noteq> NaN"
  shows "tp_state (he_turn s) \<noteq> StrongTurn \<and> (\<exists>l. tp_last (he_turn s) = Some l \<and> fresh_by (tc_max_age (hc_turn C)) now l) \<and>
    fle (hc_min_speed C) (dv_speed d) \<and> s' = s \<lparr> he_turn := (he_turn s) \<lparr> tp_state := TurnNormal \<rparr> \<rparr> \<and>
    (\<exists>g\<in>set (he_fixes s). \<exists>l\<in>set (he_fixes s). h = pair_heading T g l \<and> fle (hc_min_distance C) (pair_distance T g l) \<and>
       \<not> flt (hc_max_sample_dt C) (fsub (fix_stamp l) (fix_stamp g)) \<and> window_valid (hc_turn C) (he_turn s) (fix_stamp g) (fix_stamp l))"
proof -
  from assms(1) have gate: "estimate_gate C s now d = None" and s': "s' = s \<lparr> he_turn := (he_turn s) \<lparr> tp_state := TurnNormal \<rparr> \<rparr>"
    and sp: "search_pair T C (he_turn s) (last (he_fixes s)) False (rev (butlast (he_fixes s))) = Inr h"
    by (auto simp: estimate_heading_def split: option.splits sum.splits)
  from gate have ne: "he_fixes s \<noteq> []" by (auto simp: estimate_gate_def split: if_splits)
  from gate have speed: "isfinite (dv_speed d)" "\<not> flt (dv_speed d) (hc_min_speed C)"
    by (auto simp: estimate_gate_def split: if_splits)
  have "dv_speed d \<noteq> NaN" using speed(1) by auto
  then have "fle (hc_min_speed C) (dv_speed d)" using speed(2) assms(2) by (simp add: not_flt)
  moreover have "tp_state (he_turn s) \<noteq> StrongTurn" "\<exists>l. tp_last (he_turn s) = Some l \<and> fresh_by (tc_max_age (hc_turn C)) now l"
    using gate by (auto simp: estimate_gate_def split: if_splits option.splits)
  ultimately show ?thesis using search_pair_sound [OF sp] ne s' by (auto dest: in_set_butlastD intro: last_in_set)
qed

lemma add_fix_turn [simp]: "he_turn (add_fix C s f now) = he_turn s"
  by (simp add: add_fix_def Let_def)

lemma heading_result_source:
  assumes "heading_result T G (s \<lparr> hn_estimator := add_fix (hg_heading G) (hn_estimator s) (event_fix x) (fe_now x) \<rparr>) (fe_now x) (fe_monotonic x) = (e, Inr h)"
    "hc_min_speed (hg_heading G) \<noteq> NaN"
  shows "heading_source T G s x \<lparr> hm_sec = fe_sec x, hm_nanosec = fe_nanosec x, hm_yaw = fst h \<rparr> \<and> tp_state (he_turn e) = TurnNormal"
proof -
  from assms(1) have rv: "rtk_valid G (hn_rtk s) (fe_monotonic x)"
    and es: "estimate_heading T (hg_heading G) (add_fix (hg_heading G) (hn_estimator s) (event_fix x) (fe_now x)) (fe_now x) (hn_drive s) = (e, Inr h)"
    by (auto simp: heading_result_def split: if_splits)
  from estimate_heading_sound [OF es assms(2)] rv show ?thesis by (auto simp: heading_source_def Let_def)
qed

lemma on_heading_fix_cases:
  assumes "on_heading_fix T G s x = (s', out)" "hc_min_speed (hg_heading G) \<noteq> NaN"
  obtains (silent) "hn_pending s' = None" "out = []"
    | (sent) msg where "heading_source T G s x msg" "hn_pending s' = None" "out = [msg]"
    | (kept) msg where "heading_source T G s x msg" "hn_pending s' = Some msg" "out = []" "tp_state (he_turn (hn_estimator s')) \<noteq> StrongTurn"
proof -
  let ?s1 = "s \<lparr> hn_estimator := add_fix (hg_heading G) (hn_estimator s) (event_fix x) (fe_now x) \<rparr>"
  obtain e r where er: "heading_result T G ?s1 (fe_now x) (fe_monotonic x) = (e, r)" by (cases "heading_result T G ?s1 (fe_now x) (fe_monotonic x)")
  show thesis
  proof (cases r)
    case (Inl why)
    have "hn_pending s' = None \<and> out = []" using er Inl assms(1) by (auto simp: on_heading_fix_def Let_def)
    then show thesis using silent by blast
  next
    case (Inr h)
    note src = heading_result_source [OF er [unfolded Inr] assms(2)]
    show thesis
    proof (cases "0 < fe_subscribers x")
      case True
      then have "hn_pending s' = None \<and> out = [\<lparr> hm_sec = fe_sec x, hm_nanosec = fe_nanosec x, hm_yaw = fst h \<rparr>]"
        using er Inr assms(1) by (auto simp: on_heading_fix_def deliver_heading_def Let_def)
      then show thesis using sent src by blast
    next
      case False
      then have "hn_pending s' = Some \<lparr> hm_sec = fe_sec x, hm_nanosec = fe_nanosec x, hm_yaw = fst h \<rparr> \<and> out = [] \<and> hn_estimator s' = e"
        using er Inr assms(1) by (auto simp: on_heading_fix_def deliver_heading_def Let_def)
      then show thesis using kept src by (metis turn_state.distinct(1))
    qed
  qed
qed

lemma flush_pending_cases:
  assumes "flush_pending G s now later n = (s', out)"
  shows "hn_estimator s' = hn_estimator s \<and> (hn_pending s' = hn_pending s \<and> out = [] \<or> hn_pending s' = None \<and> (out = [] \<or> (\<exists>msg. out = [msg] \<and> hn_pending s = Some msg)))"
  using assms by (auto simp: flush_pending_def flush_cleared_def Let_def split: if_splits option.splits)

definition is_fix_event :: "heading_event \<Rightarrow> bool" where
  "is_fix_event e = (case e of FixEvent x \<Rightarrow> True | _ \<Rightarrow> False)"

definition has_source :: "trig \<Rightarrow> heading_node_config \<Rightarrow> heading_event list \<Rightarrow> heading_msg \<Rightarrow> bool" where
  "has_source T G es msg \<longleftrightarrow> (\<exists>pre x post. es = pre @ FixEvent x # post \<and> heading_source T G (fst (heading_run T G pre)) x msg)"

lemma has_source_snoc: "has_source T G es msg \<Longrightarrow> has_source T G (es @ [e]) msg"
  unfolding has_source_def by (metis append.assoc append_Cons)

lemma has_source_last: "heading_source T G (fst (heading_run T G es)) x msg \<Longrightarrow> has_source T G (es @ [FixEvent x]) msg"
  unfolding has_source_def by blast

definition heading_inv :: "trig \<Rightarrow> heading_node_config \<Rightarrow> heading_event list \<Rightarrow> heading_node \<times> heading_msg list \<Rightarrow> bool" where
  "heading_inv T G es r \<longleftrightarrow>
     (tp_state (he_turn (hn_estimator (fst r))) = StrongTurn \<longrightarrow> hn_pending (fst r) = None) \<and>
     (\<forall>msg\<in>set (snd r) \<union> set_option (hn_pending (fst r)). has_source T G es msg) \<and>
     length (snd r) + (if hn_pending (fst r) = None then 0 else 1) \<le> length (filter is_fix_event es)"

lemma heading_inv_quiet:
  assumes "heading_inv T G es (s, out)" "hn_pending s' = hn_pending s" "he_turn (hn_estimator s') = he_turn (hn_estimator s)" "\<not> is_fix_event e"
  shows "heading_inv T G (es @ [e]) (s', out @ [])"
  using assms by (auto simp: heading_inv_def intro: has_source_snoc)

lemma heading_inv_step:
  assumes I: "heading_inv T G es (s, out)" and s: "s = fst (heading_run T G es)" and C: "hc_min_speed (hg_heading G) \<noteq> NaN"
  shows "heading_inv T G (es @ [e]) (fst (heading_step T G s e), out @ snd (heading_step T G s e))"
proof (cases e)
  case (FixEvent x)
  obtain s' o' where st: "on_heading_fix T G s x = (s', o')" by (cases "on_heading_fix T G s x")
  show ?thesis
  proof (rule on_heading_fix_cases [OF st C])
    assume "hn_pending s' = None" "o' = []"
    then show ?thesis using I FixEvent st by (auto simp: heading_inv_def is_fix_event_def intro: has_source_snoc)
  next
    fix msg assume m: "heading_source T G s x msg" "hn_pending s' = None" "o' = [msg]"
    then have "has_source T G (es @ [FixEvent x]) msg" using s has_source_last by blast
    then show ?thesis using I FixEvent st m by (auto simp: heading_inv_def is_fix_event_def intro: has_source_snoc)
  next
    fix msg assume m: "heading_source T G s x msg" "hn_pending s' = Some msg" "o' = []" "tp_state (he_turn (hn_estimator s')) \<noteq> StrongTurn"
    then have "has_source T G (es @ [FixEvent x]) msg" using s has_source_last by blast
    then show ?thesis using I FixEvent st m by (auto simp: heading_inv_def is_fix_event_def intro: has_source_snoc)
  qed
next
  case (OdomEvent sec nanosec speed rate now)
  then show ?thesis using I by (auto simp: heading_inv_def is_fix_event_def on_heading_odom_def Let_def intro: has_source_snoc split: if_splits)
next
  case (FlushEvent now later n)
  obtain s' o' where st: "flush_pending G s now later n = (s', o')" by (cases "flush_pending G s now later n")
  from flush_pending_cases [OF st] I FlushEvent st show ?thesis
    by (cases "hn_pending s") (auto simp: heading_inv_def is_fix_event_def intro: has_source_snoc)
qed (use I heading_inv_quiet [OF I] in \<open>auto simp: is_fix_event_def on_heading_drive_def\<close>)

lemma heading_run_inv: "hc_min_speed (hg_heading G) \<noteq> NaN \<Longrightarrow> heading_inv T G es (heading_run T G es)"
proof (induction es rule: rev_induct)
  case Nil
  then show ?case by (simp add: heading_run_nil heading_inv_def new_heading_node_def new_course_estimator_def)
next
  case (snoc e es)
  then show ?case using heading_inv_step [of T G es "fst (heading_run T G es)" "snd (heading_run T G es)" e]
    by (simp add: heading_run_snoc)
qed

text \<open>C23. Every heading the node publishes was computed by one of its fix callbacks, in a state that passed the gate of the
receiver, was not in a strong turn and had recent motion, from two fixes far enough apart between which the vehicle kept its
heading; a fix gives one message at most, and while a strong turn is on nothing waits to be delivered.\<close>

theorem heading_from_steady_course:
  assumes "hc_min_speed (hg_heading G) \<noteq> NaN" "heading_run T G es = (s, out)"
  shows "(\<forall>msg\<in>set out. \<exists>pre x post. es = pre @ FixEvent x # post \<and> heading_source T G (fst (heading_run T G pre)) x msg) \<and>
    length out \<le> length (filter is_fix_event es) \<and> (tp_state (he_turn (hn_estimator s)) = StrongTurn \<longrightarrow> hn_pending s = None)"
  using heading_run_inv [OF assms(1), of T es] unfolding assms(2) by (auto simp: heading_inv_def has_source_def)

definition still_turn :: turn_config where
  "still_turn = \<lparr> tc_enter_rate = Fin 2, tc_exit_rate = Fin 1, tc_enter_duration = Fin 1, tc_exit_duration = Fin 1, tc_min_speed = Fin 1,
     tc_min_steer = Fin 1, tc_max_age = Fin 2, tc_max_excursion = Fin 1 \<rparr>"

definition heading_setup :: heading_node_config where
  "heading_setup = \<lparr> hg_heading = \<lparr> hc_min_distance = fzero, hc_min_speed = Fin 1, hc_max_fix_age = Fin 2, hc_max_sample_dt = Fin 2, hc_turn = still_turn \<rparr>,
     hg_wire = LegacyString, hg_require_rtk = False, hg_rtk_max_age = Fin 1 \<rparr>"

definition drive_at :: "int \<Rightarrow> heading_event" where
  "drive_at t = DriveEvent t 0 True fzero"

definition odom_at :: "int \<Rightarrow> heading_event" where
  "odom_at t = OdomEvent t 0 (Fin 1) fzero (Fin (of_int t))"

definition fix_at :: "int \<Rightarrow> heading_event" where
  "fix_at t = FixEvent \<lparr> fe_lat = fzero, fe_lon = fzero, fe_sec = t, fe_nanosec = 0, fe_now = Fin (of_int t), fe_monotonic = fzero, fe_subscribers = 1 \<rparr>"

lemmas heading_eval = heading_setup_def still_turn_def drive_at_def odom_at_def fix_at_def on_heading_fix_def on_heading_odom_def
  on_heading_drive_def new_heading_node_def new_course_estimator_def new_turn_policy_def heading_result_def estimate_heading_def estimate_gate_def
  add_fix_def fix_problem_def event_fix_def fix_stamp_def rtk_valid_def rtk_status_allows_heading_def deliver_heading_def
  update_motion_def turn_update_def motion_rejected_def advance_angle_def record_motion_def confirm_turn_def explain_turn_def
  turn_condition_def turning_def moving_def quiet_rate_def fresh_by_def window_valid_def list_max_def list_min_def pair_heading_def
  pair_distance_def displacement_def stamp_to_seconds_def

lemma steady_run:
  "snd (heading_run east_trig heading_setup [drive_at 1, odom_at 1, fix_at 1, drive_at 2, odom_at 2, fix_at 2]) =
     [\<lparr> hm_sec = 2, hm_nanosec = 0, hm_yaw = fzero \<rparr>]"
  by (simp add: heading_run_def heading_eval east_trig_def Let_def fl_eval fsub_def)
    (simp add: pymax_def pymin_def fl_eval)


lemma heading_from_steady_course_witness:
  "\<exists>pre x post. [drive_at 1, odom_at 1, fix_at 1, drive_at 2, odom_at 2, fix_at 2] = pre @ FixEvent x # post \<and>
     heading_source east_trig heading_setup (fst (heading_run east_trig heading_setup pre)) x \<lparr> hm_sec = 2, hm_nanosec = 0, hm_yaw = fzero \<rparr>"
  using heading_from_steady_course [of heading_setup east_trig "[drive_at 1, odom_at 1, fix_at 1, drive_at 2, odom_at 2, fix_at 2]", OF _ prod.collapse [symmetric]]
  unfolding steady_run by (simp add: heading_setup_def)

end
