(* ===== verification/Zones.thy ===== *)
theory Zones
  imports Route_Actions
begin

section \<open>No-go zones\<close>

text \<open>
  \<open>salus_navigation/zones_geojson.py\<close> (the normal form of a GeoJSON document and its polygons) and \<open>zones_manager.py\<close>
  (projection to the map, the file, the live state and its services). A file holds a decoded JSON value or a text that is
  none; the conversion service and the file system are arguments of the operations. Rasters of zones are not modelled: the
  node does not use them.
\<close>

subsection \<open>The normal form of a document\<close>

datatype zone_escape = ZoneTypeError | ZoneOverflow | ZoneAttribute

datatype zone_error =
    NotAnObjectRoot | NoFeatureArray | UnknownRoot | BadFeature nat | BadGeometry nat | BadCoordinates nat | NoRings nat | FewVertices nat
  | BadCoordinate nat | BadNumberText | LonOutOfRange | LatOutOfRange | FewDistinct nat | ZoneEscaped zone_escape

type_synonym 'a zoned = "zone_error + 'a"

type_synonym vertex = "pyfloat \<times> pyfloat"

type_synonym ring = "vertex list"

text \<open>A feature of a normal document: its properties and its polygons; the first ring of a polygon is the outer one.\<close>

record zone_feature =
  zf_properties :: jval
  zf_polygons :: "ring list list"

text \<open>\<open>float(value)\<close>: a text that is no number raises \<open>ValueError\<close>, which the callers catch; the other exceptions escape.\<close>

fun zone_float :: "jval \<Rightarrow> pyfloat zoned" where
  "zone_float (JBool b) = Inr (Fin (if b then 1 else 0))"
| "zone_float (JInt n) = (case float_of_int n of None \<Rightarrow> Inl (ZoneEscaped ZoneOverflow) | Some x \<Rightarrow> Inr x)"
| "zone_float (JFloat x) = Inr x"
| "zone_float (JStr s) = (case py_float_of_string s of None \<Rightarrow> Inl BadNumberText | Some x \<Rightarrow> Inr x)"
| "zone_float v = Inl (ZoneEscaped ZoneTypeError)"

definition in_degrees :: "int \<Rightarrow> pyfloat \<Rightarrow> bool" where
  "in_degrees b x \<longleftrightarrow> fle (Fin (of_int (- b))) x \<and> fle x (Fin (of_int b))"

definition normalize_vertex :: "nat \<Rightarrow> jval \<Rightarrow> vertex zoned" where
  "normalize_vertex i p =
     (case p of
        JList (a # b # rest) \<Rightarrow>
          bind_res (zone_float a) (\<lambda>lon. bind_res (zone_float b) (\<lambda>lat.
          bind_res (raise_if (\<not> in_degrees 180 lon) LonOutOfRange) (\<lambda>_.
          bind_res (raise_if (\<not> in_degrees 90 lat) LatOutOfRange) (\<lambda>_. Inr (lon, lat)))))
      | _ \<Rightarrow> Inl (BadCoordinate i))"

definition same_vertex :: "vertex \<Rightarrow> vertex \<Rightarrow> bool" where
  "same_vertex p q \<longleftrightarrow> feq (fst p) (fst q) \<and> feq (snd p) (snd q)"

definition close_ring :: "ring \<Rightarrow> ring" where
  "close_ring r = (if same_vertex (hd r) (last r) then r else r @ [hd r])"

definition normalize_ring :: "nat \<Rightarrow> jval \<Rightarrow> ring zoned" where
  "normalize_ring i v =
     (case v of
        JList ps \<Rightarrow>
          bind_res (raise_if (length ps < 3) (FewVertices i)) (\<lambda>_.
          bind_res (map_res (normalize_vertex i) ps) (\<lambda>r.
          bind_res (raise_if (length (close_ring r) < 4) (FewDistinct i)) (\<lambda>_. Inr (close_ring r))))
      | _ \<Rightarrow> Inl (FewVertices i))"

definition normalize_polygon :: "nat \<Rightarrow> jval \<Rightarrow> ring list zoned" where
  "normalize_polygon i v = (case v of JList (r # rs) \<Rightarrow> map_res (normalize_ring i) (r # rs) | _ \<Rightarrow> Inl (NoRings i))"

definition properties_of :: "jobject \<Rightarrow> jval" where
  "properties_of o' = (let p = get_key o' ''properties'' JNull in if truthy p then p else JObj [])"

definition normalize_feature :: "nat \<Rightarrow> jval \<Rightarrow> zone_feature zoned" where
  "normalize_feature i v =
     (case v of
        JObj kvs \<Rightarrow>
          if map_of kvs ''type'' \<noteq> Some (JStr ''Feature'') then Inl (BadFeature i)
          else (case map_of kvs ''geometry'' of
              Some (JObj g) \<Rightarrow>
                (let kind = map_of g ''type''; coords = get_key (map_of g) ''coordinates'' JNull in
                 if kind \<notin> {Some (JStr ''Polygon''), Some (JStr ''MultiPolygon'')} then Inl (BadGeometry i)
                 else (case (if kind = Some (JStr ''Polygon'') then JList [coords] else coords) of
                     JList ps \<Rightarrow> bind_res (map_res (normalize_polygon i) ps)
                        (\<lambda>qs. Inr \<lparr> zf_properties = properties_of (map_of kvs), zf_polygons = qs \<rparr>)
                   | _ \<Rightarrow> Inl (BadCoordinates i)))
            | _ \<Rightarrow> Inl (BadGeometry i))
      | _ \<Rightarrow> Inl (BadFeature i))"

fun normalize_features :: "nat \<Rightarrow> jval list \<Rightarrow> zone_feature list zoned" where
  "normalize_features i [] = Inr []"
| "normalize_features i (v # vs) =
     bind_res (normalize_feature i v) (\<lambda>f. bind_res (normalize_features (Suc i) vs) (\<lambda>fs. Inr (f # fs)))"

definition normalize_geojson :: "jval \<Rightarrow> zone_feature list zoned" where
  "normalize_geojson v =
     (case v of
        JObj kvs \<Rightarrow>
          if map_of kvs ''type'' = Some (JStr ''Feature'') then normalize_features 0 [v]
          else if map_of kvs ''type'' = Some (JStr ''FeatureCollection'')
          then (case map_of kvs ''features'' of Some (JList vs) \<Rightarrow> normalize_features 0 vs | _ \<Rightarrow> Inl NoFeatureArray)
          else Inl UnknownRoot
      | _ \<Rightarrow> Inl NotAnObjectRoot)"

text \<open>The dictionary of a normal document.\<close>

definition ring_json :: "ring \<Rightarrow> jval" where
  "ring_json r = JList (map (\<lambda>p. JList [JFloat (fst p), JFloat (snd p)]) r)"

definition feature_json :: "zone_feature \<Rightarrow> jval" where
  "feature_json f =
     (let ps = map (\<lambda>q. JList (map ring_json q)) (zf_polygons f) in
      JObj [(''type'', JStr ''Feature''), (''properties'', zf_properties f),
        (''geometry'', JObj [(''type'', JStr (if length ps = 1 then ''Polygon'' else ''MultiPolygon'')),
           (''coordinates'', if length ps = 1 then hd ps else JList ps)])])"

definition document_json :: "zone_feature list \<Rightarrow> jval" where
  "document_json d = JObj [(''type'', JStr ''FeatureCollection''), (''features'', JList (map feature_json d))]"

subsection \<open>The polygons of a document\<close>

record zone_polygon =
  zp_id :: string
  zp_enabled :: bool
  zp_outer :: ring
  zp_holes :: "ring list"

text \<open>One polygon as the iteration yields it: properties that are no dictionary raise \<open>AttributeError\<close> there.\<close>

definition yield_polygon :: "json_lib \<Rightarrow> nat \<times> nat \<times> jval \<times> ring list \<Rightarrow> zone_polygon zoned" where
  "yield_polygon J x =
     (case x of (i, j, props, q) \<Rightarrow>
        (case props of
           JObj kvs \<Rightarrow>
             (let name = get_key (map_of kvs) ''id'' JNull in
              Inr \<lparr> zp_id = (if truthy name then py_str J name else ''zone_'' @ str_of_int (int i) @ ''_'' @ str_of_int (int j)),
                    zp_enabled = truthy (get_key (map_of kvs) ''enabled'' (JBool True)), zp_outer = hd q, zp_holes = tl q \<rparr>)
         | _ \<Rightarrow> Inl (ZoneEscaped ZoneAttribute)))"

definition feature_polygons :: "nat \<Rightarrow> zone_feature \<Rightarrow> (nat \<times> nat \<times> jval \<times> ring list) list" where
  "feature_polygons i f = map (\<lambda>(j, q). (i, j, zf_properties f, q)) (enumerate 0 (zf_polygons f))"

definition polygons_of :: "zone_feature list \<Rightarrow> (nat \<times> nat \<times> jval \<times> ring list) list" where
  "polygons_of d = concat (map (\<lambda>(i, f). feature_polygons i f) (enumerate 0 d))"

text \<open>Each feature is counted as a document of its own, so its polygons are yielded with the feature index 0.\<close>

definition feature_and_polygon_counts :: "json_lib \<Rightarrow> zone_feature list \<Rightarrow> (nat \<times> nat) zoned" where
  "feature_and_polygon_counts J d =
     bind_res (map_res (\<lambda>f. map_res (yield_polygon J) (feature_polygons 0 f)) d) (\<lambda>ps. Inr (length d, length (concat ps)))"

subsection \<open>Projection\<close>

text \<open>
  The conversion services: \<open>ll_ready\<close> whether a client is ready at the k-th look, \<open>ll_call\<close> the answer to the k-th call, or
  why there is none (no service, no answer in time, or an exception of the middleware). A client is the first or the
  fallback; \<open>k\<close> counts looks and calls.
\<close>

datatype ll_client = FirstClient | FallbackClient

record ll_services =
  ll_ready :: "nat \<Rightarrow> ll_client \<Rightarrow> bool"
  ll_call :: "nat \<Rightarrow> ll_client \<Rightarrow> vertex \<Rightarrow> string + vertex"

datatype zone_failure = NoFromLL | ConversionFailed string | PersistFailed

definition first_ready :: "ll_services \<Rightarrow> nat \<Rightarrow> ll_client option \<times> nat" where
  "first_ready L k =
     (if ll_ready L k FirstClient then (Some FirstClient, k + 1)
      else if ll_ready L (k + 1) FallbackClient then (Some FallbackClient, k + 2) else (None, k + 2))"

text \<open>One point: the answer, the client that is used from then on, and the counter.\<close>

definition project_point :: "ll_services \<Rightarrow> ll_client option \<times> nat \<Rightarrow> vertex \<Rightarrow> zone_failure + (vertex \<times> ll_client option \<times> nat)" where
  "project_point L ck p =
     (case ck of
        (None, k) \<Rightarrow> Inl NoFromLL
      | (Some c, k) \<Rightarrow>
          (case ll_call L k c p of
             Inr xy \<Rightarrow> Inr (xy, Some c, k + 1)
           | Inl why \<Rightarrow>
               if c = FirstClient \<and> ll_ready L (k + 1) FallbackClient
               then (case ll_call L (k + 2) FallbackClient p of
                       Inr xy \<Rightarrow> Inr (xy, Some FallbackClient, k + 3)
                     | Inl why' \<Rightarrow> Inl (ConversionFailed why'))
               else Inl (ConversionFailed why)))"

fun project_all :: "('c \<Rightarrow> 'a \<Rightarrow> 'e + ('b \<times> 'c)) \<Rightarrow> 'c \<Rightarrow> 'a list \<Rightarrow> 'e + ('b list \<times> 'c)" where
  "project_all f c [] = Inr ([], c)"
| "project_all f c (x # xs) =
     bind_res (f c x) (\<lambda>(y, c1). bind_res (project_all f c1 xs) (\<lambda>(ys, c2). Inr (y # ys, c2)))"

text \<open>What ends an operation early: an exception that escapes, or a failure that is reported.\<close>

datatype zone_stop = StopError zone_error | StopFailure zone_failure

fun as_stop :: "zone_failure + 'a \<Rightarrow> zone_stop + 'a" where
  "as_stop (Inl e) = Inl (StopFailure e)"
| "as_stop (Inr x) = Inr x"

fun raised :: "'a zoned \<Rightarrow> zone_stop + 'a" where
  "raised (Inl e) = Inl (StopError e)"
| "raised (Inr x) = Inr x"

definition project_polygon ::
  "json_lib \<Rightarrow> ll_services \<Rightarrow> ll_client option \<times> nat \<Rightarrow> nat \<times> nat \<times> jval \<times> ring list \<Rightarrow> zone_stop + (zone_polygon \<times> ll_client option \<times> nat)" where
  "project_polygon J L ck x =
     bind_res (raised (yield_polygon J x)) (\<lambda>z.
     bind_res (as_stop (project_all (project_point L) ck (zp_outer z))) (\<lambda>(outer, ck1).
     bind_res (as_stop (project_all (project_all (project_point L)) ck1 (zp_holes z))) (\<lambda>(holes, ck2).
       Inr (z \<lparr> zp_outer := outer, zp_holes := holes \<rparr>, ck2))))"

definition project_document :: "json_lib \<Rightarrow> ll_services \<Rightarrow> zone_feature list \<Rightarrow> zone_stop + zone_polygon list" where
  "project_document J L d = bind_res (project_all (project_polygon J L) (first_ready L 0) (polygons_of d)) (\<lambda>(zs, _). Inr zs)"

subsection \<open>The node\<close>

datatype zone_file = NoZoneFile | ZoneFileUnreadable | ZoneFileNotJson | ZoneFile jval

record zones_config =
  zc_frame :: string
  zc_use_keepout :: bool

record zones =
  zs_document :: "zone_feature list"
  zs_ready :: bool
  zs_revision :: nat
  zs_file :: zone_file

definition new_zones :: "zone_file \<Rightarrow> zones" where
  "new_zones f = \<lparr> zs_document = [], zs_ready = False, zs_revision = 0, zs_file = f \<rparr>"

text \<open>The published state: the polygons that are enabled (name, outer ring, holes).\<close>

record keepout_msg =
  km_frame :: string
  km_revision :: nat
  km_polygons :: "(string \<times> ring \<times> ring list) list"

text \<open>The vertices are \<open>Point32\<close>s: their coordinates are 32-bit floats for every subscriber.\<close>

definition polygon_message :: "ring \<Rightarrow> ring" where
  "polygon_message r = map (map_prod f32 f32) r"

definition projected_keepout_state_message :: "zone_polygon list \<Rightarrow> string \<Rightarrow> nat \<Rightarrow> keepout_msg" where
  "projected_keepout_state_message zs frame revision =
     \<lparr> km_frame = frame, km_revision = revision, km_polygons = map (\<lambda>z. (zp_id z, polygon_message (zp_outer z), map polygon_message (zp_holes z))) (filter zp_enabled zs) \<rparr>"

definition activate_document :: "zones_config \<Rightarrow> zone_feature list \<Rightarrow> zone_polygon list \<Rightarrow> zones \<Rightarrow> zones \<times> keepout_msg list" where
  "activate_document K d zs s =
     (let s1 = s \<lparr> zs_document := d, zs_ready := True, zs_revision := zs_revision s + 1 \<rparr>
      in (s1, [projected_keepout_state_message zs (zc_frame K) (zs_revision s1)]))"

text \<open>The environment of one operation: the services and whether the file can be written.\<close>

record zones_env =
  ze_services :: ll_services
  ze_writable :: bool

type_synonym zones_outcome = "zones \<times> keepout_msg list \<times> (zone_stop + (nat \<times> nat))"

definition apply_projected ::
  "json_lib \<Rightarrow> zones_config \<Rightarrow> zones_env \<Rightarrow> bool \<Rightarrow> zone_feature list \<Rightarrow> zone_polygon list \<Rightarrow> zones \<Rightarrow> zones_outcome" where
  "apply_projected J K V persist d zs s =
     (if persist \<and> \<not> ze_writable V then (s, [], Inl (StopFailure PersistFailed))
      else (let s1 = (if persist then s \<lparr> zs_file := ZoneFile (document_json d) \<rparr> else s) in
        case feature_and_polygon_counts J d of
          Inl e \<Rightarrow> (s1, [], Inl (StopError e))
        | Inr counts \<Rightarrow> (let (s2, out) = activate_document K d zs s1 in (s2, out, Inr counts))))"

definition apply_zones :: "json_lib \<Rightarrow> zones_config \<Rightarrow> zones_env \<Rightarrow> bool \<Rightarrow> zone_feature list \<Rightarrow> zones \<Rightarrow> zones_outcome" where
  "apply_zones J K V persist doc s =
     (case (if persist then Inr doc else normalize_geojson (document_json doc)) of
        Inl e \<Rightarrow> (s, [], Inl (StopError e))
      | Inr d \<Rightarrow>
          (case project_document J (ze_services V) (if zc_use_keepout K then d else []) of
             Inl stop \<Rightarrow> (s, [], Inl stop)
           | Inr zs \<Rightarrow> apply_projected J K V persist d zs s))"

text \<open>
  What the handlers do with an error of the document: a \<open>ValueError\<close> is a reply, anything else escapes from the callback.
  \<open>read_zone_file\<close> is the decoded file.
\<close>

fun escapes :: "zone_error \<Rightarrow> bool" where
  "escapes (ZoneEscaped e) = True"
| "escapes e = False"

datatype zones_reply = ZonesSet nat nat | ZonesRefused zone_error | ZonesFailed zone_failure | FileRefused | ZonesRaised zone_error
  | ZonesState bool jval

fun reply_of :: "zone_stop + (nat \<times> nat) \<Rightarrow> zones_reply" where
  "reply_of (Inr (n, m)) = ZonesSet n m"
| "reply_of (Inl (StopFailure e)) = ZonesFailed e"
| "reply_of (Inl (StopError e)) = ZonesRaised e"

definition refuse_zones :: "zone_error \<Rightarrow> zones_reply" where
  "refuse_zones e = (if escapes e then ZonesRaised e else ZonesRefused e)"

text \<open>\<open>None\<close> is a request whose text is no JSON value.\<close>

definition set_geojson :: "json_lib \<Rightarrow> zones_config \<Rightarrow> zones_env \<Rightarrow> jval option \<Rightarrow> zones \<Rightarrow> zones \<times> keepout_msg list \<times> zones_reply" where
  "set_geojson J K V text s =
     (case text of
        None \<Rightarrow> (s, [], FileRefused)
      | Some v \<Rightarrow>
          (case normalize_geojson v of
             Inl e \<Rightarrow> (s, [], refuse_zones e)
           | Inr d \<Rightarrow> (let (s1, out, r) = apply_zones J K V True d s in (s1, out, reply_of r))))"

definition reload_zones :: "json_lib \<Rightarrow> zones_config \<Rightarrow> zones_env \<Rightarrow> zones \<Rightarrow> zones \<times> keepout_msg list \<times> zones_reply" where
  "reload_zones J K V s =
     (case zs_file s of
        ZoneFile v \<Rightarrow>
          (case normalize_geojson v of
             Inl e \<Rightarrow> (s, [], refuse_zones e)
           | Inr d \<Rightarrow> (let (s1, out, r) = apply_zones J K V False d s in (s1, out, reply_of r)))
      | _ \<Rightarrow> (s, [], FileRefused))"

definition load_initial_state :: "json_lib \<Rightarrow> zones_config \<Rightarrow> zones_env \<Rightarrow> zones \<Rightarrow> zones \<times> keepout_msg list \<times> zones_reply" where
  "load_initial_state J K V s =
     (let loaded = (case zs_file s of ZoneFile v \<Rightarrow> normalize_geojson v | _ \<Rightarrow> Inr []) in
      case loaded of
        Inl e \<Rightarrow>
          if escapes e then (s, [], ZonesRaised e)
          else (let (s1, out, r) = apply_zones J K V (zs_file s = NoZoneFile) [] s in (s1, out, reply_of r))
      | Inr d \<Rightarrow> (let (s1, out, r) = apply_zones J K V (zs_file s = NoZoneFile) d s in (s1, out, reply_of r)))"

definition get_zones_state :: "zones \<Rightarrow> zones_reply" where
  "get_zones_state s = ZonesState (zs_ready s) (document_json (zs_document s))"

datatype zones_event = LoadZones zones_env | SetZones zones_env "jval option" | ReloadZones zones_env | GetZones

fun zones_handle :: "json_lib \<Rightarrow> zones_config \<Rightarrow> zones \<Rightarrow> zones_event \<Rightarrow> zones \<times> keepout_msg list \<times> zones_reply" where
  "zones_handle J K s (LoadZones V) = load_initial_state J K V s"
| "zones_handle J K s (SetZones V v) = set_geojson J K V v s"
| "zones_handle J K s (ReloadZones V) = reload_zones J K V s"
| "zones_handle J K s GetZones = (s, [], get_zones_state s)"

definition zones_step :: "json_lib \<Rightarrow> zones_config \<Rightarrow> zones \<Rightarrow> zones_event \<Rightarrow> zones \<times> keepout_msg list" where
  "zones_step J K s e = (case zones_handle J K s e of (s1, out, r) \<Rightarrow> (s1, out))"

subsection \<open>Normal documents\<close>

definition ring_ok :: "ring \<Rightarrow> bool" where
  "ring_ok r \<longleftrightarrow> 4 \<le> length r \<and> same_vertex (hd r) (last r) \<and> list_all (\<lambda>p. in_degrees 180 (fst p) \<and> in_degrees 90 (snd p)) r"

definition feature_ok :: "zone_feature \<Rightarrow> bool" where
  "feature_ok f \<longleftrightarrow> list_all (\<lambda>q. q \<noteq> [] \<and> list_all ring_ok q) (zf_polygons f) \<and> (truthy (zf_properties f) \<or> zf_properties f = JObj [])"

lemma in_degrees_refl: "in_degrees b x \<Longrightarrow> feq x x"
  by (cases x) (auto simp: in_degrees_def fle_def)

lemma normalize_vertex_ok: "normalize_vertex i p = Inr v \<Longrightarrow> in_degrees 180 (fst v) \<and> in_degrees 90 (snd v)"
  by (auto simp: normalize_vertex_def bind_res_eq_Inr split: jval.splits list.splits)

lemma normalize_ring_ok:
  assumes "normalize_ring i v = Inr r"
  shows "ring_ok r"
proof -
  obtain ps r0 where v: "v = JList ps" and len: "\<not> length ps < 3" and m: "map_res (normalize_vertex i) ps = Inr r0"
    and r: "r = close_ring r0" "\<not> length r < 4"
    using assms by (auto simp: normalize_ring_def bind_res_eq_Inr split: jval.splits)
  have all: "\<forall>p\<in>set r0. in_degrees 180 (fst p) \<and> in_degrees 90 (snd p)"
    using map_res_Inr_set [OF m] normalize_vertex_ok by blast
  have ne: "r0 \<noteq> []" using map_res_Inr_length [OF m] len by auto
  have "same_vertex (hd r) (last r)"
    using r(1) ne in_degrees_refl bspec [OF all hd_in_set [OF ne]] by (simp add: close_ring_def same_vertex_def split: if_splits)
  moreover have "\<forall>p\<in>set r. in_degrees 180 (fst p) \<and> in_degrees 90 (snd p)"
    using r(1) all hd_in_set [OF ne] by (auto simp: close_ring_def)
  ultimately show ?thesis using r(2) by (auto simp: ring_ok_def list_all_iff)
qed

lemma map_res_list_all: "map_res f xs = Inr ys \<Longrightarrow> (\<And>x y. f x = Inr y \<Longrightarrow> P y) \<Longrightarrow> list_all P ys"
  by (induction xs arbitrary: ys) (auto simp: bind_res_eq_Inr)

lemma normalize_polygon_ok: "normalize_polygon i v = Inr q \<Longrightarrow> q \<noteq> [] \<and> list_all ring_ok q"
  by (auto simp: normalize_polygon_def split: jval.splits list.splits simp del: map_res.simps
      dest: map_res_Inr_length intro: map_res_list_all [where P = ring_ok] normalize_ring_ok)

lemma normalize_feature_ok: "normalize_feature i v = Inr f \<Longrightarrow> feature_ok f"
  using map_res_list_all [of "normalize_polygon i" _ _ "\<lambda>q. q \<noteq> [] \<and> list_all ring_ok q"] normalize_polygon_ok [of i]
  by (auto simp: normalize_feature_def feature_ok_def bind_res_eq_Inr properties_of_def Let_def simp del: map_res.simps
      split: jval.splits if_splits option.splits)

lemma normalize_features_ok: "normalize_features i vs = Inr d \<Longrightarrow> list_all feature_ok d"
  by (induction vs arbitrary: i d) (auto simp: bind_res_eq_Inr dest: normalize_feature_ok)

lemma normalize_geojson_ok: "normalize_geojson v = Inr d \<Longrightarrow> list_all feature_ok d"
  by (auto simp: normalize_geojson_def simp del: normalize_features.simps split: jval.splits if_splits option.splits dest: normalize_features_ok)

lemma map_res_printed: "(\<And>x. x \<in> set xs \<Longrightarrow> f (g x) = Inr x) \<Longrightarrow> map_res f (map g xs) = Inr xs"
  by (induction xs) auto

lemma normalize_vertex_json: "in_degrees 180 (fst p) \<Longrightarrow> in_degrees 90 (snd p) \<Longrightarrow> normalize_vertex i (JList [JFloat (fst p), JFloat (snd p)]) = Inr p"
  by (simp add: normalize_vertex_def)

lemma normalize_ring_json: "ring_ok r \<Longrightarrow> normalize_ring i (ring_json r) = Inr r"
  by (auto simp: normalize_ring_def ring_json_def ring_ok_def list_all_iff close_ring_def map_res_printed normalize_vertex_json)

lemma normalize_polygon_json: "q \<noteq> [] \<Longrightarrow> list_all ring_ok q \<Longrightarrow> normalize_polygon i (JList (map ring_json q)) = Inr q"
proof -
  assume q: "q \<noteq> []" "list_all ring_ok q"
  then have "map_res (normalize_ring i) (map ring_json q) = Inr q"
    by (intro map_res_printed) (simp add: list_all_iff normalize_ring_json)
  then show ?thesis using q(1) by (cases q) (simp_all add: normalize_polygon_def)
qed

lemma normalize_feature_json: "feature_ok f \<Longrightarrow> normalize_feature i (feature_json f) = Inr f"
proof -
  assume f: "feature_ok f"
  have ps: "map_res (normalize_polygon i) (map (\<lambda>q. JList (map ring_json q)) (zf_polygons f)) = Inr (zf_polygons f)"
    using f by (intro map_res_printed) (auto simp: feature_ok_def list_all_iff intro: normalize_polygon_json)
  have "properties_of (map_of [(''type'', JStr ''Feature''), (''properties'', zf_properties f), (''geometry'', x)]) = zf_properties f" for x
    using f by (auto simp: properties_of_def get_key_def feature_ok_def)
  moreover have "length qs = 1 \<Longrightarrow> [hd qs] = qs" for qs :: "jval list" by (cases qs) auto
  ultimately show ?thesis using ps
    by (cases "length (zf_polygons f) = 1") (simp_all add: normalize_feature_def feature_json_def get_key_def Let_def del: map_res.simps)
qed

lemma normalize_features_json: "list_all feature_ok d \<Longrightarrow> normalize_features i (map feature_json d) = Inr d"
  by (induction d arbitrary: i) (auto simp: normalize_feature_json)

lemma normalize_document_json: "list_all feature_ok d \<Longrightarrow> normalize_geojson (document_json d) = Inr d"
  by (simp add: normalize_geojson_def document_json_def normalize_features_json)

text \<open>A document that passes has closed rings of at least four vertices with every coordinate in range, and the dictionary
that is written for it passes again and gives the same document.\<close>

lemma geojson_normal_form:
  assumes "normalize_geojson v = Inr d"
  shows "list_all feature_ok d \<and> normalize_geojson (document_json d) = Inr d"
  using normalize_geojson_ok [OF assms] normalize_document_json by blast

subsection \<open>Changes of the live state\<close>

definition live_message :: "json_lib \<Rightarrow> zones_config \<Rightarrow> zones \<Rightarrow> keepout_msg \<Rightarrow> bool" where
  "live_message J K s msg \<longleftrightarrow>
     (\<exists>L zs. project_document J L (zs_document s) = Inr zs \<and> msg = projected_keepout_state_message zs (zc_frame K) (zs_revision s))"

text \<open>The file, when it can be read as a document, is the live document.\<close>

definition file_agrees :: "zones \<Rightarrow> bool" where
  "file_agrees s \<longleftrightarrow> (\<forall>v d. zs_file s = ZoneFile v \<and> normalize_geojson v = Inr d \<longrightarrow> d = zs_document s)"

definition committed :: "json_lib \<Rightarrow> zones_config \<Rightarrow> zones \<Rightarrow> zones \<Rightarrow> keepout_msg list \<Rightarrow> bool" where
  "committed J K s s1 out \<longleftrightarrow>
     zs_ready s1 \<and> zs_revision s1 = zs_revision s + 1 \<and> list_all feature_ok (zs_document s1) \<and> file_agrees s1 \<and>
     (\<exists>msg. out = [msg] \<and> live_message J K s1 msg)"

lemma live_messageI:
  "project_document J L (zs_document s) = Inr zs \<Longrightarrow> zs_revision s = n \<Longrightarrow> live_message J K s (projected_keepout_state_message zs (zc_frame K) n)"
  by (auto simp: live_message_def)

lemma yield_polygon_iff: "(\<exists>z. yield_polygon J (i, j, props, q) = Inr z) \<longleftrightarrow> (\<exists>kvs. props = JObj kvs)"
  by (auto simp: yield_polygon_def Let_def split: jval.splits)

lemma project_all_each: "project_all f c xs = Inr r \<Longrightarrow> x \<in> set xs \<Longrightarrow> \<exists>c1 y. f c1 x = Inr y"
  by (induction f c xs arbitrary: r rule: project_all.induct) (auto simp: bind_res_eq_Inr)

lemma raised_eq_Inr: "raised r = Inr x \<longleftrightarrow> r = Inr x"
  by (cases r) auto

lemma map_res_total: "(\<And>x. x \<in> set xs \<Longrightarrow> \<exists>y. f x = Inr y) \<Longrightarrow> \<exists>ys. map_res f xs = Inr ys"
proof (induction xs)
  case (Cons x xs)
  then obtain y ys where "f x = Inr y" "map_res f xs = Inr ys" by force
  then show ?case by simp
qed simp

lemma projected_counts:
  assumes "project_document J L d = Inr zs"
  shows "\<exists>c. feature_and_polygon_counts J d = Inr c"
proof -
  obtain r where p: "project_all (project_polygon J L) (first_ready L 0) (polygons_of d) = Inr r"
    using assms unfolding project_document_def bind_res_eq_Inr by blast
  have each: "\<exists>z. yield_polygon J x = Inr z" if "x \<in> set (polygons_of d)" for x
    using project_all_each [OF p that] unfolding project_polygon_def bind_res_eq_Inr raised_eq_Inr by blast
  have props: "\<exists>kvs. zf_properties f = JObj kvs" if f: "f \<in> set d" "q \<in> set (zf_polygons f)" for f q
  proof -
    obtain i where i: "i < length d" "d ! i = f" using f(1) by (auto simp: in_set_conv_nth)
    obtain j where j: "j < length (zf_polygons f)" "zf_polygons f ! j = q" using f(2) by (auto simp: in_set_conv_nth)
    have "(i, f) \<in> set (enumerate 0 d)" "(j, q) \<in> set (enumerate 0 (zf_polygons f))"
      using i j by (auto simp: in_set_enumerate_eq)
    then have "(i, j, zf_properties f, q) \<in> set (polygons_of d)" 
      unfolding polygons_of_def feature_polygons_def by (auto intro!: bexI [of _ "(i, f)"] image_eqI [of _ _ "(j, q)"])
    from each [OF this] show ?thesis by (simp add: yield_polygon_iff)
  qed
  have "\<exists>ys. map_res (yield_polygon J) (feature_polygons 0 f) = Inr ys" if "f \<in> set d" for f
  proof (rule map_res_total)
    fix x assume "x \<in> set (feature_polygons 0 f)"
    then obtain j q where "x = (0, j, zf_properties f, q)" "q \<in> set (zf_polygons f)"
      by (auto simp: feature_polygons_def in_set_enumerate_eq)
    then show "\<exists>y. yield_polygon J x = Inr y" using props [OF that] by (auto simp: yield_polygon_iff)
  qed
  then obtain ps where "map_res (\<lambda>f. map_res (yield_polygon J) (feature_polygons 0 f)) d = Inr ps"
    using map_res_total [of d "\<lambda>f. map_res (yield_polygon J) (feature_polygons 0 f)"] by blast
  then show ?thesis by (simp add: feature_and_polygon_counts_def)
qed

lemma apply_zones_cases:
  assumes "zc_use_keepout K" "apply_zones J K V persist d s = (s1, out, r)" "list_all feature_ok d"
    "\<not> persist \<Longrightarrow> file_agrees (s \<lparr> zs_document := d \<rparr>)"
  shows "(s1 = s \<and> out = [] \<and> (\<forall>n. r \<noteq> Inr n)) \<or>
    committed J K s s1 out \<and> (\<exists>n. r = Inr n)"
proof (cases "\<exists>zs. project_document J (ze_services V) d = Inr zs \<and> \<not> (persist \<and> \<not> ze_writable V) \<and> (\<exists>c. feature_and_polygon_counts J d = Inr c)")
  case True
  then obtain zs c where p: "project_document J (ze_services V) d = Inr zs" and w: "\<not> (persist \<and> \<not> ze_writable V)"
    and c: "feature_and_polygon_counts J d = Inr c" by blast
  have live: "zs_document t = d \<Longrightarrow> zs_revision t = Suc (zs_revision s) \<Longrightarrow>
      live_message J K t (projected_keepout_state_message zs (zc_frame K) (Suc (zs_revision s)))" for t
    using live_messageI [of J "ze_services V" t zs "Suc (zs_revision s)" K] p by simp
  show ?thesis using assms p w c normalize_document_json [OF assms(3)] live
    by (cases persist) (auto simp: apply_zones_def apply_projected_def activate_document_def committed_def file_agrees_def Let_def)
next
  case False
  have yes: "\<exists>c. feature_and_polygon_counts J d = Inr c" if "project_document J (ze_services V) d = Inr zs" for zs
    using projected_counts [OF that] .
  have n: "(if persist then Inr d else normalize_geojson (document_json d)) = Inr d"
    using normalize_document_json [OF assms(3)] by simp
  have "s1 = s \<and> out = [] \<and> (\<forall>n. r \<noteq> Inr n)"
  proof (cases "project_document J (ze_services V) d")
    case (Inl stop)
    then show ?thesis using assms(1,2) n by (auto simp: apply_zones_def)
  next
    case (Inr zs)
    then have "persist \<and> \<not> ze_writable V" using False yes by blast
    then show ?thesis using assms(1,2) n Inr by (auto simp: apply_zones_def apply_projected_def)
  qed
  then show ?thesis ..
qed

definition settled :: "json_lib \<Rightarrow> zones_config \<Rightarrow> zones \<Rightarrow> zones \<times> keepout_msg list \<times> zones_reply \<Rightarrow> bool" where
  "settled J K s o' \<longleftrightarrow>
     (case o' of (s1, out, r) \<Rightarrow> case r of ZonesSet n m \<Rightarrow> committed J K s s1 out | _ \<Rightarrow> s1 = s \<and> out = [])"

lemma settled_apply:
  assumes "zc_use_keepout K" "list_all feature_ok d" "\<not> persist \<Longrightarrow> file_agrees (s \<lparr> zs_document := d \<rparr>)"
  shows "settled J K s (case apply_zones J K V persist d s of (s1, out, r) \<Rightarrow> (s1, out, reply_of r))"
proof -
  obtain s1 out r where a: "apply_zones J K V persist d s = (s1, out, r)" by (cases "apply_zones J K V persist d s")
  from apply_zones_cases [OF assms(1) a assms(2,3)] show ?thesis
  proof
    assume "s1 = s \<and> out = [] \<and> (\<forall>n. r \<noteq> Inr n)"
    then show ?thesis using a by (cases r rule: reply_of.cases) (simp_all add: settled_def)
  next
    assume "committed J K s s1 out \<and> (\<exists>n. r = Inr n)"
    then show ?thesis using a by (cases r rule: reply_of.cases) (simp_all add: settled_def)
  qed
qed

lemma settled_quiet: "(\<forall>n m. r \<noteq> ZonesSet n m) \<Longrightarrow> settled J K s (s, [], r)"
  by (cases r) (auto simp: settled_def)

lemma file_agrees_read: "zs_file s = ZoneFile v \<Longrightarrow> normalize_geojson v = Inr d \<Longrightarrow> file_agrees (s \<lparr> zs_document := d \<rparr>)"
  by (simp add: file_agrees_def)

lemma handle_settled:
  assumes "zc_use_keepout K"
  shows "settled J K s (zones_handle J K s e)"
proof (cases e)
  case (LoadZones V)
  define loaded where "loaded = (case zs_file s of ZoneFile v \<Rightarrow> normalize_geojson v | _ \<Rightarrow> Inr [])"
  have ok: "list_all feature_ok d" if "loaded = Inr d" for d
    using that normalize_geojson_ok by (auto simp: loaded_def split: zone_file.splits)
  have "zs_file s \<noteq> NoZoneFile \<Longrightarrow> loaded = Inr d \<Longrightarrow> file_agrees (s \<lparr> zs_document := d \<rparr>)" for d
    by (auto simp: loaded_def file_agrees_def split: zone_file.splits)
  moreover have "loaded = Inl x \<Longrightarrow> file_agrees (s \<lparr> zs_document := [] \<rparr>)" for x
    by (auto simp: loaded_def file_agrees_def split: zone_file.splits)
  ultimately show ?thesis using LoadZones ok settled_apply [OF assms, of _ "zs_file s = NoZoneFile" s J V]
    by (cases loaded) (simp_all add: load_initial_state_def Let_def settled_quiet flip: loaded_def)
next
  case (SetZones V x)
  then show ?thesis using settled_apply [OF assms, of _ True s J V] normalize_geojson_ok
    by (auto simp: set_geojson_def refuse_zones_def settled_quiet split: option.splits sum.splits)
next
  case (ReloadZones V)
  then show ?thesis using settled_apply [OF assms, of _ False s J V] normalize_geojson_ok file_agrees_read [of s]
    by (auto simp: reload_zones_def refuse_zones_def settled_quiet split: zone_file.splits sum.splits)
qed (simp add: get_zones_state_def settled_quiet)

definition zones_inv :: "json_lib \<Rightarrow> zones_config \<Rightarrow> zones \<Rightarrow> keepout_msg list \<Rightarrow> bool" where
  "zones_inv J K s out \<longleftrightarrow>
     map km_revision out = [1..<Suc (zs_revision s)] \<and> (zs_ready s \<longleftrightarrow> out \<noteq> []) \<and> list_all feature_ok (zs_document s) \<and>
     (zs_ready s \<longrightarrow> file_agrees s \<and> live_message J K s (last out))"

lemma zones_inv_settled:
  assumes "zones_inv J K s out" "settled J K s (s1, out1, r)"
  shows "zones_inv J K s1 (out @ out1)"
proof (cases "\<exists>n m. r = ZonesSet n m")
  case True
  then have c: "committed J K s s1 out1" using assms(2) by (auto simp: settled_def)
  then obtain msg where msg: "out1 = [msg]" "live_message J K s1 msg" by (auto simp: committed_def)
  then have "km_revision msg = zs_revision s1" by (auto simp: live_message_def projected_keepout_state_message_def)
  then show ?thesis using assms(1) c msg by (simp add: zones_inv_def committed_def)
next
  case False
  then have "s1 = s \<and> out1 = []" using assms(2) by (cases r) (auto simp: settled_def)
  then show ?thesis using assms(1) by simp
qed

lemma zones_run_inv:
  assumes "zc_use_keepout K" "zones_inv J K s out"
  shows "zones_inv J K (fst (run (zones_step J K) s es)) (out @ snd (run (zones_step J K) s es))"
  using assms(2)
proof (induction es arbitrary: s out)
  case (Cons e es)
  obtain s1 out1 r where h: "zones_handle J K s e = (s1, out1, r)" by (cases "zones_handle J K s e")
  have "zones_inv J K s1 (out @ out1)" using zones_inv_settled [OF Cons.prems] handle_settled [OF assms(1), of J s e] h by simp
  from Cons.IH [OF this] h show ?case by (simp add: run_Cons zones_step_def del: run.simps)
qed simp

text \<open>C20. Over any run of a node that uses keep-outs: the published revisions are 1, 2, 3 and so on, the last message shows the
enabled polygons of the live document as the services projected them, the file (where it holds a document) holds the live
document, and every request either succeeds and changes document, file, revision and message together, or changes nothing.\<close>

theorem zones_change_together:
  assumes "zc_use_keepout K" "run (zones_step J K) (new_zones f) es = (s, out)"
  shows "zones_inv J K s out \<and> settled J K s (zones_handle J K s e)"
proof -
  have "zones_inv J K (new_zones f) []" by (simp add: zones_inv_def new_zones_def)
  from zones_run_inv [OF assms(1) this, of es] show ?thesis using assms(2) handle_settled [OF assms(1)] by simp
qed

subsection \<open>Malformed documents\<close>

definition zone_request :: "jval \<Rightarrow> jval \<Rightarrow> jval" where
  "zone_request props first = JObj [(''type'', JStr ''Feature''), (''properties'', props),
     (''geometry'', JObj [(''type'', JStr ''Polygon''),
       (''coordinates'', JList [JList [JList [first, JInt 0], JList [JInt 1, JInt 0], JList [JInt 1, JInt 1]]])])]"

definition corner_ring :: ring where
  "corner_ring = [(Fin 0, Fin 0), (Fin 1, Fin 0), (Fin 1, Fin 1), (Fin 0, Fin 0)]"

definition corner_document :: "jval \<Rightarrow> zone_feature list" where
  "corner_document props = [\<lparr> zf_properties = props, zf_polygons = [[corner_ring]] \<rparr>]"

lemma normalize_zone_request:
  "truthy props \<or> props = JObj [] \<Longrightarrow> normalize_geojson (zone_request props (JInt 0)) = Inr (corner_document props)"
  using float_of_int_small [of 0] float_of_int_small [of 1]
  by (auto simp: zone_request_def normalize_geojson_def normalize_feature_def get_key_def normalize_polygon_def
      normalize_ring_def normalize_vertex_def in_degrees_def fle_def close_ring_def same_vertex_def properties_of_def corner_document_def corner_ring_def)

lemma normalize_null_zone: "normalize_geojson (zone_request props JNull) = Inl (ZoneEscaped ZoneTypeError)"
  by (simp add: zone_request_def normalize_geojson_def normalize_feature_def get_key_def normalize_polygon_def
      normalize_ring_def normalize_vertex_def)

lemma no_counts: "feature_and_polygon_counts J (corner_document (JList [JInt 1])) = Inl (ZoneEscaped ZoneAttribute)"
  by (simp add: feature_and_polygon_counts_def corner_document_def feature_polygons_def yield_polygon_def)

lemma nothing_to_project: "project_document J L [] = Inr []"
  by (simp add: project_document_def polygons_of_def split: prod.splits)

text \<open>A coordinate that is null raises \<open>TypeError\<close>, which the callback does not catch. Where keep-outs are off, a document
whose properties are a list is written to the file before the error escapes, and the same error escapes from the first
callback of every later start.\<close>

lemma malformed_zones_escape:
  assumes "\<not> zc_use_keepout K" "ze_writable V"
  shows "set_geojson J K V (Some (zone_request props JNull)) s = (s, [], ZonesRaised (ZoneEscaped ZoneTypeError)) \<and>
    (\<exists>w. set_geojson J K V (Some (zone_request (JList [JInt 1]) (JInt 0))) s =
         (s \<lparr> zs_file := ZoneFile w \<rparr>, [], ZonesRaised (ZoneEscaped ZoneAttribute)) \<and>
       (\<forall>V1. load_initial_state J K V1 (new_zones (ZoneFile w)) = (new_zones (ZoneFile w), [], ZonesRaised (ZoneEscaped ZoneAttribute))))"
proof -
  let ?d = "corner_document (JList [JInt 1])"
  have n: "normalize_geojson (zone_request (JList [JInt 1]) (JInt 0)) = Inr ?d" by (rule normalize_zone_request) simp
  have m: "normalize_geojson (document_json ?d) = Inr ?d" using normalize_document_json [OF normalize_geojson_ok [OF n]] .
  show ?thesis using assms
    by (intro conjI exI [of _ "document_json ?d"])
       (simp_all add: set_geojson_def normalize_null_zone refuse_zones_def n m apply_zones_def nothing_to_project apply_projected_def no_counts
         load_initial_state_def new_zones_def)
qed

subsection \<open>Examples\<close>

definition quiet_json :: json_lib where
  "quiet_json = \<lparr> js_loads = (\<lambda>_. None), js_dumps = (\<lambda>_. []), js_shown = (\<lambda>_. []) \<rparr>"

definition echo_services :: ll_services where
  "echo_services = \<lparr> ll_ready = (\<lambda>_ c. c = FallbackClient), ll_call = (\<lambda>_ _ p. Inr p) \<rparr>"

definition zones_setup :: "bool \<Rightarrow> zones_config" where
  "zones_setup keep = \<lparr> zc_frame = ''map'', zc_use_keepout = keep \<rparr>"

definition zones_up :: zones_env where
  "zones_up = \<lparr> ze_services = echo_services, ze_writable = True \<rparr>"

lemma geojson_normal_form_witness:
  "list_all feature_ok (corner_document (JObj [])) \<and> normalize_geojson (document_json (corner_document (JObj []))) = Inr (corner_document (JObj []))"
  by (rule geojson_normal_form [OF normalize_zone_request]) simp

lemma zero_digit: "char_of (48 :: nat) = CHR ''0''"
  by code_simp

lemma echo_run:
  "snd (run (zones_step quiet_json (zones_setup True)) (new_zones NoZoneFile) [SetZones zones_up (Some (zone_request (JObj []) (JInt 0)))]) =
     [\<lparr> km_frame = ''map'', km_revision = 1, km_polygons = [(''zone_0_0'', corner_ring, [])] \<rparr>]"
  by (simp add: zones_step_def set_geojson_def normalize_zone_request apply_zones_def zones_setup_def project_document_def polygons_of_def
      feature_polygons_def corner_document_def first_ready_def echo_services_def zones_up_def project_polygon_def yield_polygon_def get_key_def
      corner_ring_def project_point_def apply_projected_def feature_and_polygon_counts_def activate_document_def
      projected_keepout_state_message_def polygon_message_def new_zones_def str_of_int_def nat_digits.simps zero_digit Let_def)

lemma zones_change_together_witness:
  "\<exists>s msg. zones_inv quiet_json (zones_setup True) s [msg] \<and> km_polygons msg = [(''zone_0_0'', corner_ring, [])]"
  using zones_change_together [of "zones_setup True" quiet_json NoZoneFile "[SetZones zones_up (Some (zone_request (JObj []) (JInt 0)))]",
    OF _ prod.collapse [symmetric]] unfolding echo_run by (fastforce simp: zones_setup_def)

lemma malformed_zones_escape_witness:
  "set_geojson quiet_json (zones_setup False) zones_up (Some (zone_request JNull JNull)) (new_zones NoZoneFile) =
     (new_zones NoZoneFile, [], ZonesRaised (ZoneEscaped ZoneTypeError))"
  using malformed_zones_escape [of "zones_setup False" zones_up quiet_json JNull "new_zones NoZoneFile"] by (simp add: zones_setup_def zones_up_def)

end
