(* ===== verification/Operator_Lease.thy ===== *)
theory Operator_Lease
  imports Web_Protocol
begin

section \<open>The operator lock, its lease and the request handler\<close>

text \<open>
  \<open>salus_web/operator_guard.py\<close>, \<open>operator_lease.py\<close> and the message handler of
  \<open>websocket_server.py\<close>: the lock with its heartbeat, the exclusive ownership of one connection, and
  which requests reach the ROS gateway. The injected clock is a parameter: \<open>clk n\<close> is the \<open>n\<close>-th value it
  returns, and the guard counts its readings.
\<close>

type_synonym clock = "nat \<Rightarrow> pyfloat"
type_synonym client = string

subsection \<open>The guard\<close>

record guard =
  og_enabled :: bool
  og_timeout :: pyfloat
  og_locked :: bool
  og_reason :: string
  og_last :: "pyfloat option"
  og_reads :: nat

record lock_state =
  lk_locked :: bool
  lk_reason :: string
  lk_age :: "pyfloat option"

text \<open>\<open>None\<close>: the \<open>ValueError\<close> of a timeout that is not positive.\<close>

definition new_guard :: "clock \<Rightarrow> bool \<Rightarrow> pyfloat \<Rightarrow> bool \<Rightarrow> guard option" where
  "new_guard clk enabled timeout initially_locked =
     (if fle timeout fzero then None
      else
        (let locked = (if enabled then initially_locked else False)
         in Some \<lparr> og_enabled = enabled, og_timeout = timeout, og_locked = locked,
              og_reason = (if locked then ''STARTUP_LOCKED'' else []),
              og_last = (if locked then None else Some (clk 0)), og_reads = (if locked then 0 else 1) \<rparr>))"

definition expire :: "clock \<Rightarrow> guard \<Rightarrow> guard" where
  "expire clk g =
     (if \<not> og_enabled g \<or> og_locked g then g
      else case og_last g of None \<Rightarrow> g
      | Some t \<Rightarrow>
          (let now = clk (og_reads g); g1 = g \<lparr> og_reads := og_reads g + 1 \<rparr>
           in if flt (og_timeout g) (fsub now t)
              then g1 \<lparr> og_locked := True, og_reason := ''UI_HEARTBEAT_TIMEOUT'', og_last := None \<rparr> else g1))"

definition lock_reading :: "clock \<Rightarrow> guard \<Rightarrow> guard \<times> lock_state" where
  "lock_reading clk g0 =
     (let g = expire clk g0 in
      if \<not> og_enabled g then (g, \<lparr> lk_locked = False, lk_reason = [], lk_age = None \<rparr>)
      else case og_last g of
        None \<Rightarrow> (g, \<lparr> lk_locked = og_locked g, lk_reason = og_reason g, lk_age = None \<rparr>)
      | Some t \<Rightarrow>
          (g \<lparr> og_reads := og_reads g + 1 \<rparr>,
           \<lparr> lk_locked = og_locked g, lk_reason = og_reason g, lk_age = Some (pymax fzero (fsub (clk (og_reads g)) t)) \<rparr>))"

definition force_locked :: "clock \<Rightarrow> guard \<Rightarrow> string \<Rightarrow> guard \<times> lock_state" where
  "force_locked clk g reason =
     (if \<not> og_enabled g then lock_reading clk g
      else lock_reading clk (g \<lparr> og_locked := True, og_reason := reason, og_last := None \<rparr>))"

definition set_locked :: "clock \<Rightarrow> guard \<Rightarrow> bool \<Rightarrow> guard \<times> lock_state" where
  "set_locked clk g locked =
     (if \<not> og_enabled g then lock_reading clk g
      else lock_reading clk
        (if locked then g \<lparr> og_locked := True, og_reason := ''UI_LOCK_REQUEST'', og_last := None \<rparr>
         else g \<lparr> og_locked := False, og_reason := [], og_last := Some (clk (og_reads g)), og_reads := og_reads g + 1 \<rparr>))"

definition guard_heartbeat :: "clock \<Rightarrow> guard \<Rightarrow> guard \<times> lock_state" where
  "guard_heartbeat clk g0 =
     (let g = expire clk g0 in
      lock_reading clk
        (if og_enabled g \<and> \<not> og_locked g
         then g \<lparr> og_last := Some (clk (og_reads g)), og_reads := og_reads g + 1 \<rparr> else g))"

definition guard_authorize :: "clock \<Rightarrow> guard \<Rightarrow> request \<Rightarrow> guard \<times> bool" where
  "guard_authorize clk g0 r =
     (let (g, st) = lock_reading clk g0 in (g, \<not> (lk_locked st \<and> is_controlled r)))"

subsection \<open>The lease\<close>

record lease =
  ls_guard :: guard
  ls_owner :: "client option"

record lease_state =
  lt_lock :: lock_state
  lt_owner_present :: bool
  lt_is_owner :: bool

datatype lease_error = ControlLocked | ControlOwned

record lease_decision =
  ld_allowed :: bool
  ld_state :: lease_state
  ld_error :: "lease_error option"

definition sync_timeout :: "clock \<Rightarrow> lease \<Rightarrow> lease" where
  "sync_timeout clk l =
     (let (g, st) = lock_reading clk (ls_guard l) in
      if lk_locked st \<and> lk_reason st = ''UI_HEARTBEAT_TIMEOUT'' then \<lparr> ls_guard = g, ls_owner = None \<rparr>
      else l \<lparr> ls_guard := g \<rparr>)"

definition state_for :: "clock \<Rightarrow> lease \<Rightarrow> client \<Rightarrow> lease \<times> lease_state" where
  "state_for clk l0 c =
     (let l = sync_timeout clk l0; (g, st) = lock_reading clk (ls_guard l)
      in (l \<lparr> ls_guard := g \<rparr>,
          \<lparr> lt_lock = st, lt_owner_present = (ls_owner l \<noteq> None), lt_is_owner = (ls_owner l = Some c) \<rparr>))"

definition decide :: "clock \<Rightarrow> lease \<Rightarrow> client \<Rightarrow> bool \<Rightarrow> lease_error option \<Rightarrow> lease \<times> lease_decision" where
  "decide clk l c allowed error =
     (let (l1, st) = state_for clk l c in (l1, \<lparr> ld_allowed = allowed, ld_state = st, ld_error = error \<rparr>))"

definition not_owner :: "lease \<Rightarrow> lease_error" where
  "not_owner l = (if ls_owner l = None then ControlLocked else ControlOwned)"

definition lease_set_locked :: "clock \<Rightarrow> lease \<Rightarrow> client \<Rightarrow> bool \<Rightarrow> lease \<times> lease_decision" where
  "lease_set_locked clk l0 c locked =
     (let l = sync_timeout clk l0 in
      if \<not> og_enabled (ls_guard l) then decide clk l c True None
      else if locked then
        decide clk \<lparr> ls_guard = fst (set_locked clk (ls_guard l) True), ls_owner = None \<rparr> c True None
      else if ls_owner l \<noteq> None \<and> ls_owner l \<noteq> Some c then decide clk l c False (Some ControlOwned)
      else decide clk \<lparr> ls_guard = fst (set_locked clk (ls_guard l) False), ls_owner = Some c \<rparr> c True None)"

definition lease_heartbeat :: "clock \<Rightarrow> lease \<Rightarrow> client \<Rightarrow> lease \<times> lease_decision" where
  "lease_heartbeat clk l0 c =
     (let l = sync_timeout clk l0 in
      if \<not> og_enabled (ls_guard l) then decide clk l c True None
      else if ls_owner l \<noteq> Some c then decide clk l c False (Some (not_owner l))
      else decide clk (sync_timeout clk (l \<lparr> ls_guard := fst (guard_heartbeat clk (ls_guard l)) \<rparr>)) c True None)"

definition lease_authorize :: "clock \<Rightarrow> lease \<Rightarrow> client \<Rightarrow> request \<Rightarrow> lease \<times> lease_decision" where
  "lease_authorize clk l0 c r =
     (let l = sync_timeout clk l0 in
      if \<not> is_controlled r \<or> \<not> og_enabled (ls_guard l) then decide clk l c True None
      else if ls_owner l \<noteq> Some c then decide clk l c False (Some (not_owner l))
      else
        (let (g, allowed) = guard_authorize clk (ls_guard l) r
         in decide clk (l \<lparr> ls_guard := g \<rparr>) c allowed (if allowed then None else Some ControlLocked)))"

definition lease_disconnect :: "clock \<Rightarrow> lease \<Rightarrow> client \<Rightarrow> lease \<times> bool" where
  "lease_disconnect clk l0 c =
     (let l = sync_timeout clk l0 in
      if ls_owner l \<noteq> Some c then (l, False)
      else (\<lparr> ls_guard = fst (force_locked clk (ls_guard l) ''UI_CLIENT_DISCONNECTED''), ls_owner = None \<rparr>, True))"

subsection \<open>The message handler\<close>

text \<open>
  What a message of a client makes the server do: an error reply, a read-only reply, a lease reply or
  the dispatch of the request to the gateway. A message whose validation raises has no reply.
\<close>

datatype reply =
    ErrorAck protocol_error | ReadOnlyAck client request | LeaseAck client request bool "lease_error option"
  | Dispatch client request

datatype server_event =
    Message client bool jval
  | ClientGone client
  | ReadState client

text \<open>\<open>Message c nav_live raw\<close>; \<open>ReadState\<close> is any projection of the lease state (broadcasts, watchdog).\<close>

definition lock_field :: "request \<Rightarrow> bool" where
  "lock_field r = (case rq_fields r ''locked'' of Some (JBool b) \<Rightarrow> b | _ \<Rightarrow> False)"

definition handle_request :: "clock \<Rightarrow> lease \<Rightarrow> client \<Rightarrow> bool \<Rightarrow> request \<Rightarrow> lease \<times> reply list" where
  "handle_request clk l c nav_live r =
     (if nav_live \<and> rq_op r \<noteq> ''get_nav_snapshot'' then (fst (state_for clk l c), [ReadOnlyAck c r])
      else if rq_op r = ''set_control_lock'' then
        (let (l1, d) = lease_set_locked clk l c (lock_field r) in (l1, [LeaseAck c r (ld_allowed d) (ld_error d)]))
      else if rq_op r = ''control_heartbeat'' then
        (let (l1, d) = lease_heartbeat clk l c in (l1, [LeaseAck c r (ld_allowed d) (ld_error d)]))
      else
        (let (l1, d) = lease_authorize clk l c r
         in if ld_allowed d then (l1, [Dispatch c r]) else (l1, [LeaseAck c r False (ld_error d)])))"

fun server_step :: "clock \<Rightarrow> lease \<Rightarrow> server_event \<Rightarrow> lease \<times> reply list" where
  "server_step clk l (Message c nav_live raw) =
     (case accept_request raw of
        Inl (Refused e) \<Rightarrow> (l, [ErrorAck e])
      | Inl (Raised e) \<Rightarrow> (l, [])
      | Inr r \<Rightarrow> handle_request clk l c nav_live r)"
| "server_step clk l (ClientGone c) = (fst (lease_disconnect clk l c), [])"
| "server_step clk l (ReadState c) = (fst (state_for clk l c), [])"

text \<open>What an event asks of the lease.\<close>

datatype lease_event =
    LockRequest client bool | Beat client | Authorize client request | Disconnect client | Query client

fun lease_step :: "clock \<Rightarrow> lease \<Rightarrow> lease_event \<Rightarrow> lease" where
  "lease_step clk l (LockRequest c b) = fst (lease_set_locked clk l c b)"
| "lease_step clk l (Beat c) = fst (lease_heartbeat clk l c)"
| "lease_step clk l (Authorize c r) = fst (lease_authorize clk l c r)"
| "lease_step clk l (Disconnect c) = fst (lease_disconnect clk l c)"
| "lease_step clk l (Query c) = fst (state_for clk l c)"

fun lease_view :: "server_event \<Rightarrow> lease_event list" where
  "lease_view (Message c nav_live raw) =
     (case accept_request raw of
        Inl e \<Rightarrow> []
      | Inr r \<Rightarrow>
          if nav_live \<and> rq_op r \<noteq> ''get_nav_snapshot'' then [Query c]
          else if rq_op r = ''set_control_lock'' then [LockRequest c (lock_field r)]
          else if rq_op r = ''control_heartbeat'' then [Beat c]
          else [Authorize c r])"
| "lease_view (ClientGone c) = [Disconnect c]"
| "lease_view (ReadState c) = [Query c]"

lemma server_lease: "fst (server_step clk l e) = foldl (lease_step clk) l (lease_view e)"
  by (cases e) (auto simp: handle_request_def case_prod_unfold Let_def split: sum.splits web_error.splits)

lemma server_run_lease:
  "fst (run (server_step clk) l es) = foldl (lease_step clk) l (concat (map lease_view es))"
proof (induction es arbitrary: l)
  case (Cons e es)
  then show ?case by (simp add: case_prod_unfold Let_def flip: server_lease)
qed simp

subsection \<open>The guard over time\<close>

text \<open>Unlocked means that a heartbeat time is recorded; locked means that none is.\<close>

definition lock_inv :: "guard \<Rightarrow> bool" where
  "lock_inv g \<longleftrightarrow> (og_enabled g \<longrightarrow> og_locked g = (og_last g = None))"

definition aged :: "clock \<Rightarrow> guard \<Rightarrow> guard \<Rightarrow> bool" where
  "aged clk g h \<longleftrightarrow> og_enabled h = og_enabled g \<and> og_timeout h = og_timeout g \<and> og_reads g \<le> og_reads h \<and>
     (lock_inv g \<longrightarrow> lock_inv h) \<and> (og_last h = None \<or> og_last h = og_last g)"

lemma aged_refl [simp]: "aged clk g g"
  by (simp add: aged_def)

lemma aged_trans: "aged clk f g \<Longrightarrow> aged clk g h \<Longrightarrow> aged clk f h"
  by (auto simp: aged_def)

lemma expire_aged: "aged clk g (expire clk g)"
  by (auto simp: expire_def aged_def lock_inv_def Let_def split: option.splits)

lemma lock_reading_aged: "aged clk g (fst (lock_reading clk g))"
  using expire_aged [of clk g] by (auto simp: lock_reading_def aged_def lock_inv_def Let_def split: option.splits)

lemma sync_aged: "aged clk (ls_guard l) (ls_guard (sync_timeout clk l)) \<and> ls_owner (sync_timeout clk l) \<in> {None, ls_owner l}"
  using lock_reading_aged [of clk "ls_guard l"] by (auto simp: sync_timeout_def Let_def split: prod.splits)

lemma state_for_aged: "aged clk (ls_guard l) (ls_guard (fst (state_for clk l c))) \<and>
   ls_owner (fst (state_for clk l c)) \<in> {None, ls_owner l}"
proof -
  have "aged clk (ls_guard (sync_timeout clk l)) (fst (lock_reading clk (ls_guard (sync_timeout clk l))))"
    by (rule lock_reading_aged)
  then show ?thesis using sync_aged [of clk l] aged_trans
    by (auto simp: state_for_def Let_def case_prod_unfold)
qed

lemma decide_aged: "aged clk (ls_guard l) (ls_guard (fst (decide clk l c a e))) \<and>
   ls_owner (fst (decide clk l c a e)) \<in> {None, ls_owner l}"
  using state_for_aged [of clk l c] by (simp add: decide_def case_prod_unfold Let_def)

lemma guard_authorize_aged: "aged clk g (fst (guard_authorize clk g r))"
  using lock_reading_aged [of clk g] by (simp add: guard_authorize_def case_prod_unfold Let_def)

text \<open>The events that give a client control, and those that end it.\<close>

fun grants :: "client \<Rightarrow> lease_event \<Rightarrow> bool" where
  "grants c (LockRequest d b) = (d = c \<and> \<not> b)"
| "grants c (Beat d) = (d = c)"
| "grants c e = False"

fun ends :: "client \<Rightarrow> lease_event \<Rightarrow> bool" where
  "ends c (LockRequest d b) = b"
| "ends c (Disconnect d) = (d = c)"
| "ends c e = False"

definition kept :: "guard \<Rightarrow> guard \<Rightarrow> bool" where
  "kept g h \<longleftrightarrow> og_enabled h = og_enabled g \<and> og_timeout h = og_timeout g \<and> og_reads g \<le> og_reads h \<and>
     (lock_inv g \<longrightarrow> lock_inv h)"

lemma aged_kept: "aged clk g h \<Longrightarrow> kept g h"
  by (simp add: aged_def kept_def)

lemma kept_trans: "kept f g \<Longrightarrow> kept g h \<Longrightarrow> kept f h"
  by (auto simp: kept_def)

text \<open>One step: the lease is released, only grows older, or is granted at a reading of the step.\<close>

definition unchanged :: "clock \<Rightarrow> lease \<Rightarrow> lease \<Rightarrow> bool" where
  "unchanged clk l m \<longleftrightarrow> aged clk (ls_guard l) (ls_guard m) \<and> ls_owner m \<in> {None, ls_owner l}"

definition granted :: "clock \<Rightarrow> client \<Rightarrow> lease \<Rightarrow> lease \<Rightarrow> bool" where
  "granted clk c l m \<longleftrightarrow> kept (ls_guard l) (ls_guard m) \<and> ls_owner m \<in> {None, Some c} \<and>
     (\<exists>j. og_reads (ls_guard l) \<le> j \<and> j < og_reads (ls_guard m) \<and> og_last (ls_guard m) \<in> {None, Some (clk j)})"

lemma unchanged_trans: "unchanged clk k l \<Longrightarrow> unchanged clk l m \<Longrightarrow> unchanged clk k m"
  using aged_trans by (auto simp: unchanged_def)

lemma sync_unchanged: "unchanged clk l (sync_timeout clk l)"
  using sync_aged by (simp add: unchanged_def)

lemma decide_unchanged: "unchanged clk l (fst (decide clk l c a e))"
  using decide_aged [of clk l c a e] by (simp add: unchanged_def)

lemma sync_decide: "unchanged clk l (fst (decide clk (sync_timeout clk l) c a e))"
  using unchanged_trans [OF sync_unchanged decide_unchanged] .

lemma granted_later:
  assumes "unchanged clk k l" "granted clk c l m" "unchanged clk m n"
  shows "granted clk c k n"
proof -
  obtain j where j: "og_reads (ls_guard l) \<le> j" "j < og_reads (ls_guard m)" "og_last (ls_guard m) \<in> {None, Some (clk j)}"
    using assms(2) by (auto simp: granted_def)
  have "kept (ls_guard k) (ls_guard n)"
    using assms kept_trans [OF kept_trans [OF aged_kept]] aged_kept unfolding granted_def unchanged_def by blast
  moreover have "og_reads (ls_guard k) \<le> j" "j < og_reads (ls_guard n)" "og_last (ls_guard n) \<in> {None, Some (clk j)}"
    using assms(1,3) j by (auto simp: unchanged_def aged_def)
  moreover have "ls_owner n \<in> {None, Some c}" using assms(2,3) by (auto simp: granted_def unchanged_def)
  ultimately show ?thesis unfolding granted_def by blast
qed

lemma set_locked_guard:
  "og_enabled g \<Longrightarrow> kept g (fst (set_locked clk g b)) \<and>
     (\<not> b \<longrightarrow> og_reads g < og_reads (fst (set_locked clk g b)) \<and> og_last (fst (set_locked clk g b)) \<in> {None, Some (clk (og_reads g))})"
proof -
  assume e: "og_enabled g"
  define h where "h = (if b then g \<lparr> og_locked := True, og_reason := ''UI_LOCK_REQUEST'', og_last := None \<rparr>
         else g \<lparr> og_locked := False, og_reason := [], og_last := Some (clk (og_reads g)), og_reads := og_reads g + 1 \<rparr>)"
  have h: "kept g h" "\<not> b \<longrightarrow> og_reads g < og_reads h \<and> og_last h = Some (clk (og_reads g))"
    by (auto simp: h_def kept_def lock_inv_def)
  have "set_locked clk g b = lock_reading clk h" using e by (simp add: set_locked_def h_def)
  then show ?thesis using lock_reading_aged [of clk h] h kept_trans [OF h(1) aged_kept [OF lock_reading_aged]]
    by (auto simp: aged_def)
qed

lemma heartbeat_guard:
  "aged clk g (fst (guard_heartbeat clk g)) \<or> kept g (fst (guard_heartbeat clk g)) \<and>
     (\<exists>j. og_reads g \<le> j \<and> j < og_reads (fst (guard_heartbeat clk g)) \<and> og_last (fst (guard_heartbeat clk g)) \<in> {None, Some (clk j)})"
proof -
  define f where "f = expire clk g"
  define h where "h = (if og_enabled f \<and> \<not> og_locked f
         then f \<lparr> og_last := Some (clk (og_reads f)), og_reads := og_reads f + 1 \<rparr> else f)"
  have s: "guard_heartbeat clk g = lock_reading clk h" by (simp add: guard_heartbeat_def h_def f_def Let_def)
  have f: "aged clk g f" by (simp add: f_def expire_aged)
  show ?thesis
  proof (cases "og_enabled f \<and> \<not> og_locked f")
    case False
    then have "h = f" by (auto simp: h_def)
    then show ?thesis using aged_trans [OF f lock_reading_aged [of clk f]] s by simp
  next
    case True
    then have h: "kept f h" "og_reads f < og_reads h" "og_last h = Some (clk (og_reads f))"
      by (auto simp: h_def kept_def lock_inv_def)
    have "kept g (fst (lock_reading clk h))" using kept_trans [OF kept_trans [OF aged_kept [OF f] h(1)] aged_kept [OF lock_reading_aged]] .
    then show ?thesis using h lock_reading_aged [of clk h] f s by (auto simp: aged_def intro!: exI [of _ "og_reads f"])
  qed
qed

lemma force_locked_kept: "og_enabled g \<Longrightarrow> kept g (fst (force_locked clk g why))"
proof -
  assume e: "og_enabled g"
  define h where "h = g \<lparr> og_locked := True, og_reason := why, og_last := None \<rparr>"
  have "kept g h" by (simp add: h_def kept_def lock_inv_def)
  from kept_trans [OF this aged_kept [OF lock_reading_aged]] show ?thesis using e by (simp add: force_locked_def h_def)
qed

definition step_kind :: "clock \<Rightarrow> lease \<Rightarrow> lease_event \<Rightarrow> lease \<Rightarrow> bool" where
  "step_kind clk l e m \<longleftrightarrow>
     unchanged clk l m \<and> (\<forall>c. ls_owner m = Some c \<longrightarrow> \<not> ends c e) \<or>
     kept (ls_guard l) (ls_guard m) \<and> ls_owner m = None \<or>
     (\<exists>c. grants c e \<and> granted clk c l m)"

lemma step_kind_unchanged: "unchanged clk l m \<Longrightarrow> (\<And>c. \<not> ends c e) \<Longrightarrow> step_kind clk l e m"
  by (simp add: step_kind_def)

lemma step_kind_granted: "grants c e \<Longrightarrow> granted clk c l m \<Longrightarrow> step_kind clk l e m"
  by (auto simp: step_kind_def)

lemma synced_enabled: "og_enabled (ls_guard l) \<Longrightarrow> og_enabled (ls_guard (sync_timeout clk l))"
  using sync_aged [of clk l] by (simp add: aged_def)

lemma sync_kept: "kept (ls_guard l) (ls_guard (sync_timeout clk l))"
  using sync_aged [of clk l] aged_kept by blast

lemma decide_kept: "kept (ls_guard l) (ls_guard (fst (decide clk l c a e)))"
  using decide_aged [of clk l c a e] aged_kept by blast

lemma kind_lock:
  assumes "og_enabled (ls_guard l)"
  shows "step_kind clk l (LockRequest c True) (fst (lease_set_locked clk l c True))"
proof -
  let ?m = "sync_timeout clk l"
  let ?n = "\<lparr> ls_guard = fst (set_locked clk (ls_guard ?m) True), ls_owner = None \<rparr>"
  have st: "lease_set_locked clk l c True = decide clk ?n c True None"
    using synced_enabled [OF assms] by (simp add: lease_set_locked_def Let_def)
  have "kept (ls_guard ?m) (ls_guard ?n)" using set_locked_guard [OF synced_enabled [OF assms]] by simp
  from kept_trans [OF kept_trans [OF sync_kept this] decide_kept]
  have "kept (ls_guard l) (ls_guard (fst (lease_set_locked clk l c True)))" unfolding st .
  moreover have "ls_owner (fst (lease_set_locked clk l c True)) = None" using decide_aged [of clk ?n c True None] st by simp
  ultimately show ?thesis by (simp add: step_kind_def)
qed

lemma kind_unlock:
  assumes "og_enabled (ls_guard l)"
  shows "step_kind clk l (LockRequest c False) (fst (lease_set_locked clk l c False))"
proof (cases "ls_owner (sync_timeout clk l) \<noteq> None \<and> ls_owner (sync_timeout clk l) \<noteq> Some c")
  case True
  then have "lease_set_locked clk l c False = decide clk (sync_timeout clk l) c False (Some ControlOwned)"
    using synced_enabled [OF assms] by (simp add: lease_set_locked_def Let_def)
  then show ?thesis by (simp add: step_kind_unchanged sync_decide)
next
  case False
  let ?m = "sync_timeout clk l"
  let ?n = "\<lparr> ls_guard = fst (set_locked clk (ls_guard ?m) False), ls_owner = Some c \<rparr>"
  have st: "lease_set_locked clk l c False = decide clk ?n c True None"
    using synced_enabled [OF assms] False unfolding lease_set_locked_def Let_def by (simp only: if_False if_True not_True_eq_False)
  have "granted clk c ?m ?n"
    using set_locked_guard [OF synced_enabled [OF assms], of clk clk False]
    by (auto simp: granted_def intro!: exI [of _ "og_reads (ls_guard ?m)"])
  from granted_later [OF sync_unchanged this decide_unchanged] show ?thesis unfolding st
    by (intro step_kind_granted [of c]) simp_all
qed

lemma kind_beat:
  assumes "og_enabled (ls_guard l)"
  shows "step_kind clk l (Beat c) (fst (lease_heartbeat clk l c))"
proof (cases "ls_owner (sync_timeout clk l) = Some c")
  case False
  then have "lease_heartbeat clk l c = decide clk (sync_timeout clk l) c False (Some (not_owner (sync_timeout clk l)))"
    using synced_enabled [OF assms] by (simp add: lease_heartbeat_def Let_def)
  then show ?thesis by (simp add: step_kind_unchanged sync_decide)
next
  case True
  let ?m = "sync_timeout clk l"
  let ?n = "?m \<lparr> ls_guard := fst (guard_heartbeat clk (ls_guard ?m)) \<rparr>"
  have st: "lease_heartbeat clk l c = decide clk (sync_timeout clk ?n) c True None"
    using synced_enabled [OF assms] True by (simp add: lease_heartbeat_def Let_def)
  consider "unchanged clk ?m ?n" | "granted clk c ?m ?n"
    using heartbeat_guard [of clk "ls_guard ?m"] True by (auto simp: unchanged_def granted_def)
  then show ?thesis
  proof cases
    case 1
    from unchanged_trans [OF unchanged_trans [OF sync_unchanged 1] sync_decide] show ?thesis
      unfolding st by (intro step_kind_unchanged) simp_all
  next
    case 2
    from granted_later [OF sync_unchanged 2 sync_decide] show ?thesis
      unfolding st by (intro step_kind_granted [of c]) simp_all
  qed
qed

lemma kind_authorize: "step_kind clk l (Authorize c r) (fst (lease_authorize clk l c r))"
proof -
  let ?m = "sync_timeout clk l"
  let ?n = "?m \<lparr> ls_guard := fst (guard_authorize clk (ls_guard ?m) r) \<rparr>"
  have n: "unchanged clk ?m ?n" using guard_authorize_aged [of clk "ls_guard ?m" r] by (simp add: unchanged_def)
  have "\<exists>a er. fst (lease_authorize clk l c r) = fst (decide clk ?m c a er) \<or>
      fst (lease_authorize clk l c r) = fst (decide clk ?n c a er)"
    unfolding lease_authorize_def Let_def case_prod_unfold by (simp split: if_split) blast
  then have "unchanged clk l (fst (lease_authorize clk l c r))"
    using sync_decide unchanged_trans [OF unchanged_trans [OF sync_unchanged n] decide_unchanged] by metis
  then show ?thesis by (intro step_kind_unchanged) simp_all
qed

lemma kind_disconnect:
  assumes "og_enabled (ls_guard l)"
  shows "step_kind clk l (Disconnect c) (fst (lease_disconnect clk l c))"
proof (cases "ls_owner (sync_timeout clk l) = Some c")
  case True
  then show ?thesis using kept_trans [OF sync_kept force_locked_kept [OF synced_enabled [OF assms]]]
    by (simp add: lease_disconnect_def step_kind_def Let_def)
next
  case False
  then have "fst (lease_disconnect clk l c) = sync_timeout clk l" by (simp add: lease_disconnect_def Let_def)
  then show ?thesis using False sync_unchanged by (auto simp: step_kind_def)
qed

lemma lease_step_kind:
  assumes "og_enabled (ls_guard l)"
  shows "step_kind clk l e (lease_step clk l e)"
proof (cases e)
  case (LockRequest c b)
  then show ?thesis using kind_lock [OF assms] kind_unlock [OF assms] by (cases b) simp_all
next
  case (Query c)
  then show ?thesis using state_for_aged [of clk l c] by (simp add: step_kind_unchanged unchanged_def)
qed (use kind_beat [OF assms] kind_authorize kind_disconnect [OF assms] in simp_all)

text \<open>The trace invariant: who holds the lease, and since which reading of the clock.\<close>

definition held :: "clock \<Rightarrow> lease \<Rightarrow> client \<Rightarrow> pyfloat \<Rightarrow> lease_event list \<Rightarrow> bool" where
  "held clk l0 c t es \<longleftrightarrow> (\<exists>pre e post j. es = pre @ e # post \<and> grants c e \<and> (\<forall>x\<in>set post. \<not> ends c x) \<and>
     og_reads (ls_guard (foldl (lease_step clk) l0 pre)) \<le> j \<and>
     j < og_reads (ls_guard (foldl (lease_step clk) l0 (pre @ [e]))) \<and> t = clk j)"

lemma held_snoc: "held clk l0 c t es \<Longrightarrow> \<not> ends c e \<Longrightarrow> held clk l0 c t (es @ [e])"
proof -
  assume h: "held clk l0 c t es" and e: "\<not> ends c e"
  obtain pre g post j where p: "es = pre @ g # post" "grants c g" "\<forall>x\<in>set post. \<not> ends c x"
      "og_reads (ls_guard (foldl (lease_step clk) l0 pre)) \<le> j"
      "j < og_reads (ls_guard (foldl (lease_step clk) l0 (pre @ [g])))" "t = clk j"
    using h unfolding held_def by blast
  then have "es @ [e] = pre @ g # (post @ [e])" "\<forall>x\<in>set (post @ [e]). \<not> ends c x" using e by simp_all
  then show ?thesis unfolding held_def using p(2,4,5,6) by blast
qed

definition trace_inv :: "clock \<Rightarrow> lease \<Rightarrow> lease_event list \<Rightarrow> bool" where
  "trace_inv clk l0 es \<longleftrightarrow>
     (let l = foldl (lease_step clk) l0 es in
      og_enabled (ls_guard l) \<and> og_timeout (ls_guard l) = og_timeout (ls_guard l0) \<and> lock_inv (ls_guard l) \<and>
      (\<forall>c t. ls_owner l = Some c \<longrightarrow> og_last (ls_guard l) = Some t \<longrightarrow> held clk l0 c t es))"

lemma granted_owner: "granted clk c l m \<Longrightarrow> ls_owner m = Some d \<Longrightarrow> c = d"
  by (auto simp: granted_def)

lemma trace_inv_snoc:
  assumes "trace_inv clk l0 es"
  shows "trace_inv clk l0 (es @ [e])"
proof -
  define l m where "l = foldl (lease_step clk) l0 es" "m = lease_step clk l e"
  have f: "foldl (lease_step clk) l0 (es @ [e]) = m" by (simp add: l_m_def)
  have inv: "og_enabled (ls_guard l)" "og_timeout (ls_guard l) = og_timeout (ls_guard l0)" "lock_inv (ls_guard l)"
    and h: "\<And>c t. ls_owner l = Some c \<Longrightarrow> og_last (ls_guard l) = Some t \<Longrightarrow> held clk l0 c t es"
    using assms by (auto simp: trace_inv_def Let_def l_m_def)
  have k: "step_kind clk l e m" using lease_step_kind [OF inv(1)] by (simp add: l_m_def)
  then have kept: "kept (ls_guard l) (ls_guard m)"
    by (auto simp: step_kind_def unchanged_def granted_def dest: aged_kept)
  have "held clk l0 c t (es @ [e])" if o: "ls_owner m = Some c" and t: "og_last (ls_guard m) = Some t" for c t
  proof -
    consider "unchanged clk l m" "\<not> ends c e" | "grants c e" "granted clk c l m"
      using k o granted_owner [of clk _ l m] unfolding step_kind_def by fastforce
    then show ?thesis
    proof cases
      case 1
      then show ?thesis using h o t held_snoc by (auto simp: unchanged_def aged_def)
    next
      case 2
      then obtain j where "og_reads (ls_guard l) \<le> j" "j < og_reads (ls_guard m)" "t = clk j"
        using t by (auto simp: granted_def)
      then show ?thesis unfolding held_def using 2(1)
        by (intro exI [of _ es] exI [of _ e] exI [of _ "[]"] exI [of _ j]) (simp add: l_m_def)
    qed
  qed
  then show ?thesis unfolding trace_inv_def Let_def f using kept inv by (simp add: kept_def)
qed

lemma trace_inv_all:
  "og_enabled (ls_guard l0) \<Longrightarrow> lock_inv (ls_guard l0) \<Longrightarrow> ls_owner l0 = None \<Longrightarrow> trace_inv clk l0 es"
  by (induction es rule: rev_induct) (simp_all add: trace_inv_def [of _ _ "[]"] trace_inv_snoc)

subsection \<open>Authorisation\<close>

lemma unlocked_fresh:
  assumes "lock_inv g" "og_enabled g" "\<not> lk_locked (snd (lock_reading clk g))"
  shows "\<exists>t. og_last g = Some t \<and> \<not> flt (og_timeout g) (fsub (clk (og_reads g)) t)"
  using assms by (auto simp: lock_reading_def expire_def lock_inv_def Let_def split: option.splits if_splits)

lemma fresh_unlocked:
  assumes "og_last g = Some t" "og_enabled g" "lock_inv g" "\<forall>n\<ge>og_reads g. \<not> flt (og_timeout g) (fsub (clk n) t)"
  shows "\<not> lk_locked (snd (lock_reading clk g)) \<and> og_last (fst (lock_reading clk g)) = Some t"
  using assms by (auto simp: lock_reading_def expire_def lock_inv_def Let_def)

lemma fresh_sync:
  assumes "og_last (ls_guard l) = Some t" "og_enabled (ls_guard l)" "lock_inv (ls_guard l)"
    "\<forall>n\<ge>og_reads (ls_guard l). \<not> flt (og_timeout (ls_guard l)) (fsub (clk n) t)"
  shows "ls_owner (sync_timeout clk l) = ls_owner l \<and> og_last (ls_guard (sync_timeout clk l)) = Some t"
  using fresh_unlocked [OF assms] by (auto simp: sync_timeout_def Let_def case_prod_unfold)

definition fresh :: "clock \<Rightarrow> lease \<Rightarrow> client \<Rightarrow> pyfloat \<Rightarrow> bool" where
  "fresh clk l c t \<longleftrightarrow> ls_owner l = Some c \<and> og_last (ls_guard l) = Some t \<and> og_enabled (ls_guard l) \<and>
     lock_inv (ls_guard l) \<and> (\<forall>n\<ge>og_reads (ls_guard l). \<not> flt (og_timeout (ls_guard l)) (fsub (clk n) t))"

lemma fresh_aged:
  "fresh clk l c t \<Longrightarrow> aged clk (ls_guard l) (ls_guard m) \<Longrightarrow> ls_owner m = ls_owner l \<Longrightarrow> og_last (ls_guard m) = Some t \<Longrightarrow>
     fresh clk m c t"
  by (simp add: fresh_def aged_def)

lemma fresh_synced: "fresh clk l c t \<Longrightarrow> fresh clk (sync_timeout clk l) c t"
  using fresh_aged [of clk l c t "sync_timeout clk l"] fresh_sync [of l t clk] sync_aged [of clk l] by (simp add: fresh_def)

lemma fresh_lock_reading:
  "fresh clk l c t \<Longrightarrow> fresh clk (l \<lparr> ls_guard := fst (lock_reading clk (ls_guard l)) \<rparr>) c t \<and>
     \<not> lk_locked (snd (lock_reading clk (ls_guard l)))"
  using fresh_aged [of clk l c t "l \<lparr> ls_guard := fst (lock_reading clk (ls_guard l)) \<rparr>"]
    fresh_unlocked [of "ls_guard l" t clk] lock_reading_aged [of clk "ls_guard l"] by (simp add: fresh_def)

lemma fresh_decide: "fresh clk l c t \<Longrightarrow> fresh clk (fst (decide clk l d a e)) c t"
  using fresh_lock_reading [OF fresh_synced] by (simp add: decide_def state_for_def Let_def case_prod_unfold)

lemma fresh_authorize:
  assumes "fresh clk l c t"
  shows "fresh clk (fst (lease_authorize clk l c r)) c t \<and> ld_allowed (snd (lease_authorize clk l c r))"
proof -
  have m: "fresh clk (sync_timeout clk l) c t" by (rule fresh_synced [OF assms])
  note g = fresh_lock_reading [OF m]
  show ?thesis
  proof (cases "is_controlled r")
    case True
    have "lease_authorize clk l c r = decide clk (sync_timeout clk l \<lparr> ls_guard := fst (lock_reading clk (ls_guard (sync_timeout clk l))) \<rparr>) c True None"
      using m g True by (simp add: lease_authorize_def guard_authorize_def Let_def case_prod_unfold fresh_def)
    then show ?thesis using fresh_decide [OF g [THEN conjunct1]] by (simp add: decide_def case_prod_unfold Let_def)
  next
    case False
    then have "lease_authorize clk l c r = decide clk (sync_timeout clk l) c True None"
      by (simp add: lease_authorize_def Let_def)
    then show ?thesis using fresh_decide [OF m] by (simp add: decide_def case_prod_unfold Let_def)
  qed
qed

lemma decide_allowed [simp]: "ld_allowed (snd (decide clk l c a e)) = a"
  by (simp add: decide_def case_prod_unfold Let_def)

lemma authorize_allowed:
  assumes "og_enabled (ls_guard l)" "is_controlled r" "ld_allowed (snd (lease_authorize clk l c r))"
  shows "ls_owner (sync_timeout clk l) = Some c \<and> \<not> lk_locked (snd (lock_reading clk (ls_guard (sync_timeout clk l))))"
  using assms synced_enabled [OF assms(1), of clk]
  by (auto simp: lease_authorize_def guard_authorize_def Let_def case_prod_unfold split: if_splits)

lemma dispatch_authorized:
  assumes "server_step clk l ev = (m, out)" "Dispatch c r \<in> set out"
  shows "ld_allowed (snd (lease_authorize clk l c r))"
  using assms by (cases ev)
    (auto simp: handle_request_def Let_def case_prod_unfold split: sum.splits web_error.splits if_splits)

lemma new_lock_inv:
  "new_guard clk True timeout locked = Some g \<Longrightarrow> lock_inv g \<and> og_enabled g \<and> og_timeout g = timeout"
  by (auto simp: new_guard_def lock_inv_def Let_def split: if_splits)

subsection \<open>Properties\<close>

text \<open>
  C34. The operator lock: a request that needs control reaches the gateway only for the client that holds
  the lease. Before it there is an unlock request or a heartbeat of that same client such that, since
  then, nobody asked for the lock and the client did not disconnect, and the time from that event, read
  while it was handled, to a reading made while the request was handled, does not exceed the timeout.
\<close>

theorem controlled_dispatch_needs_lease:
  assumes "new_guard clk True timeout locked = Some g" "run (server_step clk) \<lparr> ls_guard = g, ls_owner = None \<rparr> before = (l, rs)"
    "server_step clk l event = (m, out)" "Dispatch c r \<in> set out" "is_controlled r"
  shows "\<exists>t k. held clk \<lparr> ls_guard = g, ls_owner = None \<rparr> c t (concat (map lease_view before)) \<and>
    og_reads (ls_guard l) \<le> k \<and> \<not> flt timeout (fsub (clk k) t)"
proof -
  let ?l0 = "\<lparr> ls_guard = g, ls_owner = None \<rparr> :: lease" and ?m = "sync_timeout clk l"
  have l: "l = foldl (lease_step clk) ?l0 (concat (map lease_view before))"
    using server_run_lease [of clk ?l0 before] assms(2) by simp
  note g = new_lock_inv [OF assms(1)]
  have inv: "trace_inv clk ?l0 (concat (map lease_view before))" using trace_inv_all g by simp
  then have en: "og_enabled (ls_guard l)" "lock_inv (ls_guard l)" "og_timeout (ls_guard l) = timeout"
    using g by (simp_all add: trace_inv_def Let_def flip: l)
  note a = authorize_allowed [OF en(1) assms(5) dispatch_authorized [OF assms(3,4)]]
  have s: "aged clk (ls_guard l) (ls_guard ?m)" "ls_owner l = Some c" using sync_aged [of clk l] a by auto
  obtain t where t: "og_last (ls_guard ?m) = Some t" "\<not> flt timeout (fsub (clk (og_reads (ls_guard ?m))) t)"
    using unlocked_fresh [of "ls_guard ?m" clk] a s(1) en by (auto simp: aged_def)
  have "og_last (ls_guard l) = Some t" using s(1) t(1) by (simp add: aged_def)
  then have "held clk ?l0 c t (concat (map lease_view before))" using inv s(2) by (simp add: trace_inv_def Let_def flip: l)
  then show ?thesis using t(2) s(1) by (auto simp: aged_def)
qed

text \<open>
  The owner keeps control: while every reading of the clock is within the timeout of the last
  heartbeat, a valid request of the owner's connection is dispatched, and the connection stays the owner.
\<close>

lemma owner_request_dispatched:
  assumes "og_enabled (ls_guard l)" "lock_inv (ls_guard l)" "ls_owner l = Some c" "og_last (ls_guard l) = Some t"
    "\<forall>n\<ge>og_reads (ls_guard l). \<not> flt (og_timeout (ls_guard l)) (fsub (clk n) t)"
    "accept_request raw = Inr r" "rq_op r \<notin> {''set_control_lock'', ''control_heartbeat''}"
  shows "snd (server_step clk l (Message c False raw)) = [Dispatch c r] \<and>
    ls_owner (fst (server_step clk l (Message c False raw))) = Some c"
proof -
  have "fresh clk l c t" using assms by (simp add: fresh_def)
  then have "fresh clk (fst (lease_authorize clk l c r)) c t" "ld_allowed (snd (lease_authorize clk l c r))"
    using fresh_authorize by blast+
  then show ?thesis using assms(6,7) by (simp add: handle_request_def Let_def case_prod_unfold fresh_def)
qed

subsection \<open>Witnesses\<close>

definition sample_guard :: guard where
  "sample_guard = \<lparr> og_enabled = True, og_timeout = Fin 1, og_locked = True, og_reason = ''STARTUP_LOCKED'', og_last = None, og_reads = 0 \<rparr>"

definition sample_lease :: lease where
  "sample_lease = \<lparr> ls_guard = sample_guard, ls_owner = None \<rparr>"

definition unlock_request :: jval where
  "unlock_request = JObj [(''op'', JStr ''set_control_lock''), (''locked'', JBool False)]"

definition zoom_request :: jval where
  "zoom_request = JObj [(''op'', JStr ''camera_zoom_toggle'')]"

definition zoom :: request where
  "zoom = \<lparr> rq_op = ''camera_zoom_toggle'', rq_id = None, rq_fields = Map.empty \<rparr>"

lemma sample_requests:
  "\<exists>r. accept_request unlock_request = Inr r \<and> rq_op r = ''set_control_lock'' \<and> \<not> lock_field r"
  "accept_request zoom_request = Inr zoom" "is_controlled zoom"
proof -
  have "py_strip ''set_control_lock'' = ''set_control_lock''" "py_strip ''camera_zoom_toggle'' = ''camera_zoom_toggle''"
    by code_simp+
  note s = this accept_request_def parse_request_def request_id_def supplied_ids_def id_aliases_def List.map_filter_def
    validate_request_def known_operations_def datum_mutations_def restrict_map_def map_add_def Let_def require_bool_def
  show "\<exists>r. accept_request unlock_request = Inr r \<and> rq_op r = ''set_control_lock'' \<and> \<not> lock_field r"
    by (simp add: s unlock_request_def lock_field_def)
  show "accept_request zoom_request = Inr zoom" by (simp add: s zoom_request_def zoom_def fun_eq_iff)
  show "is_controlled zoom" by (simp add: is_controlled_def zoom_def controlled_operations_def)
qed

definition sample_held :: lease where
  "sample_held = \<lparr> ls_guard = sample_guard \<lparr> og_locked := False, og_reason := [], og_last := Some fzero, og_reads := 7 \<rparr>,
     ls_owner = Some ''a'' \<rparr>"

lemmas lease_defs = handle_request_def lease_set_locked_def lease_authorize_def guard_authorize_def decide_def state_for_def
  sync_timeout_def set_locked_def lock_reading_def expire_def Let_def fsub_def

lemma sample_unlocked:
  "fst (run (server_step (\<lambda>n. fzero)) sample_lease [Message ''a'' False unlock_request]) = sample_held"
proof -
  obtain r where "accept_request unlock_request = Inr r" "rq_op r = ''set_control_lock''" "\<not> lock_field r"
    using sample_requests(1) by blast
  then show ?thesis by (simp add: sample_lease_def sample_held_def sample_guard_def lease_defs)
qed

lemma sample_zoom_dispatch:
  "snd (server_step (\<lambda>n. fzero) sample_held (Message ''a'' False zoom_request)) = [Dispatch ''a'' zoom]"
  by (simp add: sample_requests(2)) (simp add: sample_held_def sample_guard_def zoom_def lease_defs)

lemma sample_new_guard: "new_guard (\<lambda>n. fzero) True (Fin 1) True = Some sample_guard"
  by (simp add: new_guard_def sample_guard_def)

lemma controlled_dispatch_needs_lease_witness:
  "\<exists>t k. held (\<lambda>n. fzero) sample_lease ''a'' t (concat (map lease_view [Message ''a'' False unlock_request])) \<and> (7::nat) \<le> k \<and>
     \<not> flt (Fin 1) (fsub fzero t)"
proof -
  obtain rs where r: "run (server_step (\<lambda>n. fzero)) sample_lease [Message ''a'' False unlock_request] = (sample_held, rs)"
    using sample_unlocked by (metis prod.collapse)
  obtain m where m: "server_step (\<lambda>n. fzero) sample_held (Message ''a'' False zoom_request) = (m, [Dispatch ''a'' zoom])"
    using sample_zoom_dispatch by (metis prod.collapse)
  from controlled_dispatch_needs_lease [OF sample_new_guard r [unfolded sample_lease_def] m list.set_intros(1) sample_requests(3)]
  show ?thesis by (simp add: sample_lease_def sample_held_def)
qed

lemma owner_request_dispatched_witness:
  "snd (server_step (\<lambda>n. fzero) sample_held (Message ''a'' False zoom_request)) = [Dispatch ''a'' zoom] \<and>
     ls_owner (fst (server_step (\<lambda>n. fzero) sample_held (Message ''a'' False zoom_request))) = Some ''a''"
  by (rule owner_request_dispatched [of _ _ fzero, OF _ _ _ _ _ sample_requests(2)])
    (simp_all add: sample_held_def sample_guard_def lock_inv_def fsub_def zoom_def)

end
