(* ===== verification/Web_Server.thy ===== *)
theory Web_Server
  imports Operator_Lease "HOL-Library.AList" "HOL-Library.Sublist"
begin

section \<open>The WebSocket server of the Cockpit\<close>

text \<open>
  \<open>salus_web/websocket_server.py\<close> around the handler of \<open>Operator_Lease\<close>: the bounded queue of a connection, the payloads with
  the lease in them, broadcasts, answers of the gateway, the watchdog and the end of a connection. Each callback up to its
  next wait for the gateway is one step (a queue is never waited for: its lock is not held over a suspension), so the steps
  of several connections interleave freely. Closing the socket of a slow client suspends the sender as well; here it is an output, and
  the callback goes on in the same step. The gateway and the socket are outside: their answers are events, what is sent
  to them is an output.
\<close>

subsection \<open>Payloads\<close>

record payload =
  pl_op :: string
  pl_fields :: jobject

definition replaceable_ops :: "string list" where
  "replaceable_ops = [''state'', ''nav_telemetry'', ''robot_pose'', ''gps_status'', ''drive_telemetry'', ''sensor_info'', ''scan_preview'']"

definition replaceable :: "payload \<Rightarrow> bool" where
  "replaceable p \<longleftrightarrow> pl_op p \<in> set replaceable_ops"

definition opt_string :: "string option \<Rightarrow> jval" where
  "opt_string x = (case x of None \<Rightarrow> JNull | Some s \<Rightarrow> JStr s)"

definition with_optional :: "string \<Rightarrow> string option \<Rightarrow> jobject \<Rightarrow> jobject" where
  "with_optional key x o' = (case x of None \<Rightarrow> o' | Some s \<Rightarrow> o'(key \<mapsto> JStr s))"

text \<open>\<open>ack\<close>: the request and its identifier, the outcome, an error, a code and more fields.\<close>

definition ack :: "string \<times> string option \<Rightarrow> bool \<Rightarrow> string option \<Rightarrow> string option \<Rightarrow> jobject \<Rightarrow> payload" where
  "ack q ok error code extra =
     \<lparr> pl_op = ''ack'',
       pl_fields = with_optional ''error_code'' code (with_optional ''client_req_id'' (snd q)
         [''request'' \<mapsto> JStr (fst q), ''ok'' \<mapsto> JBool ok, ''error'' \<mapsto> opt_string error]) ++ extra \<rparr>"

text \<open>Numbers that are not finite leave the server as null.\<close>

fun json_safe :: "jval \<Rightarrow> jval" where
  "json_safe (JFloat x) = (if isfinite x then JFloat x else JNull)"
| "json_safe (JObj kvs) = JObj (map (\<lambda>(k, v). (k, json_safe v)) kvs)"
| "json_safe (JList vs) = JList (map json_safe vs)"
| "json_safe v = v"

definition safe_payload :: "payload \<Rightarrow> payload" where
  "safe_payload p = p \<lparr> pl_fields := map_option json_safe \<circ> pl_fields p \<rparr>"

subsection \<open>The queue of a connection\<close>

record outbox =
  ob_capacity :: nat
  ob_items :: "payload list"

definition new_outbox :: "nat \<Rightarrow> outbox option" where
  "new_outbox capacity = (if capacity < 2 then None else Some \<lparr> ob_capacity = capacity, ob_items = [] \<rparr>)"

text \<open>The first entry that satisfies the test is replaced, or removed.\<close>

fun replace_first :: "('a \<Rightarrow> bool) \<Rightarrow> 'a \<Rightarrow> 'a list \<Rightarrow> 'a list option" where
  "replace_first P y [] = None"
| "replace_first P y (x # xs) = (if P x then Some (y # xs) else map_option ((#) x) (replace_first P y xs))"

fun remove_first :: "('a \<Rightarrow> bool) \<Rightarrow> 'a list \<Rightarrow> 'a list option" where
  "remove_first P [] = None"
| "remove_first P (x # xs) = (if P x then Some xs else map_option ((#) x) (remove_first P xs))"

text \<open>\<open>None\<close>: the \<open>SlowClientError\<close> of a queue that cannot take an answer.\<close>

definition outbox_append :: "outbox \<Rightarrow> payload \<Rightarrow> outbox option" where
  "outbox_append b p =
     (if ob_capacity b \<le> length (ob_items b)
      then (if \<not> replaceable p then None
            else case remove_first replaceable (ob_items b) of None \<Rightarrow> Some b | Some xs \<Rightarrow> Some (b \<lparr> ob_items := xs @ [p] \<rparr>))
      else Some (b \<lparr> ob_items := ob_items b @ [p] \<rparr>))"

definition outbox_put :: "outbox \<Rightarrow> payload \<Rightarrow> outbox option" where
  "outbox_put b p =
     (case (if replaceable p then replace_first (\<lambda>x. replaceable x \<and> pl_op x = pl_op p) p (ob_items b) else None) of
        Some xs \<Rightarrow> Some (b \<lparr> ob_items := xs \<rparr>)
      | None \<Rightarrow> outbox_append b p)"

definition outbox_get :: "outbox \<Rightarrow> (outbox \<times> payload) option" where
  "outbox_get b = (case ob_items b of [] \<Rightarrow> None | p # ps \<Rightarrow> Some (b \<lparr> ob_items := ps \<rparr>, p))"

subsection \<open>The server\<close>

record web_client =
  wc_outbox :: outbox
  wc_live :: bool

type_synonym lock_signature = "bool \<times> string \<times> bool"

record web_server =
  ws_lease :: lease
  ws_clients :: "(client \<times> web_client) list"
  ws_signature :: lock_signature

datatype web_output = Delivered client payload | CloseSlow client | NeedState | ToGateway client request

type_synonym web_action = "web_server \<Rightarrow> web_server \<times> web_output list"

definition next_action :: "web_action \<Rightarrow> web_action \<Rightarrow> web_action" where
  "next_action f g s = (let (s1, os) = f s; (s2, ps) = g s1 in (s2, os @ ps))"

fun do_all :: "web_action list \<Rightarrow> web_action" where
  "do_all [] s = (s, [])"
| "do_all (f # fs) s = next_action f (do_all fs) s"

definition set_outbox :: "client \<Rightarrow> outbox \<Rightarrow> web_server \<Rightarrow> web_server" where
  "set_outbox c b s =
     (case map_of (ws_clients s) c of None \<Rightarrow> s
      | Some w \<Rightarrow> s \<lparr> ws_clients := AList.update c (w \<lparr> wc_outbox := b \<rparr>) (ws_clients s) \<rparr>)"

definition lease_fields :: "lease_state \<Rightarrow> jobject" where
  "lease_fields st = [''control_locked'' \<mapsto> JBool (lk_locked (lt_lock st)), ''control_lock_reason'' \<mapsto> JStr (lk_reason (lt_lock st)),
     ''control_owner_present'' \<mapsto> JBool (lt_owner_present st), ''control_owner'' \<mapsto> JBool (lt_is_owner st)]"

definition decorate :: "clock \<Rightarrow> lease \<Rightarrow> client \<Rightarrow> payload \<Rightarrow> lease \<times> payload" where
  "decorate clk l c p =
     (if pl_op p \<notin> {''state'', ''nav_telemetry''} then (l, p)
      else (let (l1, st) = state_for clk l c
        in (l1, p \<lparr> pl_fields := (pl_fields p ++ lease_fields st)
             (''locked'' \<mapsto> JBool (lk_locked (lt_lock st)), ''lock_reason'' \<mapsto> JStr (lk_reason (lt_lock st))) \<rparr>)))"

text \<open>\<open>post\<close> puts a payload into the queue of a connection; \<open>on_slow\<close> is what follows a \<open>SlowClientError\<close>. \<open>post_closing\<close> closes
the socket, as the callers of \<open>put\<close> do.\<close>

definition post :: "client \<Rightarrow> payload \<Rightarrow> web_action \<Rightarrow> web_action" where
  "post c p on_slow s =
     (case map_of (ws_clients s) c of
        None \<Rightarrow> (s, [])
      | Some w \<Rightarrow> (case outbox_put (wc_outbox w) p of None \<Rightarrow> on_slow s | Some b \<Rightarrow> (set_outbox c b s, [])))"

definition close_slow :: "client \<Rightarrow> web_action" where
  "close_slow c s = (s, [CloseSlow c])"

definition post_closing :: "client \<Rightarrow> payload \<Rightarrow> web_action" where
  "post_closing c p = post c p (close_slow c)"

definition post_decorated :: "clock \<Rightarrow> client \<Rightarrow> payload \<Rightarrow> web_action \<Rightarrow> web_action" where
  "post_decorated clk c p on_slow s = (let (l, q) = decorate clk (ws_lease s) c p in post c q on_slow (s \<lparr> ws_lease := l \<rparr>))"

definition broadcast :: "clock \<Rightarrow> payload \<Rightarrow> web_action" where
  "broadcast clk p s =
     do_all (map (\<lambda>(c, w). if wc_live w then (\<lambda>t. (t, [])) else post_decorated clk c p (close_slow c)) (ws_clients s)) s"

subsection \<open>Messages\<close>

definition named :: "request \<Rightarrow> string \<times> string option" where
  "named r = (rq_op r, rq_id r)"

definition lease_code :: "lease_error \<Rightarrow> string" where
  "lease_code e = (case e of ControlLocked \<Rightarrow> ''CONTROL_LOCKED'' | ControlOwned \<Rightarrow> ''CONTROL_OWNED'')"

definition lease_ack :: "request \<Rightarrow> lease_decision \<Rightarrow> payload" where
  "lease_ack r d =
     (let code = map_option lease_code (ld_error d)
      in ack (named r) (ld_allowed d) (if ld_allowed d then None else code) code (lease_fields (ld_state d)))"

definition read_only_ack :: "request \<Rightarrow> lease_state \<Rightarrow> payload" where
  "read_only_ack r st = ack (named r) False (Some ''NAV_LIVE_READ_ONLY'') (Some ''NAV_LIVE_READ_ONLY'') (lease_fields st)"

definition handle_message :: "clock \<Rightarrow> client \<Rightarrow> jval \<Rightarrow> web_action" where
  "handle_message clk c raw s =
     (case (accept_request raw, map_of (ws_clients s) c) of
        (_, None) \<Rightarrow> (s, [])
      | (Inl (Refused e), Some w) \<Rightarrow> post_closing c (ack (pe_request e, pe_id e) False (Some (pe_message e)) (Some (pe_code e)) Map.empty) s
      | (Inl (Raised e), Some w) \<Rightarrow> (s, [])
      | (Inr r, Some w) \<Rightarrow>
          if wc_live w \<and> rq_op r \<noteq> ''get_nav_snapshot'' then
            (let (l, st) = state_for clk (ws_lease s) c in post_closing c (read_only_ack r st) (s \<lparr> ws_lease := l \<rparr>))
          else if rq_op r = ''set_control_lock'' then
            (let (l, d) = lease_set_locked clk (ws_lease s) c (lock_field r); s1 = s \<lparr> ws_lease := l \<rparr>
             in next_action (post_closing c (lease_ack r d)) (\<lambda>t. (t, if ld_allowed d then [NeedState] else [])) s1)
          else if rq_op r = ''control_heartbeat'' then
            (let (l, d) = lease_heartbeat clk (ws_lease s) c in post_closing c (lease_ack r d) (s \<lparr> ws_lease := l \<rparr>))
          else
            (let (l, d) = lease_authorize clk (ws_lease s) c r; s1 = s \<lparr> ws_lease := l \<rparr>
             in if ld_allowed d then (s1, [ToGateway c r]) else post_closing c (lease_ack r d) s1))"

text \<open>
  The gateway has answered a request: with an exception, or with payloads that are put one after the other. A payload that
  does not fit ends this with a failure acknowledgement, as an exception does.
\<close>

definition failure_ack :: "request \<Rightarrow> string \<Rightarrow> payload" where
  "failure_ack r text = ack (named r) False (Some text) (Some ''GATEWAY_FAILURE'') Map.empty"

definition routes_changed :: payload where
  "routes_changed = \<lparr> pl_op = ''routes_changed'', pl_fields = Map.empty \<rparr>"

definition slow_text :: string where
  "slow_text = ''non-replaceable WebSocket queue overflow''"

fun put_responses :: "clock \<Rightarrow> client \<Rightarrow> request \<Rightarrow> payload list \<Rightarrow> web_action" where
  "put_responses clk c r [] s = (s, [])"
| "put_responses clk c r (p # ps) s =
     (let (l, q) = decorate clk (ws_lease s) c p; s1 = s \<lparr> ws_lease := l \<rparr> in
      case map_of (ws_clients s) c of
        None \<Rightarrow> (s1, [])
      | Some w \<Rightarrow>
          (case outbox_put (wc_outbox w) q of
             None \<Rightarrow> post_closing c (failure_ack r slow_text) s1
           | Some b \<Rightarrow>
               next_action (if rq_op r \<in> {''save_route'', ''delete_route''} \<and> pl_fields p ''ok'' = Some (JBool True)
                        then broadcast clk routes_changed else (\<lambda>t. (t, [])))
                 (put_responses clk c r ps) (set_outbox c b s1)))"

definition gateway_answered :: "clock \<Rightarrow> client \<Rightarrow> request \<Rightarrow> string + payload list \<Rightarrow> web_action" where
  "gateway_answered clk c r answer =
     (case answer of Inl text \<Rightarrow> post_closing c (failure_ack r text) | Inr ps \<Rightarrow> put_responses clk c r ps)"

subsection \<open>The other callbacks\<close>

text \<open>A state of the gateway that was asked for after a change of the lock goes out twice.\<close>

definition operator_transition :: "clock \<Rightarrow> payload \<Rightarrow> web_action" where
  "operator_transition clk st = next_action (broadcast clk st) (broadcast clk (st \<lparr> pl_op := ''nav_telemetry'' \<rparr>))"

definition lock_signature_of :: "lease_state \<Rightarrow> lock_signature" where
  "lock_signature_of st = (lk_locked (lt_lock st), lk_reason (lt_lock st), lt_owner_present st)"

definition heartbeat_watchdog :: "clock \<Rightarrow> web_action" where
  "heartbeat_watchdog clk s =
     (let (l, st) = state_for clk (ws_lease s) ''__watchdog__''; current = lock_signature_of st
      in (s \<lparr> ws_lease := l, ws_signature := current \<rparr>,
          if current \<noteq> ws_signature s \<and> fst current \<and> fst (snd current) = ''UI_HEARTBEAT_TIMEOUT'' then [NeedState] else []))"

text \<open>A connection: it is registered with an empty queue, and the state of the gateway is its first payload.\<close>

definition connect :: "nat \<Rightarrow> client \<Rightarrow> bool \<Rightarrow> web_action" where
  "connect capacity c live s =
     (case new_outbox capacity of
        None \<Rightarrow> (s, [])
      | Some b \<Rightarrow> (s \<lparr> ws_clients := AList.update c \<lparr> wc_outbox = b, wc_live = live \<rparr> (ws_clients s) \<rparr>, []))"

definition disconnect :: "clock \<Rightarrow> client \<Rightarrow> web_action" where
  "disconnect clk c s =
     (let (l, changed) = lease_disconnect clk (ws_lease s) c
      in (s \<lparr> ws_lease := l, ws_clients := AList.delete c (ws_clients s) \<rparr>, if changed then [NeedState] else []))"

definition send_next :: "client \<Rightarrow> web_action" where
  "send_next c s =
     (case map_of (ws_clients s) c of
        None \<Rightarrow> (s, [])
      | Some w \<Rightarrow> (case outbox_get (wc_outbox w) of None \<Rightarrow> (s, []) | Some (b, p) \<Rightarrow> (set_outbox c b s, [Delivered c (safe_payload p)])))"

datatype web_event =
    Connected client bool
  | FirstState client payload
  | Incoming client jval
  | Answered client request "string + payload list"
  | StateRead payload
  | GatewayBroadcast payload
  | WatchdogTick
  | WriterTurn client
  | ConnectionLost client

fun web_step :: "clock \<Rightarrow> nat \<Rightarrow> web_server \<Rightarrow> web_event \<Rightarrow> web_server \<times> web_output list" where
  "web_step clk n s (Connected c live) = connect n c live s"
| "web_step clk n s (FirstState c p) = post_decorated clk c p (close_slow c) s"
| "web_step clk n s (Incoming c raw) = handle_message clk c raw s"
| "web_step clk n s (Answered c r a) = gateway_answered clk c r a s"
| "web_step clk n s (StateRead p) = operator_transition clk p s"
| "web_step clk n s (GatewayBroadcast p) = broadcast clk p s"
| "web_step clk n s WatchdogTick = heartbeat_watchdog clk s"
| "web_step clk n s (WriterTurn c) = send_next c s"
| "web_step clk n s (ConnectionLost c) = disconnect clk c s"

subsection \<open>The queue keeps every answer\<close>

definition acks :: "payload list \<Rightarrow> payload list" where
  "acks ps = filter (\<lambda>p. \<not> replaceable p) ps"

lemma acks_simps [simp]: "acks [] = []" "acks (p # ps) = (if replaceable p then acks ps else p # acks ps)" "acks (ps @ qs) = acks ps @ acks qs"
  by (simp_all add: acks_def)

definition outbox_inv :: "outbox \<Rightarrow> bool" where
  "outbox_inv b \<longleftrightarrow> length (ob_items b) \<le> ob_capacity b \<and> distinct (map pl_op (filter replaceable (ob_items b)))"

lemma replace_first_acks:
  "replace_first (\<lambda>x. replaceable x \<and> pl_op x = pl_op p) p xs = Some ys \<Longrightarrow> replaceable p \<Longrightarrow>
   acks ys = acks xs \<and> map pl_op (filter replaceable ys) = map pl_op (filter replaceable xs) \<and> length ys = length xs \<and> set ys \<subseteq> insert p (set xs)"
  by (induction xs arbitrary: ys) (auto split: if_splits)

lemma replace_first_None: "replace_first P y xs = None \<longleftrightarrow> (\<forall>x\<in>set xs. \<not> P x)"
  by (induction xs) auto

lemma remove_first_acks:
  "remove_first replaceable xs = Some ys \<Longrightarrow>
   acks ys = acks xs \<and> Suc (length ys) = length xs \<and> set ys \<subseteq> set xs \<and> (distinct (map pl_op (filter replaceable xs)) \<longrightarrow> distinct (map pl_op (filter replaceable ys)))"
  by (induction xs arbitrary: ys) (auto split: if_splits)

definition put_ok :: "outbox \<Rightarrow> payload \<Rightarrow> outbox \<Rightarrow> bool" where
  "put_ok b p b1 \<longleftrightarrow> ob_capacity b1 = ob_capacity b \<and> acks (ob_items b1) = acks (ob_items b) @ acks [p] \<and>
     set (ob_items b1) \<subseteq> insert p (set (ob_items b)) \<and> (outbox_inv b \<longrightarrow> outbox_inv b1)"

lemma outbox_append_ok:
  assumes "outbox_append b p = Some b1" "replaceable p \<Longrightarrow> pl_op p \<notin> pl_op ` set (filter replaceable (ob_items b))"
  shows "put_ok b p b1"
proof (cases "ob_capacity b \<le> length (ob_items b)")
  case True
  then have p: "replaceable p" using assms(1) by (simp add: outbox_append_def split: if_splits)
  show ?thesis
  proof (cases "remove_first replaceable (ob_items b)")
    case None
    then show ?thesis using assms(1) True p by (auto simp: outbox_append_def put_ok_def)
  next
    case (Some xs)
    note r = remove_first_acks [OF Some]
    have b1: "b1 = b \<lparr> ob_items := xs @ [p] \<rparr>" using assms(1) True p Some by (simp add: outbox_append_def)
    have "pl_op p \<notin> pl_op ` set (filter replaceable xs)" using assms(2) [OF p] r by auto
    then show ?thesis using b1 r p by (auto simp: put_ok_def outbox_inv_def)
  qed
next
  case False
  then have "b1 = b \<lparr> ob_items := ob_items b @ [p] \<rparr>" using assms(1) by (simp add: outbox_append_def)
  then show ?thesis using False assms(2) by (auto simp: put_ok_def outbox_inv_def)
qed

lemma outbox_put_ok: "outbox_put b p = Some b1 \<Longrightarrow> put_ok b p b1"
proof -
  assume a: "outbox_put b p = Some b1"
  show ?thesis
  proof (cases "if replaceable p then replace_first (\<lambda>x. replaceable x \<and> pl_op x = pl_op p) p (ob_items b) else None")
    case None
    then have "replaceable p \<Longrightarrow> pl_op p \<notin> pl_op ` set (filter replaceable (ob_items b))"
      by (auto simp: replace_first_None)
    then show ?thesis using a None outbox_append_ok by (simp add: outbox_put_def)
  next
    case (Some xs)
    then have p: "replaceable p" "replace_first (\<lambda>x. replaceable x \<and> pl_op x = pl_op p) p (ob_items b) = Some xs" by (auto split: if_splits)
    from replace_first_acks [OF p(2,1)] a Some p(1) show ?thesis
      by (auto simp: outbox_put_def put_ok_def outbox_inv_def)
  qed
qed

subsection \<open>What every action keeps\<close>

text \<open>The interface of a relation between server states that a reading of the lease and a put into a queue keep. A payload that is
put carries the lease as it is, or is an answer that speaks of the owner only as the lease does, or is a payload of the gateway, of
which \<open>G\<close> holds.\<close>

definition told :: "clock \<Rightarrow> (payload \<Rightarrow> bool) \<Rightarrow> web_server \<Rightarrow> client \<Rightarrow> payload \<Rightarrow> bool" where
  "told clk G s c p \<longleftrightarrow>
     (if pl_op p \<in> {''state'', ''nav_telemetry''} then \<exists>l q. decorate clk l c q = (ws_lease s, p)
      else G p \<or> pl_fields p ''control_owner'' \<in> {None, Some (JBool (ls_owner (ws_lease s) = Some c))})"

definition gateway_ok :: "(payload \<Rightarrow> bool) \<Rightarrow> payload \<Rightarrow> bool" where
  "gateway_ok G p \<longleftrightarrow> (pl_op p \<notin> {''state'', ''nav_telemetry''} \<longrightarrow> G p)"

text \<open>The state that comes with a decision is that of the lease it leaves.\<close>

lemma state_for_owner: "lt_is_owner (snd (state_for clk l c)) = (ls_owner (fst (state_for clk l c)) = Some c)"
  by (simp add: state_for_def case_prod_unfold Let_def)

lemma decide_state: "lt_is_owner (ld_state (snd (decide clk l c a e))) = (ls_owner (fst (decide clk l c a e)) = Some c)"
  by (simp add: decide_def case_prod_unfold Let_def state_for_owner)

lemma decision_state:
  "lt_is_owner (ld_state (snd (lease_set_locked clk l c b))) = (ls_owner (fst (lease_set_locked clk l c b)) = Some c)"
  "lt_is_owner (ld_state (snd (lease_heartbeat clk l c))) = (ls_owner (fst (lease_heartbeat clk l c)) = Some c)"
  "lt_is_owner (ld_state (snd (lease_authorize clk l c r))) = (ls_owner (fst (lease_authorize clk l c r)) = Some c)"
  by (simp_all add: lease_set_locked_def lease_heartbeat_def lease_authorize_def Let_def case_prod_unfold decide_state)

lemma ack_op [simp]: "pl_op (ack q ok e k x) = ''ack''"
  by (simp add: ack_def)

lemma ack_owner: "pl_fields (ack q ok e k x) ''control_owner'' = x ''control_owner''"
  by (cases "x ''control_owner''"; cases k; cases "snd q") (simp_all add: ack_def with_optional_def map_add_def)

lemma told_silent: "x ''control_owner'' = None \<Longrightarrow> told clk G s c (ack q ok e k x)"
  by (simp add: told_def ack_owner)

lemma told_lease: "lt_is_owner st = (ls_owner (ws_lease s) = Some c) \<Longrightarrow> told clk G s c (ack q ok e k (lease_fields st))"
  by (simp add: told_def ack_owner lease_fields_def)

locale web_relation =
  fixes clk :: clock and G :: "payload \<Rightarrow> bool" and R :: "web_server \<Rightarrow> web_server \<Rightarrow> bool"
  assumes R_refl: "R s s"
    and R_trans: "R s t \<Longrightarrow> R t u \<Longrightarrow> R s u"
    and R_signature: "R s (s \<lparr> ws_signature := x \<rparr>)"
    and R_read: "R s (s \<lparr> ws_lease := fst (state_for clk (ws_lease s) c) \<rparr>)"
    and R_put: "map_of (ws_clients s) c = Some w \<Longrightarrow> outbox_put (wc_outbox w) p = Some b \<Longrightarrow> told clk G s c p \<Longrightarrow> R s (set_outbox c b s)"
begin

lemma R_then: "R s (fst (f s)) \<Longrightarrow> (\<And>t. R t (fst (g t))) \<Longrightarrow> R s (fst (next_action f g s))"
  using R_trans by (fastforce simp: next_action_def case_prod_unfold Let_def)

lemma R_all: "(\<And>f t. f \<in> set fs \<Longrightarrow> R t (fst (f t))) \<Longrightarrow> R s (fst (do_all fs s))"
proof (induction fs arbitrary: s)
  case (Cons f fs)
  then show ?case using R_then [of s f "do_all fs"] by simp
qed (simp add: R_refl)

lemma R_post: "told clk G s c p \<Longrightarrow> R s (fst (g s)) \<Longrightarrow> R s (fst (post c p g s))"
  using R_put R_refl by (auto simp: post_def split: option.splits)

lemma R_post_closing: "told clk G s c p \<Longrightarrow> R s (fst (post_closing c p s))"
  using R_post [of s c p "close_slow c"] R_refl by (simp add: post_closing_def close_slow_def)

lemma R_decorate:
  assumes "decorate clk (ws_lease s) c p = (l, q)" "gateway_ok G p"
  shows "R s (s \<lparr> ws_lease := l \<rparr>) \<and> told clk G (s \<lparr> ws_lease := l \<rparr>) c q"
proof -
  have "l = ws_lease s \<or> l = fst (state_for clk (ws_lease s) c)"
    using assms by (auto simp: decorate_def Let_def split: if_splits prod.splits)
  moreover have "s \<lparr> ws_lease := ws_lease s \<rparr> = s" by simp
  ultimately have "R s (s \<lparr> ws_lease := l \<rparr>)" using R_read [of s c] R_refl [of s] by (elim disjE) (simp_all only:)
  moreover have "pl_op q = pl_op p" "pl_op p \<notin> {''state'', ''nav_telemetry''} \<Longrightarrow> q = p"
    using assms(1) by (auto simp: decorate_def Let_def case_prod_unfold split: if_splits)
  ultimately show ?thesis using assms by (cases "pl_op p \<in> {''state'', ''nav_telemetry''}") (auto simp: told_def gateway_ok_def)
qed

lemma R_post_decorated: "gateway_ok G p \<Longrightarrow> R s (fst (post_decorated clk c p (close_slow c) s))"
proof -
  assume g: "gateway_ok G p"
  obtain l q where d: "decorate clk (ws_lease s) c p = (l, q)" by (cases "decorate clk (ws_lease s) c p")
  note r = R_decorate [OF d g]
  have "R (s \<lparr> ws_lease := l \<rparr>) (fst (post c q (close_slow c) (s \<lparr> ws_lease := l \<rparr>)))"
    using R_post [of "s \<lparr> ws_lease := l \<rparr>" c q "close_slow c"] r R_refl by (simp add: close_slow_def)
  then show ?thesis using r R_trans d by (auto simp: post_decorated_def)
qed

lemma R_broadcast: "gateway_ok G p \<Longrightarrow> R s (fst (broadcast clk p s))"
  unfolding broadcast_def by (rule R_all) (auto simp: R_refl R_post_decorated)

lemma R_changed: "R s (fst (broadcast clk routes_changed s))"
proof -
  have c: "decorate clk l c routes_changed = (l, routes_changed)" for l c by (simp add: decorate_def routes_changed_def)
  have "told clk G u c routes_changed" for u c by (simp add: told_def routes_changed_def)
  then have "R u (fst (post_decorated clk c routes_changed (close_slow c) u))" for u c
    using R_post [of u c routes_changed "close_slow c"] R_refl by (simp add: post_decorated_def c close_slow_def)
  then show ?thesis unfolding broadcast_def by (intro R_all) (auto simp: R_refl)
qed

lemma R_responses: "list_all (gateway_ok G) ps \<Longrightarrow> R s (fst (put_responses clk c r ps s))"
proof (induction ps arbitrary: s)
  case (Cons p ps)
  obtain l q where d: "decorate clk (ws_lease s) c p = (l, q)" by (cases "decorate clk (ws_lease s) c p")
  let ?s = "s \<lparr> ws_lease := l \<rparr>"
  have g: "gateway_ok G p" "list_all (gateway_ok G) ps" using Cons.prems by simp_all
  note r = R_decorate [OF d g(1)]
  show ?case
  proof (cases "map_of (ws_clients s) c")
    case None
    then show ?thesis using d r by simp
  next
    case (Some w)
    show ?thesis
    proof (cases "outbox_put (wc_outbox w) q")
      case None
      have "R ?s (fst (post_closing c (failure_ack r slow_text) ?s))" using R_post_closing told_silent by (simp add: failure_ack_def)
      then show ?thesis using d r Some None R_trans by auto
    next
      case put: (Some b)
      let ?more = "if rq_op r \<in> {''save_route'', ''delete_route''} \<and> pl_fields p ''ok'' = Some (JBool True) then broadcast clk routes_changed
        else (\<lambda>t. (t, []))"
      have "R ?s (set_outbox c b ?s)" using R_put [of ?s c w q b] Some put r by simp
      moreover have "R (set_outbox c b ?s) (fst (next_action ?more (put_responses clk c r ps) (set_outbox c b ?s)))"
        by (rule R_then) (auto simp: R_changed R_refl Cons.IH g(2))
      ultimately have "R s (fst (next_action ?more (put_responses clk c r ps) (set_outbox c b ?s)))" using r R_trans by blast
      then show ?thesis using d Some put by simp
    qed
  qed
qed (simp add: R_refl)

lemma R_answered: "(case a of Inl text \<Rightarrow> True | Inr ps \<Rightarrow> list_all (gateway_ok G) ps) \<Longrightarrow> R s (fst (gateway_answered clk c r a s))"
  using R_responses R_post_closing told_silent by (auto simp: gateway_answered_def failure_ack_def split: sum.splits)

lemma R_transition: "gateway_ok G p \<Longrightarrow> R s (fst (operator_transition clk p s))"
  unfolding operator_transition_def by (rule R_then) (simp_all add: R_broadcast gateway_ok_def)

lemma R_watchdog: "R s (fst (heartbeat_watchdog clk s))"
proof -
  have "R s (s \<lparr> ws_lease := fst (state_for clk (ws_lease s) ''__watchdog__''), ws_signature := x \<rparr>)" for x
    using R_trans [OF R_read [of s "''__watchdog__''"] R_signature] by simp
  then show ?thesis by (simp add: heartbeat_watchdog_def case_prod_unfold Let_def)
qed

text \<open>A message: whatever it does to the lease is given.\<close>

lemma R_message:
  assumes "\<And>r. accept_request raw = Inr r \<Longrightarrow>
      R s (s \<lparr> ws_lease := fst (lease_set_locked clk (ws_lease s) c (lock_field r)) \<rparr>) \<or> rq_op r \<noteq> ''set_control_lock''"
    and "R s (s \<lparr> ws_lease := fst (lease_heartbeat clk (ws_lease s) c) \<rparr>)"
    and "\<And>r. R s (s \<lparr> ws_lease := fst (lease_authorize clk (ws_lease s) c r) \<rparr>)"
  shows "R s (fst (handle_message clk c raw s))"
proof (cases "accept_request raw")
  case (Inl e)
  then show ?thesis using R_post_closing [OF told_silent] R_refl
    by (auto simp: handle_message_def split: option.splits web_error.splits)
next
  case (Inr r)
  have post: "R s (s \<lparr> ws_lease := l \<rparr>) \<Longrightarrow> lt_is_owner st = (ls_owner l = Some c) \<Longrightarrow>
      R s (fst (post_closing c (ack q ok e k (lease_fields st)) (s \<lparr> ws_lease := l \<rparr>)))" for l q ok e k st
    by (erule R_trans, rule R_post_closing, rule told_lease) simp
  have nothing: "R t (fst ((\<lambda>t. (t, os)) t))" for t os by (simp add: R_refl)
  show ?thesis
  proof (cases "map_of (ws_clients s) c")
    case None
    then show ?thesis using R_refl Inr by (simp add: handle_message_def)
  next
    case (Some w)
    consider "wc_live w \<and> rq_op r \<noteq> ''get_nav_snapshot''" | "\<not> (wc_live w \<and> rq_op r \<noteq> ''get_nav_snapshot'')" "rq_op r = ''set_control_lock''"
      | "\<not> (wc_live w \<and> rq_op r \<noteq> ''get_nav_snapshot'')" "rq_op r = ''control_heartbeat''"
      | "\<not> (wc_live w \<and> rq_op r \<noteq> ''get_nav_snapshot'')" "rq_op r \<notin> {''set_control_lock'', ''control_heartbeat''}" by blast
    then show ?thesis
    proof cases
      case 1
      then show ?thesis using Inr Some post [OF R_read state_for_owner] by (simp add: handle_message_def read_only_ack_def case_prod_unfold Let_def)
    next
      case 2
      let ?l = "lease_set_locked clk (ws_lease s) c (lock_field r)"
      have "R s (s \<lparr> ws_lease := fst ?l \<rparr>)" using assms(1) [OF Inr] 2 by blast
      then have "R s (fst (post_closing c (lease_ack r (snd ?l)) (s \<lparr> ws_lease := fst ?l \<rparr>)))"
        using post [OF _ decision_state(1)] by (simp add: lease_ack_def Let_def)
      then show ?thesis using 2 Inr Some by (simp add: handle_message_def next_action_def case_prod_unfold Let_def)
    next
      case 3
      then show ?thesis using Inr Some post [OF assms(2) decision_state(2)] by (simp add: handle_message_def lease_ack_def case_prod_unfold Let_def)
    next
      case 4
      have "R s (fst (post_closing c (lease_ack r (snd (lease_authorize clk (ws_lease s) c r))) (s \<lparr> ws_lease := fst (lease_authorize clk (ws_lease s) c r) \<rparr>)))"
        using post [OF assms(3) decision_state(3)] by (simp add: lease_ack_def Let_def)
      then show ?thesis using 4 Inr Some assms(3) by (auto simp: handle_message_def case_prod_unfold Let_def)
    qed
  qed
qed

end

subsection \<open>Answers are not lost\<close>

definition keeps_acks :: "web_server \<Rightarrow> web_server \<Rightarrow> bool" where
  "keeps_acks s t \<longleftrightarrow> (\<forall>c w. map_of (ws_clients s) c = Some w \<longrightarrow>
     (\<exists>v. map_of (ws_clients t) c = Some v \<and> prefix (acks (ob_items (wc_outbox w))) (acks (ob_items (wc_outbox v))) \<and>
        (outbox_inv (wc_outbox w) \<longrightarrow> outbox_inv (wc_outbox v))))"

lemma map_of_set_outbox:
  "map_of (ws_clients s) c = Some (w :: web_client) \<Longrightarrow> map_of (ws_clients (set_outbox c b s)) = (map_of (ws_clients s))(c \<mapsto> w \<lparr> wc_outbox := b \<rparr>)"
  by (simp add: set_outbox_def update_conv')

lemma keeps_acks_same: "ws_clients t = ws_clients s \<Longrightarrow> keeps_acks s t"
  by (auto simp: keeps_acks_def)

lemma keeps_acks_trans: "keeps_acks s t \<Longrightarrow> keeps_acks t u \<Longrightarrow> keeps_acks s u"
  unfolding keeps_acks_def by (blast intro: prefix_order.trans)

interpretation acks: web_relation clk "\<lambda>_. True" keeps_acks for clk
proof unfold_locales
  fix s :: web_server and c w p b assume w: "map_of (ws_clients s) c = Some w" and b: "outbox_put (wc_outbox w) p = Some b"
  from outbox_put_ok [OF b] show "keeps_acks s (set_outbox c b s)"
    by (auto simp: keeps_acks_def map_of_set_outbox [OF w] put_ok_def w)
qed (auto intro: keeps_acks_same keeps_acks_trans)

text \<open>The answers a step sends to a connection.\<close>

definition sent_to :: "client \<Rightarrow> web_output list \<Rightarrow> payload list" where
  "sent_to c os = acks (concat (map (\<lambda>x. case x of Delivered d p \<Rightarrow> if d = c then [p] else [] | _ \<Rightarrow> []) os))"

lemma sent_to_simps [simp]: "sent_to c [] = []" "sent_to c (os @ ps) = sent_to c os @ sent_to c ps"
  by (simp_all add: sent_to_def)

definition lives_on :: "client \<Rightarrow> web_event \<Rightarrow> bool" where
  "lives_on c e \<longleftrightarrow> e \<noteq> ConnectionLost c \<and> (\<forall>b. e \<noteq> Connected c b)"

lemma acks_safe: "acks (map safe_payload ps) = map safe_payload (acks ps)"
  by (induction ps) (auto simp: replaceable_def safe_payload_def)

definition no_delivery :: "web_output list \<Rightarrow> bool" where
  "no_delivery os \<longleftrightarrow> list_all (\<lambda>x. \<forall>d p. x \<noteq> Delivered d p) os"

lemma no_delivery_sent: "no_delivery os \<Longrightarrow> sent_to c os = []"
  by (induction os) (auto simp: no_delivery_def sent_to_def split: web_output.splits)

lemma no_delivery_next: "no_delivery (snd (f s)) \<Longrightarrow> (\<And>t. no_delivery (snd (g t))) \<Longrightarrow> no_delivery (snd (next_action f g s))"
  by (simp add: next_action_def case_prod_unfold Let_def no_delivery_def)

lemma no_delivery_all: "(\<And>f t. f \<in> set fs \<Longrightarrow> no_delivery (snd (f t))) \<Longrightarrow> no_delivery (snd (do_all fs s))"
proof (induction fs arbitrary: s)
  case (Cons f fs)
  then show ?case using no_delivery_next [of f s "do_all fs"] by simp
qed (simp add: no_delivery_def)

lemma no_delivery_post: "no_delivery (snd (post_closing c p s))" "no_delivery (snd (post_decorated clk c p (close_slow c) s))"
  by (auto simp: post_closing_def post_decorated_def post_def close_slow_def no_delivery_def case_prod_unfold Let_def split: option.splits)

lemma no_delivery_broadcast: "no_delivery (snd (broadcast clk p s))"
  unfolding broadcast_def by (rule no_delivery_all) (auto simp: no_delivery_post no_delivery_def [of "[]"])

lemma no_delivery_responses: "no_delivery (snd (put_responses clk c r ps s))"
proof (induction ps arbitrary: s)
  case (Cons p ps)
  show ?case
    by (auto simp: case_prod_unfold Let_def no_delivery_post no_delivery_def [of "[]"] split: option.splits
        intro!: no_delivery_next no_delivery_broadcast Cons.IH)
qed (simp add: no_delivery_def)

lemma no_delivery_message: "no_delivery (snd (handle_message clk c raw s))"
  by (auto simp: handle_message_def case_prod_unfold Let_def no_delivery_post no_delivery_def [of "[]"] no_delivery_def [of "[_]"]
      split: sum.splits option.splits web_error.splits intro!: no_delivery_next)

lemma no_delivery_step: "(\<forall>d. e \<noteq> WriterTurn d) \<Longrightarrow> no_delivery (snd (web_step clk n s e))"
  using no_delivery_post no_delivery_responses no_delivery_message no_delivery_broadcast
  by (cases e) (auto simp: connect_def disconnect_def heartbeat_watchdog_def operator_transition_def gateway_answered_def case_prod_unfold Let_def
      no_delivery_def [of "[]"] no_delivery_def [of "[_]"] split: option.splits sum.splits intro!: no_delivery_next)

lemma keeps_acks_step:
  assumes "lives_on c e" "\<forall>d. e \<noteq> WriterTurn d" "map_of (ws_clients s) c = Some w"
  shows "\<exists>v. map_of (ws_clients (fst (web_step clk n s e))) c = Some v \<and> prefix (acks (ob_items (wc_outbox w))) (acks (ob_items (wc_outbox v))) \<and>
        (outbox_inv (wc_outbox w) \<longrightarrow> outbox_inv (wc_outbox v))"
proof (cases e)
  case (Connected d b)
  then show ?thesis using assms by (auto simp: connect_def lives_on_def update_conv' split: option.splits)
next
  case (ConnectionLost d)
  then show ?thesis using assms by (auto simp: disconnect_def lives_on_def delete_conv' case_prod_unfold Let_def)
next
  case (WriterTurn d)
  then show ?thesis using assms(2) by simp
next
  case (Incoming d raw)
  have "keeps_acks s (fst (handle_message clk d raw s))"
    by (rule acks.R_message) (auto intro: keeps_acks_same)
  then show ?thesis using Incoming assms(3) by (simp add: keeps_acks_def)
qed (use assms(3) acks.R_post_decorated acks.R_answered acks.R_transition acks.R_broadcast acks.R_watchdog in
  \<open>force simp: keeps_acks_def gateway_ok_def list_all_iff split: sum.splits\<close>)+

lemma step_acks:
  assumes "map_of (ws_clients s) c = Some w" "lives_on c e"
  shows "\<exists>v. map_of (ws_clients (fst (web_step clk n s e))) c = Some v \<and>
    prefix (map safe_payload (acks (ob_items (wc_outbox w)))) (sent_to c (snd (web_step clk n s e)) @ map safe_payload (acks (ob_items (wc_outbox v)))) \<and>
    (outbox_inv (wc_outbox w) \<longrightarrow> outbox_inv (wc_outbox v))"
proof (cases "\<exists>d. e = WriterTurn d")
  case False
  then have "sent_to c (snd (web_step clk n s e)) = []" using no_delivery_step no_delivery_sent by blast
  then show ?thesis using keeps_acks_step [OF assms(2) _ assms(1), of clk n] False by (auto intro: map_mono_prefix)
next
  case True
  then obtain d where e: "e = WriterTurn d" by blast
  show ?thesis
  proof (cases "map_of (ws_clients s) d")
    case None
    then show ?thesis using assms(1) e by (simp add: send_next_def)
  next
    case (Some x)
    show ?thesis
    proof (cases "ob_items (wc_outbox x)")
      case Nil
      then show ?thesis using assms(1) e Some by (simp add: send_next_def outbox_get_def)
    next
      case (Cons p ps)
      then have s1: "web_step clk n s e = (set_outbox d (wc_outbox x \<lparr> ob_items := ps \<rparr>) s, [Delivered d (safe_payload p)])"
        using e Some by (simp add: send_next_def outbox_get_def)
      have inv: "outbox_inv (wc_outbox x) \<Longrightarrow> outbox_inv (wc_outbox x \<lparr> ob_items := ps \<rparr>)"
        using Cons by (auto simp: outbox_inv_def split: if_splits)
      show ?thesis
      proof (cases "d = c")
        case True
        then have "w = x" using Some assms(1) by simp
        then show ?thesis using s1 True Some Cons inv
          by (auto simp: map_of_set_outbox sent_to_def safe_payload_def replaceable_def)
      next
        case False
        then show ?thesis using s1 assms(1) Some by (auto simp: map_of_set_outbox sent_to_def)
      qed
    qed
  qed
qed

text \<open>C10. An answer in the queue of a connection is never lost, overtaken or dropped: over any run in which the connection stays, the
answers that were queued are sent in their order or still queued, ahead of all later ones; and the queue stays within its capacity, with
one entry per kind of state.\<close>

theorem answers_are_delivered:
  assumes "map_of (ws_clients s) c = Some w" "outbox_inv (wc_outbox w)" "list_all (lives_on c) es" "run (web_step clk n) s es = (t, os)"
  shows "\<exists>v. map_of (ws_clients t) c = Some v \<and> outbox_inv (wc_outbox v) \<and>
    prefix (map safe_payload (acks (ob_items (wc_outbox w)))) (sent_to c os @ map safe_payload (acks (ob_items (wc_outbox v))))"
  using assms
proof (induction es arbitrary: s w os)
  case (Cons e es)
  obtain s1 o1 where st: "web_step clk n s e = (s1, o1)" by fastforce
  obtain o2 where rn: "run (web_step clk n) s1 es = (t, o2)" "os = o1 @ o2"
    using Cons.prems(4) st by (auto simp: Let_def split: prod.splits)
  from step_acks [OF Cons.prems(1), of e clk n] Cons.prems(2,3) st obtain w1 where
    w1: "map_of (ws_clients s1) c = Some w1" "outbox_inv (wc_outbox w1)"
      "prefix (map safe_payload (acks (ob_items (wc_outbox w)))) (sent_to c o1 @ map safe_payload (acks (ob_items (wc_outbox w1))))" by auto
  from Cons.IH [OF w1(1,2) _ rn(1)] Cons.prems(3) obtain v where
    v: "map_of (ws_clients t) c = Some v" "outbox_inv (wc_outbox v)"
      "prefix (map safe_payload (acks (ob_items (wc_outbox w1)))) (sent_to c o2 @ map safe_payload (acks (ob_items (wc_outbox v))))" by auto
  have "prefix (sent_to c o1 @ map safe_payload (acks (ob_items (wc_outbox w1))))
      (sent_to c o1 @ sent_to c o2 @ map safe_payload (acks (ob_items (wc_outbox v))))" using v(3) by simp
  then show ?case using v(1,2) w1(3) rn(2) by (auto intro: prefix_order.trans)
qed auto

subsection \<open>The lease in the payloads\<close>

text \<open>\<open>b\<close> says whether the gateway keeps silent about the owner in what is not a state.\<close>

definition unowned :: "payload \<Rightarrow> bool" where
  "unowned p \<longleftrightarrow> pl_fields p ''control_owner'' \<in> {None, Some (JBool False)}"

definition disowned :: "bool \<Rightarrow> payload \<Rightarrow> bool" where
  "disowned b p \<longleftrightarrow>
     (if pl_op p \<in> {''state'', ''nav_telemetry''} then pl_fields p ''control_owner'' = Some (JBool False) else b \<longrightarrow> unowned p)"

definition innocent :: "bool \<Rightarrow> client \<Rightarrow> web_server \<Rightarrow> bool" where
  "innocent b c s \<longleftrightarrow> ls_owner (ws_lease s) \<noteq> Some c \<and>
     (\<forall>w. map_of (ws_clients s) c = Some w \<longrightarrow> list_all (disowned b) (ob_items (wc_outbox w)))"

definition stays_innocent :: "bool \<Rightarrow> client \<Rightarrow> web_server \<Rightarrow> web_server \<Rightarrow> bool" where
  "stays_innocent b c s t \<longleftrightarrow> (innocent b c s \<longrightarrow> innocent b c t)"

lemma stays_innocent_lease: "ls_owner l \<in> {None, ls_owner (ws_lease s)} \<Longrightarrow> stays_innocent b c s (s \<lparr> ws_lease := l \<rparr>)"
  by (auto simp: stays_innocent_def innocent_def)

lemma told_disowned:
  assumes "told clk (\<lambda>q. b \<longrightarrow> unowned q) s c p" "ls_owner (ws_lease s) \<noteq> Some c"
  shows "disowned b p"
proof (cases "pl_op p \<in> {''state'', ''nav_telemetry''}")
  case True
  then obtain l q where d: "decorate clk l c q = (ws_lease s, p)" using assms(1) by (auto simp: told_def)
  obtain l1 st where st: "state_for clk l c = (l1, st)" by fastforce
  have "pl_op q \<in> {''state'', ''nav_telemetry''}" using d True by (auto simp: decorate_def Let_def case_prod_unfold split: if_splits)
  then have "l1 = ws_lease s" "pl_fields p ''control_owner'' = Some (JBool (lt_is_owner st))"
    using d st by (auto simp: decorate_def lease_fields_def)
  moreover have "lt_is_owner st \<longleftrightarrow> ls_owner l1 = Some c"
    using st state_for_owner [of clk l c] by simp
  ultimately show ?thesis using assms(2) True by (simp add: disowned_def)
next
  case False
  then show ?thesis using assms by (auto simp: disowned_def told_def unowned_def)
qed

interpretation innocent: web_relation clk "\<lambda>q. b \<longrightarrow> unowned q" "stays_innocent b c" for clk b c
proof unfold_locales
  fix s t u :: web_server and x
  show "stays_innocent b c s s" "stays_innocent b c s t \<Longrightarrow> stays_innocent b c t u \<Longrightarrow> stays_innocent b c s u"
    by (simp_all add: stays_innocent_def)
  show "stays_innocent b c s (s \<lparr> ws_signature := x \<rparr>)" by (simp add: stays_innocent_def innocent_def)
next
  fix s :: web_server and d
  show "stays_innocent b c s (s \<lparr> ws_lease := fst (state_for clk (ws_lease s) d) \<rparr>)"
    using state_for_aged [of clk "ws_lease s" d] by (intro stays_innocent_lease) blast
next
  fix s :: web_server and d w p o1
  assume w: "map_of (ws_clients s) d = Some w" and put1: "outbox_put (wc_outbox w) p = Some o1" and t: "told clk (\<lambda>q. b \<longrightarrow> unowned q) s d p"
  have "set (ob_items o1) \<subseteq> insert p (set (ob_items (wc_outbox w)))" using outbox_put_ok [OF put1] by (simp add: put_ok_def)
  then have put: "list_all (disowned b) (ob_items (wc_outbox w)) \<Longrightarrow> disowned b p \<Longrightarrow> list_all (disowned b) (ob_items o1)" by (auto simp: list_all_iff)
  have l: "ws_lease (set_outbox d o1 s) = ws_lease s" by (simp add: set_outbox_def split: option.splits)
  show "stays_innocent b c s (set_outbox d o1 s)"
  proof (cases "d = c")
    case True
    show ?thesis unfolding stays_innocent_def
    proof
      assume i: "innocent b c s"
      then have "disowned b p" using told_disowned [OF t] True by (simp add: innocent_def)
      moreover have "list_all (disowned b) (ob_items (wc_outbox w))" using i w True by (simp add: innocent_def)
      ultimately have "list_all (disowned b) (ob_items o1)" using put by blast
      then show "innocent b c (set_outbox d o1 s)" using i unfolding True [symmetric] by (simp add: innocent_def map_of_set_outbox [OF w] l)
    qed
  next
    case False
    then show ?thesis by (simp add: stays_innocent_def innocent_def map_of_set_outbox [OF w] l)
  qed
qed

lemma decide_owner: "ls_owner (fst (decide clk l d a e)) = ls_owner (sync_timeout clk l)"
  by (simp add: decide_def state_for_def case_prod_unfold Let_def)

lemma sync_owner: "ls_owner (sync_timeout clk l) = None \<or> ls_owner (sync_timeout clk l) = ls_owner l"
  using sync_aged [of clk l] by auto

lemma heartbeat_owner: "ls_owner (fst (lease_heartbeat clk l d)) \<in> {None, ls_owner l}"
proof -
  let ?l = "sync_timeout clk l" and ?m = "sync_timeout clk l \<lparr> ls_guard := fst (guard_heartbeat clk (ls_guard (sync_timeout clk l))) \<rparr>"
  show ?thesis using sync_owner [of clk l] sync_owner [of clk ?l] sync_owner [of clk ?m] sync_owner [of clk "sync_timeout clk ?m"]
    by (simp add: lease_heartbeat_def Let_def decide_owner) auto
qed

lemma authorize_owner: "ls_owner (fst (lease_authorize clk l d r)) \<in> {None, ls_owner l}"
proof -
  let ?l = "sync_timeout clk l" and ?m = "sync_timeout clk l \<lparr> ls_guard := fst (guard_authorize clk (ls_guard (sync_timeout clk l)) r) \<rparr>"
  show ?thesis using sync_owner [of clk l] sync_owner [of clk ?l] sync_owner [of clk ?m]
    by (simp add: lease_authorize_def Let_def case_prod_unfold decide_owner) auto
qed

lemma set_locked_owner: "ls_owner (fst (lease_set_locked clk l d b)) \<in> {None, ls_owner l} \<or> \<not> b \<and> ls_owner (fst (lease_set_locked clk l d b)) = Some d"
proof -
  let ?l = "sync_timeout clk l"
  let ?m = "\<lparr> ls_guard = fst (set_locked clk (ls_guard ?l) True), ls_owner = None \<rparr>"
  let ?k = "\<lparr> ls_guard = fst (set_locked clk (ls_guard ?l) False), ls_owner = Some d \<rparr>"
  show ?thesis using sync_owner [of clk l] sync_owner [of clk ?l] sync_owner [of clk ?m] sync_owner [of clk ?k]
    by (simp add: lease_set_locked_def Let_def decide_owner) auto
qed

text \<open>A message of the connection that asks for control.\<close>

definition claims_control :: "client \<Rightarrow> web_event \<Rightarrow> bool" where
  "claims_control c e \<longleftrightarrow> (\<exists>raw r. e = Incoming c raw \<and> accept_request raw = Inr r \<and> rq_op r = ''set_control_lock'' \<and> \<not> lock_field r)"

text \<open>The payloads an event brings from the gateway.\<close>

definition gateway_payloads :: "web_event \<Rightarrow> payload list" where
  "gateway_payloads e =
     (case e of FirstState c p \<Rightarrow> [p] | Answered c r (Inr ps) \<Rightarrow> ps | StateRead p \<Rightarrow> [p] | GatewayBroadcast p \<Rightarrow> [p] | _ \<Rightarrow> [])"

definition gateway_silent :: "web_event \<Rightarrow> bool" where
  "gateway_silent e \<longleftrightarrow> list_all (\<lambda>p. pl_op p \<notin> {''state'', ''nav_telemetry''} \<longrightarrow> pl_fields p ''control_owner'' = None) (gateway_payloads e)"

lemma gateway_silent_ok: "(b \<longrightarrow> gateway_silent e) \<Longrightarrow> list_all (gateway_ok (\<lambda>q. b \<longrightarrow> unowned q)) (gateway_payloads e)"
  by (auto simp: gateway_silent_def list_all_iff gateway_ok_def unowned_def)

lemma step_innocent:
  assumes "innocent b c s" "\<not> claims_control c e" "b \<longrightarrow> gateway_silent e"
  shows "innocent b c (fst (web_step clk n s e)) \<and> (\<forall>p. Delivered c p \<in> set (snd (web_step clk n s e)) \<longrightarrow> disowned b p)"
proof -
  have quiet: ?thesis if "\<forall>d. e \<noteq> WriterTurn d" "stays_innocent b c s (fst (web_step clk n s e))"
    using that assms(1) no_delivery_step [OF that(1), of clk n s] by (auto simp: stays_innocent_def no_delivery_def list_all_iff)
  show ?thesis
  proof (cases e)
    case (Connected d live)
    then show ?thesis using assms(1) by (intro quiet) (auto simp: connect_def stays_innocent_def innocent_def update_conv' new_outbox_def split: option.splits if_splits)
  next
    case (ConnectionLost d)
    have "ls_owner (fst (lease_disconnect clk (ws_lease s) d)) \<in> {None, ls_owner (ws_lease s)}"
      using sync_aged [of clk "ws_lease s"] by (auto simp: lease_disconnect_def Let_def)
    then show ?thesis using ConnectionLost assms(1)
      by (intro quiet) (auto simp: disconnect_def stays_innocent_def innocent_def delete_conv' case_prod_unfold Let_def split: if_splits)
  next
    case (Incoming d raw)
    have "stays_innocent b c s (fst (handle_message clk d raw s))"
    proof (rule innocent.R_message)
      fix r assume r: "accept_request raw = Inr r"
      show "stays_innocent b c s (s \<lparr> ws_lease := fst (lease_set_locked clk (ws_lease s) d (lock_field r)) \<rparr>) \<or> rq_op r \<noteq> ''set_control_lock''"
        using set_locked_owner [of clk "ws_lease s" d "lock_field r"] assms(2) r Incoming
        by (auto simp: claims_control_def stays_innocent_def innocent_def)
    qed (use heartbeat_owner authorize_owner stays_innocent_lease in blast)+
    then show ?thesis using Incoming by (intro quiet) auto
  next
    case (WriterTurn d)
    show ?thesis
    proof (cases "map_of (ws_clients s) d")
      case None
      then show ?thesis using assms(1) WriterTurn by (simp add: send_next_def)
    next
      case (Some x)
      then show ?thesis using assms(1) WriterTurn
        by (cases "ob_items (wc_outbox x)")
           (auto simp: send_next_def outbox_get_def innocent_def set_outbox_def update_conv' disowned_def unowned_def safe_payload_def)
    qed
  next
    case (FirstState d p)
    then show ?thesis using gateway_silent_ok [OF assms(3)] by (intro quiet) (auto simp: gateway_payloads_def intro!: innocent.R_post_decorated)
  next
    case (Answered d r a)
    then have "case a of Inl text \<Rightarrow> True | Inr ps \<Rightarrow> list_all (gateway_ok (\<lambda>q. b \<longrightarrow> unowned q)) ps"
      using gateway_silent_ok [OF assms(3)] by (auto simp: gateway_payloads_def split: sum.splits)
    from innocent.R_answered [OF this] show ?thesis using Answered by (intro quiet) auto
  next
    case (StateRead p)
    then show ?thesis using gateway_silent_ok [OF assms(3)] by (intro quiet) (auto simp: gateway_payloads_def intro!: innocent.R_transition)
  next
    case (GatewayBroadcast p)
    then show ?thesis using gateway_silent_ok [OF assms(3)] by (intro quiet) (auto simp: gateway_payloads_def intro!: innocent.R_broadcast)
  qed (intro quiet, simp, simp add: innocent.R_watchdog)
qed

definition new_web_server :: "guard \<Rightarrow> web_server" where
  "new_web_server g = \<lparr> ws_lease = \<lparr> ls_guard = g, ls_owner = None \<rparr>, ws_clients = [], ws_signature = (False, [], False) \<rparr>"

lemma run_innocent:
  "innocent b c s \<Longrightarrow> list_all (\<lambda>e. \<not> claims_control c e) es \<Longrightarrow> (b \<longrightarrow> list_all gateway_silent es) \<Longrightarrow>
     Delivered c p \<in> set (snd (run (web_step clk n) s es)) \<Longrightarrow> disowned b p"
proof (induction es arbitrary: s)
  case (Cons e es)
  then show ?case using step_innocent [of b c s e clk n] by (auto simp: run_Cons simp del: run.simps(2))
qed simp

text \<open>C11. The lease is the only authority on control: a connection that never asked for control is never told that it owns it,
whatever the other connections do. Every state and every telemetry it is sent says that it does not, whatever the gateway puts into
them; and every other payload, the acknowledgements of the lease among them, says so or says nothing about it, as long as the gateway
itself says nothing about it in its payloads that are no states.\<close>

theorem no_control_without_claim:
  assumes "list_all (\<lambda>e. \<not> claims_control c e) es" "Delivered c p \<in> set (snd (run (web_step clk n) (new_web_server g) es))"
  shows "(pl_op p \<in> {''state'', ''nav_telemetry''} \<longrightarrow> pl_fields p ''control_owner'' = Some (JBool False)) \<and>
    (list_all gateway_silent es \<longrightarrow> pl_fields p ''control_owner'' \<in> {None, Some (JBool False)})"
proof -
  have i: "innocent b c (new_web_server g)" for b by (simp add: innocent_def new_web_server_def)
  have "disowned (list_all gateway_silent es) p" using run_innocent [OF i assms(1) _ assms(2)] by blast
  then show ?thesis by (auto simp: disowned_def unowned_def split: if_splits)
qed

subsection \<open>The answer to a state request\<close>

lemma decorate_state:
  assumes "pl_op p \<in> {''state'', ''nav_telemetry''}"
  shows "pl_op (snd (decorate clk l c p)) = pl_op p \<and> pl_fields (snd (decorate clk l c p)) ''client_req_id'' = pl_fields p ''client_req_id''"
  using assms by (auto simp: decorate_def Let_def case_prod_unfold lease_fields_def map_add_def)

lemma state_replaceable: "pl_op p \<in> {''state'', ''nav_telemetry''} \<Longrightarrow> replaceable p"
  by (auto simp: replaceable_def replaceable_ops_def)

lemma broadcast_one:
  assumes "ws_clients s = [(c, w)]" "\<not> wc_live w"
  shows "broadcast clk p s = post_decorated clk c p (close_slow c) s"
  using assms by (simp add: broadcast_def next_action_def case_prod_unfold Let_def)

lemma post_decorated_one:
  assumes "ws_clients s = [(c, w)]" "outbox_put (wc_outbox w) (snd (decorate clk (ws_lease s) c p)) = Some b"
  shows "ws_clients (fst (post_decorated clk c p (close_slow c) s)) = [(c, w \<lparr> wc_outbox := b \<rparr>)]" "snd (post_decorated clk c p (close_slow c) s) = []"
  using assms by (simp_all add: post_decorated_def post_def set_outbox_def case_prod_unfold Let_def)

text \<open>C18. The answer to a request for the state is a replaceable payload: when a lock change is broadcast before it is sent, the
broadcast takes its place, and nothing that is left in the queue carries the identifier of the request.\<close>

theorem state_reply_overwritten:
  assumes "ws_clients s = [(c, \<lparr> wc_outbox = \<lparr> ob_capacity = n, ob_items = [] \<rparr>, wc_live = False \<rparr>)]" "2 \<le> n"
    "pl_op p = ''state''" "rq_op r = ''get_state''" "pl_op q = ''state''" "pl_fields q ''client_req_id'' = None"
    "run (web_step clk n) s [Answered c r (Inr [p]), StateRead q] = (t, os)"
  shows "os = [] \<and> (\<exists>w. ws_clients t = [(c, w)] \<and> map pl_op (ob_items (wc_outbox w)) = [''state'', ''nav_telemetry''] \<and>
    list_all (\<lambda>x. pl_fields x ''client_req_id'' = None) (ob_items (wc_outbox w)))"
proof -
  let ?box = "\<lambda>xs. \<lparr> ob_capacity = n, ob_items = xs \<rparr>" and ?w = "\<lambda>xs. \<lparr> wc_outbox = \<lparr> ob_capacity = n, ob_items = xs \<rparr>, wc_live = False \<rparr>"
  define s1 where "s1 = fst (web_step clk n s (Answered c r (Inr [p])))"
  define q1 where "q1 = snd (decorate clk (ws_lease s1) c q)"
  define s2 where "s2 = fst (broadcast clk q s1)"
  let ?q = "q \<lparr> pl_op := ''nav_telemetry'' \<rparr>"
  define q2 where "q2 = snd (decorate clk (ws_lease s2) c ?q)"
  obtain p1 where p1: "p1 = snd (decorate clk (ws_lease s) c p)" by simp
  have op: "pl_op p1 = ''state''" "pl_op q1 = ''state''" "pl_op q2 = ''nav_telemetry''"
    and ids: "pl_fields q1 ''client_req_id'' = None" "pl_fields q2 ''client_req_id'' = None"
    using decorate_state [of p clk "ws_lease s" c] decorate_state [of q clk "ws_lease s1" c] decorate_state [of ?q clk "ws_lease s2" c] assms p1
    by (auto simp: q1_def q2_def)
  have rep: "replaceable p1" "replaceable q1" "replaceable q2" using op state_replaceable by auto
  have "outbox_put (?box []) p1 = Some (?box [p1])" using rep assms(2) by (simp add: outbox_put_def outbox_append_def)
  then have s1: "ws_clients s1 = [(c, ?w [p1])]" "snd (web_step clk n s (Answered c r (Inr [p]))) = []"
    using assms p1 by (simp_all add: s1_def gateway_answered_def next_action_def set_outbox_def case_prod_unfold Let_def)
  have b1: "outbox_put (wc_outbox (?w [p1])) q1 = Some (?box [q1])" using op rep by (simp add: outbox_put_def)
  have s2: "ws_clients s2 = [(c, ?w [q1])]" "snd (broadcast clk q s1) = []"
    using post_decorated_one [OF s1(1) b1 [unfolded q1_def]] broadcast_one [OF s1(1)] by (simp_all add: s2_def q1_def)
  have b2: "outbox_put (wc_outbox (?w [q1])) q2 = Some (?box [q1, q2])" using op rep assms(2) by (simp add: outbox_put_def outbox_append_def)
  have s3: "ws_clients (fst (broadcast clk ?q s2)) = [(c, ?w [q1, q2])]" "snd (broadcast clk ?q s2) = []"
    using post_decorated_one [OF s2(1) b2 [unfolded q2_def]] broadcast_one [OF s2(1)] by (simp_all add: q2_def)
  have s1g: "s1 = fst (gateway_answered clk c r (Inr [p]) s)" by (simp add: s1_def)
  have o1: "snd (gateway_answered clk c r (Inr [p]) s) = []" using s1(2) by simp
  have "t = fst (broadcast clk ?q s2)" "os = []"
    using assms(7) o1 s2(2) s3(2) by (auto simp: run_Cons s1g [symmetric] s2_def [symmetric] operator_transition_def next_action_def case_prod_unfold Let_def
      simp del: run.simps(2))
  then show ?thesis using s3(1) op ids by simp
qed

subsection \<open>Examples\<close>

definition state_payload :: "string option \<Rightarrow> payload" where
  "state_payload i = \<lparr> pl_op = ''state'', pl_fields = with_optional ''client_req_id'' i [''control_owner'' \<mapsto> JBool True] \<rparr>"

definition web_of :: "payload list \<Rightarrow> web_server" where
  "web_of ps = (new_web_server sample_guard) \<lparr> ws_clients := [(''a'', \<lparr> wc_outbox = \<lparr> ob_capacity = 2, ob_items = ps \<rparr>, wc_live = False \<rparr>)] \<rparr>"

definition state_request :: request where
  "state_request = \<lparr> rq_op = ''get_state'', rq_id = Some ''7'', rq_fields = Map.empty \<rparr>"

lemma answers_are_delivered_witness:
  "\<exists>t os v. run (web_step (\<lambda>n. fzero) 2) (web_of [failure_ack state_request []]) [WriterTurn ''a''] = (t, os) \<and>
     map_of (ws_clients t) ''a'' = Some v \<and> outbox_inv (wc_outbox v) \<and>
     prefix [safe_payload (failure_ack state_request [])] (sent_to ''a'' os @ map safe_payload (acks (ob_items (wc_outbox v))))"
proof -
  have "\<not> replaceable (failure_ack state_request [])" by (simp add: failure_ack_def ack_def replaceable_def replaceable_ops_def)
  then show ?thesis
    using answers_are_delivered [of "web_of [failure_ack state_request []]" "''a''" _ "[WriterTurn ''a'']" "\<lambda>n. fzero" 2, OF _ _ _ prod.collapse [symmetric]]
    by (auto simp: web_of_def outbox_inv_def lives_on_def) (metis prod.collapse)
qed

text \<open>A heartbeat without the lease is answered with an acknowledgement that carries the lease.\<close>

lemma heartbeat_accepted:
  "accept_request (JObj [(''op'', JStr ''control_heartbeat'')]) = Inr \<lparr> rq_op = ''control_heartbeat'', rq_id = None, rq_fields = Map.empty \<rparr>"
proof -
  have "py_strip ''control_heartbeat'' = ''control_heartbeat''" by code_simp
  then show ?thesis
    by (simp add: accept_request_def parse_request_def request_id_def supplied_ids_def id_aliases_def List.map_filter_def
        validate_request_def known_operations_def datum_mutations_def restrict_map_def map_add_def fun_eq_iff Let_def)
qed

lemma heartbeat_answered:
  "\<exists>p. Delivered ''a'' p \<in> set (snd (run (web_step (\<lambda>n. fzero) 2) (new_web_server sample_guard)
     [Connected ''a'' False, Incoming ''a'' (JObj [(''op'', JStr ''control_heartbeat'')]), WriterTurn ''a''])) \<and>
     pl_op p = ''ack'' \<and> pl_fields p ''control_owner'' \<noteq> None"
proof -
  let ?r = "\<lparr> rq_op = ''control_heartbeat'', rq_id = None, rq_fields = Map.empty \<rparr> :: request"
  let ?s = "fst (connect 2 ''a'' False (new_web_server sample_guard))"
  obtain l d where h: "lease_heartbeat (\<lambda>n. fzero) (ws_lease ?s) ''a'' = (l, d)" by fastforce
  let ?p = "lease_ack ?r d"
  have p: "pl_op ?p = ''ack''" "pl_fields ?p ''control_owner'' \<noteq> None" "\<not> replaceable ?p"
    by (simp_all add: lease_ack_def ack_def lease_fields_def map_add_def replaceable_def replaceable_ops_def Let_def)
  have c: "ws_clients ?s = [(''a'', \<lparr> wc_outbox = \<lparr> ob_capacity = 2, ob_items = [] \<rparr>, wc_live = False \<rparr>)]"
    by (simp add: connect_def new_web_server_def new_outbox_def)
  have m: "fst (handle_message (\<lambda>n. fzero) ''a'' (JObj [(''op'', JStr ''control_heartbeat'')]) ?s) =
      ?s \<lparr> ws_lease := l, ws_clients := [(''a'', \<lparr> wc_outbox = \<lparr> ob_capacity = 2, ob_items = [?p] \<rparr>, wc_live = False \<rparr>)] \<rparr>"
    using c h p(3) by (simp add: handle_message_def heartbeat_accepted post_closing_def post_def set_outbox_def outbox_put_def outbox_append_def)
  show ?thesis using p m
    by (intro exI [of _ "safe_payload ?p"]) (simp add: case_prod_unfold Let_def send_next_def outbox_get_def safe_payload_def [of ?p])
qed

lemma no_control_without_claim_witness:
  "\<exists>p :: payload. pl_op p = ''ack'' \<and> pl_fields p ''control_owner'' = Some (JBool False)"
proof -
  obtain p where p: "Delivered ''a'' p \<in> set (snd (run (web_step (\<lambda>n. fzero) 2) (new_web_server sample_guard)
     [Connected ''a'' False, Incoming ''a'' (JObj [(''op'', JStr ''control_heartbeat'')]), WriterTurn ''a'']))"
     "pl_op p = ''ack''" "pl_fields p ''control_owner'' \<noteq> None"
    using heartbeat_answered by blast
  have "pl_fields p ''control_owner'' \<in> {None, Some (JBool False)}"
    using no_control_without_claim [OF _ p(1)] by (simp add: claims_control_def gateway_silent_def gateway_payloads_def heartbeat_accepted)
  then show ?thesis using p(2,3) by blast
qed

lemma state_reply_overwritten_witness:
  "\<exists>(t :: web_server) w. ws_clients t = [(''a'', w)] \<and> list_all (\<lambda>x. pl_fields x ''client_req_id'' = None) (ob_items (wc_outbox w))"
proof -
  obtain t os where r: "run (web_step (\<lambda>n. fzero) 2) (web_of []) [Answered ''a'' state_request (Inr [state_payload (Some ''7'')]),
      StateRead (state_payload None)] = (t, os)" by fastforce
  have "os = [] \<and> (\<exists>w. ws_clients t = [(''a'', w)] \<and> map pl_op (ob_items (wc_outbox w)) = [''state'', ''nav_telemetry''] \<and>
    list_all (\<lambda>x. pl_fields x ''client_req_id'' = None) (ob_items (wc_outbox w)))"
    by (rule state_reply_overwritten [OF _ _ _ _ _ _ r]) (simp_all add: web_of_def state_payload_def state_request_def with_optional_def)
  then show ?thesis by blast
qed

end
