(* ===== verification/Gateway_Telemetry.thy ===== *)
theory Gateway_Telemetry
  imports Web_Server Route_Preparation "HOL-Library.List_Lexorder" "HOL-Library.Char_ord"
begin

section \<open>Telemetry of the Cockpit gateway\<close>

text \<open>
  \<open>salus_web/compact_telemetry.py\<close> and the subscriptions of \<open>ros_gateway.py\<close>: the cache of the last messages, the payloads made
  from it, the projection of the RTK status, and the policy that sends changes of the operating state at once and everything
  else at a bounded rate. A message is the dictionary its fields convert to. The values at the watched paths are texts,
  integers and Booleans of a fixed type, so comparing them is equality. The readings of
  the monotonic clock in one callback are one value, an argument.
\<close>

subsection \<open>Transitions\<close>

definition transition_paths :: "string list list" where
  "transition_paths = [[''manual_enabled''], [''goal_active''], [''mode''], [''collision_stop_active''],
     [''nav_result_event_id''], [''nav_result_status''], [''nav_result_text''],
     [''failure_code''], [''failure_component''], [''route_mission'', ''state''],
     [''route_mission'', ''mission_id''], [''route_mission'', ''result''], [''patrol_mission'', ''phase''],
     [''patrol_mission'', ''mission_id''], [''patrol_mission'', ''result''], [''active_action''],
     [''navigation_profile''], [''home_phase''], [''return_home_cause''],
     [''battery_return_home_recommended''], [''drive_telemetry'', ''estop''],
     [''drive_telemetry'', ''drive_enabled'']]"

fun lookup_in :: "jval \<Rightarrow> string list \<Rightarrow> jval" where
  "lookup_in v [] = v"
| "lookup_in v (k # ks) = (case v of JObj kvs \<Rightarrow> lookup_in (get_key (map_of kvs) k JNull) ks | _ \<Rightarrow> JNull)"

definition lookup_path :: "jobject \<Rightarrow> string list \<Rightarrow> jval" where
  "lookup_path cache path = (case path of [] \<Rightarrow> JNull | k # ks \<Rightarrow> lookup_in (get_key cache k JNull) ks)"

fun freeze :: "jval \<Rightarrow> jval" where
  "freeze (JObj kvs) = JObj (sort_key fst (map (\<lambda>(k, v). (k, freeze v)) kvs))"
| "freeze (JList vs) = JList (map freeze vs)"
| "freeze v = v"

definition transition_signature :: "jobject \<Rightarrow> jval list" where
  "transition_signature cache = map (\<lambda>p. freeze (lookup_path cache p)) transition_paths"

subsection \<open>The policy\<close>

record compact_policy =
  cp_max_hz :: pyfloat
  cp_last :: "pyfloat option"
  cp_signature :: "jval list option"
  cp_dirty :: bool

definition normalize_telemetry_profile :: "json_lib \<Rightarrow> jval \<Rightarrow> string option" where
  "normalize_telemetry_profile J v = (let p = py_lower (py_strip (py_str J v)) in if p \<in> {''compact'', ''full''} then Some p else None)"

definition new_compact_policy :: "pyfloat \<Rightarrow> compact_policy option" where
  "new_compact_policy hz = (if fle hz fzero then None else Some \<lparr> cp_max_hz = hz, cp_last = None, cp_signature = None, cp_dirty = False \<rparr>)"

definition mark_emitted :: "pyfloat \<Rightarrow> compact_policy \<Rightarrow> compact_policy" where
  "mark_emitted now c = c \<lparr> cp_last := Some now, cp_dirty := False \<rparr>"

definition observe_cache :: "pyfloat \<Rightarrow> jobject \<Rightarrow> compact_policy \<Rightarrow> compact_policy \<times> bool" where
  "observe_cache now cache c =
     (let sig = transition_signature cache; immediate = (cp_signature c \<noteq> Some sig);
          c1 = c \<lparr> cp_signature := Some sig, cp_dirty := True \<rparr>
      in (if immediate then mark_emitted now c1 else c1, immediate))"

text \<open>\<open>None\<close>: the division by the rate raises.\<close>

definition telemetry_due :: "pyfloat \<Rightarrow> compact_policy \<Rightarrow> bool option" where
  "telemetry_due now c =
     (if \<not> cp_dirty c then Some False
      else case cp_last c of None \<Rightarrow> Some True
      | Some t \<Rightarrow> map_option (\<lambda>period. fle period (fsub now t)) (fdiv (Fin 1) (cp_max_hz c)))"

subsection \<open>The RTK status\<close>

record rtk_message =
  rt_fix_quality :: int
  rt_acquisition :: int
  rt_backend :: int
  rt_delivery :: int
  rt_fix_type :: int
  rt_satellites :: int
  rt_fresh :: bool
  rt_age :: pyfloat
  rt_received :: int
  rt_crc_errors :: int
  rt_source :: string
  rt_detail :: string

definition enum_label :: "string list \<Rightarrow> int \<Rightarrow> string" where
  "enum_label labels n = (if 0 \<le> n \<and> nat n < length labels then labels ! nat n else ''unknown'')"

definition fix_quality_labels :: "string list" where
  "fix_quality_labels = [''unknown'', ''no_fix'', ''autonomous'', ''dgps'', ''rtk_float'', ''rtk_fixed'']"

definition acquisition_labels :: "string list" where
  "acquisition_labels = [''disabled'', ''disconnected'', ''connected_no_data'', ''receiving'', ''stale'', ''error'']"

definition backend_labels :: "string list" where
  "backend_labels = [''disabled'', ''pixhawk_mavros'', ''direct_usb'']"

definition delivery_labels :: "string list" where
  "delivery_labels = [''disabled'', ''idle'', ''delivering'', ''stale'', ''error'']"

definition capability_labels :: "string list" where
  "capability_labels = [''unknown'', ''not_installed'', ''disabled_by_profile'', ''unavailable'', ''invalid'', ''stale'', ''failed'',
     ''enabled_by_profile'', ''ready'']"

definition finite_or_none :: "pyfloat \<Rightarrow> pyfloat option" where
  "finite_or_none x = (if isfinite x then Some x else None)"

definition opt_number :: "pyfloat option \<Rightarrow> jval" where
  "opt_number x = (case x of None \<Rightarrow> JNull | Some y \<Rightarrow> JFloat y)"

definition correction_age :: "rtk_message \<Rightarrow> pyfloat option" where
  "correction_age m = (case finite_or_none (rt_age m) of None \<Rightarrow> None | Some a \<Rightarrow> if flt a fzero then None else Some a)"

definition gnss_rtk_status_payload :: "rtk_message \<Rightarrow> (string \<times> jval) list" where
  "gnss_rtk_status_payload m =
     [(''available'', JBool True), (''source'', JStr ''gnss_rtk_status''),
      (''fix_quality'', JStr (enum_label fix_quality_labels (rt_fix_quality m))),
      (''acquisition_state'', JStr (enum_label acquisition_labels (rt_acquisition m))),
      (''delivery_backend'', JStr (enum_label backend_labels (rt_backend m))),
      (''delivery_state'', JStr (enum_label delivery_labels (rt_delivery m))),
      (''receiver_fix_type'', JInt (rt_fix_type m)),
      (''satellites_visible'', if rt_satellites m = 255 then JNull else JInt (rt_satellites m)),
      (''corrections_fresh'', JBool (rt_fresh m)), (''correction_age_s'', opt_number (correction_age m)),
      (''received_count'', JInt (rt_received m)), (''crc_error_count'', JInt (rt_crc_errors m)),
      (''source_id'', JStr (rt_source m)), (''status_detail'', JStr (rt_detail m))]"

definition safe_rtk_source_text :: "jval \<Rightarrow> string option" where
  "safe_rtk_source_text v =
     (case v of
        JStr s \<Rightarrow> (let t = py_strip s in
          if t = [] \<or> list_ex (\<lambda>c. let n = (of_char c :: nat) in n < 32 \<or> n = 127) t then None else Some t)
      | _ \<Rightarrow> None)"

text \<open>The catalogue: the decoded file, or \<open>None\<close> where it cannot be read or decoded.\<close>

type_synonym rtk_catalog = "(string \<times> string) list \<times> string"

fun catalog_sources :: "jval list \<Rightarrow> string set \<Rightarrow> (string \<times> string) list option" where
  "catalog_sources [] seen = Some []"
| "catalog_sources (v # vs) seen =
     (case v of
        JObj kvs \<Rightarrow>
          (case safe_rtk_source_text (get_key (map_of kvs) ''id'' JNull) of
             None \<Rightarrow> None
           | Some i \<Rightarrow>
               (let label = (case safe_rtk_source_text (get_key (map_of kvs) ''label'' JNull) of None \<Rightarrow> i | Some l \<Rightarrow> l)
                in if i \<in> seen then None else map_option ((#) (i, label)) (catalog_sources vs (insert i seen))))
      | _ \<Rightarrow> None)"

definition load_rtk_source_catalog :: "string \<Rightarrow> jval option \<Rightarrow> rtk_catalog" where
  "load_rtk_source_catalog path document =
     (if py_strip path = [] then ([], [])
      else case document of None \<Rightarrow> ([], [])
      | Some d \<Rightarrow>
          (case (if truthy d then d else JObj []) of
             JObj kvs \<Rightarrow>
               (case map_of kvs ''sources'' of
                  Some (JList vs) \<Rightarrow>
                    (case catalog_sources vs {} of None \<Rightarrow> ([], [])
                     | Some sources \<Rightarrow>
                         (case safe_rtk_source_text (get_key (map_of kvs) ''active_source_id'' JNull) of
                            None \<Rightarrow> (sources, [])
                          | Some a \<Rightarrow> if a \<in> fst ` set sources then (sources, a) else ([], [])))
                | _ \<Rightarrow> ([], []))
           | _ \<Rightarrow> ([], [])))"

definition source_label :: "(string \<times> string) list \<Rightarrow> string \<Rightarrow> string" where
  "source_label sources i = (case map_of (rev sources) i of None \<Rightarrow> i | Some l \<Rightarrow> l)"

definition receiving_rtcm :: "rtk_message \<Rightarrow> pyfloat \<Rightarrow> bool" where
  "receiving_rtcm m timeout \<longleftrightarrow>
     enum_label acquisition_labels (rt_acquisition m) = ''receiving'' \<and> rt_fresh m \<and>
     (case correction_age m of None \<Rightarrow> False | Some a \<Rightarrow> fle a timeout)"

definition rtk_source_state_payload :: "rtk_message \<Rightarrow> rtk_catalog \<Rightarrow> nat \<Rightarrow> pyfloat \<Rightarrow> (string \<times> jval) list" where
  "rtk_source_state_payload m cat sequence timeout =
     (let active = (case safe_rtk_source_text (JStr (rt_source m)) of None \<Rightarrow> snd cat | Some i \<Rightarrow> i);
          acq = enum_label acquisition_labels (rt_acquisition m)
      in [(''active_source_id'', JStr active), (''active_source_label'', JStr (source_label (fst cat) active)),
          (''connected'', JBool (acq \<in> {''connected_no_data'', ''receiving''})), (''receiving_rtcm'', JBool (receiving_rtcm m timeout)),
          (''rtcm_age_s'', opt_number (correction_age m)), (''rtcm_stale_timeout_s'', JFloat timeout),
          (''last_error'', JStr (if acq = ''error'' then rt_detail m else [])), (''status_sequence'', JInt (int sequence))])"

text \<open>The state shown before the first status, when the catalogue names an active source.\<close>

definition initial_source_state :: "rtk_catalog \<Rightarrow> pyfloat \<Rightarrow> (string \<times> jval) list" where
  "initial_source_state cat timeout =
     [(''active_source_id'', JStr (snd cat)),
      (''active_source_label'', JStr (case map_of (fst cat) (snd cat) of None \<Rightarrow> snd cat | Some l \<Rightarrow> l)),
      (''connected'', JBool False), (''receiving_rtcm'', JBool False), (''rtcm_age_s'', JNull), (''rtcm_stale_timeout_s'', JFloat timeout),
      (''last_error'', JStr []), (''status_sequence'', JInt 0)]"

definition sources_json :: "(string \<times> string) list \<Rightarrow> jval" where
  "sources_json sources = JList (map (\<lambda>(i, l). JObj [(''id'', JStr i), (''label'', JStr l)]) sources)"

subsection \<open>Poses and scans\<close>

definition quaternion_yaw_deg :: "trig \<Rightarrow> (pyfloat \<Rightarrow> pyfloat) \<Rightarrow> pyfloat \<times> pyfloat \<times> pyfloat \<times> pyfloat \<Rightarrow> pyfloat option" where
  "quaternion_yaw_deg T sqrt_f q =
     (case q of (x, y, z, w) \<Rightarrow>
        if \<not> list_all isfinite [x, y, z, w] then None
        else (let norm = sqrt_f (fadd (fadd (fadd (fmul x x) (fmul y y)) (fmul z z)) (fmul w w)) in
          if fle norm (fl (1 / 10 ^ 12)) then None
          else (case (fdiv x norm, fdiv y norm, fdiv z norm, fdiv w norm) of
              (Some qx, Some qy, Some qz, Some qw) \<Rightarrow>
                Some (degrees (tg_atan2 T (fmul (Fin 2) (fadd (fmul qw qz) (fmul qx qy)))
                  (fsub (Fin 1) (fmul (Fin 2) (fadd (fmul qy qy) (fmul qz qz))))))
            | _ \<Rightarrow> None)))"

record laser_message =
  lm_frame :: string
  lm_sec :: int
  lm_nanosec :: int
  lm_angle_min :: pyfloat
  lm_increment :: pyfloat
  lm_range_min :: pyfloat
  lm_range_max :: pyfloat
  lm_ranges :: "pyfloat list"

definition scan_preview_payload :: "laser_message \<Rightarrow> payload option" where
  "scan_preview_payload m =
     (if lm_frame m = [] \<or> lm_ranges m = [] \<or> \<not> list_all isfinite [lm_angle_min m, lm_increment m, lm_range_min m, lm_range_max m] \<or>
         fle (lm_increment m) fzero \<or> flt (lm_range_min m) fzero \<or> fle (lm_range_max m) (lm_range_min m)
      then None
      else Some \<lparr> pl_op = ''scan_preview'', pl_fields =
        [''frame_id'' \<mapsto> JStr (lm_frame m), ''stamp'' \<mapsto> JObj [(''sec'', JInt (lm_sec m)), (''nanosec'', JInt (lm_nanosec m))],
         ''angle_min'' \<mapsto> JFloat (lm_angle_min m), ''angle_increment'' \<mapsto> JFloat (lm_increment m),
         ''range_min'' \<mapsto> JFloat (lm_range_min m), ''range_max'' \<mapsto> JFloat (lm_range_max m), ''ranges'' \<mapsto> JList (map JFloat (lm_ranges m)),
         ''valid_count'' \<mapsto> JInt (int (length (filter (\<lambda>x. isfinite x \<and> fle (lm_range_min m) x \<and> fle x (lm_range_max m)) (lm_ranges m))))] \<rparr>)"

subsection \<open>The gateway\<close>

record telemetry_config =
  tm_full :: bool
  tm_catalog :: rtk_catalog
  tm_stale_timeout :: pyfloat
  tm_trig :: trig
  tm_sqrt :: "pyfloat \<Rightarrow> pyfloat"

record gateway_cache =
  gc_cache :: jobject
  gc_typed :: bool
  gc_sequence :: nat
  gc_policy :: compact_policy
  gc_attached :: bool

definition new_gateway_cache :: "telemetry_config \<Rightarrow> compact_policy \<Rightarrow> gateway_cache" where
  "new_gateway_cache T c =
     (let base = [''connected'' \<mapsto> JBool True, ''mode'' \<mapsto> JStr ''connected'', ''rtk_sources'' \<mapsto> sources_json (fst (tm_catalog T))]
      in \<lparr> gc_cache = (if snd (tm_catalog T) = [] then base
             else base(''rtk_source_state'' \<mapsto> JObj (initial_source_state (tm_catalog T) (tm_stale_timeout T)))),
           gc_typed = False, gc_sequence = 0, gc_policy = c, gc_attached = False \<rparr>)"

definition emit_payload :: "gateway_cache \<Rightarrow> payload \<Rightarrow> payload list" where
  "emit_payload s p = (if gc_attached s then [p] else [])"

definition cached_payload :: "string \<Rightarrow> gateway_cache \<Rightarrow> payload" where
  "cached_payload op s = \<lparr> pl_op = op, pl_fields = gc_cache s \<rparr>"

definition cached_telemetry_change :: "telemetry_config \<Rightarrow> pyfloat \<Rightarrow> gateway_cache \<Rightarrow> gateway_cache \<times> payload list" where
  "cached_telemetry_change T now s =
     (if tm_full T then (s, emit_payload s (cached_payload ''nav_telemetry'' s))
      else (let (c, immediate) = observe_cache now (gc_cache s) (gc_policy s)
        in (s \<lparr> gc_policy := c \<rparr>, if immediate then emit_payload s (cached_payload ''nav_telemetry'' s) else [])))"

text \<open>Change the cache; then the full profile sends a payload of its own, and the compact one lets the policy decide.\<close>

definition cache_then :: "telemetry_config \<Rightarrow> pyfloat \<Rightarrow> jobject \<Rightarrow> payload option \<Rightarrow> gateway_cache \<Rightarrow> gateway_cache \<times> payload list" where
  "cache_then T now cache p s =
     (let s1 = s \<lparr> gc_cache := cache \<rparr> in
      case p of Some q \<Rightarrow> if tm_full T then (s1, emit_payload s1 q) else cached_telemetry_change T now s1
      | None \<Rightarrow> cached_telemetry_change T now s1)"

definition nav_mode :: "(string \<times> jval) list \<Rightarrow> string" where
  "nav_mode kvs =
     (if map_of kvs ''manual_enabled'' = Some (JBool True) then ''manual''
      else if map_of kvs ''goal_active'' = Some (JBool True) then ''navigating'' else ''idle'')"

definition project_capabilities :: "json_lib \<Rightarrow> jval list \<Rightarrow> (string \<times> jval) list" where
  "project_capabilities J vs =
     foldl (\<lambda>acc v. case v of
          JObj kvs \<Rightarrow>
            (let i = get_key (map_of kvs) ''capability_id'' JNull in
             if truthy i
             then AList.update (py_str J i) (JObj (AList.update ''state_label'' (JStr (enum_label capability_labels
                 (case get_key (map_of kvs) ''state'' JNull of JInt n \<Rightarrow> n | _ \<Rightarrow> - 1))) kvs)) acc
             else acc)
        | _ \<Rightarrow> acc) [] vs"

definition gps_pose :: "jobject \<Rightarrow> pyfloat \<Rightarrow> pyfloat \<Rightarrow> jval" where
  "gps_pose cache lat lon =
     JObj ([(''lat'', JFloat lat), (''lon'', JFloat lon)] @
       (case cache ''robot_pose'' of
          Some (JObj kvs) \<Rightarrow> (case map_of kvs ''heading_deg'' of Some (JFloat h) \<Rightarrow> if isfinite h then [(''heading_deg'', JFloat h)] else [] | _ \<Rightarrow> [])
        | _ \<Rightarrow> []))"

definition on_gnss_rtk_status :: "telemetry_config \<Rightarrow> pyfloat \<Rightarrow> rtk_message \<Rightarrow> gateway_cache \<Rightarrow> gateway_cache \<times> payload list" where
  "on_gnss_rtk_status T now m s =
     (let n = gc_sequence s + 1; status = JObj (gnss_rtk_status_payload m);
          source = JObj (rtk_source_state_payload m (tm_catalog T) n (tm_stale_timeout T))
      in cache_then T now ((gc_cache s)(''gps_status'' \<mapsto> status, ''rtk_source_state'' \<mapsto> source))
           (Some \<lparr> pl_op = ''gps_status'', pl_fields = [''gps_status'' \<mapsto> status, ''rtk_sources'' \<mapsto> sources_json (fst (tm_catalog T)),
              ''rtk_source_state'' \<mapsto> source] \<rparr>)
           (s \<lparr> gc_typed := True, gc_sequence := n \<rparr>))"

definition on_legacy_rtk :: "telemetry_config \<Rightarrow> pyfloat \<Rightarrow> string \<Rightarrow> gateway_cache \<Rightarrow> gateway_cache \<times> payload list" where
  "on_legacy_rtk T now raw s =
     (if gc_typed s then (s, [])
      else (let status = JObj [(''raw'', JStr raw), (''available'', JBool True), (''source'', JStr ''rtk_status'')]
        in cache_then T now ((gc_cache s)(''gps_status'' \<mapsto> status)) (Some \<lparr> pl_op = ''gps_status'', pl_fields = [''gps_status'' \<mapsto> status] \<rparr>) s))"

definition on_compact_timer :: "telemetry_config \<Rightarrow> pyfloat \<Rightarrow> gateway_cache \<Rightarrow> gateway_cache \<times> payload list" where
  "on_compact_timer T now s =
     (if tm_full T then (s, [])
      else if telemetry_due now (gc_policy s) = Some True
      then (s \<lparr> gc_policy := mark_emitted now (gc_policy s) \<rparr>, emit_payload s (cached_payload ''nav_telemetry'' s))
      else (s, []))"

datatype gateway_message =
    AttachCallback
  | NavMessage "(string \<times> jval) list"
  | NavEventMessage "(string \<times> jval) list"
  | CapabilityMessage string "jval list"
  | DriveMessage "(string \<times> jval) list"
  | BatteryGuardMessage string bool pyfloat pyfloat
  | BatteryMessage pyfloat pyfloat bool
  | FixMessage pyfloat pyfloat
  | HeadingMessage "pyfloat \<times> pyfloat \<times> pyfloat \<times> pyfloat"
  | LegacyRtkMessage string
  | RtkMessage rtk_message
  | ScanMessage laser_message
  | TelemetryTimer

fun on_gateway_message :: "json_lib \<Rightarrow> telemetry_config \<Rightarrow> gateway_cache \<Rightarrow> pyfloat \<times> gateway_message \<Rightarrow> gateway_cache \<times> payload list" where
  "on_gateway_message J T s (now, AttachCallback) = (s \<lparr> gc_attached := True \<rparr>, [])"
| "on_gateway_message J T s (now, NavMessage kvs) =
     cache_then T now ((gc_cache s ++ map_of kvs)(''mode'' \<mapsto> JStr (nav_mode kvs))) None s"
| "on_gateway_message J T s (now, NavEventMessage kvs) = (s, emit_payload s \<lparr> pl_op = ''nav_event'', pl_fields = map_of kvs \<rparr>)"
| "on_gateway_message J T s (now, CapabilityMessage profile vs) =
     cache_then T now ((gc_cache s)(''capability_profile'' \<mapsto> JStr profile, ''capabilities'' \<mapsto> JObj (project_capabilities J vs))) None s"
| "on_gateway_message J T s (now, DriveMessage kvs) =
     cache_then T now ((gc_cache s)(''drive_telemetry'' \<mapsto> JObj kvs)) (Some \<lparr> pl_op = ''drive_telemetry'', pl_fields = map_of kvs \<rparr>) s"
| "on_gateway_message J T s (now, BatteryGuardMessage state home recovered loaded) =
     cache_then T now ((gc_cache s)(''battery_mission_state'' \<mapsto> JStr state, ''battery_return_home_recommended'' \<mapsto> JBool home,
       ''battery_recovered_voltage_v'' \<mapsto> opt_number (finite_or_none recovered), ''battery_loaded_voltage_v'' \<mapsto> opt_number (finite_or_none loaded),
       ''battery_state'' \<mapsto> JStr state)) None s"
| "on_gateway_message J T s (now, BatteryMessage percentage voltage present) =
     (let cache = (gc_cache s)(''battery_pct'' \<mapsto> opt_number (map_option (\<lambda>p. fmul p (Fin 100)) (finite_or_none percentage)),
        ''battery_voltage_v'' \<mapsto> opt_number (finite_or_none voltage), ''battery_present'' \<mapsto> JBool present)
      in if tm_full T then (s \<lparr> gc_cache := cache \<rparr>, []) else cache_then T now cache None s)"
| "on_gateway_message J T s (now, FixMessage lat lon) =
     (if \<not> isfinite lat \<or> \<not> isfinite lon then (s, [])
      else (let pose = gps_pose (gc_cache s) lat lon
        in cache_then T now ((gc_cache s)(''robot_pose'' \<mapsto> pose)) (Some \<lparr> pl_op = ''robot_pose'', pl_fields = [''pose'' \<mapsto> pose] \<rparr>) s))"
| "on_gateway_message J T s (now, HeadingMessage q) =
     (case (quaternion_yaw_deg (tm_trig T) (tm_sqrt T) q, gc_cache s ''robot_pose'') of
        (Some h, Some (JObj kvs)) \<Rightarrow> cache_then T now ((gc_cache s)(''robot_pose'' \<mapsto> JObj (AList.update ''heading_deg'' (JFloat h) kvs))) None s
      | _ \<Rightarrow> (s, []))"
| "on_gateway_message J T s (now, LegacyRtkMessage raw) = on_legacy_rtk T now raw s"
| "on_gateway_message J T s (now, RtkMessage m) = on_gnss_rtk_status T now m s"
| "on_gateway_message J T s (now, ScanMessage m) = (s, case scan_preview_payload m of None \<Rightarrow> [] | Some p \<Rightarrow> emit_payload s p)"
| "on_gateway_message J T s (now, TelemetryTimer) = on_compact_timer T now s"

subsection \<open>What the Cockpit sees\<close>

abbreviation nav_payloads :: "payload list \<Rightarrow> payload list" where
  "nav_payloads ps \<equiv> filter (\<lambda>p. pl_op p = ''nav_telemetry'') ps"

definition shown :: "gateway_cache \<Rightarrow> payload list \<Rightarrow> bool" where
  "shown s out \<longleftrightarrow> gc_attached s \<and>
     (cp_signature (gc_policy s) = None \<and> \<not> cp_dirty (gc_policy s) \<and> nav_payloads out = [] \<or>
      cp_signature (gc_policy s) = Some (transition_signature (gc_cache s)) \<and> nav_payloads out \<noteq> [] \<and>
      transition_signature (pl_fields (last (nav_payloads out))) = transition_signature (gc_cache s))"

definition extends :: "gateway_cache \<Rightarrow> gateway_cache \<times> payload list \<Rightarrow> bool" where
  "extends s r \<longleftrightarrow> (\<forall>out. shown s out \<longrightarrow> shown (fst r) (out @ snd r))"

lemma extends_other: "gc_policy t = gc_policy s \<Longrightarrow> gc_cache t = gc_cache s \<Longrightarrow> gc_attached t = gc_attached s \<Longrightarrow> nav_payloads ps = [] \<Longrightarrow> extends s (t, ps)"
  by (simp add: extends_def shown_def)

lemma extends_attach: "extends s (s \<lparr> gc_attached := True \<rparr>, [])"
  by (simp add: extends_def shown_def)

lemma change_shown:
  assumes "\<not> tm_full T" "gc_attached t"
    "cp_signature (gc_policy t) = None \<and> nav_payloads out = [] \<or>
     (\<exists>sig. cp_signature (gc_policy t) = Some sig \<and> nav_payloads out \<noteq> [] \<and> transition_signature (pl_fields (last (nav_payloads out))) = sig)"
  shows "shown (fst (cached_telemetry_change T now t)) (out @ snd (cached_telemetry_change T now t))"
  using assms by (auto simp: cached_telemetry_change_def observe_cache_def mark_emitted_def shown_def emit_payload_def cached_payload_def Let_def)

lemma extends_cache: "\<not> tm_full T \<Longrightarrow> gc_policy t = gc_policy s \<Longrightarrow> gc_attached t = gc_attached s \<Longrightarrow> extends s (cache_then T now cache p t)"
proof -
  assume a: "\<not> tm_full T" "gc_policy t = gc_policy s" "gc_attached t = gc_attached s"
  then have c: "cache_then T now cache p t = cached_telemetry_change T now (t \<lparr> gc_cache := cache \<rparr>)"
    by (simp add: cache_then_def Let_def split: option.splits)
  show ?thesis unfolding extends_def c
  proof (intro allI impI)
    fix out assume "shown s out"
    then show "shown (fst (cached_telemetry_change T now (t \<lparr> gc_cache := cache \<rparr>))) (out @ snd (cached_telemetry_change T now (t \<lparr> gc_cache := cache \<rparr>)))"
      using a by (intro change_shown) (auto simp: shown_def)
  qed
qed

lemma extends_timer: "extends s (on_compact_timer T now s)"
  by (auto simp: extends_def on_compact_timer_def shown_def mark_emitted_def emit_payload_def cached_payload_def telemetry_due_def split: option.splits)

lemma nav_emit: "pl_op p \<noteq> ''nav_telemetry'' \<Longrightarrow> nav_payloads (emit_payload s p) = []"
  by (simp add: emit_payload_def)

lemma extends_message:
  assumes "\<not> tm_full T"
  shows "extends s (on_gateway_message J T s (now, e))"
proof (cases e)
  case AttachCallback
  then show ?thesis by (simp add: extends_attach)
next
  case (NavEventMessage kvs)
  then show ?thesis using nav_emit [of "\<lparr> pl_op = ''nav_event'', pl_fields = map_of kvs \<rparr>" s] by (simp add: extends_other)
next
  case (ScanMessage m)
  have "pl_op p = ''scan_preview''" if "scan_preview_payload m = Some p" for p
    using that by (auto simp: scan_preview_payload_def split: if_splits)
  then show ?thesis using ScanMessage by (auto intro!: extends_other nav_emit split: option.splits)
next
  case (HeadingMessage q)
  then show ?thesis using assms by (auto intro!: extends_other extends_cache split: option.splits jval.splits)
next
  case TelemetryTimer
  then show ?thesis by (simp add: extends_timer)
qed (use assms in \<open>auto intro!: extends_other extends_cache simp: on_legacy_rtk_def on_gnss_rtk_status_def Let_def\<close>)

lemma run_shown: "\<not> tm_full T \<Longrightarrow> shown s out \<Longrightarrow> shown (fst (run (on_gateway_message J T) s es)) (out @ snd (run (on_gateway_message J T) s es))"
proof (induction es arbitrary: s out)
  case (Cons e es)
  have "shown (fst (on_gateway_message J T s e)) (out @ snd (on_gateway_message J T s e))"
    using extends_message [OF Cons.prems(1), of s J "fst e" "snd e"] Cons.prems(2) by (simp add: extends_def)
  from Cons.IH [OF Cons.prems(1) this] show ?case by (simp add: run_Cons del: run.simps(2))
qed simp

text \<open>C14. In the compact profile the Cockpit is never behind on the operating state: after any messages and timer ticks, the last
telemetry that was sent has the same values at all watched paths as the cache, or nothing has been cached since the start.\<close>

theorem telemetry_shows_state:
  assumes "\<not> tm_full T" "new_compact_policy hz = Some c"
    "run (on_gateway_message J T) (new_gateway_cache T c \<lparr> gc_attached := True \<rparr>) es = (s, out)"
  shows "nav_payloads out = [] \<and> cp_signature (gc_policy s) = None \<or>
    nav_payloads out \<noteq> [] \<and> transition_signature (pl_fields (last (nav_payloads out))) = transition_signature (gc_cache s)"
proof -
  have "shown (new_gateway_cache T c \<lparr> gc_attached := True \<rparr>) []"
    using assms(2) by (auto simp: shown_def new_gateway_cache_def new_compact_policy_def Let_def split: if_splits)
  from run_shown [OF assms(1) this, of J es] show ?thesis using assms(3) by (auto simp: shown_def)
qed

subsection \<open>The authority of the typed status\<close>

definition rtk_of :: "pyfloat \<times> gateway_message \<Rightarrow> rtk_message list" where
  "rtk_of e = (case snd e of RtkMessage m \<Rightarrow> [m] | _ \<Rightarrow> [])"

text \<open>Navigation telemetry has no field of the RTK status.\<close>

definition plain_nav :: "pyfloat \<times> gateway_message \<Rightarrow> bool" where
  "plain_nav e = (case snd e of NavMessage kvs \<Rightarrow> map_of kvs ''gps_status'' = None \<and> map_of kvs ''rtk_source_state'' = None | _ \<Rightarrow> True)"

definition rtk_shown :: "telemetry_config \<Rightarrow> rtk_message list \<Rightarrow> gateway_cache \<Rightarrow> bool" where
  "rtk_shown T ms s \<longleftrightarrow> gc_sequence s = length ms \<and> (gc_typed s \<longleftrightarrow> ms \<noteq> []) \<and>
     (ms \<noteq> [] \<longrightarrow> gc_cache s ''gps_status'' = Some (JObj (gnss_rtk_status_payload (last ms))) \<and>
        gc_cache s ''rtk_source_state'' = Some (JObj (rtk_source_state_payload (last ms) (tm_catalog T) (length ms) (tm_stale_timeout T))))"

lemma cache_then_state:
  "gc_cache (fst (cache_then T now cache p s)) = cache" "gc_typed (fst (cache_then T now cache p s)) = gc_typed s"
  "gc_sequence (fst (cache_then T now cache p s)) = gc_sequence s"
  by (auto simp: cache_then_def cached_telemetry_change_def Let_def split: option.splits prod.splits)

lemma rtk_step:
  assumes "rtk_shown T ms s" "plain_nav e"
  shows "rtk_shown T (ms @ rtk_of e) (fst (on_gateway_message J T s e))"
proof (cases e)
  case (Pair now v)
  then show ?thesis
  proof (cases v)
    case (HeadingMessage q)
    then show ?thesis using Pair assms
      by (auto simp: rtk_shown_def rtk_of_def cache_then_state split: option.splits jval.splits)
  next
    case TelemetryTimer
    then show ?thesis using Pair assms by (auto simp: rtk_shown_def rtk_of_def on_compact_timer_def)
  next
    case (BatteryMessage a b d)
    then show ?thesis using Pair assms by (auto simp: rtk_shown_def rtk_of_def cache_then_state Let_def)
  next
    case (NavMessage kvs)
    then show ?thesis using Pair assms by (auto simp: rtk_shown_def rtk_of_def plain_nav_def cache_then_state map_add_def)
  qed (use assms in \<open>auto simp: rtk_shown_def rtk_of_def cache_then_state on_gnss_rtk_status_def on_legacy_rtk_def Let_def\<close>)
qed

text \<open>Once a typed status has arrived it stays the authority: whatever legacy texts and other messages follow, the cached status
is the projection of the last typed one, numbered by how many have come; and corrections are shown as received only when that
status says that they are fresh and their age is within the limit.\<close>

lemma typed_rtk_is_authority:
  assumes "list_all plain_nav es" "ms = concat (map rtk_of es)" "ms \<noteq> []"
    "s = fst (run (on_gateway_message J T) (new_gateway_cache T c) es)"
  shows "gc_cache s ''gps_status'' = Some (JObj (gnss_rtk_status_payload (last ms))) \<and>
    gc_cache s ''rtk_source_state'' = Some (JObj (rtk_source_state_payload (last ms) (tm_catalog T) (length ms) (tm_stale_timeout T))) \<and>
    (receiving_rtcm (last ms) (tm_stale_timeout T) \<longrightarrow> rt_fresh (last ms) \<and> fle fzero (rt_age (last ms)) \<and> fle (rt_age (last ms)) (tm_stale_timeout T))"
proof -
  have "rtk_shown T (ns @ concat (map rtk_of fs)) (fst (run (on_gateway_message J T) t fs))" if "rtk_shown T ns t" "list_all plain_nav fs" for ns t fs
    using that
  proof (induction fs arbitrary: ns t)
    case (Cons f fs)
    then show ?case using Cons.IH [OF rtk_step [OF Cons.prems(1), of f J]] by (simp add: run_Cons del: run.simps(2))
  qed simp
  from this [of "[]" "new_gateway_cache T c" es] assms have "rtk_shown T ms s"
    by (auto simp: rtk_shown_def new_gateway_cache_def Let_def)
  moreover have "rt_fresh m \<and> fle fzero (rt_age m) \<and> fle (rt_age m) x" if "receiving_rtcm m x" for m x
    using that by (cases "rt_age m") (auto simp: receiving_rtcm_def correction_age_def finite_or_none_def fle_def split: if_splits)
  ultimately show ?thesis using assms(3) by (simp add: rtk_shown_def)
qed

subsection \<open>Examples\<close>

definition plain_telemetry :: telemetry_config where
  "plain_telemetry = \<lparr> tm_full = False, tm_catalog = ([], []), tm_stale_timeout = Fin 10,
     tm_trig = \<lparr> tg_atan2 = (\<lambda>_ _. fzero), tg_cos = (\<lambda>_. Fin 1), tg_sin = (\<lambda>_. fzero), tg_hypot = (\<lambda>_ _. fzero) \<rparr>, tm_sqrt = (\<lambda>x. x) \<rparr>"

definition rtk_fixed_message :: rtk_message where
  "rtk_fixed_message = \<lparr> rt_fix_quality = 5, rt_acquisition = 3, rt_backend = 1, rt_delivery = 2, rt_fix_type = 6, rt_satellites = 20,
     rt_fresh = True, rt_age = Fin 1, rt_received = 1, rt_crc_errors = 0, rt_source = ''base'', rt_detail = [] \<rparr>"

lemma telemetry_shows_state_witness:
  "\<forall>J. \<exists>c s out. run (on_gateway_message J plain_telemetry) (new_gateway_cache plain_telemetry c \<lparr> gc_attached := True \<rparr>) [(Fin 1, DriveMessage [(''estop'', JBool True)])] = (s, out) \<and>
     (nav_payloads out = [] \<and> cp_signature (gc_policy s) = None \<or>
      nav_payloads out \<noteq> [] \<and> transition_signature (pl_fields (last (nav_payloads out))) = transition_signature (gc_cache s))"
proof
  fix J
  obtain c where c: "new_compact_policy (Fin 2) = Some c" by (simp add: new_compact_policy_def fle_def)
  obtain s out where r: "run (on_gateway_message J plain_telemetry) (new_gateway_cache plain_telemetry c \<lparr> gc_attached := True \<rparr>)
      [(Fin 1, DriveMessage [(''estop'', JBool True)])] = (s, out)" by fastforce
  from telemetry_shows_state [OF _ c r] r show "\<exists>c s out. run (on_gateway_message J plain_telemetry) (new_gateway_cache plain_telemetry c \<lparr> gc_attached := True \<rparr>) [(Fin 1, DriveMessage [(''estop'', JBool True)])] = (s, out) \<and>
     (nav_payloads out = [] \<and> cp_signature (gc_policy s) = None \<or>
      nav_payloads out \<noteq> [] \<and> transition_signature (pl_fields (last (nav_payloads out))) = transition_signature (gc_cache s))" by (auto simp: plain_telemetry_def)
qed

lemma typed_rtk_is_authority_witness:
  "gc_cache (fst (run (on_gateway_message J plain_telemetry) (new_gateway_cache plain_telemetry c) [(Fin 1, RtkMessage rtk_fixed_message), (Fin 2, LegacyRtkMessage ''FLOAT'')]))
     ''gps_status'' = Some (JObj (gnss_rtk_status_payload rtk_fixed_message))"
  using typed_rtk_is_authority [of "[(Fin 1, RtkMessage rtk_fixed_message), (Fin 2, LegacyRtkMessage ''FLOAT'')]" "[rtk_fixed_message]", OF _ _ _ refl, of J plain_telemetry c]
  by (simp add: plain_nav_def rtk_of_def)

end
