(* ===== verification/Patrol_Machine.thy ===== *)
theory Patrol_Machine
  imports Route_Actions Route_Recovery
begin

section \<open>The patrol mission\<close>

text \<open>
  \<open>salus_navigation/patrol_domain.py\<close>: the structured patrol (depart from HOME, join the loop, patrol,
  leave the loop at an exit, return HOME), its validation and the battery return. The function \<open>hypot\<close>
  and the JSON library are parameters.
\<close>

datatype patrol_phase =
    Idle | DepartHome | JoinLoop | Patrol | ExitLoop | ReturnHome | AtHome | PatrolPaused | PatrolAborted

datatype battery_disposition = HomeAlready | ReturnRequested | DeferredUntilLoop | AlreadyReturning | HeldInactive

record patrol_route =
  pr_waypoints :: "waypoint list"
  pr_actions :: "string list"

record patrol_spec =
  sp_home :: waypoint
  sp_loop :: patrol_route
  sp_depart :: patrol_route
  sp_returning :: patrol_route
  sp_entry :: int
  sp_leg_spacing :: pyfloat
  sp_chunk_span :: pyfloat
  sp_chunk_max :: int
  sp_version :: int

record return_exit =
  rx_index :: nat
  rx_waypoint :: waypoint
  rx_distance :: pyfloat

record patrol_state =
  pm_phase :: patrol_phase
  pm_mission :: string
  pm_exit :: "return_exit option"
  pm_reason :: string
  pm_low_battery :: bool
  pm_pause_reason :: string

record battery_transition =
  bt_disposition :: battery_disposition
  bt_previous :: patrol_phase
  bt_phase :: patrol_phase
  bt_cancel :: bool

definition public_phase :: "patrol_phase \<Rightarrow> string" where
  "public_phase p =
     (case p of Idle \<Rightarrow> ''idle'' | DepartHome \<Rightarrow> ''depart_home'' | JoinLoop \<Rightarrow> ''loop_main'' | Patrol \<Rightarrow> ''loop_main''
      | ExitLoop \<Rightarrow> ''return_pending'' | ReturnHome \<Rightarrow> ''return_connector'' | AtHome \<Rightarrow> ''parked_home''
      | PatrolPaused \<Rightarrow> ''paused'' | PatrolAborted \<Rightarrow> ''aborted'')"

definition patrol_active :: "patrol_state \<Rightarrow> bool" where
  "patrol_active s \<longleftrightarrow> pm_phase s \<in> {DepartHome, JoinLoop, Patrol, ExitLoop, ReturnHome}"

definition return_requested :: "patrol_state \<Rightarrow> bool" where
  "return_requested s \<longleftrightarrow> pm_phase s \<in> {ExitLoop, ReturnHome}"

definition return_active :: "patrol_state \<Rightarrow> bool" where
  "return_active s \<longleftrightarrow> pm_phase s = ReturnHome"

subsection \<open>Validation\<close>

datatype mission_error =
    EmptyRoute string
  | ActionsMismatch string
  | WaypointNotFinite string nat
  | ActionRefused string action_error
  | BadVersion
  | HomeNotFinite
  | LoopTooShort
  | EntryOutsideLoop
  | BadSpacing
  | BadChunkMax
  | MissionRaised py_exception

definition finite_waypoint :: "waypoint \<Rightarrow> bool" where
  "finite_waypoint p \<longleftrightarrow> isfinite (wp_lat p) \<and> isfinite (wp_lon p)"

text \<open>The loop over the waypoints, each with its action; \<open>None\<close> is the empty message.\<close>

fun waypoints_error :: "json_lib \<Rightarrow> string \<Rightarrow> nat \<Rightarrow> (waypoint \<times> string) list \<Rightarrow> mission_error option" where
  "waypoints_error J label i [] = None"
| "waypoints_error J label i ((p, action) # rest) =
     (if \<not> finite_waypoint p then Some (WaypointNotFinite label i)
      else case parse_actions J action (int i) of
        Inl e \<Rightarrow> Some (MissionRaised e)
      | Inr (Inl e) \<Rightarrow> Some (ActionRefused label e)
      | Inr (Inr r) \<Rightarrow> waypoints_error J label (Suc i) rest)"

definition route_error :: "json_lib \<Rightarrow> patrol_route \<Rightarrow> string \<Rightarrow> bool \<Rightarrow> mission_error option" where
  "route_error J r label required =
     (if required \<and> pr_waypoints r = [] then Some (EmptyRoute label)
      else if length (pr_waypoints r) \<noteq> length (pr_actions r) then Some (ActionsMismatch label)
      else waypoints_error J label 0 (zip (pr_waypoints r) (pr_actions r)))"

definition or_error :: "mission_error option \<Rightarrow> mission_error option \<Rightarrow> mission_error option" where
  "or_error a b = (case a of None \<Rightarrow> b | Some e \<Rightarrow> Some e)"

definition validate_mission :: "json_lib \<Rightarrow> patrol_spec \<Rightarrow> mission_error option" where
  "validate_mission J sp =
     (if sp_version sp \<noteq> 1 then Some BadVersion
      else if \<not> finite_waypoint (sp_home sp) then Some HomeNotFinite
      else
        or_error (route_error J (sp_loop sp) ''loop'' True) (
        or_error (route_error J (sp_depart sp) ''depart'' False) (
        or_error (route_error J (sp_returning sp) ''return'' False) (
          if length (pr_waypoints (sp_loop sp)) < 2 then Some LoopTooShort
          else if \<not> (0 \<le> sp_entry sp \<and> sp_entry sp < int (length (pr_waypoints (sp_loop sp)))) then Some EntryOutsideLoop
          else if \<not> list_all (\<lambda>v. isfinite v \<and> flt fzero v) [sp_leg_spacing sp, sp_chunk_span sp] then Some BadSpacing
          else if sp_chunk_max sp < 1 then Some BadChunkMax
          else None))))"

subsection \<open>The exit of the loop\<close>

definition patrol_distance :: "hypot \<Rightarrow> waypoint \<Rightarrow> waypoint \<Rightarrow> pyfloat" where
  "patrol_distance H p q =
     (case (wp_x p, wp_y p, wp_x q, wp_y q) of
        (Some x1, Some y1, Some x2, Some y2) \<Rightarrow> H (fsub x1 x2) (fsub y1 y2)
      | _ \<Rightarrow> H (fmul (fsub (wp_lat p) (wp_lat q)) (Fin 111320)) (fmul (fsub (wp_lon p) (wp_lon q)) (Fin 111320)))"

text \<open>\<open>min\<close> by the key \<open>(distance, index)\<close>, compared as Python compares tuples.\<close>

definition key_less :: "pyfloat \<times> nat \<Rightarrow> pyfloat \<times> nat \<Rightarrow> bool" where
  "key_less a b = (if feq (fst a) (fst b) then snd a < snd b else flt (fst a) (fst b))"

fun nearest_exit :: "(waypoint \<Rightarrow> pyfloat) \<Rightarrow> nat \<times> waypoint \<Rightarrow> nat \<Rightarrow> waypoint list \<Rightarrow> nat \<times> waypoint" where
  "nearest_exit f best i [] = best"
| "nearest_exit f best i (p # ps) =
     nearest_exit f (if key_less (f p, i) (f (snd best), fst best) then (i, p) else best) (Suc i) ps"

definition select_return_exit :: "hypot \<Rightarrow> waypoint list \<Rightarrow> waypoint \<Rightarrow> return_exit option" where
  "select_return_exit H points reference =
     (case points of [] \<Rightarrow> None
      | p # ps \<Rightarrow>
          (let (i, w) = nearest_exit (\<lambda>q. patrol_distance H q reference) (0, p) 1 ps
           in Some \<lparr> rx_index = i, rx_waypoint = w, rx_distance = patrol_distance H w reference \<rparr>))"

text \<open>\<open>None\<close> is the \<open>ValueError\<close> of a route whose actions do not match.\<close>

definition route_roles :: "patrol_phase \<Rightarrow> patrol_route \<Rightarrow> string list option" where
  "route_roles phase r =
     (if length (pr_waypoints r) \<noteq> length (pr_actions r) then None
      else
        (let roles = map2 (\<lambda>p a. if a \<noteq> [] \<or> wp_yaw_explicit p then ''hard'' else ''normal'') (pr_waypoints r) (pr_actions r)
         in Some (if roles \<noteq> [] \<and> phase \<in> {DepartHome, ReturnHome} then butlast roles @ [''hard''] else roles)))"

subsection \<open>The machine\<close>

definition new_patrol :: "string \<Rightarrow> patrol_state" where
  "new_patrol mission = \<lparr> pm_phase = Idle, pm_mission = mission, pm_exit = None, pm_reason = [], pm_low_battery = False, pm_pause_reason = [] \<rparr>"

definition patrol_machine :: "json_lib \<Rightarrow> patrol_spec \<Rightarrow> string \<Rightarrow> mission_error + patrol_state" where
  "patrol_machine J sp mission =
     (case validate_mission J sp of Some e \<Rightarrow> Inl e | None \<Rightarrow> Inr (new_patrol mission))"

text \<open>\<open>None\<close> is the \<open>ValueError\<close> of a mission that was started before.\<close>

definition patrol_start :: "patrol_spec \<Rightarrow> patrol_state \<Rightarrow> bool \<Rightarrow> bool \<Rightarrow> patrol_state option" where
  "patrol_start sp s at_home latched =
     (if pm_phase s \<noteq> Idle then None
      else
        (let s1 = s \<lparr> pm_low_battery := latched \<rparr> in
         if at_home \<and> latched then Some (s1 \<lparr> pm_phase := AtHome, pm_reason := ''battery_guard'' \<rparr>)
         else Some (s1 \<lparr> pm_phase := (if at_home \<and> pr_waypoints (sp_depart sp) \<noteq> [] then DepartHome else JoinLoop) \<rparr>)))"

text \<open>The route of the phase, whether it is a loop, and its first index; \<open>None\<close> is an exception.\<close>

definition current_route :: "patrol_spec \<Rightarrow> patrol_state \<Rightarrow> (patrol_route \<times> bool \<times> nat) option" where
  "current_route sp s =
     (let lp = sp_loop sp; n = length (pr_waypoints lp) in
      if pm_phase s = DepartHome then
        (if \<not> (- int n \<le> sp_entry sp \<and> sp_entry sp < int n) then None
         else Some (\<lparr> pr_waypoints = pr_waypoints (sp_depart sp) @ [pr_waypoints lp ! nat (sp_entry sp mod int n)],
                      pr_actions = pr_actions (sp_depart sp) @ [[]] \<rparr>, False, 0))
      else if pm_phase s \<in> {JoinLoop, Patrol, ExitLoop} then
        (if pm_phase s = JoinLoop \<and> n = 0 then None
         else
           (let start = (if pm_phase s = JoinLoop then nat ((sp_entry sp + 1) mod int n) else 0)
            in Some (\<lparr> pr_waypoints = drop start (pr_waypoints lp) @ take start (pr_waypoints lp),
                       pr_actions = drop start (pr_actions lp) @ take start (pr_actions lp) \<rparr>, True, start)))
      else if pm_phase s = ReturnHome then
        Some (\<lparr> pr_waypoints = pr_waypoints (sp_returning sp) @ [sp_home sp],
                pr_actions = pr_actions (sp_returning sp) @ [[]] \<rparr>, False, 0)
      else None)"

definition request_return :: "hypot \<Rightarrow> patrol_spec \<Rightarrow> string \<Rightarrow> patrol_state \<Rightarrow> patrol_state \<times> bool" where
  "request_return H sp reason s =
     (if pm_phase s \<noteq> Patrol then (s, False)
      else
        (let reference = (case pr_waypoints (sp_returning sp) of [] \<Rightarrow> sp_home sp | p # ps \<Rightarrow> p)
         in (s \<lparr> pm_exit := select_return_exit H (pr_waypoints (sp_loop sp)) reference, pm_reason := reason,
                 pm_phase := ExitLoop \<rparr>, True)))"

definition latch_battery :: "hypot \<Rightarrow> patrol_spec \<Rightarrow> bool \<Rightarrow> patrol_state \<Rightarrow> patrol_state \<times> battery_transition" where
  "latch_battery H sp at_home s =
     (let previous = pm_phase s;
          s1 = s \<lparr> pm_low_battery := True, pm_reason := ''battery_guard'' \<rparr>;
          (s2, disposition) =
            (if previous = AtHome then (s1, HomeAlready)
             else if previous = DepartHome \<and> at_home then (s1 \<lparr> pm_phase := AtHome \<rparr>, HomeAlready)
             else if previous = Patrol then (fst (request_return H sp ''battery_guard'' s1), ReturnRequested)
             else if previous \<in> {DepartHome, JoinLoop} then (s1, DeferredUntilLoop)
             else if previous \<in> {ExitLoop, ReturnHome} then (s1, AlreadyReturning)
             else (s1, HeldInactive))
      in (s2, \<lparr> bt_disposition = disposition, bt_previous = previous, bt_phase = pm_phase s2,
                bt_cancel = (previous = DepartHome \<and> pm_phase s2 = AtHome) \<rparr>))"

text \<open>\<open>None\<close> is the exception of an exit phase without an exit.\<close>

definition goal_succeeded :: "hypot \<Rightarrow> patrol_spec \<Rightarrow> int option \<Rightarrow> patrol_state \<Rightarrow> patrol_state option" where
  "goal_succeeded H sp reached s =
     (if pm_phase s = DepartHome then Some (s \<lparr> pm_phase := JoinLoop \<rparr>)
      else if pm_phase s = JoinLoop then
        (let s1 = s \<lparr> pm_phase := Patrol \<rparr>
         in Some (if pm_low_battery s1 then fst (request_return H sp ''battery_guard'' s1) else s1))
      else if pm_phase s = ExitLoop then
        (case pm_exit s of None \<Rightarrow> None
         | Some x \<Rightarrow> if reached \<noteq> Some (int (rx_index x)) then Some s else Some (s \<lparr> pm_phase := ReturnHome \<rparr>))
      else if pm_phase s = ReturnHome then Some (s \<lparr> pm_phase := AtHome \<rparr>)
      else Some s)"

definition patrol_pause :: "string \<Rightarrow> patrol_state \<Rightarrow> patrol_state" where
  "patrol_pause reason s =
     (if patrol_active s then s \<lparr> pm_phase := PatrolPaused, pm_pause_reason := reason \<rparr> else s)"

definition patrol_abort :: "string \<Rightarrow> patrol_state \<Rightarrow> patrol_state" where
  "patrol_abort reason s = s \<lparr> pm_phase := PatrolAborted, pm_pause_reason := reason \<rparr>"

text \<open>The calls on a mission, and the states they reach; a call that raises leaves the state as it is.\<close>

datatype patrol_event =
    Start bool bool
  | Reached "int option"
  | ReturnRequest string
  | BatteryReturn bool
  | PausePatrol string
  | AbortPatrol string

fun patrol_step :: "hypot \<Rightarrow> patrol_spec \<Rightarrow> patrol_state \<Rightarrow> patrol_event \<Rightarrow> patrol_state option" where
  "patrol_step H sp s (Start at_home latched) = patrol_start sp s at_home latched"
| "patrol_step H sp s (Reached index) = goal_succeeded H sp index s"
| "patrol_step H sp s (ReturnRequest reason) = Some (fst (request_return H sp reason s))"
| "patrol_step H sp s (BatteryReturn at_home) = Some (fst (latch_battery H sp at_home s))"
| "patrol_step H sp s (PausePatrol reason) = Some (patrol_pause reason s)"
| "patrol_step H sp s (AbortPatrol reason) = Some (patrol_abort reason s)"

inductive patrol_reach :: "json_lib \<Rightarrow> hypot \<Rightarrow> patrol_spec \<Rightarrow> patrol_state \<Rightarrow> bool" for J H sp where
  created: "patrol_machine J sp mission = Inr s \<Longrightarrow> patrol_reach J H sp s"
| stepped: "patrol_reach J H sp s \<Longrightarrow> patrol_step H sp s e = Some t \<Longrightarrow> patrol_reach J H sp t"

inductive_cases patrol_reachE: "patrol_reach J H sp s"

subsection \<open>The exit is the nearest loop point\<close>

lemma nearest_exit_mem:
  "nearest_exit f best i ps = (j, w) \<Longrightarrow> (j, w) = best \<or> (i \<le> j \<and> j < i + length ps \<and> w = ps ! (j - i))"
proof (induction ps arbitrary: best i)
  case (Cons p ps)
  define b where "b = (if key_less (f p, i) (f (snd best), fst best) then (i, p) else best)"
  have "(p # ps) ! (j - i) = ps ! (j - Suc i)" if "Suc i \<le> j" using that by (simp add: nth_Cons' Suc_diff_Suc)
  moreover have "nearest_exit f b (Suc i) ps = (j, w)" using Cons.prems by (simp add: b_def)
  note Cons.IH [OF this]
  ultimately show ?case by (auto simp: b_def split: if_splits)
qed simp

lemma nearest_exit_le:
  assumes "nearest_exit f best i ps = (j, w)" "f (snd best) \<noteq> NaN" "list_all (\<lambda>p. f p \<noteq> NaN) ps" "fst best < i"
  shows "fle (f w) (f (snd best)) \<and> list_all (\<lambda>p. fle (f w) (f p)) ps"
  using assms
proof (induction ps arbitrary: best i)
  case (Cons p ps)
  define b where "b = (if key_less (f p, i) (f (snd best), fst best) then (i, p) else best)"
  have "nearest_exit f b (Suc i) ps = (j, w)" "f (snd b) \<noteq> NaN" "fst b < Suc i" using Cons.prems by (auto simp: b_def)
  then have ih: "fle (f w) (f (snd b)) \<and> list_all (\<lambda>p. fle (f w) (f p)) ps" using Cons by simp
  have "fle (f (snd b)) (f p) \<and> fle (f (snd b)) (f (snd best))"
    using Cons.prems by (cases "f p"; cases "f (snd best)") (auto simp: b_def key_less_def fle_def)
  then show ?case using ih fle_trans by auto
qed simp

definition exit_ok :: "hypot \<Rightarrow> patrol_spec \<Rightarrow> return_exit \<Rightarrow> bool" where
  "exit_ok H sp x \<longleftrightarrow> rx_index x < length (pr_waypoints (sp_loop sp)) \<and>
     rx_waypoint x = pr_waypoints (sp_loop sp) ! rx_index x"

lemma select_exit:
  assumes "points \<noteq> []" obtains x where "select_return_exit H points reference = Some x"
    "rx_index x < length points" "rx_waypoint x = points ! rx_index x"
    "rx_distance x = patrol_distance H (rx_waypoint x) reference"
proof -
  obtain p ps where p: "points = p # ps" using assms by (cases points) auto
  obtain j w where j: "nearest_exit (\<lambda>q. patrol_distance H q reference) (0, p) 1 ps = (j, w)" by fastforce
  from nearest_exit_mem [OF j] have "j < length points" "w = points ! j" by (auto simp: p nth_Cons')
  moreover have "select_return_exit H points reference =
      Some \<lparr> rx_index = j, rx_waypoint = w, rx_distance = patrol_distance H w reference \<rparr>"
    using j by (simp add: p select_return_exit_def)
  ultimately show thesis using that by simp
qed

lemma select_exit_nearest:
  assumes "select_return_exit H points reference = Some x" "list_all (\<lambda>p. patrol_distance H p reference \<noteq> NaN) points"
  shows "list_all (\<lambda>p. fle (rx_distance x) (patrol_distance H p reference)) points"
proof -
  obtain p ps where p: "points = p # ps" using assms(1) by (cases points) (auto simp: select_return_exit_def)
  obtain j w where j: "nearest_exit (\<lambda>q. patrol_distance H q reference) (0, p) 1 ps = (j, w)" by fastforce
  show ?thesis using nearest_exit_le [OF j] assms j [simplified] by (auto simp: p select_return_exit_def)
qed

subsection \<open>The invariant of reachable missions\<close>

lemma valid_mission:
  assumes "validate_mission J sp = None"
  shows "2 \<le> length (pr_waypoints (sp_loop sp))" "0 \<le> sp_entry sp" "sp_entry sp < int (length (pr_waypoints (sp_loop sp)))"
    "length (pr_waypoints (sp_loop sp)) = length (pr_actions (sp_loop sp))"
    "length (pr_waypoints (sp_depart sp)) = length (pr_actions (sp_depart sp))"
    "length (pr_waypoints (sp_returning sp)) = length (pr_actions (sp_returning sp))"
  using assms by (auto simp: validate_mission_def or_error_def route_error_def split: if_splits option.splits)

text \<open>A mission with a latched low battery is never patrolling, and a mission on its way back has an exit.\<close>

definition patrol_inv :: "hypot \<Rightarrow> patrol_spec \<Rightarrow> patrol_state \<Rightarrow> bool" where
  "patrol_inv H sp s \<longleftrightarrow>
     (if pm_phase s \<in> {ExitLoop, ReturnHome} then (case pm_exit s of None \<Rightarrow> False | Some x \<Rightarrow> exit_ok H sp x) else True) \<and>
     (if pm_low_battery s then pm_phase s \<noteq> Patrol else True)"

lemmas patrol_defs = patrol_start_def goal_succeeded_def request_return_def latch_battery_def patrol_pause_def
  patrol_abort_def patrol_active_def Let_def

lemma request_inv:
  assumes "pr_waypoints (sp_loop sp) \<noteq> []" "pm_phase s = Patrol"
  shows "patrol_inv H sp (fst (request_return H sp reason s)) \<and> pm_phase (fst (request_return H sp reason s)) = ExitLoop"
proof -
  define reference where "reference = (case pr_waypoints (sp_returning sp) of [] \<Rightarrow> sp_home sp | p # ps \<Rightarrow> p)"
  obtain x where x: "select_return_exit H (pr_waypoints (sp_loop sp)) reference = Some x" "exit_ok H sp x"
    using select_exit [OF assms(1), of H reference] unfolding exit_ok_def by metis
  have "fst (request_return H sp reason s) = s \<lparr> pm_exit := Some x, pm_reason := reason, pm_phase := ExitLoop \<rparr>"
    using assms(2) x by (simp add: request_return_def flip: reference_def)
  then show ?thesis using x by (simp add: patrol_inv_def)
qed

lemma goal_inv:
  assumes "pr_waypoints (sp_loop sp) \<noteq> []" "patrol_inv H sp s" "goal_succeeded H sp r s = Some t"
  shows "patrol_inv H sp t"
proof (cases "pm_phase s = JoinLoop")
  case True
  then show ?thesis using assms request_inv [OF assms(1), of "s \<lparr> pm_phase := Patrol \<rparr>" H "''battery_guard''"]
    by (auto simp: goal_succeeded_def patrol_inv_def split: if_splits)
next
  case False
  then show ?thesis using assms by (auto simp: goal_succeeded_def patrol_inv_def split: if_splits option.splits)
qed

lemma latch_inv:
  assumes "pr_waypoints (sp_loop sp) \<noteq> []" "patrol_inv H sp s"
  shows "patrol_inv H sp (fst (latch_battery H sp h s))"
proof (cases "pm_phase s = Patrol")
  case True
  then show ?thesis
    using request_inv [OF assms(1), of "s \<lparr> pm_low_battery := True, pm_reason := ''battery_guard'' \<rparr>" H "''battery_guard''"]
    by (simp add: latch_battery_def Let_def)
next
  case False
  then show ?thesis using assms by (auto simp: latch_battery_def patrol_inv_def Let_def split: if_splits)
qed

lemma pause_inv: "patrol_inv H sp s \<Longrightarrow> patrol_inv H sp (patrol_pause reason s)"
  by (cases "patrol_active s") (simp_all add: patrol_pause_def patrol_inv_def)

lemma step_inv:
  assumes "pr_waypoints (sp_loop sp) \<noteq> []" "patrol_inv H sp s" "patrol_step H sp s e = Some t"
  shows "patrol_inv H sp t"
proof (cases e)
  case (ReturnRequest reason)
  then have t: "t = fst (request_return H sp reason s)" using assms by simp
  show ?thesis
  proof (cases "pm_phase s = Patrol")
    case False
    then show ?thesis using assms(2) t by (simp add: request_return_def)
  qed (use request_inv [OF assms(1)] t in simp)
next
  case (Start h l)
  then show ?thesis using assms by (auto simp: patrol_start_def patrol_inv_def Let_def split: if_splits)
next
  case (PausePatrol reason)
  then show ?thesis using assms pause_inv by auto
next
  case (AbortPatrol reason)
  then show ?thesis using assms by (auto simp: patrol_abort_def patrol_inv_def)
next
  case (BatteryReturn h)
  then show ?thesis using assms latch_inv [OF assms(1,2)] by auto
qed (use assms goal_inv in simp_all)

lemma reach_inv: "patrol_reach J H sp s \<Longrightarrow> patrol_inv H sp s \<and> validate_mission J sp = None"
proof (induction rule: patrol_reach.induct)
  case (created mission s)
  then show ?case by (auto simp: patrol_machine_def new_patrol_def patrol_inv_def split: option.splits)
next
  case (stepped s e t)
  then have "pr_waypoints (sp_loop sp) \<noteq> []" using valid_mission [of J sp] by auto
  then show ?case using stepped step_inv by blast
qed

lemma low_kept: "patrol_step H sp s e = Some t \<Longrightarrow> pm_low_battery s \<Longrightarrow> pm_phase s \<noteq> Idle \<Longrightarrow> pm_low_battery t"
  by (cases e) (auto simp: patrol_defs split: if_splits option.splits)

lemma not_idle: "patrol_step H sp s e = Some t \<Longrightarrow> pm_phase s \<noteq> Idle \<Longrightarrow> pm_phase t \<noteq> Idle"
  by (cases e) (auto simp: patrol_defs split: if_splits option.splits)

lemma roles_defined: "length (pr_waypoints r) = length (pr_actions r) \<Longrightarrow> route_roles p r \<noteq> None"
  by (simp add: route_roles_def Let_def)

subsection \<open>Reports of success\<close>

text \<open>Reports of the route executor, each at the chosen exit where there is one.\<close>

fun drive_home :: "hypot \<Rightarrow> patrol_spec \<Rightarrow> nat \<Rightarrow> patrol_state \<Rightarrow> patrol_state option" where
  "drive_home H sp 0 s = Some s"
| "drive_home H sp (Suc n) s =
     Option.bind (goal_succeeded H sp (map_option (\<lambda>x. int (rx_index x)) (pm_exit s)) s) (drive_home H sp n)"

lemma report_home: "pm_phase s = AtHome \<Longrightarrow> goal_succeeded H sp r s = Some s"
  by (simp add: goal_succeeded_def)

lemma report_return: "pm_phase s = ReturnHome \<Longrightarrow> goal_succeeded H sp r s = Some (s \<lparr> pm_phase := AtHome \<rparr>)"
  by (simp add: goal_succeeded_def)

lemma report_exit:
  "pm_phase s = ExitLoop \<Longrightarrow> pm_exit s = Some x \<Longrightarrow>
     goal_succeeded H sp (Some (int (rx_index x))) s = Some (s \<lparr> pm_phase := ReturnHome \<rparr>)"
  by (simp add: goal_succeeded_def)

lemma report_depart: "pm_phase s = DepartHome \<Longrightarrow> goal_succeeded H sp r s = Some (s \<lparr> pm_phase := JoinLoop \<rparr>)"
  by (simp add: goal_succeeded_def)

lemma drive_from_exit:
  "pm_phase s = ExitLoop \<Longrightarrow> patrol_inv H sp s \<Longrightarrow> drive_home H sp (Suc (Suc n)) s = Some (s \<lparr> pm_phase := AtHome \<rparr>)"
  by (cases "pm_exit s"; induction n) (auto simp: patrol_inv_def report_exit report_return report_home)

lemma drive_from_join:
  assumes "pr_waypoints (sp_loop sp) \<noteq> []" "pm_phase s = JoinLoop" "pm_low_battery s"
  shows "\<exists>t. drive_home H sp (Suc (Suc (Suc n))) s = Some t \<and> pm_phase t = AtHome \<and> pm_low_battery t"
proof -
  define u where "u = fst (request_return H sp ''battery_guard'' (s \<lparr> pm_phase := Patrol \<rparr>))"
  have "goal_succeeded H sp r s = Some u" for r using assms by (simp add: goal_succeeded_def u_def)
  moreover have "patrol_inv H sp u \<and> pm_phase u = ExitLoop" unfolding u_def by (rule request_inv) (simp_all add: assms)
  moreover have "pm_low_battery u" using assms by (simp add: u_def request_return_def Let_def)
  ultimately show ?thesis using drive_from_exit [of u H sp n] by (simp del: drive_home.simps(2) add: drive_home.simps(2) [of H sp "Suc (Suc n)"])
qed

subsection \<open>Properties\<close>

text \<open>
  A mission in progress is never stuck: in every reachable state, an active phase has an executable
  route that is not empty, with one action and one role per waypoint, no other phase has one, and a report
  of the route executor is handled without an exception.
\<close>

lemma patrol_progress:
  assumes "patrol_reach J H sp s"
  shows "goal_succeeded H sp reached s \<noteq> None \<and>
    (if patrol_active s
     then \<exists>r lp i. current_route sp s = Some (r, lp, i) \<and> pr_waypoints r \<noteq> [] \<and>
       length (pr_actions r) = length (pr_waypoints r) \<and> route_roles (pm_phase s) r \<noteq> None
     else current_route sp s = None)"
proof -
  have i: "patrol_inv H sp s" "validate_mission J sp = None" using reach_inv [OF assms] by simp_all
  note v = valid_mission [OF i(2)]
  have g: "goal_succeeded H sp reached s \<noteq> None" using i(1)
    by (auto simp: goal_succeeded_def patrol_inv_def Let_def split: option.splits)
  show ?thesis
  proof (cases "patrol_active s")
    case True
    then have "\<exists>r lp i. current_route sp s = Some (r, lp, i) \<and> pr_waypoints r \<noteq> [] \<and>
        length (pr_actions r) = length (pr_waypoints r)"
      using v by (auto simp: patrol_active_def current_route_def Let_def)
    then show ?thesis using True g roles_defined by auto
  qed (use g in \<open>auto simp: patrol_active_def current_route_def Let_def\<close>)
qed

text \<open>
  A latched battery return is never undone: once a started mission has a latched low battery it keeps
  it through every later call, and it is never in the patrol phase again.
\<close>

lemma latched_battery_never_patrols:
  assumes "patrol_reach J H sp s" "pm_low_battery s" "pm_phase s \<noteq> Idle"
    "foldl (\<lambda>t e. Option.bind t (\<lambda>u. patrol_step H sp u e)) (Some s) events = Some t"
  shows "pm_low_battery t \<and> pm_phase t \<noteq> Patrol"
proof -
  have n: "foldl (\<lambda>t e. Option.bind t (\<lambda>u. patrol_step H sp u e)) None es = None" for es by (induction es) auto
  have "patrol_reach J H sp t \<and> pm_low_battery t"
    using assms
  proof (induction events arbitrary: s)
    case (Cons e es)
    obtain u where u: "patrol_step H sp s e = Some u" using Cons.prems(4) n by (cases "patrol_step H sp s e") auto
    show ?case
      using Cons.IH [of u] Cons.prems u patrol_reach.stepped [OF Cons.prems(1) u] low_kept [OF u] not_idle [OF u] by simp
  qed simp
  then show ?thesis using reach_inv [of J H sp t] by (auto simp: patrol_inv_def)
qed

text \<open>
  C38. A latched battery return brings the robot home: from any active state of a mission with a latched
  low battery, four reports of success of the route executor, each at the chosen exit where there is one,
  lead to HOME.
\<close>

theorem latched_battery_reaches_home:
  assumes "patrol_reach J H sp s" "pm_low_battery s" "patrol_active s"
  shows "case drive_home H sp 4 s of None \<Rightarrow> False | Some t \<Rightarrow> pm_phase t = AtHome \<and> pm_low_battery t"
proof -
  have i: "patrol_inv H sp s" "validate_mission J sp = None" using reach_inv [OF assms(1)] by simp_all
  have ne: "pr_waypoints (sp_loop sp) \<noteq> []" using valid_mission(1) [OF i(2)] by auto
  have n: "(4::nat) = Suc (Suc (Suc (Suc 0)))" by simp
  from assms(3) consider "pm_phase s = DepartHome" | "pm_phase s = JoinLoop" | "pm_phase s = ExitLoop" | "pm_phase s = ReturnHome"
    | "pm_phase s = Patrol" by (auto simp: patrol_active_def)
  then show ?thesis
  proof cases
    case 1
    then show ?thesis unfolding n
      using drive_from_join [OF ne, of "s \<lparr> pm_phase := JoinLoop \<rparr>" H 0] assms(2)
      by (auto simp: report_depart drive_home.simps(2) [of H sp "Suc (Suc (Suc 0))"] simp del: drive_home.simps(2))
  next
    case 2
    then show ?thesis unfolding n using drive_from_join [OF ne, of s H 1] assms(2) by (auto simp del: drive_home.simps(2))
  next
    case 3
    then show ?thesis unfolding n using drive_from_exit [OF _ i(1), of "Suc (Suc 0)"] assms(2) by (simp del: drive_home.simps(2))
  next
    case 4
    then show ?thesis unfolding n using assms(2) by (simp add: report_return report_home)
  qed (use i(1) assms(2) in \<open>simp add: patrol_inv_def\<close>)
qed

text \<open>
  The mission leaves the loop at the right point: a return that is accepted while patrolling chooses
  a point of the loop with the smallest distance to the start of the return route (to HOME when that route
  is empty), provided no distance is NaN.
\<close>

lemma return_exit_nearest:
  assumes "patrol_reach J H sp s" "pm_phase s = Patrol" "request_return H sp reason s = (t, accepted)"
    "reference = hd (pr_waypoints (sp_returning sp) @ [sp_home sp])"
    "list_all (\<lambda>p. patrol_distance H p reference \<noteq> NaN) (pr_waypoints (sp_loop sp))"
  shows "accepted \<and> pm_phase t = ExitLoop \<and>
    (\<exists>x. pm_exit t = Some x \<and> rx_index x < length (pr_waypoints (sp_loop sp)) \<and>
       rx_waypoint x = pr_waypoints (sp_loop sp) ! rx_index x \<and>
       list_all (\<lambda>p. fle (patrol_distance H (rx_waypoint x) reference) (patrol_distance H p reference))
         (pr_waypoints (sp_loop sp)))"
proof -
  have "pr_waypoints (sp_loop sp) \<noteq> []" using reach_inv [OF assms(1)] valid_mission(1) [of J sp] by auto
  from select_exit [OF this, of H reference]
  obtain x where x: "select_return_exit H (pr_waypoints (sp_loop sp)) reference = Some x"
    "rx_index x < length (pr_waypoints (sp_loop sp))" "rx_waypoint x = pr_waypoints (sp_loop sp) ! rx_index x"
    "rx_distance x = patrol_distance H (rx_waypoint x) reference" .
  have "reference = (case pr_waypoints (sp_returning sp) of [] \<Rightarrow> sp_home sp | p # ps \<Rightarrow> p)"
    using assms(4) by (auto split: list.splits)
  then have "accepted \<and> t = s \<lparr> pm_exit := Some x, pm_reason := reason, pm_phase := ExitLoop \<rparr>"
    using assms(2,3) x by (auto simp: request_return_def)
  then show ?thesis using x select_exit_nearest [OF x(1) assms(5)] by simp
qed

subsection \<open>Witnesses\<close>

definition sample_patrol_point :: "rat \<Rightarrow> int \<Rightarrow> waypoint" where
  "sample_patrol_point x i =
     \<lparr> wp_lat = Fin 0, wp_lon = Fin 0, wp_yaw = NaN, wp_input_index = i, wp_key = True, wp_action = [], wp_role = [],
       wp_x = Some (Fin x), wp_y = Some (Fin 0), wp_yaw_explicit = False \<rparr>"

definition sample_patrol :: patrol_spec where
  "sample_patrol =
     \<lparr> sp_home = sample_patrol_point 5 (- 1), sp_loop = \<lparr> pr_waypoints = [sample_patrol_point 1 0, sample_patrol_point 4 1], pr_actions = [[], []] \<rparr>,
       sp_depart = \<lparr> pr_waypoints = [], pr_actions = [] \<rparr>, sp_returning = \<lparr> pr_waypoints = [], pr_actions = [] \<rparr>,
       sp_entry = 1, sp_leg_spacing = Fin 35, sp_chunk_span = Fin 120, sp_chunk_max = 5, sp_version = 1 \<rparr>"

definition sample_hypot :: hypot where
  "sample_hypot x y = fabs x"

lemma sample_valid: "validate_mission sample_json sample_patrol = None"
  by (simp add: validate_mission_def or_error_def route_error_def sample_patrol_def sample_patrol_point_def finite_waypoint_def parse_actions_def)

definition sample_state :: "patrol_phase \<Rightarrow> bool \<Rightarrow> patrol_state" where
  "sample_state p low = (new_patrol ''m'') \<lparr> pm_phase := p, pm_low_battery := low \<rparr>"

lemma sample_join: "patrol_reach sample_json sample_hypot sample_patrol (sample_state JoinLoop low)"
proof -
  have "patrol_reach sample_json sample_hypot sample_patrol (new_patrol ''m'')"
    by (rule patrol_reach.created [where mission = "''m''"]) (simp add: patrol_machine_def sample_valid)
  then show ?thesis
    by (rule patrol_reach.stepped [where e = "Start False low"]) (simp add: patrol_start_def sample_state_def new_patrol_def)
qed

lemma sample_patrolling: "patrol_reach sample_json sample_hypot sample_patrol (sample_state Patrol False)"
  using sample_join [of False] by (rule patrol_reach.stepped [where e = "Reached None"])
    (simp add: goal_succeeded_def sample_state_def new_patrol_def)

lemma patrol_progress_witness:
  "\<exists>r lp i. current_route sample_patrol (sample_state Patrol False) = Some (r, lp, i) \<and> pr_waypoints r \<noteq> []"
proof -
  have "patrol_active (sample_state Patrol False)" by (simp add: sample_state_def patrol_active_def)
  then show ?thesis using patrol_progress [OF sample_patrolling, of None] by auto
qed

lemma latched_battery_never_patrols_witness:
  "\<exists>t. foldl (\<lambda>t e. Option.bind t (\<lambda>u. patrol_step sample_hypot sample_patrol u e)) (Some (sample_state JoinLoop True))
      [Reached None] = Some t \<and> pm_phase t \<noteq> Patrol"
proof -
  obtain t where t: "foldl (\<lambda>t e. Option.bind t (\<lambda>u. patrol_step sample_hypot sample_patrol u e)) (Some (sample_state JoinLoop True))
      [Reached None] = Some t" by (simp add: sample_state_def goal_succeeded_def Let_def)
  have "pm_low_battery (sample_state JoinLoop True)" "pm_phase (sample_state JoinLoop True) \<noteq> Idle"
    by (simp_all add: sample_state_def)
  from latched_battery_never_patrols [OF sample_join this t] t show ?thesis by blast
qed

lemma latched_battery_reaches_home_witness:
  "\<exists>t. drive_home sample_hypot sample_patrol 4 (sample_state JoinLoop True) = Some t \<and> pm_phase t = AtHome"
proof -
  have "pm_low_battery (sample_state JoinLoop True)" "patrol_active (sample_state JoinLoop True)"
    by (simp_all add: sample_state_def patrol_active_def)
  from latched_battery_reaches_home [OF sample_join this] show ?thesis by (auto split: option.splits)
qed

lemma return_exit_nearest_witness:
  "\<exists>x. pm_exit (fst (request_return sample_hypot sample_patrol ''operator'' (sample_state Patrol False))) = Some x \<and>
     fle (patrol_distance sample_hypot (rx_waypoint x) (sample_patrol_point 5 (- 1))) (Fin 1)"
proof -
  obtain t b where t: "request_return sample_hypot sample_patrol ''operator'' (sample_state Patrol False) = (t, b)" by fastforce
  have a: "pm_phase (sample_state Patrol False) = Patrol" "sample_patrol_point 5 (- 1) = hd (pr_waypoints (sp_returning sample_patrol) @ [sp_home sample_patrol])"
    "list_all (\<lambda>p. patrol_distance sample_hypot p (sample_patrol_point 5 (- 1)) \<noteq> NaN) (pr_waypoints (sp_loop sample_patrol))"
    by (simp_all add: sample_state_def sample_patrol_def sample_patrol_point_def patrol_distance_def sample_hypot_def fsub_def)
  have "patrol_distance sample_hypot (sample_patrol_point 4 1) (sample_patrol_point 5 (- 1)) = Fin 1"
    by (simp add: sample_patrol_point_def patrol_distance_def sample_hypot_def fsub_def)
  then show ?thesis using return_exit_nearest [OF sample_patrolling a(1) t a(2,3)] t
    by (auto simp: sample_patrol_def)
qed

end
