(* ===== verification/Patrol_Store.thy ===== *)
theory Patrol_Store
  imports Patrol_Machine
begin

section \<open>Persistence of the patrol mission\<close>

text \<open>
  \<open>salus_navigation/patrol_store.py\<close>: the document of a patrol mission and its decoding. The file
  system and the JSON text are left out: a document is a decoded JSON value.
\<close>

datatype store_error =
    BadPoint string
  | BadRoute string
  | BadSchema
  | InvalidDocument store_error
  | MissingKey string
  | BadValue string
  | InvalidMission mission_error
  | Escaped py_exception

type_synonym 'a stored = "store_error + 'a"

subsection \<open>Encoding\<close>

definition opt_float :: "pyfloat option \<Rightarrow> jval" where
  "opt_float v = (case v of None \<Rightarrow> JNull | Some x \<Rightarrow> JFloat x)"

definition encode_point :: "waypoint \<Rightarrow> jval" where
  "encode_point p =
     JObj [(''lat'', JFloat (wp_lat p)), (''lon'', JFloat (wp_lon p)), (''yaw_deg'', JFloat (wp_yaw p)),
       (''input_index'', JInt (wp_input_index p)), (''action_json'', JStr (wp_action p)), (''map_x'', opt_float (wp_x p)),
       (''map_y'', opt_float (wp_y p)), (''yaw_explicit'', JBool (wp_yaw_explicit p))]"

definition encode_route :: "patrol_route \<Rightarrow> jval" where
  "encode_route r =
     JObj [(''waypoints'', JList (map encode_point (pr_waypoints r))), (''actions'', JList (map JStr (pr_actions r)))]"

definition encode_mission :: "patrol_spec \<Rightarrow> jval" where
  "encode_mission sp =
     JObj [(''schema_version'', JInt 1), (''home'', encode_point (sp_home sp)), (''loop'', encode_route (sp_loop sp)),
       (''depart'', encode_route (sp_depart sp)), (''return'', encode_route (sp_returning sp)),
       (''depart_entry_loop_index'', JInt (sp_entry sp)), (''leg_spacing_m'', JFloat (sp_leg_spacing sp)),
       (''chunk_span_m'', JFloat (sp_chunk_span sp)), (''chunk_max_waypoints'', JInt (sp_chunk_max sp))]"

subsection \<open>Decoding\<close>

definition py_int_of_string :: "string \<Rightarrow> int option" where
  "py_int_of_string s =
     (case drop_underscores None (py_strip s) of None \<Rightarrow> None
      | Some t \<Rightarrow>
          (let (neg, ds) = split_sign t
           in if ds \<noteq> [] \<and> list_all digit ds then Some (if neg then - decimal ds else decimal ds) else None))"

text \<open>\<open>int(value)\<close>, with \<open>Inr None\<close> where it raises \<open>TypeError\<close> or \<open>ValueError\<close>.\<close>

fun int_value :: "jval \<Rightarrow> py_exception + int option" where
  "int_value (JInt n) = Inr (Some n)"
| "int_value (JBool b) = Inr (Some (if b then 1 else 0))"
| "int_value (JFloat x) = int_call x"
| "int_value (JStr s) = Inr (py_int_of_string s)"
| "int_value v = Inr None"

definition caught :: "string \<Rightarrow> py_exception + 'a option \<Rightarrow> 'a stored" where
  "caught label r = (case r of Inl e \<Rightarrow> Inl (Escaped e) | Inr None \<Rightarrow> Inl (BadValue label) | Inr (Some x) \<Rightarrow> Inr x)"

definition the_key :: "jobject \<Rightarrow> string \<Rightarrow> jval stored" where
  "the_key o' key = of_option (MissingKey key) (o' key)"

definition float_key :: "jobject \<Rightarrow> string \<Rightarrow> pyfloat stored" where
  "float_key o' key = bind_res (the_key o' key) (\<lambda>v. caught key (float_call v))"

definition int_key :: "jobject \<Rightarrow> string \<Rightarrow> int stored" where
  "int_key o' key = bind_res (the_key o' key) (\<lambda>v. caught key (int_value v))"

definition opt_float_key :: "jobject \<Rightarrow> string \<Rightarrow> pyfloat option stored" where
  "opt_float_key o' key =
     (case get_key o' key JNull of JNull \<Rightarrow> Inr None | v \<Rightarrow> bind_res (caught key (float_call v)) (\<lambda>x. Inr (Some x)))"

text \<open>The \<open>except\<close> clauses: a \<open>ValueError\<close> with the cause inside; other exceptions pass.\<close>

definition wrapped :: "(store_error \<Rightarrow> store_error) \<Rightarrow> 'a stored \<Rightarrow> 'a stored" where
  "wrapped f r = (case r of Inl (Escaped e) \<Rightarrow> Inl (Escaped e) | Inl e \<Rightarrow> Inl (f e) | Inr x \<Rightarrow> Inr x)"

definition decode_point :: "json_lib \<Rightarrow> jval \<Rightarrow> string \<Rightarrow> waypoint stored" where
  "decode_point J payload label =
     (case payload of
        JObj kvs \<Rightarrow>
          (let o' = map_of kvs in wrapped (\<lambda>e. BadPoint label) (
             bind_res (float_key o' ''lat'') (\<lambda>lat.
             bind_res (float_key o' ''lon'') (\<lambda>lon.
             bind_res (float_key o' ''yaw_deg'') (\<lambda>yaw.
             bind_res (int_key o' ''input_index'') (\<lambda>index.
             bind_res (opt_float_key o' ''map_x'') (\<lambda>mx.
             bind_res (opt_float_key o' ''map_y'') (\<lambda>my.
               Inr \<lparr> wp_lat = lat, wp_lon = lon, wp_yaw = yaw, wp_input_index = index, wp_key = True,
                 wp_action = py_str J (get_key o' ''action_json'' (JStr [])), wp_role = ''normal'', wp_x = mx, wp_y = my,
                 wp_yaw_explicit = truthy (get_key o' ''yaw_explicit'' (JBool False)) \<rparr>))))))))
      | _ \<Rightarrow> Inl (BadPoint label))"

definition decode_actions :: "jval list \<Rightarrow> string list option" where
  "decode_actions vs =
     (if list_all (\<lambda>v. case v of JStr s \<Rightarrow> True | _ \<Rightarrow> False) vs
      then Some (map (\<lambda>v. case v of JStr s \<Rightarrow> s | _ \<Rightarrow> []) vs) else None)"

definition decode_route :: "json_lib \<Rightarrow> jval \<Rightarrow> string \<Rightarrow> patrol_route stored" where
  "decode_route J payload label =
     (case payload of
        JObj kvs \<Rightarrow>
          (case (map_of kvs ''waypoints'', map_of kvs ''actions'') of
             (Some (JList ws), Some (JList as)) \<Rightarrow>
               (case decode_actions as of
                  None \<Rightarrow> Inl (BadRoute label)
                | Some actions \<Rightarrow>
                    bind_res (map_res (\<lambda>w. decode_point J w label) ws) (\<lambda>points.
                      Inr \<lparr> pr_waypoints = points, pr_actions = actions \<rparr>))
           | _ \<Rightarrow> Inl (BadRoute label))
      | _ \<Rightarrow> Inl (BadRoute label))"

definition decode_spec :: "json_lib \<Rightarrow> jobject \<Rightarrow> patrol_spec stored" where
  "decode_spec J o' =
     wrapped InvalidDocument (
       bind_res (bind_res (the_key o' ''home'') (\<lambda>v. decode_point J v ''home'')) (\<lambda>home.
       bind_res (bind_res (the_key o' ''loop'') (\<lambda>v. decode_route J v ''loop'')) (\<lambda>lp.
       bind_res (bind_res (the_key o' ''depart'') (\<lambda>v. decode_route J v ''depart'')) (\<lambda>depart.
       bind_res (bind_res (the_key o' ''return'') (\<lambda>v. decode_route J v ''return'')) (\<lambda>returning.
       bind_res (int_key o' ''depart_entry_loop_index'') (\<lambda>entry.
       bind_res (float_key o' ''leg_spacing_m'') (\<lambda>spacing.
       bind_res (float_key o' ''chunk_span_m'') (\<lambda>chunk_span.
       bind_res (int_key o' ''chunk_max_waypoints'') (\<lambda>maximum.
         Inr \<lparr> sp_home = home, sp_loop = lp, sp_depart = depart, sp_returning = returning, sp_entry = entry,
           sp_leg_spacing = spacing, sp_chunk_span = chunk_span, sp_chunk_max = maximum, sp_version = 1 \<rparr>)))))))))"

text \<open>\<open>schema_version\<close> is compared with \<open>==\<close>: \<open>1.0\<close> and \<open>True\<close> pass.\<close>

definition decode_mission :: "json_lib \<Rightarrow> jval \<Rightarrow> patrol_spec stored" where
  "decode_mission J payload =
     (case payload of
        JObj kvs \<Rightarrow>
          (let o' = map_of kvs in
           if o' ''schema_version'' \<notin> {Some (JInt 1), Some (JFloat (Fin 1)), Some (JBool True)} then Inl BadSchema
           else bind_res (decode_spec J o') (\<lambda>sp.
             case validate_mission J sp of
               None \<Rightarrow> Inr sp
             | Some (MissionRaised e) \<Rightarrow> Inl (Escaped e)
             | Some e \<Rightarrow> Inl (InvalidMission e)))
      | _ \<Rightarrow> Inl (BadValue ''document''))"

subsection \<open>What the document keeps\<close>

text \<open>A stored waypoint is a checkpoint of the normal role: the document holds neither field.\<close>

definition as_stored :: "waypoint \<Rightarrow> waypoint" where
  "as_stored p = p \<lparr> wp_key := True, wp_role := ''normal'' \<rparr>"

definition stored_route :: "patrol_route \<Rightarrow> patrol_route" where
  "stored_route r = r \<lparr> pr_waypoints := map as_stored (pr_waypoints r) \<rparr>"

definition stored_mission :: "patrol_spec \<Rightarrow> patrol_spec" where
  "stored_mission sp = sp \<lparr> sp_home := as_stored (sp_home sp), sp_loop := stored_route (sp_loop sp),
     sp_depart := stored_route (sp_depart sp), sp_returning := stored_route (sp_returning sp) \<rparr>"

lemma decode_encode_point: "decode_point J (encode_point p) label = Inr (as_stored p)"
  by (simp add: decode_point_def encode_point_def float_key_def int_key_def opt_float_key_def the_key_def caught_def
      get_key_def opt_float_def wrapped_def as_stored_def split: option.splits)

lemma decode_encode_points: "map_res (\<lambda>w. decode_point J w label) (map encode_point ps) = Inr (map as_stored ps)"
  by (induction ps) (simp_all add: decode_encode_point)

lemma decode_encode_actions: "decode_actions (map JStr as) = Some as"
  by (simp add: decode_actions_def list_all_iff comp_def)

lemma decode_encode_route: "decode_route J (encode_route r) label = Inr (stored_route r)"
  by (simp add: decode_route_def encode_route_def decode_encode_points decode_encode_actions stored_route_def)

lemma stored_point [simp]: "finite_waypoint (as_stored p) = finite_waypoint p"
  by (simp add: finite_waypoint_def as_stored_def)

lemma stored_errors: "waypoints_error J label i (zip (map as_stored ps) as) = waypoints_error J label i (zip ps as)"
proof (induction ps arbitrary: i "as")
  case (Cons p ps)
  then show ?case by (cases "as") (auto split: sum.splits)
qed simp

lemma stored_route_error: "route_error J (stored_route r) label req = route_error J r label req"
  by (simp add: route_error_def stored_route_def stored_errors)

lemma stored_valid: "validate_mission J (stored_mission sp) = validate_mission J sp"
  by (simp add: validate_mission_def stored_mission_def stored_route_error) (simp add: stored_route_def)

lemma decode_encode_spec:
  "sp_version sp = 1 \<Longrightarrow> encode_mission sp = JObj kvs \<Longrightarrow> decode_spec J (map_of kvs) = Inr (stored_mission sp)"
  by (auto simp: encode_mission_def decode_spec_def the_key_def decode_encode_point decode_encode_route int_key_def
      float_key_def caught_def wrapped_def stored_mission_def)

subsection \<open>Property\<close>

text \<open>
  A mission survives a restart: decoding the document of a valid mission gives the mission back, with
  every waypoint a checkpoint of the normal role, the two fields the document does not hold.
\<close>

lemma mission_roundtrip:
  assumes "validate_mission J sp = None"
  shows "decode_mission J (encode_mission sp) = Inr (stored_mission sp)"
proof -
  have v: "sp_version sp = 1" using assms by (auto simp: validate_mission_def split: if_splits)
  obtain kvs where k: "encode_mission sp = JObj kvs" "map_of kvs ''schema_version'' = Some (JInt 1)"
    by (simp add: encode_mission_def)
  show ?thesis using k assms by (simp add: decode_mission_def decode_encode_spec [OF v k(1)] stored_valid)
qed

lemma mission_roundtrip_witness:
  "decode_mission sample_json (encode_mission sample_patrol) = Inr (stored_mission sample_patrol)"
  by (rule mission_roundtrip [OF sample_valid])

end
