(* ===== verification/Ros_Request.thy ===== *)
theory Ros_Request
  imports Patrol_Store
begin

section \<open>Requests of the Cockpit as ROS requests\<close>

text \<open>
  \<open>salus_web/ros_gateway.py\<close>, from \<open>build_ros_request\<close> on: the request of a ROS service that an operator request becomes. The
  generated message classes check the range of a field when it is set; that check is the argument \<open>fits\<close>. \<open>json.dumps\<close> with its
  default layout is the argument \<open>dumps\<close>, and \<open>str()\<close> of a decoded value is \<open>py_str\<close>.
\<close>

datatype gateway_error = BadRequest string | NumberText | MissingField string | GatewayTypeError | GatewayOverflow | FieldOutOfRange

type_synonym 'a gated = "gateway_error + 'a"

subsection \<open>Numbers\<close>

fun gw_float :: "jval \<Rightarrow> pyfloat gated" where
  "gw_float (JBool b) = Inr (Fin (if b then 1 else 0))"
| "gw_float (JInt n) = (case float_of_int n of None \<Rightarrow> Inl GatewayOverflow | Some x \<Rightarrow> Inr x)"
| "gw_float (JFloat x) = Inr x"
| "gw_float (JStr s) = of_option NumberText (py_float_of_string s)"
| "gw_float v = Inl GatewayTypeError"

fun gw_int :: "jval \<Rightarrow> int gated" where
  "gw_int (JBool b) = Inr (if b then 1 else 0)"
| "gw_int (JInt n) = Inr n"
| "gw_int (JFloat x) = (if x \<in> {PInf, NInf} then Inl GatewayOverflow else of_option NumberText (py_int x))"
| "gw_int (JStr s) = of_option NumberText (py_int_of_string s)"
| "gw_int v = Inl GatewayTypeError"

text \<open>\<open>_required_finite\<close> turns \<open>TypeError\<close> and \<open>ValueError\<close> into its own \<open>ValueError\<close>.\<close>

definition required_finite :: "jval \<Rightarrow> string \<Rightarrow> pyfloat gated" where
  "required_finite v name =
     (case gw_float v of
        Inl GatewayOverflow \<Rightarrow> Inl GatewayOverflow
      | Inl e \<Rightarrow> Inl (BadRequest (name @ '' must be finite''))
      | Inr x \<Rightarrow> if isfinite x then Inr x else Inl (BadRequest (name @ '' must be finite'')))"

definition the_field :: "jobject \<Rightarrow> string \<Rightarrow> jval gated" where
  "the_field o' key = of_option (MissingField key) (o' key)"

text \<open>\<open>item.get(a, item.get(b))\<close>.\<close>

definition first_key :: "jobject \<Rightarrow> string \<Rightarrow> string \<Rightarrow> jval" where
  "first_key o' a b = get_key o' a (get_key o' b JNull)"

subsection \<open>Waypoints\<close>

record goal_point =
  gp_lat :: pyfloat
  gp_lon :: pyfloat
  gp_yaw :: "pyfloat option"
  gp_actions :: "jval option"
  gp_role :: "jval option"

definition gateway_waypoint :: "jobject \<Rightarrow> goal_point gated" where
  "gateway_waypoint o' =
     bind_res (required_finite (first_key o' ''lat'' ''latitude'') ''lat'') (\<lambda>lat.
     bind_res (required_finite (first_key o' ''lon'' ''longitude'') ''lon'') (\<lambda>lon.
     bind_res (case first_key o' ''yaw_deg'' ''yaw'' of JNull \<Rightarrow> Inr None | v \<Rightarrow> bind_res (required_finite v ''yaw_deg'') (\<lambda>y. Inr (Some y))) (\<lambda>yaw.
       Inr \<lparr> gp_lat = lat, gp_lon = lon, gp_yaw = yaw, gp_actions = o' ''actions'', gp_role = o' ''role'' \<rparr>)))"

fun gateway_points :: "nat \<Rightarrow> jval list \<Rightarrow> goal_point list gated" where
  "gateway_points i [] = Inr []"
| "gateway_points i (v # vs) =
     bind_res (case v of JObj kvs \<Rightarrow> gateway_waypoint (map_of kvs)
         | _ \<Rightarrow> Inl (BadRequest (''waypoint['' @ str_of_int (int i) @ ''] must be an object''))) (\<lambda>p.
     bind_res (gateway_points (Suc i) vs) (\<lambda>ps. Inr (p # ps)))"

definition waypoints_in :: "jval \<Rightarrow> goal_point list gated" where
  "waypoints_in raw = (case raw of JList (v # vs) \<Rightarrow> gateway_points 0 (v # vs) | _ \<Rightarrow> Inl (BadRequest ''waypoints must be a non-empty list''))"

text \<open>A request without a list is its own single waypoint when it has a position.\<close>

definition request_waypoints :: "jobject \<Rightarrow> goal_point list gated" where
  "request_waypoints o' =
     (let raw = get_key o' ''waypoints'' JNull in
      if raw = JNull \<and> o' ''lat'' \<noteq> None \<and> o' ''lon'' \<noteq> None then bind_res (gateway_waypoint o') (\<lambda>p. Inr [p]) else waypoints_in raw)"

definition optional_waypoints :: "jval \<Rightarrow> goal_point list gated" where
  "optional_waypoints raw = (if raw \<in> {JNull, JList []} then Inr [] else waypoints_in raw)"

definition yaw_or_nan :: "goal_point \<Rightarrow> pyfloat" where
  "yaw_or_nan p = (case gp_yaw p of None \<Rightarrow> NaN | Some y \<Rightarrow> y)"

definition action_text :: "(jval \<Rightarrow> string) \<Rightarrow> goal_point \<Rightarrow> string" where
  "action_text dumps p = dumps (case gp_actions p of None \<Rightarrow> JList [] | Some v \<Rightarrow> v)"

record way_arrays =
  wy_lats :: "pyfloat list"
  wy_lons :: "pyfloat list"
  wy_yaws :: "pyfloat list"
  wy_actions :: "string list"

definition waypoint_arrays :: "(jval \<Rightarrow> string) \<Rightarrow> goal_point list \<Rightarrow> way_arrays" where
  "waypoint_arrays dumps ps =
     \<lparr> wy_lats = map gp_lat ps, wy_lons = map gp_lon ps, wy_yaws = map yaw_or_nan ps, wy_actions = map (action_text dumps) ps \<rparr>"

record route_options =
  ro_leg_spacing :: pyfloat
  ro_chunk_span :: pyfloat
  ro_chunk_max :: int

definition route_options_of :: "jobject \<Rightarrow> route_options gated" where
  "route_options_of o' =
     bind_res (gw_float (get_key o' ''leg_spacing_m'' (JFloat (Fin 35)))) (\<lambda>leg.
     bind_res (gw_float (get_key o' ''chunk_span_m'' (JFloat (Fin 120)))) (\<lambda>span.
     bind_res (gw_int (get_key o' ''chunk_max_waypoints'' (JInt 5))) (\<lambda>n.
       Inr \<lparr> ro_leg_spacing = leg, ro_chunk_span = span, ro_chunk_max = n \<rparr>)))"

subsection \<open>Requests\<close>

record ros_goal_request =
  gr_arrays :: way_arrays
  gr_single :: "(pyfloat \<times> pyfloat \<times> pyfloat) option"
  gr_loop :: bool
  gr_suppress_brake :: bool

record route_mission_request =
  rm_arrays :: way_arrays
  rm_roles :: "string list"
  rm_loop :: bool
  rm_options :: route_options

record ros_patrol_request =
  pm_loop :: way_arrays
  pm_home :: "pyfloat \<times> pyfloat \<times> pyfloat"
  pm_return :: way_arrays
  pm_depart :: way_arrays
  pm_entry :: int
  pm_options :: route_options

record ptz_request =
  pz_relative :: bool
  pz_pan :: "bool \<times> pyfloat"
  pz_tilt :: "bool \<times> pyfloat"
  pz_zoom :: "bool \<times> pyfloat"

datatype ros_request =
    PanRequest pyfloat | EmptyRequest | PtzRequest ptz_request | PresetRequest jval | SavePresetRequest jval bool | GoalRequest ros_goal_request
  | RouteMissionRequest route_mission_request | PatrolRequest ros_patrol_request | BrakeRequest pyfloat int | ManualModeRequest jval
  | ProfileRequest jval | ZonesRequest string

definition axis_field :: "jobject \<Rightarrow> string \<Rightarrow> (bool \<times> pyfloat) gated" where
  "axis_field o' key = bind_res (gw_float (get_key o' key (JFloat fzero))) (\<lambda>x. Inr (o' key \<noteq> None, x))"

definition build_ptz :: "jobject \<Rightarrow> ros_request gated" where
  "build_ptz o' =
     bind_res (the_field o' ''relative'') (\<lambda>rel.
     bind_res (axis_field o' ''pan_deg'') (\<lambda>pan. bind_res (axis_field o' ''tilt_deg'') (\<lambda>tilt. bind_res (axis_field o' ''zoom_level'') (\<lambda>zoom.
       Inr (PtzRequest \<lparr> pz_relative = truthy rel, pz_pan = pan, pz_tilt = tilt, pz_zoom = zoom \<rparr>)))))"

definition build_goal :: "(jval \<Rightarrow> string) \<Rightarrow> jobject \<Rightarrow> ros_request gated" where
  "build_goal dumps o' =
     bind_res (request_waypoints o') (\<lambda>ps.
       Inr (GoalRequest \<lparr> gr_arrays = (waypoint_arrays dumps ps) \<lparr> wy_actions := [] \<rparr>,
         gr_single = (case ps of [p] \<Rightarrow> Some (gp_lat p, gp_lon p, yaw_or_nan p) | _ \<Rightarrow> None),
         gr_loop = truthy (get_key o' ''loop'' (JBool False)), gr_suppress_brake = truthy (get_key o' ''suppress_success_brake'' (JBool False)) \<rparr>))"

definition build_route :: "json_lib \<Rightarrow> (jval \<Rightarrow> string) \<Rightarrow> jobject \<Rightarrow> ros_request gated" where
  "build_route J dumps o' =
     bind_res (request_waypoints o') (\<lambda>ps.
     bind_res (route_options_of o') (\<lambda>opts.
       Inr (RouteMissionRequest \<lparr> rm_arrays = waypoint_arrays dumps ps,
         rm_roles = map (\<lambda>p. case gp_role p of None \<Rightarrow> ''normal'' | Some v \<Rightarrow> py_str J v) ps,
         rm_loop = truthy (get_key o' ''loop'' (JBool False)), rm_options = opts \<rparr>)))"

definition build_patrol :: "(jval \<Rightarrow> string) \<Rightarrow> jobject \<Rightarrow> ros_request gated" where
  "build_patrol dumps o' =
     (case get_key o' ''patrol_mission'' JNull of
        JObj kvs \<Rightarrow>
          (let q = map_of kvs in
           bind_res (waypoints_in (get_key q ''loop_waypoints'' JNull)) (\<lambda>loop.
           bind_res (waypoints_in (JList [get_key q ''home_waypoint'' JNull])) (\<lambda>homes.
           bind_res (optional_waypoints (get_key q ''return_waypoints'' JNull)) (\<lambda>ret.
           bind_res (optional_waypoints (get_key q ''depart_waypoints'' JNull)) (\<lambda>dep.
           bind_res (gw_int (get_key q ''depart_entry_loop_index'' (JInt 0))) (\<lambda>entry.
           bind_res (route_options_of o') (\<lambda>opts.
             Inr (PatrolRequest \<lparr> pm_loop = waypoint_arrays dumps loop,
               pm_home = (gp_lat (hd homes), gp_lon (hd homes), yaw_or_nan (hd homes)),
               pm_return = waypoint_arrays dumps ret, pm_depart = waypoint_arrays dumps dep, pm_entry = max 0 entry, pm_options = opts \<rparr>))))))))
      | _ \<Rightarrow> Inl (BadRequest ''patrol_mission must be an object''))"

definition build_brake :: "jobject \<Rightarrow> ros_request gated" where
  "build_brake o' =
     bind_res (gw_float (get_key o' ''duration_s'' (JFloat (Fin 1)))) (\<lambda>d.
     bind_res (gw_int (get_key o' ''brake_pct'' (JInt 100))) (\<lambda>b. Inr (BrakeRequest d (max 0 (min 100 b)))))"

definition build_zones :: "(jval \<Rightarrow> string) \<Rightarrow> jobject \<Rightarrow> ros_request gated" where
  "build_zones dumps o' =
     (case get_key o' ''geojson'' JNull of
        JNull \<Rightarrow> Inl (BadRequest ''geojson field is required'')
      | JStr s \<Rightarrow> Inr (ZonesRequest s)
      | v \<Rightarrow> Inr (ZonesRequest (dumps v)))"

definition plain_operations :: "string list" where
  "plain_operations = [''camera_zoom_toggle'', ''get_camera_status'', ''get_camera_ptz_state'', ''cancel_goal'', ''cancel_route'', ''cancel_patrol'',
     ''request_return_home'', ''load_zones_file'']"

definition build_fields :: "json_lib \<Rightarrow> (jval \<Rightarrow> string) \<Rightarrow> request \<Rightarrow> ros_request gated" where
  "build_fields J dumps r =
     (let o' = rq_fields r; op = rq_op r in
      if op = ''camera_pan'' then bind_res (the_field o' ''angle'') (\<lambda>v. bind_res (gw_float v) (\<lambda>x. Inr (PanRequest x)))
      else if op \<in> set plain_operations then Inr EmptyRequest
      else if op = ''camera_ptz_move'' then build_ptz o'
      else if op = ''camera_ptz_preset'' then bind_res (the_field o' ''preset'') (\<lambda>v. Inr (PresetRequest v))
      else if op = ''camera_ptz_set_preset''
      then bind_res (the_field o' ''preset'') (\<lambda>v. bind_res (the_field o' ''save_zoom'') (\<lambda>b. Inr (SavePresetRequest v (truthy b))))
      else if op = ''set_goal_ll'' then build_goal dumps o'
      else if op = ''set_route_ll'' then build_route J dumps o'
      else if op = ''set_patrol_ll'' then build_patrol dumps o'
      else if op = ''brake'' then build_brake o'
      else if op = ''set_manual_mode'' then bind_res (the_field o' ''enabled'') (\<lambda>v. Inr (ManualModeRequest v))
      else if op = ''set_navigation_profile'' then bind_res (the_field o' ''profile'') (\<lambda>v. Inr (ProfileRequest v))
      else if op = ''set_zones_geojson'' then build_zones dumps o'
      else Inl (BadRequest (''no ROS mapping for '' @ op)))"

definition build_ros_request :: "json_lib \<Rightarrow> (jval \<Rightarrow> string) \<Rightarrow> (ros_request \<Rightarrow> bool) \<Rightarrow> request \<Rightarrow> ros_request gated" where
  "build_ros_request J dumps fits r =
     bind_res (build_fields J dumps r) (\<lambda>q. bind_res (raise_if (\<not> fits q) FieldOutOfRange) (\<lambda>_. Inr q))"

subsection \<open>What a built request satisfies\<close>

definition point_ok :: "goal_point \<Rightarrow> bool" where
  "point_ok p \<longleftrightarrow> isfinite (gp_lat p) \<and> isfinite (gp_lon p) \<and> (case gp_yaw p of None \<Rightarrow> True | Some y \<Rightarrow> isfinite y)"

definition finite_or_nan :: "pyfloat \<Rightarrow> bool" where
  "finite_or_nan x \<longleftrightarrow> x = NaN \<or> isfinite x"

definition arrays_ok :: "way_arrays \<Rightarrow> bool" where
  "arrays_ok a \<longleftrightarrow> length (wy_lons a) = length (wy_lats a) \<and> length (wy_yaws a) = length (wy_lats a) \<and>
     list_all isfinite (wy_lats a) \<and> list_all isfinite (wy_lons a) \<and> list_all finite_or_nan (wy_yaws a)"

lemma required_finite_ok: "required_finite v name = Inr x \<Longrightarrow> isfinite x"
  by (auto simp: required_finite_def split: sum.splits gateway_error.splits if_splits)

lemma gateway_waypoint_ok: "gateway_waypoint o' = Inr p \<Longrightarrow> point_ok p"
  by (auto simp: gateway_waypoint_def bind_res_eq_Inr point_ok_def dest: required_finite_ok split: jval.splits)

lemma gateway_points_ok: "gateway_points i vs = Inr ps \<Longrightarrow> list_all point_ok ps \<and> length ps = length vs"
  by (induction vs arbitrary: i ps) (auto simp: bind_res_eq_Inr dest: gateway_waypoint_ok split: jval.splits)

lemma waypoints_in_ok: "waypoints_in raw = Inr ps \<Longrightarrow> list_all point_ok ps \<and> ps \<noteq> []"
  by (auto simp: waypoints_in_def simp del: gateway_points.simps dest: gateway_points_ok split: jval.splits list.splits)

lemma request_waypoints_ok: "request_waypoints o' = Inr ps \<Longrightarrow> list_all point_ok ps \<and> ps \<noteq> []"
  by (auto simp: request_waypoints_def Let_def bind_res_eq_Inr dest: waypoints_in_ok gateway_waypoint_ok split: if_splits)

lemma optional_waypoints_ok: "optional_waypoints raw = Inr ps \<Longrightarrow> list_all point_ok ps"
  by (auto simp: optional_waypoints_def dest: waypoints_in_ok split: if_splits)

lemma waypoint_arrays_ok: "list_all point_ok ps \<Longrightarrow> arrays_ok (waypoint_arrays dumps ps)"
  by (auto simp: arrays_ok_def waypoint_arrays_def list_all_iff point_ok_def yaw_or_nan_def finite_or_nan_def split: option.splits)

lemma waypoint_arrays_sizes:
  "wy_lats (waypoint_arrays dumps ps) = map gp_lat ps" "length (wy_actions (waypoint_arrays dumps ps)) = length ps"
  by (simp_all add: waypoint_arrays_def)

definition ros_request_ok :: "ros_request \<Rightarrow> bool" where
  "ros_request_ok q =
     (case q of
        GoalRequest g \<Rightarrow> arrays_ok (gr_arrays g) \<and> wy_lats (gr_arrays g) \<noteq> [] \<and>
          (gr_single g \<noteq> None \<longleftrightarrow> length (wy_lats (gr_arrays g)) = 1) \<and>
          (case gr_single g of None \<Rightarrow> True | Some (lat, lon, yaw) \<Rightarrow> wy_lats (gr_arrays g) = [lat] \<and> wy_lons (gr_arrays g) = [lon] \<and> wy_yaws (gr_arrays g) = [yaw])
      | RouteMissionRequest m \<Rightarrow> arrays_ok (rm_arrays m) \<and> wy_lats (rm_arrays m) \<noteq> [] \<and>
          length (wy_actions (rm_arrays m)) = length (wy_lats (rm_arrays m)) \<and> length (rm_roles m) = length (wy_lats (rm_arrays m))
      | PatrolRequest m \<Rightarrow> arrays_ok (pm_loop m) \<and> wy_lats (pm_loop m) \<noteq> [] \<and> arrays_ok (pm_return m) \<and> arrays_ok (pm_depart m) \<and>
          (case pm_home m of (lat, lon, yaw) \<Rightarrow> isfinite lat \<and> isfinite lon \<and> finite_or_nan yaw) \<and> 0 \<le> pm_entry m
      | BrakeRequest d b \<Rightarrow> 0 \<le> b \<and> b \<le> 100
      | _ \<Rightarrow> True)"

lemma build_goal_ok:
  assumes "build_goal dumps o' = Inr q"
  shows "ros_request_ok q"
proof -
  obtain ps where ps: "request_waypoints o' = Inr ps" "q = GoalRequest \<lparr> gr_arrays = (waypoint_arrays dumps ps) \<lparr> wy_actions := [] \<rparr>,
      gr_single = (case ps of [p] \<Rightarrow> Some (gp_lat p, gp_lon p, yaw_or_nan p) | _ \<Rightarrow> None),
      gr_loop = truthy (get_key o' ''loop'' (JBool False)), gr_suppress_brake = truthy (get_key o' ''suppress_success_brake'' (JBool False)) \<rparr>"
    using assms by (auto simp: build_goal_def bind_res_eq_Inr)
  note ok = request_waypoints_ok [OF ps(1)]
  then have "arrays_ok ((waypoint_arrays dumps ps) \<lparr> wy_actions := [] \<rparr>)" using waypoint_arrays_ok by (simp add: arrays_ok_def)
  then show ?thesis using ok ps(2)
    by (cases ps; cases "tl ps") (auto simp: ros_request_ok_def waypoint_arrays_def)
qed

lemma build_route_ok: "build_route J dumps o' = Inr q \<Longrightarrow> ros_request_ok q"
  by (auto simp: build_route_def bind_res_eq_Inr ros_request_ok_def waypoint_arrays_ok waypoint_arrays_sizes dest!: request_waypoints_ok)

lemma build_patrol_ok:
  assumes "build_patrol dumps o' = Inr q"
  shows "ros_request_ok q"
proof -
  obtain loop homes ret dep entry opts v1 v2 v3 v4 where w: "waypoints_in v1 = Inr loop" "waypoints_in v2 = Inr homes"
      "optional_waypoints v3 = Inr ret" "optional_waypoints v4 = Inr dep"
    and q: "q = PatrolRequest \<lparr> pm_loop = waypoint_arrays dumps loop, pm_home = (gp_lat (hd homes), gp_lon (hd homes), yaw_or_nan (hd homes)),
       pm_return = waypoint_arrays dumps ret, pm_depart = waypoint_arrays dumps dep, pm_entry = max 0 entry, pm_options = opts \<rparr>"
    using assms by (auto simp: build_patrol_def bind_res_eq_Inr Let_def split: jval.splits)
  have "point_ok (hd homes)" using waypoints_in_ok [OF w(2)] by (cases homes) auto
  then show ?thesis using waypoints_in_ok [OF w(1)] optional_waypoints_ok [OF w(3)] optional_waypoints_ok [OF w(4)] q
    by (auto simp: ros_request_ok_def waypoint_arrays_ok point_ok_def yaw_or_nan_def finite_or_nan_def split: option.splits)
       (auto simp: waypoint_arrays_sizes)
qed

lemma build_brake_ok: "build_brake o' = Inr q \<Longrightarrow> ros_request_ok q"
  by (auto simp: build_brake_def bind_res_eq_Inr ros_request_ok_def)

lemma build_zones_ok: "build_zones dumps o' = Inr q \<Longrightarrow> ros_request_ok q"
  by (auto simp: build_zones_def ros_request_ok_def split: jval.splits)

lemma build_ptz_ok: "build_ptz o' = Inr q \<Longrightarrow> ros_request_ok q"
  by (auto simp: build_ptz_def bind_res_eq_Inr ros_request_ok_def)

lemma build_fields_ok: "build_fields J dumps r = Inr q \<Longrightarrow> ros_request_ok q"
  unfolding build_fields_def Let_def
  by (auto split: if_splits simp: bind_res_eq_Inr ros_request_ok_def [of "PanRequest x" for x] ros_request_ok_def [of EmptyRequest]
      ros_request_ok_def [of "PresetRequest x" for x] ros_request_ok_def [of "SavePresetRequest x y" for x y]
      ros_request_ok_def [of "ManualModeRequest x" for x] ros_request_ok_def [of "ProfileRequest x" for x]
      intro: build_goal_ok build_route_ok build_patrol_ok build_brake_ok build_zones_ok build_ptz_ok)

text \<open>The operations whose fields the protocol has validated completely.\<close>

definition validated_operations :: "string list" where
  "validated_operations = plain_operations @ [''camera_pan'', ''camera_ptz_move'', ''camera_ptz_preset'', ''camera_ptz_set_preset'',
     ''set_manual_mode'', ''set_navigation_profile'']"

lemma axis_total: "number_or_absent r key \<Longrightarrow> \<exists>x. axis_field (rq_fields r) key = Inr x"
  using has_numberE [of r key] by (cases "rq_fields r key") (auto simp: number_or_absent_def axis_field_def get_key_def)

lemma validated_builds:
  assumes "fields_ok r" "rq_op r \<in> set validated_operations"
  shows "\<exists>q. build_fields J dumps r = Inr q"
proof -
  consider "rq_op r \<in> set plain_operations" | "rq_op r = ''camera_pan''" | "rq_op r = ''camera_ptz_move''" | "rq_op r = ''camera_ptz_preset''"
    | "rq_op r = ''camera_ptz_set_preset''" | "rq_op r = ''set_manual_mode''" | "rq_op r = ''set_navigation_profile''"
    using assms(2) by (auto simp: validated_operations_def)
  then show ?thesis
  proof cases
    case 1
    then have "rq_op r \<noteq> ''camera_pan''" by (auto simp: plain_operations_def)
    then show ?thesis using 1 by (simp add: build_fields_def Let_def)
  next
    case 2
    then show ?thesis using assms(1) by (auto simp: build_fields_def Let_def fields_ok_def the_field_def dest: has_numberE)
  next
    case 3
    then obtain b where ok: "rq_fields r ''relative'' = Some (JBool b)" "list_all (number_or_absent r) ptz_axes"
      using assms(1) by (auto simp: fields_ok_def ptz_ok_def)
    then have "\<exists>x. axis_field (rq_fields r) ''pan_deg'' = Inr x" "\<exists>x. axis_field (rq_fields r) ''tilt_deg'' = Inr x"
        "\<exists>x. axis_field (rq_fields r) ''zoom_level'' = Inr x"
      using axis_total by (auto simp: ptz_axes_def)
    then have "\<exists>q. build_ptz (rq_fields r) = Inr q" using ok(1) by (auto simp: build_ptz_def the_field_def)
    then show ?thesis using 3 by (simp add: build_fields_def plain_operations_def)
  qed (use assms(1) in \<open>auto simp: build_fields_def plain_operations_def Let_def fields_ok_def preset_ok_def the_field_def\<close>)
qed

text \<open>C13. A request that reaches a service is usable: goal, route and patrol positions are finite, their arrays have one entry per
waypoint, a brake is within 0 and 100. And a request the protocol accepted is built for every operation it validates, stops and
cancellations among them, unless the message class refuses a field.\<close>

theorem ros_requests_usable:
  assumes "accept_request raw = Inr r"
  shows "(\<forall>q. build_ros_request J dumps fits r = Inr q \<longrightarrow> ros_request_ok q \<and> fits q) \<and>
    (rq_op r \<in> set validated_operations \<longrightarrow> (\<exists>q. build_fields J dumps r = Inr q \<and> (fits q \<longrightarrow> build_ros_request J dumps fits r = Inr q)))"
  using build_fields_ok [of J dumps r] validated_builds [of r J dumps] accepted_request_normal [OF assms]
  by (auto simp: build_ros_request_def bind_res_eq_Inr)

lemma ros_requests_usable_witness:
  "\<forall>J dumps. \<exists>q. build_ros_request J dumps (\<lambda>_. True) \<lparr> rq_op = ''cancel_goal'', rq_id = None, rq_fields = Map.empty \<rparr> = Inr q"
proof -
  have "py_strip ''cancel_goal'' = ''cancel_goal''" by code_simp
  then have "accept_request (JObj [(''op'', JStr ''cancel_goal'')]) = Inr \<lparr> rq_op = ''cancel_goal'', rq_id = None, rq_fields = Map.empty \<rparr>"
    by (simp add: accept_request_def parse_request_def request_id_def supplied_ids_def id_aliases_def List.map_filter_def
        validate_request_def known_operations_def datum_mutations_def restrict_map_def map_add_def fun_eq_iff Let_def)
  note usable = ros_requests_usable [OF this]
  show ?thesis
  proof (intro allI)
    fix J dumps
    show "\<exists>q. build_ros_request J dumps (\<lambda>_. True) \<lparr> rq_op = ''cancel_goal'', rq_id = None, rq_fields = Map.empty \<rparr> = Inr q"
      using usable [of J dumps "\<lambda>_. True"] by (auto simp: validated_operations_def plain_operations_def)
  qed
qed

end
