(* ===== verification/Waypoint_Store.thy ===== *)
theory Waypoint_Store
  imports Patrol_Store
begin

section \<open>The waypoint file of the Cockpit\<close>

text \<open>
  \<open>salus_web/waypoint_repository.py\<close>: the normal form of a waypoint document, its YAML document, and the file that is
  replaced as a whole. The YAML library is a parameter: \<open>ya_dump\<close> prints a document, \<open>ya_load\<close> gives the value of a
  text, or \<open>None\<close> where it raises \<open>YAMLError\<close>.
\<close>

datatype waypoint_error =
    RootNotMap | NoWaypoints | WaypointNotObject nat | BadNumber string | CoordinatesOutOfRange nat | BadWaypointRole nat
  | BadWaypointActions nat | SecondHome | ProfileNotObject | NotAList string | NotIntegers string | InvalidYaml
  | FileMissing | FileFailure | WaypointEscaped py_exception

type_synonym 'a waypoint_result = "waypoint_error + 'a"

record map_waypoint =
  mw_lat :: pyfloat
  mw_lon :: pyfloat
  mw_yaw :: "pyfloat option"
  mw_home :: bool
  mw_actions :: "jval list option"

record patrol_refs =
  pf_home :: int
  pf_entry :: int
  pf_loop :: "int list"
  pf_return :: "int list"
  pf_depart :: "int list"

record waypoint_document =
  wd_waypoints :: "map_waypoint list"
  wd_profile :: "patrol_refs option"

record yaml_lib =
  ya_dump :: "jval \<Rightarrow> string"
  ya_load :: "string \<Rightarrow> jval option"

subsection \<open>Numbers\<close>

text \<open>\<open>_finite\<close>: a Boolean is no number; an integer that is no float raises \<open>OverflowError\<close>, which is not caught.\<close>

definition finite_value :: "jval option \<Rightarrow> string \<Rightarrow> pyfloat waypoint_result" where
  "finite_value v name =
     (case v of
        None \<Rightarrow> Inl (BadNumber name)
      | Some (JBool b) \<Rightarrow> Inl (BadNumber name)
      | Some w \<Rightarrow>
          (case float_call w of
             Inl e \<Rightarrow> Inl (WaypointEscaped e)
           | Inr None \<Rightarrow> Inl (BadNumber name)
           | Inr (Some x) \<Rightarrow> if isfinite x then Inr x else Inl (BadNumber name)))"

text \<open>\<open>_index\<close>: a string must be the decimal text of the integer, up to blanks around it.\<close>

fun index_value :: "string \<Rightarrow> jval \<Rightarrow> int waypoint_result" where
  "index_value name (JInt n) = Inr n"
| "index_value name (JFloat x) =
     (case x of
        Fin q \<Rightarrow> if q = of_int \<lfloor>q\<rfloor> then Inr \<lfloor>q\<rfloor> else Inl (NotIntegers name)
      | _ \<Rightarrow> Inl (NotIntegers name))"
| "index_value name (JStr s) =
     (case py_int_of_string s of
        Some n \<Rightarrow> if str_of_int n = py_strip s then Inr n else Inl (NotIntegers name)
      | None \<Rightarrow> Inl (NotIntegers name))"
| "index_value name v = Inl (NotIntegers name)"

subsection \<open>The normal form\<close>

text \<open>\<open>raw.get(a, raw.get(b))\<close>.\<close>

definition either_key :: "jobject \<Rightarrow> string \<Rightarrow> string \<Rightarrow> jval option" where
  "either_key o' a b = (case o' a of Some v \<Rightarrow> Some v | None \<Rightarrow> o' b)"

definition role_of :: "jobject \<Rightarrow> nat \<Rightarrow> bool waypoint_result" where
  "role_of o' i =
     (case either_key o' ''role'' ''waypoint_role'' of
        None \<Rightarrow> Inr False
      | Some (JStr s) \<Rightarrow>
          (let r = py_lower (py_strip s)
           in if r \<in> {''normal'', ''home''} then Inr (r = ''home'') else Inl (BadWaypointRole i))
      | Some _ \<Rightarrow> Inl (BadWaypointRole i))"

definition actions_of :: "jobject \<Rightarrow> nat \<Rightarrow> jval list option waypoint_result" where
  "actions_of o' i =
     (case o' ''actions'' of
        None \<Rightarrow> Inr None
      | Some JNull \<Rightarrow> Inr None
      | Some (JList l) \<Rightarrow> Inr (Some l)
      | Some _ \<Rightarrow> Inl (BadWaypointActions i))"

definition normalize_waypoint :: "jval \<Rightarrow> nat \<Rightarrow> map_waypoint waypoint_result" where
  "normalize_waypoint raw i =
     (case raw of
        JObj kvs \<Rightarrow>
          (let o' = map_of kvs in
           bind_res (finite_value (either_key o' ''lat'' ''latitude'') ''latitude'') (\<lambda>lat.
           bind_res (finite_value (either_key o' ''lon'' ''longitude'') ''longitude'') (\<lambda>lon.
           bind_res (raise_if (\<not> (fle (Fin (- 90)) lat \<and> fle lat (Fin 90)) \<or> \<not> (fle (Fin (- 180)) lon \<and> fle lon (Fin 180)))
                      (CoordinatesOutOfRange i)) (\<lambda>_.
           bind_res (case either_key o' ''yaw_deg'' ''yaw'' of
                       None \<Rightarrow> Inr None | Some JNull \<Rightarrow> Inr None
                     | Some v \<Rightarrow> bind_res (finite_value (Some v) ''yaw'') (\<lambda>x. Inr (Some x))) (\<lambda>yaw.
           bind_res (role_of o' i) (\<lambda>home.
           bind_res (actions_of o' i) (\<lambda>actions.
             Inr \<lparr> mw_lat = lat, mw_lon = lon, mw_yaw = yaw, mw_home = home, mw_actions = actions \<rparr>)))))))
      | _ \<Rightarrow> Inl (WaypointNotObject i))"

text \<open>The loop over the waypoints: a second HOME is refused where it occurs.\<close>

fun normalize_waypoints :: "jval list \<Rightarrow> nat \<Rightarrow> bool \<Rightarrow> map_waypoint list waypoint_result" where
  "normalize_waypoints [] i home = Inr []"
| "normalize_waypoints (v # vs) i home =
     bind_res (normalize_waypoint v i) (\<lambda>w.
       if mw_home w \<and> home then Inl SecondHome
       else bind_res (normalize_waypoints vs (Suc i) (home \<or> mw_home w)) (\<lambda>ws. Inr (w # ws)))"

definition profile_index :: "jobject \<Rightarrow> nat \<Rightarrow> string \<Rightarrow> int waypoint_result" where
  "profile_index o' n name = bind_res (index_value name (get_key o' name (JInt (- 1)))) (\<lambda>v. Inr (if v < int n then v else - 1))"

fun collect_indices :: "nat \<Rightarrow> int list \<Rightarrow> int list \<Rightarrow> int list" where
  "collect_indices n acc [] = acc"
| "collect_indices n acc (i # is) = collect_indices n (if 0 \<le> i \<and> i < int n \<and> i \<notin> set acc then acc @ [i] else acc) is"

definition profile_indices :: "jobject \<Rightarrow> nat \<Rightarrow> string \<Rightarrow> int list waypoint_result" where
  "profile_indices o' n name =
     (case get_key o' name (JList []) of
        JList l \<Rightarrow> bind_res (map_res (index_value name) l) (\<lambda>is. Inr (collect_indices n [] is))
      | _ \<Rightarrow> Inl (NotAList name))"

definition normalize_patrol_profile :: "jval option \<Rightarrow> nat \<Rightarrow> patrol_refs option waypoint_result" where
  "normalize_patrol_profile raw n =
     (case raw of
        None \<Rightarrow> Inr None
      | Some JNull \<Rightarrow> Inr None
      | Some (JObj kvs) \<Rightarrow>
          (let o' = map_of kvs in
           bind_res (profile_index o' n ''home_waypoint_index'') (\<lambda>home.
           bind_res (profile_index o' n ''depart_entry_waypoint_index'') (\<lambda>entry.
           bind_res (profile_indices o' n ''loop_waypoint_indices'') (\<lambda>lp.
           bind_res (profile_indices o' n ''return_waypoint_indices'') (\<lambda>ret.
           bind_res (profile_indices o' n ''depart_waypoint_indices'') (\<lambda>dep.
             Inr (Some \<lparr> pf_home = home, pf_entry = entry, pf_loop = lp, pf_return = ret, pf_depart = dep \<rparr>)))))))
      | Some _ \<Rightarrow> Inl ProfileNotObject)"

definition normalize_document :: "jval \<Rightarrow> waypoint_document waypoint_result" where
  "normalize_document raw =
     (case raw of
        JObj kvs \<Rightarrow>
          (case map_of kvs ''waypoints'' of
             Some (JList vs) \<Rightarrow>
               if vs = [] then Inl NoWaypoints
               else
                 bind_res (normalize_waypoints vs 0 False) (\<lambda>ws.
                 bind_res (normalize_patrol_profile (map_of kvs ''patrol_profile'') (length ws)) (\<lambda>p.
                   Inr \<lparr> wd_waypoints = ws, wd_profile = p \<rparr>))
           | _ \<Rightarrow> Inl NoWaypoints)
      | _ \<Rightarrow> Inl RootNotMap)"

subsection \<open>The YAML document\<close>

definition profile_yaml :: "patrol_refs \<Rightarrow> jval" where
  "profile_yaml p = JObj [(''home_waypoint_index'', JInt (pf_home p)), (''depart_entry_waypoint_index'', JInt (pf_entry p)),
     (''loop_waypoint_indices'', JList (map JInt (pf_loop p))), (''return_waypoint_indices'', JList (map JInt (pf_return p))),
     (''depart_waypoint_indices'', JList (map JInt (pf_depart p)))]"

definition waypoint_yaml :: "map_waypoint \<Rightarrow> jval" where
  "waypoint_yaml w = JObj ([(''latitude'', JFloat (mw_lat w)), (''longitude'', JFloat (mw_lon w))] @
     (case mw_yaw w of None \<Rightarrow> [] | Some y \<Rightarrow> [(''yaw'', JFloat y)]) @
     (case mw_actions w of None \<Rightarrow> [] | Some as \<Rightarrow> if as = [] then [] else [(''actions'', JList as)]) @
     (if mw_home w then [(''role'', JStr ''home'')] else []))"

definition to_yaml_document :: "waypoint_document \<Rightarrow> jval" where
  "to_yaml_document d = JObj ((''waypoints'', JList (map waypoint_yaml (wd_waypoints d))) #
     (case wd_profile d of None \<Rightarrow> [] | Some p \<Rightarrow> [(''patrol_profile'', profile_yaml p)]))"

definition parse_yaml :: "yaml_lib \<Rightarrow> string \<Rightarrow> waypoint_document waypoint_result" where
  "parse_yaml Y text = (case ya_load Y text of None \<Rightarrow> Inl InvalidYaml | Some v \<Rightarrow> normalize_document v)"

text \<open>The dictionary a document holds in memory, which \<open>save\<close> checks again.\<close>

definition waypoint_dict :: "map_waypoint \<Rightarrow> jval" where
  "waypoint_dict w = JObj ([(''lat'', JFloat (mw_lat w)), (''lon'', JFloat (mw_lon w))] @
     (case mw_yaw w of None \<Rightarrow> [] | Some y \<Rightarrow> [(''yaw_deg'', JFloat y)]) @
     (if mw_home w then [(''role'', JStr ''home'')] else []) @
     (case mw_actions w of None \<Rightarrow> [] | Some as \<Rightarrow> [(''actions'', JList as)]))"

definition document_dict :: "waypoint_document \<Rightarrow> jval" where
  "document_dict d = JObj [(''waypoints'', JList (map waypoint_dict (wd_waypoints d))),
     (''patrol_profile'', case wd_profile d of None \<Rightarrow> JNull | Some p \<Rightarrow> profile_yaml p)]"

text \<open>
  The file: absent, unreadable or a text. A write is checked, written to a temporary file and moved over the old one; it
  raises before the move (\<open>WriteFails\<close>), or after it, where only the directory was not synchronized (\<open>SyncFails\<close>).
\<close>

datatype text_file = NoFile | Unreadable | TextFile string

datatype write_outcome = Written | WriteFails | SyncFails

definition load_waypoints :: "yaml_lib \<Rightarrow> text_file \<Rightarrow> waypoint_document waypoint_result" where
  "load_waypoints Y f = (case f of NoFile \<Rightarrow> Inl FileMissing | Unreadable \<Rightarrow> Inl FileFailure | TextFile t \<Rightarrow> parse_yaml Y t)"

definition save_waypoints :: "yaml_lib \<Rightarrow> write_outcome \<Rightarrow> text_file \<Rightarrow> waypoint_document \<Rightarrow> text_file \<times> unit waypoint_result" where
  "save_waypoints Y w f d =
     (case normalize_document (document_dict d) of
        Inl e \<Rightarrow> (f, Inl e)
      | Inr d1 \<Rightarrow>
          (case w of
             WriteFails \<Rightarrow> (f, Inl FileFailure)
           | SyncFails \<Rightarrow> (TextFile (ya_dump Y (to_yaml_document d1)), Inl FileFailure)
           | Written \<Rightarrow> (TextFile (ya_dump Y (to_yaml_document d1)), Inr ())))"

subsection \<open>Normal documents\<close>

definition waypoint_normal :: "map_waypoint \<Rightarrow> bool" where
  "waypoint_normal w \<longleftrightarrow> isfinite (mw_lat w) \<and> isfinite (mw_lon w) \<and> fle (Fin (- 90)) (mw_lat w) \<and> fle (mw_lat w) (Fin 90) \<and>
     fle (Fin (- 180)) (mw_lon w) \<and> fle (mw_lon w) (Fin 180) \<and> (case mw_yaw w of None \<Rightarrow> True | Some y \<Rightarrow> isfinite y)"

definition indices_normal :: "nat \<Rightarrow> int list \<Rightarrow> bool" where
  "indices_normal n is \<longleftrightarrow> distinct is \<and> list_all (\<lambda>i. 0 \<le> i \<and> i < int n) is"

definition profile_normal :: "nat \<Rightarrow> patrol_refs \<Rightarrow> bool" where
  "profile_normal n p \<longleftrightarrow> (pf_home p < int n) \<and> (pf_entry p < int n) \<and> list_all (indices_normal n) [pf_loop p, pf_return p, pf_depart p]"

text \<open>At most one HOME.\<close>

definition homes :: "map_waypoint list \<Rightarrow> nat" where
  "homes ws = length (filter mw_home ws)"

definition document_normal :: "waypoint_document \<Rightarrow> bool" where
  "document_normal d \<longleftrightarrow> wd_waypoints d \<noteq> [] \<and> list_all waypoint_normal (wd_waypoints d) \<and> homes (wd_waypoints d) \<le> 1 \<and>
     (case wd_profile d of None \<Rightarrow> True | Some p \<Rightarrow> profile_normal (length (wd_waypoints d)) p)"

lemma finite_value_ok: "finite_value v name = Inr x \<Longrightarrow> isfinite x"
  by (auto simp: finite_value_def split: option.splits jval.splits sum.splits if_splits)

lemma finite_value_float [simp]: "isfinite x \<Longrightarrow> finite_value (Some (JFloat x)) name = Inr x"
  by (simp add: finite_value_def)

lemma normal_waypoint: "normalize_waypoint v i = Inr w \<Longrightarrow> waypoint_normal w"
  by (cases v)
     (auto simp: normalize_waypoint_def waypoint_normal_def bind_res_eq_Inr Let_def dest: finite_value_ok split: option.splits jval.splits)

lemma normal_waypoints:
  "normalize_waypoints vs i home = Inr ws \<Longrightarrow> length ws = length vs \<and> list_all waypoint_normal ws \<and> homes ws + (if home then 1 else 0) \<le> 1"
proof (induction vs arbitrary: i home ws)
  case (Cons v vs)
  then obtain w ws' where w: "normalize_waypoint v i = Inr w" "\<not> (mw_home w \<and> home)" "ws = w # ws'"
    "normalize_waypoints vs (Suc i) (home \<or> mw_home w) = Inr ws'"
    by (auto simp: bind_res_eq_Inr split: if_splits)
  show ?case using Cons.IH [OF w(4)] w normal_waypoint [OF w(1)] by (auto simp: homes_def split: if_splits)
qed (simp add: homes_def)

lemma collected: "indices_normal n acc \<Longrightarrow> indices_normal n (collect_indices n acc is)"
  by (induction n acc "is" rule: collect_indices.induct) (auto simp: indices_normal_def)

lemma collect_normal: "indices_normal n (acc @ is) \<Longrightarrow> collect_indices n acc is = acc @ is"
  by (induction "is" arbitrary: acc) (simp_all add: indices_normal_def)

lemma normal_index: "profile_index o' n name = Inr v \<Longrightarrow> v < int n"
  by (auto simp: profile_index_def bind_res_eq_Inr split: if_splits)

lemma normal_indices: "profile_indices o' n name = Inr l \<Longrightarrow> indices_normal n l"
proof -
  have "indices_normal n (collect_indices n [] is)" for "is" by (rule collected) (simp add: indices_normal_def)
  then show "profile_indices o' n name = Inr l \<Longrightarrow> indices_normal n l"
    by (auto simp: profile_indices_def bind_res_eq_Inr split: jval.splits)
qed

lemma no_profile: "normalize_patrol_profile None n = Inr None" "normalize_patrol_profile (Some JNull) n = Inr None"
  by (simp_all add: normalize_patrol_profile_def)

lemma normal_profile: "normalize_patrol_profile raw n = Inr (Some p) \<Longrightarrow> 0 < n \<Longrightarrow> profile_normal n p"
  by (auto simp: normalize_patrol_profile_def profile_normal_def bind_res_eq_Inr Let_def dest: normal_index normal_indices
    split: option.splits jval.splits)

lemma normalized_normal: "normalize_document v = Inr d \<Longrightarrow> document_normal d"
proof -
  assume n: "normalize_document v = Inr d"
  then obtain kvs vs ws p where d: "vs \<noteq> []" "normalize_waypoints vs 0 False = Inr ws" "d = \<lparr> wd_waypoints = ws, wd_profile = p \<rparr>"
    "normalize_patrol_profile (map_of kvs ''patrol_profile'') (length ws) = Inr p"
    by (auto simp: normalize_document_def bind_res_eq_Inr split: jval.splits option.splits if_splits)
  note w = normal_waypoints [OF d(2)]
  moreover have "0 < length ws" using w d(1) by simp
  ultimately show ?thesis using d normal_profile [of "map_of kvs ''patrol_profile''" "length ws"]
    by (cases p) (auto simp: document_normal_def)
qed

subsection \<open>Documents are read back\<close>

text \<open>An empty list of actions is not written.\<close>

definition as_written :: "map_waypoint \<Rightarrow> map_waypoint" where
  "as_written w = w \<lparr> mw_actions := (if mw_actions w = Some [] then None else mw_actions w) \<rparr>"

definition written_document :: "waypoint_document \<Rightarrow> waypoint_document" where
  "written_document d = d \<lparr> wd_waypoints := map as_written (wd_waypoints d) \<rparr>"

lemma home_text: "py_lower (py_strip ''home'') = ''home''"
  by (simp add: py_strip_def py_space_def py_lower_def py_lower_char_def Let_def)

lemma read_waypoint_yaml: "waypoint_normal w \<Longrightarrow> normalize_waypoint (waypoint_yaml w) i = Inr (as_written w)"
  by (cases "mw_yaw w"; cases "mw_actions w"; cases "mw_home w")
     (auto simp: normalize_waypoint_def waypoint_yaml_def waypoint_normal_def either_key_def role_of_def actions_of_def as_written_def
        home_text Let_def)

lemma read_waypoint_dict: "waypoint_normal w \<Longrightarrow> normalize_waypoint (waypoint_dict w) i = Inr w"
  by (cases "mw_yaw w"; cases "mw_actions w"; cases "mw_home w")
     (auto simp: normalize_waypoint_def waypoint_dict_def waypoint_normal_def either_key_def role_of_def actions_of_def home_text Let_def)

lemma read_waypoints:
  assumes "\<And>w i. waypoint_normal w \<Longrightarrow> normalize_waypoint (enc w) i = Inr (g w)" "\<And>w. mw_home (g w) = mw_home w"
  shows "list_all waypoint_normal ws \<Longrightarrow> homes ws + (if home then 1 else 0) \<le> 1 \<Longrightarrow>
    normalize_waypoints (map enc ws) i home = Inr (map g ws)"
proof (induction ws arbitrary: i home)
  case (Cons w ws)
  have "homes ws + (if home \<or> mw_home w then 1 else 0) \<le> 1" using Cons.prems(2) by (auto simp: homes_def split: if_splits)
  from Cons.IH [OF _ this] Cons.prems assms show ?case by (auto simp: homes_def split: if_splits)
qed simp

lemma read_ints: "map_res (index_value name) (map JInt l) = Inr l"
  by (induction l) simp_all

lemma read_profile: "profile_normal n p \<Longrightarrow> normalize_patrol_profile (Some (profile_yaml p)) n = Inr (Some p)"
  using collect_normal [of n "[]"]
  by (simp add: normalize_patrol_profile_def profile_yaml_def profile_normal_def profile_index_def profile_indices_def get_key_def read_ints Let_def)

lemma read_yaml_document: "document_normal d \<Longrightarrow> normalize_document (to_yaml_document d) = Inr (written_document d)"
  using read_waypoints [of waypoint_yaml as_written, OF read_waypoint_yaml, of "wd_waypoints d" False 0]
  by (cases "wd_profile d")
     (simp_all add: normalize_document_def to_yaml_document_def document_normal_def written_document_def as_written_def
       read_profile no_profile)

lemma read_document_dict: "document_normal d \<Longrightarrow> normalize_document (document_dict d) = Inr d"
  using read_waypoints [of waypoint_dict "\<lambda>w. w", OF read_waypoint_dict, of "wd_waypoints d" False 0]
  by (cases "wd_profile d")
     (simp_all add: normalize_document_def document_dict_def document_normal_def read_profile no_profile)

subsection \<open>Properties\<close>

text \<open>
  C19. What is saved is what is loaded: a document that came from a request is in normal form and is saved as it is; when
  the library reads back what it prints and the write succeeds, loading the file gives the document, up to empty lists of
  actions; when the write fails before the move, the file is the old one.
\<close>

theorem waypoint_file_roundtrip:
  assumes "normalize_document raw = Inr d" "ya_load Y (ya_dump Y (to_yaml_document d)) = Some (to_yaml_document d)"
  shows "load_waypoints Y (fst (save_waypoints Y Written f d)) = Inr (written_document d) \<and>
    snd (save_waypoints Y Written f d) = Inr () \<and> fst (save_waypoints Y WriteFails f d) = f \<and> document_normal d"
  using normalized_normal [OF assms(1)] read_document_dict [of d] read_yaml_document [of d] assms(2)
  by (simp add: save_waypoints_def load_waypoints_def parse_yaml_def)

subsection \<open>Witness\<close>

definition one_waypoint :: jval where
  "one_waypoint = JObj [(''waypoints'', JList [JObj [(''lat'', JInt 10), (''lon'', JInt 20), (''role'', JStr ''home''), (''actions'', JList [])]])]"

definition one_document :: waypoint_document where
  "one_document = \<lparr> wd_waypoints = [\<lparr> mw_lat = Fin 10, mw_lon = Fin 20, mw_yaw = None, mw_home = True, mw_actions = Some [] \<rparr>], wd_profile = None \<rparr>"

text \<open>A library for the texts of this document.\<close>

definition one_yaml :: yaml_lib where
  "one_yaml = \<lparr> ya_dump = (\<lambda>_. ''text''), ya_load = (\<lambda>t. if t = ''text'' then Some (to_yaml_document one_document) else None) \<rparr>"

lemma waypoint_file_roundtrip_witness:
  "load_waypoints one_yaml (fst (save_waypoints one_yaml Written NoFile one_document)) = Inr (written_document one_document)"
proof -
  have "normalize_document one_waypoint = Inr one_document"
    by (simp add: normalize_document_def one_waypoint_def normalize_waypoint_def either_key_def finite_value_def role_of_def actions_of_def
      home_text no_profile one_document_def float_of_int_small Let_def)
  moreover have "ya_load one_yaml (ya_dump one_yaml (to_yaml_document one_document)) = Some (to_yaml_document one_document)"
    by (simp add: one_yaml_def)
  ultimately show ?thesis using waypoint_file_roundtrip [of one_waypoint one_document one_yaml NoFile] by blast
qed

end
