(* ===== verification/Route_Library.thy ===== *)
theory Route_Library
  imports Patrol_Store "HOL-Library.List_Lexorder" "HOL-Library.Char_ord"
begin

section \<open>The shared route library\<close>

text \<open>
  \<open>salus_web/route_repository.py\<close>: the check of a route document and the library of named routes with revisions. The file
  holds a decoded JSON value, or a text that is none. \<open>uuid4\<close>, the printed size of a document and \<open>str.casefold\<close>
  are arguments. An entry is kept as the dictionary it is, with its other keys. Making the directory and taking the lock file are
  taken to succeed.
\<close>

datatype route_failure = RouteRefused string | RouteEscaped py_exception | StoreUnreadable | WriteFailed

type_synonym 'a routed = "route_failure + 'a"

definition invalid_route :: route_failure where
  "invalid_route = RouteRefused ''INVALID_ROUTE''"

definition store_invalid :: route_failure where
  "store_invalid = RouteRefused ''ROUTE_STORE_INVALID''"

subsection \<open>The check of a document\<close>

text \<open>\<open>math.isfinite\<close> of an integer that is no float raises \<open>OverflowError\<close>.\<close>

definition check_number :: "(jval \<Rightarrow> bool) \<Rightarrow> jval option \<Rightarrow> unit routed" where
  "check_number inside v =
     (case v of
        Some (JInt n) \<Rightarrow>
          (case float_of_int n of None \<Rightarrow> Inl (RouteEscaped OverflowError) | Some x \<Rightarrow> raise_if (\<not> inside (JInt n)) invalid_route)
      | Some (JFloat x) \<Rightarrow> raise_if (\<not> isfinite x \<or> \<not> inside (JFloat x)) invalid_route
      | _ \<Rightarrow> Inl invalid_route)"

text \<open>\<open>lo <= value <= hi\<close> for an integer or a float.\<close>

definition number_within :: "int \<Rightarrow> int \<Rightarrow> jval \<Rightarrow> bool" where
  "number_within lo hi v =
     (case v of JInt n \<Rightarrow> lo \<le> n \<and> n \<le> hi | JFloat x \<Rightarrow> fle (Fin (of_int lo)) x \<and> fle x (Fin (of_int hi)) | _ \<Rightarrow> False)"

definition number_positive :: "jval \<Rightarrow> bool" where
  "number_positive v = (case v of JInt n \<Rightarrow> 0 < n | JFloat x \<Rightarrow> flt fzero x | _ \<Rightarrow> False)"

definition check_action :: "jval \<Rightarrow> unit routed" where
  "check_action a =
     (case a of
        JObj kvs \<Rightarrow>
          (let o' = map_of kvs in
           if o' ''type'' = Some (JStr ''brake_hold'')
           then bind_res (check_number (\<lambda>v. number_positive v \<and> number_within 0 600 v) (o' ''duration_s''))
                  (\<lambda>_. check_number (number_within 0 100) (Some (get_key o' ''brake_pct'' (JInt 100))))
           else if o' ''type'' = Some (JStr ''set_navigation_profile'')
           then raise_if (o' ''profile'' \<notin> {Some (JStr ''urban''), Some (JStr ''rural'')}) invalid_route
           else Inl invalid_route)
      | _ \<Rightarrow> Inl invalid_route)"

fun check_each :: "('a \<Rightarrow> unit routed) \<Rightarrow> 'a list \<Rightarrow> unit routed" where
  "check_each f [] = Inr ()"
| "check_each f (x # xs) = bind_res (f x) (\<lambda>_. check_each f xs)"

definition is_home :: "jobject \<Rightarrow> bool" where
  "is_home o' \<longleftrightarrow> o' ''role'' = Some (JStr ''home'')"

text \<open>One waypoint: the local names seen so far and whether a HOME was seen go in and out.\<close>

definition check_local_id :: "jobject \<Rightarrow> string set \<Rightarrow> string set routed" where
  "check_local_id o' ids =
     (case o' ''localId'' of
        None \<Rightarrow> Inr ids
      | Some (JStr s) \<Rightarrow> if s = [] \<or> s \<in> ids then Inl invalid_route else Inr (insert s ids)
      | Some _ \<Rightarrow> Inl invalid_route)"

definition check_route_point :: "jval \<Rightarrow> string set \<times> bool \<Rightarrow> (string set \<times> bool) routed" where
  "check_route_point p seen =
     (case p of
        JObj kvs \<Rightarrow>
          (let o' = map_of kvs in
           bind_res (check_local_id o' (fst seen)) (\<lambda>ids.
           bind_res (check_number (\<lambda>_. True) (o' ''x'')) (\<lambda>_.
           bind_res (check_number (\<lambda>_. True) (o' ''y'')) (\<lambda>_.
           bind_res (if o' ''yawDeg'' = None then Inr () else check_number (\<lambda>_. True) (o' ''yawDeg'')) (\<lambda>_.
           bind_res (raise_if (\<not> (case (o' ''x'', o' ''y'') of (Some x, Some y) \<Rightarrow> number_within (- 90) 90 x \<and> number_within (- 180) 180 y
               | _ \<Rightarrow> False)) invalid_route) (\<lambda>_.
           bind_res (raise_if (get_key o' ''role'' (JStr ''normal'') \<notin> {JStr ''normal'', JStr ''home''}) invalid_route) (\<lambda>_.
           bind_res (raise_if (is_home o' \<and> snd seen) invalid_route) (\<lambda>_.
           bind_res (case get_key o' ''actions'' (JList []) of JList as \<Rightarrow> check_each check_action as | _ \<Rightarrow> Inl invalid_route) (\<lambda>_.
             Inr (ids, snd seen \<or> is_home o'))))))))))
      | _ \<Rightarrow> Inl invalid_route)"

fun check_route_points :: "jval list \<Rightarrow> string set \<times> bool \<Rightarrow> unit routed" where
  "check_route_points [] seen = Inr ()"
| "check_route_points (p # ps) seen = bind_res (check_route_point p seen) (check_route_points ps)"

definition index_refs :: "string list" where
  "index_refs = [''homeWaypointIndex'', ''departEntryWaypointIndex'']"

definition index_list_refs :: "string list" where
  "index_list_refs = [''loopWaypointIndices'', ''returnWaypointIndices'', ''departWaypointIndices'']"

definition index_from :: "int \<Rightarrow> nat \<Rightarrow> jval \<Rightarrow> bool" where
  "index_from lo n v = (case v of JInt i \<Rightarrow> lo \<le> i \<and> i < int n | _ \<Rightarrow> False)"

text \<open>Integers with the same text are the same integer; a list with anything else in it is refused either way.\<close>

definition check_refs :: "jval \<Rightarrow> nat \<Rightarrow> unit routed" where
  "check_refs refs n =
     (case refs of
        JObj kvs \<Rightarrow>
          (let o' = map_of kvs in
           raise_if (\<not> (list_all (\<lambda>key. index_from (- 1) n (get_key o' key (JInt (- 1)))) index_refs \<and>
             list_all (\<lambda>key. case get_key o' key (JList []) of JList vs \<Rightarrow> distinct vs \<and> list_all (index_from 0 n) vs | _ \<Rightarrow> False)
               index_list_refs)) invalid_route)
      | _ \<Rightarrow> Inl invalid_route)"

text \<open>\<open>json.dumps(document, allow_nan=False)\<close> refuses floats that are not finite, wherever they are.\<close>

fun all_finite :: "jval \<Rightarrow> bool" where
  "all_finite (JFloat x) = isfinite x"
| "all_finite (JList vs) = list_all all_finite vs"
| "all_finite (JObj kvs) = list_all (\<lambda>kv. all_finite (snd kv)) kvs"
| "all_finite v = True"

definition validate_route :: "(jval \<Rightarrow> nat) \<Rightarrow> jval option \<Rightarrow> jval routed" where
  "validate_route size_of document =
     (case document of
        Some (JObj kvs) \<Rightarrow>
          (let o' = map_of kvs in
           case o' ''waypoints'' of
             Some (JList ps) \<Rightarrow>
               bind_res (raise_if (\<not> (1 \<le> length ps \<and> length ps \<le> 200)) invalid_route) (\<lambda>_.
               bind_res (check_route_points ps ({}, False)) (\<lambda>_.
               bind_res (case get_key o' ''loopRoute'' (JBool True) of JBool b \<Rightarrow> Inr () | _ \<Rightarrow> Inl invalid_route) (\<lambda>_.
               bind_res (case get_key o' ''patrolMissionProfileRefs'' JNull of JNull \<Rightarrow> Inr () | v \<Rightarrow> check_refs v (length ps)) (\<lambda>_.
               bind_res (raise_if (\<not> all_finite (JObj kvs) \<or> 512000 < size_of (JObj kvs)) invalid_route) (\<lambda>_.
                 Inr (JObj kvs))))))
           | _ \<Rightarrow> Inl invalid_route)
      | _ \<Rightarrow> Inl invalid_route)"

subsection \<open>Entries\<close>

type_synonym entry = "(string \<times> jval) list"

definition entry_id :: "entry \<Rightarrow> string option" where
  "entry_id e = (case map_of e ''id'' of Some (JStr s) \<Rightarrow> Some s | _ \<Rightarrow> None)"

definition entry_name :: "entry \<Rightarrow> string option" where
  "entry_name e = (case map_of e ''name'' of Some (JStr s) \<Rightarrow> if py_strip s = [] then None else Some s | _ \<Rightarrow> None)"

definition entry_revision :: "entry \<Rightarrow> int option" where
  "entry_revision e = (case map_of e ''revision'' of Some (JInt n) \<Rightarrow> if 1 \<le> n then Some n else None | _ \<Rightarrow> None)"

definition check_entry :: "(jval \<Rightarrow> nat) \<Rightarrow> jval \<Rightarrow> string set \<times> string set \<Rightarrow> (entry \<times> string set \<times> string set) routed" where
  "check_entry size_of v seen =
     (case v of
        JObj e \<Rightarrow>
          (case (entry_id e, entry_name e, entry_revision e) of
             (Some i, Some n, Some r) \<Rightarrow>
               if i \<in> fst seen \<or> n \<in> snd seen then Inl store_invalid
               else bind_res (validate_route size_of (map_of e ''document'')) (\<lambda>_. Inr (e, insert i (fst seen), insert n (snd seen)))
           | _ \<Rightarrow> Inl store_invalid)
      | _ \<Rightarrow> Inl store_invalid)"

fun check_entries :: "(jval \<Rightarrow> nat) \<Rightarrow> jval list \<Rightarrow> string set \<times> string set \<Rightarrow> entry list routed" where
  "check_entries size_of [] seen = Inr []"
| "check_entries size_of (v # vs) seen =
     bind_res (check_entry size_of v seen) (\<lambda>(e, seen1). bind_res (check_entries size_of vs seen1) (\<lambda>es. Inr (e # es)))"

subsection \<open>The file\<close>

datatype route_file = NoRouteFile | NotJson | RouteFile jval

text \<open>The document of a library: its keys, and the entries under \<open>routes\<close>.\<close>

type_synonym library = "(string \<times> jval) list \<times> entry list"

definition empty_library :: library where
  "empty_library = ([(''schema_version'', JInt 1), (''routes'', JList [])], [])"

definition read_library :: "(jval \<Rightarrow> nat) \<Rightarrow> route_file \<Rightarrow> library routed" where
  "read_library size_of f =
     (case f of
        NoRouteFile \<Rightarrow> Inr empty_library
      | NotJson \<Rightarrow> Inl StoreUnreadable
      | RouteFile v \<Rightarrow>
          (case v of
             JObj kvs \<Rightarrow>
               (if map_of kvs ''schema_version'' \<notin> {Some (JInt 1), Some (JFloat (Fin 1)), Some (JBool True)} then Inl store_invalid
                else case map_of kvs ''routes'' of
                  Some (JList vs) \<Rightarrow> bind_res (check_entries size_of vs ({}, {})) (\<lambda>es. Inr (kvs, es))
                | _ \<Rightarrow> Inl store_invalid)
           | _ \<Rightarrow> Inl store_invalid))"

definition library_value :: "library \<Rightarrow> jval" where
  "library_value l = JObj (map (\<lambda>(k, v). (k, if k = ''routes'' then JList (map JObj (snd l)) else v)) (fst l))"

subsection \<open>Operations\<close>

datatype route_request =
    ListRoutes | GetRoute "jval option" | SaveRoute "jval option" "jval option" "jval option" "jval option"
  | DeleteRoute "jval option" "jval option"

datatype route_reply = Listed "(string \<times> string \<times> int) list" | OneRoute entry | Deleted

definition find_route :: "entry list \<Rightarrow> jval option \<Rightarrow> entry option" where
  "find_route es i = find (\<lambda>e. map_of e ''id'' = i) es"

text \<open>An \<open>id\<close> of \<open>null\<close> is none.\<close>

definition given :: "jval option \<Rightarrow> bool" where
  "given i \<longleftrightarrow> i \<noteq> None \<and> i \<noteq> Some JNull"

text \<open>The guard of a change: the route exists and the caller has seen its present revision.\<close>

definition check_revision :: "entry list \<Rightarrow> jval option \<Rightarrow> jval option \<Rightarrow> entry option routed" where
  "check_revision es i expected =
     (if \<not> given i then Inr None
      else case find_route es i of
        None \<Rightarrow> Inl (RouteRefused ''ROUTE_NOT_FOUND'')
      | Some e \<Rightarrow>
          (case expected of
             Some (JInt n) \<Rightarrow> if entry_revision e = Some n then Inr (Some e) else Inl (RouteRefused ''ROUTE_CONFLICT'')
           | _ \<Rightarrow> Inl (RouteRefused ''ROUTE_CONFLICT'')))"

definition route_name :: "jval option \<Rightarrow> string routed" where
  "route_name v =
     (case v of
        Some (JStr s) \<Rightarrow> if 1 \<le> length (py_strip s) \<and> length (py_strip s) \<le> 120 then Inr (py_strip s) else Inl invalid_route
      | _ \<Rightarrow> Inl invalid_route)"

definition saved_entry :: "string \<Rightarrow> entry option \<Rightarrow> string \<Rightarrow> jval \<Rightarrow> entry" where
  "saved_entry uuid old name document =
     [(''id'', JStr (case old of None \<Rightarrow> uuid | Some e \<Rightarrow> the (entry_id e))), (''name'', JStr name),
      (''revision'', JInt (case old of None \<Rightarrow> 1 | Some e \<Rightarrow> the (entry_revision e) + 1)), (''document'', document)]"

definition replace_entry :: "entry list \<Rightarrow> entry option \<Rightarrow> entry \<Rightarrow> entry list" where
  "replace_entry es old new = (case old of None \<Rightarrow> es | Some e \<Rightarrow> remove1 e es) @ [new]"

definition save_route :: "(jval \<Rightarrow> nat) \<Rightarrow> string \<Rightarrow> entry list \<Rightarrow> jval option \<Rightarrow> jval option \<Rightarrow> jval option \<Rightarrow> jval option \<Rightarrow>
    (entry list \<times> entry) routed" where
  "save_route size_of uuid es i expected name document =
     bind_res (check_revision es i expected) (\<lambda>old.
     bind_res (route_name name) (\<lambda>n.
     bind_res (raise_if (\<exists>e\<in>set es. entry_name e = Some n \<and> Some e \<noteq> old) (RouteRefused ''ROUTE_NAME_EXISTS'')) (\<lambda>_.
     bind_res (validate_route size_of document) (\<lambda>d.
       Inr (replace_entry es old (saved_entry uuid old n d), saved_entry uuid old n d)))))"

definition delete_route :: "entry list \<Rightarrow> jval option \<Rightarrow> jval option \<Rightarrow> entry list routed" where
  "delete_route es i expected =
     bind_res (check_revision es i expected) (\<lambda>old.
       case old of None \<Rightarrow> Inl (RouteRefused ''ROUTE_NOT_FOUND'') | Some e \<Rightarrow> Inr (remove1 e es))"

definition listed :: "(string \<Rightarrow> string) \<Rightarrow> entry list \<Rightarrow> (string \<times> string \<times> int) list" where
  "listed casefold es = map (\<lambda>e. (the (entry_id e), the (entry_name e), the (entry_revision e))) (sort_key (\<lambda>e. casefold (the (entry_name e))) es)"

text \<open>
  The file is written under a temporary name, synchronized and moved over the old one; then the directory is synchronized. A failure
  before or in the move leaves the old file, one after it (the directory cannot be opened or synchronized) leaves the new file in
  place, and both raise.
\<close>

datatype route_write = RoutesWritten | RoutesNotWritten | RoutesNotSynced

definition write_library :: "route_write \<Rightarrow> route_file \<Rightarrow> library \<Rightarrow> route_reply \<Rightarrow> route_file \<times> route_reply routed" where
  "write_library w f l r =
     (case w of
        RoutesWritten \<Rightarrow> (RouteFile (library_value l), Inr r)
      | RoutesNotWritten \<Rightarrow> (f, Inl WriteFailed)
      | RoutesNotSynced \<Rightarrow> (RouteFile (library_value l), Inl WriteFailed))"

definition dispatch_route ::
    "(jval \<Rightarrow> nat) \<Rightarrow> (string \<Rightarrow> string) \<Rightarrow> string \<Rightarrow> route_write \<Rightarrow> route_file \<Rightarrow> route_request \<Rightarrow> route_file \<times> route_reply routed" where
  "dispatch_route size_of casefold uuid written f q =
     (case read_library size_of f of
        Inl x \<Rightarrow> (f, Inl x)
      | Inr (kvs, es) \<Rightarrow>
          (case q of
             ListRoutes \<Rightarrow> (f, Inr (Listed (listed casefold es)))
           | GetRoute i \<Rightarrow> (f, case find_route es i of None \<Rightarrow> Inl (RouteRefused ''ROUTE_NOT_FOUND'') | Some e \<Rightarrow> Inr (OneRoute e))
           | DeleteRoute i expected \<Rightarrow>
               (case delete_route es i expected of Inl x \<Rightarrow> (f, Inl x) | Inr es1 \<Rightarrow> write_library written f (kvs, es1) Deleted)
           | SaveRoute i expected name document \<Rightarrow>
               (case save_route size_of uuid es i expected name document of
                  Inl x \<Rightarrow> (f, Inl x)
                | Inr (es1, e) \<Rightarrow> write_library written f (kvs, es1) (OneRoute e))))"


subsection \<open>Well-formed libraries\<close>

definition entry_ok :: "(jval \<Rightarrow> nat) \<Rightarrow> entry \<Rightarrow> bool" where
  "entry_ok size_of e \<longleftrightarrow> entry_id e \<noteq> None \<and> entry_name e \<noteq> None \<and> entry_revision e \<noteq> None \<and>
     is_ok (validate_route size_of (map_of e ''document''))"

definition entries_ok :: "(jval \<Rightarrow> nat) \<Rightarrow> entry list \<Rightarrow> bool" where
  "entries_ok size_of es \<longleftrightarrow> list_all (entry_ok size_of) es \<and> distinct (map entry_id es) \<and> distinct (map entry_name es)"

definition library_ok :: "(jval \<Rightarrow> nat) \<Rightarrow> library \<Rightarrow> bool" where
  "library_ok size_of l \<longleftrightarrow> map_of (fst l) ''schema_version'' \<in> {Some (JInt 1), Some (JFloat (Fin 1)), Some (JBool True)} \<and>
     map_of (fst l) ''routes'' \<noteq> None \<and> entries_ok size_of (snd l)"

lemma check_entries_iff:
  "check_entries size_of vs (I, N) = Inr es \<longleftrightarrow>
     vs = map JObj es \<and> entries_ok size_of es \<and> (\<forall>e\<in>set es. the (entry_id e) \<notin> I \<and> the (entry_name e) \<notin> N)"
proof (induction vs arbitrary: I N es)
  case (Cons v vs)
  have step: "check_entry size_of v (I, N) = Inr (e, I1, N1) \<longleftrightarrow>
      v = JObj e \<and> entry_ok size_of e \<and> the (entry_id e) \<notin> I \<and> the (entry_name e) \<notin> N \<and>
      I1 = insert (the (entry_id e)) I \<and> N1 = insert (the (entry_name e)) N" for e I1 N1
    by (cases v) (auto simp: check_entry_def entry_ok_def is_ok_iff bind_res_eq_Inr split: option.splits)
  have "check_entries size_of (v # vs) (I, N) = Inr es \<longleftrightarrow>
      (\<exists>e es'. es = e # es' \<and> v = JObj e \<and> entry_ok size_of e \<and> the (entry_id e) \<notin> I \<and> the (entry_name e) \<notin> N \<and>
        check_entries size_of vs (insert (the (entry_id e)) I, insert (the (entry_name e)) N) = Inr es')"
    by (auto simp: bind_res_eq_Inr step)
  also have "\<dots> \<longleftrightarrow> v # vs = map JObj es \<and> entries_ok size_of es \<and> (\<forall>e\<in>set es. the (entry_id e) \<notin> I \<and> the (entry_name e) \<notin> N)"
    unfolding Cons.IH by (cases es) (auto simp: entries_ok_def entry_ok_def list_all_iff image_iff, blast+)
  finally show ?case .
qed (auto simp: entries_ok_def)

lemma read_ok: "read_library size_of f = Inr l \<Longrightarrow> library_ok size_of l"
  by (auto simp: read_library_def library_ok_def empty_library_def entries_ok_def check_entries_iff bind_res_eq_Inr
    split: route_file.splits jval.splits option.splits if_splits)

lemma map_of_keyed: "map_of (map (\<lambda>(k, v). (k, g k v)) kvs) k = map_option (g k) (map_of kvs k)"
  by (induction kvs) auto

lemma read_written:
  assumes "library_ok size_of l"
  shows "\<exists>kvs. read_library size_of (RouteFile (library_value l)) = Inr (kvs, snd l)"
proof -
  have "check_entries size_of (map JObj (snd l)) ({}, {}) = Inr (snd l)"
    using assms by (simp add: check_entries_iff library_ok_def)
  then show ?thesis using assms
    by (auto simp: read_library_def library_value_def library_ok_def map_of_keyed [where g = "\<lambda>k v. if k = ''routes'' then _ else v"])
qed

lemma validated: "validate_route size_of v = Inr d \<Longrightarrow> v = Some d"
proof -
  assume a: "validate_route size_of v = Inr d"
  then obtain kvs where v: "v = Some (JObj kvs)" by (cases v; cases "the v") (auto simp: validate_route_def)
  then obtain ps where "map_of kvs ''waypoints'' = Some (JList ps)"
    using a by (cases "map_of kvs ''waypoints''"; cases "the (map_of kvs ''waypoints'')") (auto simp: validate_route_def)
  then show ?thesis using a v by (auto simp: validate_route_def bind_res_eq_Inr Let_def)
qed

lemma valid_again: "validate_route size_of v = Inr d \<Longrightarrow> validate_route size_of (Some d) = Inr d"
  using validated by blast

lemma found: "find_route es i = Some e \<Longrightarrow> e \<in> set es \<and> map_of e ''id'' = i"
  by (auto simp: find_route_def find_Some_iff)

lemma checked_revision:
  assumes "check_revision es i expected = Inr old"
  shows "old = None \<and> \<not> given i \<or>
    (\<exists>e n. old = Some e \<and> e \<in> set es \<and> map_of e ''id'' = i \<and> expected = Some (JInt n) \<and> entry_revision e = Some n)"
proof (cases "given i")
  case True
  then obtain e where e: "find_route es i = Some e" using assms by (cases "find_route es i") (auto simp: check_revision_def)
  then obtain n where "expected = Some (JInt n)" "entry_revision e = Some n" "old = Some e"
    using assms True by (auto simp: check_revision_def split: option.splits jval.splits if_splits)
  then show ?thesis using found [OF e] by blast
qed (use assms in \<open>simp add: check_revision_def\<close>)

lemma ids_removed: "distinct (map entry_id es) \<Longrightarrow> e \<in> set es \<Longrightarrow> x \<in> set (remove1 e es) \<Longrightarrow> entry_id x \<noteq> entry_id e"
  by (auto simp: distinct_map set_remove1_eq inj_on_def)

lemma map_remove_distinct: "distinct (map f es) \<Longrightarrow> distinct (map f (remove1 e es))"
  using set_remove1_subset [of e es] by (auto simp: distinct_map inj_on_def distinct_remove1)

lemma removed_ok: "entries_ok size_of es \<Longrightarrow> entries_ok size_of (remove1 e es)"
  using set_remove1_subset [of e es] by (auto simp: entries_ok_def list_all_iff map_remove_distinct)

lemma saved_fields:
  "entry_id (saved_entry uuid old name d) = Some (case old of None \<Rightarrow> uuid | Some e \<Rightarrow> the (entry_id e))"
  "entry_name (saved_entry uuid old name d) = (if py_strip name = [] then None else Some name)"
  "entry_revision (saved_entry uuid old name d) =
     (let n = (case old of None \<Rightarrow> 1 | Some e \<Rightarrow> the (entry_revision e) + 1) in if 1 \<le> n then Some n else None)"
  "map_of (saved_entry uuid old name d) ''document'' = Some d"
  "map_of (saved_entry uuid old name d) ''id'' = Some (JStr (case old of None \<Rightarrow> uuid | Some e \<Rightarrow> the (entry_id e)))"
  unfolding saved_entry_def by (simp_all add: entry_id_def entry_name_def entry_revision_def Let_def)

lemma revision_positive: "entry_revision e = Some n \<Longrightarrow> 1 \<le> n"
  by (auto simp: entry_revision_def split: option.splits jval.splits if_splits)

text \<open>What a save makes of the entries.\<close>

lemma saved:
  assumes "save_route size_of uuid es i expected name document = Inr (es1, new)" "entries_ok size_of es" "Some uuid \<notin> entry_id ` set es"
  shows "entries_ok size_of es1 \<and> new \<in> set es1 \<and>
    (\<exists>old n d. check_revision es i expected = Inr old \<and> new = saved_entry uuid old n d \<and> es1 = replace_entry es old new)"
proof -
  obtain old n d where s: "check_revision es i expected = Inr old" "route_name name = Inr n"
    "\<not> (\<exists>e\<in>set es. entry_name e = Some n \<and> Some e \<noteq> old)" "validate_route size_of document = Inr d"
    "new = saved_entry uuid old n d" "es1 = replace_entry es old new"
    using assms(1) by (auto simp: save_route_def bind_res_eq_Inr)
  have name: "py_strip n = n" "n \<noteq> []" using s(2) by (auto simp: route_name_def split: option.splits jval.splits if_splits)
  define rest where "rest = (case old of None \<Rightarrow> es | Some e \<Rightarrow> remove1 e es)"
  have old: "\<And>e. old = Some e \<Longrightarrow> e \<in> set es \<and> entry_ok size_of e"
    using checked_revision [OF s(1)] assms(2) by (auto simp: entries_ok_def list_all_iff)
  have rest: "entries_ok size_of rest" "set rest \<subseteq> set es"
    using assms(2) removed_ok by (auto simp: rest_def split: option.splits dest: set_remove1_subset [THEN subsetD])
  have "entry_name new = Some n" "entry_id new = (case old of None \<Rightarrow> Some uuid | Some e \<Rightarrow> entry_id e)"
    using name old by (auto simp: s(5) saved_fields entry_ok_def split: option.splits)
  moreover have "1 \<le> the (entry_revision e)" if "old = Some e" for e
    using old [OF that] revision_positive [of e] by (auto simp: entry_ok_def)
  then have "entry_revision new \<noteq> None"
    by (fastforce simp: s(5) saved_fields Let_def split: option.splits)
  moreover have "is_ok (validate_route size_of (map_of new ''document''))"
    using valid_again [OF s(4)] by (simp add: s(5) saved_fields)
  ultimately have new: "entry_ok size_of new" "entry_name new = Some n" "entry_id new = (case old of None \<Rightarrow> Some uuid | Some e \<Rightarrow> entry_id e)"
    using old by (auto simp: entry_ok_def split: option.splits)
  have "entry_id new \<notin> entry_id ` set rest"
  proof (cases old)
    case (Some e)
    have "entry_id x \<noteq> entry_id e" if "x \<in> set (remove1 e es)" for x
      using ids_removed [of es e x] old [OF Some] assms(2) that by (simp add: entries_ok_def)
    then show ?thesis using new(3) Some by (fastforce simp: rest_def)
  qed (use new(3) assms(3) in \<open>simp add: rest_def\<close>)
  moreover have "entry_name new \<notin> entry_name ` set rest"
  proof
    assume "entry_name new \<in> entry_name ` set rest"
    then obtain x where x: "x \<in> set rest" "entry_name x = Some n" using new(2) by auto
    then have "old = Some x" using s(3) rest(2) by auto
    then show False using x(1) ids_removed [of es x x] old assms(2) by (auto simp: rest_def entries_ok_def)
  qed
  moreover have "es1 = rest @ [new]" by (simp add: s(6) replace_entry_def rest_def)
  ultimately show ?thesis using rest(1) new(1) s by (auto simp: entries_ok_def)
qed

lemma deleted: "delete_route es i expected = Inr es1 \<Longrightarrow> \<exists>e. es1 = remove1 e es"
  by (auto simp: delete_route_def bind_res_eq_Inr split: option.splits)

text \<open>The ids in a file.\<close>

definition file_ids :: "(jval \<Rightarrow> nat) \<Rightarrow> route_file \<Rightarrow> string option set" where
  "file_ids size_of f = (case read_library size_of f of Inl x \<Rightarrow> {} | Inr l \<Rightarrow> entry_id ` set (snd l))"

text \<open>One request: the library stays readable, and its entries are old ones or the saved one.\<close>

lemma dispatch_reads:
  assumes "read_library size_of f = Inr (kvs, es)" "Some uuid \<notin> file_ids size_of f" "dispatch_route size_of casefold uuid written f q = (f1, r)"
  shows "\<exists>kvs1 es1. read_library size_of f1 = Inr (kvs1, es1) \<and>
    (set es1 \<subseteq> set es \<or> (\<exists>i ex name d new. q = SaveRoute i ex name d \<and> save_route size_of uuid es i ex name d = Inr (es1, new)))"
proof -
  note l = read_ok [OF assms(1)]
  have e: "entries_ok size_of es" "Some uuid \<notin> entry_id ` set es"
    using l assms(1,2) by (simp_all add: library_ok_def file_ids_def)
  have w: "\<exists>kvs1. read_library size_of (RouteFile (library_value (kvs, es1))) = Inr (kvs1, es1)" if "entries_ok size_of es1" for es1
    using read_written [of size_of "(kvs, es1)"] l that by (simp add: library_ok_def)
  show ?thesis
  proof (cases "f1 = f")
    case True
    then show ?thesis using assms(1) by auto
  next
    case changed: False
    show ?thesis
    proof (cases q)
      case (SaveRoute i ex name d)
      then obtain es1 new where s: "save_route size_of uuid es i ex name d = Inr (es1, new)" "f1 = RouteFile (library_value (kvs, es1))"
        using assms(1,3) changed by (auto simp: dispatch_route_def write_library_def split: sum.splits route_write.splits)
      have "entries_ok size_of es1" using saved [OF s(1) e] by blast
      then show ?thesis using w s SaveRoute by blast
    next
      case (DeleteRoute i ex)
      then obtain es1 where s: "delete_route es i ex = Inr es1" "f1 = RouteFile (library_value (kvs, es1))"
        using assms(1,3) changed by (auto simp: dispatch_route_def write_library_def split: sum.splits route_write.splits)
      obtain x where "es1 = remove1 x es" using deleted [OF s(1)] by blast
      then have "entries_ok size_of es1" "set es1 \<subseteq> set es" using removed_ok [OF e(1)] set_remove1_subset [of x es] by auto
      then show ?thesis using w [of es1] s(2) by blast
    qed (use assms changed in \<open>auto simp: dispatch_route_def\<close>)
  qed
qed

subsection \<open>Histories\<close>

text \<open>Requests one after the other (the repository holds a lock over each), with the identifier each could use.\<close>

primrec route_history ::
    "(jval \<Rightarrow> nat) \<Rightarrow> (string \<Rightarrow> string) \<Rightarrow> route_file \<Rightarrow> (string \<times> route_write \<times> route_request) list \<Rightarrow> route_file" where
  "route_history size_of casefold f [] = f"
| "route_history size_of casefold f (x # xs) =
     route_history size_of casefold (fst (dispatch_route size_of casefold (fst x) (fst (snd x)) f (snd (snd x)))) xs"

text \<open>Identifiers are new where they are used.\<close>

fun fresh_ids :: "(jval \<Rightarrow> nat) \<Rightarrow> (string \<Rightarrow> string) \<Rightarrow> route_file \<Rightarrow> (string \<times> route_write \<times> route_request) list \<Rightarrow> bool" where
  "fresh_ids size_of casefold f [] = True"
| "fresh_ids size_of casefold f ((u, w, q) # xs) \<longleftrightarrow>
     Some u \<notin> file_ids size_of f \<and> fresh_ids size_of casefold (fst (dispatch_route size_of casefold u w f q)) xs"

lemma history_readable:
  "is_ok (read_library size_of f) \<Longrightarrow> fresh_ids size_of casefold f h \<Longrightarrow> is_ok (read_library size_of (route_history size_of casefold f h))"
proof (induction h arbitrary: f)
  case (Cons x h)
  obtain u w q where x: "x = (u, w, q)" by (cases x) auto
  obtain kvs es where r: "read_library size_of f = Inr (kvs, es)" using Cons.prems(1) by (auto simp: is_ok_iff)
  obtain f1 r1 where d: "dispatch_route size_of casefold u w f q = (f1, r1)" by fastforce
  have "is_ok (read_library size_of f1)"
    using dispatch_reads [OF r _ d] Cons.prems(2) x by (auto simp: is_ok_iff)
  then show ?case using Cons.IH [of f1] Cons.prems(2) x d by simp
qed simp

text \<open>Every entry of the identifier is newer than the revision.\<close>

definition newer :: "(jval \<Rightarrow> nat) \<Rightarrow> string \<Rightarrow> int \<Rightarrow> route_file \<Rightarrow> bool" where
  "newer size_of i n f \<longleftrightarrow> (\<exists>kvs es. read_library size_of f = Inr (kvs, es) \<and>
     (\<forall>e\<in>set es. entry_id e = Some i \<longrightarrow> (\<exists>m. entry_revision e = Some m \<and> n < m)))"

lemma saved_revision:
  assumes "check_revision es i0 expected = Inr old" "entry_id (saved_entry uuid old name d) = Some i" "i \<noteq> uuid"
    "\<forall>e\<in>set es. entry_ok size_of e"
  shows "\<exists>e m. old = Some e \<and> e \<in> set es \<and> entry_id e = Some i \<and> entry_revision e = Some m \<and> expected = Some (JInt m) \<and>
    entry_revision (saved_entry uuid old name d) = Some (m + 1)"
proof (cases old)
  case None
  then show ?thesis using assms(2,3) by (simp add: saved_fields)
next
  case (Some e)
  then obtain m where m: "e \<in> set es" "expected = Some (JInt m)" "entry_revision e = Some m"
    using checked_revision [OF assms(1)] by auto
  then have "1 \<le> m" by (simp add: revision_positive)
  then show ?thesis using m Some assms(2,4) by (auto simp: saved_fields entry_ok_def Let_def)
qed

lemma newer_step:
  assumes "newer size_of i n f" "Some u \<notin> file_ids size_of f" "u \<noteq> i"
  shows "newer size_of i n (fst (dispatch_route size_of casefold u w f q))"
proof -
  obtain kvs es where r: "read_library size_of f = Inr (kvs, es)"
    "\<forall>e\<in>set es. entry_id e = Some i \<longrightarrow> (\<exists>m. entry_revision e = Some m \<and> n < m)"
    using assms(1) by (auto simp: newer_def)
  obtain f1 r1 where d: "dispatch_route size_of casefold u w f q = (f1, r1)" by fastforce
  have ok: "entries_ok size_of es" using read_ok [OF r(1)] by (simp add: library_ok_def)
  obtain kvs1 es1 where f1: "read_library size_of f1 = Inr (kvs1, es1)" and
    c: "set es1 \<subseteq> set es \<or> (\<exists>i ex name d new. q = SaveRoute i ex name d \<and> save_route size_of u es i ex name d = Inr (es1, new))"
    using dispatch_reads [OF r(1) assms(2) d] by blast
  from c have "\<forall>e\<in>set es1. entry_id e = Some i \<longrightarrow> (\<exists>m. entry_revision e = Some m \<and> n < m)"
  proof
    assume "set es1 \<subseteq> set es"
    then show ?thesis using r(2) by blast
  next
    assume "\<exists>i ex name d new. q = SaveRoute i ex name d \<and> save_route size_of u es i ex name d = Inr (es1, new)"
    then obtain i0 ex name d new where s: "save_route size_of u es i0 ex name d = Inr (es1, new)" by blast
    have "Some u \<notin> entry_id ` set es" using assms(2) r(1) by (simp add: file_ids_def)
    from saved [OF s ok this] obtain old nm dd where o: "check_revision es i0 ex = Inr old" "new = saved_entry u old nm dd"
      "es1 = replace_entry es old new" by blast
    have "\<exists>m. entry_revision new = Some m \<and> n < m" if "entry_id new = Some i"
      using saved_revision [OF o(1), of u nm dd i size_of] that assms(3) r(2) ok o(2) by (fastforce simp: entries_ok_def list_all_iff)
    moreover have "set es1 \<subseteq> insert new (set es)"
      using o(3) set_remove1_subset by (auto simp: replace_entry_def split: option.splits)
    ultimately show ?thesis using r(2) by blast
  qed
  then show ?thesis using f1 d by (auto simp: newer_def)
qed

lemma newer_history:
  "newer size_of i n f \<Longrightarrow> fresh_ids size_of casefold f h \<Longrightarrow> list_all (\<lambda>x. fst x \<noteq> i) h \<Longrightarrow> newer size_of i n (route_history size_of casefold f h)"
proof (induction h arbitrary: f)
  case (Cons x h)
  then show ?case using newer_step [of size_of i n f "fst x" casefold "fst (snd x)" "snd (snd x)"] by (cases x) auto
qed simp

lemma newer_refuses:
  assumes "newer size_of i n f" "m \<le> n"
  shows "\<exists>x. dispatch_route size_of casefold u w f (SaveRoute (Some (JStr i)) (Some (JInt m)) name d) = (f, Inl x)"
    "\<exists>x. dispatch_route size_of casefold u w f (DeleteRoute (Some (JStr i)) (Some (JInt m))) = (f, Inl x)"
proof -
  obtain kvs es where r: "read_library size_of f = Inr (kvs, es)"
    "\<forall>e\<in>set es. entry_id e = Some i \<longrightarrow> (\<exists>m. entry_revision e = Some m \<and> n < m)"
    using assms(1) by (auto simp: newer_def)
  have "\<not> is_ok (check_revision es (Some (JStr i)) (Some (JInt m)))"
  proof
    assume "is_ok (check_revision es (Some (JStr i)) (Some (JInt m)))"
    then obtain e where "e \<in> set es" "map_of e ''id'' = Some (JStr i)" "entry_revision e = Some m"
      using checked_revision [of es "Some (JStr i)" "Some (JInt m)"] by (auto simp: is_ok_iff given_def)
    moreover then have "entry_id e = Some i" by (simp add: entry_id_def)
    ultimately show False using r(2) assms(2) by fastforce
  qed
  then obtain x where x: "check_revision es (Some (JStr i)) (Some (JInt m)) = Inl x" by (cases "check_revision es (Some (JStr i)) (Some (JInt m))") auto
  show "\<exists>x. dispatch_route size_of casefold u w f (SaveRoute (Some (JStr i)) (Some (JInt m)) name d) = (f, Inl x)"
    "\<exists>x. dispatch_route size_of casefold u w f (DeleteRoute (Some (JStr i)) (Some (JInt m))) = (f, Inl x)"
    by (simp_all add: dispatch_route_def r(1) save_route_def delete_route_def x)
qed

lemma save_is_newer:
  assumes "dispatch_route size_of casefold u w1 f (SaveRoute (Some (JStr i)) (Some (JInt n)) name d) = (f1, Inr r)"
    "Some u \<notin> file_ids size_of f" "u \<noteq> i"
  shows "newer size_of i n f1 \<and> (\<exists>e. r = OneRoute e \<and> dispatch_route size_of casefold v w f1 (GetRoute (Some (JStr i))) = (f1, Inr (OneRoute e)) \<and>
    entry_revision e = Some (n + 1))"
proof -
  obtain kvs es where r: "read_library size_of f = Inr (kvs, es)"
    using assms(1) by (auto simp: dispatch_route_def split: sum.splits)
  have ok: "entries_ok size_of es" using read_ok [OF r] by (simp add: library_ok_def)
  obtain es1 new where s: "save_route size_of u es (Some (JStr i)) (Some (JInt n)) name d = Inr (es1, new)" "r = OneRoute new"
    "f1 = RouteFile (library_value (kvs, es1))"
    using assms(1) r by (auto simp: dispatch_route_def write_library_def split: sum.splits route_write.splits)
  have "Some u \<notin> entry_id ` set es" using assms(2) r by (simp add: file_ids_def)
  note sv = saved [OF s(1) ok this]
  then obtain old nm dd where o: "check_revision es (Some (JStr i)) (Some (JInt n)) = Inr old" "new = saved_entry u old nm dd"
    "es1 = replace_entry es old new" by blast
  obtain e where e: "old = Some e" "e \<in> set es" "map_of e ''id'' = Some (JStr i)" "entry_revision e = Some n"
    using checked_revision [OF o(1)] by (auto simp: given_def)
  have "1 \<le> n" using e(4) by (simp add: revision_positive)
  moreover have "entry_id e = Some i" using e(3) by (simp add: entry_id_def)
  ultimately have new: "entry_id new = Some i" "map_of new ''id'' = Some (JStr i)" "entry_revision new = Some (n + 1)"
    using e by (simp_all add: o(2) saved_fields)
  have ok1: "entries_ok size_of es1" "new \<in> set es1" using sv by blast+
  obtain kvs1 where r1: "read_library size_of f1 = Inr (kvs1, es1)"
    using read_written [of size_of "(kvs, es1)"] read_ok [OF r] ok1 by (auto simp: library_ok_def s(3))
  have unique: "x = new" if "x \<in> set es1" "entry_id x = Some i" for x
    using ok1 that new(1) by (auto simp: entries_ok_def distinct_map inj_on_def)
  have "find_route es1 (Some (JStr i)) = Some new"
  proof -
    have "find_route es1 (Some (JStr i)) \<noteq> None" using ok1(2) new(2) by (auto simp: find_route_def find_None_iff)
    then obtain y where y: "find_route es1 (Some (JStr i)) = Some y" by blast
    then have "entry_id y = Some i" using found [OF y] by (simp add: entry_id_def)
    then show ?thesis using y unique found [OF y] by blast
  qed
  then have "dispatch_route size_of casefold v w f1 (GetRoute (Some (JStr i))) = (f1, Inr (OneRoute new))"
    by (simp add: dispatch_route_def r1)
  moreover have "newer size_of i n f1" using r1 unique new(3) by (fastforce simp: newer_def)
  ultimately show ?thesis using s(2) new(3) by blast
qed

subsection \<open>Properties\<close>

text \<open>
  C8. The library never breaks: when it can be read and every new identifier is fresh, it can be read after any
  history of requests, with writes that succeed, fail before the old file is replaced or fail after that; so identifiers and names stay unique, revisions
  positive and every document valid.
\<close>

theorem library_stays_readable:
  assumes "is_ok (read_library size_of f)" "fresh_ids size_of casefold f h"
  shows "\<exists>kvs es. read_library size_of (route_history size_of casefold f h) = Inr (kvs, es) \<and>
    distinct (map entry_id es) \<and> distinct (map entry_name es) \<and> list_all (entry_ok size_of) es"
  using history_readable [OF assms] read_ok by (fastforce simp: is_ok_iff library_ok_def entries_ok_def)

text \<open>
  C9. No update is lost: after a save of a route at revision \<open>n\<close> has been answered, reading the route gives the saved entry with
  revision \<open>n + 1\<close>, and after any further history every save and deletion that expects revision \<open>n\<close> or an earlier one is refused and
  leaves the library as it is.
\<close>

theorem stale_update_refused:
  assumes "dispatch_route size_of casefold u w1 f (SaveRoute (Some (JStr i)) (Some (JInt n)) name d) = (f1, Inr r)"
    "fresh_ids size_of casefold f ((u, w1, SaveRoute (Some (JStr i)) (Some (JInt n)) name d) # h)" "u \<noteq> i" "list_all (\<lambda>x. fst x \<noteq> i) h" "m \<le> n"
  shows "(\<exists>e. r = OneRoute e \<and> dispatch_route size_of casefold v w f1 (GetRoute (Some (JStr i))) = (f1, Inr (OneRoute e)) \<and> entry_revision e = Some (n + 1)) \<and>
    (let g = route_history size_of casefold f1 h in
     (\<exists>x. dispatch_route size_of casefold v w g (SaveRoute (Some (JStr i)) (Some (JInt m)) name2 d2) = (g, Inl x)) \<and>
     (\<exists>x. dispatch_route size_of casefold v w g (DeleteRoute (Some (JStr i)) (Some (JInt m))) = (g, Inl x)))"
proof -
  have f: "Some u \<notin> file_ids size_of f" "fresh_ids size_of casefold f1 h" using assms(1,2) by simp_all
  note s = save_is_newer [OF assms(1) f(1) assms(3), of v w]
  have "newer size_of i n (route_history size_of casefold f1 h)" using newer_history [OF _ f(2) assms(4)] s by blast
  then show ?thesis using s newer_refuses [of size_of i n _ m] assms(5) by (simp add: Let_def)
qed

subsection \<open>Witnesses\<close>

definition tiny_route :: jval where
  "tiny_route = JObj [(''waypoints'', JList [JObj [(''x'', JInt 10), (''y'', JInt 20)]])]"

definition tiny_entry :: "int \<Rightarrow> entry" where
  "tiny_entry n = [(''id'', JStr ''a''), (''name'', JStr ''loop''), (''revision'', JInt n), (''document'', tiny_route)]"

definition tiny_file :: "int \<Rightarrow> route_file" where
  "tiny_file n = RouteFile (JObj [(''schema_version'', JInt 1), (''routes'', JList [JObj (tiny_entry n)])])"

lemma tiny_valid: "validate_route (\<lambda>_. 0) (Some tiny_route) = Inr tiny_route"
  by (simp add: validate_route_def tiny_route_def check_route_point_def check_local_id_def check_number_def number_within_def get_key_def
    is_home_def float_of_int_small Let_def)

lemma loop_text: "py_strip ''loop'' = ''loop''"
  by (simp add: py_strip_def py_space_def Let_def)

lemma tiny_fields: "1 \<le> n \<Longrightarrow> entry_id (tiny_entry n) = Some ''a'' \<and> entry_name (tiny_entry n) = Some ''loop'' \<and> entry_revision (tiny_entry n) = Some n \<and>
    map_of (tiny_entry n) ''document'' = Some tiny_route \<and> map_of (tiny_entry n) ''id'' = Some (JStr ''a'')"
  by (simp add: tiny_entry_def entry_id_def entry_name_def entry_revision_def loop_text)

lemma tiny_read: "1 \<le> n \<Longrightarrow> read_library (\<lambda>_. 0) (tiny_file n) = Inr ([(''schema_version'', JInt 1), (''routes'', JList [JObj (tiny_entry n)])], [tiny_entry n])"
  by (simp add: read_library_def tiny_file_def check_entry_def tiny_fields tiny_valid)

lemma tiny_fresh: "1 \<le> n \<Longrightarrow> file_ids (\<lambda>_. 0) (tiny_file n) = {Some ''a''}"
  by (simp add: file_ids_def tiny_read tiny_fields)

lemma tiny_save: "dispatch_route (\<lambda>_. 0) (\<lambda>s. s) ''b'' RoutesWritten (tiny_file 1)
    (SaveRoute (Some (JStr ''a'')) (Some (JInt 1)) (Some (JStr ''loop'')) (Some tiny_route)) = (tiny_file 2, Inr (OneRoute (tiny_entry 2)))"
proof -
  have "check_revision [tiny_entry 1] (Some (JStr ''a'')) (Some (JInt 1)) = Inr (Some (tiny_entry 1))"
    by (simp add: check_revision_def given_def find_route_def tiny_fields)
  moreover have "saved_entry ''b'' (Some (tiny_entry 1)) ''loop'' tiny_route = tiny_entry 2"
    by (simp add: saved_entry_def tiny_fields) (simp add: tiny_entry_def)
  moreover have "route_name (Some (JStr ''loop'')) = Inr ''loop''" by (simp add: route_name_def loop_text)
  ultimately have "save_route (\<lambda>_. 0) ''b'' [tiny_entry 1] (Some (JStr ''a'')) (Some (JInt 1)) (Some (JStr ''loop'')) (Some tiny_route) =
      Inr ([tiny_entry 2], tiny_entry 2)"
    by (simp add: save_route_def tiny_valid replace_entry_def)
  then have "dispatch_route (\<lambda>_. 0) (\<lambda>s. s) ''b'' RoutesWritten (tiny_file 1)
      (SaveRoute (Some (JStr ''a'')) (Some (JInt 1)) (Some (JStr ''loop'')) (Some tiny_route)) =
      (RouteFile (library_value ([(''schema_version'', JInt 1), (''routes'', JList [JObj (tiny_entry 1)])], [tiny_entry 2])), Inr (OneRoute (tiny_entry 2)))"
    by (simp add: dispatch_route_def tiny_read write_library_def)
  then show ?thesis by (simp add: library_value_def tiny_file_def)
qed

lemma library_stays_readable_witness:
  "\<exists>kvs es. read_library (\<lambda>_. 0) (route_history (\<lambda>_. 0) (\<lambda>s. s) (tiny_file 1)
      [(''b'', RoutesWritten, SaveRoute (Some (JStr ''a'')) (Some (JInt 1)) (Some (JStr ''loop'')) (Some tiny_route))]) = Inr (kvs, es) \<and>
    distinct (map entry_id es)"
proof -
  have "fresh_ids (\<lambda>_. 0) (\<lambda>s. s) (tiny_file 1)
      [(''b'', RoutesWritten, SaveRoute (Some (JStr ''a'')) (Some (JInt 1)) (Some (JStr ''loop'')) (Some tiny_route))]"
    by (simp add: tiny_fresh)
  from library_stays_readable [OF _ this] tiny_read [of 1] show ?thesis by (auto simp: is_ok_iff)
qed

lemma stale_update_refused_witness:
  "\<exists>x. dispatch_route (\<lambda>_. 0) (\<lambda>s. s) ''c'' RoutesWritten (tiny_file 2)
      (SaveRoute (Some (JStr ''a'')) (Some (JInt 1)) (Some (JStr ''loop'')) (Some tiny_route)) = (tiny_file 2, Inl x)"
proof -
  have "fresh_ids (\<lambda>_. 0) (\<lambda>s. s) (tiny_file 1)
      ((''b'', RoutesWritten, SaveRoute (Some (JStr ''a'')) (Some (JInt 1)) (Some (JStr ''loop'')) (Some tiny_route)) # [])"
    by (simp add: tiny_fresh)
  from stale_update_refused [OF tiny_save this, of 1 "''c''" RoutesWritten] show ?thesis by (simp add: Let_def)
qed

end
