(* ===== verification/Gateway_Dispatch.thy ===== *)
theory Gateway_Dispatch
  imports Ros_Request Web_Server Waypoint_Store Route_Library
begin

section \<open>Dispatch of Cockpit requests\<close>

text \<open>
  \<open>ros_gateway.py\<close>: \<open>dispatch\<close> and what it calls. The services are outside: a call is answered with the dictionary of the
  response, or the service is absent for the discovery time, silent for the response time, or its future raises. The route
  library and the waypoint file are those of \<open>Route_Library\<close> and \<open>Waypoint_Store\<close>; the recordings give their answer through
  the environment. The text of an exception is an argument.
\<close>

datatype service_answer = ServiceAbsent | ServiceSilent | ServiceRaised string | ServiceAnswer "(string \<times> jval) list"

datatype dispatch_failure =
    GatewayFailure string string
  | RouteFailure string
  | StorageFailure
  | ValueFailure gateway_error
  | WaypointFailure waypoint_error
  | StoreTextFailure
  | EscapedFailure string

type_synonym 'a dispatched = "dispatch_failure + 'a"

record dispatch_env =
  de_service :: "string \<Rightarrow> ros_request \<Rightarrow> service_answer"
  de_fits :: "ros_request \<Rightarrow> bool"
  de_json :: json_lib
  de_dumps :: "jval \<Rightarrow> string"
  de_yaml :: yaml_lib
  de_text :: "dispatch_failure \<Rightarrow> string"
  de_size_of :: "jval \<Rightarrow> nat"
  de_casefold :: "string \<Rightarrow> string"
  de_uuid :: string
  de_routes_write :: route_write
  de_waypoints_write :: write_outcome
  de_recordings :: "(string \<Rightarrow> jobject \<Rightarrow> dispatch_failure + jobject) option"
  de_cache :: jobject
  de_base64 :: "jval \<Rightarrow> string \<times> nat"

record gateway_files =
  gf_routes :: route_file
  gf_waypoints :: text_file

datatype gateway_output = PublishManual pyfloat pyfloat int

subsection \<open>Calls of services\<close>

definition service_call :: "dispatch_env \<Rightarrow> string \<Rightarrow> ros_request \<Rightarrow> ((string \<times> jval) list) dispatched" where
  "service_call V op q =
     (case de_service V op q of
        ServiceAbsent \<Rightarrow> Inl (GatewayFailure ''SERVICE_UNAVAILABLE'' (op @ '' service unavailable''))
      | ServiceSilent \<Rightarrow> Inl (GatewayFailure ''SERVICE_TIMEOUT'' (op @ '' service timed out''))
      | ServiceRaised text \<Rightarrow> Inl (EscapedFailure text)
      | ServiceAnswer kvs \<Rightarrow> Inr kvs)"

text \<open>\<open>str(values.get(...) or "")\<close> of a message text.\<close>

definition text_of :: "dispatch_env \<Rightarrow> jval \<Rightarrow> string" where
  "text_of V v = (if truthy v then py_str (de_json V) v else [])"

text \<open>A \<open>ValueError\<close> of the request; the other exceptions of \<open>build_ros_request\<close> escape.\<close>

definition request_failure :: "gateway_error \<Rightarrow> dispatch_failure" where
  "request_failure e = (case e of BadRequest t \<Rightarrow> ValueFailure e | NumberText \<Rightarrow> ValueFailure e | _ \<Rightarrow> EscapedFailure [])"

definition built :: "dispatch_env \<Rightarrow> request \<Rightarrow> ros_request dispatched" where
  "built V r = (case build_ros_request (de_json V) (de_dumps V) (de_fits V) r of Inl e \<Rightarrow> Inl (request_failure e) | Inr q \<Rightarrow> Inr q)"

definition dispatch_service :: "dispatch_env \<Rightarrow> request \<Rightarrow> payload dispatched" where
  "dispatch_service V r =
     bind_res (built V r) (\<lambda>q.
     bind_res (service_call V (rq_op r) q) (\<lambda>kvs.
       (let ok = truthy (get_key (map_of kvs) ''ok'' (JBool True)); error = text_of V (get_key (map_of kvs) ''error'' (JStr []))
        in Inr (ack (named r) ok (if ok then None else Some error) None ((map_of kvs)(''ok'' := None, ''error'' := None))))))"

text \<open>The answer of a camera, in the shape of the Cockpit; \<open>0.0\<close> takes the place of a number that is absent or not finite.\<close>

definition camera_number :: "jval \<Rightarrow> jval" where
  "camera_number v = (case gw_float v of Inr x \<Rightarrow> if isfinite x then JFloat x else JFloat fzero | Inl e \<Rightarrow> JFloat fzero)"

definition camera_ok :: "(string \<times> jval) list \<Rightarrow> bool" where
  "camera_ok kvs = truthy (get_key (map_of kvs) ''ok'' (get_key (map_of kvs) ''success'' (JBool False)))"

definition camera_error :: "dispatch_env \<Rightarrow> (string \<times> jval) list \<Rightarrow> string" where
  "camera_error V kvs = text_of V (get_key (map_of kvs) ''error'' (get_key (map_of kvs) ''message'' (JStr [])))"

definition camera_payload :: "dispatch_env \<Rightarrow> (string \<times> jval) list \<Rightarrow> jval" where
  "camera_payload V kvs =
     (let o' = map_of kvs; text = (\<lambda>key dflt. JStr (py_str (de_json V) (get_key o' key (JStr dflt))))
      in JObj [(''op'', JStr ''camera_ptz_state''), (''ok'', JBool (camera_ok kvs)), (''error'', JStr (camera_error V kvs)),
        (''pan_deg'', camera_number (get_key o' ''pan_deg'' JNull)), (''tilt_deg'', camera_number (get_key o' ''tilt_deg'' JNull)),
        (''zoom_level'', camera_number (get_key o' ''zoom_level'' JNull)), (''zoom_in'', JBool (truthy (get_key o' ''zoom_in'' (JBool False)))),
        (''last_command'', text ''last_command'' ''none''), (''active_preset'', text ''active_preset'' []),
        (''applied_preset'', text ''applied_preset'' []), (''saved_preset'', text ''saved_preset'' [])])"

definition or_text :: "string \<Rightarrow> string \<Rightarrow> string" where
  "or_text a b = (if a = [] then b else a)"

definition dispatch_camera :: "dispatch_env \<Rightarrow> request \<Rightarrow> payload dispatched" where
  "dispatch_camera V r =
     bind_res (built V r) (\<lambda>q.
     bind_res (service_call V (rq_op r) q) (\<lambda>kvs.
       if \<not> camera_ok kvs
       then Inr (ack (named r) False (Some (or_text (camera_error V kvs) ''camera operation failed'')) None [''payload'' \<mapsto> camera_payload V kvs])
       else if rq_op r \<in> {''get_camera_status'', ''get_camera_ptz_state''}
       then Inr (ack (named r) True None None [''payload'' \<mapsto> camera_payload V kvs])
       else bind_res (service_call V ''get_camera_ptz_state'' EmptyRequest) (\<lambda>now.
         (let ok = truthy (get_key (map_of now) ''ok'' (JBool False)); error = text_of V (get_key (map_of now) ''error'' (JStr []))
          in Inr (ack (named r) ok (if ok then None else Some (or_text error ''camera unavailable'')) None [''payload'' \<mapsto> camera_payload V now])))))"

definition request_id_field :: "request \<Rightarrow> jval" where
  "request_id_field r = opt_string (rq_id r)"

definition dispatch_snapshot :: "dispatch_env \<Rightarrow> request \<Rightarrow> payload dispatched" where
  "dispatch_snapshot V r =
     bind_res (service_call V ''get_nav_snapshot'' EmptyRequest) (\<lambda>kvs.
       (let o' = map_of kvs; field = (\<lambda>key. get_key o' key JNull); image = de_base64 V (field ''image_png'') in
        if \<not> truthy (field ''ok'')
        then Inr \<lparr> pl_op = ''nav_snapshot'', pl_fields = [''ok'' \<mapsto> JBool False,
          ''error'' \<mapsto> JStr (or_text (text_of V (field ''error'')) ''snapshot request failed''), ''client_req_id'' \<mapsto> request_id_field r] \<rparr>
        else Inr \<lparr> pl_op = ''nav_snapshot'', pl_fields = [''ok'' \<mapsto> JBool True, ''error'' \<mapsto> JNull, ''mime'' \<mapsto> field ''mime'',
          ''width'' \<mapsto> field ''width'', ''height'' \<mapsto> field ''height'', ''frame_id'' \<mapsto> field ''frame_id'', ''stamp'' \<mapsto> field ''stamp'',
          ''layers'' \<mapsto> field ''layers'', ''image_b64'' \<mapsto> JStr (fst image), ''image_size_bytes'' \<mapsto> JInt (int (snd image)),
          ''client_req_id'' \<mapsto> request_id_field r] \<rparr>))"

subsection \<open>The state\<close>

definition state_sections :: "(string \<times> string) list" where
  "state_sections = [(''nav'', ''get_nav_state''), (''route_mission'', ''get_route_state''), (''patrol_mission'', ''get_patrol_state''),
     (''zones'', ''get_zones_state'')]"

definition nav_copies :: "string list" where
  "nav_copies = [''goal_active'', ''manual_enabled'', ''manual_linear_x_cmd'', ''manual_angular_z_cmd'', ''robot_lat'', ''robot_lon'']"

definition state_section :: "dispatch_env \<Rightarrow> string \<Rightarrow> (string \<times> jval) list" where
  "state_section V op =
     (case service_call V op EmptyRequest of
        Inl e \<Rightarrow> [(''available'', JBool False), (''error'', JStr (de_text V e))]
      | Inr kvs \<Rightarrow> (''available'', JBool (truthy (get_key (map_of kvs) ''ok'' (JBool True)))) # kvs)"

definition initial_state :: "dispatch_env \<Rightarrow> payload" where
  "initial_state V =
     (let sections = map_of (map (\<lambda>(name, op). (name, JObj (state_section V op))) state_sections);
          nav = map_of (state_section V ''get_nav_state'');
          copies = (\<lambda>key. if key \<in> set nav_copies then nav key else None)
      in \<lparr> pl_op = ''state'', pl_fields = (de_cache V ++ sections ++ copies)(''ok'' \<mapsto> JBool True) \<rparr>)"

subsection \<open>Requests the gateway answers itself\<close>

definition route_request_of :: "request \<Rightarrow> route_request" where
  "route_request_of r =
     (let o' = rq_fields r in
      if rq_op r = ''list_routes'' then ListRoutes
      else if rq_op r = ''get_route'' then GetRoute (Some (get_key o' ''id'' JNull))
      else if rq_op r = ''delete_route'' then DeleteRoute (o' ''id'') (o' ''expected_revision'')
      else SaveRoute (o' ''id'') (o' ''expected_revision'') (o' ''name'') (o' ''document''))"

definition route_failure_of :: "route_failure \<Rightarrow> dispatch_failure" where
  "route_failure_of e =
     (case e of RouteRefused code \<Rightarrow> RouteFailure code | RouteEscaped x \<Rightarrow> EscapedFailure [] | StoreUnreadable \<Rightarrow> StoreTextFailure | WriteFailed \<Rightarrow> StorageFailure)"

definition route_reply_fields :: "route_reply \<Rightarrow> jobject" where
  "route_reply_fields a =
     (case a of
        Listed rs \<Rightarrow> [''routes'' \<mapsto> JList (map (\<lambda>(i, n, v). JObj [(''id'', JStr i), (''name'', JStr n), (''revision'', JInt v)]) rs)]
      | OneRoute e \<Rightarrow> [''route'' \<mapsto> JObj e]
      | Deleted \<Rightarrow> Map.empty)"

definition dispatch_routes :: "dispatch_env \<Rightarrow> request \<Rightarrow> gateway_files \<Rightarrow> gateway_files \<times> payload dispatched" where
  "dispatch_routes V r s =
     (let (f, res) = dispatch_route (de_size_of V) (de_casefold V) (de_uuid V) (de_routes_write V) (gf_routes s) (route_request_of r)
      in (s \<lparr> gf_routes := f \<rparr>,
          case res of Inl e \<Rightarrow> Inl (route_failure_of e) | Inr a \<Rightarrow> Inr (ack (named r) True None None (route_reply_fields a))))"

definition waypoint_failure_of :: "waypoint_error \<Rightarrow> dispatch_failure" where
  "waypoint_failure_of e =
     (case e of WaypointEscaped x \<Rightarrow> EscapedFailure [] | FileMissing \<Rightarrow> StorageFailure | FileFailure \<Rightarrow> StorageFailure | _ \<Rightarrow> WaypointFailure e)"

definition save_waypoints_request :: "dispatch_env \<Rightarrow> request \<Rightarrow> gateway_files \<Rightarrow> gateway_files \<times> payload dispatched" where
  "save_waypoints_request V r s =
     (case normalize_document (JObj [(''waypoints'', get_key (rq_fields r) ''waypoints'' JNull),
          (''patrol_profile'', get_key (rq_fields r) ''patrol_profile'' JNull)]) of
        Inl e \<Rightarrow> (s, Inl (waypoint_failure_of e))
      | Inr d \<Rightarrow>
          (let (f, res) = save_waypoints (de_yaml V) (de_waypoints_write V) (gf_waypoints s) d
           in (s \<lparr> gf_waypoints := f \<rparr>,
               case res of Inl e \<Rightarrow> Inl (waypoint_failure_of e)
               | Inr u \<Rightarrow> Inr (ack (named r) True None None [''waypoint_count'' \<mapsto> JInt (int (length (wd_waypoints d)))]))))"

definition load_waypoints_request :: "dispatch_env \<Rightarrow> request \<Rightarrow> gateway_files \<Rightarrow> payload dispatched" where
  "load_waypoints_request V r s =
     (case load_waypoints (de_yaml V) (gf_waypoints s) of
        Inl e \<Rightarrow> Inl (waypoint_failure_of e)
      | Inr d \<Rightarrow> Inr (ack (named r) True None None [''waypoint_count'' \<mapsto> JInt (int (length (wd_waypoints d))),
          ''waypoints'' \<mapsto> JList (map waypoint_dict (wd_waypoints d)),
          ''patrol_profile'' \<mapsto> (case wd_profile d of None \<Rightarrow> JNull | Some p \<Rightarrow> profile_yaml p)]))"

definition manual_command :: "request \<Rightarrow> gateway_output dispatched" where
  "manual_command r =
     (let number = (\<lambda>key. bind_res (the_field (rq_fields r) key) gw_float) in
      case bind_res (number ''linear_x'') (\<lambda>x. bind_res (number ''angular_z'') (\<lambda>z.
           bind_res (bind_res (the_field (rq_fields r) ''brake_pct'') gw_int) (\<lambda>b. Inr (PublishManual x z b)))) of
        Inl e \<Rightarrow> Inl (request_failure e) | Inr out \<Rightarrow> Inr out)"

definition sensor_replies :: "dispatch_env \<Rightarrow> request \<Rightarrow> payload list dispatched" where
  "sensor_replies V r =
     (let o' = rq_fields r; tab_value = get_key o' ''tab'' JNull;
          tab = (if truthy tab_value then py_str (de_json V) tab_value else ''general''); implemented = (tab = ''general'')
      in case o' ''enabled'' of
           None \<Rightarrow> Inl (EscapedFailure [])
         | Some enabled \<Rightarrow> Inr [ack (named r) True None None [''enabled'' \<mapsto> enabled, ''tab'' \<mapsto> JStr tab,
               ''interval_s'' \<mapsto> get_key o' ''interval_s'' (JFloat (Fin (1 / 2))), ''topic_name'' \<mapsto> get_key o' ''topic_name'' JNull,
               ''implemented'' \<mapsto> JBool implemented],
             \<lparr> pl_op = ''sensor_info'', pl_fields = (if implemented
               then [''tab'' \<mapsto> JStr tab, ''implemented'' \<mapsto> JBool True, ''nodes'' \<mapsto> JList [],
                     ''summary'' \<mapsto> JObj [(''connected'', get_key (de_cache V) ''connected'' (JBool True)), (''mode'', get_key (de_cache V) ''mode'' (JStr ''connected''))]]
               else [''tab'' \<mapsto> JStr tab, ''implemented'' \<mapsto> JBool False]) \<rparr>])"

definition dispatch_recordings :: "dispatch_env \<Rightarrow> request \<Rightarrow> payload dispatched" where
  "dispatch_recordings V r =
     (case de_recordings V of
        None \<Rightarrow> Inr (ack (named r) False (Some ''recordings_not_configured'') None Map.empty)
      | Some answer \<Rightarrow> bind_res (answer (rq_op r) (rq_fields r)) (\<lambda>fields. Inr (ack (named r) True None None fields)))"

subsection \<open>Dispatch\<close>

definition one_reply :: "payload dispatched \<Rightarrow> payload list dispatched" where
  "one_reply p = bind_res p (\<lambda>q. Inr [q])"

definition state_reply :: "dispatch_env \<Rightarrow> request \<Rightarrow> payload" where
  "state_reply V r = (let p = initial_state V in p \<lparr> pl_fields := with_optional ''client_req_id'' (rq_id r) (pl_fields p) \<rparr>)"

definition has_prefix :: "string \<Rightarrow> string \<Rightarrow> bool" where
  "has_prefix p s \<longleftrightarrow> take (length p) s = p"

definition dispatch_inner :: "dispatch_env \<Rightarrow> request \<Rightarrow> gateway_files \<Rightarrow> gateway_files \<times> gateway_output list \<times> payload list dispatched" where
  "dispatch_inner V r s =
     (let op = rq_op r in
      if has_prefix ''recordings_'' op then (s, [], one_reply (dispatch_recordings V r))
      else if op \<in> {''list_routes'', ''get_route'', ''save_route'', ''delete_route''}
      then (let (s1, p) = dispatch_routes V r s in (s1, [], one_reply p))
      else if op = ''get_state'' then (s, [], Inr [state_reply V r])
      else if op = ''save_waypoints_file'' then (let (s1, p) = save_waypoints_request V r s in (s1, [], one_reply p))
      else if op = ''load_waypoints_file'' then (s, [], one_reply (load_waypoints_request V r s))
      else if op = ''set_manual_cmd''
      then (case manual_command r of Inl e \<Rightarrow> (s, [], Inl e) | Inr out \<Rightarrow> (s, [out], Inr [ack (named r) True None None Map.empty]))
      else if op = ''set_sensor_info_view'' then (s, [], sensor_replies V r)
      else if op = ''get_nav_snapshot'' then (s, [], one_reply (dispatch_snapshot V r))
      else if has_prefix ''camera_'' op \<or> op \<in> {''get_camera_status'', ''get_camera_ptz_state''} then (s, [], one_reply (dispatch_camera V r))
      else (s, [], one_reply (dispatch_service V r)))"

text \<open>The \<open>except\<close> clauses: every failure but the escaped ones becomes an acknowledgement.\<close>

definition failure_reply :: "dispatch_env \<Rightarrow> request \<Rightarrow> dispatch_failure \<Rightarrow> string + payload list" where
  "failure_reply V r e =
     (let reply = (\<lambda>text code. Inr [ack (named r) False (Some text) (Some code) Map.empty]) in
      case e of
        GatewayFailure code text \<Rightarrow> reply text code
      | RouteFailure code \<Rightarrow> reply (de_text V e) code
      | StorageFailure \<Rightarrow> reply (de_text V e) ''STORAGE_FAILURE''
      | EscapedFailure text \<Rightarrow> Inl (de_text V e)
      | _ \<Rightarrow> reply (de_text V e) ''INVALID_REQUEST'')"

definition dispatch :: "dispatch_env \<Rightarrow> request \<Rightarrow> gateway_files \<Rightarrow> gateway_files \<times> gateway_output list \<times> (string + payload list)" where
  "dispatch V r s =
     (case dispatch_inner V r s of
        (s1, out, Inl e) \<Rightarrow> (s1, out, failure_reply V r e)
      | (s1, out, Inr ps) \<Rightarrow> (s1, out, Inr ps))"

subsection \<open>Answers\<close>




























text \<open>Reloading the zones answers with \<open>success\<close> instead of \<open>ok\<close>, and the gateway takes a response without \<open>ok\<close> for one that went
well: a reload that failed is acknowledged as done.\<close>

lemma failed_reload_acknowledged:
  assumes "rq_op r = ''load_zones_file''" "de_fits V EmptyRequest"
    "de_service V ''load_zones_file'' EmptyRequest = ServiceAnswer [(''success'', JBool False), (''message'', JStr text)]"
  shows "\<exists>p. dispatch V r s = (s, [], Inr [p]) \<and> pl_fields p ''ok'' = Some (JBool True) \<and> pl_fields p ''success'' = Some (JBool False)"
proof -
  have b: "built V r = Inr EmptyRequest"
    using assms(1,2) by (simp add: built_def build_ros_request_def build_fields_def plain_operations_def)
  have "dispatch_service V r = Inr (ack (named r) True None None [''message'' \<mapsto> JStr text, ''success'' \<mapsto> JBool False])"
    using assms(1,3) b by (simp add: dispatch_service_def service_call_def get_key_def fun_eq_iff)
  then show ?thesis using assms(1)
    by (simp add: dispatch_def dispatch_inner_def has_prefix_def one_reply_def ack_def with_optional_def named_def split: option.splits)
qed

subsection \<open>Examples\<close>

definition quiet_yaml :: yaml_lib where
  "quiet_yaml = \<lparr> ya_dump = (\<lambda>_. []), ya_load = (\<lambda>_. None) \<rparr>"

definition failing_services :: dispatch_env where
  "failing_services = \<lparr> de_service = (\<lambda>op q. if op = ''load_zones_file'' then ServiceAnswer [(''success'', JBool False), (''message'', JStr ''no file'')] else ServiceSilent),
     de_fits = (\<lambda>_. True), de_json = \<lparr> js_loads = (\<lambda>_. None), js_dumps = (\<lambda>_. []), js_shown = (\<lambda>_. []) \<rparr>, de_dumps = (\<lambda>_. []),
     de_yaml = quiet_yaml, de_text = (\<lambda>_. []), de_size_of = (\<lambda>_. 0), de_casefold = (\<lambda>x. x), de_uuid = ''u'', de_routes_write = RoutesWritten,
     de_waypoints_write = Written, de_recordings = None, de_cache = Map.empty, de_base64 = (\<lambda>_. ([], 0)) \<rparr>"

definition plain_request :: "string \<Rightarrow> request" where
  "plain_request op = \<lparr> rq_op = op, rq_id = Some ''7'', rq_fields = Map.empty \<rparr>"

definition no_files :: gateway_files where
  "no_files = \<lparr> gf_routes = NoRouteFile, gf_waypoints = NoFile \<rparr>"


lemma failed_reload_acknowledged_witness:
  "\<exists>p. dispatch failing_services (plain_request ''load_zones_file'') no_files = (no_files, [], Inr [p]) \<and> pl_fields p ''ok'' = Some (JBool True) \<and>
     pl_fields p ''success'' = Some (JBool False)"
  by (rule failed_reload_acknowledged) (simp_all add: plain_request_def failing_services_def)

end
