(* ===== verification/Navigation_Profiles.thy ===== *)
theory Navigation_Profiles
  imports Prelude
begin

section \<open>Navigation profiles\<close>

text \<open>
  \<open>salus_navigation/navigation_profiles.py\<close> and \<open>navigation_profile_coordinator.py\<close>: one profile is set on the
  parameters of four components of the navigation stack, or the components that took it are set undo. The parameter
  services are the environment: each call of \<open>_set_component\<close> comes with the clock readings and the answer it meets. Requests are
  applied one after the other: the coordinator is reentrant and has four threads, and two requests that overlap are not modelled.
\<close>

subsection \<open>The transaction\<close>

record profile_values =
  pv_global_slope :: pyfloat
  pv_local_slope :: pyfloat
  pv_split_height :: pyfloat
  pv_local_radius :: pyfloat
  pv_local_scaling :: pyfloat
  pv_global_radius :: pyfloat
  pv_global_scaling :: pyfloat
  pv_linear_vel :: pyfloat

definition urban :: string where "urban = ''urban''"
definition rural :: string where "rural = ''rural''"

definition profiles :: "(string \<times> profile_values) list" where
  "profiles =
     [(urban, \<lparr> pv_global_slope = Fin 10, pv_local_slope = Fin 13, pv_split_height = fl (1 / 5), pv_local_radius = fl (7 / 5),
        pv_local_scaling = fl (13 / 10), pv_global_radius = Fin (3 / 2), pv_global_scaling = fl (7 / 5), pv_linear_vel = fl (8 / 5) \<rparr>),
      (rural, \<lparr> pv_global_slope = Fin 15, pv_local_slope = Fin 18, pv_split_height = Fin (1 / 4), pv_local_radius = fl (4 / 5),
        pv_local_scaling = Fin 3, pv_global_radius = fl (4 / 5), pv_global_scaling = Fin 3, pv_linear_vel = fl (8 / 5) \<rparr>)]"

datatype profile_component = GroundFilter | LocalInflation | GlobalInflation | VelocityController

definition profile_components :: "profile_component list" where
  "profile_components = [GroundFilter, LocalInflation, GlobalInflation, VelocityController]"

fun component_name :: "profile_component \<Rightarrow> string" where
  "component_name GroundFilter = ''ground_filter''"
| "component_name LocalInflation = ''local_inflation''"
| "component_name GlobalInflation = ''global_inflation''"
| "component_name VelocityController = ''controller''"

datatype transaction_state = TxIdle | TxApplying | TxRollingBack | TxSucceeded | TxFailed

record transaction =
  tx_active :: string
  tx_previous :: string
  tx_target :: string
  tx_state :: transaction_state
  tx_pending :: "profile_component list"
  tx_applied :: "profile_component list"
  tx_failed :: string
  tx_error :: string

definition new_transaction :: "string \<Rightarrow> transaction" where
  "new_transaction p = \<lparr> tx_active = p, tx_previous = p, tx_target = p, tx_state = TxIdle, tx_pending = [], tx_applied = [],
     tx_failed = [], tx_error = [] \<rparr>"

definition quoted :: "string \<Rightarrow> string" where
  "quoted s = CHR 0x27 # s @ [CHR 0x27]"

text \<open>The message is empty when the transaction starts.\<close>

definition begin_transaction :: "transaction \<Rightarrow> string \<Rightarrow> transaction \<times> string" where
  "begin_transaction t profile =
     (let target = py_lower (py_strip profile) in
      if target \<notin> fst ` set profiles then (t, ''profile must be '' @ quoted ''urban'' @ '' or '' @ quoted ''rural'')
      else if tx_state t = TxApplying \<or> tx_state t = TxRollingBack then (t, ''profile transaction already active'')
      else (t \<lparr> tx_previous := tx_active t, tx_target := target, tx_pending := profile_components, tx_applied := [],
              tx_failed := [], tx_error := [], tx_state := TxApplying \<rparr>, []))"

definition py_or :: "string \<Rightarrow> string \<Rightarrow> string" where
  "py_or s other = (if s = [] then other else s)"

text \<open>\<open>None\<close> is the \<open>ValueError\<close> of a confirmation nobody waits for.\<close>

definition confirm :: "transaction \<Rightarrow> profile_component \<Rightarrow> bool \<Rightarrow> string \<Rightarrow> transaction option" where
  "confirm t c ok err =
     (if tx_state t \<noteq> TxApplying \<or> c \<notin> set (tx_pending t) then None
      else
        (let rest = remove1 c (tx_pending t) in
         if \<not> ok then
           Some (t \<lparr> tx_failed := component_name c, tx_error := py_or err ''update rejected'', tx_pending := rev (tx_applied t),
             tx_state := (if rev (tx_applied t) = [] then TxFailed else TxRollingBack) \<rparr>)
         else
           (let t1 = t \<lparr> tx_pending := rest, tx_applied := tx_applied t @ [c] \<rparr> in
            Some (if rest = [] then t1 \<lparr> tx_active := tx_target t1, tx_state := TxSucceeded \<rparr> else t1))))"

definition strip_separators :: "string \<Rightarrow> string" where
  "strip_separators s = (let sep = (\<lambda>c. c = CHR '';'' \<or> c = CHR '' '') in rev (dropWhile sep (rev (dropWhile sep s))))"

definition confirm_rollback :: "transaction \<Rightarrow> profile_component \<Rightarrow> bool \<Rightarrow> string \<Rightarrow> transaction option" where
  "confirm_rollback t c ok err =
     (if tx_state t \<noteq> TxRollingBack \<or> c \<notin> set (tx_pending t) then None
      else
        (let rest = remove1 c (tx_pending t);
             t1 = (if ok then t \<lparr> tx_pending := rest \<rparr>
                   else t \<lparr> tx_pending := rest, tx_error := strip_separators (tx_error t @ ''; rollback '' @ component_name c @ '': '' @
                     py_or err ''rollback rejected'') \<rparr>)
         in Some (if rest = [] then t1 \<lparr> tx_active := tx_previous t1, tx_state := TxFailed \<rparr> else t1)))"

subsection \<open>The calls\<close>

definition parameters_for :: "profile_component \<Rightarrow> profile_values \<Rightarrow> (string \<times> pyfloat) list" where
  "parameters_for c v =
     (case c of
        GroundFilter \<Rightarrow> [(''global_slope_max_angle_deg'', pv_global_slope v), (''local_slope_max_angle_deg'', pv_local_slope v),
          (''split_height_distance'', pv_split_height v)]
      | LocalInflation \<Rightarrow> [(''inflation_layer.inflation_radius'', pv_local_radius v),
          (''inflation_layer.cost_scaling_factor'', pv_local_scaling v)]
      | GlobalInflation \<Rightarrow> [(''inflation_layer.inflation_radius'', pv_global_radius v),
          (''inflation_layer.cost_scaling_factor'', pv_global_scaling v)]
      | VelocityController \<Rightarrow> [(''FollowPath.desired_linear_vel'', pv_linear_vel v)])"

text \<open>
  One call: the clock at its start, before the wait for the service and before the wait for the answer; whether the
  service and the answer come within the wait they are given; the exception of the call, or the results, each
  successful or with its reason.
\<close>

record call_env =
  ce_start :: pyfloat
  ce_wait :: pyfloat
  ce_sent :: pyfloat
  ce_service :: "pyfloat \<Rightarrow> bool"
  ce_ready :: "pyfloat \<Rightarrow> bool"
  ce_call_error :: "string option"
  ce_response :: "string + (bool \<times> string) list"

fun semicolons :: "string list \<Rightarrow> string" where
  "semicolons [] = []"
| "semicolons [s] = s"
| "semicolons (s # ss) = s @ ''; '' @ semicolons ss"

definition failures :: "(bool \<times> string) list \<Rightarrow> string list" where
  "failures results = map (\<lambda>r. py_or (snd r) ''rejected'') (filter (\<lambda>r. \<not> fst r) results)"

definition component_deadline :: "pyfloat \<Rightarrow> pyfloat \<Rightarrow> call_env \<Rightarrow> pyfloat" where
  "component_deadline timeout limit e = pymin limit (fadd (ce_start e) (pymax (fl (1 / 10)) timeout))"

definition set_component :: "pyfloat \<Rightarrow> profile_component \<Rightarrow> pyfloat \<Rightarrow> call_env \<Rightarrow> bool \<times> string" where
  "set_component timeout c limit e =
     (let deadline = component_deadline timeout limit e; n = component_name c; left = fsub deadline (ce_wait e) in
      if fle left fzero then (False, n @ '' transaction deadline exhausted'')
      else if \<not> ce_service e left then (False, n @ '' parameter service unavailable'')
      else
        (case ce_call_error e of
           Some x \<Rightarrow> (False, n @ '' update failed: '' @ x)
         | None \<Rightarrow>
             (let rest = fsub deadline (ce_sent e) in
              if fle rest fzero \<or> \<not> ce_ready e rest then (False, n @ '' update timed out'')
              else
                (case ce_response e of
                   Inl x \<Rightarrow> (False, n @ '' update failed: '' @ x)
                 | Inr results \<Rightarrow> (failures results = [], semicolons (failures results))))))"

text \<open>The request leaves the node when the call is made: what the component does with it is its own.\<close>

definition request_sent :: "pyfloat \<Rightarrow> pyfloat \<Rightarrow> call_env \<Rightarrow> bool" where
  "request_sent timeout limit e =
     (let left = fsub (component_deadline timeout limit e) (ce_wait e)
      in \<not> fle left fzero \<and> ce_service e left \<and> ce_call_error e = None)"

text \<open>A call that was made: the component, the profile, whether the request was sent and whether it was confirmed.\<close>

record call_log =
  cl_component :: profile_component
  cl_profile :: string
  cl_sent :: bool
  cl_ok :: bool

type_synonym apply_state = "transaction \<times> call_log list"

definition log_call :: "pyfloat \<Rightarrow> pyfloat \<Rightarrow> profile_component \<Rightarrow> string \<Rightarrow> call_env \<Rightarrow> call_log" where
  "log_call timeout limit c p e =
     \<lparr> cl_component = c, cl_profile = p, cl_sent = request_sent timeout limit e, cl_ok = fst (set_component timeout c limit e) \<rparr>"

text \<open>The loops of \<open>_apply\<close>; the \<open>i\<close>-th call meets \<open>envs i\<close>. \<open>None\<close> is an exception.\<close>

primrec apply_components ::
    "pyfloat \<Rightarrow> pyfloat \<Rightarrow> (nat \<Rightarrow> call_env) \<Rightarrow> string \<Rightarrow> apply_state \<Rightarrow> profile_component list \<Rightarrow> apply_state option" where
  "apply_components timeout limit envs target s [] = Some s"
| "apply_components timeout limit envs target s (c # cs) =
     (let (t, calls) = s; e = envs (length calls); (ok, reason) = set_component timeout c limit e in
      Option.bind (confirm t c ok reason) (\<lambda>t1.
        let s1 = (t1, calls @ [log_call timeout limit c target e])
        in if ok then apply_components timeout limit envs target s1 cs else Some s1))"

primrec rollback_components ::
    "pyfloat \<Rightarrow> pyfloat \<Rightarrow> (nat \<Rightarrow> call_env) \<Rightarrow> apply_state \<Rightarrow> profile_component list \<Rightarrow> apply_state option" where
  "rollback_components timeout limit envs s [] = Some s"
| "rollback_components timeout limit envs s (c # cs) =
     (let (t, calls) = s; e = envs (length calls); (ok, reason) = set_component timeout c limit e in
      Option.bind (confirm_rollback t c ok reason) (\<lambda>t1.
        rollback_components timeout limit envs (t1, calls @ [log_call timeout limit c (tx_previous t) e]) cs))"

record apply_reply =
  ar_ok :: bool
  ar_error :: string
  ar_active :: string

definition transaction_reply :: "transaction \<Rightarrow> apply_reply" where
  "transaction_reply t =
     (let ok = (tx_state t = TxSucceeded)
      in \<lparr> ar_ok = ok, ar_error = (if ok then [] else tx_failed t @ '': '' @ tx_error t), ar_active = tx_active t \<rparr>)"

definition apply_profile ::
    "pyfloat \<Rightarrow> pyfloat \<Rightarrow> pyfloat \<Rightarrow> (nat \<Rightarrow> call_env) \<Rightarrow> transaction \<Rightarrow> string \<Rightarrow> (transaction \<times> apply_reply \<times> call_log list) option" where
  "apply_profile timeout whole now envs t profile =
     (let target = py_lower (py_strip profile); (t0, err) = begin_transaction t target in
      if err \<noteq> [] then Some (t0, \<lparr> ar_ok = False, ar_error = err, ar_active = tx_active t0 \<rparr>, [])
      else
        (let limit = fadd now (pymax (fl (1 / 10)) whole) in
         Option.bind (apply_components timeout limit envs target (t0, []) (tx_pending t0)) (\<lambda>s1.
         Option.bind (if tx_state (fst s1) = TxRollingBack
                      then rollback_components timeout limit envs s1 (tx_pending (fst s1)) else Some s1) (\<lambda>(t2, calls).
           Some (t2, transaction_reply t2, calls)))))"

text \<open>The costmaps that are cleared: those whose service is ready, after a success.\<close>

definition cleared_costmaps :: "apply_reply \<Rightarrow> bool list \<Rightarrow> bool list" where
  "cleared_costmaps r ready = (if ar_ok r then ready else map (\<lambda>_. False) ready)"

subsection \<open>What the loops do\<close>

definition between_requests :: "transaction \<Rightarrow> bool" where
  "between_requests t \<longleftrightarrow> tx_state t \<noteq> TxApplying \<and> tx_state t \<noteq> TxRollingBack"

text \<open>A call log that is all confirmed, in the order of the components.\<close>

definition confirmed_calls :: "string \<Rightarrow> profile_component list \<Rightarrow> call_log list \<Rightarrow> bool" where
  "confirmed_calls p cs calls \<longleftrightarrow> map cl_component calls = cs \<and> list_all (\<lambda>l. cl_profile l = p \<and> cl_sent l \<and> cl_ok l) calls"

lemma confirmed_call:
  "fst (set_component timeout c limit e) \<Longrightarrow>
     cl_profile (log_call timeout limit c p e) = p \<and> cl_component (log_call timeout limit c p e) = c \<and>
     cl_sent (log_call timeout limit c p e) \<and> cl_ok (log_call timeout limit c p e)"
  by (auto simp: log_call_def set_component_def request_sent_def Let_def split: if_splits option.splits)

lemma confirmed_snoc:
  "confirmed_calls p done_cs calls \<Longrightarrow> fst (set_component timeout c limit e) \<Longrightarrow>
     confirmed_calls p (done_cs @ [c]) (calls @ [log_call timeout limit c p e])"
  using confirmed_call [of timeout c limit e p] by (simp add: confirmed_calls_def)

definition forward_result ::
    "pyfloat \<Rightarrow> pyfloat \<Rightarrow> (nat \<Rightarrow> call_env) \<Rightarrow> string \<Rightarrow> transaction \<Rightarrow> profile_component list \<Rightarrow> transaction \<Rightarrow> call_log list \<Rightarrow> bool" where
  "forward_result timeout limit envs p t cs t1 calls1 \<longleftrightarrow>
    (tx_state t1 = TxSucceeded \<and> tx_active t1 = tx_target t \<and> confirmed_calls p (tx_applied t @ cs) calls1 \<or>
     (\<exists>good c l rest. tx_applied t @ cs = good @ c # rest \<and> calls1 = l @ [log_call timeout limit c p (envs (length l))] \<and>
        confirmed_calls p good l \<and> \<not> fst (set_component timeout c limit (envs (length l))) \<and>
        tx_pending t1 = rev good \<and> tx_active t1 = tx_active t \<and> tx_state t1 = (if good = [] then TxFailed else TxRollingBack)))"

text \<open>The forward loop ends with all components set, or at the first call that fails.\<close>

lemma forward_loop:
  assumes "tx_state t = TxApplying" "tx_pending t = cs" "distinct cs" "cs \<noteq> []" "confirmed_calls p (tx_applied t) calls"
  shows "\<exists>t1 calls1. apply_components timeout limit envs p (t, calls) cs = Some (t1, calls1) \<and> tx_previous t1 = tx_previous t \<and>
    forward_result timeout limit envs p t cs t1 calls1"
  using assms
proof (induction cs arbitrary: t calls)
  case (Cons c cs)
  define e where "e = envs (length calls)"
  obtain ok reason where r: "set_component timeout c limit e = (ok, reason)" by fastforce
  show ?case
  proof (cases ok)
    case False
    have step: "apply_components timeout limit envs p (t, calls) (c # cs) =
        Some (t \<lparr> tx_failed := component_name c, tx_error := py_or reason ''update rejected'', tx_pending := rev (tx_applied t),
             tx_state := (if rev (tx_applied t) = [] then TxFailed else TxRollingBack) \<rparr>, calls @ [log_call timeout limit c p e])"
      using Cons.prems r False by (simp add: confirm_def Let_def e_def)
    have "\<exists>good ca l rest. tx_applied t @ c # cs = good @ ca # rest \<and>
        calls @ [log_call timeout limit c p e] = l @ [log_call timeout limit ca p (envs (length l))] \<and> confirmed_calls p good l \<and>
        \<not> fst (set_component timeout ca limit (envs (length l))) \<and> rev (tx_applied t) = rev good"
      by (rule exI [of _ "tx_applied t"], rule exI [of _ c], rule exI [of _ calls], rule exI [of _ cs])
         (use Cons.prems(5) r False in \<open>simp add: e_def\<close>)
    then show ?thesis unfolding step by (fastforce simp: forward_result_def)
  next
    case True
    define t1 where "t1 = t \<lparr> tx_pending := cs, tx_applied := tx_applied t @ [c] \<rparr>"
    have good: "confirmed_calls p (tx_applied t1) (calls @ [log_call timeout limit c p e])"
      using confirmed_snoc [OF Cons.prems(5)] r True by (simp add: t1_def)
    show ?thesis
    proof (cases "cs = []")
      case True
      then show ?thesis using Cons.prems r \<open>ok\<close> good by (simp add: confirm_def Let_def e_def [symmetric] t1_def forward_result_def)
    next
      case False
      have step: "apply_components timeout limit envs p (t, calls) (c # cs) =
          apply_components timeout limit envs p (t1, calls @ [log_call timeout limit c p e]) cs"
        using Cons.prems r \<open>ok\<close> False by (simp add: confirm_def Let_def e_def t1_def)
      show ?thesis using Cons.IH [of t1, OF _ _ _ False good] Cons.prems unfolding step by (simp add: t1_def forward_result_def)
    qed
  qed
qed simp

lemma backward_loop:
  assumes "tx_state t = TxRollingBack" "tx_pending t = cs" "distinct cs" "cs \<noteq> []"
  shows "\<exists>t1 calls1. rollback_components timeout limit envs (t, calls) cs = Some (t1, calls @ calls1) \<and>
    tx_state t1 = TxFailed \<and> tx_active t1 = tx_previous t \<and> map cl_component calls1 = cs \<and>
    list_all (\<lambda>l. cl_profile l = tx_previous t \<and> (cl_ok l \<longrightarrow> cl_sent l)) calls1"
  using assms
proof (induction cs arbitrary: t calls)
  case (Cons c cs)
  define e where "e = envs (length calls)"
  obtain ok reason where r: "set_component timeout c limit e = (ok, reason)" by fastforce
  define l where "l = log_call timeout limit c (tx_previous t) e"
  have l: "cl_component l = c" "cl_profile l = tx_previous t" "cl_ok l \<longrightarrow> cl_sent l"
    using confirmed_call [of timeout c limit e "tx_previous t"] by (auto simp: l_def log_call_def)
  obtain t1 where t1: "confirm_rollback t c ok reason = Some t1" "tx_previous t1 = tx_previous t" "tx_pending t1 = cs"
    "tx_state t1 = (if cs = [] then TxFailed else TxRollingBack)" "cs = [] \<longrightarrow> tx_active t1 = tx_previous t"
    using Cons.prems by (auto simp: confirm_rollback_def Let_def)
  have step: "rollback_components timeout limit envs (t, calls) (c # cs) = rollback_components timeout limit envs (t1, calls @ [l]) cs"
    using r t1(1) by (simp add: e_def l_def)
  show ?case
  proof (cases "cs = []")
    case True
    then show ?thesis unfolding step using t1 l by (auto intro!: exI [of _ "[l]"])
  next
    case False
    obtain t2 calls2 where "rollback_components timeout limit envs (t1, calls @ [l]) cs = Some (t2, (calls @ [l]) @ calls2)"
      "tx_state t2 = TxFailed" "tx_active t2 = tx_previous t" "map cl_component calls2 = cs"
      "list_all (\<lambda>l. cl_profile l = tx_previous t \<and> (cl_ok l \<longrightarrow> cl_sent l)) calls2"
      using Cons.IH [of t1 "calls @ [l]", OF _ _ _ False] Cons.prems t1 False by auto
    then show ?thesis unfolding step using l by (intro exI [of _ t2] exI [of _ "l # calls2"]) simp
  qed
qed simp


lemma between_start:
  assumes "between_requests t" "py_lower (py_strip (py_lower (py_strip profile))) \<in> fst ` set profiles"
  shows "\<exists>t0. begin_transaction t (py_lower (py_strip profile)) = (t0, []) \<and> tx_state t0 = TxApplying \<and> tx_pending t0 = profile_components \<and>
    tx_applied t0 = [] \<and> tx_previous t0 = tx_active t \<and> tx_active t0 = tx_active t \<and>
    tx_target t0 = py_lower (py_strip (py_lower (py_strip profile)))"
  using assms by (simp add: begin_transaction_def between_requests_def Let_def)

text \<open>The outcome of a transaction: everything confirmed, or what was confirmed is asked undo in the opposite order.\<close>

definition outcome_ok :: "string \<Rightarrow> string \<Rightarrow> transaction \<Rightarrow> apply_reply \<Rightarrow> call_log list \<Rightarrow> bool" where
  "outcome_ok previous target t r calls \<longleftrightarrow> between_requests t \<and> ar_active r = tx_active t \<and>
     (if ar_ok r then tx_active t = target \<and> confirmed_calls target profile_components calls
      else tx_active t = previous \<and>
        (\<exists>good bad undo rest. calls = good @ bad # undo \<and> \<not> cl_ok bad \<and> cl_profile bad = target \<and>
           profile_components = map cl_component good @ cl_component bad # rest \<and>
           confirmed_calls target (map cl_component good) good \<and>
           map cl_component undo = rev (map cl_component good) \<and> list_all (\<lambda>l. cl_profile l = previous \<and> (cl_ok l \<longrightarrow> cl_sent l)) undo))"

lemma apply_outcome:
  assumes "between_requests t" "profile \<in> fst ` set profiles"
  shows "\<exists>t1 r calls. apply_profile timeout whole now envs t profile = Some (t1, r, calls) \<and> outcome_ok (tx_active t) profile t1 r calls"
proof -
  have norm: "py_lower (py_strip profile) = profile" "py_lower (py_strip (py_lower (py_strip profile))) = profile"
    using assms(2) by (auto simp: profiles_def urban_def rural_def py_strip_def py_space_def py_lower_def py_lower_char_def Let_def)
  obtain t0 where t0: "begin_transaction t profile = (t0, [])" "tx_state t0 = TxApplying" "tx_pending t0 = profile_components"
    "tx_applied t0 = []" "tx_previous t0 = tx_active t" "tx_active t0 = tx_active t" "tx_target t0 = profile"
    using between_start [of t profile] assms norm by auto
  define limit where "limit = fadd now (pymax (fl (1 / 10)) whole)"
  have d: "distinct profile_components" "profile_components \<noteq> []" "confirmed_calls profile (tx_applied t0) []"
    by (simp_all add: profile_components_def confirmed_calls_def t0(4))
  obtain t1 calls1 where f: "apply_components timeout limit envs profile (t0, []) profile_components = Some (t1, calls1)"
    "tx_previous t1 = tx_active t" "forward_result timeout limit envs profile t0 profile_components t1 calls1"
    using forward_loop [OF t0(2,3) d, of timeout limit envs] t0(5) by auto
  note o = f(3) [unfolded forward_result_def t0 append_Nil]
  have a: "apply_profile timeout whole now envs t profile =
      Option.bind (if tx_state t1 = TxRollingBack then rollback_components timeout limit envs (t1, calls1) (tx_pending t1) else Some (t1, calls1))
        (\<lambda>(t2, calls). Some (t2, transaction_reply t2, calls))"
    using f(1) t0(1,3) by (simp add: apply_profile_def norm Let_def limit_def [symmetric])
  from o show ?thesis
  proof (elim disjE exE conjE)
    assume "tx_state t1 = TxSucceeded" "tx_active t1 = profile" "confirmed_calls profile profile_components calls1"
    then show ?thesis by (simp add: a outcome_ok_def between_requests_def transaction_reply_def Let_def)
  next
    fix good c l rest
    assume c: "profile_components = good @ c # rest" "calls1 = l @ [log_call timeout limit c profile (envs (length l))]"
      "confirmed_calls profile good l" "\<not> fst (set_component timeout c limit (envs (length l)))"
      "tx_pending t1 = rev good" "tx_active t1 = tx_active t" "tx_state t1 = (if good = [] then TxFailed else TxRollingBack)"
    have g: "map cl_component l = good" using c(3) by (simp add: confirmed_calls_def)
    define bad where "bad = log_call timeout limit c profile (envs (length l))"
    have b: "cl_component bad = c" "cl_profile bad = profile" "\<not> cl_ok bad" using c(4) by (simp_all add: bad_def log_call_def)
    show ?thesis
    proof (cases "good = []")
      case True
      then have "outcome_ok (tx_active t) profile t1 (transaction_reply t1) ([] @ bad # [])"
        unfolding outcome_ok_def transaction_reply_def Let_def using c b
        by (simp add: between_requests_def confirmed_calls_def) (rule exI [of _ "[]"], auto)
      then show ?thesis using True c g by (simp add: a bad_def confirmed_calls_def)
    next
      case False
      have p: "distinct (tx_pending t1)" "tx_pending t1 \<noteq> []" using d(1) [unfolded c(1)] c(5) False by auto
      obtain t2 undo where r: "rollback_components timeout limit envs (t1, calls1) (tx_pending t1) = Some (t2, calls1 @ undo)"
        "tx_state t2 = TxFailed" "tx_active t2 = tx_active t" "map cl_component undo = rev good"
        "list_all (\<lambda>l. cl_profile l = tx_active t \<and> (cl_ok l \<longrightarrow> cl_sent l)) undo"
        using backward_loop [OF _ refl p, of timeout limit envs calls1] c(5,7) False f(2) by auto
      have calls: "calls1 @ undo = l @ bad # undo" using c(2) by (simp add: bad_def)
      have "outcome_ok (tx_active t) profile t2 (transaction_reply t2) (l @ bad # undo)"
        unfolding outcome_ok_def transaction_reply_def Let_def using r c b g
        by (simp add: between_requests_def) (rule exI [of _ l], rule exI [of _ bad], rule exI [of _ undo], auto)
      then show ?thesis using r c False calls by (simp add: a)
    qed
  qed
qed

subsection \<open>What the components hold\<close>

text \<open>
  The profile each component holds, given which of the sent requests took effect (by the index of the call): the
  node does not see it; a component that confirms has taken the values.
\<close>

primrec profile_held :: "(nat \<Rightarrow> bool) \<Rightarrow> nat \<Rightarrow> (profile_component \<Rightarrow> string) \<Rightarrow> call_log list \<Rightarrow> profile_component \<Rightarrow> string" where
  "profile_held took i w [] = w"
| "profile_held took i w (l # ls) = profile_held took (Suc i) (if cl_sent l \<and> took i then w(cl_component l := cl_profile l) else w) ls"

lemma held_append: "profile_held took i w (xs @ ys) = profile_held took (i + length xs) (profile_held took i w xs) ys"
  by (induction xs arbitrary: i w) simp_all

text \<open>All calls of a list took effect: the components called hold the profile, the others what they profile_held.\<close>

lemma held_all:
  assumes "\<And>j. j < length ls \<Longrightarrow> cl_sent (ls ! j) \<and> took (i + j)" "list_all (\<lambda>l. cl_profile l = p) ls"
  shows "profile_held took i w ls = (\<lambda>c. if c \<in> cl_component ` set ls then p else w c)"
  using assms
proof (induction ls arbitrary: i w)
  case (Cons l ls)
  have "cl_sent l \<and> took i" using Cons.prems(1) [of 0] by simp
  moreover have "cl_sent (ls ! j) \<and> took (Suc i + j)" if "j < length ls" for j using Cons.prems(1) [of "Suc j"] that by simp
  then have "profile_held took (Suc i) v ls = (\<lambda>c. if c \<in> cl_component ` set ls then p else v c)" for v
    using Cons.IH [of "Suc i"] Cons.prems(2) by simp
  ultimately show ?case using Cons.prems(2) by (auto simp: fun_eq_iff)
qed simp

text \<open>What is known of the effects: a confirmed request took effect, and (the optimistic part) a failed one did not.\<close>

definition confirmed_took :: "(nat \<Rightarrow> bool) \<Rightarrow> call_log list \<Rightarrow> bool" where
  "confirmed_took took calls \<longleftrightarrow> (\<forall>i<length calls. cl_ok (calls ! i) \<longrightarrow> took i)"

definition failed_not_taken :: "(nat \<Rightarrow> bool) \<Rightarrow> call_log list \<Rightarrow> bool" where
  "failed_not_taken took calls \<longleftrightarrow> (\<forall>i<length calls. \<not> cl_ok (calls ! i) \<longrightarrow> \<not> took i)"

definition restored :: "string \<Rightarrow> call_log list \<Rightarrow> bool" where
  "restored previous calls \<longleftrightarrow> length (filter (\<lambda>l. \<not> cl_ok l) calls) = 1"

lemma outcome_held:
  assumes o: "outcome_ok previous target t r calls" and "confirmed_took took calls" "failed_not_taken took calls"
    and w: "\<And>c. c \<in> set profile_components \<Longrightarrow> w c = previous" and once: "length (filter (\<lambda>l. \<not> cl_ok l) calls) \<le> 1"
    and c: "c \<in> set profile_components"
  shows "profile_held took 0 w calls c = ar_active r"
proof (cases "ar_ok r")
  case True
  then have f: "ar_active r = target" "map cl_component calls = profile_components"
    "list_all (\<lambda>l. cl_profile l = target \<and> cl_sent l \<and> cl_ok l) calls"
    using o by (simp_all add: outcome_ok_def confirmed_calls_def)
  then have "cl_sent (calls ! j) \<and> took (0 + j)" if "j < length calls" for j
    using that assms(2) by (simp add: confirmed_took_def list_all_length)
  then have "profile_held took 0 w calls = (\<lambda>c. if c \<in> cl_component ` set calls then target else w c)"
    by (rule held_all) (use f(3) in \<open>auto simp: list_all_iff\<close>)
  moreover have "cl_component ` set calls = set profile_components" using f(2) by (metis set_map)
  ultimately show ?thesis using c f(1) by simp
next
  case False
  then obtain good bad undo rest where f: "ar_active r = previous" "calls = good @ bad # undo" "\<not> cl_ok bad"
    "confirmed_calls target (map cl_component good) good" "map cl_component undo = rev (map cl_component good)"
    "list_all (\<lambda>l. cl_profile l = previous \<and> (cl_ok l \<longrightarrow> cl_sent l)) undo"
    using o by (auto simp: outcome_ok_def)
  have took: "cl_ok (calls ! i) = took i" if "i < length calls" for i
    using assms(2,3) that by (auto simp: confirmed_took_def failed_not_taken_def)
  have g: "profile_held took 0 w good = (\<lambda>c. if c \<in> cl_component ` set good then target else w c)"
  proof (rule held_all)
    fix j assume "j < length good"
    then show "cl_sent (good ! j) \<and> took (0 + j)"
      using took [of j] f(2,4) by (simp add: confirmed_calls_def list_all_length nth_append)
  qed (use f(4) in \<open>auto simp: confirmed_calls_def list_all_iff\<close>)
  have nb: "\<not> took (length good)" using took [of "length good"] f(2,3) by simp
  have "filter (\<lambda>l. \<not> cl_ok l) undo = []" using once f(2,3) by simp
  then have bk: "cl_ok (undo ! j)" if "j < length undo" for j using that by (auto simp: filter_empty_conv)
  have b: "profile_held took (Suc (length good)) v undo = (\<lambda>c. if c \<in> cl_component ` set undo then previous else v c)" for v
  proof (rule held_all)
    fix j assume j: "j < length undo"
    then have "took (length good + Suc j)" using took [of "length good + Suc j"] f(2) bk [OF j] by (simp add: nth_append)
    then show "cl_sent (undo ! j) \<and> took (Suc (length good) + j)" using j f(6) bk by (simp add: list_all_length)
  qed (use f(6) in \<open>auto simp: list_all_iff\<close>)
  have "cl_component ` set undo = cl_component ` set good" using f(5) by (metis set_map set_rev)
  then show ?thesis using f(1,2) nb g b w [OF c] by (simp add: held_append)
qed

subsection \<open>Properties\<close>

text \<open>
  C21. All or nothing: over any answers of the parameter services, a request for a known profile ends with a reply, and
  the node is ready for the next one. On success each of the four components confirmed the profile;
  otherwise the profile in force is the one before, the first call that failed ended the attempt, and the components
  that had confirmed were asked undo in the opposite order. When the requests that failed had no
  effect and no restoration failed, every component holds the profile that the reply names.
\<close>

theorem profile_all_or_nothing:
  assumes "between_requests t" "profile \<in> fst ` set profiles"
  shows "\<exists>t1 r calls. apply_profile timeout whole now envs t profile = Some (t1, r, calls) \<and>
    outcome_ok (tx_active t) profile t1 r calls \<and>
    (\<forall>took w. (\<forall>c\<in>set profile_components. w c = tx_active t) \<longrightarrow> confirmed_took took calls \<longrightarrow> failed_not_taken took calls \<longrightarrow>
       length (filter (\<lambda>l. \<not> cl_ok l) calls) \<le> 1 \<longrightarrow> (\<forall>c\<in>set profile_components. profile_held took 0 w calls c = ar_active r))"
  using apply_outcome [OF assms, of timeout whole now envs] outcome_held by blast

subsection \<open>Witnesses\<close>

text \<open>A service that answers at once; the requests to the components in \<open>late\<close> (by index) are not answered in time.\<close>

definition prompt_env :: "bool \<Rightarrow> call_env" where
  "prompt_env late = \<lparr> ce_start = Fin 0, ce_wait = Fin 0, ce_sent = Fin 0, ce_service = (\<lambda>_. True), ce_ready = (\<lambda>_. \<not> late),
     ce_call_error = None, ce_response = Inr [(True, [])] \<rparr>"

lemma sample_call: "set_component (Fin 3) c (Fin 21) (prompt_env late) =
    (if late then (False, component_name c @ '' update timed out'') else (True, []))"
  "request_sent (Fin 3) (Fin 21) (prompt_env late)"
proof -
  have "component_deadline (Fin 3) (Fin 21) (prompt_env late) = Fin 3"
    by (simp add: component_deadline_def prompt_env_def tenth_eq pymax_def pymin_def)
  then show "set_component (Fin 3) c (Fin 21) (prompt_env late) =
      (if late then (False, component_name c @ '' update timed out'') else (True, []))"
    "request_sent (Fin 3) (Fin 21) (prompt_env late)"
    by (simp_all add: set_component_def request_sent_def Let_def prompt_env_def fsub_def failures_def)
qed

lemma profile_all_or_nothing_witness:
  "\<exists>t1 r calls. apply_profile (Fin 3) (Fin 21) (Fin 0) (\<lambda>i. prompt_env (i = 2)) (new_transaction urban) rural = Some (t1, r, calls) \<and>
     outcome_ok urban rural t1 r calls"
  using profile_all_or_nothing [of "new_transaction urban" rural "Fin 3" "Fin 21" "Fin 0" "\<lambda>i. prompt_env (i = 2)"]
  by (auto simp: new_transaction_def between_requests_def profiles_def)

text \<open>
  The coordinator claims to \<open>apply one profile to every runtime component or restore all of them\<close>. A request whose
  answer is late is counted as failed but may take effect, and the component that failed is never
  asked undo: here the ground filter is slow, the reply names the urban profile, and the ground filter holds the rural one.
\<close>

lemma late_component_not_restored:
  "\<exists>t1 r calls. apply_profile (Fin 3) (Fin 21) (Fin 0) (\<lambda>i. prompt_env (i = 0)) (new_transaction urban) rural = Some (t1, r, calls) \<and>
     \<not> ar_ok r \<and> ar_active r = urban \<and> length calls = 1 \<and> profile_held (\<lambda>_. True) 0 (\<lambda>_. urban) calls GroundFilter = rural"
proof -
  have n: "py_lower (py_strip rural) = rural"
    by (simp add: rural_def py_strip_def py_space_def py_lower_def py_lower_char_def Let_def)
  have limit: "fadd (Fin 0) (pymax (fl (1 / 10)) (Fin 21)) = Fin 21" by (simp add: tenth_eq pymax_def)
  show ?thesis
    by (simp add: apply_profile_def n limit begin_transaction_def new_transaction_def profiles_def profile_components_def
        sample_call confirm_def transaction_reply_def log_call_def Let_def)
qed

end
