(* ===== verification/Startup.thy ===== *)
theory Startup
  imports Source_Selection
begin

section \<open>Start-up of the navigation stack\<close>

text \<open>
  \<open>salus_navigation/startup_readiness.py\<close> and \<open>nav2_startup_coordinator.py\<close>: the navigation stack is started once,
  when every input is there, and is advertised as active when its four nodes and the path health service answered.
  A tick comes with what it meets: the clocks, the transform, whether the services are there, and what the outstanding
  calls have become. An exception in a callback leaves \<open>spin\<close> and ends the process.
\<close>

subsection \<open>The policy\<close>

datatype startup_state = WaitingInputs | Starting | StartupActive | StartupFailed

datatype requirement =
    ClockNotProgressive | OdometryNotProgressive | OdometryInvalid | TfUnavailable | TfStale
  | ScanInvalid | ScanStale | KeepoutNotReady | LifecycleManagerUnavailable

datatype startup_reason =
    WaitingForInputs | Missing requirement | StartRequested | AllNodesActive
  | StartRejected | StartTimeout | NodesNotActive

record readiness =
  rd_clock_progressive :: bool
  rd_odometry_progressive :: bool
  rd_odometry_finite :: bool
  rd_transform_available :: bool
  rd_transform_fresh :: bool
  rd_scan_valid :: bool
  rd_scan_fresh :: bool
  rd_obstacles_required :: bool
  rd_keepout_required :: bool
  rd_keepout_ready :: bool
  rd_manager_ready :: bool
  rd_clock_required :: bool

definition readiness_checks :: "readiness \<Rightarrow> (bool \<times> requirement) list" where
  "readiness_checks r =
     [(\<not> rd_clock_required r \<or> rd_clock_progressive r, ClockNotProgressive),
      (rd_odometry_progressive r, OdometryNotProgressive),
      (rd_odometry_finite r, OdometryInvalid),
      (rd_transform_available r, TfUnavailable),
      (rd_transform_fresh r, TfStale),
      (\<not> rd_obstacles_required r \<or> rd_scan_valid r, ScanInvalid),
      (\<not> rd_obstacles_required r \<or> rd_scan_fresh r, ScanStale),
      (\<not> rd_keepout_required r \<or> rd_keepout_ready r, KeepoutNotReady),
      (rd_manager_ready r, LifecycleManagerUnavailable)]"

definition missing_requirements :: "readiness \<Rightarrow> requirement list" where
  "missing_requirements r = map snd (filter (\<lambda>c. \<not> fst c) (readiness_checks r))"

record startup_policy =
  su_state :: startup_state
  su_reason :: startup_reason

definition new_startup_policy :: startup_policy where
  "new_startup_policy = \<lparr> su_state = WaitingInputs, su_reason = WaitingForInputs \<rparr>"

definition observe_readiness :: "startup_policy \<Rightarrow> readiness \<Rightarrow> startup_policy \<times> bool" where
  "observe_readiness p r =
     (if su_state p \<noteq> WaitingInputs then (p, False)
      else case missing_requirements r of
        m # ms \<Rightarrow> (p \<lparr> su_reason := Missing m \<rparr>, False)
      | [] \<Rightarrow> (p \<lparr> su_state := Starting, su_reason := StartRequested \<rparr>, True))"

definition activation_succeeded :: "startup_policy \<Rightarrow> startup_policy" where
  "activation_succeeded p =
     (if su_state p = Starting then p \<lparr> su_state := StartupActive, su_reason := AllNodesActive \<rparr> else p)"

definition activation_failed :: "startup_policy \<Rightarrow> startup_reason \<Rightarrow> startup_policy" where
  "activation_failed p why =
     (if su_state p \<noteq> StartupActive then p \<lparr> su_state := StartupFailed, su_reason := why \<rparr> else p)"

subsection \<open>Inputs\<close>

record odometry_msg = stamp_msg +
  od_position :: "pyfloat list"
  od_orientation :: "pyfloat list"
  od_linear :: "pyfloat list"
  od_angular :: "pyfloat list"

definition finite_odometry :: "odometry_msg \<Rightarrow> bool" where
  "finite_odometry m \<longleftrightarrow>
     list_all isfinite (od_position m @ od_orientation m @ od_linear m @ od_angular m) \<and>
     flt (fl (1 / 10 ^ 12)) (norm_squared (od_orientation m))"

record scan_msg =
  sn_frame :: string
  sn_ranges :: nat
  sn_angle_min :: pyfloat
  sn_angle_max :: pyfloat
  sn_angle_increment :: pyfloat
  sn_range_min :: pyfloat
  sn_range_max :: pyfloat

definition valid_scan :: "scan_msg \<Rightarrow> bool" where
  "valid_scan m \<longleftrightarrow> sn_frame m = ''base_footprint'' \<and> 0 < sn_ranges m \<and>
     list_all isfinite [sn_angle_min m, sn_angle_max m, sn_angle_increment m, sn_range_min m, sn_range_max m] \<and>
     flt fzero (sn_angle_increment m) \<and> flt (sn_range_min m) (sn_range_max m) \<and> fle fzero (sn_range_min m)"

record zones_answer =
  za_ok :: bool
  za_mask_ready :: bool

definition zones_state_mask_ready :: "zones_answer option \<Rightarrow> bool" where
  "zones_state_mask_ready r = (case r of None \<Rightarrow> False | Some a \<Rightarrow> za_ok a \<and> za_mask_ready a)"

subsection \<open>The node\<close>

datatype nav_server = PlannerServer | FollowServer | BtNavigator | BehaviorServer

definition nav_servers :: "nav_server list" where
  "nav_servers = [PlannerServer, FollowServer, BtNavigator, BehaviorServer]"

record startup_config =
  sg_keepout :: bool
  sg_obstacles :: bool
  sg_clock :: bool
  sg_freshness :: pyfloat
  sg_timeout :: pyfloat

text \<open>What an outstanding call has become: nothing yet, an exception, or a response (which may be \<open>None\<close>).\<close>

datatype 'a call_future = NotYet | CallRaised | Response "'a option"

record startup_node =
  st_policy :: startup_policy
  st_clock :: "int list"
  st_odom :: "odometry_msg list"
  st_scan :: "(scan_msg \<times> pyfloat) option"
  st_mask :: bool
  st_zones :: "pyfloat option"
  st_manage :: bool
  st_manage_at :: pyfloat
  st_asked :: "nav_server \<Rightarrow> pyfloat option"
  st_label :: "nav_server \<Rightarrow> string"
  st_health_asked :: "pyfloat option"
  st_health_ready :: bool
  st_tf_available :: bool
  st_tf_fresh :: bool
  st_terminal :: "readiness option"
  st_dead :: bool

definition new_startup_node :: "startup_config \<Rightarrow> startup_node" where
  "new_startup_node C =
     \<lparr> st_policy = new_startup_policy, st_clock = [], st_odom = [], st_scan = None, st_mask = (\<not> sg_keepout C), st_zones = None,
       st_manage = False, st_manage_at = fzero, st_asked = (\<lambda>_. None), st_label = (\<lambda>_. ''unknown''), st_health_asked = None,
       st_health_ready = False, st_tf_available = False, st_tf_fresh = False, st_terminal = None, st_dead = False \<rparr>"

record tick_env =
  te_now :: pyfloat
  te_snapshot_now :: pyfloat
  te_request_now :: pyfloat
  te_clock_now :: int
  te_transform :: "int option"
  te_zones_there :: bool
  te_zones :: "zones_answer call_future"
  te_manager_there :: bool
  te_manage :: "bool call_future"
  te_node_there :: "nav_server \<Rightarrow> bool"
  te_node :: "nav_server \<Rightarrow> string call_future"
  te_health_there :: bool
  te_health :: "unit call_future"

datatype startup_output = SendStartup | QueryZones | QueryNode nav_server | QueryHealth

definition last_two :: "'a list \<Rightarrow> 'a list" where
  "last_two xs = drop (length xs - 2) xs"

definition on_clock :: "startup_node \<Rightarrow> int \<Rightarrow> startup_node" where
  "on_clock s v = (if st_clock s = [] \<or> v \<noteq> last (st_clock s) then s \<lparr> st_clock := last_two (st_clock s @ [v]) \<rparr> else s)"

definition on_odom :: "startup_node \<Rightarrow> odometry_msg \<Rightarrow> startup_node" where
  "on_odom s m = s \<lparr> st_odom := last_two (st_odom s @ [m]) \<rparr>"

definition timed_out :: "pyfloat \<Rightarrow> pyfloat \<Rightarrow> pyfloat \<Rightarrow> bool" where
  "timed_out now since limit = flt limit (fsub now since)"

definition poll_zones_state :: "startup_config \<Rightarrow> tick_env \<Rightarrow> startup_node \<Rightarrow> startup_node \<times> startup_output list" where
  "poll_zones_state C e s =
     (if \<not> sg_keepout C \<or> st_mask s then (s, [])
      else case st_zones s of
        Some since \<Rightarrow>
          (case te_zones e of
             Response r \<Rightarrow> (s \<lparr> st_mask := zones_state_mask_ready r, st_zones := None \<rparr>, [])
           | CallRaised \<Rightarrow> (s \<lparr> st_mask := False, st_zones := None \<rparr>, [])
           | NotYet \<Rightarrow> (if timed_out (te_now e) since (Fin 2) then s \<lparr> st_zones := None \<rparr> else s, []))
      | None \<Rightarrow> if te_zones_there e then (s \<lparr> st_zones := Some (te_now e) \<rparr>, [QueryZones]) else (s, []))"

definition ns_to_seconds :: "int \<Rightarrow> pyfloat" where
  "ns_to_seconds n = (case fdiv (fl (of_int n)) (Fin 1000000000) of None \<Rightarrow> NaN | Some x \<Rightarrow> x)"

definition update_tf :: "startup_config \<Rightarrow> tick_env \<Rightarrow> startup_node \<Rightarrow> startup_node" where
  "update_tf C e s =
     (case te_transform e of
        None \<Rightarrow> s \<lparr> st_tf_available := False, st_tf_fresh := False \<rparr>
      | Some stamp \<Rightarrow>
          if sg_clock C \<and> st_clock s = [] then s \<lparr> st_tf_available := True, st_tf_fresh := False \<rparr>
          else
            (let reference = (if sg_clock C then last (st_clock s) else te_clock_now e); age = ns_to_seconds (reference - stamp)
             in s \<lparr> st_tf_available := True, st_tf_fresh := fle (fl (- 1 / 10)) age \<and> fle age (sg_freshness C) \<rparr>))"

definition progressive :: "int list \<Rightarrow> bool" where
  "progressive xs \<longleftrightarrow> 2 \<le> length xs \<and> xs ! (length xs - 2) < xs ! (length xs - 1)"

definition snapshot :: "startup_config \<Rightarrow> tick_env \<Rightarrow> startup_node \<Rightarrow> readiness" where
  "snapshot C e s =
     \<lparr> rd_clock_progressive = progressive (st_clock s),
       rd_odometry_progressive = progressive (map stamp_ns (st_odom s)),
       rd_odometry_finite = (st_odom s \<noteq> [] \<and> finite_odometry (last (st_odom s))),
       rd_transform_available = st_tf_available s, rd_transform_fresh = st_tf_fresh s,
       rd_scan_valid = (case st_scan s of None \<Rightarrow> False | Some (m, t) \<Rightarrow> valid_scan m),
       rd_scan_fresh = (case st_scan s of None \<Rightarrow> False | Some (m, t) \<Rightarrow> fle (fsub (te_snapshot_now e) t) (sg_freshness C)),
       rd_obstacles_required = sg_obstacles C, rd_keepout_required = sg_keepout C, rd_keepout_ready = st_mask s,
       rd_manager_ready = te_manager_there e, rd_clock_required = sg_clock C \<rparr>"

definition wait_tick :: "startup_config \<Rightarrow> tick_env \<Rightarrow> startup_node \<Rightarrow> startup_node \<times> startup_output list" where
  "wait_tick C e s =
     (let (s1, os) = poll_zones_state C e s; s2 = update_tf C e s1; (p, go) = observe_readiness (st_policy s2) (snapshot C e s2)
      in if go then (s2 \<lparr> st_policy := p, st_manage := True, st_manage_at := te_request_now e \<rparr>, os @ [SendStartup])
         else (s2 \<lparr> st_policy := p \<rparr>, os))"

text \<open>The answer to the start request: \<open>None\<close> when the poll goes on, else the state in which it ends.\<close>

definition poll_manage :: "startup_config \<Rightarrow> tick_env \<Rightarrow> startup_node \<Rightarrow> startup_node \<times> bool" where
  "poll_manage C e s =
     (if \<not> st_manage s then (s, True)
      else case te_manage e of
        Response r \<Rightarrow>
          if r = Some True then (s \<lparr> st_manage := False \<rparr>, True)
          else (s \<lparr> st_manage := False, st_policy := activation_failed (st_policy s) StartRejected \<rparr>, False)
      | CallRaised \<Rightarrow> (s \<lparr> st_dead := True \<rparr>, False)
      | NotYet \<Rightarrow>
          if timed_out (te_now e) (st_manage_at s) (sg_timeout C)
          then (s \<lparr> st_policy := activation_failed (st_policy s) StartTimeout \<rparr>, False) else (s, True))"

definition poll_answer :: "tick_env \<Rightarrow> nav_server \<Rightarrow> startup_node \<Rightarrow> startup_node" where
  "poll_answer e n s =
     (case st_asked s n of
        None \<Rightarrow> s
      | Some since \<Rightarrow>
          (case te_node e n of
             Response r \<Rightarrow>
               s \<lparr> st_label := (st_label s)(n := (case r of None \<Rightarrow> ''invalid'' | Some l \<Rightarrow> l)), st_asked := (st_asked s)(n := None) \<rparr>
           | CallRaised \<Rightarrow> s \<lparr> st_dead := True \<rparr>
           | NotYet \<Rightarrow> if timed_out (te_now e) since (Fin 2) then s \<lparr> st_asked := (st_asked s)(n := None) \<rparr> else s))"

definition poll_query :: "tick_env \<Rightarrow> nav_server \<Rightarrow> startup_node \<Rightarrow> startup_node \<times> startup_output list" where
  "poll_query e n s =
     (if st_asked s n = None \<and> te_node_there e n then (s \<lparr> st_asked := (st_asked s)(n := Some (te_now e)) \<rparr>, [QueryNode n]) else (s, []))"

primrec poll_nodes :: "tick_env \<Rightarrow> nav_server list \<Rightarrow> startup_node \<Rightarrow> startup_node \<times> startup_output list" where
  "poll_nodes e [] s = (s, [])"
| "poll_nodes e (n # ns) s =
     (let s1 = poll_answer e n s in
      if st_dead s1 then (s1, [])
      else (let (s2, os) = poll_query e n s1; (s3, os3) = poll_nodes e ns s2 in (s3, os @ os3)))"

definition poll_path_health :: "tick_env \<Rightarrow> startup_node \<Rightarrow> startup_node \<times> startup_output list \<times> bool" where
  "poll_path_health e s =
     (if st_health_ready s then (s, [], True)
      else case st_health_asked s of
        Some since \<Rightarrow>
          (case te_health e of
             Response r \<Rightarrow> (s \<lparr> st_health_ready := (r \<noteq> None), st_health_asked := None \<rparr>, [], r \<noteq> None)
           | CallRaised \<Rightarrow> (s \<lparr> st_health_ready := False, st_health_asked := None \<rparr>, [], False)
           | NotYet \<Rightarrow> (if timed_out (te_now e) since (Fin 2) then s \<lparr> st_health_asked := None \<rparr> else s, [], False))
      | None \<Rightarrow> if te_health_there e then (s \<lparr> st_health_asked := Some (te_now e) \<rparr>, [QueryHealth], False) else (s, [], False))"

text \<open>The watchers are released once; the last snapshot is kept for the diagnostics.\<close>

definition retire :: "startup_config \<Rightarrow> tick_env \<Rightarrow> startup_node \<Rightarrow> startup_node" where
  "retire C e s = (if st_terminal s \<noteq> None then s else s \<lparr> st_terminal := Some (snapshot C e s) \<rparr>)"

definition all_nodes_active :: "startup_node \<Rightarrow> bool" where
  "all_nodes_active s = list_all (\<lambda>n. st_label s n = ''active'') nav_servers"

definition conclude_startup :: "startup_config \<Rightarrow> tick_env \<Rightarrow> startup_node \<Rightarrow> startup_node \<times> startup_output list" where
  "conclude_startup C e s =
     (let (s1, os, ready) = (if all_nodes_active s then poll_path_health e s else (s, [], False)) in
      if ready then (retire C e (s1 \<lparr> st_policy := activation_succeeded (st_policy s1) \<rparr>), os)
      else if timed_out (te_now e) (st_manage_at s1) (sg_timeout C)
      then (s1 \<lparr> st_policy := activation_failed (st_policy s1) NodesNotActive \<rparr>, os)
      else (s1, os))"

definition poll_startup :: "startup_config \<Rightarrow> tick_env \<Rightarrow> startup_node \<Rightarrow> startup_node \<times> startup_output list" where
  "poll_startup C e s =
     (let (s1, go) = poll_manage C e s in
      if \<not> go then (s1, [])
      else
        (let (s2, os) = poll_nodes e nav_servers s1 in
         if st_dead s2 then (s2, os) else (let (s3, os3) = conclude_startup C e s2 in (s3, os @ os3))))"

definition startup_tick :: "startup_config \<Rightarrow> tick_env \<Rightarrow> startup_node \<Rightarrow> startup_node \<times> startup_output list" where
  "startup_tick C e s =
     (case su_state (st_policy s) of
        WaitingInputs \<Rightarrow> wait_tick C e s
      | Starting \<Rightarrow> poll_startup C e s
      | _ \<Rightarrow> (s, []))"

datatype startup_event = ClockSample int | OdomSample odometry_msg | ScanSample scan_msg pyfloat | StartupTick tick_env

text \<open>After the release of the watchers no callback is left; after an exception no process.\<close>

definition startup_step :: "startup_config \<Rightarrow> startup_node \<Rightarrow> startup_event \<Rightarrow> startup_node \<times> startup_output list" where
  "startup_step C s ev =
     (if st_dead s \<or> st_terminal s \<noteq> None then (s, [])
      else case ev of
        ClockSample v \<Rightarrow> (if sg_clock C then on_clock s v else s, [])
      | OdomSample m \<Rightarrow> (on_odom s m, [])
      | ScanSample m t \<Rightarrow> (if sg_obstacles C then s \<lparr> st_scan := Some (m, t) \<rparr> else s, [])
      | StartupTick e \<Rightarrow> startup_tick C e s)"

datatype diagnostic_level = DiagOk | DiagWarn | DiagError

definition startup_level :: "startup_policy \<Rightarrow> diagnostic_level" where
  "startup_level p = (case su_state p of StartupActive \<Rightarrow> DiagOk | StartupFailed \<Rightarrow> DiagError | _ \<Rightarrow> DiagWarn)"

subsection \<open>Invariants\<close>

text \<open>The phase and what it rests on; \<open>started\<close> says whether the start request was sent.\<close>

definition startup_inv :: "startup_node \<times> bool \<Rightarrow> bool" where
  "startup_inv x \<longleftrightarrow> (let (s, started) = x in
     (case su_state (st_policy s) of
        WaitingInputs \<Rightarrow> \<not> started
      | Starting \<Rightarrow> started
      | StartupActive \<Rightarrow> started \<and> all_nodes_active s \<and> st_health_ready s
      | StartupFailed \<Rightarrow> started) \<and>
     (st_terminal s \<noteq> None \<longleftrightarrow> su_state (st_policy s) = StartupActive))"

lemma waiting_poll: "st_policy (fst (poll_zones_state C e s)) = st_policy s" "st_terminal (fst (poll_zones_state C e s)) = st_terminal s"
  "SendStartup \<notin> set (snd (poll_zones_state C e s))" "st_dead (fst (poll_zones_state C e s)) = st_dead s"
  by (simp_all add: poll_zones_state_def split: option.split call_future.split)

lemma tf_keeps: "st_policy (update_tf C e s) = st_policy s" "st_terminal (update_tf C e s) = st_terminal s" "st_dead (update_tf C e s) = st_dead s"
  by (simp_all add: update_tf_def Let_def split: option.split)

text \<open>What \<open>poll_nodes\<close> leaves alone.\<close>

lemma nodes_keep:
  "st_policy (fst (poll_nodes e ns s)) = st_policy s \<and> st_terminal (fst (poll_nodes e ns s)) = st_terminal s \<and>
   st_manage_at (fst (poll_nodes e ns s)) = st_manage_at s \<and> st_health_ready (fst (poll_nodes e ns s)) = st_health_ready s \<and>
   SendStartup \<notin> set (snd (poll_nodes e ns s))"
proof (induction ns arbitrary: s)
  case (Cons n ns)
  define s1 where "s1 = poll_answer e n s"
  have a: "st_policy s1 = st_policy s" "st_terminal s1 = st_terminal s" "st_manage_at s1 = st_manage_at s" "st_health_ready s1 = st_health_ready s"
    by (simp_all add: s1_def poll_answer_def split: option.split call_future.split)
  have q: "st_policy (fst (poll_query e n s1)) = st_policy s1" "st_terminal (fst (poll_query e n s1)) = st_terminal s1"
    "st_manage_at (fst (poll_query e n s1)) = st_manage_at s1" "st_health_ready (fst (poll_query e n s1)) = st_health_ready s1"
    "SendStartup \<notin> set (snd (poll_query e n s1))"
    by (simp_all add: poll_query_def)
  show ?case using Cons.IH [of "fst (poll_query e n s1)"] a q
    by (auto simp: Let_def s1_def [symmetric] split: prod.split)
qed simp

lemma health_poll:
  "poll_path_health e s = (s1, os, ready) \<Longrightarrow> st_policy s1 = st_policy s \<and> st_terminal s1 = st_terminal s \<and> st_label s1 = st_label s \<and>
     st_manage_at s1 = st_manage_at s \<and> SendStartup \<notin> set os \<and> (ready \<longrightarrow> st_health_ready s1)"
  by (auto simp: poll_path_health_def split: if_splits option.splits call_future.splits)

lemma manage_poll:
  assumes "poll_manage C e s = (s1, go)" "su_state (st_policy s) = Starting"
  shows "st_terminal s1 = st_terminal s \<and> st_manage_at s1 = st_manage_at s \<and>
    (if go then st_policy s1 = st_policy s else st_dead s1 \<and> st_policy s1 = st_policy s \<or> su_state (st_policy s1) = StartupFailed)"
  using assms by (auto simp: poll_manage_def activation_failed_def split: if_splits call_future.splits option.splits)

text \<open>One poll: it starts nothing; it ends in activity only with all nodes and the health service answering.\<close>

lemma conclude_cases:
  assumes "conclude_startup C e s = (s1, os)" "su_state (st_policy s) = Starting" "st_terminal s = None"
  shows "SendStartup \<notin> set os \<and>
    (su_state (st_policy s1) = StartupActive \<and> all_nodes_active s1 \<and> st_health_ready s1 \<and> st_terminal s1 \<noteq> None \<or>
     su_state (st_policy s1) = StartupFailed \<and> st_terminal s1 = None \<or>
     su_state (st_policy s1) = Starting \<and> st_terminal s1 = None \<and> \<not> timed_out (te_now e) (st_manage_at s) (sg_timeout C))"
proof (cases "all_nodes_active s")
  case False
  then show ?thesis using assms by (auto simp: conclude_startup_def activation_failed_def split: if_splits)
next
  case True
  obtain t ps ready where p: "poll_path_health e s = (t, ps, ready)" by (cases "poll_path_health e s") auto
  note h = health_poll [OF p]
  have "all_nodes_active t" using True h by (simp add: all_nodes_active_def)
  then show ?thesis using assms p h True
    by (auto simp: conclude_startup_def activation_failed_def activation_succeeded_def retire_def all_nodes_active_def split: if_splits)
qed

lemma poll_cases:
  assumes "poll_startup C e s = (s1, os)" "su_state (st_policy s) = Starting" "st_terminal s = None"
  shows "SendStartup \<notin> set os \<and>
    (su_state (st_policy s1) = StartupActive \<and> all_nodes_active s1 \<and> st_health_ready s1 \<and> st_terminal s1 \<noteq> None \<or>
     su_state (st_policy s1) = StartupFailed \<and> st_terminal s1 = None \<or>
     su_state (st_policy s1) = Starting \<and> st_terminal s1 = None \<and> (st_dead s1 \<or> \<not> timed_out (te_now e) (st_manage_at s) (sg_timeout C)))"
proof -
  obtain t go where m: "poll_manage C e s = (t, go)" by fastforce
  note k = manage_poll [OF m assms(2)]
  show ?thesis
  proof (cases go)
    case False
    then show ?thesis using assms m k by (auto simp: poll_startup_def)
  next
    case True
    obtain u ps where n: "poll_nodes e nav_servers t = (u, ps)" by fastforce
    have u: "st_policy u = st_policy s" "st_terminal u = None" "st_manage_at u = st_manage_at s" "SendStartup \<notin> set ps"
      using nodes_keep [of e nav_servers t] n k True assms(3) by auto
    show ?thesis
    proof (cases "st_dead u")
      case dead: True
      then show ?thesis using assms m n True u by (auto simp: poll_startup_def)
    next
      case False
      obtain v qs where c: "conclude_startup C e u = (v, qs)" by fastforce
      have "s1 = v" "os = ps @ qs" using assms(1) m n c True False by (auto simp: poll_startup_def)
      then show ?thesis using conclude_cases [OF c] u assms(2) by auto
    qed
  qed
qed

lemma wait_cases:
  assumes "wait_tick C e s = (s1, os)" "su_state (st_policy s) = WaitingInputs"
  shows "st_terminal s1 = st_terminal s \<and> st_dead s1 = st_dead s \<and>
    (if SendStartup \<in> set os
     then su_state (st_policy s1) = Starting \<and> missing_requirements (snapshot C e s1) = [] \<and> count_list os SendStartup = 1
     else su_state (st_policy s1) = WaitingInputs)"
proof -
  define t where "t = update_tf C e (fst (poll_zones_state C e s))"
  have t: "st_policy t = st_policy s" "st_terminal t = st_terminal s" "st_dead t = st_dead s" by (simp_all add: t_def tf_keeps waiting_poll)
  have n: "SendStartup \<notin> set (snd (poll_zones_state C e s))" by (rule waiting_poll)
  then have z: "count_list (snd (poll_zones_state C e s)) SendStartup = 0" by (simp add: count_list_0_iff)
  have snap: "snapshot C e (t \<lparr> st_policy := p, st_manage := b, st_manage_at := q \<rparr>) = snapshot C e t" for p b q by (simp add: snapshot_def)
  obtain p go where o: "observe_readiness (st_policy t) (snapshot C e t) = (p, go)" by fastforce
  have w: "(s1, os) = (if go then (t \<lparr> st_policy := p, st_manage := True, st_manage_at := te_request_now e \<rparr>, snd (poll_zones_state C e s) @ [SendStartup])
      else (t \<lparr> st_policy := p \<rparr>, snd (poll_zones_state C e s)))"
    using assms(1) o by (cases "poll_zones_state C e s") (auto simp: wait_tick_def t_def Let_def split: if_splits)
  show ?thesis
  proof (cases go)
    case True
    then have "missing_requirements (snapshot C e t) = [] \<and> su_state p = Starting"
      using o by (auto simp: observe_readiness_def split: if_splits list.splits)
    then show ?thesis using True w t snap z by simp
  next
    case False
    then have "su_state p = WaitingInputs"
      using o t assms(2) by (auto simp: observe_readiness_def split: if_splits list.splits)
    then show ?thesis using False w t n by simp
  qed
qed

text \<open>The machine with a ghost bit that remembers the start request.\<close>

definition watched_step :: "startup_config \<Rightarrow> startup_node \<times> bool \<Rightarrow> startup_event \<Rightarrow> (startup_node \<times> bool) \<times> startup_output list" where
  "watched_step C x ev = (let (s1, os) = startup_step C (fst x) ev in ((s1, snd x \<or> SendStartup \<in> set os), os))"

lemma step_starts_once:
  assumes "startup_inv (s, started)" "startup_step C s ev = (s1, os)"
  shows "startup_inv (s1, started \<or> SendStartup \<in> set os) \<and> count_list os SendStartup \<le> (if started then 0 else 1)"
proof (cases "st_dead s \<or> st_terminal s \<noteq> None")
  case True
  then show ?thesis using assms by (auto simp: startup_step_def)
next
  case False
  show ?thesis
  proof (cases ev)
    case (StartupTick e)
    show ?thesis
    proof (cases "su_state (st_policy s)")
      case WaitingInputs
      then have "wait_tick C e s = (s1, os)" using assms(2) False StartupTick by (auto simp: startup_step_def startup_tick_def)
      note w = wait_cases [OF this WaitingInputs]
      have "count_list os SendStartup = 0" if "SendStartup \<notin> set os" using that by (simp add: count_list_0_iff)
      then show ?thesis using w assms(1) WaitingInputs False by (auto simp: startup_inv_def split: if_splits)
    next
      case Starting
      then have "poll_startup C e s = (s1, os)" using assms(2) False StartupTick by (auto simp: startup_step_def startup_tick_def)
      from poll_cases [OF this Starting] False have p: "SendStartup \<notin> set os"
        "su_state (st_policy s1) = StartupActive \<and> all_nodes_active s1 \<and> st_health_ready s1 \<and> st_terminal s1 \<noteq> None \<or>
         su_state (st_policy s1) = StartupFailed \<and> st_terminal s1 = None \<or> su_state (st_policy s1) = Starting \<and> st_terminal s1 = None"
        by blast+
      have "count_list os SendStartup = 0" using p(1) by (simp add: count_list_0_iff)
      then show ?thesis using p assms(1) Starting by (auto simp: startup_inv_def)
    qed (use assms False StartupTick in \<open>auto simp: startup_step_def startup_tick_def\<close>)
  qed (use assms False in \<open>auto simp: startup_step_def startup_inv_def on_clock_def on_odom_def all_nodes_active_def split: startup_state.splits if_splits\<close>)
qed

interpretation startup: machine "watched_step C" startup_inv for C
proof
  fix x ev assume "startup_inv x"
  then show "startup_inv (fst (watched_step C x ev))"
    using step_starts_once [of "fst x" "snd x" C ev] by (auto simp: watched_step_def split: prod.split)
qed

lemma new_startup_inv: "startup_inv (new_startup_node C, False)"
  by (simp add: startup_inv_def new_startup_node_def new_startup_policy_def)

lemma watched_run: "run (watched_step C) (s, b) h =
    ((fst (run (startup_step C) s h), b \<or> SendStartup \<in> set (snd (run (startup_step C) s h))), snd (run (startup_step C) s h))"
proof (induction h arbitrary: s b)
  case (Cons ev h)
  obtain s1 os where "startup_step C s ev = (s1, os)" by fastforce
  then show ?case using Cons.IH [of s1] by (simp add: watched_step_def Let_def case_prod_unfold)
qed simp

lemma reached_inv: "startup_inv (fst (run (startup_step C) (new_startup_node C) h), SendStartup \<in> set (snd (run (startup_step C) (new_startup_node C) h)))"
  using startup.run_inv [OF new_startup_inv] by (simp add: watched_run)

lemma starts_at_most_once: "startup_inv (s, b) \<Longrightarrow> count_list (snd (run (startup_step C) s h)) SendStartup \<le> (if b then 0 else 1)"
proof (induction h arbitrary: s b)
  case (Cons ev h)
  obtain s1 os where st: "startup_step C s ev = (s1, os)" by fastforce
  note k = step_starts_once [OF Cons.prems st]
  then have "count_list (snd (run (startup_step C) s1 h)) SendStartup \<le> (if b \<or> SendStartup \<in> set os then 0 else 1)"
    using Cons.IH by blast
  moreover have "count_list os SendStartup = 0" if "SendStartup \<notin> set os" using that by (simp add: count_list_0_iff)
  ultimately show ?case using k st by (auto simp: run_Cons simp del: run.simps(2) split: if_splits)
qed simp

subsection \<open>Properties\<close>

text \<open>
  C6. The navigation stack is started at most once, and only on complete evidence: over any history the start request is
  sent at most once, by a tick whose snapshot has no missing requirement: progressing clock (when
  required), progressing and finite odometry, a fresh transform, a valid and fresh scan (when required), the confirmed
  keepout state (when required) and the lifecycle manager.
\<close>

theorem startup_requested_on_evidence:
  "count_list (snd (run (startup_step C) (new_startup_node C) h)) SendStartup \<le> 1 \<and>
   (let s = fst (run (startup_step C) (new_startup_node C) h); r = startup_step C s ev in
    SendStartup \<in> set (snd r) \<longrightarrow>
      (\<exists>e. ev = StartupTick e \<and> su_state (st_policy s) = WaitingInputs \<and> missing_requirements (snapshot C e (fst r)) = []))"
proof -
  define s where "s = fst (run (startup_step C) (new_startup_node C) h)"
  obtain s1 os where st: "startup_step C s ev = (s1, os)" by fastforce
  have "\<exists>e. ev = StartupTick e \<and> su_state (st_policy s) = WaitingInputs \<and> missing_requirements (snapshot C e s1) = []"
    if go: "SendStartup \<in> set os"
  proof -
    have live: "\<not> (st_dead s \<or> st_terminal s \<noteq> None)" using st go unfolding startup_step_def by (auto split: if_splits)
    then obtain e where e: "ev = StartupTick e" using st go by (cases ev) (auto simp: startup_step_def)
    then have t: "startup_tick C e s = (s1, os)" using st live by (auto simp: startup_step_def)
    then have "su_state (st_policy s) = WaitingInputs"
      using go poll_cases [of C e s s1 os] live by (auto simp: startup_tick_def split: startup_state.splits)
    moreover from this have "wait_tick C e s = (s1, os)" using t by (simp add: startup_tick_def)
    ultimately show ?thesis using wait_cases [of C e s s1 os] go e by simp
  qed
  then show ?thesis using starts_at_most_once [of "new_startup_node C" False C h] new_startup_inv [of C] st
    by (simp add: s_def [symmetric])
qed

text \<open>
  C7. Active means that everything answered: whenever the policy is active, the start was requested, the last answers of all
  four nodes were \<open>active\<close> and the path health service completed a round trip; and an active or failed policy never changes.
\<close>

theorem active_means_everything_answered:
  assumes "s = fst (run (startup_step C) (new_startup_node C) h)" "su_state (st_policy s) \<in> {StartupActive, StartupFailed}"
  shows "(su_state (st_policy s) = StartupActive \<longrightarrow>
      SendStartup \<in> set (snd (run (startup_step C) (new_startup_node C) h)) \<and> list_all (\<lambda>n. st_label s n = ''active'') nav_servers \<and> st_health_ready s) \<and>
    st_policy (fst (run (startup_step C) s h2)) = st_policy s"
proof -
  have "st_policy (fst (run (startup_step C) t h2)) = st_policy t" if p: "su_state (st_policy t) \<in> {StartupActive, StartupFailed}" for t
    using p
  proof (induction h2 arbitrary: t)
    case (Cons ev h2)
    have "st_policy (fst (startup_step C t ev)) = st_policy t"
      using Cons.prems by (auto simp: startup_step_def startup_tick_def on_clock_def on_odom_def split: startup_event.splits)
    then show ?case using Cons.IH [of "fst (startup_step C t ev)"] Cons.prems by (simp add: run_Cons del: run.simps(2))
  qed simp
  then show ?thesis using reached_inv [of C h] assms by (auto simp: startup_inv_def all_nodes_active_def)
qed

text \<open>
  The start is decided in time: after the start request, the first tick later than the activation timeout decides; the
  policy is then active or failed, unless an exception of a node's answer ended the process.
\<close>

lemma startup_decides:
  assumes "s = fst (run (startup_step C) (new_startup_node C) h)" "su_state (st_policy s) = Starting" "\<not> st_dead s"
    "timed_out (te_now e) (st_manage_at s) (sg_timeout C)" "startup_step C s (StartupTick e) = (s1, os)"
  shows "st_dead s1 \<or> su_state (st_policy s1) \<in> {StartupActive, StartupFailed}"
proof -
  have "st_terminal s = None" using reached_inv [of C h] assms(1,2) by (auto simp: startup_inv_def)
  then show ?thesis using poll_cases [of C e s s1 os] assms by (auto simp: startup_step_def startup_tick_def)
qed


subsection \<open>Witnesses\<close>

text \<open>No scan, clock or keepouts required: two odometry messages and a transform are enough.\<close>

definition lean_config :: startup_config where
  "lean_config = \<lparr> sg_keepout = False, sg_obstacles = False, sg_clock = False, sg_freshness = Fin 2, sg_timeout = Fin 30 \<rparr>"

definition good_odom :: "int \<Rightarrow> odometry_msg" where
  "good_odom t = \<lparr> sm_frame = ''odom'', sm_sec = t, sm_nanosec = 0, od_position = [fzero, fzero, fzero],
     od_orientation = [fzero, fzero, fzero, Fin 1], od_linear = [fzero, fzero, fzero], od_angular = [fzero, fzero, fzero] \<rparr>"

definition good_tick :: "pyfloat \<Rightarrow> tick_env" where
  "good_tick now = \<lparr> te_now = now, te_snapshot_now = now, te_request_now = now, te_clock_now = 0, te_transform = Some 0, te_zones_there = False,
     te_zones = NotYet, te_manager_there = True, te_manage = Response (Some True), te_node_there = (\<lambda>_. True),
     te_node = (\<lambda>_. Response (Some ''active'')), te_health_there = True, te_health = Response (Some ()) \<rparr>"

definition odom_ready :: startup_node where
  "odom_ready = (new_startup_node lean_config) \<lparr> st_odom := [good_odom 1, good_odom 2] \<rparr>"

definition start_requested :: startup_node where
  "start_requested = odom_ready \<lparr> st_policy := \<lparr> su_state = Starting, su_reason = StartRequested \<rparr>, st_manage := True,
     st_manage_at := Fin 5, st_tf_available := True, st_tf_fresh := True \<rparr>"

lemma good_odometry: "finite_odometry (good_odom t)"
proof -
  have "flt (fl (1 / 10 ^ 12)) (Fin 1)" by (simp add: fl_eval)
  then show ?thesis by (simp add: finite_odometry_def good_odom_def norm_squared_def)
qed

lemma lean_start: "startup_step lean_config odom_ready (StartupTick (good_tick (Fin 5))) = (start_requested, [SendStartup])"
proof -
  have "ns_to_seconds 0 = fzero" by (simp add: ns_to_seconds_def)
  then have tf: "update_tf lean_config (good_tick (Fin 5)) odom_ready = odom_ready \<lparr> st_tf_available := True, st_tf_fresh := True \<rparr>"
    by (simp add: update_tf_def good_tick_def lean_config_def tenth_eq fl_minus)
  have z: "poll_zones_state lean_config (good_tick (Fin 5)) odom_ready = (odom_ready, [])"
    by (simp add: poll_zones_state_def lean_config_def)
  have "missing_requirements (snapshot lean_config (good_tick (Fin 5)) (odom_ready \<lparr> st_tf_available := True, st_tf_fresh := True \<rparr>)) = []"
    by (simp add: missing_requirements_def readiness_checks_def snapshot_def lean_config_def odom_ready_def good_odometry progressive_def
      good_tick_def new_startup_node_def) (simp add: stamp_ns_def good_odom_def)
  then have "wait_tick lean_config (good_tick (Fin 5)) odom_ready = (start_requested, [SendStartup])"
    by (simp add: wait_tick_def z tf observe_readiness_def) (simp add: odom_ready_def new_startup_node_def new_startup_policy_def
      start_requested_def good_tick_def)
  then show ?thesis by (simp add: startup_step_def startup_tick_def odom_ready_def new_startup_node_def new_startup_policy_def)
qed

lemma run_last: "fst (run f s (xs @ [x])) = fst (f (fst (run f s xs)) x)"
  by (simp add: run_append Let_def case_prod_unfold)

lemma sample_history: "fst (run (startup_step lean_config) (new_startup_node lean_config)
    [OdomSample (good_odom 1), OdomSample (good_odom 2), StartupTick (good_tick (Fin 5))]) = start_requested"
proof -
  have "fst (run (startup_step lean_config) (new_startup_node lean_config) [OdomSample (good_odom 1), OdomSample (good_odom 2)]) = odom_ready"
    by (simp add: startup_step_def on_odom_def odom_ready_def last_two_def new_startup_node_def)
  then show ?thesis using lean_start run_append [of "startup_step lean_config" "new_startup_node lean_config"
      "[OdomSample (good_odom 1), OdomSample (good_odom 2)]" "[StartupTick (good_tick (Fin 5))]"]
    by (simp add: Let_def case_prod_unfold)
qed

text \<open>A start whose request was refused.\<close>

definition refused_tick :: tick_env where
  "refused_tick = (good_tick (Fin 6)) \<lparr> te_manage := Response (Some False) \<rparr>"

lemma sample_refused: "su_state (st_policy (fst (startup_step lean_config start_requested (StartupTick refused_tick)))) = StartupFailed"
  by (simp add: startup_step_def startup_tick_def start_requested_def odom_ready_def new_startup_node_def poll_startup_def poll_manage_def
    refused_tick_def activation_failed_def)

lemma active_means_everything_answered_witness:
  "st_policy (fst (run (startup_step lean_config)
     (fst (run (startup_step lean_config) (new_startup_node lean_config)
       ([OdomSample (good_odom 1), OdomSample (good_odom 2), StartupTick (good_tick (Fin 5))] @ [StartupTick refused_tick])))
     [OdomSample (good_odom 3)])) =
   st_policy (fst (run (startup_step lean_config) (new_startup_node lean_config)
     ([OdomSample (good_odom 1), OdomSample (good_odom 2), StartupTick (good_tick (Fin 5))] @ [StartupTick refused_tick])))"
proof -
  let ?h = "[OdomSample (good_odom 1), OdomSample (good_odom 2), StartupTick (good_tick (Fin 5))]"
  have e: "fst (run (startup_step lean_config) (new_startup_node lean_config) (?h @ [StartupTick refused_tick])) =
      fst (startup_step lean_config start_requested (StartupTick refused_tick))"
    by (simp only: run_last sample_history)
  have "su_state (st_policy (fst (run (startup_step lean_config) (new_startup_node lean_config) (?h @ [StartupTick refused_tick])))) \<in>
      {StartupActive, StartupFailed}"
    unfolding e sample_refused by simp
  from active_means_everything_answered [OF refl this] show ?thesis by blast
qed

lemma startup_decides_witness:
  "\<exists>s1 os. startup_step lean_config start_requested (StartupTick (good_tick (Fin 99))) = (s1, os) \<and>
     (st_dead s1 \<or> su_state (st_policy s1) \<in> {StartupActive, StartupFailed})"
proof -
  obtain s1 os where st: "startup_step lean_config start_requested (StartupTick (good_tick (Fin 99))) = (s1, os)" by fastforce
  have "timed_out (te_now (good_tick (Fin 99))) (st_manage_at start_requested) (sg_timeout lean_config)"
    by (simp add: timed_out_def good_tick_def start_requested_def lean_config_def fsub_def)
  moreover have "su_state (st_policy start_requested) = Starting" "\<not> st_dead start_requested"
    by (simp_all add: start_requested_def odom_ready_def new_startup_node_def)
  ultimately show ?thesis using startup_decides [OF sample_history [symmetric] _ _ _ st] st by blast
qed

lemma startup_requested_on_evidence_witness:
  "\<exists>e. StartupTick (good_tick (Fin 5)) = StartupTick e \<and> missing_requirements (snapshot lean_config e start_requested) = []"
proof -
  have r: "fst (run (startup_step lean_config) (new_startup_node lean_config) [OdomSample (good_odom 1), OdomSample (good_odom 2)]) = odom_ready"
    by (simp add: startup_step_def on_odom_def odom_ready_def last_two_def new_startup_node_def)
  show ?thesis
    using startup_requested_on_evidence [of lean_config "[OdomSample (good_odom 1), OdomSample (good_odom 2)]" "StartupTick (good_tick (Fin 5))"]
    unfolding r lean_start Let_def by auto
qed

end
