(* ===== verification/Recording.thy ===== *)
theory Recording
  imports Prelude
begin

section \<open>Recording of the cameras\<close>

text \<open>
  \<open>salus_web/recording_policy.py\<close> and the operations of \<open>recordings.py\<close> that change the recording intent: what a
  report of the missions changes, when a capture is wanted, what is persisted and read back after a restart, and the pieces
  in which a recorded period is offered. The media server, the processes and the files are the environment.
\<close>

subsection \<open>The policy\<close>

record recording_policy =
  rp_manual :: bool
  rp_mission :: bool
  rp_tail :: pyfloat
  rp_known :: bool
  rp_stale :: bool

definition new_recording_policy :: recording_policy where
  "new_recording_policy = \<lparr> rp_manual = False, rp_mission = False, rp_tail = fzero, rp_known = False, rp_stale = True \<rparr>"

definition observe_mission :: "recording_policy \<Rightarrow> bool option \<Rightarrow> pyfloat \<Rightarrow> recording_policy" where
  "observe_mission p active now =
     (case active of
        None \<Rightarrow> p \<lparr> rp_stale := True \<rparr>
      | Some a \<Rightarrow>
          (let t = (if rp_mission p \<and> \<not> a then fadd now (Fin 30) else rp_tail p)
           in p \<lparr> rp_stale := False, rp_tail := (if a then fzero else t), rp_mission := a, rp_known := True \<rparr>))"

definition wanted :: "recording_policy \<Rightarrow> pyfloat \<Rightarrow> bool" where
  "wanted p now \<longleftrightarrow> rp_manual p \<or> rp_mission p \<or> flt now (rp_tail p) \<or> rp_stale p \<and> flt fzero (rp_tail p)"

record mission_state =
  ms_ok :: bool
  ms_active :: bool
  ms_paused :: bool
  ms_return :: bool

definition mission_signal :: "mission_state option list \<Rightarrow> bool option" where
  "mission_signal states =
     (let valid = filter (\<lambda>s. case s of None \<Rightarrow> False | Some m \<Rightarrow> ms_ok m) states in
      if list_ex (\<lambda>s. case s of None \<Rightarrow> False | Some m \<Rightarrow> ms_active m \<or> ms_paused m \<or> ms_return m) valid then Some True
      else if length valid = length states then Some False else None)"

subsection \<open>Persistence and operations\<close>

record recording_file =
  rf_manual :: bool
  rf_mission :: bool
  rf_tail :: bool

record recordings =
  rc_policy :: recording_policy
  rc_file :: "recording_file option"
  rc_disk :: bool

definition restored_policy :: "recording_file option \<Rightarrow> pyfloat \<Rightarrow> recording_policy" where
  "restored_policy f now =
     (case f of
        None \<Rightarrow> new_recording_policy
      | Some x \<Rightarrow> new_recording_policy \<lparr> rp_manual := rf_manual x, rp_mission := rf_mission x,
          rp_tail := (if rf_tail x then fadd now (Fin 30) else fzero) \<rparr>)"

definition open_recordings :: "recording_file option \<Rightarrow> pyfloat \<Rightarrow> recordings" where
  "open_recordings f now = \<lparr> rc_policy = restored_policy f now, rc_file = f, rc_disk = True \<rparr>"

definition file_of :: "recording_policy \<Rightarrow> pyfloat \<Rightarrow> recording_file" where
  "file_of p now = \<lparr> rf_manual = rp_manual p, rf_mission = rp_mission p, rf_tail = flt now (rp_tail p) \<rparr>"

text \<open>The file is replaced as a whole or, when that raises, not at all; the Boolean says whether it was.\<close>

definition persist :: "bool \<Rightarrow> pyfloat \<Rightarrow> recordings \<Rightarrow> recordings" where
  "persist written now s = (if written then s \<lparr> rc_file := Some (file_of (rc_policy s) now) \<rparr> else s)"

definition observe_recordings :: "bool \<Rightarrow> pyfloat \<Rightarrow> pyfloat \<Rightarrow> bool option \<Rightarrow> recordings \<Rightarrow> recordings" where
  "observe_recordings written now later active s = persist written later (s \<lparr> rc_policy := observe_mission (rc_policy s) active now \<rparr>)"

definition manual_recording :: "bool \<Rightarrow> pyfloat \<Rightarrow> bool \<Rightarrow> recordings \<Rightarrow> recordings" where
  "manual_recording written now enabled s =
     (if written then persist True now (s \<lparr> rc_policy := (rc_policy s) \<lparr> rp_manual := enabled \<rparr> \<rparr>) else s)"

text \<open>The head of \<open>tick\<close>: the disk is checked, then the captures are switched to what is wanted.\<close>

definition capture_tick :: "bool \<Rightarrow> pyfloat \<Rightarrow> recordings \<Rightarrow> recordings \<times> bool" where
  "capture_tick disk now s = (s \<lparr> rc_disk := disk \<rparr>, wanted (rc_policy s) now \<and> disk)"

text \<open>The process ends at any moment and is started again: only the file is left.\<close>

datatype recording_event =
    MissionReport bool pyfloat pyfloat "mission_state option list"
  | ManualSwitch bool pyfloat bool
  | CaptureTick bool pyfloat
  | Restart pyfloat

fun recording_step :: "recordings \<Rightarrow> recording_event \<Rightarrow> recordings \<times> bool list" where
  "recording_step s (MissionReport written now later states) = (observe_recordings written now later (mission_signal states) s, [])"
| "recording_step s (ManualSwitch written now enabled) = (manual_recording written now enabled s, [])"
| "recording_step s (CaptureTick disk now) = (let (s1, w) = capture_tick disk now s in (s1, [w]))"
| "recording_step s (Restart now) = (open_recordings (rc_file s) now, [])"

subsection \<open>The pieces of a recorded period\<close>

text \<open>
  A period of the day is offered in pieces of at most ten minutes; more than a thousand rows raise \<open>ValueError\<close>.
  The rows found before, the offset and the limit are in seconds from the start of the period.
\<close>

function catalog_pieces :: "(pyfloat \<times> pyfloat) list \<Rightarrow> pyfloat \<Rightarrow> pyfloat \<Rightarrow> (pyfloat \<times> pyfloat) list option" where
  "catalog_pieces rows offset limit =
     (if flt offset limit
      then (let piece = pymin (Fin 600) (fsub limit offset); rows1 = rows @ [(offset, piece)] in
            if 1000 < length rows1 then None else catalog_pieces rows1 (fadd offset piece) limit)
      else Some rows)"
  by pat_completeness auto
termination by (relation "measure (\<lambda>(rows, _, _). 1001 - length rows)") auto

declare catalog_pieces.simps [simp del]

text \<open>One period: it may start before the day that is asked for, and end after it.\<close>

definition catalog_period :: "(pyfloat \<times> pyfloat) list \<Rightarrow> pyfloat \<Rightarrow> pyfloat \<Rightarrow> pyfloat \<Rightarrow> (pyfloat \<times> pyfloat) list option" where
  "catalog_period rows before after duration =
     (if \<not> isfinite duration \<or> fle duration fzero then Some rows
      else catalog_pieces rows (pymax fzero before) (pymin duration after))"

subsection \<open>Lemmas\<close>

text \<open>Each piece starts where the one before ends and is at most ten minutes long.\<close>

fun contiguous :: "pyfloat \<Rightarrow> (pyfloat \<times> pyfloat) list \<Rightarrow> bool" where
  "contiguous from_s [] = True"
| "contiguous from_s ((offset, piece) # ps) \<longleftrightarrow> offset = from_s \<and> fle piece (Fin 600) \<and> contiguous (fadd offset piece) ps"

lemma pieces_contiguous:
  "catalog_pieces rows offset limit = Some out \<Longrightarrow> \<exists>new. out = rows @ new \<and> contiguous offset new \<and> length out \<le> max (length rows) 1000 \<and>
     list_all (\<lambda>(o', p). flt o' limit) new"
proof (induction rows offset limit rule: catalog_pieces.induct)
  case (1 rows offset limit)
  define piece where "piece = pymin (Fin 600) (fsub limit offset)"
  show ?case
  proof (cases "flt offset limit")
    case False
    then show ?thesis using "1.prems" by (subst (asm) catalog_pieces.simps) (auto intro!: exI [of _ "[]"])
  next
    case True
    then have n: "\<not> 1000 < length (rows @ [(offset, piece)])"
      and r: "catalog_pieces (rows @ [(offset, piece)]) (fadd offset piece) limit = Some out"
      using "1.prems" by (auto simp: catalog_pieces.simps [of rows] piece_def [symmetric] Let_def split: if_splits)
    obtain new where new: "out = (rows @ [(offset, piece)]) @ new" "contiguous (fadd offset piece) new"
      "length out \<le> max (length (rows @ [(offset, piece)])) 1000" "list_all (\<lambda>(o', p). flt o' limit) new"
      using "1.IH" [OF True piece_def refl n r] by blast
    have "fle piece (Fin 600)" by (cases "fsub limit offset") (auto simp: piece_def pymin_def fle_def)
    then show ?thesis using new n True by (intro exI [of _ "(offset, piece) # new"]) auto
  qed
qed

text \<open>What a mission needs to be recorded: it is known to run, and if the process was restarted, the file says so.\<close>

definition mission_kept :: "recordings \<Rightarrow> bool" where
  "mission_kept s \<longleftrightarrow> rp_mission (rc_policy s) \<and> (\<exists>f. rc_file s = Some f \<and> rf_mission f)"

text \<open>A report that does not end the mission: it was written, and not all authorities answered that they are idle.\<close>

fun keeps_mission :: "recording_event \<Rightarrow> bool" where
  "keeps_mission (MissionReport written now later states) \<longleftrightarrow> mission_signal states \<noteq> Some False"
| "keeps_mission e = True"

lemma mission_kept_step: "mission_kept s \<Longrightarrow> keeps_mission e \<Longrightarrow> mission_kept (fst (recording_step s e))"
  by (cases e) (auto simp: mission_kept_def observe_recordings_def persist_def observe_mission_def file_of_def manual_recording_def
    capture_tick_def open_recordings_def restored_policy_def Let_def split: option.split)

lemma mission_kept_run:
  "mission_kept s \<Longrightarrow> list_all keeps_mission es \<Longrightarrow>
     mission_kept (fst (run recording_step s es)) \<and> snd (run recording_step s es) = List.map_filter (\<lambda>e. case e of CaptureTick d t \<Rightarrow> Some d | _ \<Rightarrow> None) es"
proof (induction es arbitrary: s)
  case (Cons e es)
  have k: "mission_kept (fst (recording_step s e))" using mission_kept_step Cons.prems by simp
  have "snd (recording_step s e) = (case e of CaptureTick d t \<Rightarrow> [d] | _ \<Rightarrow> [])"
    using Cons.prems(1) by (cases e) (auto simp: capture_tick_def wanted_def mission_kept_def)
  then show ?case using Cons.IH [OF k] Cons.prems(2) by (auto simp: run_Cons map_filter_simps simp del: run.simps(2) split: recording_event.splits)
qed (simp add: map_filter_simps)

lemma lost_authority_keeps:
  "fle fzero now \<Longrightarrow> wanted p now \<Longrightarrow> wanted (observe_mission p None u) later"
  by (auto simp: wanted_def observe_mission_def dest: fle_flt_trans)

subsection \<open>Properties\<close>

text \<open>
  A mission is recorded to its end: once a report of a running mission was stored, every capture decision says yes as
  long as the disk allows it, over any sequence of reports, manual switches and restarts of the process, until all
  authorities report that nothing runs; and a capture that is wanted is not given up when the authorities stop answering.
\<close>

lemma mission_recorded_to_its_end:
  assumes "mission_signal states = Some True" "list_all keeps_mission es"
  shows "snd (run recording_step (fst (recording_step s (MissionReport True now later states))) es) =
      List.map_filter (\<lambda>e. case e of CaptureTick d t \<Rightarrow> Some d | _ \<Rightarrow> None) es \<and>
    (\<forall>p t u. fle fzero t \<longrightarrow> wanted p t \<longrightarrow> wanted (observe_mission p None t) u)"
proof -
  have "mission_kept (fst (recording_step s (MissionReport True now later states)))"
    using assms(1) by (simp add: mission_kept_def observe_recordings_def persist_def observe_mission_def file_of_def)
  from mission_kept_run [OF this assms(2)] lost_authority_keeps show ?thesis by blast
qed

text \<open>
  The catalogue is bounded: the pieces of a period follow each other without a gap, none is longer than ten minutes,
  each starts before the end of the period, and there are never more than a thousand rows.
\<close>

lemma catalog_bounded:
  assumes "catalog_period rows before after duration = Some out" "length rows \<le> 1000"
  shows "\<exists>new. out = rows @ new \<and> length out \<le> 1000 \<and> contiguous (pymax fzero before) new \<and>
    list_all (\<lambda>(o', p). flt o' (pymin duration after)) new"
  using assms pieces_contiguous [of rows "pymax fzero before" "pymin duration after" out]
  by (auto simp: catalog_period_def split: if_splits)

text \<open>
  The end of the tail is not forgotten: after a mission has ended and its thirty seconds are over, nothing is wanted;
  when the authorities then stop answering, a capture is wanted again although nothing runs.
\<close>

lemma silence_restarts_capture:
  assumes "\<not> rp_manual p" "fle fzero now" "flt (fadd now (Fin 30)) t" "isfinite t"
  shows "let q = observe_mission (observe_mission p (Some True) now) (Some False) now in
    \<not> wanted q t \<and> wanted (observe_mission q None t) t"
proof -
  obtain a b where f: "now = Fin a" "t = Fin b" using assms(2-4) by (cases now; cases t) (auto simp: fle_def)
  have "fle (fl 0) (fl (a + 30))" using assms(2) f by (intro fl_mono) simp
  moreover have "fl (a + 30) \<noteq> fzero"
  proof
    assume z: "fl (a + 30) = fzero"
    have "fle (fl 30) (fl (a + 30))" using assms(2) f by (intro fl_mono) simp
    then show False using z by simp
  qed
  ultimately have "flt fzero (fl (a + 30))" by (cases "fl (a + 30)") (auto simp: fle_def)
  moreover have "\<not> flt (Fin b) (fl (a + 30))" using assms(3) f by (auto dest: flt_asym)
  ultimately show ?thesis using assms(1) f by (simp add: observe_mission_def wanted_def Let_def)
qed

subsection \<open>Witnesses\<close>

definition running_mission :: mission_state where
  "running_mission = \<lparr> ms_ok = True, ms_active = True, ms_paused = False, ms_return = False \<rparr>"

lemma mission_recorded_to_its_end_witness:
  "snd (run recording_step (fst (recording_step (open_recordings None fzero) (MissionReport True (Fin 1) (Fin 1) [Some running_mission, None])))
     [MissionReport True (Fin 2) (Fin 2) [None, None], Restart (Fin 3), CaptureTick True (Fin 4)]) = [True]"
  using mission_recorded_to_its_end [of "[Some running_mission, None]"
      "[MissionReport True (Fin 2) (Fin 2) [None, None], Restart (Fin 3), CaptureTick True (Fin 4)]" "open_recordings None fzero" "Fin 1" "Fin 1"]
  by (simp add: mission_signal_def running_mission_def map_filter_simps del: recording_step.simps run.simps)

lemma catalog_bounded_witness:
  "\<exists>out. catalog_period [] fzero (Fin 1000) (Fin 900) = Some out \<and> length out \<le> 1000"
proof -
  have "catalog_period [] fzero (Fin 1000) (Fin 900) = Some [(fzero, Fin 600), (Fin 600, Fin 300)]"
    by (simp add: catalog_period_def catalog_pieces.simps pymax_def pymin_def fsub_def Let_def)
  from catalog_bounded [OF this] this show ?thesis by auto
qed

lemma silence_restarts_capture_witness:
  "let q = observe_mission (observe_mission new_recording_policy (Some True) (Fin 10)) (Some False) (Fin 10) in
    \<not> wanted q (Fin 50) \<and> wanted (observe_mission q None (Fin 50)) (Fin 50)"
  by (rule silence_restarts_capture) (simp_all add: new_recording_policy_def)

end
