(* ===== verification/Legacy_Command.thy ===== *)
theory Legacy_Command
  imports Canonical_Command
begin

section \<open>The legacy translation and the shadow comparison\<close>

text \<open>
  \<open>salus_control/legacy_vehicle_command.py\<close> and \<open>vehicle_command_comparison.py\<close>: the translation of
  a final velocity command to canonical values, and the comparison of an expected with an observed
  canonical command.
\<close>

record legacy_config =
  lc_max_speed :: pyfloat
  lc_max_reverse :: pyfloat
  lc_deadband :: pyfloat
  lc_min_effective :: pyfloat
  lc_wheelbase :: pyfloat
  lc_steering_limit :: pyfloat
  lc_op_limit :: pyfloat
  lc_manual_limit :: pyfloat
  lc_drive_enabled :: bool
  lc_valid_for :: pyfloat

datatype legacy_error =
    LegacyNotFinite | LegacySpeedLimits | LegacyThresholds | LegacyGeometry | LegacyOpLimit
  | LegacyManualLimit | LegacyValidity

definition check_legacy_config :: "legacy_config \<Rightarrow> legacy_error + legacy_config" where
  "check_legacy_config c =
     bind_res (raise_if (\<not> list_all isfinite
         [lc_max_speed c, lc_max_reverse c, lc_deadband c, lc_min_effective c, lc_wheelbase c,
          lc_steering_limit c, lc_op_limit c, lc_manual_limit c, lc_valid_for c]) LegacyNotFinite) (\<lambda>_.
     bind_res (raise_if (flt (lc_max_speed c) fzero \<or> flt (lc_max_reverse c) fzero) LegacySpeedLimits) (\<lambda>_.
     bind_res (raise_if (flt (lc_deadband c) fzero \<or> flt (lc_min_effective c) fzero) LegacyThresholds) (\<lambda>_.
     bind_res (raise_if (fle (lc_wheelbase c) fzero \<or> fle (lc_steering_limit c) fzero) LegacyGeometry) (\<lambda>_.
     bind_res (raise_if (fle (lc_op_limit c) fzero) LegacyOpLimit) (\<lambda>_.
     bind_res (raise_if (fle (lc_manual_limit c) fzero) LegacyManualLimit) (\<lambda>_.
     bind_res (raise_if (fle (lc_valid_for c) fzero) LegacyValidity) (\<lambda>_. Inr c)))))))"

datatype legacy_reason = LegacyCompatibility | LegacyNonfinite | LegacyInvalidSource

record vehicle_command =
  vc_source :: int
  vc_drive :: bool
  vc_estop :: bool
  vc_brake :: pyfloat
  vc_speed :: pyfloat
  vc_steer :: pyfloat
  vc_valid_for :: pyfloat
  vc_valid_input :: bool
  vc_reason :: legacy_reason

definition safe_invalid :: "legacy_config \<Rightarrow> legacy_reason \<Rightarrow> vehicle_command" where
  "safe_invalid c r =
     \<lparr> vc_source = src_safety, vc_drive = False, vc_estop = True, vc_brake = Fin 1, vc_speed = fzero,
       vc_steer = fzero, vc_valid_for = lc_valid_for c, vc_valid_input = False, vc_reason = r \<rparr>"

definition legacy_params :: "legacy_config \<Rightarrow> drive_params" where
  "legacy_params c =
     \<lparr> dp_max_speed = lc_max_speed c, dp_max_reverse = lc_max_reverse c, dp_deadband = lc_deadband c,
       dp_min_effective = lc_min_effective c, dp_wheelbase = lc_wheelbase c,
       dp_steering_limit = lc_steering_limit c, dp_invert_steer = False,
       dp_auto_drive_enabled = lc_drive_enabled c, dp_op_limit = Some (lc_op_limit c),
       dp_manual_limit = Some (lc_manual_limit c) \<rparr>"

definition translate_legacy ::
    "libm \<Rightarrow> legacy_config \<Rightarrow> pyfloat \<Rightarrow> pyfloat \<Rightarrow> int \<Rightarrow> int \<Rightarrow> vehicle_command option" where
  "translate_legacy M c lin ang brake_pct source =
     (if \<not> isfinite lin \<or> \<not> isfinite ang then Some (safe_invalid c LegacyNonfinite)
      else if source \<notin> set valid_sources then Some (safe_invalid c LegacyInvalidSource)
      else
        Option.bind (command_from_cmd_vel M (legacy_params c) lin ang brake_pct source) (\<lambda>d.
        map_option (\<lambda>ratio.
          \<lparr> vc_source = source, vc_drive = dc_drive_enabled d, vc_estop = dc_estop d,
            vc_brake = ratio, vc_speed = dc_speed d,
            vc_steer = (if dc_estop d then fzero else dc_app_steer d),
            vc_valid_for = lc_valid_for c, vc_valid_input = True, vc_reason = LegacyCompatibility \<rparr>)
          (fdiv (Fin (of_int (dc_brake d))) (Fin 100))))"

subsection \<open>Comparison\<close>

record observed_command =
  oc_source :: int
  oc_drive :: bool
  oc_estop :: bool
  oc_brake :: pyfloat
  oc_speed :: pyfloat
  oc_steer :: pyfloat
  oc_valid_for :: pyfloat
  oc_frame :: string
  oc_stamp :: int

record tolerances =
  tl_speed :: pyfloat
  tl_steer :: pyfloat
  tl_brake :: pyfloat
  tl_valid_for :: pyfloat
  tl_frame :: string

datatype field = FBrake | FSpeed | FSteer | FValidFor | FSource | FDrive | FEstop | FFrame | FStamp

datatype mismatch = Nonfinite field | Mismatch field | StampInvalid

definition scalar_reason :: "field \<times> pyfloat \<times> pyfloat \<times> pyfloat \<Rightarrow> mismatch list" where
  "scalar_reason = (\<lambda>(name, expected, observed, tolerance).
     if \<not> isfinite observed then [Nonfinite name]
     else if flt tolerance (fabs (fsub expected observed)) then [Mismatch name] else [])"

definition compare_commands :: "vehicle_command \<Rightarrow> observed_command \<Rightarrow> tolerances \<Rightarrow> mismatch list" where
  "compare_commands e obs t =
     concat (map scalar_reason
       [(FBrake, vc_brake e, oc_brake obs, tl_brake t),
        (FSpeed, vc_speed e, oc_speed obs, tl_speed t),
        (FSteer, vc_steer e, oc_steer obs, tl_steer t),
        (FValidFor, vc_valid_for e, oc_valid_for obs, tl_valid_for t)]) @
     (if vc_source e \<noteq> oc_source obs then [Mismatch FSource] else []) @
     (if vc_drive e \<noteq> oc_drive obs then [Mismatch FDrive] else []) @
     (if vc_estop e \<noteq> oc_estop obs then [Mismatch FEstop] else []) @
     (if oc_frame obs \<noteq> tl_frame t then [Mismatch FFrame] else []) @
     (if oc_stamp obs \<le> 0 then [StampInvalid] else [])"

definition commands_match :: "vehicle_command \<Rightarrow> observed_command \<Rightarrow> tolerances \<Rightarrow> bool" where
  "commands_match e obs t = (compare_commands e obs t = [])"

subsection \<open>The canonical consumer accepts what the translation produces\<close>

text \<open>The configuration of a consumer with the limits of the translation.\<close>

definition matching_config :: "legacy_config \<Rightarrow> canonical_config" where
  "matching_config c =
     \<lparr> kc_max_forward = lc_max_speed c, kc_max_reverse = lc_max_reverse c,
       kc_max_steering = lc_steering_limit c, kc_max_valid = lc_valid_for c, kc_max_skew = fzero \<rparr>"

lemma legacy_config_ok:
  "check_legacy_config c0 = Inr c \<Longrightarrow>
     isfinite (lc_max_speed c) \<and> isfinite (lc_max_reverse c) \<and> isfinite (lc_steering_limit c) \<and>
     isfinite (lc_valid_for c) \<and> \<not> flt (lc_max_speed c) fzero \<and> \<not> flt (lc_max_reverse c) fzero \<and>
     \<not> fle (lc_steering_limit c) fzero \<and> \<not> fle (lc_valid_for c) fzero"
  by (auto simp: check_legacy_config_def bind_res_eq_Inr)

lemma pymax_zero_id: "isfinite x \<Longrightarrow> \<not> flt x fzero \<Longrightarrow> pymax fzero x = x"
  by (cases x) (auto simp: pymax_def)

lemma brake_ratio_range:
  assumes "0 \<le> b" "b \<le> 100"
  shows "\<exists>q. fdiv (Fin (of_int b)) (Fin 100) = Some (Fin q) \<and> 0 \<le> q \<and> q \<le> 1 \<and> (0 < b \<longrightarrow> 0 < q)"
proof -
  have "fle (fl 0) (fl (of_int b / 100))" "fle (fl (of_int b / 100)) (fl 1)"
    using assms fl_mono [of 0 "of_int b / 100"] fl_mono [of "of_int b / 100" 1] by simp_all
  then obtain q where q: "fl (of_int b / 100) = Fin q" "0 \<le> q" "q \<le> 1"
    using fle_between_finite [of 0 "fl (of_int b / 100)" 1] by auto
  moreover have "0 < q" if "0 < b"
  proof -
    have "(1 / 128 :: rat) \<le> of_int b / 100" using that by (simp add: le_divide_eq)
    then have "fle (fl (1 / 128)) (fl (of_int b / 100))" by (rule fl_mono)
    moreover have "fl (1 / 128) = Fin (1 / 128)" using fl_dyadic [of 1 7] by simp
    ultimately show ?thesis using q(1) by simp
  qed
  ultimately show ?thesis by auto
qed


text \<open>
  The message that carries a translated command: its float fields are float32. The validity travels
  as a duration, here \<open>valid_for\<close>.
\<close>

definition message_of :: "vehicle_command \<Rightarrow> pyfloat \<Rightarrow> int \<Rightarrow> canonical_sample" where
  "message_of v valid_for stamp =
     \<lparr> ks_stamp = stamp, ks_source = vc_source v, ks_drive = vc_drive v, ks_estop = vc_estop v,
       ks_brake = f32 (vc_brake v), ks_speed = f32 (vc_speed v), ks_steer = f32 (vc_steer v),
       ks_steer_velocity = fzero, ks_acceleration = fzero, ks_jerk = fzero,
       ks_valid_for = valid_for \<rparr>"

lemma f32_within:
  assumes "fle a x" "fle x b" "f32 a = a" "f32 b = b"
  shows "fle a (f32 x)" "fle (f32 x) b"
  using f32_mono [OF assms(1)] f32_mono [OF assms(2)] assms(3,4) by simp_all

definition translated_ok :: "legacy_config \<Rightarrow> vehicle_command \<Rightarrow> bool" where
  "translated_ok c v \<longleftrightarrow>
     fle fzero (vc_brake v) \<and> fle (vc_brake v) (Fin 1) \<and>
     fle (fneg (lc_max_reverse c)) (vc_speed v) \<and> fle (vc_speed v) (lc_max_speed c) \<and>
     fle (fneg (lc_steering_limit c)) (vc_steer v) \<and> fle (vc_steer v) (lc_steering_limit c) \<and>
     vc_source v \<in> set valid_sources"

lemma translate_legacy_ok:
  assumes c: "check_legacy_config c0 = Inr c" and e: "fle eps6 (lc_steering_limit c)"
    and t: "translate_legacy M c lin ang brake src = Some v"
  shows "translated_ok c v"
proof -
  have K: "pymax fzero (lc_max_speed c) = lc_max_speed c" "pymax fzero (lc_max_reverse c) = lc_max_reverse c"
    using legacy_config_ok [OF c] by (auto simp: pymax_zero_id)
  have z: "fle (fneg (lc_max_reverse c)) fzero" "fle fzero (lc_max_speed c)"
    using K pymax_nonneg [of "lc_max_reverse c"] pymax_nonneg [of "lc_max_speed c"]
    by (simp_all add: fneg_nonpos)
  have L: "pymax eps6 (fabs (lc_steering_limit c)) = lc_steering_limit c"
    using e by (cases "lc_steering_limit c") (auto simp: pymax_def eps6_eq fle_def)
  have sl: "fle (fneg (lc_steering_limit c)) fzero \<and> fle fzero (lc_steering_limit c)"
    using eps6_le_nonneg [OF e] by (cases "lc_steering_limit c") (auto simp: fle_def)
  show ?thesis
  proof (cases "\<not> isfinite lin \<or> \<not> isfinite ang \<or> src \<notin> set valid_sources")
    case True
    then have "v = safe_invalid c LegacyNonfinite \<or> v = safe_invalid c LegacyInvalidSource"
      using t by (auto simp: translate_legacy_def split: if_splits)
    then show ?thesis using z sl
      by (auto simp: translated_ok_def safe_invalid_def valid_sources_def)
  next
    case False
    then obtain d ratio where d: "command_from_cmd_vel M (legacy_params c) lin ang brake src = Some d"
      and r: "fdiv (Fin (of_int (dc_brake d))) (Fin 100) = Some ratio"
      and v: "vc_source v = src" "vc_brake v = ratio" "vc_speed v = dc_speed d"
        "vc_steer v = (if dc_estop d then fzero else dc_app_steer d)"
      using t by (auto simp: translate_legacy_def bind_eq_Some_conv)
    note W = cmd_within_limits [OF d]
    have lim: "fle (dc_limit_used d) (lc_steering_limit c)"
      using d effective_limit_le [of "lc_steering_limit c"] L
      by (auto simp: command_from_cmd_vel_def legacy_params_def bind_eq_Some_conv Let_def split: prod.splits)
    have "fle (fneg (lc_steering_limit c)) (fneg (dc_limit_used d))" using lim by (simp add: fle_fneg)
    then have s: "fle (fneg (lc_steering_limit c)) (dc_app_steer d)" "fle (dc_app_steer d) (lc_steering_limit c)"
      using W lim fle_trans by blast+
    obtain q where "ratio = Fin q" "0 \<le> q" "q \<le> 1" using brake_ratio_range [of "dc_brake d"] W r by auto
    then show ?thesis using W s sl v False K by (auto simp: translated_ok_def legacy_params_def)
  qed
qed

subsection \<open>Properties\<close>

text \<open>
  The two command paths agree: when the limits of a checked legacy configuration are float32
  values, every message the translation produces (for any velocities, brake and source, invalid ones
  included) is accepted by a canonical consumer with the same limits, if it is newer than the last
  accepted command, has a positive validity of at most 1000000 s and arrives without delay.
\<close>

lemma legacy_accepted_by_canonical:
  assumes "check_legacy_config c0 = Inr c" "fle eps6 (lc_steering_limit c)" "fle (lc_valid_for c) (Fin 1000000)"
    and "f32 (lc_max_speed c) = lc_max_speed c" "f32 (lc_max_reverse c) = lc_max_reverse c"
    and "f32 (lc_steering_limit c) = lc_steering_limit c"
    and "translate_legacy M c lin ang brake src = Some v"
    and "co_config k = matching_config c" "0 < stamp" "\<And>l. co_last_stamp k = Some l \<Longrightarrow> l < stamp"
    and "isfinite vf" "flt fzero vf" "fle vf (Fin 1000000)"
  shows "invalid_reason k (message_of v vf stamp) stamp = Some None"
proof -
  have T: "translated_ok c v" using translate_legacy_ok [OF assms(1,2,7)] .
  note B = f32_within [of fzero "vc_brake v" "Fin 1"]
  note S = f32_within [of "fneg (lc_max_reverse c)" "vc_speed v" "lc_max_speed c"]
  note A = f32_within [of "fneg (lc_steering_limit c)" "vc_steer v" "lc_steering_limit c"]
  have b: "fle fzero (f32 (vc_brake v))" "fle (f32 (vc_brake v)) (Fin 1)"
    using B T by (auto simp: translated_ok_def)
  have s: "fle (fneg (lc_max_reverse c)) (f32 (vc_speed v))" "fle (f32 (vc_speed v)) (lc_max_speed c)"
    using S T assms(4,5) by (auto simp: translated_ok_def f32_fneg)
  have a: "fle (fneg (lc_steering_limit c)) (f32 (vc_steer v))" "fle (f32 (vc_steer v)) (lc_steering_limit c)"
    using A T assms(6) by (auto simp: translated_ok_def f32_fneg)
  have lf: "isfinite (lc_max_speed c)" "isfinite (lc_max_reverse c)" "isfinite (lc_steering_limit c)" "isfinite (lc_valid_for c)"
    "\<not> fle (lc_valid_for c) fzero"
    using legacy_config_ok [OF assms(1)] by auto
  have fin: "isfinite (f32 (vc_brake v))" "isfinite (f32 (vc_speed v))" "isfinite (f32 (vc_steer v))"
    using isfinite_between [OF b] isfinite_between [OF s] isfinite_between [OF a] lf by simp_all
  have st: "\<not> flt (lc_steering_limit c) (fabs (f32 (vc_steer v)))"
    using a lf by (cases "f32 (vc_steer v)"; cases "lc_steering_limit c") (auto simp: fle_def)
  obtain p where p: "lc_valid_for c = Fin p" "0 < p" "p \<le> 1000000"
    using lf assms(3) by (auto simp: isfinite_iff)
  obtain w where w: "vf = Fin w" "0 < w" "w \<le> 1000000" using assms(11-13) by (auto simp: isfinite_iff)
  obtain x where x: "pymin vf (lc_valid_for c) = Fin x" "0 < x" "x \<le> 1000000"
    using p w by (cases "p < w") (auto simp: pymin_def)
  have "- of_int 1000000000000000 \<le> x * 1000000000" "x * 1000000000 \<le> of_int 1000000000000000" using x by auto
  then obtain y where y: "fl (x * 1000000000) = Fin y" by (rule fl_between) simp_all
  have "fle (fl 0) (fl (x * 1000000000))" using x by (intro fl_mono) simp
  then have "0 \<le> rne y" using y rne_mono [of 0 y] rne_of_int [of 0] by simp
  then have n: "\<exists>n. ns_of (pymin vf (lc_valid_for c)) = Some n \<and> 0 \<le> n" using x y by (simp add: ns_of_def)
  have z: "ns_of fzero = Some 0" using rne_of_int [of 0] by (simp add: ns_of_def)
  show ?thesis
    using T b s st fin n z w assms(8-10)
    by (auto simp: invalid_reason_def message_of_def matching_config_def translated_ok_def Let_def split: option.splits)
qed

text \<open>The literal \<open>0.5235987756\<close>, the default steering limit of both commands.\<close>

definition default_steering_limit :: pyfloat where
  "default_steering_limit = fl (5235987756 / 10000000000)"

lemma default_limit_eq: "default_steering_limit = Fin (73689976583869 / 140737488355328)"
  by (simp add: default_steering_limit_def fl_eval)

lemma default_limit_f32: "f32 default_steering_limit = Fin (4392265 / 8388608)"
  by (simp add: default_limit_eq f32.simps(1) rnd_at_def rnd_pos_at_def ulp_at_def fl_eval max_finite32_def)

text \<open>
  With the default limits the paths do not agree at full lock: rounded to float32, the default
  steering limit exceeds itself, so a canonical consumer with that limit rejects the message of a
  command that steers at the limit, and stops the vehicle.
\<close>

lemma full_lock_message_rejected:
  assumes "kc_max_steering (co_config k) = default_steering_limit" "vc_steer v = default_steering_limit"
  shows "invalid_reason k (message_of v vf stamp) now \<noteq> Some None"
proof
  assume "invalid_reason k (message_of v vf stamp) now = Some None"
  from invalid_reason_NoneD [OF this] have "\<not> flt default_steering_limit (fabs (f32 default_steering_limit))"
    using assms by (simp add: message_of_def)
  then show False by (simp add: default_limit_f32) (simp add: default_limit_eq)
qed

subsection \<open>Witnesses\<close>

definition sample_legacy :: legacy_config where
  "sample_legacy =
     \<lparr> lc_max_speed = Fin 4, lc_max_reverse = Fin 1, lc_deadband = fzero, lc_min_effective = Fin (1 / 2),
       lc_wheelbase = Fin 1, lc_steering_limit = Fin (1 / 2), lc_op_limit = Fin (1 / 2),
       lc_manual_limit = Fin (1 / 2), lc_drive_enabled = True, lc_valid_for = Fin 1 \<rparr>"

lemma sample_legacy_ok: "check_legacy_config sample_legacy = Inr sample_legacy"
  by (simp add: check_legacy_config_def sample_legacy_def)

lemma sample_translation: "\<exists>v. translate_legacy sample_libm sample_legacy (Fin 2) fzero 0 src_manual = Some v"
proof -
  obtain d where d: "command_from_cmd_vel sample_libm (legacy_params sample_legacy) (Fin 2) fzero 0 src_manual = Some d"
    using command_exists [of "legacy_params sample_legacy" 0 sample_libm "Fin 2" fzero src_manual]
    by (force simp: legacy_params_def sample_legacy_def sample_libm_def)
  then show ?thesis by (simp add: translate_legacy_def valid_sources_def)
qed

lemma f32_small: "f32 (Fin 4) = Fin 4" "f32 (Fin (1 / 2)) = Fin (1 / 2)"
  using rne_of_int [of 8388608]
  by (simp_all add: f32.simps(1) rnd_at_def rnd_pos_at_def ulp_at_def flog2_def blen.simps pow2_def max_finite32_def Let_def)

lemma legacy_accepted_by_canonical_witness:
  "\<exists>v. translate_legacy sample_libm sample_legacy (Fin 2) fzero 0 src_manual = Some v \<and>
     invalid_reason (new_consumer (matching_config sample_legacy)) (message_of v (Fin 1) 7) 7 = Some None"
proof -
  obtain v where v: "translate_legacy sample_libm sample_legacy (Fin 2) fzero 0 src_manual = Some v"
    using sample_translation by blast
  have "invalid_reason (new_consumer (matching_config sample_legacy)) (message_of v (Fin 1) 7) 7 = Some None"
    by (rule legacy_accepted_by_canonical [OF sample_legacy_ok _ _ _ _ _ v])
       (simp_all add: sample_legacy_def f32_small eps6_eq new_consumer_def)
  then show ?thesis using v by blast
qed

lemma full_lock_message_rejected_witness:
  "invalid_reason (new_consumer (sample_config \<lparr> kc_max_steering := default_steering_limit \<rparr>))
     (message_of (safe_invalid sample_legacy LegacyNonfinite \<lparr> vc_steer := default_steering_limit \<rparr>) (Fin 1) 7) 7
   \<noteq> Some None"
  by (rule full_lock_message_rejected) (simp_all add: new_consumer_def)

end
