(* ===== verification/Rtk.thy ===== *)
theory Rtk
  imports Prelude
begin

unbundle bit_operations_syntax

section \<open>RTCM corrections and RTK status\<close>

text \<open>
  \<open>salus_hardware/rtk_domain.py\<close>, the \<open>RtcmDecoder\<close> of \<open>ntrip_protocol.py\<close> and the frame handler of
  \<open>pixhawk_rtk_adapter.py\<close>: CRC-24Q, frame validation, the resynchronising stream decoder, the
  delivery gate with its sequence numbers, and the status policies. Bytes are \<open>8 word\<close>; the CRC
  register is the Python int the source shifts.
\<close>

type_synonym octet = "8 word"

subsection \<open>Qualities and states\<close>

datatype fix_quality = FixUnknown | NoFix | Autonomous | Dgps | RtkFloat | RtkFixed

text \<open>The values of the \<open>IntEnum\<close>, whose order is that of the numbers.\<close>

primrec fix_value :: "fix_quality \<Rightarrow> nat" where
  "fix_value FixUnknown = 0" | "fix_value NoFix = 1" | "fix_value Autonomous = 2"
| "fix_value Dgps = 3" | "fix_value RtkFloat = 4" | "fix_value RtkFixed = 5"

lemma fix_value_inj: "fix_value a = fix_value b \<Longrightarrow> a = b"
  by (cases a; cases b) simp_all

instantiation fix_quality :: linorder
begin

definition less_eq_fix_quality :: "fix_quality \<Rightarrow> fix_quality \<Rightarrow> bool" where
  "less_eq_fix_quality a b = (fix_value a \<le> fix_value b)"

definition less_fix_quality :: "fix_quality \<Rightarrow> fix_quality \<Rightarrow> bool" where
  "less_fix_quality a b = (fix_value a < fix_value b)"

instance
  by standard (auto simp: less_eq_fix_quality_def less_fix_quality_def intro: fix_value_inj)

end

datatype acquisition =
    AcqDisabled | AcqDisconnected | AcqConnectedNoData | AcqReceiving | AcqStale | AcqError

datatype delivery_backend = BackendDisabled | PixhawkMavros | DirectUsb

definition map_receiver_fix_type :: "int option \<Rightarrow> fix_quality" where
  "map_receiver_fix_type ft =
     (case ft of None \<Rightarrow> FixUnknown
      | Some t \<Rightarrow>
          if t \<le> 1 then NoFix
          else if t \<in> {2, 3, 7, 8} then Autonomous
          else if t = 4 then Dgps
          else if t = 5 then RtkFloat
          else if t = 6 then RtkFixed
          else FixUnknown)"

definition map_legacy_fix_status :: "string \<Rightarrow> fix_quality \<times> int" where
  "map_legacy_fix_status value =
     (case map_of
        [(''gps_no_fix'', (NoFix, 1)), (''rtk_float'', (RtkFloat, 5)), (''rtk_fixed'', (RtkFixed, 6)),
         (''gps_only'', (Autonomous, 3)), (''gps_static'', (Autonomous, 7)), (''ppp'', (Autonomous, 8))]
        (py_lower (py_strip value)) of
        Some r \<Rightarrow> r | None \<Rightarrow> (FixUnknown, - 1))"

definition parse_delivery_backend :: "string \<Rightarrow> delivery_backend option" where
  "parse_delivery_backend value =
     map_of [(''disabled'', BackendDisabled), (''pixhawk_mavros'', PixhawkMavros), (''direct_usb'', DirectUsb)]
       (py_lower (py_strip value))"

lemma legacy_fix_agrees:
  "map_legacy_fix_status value = (q, t) \<Longrightarrow> t \<noteq> - 1 \<Longrightarrow> map_receiver_fix_type (Some t) = q"
  by (auto simp: map_legacy_fix_status_def map_receiver_fix_type_def split: option.splits if_splits)

subsection \<open>CRC-24Q and frame validation\<close>

definition crc24_bit :: "int \<Rightarrow> int" where
  "crc24_bit crc =
     (let shifted = push_bit 1 crc in if shifted AND 0x1000000 \<noteq> 0 then shifted XOR 0x1864CFB else shifted)"

definition crc24_byte :: "int \<Rightarrow> octet \<Rightarrow> int" where
  "crc24_byte crc b = (crc24_bit ^^ 8) (crc XOR push_bit 16 (uint b))"

definition crc24q :: "octet list \<Rightarrow> int" where
  "crc24q bytes = foldl crc24_byte 0 bytes AND 0xFFFFFF"

definition from_big_endian :: "octet list \<Rightarrow> int" where
  "from_big_endian bytes = foldl (\<lambda>n b. n * 256 + uint b) 0 bytes"

definition rtcm_payload_size :: "octet list \<Rightarrow> nat" where
  "rtcm_payload_size d = nat (push_bit 8 (uint (d ! 1 AND 0x03)) OR uint (d ! 2))"

datatype frame_verdict =
    Accepted | EmptyFrame | TooShort | TooLarge | InvalidPreamble | ReservedBits | LengthMismatch | CrcMismatch

definition validate_rtcm3_frame :: "octet list \<Rightarrow> frame_verdict" where
  "validate_rtcm3_frame d =
     (if d = [] then EmptyFrame
      else if length d < 6 then TooShort
      else if 1029 < length d then TooLarge
      else if d ! 0 \<noteq> 0xD3 then InvalidPreamble
      else if d ! 1 AND 0xFC \<noteq> 0 then ReservedBits
      else if length d \<noteq> rtcm_payload_size d + 6 then LengthMismatch
      else if crc24q (take (length d - 3) d) \<noteq> from_big_endian (drop (length d - 3) d) then CrcMismatch
      else Accepted)"

subsection \<open>The stream decoder\<close>

record rtcm_decoder =
  dec_buffer :: "octet list"
  dec_crc_errors :: int

definition new_rtcm_decoder :: rtcm_decoder where
  "new_rtcm_decoder = \<lparr> dec_buffer = [], dec_crc_errors = 0 \<rparr>"

function rtcm_loop :: "rtcm_decoder \<Rightarrow> octet list list \<Rightarrow> rtcm_decoder \<times> octet list list" where
  "rtcm_loop d frames =
     (let b = dec_buffer d; size = rtcm_payload_size b + 6 in
      if length b < 6 then (d, frames)
      else if b ! 0 \<noteq> 0xD3 \<or> b ! 1 AND 0xFC \<noteq> 0 then rtcm_loop (d \<lparr> dec_buffer := tl b \<rparr>) frames
      else if 1029 < size then rtcm_loop (d \<lparr> dec_buffer := tl b \<rparr>) frames
      else if length b < size then (d, frames)
      else if validate_rtcm3_frame (take size b) \<noteq> Accepted
      then rtcm_loop (d \<lparr> dec_buffer := tl b, dec_crc_errors := dec_crc_errors d + 1 \<rparr>) frames
      else rtcm_loop (d \<lparr> dec_buffer := drop size b \<rparr>) (frames @ [take size b]))"
  by pat_completeness auto

termination by (relation "measure (\<lambda>(d, frames). length (dec_buffer d))") auto

declare rtcm_loop.simps [simp del]

definition rtcm_feed :: "rtcm_decoder \<Rightarrow> octet list \<Rightarrow> rtcm_decoder \<times> octet list list" where
  "rtcm_feed d bytes = rtcm_loop (d \<lparr> dec_buffer := dec_buffer d @ bytes \<rparr>) []"

subsection \<open>Delivery\<close>

datatype sequence_change = SeqInvalid | SeqFirst | SeqAdvanced | SeqDuplicate | SeqReset

definition sequence_transition :: "int option \<Rightarrow> int \<Rightarrow> sequence_change" where
  "sequence_transition previous current =
     (if current < 0 then SeqInvalid
      else case previous of None \<Rightarrow> SeqFirst
      | Some p \<Rightarrow> if p < current then SeqAdvanced else if current = p then SeqDuplicate else SeqReset)"

datatype delivery_reason =
    Deliver | BadFrame frame_verdict | PayloadTooLarge | MissingSource | BadSequence sequence_change

record delivery_decision =
  dd_accepted :: bool
  dd_reason :: delivery_reason
  dd_source :: "string option"
  dd_sequence :: "int option"

record rtcm_message =
  rm_data :: "octet list"
  rm_source :: string
  rm_sequence :: int

definition evaluate_rtcm_delivery :: "rtcm_message \<Rightarrow> string option \<Rightarrow> int option \<Rightarrow> delivery_decision" where
  "evaluate_rtcm_delivery m prev_source prev_seq =
     (let reject = (\<lambda>r. \<lparr> dd_accepted = False, dd_reason = r, dd_source = prev_source, dd_sequence = prev_seq \<rparr>);
          verdict = validate_rtcm3_frame (rm_data m)
      in if verdict \<noteq> Accepted then reject (BadFrame verdict)
         else if 720 < length (rm_data m) then reject PayloadTooLarge
         else if py_strip (rm_source m) = [] then reject MissingSource
         else
           (let prev = (if Some (rm_source m) \<noteq> prev_source then None else prev_seq);
                change = sequence_transition prev (rm_sequence m)
            in if change \<notin> {SeqFirst, SeqAdvanced}
               then \<lparr> dd_accepted = False, dd_reason = BadSequence change, dd_source = Some (rm_source m),
                      dd_sequence = (if change = SeqReset then Some (rm_sequence m) else prev) \<rparr>
               else \<lparr> dd_accepted = True, dd_reason = Deliver, dd_source = Some (rm_source m),
                      dd_sequence = Some (rm_sequence m) \<rparr>))"

text \<open>
  The handler of the Pixhawk adapter: \<open>enabled\<close> is whether the MAVROS publisher exists, and publishing
  either succeeds or raises; the output is the published frame.
\<close>

record adapter =
  ad_enabled :: bool
  ad_source :: "string option"
  ad_sequence :: "int option"
  ad_delivered_ns :: "int option"
  ad_error :: bool

definition on_rtcm :: "adapter \<Rightarrow> rtcm_message \<times> bool \<times> int \<Rightarrow> adapter \<times> rtcm_message list" where
  "on_rtcm a = (\<lambda>(m, publish_ok, now_ns).
     (let d = evaluate_rtcm_delivery m (ad_source a) (ad_sequence a);
          a1 = a \<lparr> ad_source := dd_source d, ad_sequence := dd_sequence d \<rparr>
      in if \<not> dd_accepted d \<or> \<not> ad_enabled a then (a1, [])
         else if publish_ok then (a1 \<lparr> ad_delivered_ns := Some now_ns, ad_error := False \<rparr>, [m])
         else (a1 \<lparr> ad_error := True \<rparr>, [])))"

subsection \<open>Status policies\<close>

datatype source_detail = LegacySourceError | ReceivingRtcm | ConnectedWithoutFresh | SourceDisconnected

record source_status =
  ss_sequence :: int
  ss_source_id :: string
  ss_connected :: bool
  ss_receiving :: bool
  ss_age :: pyfloat
  ss_received :: int
  ss_crc_errors :: int
  ss_detail :: source_detail

definition acquisition_state :: "source_status option \<Rightarrow> pyfloat \<Rightarrow> acquisition" where
  "acquisition_state status stale_timeout =
     (case status of None \<Rightarrow> AcqDisconnected
      | Some s \<Rightarrow>
          if ss_detail s = LegacySourceError then AcqError
          else if \<not> ss_connected s then AcqDisconnected
          else if ss_received s = 0 then AcqConnectedNoData
          else if \<not> isfinite (ss_age s) then AcqConnectedNoData
          else if flt stale_timeout (ss_age s) \<or> \<not> ss_receiving s then AcqStale
          else AcqReceiving)"

text \<open>The outer \<open>None\<close> is the \<open>ValueError\<close> of an invalid duration.\<close>

definition age_source_status :: "source_status option \<Rightarrow> pyfloat \<Rightarrow> source_status option option" where
  "age_source_status status elapsed =
     (case status of None \<Rightarrow> Some None
      | Some s \<Rightarrow>
          if \<not> isfinite (ss_age s) then Some (Some s)
          else if \<not> isfinite elapsed \<or> flt elapsed fzero then None
          else Some (Some (s \<lparr> ss_age := fadd (ss_age s) elapsed \<rparr>)))"

subsection \<open>The decoder as a stream scanner\<close>

definition rtcm_scan :: "(octet, octet list) scanner" where
  "rtcm_scan b =
     (let size = rtcm_payload_size b + 6 in
      if length b < 6 then None
      else if b ! 0 \<noteq> 0xD3 \<or> b ! 1 AND 0xFC \<noteq> 0 then Some ([], 1)
      else if 1029 < size then Some ([], 1)
      else if length b < size then None
      else if validate_rtcm3_frame (take size b) \<noteq> Accepted then Some ([], 1)
      else Some ([take size b], size))"

lemma payload_size_append: "3 \<le> length xs \<Longrightarrow> rtcm_payload_size (xs @ ys) = rtcm_payload_size xs"
  by (simp add: rtcm_payload_size_def nth_append)

interpretation rtcm: stream_scanner rtcm_scan
proof
  fix xs ys :: "octet list" and fs n
  assume a: "rtcm_scan xs = Some (fs, n)"
  then show "0 < n \<and> n \<le> length xs"
    by (auto simp: rtcm_scan_def Let_def split: if_splits)
  have "6 \<le> length xs" using a by (auto simp: rtcm_scan_def Let_def split: if_splits)
  then have "rtcm_payload_size (xs @ ys) = rtcm_payload_size xs" "(xs @ ys) ! 0 = xs ! 0" "(xs @ ys) ! 1 = xs ! 1"
    by (auto simp: payload_size_append nth_append)
  then show "rtcm_scan (xs @ ys) = Some (fs, n)"
    using a by (auto simp: rtcm_scan_def Let_def split: if_splits)
qed

lemma rtcm_loop_wait: "rtcm_scan (dec_buffer d) = None \<Longrightarrow> rtcm_loop d frames = (d, frames)"
  by (subst rtcm_loop.simps) (auto simp: rtcm_scan_def Let_def split: if_splits)

lemma rtcm_loop_step:
  assumes "rtcm_scan (dec_buffer d) = Some (fs, n)"
  shows "\<exists>e. rtcm_loop d frames = rtcm_loop \<lparr> dec_buffer = drop n (dec_buffer d), dec_crc_errors = e \<rparr> (frames @ fs)"
proof -
  have "rtcm_loop d frames = rtcm_loop \<lparr> dec_buffer = drop n (dec_buffer d), dec_crc_errors =
      dec_crc_errors d + (if fs = [] \<and> dec_buffer d ! 0 = 0xD3 \<and> dec_buffer d ! 1 AND 0xFC = 0 \<and>
        rtcm_payload_size (dec_buffer d) + 6 \<le> 1029 then 1 else 0) \<rparr> (frames @ fs)"
    using assms by (subst rtcm_loop.simps; cases d) (auto simp: rtcm_scan_def Let_def drop_Suc split: if_splits)
  then show ?thesis by blast
qed

lemma rtcm_loop_drain:
  "\<exists>errors. rtcm_loop d frames =
     (let (fs, r) = drain rtcm_scan (length (dec_buffer d)) (dec_buffer d)
      in (\<lparr> dec_buffer = r, dec_crc_errors = errors \<rparr>, frames @ fs))"
proof (induction "length (dec_buffer d)" arbitrary: d frames rule: less_induct)
  case less
  show ?case
  proof (cases "rtcm_scan (dec_buffer d)")
    case None
    then show ?thesis using rtcm.drain_wait [OF None] rtcm_loop_wait [OF None] by (cases d) auto
  next
    case (Some p)
    obtain fs n where p: "p = (fs, n)" by fastforce
    then have n: "0 < n" "n \<le> length (dec_buffer d)" using rtcm.consumes Some by auto
    obtain e where e: "rtcm_loop d frames = rtcm_loop \<lparr> dec_buffer = drop n (dec_buffer d), dec_crc_errors = e \<rparr> (frames @ fs)"
      using rtcm_loop_step Some p by blast
    show ?thesis
      using less.hyps [of "\<lparr> dec_buffer = drop n (dec_buffer d), dec_crc_errors = e \<rparr>" "frames @ fs"] n
        rtcm.drain_step [of "dec_buffer d" fs n] Some p e by (auto simp: Let_def split: prod.splits)
  qed
qed

lemma rtcm_run_drain:
  "run rtcm_feed d chunks = (d2, frames) \<Longrightarrow> (frames, dec_buffer d2) = drain_chunks rtcm_scan (dec_buffer d) chunks"
proof (induction chunks arbitrary: d frames)
  case (Cons c cs)
  obtain d1 fs where f: "rtcm_feed d c = (d1, fs)" by fastforce
  then have "(fs, dec_buffer d1) = drain rtcm_scan (length (dec_buffer d @ c)) (dec_buffer d @ c)"
    using rtcm_loop_drain [of "d \<lparr> dec_buffer := dec_buffer d @ c \<rparr>" "[]"]
    by (cases "drain rtcm_scan (length (dec_buffer d @ c)) (dec_buffer d @ c)")
      (auto simp: rtcm_feed_def Let_def simp del: length_append)
  moreover obtain gs where g: "run rtcm_feed d1 cs = (d2, gs)" "frames = fs @ gs"
    using Cons.prems f by (auto simp: Let_def split: prod.splits)
  ultimately show ?case using Cons.IH [OF g(1), symmetric] g(2)
    by (simp add: Let_def case_prod_unfold prod_eq_iff del: length_append)
qed simp

lemma rtcm_scan_frame:
  "validate_rtcm3_frame f = Accepted \<Longrightarrow> rtcm_scan (f @ ys) = Some ([f], length f)"
proof -
  assume a: "validate_rtcm3_frame f = Accepted"
  then have f: "6 \<le> length f" "length f \<le> 1029" "f ! 0 = 0xD3" "f ! 1 AND 0xFC = 0" "rtcm_payload_size f + 6 = length f"
    unfolding validate_rtcm3_frame_def by (simp_all split: if_splits)
  then have "(f @ ys) ! 0 = 0xD3" "(f @ ys) ! 1 AND 0xFC = 0" "rtcm_payload_size (f @ ys) + 6 = length f"
    by (auto simp: payload_size_append nth_append)
  then show ?thesis unfolding rtcm_scan_def Let_def using f a by simp
qed

lemma rtcm_scan_junk: "x \<noteq> 0xD3 \<Longrightarrow> 5 \<le> length ys \<Longrightarrow> rtcm_scan (x # ys) = Some ([], 1)"
  by (simp add: rtcm_scan_def)

lemma drain_rtcm_junk:
  "0xD3 \<notin> set j \<Longrightarrow> 6 \<le> length ys \<Longrightarrow>
     drain rtcm_scan (length (j @ ys)) (j @ ys) = drain rtcm_scan (length ys) ys"
proof (induction j)
  case (Cons x j)
  then have "rtcm_scan (x # j @ ys) = Some ([], 1)" by (intro rtcm_scan_junk) auto
  then have "drain rtcm_scan (length (x # j @ ys)) (x # j @ ys) = drain rtcm_scan (length (j @ ys)) (j @ ys)"
    using rtcm.drain_step [of "x # j @ ys" "[]" 1] by (simp add: case_prod_unfold)
  then show ?case using Cons by (simp del: drain.simps)
qed simp

lemma accepted_length: "validate_rtcm3_frame f = Accepted \<Longrightarrow> 6 \<le> length f"
  by (auto simp: validate_rtcm3_frame_def split: if_splits)

definition rtcm_stream :: "(octet list \<times> octet list) list \<Rightarrow> octet list" where
  "rtcm_stream parts = concat (map (\<lambda>(j, f). j @ f) parts)"

lemma drain_stream:
  "\<forall>(j, f)\<in>set parts. 0xD3 \<notin> set j \<and> validate_rtcm3_frame f = Accepted \<Longrightarrow>
     drain rtcm_scan (length (rtcm_stream parts)) (rtcm_stream parts) = (map snd parts, [])"
proof (induction parts)
  case (Cons p parts)
  obtain j f where p: "p = (j, f)" by fastforce
  define rest where "rest = rtcm_stream parts"
  have s: "rtcm_stream (p # parts) = j @ f @ rest" by (simp add: rtcm_stream_def rest_def p)
  have f: "0xD3 \<notin> set j" "validate_rtcm3_frame f = Accepted" "6 \<le> length f" using Cons.prems p accepted_length by auto
  have "drain rtcm_scan (length (rtcm_stream (p # parts))) (rtcm_stream (p # parts)) =
      drain rtcm_scan (length (f @ rest)) (f @ rest)"
    unfolding s using drain_rtcm_junk [of j "f @ rest"] f by simp
  also have "\<dots> = (let (gs, r) = drain rtcm_scan (length rest) rest in ([f] @ gs, r))"
    using rtcm.drain_step [OF rtcm_scan_frame [OF f(2), of rest]] by simp
  finally show ?case using Cons p by (simp add: rest_def)
qed (simp add: rtcm_stream_def)

subsection \<open>The CRC\<close>

lemma crc24_test: "push_bit 1 c AND 0x1000000 \<noteq> 0 \<longleftrightarrow> bit (c :: int) 23"
proof -
  have "(0x1000000 :: int) = 2 ^ 24" by simp
  then have "push_bit 1 c AND 0x1000000 \<noteq> 0 \<longleftrightarrow> bit (push_bit 1 c) 24"
    by (simp only: and_exp_eq_0_iff_not_bit not_not)
  moreover have "bit (push_bit 1 c) 24 = bit c 23" by (simp only: bit_push_bit_iff) simp
  ultimately show ?thesis by simp
qed

lemma crc24_bit_alt: "crc24_bit c = (if bit c 23 then push_bit 1 c XOR 0x1864CFB else push_bit 1 c)"
  unfolding crc24_bit_def Let_def crc24_test by simp

lemma crc24_bit_0: "bit (crc24_bit c) 0 = bit c 23"
  by (simp only: crc24_bit_alt bit_xor_iff bit_push_bit_iff split: if_split) simp

lemma crc24_bit_inj: "crc24_bit a = crc24_bit b \<Longrightarrow> a = b"
proof -
  assume e: "crc24_bit a = crc24_bit b"
  then have "bit a 23 = bit b 23" by (metis crc24_bit_0)
  then have "push_bit 1 a = push_bit 1 b"
    using e unfolding crc24_bit_alt by (metis xor.assoc xor_self_eq xor.right_neutral)
  then show "a = b" by simp
qed

lemma crc24_bits_inj: "(crc24_bit ^^ n) a = (crc24_bit ^^ n) b \<Longrightarrow> a = b"
  by (induction n) (auto dest: crc24_bit_inj)

lemma xor_cancel_int: "(a :: int) XOR c = b XOR c \<Longrightarrow> a = b"
  by (metis xor.assoc xor_self_eq xor.right_neutral)

lemma crc24_byte_inj: "crc24_byte a x = crc24_byte b x \<Longrightarrow> a = b"
  unfolding crc24_byte_def by (blast dest: crc24_bits_inj xor_cancel_int)

lemma crc24_byte_inj2: "crc24_byte a x = crc24_byte a y \<Longrightarrow> x = y"
proof -
  assume "crc24_byte a x = crc24_byte a y"
  then have "push_bit 16 (uint x) XOR a = push_bit 16 (uint y) XOR a"
    unfolding crc24_byte_def by (metis crc24_bits_inj xor.commute)
  then have "push_bit 16 (uint x) = push_bit 16 (uint y)" by (rule xor_cancel_int)
  then have "uint x = uint y" by (simp add: push_bit_eq_mult)
  then show "x = y" by (rule word_uint_eqI)
qed

text \<open>The register stays below \<open>2 ^ 24\<close>.\<close>

definition reg24 :: "int \<Rightarrow> bool" where
  "reg24 c \<longleftrightarrow> take_bit 24 c = c"

lemma reg24_iff: "reg24 c \<longleftrightarrow> (\<forall>n\<ge>24. \<not> bit c n)"
proof -
  have "reg24 c \<longleftrightarrow> (\<forall>n. bit (take_bit 24 c) n = bit c n)" unfolding reg24_def using bit_eq_iff [of "take_bit 24 c" c] by simp
  then have "reg24 c \<longleftrightarrow> (\<forall>n. (n < 24 \<and> bit c n) = bit c n)" by (simp only: bit_take_bit_iff)
  then show ?thesis by (meson not_less)
qed

lemma poly_take: "take_bit 25 (0x1864CFB :: int) = 0x1864CFB"
  unfolding take_bit_eq_mod by simp

lemma poly_top: "bit (0x1864CFB :: int) 24"
  unfolding bit_iff_odd by simp

lemma poly_bits: assumes "24 < n" shows "\<not> bit (0x1864CFB :: int) n"
proof
  assume "bit (0x1864CFB :: int) n"
  then have "bit (take_bit 25 (0x1864CFB :: int)) n" unfolding poly_take .
  then have "n < 25" unfolding bit_take_bit_iff by (rule conjunct1)
  then show False using assms by linarith
qed

lemma reg24_bit: "reg24 c \<Longrightarrow> reg24 (crc24_bit c)"
proof -
  assume c: "reg24 c"
  show "reg24 (crc24_bit c)"
    unfolding reg24_iff
  proof (intro allI impI)
    fix n :: nat assume n: "24 \<le> n"
    have s: "bit (push_bit 1 c) n = bit c (n - 1)" using n by (simp only: bit_push_bit_iff) simp
    show "\<not> bit (crc24_bit c) n"
    proof (cases "n = 24")
      case True
      then show ?thesis using s poly_top by (simp add: crc24_bit_alt bit_xor_iff del: push_bit_of_1 push_bit_Suc)
    next
      case False
      then have "\<not> bit c (n - 1)" "\<not> bit (0x1864CFB :: int) n" using n c poly_bits by (auto simp: reg24_iff)
      then show ?thesis using s by (simp add: crc24_bit_alt bit_xor_iff)
    qed
  qed
qed

lemma reg24_byte: "reg24 c \<Longrightarrow> reg24 (crc24_byte c b)"
proof -
  assume c: "reg24 c"
  have "\<not> bit (uint b) n" if "8 \<le> n" for n
    using that bit_imp_le_length [of b n] by (auto simp: bit_uint_iff)
  then have "reg24 (push_bit 16 (uint b))" by (auto simp: reg24_iff bit_push_bit_iff)
  then have "reg24 (c XOR push_bit 16 (uint b))" using c by (simp only: reg24_iff bit_xor_iff) auto
  moreover have "reg24 x \<Longrightarrow> reg24 ((crc24_bit ^^ n) x)" for n x by (induction n) (simp_all add: reg24_bit)
  ultimately show ?thesis by (simp only: crc24_byte_def)
qed

lemma reg24_fold: "reg24 c \<Longrightarrow> reg24 (foldl crc24_byte c bs)"
  by (rule foldl_inv) (simp_all add: reg24_byte)

lemma crc24q_fold: "crc24q bs = foldl crc24_byte 0 bs"
proof -
  have "reg24 (foldl crc24_byte 0 bs)" by (rule reg24_fold) (simp add: reg24_def)
  moreover have "(0xFFFFFF :: int) = mask 24" by (simp add: mask_eq_exp_minus_1)
  ultimately show ?thesis unfolding crc24q_def reg24_def by (metis take_bit_eq_mask)
qed

lemma fold_byte_inj: "foldl crc24_byte a bs = foldl crc24_byte b bs \<Longrightarrow> a = b"
  by (induction bs arbitrary: a b) (auto dest: crc24_byte_inj)

lemma crc24q_update:
  assumes "i < length bs" "x \<noteq> bs ! i"
  shows "crc24q (bs[i := x]) \<noteq> crc24q bs"
proof
  assume "crc24q (bs[i := x]) = crc24q bs"
  then have "foldl crc24_byte 0 (take i bs @ x # drop (Suc i) bs) = foldl crc24_byte 0 (take i bs @ bs ! i # drop (Suc i) bs)"
    using assms(1) by (simp add: crc24q_fold id_take_nth_drop [symmetric] upd_conv_take_nth_drop)
  then have "crc24_byte (foldl crc24_byte 0 (take i bs)) x = crc24_byte (foldl crc24_byte 0 (take i bs)) (bs ! i)"
    by (simp only: foldl_append foldl_Cons) (rule fold_byte_inj)
  then show False using crc24_byte_inj2 assms(2) by blast
qed

subsection \<open>Corruption of a frame\<close>

lemma big_endian_inj: "length xs = length ys \<Longrightarrow> from_big_endian xs = from_big_endian ys \<Longrightarrow> xs = ys"
proof (induction xs arbitrary: ys rule: rev_induct)
  case (snoc x xs)
  obtain zs z where y: "ys = zs @ [z]" "length xs = length zs" using snoc.prems(1) by (cases ys rule: rev_exhaust) auto
  define a b where "a = from_big_endian xs" "b = from_big_endian zs"
  have e: "a * 256 + uint x = b * 256 + uint z" using snoc.prems(2) y by (simp add: from_big_endian_def a_b_def)
  have u: "0 \<le> uint x" "uint x < 256" "0 \<le> uint z" "uint z < 256"
    using uint_lt2p [of x] uint_lt2p [of z] by simp_all
  then have "a = b" using e by linarith
  then have "uint x = uint z" using e by linarith
  then show ?case using snoc.IH [OF y(2)] y \<open>a = b\<close> by (simp add: a_b_def word_uint_eqI)
qed simp

lemma corrupt_crc_mismatch:
  assumes "6 \<le> length f" "i < length f" "x \<noteq> f ! i"
    "crc24q (take (length f - 3) f) = from_big_endian (drop (length f - 3) f)"
  shows "crc24q (take (length f - 3) (f[i := x])) \<noteq> from_big_endian (drop (length f - 3) (f[i := x]))"
proof (cases "i < length f - 3")
  case True
  then show ?thesis using crc24q_update [of i "take (length f - 3) f" x] assms
    by (simp add: take_update_swap)
next
  case False
  let ?t = "drop (length f - 3) f"
  have "drop (length f - 3) (f[i := x]) = ?t[i - (length f - 3) := x]" using False by (simp add: drop_update_swap)
  moreover have "?t[i - (length f - 3) := x] \<noteq> ?t"
  proof
    assume "?t[i - (length f - 3) := x] = ?t"
    then have "?t[i - (length f - 3) := x] ! (i - (length f - 3)) = f ! i" using False assms(2) by simp
    then show False using False assms by simp
  qed
  ultimately have "from_big_endian (drop (length f - 3) (f[i := x])) \<noteq> from_big_endian ?t"
    using big_endian_inj [of "?t[i - (length f - 3) := x]" ?t] by auto
  then show ?thesis using False assms(4) by simp
qed

subsection \<open>Lemmas on the delivery\<close>

lemma delivered_message:
  "on_rtcm a i = (b, ms) \<Longrightarrow> m \<in> set ms \<Longrightarrow> m = fst i \<and>
     dd_accepted (evaluate_rtcm_delivery m (ad_source a) (ad_sequence a)) \<and> ad_enabled a"
  by (auto simp: on_rtcm_def Let_def split: prod.splits if_splits)

lemma on_rtcm_enabled: "ad_enabled (fst (on_rtcm a i)) = ad_enabled a"
  by (auto simp: on_rtcm_def Let_def split: prod.splits)

lemma accepted_delivery:
  "dd_accepted (evaluate_rtcm_delivery m s k) \<longleftrightarrow>
     validate_rtcm3_frame (rm_data m) = Accepted \<and> length (rm_data m) \<le> 720 \<and> py_strip (rm_source m) \<noteq> [] \<and>
     0 \<le> rm_sequence m \<and> (s = Some (rm_source m) \<longrightarrow> (case k of None \<Rightarrow> True | Some p \<Rightarrow> p < rm_sequence m))"
  by (auto simp: evaluate_rtcm_delivery_def Let_def sequence_transition_def split: option.splits)

lemma processed_state:
  assumes "validate_rtcm3_frame (rm_data m) = Accepted" "length (rm_data m) \<le> 720" "py_strip (rm_source m) \<noteq> []"
    "0 \<le> rm_sequence m"
  shows "ad_source (fst (on_rtcm a (m, t))) = Some (rm_source m) \<and>
    ad_sequence (fst (on_rtcm a (m, t))) = Some (rm_sequence m)"
  using assms by (cases t; cases "ad_sequence a")
    (auto simp: on_rtcm_def evaluate_rtcm_delivery_def sequence_transition_def Let_def)

lemma corrupt_state:
  "list_all (\<lambda>(m, _). validate_rtcm3_frame (rm_data m) \<noteq> Accepted) corrupt \<Longrightarrow>
     run on_rtcm a corrupt = (a, [])"
  by (induction corrupt) (auto simp: on_rtcm_def evaluate_rtcm_delivery_def Let_def)

lemma repeat_rejected:
  "ad_source a = Some (rm_source m) \<Longrightarrow> ad_sequence a = Some (rm_sequence m) \<Longrightarrow> snd (on_rtcm a (m, t)) = []"
  using accepted_delivery [of m "ad_source a" "ad_sequence a"] by (cases t) (auto simp: on_rtcm_def Let_def)

lemma published_run:
  "run on_rtcm a inputs = (b, ms) \<Longrightarrow> m \<in> set ms \<Longrightarrow>
     m \<in> fst ` set inputs \<and> (\<exists>s k. dd_accepted (evaluate_rtcm_delivery m s k))"
proof (induction inputs arbitrary: a ms)
  case (Cons i inputs)
  obtain a1 ms1 where st: "on_rtcm a i = (a1, ms1)" by fastforce
  obtain ms2 where r: "run on_rtcm a1 inputs = (b, ms2)" "ms = ms1 @ ms2"
    using Cons.prems(1) st by (auto simp: Let_def split: prod.splits)
  show ?case
  proof (cases "m \<in> set ms1")
    case True
    then show ?thesis using delivered_message [OF st] by fastforce
  next
    case False
    then show ?thesis using Cons.IH [OF r(1)] Cons.prems(2) r(2) by auto
  qed
qed simp

subsection \<open>Properties\<close>

text \<open>
  The RTCM decoder delivers every valid frame: when a stream is made of valid frames, each after any
  bytes other than the preamble byte, then whatever the pieces it arrives in, the frames delivered are
  those frames, in order, and nothing stays in the buffer.
\<close>

lemma rtcm_frames_delivered:
  assumes "\<forall>(j, f)\<in>set parts. 0xD3 \<notin> set j \<and> validate_rtcm3_frame f = Accepted"
    "concat chunks = rtcm_stream parts"
  shows "snd (run rtcm_feed new_rtcm_decoder chunks) = map snd parts \<and>
    dec_buffer (fst (run rtcm_feed new_rtcm_decoder chunks)) = []"
proof -
  obtain d frames where r: "run rtcm_feed new_rtcm_decoder chunks = (d, frames)" by fastforce
  have "(frames, dec_buffer d) = drain_chunks rtcm_scan [] chunks"
    using rtcm_run_drain [OF r] by (simp add: new_rtcm_decoder_def)
  also have "\<dots> = (map snd parts, [])"
    using rtcm.drain_chunks_concat [OF rtcm.sc_Nil, of chunks] drain_stream [OF assms(1)] assms(2) by simp
  finally show ?thesis using r by simp
qed

text \<open>
  A frame with one changed byte is rejected, whichever byte it is: the CRC-24Q step is injective in
  the byte and in the register, and the register never loses a bit.
\<close>

lemma rtcm_corruption_rejected:
  assumes "validate_rtcm3_frame f = Accepted" "i < length f" "x \<noteq> f ! i"
  shows "validate_rtcm3_frame (f[i := x]) \<noteq> Accepted"
proof -
  have "6 \<le> length f" "crc24q (take (length f - 3) f) = from_big_endian (drop (length f - 3) f)"
    using assms(1) unfolding validate_rtcm3_frame_def by (simp_all split: if_splits)
  from corrupt_crc_mismatch [OF this(1) assms(2,3) this(2)] show ?thesis
    unfolding validate_rtcm3_frame_def length_list_update by (simp only: if_True if_False frame_verdict.distinct
      not_False_eq_True simp_thms split: if_split)
qed

text \<open>
  What reaches the receiver: every frame the adapter publishes passes the frame validation, is at
  most 720 bytes, names a source and carries a nonnegative sequence number; and once a message has
  been processed and accepted, repeating it is rejected, however many corrupt frames come in between.
\<close>

lemma published_frames_sound:
  assumes "run on_rtcm a inputs = (b, ms)" "m \<in> set ms"
  shows "validate_rtcm3_frame (rm_data m) = Accepted \<and> length (rm_data m) \<le> 720 \<and>
    py_strip (rm_source m) \<noteq> [] \<and> 0 \<le> rm_sequence m \<and> m \<in> fst ` set inputs \<and>
    (\<forall>c t1 t2 corrupt. list_all (\<lambda>(m2, _). validate_rtcm3_frame (rm_data m2) \<noteq> Accepted) corrupt \<longrightarrow>
       snd (run on_rtcm (fst (on_rtcm c (m, t1))) (corrupt @ [(m, t2)])) = [])"
proof -
  obtain s k where a: "dd_accepted (evaluate_rtcm_delivery m s k)" and i: "m \<in> fst ` set inputs"
    using published_run [OF assms] by blast
  note m = a [unfolded accepted_delivery]
  have "snd (run on_rtcm (fst (on_rtcm c (m, t1))) (corrupt @ [(m, t2)])) = []"
    if "list_all (\<lambda>(m2, _). validate_rtcm3_frame (rm_data m2) \<noteq> Accepted) corrupt" for c t1 t2 corrupt
    using repeat_rejected [of "fst (on_rtcm c (m, t1))" m t2] processed_state [of m c t1] m
    by (simp add: run_append corrupt_state [OF that] case_prod_unfold)
  then show ?thesis using m i by blast
qed

subsection \<open>Witnesses\<close>

definition sample_rtcm :: "octet list" where
  "sample_rtcm = [0xD3, 0, 0, 0x47, 0xEA, 0x4B]"

lemma sample_rtcm_valid: "validate_rtcm3_frame sample_rtcm = Accepted"
  by code_simp

lemma rtcm_frames_delivered_witness:
  "snd (run rtcm_feed new_rtcm_decoder [[1, 0xD3, 0], [0, 0x47], [0xEA, 0x4B]]) = [sample_rtcm]"
proof -
  have "concat [[1, 0xD3, 0], [0, 0x47], [0xEA, 0x4B]] = rtcm_stream [([1], sample_rtcm)]"
    by (simp add: rtcm_stream_def sample_rtcm_def)
  from rtcm_frames_delivered [OF _ this] show ?thesis by (simp add: sample_rtcm_valid)
qed

lemma rtcm_corruption_rejected_witness: "validate_rtcm3_frame (sample_rtcm[3 := 0x46]) \<noteq> Accepted"
  by (rule rtcm_corruption_rejected [OF sample_rtcm_valid]) (simp_all add: sample_rtcm_def)

definition sample_message :: rtcm_message where
  "sample_message = \<lparr> rm_data = sample_rtcm, rm_source = ''base'', rm_sequence = 4 \<rparr>"

definition sample_adapter :: adapter where
  "sample_adapter = \<lparr> ad_enabled = True, ad_source = None, ad_sequence = None, ad_delivered_ns = None, ad_error = False \<rparr>"

lemma sample_delivery:
  "run on_rtcm sample_adapter [(sample_message, True, 1)] =
     (sample_adapter \<lparr> ad_source := Some ''base'', ad_sequence := Some 4, ad_delivered_ns := Some 1 \<rparr>, [sample_message])"
proof -
  have "py_strip ''base'' \<noteq> []" by code_simp
  then show ?thesis
    by (simp add: on_rtcm_def evaluate_rtcm_delivery_def sample_message_def sample_adapter_def sample_rtcm_valid
      sequence_transition_def) (simp add: sample_rtcm_def)
qed

lemma published_frames_sound_witness:
  "snd (run on_rtcm (fst (on_rtcm sample_adapter (sample_message, True, 1))) [(sample_message, True, 2)]) = []"
  using published_frames_sound [OF sample_delivery, of sample_message] by (fastforce dest: spec [of _ "[]"])

end
