(* ===== verification/Byte_Text.thy ===== *)
theory Byte_Text
  imports Rtk
begin

section \<open>Numbers and lines in received bytes\<close>

text \<open>
  What the adapters of \<open>salus_hardware\<close> use of Python to read text in bytes: \<open>bytes.strip\<close>,
  \<open>bytes.find\<close>, \<open>int(b, 16)\<close> with the signs, prefix and underscores it accepts, and
  \<open>bytes.fromhex\<close>, which skips white space between bytes; with the writers they invert.
\<close>

definition byte_space :: "octet \<Rightarrow> bool" where
  "byte_space b = (9 \<le> uint b \<and> uint b \<le> 13 \<or> uint b = 32)"

definition byte_strip :: "octet list \<Rightarrow> octet list" where
  "byte_strip s = rev (dropWhile byte_space (rev (dropWhile byte_space s)))"

definition hex_value :: "octet \<Rightarrow> int option" where
  "hex_value b = (let n = uint b in
     if 48 \<le> n \<and> n \<le> 57 then Some (n - 48)
     else if 65 \<le> n \<and> n \<le> 70 then Some (n - 55)
     else if 97 \<le> n \<and> n \<le> 102 then Some (n - 87) else None)"

text \<open>Digits with single underscores between them; the flag says that the last byte was one.\<close>

fun hex_run :: "int \<Rightarrow> bool \<Rightarrow> octet list \<Rightarrow> int option" where
  "hex_run acc bar [] = (if bar then None else Some acc)"
| "hex_run acc bar (b # bs) =
     (if b = 95 then (if bar then None else hex_run acc True bs)
      else case hex_value b of None \<Rightarrow> None | Some v \<Rightarrow> hex_run (16 * acc + v) False bs)"

definition drop_hex_prefix :: "octet list \<Rightarrow> octet list" where
  "drop_hex_prefix u =
     (case u of a # x # w \<Rightarrow>
          if a = 48 \<and> (x = 120 \<or> x = 88) then (case w of b # w2 \<Rightarrow> if b = 95 then w2 else w | [] \<Rightarrow> w) else u
      | _ \<Rightarrow> u)"

definition int_base16 :: "octet list \<Rightarrow> int option" where
  "int_base16 s =
     (let t = byte_strip s;
          negative = (t \<noteq> [] \<and> hd t = 45);
          u = (if t \<noteq> [] \<and> (hd t = 43 \<or> hd t = 45) then tl t else t);
          v = drop_hex_prefix u
      in if v = [] \<or> hd v = 95 then None
         else map_option (\<lambda>n. if negative then - n else n) (hex_run 0 False v))"

fun from_hex :: "octet list \<Rightarrow> octet list option" where
  "from_hex [] = Some []"
| "from_hex [a] = (if byte_space a then Some [] else None)"
| "from_hex (a # b # cs) =
     (if byte_space a then from_hex (b # cs)
      else case hex_value a of None \<Rightarrow> None
      | Some x \<Rightarrow> (case hex_value b of None \<Rightarrow> None
          | Some y \<Rightarrow> map_option ((#) (word_of_int (16 * x + y))) (from_hex cs)))"

text \<open>The position of the first occurrence of a sequence, as \<open>bytes.find\<close> gives it.\<close>

fun find_bytes :: "'b list \<Rightarrow> 'b list \<Rightarrow> nat option" where
  "find_bytes pat [] = (if pat = [] then Some 0 else None)"
| "find_bytes pat (x # xs) =
     (if take (length pat) (x # xs) = pat then Some 0 else map_option Suc (find_bytes pat xs))"

text \<open>Text as bytes, for the constants of the protocols.\<close>

definition bytes_of :: "string \<Rightarrow> octet list" where
  "bytes_of s = map (\<lambda>c. of_nat (of_char c)) s"

subsection \<open>Writers\<close>

definition hex_char :: "nat \<Rightarrow> octet" where
  "hex_char n = (if n < 10 then of_nat (48 + n) else of_nat (55 + n))"

definition hex_byte :: "octet \<Rightarrow> octet list" where
  "hex_byte b = [hex_char (unat b div 16), hex_char (unat b mod 16)]"

definition to_hex :: "octet list \<Rightarrow> octet list" where
  "to_hex bs = concat (map hex_byte bs)"

definition hex4 :: "nat \<Rightarrow> octet list" where
  "hex4 n = map hex_char [n div 4096 mod 16, n div 256 mod 16, n div 16 mod 16, n mod 16]"

lemma hex_char_read:
  assumes "n < 16"
  shows "hex_value (hex_char n) = Some (int n) \<and> \<not> byte_space (hex_char n) \<and>
     hex_char n \<notin> {43, 45, 95, 88, 120} \<and> uint (hex_char n) < 128"
proof -
  have "list_all (\<lambda>k. hex_value (hex_char k) = Some (int k) \<and> \<not> byte_space (hex_char k) \<and>
      hex_char k \<notin> {43, 45, 95, 88, 120} \<and> uint (hex_char k) < 128) [0..<16]"
    by (simp add: upt_rec [of _ "16 :: nat"] hex_value_def hex_char_def byte_space_def)
  then show ?thesis using assms by (simp add: list_all_iff)
qed

lemma hex_char_simps [simp]:
  "n < 16 \<Longrightarrow> hex_value (hex_char n) = Some (int n)"
  "n < 16 \<Longrightarrow> \<not> byte_space (hex_char n)"
  "n < 16 \<Longrightarrow> hex_char n \<noteq> 43" "n < 16 \<Longrightarrow> hex_char n \<noteq> 45" "n < 16 \<Longrightarrow> hex_char n \<noteq> 95"
  "n < 16 \<Longrightarrow> hex_char n \<noteq> 88" "n < 16 \<Longrightarrow> hex_char n \<noteq> 120"
  using hex_char_read by auto

lemma from_hex_to_hex [simp]: "from_hex (to_hex bs) = Some bs"
proof (induction bs)
  case (Cons b bs)
  have u: "unat b < 256" using unsigned_less [of b, where ?'a = nat] by simp
  then have n: "unat b div 16 < 16" "unat b mod 16 < 16" by auto
  have "int (unat b) = uint b" by simp
  then have "16 * int (unat b div 16) + int (unat b mod 16) = uint b" by presburger
  then have "(word_of_int (16 * int (unat b div 16) + int (unat b mod 16)) :: octet) = b" by simp
  then show ?case using Cons n by (simp add: to_hex_def hex_byte_def)
qed (simp add: to_hex_def)

lemma length_to_hex [simp]: "length (to_hex bs) = 2 * length bs"
  by (induction bs) (simp_all add: to_hex_def hex_byte_def)

lemma dropWhile_hd: "s \<noteq> [] \<Longrightarrow> \<not> P (hd s) \<Longrightarrow> dropWhile P s = s"
  by (cases s) simp_all

lemma byte_strip_id: "s \<noteq> [] \<Longrightarrow> \<not> byte_space (hd s) \<Longrightarrow> \<not> byte_space (last s) \<Longrightarrow> byte_strip s = s"
  unfolding byte_strip_def by (simp add: dropWhile_hd hd_rev)

lemma hex_run_digits:
  "\<forall>d\<in>set ds. d < 16 \<Longrightarrow> hex_run acc False (map hex_char ds) = Some (foldl (\<lambda>n d. 16 * n + int d) acc ds)"
  by (induction ds arbitrary: acc) auto

lemma int_base16_digits:
  assumes "ds \<noteq> []" "\<forall>d\<in>set ds. d < 16"
  shows "int_base16 (map hex_char ds) = Some (foldl (\<lambda>n d. 16 * n + int d) 0 ds)"
proof -
  obtain d es where ds: "ds = d # es" using assms(1) by (cases ds) auto
  have d: "d < 16" using assms ds by simp
  have "last ds \<in> set ds" using assms(1) by simp
  then have l: "last ds < 16" using assms(2) by blast
  have s: "byte_strip (map hex_char ds) = map hex_char ds"
    using d l assms(1) by (intro byte_strip_id) (auto simp: ds last_map)
  have p: "drop_hex_prefix (map hex_char ds) = map hex_char ds"
    using assms(2) by (cases es) (auto simp: drop_hex_prefix_def ds)
  have h: "hex_char d \<noteq> 43" "hex_char d \<noteq> 45" "hex_char d \<noteq> 95" using d by simp_all
  have q: "drop_hex_prefix (hex_char d # map hex_char es) = hex_char d # map hex_char es"
    using p by (simp add: ds)
  show ?thesis using s h q hex_run_digits [OF assms(2), of 0]
    by (simp add: int_base16_def Let_def ds option.map_ident del: hex_run.simps)
qed

lemma four_digits:
  "d + 16 * b = n \<Longrightarrow> c + 16 * e = b \<Longrightarrow> f + 16 * g = e \<Longrightarrow> h = g \<Longrightarrow> 16 * (16 * (16 * h + f) + c) + d = (n::nat)"
  by simp

lemma int_base16_hex4: "n < 65536 \<Longrightarrow> int_base16 (hex4 n) = Some (int n)"
proof -
  assume n: "n < 65536"
  have "int_base16 (hex4 n) = Some (foldl (\<lambda>n d. 16 * n + int d) 0 [n div 4096 mod 16, n div 256 mod 16, n div 16 mod 16, n mod 16])"
    unfolding hex4_def by (rule int_base16_digits) auto
  also have "foldl (\<lambda>n d. 16 * n + int d) 0 [n div 4096 mod 16, n div 256 mod 16, n div 16 mod 16, n mod 16]
      = 16 * (16 * (16 * int (n div 4096 mod 16) + int (n div 256 mod 16)) + int (n div 16 mod 16)) + int (n mod 16)"
    by simp
  also have "\<dots> = int n"
  proof -
    have "n mod 16 + 16 * (n div 16) = n" "n div 16 mod 16 + 16 * (n div 256) = n div 16"
      "n div 256 mod 16 + 16 * (n div 4096) = n div 256" "n div 4096 mod 16 = n div 4096"
      using n mod_mult_div_eq [of "n div 16" 16] mod_mult_div_eq [of "n div 256" 16] by (auto simp: div_mult2_eq [symmetric])
    then have "16 * (16 * (16 * (n div 4096 mod 16) + n div 256 mod 16) + n div 16 mod 16) + n mod 16 = n" by (rule four_digits)
    from arg_cong [OF this, of int] show ?thesis by (simp only: of_nat_add of_nat_mult of_nat_numeral)
  qed
  finally show ?thesis .
qed

lemma find_bytes_bound: "find_bytes pat xs = Some n \<Longrightarrow> n + length pat \<le> length xs \<and> take (length pat) (drop n xs) = pat"
proof (induction xs arbitrary: n)
  case (Cons x xs)
  show ?case
  proof (cases "take (length pat) (x # xs) = pat")
    case True
    then have "length pat \<le> length (x # xs)" by (metis length_take min.cobounded1)
    then show ?thesis using True Cons.prems by simp
  next
    case False
    then obtain m where "find_bytes pat xs = Some m" "n = Suc m" using Cons.prems by auto
    then show ?thesis using Cons.IH by simp
  qed
qed (auto split: if_splits)

lemma find_bytes_append:
  "find_bytes pat xs = Some n \<Longrightarrow> find_bytes pat (xs @ ys) = Some n"
proof (induction xs arbitrary: n)
  case Nil
  then show ?case by (cases ys) (auto split: if_splits)
next
  case (Cons x xs)
  show ?case
  proof (cases "take (length pat) (x # xs) = pat")
    case True
    then have "length pat \<le> length (x # xs)" by (metis length_take min.cobounded1)
    then have "take (length pat) ((x # xs) @ ys) = take (length pat) (x # xs)" by (simp only: take_append) simp
    then show ?thesis using True Cons.prems by simp
  next
    case False
    then obtain m where m: "find_bytes pat xs = Some m" "n = Suc m" using Cons.prems by auto
    then have b: "take (length pat) (drop (Suc m) (x # xs)) = pat \<and> Suc m + length pat \<le> length (x # xs)" using find_bytes_bound by auto
    then have "take (length pat) ((x # xs) @ ys) = take (length pat) (x # xs)" by (simp only: take_append) simp
    then show ?thesis using False Cons.IH [OF m(1)] m(2) by simp
  qed
qed

end
