(* ===== verification/Pylontech.thy ===== *)
theory Pylontech
  imports Byte_Text
begin

unbundle bit_operations_syntax

section \<open>The Pylontech battery adapter\<close>

text \<open>
  \<open>salus_hardware/pylontech_protocol.py\<close>, \<open>battery_domain.py\<close>, \<open>battery_backends.py\<close> and
  \<open>battery_node.py\<close>: the read request and the reply of the RS485 protocol, the backend that reopens
  its port after a failure, and the node that publishes what was read. The serial port is a
  parameter: the outcome of each of its calls is an input of a poll.
\<close>

subsection \<open>Requests\<close>

definition byte_sum :: "octet list \<Rightarrow> int" where
  "byte_sum bs = sum_list (map uint bs)"

definition body_checksum :: "octet list \<Rightarrow> int" where
  "body_checksum body = (- byte_sum body) AND 65535"

definition read_request :: "int \<Rightarrow> octet list option" where
  "read_request address =
     (if address < 0 \<or> 255 < address then None
      else (let body = bytes_of ''20'' @ hex_byte (word_of_int address) @ bytes_of ''4642E002FF''
            in Some (0x7E # body @ hex4 (nat (body_checksum body)) @ [13])))"

subsection \<open>Replies\<close>

datatype reply_error =
    BadDelimiters | BadNumber | ChecksumMismatch | BadHex | ForeignReply | BadLength | BadLengthChecksum
  | MultiModule | CellCount | TemperatureCount | CapacityFields | ExtraPayload
  | BadCapacity | BadVoltage | BadTemperature | MalformedReply

record module_status =
  ms_cells :: "int list"
  ms_temperatures :: "int list"
  ms_current :: int
  ms_voltage :: int
  ms_charge :: int
  ms_capacity :: int
  ms_cycles :: int

record battery_sample =
  pack_voltage :: pyfloat
  pack_current :: pyfloat
  pack_charge :: pyfloat
  pack_capacity :: pyfloat
  cell_voltages :: "pyfloat list"
  grouped_temperatures :: "pyfloat list"
  pack_temperature :: pyfloat
  pack_cycles :: int

definition sample_percentage :: "battery_sample \<Rightarrow> pyfloat option" where
  "sample_percentage s = fdiv (pack_charge s) (pack_capacity s)"

definition ascii :: "octet list \<Rightarrow> bool" where
  "ascii bs = list_all (\<lambda>b. uint b < 128) bs"

definition hex_text :: "octet list \<Rightarrow> (reply_error, octet list) result" where
  "hex_text bs = (if \<not> ascii bs then Inl MalformedReply else of_option BadHex (from_hex bs))"

definition open_reply :: "octet list \<Rightarrow> octet \<Rightarrow> (reply_error, octet list) result" where
  "open_reply frame address =
     (if length frame < 18 \<or> hd frame \<noteq> 0x7E \<or> last frame \<noteq> 13 then Inl BadDelimiters
      else let body = take (length frame - 6) (drop 1 frame);
               field = take 4 (drop (length frame - 5) frame) in
        bind_res (of_option BadNumber (int_base16 field)) (\<lambda>checksum.
        if checksum \<noteq> body_checksum body then Inl ChecksumMismatch else
        bind_res (hex_text (take 8 body)) (\<lambda>header.
        if header \<noteq> [0x20, address, 0x46, 0] then Inl ForeignReply else
        bind_res (of_option BadNumber (int_base16 (take 4 (drop 8 body)))) (\<lambda>len.
        let n = len AND 4095 in
        if n \<noteq> int (length (drop 12 body)) \<or> n mod 2 \<noteq> 0 then Inl BadLength
        else if (drop_bit 0 n AND 15) + (drop_bit 4 n AND 15) + (drop_bit 8 n AND 15) + drop_bit 12 len AND 15 \<noteq> 0
        then Inl BadLengthChecksum
        else hex_text (drop 12 body)))))"

definition byte_at :: "octet list \<Rightarrow> nat \<Rightarrow> (reply_error, int) result" where
  "byte_at d p = (if p < length d then Inr (uint (d ! p)) else Inl MalformedReply)"

definition slice :: "nat \<Rightarrow> nat \<Rightarrow> 'a list \<Rightarrow> 'a list" where
  "slice p n d = take n (drop p d)"

definition unpack_words :: "nat \<Rightarrow> nat \<Rightarrow> octet list \<Rightarrow> (reply_error, int list) result" where
  "unpack_words n p d =
     (if length d < p + 2 * n then Inl MalformedReply
      else Inr (map (\<lambda>i. from_big_endian (slice (p + 2 * i) 2 d)) [0..<n]))"

definition signed16 :: "int \<Rightarrow> int" where
  "signed16 w = (if 32768 \<le> w then w - 65536 else w)"

definition parse_status :: "octet list \<Rightarrow> (reply_error, module_status) result" where
  "parse_status d =
     bind_res (byte_at d 1) (\<lambda>modules. if modules \<noteq> 1 then Inl MultiModule else
     bind_res (byte_at d 2) (\<lambda>count. if count \<noteq> 15 then Inl CellCount else
     bind_res (unpack_words 15 3 d) (\<lambda>cells.
     bind_res (byte_at d 33) (\<lambda>nt. if \<not> (1 \<le> nt \<and> nt \<le> 16) then Inl TemperatureCount else
     bind_res (unpack_words (nat nt) 34 d) (\<lambda>temps. let p = 34 + 2 * nat nt in
     bind_res (unpack_words 3 p d) (\<lambda>electric.
     bind_res (byte_at d (p + 6)) (\<lambda>items.
     bind_res (unpack_words 2 (p + 7) d) (\<lambda>counts.
     if items \<noteq> 2 \<and> items \<noteq> 4 then Inl CapacityFields else
     let (charge, capacity, q) =
           (if items = 4
            then (from_big_endian (slice (p + 11) 3 d), from_big_endian (slice (p + 14) 3 d), p + 17)
            else (electric ! 2, counts ! 0, p + 11)) in
     if q \<noteq> length d then Inl ExtraPayload
     else Inr \<lparr> ms_cells = cells, ms_temperatures = temps, ms_current = signed16 (electric ! 0),
        ms_voltage = electric ! 1, ms_charge = charge, ms_capacity = capacity, ms_cycles = counts ! 1 \<rparr>))))))))"

text \<open>Dividing two small Python ints is the correctly rounded quotient.\<close>

definition ratio :: "int \<Rightarrow> int \<Rightarrow> pyfloat" where
  "ratio a b = fl (of_int a / of_int b)"

definition sample_of :: "module_status \<Rightarrow> (reply_error, battery_sample) result" where
  "sample_of m =
     (let temperatures = map (\<lambda>t. ratio (t - 2731) 10) (ms_temperatures m) in
      if ms_capacity m = 0 \<or> \<not> (0 \<le> ms_charge m \<and> ms_charge m \<le> ms_capacity m) then Inl BadCapacity
      else if \<not> (20000 \<le> ms_voltage m \<and> ms_voltage m \<le> 65000) \<or>
        list_ex (\<lambda>c. \<not> (1000 \<le> c \<and> c \<le> 5000)) (ms_cells m) then Inl BadVoltage
      else if list_ex (\<lambda>t. \<not> (fle (Fin (- 50)) t \<and> fle t (Fin 120))) temperatures then Inl BadTemperature
      else Inr \<lparr> pack_voltage = ratio (ms_voltage m) 1000, pack_current = ratio (ms_current m) 10,
        pack_charge = ratio (ms_charge m) 1000, pack_capacity = ratio (ms_capacity m) 1000,
        cell_voltages = map (\<lambda>c. ratio c 1000) (ms_cells m), grouped_temperatures = tl temperatures,
        pack_temperature = hd temperatures, pack_cycles = ms_cycles m \<rparr>)"

definition decode_reply :: "octet list \<Rightarrow> octet \<Rightarrow> (reply_error, battery_sample) result" where
  "decode_reply frame address =
     bind_res (open_reply frame address) (\<lambda>d. bind_res (parse_status d) sample_of)"

subsection \<open>The backend\<close>

text \<open>What the serial port did during one read; opening it is only tried when it is closed (on an open port, a failure to open stands for
one of the next call), and closing it after a failure may fail in its turn. An exception of the port is of a class the poll catches, an
\<open>OSError\<close> (\<open>SerialException\<close> is one) or a \<open>ValueError\<close>, or of another: \<open>termios.error\<close>, which
\<open>reset_input_buffer\<close> of pyserial lets through, is neither.\<close>

datatype port_exception = OsError | ValueError | OtherError

datatype port_io = OpenFailed port_exception | ResetFailed port_exception | WriteFailed port_exception | ReadFailed port_exception
  | Replied "octet list"

datatype read_error = PortError port_exception | ReplyError reply_error

definition backend_ok :: "string \<Rightarrow> int \<Rightarrow> int \<Rightarrow> pyfloat \<Rightarrow> bool" where
  "backend_ok port baud address timeout =
     (port \<noteq> '''' \<and> port \<noteq> ''auto'' \<and> (baud = 9600 \<or> baud = 115200) \<and>
      flt fzero timeout \<and> fle timeout (Fin 2) \<and> read_request address \<noteq> None)"

text \<open>\<open>except Exception\<close>: the port is closed, and the exception of the closing takes the place of the first one.\<close>

definition backend_failed :: "port_exception option \<Rightarrow> read_error \<Rightarrow> read_error" where
  "backend_failed closing e = (case closing of None \<Rightarrow> e | Some x \<Rightarrow> PortError x)"

definition backend_read ::
    "int \<Rightarrow> bool \<Rightarrow> port_io \<Rightarrow> port_exception option \<Rightarrow> bool \<times> octet list list \<times> (read_error, battery_sample) result" where
  "backend_read address opened io closing =
     (let request = the (read_request address) in
      case io of
        OpenFailed x \<Rightarrow> (False, [], Inl (if opened then backend_failed closing (PortError x) else PortError x))
      | ResetFailed x \<Rightarrow> (False, [], Inl (backend_failed closing (PortError x)))
      | WriteFailed x \<Rightarrow> (False, [request], Inl (backend_failed closing (PortError x)))
      | ReadFailed x \<Rightarrow> (False, [request], Inl (backend_failed closing (PortError x)))
      | Replied frame \<Rightarrow>
          (case decode_reply frame (word_of_int address) of
             Inr s \<Rightarrow> (True, [request], Inr s)
           | Inl e \<Rightarrow> (False, [request], Inl (backend_failed closing (ReplyError e)))))"

subsection \<open>The node\<close>

datatype supply_status = Charging | Discharging | NotCharging

text \<open>The fields of the message as a subscriber reads them: 32-bit floats.\<close>

record battery_state_msg =
  bm_voltage :: pyfloat
  bm_current :: pyfloat
  bm_charge :: pyfloat
  bm_capacity :: pyfloat
  bm_design_capacity :: pyfloat
  bm_percentage :: pyfloat
  bm_temperature :: pyfloat
  bm_cell_voltage :: "pyfloat list"
  bm_cell_temperature :: "pyfloat list"
  bm_status :: supply_status

definition battery_message :: "battery_sample \<Rightarrow> battery_state_msg option" where
  "battery_message s =
     map_option (\<lambda>percentage. \<lparr> bm_voltage = f32 (pack_voltage s), bm_current = f32 (pack_current s),
         bm_charge = f32 (pack_charge s), bm_capacity = f32 (pack_capacity s), bm_design_capacity = NaN,
         bm_percentage = f32 percentage, bm_temperature = f32 (pack_temperature s),
         bm_cell_voltage = map f32 (cell_voltages s),
         bm_cell_temperature = replicate (length (cell_voltages s)) NaN,
         bm_status = (if flt fzero (pack_current s) then Charging
           else if flt (pack_current s) fzero then Discharging else NotCharging) \<rparr>)
       (sample_percentage s)"

record battery_node =
  bn_address :: int
  bn_open :: bool
  bn_failed :: bool
  bn_ended :: bool

datatype battery_out =
    RequestSent "octet list" | ReadFailedWarning read_error | ReadRecovered | BatteryPublished battery_state_msg
  | PortErrorEscapes | ZeroDivisionEscapes

definition new_battery_node :: "string \<Rightarrow> string \<Rightarrow> int \<Rightarrow> int \<Rightarrow> pyfloat \<Rightarrow> pyfloat \<Rightarrow> battery_node option" where
  "new_battery_node backend port baud address timeout poll_hz =
     (if \<not> isfinite poll_hz \<or> \<not> (fle (fl (1 / 10)) poll_hz \<and> fle poll_hz (Fin 2)) then None
      else if backend \<noteq> ''pylontech_us2000'' then None
      else if \<not> backend_ok port baud address timeout then None
      else Some \<lparr> bn_address = address, bn_open = False, bn_failed = False, bn_ended = False \<rparr>)"

text \<open>\<open>except (OSError, ValueError)\<close>; the errors of a reply are all \<open>ValueError\<close>s.\<close>

definition poll_catches :: "read_error \<Rightarrow> bool" where
  "poll_catches e \<longleftrightarrow> e \<noteq> PortError OtherError"

text \<open>One poll. An exception that leaves it leaves \<open>rclpy.spin\<close> as well: \<open>main\<close> closes the port and ends the node.\<close>

definition battery_poll :: "battery_node \<Rightarrow> port_io \<times> port_exception option \<Rightarrow> battery_node \<times> battery_out list" where
  "battery_poll b event =
     (if bn_ended b then (b, [])
      else case backend_read (bn_address b) (bn_open b) (fst event) (snd event) of
        (opened, sent, Inl e) \<Rightarrow>
          (if poll_catches e
           then (b \<lparr> bn_open := opened, bn_failed := True \<rparr>,
                 map RequestSent sent @ (if bn_failed b then [] else [ReadFailedWarning e]))
           else (b \<lparr> bn_open := opened, bn_ended := True \<rparr>, map RequestSent sent @ [PortErrorEscapes]))
      | (opened, sent, Inr s) \<Rightarrow>
          (let recovered = map RequestSent sent @ (if bn_failed b then [ReadRecovered] else []) in
           case battery_message s of
             None \<Rightarrow> (b \<lparr> bn_open := False, bn_failed := False, bn_ended := True \<rparr>, recovered @ [ZeroDivisionEscapes])
           | Some m \<Rightarrow> (b \<lparr> bn_open := opened, bn_failed := False \<rparr>, recovered @ [BatteryPublished m])))"

subsection \<open>A single wrong byte\<close>

lemma byte_sum_update: "i < length bs \<Longrightarrow> byte_sum (bs[i := b]) = byte_sum bs + uint b - uint (bs ! i)"
proof (induction bs arbitrary: i)
  case (Cons c cs)
  then show ?case by (cases i) (simp_all add: byte_sum_def)
qed simp

lemma and_65535: "(x :: int) AND 65535 = x mod 65536"
  using take_bit_eq_mask [of 16 x] by (simp add: mask_eq_exp_minus_1 take_bit_eq_mod)

lemma octet_range: "0 \<le> uint (b :: octet) \<and> uint b < 256"
  using unsigned_less [of b, where ?'a = int] by simp

lemma octet_cong: "0 \<le> x \<Longrightarrow> x < 256 \<Longrightarrow> 0 \<le> y \<Longrightarrow> y < 256 \<Longrightarrow> 65536 dvd y - x \<Longrightarrow> x = (y :: int)"
  using zdvd_imp_le [of 65536 "y - x"] zdvd_imp_le [of 65536 "x - y"] dvd_diff_commute [of 65536 x y]
  by (cases x y rule: linorder_cases) auto

lemma body_checksum_update:
  assumes "i < length bs" "b \<noteq> bs ! i"
  shows "body_checksum (bs[i := b]) \<noteq> body_checksum bs"
proof
  assume "body_checksum (bs[i := b]) = body_checksum bs"
  then have "65536 dvd (- byte_sum (bs[i := b])) - (- byte_sum bs)"
    unfolding body_checksum_def and_65535 mod_eq_dvd_iff .
  moreover have "(- byte_sum (bs[i := b])) - (- byte_sum bs) = uint (bs ! i) - uint b"
    using byte_sum_update [OF assms(1), of b] by simp
  ultimately have "uint b = uint (bs ! i)"
    using octet_range [of b] octet_range [of "bs ! i"] octet_cong [of "uint b" "uint (bs ! i)"] by simp
  then show False using assms(2) word_uint_eqI by blast
qed

lemma open_reply_body:
  assumes "18 \<le> length f" "1 \<le> i" "i < length f - 5" "b \<noteq> f ! i" "open_reply f a = Inr d"
  shows "open_reply (f[i := b]) a = Inl ChecksumMismatch"
proof -
  let ?body = "\<lambda>f. take (length f - 6) (drop 1 f)" and ?field = "\<lambda>f. take 4 (drop (length f - 5) f)"
  have f: "?field (f[i := b]) = ?field f" using assms by simp
  have g: "?body (f[i := b]) = (?body f)[i - 1 := b]" using assms by (simp add: drop_update_swap take_update_swap)
  have "body_checksum (?body (f[i := b])) \<noteq> body_checksum (?body f)"
    unfolding g using assms by (intro body_checksum_update) auto
  moreover have "hd (f[i := b]) = hd f" "last (f[i := b]) = last f"
    using assms hd_conv_nth [of f] hd_conv_nth [of "f[i := b]"] last_conv_nth [of f] last_conv_nth [of "f[i := b]"] by force+
  moreover have "hd f = 0x7E" "last f = 13" "int_base16 (?field f) = Some (body_checksum (?body f))"
    using assms(5) by (auto simp: open_reply_def Let_def bind_res_eq_Inr split: if_splits)
  ultimately show ?thesis using assms f by (simp add: open_reply_def Let_def)
qed

lemma open_reply_outside:
  assumes "18 \<le> length f" "i = 0 \<or> length f - 5 \<le> i" "open_reply f a = Inr d" "open_reply (f[i := b]) a = Inr e"
  shows "e = d"
proof -
  let ?body = "\<lambda>f. take (length f - 6) (drop 1 f)"
  have "?body (f[i := b]) = ?body f" using assms(1,2) by (auto simp: drop_update_swap)
  then show ?thesis using assms(3,4)
    by (simp add: open_reply_def Let_def bind_res_eq_Inr split: if_splits)
qed

text \<open>One wrong byte in a battery reply is harmless: an accepted reply one of whose bytes is
replaced by another is rejected for its checksum when the byte is in the body, and when it is one of
the delimiters or of the checksum it is either rejected or read as the very same sample.\<close>

lemma corrupted_reply_harmless:
  assumes "decode_reply frame address = Inr s" "i < length frame" "b \<noteq> frame ! i"
  shows "if 1 \<le> i \<and> i < length frame - 5 then decode_reply (frame[i := b]) address = Inl ChecksumMismatch
    else decode_reply (frame[i := b]) address \<in> insert (Inr s) (range Inl)"
proof -
  obtain d where o: "open_reply frame address = Inr d" using assms(1) by (auto simp: decode_reply_def bind_res_eq_Inr)
  then have l: "18 \<le> length frame" by (auto simp: open_reply_def split: if_splits)
  show ?thesis
  proof (cases "1 \<le> i \<and> i < length frame - 5")
    case True
    then show ?thesis using open_reply_body [OF l _ _ assms(3) o] by (simp add: decode_reply_def)
  next
    case False
    then have i: "i = 0 \<or> length frame - 5 \<le> i" by linarith
    show ?thesis
    proof (cases "open_reply (frame[i := b]) address")
      case (Inr e)
      then show ?thesis using False open_reply_outside [OF l i o Inr] o assms(1) by (auto simp: decode_reply_def)
    qed (use False in \<open>auto simp: decode_reply_def\<close>)
  qed
qed

subsection \<open>What is accepted is in range\<close>

lemma fl_scaled:
  assumes "of_int a \<le> q" "q \<le> of_int b" "\<bar>a\<bar> \<le> 2 ^ 53" "\<bar>b\<bar> \<le> 2 ^ 53"
  shows "\<exists>r. fl q = Fin r \<and> of_int a \<le> r \<and> r \<le> of_int b"
proof -
  have "fle (Fin (of_int a)) (fl q)" "fle (fl q) (Fin (of_int b))"
    using fl_mono [OF assms(1)] fl_mono [OF assms(2)] fl_of_int [OF assms(3)] fl_of_int [OF assms(4)] by simp_all
  then show ?thesis using fle_between_finite by blast
qed

lemma percentage_in_range:
  assumes "0 \<le> a" "a \<le> b" "0 < b" "b < 2 ^ 24"
  shows "\<exists>p. fdiv (ratio a 1000) (ratio b 1000) = Some (Fin p) \<and> 0 \<le> p \<and> p \<le> 1"
proof -
  have ab: "(of_int a :: rat) / 1000 \<le> of_int b / 1000" using assms by (simp add: divide_right_mono)
  have bq: "(0 :: rat) \<le> of_int b / 1000" "(of_int b :: rat) / 1000 \<le> of_int (2 ^ 24)"
    using assms by (simp_all add: field_simps)
  have aq: "(of_int 0 :: rat) \<le> of_int a / 1000" using assms by simp
  obtain x where x: "fl (of_int a / 1000) = Fin x" "0 \<le> x"
    using fl_scaled [of 0 "of_int a / 1000" "2 ^ 24"] aq ab bq by auto
  obtain y where y: "fl (of_int b / 1000) = Fin y" using fl_scaled [of 0 "of_int b / 1000" "2 ^ 24"] bq by auto
  have "fle (fl (of_int 1 / 2 ^ 10)) (fl (of_int b / 1000))"
  proof (rule fl_mono)
    have "(1 :: rat) \<le> of_int b" using assms(3) by simp
    then show "of_int 1 / 2 ^ 10 \<le> (of_int b :: rat) / 1000" by simp
  qed
  then have "0 < y" using y fl_dyadic [of 1 10] by simp
  moreover have "x \<le> y" using fl_mono [OF ab] x y by simp
  ultimately have "0 \<le> x / y" "x / y \<le> 1" using x by simp_all
  then obtain p where "fl (x / y) = Fin p" "0 \<le> p" "p \<le> 1" using fl_scaled [of 0 "x / y" 1] by auto
  then show ?thesis using x y \<open>0 < y\<close> by (simp add: ratio_def)
qed

lemma from_big_endian_bounds: "0 \<le> from_big_endian bs \<and> from_big_endian bs < 256 ^ length bs"
proof (induction bs rule: rev_induct)
  case (snoc b bs)
  have "0 \<le> uint b" "uint b < 256" using unsigned_less [of b, where ?'a = int] by auto
  then show ?case using snoc by (simp add: from_big_endian_def)
qed (simp add: from_big_endian_def)

lemma from_big_endian_less: "length bs \<le> n \<Longrightarrow> from_big_endian bs < 256 ^ n"
  using from_big_endian_bounds [of bs] power_increasing [of "length bs" n "256 :: int"] by linarith

lemma parse_status_capacity:
  assumes "parse_status d = Inr m"
  shows "ms_capacity m < 2 ^ 24 \<and> length (ms_cells m) = 15 \<and> ms_temperatures m \<noteq> []"
proof -
  have s: "from_big_endian (slice p n d) < 2 ^ 24" if "n \<le> 3" for p n
    using from_big_endian_less [of "slice p n d" 3] that by (simp add: slice_def)
  show ?thesis
    using assms s by (fastforce simp: parse_status_def unpack_words_def bind_res_eq_Inr Let_def nth_map split: if_splits)
qed

text \<open>The constants of the ranges are exact in 32 bits.\<close>

lemma f32_constants:
  "f32 (Fin 20) = Fin 20" "f32 (Fin 65) = Fin 65" "f32 (Fin 5) = Fin 5" "f32 (Fin 120) = Fin 120" "f32 (Fin (- 50)) = Fin (- 50)"
  by code_simp+

definition within32 :: "rat \<Rightarrow> rat \<Rightarrow> pyfloat \<Rightarrow> bool" where
  "within32 a b x = (fle (Fin a) x \<and> fle x (Fin b))"

lemma within32_f32: "within32 a b x \<Longrightarrow> f32 (Fin a) = Fin a \<Longrightarrow> f32 (Fin b) = Fin b \<Longrightarrow> within32 a b (f32 x)"
  unfolding within32_def by (metis f32_mono)

lemma within32_ratio:
  "of_int a * of_int k \<le> (of_int v :: rat) \<Longrightarrow> of_int v \<le> (of_int b * of_int k :: rat) \<Longrightarrow> 0 < k \<Longrightarrow>
     \<bar>a\<bar> \<le> 2 ^ 53 \<Longrightarrow> \<bar>b\<bar> \<le> 2 ^ 53 \<Longrightarrow> within32 (of_int a) (of_int b) (ratio v k)"
  using fl_scaled [of a "of_int v / of_int k" b] by (auto simp: within32_def ratio_def field_simps)

definition message_in_range :: "battery_state_msg \<Rightarrow> bool" where
  "message_in_range m =
     (within32 0 1 (bm_percentage m) \<and> within32 20 65 (bm_voltage m) \<and> within32 (- 50) 120 (bm_temperature m) \<and>
      length (bm_cell_voltage m) = 15 \<and> list_all (within32 1 5) (bm_cell_voltage m))"

lemma decoded_in_range:
  assumes "decode_reply frame address = Inr s"
  shows "\<exists>m. battery_message s = Some m \<and> message_in_range m"
proof -
  obtain d m where m: "parse_status d = Inr m" "sample_of m = Inr s"
    using assms by (auto simp: decode_reply_def bind_res_eq_Inr)
  note c = parse_status_capacity [OF m(1)]
  have b: "ms_capacity m \<noteq> 0" "0 \<le> ms_charge m" "ms_charge m \<le> ms_capacity m" "20000 \<le> ms_voltage m" "ms_voltage m \<le> 65000"
    "\<forall>v\<in>set (ms_cells m). 1000 \<le> v \<and> v \<le> 5000"
    "\<forall>t\<in>set (ms_temperatures m). fle (Fin (- 50)) (ratio (t - 2731) 10) \<and> fle (ratio (t - 2731) 10) (Fin 120)"
    and s: "s = \<lparr> pack_voltage = ratio (ms_voltage m) 1000, pack_current = ratio (ms_current m) 10,
        pack_charge = ratio (ms_charge m) 1000, pack_capacity = ratio (ms_capacity m) 1000,
        cell_voltages = map (\<lambda>c. ratio c 1000) (ms_cells m), grouped_temperatures = tl (map (\<lambda>t. ratio (t - 2731) 10) (ms_temperatures m)),
        pack_temperature = hd (map (\<lambda>t. ratio (t - 2731) 10) (ms_temperatures m)), pack_cycles = ms_cycles m \<rparr>"
    using m(2) by (auto simp: sample_of_def Let_def list_ex_iff split: if_splits)
  obtain p where p: "fdiv (pack_charge s) (pack_capacity s) = Some (Fin p)" "0 \<le> p" "p \<le> 1"
    using percentage_in_range [of "ms_charge m" "ms_capacity m"] b c s by auto
  have v: "within32 20 65 (pack_voltage s)"
    using within32_ratio [of 20 1000 "ms_voltage m" 65] b(4,5) by (simp add: s)
  have "hd (ms_temperatures m) \<in> set (ms_temperatures m)" using c by simp
  then have t: "within32 (- 50) 120 (pack_temperature s)" using b(7) c by (simp add: s within32_def hd_map)
  have "within32 1 5 (ratio w 1000)" if "w \<in> set (ms_cells m)" for w
    using within32_ratio [of 1 1000 w 5] b(6) that by simp
  then have "list_all (within32 1 5) (map f32 (cell_voltages s))"
    by (auto simp: s list_all_iff intro!: within32_f32 f32_constants)
  moreover have "within32 0 1 (f32 (Fin p))" using p by (intro within32_f32) (simp_all add: within32_def)
  ultimately show ?thesis
    using v t c p(1) by (auto simp: battery_message_def sample_percentage_def message_in_range_def s
        intro!: within32_f32 f32_constants)
qed

subsection \<open>Any run of the node\<close>

definition battery_allowed :: "int \<Rightarrow> battery_out \<Rightarrow> bool" where
  "battery_allowed address out =
     (case out of RequestSent bs \<Rightarrow> Some bs = read_request address
      | BatteryPublished m \<Rightarrow> message_in_range m
      | ZeroDivisionEscapes \<Rightarrow> False
      | _ \<Rightarrow> True)"

interpretation battery: latch battery_poll "\<lambda>b. bn_address b = a \<and> read_request a \<noteq> None" "battery_allowed a" for a
proof
  fix b :: battery_node and event
  assume a: "bn_address b = a \<and> read_request a \<noteq> None"
  then show "bn_address (fst (battery_poll b event)) = a \<and> read_request a \<noteq> None"
    by (auto simp: battery_poll_def Let_def split: prod.splits sum.splits option.splits)
  fix out
  assume "out \<in> set (snd (battery_poll b event))"
  then show "battery_allowed a out"
    using a decoded_in_range
    by (fastforce simp: battery_poll_def backend_read_def battery_allowed_def Let_def split: prod.splits sum.splits port_io.splits if_splits option.splits)
qed

text \<open>A poll in which no call of the serial port raises anything but an \<open>OSError\<close> or a \<open>ValueError\<close>.\<close>

definition port_error_caught :: "port_io \<times> port_exception option \<Rightarrow> bool" where
  "port_error_caught event \<longleftrightarrow>
     fst event \<notin> {OpenFailed OtherError, ResetFailed OtherError, WriteFailed OtherError, ReadFailed OtherError} \<and> snd event \<noteq> Some OtherError"

lemma poll_goes_on:
  assumes "\<not> bn_ended b" "port_error_caught event"
  shows "\<not> bn_ended (fst (battery_poll b event)) \<and> PortErrorEscapes \<notin> set (snd (battery_poll b event))"
proof -
  obtain opened sent r where r: "backend_read (bn_address b) (bn_open b) (fst event) (snd event) = (opened, sent, r)" by (metis prod_cases3)
  show ?thesis
  proof (cases r)
    case (Inl e)
    then have "poll_catches e" using r assms(2)
      by (auto simp: backend_read_def backend_failed_def poll_catches_def port_error_caught_def Let_def
        split: port_io.splits sum.splits option.splits if_splits)
    then show ?thesis using assms(1) r Inl by (auto simp: battery_poll_def)
  next
    case (Inr s)
    then obtain frame where "decode_reply frame (word_of_int (bn_address b)) = Inr s"
      using r by (auto simp: backend_read_def Let_def split: port_io.splits sum.splits)
    from decoded_in_range [OF this] obtain m where "battery_message s = Some m" by blast
    then show ?thesis using assms(1) r Inr by (auto simp: battery_poll_def Let_def)
  qed
qed

lemma polls_go_on:
  "\<not> bn_ended b \<Longrightarrow> list_all port_error_caught events \<Longrightarrow>
     \<not> bn_ended (fst (run battery_poll b events)) \<and> PortErrorEscapes \<notin> set (snd (run battery_poll b events))"
proof (induction events arbitrary: b)
  case (Cons e events)
  then show ?case using poll_goes_on [of b e] by (auto simp: run_Cons simp del: run.simps(2))
qed simp

text \<open>C40. Over any run of a battery node whose parameters were accepted, whatever its serial port does
and however it fails: the only bytes it writes are its read request (a write that fails may have written a part of it), every message
it publishes has a percentage between 0 and 1, a voltage between 20 and 65 V, fifteen cells between 1 and 5 V and a
temperature between -50 and 120 degrees in the 32-bit fields the subscribers read, and neither a reply nor the message made of it
makes a poll raise. As long as the calls of the serial port raise nothing but \<open>OSError\<close> and \<open>ValueError\<close>, no exception leaves a poll and
the node goes on polling.\<close>

theorem battery_node_safe:
  assumes "new_battery_node backend port baud address timeout poll_hz = Some b" "run battery_poll b events = (b1, outs)"
  shows "list_all (battery_allowed address) outs \<and>
    (list_all port_error_caught events \<longrightarrow> PortErrorEscapes \<notin> set outs \<and> \<not> bn_ended b1)"
proof -
  have b: "bn_address b = address \<and> read_request address \<noteq> None" "\<not> bn_ended b"
    using assms(1) by (auto simp: new_battery_node_def backend_ok_def split: if_splits)
  then show ?thesis using battery.run_out [OF b(1), of _ events] polls_go_on [OF b(2), of events] assms(2) by (auto simp: list_all_iff)
qed

text \<open>Any other exception of the port ends the node: the backend closes the port, to open it again in the next poll, and there is none.\<close>

lemma other_port_error_ends_node:
  "\<not> bn_ended b \<Longrightarrow> closing = None \<Longrightarrow>
     battery_poll b (ResetFailed OtherError, closing) = (b \<lparr> bn_open := False, bn_ended := True \<rparr>, [PortErrorEscapes])"
  by (simp add: battery_poll_def backend_read_def backend_failed_def poll_catches_def)

subsection \<open>Replies of a battery\<close>

text \<open>
  The other side of the protocol, as the module writes it: the status of one module, in its short
  form and in the extended one with 24-bit charges, and the frame around it.
\<close>

definition be16 :: "int \<Rightarrow> octet list" where
  "be16 v = [word_of_int (v div 256), word_of_int (v mod 256)]"

definition be24 :: "int \<Rightarrow> octet list" where
  "be24 v = [word_of_int (v div 65536), word_of_int (v div 256 mod 256), word_of_int (v mod 256)]"

definition be_words :: "int list \<Rightarrow> octet list" where
  "be_words vs = concat (map be16 vs)"

definition status_data :: "octet \<Rightarrow> bool \<Rightarrow> module_status \<Rightarrow> octet list" where
  "status_data flag extended m =
     [flag, 1, 15] @ be_words (ms_cells m) @ word_of_int (int (length (ms_temperatures m))) # be_words (ms_temperatures m) @
     be_words [ms_current m mod 65536, ms_voltage m, if extended then 65535 else ms_charge m] @
     (if extended then 4 else 2) # be_words [if extended then 65535 else ms_capacity m, ms_cycles m] @
     (if extended then be24 (ms_charge m) @ be24 (ms_capacity m) else [])"

definition length_field :: "nat \<Rightarrow> nat" where
  "length_field n = nat ((- int (n mod 16 + n div 16 mod 16 + n div 256 mod 16)) mod 16) * 4096 + n"

definition reply_frame :: "octet \<Rightarrow> octet list \<Rightarrow> octet list" where
  "reply_frame address d =
     (let body = to_hex [0x20, address, 0x46, 0] @ hex4 (length_field (2 * length d)) @ to_hex d
      in 0x7E # body @ hex4 (nat (body_checksum body)) @ [13])"

definition status_ok :: "bool \<Rightarrow> module_status \<Rightarrow> bool" where
  "status_ok extended m =
     (length (ms_cells m) = 15 \<and> list_all (\<lambda>c. 1000 \<le> c \<and> c \<le> 5000) (ms_cells m) \<and>
      1 \<le> length (ms_temperatures m) \<and> length (ms_temperatures m) \<le> 16 \<and>
      list_all (\<lambda>t. 2231 \<le> t \<and> t \<le> 3931) (ms_temperatures m) \<and>
      - 32768 \<le> ms_current m \<and> ms_current m < 32768 \<and> 20000 \<le> ms_voltage m \<and> ms_voltage m \<le> 65000 \<and>
      0 \<le> ms_charge m \<and> ms_charge m \<le> ms_capacity m \<and> 0 < ms_capacity m \<and>
      ms_capacity m < (if extended then 2 ^ 24 else 2 ^ 16) \<and> 0 \<le> ms_cycles m \<and> ms_cycles m < 65536)"

definition status_sample :: "module_status \<Rightarrow> battery_sample" where
  "status_sample m =
     \<lparr> pack_voltage = ratio (ms_voltage m) 1000, pack_current = ratio (ms_current m) 10,
       pack_charge = ratio (ms_charge m) 1000, pack_capacity = ratio (ms_capacity m) 1000,
       cell_voltages = map (\<lambda>c. ratio c 1000) (ms_cells m),
       grouped_temperatures = map (\<lambda>t. ratio (t - 2731) 10) (tl (ms_temperatures m)),
       pack_temperature = ratio (hd (ms_temperatures m) - 2731) 10, pack_cycles = ms_cycles m \<rparr>"

lemma sample_of_status: "status_ok extended m \<Longrightarrow> sample_of m = Inr (status_sample m)"
proof -
  assume ok: "status_ok extended m"
  have t: "fle (Fin (- 50)) (ratio (w - 2731) 10) \<and> fle (ratio (w - 2731) 10) (Fin 120)" if "w \<in> set (ms_temperatures m)" for w
  proof -
    have "2231 \<le> w" "w \<le> 3931" using ok that by (auto simp: status_ok_def list_all_iff)
    then show ?thesis using within32_ratio [of "- 50" 10 "w - 2731" 120] by (simp add: within32_def)
  qed
  moreover have "ms_temperatures m \<noteq> []" using ok by (auto simp: status_ok_def)
  ultimately show ?thesis using ok
    by (auto simp: sample_of_def status_sample_def status_ok_def list_ex_iff list_all_iff Let_def hd_map map_tl)
qed

lemma be16_value: "0 \<le> v \<Longrightarrow> v < 65536 \<Longrightarrow> from_big_endian (be16 v) = v"
  using pos_imp_zdiv_nonneg_iff [of 256 v] by (simp add: be16_def from_big_endian_def unsigned_of_int take_bit_eq_mod)

lemma be24_value: "0 \<le> v \<Longrightarrow> v < 2 ^ 24 \<Longrightarrow> from_big_endian (be24 v) = v"
proof -
  assume v: "0 \<le> v" "v < 2 ^ 24"
  have "0 \<le> v div 65536" "v div 65536 < 256" using v by simp_all
  moreover have "v div 65536 = v div 256 div 256" by (simp add: zdiv_zmult2_eq [symmetric])
  then have "65536 * (v div 65536) + v div 256 mod 256 * 256 + v mod 256 = v"
    using mult_div_mod_eq [of 256 "v div 256"] mult_div_mod_eq [of 256 v] by linarith
  ultimately show ?thesis by (simp add: be24_def from_big_endian_def unsigned_of_int take_bit_eq_mod)
qed

lemma length_be_words [simp]: "length (be_words vs) = 2 * length vs"
  by (induction vs) (simp_all add: be_words_def be16_def)

lemma length_be24 [simp]: "length (be24 v) = 3"
  by (simp add: be24_def)

lemma slice_append: "length pre = p \<Longrightarrow> length w = n \<Longrightarrow> slice p n (pre @ w @ post) = w"
  by (simp add: slice_def)

lemma byte_at_append: "length pre = p \<Longrightarrow> byte_at (pre @ b # post) p = Inr (uint b)"
  by (auto simp: byte_at_def)

lemma unpack_append:
  assumes "length pre = p" "length vs = n" "list_all (\<lambda>v. 0 \<le> v \<and> v < 65536) vs"
  shows "unpack_words n p (pre @ be_words vs @ post) = Inr vs"
proof -
  have "from_big_endian (slice (p + 2 * i) 2 (pre @ be_words vs @ post)) = vs ! i" if "i < n" for i
  proof -
    have v: "vs = take i vs @ vs ! i # drop (Suc i) vs" using that assms(2) by (simp add: id_take_nth_drop)
    have e: "pre @ be_words vs @ post = (pre @ be_words (take i vs)) @ be16 (vs ! i) @ be_words (drop (Suc i) vs) @ post"
      by (subst v) (simp add: be_words_def)
    have "slice (p + 2 * i) 2 (pre @ be_words vs @ post) = be16 (vs ! i)"
      unfolding e using that assms by (intro slice_append) (simp_all add: be16_def)
    moreover have "0 \<le> vs ! i \<and> vs ! i < 65536" using assms that by (simp add: list_all_length)
    ultimately show ?thesis by (simp add: be16_value)
  qed
  then have "map (\<lambda>i. from_big_endian (slice (p + 2 * i) 2 (pre @ be_words vs @ post))) [0..<n] = vs"
    using assms(2) by (intro nth_equalityI) simp_all
  then show ?thesis using assms by (simp add: unpack_words_def)
qed

lemma signed16_mod: "- 32768 \<le> c \<Longrightarrow> c < 32768 \<Longrightarrow> signed16 (c mod 65536) = c"
proof (cases "0 \<le> c")
  case False
  assume c: "- 32768 \<le> c" "c < 32768"
  have "(c + 65536) mod 65536 = c + 65536" using c False by (intro mod_pos_pos_trivial) simp_all
  then have "c mod 65536 = c + 65536" by simp
  then show ?thesis using c False by (simp add: signed16_def)
qed (simp add: signed16_def)

lemma parse_status_data:
  assumes ok: "status_ok extended m"
  shows "parse_status (status_data flag extended m) = Inr m"
proof -
  define n where "n = length (ms_temperatures m)"
  define C T where "C = be_words (ms_cells m)" and "T = be_words (ms_temperatures m)"
  define X where "X = [ms_current m mod 65536, ms_voltage m, if extended then 65535 else ms_charge m]"
  define Y where "Y = [if extended then 65535 else ms_capacity m, ms_cycles m]"
  define E where "E = (if extended then be24 (ms_charge m) @ be24 (ms_capacity m) else [])"
  define k :: octet where "k = word_of_int (int n)"
  define it :: octet where "it = (if extended then 4 else 2)"
  define d where "d = status_data flag extended m"
  have d: "d = [flag, 1, 15] @ C @ k # T @ be_words X @ it # be_words Y @ E"
    by (simp only: d_def status_data_def C_def T_def X_def Y_def E_def k_def it_def n_def)
  have n: "1 \<le> n" "n \<le> 16" "length C = 30" "length T = 2 * n" using ok by (auto simp: status_ok_def n_def C_def T_def)
  have k: "uint k = int n" using n by (simp add: k_def unsigned_of_nat take_bit_eq_mod)
  have a1: "byte_at d 1 = Inr 1" "byte_at d 2 = Inr 15" by (simp_all add: d byte_at_def)
  have w: "list_all (\<lambda>v. 0 \<le> v \<and> v < 65536) (ms_cells m)" "list_all (\<lambda>v. 0 \<le> v \<and> v < 65536) (ms_temperatures m)"
    using ok by (auto simp: status_ok_def elim!: list.pred_mono_strong)
  have a2: "unpack_words 15 3 d = Inr (ms_cells m)"
    using unpack_append [of "[flag, 1, 15]" 3 "ms_cells m" 15 "k # T @ be_words X @ it # be_words Y @ E"] w ok
    by (simp add: d C_def status_ok_def)
  have a3: "byte_at d 33 = Inr (int n)"
    using byte_at_append [of "[flag, 1, 15] @ C" 33 k "T @ be_words X @ it # be_words Y @ E"] n k by (simp add: d)
  have a4: "unpack_words n 34 d = Inr (ms_temperatures m)"
    using unpack_append [of "[flag, 1, 15] @ C @ [k]" 34 "ms_temperatures m" n "be_words X @ it # be_words Y @ E"] w n
    by (simp add: d T_def n_def)
  have a5: "unpack_words 3 (2 * n + 34) d = Inr X"
    using unpack_append [of "[flag, 1, 15] @ C @ [k] @ T" "2 * n + 34" X 3 "it # be_words Y @ E"] ok n
    by (simp add: d X_def status_ok_def split: if_splits)
  have a6: "byte_at d (2 * n + 40) = Inr (uint it)"
    using byte_at_append [of "[flag, 1, 15] @ C @ [k] @ T @ be_words X" "2 * n + 40" it "be_words Y @ E"] n by (simp add: d X_def)
  have a7: "unpack_words 2 (2 * n + 41) d = Inr Y"
    using unpack_append [of "[flag, 1, 15] @ C @ [k] @ T @ be_words X @ [it]" "2 * n + 41" Y 2 E] ok n
    by (simp add: d X_def Y_def status_ok_def split: if_splits)
  have l: "length d = 2 * n + 45 + length E" using n by (simp add: d X_def Y_def)
  have a8: "from_big_endian (slice (2 * n + 45) 3 d) = ms_charge m" if "extended"
  proof -
    have "slice (2 * n + 45) 3 d = be24 (ms_charge m)"
      using slice_append [of "[flag, 1, 15] @ C @ [k] @ T @ be_words X @ [it] @ be_words Y" "2 * n + 45" "be24 (ms_charge m)" 3 "be24 (ms_capacity m)"] that n
      by (simp add: d X_def Y_def E_def)
    then show ?thesis using ok that by (simp add: be24_value status_ok_def)
  qed
  have a9: "from_big_endian (slice (2 * n + 48) 3 d) = ms_capacity m" if "extended"
  proof -
    have "slice (2 * n + 48) 3 d = be24 (ms_capacity m)"
      using slice_append [of "[flag, 1, 15] @ C @ [k] @ T @ be_words X @ [it] @ be_words Y @ be24 (ms_charge m)" "2 * n + 48" "be24 (ms_capacity m)" 3 "[]"] that n
      by (simp add: d X_def Y_def E_def)
    then show ?thesis using ok that by (simp add: be24_value status_ok_def)
  qed
  have c: "signed16 (ms_current m mod 65536) = ms_current m" using ok by (intro signed16_mod) (auto simp: status_ok_def)
  show ?thesis unfolding d_def [symmetric]
    using n l a8 a9 c
    by (cases extended) (simp_all add: parse_status_def a1 a2 a3 a4 a5 a6 a7 Let_def add.commute it_def E_def X_def Y_def del: One_nat_def)
qed

lemma hex_text_to_hex [simp]: "hex_text (to_hex bs) = Inr bs"
proof -
  have "uint (hex_char k) < 128" if "k < 16" for k
    using hex_char_read [OF that] by simp
  moreover have "unat b div 16 < 16" "unat b mod 16 < 16" for b :: octet
    using unsigned_less [of b, where ?'a = nat] by auto
  ultimately have "ascii (to_hex bs)"
    by (induction bs) (auto simp: ascii_def to_hex_def hex_byte_def)
  then show ?thesis by (simp add: hex_text_def)
qed

lemma length_hex4 [simp]: "length (hex4 n) = 4"
  by (simp add: hex4_def)

lemma checksum_range: "0 \<le> body_checksum b \<and> body_checksum b < 65536"
  by (simp add: body_checksum_def and_65535)

lemma nibbles:
  fixes n :: nat
  assumes "n < 4096"
  shows "int (length_field n) AND 4095 = int n" "drop_bit 12 (int (length_field n)) = (- int (n mod 16 + n div 16 mod 16 + n div 256 mod 16)) mod 16"
proof -
  define x where "x = nat ((- int (n mod 16 + n div 16 mod 16 + n div 256 mod 16)) mod 16)"
  have e: "length_field n = x * 4096 + n" by (simp add: length_field_def x_def)
  have "int (length_field n) AND 4095 = int (length_field n) mod 4096"
    using take_bit_eq_mask [of 12 "int (length_field n)"] by (simp add: mask_eq_exp_minus_1 take_bit_eq_mod)
  then show "int (length_field n) AND 4095 = int n" using assms by (simp add: e)
  have "drop_bit 12 (int (length_field n)) = int (length_field n div 4096)" by (simp add: drop_bit_eq_div zdiv_int)
  also have "length_field n div 4096 = x" using assms by (simp add: e)
  finally show "drop_bit 12 (int (length_field n)) = (- int (n mod 16 + n div 16 mod 16 + n div 256 mod 16)) mod 16"
    by (simp add: x_def)
qed

lemma and_15: "(x :: int) AND 15 = x mod 16"
  using take_bit_eq_mask [of 4 x] by (simp add: mask_eq_exp_minus_1 take_bit_eq_mod)

lemma open_reply_frame:
  assumes "length d < 2048"
  shows "open_reply (reply_frame address d) address = Inr d"
proof -
  define n where "n = 2 * length d"
  define body where "body = to_hex [0x20, address, 0x46, 0] @ hex4 (length_field n) @ to_hex d"
  define f where "f = 0x7E # body @ hex4 (nat (body_checksum body)) @ [13]"
  have n: "n < 4096" "n mod 2 = 0" using assms by (simp_all add: n_def)
  have lf: "length_field n < 65536"
  proof -
    have "nat ((- int (n mod 16 + n div 16 mod 16 + n div 256 mod 16)) mod 16) \<le> 15"
      using pos_mod_bound [of 16 "- int (n mod 16 + n div 16 mod 16 + n div 256 mod 16)"] by linarith
    then show ?thesis using n by (simp add: length_field_def)
  qed
  have len: "length body = 12 + n" by (simp add: body_def n_def)
  have parts: "take (length f - 6) (drop 1 f) = body" "take 4 (drop (length f - 5) f) = hex4 (nat (body_checksum body))"
    by (simp_all add: f_def)
  have sub: "take 8 body = to_hex [0x20, address, 0x46, 0]" "take 4 (drop 8 body) = hex4 (length_field n)" "drop 12 body = to_hex d"
    by (simp_all add: body_def)
  have c: "int_base16 (hex4 (nat (body_checksum body))) = Some (body_checksum body)"
    using checksum_range [of body] int_base16_hex4 [of "nat (body_checksum body)"] by (simp add: nat_less_iff)
  have s: "(drop_bit 0 (int n) AND 15) + (drop_bit 4 (int n) AND 15) + (drop_bit 8 (int n) AND 15) =
      int (n mod 16 + n div 16 mod 16 + n div 256 mod 16)"
    unfolding and_15 by (simp add: drop_bit_eq_div zdiv_int zmod_int)
  have k: "(x + (- x) mod 16) mod 16 = 0" for x :: int by (simp add: mod_add_right_eq)
  have b: "\<not> (length f < 18 \<or> hd f \<noteq> 0x7E \<or> last f \<noteq> 13)" using len by (simp add: f_def)
  have z: "int (n mod 16 + n div 16 mod 16 + n div 256 mod 16) + (- int (n mod 16 + n div 16 mod 16 + n div 256 mod 16)) mod 16 AND 15 = 0"
    by (simp only: and_15 k)
  have l: "int n = int (length (to_hex d))" by (simp add: n_def)
  have e: "int n mod 2 = 0" by (simp add: n_def)
  have "open_reply f address = hex_text (to_hex d)"
    unfolding open_reply_def Let_def parts sub c int_base16_hex4 [OF lf] nibbles [OF n(1)] s z of_option.simps bind_res.simps hex_text_to_hex
    using b l e by simp
  then have "open_reply f address = Inr d" by simp
  then show ?thesis by (simp add: reply_frame_def Let_def f_def body_def n_def)
qed

lemma status_reply_decodes:
  assumes ok: "status_ok extended m"
  shows "decode_reply (reply_frame address (status_data flag extended m)) address = Inr (status_sample m)"
proof -
  have "length (status_data flag extended m) < 2048"
    using ok by (cases extended) (simp_all add: status_data_def status_ok_def)
  then show ?thesis
    using parse_status_data [OF ok] sample_of_status [OF ok] open_reply_frame by (simp add: decode_reply_def)
qed

text \<open>C39. A battery reply with the status of one module, in the short or the extended form, is read back
exactly: the node that was given a well-formed status publishes, after a recovery notice if the last
read had failed, the message of that status and is left with its port open.\<close>

theorem battery_status_published:
  assumes "new_battery_node backend port baud address timeout poll_hz = Some b0" "status_ok extended m"
  shows "\<exists>msg. battery_message (status_sample m) = Some msg \<and>
    battery_poll (b0 \<lparr> bn_failed := failed \<rparr>) (Replied (reply_frame (word_of_int address) (status_data flag extended m)), close_fails) =
      (b0 \<lparr> bn_open := True, bn_failed := False \<rparr>,
       RequestSent (the (read_request address)) # (if failed then [ReadRecovered] else []) @ [BatteryPublished msg])"
proof -
  have a: "bn_address b0 = address" "\<not> bn_ended b0" using assms(1) by (auto simp: new_battery_node_def split: if_splits)
  note decoded = status_reply_decodes [OF assms(2), of "word_of_int address" flag]
  from decoded_in_range [OF decoded] obtain msg where "battery_message (status_sample m) = Some msg" by blast
  then show ?thesis using a by (simp add: battery_poll_def backend_read_def decoded)
qed

subsection \<open>Concrete inputs\<close>

definition sample_status :: module_status where
  "sample_status = \<lparr> ms_cells = replicate 15 3300, ms_temperatures = [2981, 2971], ms_current = - 125, ms_voltage = 49500,
     ms_charge = 37000, ms_capacity = 50000, ms_cycles = 120 \<rparr>"

definition sample_battery :: battery_node where
  "sample_battery = \<lparr> bn_address = 2, bn_open = False, bn_failed = False, bn_ended = False \<rparr>"

lemma sample_battery_made: "new_battery_node ''pylontech_us2000'' ''/dev/ttyUSB0'' 115200 2 (Fin (1 / 2)) (Fin 1) = Some sample_battery"
  using tenth_eq by (simp add: new_battery_node_def backend_ok_def read_request_def sample_battery_def Let_def fle_Fin)

lemma sample_status_ok: "status_ok False sample_status"
  by (simp add: status_ok_def sample_status_def list_all_iff)

definition sample_reply :: "octet list" where
  "sample_reply = reply_frame 2 (status_data 0 False sample_status)"

lemma sample_reply_read: "decode_reply sample_reply 2 = Inr (status_sample sample_status)"
  unfolding sample_reply_def using status_reply_decodes [OF sample_status_ok] .

lemma sample_reply_start: "10 < length sample_reply - 5 \<and> sample_reply ! 1 = 50"
  by (simp add: sample_reply_def reply_frame_def to_hex_def hex_byte_def hex_char_def Let_def)

lemma corrupted_reply_harmless_witness:
  "decode_reply (sample_reply[1 := 51]) 2 = Inl ChecksumMismatch"
  using corrupted_reply_harmless [OF sample_reply_read, of 1 51] sample_reply_start by (auto split: if_splits)

lemma battery_node_safe_witness:
  "list_all (battery_allowed 2) (snd (run battery_poll sample_battery [(OpenFailed OsError, None), (Replied sample_reply, None), (ResetFailed ValueError, Some OsError)])) \<and>
   \<not> bn_ended (fst (run battery_poll sample_battery [(OpenFailed OsError, None), (Replied sample_reply, None), (ResetFailed ValueError, Some OsError)]))"
  using battery_node_safe [OF sample_battery_made prod.collapse [symmetric],
    of "[(OpenFailed OsError, None), (Replied sample_reply, None), (ResetFailed ValueError, Some OsError)]"]
  by (simp add: port_error_caught_def del: run.simps)

lemma battery_status_published_witness:
  "\<exists>msg. battery_poll (sample_battery \<lparr> bn_failed := True \<rparr>) (Replied sample_reply, None) =
     (sample_battery \<lparr> bn_open := True, bn_failed := False \<rparr>,
      [RequestSent (the (read_request 2)), ReadRecovered, BatteryPublished msg])"
  using battery_status_published [OF sample_battery_made sample_status_ok, of True 0 None]
  by (auto simp: sample_reply_def)

end
