(* ===== verification/Ntrip_Protocol.thy ===== *)
theory Ntrip_Protocol
  imports Byte_Text
begin

section \<open>Answers of an NTRIP caster\<close>

text \<open>
  \<open>salus_hardware/ntrip_protocol.py\<close>: the response header, read again from the start whenever more of
  it has arrived, and the incremental decoder of an HTTP body sent in chunks. The RTCM decoder of the
  same file is in \<open>Rtk\<close>. A \<open>ConnectionError\<close> is its message.
\<close>

subsection \<open>The response header\<close>

record ntrip_response =
  nr_payload :: "octet list"
  nr_chunked :: bool

definition crlf :: "octet list" where
  "crlf = [13, 10]"

definition latin1 :: "octet list \<Rightarrow> string" where
  "latin1 bs = map (\<lambda>b. char_of (unat b)) bs"

definition starts_with :: "'a list \<Rightarrow> 'a list \<Rightarrow> bool" where
  "starts_with pre xs = (take (length pre) xs = pre)"

definition contains :: "'a list \<Rightarrow> 'a list \<Rightarrow> bool" where
  "contains pat xs = (find_bytes pat xs \<noteq> None)"

fun split_lines :: "octet list \<Rightarrow> octet list \<Rightarrow> octet list list" where
  "split_lines cur [] = [cur]"
| "split_lines cur [b] = [cur @ [b]]"
| "split_lines cur (a # b # bs) =
     (if a = 13 \<and> b = 10 then cur # split_lines [] bs else split_lines (cur @ [a]) (b # bs))"

fun words_from :: "string \<Rightarrow> string \<Rightarrow> string list" where
  "words_from cur [] = (if cur = [] then [] else [cur])"
| "words_from cur (c # cs) =
     (if py_space c then (if cur = [] then words_from [] cs else cur # words_from [] cs)
      else words_from (cur @ [c]) cs)"

definition latin1_words :: "string \<Rightarrow> string list" where
  "latin1_words s = words_from [] s"

definition py_isdigit :: "string \<Rightarrow> bool" where
  "py_isdigit s = (s \<noteq> [] \<and> list_all (\<lambda>c. let n = (of_char c :: nat) in 48 \<le> n \<and> n \<le> 57 \<or> n \<in> {178, 179, 185}) s)"

definition before_char :: "char \<Rightarrow> string \<Rightarrow> string" where
  "before_char c s = takeWhile (\<lambda>x. x \<noteq> c) s"

fun parse_headers :: "(string \<rightharpoonup> string) \<Rightarrow> string list \<Rightarrow> (string, string \<rightharpoonup> string) result" where
  "parse_headers h [] = Inr h"
| "parse_headers h (line # rest) =
     (if line = [] \<or> CHR '':'' \<notin> set line then Inl ''ntrip_invalid_header''
      else parse_headers (h(py_lower (py_strip (before_char CHR '':'' line)) \<mapsto>
             py_lower (py_strip (drop (Suc (length (before_char CHR '':'' line))) line)))) rest)"

definition header_or :: "string \<Rightarrow> string \<Rightarrow> (string \<rightharpoonup> string) \<Rightarrow> string" where
  "header_or fallback key h = (case h key of None \<Rightarrow> fallback | Some v \<Rightarrow> v)"

text \<open>\<open>Inr None\<close>: the header is not complete.\<close>

definition parse_response :: "octet list \<Rightarrow> (string, ntrip_response option) result" where
  "parse_response data =
     (if starts_with (bytes_of ''SOURCETABLE'') data then Inl ''ntrip_sourcetable_not_corrections''
      else if starts_with (bytes_of ''ICY'') data
      then (case find_bytes crlf data of
          None \<Rightarrow> if 16384 < length data then Inl ''ntrip_headers_too_large'' else Inr None
        | Some n \<Rightarrow> if take n data \<noteq> bytes_of ''ICY 200 OK'' then Inl ''ntrip_rejected''
            else Inr (Some \<lparr> nr_payload = drop (n + 2) data, nr_chunked = False \<rparr>))
      else (case find_bytes (crlf @ crlf) data of
          None \<Rightarrow> if 16384 < length data then Inl ''ntrip_headers_too_large'' else Inr None
        | Some n \<Rightarrow>
            if 16384 < n then Inl ''ntrip_headers_too_large''
            else (let lines = map latin1 (split_lines [] (take n data));
                      status = latin1_words (hd lines) in
              if length status < 2 \<or> hd status \<notin> {''HTTP/1.0'', ''HTTP/1.1''} then Inl ''ntrip_invalid_response''
              else if status ! 1 \<noteq> ''200''
              then Inl (''ntrip_http_'' @ (if py_isdigit (status ! 1) then status ! 1 else ''invalid''))
              else bind_res (parse_headers Map.empty (tl lines)) (\<lambda>h.
                let content_type = py_strip (before_char CHR '';'' (header_or '''' ''content-type'' h));
                    transfer = header_or ''identity'' ''transfer-encoding'' h in
                if contains ''sourcetable'' content_type \<or> starts_with ''text/'' content_type
                then Inl ''ntrip_sourcetable_or_text_not_corrections''
                else if transfer \<notin> {'''', ''identity'', ''chunked''} then Inl ''ntrip_unsupported_transfer_encoding''
                else if header_or ''identity'' ''content-encoding'' h \<notin> {'''', ''identity''}
                then Inl ''ntrip_unsupported_content_encoding''
                else Inr (Some \<lparr> nr_payload = drop (n + 4) data, nr_chunked = (transfer = ''chunked'') \<rparr>)))))"

subsection \<open>The chunk decoder\<close>

record chunk_decoder =
  cd_buffer :: "octet list"
  cd_remaining :: "int option"
  cd_finished :: bool

definition new_chunk_decoder :: chunk_decoder where
  "new_chunk_decoder = \<lparr> cd_buffer = [], cd_remaining = None, cd_finished = False \<rparr>"

definition raw_chunk_size :: "octet list \<Rightarrow> octet list" where
  "raw_chunk_size line = byte_strip (takeWhile (\<lambda>b. b \<noteq> 59) line)"

text \<open>The first half of an iteration; the flag tells that the loop ends here.\<close>

definition chunk_header :: "chunk_decoder \<Rightarrow> (string, chunk_decoder \<times> bool) result" where
  "chunk_header d =
     (if cd_remaining d \<noteq> None then Inr (d, False)
      else case find_bytes crlf (cd_buffer d) of
        None \<Rightarrow> if 1024 < length (cd_buffer d) then Inl ''ntrip_invalid_chunk_header'' else Inr (d, True)
      | Some n \<Rightarrow>
          (case int_base16 (raw_chunk_size (take n (cd_buffer d))) of
             None \<Rightarrow> Inl ''ntrip_invalid_chunk_size''
           | Some k \<Rightarrow>
               if \<not> (0 \<le> k \<and> k \<le> 1048576) then Inl ''ntrip_chunk_too_large''
               else if k = 0 then Inr (d \<lparr> cd_remaining := Some 0, cd_finished := True, cd_buffer := [] \<rparr>, True)
               else Inr (d \<lparr> cd_remaining := Some k, cd_buffer := drop (n + 2) (cd_buffer d) \<rparr>, False)))"

lemma chunk_header_shrinks: "chunk_header d = Inr (d1, False) \<Longrightarrow> length (cd_buffer d1) \<le> length (cd_buffer d) \<and> cd_remaining d1 \<noteq> None"
  by (auto simp: chunk_header_def split: if_splits option.splits)

function chunk_loop :: "chunk_decoder \<Rightarrow> octet list \<Rightarrow> (string, chunk_decoder \<times> octet list) result" where
  "chunk_loop d out =
     (case chunk_header d of
        Inl e \<Rightarrow> Inl e
      | Inr (d1, stop) \<Rightarrow>
          if stop then Inr (d1, out)
          else (let n = nat (the (cd_remaining d1)); buffer = cd_buffer d1 in
            if length buffer < n + 2 then Inr (d1, out)
            else if take 2 (drop n buffer) \<noteq> crlf then Inl ''ntrip_invalid_chunk_terminator''
            else chunk_loop (d1 \<lparr> cd_buffer := drop (n + 2) buffer, cd_remaining := None \<rparr>) (out @ take n buffer)))"
  by pat_completeness auto

termination
proof (relation "measure (\<lambda>(d, out). length (cd_buffer d))")
  fix d :: chunk_decoder and out x d1 stop n buffer
  assume "chunk_header d = Inr x" "(d1, stop) = x" "\<not> stop" "n = nat (the (cd_remaining d1))" "buffer = cd_buffer d1"
    "\<not> length buffer < n + 2"
  then show "((d1 \<lparr> cd_buffer := drop (n + 2) buffer, cd_remaining := None \<rparr>, out @ take n buffer), (d, out))
      \<in> measure (\<lambda>(d, out). length (cd_buffer d))"
    using chunk_header_shrinks [of d d1] by auto
qed simp

declare chunk_loop.simps [simp del]

definition chunk_feed :: "chunk_decoder \<Rightarrow> octet list \<Rightarrow> (string, chunk_decoder \<times> octet list) result" where
  "chunk_feed d data =
     (if cd_finished d then Inr (d, []) else chunk_loop (d \<lparr> cd_buffer := cd_buffer d @ data \<rparr>) [])"

subsection \<open>Chunks sent whole or in pieces\<close>

text \<open>
  A chunk as a server writes it: a line with the size of the payload, possibly with extensions, the
  payload, and the end of a line. \<open>chunk_rep d ps rest\<close>: the decoder and the bytes still to come make
  up exactly the chunks \<open>ps\<close>.
\<close>

definition http_chunk_ok :: "octet list \<times> octet list \<Rightarrow> bool" where
  "http_chunk_ok hp =
     (13 \<notin> set (fst hp) \<and> length (fst hp) \<le> 1023 \<and>
      int_base16 (raw_chunk_size (fst hp)) = Some (int (length (snd hp))) \<and> 0 < length (snd hp) \<and> length (snd hp) \<le> 1048576)"

definition encode_chunk :: "octet list \<times> octet list \<Rightarrow> octet list" where
  "encode_chunk hp = fst hp @ crlf @ snd hp @ crlf"

definition chunk_stream :: "(octet list \<times> octet list) list \<Rightarrow> octet list" where
  "chunk_stream ps = concat (map encode_chunk ps)"

definition chunk_rep :: "chunk_decoder \<Rightarrow> (octet list \<times> octet list) list \<Rightarrow> octet list \<Rightarrow> bool" where
  "chunk_rep d ps rest =
     (\<not> cd_finished d \<and> list_all http_chunk_ok ps \<and>
      (case cd_remaining d of
         None \<Rightarrow> cd_buffer d @ rest = chunk_stream ps
       | Some n \<Rightarrow> ps \<noteq> [] \<and> n = int (length (snd (hd ps))) \<and>
           cd_buffer d @ rest = snd (hd ps) @ crlf @ chunk_stream (tl ps)))"

lemma find_crlf:
  "13 \<notin> set h \<Longrightarrow> find_bytes crlf (h @ crlf @ xs) = Some (length h)"
proof (induction h)
  case Nil
  then show ?case by (simp add: crlf_def)
next
  case (Cons a h)
  then show ?case by (auto simp: crlf_def)
qed

lemma find_crlf_prefix:
  assumes "13 \<notin> set h" "buf @ rest = h @ crlf @ xs"
  shows "find_bytes crlf buf = (if length h + 2 \<le> length buf then Some (length h) else None)"
proof (cases "length h + 2 \<le> length buf")
  case True
  have l: "length (h @ crlf) = length h + 2" by (simp add: crlf_def)
  have "buf = take (length buf) (h @ crlf @ xs)" using assms(2) by (metis append_eq_conv_conj)
  also have "\<dots> = h @ crlf @ take (length buf - (length h + 2)) xs" using True l by (simp add: take_append crlf_def take_Cons')
  finally have "find_bytes crlf buf = Some (length h)" using find_crlf [OF assms(1)] by metis
  then show ?thesis using True by simp
next
  case False
  have "find_bytes crlf buf = None"
  proof (rule ccontr)
    assume "find_bytes crlf buf \<noteq> None"
    then obtain n where n: "find_bytes crlf buf = Some n" by blast
    then have "find_bytes crlf (buf @ rest) = Some n" by (rule find_bytes_append)
    then have "n = length h" using find_crlf [OF assms(1), of xs] by (simp add: assms(2))
    then show False using find_bytes_bound [OF n] False by (simp add: crlf_def)
  qed
  then show ?thesis using False by simp
qed

lemma chunk_header_rep:
  assumes "chunk_rep d ps rest"
  shows "(\<exists>d1. chunk_header d = Inr (d1, False) \<and> chunk_rep d1 ps rest \<and> cd_remaining d1 \<noteq> None \<and> length (cd_buffer d1) \<le> length (cd_buffer d)) \<or>
    chunk_header d = Inr (d, True) \<and> (rest = [] \<longrightarrow> ps = [])"
proof (cases "cd_remaining d")
  case (Some n)
  then show ?thesis using assms by (simp add: chunk_header_def)
next
  case None
  show ?thesis
  proof (cases ps)
    case Nil
    then have "cd_buffer d = []" using assms None by (simp add: chunk_rep_def chunk_stream_def)
    then show ?thesis using None Nil by (simp add: chunk_header_def crlf_def)
  next
    case (Cons p qs)
    have ok: "http_chunk_ok p" using assms Cons by (simp add: chunk_rep_def)
    have b: "cd_buffer d @ rest = fst p @ crlf @ (snd p @ crlf @ chunk_stream qs)"
      using assms None Cons by (simp add: chunk_rep_def chunk_stream_def encode_chunk_def)
    note f = find_crlf_prefix [OF _ b]
    show ?thesis
    proof (cases "length (fst p) + 2 \<le> length (cd_buffer d)")
      case False
      moreover have "rest \<noteq> []" using False arg_cong [OF b, of length] by (auto simp: crlf_def)
      ultimately show ?thesis using f ok None by (simp add: chunk_header_def http_chunk_ok_def)
    next
      case True
      have t: "take (length (fst p)) (cd_buffer d) = fst p"
        using arg_cong [OF b, of "take (length (fst p))"] True by simp
      have "drop (length (fst p) + 2) (cd_buffer d) @ rest = drop (length (fst p) + 2) (cd_buffer d @ rest)" using True by simp
      also have "\<dots> = snd p @ crlf @ chunk_stream qs" unfolding b by (simp add: crlf_def)
      finally show ?thesis
        using f ok None True t assms Cons by (simp add: chunk_header_def http_chunk_ok_def chunk_rep_def)
    qed
  qed
qed

lemma chunk_loop_rep:
  "chunk_rep d ps rest \<Longrightarrow>
     \<exists>d2 k. chunk_loop d out = Inr (d2, out @ concat (map snd (take k ps))) \<and>
       chunk_rep d2 (drop k ps) rest \<and> (rest = [] \<longrightarrow> drop k ps = [])"
proof (induction d out arbitrary: ps rule: chunk_loop.induct)
  case (1 d out)
  consider (wait) "chunk_header d = Inr (d, True)" "rest = [] \<longrightarrow> ps = []"
    | (data) d1 where "chunk_header d = Inr (d1, False)" "chunk_rep d1 ps rest" "cd_remaining d1 \<noteq> None"
    using chunk_header_rep [OF "1.prems"] by blast
  then show ?case
  proof cases
    case wait
    then show ?thesis using "1.prems" by (subst chunk_loop.simps) (auto intro!: exI [of _ "0::nat"])
  next
    case data
    obtain p qs where ps: "ps = p # qs" "cd_remaining d1 = Some (int (length (snd p)))"
      "cd_buffer d1 @ rest = snd p @ crlf @ chunk_stream qs" "\<not> cd_finished d1" "list_all http_chunk_ok ps"
      using data(2,3) by (cases ps) (auto simp: chunk_rep_def)
    show ?thesis
    proof (cases "length (cd_buffer d1) < length (snd p) + 2")
      case True
      moreover have "rest \<noteq> []" using True arg_cong [OF ps(3), of length] by (auto simp: crlf_def)
      ultimately show ?thesis using data ps by (subst chunk_loop.simps) (auto simp: Let_def intro!: exI [of _ "0::nat"])
    next
      case False
      let ?d2 = "d1 \<lparr> cd_buffer := drop (length (snd p) + 2) (cd_buffer d1), cd_remaining := None \<rparr>"
      have t: "take (length (snd p)) (cd_buffer d1) = snd p"
        using arg_cong [OF ps(3), of "take (length (snd p))"] False by simp
      have c: "take 2 (drop (length (snd p)) (cd_buffer d1)) = crlf"
        using arg_cong [OF ps(3), of "\<lambda>x. take 2 (drop (length (snd p)) x)"] False by (simp add: crlf_def)
      have "drop (length (snd p) + 2) (cd_buffer d1) @ rest = drop (length (snd p) + 2) (cd_buffer d1 @ rest)" using False by simp
      also have "\<dots> = chunk_stream qs" unfolding ps(3) by (simp add: crlf_def)
      finally have r: "chunk_rep ?d2 qs rest" using ps by (simp add: chunk_rep_def)
      have e: "chunk_loop d out = chunk_loop ?d2 (out @ snd p)"
        using data ps t c False by (subst chunk_loop.simps) (simp add: Let_def)
      obtain d3 k where *: "chunk_loop ?d2 (out @ snd p) = Inr (d3, (out @ snd p) @ concat (map snd (take k qs)))"
        "chunk_rep d3 (drop k qs) rest" "rest = [] \<longrightarrow> drop k qs = []"
        using "1.IH" [OF data(1) refl _ _ _ _ _ r] data ps t c False by auto
      then show ?thesis using e ps(1) by (intro exI [of _ d3] exI [of _ "Suc k"]) simp
    qed
  qed
qed

lemma chunk_feed_rep:
  assumes "chunk_rep d ps (r @ rest)"
  shows "\<exists>d2 k. chunk_feed d r = Inr (d2, concat (map snd (take k ps))) \<and> chunk_rep d2 (drop k ps) rest \<and> (rest = [] \<longrightarrow> drop k ps = [])"
proof -
  have "\<not> cd_finished d" "chunk_rep (d \<lparr> cd_buffer := cd_buffer d @ r \<rparr>) ps rest"
    using assms by (auto simp: chunk_rep_def split: option.splits)
  then show ?thesis using chunk_loop_rep [of "d \<lparr> cd_buffer := cd_buffer d @ r \<rparr>" ps rest "[]"]
    by (simp add: chunk_feed_def)
qed

lemma new_chunk_rep: "list_all http_chunk_ok ps \<Longrightarrow> chunk_rep new_chunk_decoder ps (chunk_stream ps)"
  by (simp add: chunk_rep_def new_chunk_decoder_def)

text \<open>A finished decoder ignores what follows.\<close>

lemma chunk_feed_finished: "cd_finished d \<Longrightarrow> chunk_feed d r = Inr (d, [])"
  by (simp add: chunk_feed_def)

end
