(* ===== verification/Ntrip_Source.thy ===== *)
theory Ntrip_Source
  imports Ntrip_Protocol Web_Protocol
begin

section \<open>The NTRIP corrections source\<close>

text \<open>
  \<open>salus_hardware/ntrip_source_config.py\<close> and \<open>ntrip_rtcm_source.py\<close>: the validated configuration, the
  request sent to the caster, and the node: its reader thread as a machine that dials, shakes hands,
  decodes and sleeps, and the status timer. The source takes its lock for each frame of a payload; here the frames of a payload
  are published in one step, which the status timer does not split. Clock readings and the outcomes of the socket calls are
  inputs. The YAML value of the configuration file is a parameter; text is of characters below 256.
  The name of the parameter in the message of a refused duration is left out.
\<close>

subsection \<open>Configuration\<close>

record ntrip_source =
  ns_id :: string
  ns_label :: string
  ns_host :: string
  ns_port :: jval
  ns_mountpoint :: string
  ns_username :: string
  ns_password :: string

definition control_char :: "char \<Rightarrow> bool" where
  "control_char c = ((of_char c :: nat) < 32 \<or> (of_char c :: nat) = 127)"

definition whitespace_or_control :: "string \<Rightarrow> bool" where
  "whitespace_or_control s = list_ex (\<lambda>c. py_space c \<or> control_char c) s"

definition port_ok :: "jval \<Rightarrow> bool" where
  "port_ok p = (case p of JInt n \<Rightarrow> 1 \<le> n \<and> n \<le> 65535 | _ \<Rightarrow> False)"

definition validate_source :: "ntrip_source \<Rightarrow> (string, unit) result" where
  "validate_source s =
     (if ns_id s = [] \<or> ns_label s = [] \<or> ns_host s = [] \<or> ns_mountpoint s = [] \<or> \<not> port_ok (ns_port s)
      then Inl ''invalid_rtk_source''
      else if list_ex (list_ex control_char) [ns_id s, ns_label s, ns_username s, ns_password s] then Inl ''invalid_rtk_source''
      else if whitespace_or_control (ns_host s) then Inl ''invalid_rtk_endpoint''
      else if list_ex (\<lambda>c. c \<in> {CHR ''/'', CHR 0x5C, CHR ''@'', CHR ''?'', CHR ''#''}) (ns_host s) then Inl ''invalid_rtk_endpoint''
      else if whitespace_or_control (ns_mountpoint s) then Inl ''invalid_rtk_endpoint''
      else if list_ex (\<lambda>c. c \<in> {CHR 0x5C, CHR ''?'', CHR ''#''}) (ns_mountpoint s) then Inl ''invalid_rtk_endpoint''
      else if contains ''://'' (ns_host s) \<or> contains ''://'' (ns_mountpoint s) then Inl ''invalid_rtk_endpoint''
      else Inr ())"

definition config_text :: "jval option \<Rightarrow> string \<Rightarrow> (string, string) result" where
  "config_text v fallback =
     (case v of None \<Rightarrow> Inr fallback | Some JNull \<Rightarrow> Inr fallback | Some (JStr s) \<Rightarrow> Inr s
      | Some _ \<Rightarrow> Inl ''invalid_rtk_source'')"

definition parse_source :: "jval \<Rightarrow> (string, ntrip_source) result" where
  "parse_source raw =
     (case raw of JObj kvs \<Rightarrow>
        (let get = map_of kvs in
         bind_res (config_text (get ''id'') '''') (\<lambda>sid.
         bind_res (case get ''password'' of None \<Rightarrow> Inr '''' | Some (JStr p) \<Rightarrow> Inr p | Some _ \<Rightarrow> Inl ''invalid_rtk_source'') (\<lambda>password.
         bind_res (config_text (get ''label'') sid) (\<lambda>label.
         bind_res (config_text (get ''host'') '''') (\<lambda>host.
         bind_res (config_text (get ''mountpoint'') '''') (\<lambda>mountpoint.
         bind_res (config_text (get ''username'') '''') (\<lambda>username.
         let s = \<lparr> ns_id = sid, ns_label = label, ns_host = host,
                   ns_port = (case get ''port'' of None \<Rightarrow> JInt 2101 | Some p \<Rightarrow> p),
                   ns_mountpoint = mountpoint, ns_username = username, ns_password = password \<rparr>
         in bind_res (validate_source s) (\<lambda>_. Inr s))))))))
      | _ \<Rightarrow> Inl ''invalid_rtk_source'')"

definition document_or_empty :: "jval \<Rightarrow> jval" where
  "document_or_empty v =
     (if v \<in> {JNull, JBool False, JInt 0, JFloat (Fin 0), JStr '''', JList [], JObj []} then JObj [] else v)"

text \<open>\<open>None\<close>: the file cannot be read, or is no YAML.\<close>

definition load_sources :: "jval option \<Rightarrow> (string, ntrip_source list \<times> string) result" where
  "load_sources file =
     (let failure = ''invalid_or_unreadable_rtk_sources_config'';
          attempt = (case map_option document_or_empty file of
             Some (JObj kvs) \<Rightarrow>
               (case (case map_of kvs ''sources'' of None \<Rightarrow> JList [] | Some v \<Rightarrow> v) of
                  JList raws \<Rightarrow>
                    bind_res (map_res parse_source raws) (\<lambda>sources.
                    if sources = [] \<or> \<not> distinct (map ns_id sources) then Inl ''invalid_rtk_sources_config''
                    else bind_res (config_text (map_of kvs ''active_source_id'') '''') (\<lambda>active.
                    if active \<noteq> '''' \<and> active \<notin> ns_id ` set sources then Inl ''invalid_rtk_sources_config''
                    else Inr (sources, active)))
                | _ \<Rightarrow> Inl ''invalid_rtk_sources_config'')
           | _ \<Rightarrow> Inl failure)
      in case attempt of Inl e \<Rightarrow> Inl failure | Inr r \<Rightarrow> Inr r)"

subsection \<open>The request\<close>

definition base64_char :: "nat \<Rightarrow> char" where
  "base64_char n = ''ABCDEFGHIJKLMNOPQRSTUVWXYZabcdefghijklmnopqrstuvwxyz0123456789+/'' ! n"

fun base64 :: "nat list \<Rightarrow> string" where
  "base64 [] = []"
| "base64 [a] = [base64_char (a div 4), base64_char (a mod 4 * 16), CHR ''='', CHR ''='']"
| "base64 [a, b] = [base64_char (a div 4), base64_char (a mod 4 * 16 + b div 16), base64_char (b mod 16 * 4), CHR ''='']"
| "base64 (a # b # c # rest) =
     [base64_char (a div 4), base64_char (a mod 4 * 16 + b div 16), base64_char (b mod 16 * 4 + c div 64), base64_char (c mod 64)] @ base64 rest"

text \<open>UTF-8 of the characters of the model.\<close>

definition utf8 :: "string \<Rightarrow> nat list" where
  "utf8 s = concat (map (\<lambda>c. let n = (of_char c :: nat) in if n < 128 then [n] else [192 + n div 64, 128 + n mod 64]) s)"

definition line_end :: string where
  "line_end = [CHR 0x0D, CHR 0x0A]"

definition port_text :: "jval \<Rightarrow> string" where
  "port_text p = (case p of JInt n \<Rightarrow> str_of_int n | _ \<Rightarrow> '''')"

definition host_header :: "string \<Rightarrow> string" where
  "host_header host = (if CHR '':'' \<in> set host then ''['' @ host @ '']'' else host)"

definition ntrip_request :: "ntrip_source \<Rightarrow> string" where
  "ntrip_request s =
     ''GET /'' @ dropWhile (\<lambda>c. c = CHR ''/'') (ns_mountpoint s) @ '' HTTP/1.1'' @ line_end @
     ''Host: '' @ host_header (ns_host s) @ '':'' @ port_text (ns_port s) @ line_end @
     ''User-Agent: NTRIP RTKLIB/2.4.3'' @ line_end @
     ''Accept: */*'' @ line_end @
     ''Connection: close'' @ line_end @
     ''Ntrip-Version: Ntrip/2.0'' @ line_end @
     ''Authorization: Basic '' @ base64 (utf8 (ns_username s @ '':'' @ ns_password s)) @ line_end @
     line_end"

definition ascii_text :: "string \<Rightarrow> bool" where
  "ascii_text s = list_all (\<lambda>c. (of_char c :: nat) < 128) s"

subsection \<open>The node\<close>

record ntrip_params =
  np_connect_timeout :: pyfloat
  np_reconnect_delay :: pyfloat
  np_max_delay :: pyfloat
  np_stale_timeout :: pyfloat

text \<open>
  Where the reader thread is: at the top of its loop, dialling, reading the response header before a
  deadline, with a payload to process, waiting for the socket, sleeping before the next attempt, ended.
\<close>

datatype phase =
    LoopTop | Dialing | Handshaking pyfloat "octet list"
  | Processing rtcm_decoder "chunk_decoder option" "octet list" "pyfloat option"
  | Receiving rtcm_decoder "chunk_decoder option" "pyfloat option"
  | Sleeping | Ended

record ntrip_node =
  nn_params :: ntrip_params
  nn_source :: ntrip_source
  nn_stop :: bool
  nn_wake :: bool
  nn_connected :: bool
  nn_state :: acquisition
  nn_error :: string
  nn_last_frame :: "pyfloat option"
  nn_received :: int
  nn_crc :: int
  nn_sequence :: int
  nn_delay :: pyfloat
  nn_phase :: phase

definition positive_finite :: "pyfloat \<Rightarrow> bool" where
  "positive_finite x = (isfinite x \<and> flt fzero x)"

definition select_source :: "string \<Rightarrow> ntrip_source list \<times> string \<Rightarrow> (string, ntrip_source) result" where
  "select_source override loaded =
     (let active = (if py_strip override \<noteq> '''' then py_strip override else snd loaded) in
      if active = '''' then Inl ''active_source_id is required in config or launch''
      else of_option ''unknown_active_source_id'' (List.find (\<lambda>s. ns_id s = active) (fst loaded)))"

definition new_ntrip_node ::
    "string \<Rightarrow> jval option \<Rightarrow> pyfloat \<Rightarrow> pyfloat \<Rightarrow> ntrip_params \<Rightarrow> string \<Rightarrow> string \<Rightarrow> string \<Rightarrow> (string, ntrip_node) result" where
  "new_ntrip_node path file status_period read_timeout p override rtcm_topic status_topic =
     (if py_strip path = '''' then Inl ''sources_config is required''
      else if \<not> list_all positive_finite [status_period, np_connect_timeout p, read_timeout, np_reconnect_delay p, np_max_delay p, np_stale_timeout p]
      then Inl ''must be positive and finite''
      else if flt (np_max_delay p) (np_reconnect_delay p) then Inl ''max_reconnect_delay_s must not be below reconnect_delay_s''
      else bind_res (load_sources file) (\<lambda>loaded. bind_res (select_source override loaded) (\<lambda>source.
        if py_strip rtcm_topic = '''' \<or> py_strip status_topic = '''' then Inl ''RTCM and status topics are required''
        else Inr \<lparr> nn_params = p, nn_source = source, nn_stop = False, nn_wake = False, nn_connected = False,
            nn_state = AcqDisconnected, nn_error = '''', nn_last_frame = None, nn_received = 0, nn_crc = 0,
            nn_sequence = 0, nn_delay = np_reconnect_delay p, nn_phase = LoopTop \<rparr>)))"

text \<open>The exceptions the loop catches; a \<open>ConnectionError\<close> carries its text.\<close>

datatype ntrip_fault = ConnectionFault string | OsFault | ValueFault | InterruptedFault

datatype recv = TimedOut | Received "octet list" | RecvFailed ntrip_fault

text \<open>Dialling fails, or connects; the request is then sent at a time, or sending it fails.\<close>

datatype dial = DialFailed ntrip_fault | Dialed pyfloat "ntrip_fault option"

record ntrip_status =
  nt_state :: acquisition
  nt_fresh :: bool
  nt_age :: pyfloat
  nt_received :: int
  nt_crc :: int
  nt_source :: string
  nt_detail :: string

datatype ntrip_out = Requested string | RtcmPublished rtcm_message | StatusPublished ntrip_status

datatype ntrip_event =
    LoopTurn | DialResult dial | HandshakeRead pyfloat recv
  | ProcessPayload "nat \<Rightarrow> pyfloat \<times> pyfloat" pyfloat | StreamRead recv | SleepOver | StatusTick pyfloat | Destroy

definition set_connected :: "bool \<Rightarrow> string \<Rightarrow> ntrip_node \<Rightarrow> ntrip_node" where
  "set_connected up error n =
     (let m = n \<lparr> nn_connected := up, nn_error := error \<rparr>
      in if up then m \<lparr> nn_last_frame := None, nn_state := AcqConnectedNoData \<rparr> else m \<lparr> nn_state := AcqDisconnected \<rparr>)"

definition set_stale :: "ntrip_node \<Rightarrow> ntrip_node" where
  "set_stale n = n \<lparr> nn_connected := False, nn_state := AcqStale, nn_error := '''' \<rparr>"

definition set_error :: "string \<Rightarrow> ntrip_node \<Rightarrow> ntrip_node" where
  "set_error error n =
     n \<lparr> nn_connected := False, nn_state := AcqError,
         nn_error := (if starts_with ''ntrip_'' error then error else ''ntrip_connection_failed'') \<rparr>"

definition stream_failed :: "ntrip_fault \<Rightarrow> ntrip_node \<Rightarrow> ntrip_node" where
  "stream_failed f n =
     (case f of InterruptedFault \<Rightarrow> n
      | ConnectionFault e \<Rightarrow> if e \<noteq> ''ntrip_corrections_stale'' then set_error e n else n
      | OsFault \<Rightarrow> set_error ''ntrip_connection_failed'' n
      | ValueFault \<Rightarrow> set_error ''ntrip_connection_failed'' n) \<lparr> nn_phase := Sleeping \<rparr>"

definition publish_frame :: "octet list \<Rightarrow> pyfloat \<Rightarrow> ntrip_node \<Rightarrow> ntrip_node \<times> ntrip_out list" where
  "publish_frame frame now n =
     (if nn_stop n then (n, [])
      else (n \<lparr> nn_sequence := nn_sequence n + 1, nn_last_frame := Some now, nn_received := nn_received n + 1,
              nn_connected := True, nn_state := AcqReceiving, nn_error := '''' \<rparr>,
            [RtcmPublished \<lparr> rm_data = frame, rm_source = ns_id (nn_source n), rm_sequence = nn_sequence n + 1 \<rparr>]))"

text \<open>The frames of one payload, with the clock readings of each: in the publication and after it.\<close>

fun publish_frames :: "octet list list \<Rightarrow> (nat \<Rightarrow> pyfloat \<times> pyfloat) \<Rightarrow> nat \<Rightarrow> pyfloat option \<Rightarrow> ntrip_node \<Rightarrow>
    ntrip_node \<times> pyfloat option \<times> ntrip_out list" where
  "publish_frames [] clock k last_valid n = (n, last_valid, [])"
| "publish_frames (f # fs) clock k last_valid n =
     (let (n1, out) = publish_frame f (fst (clock k)) n;
          (n2, last_valid2, outs) = publish_frames fs clock (Suc k) (Some (snd (clock k))) (n1 \<lparr> nn_delay := np_reconnect_delay (nn_params n1) \<rparr>)
      in (n2, last_valid2, out @ outs))"

definition decode_body :: "chunk_decoder option \<Rightarrow> octet list \<Rightarrow> (string, chunk_decoder option \<times> octet list) result" where
  "decode_body chunks payload =
     (case chunks of None \<Rightarrow> Inr (None, payload)
      | Some c \<Rightarrow> bind_res (chunk_feed c payload) (\<lambda>(c1, body). Inr (Some c1, body)))"

definition stale_since :: "pyfloat option \<Rightarrow> pyfloat \<Rightarrow> pyfloat \<Rightarrow> bool" where
  "stale_since last_valid now timeout = (case last_valid of None \<Rightarrow> False | Some t \<Rightarrow> flt timeout (fsub now t))"

definition process_payload ::
    "rtcm_decoder \<Rightarrow> chunk_decoder option \<Rightarrow> octet list \<Rightarrow> pyfloat option \<Rightarrow> (nat \<Rightarrow> pyfloat \<times> pyfloat) \<Rightarrow> pyfloat \<Rightarrow> ntrip_node \<Rightarrow> ntrip_node \<times> ntrip_out list" where
  "process_payload decoder chunks payload last_valid clock now n =
     (if nn_stop n then (n \<lparr> nn_phase := Sleeping \<rparr>, [])
      else case decode_body chunks payload of
        Inl e \<Rightarrow> (stream_failed (ConnectionFault e) n, [])
      | Inr (chunks1, body) \<Rightarrow>
          (let (decoder1, frames) = rtcm_feed decoder body;
               n1 = n \<lparr> nn_crc := nn_crc n + dec_crc_errors decoder1 \<rparr>;
               (n2, last_valid2, outs) = publish_frames frames clock 0 last_valid n1
           in if (case chunks1 of None \<Rightarrow> False | Some c \<Rightarrow> cd_finished c)
              then (stream_failed (ConnectionFault ''ntrip_stream_closed'') n2, outs)
              else if stale_since last_valid2 now (np_stale_timeout (nn_params n2))
              then (stream_failed (ConnectionFault ''ntrip_corrections_stale'') (set_stale n2), outs)
              else (n2 \<lparr> nn_phase := Receiving (decoder1 \<lparr> dec_crc_errors := 0 \<rparr>) chunks1 last_valid2 \<rparr>, outs)))"

definition dial_result :: "dial \<Rightarrow> ntrip_node \<Rightarrow> ntrip_node \<times> ntrip_out list" where
  "dial_result r n =
     (case r of
        DialFailed f \<Rightarrow> (stream_failed f n, [])
      | Dialed now sent \<Rightarrow>
          if nn_stop n then (stream_failed InterruptedFault n, [])
          else if \<not> ascii_text (ntrip_request (nn_source n)) then (stream_failed ValueFault n, [])
          else (case sent of
              Some f \<Rightarrow> (stream_failed f n, [])
            | None \<Rightarrow> (n \<lparr> nn_phase := Handshaking (fadd now (np_connect_timeout (nn_params n))) [] \<rparr>,
                       [Requested (ntrip_request (nn_source n))])))"

definition handshake_read :: "pyfloat \<Rightarrow> octet list \<Rightarrow> pyfloat \<Rightarrow> recv \<Rightarrow> ntrip_node \<Rightarrow> ntrip_node" where
  "handshake_read deadline data now r n =
     (if fle (fsub deadline now) fzero then stream_failed (ConnectionFault ''ntrip_handshake_timeout'') n
      else case r of
        TimedOut \<Rightarrow> n
      | RecvFailed f \<Rightarrow> stream_failed f n
      | Received bytes \<Rightarrow>
          if bytes = [] then stream_failed (ConnectionFault ''ntrip_closed_during_handshake'') n
          else (case parse_response (data @ bytes) of
              Inl e \<Rightarrow> stream_failed (ConnectionFault e) n
            | Inr None \<Rightarrow> n \<lparr> nn_phase := Handshaking deadline (data @ bytes) \<rparr>
            | Inr (Some response) \<Rightarrow>
                (set_connected True '''' n) \<lparr> nn_phase := Processing new_rtcm_decoder
                   (if nr_chunked response then Some new_chunk_decoder else None) (nr_payload response) None \<rparr>))"

definition sleep_over :: "ntrip_node \<Rightarrow> ntrip_node" where
  "sleep_over n =
     (if nn_wake n then n \<lparr> nn_wake := False, nn_delay := np_reconnect_delay (nn_params n), nn_phase := LoopTop \<rparr>
      else n \<lparr> nn_delay := pymin (fmul (nn_delay n) (Fin 2)) (np_max_delay (nn_params n)), nn_phase := LoopTop \<rparr>)"

definition status_detail :: "acquisition \<Rightarrow> string \<Rightarrow> string" where
  "status_detail st error =
     (case st of AcqError \<Rightarrow> if error = '''' then ''ntrip_error'' else error
      | AcqConnectedNoData \<Rightarrow> ''connected_no_data'' | AcqReceiving \<Rightarrow> ''receiving_rtcm''
      | AcqStale \<Rightarrow> ''corrections_stale'' | _ \<Rightarrow> ''disconnected'')"

definition publish_status :: "pyfloat \<Rightarrow> ntrip_node \<Rightarrow> ntrip_node \<times> ntrip_out list" where
  "publish_status now n =
     (let age = (case nn_last_frame n of None \<Rightarrow> NaN | Some t \<Rightarrow> pymax fzero (fsub now t));
          expired = (nn_connected n \<and> nn_last_frame n \<noteq> None \<and> flt (np_stale_timeout (nn_params n)) age);
          st = (if nn_connected n \<and> nn_last_frame n = None then AcqConnectedNoData
                else if expired then AcqStale else nn_state n);
          n1 = (if expired then n \<lparr> nn_state := AcqStale \<rparr> else n)
      in (n1, [StatusPublished \<lparr> nt_state = st, nt_fresh = (st = AcqReceiving \<and> isfinite age \<and> fle age (np_stale_timeout (nn_params n))),
             nt_age = f32 age, nt_received = nn_received n, nt_crc = nn_crc n, nt_source = ns_id (nn_source n),
             nt_detail = status_detail st (nn_error n) \<rparr>]))"

definition ntrip_step :: "ntrip_node \<Rightarrow> ntrip_event \<Rightarrow> ntrip_node \<times> ntrip_out list" where
  "ntrip_step n event =
     (case event of
        StatusTick now \<Rightarrow> publish_status now n
      | Destroy \<Rightarrow> (n \<lparr> nn_stop := True, nn_wake := True \<rparr>, [])
      | LoopTurn \<Rightarrow> (case nn_phase n of LoopTop \<Rightarrow> (n \<lparr> nn_phase := (if nn_stop n then Ended else Dialing) \<rparr>, []) | _ \<Rightarrow> (n, []))
      | DialResult r \<Rightarrow> (case nn_phase n of Dialing \<Rightarrow> dial_result r n | _ \<Rightarrow> (n, []))
      | HandshakeRead now r \<Rightarrow> (case nn_phase n of Handshaking deadline data \<Rightarrow> (handshake_read deadline data now r n, []) | _ \<Rightarrow> (n, []))
      | ProcessPayload clock now \<Rightarrow>
          (case nn_phase n of Processing decoder chunks payload last_valid \<Rightarrow> process_payload decoder chunks payload last_valid clock now n
           | _ \<Rightarrow> (n, []))
      | StreamRead r \<Rightarrow>
          (case nn_phase n of Receiving decoder chunks last_valid \<Rightarrow>
             (case r of
                TimedOut \<Rightarrow> (n \<lparr> nn_phase := Processing decoder chunks [] last_valid \<rparr>, [])
              | RecvFailed f \<Rightarrow> (stream_failed f n, [])
              | Received bytes \<Rightarrow>
                  if bytes = [] then (stream_failed (ConnectionFault ''ntrip_stream_closed'') n, [])
                  else (n \<lparr> nn_phase := Processing decoder chunks bytes last_valid \<rparr>, []))
           | _ \<Rightarrow> (n, []))
      | SleepOver \<Rightarrow> (case nn_phase n of Sleeping \<Rightarrow> (sleep_over n, []) | _ \<Rightarrow> (n, [])))"

subsection \<open>Invariant of the node\<close>

definition rtcms :: "ntrip_out list \<Rightarrow> rtcm_message list" where
  "rtcms outs = concat (map (\<lambda>x. case x of RtcmPublished m \<Rightarrow> [m] | _ \<Rightarrow> []) outs)"

definition safe_detail :: "string \<Rightarrow> bool" where
  "safe_detail s =
     (starts_with ''ntrip_'' s \<or> s \<in> {''connected_no_data'', ''receiving_rtcm'', ''corrections_stale'', ''disconnected''})"

definition ntrip_inv :: "ntrip_params \<Rightarrow> ntrip_source \<Rightarrow> ntrip_node \<Rightarrow> bool" where
  "ntrip_inv p src n =
     (nn_params n = p \<and> nn_source n = src \<and> nn_received n = nn_sequence n \<and>
      (nn_error n = '''' \<or> starts_with ''ntrip_'' (nn_error n)) \<and>
      fle (np_reconnect_delay p) (nn_delay n) \<and> fle (nn_delay n) (np_max_delay p))"

definition ntrip_allowed :: "ntrip_source \<Rightarrow> ntrip_out \<Rightarrow> bool" where
  "ntrip_allowed src out =
     (case out of
        Requested r \<Rightarrow> r = ntrip_request src
      | RtcmPublished m \<Rightarrow> validate_rtcm3_frame (rm_data m) = Accepted \<and> rm_source m = ns_id src
      | StatusPublished st \<Rightarrow> safe_detail (nt_detail st) \<and> nt_source st = ns_id src \<and> (nt_fresh st \<longrightarrow> nt_state st = AcqReceiving))"

text \<open>What a step does: it keeps the invariant, its outputs are allowed, and it numbers its frames on.\<close>

definition step_sound :: "ntrip_params \<Rightarrow> ntrip_source \<Rightarrow> ntrip_node \<Rightarrow> ntrip_node \<Rightarrow> ntrip_out list \<Rightarrow> bool" where
  "step_sound p src n n2 outs =
     (ntrip_inv p src n2 \<and> list_all (ntrip_allowed src) outs \<and> nn_sequence n \<le> nn_sequence n2 \<and>
      map rm_sequence (rtcms outs) = [nn_sequence n + 1 .. nn_sequence n2])"

definition params_ok :: "ntrip_params \<Rightarrow> bool" where
  "params_ok p =
     (f64 (np_reconnect_delay p) \<and> positive_finite (np_reconnect_delay p) \<and> positive_finite (np_max_delay p) \<and>
      fle (np_reconnect_delay p) (np_max_delay p) \<and> positive_finite (np_stale_timeout p))"

lemma rtcms_simps [simp]:
  "rtcms [] = []" "rtcms (a @ b) = rtcms a @ rtcms b" "rtcms (RtcmPublished m # xs) = m # rtcms xs"
  "rtcms (Requested r # xs) = rtcms xs" "rtcms (StatusPublished st # xs) = rtcms xs"
  by (simp_all add: rtcms_def)

lemma step_sound_quiet:
  "ntrip_inv p src n2 \<Longrightarrow> nn_sequence n2 = nn_sequence n \<Longrightarrow> step_sound p src n n2 []"
  by (simp add: step_sound_def)

lemma step_sound_trans:
  "step_sound p src n n1 outs \<Longrightarrow> step_sound p src n1 n2 outs2 \<Longrightarrow> step_sound p src n n2 (outs @ outs2)"
  using upto_split2 [of "nn_sequence n + 1" "nn_sequence n1" "nn_sequence n2"]
  by (cases "nn_sequence n = nn_sequence n1") (auto simp: step_sound_def)

lemma rtcm_loop_accepted:
  "list_all (\<lambda>f. validate_rtcm3_frame f = Accepted) frames \<Longrightarrow>
     list_all (\<lambda>f. validate_rtcm3_frame f = Accepted) (snd (rtcm_loop d frames))"
proof (induction d frames rule: rtcm_loop.induct)
  case (1 d frames)
  then show ?case by (subst rtcm_loop.simps) (auto simp: Let_def)
qed

lemma rtcm_feed_accepted: "rtcm_feed d bytes = (d2, frames) \<Longrightarrow> list_all (\<lambda>f. validate_rtcm3_frame f = Accepted) frames"
  using rtcm_loop_accepted [of "[]" "d \<lparr> dec_buffer := dec_buffer d @ bytes \<rparr>"] by (simp add: rtcm_feed_def)

lemma stream_failed_inv [inv_intros]: "ntrip_inv p src n \<Longrightarrow> ntrip_inv p src (stream_failed f n)"
  by (auto simp: ntrip_inv_def stream_failed_def set_error_def starts_with_def split: ntrip_fault.splits)

lemma stream_failed_sequence [simp]: "nn_sequence (stream_failed f n) = nn_sequence n"
  by (simp add: stream_failed_def set_error_def split: ntrip_fault.splits)

lemma set_stale_inv [inv_intros]: "ntrip_inv p src n \<Longrightarrow> ntrip_inv p src (set_stale n)"
  by (simp add: ntrip_inv_def set_stale_def)

lemma set_stale_sequence [simp]: "nn_sequence (set_stale n) = nn_sequence n"
  by (simp add: set_stale_def)

lemma publish_frame_sound:
  "ntrip_inv p src n \<Longrightarrow> validate_rtcm3_frame f = Accepted \<Longrightarrow> publish_frame f t n = (n2, outs) \<Longrightarrow> step_sound p src n n2 outs"
  by (auto simp: publish_frame_def step_sound_def ntrip_inv_def ntrip_allowed_def split: if_splits)

lemma publish_frames_sound:
  "params_ok p \<Longrightarrow> ntrip_inv p src n \<Longrightarrow> list_all (\<lambda>f. validate_rtcm3_frame f = Accepted) fs \<Longrightarrow>
     publish_frames fs clock k lv n = (n2, lv2, outs) \<Longrightarrow> step_sound p src n n2 outs"
proof (induction fs arbitrary: k lv n outs)
  case Nil
  then show ?case by (simp add: step_sound_quiet)
next
  case (Cons f fs)
  obtain n1 o1 where p1: "publish_frame f (fst (clock k)) n = (n1, o1)" by fastforce
  let ?m = "n1 \<lparr> nn_delay := np_reconnect_delay (nn_params n1) \<rparr>"
  obtain o2 where p2: "publish_frames fs clock (Suc k) (Some (snd (clock k))) ?m = (n2, lv2, o2)" "outs = o1 @ o2"
    using Cons.prems(4) p1 by (auto split: prod.splits)
  have s1: "step_sound p src n n1 o1" using publish_frame_sound [OF Cons.prems(2) _ p1] Cons.prems(3) by simp
  then have "ntrip_inv p src ?m" using Cons.prems(1) by (auto simp: step_sound_def ntrip_inv_def params_ok_def dest: fle_not_NaN)
  then have "step_sound p src ?m n2 o2" using Cons.IH [OF Cons.prems(1) _ _ p2(1)] Cons.prems(3) by simp
  then have "step_sound p src n1 n2 o2" by (simp add: step_sound_def)
  then show ?case using step_sound_trans [OF s1] p2(2) by simp
qed

lemma process_payload_sound:
  assumes "params_ok p" "ntrip_inv p src n" "process_payload decoder chunks payload lv clock now n = (n2, outs)"
  shows "step_sound p src n n2 outs"
proof (cases "nn_stop n")
  case True
  then show ?thesis using assms by (auto simp: process_payload_def ntrip_inv_def intro!: step_sound_quiet)
next
  case False
  show ?thesis
  proof (cases "decode_body chunks payload")
    case (Inl e)
    then show ?thesis using assms False by (auto simp: process_payload_def intro!: step_sound_quiet inv_intros)
  next
    case (Inr r)
    obtain c1 body where r: "r = (c1, body)" by fastforce
    obtain d1 frames where f: "rtcm_feed decoder body = (d1, frames)" by fastforce
    let ?n1 = "n \<lparr> nn_crc := nn_crc n + dec_crc_errors d1 \<rparr>"
    obtain n3 lv3 o3 where p: "publish_frames frames clock 0 lv ?n1 = (n3, lv3, o3)" by (metis prod_cases3)
    have "ntrip_inv p src ?n1" using assms(2) by (simp add: ntrip_inv_def)
    then have "step_sound p src ?n1 n3 o3" using publish_frames_sound assms(1) rtcm_feed_accepted [OF f] p by blast
    then have s: "step_sound p src n n3 o3" by (simp add: step_sound_def)
    have inv: "ntrip_inv p src n3" using s by (simp add: step_sound_def)
    have same: "step_sound p src n m o3" if "ntrip_inv p src m" "nn_sequence m = nn_sequence n3" for m
      using s that by (simp add: step_sound_def)
    have "outs = o3 \<and> (n2 = stream_failed (ConnectionFault ''ntrip_stream_closed'') n3 \<or>
        n2 = stream_failed (ConnectionFault ''ntrip_corrections_stale'') (set_stale n3) \<or> (\<exists>x. n2 = n3 \<lparr> nn_phase := x \<rparr>))"
      using assms(3) False Inr r f p by (auto simp: process_payload_def Let_def split: if_splits option.splits)
    moreover have "ntrip_inv p src (n3 \<lparr> nn_phase := x \<rparr>)" for x using inv by (simp add: ntrip_inv_def)
    ultimately show ?thesis using same inv stream_failed_inv set_stale_inv stream_failed_sequence set_stale_sequence by force
  qed
qed

lemma doubled_delay:
  assumes "params_ok p" "fle (np_reconnect_delay p) d" "fle d (np_max_delay p)"
  shows "fle (np_reconnect_delay p) (pymin (fmul d (Fin 2)) (np_max_delay p)) \<and> fle (pymin (fmul d (Fin 2)) (np_max_delay p)) (np_max_delay p)"
proof -
  obtain r m where r: "np_reconnect_delay p = Fin r" "0 < r" "fl r = Fin r" and m: "np_max_delay p = Fin m"
    using assms(1) by (cases "np_reconnect_delay p"; cases "np_max_delay p") (auto simp: params_ok_def positive_finite_def fl_id simp del: f64.simps)
  obtain q where q: "d = Fin q" "r \<le> q" using assms(2,3) r m by (cases d) (auto simp: fle_def)
  have "fle (fl r) (fl (q * 2))" using q r by (intro fl_mono) simp
  then have "fle (Fin r) (fmul d (Fin 2))" using r q by simp
  moreover have "fmul d (Fin 2) \<noteq> NaN" using q by simp
  ultimately show ?thesis using assms(1) r m
    by (cases "fmul d (Fin 2)") (auto simp: pymin_def params_ok_def fle_def split: if_splits)
qed

lemma sleep_over_sound: "params_ok p \<Longrightarrow> ntrip_inv p src n \<Longrightarrow> step_sound p src n (sleep_over n) []"
  using doubled_delay [of p "nn_delay n"]
  by (intro step_sound_quiet) (auto simp: sleep_over_def ntrip_inv_def params_ok_def dest: fle_not_NaN)

lemma publish_status_sound: "ntrip_inv p src n \<Longrightarrow> publish_status now n = (n2, outs) \<Longrightarrow> step_sound p src n n2 outs"
  by (cases "nn_state n")
    (auto simp: publish_status_def Let_def step_sound_def ntrip_inv_def ntrip_allowed_def safe_detail_def status_detail_def starts_with_def
      split: if_splits)

lemma handshake_sound: "ntrip_inv p src n \<Longrightarrow> step_sound p src n (handshake_read deadline data now r n) []"
  by (rule step_sound_quiet)
    (auto simp: handshake_read_def set_connected_def ntrip_inv_def stream_failed_def set_error_def starts_with_def
      split: recv.splits sum.splits option.splits ntrip_fault.splits if_splits)

lemma dial_sound: "ntrip_inv p src n \<Longrightarrow> dial_result r n = (n2, outs) \<Longrightarrow> step_sound p src n n2 outs"
  by (auto simp: dial_result_def ntrip_allowed_def step_sound_def intro!: inv_intros split: dial.splits if_splits option.splits)
    (auto simp: ntrip_inv_def)

lemma phase_inv: "ntrip_inv p src n \<Longrightarrow> ntrip_inv p src (n \<lparr> nn_phase := x \<rparr>)"
  by (simp add: ntrip_inv_def)

lemma ntrip_step_sound:
  assumes "params_ok p" "ntrip_inv p src n" "ntrip_step n event = (n2, outs)"
  shows "step_sound p src n n2 outs"
proof (cases event)
  case LoopTurn
  then show ?thesis using assms by (auto simp: ntrip_step_def intro!: step_sound_quiet phase_inv split: phase.splits)
  next
  case (DialResult r)
  then show ?thesis using assms dial_sound by (auto simp: ntrip_step_def intro: step_sound_quiet split: phase.splits)
  next
  case (HandshakeRead now r)
  then show ?thesis using assms handshake_sound by (auto simp: ntrip_step_def intro: step_sound_quiet split: phase.splits)
  next
  case (ProcessPayload clock now)
  then show ?thesis using assms process_payload_sound by (auto simp: ntrip_step_def intro: step_sound_quiet split: phase.splits)
  next
  case (StreamRead r)
  then show ?thesis using assms(2,3)
    by (auto simp: ntrip_step_def intro!: step_sound_quiet phase_inv stream_failed_inv split: phase.splits recv.splits if_splits)
  next
  case SleepOver
  then show ?thesis using assms sleep_over_sound by (auto simp: ntrip_step_def intro: step_sound_quiet split: phase.splits)
  next
  case (StatusTick now)
  then show ?thesis using assms publish_status_sound by (simp add: ntrip_step_def)
  next
  case Destroy
  then show ?thesis using assms by (auto simp: ntrip_step_def ntrip_inv_def intro!: step_sound_quiet)
qed

lemma ntrip_run_sound:
  "params_ok p \<Longrightarrow> ntrip_inv p src n \<Longrightarrow> run ntrip_step n events = (n2, outs) \<Longrightarrow> step_sound p src n n2 outs"
proof (induction events arbitrary: n outs)
  case Nil
  then show ?case by (simp add: step_sound_quiet)
next
  case (Cons event events)
  obtain n1 o1 where s: "ntrip_step n event = (n1, o1)" by fastforce
  obtain o2 where r: "run ntrip_step n1 events = (n2, o2)" "outs = o1 @ o2"
    using Cons.prems(3) s by (auto simp: Let_def split: prod.splits)
  have s1: "step_sound p src n n1 o1" using ntrip_step_sound Cons.prems s by blast
  then show ?case using step_sound_trans [OF s1] Cons.IH [OF Cons.prems(1) _ r(1)] r(2) by (simp add: step_sound_def)
qed

lemma new_node_inv:
  assumes "new_ntrip_node path file period rt p override t1 t2 = Inr n" "f64 (np_reconnect_delay p)"
  shows "params_ok p \<and> ntrip_inv p (nn_source n) n \<and> nn_sequence n = 0"
proof -
  have "fle (np_reconnect_delay p) (np_max_delay p)" if "positive_finite (np_reconnect_delay p)" "positive_finite (np_max_delay p)"
    "\<not> flt (np_max_delay p) (np_reconnect_delay p)"
    using that by (cases "np_reconnect_delay p"; cases "np_max_delay p") (auto simp: positive_finite_def fle_def)
  then show ?thesis using assms
    by (auto simp: new_ntrip_node_def params_ok_def ntrip_inv_def bind_res_eq_Inr dest: fle_not_NaN split: if_splits)
qed

subsection \<open>From the caster to the receiver\<close>

text \<open>The Pixhawk adapter fed with the frames a source published, in order; every publication succeeds.\<close>

definition deliver :: "adapter \<Rightarrow> rtcm_message list \<Rightarrow> rtcm_message list" where
  "deliver a ms = snd (run on_rtcm a (map (\<lambda>m. (m, True, 0)) ms))"

lemma deliver_numbered:
  assumes "ad_enabled a" "py_strip sid \<noteq> []" "0 \<le> k"
    "ad_source a = Some sid \<longrightarrow> (\<forall>s. ad_sequence a = Some s \<longrightarrow> s \<le> k)"
    "list_all (\<lambda>m. validate_rtcm3_frame (rm_data m) = Accepted \<and> rm_source m = sid) ms"
    "map rm_sequence ms = [k + 1 .. j]"
  shows "deliver a ms = filter (\<lambda>m. length (rm_data m) \<le> 720) ms"
  using assms
proof (induction ms arbitrary: a k)
  case Nil
  then show ?case by (simp add: deliver_def)
next
  case (Cons m ms)
  obtain a1 outs where s: "on_rtcm a (m, True, 0) = (a1, outs)" by fastforce
  have q: "k + 1 \<le> j" using Cons.prems(6) by (cases "k + 1 \<le> j") auto
  then have m: "rm_sequence m = k + 1" "map rm_sequence ms = [k + 1 + 1 .. j]"
    using Cons.prems(6) by (simp_all add: upto_rec1)
  have v: "validate_rtcm3_frame (rm_data m) = Accepted" "rm_source m = sid" using Cons.prems(5) by simp_all
  have o: "outs = (if length (rm_data m) \<le> 720 then [m] else [])" and a1: "ad_enabled a1"
    "ad_source a1 = Some sid \<longrightarrow> (\<forall>s. ad_sequence a1 = Some s \<longrightarrow> s \<le> k + 1)"
    using s Cons.prems(1-4) m v
    by (auto simp: on_rtcm_def evaluate_rtcm_delivery_def sequence_transition_def Let_def split: if_splits option.splits)
  have "deliver a (m # ms) = outs @ deliver a1 ms" using s by (simp add: deliver_def case_prod_unfold Let_def)
  then show ?case using Cons.IH [OF a1(1) Cons.prems(2) _ a1(2) _ m(2)] Cons.prems(3,5) o by simp
qed

text \<open>C15. From the caster to the receiver: over any run of a corrections source whose parameters were
accepted, every frame it publishes is a valid RTCM frame under the configured identifier, the frames
are numbered 1, 2, 3 and so on, its status never shows another text than its own codes, and an
enabled adapter that receives the frames in order delivers to the autopilot exactly those of at most
720 bytes, none twice and none out of order, whenever the identifier is not blank.\<close>

theorem corrections_reach_receiver:
  assumes "new_ntrip_node path file period rt p override t1 t2 = Inr n0" "f64 (np_reconnect_delay p)"
    "run ntrip_step n0 events = (n, outs)"
  shows "map rm_sequence (rtcms outs) = [1 .. nn_received n] \<and> list_all (ntrip_allowed (nn_source n0)) outs \<and>
    (ad_enabled a \<and> ad_source a = None \<and> ad_sequence a = None \<and> py_strip (ns_id (nn_source n0)) \<noteq> [] \<longrightarrow>
     deliver a (rtcms outs) = filter (\<lambda>m. length (rm_data m) \<le> 720) (rtcms outs))"
proof -
  have n0: "params_ok p" "ntrip_inv p (nn_source n0) n0" "nn_sequence n0 = 0" using new_node_inv [OF assms(1,2)] by simp_all
  have s: "step_sound p (nn_source n0) n0 n outs" using ntrip_run_sound [OF n0(1,2) assms(3)] .
  have k: "map rm_sequence (rtcms outs) = [1 .. nn_received n]" "list_all (ntrip_allowed (nn_source n0)) outs"
    using s n0(3) by (simp_all add: step_sound_def ntrip_inv_def)
  have "list_all (\<lambda>m. validate_rtcm3_frame (rm_data m) = Accepted \<and> rm_source m = ns_id (nn_source n0)) (rtcms outs)"
    using k(2) by (auto simp: rtcms_def list_all_iff ntrip_allowed_def split: ntrip_out.splits)
  then show ?thesis using k deliver_numbered [of a "ns_id (nn_source n0)" 0 "rtcms outs" "nn_received n"] by simp
qed

subsection \<open>Corrections sent in chunks\<close>

text \<open>The reads of a stream, each followed by the processing of what was read, at one clock reading.\<close>

definition read_events :: "pyfloat \<Rightarrow> octet list list \<Rightarrow> ntrip_event list" where
  "read_events t reads = concat (map (\<lambda>r. [StreamRead (Received r), ProcessPayload (\<lambda>_. (t, t)) t]) reads)"

lemma publish_frames_running:
  "\<not> nn_stop n \<Longrightarrow> publish_frames fs (\<lambda>_. (t, t)) k lv n = (n2, lv2, outs) \<Longrightarrow>
     \<not> nn_stop n2 \<and> nn_params n2 = nn_params n \<and> map rm_data (rtcms outs) = fs \<and> (lv = None \<or> lv = Some t \<longrightarrow> lv2 = None \<or> lv2 = Some t)"
proof (induction fs arbitrary: k lv n outs)
  case (Cons f fs)
  obtain n1 o1 where p: "publish_frame f t n = (n1, o1)" by fastforce
  then have n1: "\<not> nn_stop n1" "nn_params n1 = nn_params n" "map rm_data (rtcms o1) = [f]"
    using Cons.prems(1) by (auto simp: publish_frame_def)
  obtain o2 where q: "publish_frames fs (\<lambda>_. (t, t)) (Suc k) (Some t) (n1 \<lparr> nn_delay := np_reconnect_delay (nn_params n1) \<rparr>) = (n2, lv2, o2)"
    "outs = o1 @ o2" using Cons.prems(2) p by (auto split: prod.splits)
  show ?case using Cons.IH [OF _ q(1)] n1 q(2) by simp
qed simp

lemma rtcm_feed_drain:
  assumes "rtcm_feed d body = (d1, frames)"
  shows "drain rtcm_scan (length (dec_buffer d @ body)) (dec_buffer d @ body) = (frames, dec_buffer d1)"
  using rtcm_loop_drain [of "d \<lparr> dec_buffer := dec_buffer d @ body \<rparr>" "[]"] assms
  by (cases "drain rtcm_scan (length (dec_buffer d @ body)) (dec_buffer d @ body)")
    (auto simp: rtcm_feed_def Let_def simp del: length_append)

lemma chunked_reads:
  assumes "t = Fin q" "positive_finite (np_stale_timeout p)"
  shows "nn_phase n = Receiving d (Some c) lv \<Longrightarrow> \<not> nn_stop n \<Longrightarrow> nn_params n = p \<Longrightarrow> lv = None \<or> lv = Some t \<Longrightarrow>
    [] \<notin> set reads \<Longrightarrow> chunk_rep c ps (concat reads) \<Longrightarrow> (concat reads = [] \<longrightarrow> ps = []) \<Longrightarrow> rtcm_scan (dec_buffer d) = None \<Longrightarrow>
    map rm_data (rtcms (snd (run ntrip_step n (read_events t reads)))) =
      fst (drain rtcm_scan (length (dec_buffer d @ concat (map snd ps))) (dec_buffer d @ concat (map snd ps)))"
proof (induction reads arbitrary: n d c lv ps)
  case Nil
  then show ?case using rtcm.drain_wait by (simp add: read_events_def)
next
  case (Cons r rs)
  obtain c1 k where c: "chunk_feed c r = Inr (c1, concat (map snd (take k ps)))" "chunk_rep c1 (drop k ps) (concat rs)"
    "concat rs = [] \<longrightarrow> drop k ps = []"
    using chunk_feed_rep [of c ps r "concat rs"] Cons.prems(6) by auto
  let ?body = "concat (map snd (take k ps))" and ?restp = "concat (map snd (drop k ps))"
  have fin: "\<not> cd_finished c1" using c(2) by (simp add: chunk_rep_def)
  obtain d1 frames where f: "rtcm_feed d ?body = (d1, frames)" by fastforce
  let ?n1 = "n \<lparr> nn_phase := Processing d (Some c) r lv \<rparr>"
  let ?n2 = "?n1 \<lparr> nn_crc := nn_crc ?n1 + dec_crc_errors d1 \<rparr>"
  obtain n3 lv3 o3 where p: "publish_frames frames (\<lambda>_. (t, t)) 0 lv ?n2 = (n3, lv3, o3)" by (metis prod_cases3)
  have n3: "\<not> nn_stop n3" "nn_params n3 = nn_params n" "map rm_data (rtcms o3) = frames" "lv3 = None \<or> lv3 = Some t"
    using publish_frames_running [OF _ p] Cons.prems(2,4) by auto
  have "\<not> stale_since lv3 t (np_stale_timeout p)"
    using n3(4) assms by (cases "np_stale_timeout p") (auto simp: stale_since_def positive_finite_def fsub_def)
  then have s2: "ntrip_step ?n1 (ProcessPayload (\<lambda>_. (t, t)) t) =
      (n3 \<lparr> nn_phase := Receiving (d1 \<lparr> dec_crc_errors := 0 \<rparr>) (Some c1) lv3 \<rparr>, o3)"
    using Cons.prems(2,3) c(1) fin f p n3(2) by (simp add: ntrip_step_def process_payload_def decode_body_def Let_def)
  have s1: "ntrip_step n (StreamRead (Received r)) = (?n1, [])"
    using Cons.prems(1,5) by (auto simp: ntrip_step_def)
  define n4 where "n4 = n3 \<lparr> nn_phase := Receiving (d1 \<lparr> dec_crc_errors := 0 \<rparr>) (Some c1) lv3 \<rparr>"
  have r1: "snd (run ntrip_step n (read_events t (r # rs))) = o3 @ snd (run ntrip_step n4 (read_events t rs))"
    using s1 s2 by (simp add: read_events_def n4_def case_prod_unfold Let_def)
  note dr = rtcm_feed_drain [OF f]
  have w: "rtcm_scan (dec_buffer d1) = None" using rtcm.drain_residual_waits [OF dr] .
  have ih: "map rm_data (rtcms (snd (run ntrip_step n4 (read_events t rs)))) =
      fst (drain rtcm_scan (length (dec_buffer d1 @ ?restp)) (dec_buffer d1 @ ?restp))"
    using Cons.IH [of n4 "d1 \<lparr> dec_crc_errors := 0 \<rparr>" c1 lv3 "drop k ps"] n3 c Cons.prems(3,5) w by (simp add: n4_def)
  have "concat (map snd ps) = ?body @ ?restp" by (metis append_take_drop_id concat_append map_append)
  then show ?case using r1 ih n3(3) rtcm.drain_append [of "dec_buffer d @ ?body" ?restp] dr
    by (simp add: case_prod_unfold Let_def del: length_append)
qed

text \<open>C16. A corrections stream that the caster sends in HTTP chunks comes out whole: when the payloads of
the chunks together are valid RTCM frames with other bytes between them, the node publishes exactly
those frames, in order, wherever the chunks cut the frames and wherever the reads of the socket cut
the chunks and their size lines.\<close>

theorem chunked_corrections_published:
  assumes "nn_phase n = Receiving new_rtcm_decoder (Some new_chunk_decoder) None" "\<not> nn_stop n"
    "positive_finite (np_stale_timeout (nn_params n))"
    "list_all http_chunk_ok ps" "concat (map snd ps) = rtcm_stream parts"
    "\<forall>(j, f)\<in>set parts. 0xD3 \<notin> set j \<and> validate_rtcm3_frame f = Accepted"
    "[] \<notin> set reads" "concat reads = chunk_stream ps"
  shows "map rm_data (rtcms (snd (run ntrip_step n (read_events (Fin q) reads)))) = map snd parts"
proof -
  have e: "chunk_stream ps = [] \<longrightarrow> ps = []" by (cases ps) (simp_all add: chunk_stream_def encode_chunk_def crlf_def)
  have w: "rtcm_scan (dec_buffer new_rtcm_decoder) = None" by (simp add: rtcm_scan_def new_rtcm_decoder_def)
  show ?thesis
    using chunked_reads [where t = "Fin q" and q = q and ps = ps and reads = reads, OF refl assms(3) assms(1,2) refl _ assms(7) _ _ w] new_chunk_rep [OF assms(4)] e
      drain_stream [OF assms(6)] assms(5,8)
    by (simp add: new_rtcm_decoder_def)
qed

subsection \<open>The request\<close>

abbreviation carriage_return :: char where
  "carriage_return \<equiv> CHR 0x0D"

lemma base64_alphabet: "list_all (\<lambda>n. n < 256) ns \<Longrightarrow> c \<in> set (base64 ns) \<Longrightarrow> 43 \<le> (of_char c :: nat)"
proof -
  have a: "43 \<le> (of_char (base64_char n) :: nat)" if "n < 64" for n
  proof -
    have "list_all (\<lambda>c. 43 \<le> (of_char c :: nat)) ''ABCDEFGHIJKLMNOPQRSTUVWXYZabcdefghijklmnopqrstuvwxyz0123456789+/''" by code_simp
    moreover have "base64_char n \<in> set ''ABCDEFGHIJKLMNOPQRSTUVWXYZabcdefghijklmnopqrstuvwxyz0123456789+/''"
      unfolding base64_char_def using that by (intro nth_mem) simp
    ultimately show ?thesis by (simp only: list_all_iff)
  qed
  show "list_all (\<lambda>n. n < 256) ns \<Longrightarrow> c \<in> set (base64 ns) \<Longrightarrow> 43 \<le> (of_char c :: nat)"
  proof (induction ns rule: base64.induct)
    case (2 x)
    then have "x div 4 < 64" "x mod 4 * 16 < 64" by auto
    then show ?case using 2 a by auto
  next
    case (3 x y)
    then have "x div 4 < 64" "x mod 4 * 16 + y div 16 < 64" "y mod 16 * 4 < 64" by auto
    then show ?case using 3 a by auto
  next
    case (4 x y z rest)
    then have "x div 4 < 64" "x mod 4 * 16 + y div 16 < 64" "y mod 16 * 4 + z div 64 < 64" "z mod 64 < 64" by auto
    then show ?case using 4 a by auto
  qed simp
qed

lemma utf8_bytes: "list_all (\<lambda>n. n < 256) (utf8 s)"
proof -
  have "(of_char c :: nat) div 64 < 4" for c :: char
    using nat_of_char_less_256 [of c] by (simp add: div_less_iff_less_mult)
  then have "192 + (of_char c :: nat) div 64 < 256" for c :: char by (rule less_le_trans [OF add_strict_left_mono]) simp
  moreover have "128 + (of_char c :: nat) mod 64 < 256" for c :: char by (rule less_trans [of _ "128 + 64"]) simp_all
  ultimately show ?thesis by (auto simp: utf8_def list_all_iff Let_def)
qed

lemma nat_digits_chars: "c \<in> set (nat_digits n) \<Longrightarrow> 48 \<le> (of_char c :: nat)"
proof (induction n arbitrary: c rule: nat_digits.induct)
  case (1 n)
  have "48 \<le> (of_char (char_of (48 + n mod 10) :: char) :: nat)" "n < 10 \<Longrightarrow> 48 \<le> (of_char (char_of (48 + n) :: char) :: nat)"
    by simp_all
  then show ?case using 1 by (subst (asm) nat_digits.simps) (auto split: if_splits)
qed

definition plain_line :: "string \<Rightarrow> bool" where
  "plain_line l = list_all (\<lambda>c. 32 \<le> (of_char c :: nat)) l"

lemma plain_line_append [simp]: "plain_line (a @ b) = (plain_line a \<and> plain_line b)"
  by (simp add: plain_line_def)

lemma plain_host: "\<not> whitespace_or_control h \<Longrightarrow> plain_line h"
  by (auto simp: whitespace_or_control_def plain_line_def list_ex_iff list_all_iff control_char_def not_less)

lemma plain_drop: "plain_line m \<Longrightarrow> plain_line (dropWhile P m)"
  by (auto simp: plain_line_def list_all_iff dest: set_dropWhileD)

lemma plain_constants:
  "plain_line ''GET /''" "plain_line '' HTTP/1.1''" "plain_line ''Host: ''" "plain_line '':''" "plain_line ''[''" "plain_line '']''"
  "plain_line ''User-Agent: NTRIP RTKLIB/2.4.3''" "plain_line ''Accept: */*''" "plain_line ''Connection: close''"
  "plain_line ''Ntrip-Version: Ntrip/2.0''" "plain_line ''Authorization: Basic ''"
  by code_simp+

definition request_lines :: "ntrip_source \<Rightarrow> string list" where
  "request_lines s =
     [''GET /'' @ dropWhile (\<lambda>c. c = CHR ''/'') (ns_mountpoint s) @ '' HTTP/1.1'',
      ''Host: '' @ host_header (ns_host s) @ '':'' @ port_text (ns_port s),
      ''User-Agent: NTRIP RTKLIB/2.4.3'', ''Accept: */*'', ''Connection: close'', ''Ntrip-Version: Ntrip/2.0'',
      ''Authorization: Basic '' @ base64 (utf8 (ns_username s @ '':'' @ ns_password s))]"

lemma validated_source:
  assumes "load_sources file = Inr (sources, active)" "s \<in> set sources"
  shows "validate_source s = Inr ()"
proof -
  obtain raws where "map_res parse_source raws = Inr sources"
    using assms(1) by (auto simp: load_sources_def Let_def bind_res_eq_Inr split: option.splits sum.splits jval.splits if_splits)
  then obtain raw where "parse_source raw = Inr s" using map_res_Inr_set assms(2) by metis
  then show ?thesis by (auto simp: parse_source_def Let_def bind_res_eq_Inr split: jval.splits)
qed

text \<open>C17. Nothing in the configuration file can change the shape of the request: for every source that was
loaded, the request is seven lines and an empty one; none of the seven is empty or contains a control
character, so neither the mountpoint, the host nor the credentials can add or end a header, and the
credentials appear only in base64.\<close>

theorem request_shape:
  assumes "load_sources file = Inr (sources, active)" "s \<in> set sources"
  shows "ntrip_request s = concat (map (\<lambda>l. l @ line_end) (request_lines s)) @ line_end \<and>
    list_all (\<lambda>l. l \<noteq> [] \<and> plain_line l) (request_lines s)"
proof -
  have v: "\<not> whitespace_or_control (ns_host s)" "\<not> whitespace_or_control (ns_mountpoint s)" "port_ok (ns_port s)"
    using validated_source [OF assms] by (auto simp: validate_source_def split: if_splits)
  obtain k where k: "ns_port s = JInt k" "1 \<le> k" using v(3) by (auto simp: port_ok_def split: jval.splits)
  have "plain_line (port_text (ns_port s))"
    using nat_digits_chars k by (fastforce simp: port_text_def str_of_int_def plain_line_def list_all_iff)
  moreover have "plain_line (base64 (utf8 x))" for x
    using base64_alphabet [OF utf8_bytes [of x]] by (fastforce simp: plain_line_def list_all_iff)
  moreover have "plain_line (host_header (ns_host s))"
    using plain_host [OF v(1)] plain_constants(5,6) by (simp only: host_header_def plain_line_append split: if_split) simp
  ultimately have "list_all (\<lambda>l. l \<noteq> [] \<and> plain_line l) (request_lines s)"
    unfolding request_lines_def using plain_drop [OF plain_host [OF v(2)]]
    by (simp only: list.pred_inject plain_line_append plain_constants) simp
  moreover have "ntrip_request s = concat (map (\<lambda>l. l @ line_end) (request_lines s)) @ line_end"
    by (simp only: ntrip_request_def request_lines_def list.map concat.simps append_assoc append_Nil2 append_Nil)
  ultimately show ?thesis by blast
qed

subsection \<open>Concrete inputs\<close>

definition sample_document :: jval where
  "sample_document = JObj [(''sources'', JList [JObj [(''id'', JStr ''b''), (''host'', JStr ''h''), (''mountpoint'', JStr ''M'')]]),
     (''active_source_id'', JStr ''b'')]"

definition sample_source :: ntrip_source where
  "sample_source = \<lparr> ns_id = ''b'', ns_label = ''b'', ns_host = ''h'', ns_port = JInt 2101, ns_mountpoint = ''M'', ns_username = '''', ns_password = '''' \<rparr>"

definition sample_ntrip_params :: ntrip_params where
  "sample_ntrip_params = \<lparr> np_connect_timeout = Fin 5, np_reconnect_delay = Fin 2, np_max_delay = Fin 60, np_stale_timeout = Fin 10 \<rparr>"

definition sample_ntrip :: ntrip_node where
  "sample_ntrip = \<lparr> nn_params = sample_ntrip_params, nn_source = sample_source, nn_stop = False, nn_wake = False, nn_connected = False,
     nn_state = AcqDisconnected, nn_error = '''', nn_last_frame = None, nn_received = 0, nn_crc = 0,
     nn_sequence = 0, nn_delay = Fin 2, nn_phase = LoopTop \<rparr>"

lemma sample_loaded: "load_sources (Some sample_document) = Inr ([sample_source], ''b'')"
  by code_simp

lemma sample_ntrip_made:
  "new_ntrip_node ''c'' (Some sample_document) (Fin 1) (Fin 2) sample_ntrip_params '''' ''r'' ''s'' = Inr sample_ntrip"
  by code_simp

lemma request_shape_witness:
  "ntrip_request sample_source = concat (map (\<lambda>l. l @ line_end) (request_lines sample_source)) @ line_end \<and>
    list_all (\<lambda>l. l \<noteq> [] \<and> plain_line l) (request_lines sample_source)"
  using request_shape [OF sample_loaded, of sample_source] by simp

definition sample_corrections :: "ntrip_event list" where
  "sample_corrections =
     [LoopTurn, DialResult (Dialed (Fin 1) None), HandshakeRead (Fin 2) (Received (bytes_of ''ICY 200 OK'' @ crlf @ sample_rtcm)),
      ProcessPayload (\<lambda>_. (Fin 2, Fin 2)) (Fin 2), StatusTick (Fin 3)]"

lemma corrections_reach_receiver_witness:
  "map rm_sequence (rtcms (snd (run ntrip_step sample_ntrip sample_corrections))) = [1 .. nn_received (fst (run ntrip_step sample_ntrip sample_corrections))]"
proof -
  have "f64 (np_reconnect_delay sample_ntrip_params)" by code_simp
  then show ?thesis
    using corrections_reach_receiver [OF sample_ntrip_made, where events = sample_corrections, OF _ prod.collapse [symmetric]]
    by blast
qed

definition sample_chunks :: "(octet list \<times> octet list) list" where
  "sample_chunks = [([51], take 3 sample_rtcm), ([48, 51], drop 3 sample_rtcm)]"

lemma chunked_corrections_published_witness:
  "map rm_data (rtcms (snd (run ntrip_step (sample_ntrip \<lparr> nn_phase := Receiving new_rtcm_decoder (Some new_chunk_decoder) None \<rparr>)
     (read_events (Fin 7) [take 2 (chunk_stream sample_chunks), take 9 (drop 2 (chunk_stream sample_chunks)), drop 11 (chunk_stream sample_chunks)])))) =
   [sample_rtcm]"
proof -
  have "http_chunk_ok ([51], take 3 sample_rtcm)" "http_chunk_ok ([48, 51], drop 3 sample_rtcm)"
    by (simp_all add: http_chunk_ok_def sample_rtcm_def raw_chunk_size_def byte_strip_def byte_space_def int_base16_def drop_hex_prefix_def hex_value_def)
  then have c: "list_all http_chunk_ok sample_chunks" by (simp add: sample_chunks_def)
  have s: "concat (map snd sample_chunks) = rtcm_stream [([], sample_rtcm)]"
    by (simp add: sample_chunks_def rtcm_stream_def sample_rtcm_def)
  have l: "length (chunk_stream sample_chunks) = 17"
    by (simp add: sample_chunks_def chunk_stream_def encode_chunk_def crlf_def sample_rtcm_def)
  have ne: "chunk_stream sample_chunks \<noteq> []" using l by auto
  have "concat [take 2 x, take 9 (drop 2 x), drop 11 x] = x" for x :: "octet list"
    using append_take_drop_id [of 9 "drop 2 x"] by simp
  then show ?thesis
    using chunked_corrections_published [where n = "sample_ntrip \<lparr> nn_phase := Receiving new_rtcm_decoder (Some new_chunk_decoder) None \<rparr>" and q = 7
        and reads = "[take 2 (chunk_stream sample_chunks), take 9 (drop 2 (chunk_stream sample_chunks)), drop 11 (chunk_stream sample_chunks)]",
        OF _ _ _ c s] l ne sample_rtcm_valid
    by (auto simp: sample_ntrip_def sample_ntrip_params_def positive_finite_def)
qed

end
