(* ===== verification/Patrol_Battery.thy ===== *)
theory Patrol_Battery
  imports Prelude
begin

section \<open>Battery inputs of the patrol\<close>

text \<open>
  \<open>salus_navigation/patrol_battery_input.py\<close>: which battery input may request a return. A valid mission
  guard takes precedence over the state of charge, and a request is latched once per mission.
\<close>

text \<open>
  \<open>str.upper()\<close> on code points below 256. The two letters whose capital is above 255 are left as they are:
  no word the code compares with holds either of them.
\<close>

definition py_upper_char :: "char \<Rightarrow> string" where
  "py_upper_char c = (let n = (of_char c :: nat) in
     if 97 \<le> n \<and> n \<le> 122 \<or> 224 \<le> n \<and> n \<le> 254 \<and> n \<noteq> 247 then [char_of (n - 32)]
     else if n = 223 then ''SS'' else [c])"

definition py_upper :: "string \<Rightarrow> string" where
  "py_upper s = concat (map py_upper_char s)"

record guard_input =
  gi_ready :: bool
  gi_fresh :: bool
  gi_state :: string
  gi_recommended :: bool
  gi_received :: pyfloat

record soc_input =
  si_present :: bool
  si_percentage :: pyfloat
  si_received :: pyfloat

datatype patrol_battery_source = FromGuard | FromSoc | FromNothing

datatype battery_reason =
    GuardRecommended | GuardNotRecommended | SocThreshold | SocAboveThreshold | GuardUnavailable | NoValidInput

record battery_decision =
  bd_newly :: bool
  bd_latched :: bool
  bd_source :: patrol_battery_source
  bd_reason :: battery_reason

record patrol_battery_input =
  bi_timeout :: pyfloat
  bi_threshold :: pyfloat
  bi_seen :: bool
  bi_guard :: "guard_input option"
  bi_soc :: "soc_input option"
  bi_latched :: bool

record battery_snapshot =
  bs_seen :: bool
  bs_guard_valid :: bool
  bs_guard_state :: string
  bs_guard_age :: "pyfloat option"
  bs_soc_valid :: bool
  bs_soc :: "pyfloat option"
  bs_latched :: bool

definition invalid_guard_states :: "string list" where
  "invalid_guard_states = [''STALE'', ''SUSPECT'', ''UNAVAILABLE'']"

text \<open>\<open>None\<close> is the \<open>ValueError\<close> of a bad parameter.\<close>

definition new_battery_input :: "pyfloat \<Rightarrow> pyfloat \<Rightarrow> patrol_battery_input option" where
  "new_battery_input timeout threshold =
     (if \<not> isfinite timeout \<or> fle timeout fzero then None
      else if \<not> isfinite threshold \<or> \<not> (fle fzero threshold \<and> fle threshold (Fin 100)) then None
      else Some \<lparr> bi_timeout = timeout, bi_threshold = threshold, bi_seen = False, bi_guard = None, bi_soc = None,
        bi_latched = False \<rparr>)"

definition begin_mission :: "patrol_battery_input \<Rightarrow> patrol_battery_input" where
  "begin_mission b = b \<lparr> bi_latched := False \<rparr>"

definition end_mission :: "patrol_battery_input \<Rightarrow> patrol_battery_input" where
  "end_mission b = b \<lparr> bi_latched := False \<rparr>"

definition guard_valid :: "patrol_battery_input \<Rightarrow> pyfloat \<Rightarrow> bool" where
  "guard_valid b now =
     (case bi_guard b of None \<Rightarrow> False
      | Some g \<Rightarrow>
          (let age = fsub now (gi_received g)
           in fle fzero age \<and> fle age (bi_timeout b) \<and> gi_ready g \<and> gi_fresh g \<and>
              gi_state g \<notin> set invalid_guard_states))"

definition soc_valid :: "patrol_battery_input \<Rightarrow> pyfloat \<Rightarrow> bool" where
  "soc_valid b now =
     (case bi_soc b of None \<Rightarrow> False
      | Some c \<Rightarrow>
          (let age = fsub now (si_received c)
           in fle fzero age \<and> fle age (bi_timeout b) \<and> si_present c \<and> isfinite (si_percentage c) \<and>
              fle fzero (si_percentage c) \<and> fle (si_percentage c) (Fin 100)))"

definition latch_return :: "patrol_battery_input \<Rightarrow> patrol_battery_source \<Rightarrow> battery_reason \<Rightarrow> patrol_battery_input \<times> battery_decision" where
  "latch_return b source reason =
     (b \<lparr> bi_latched := True \<rparr>,
      \<lparr> bd_newly = (\<not> bi_latched b), bd_latched = True, bd_source = source, bd_reason = reason \<rparr>)"

definition no_return :: "patrol_battery_input \<Rightarrow> patrol_battery_source \<Rightarrow> battery_reason \<Rightarrow> battery_decision" where
  "no_return b source reason =
     \<lparr> bd_newly = False, bd_latched = bi_latched b, bd_source = source, bd_reason = reason \<rparr>"

definition evaluate_battery :: "patrol_battery_input \<Rightarrow> pyfloat \<Rightarrow> patrol_battery_input \<times> battery_decision" where
  "evaluate_battery b now =
     (if guard_valid b now then
        (let b1 = b \<lparr> bi_seen := True \<rparr> in
         if (case bi_guard b of None \<Rightarrow> False | Some g \<Rightarrow> gi_recommended g) then latch_return b1 FromGuard GuardRecommended
         else (b1, no_return b1 FromGuard GuardNotRecommended))
      else if \<not> bi_seen b \<and> soc_valid b now then
        (if (case bi_soc b of None \<Rightarrow> False | Some c \<Rightarrow> fle (si_percentage c) (bi_threshold b))
         then latch_return b FromSoc SocThreshold
         else (b, no_return b FromSoc SocAboveThreshold))
      else (b, no_return b FromNothing (if bi_seen b then GuardUnavailable else NoValidInput)))"

definition ingest_guard ::
    "patrol_battery_input \<Rightarrow> bool \<Rightarrow> bool \<Rightarrow> string \<Rightarrow> bool \<Rightarrow> pyfloat \<Rightarrow> patrol_battery_input \<times> battery_decision" where
  "ingest_guard b ready fresh state recommended now =
     evaluate_battery (b \<lparr> bi_guard := Some \<lparr> gi_ready = ready, gi_fresh = fresh, gi_state = py_upper (py_strip state),
       gi_recommended = recommended, gi_received = now \<rparr> \<rparr>) now"

definition ingest_soc :: "patrol_battery_input \<Rightarrow> bool \<Rightarrow> pyfloat \<Rightarrow> pyfloat \<Rightarrow> patrol_battery_input \<times> battery_decision" where
  "ingest_soc b present percentage now =
     (let pct = (if isfinite percentage \<and> fle fzero percentage \<and> fle percentage (Fin 1)
                 then fmul percentage (Fin 100) else percentage)
      in evaluate_battery (b \<lparr> bi_soc := Some \<lparr> si_present = present, si_percentage = pct, si_received = now \<rparr> \<rparr>) now)"

definition battery_snapshot :: "patrol_battery_input \<Rightarrow> pyfloat \<Rightarrow> battery_snapshot" where
  "battery_snapshot b now =
     \<lparr> bs_seen = bi_seen b, bs_guard_valid = guard_valid b now,
       bs_guard_state = (case bi_guard b of None \<Rightarrow> [] | Some g \<Rightarrow> gi_state g),
       bs_guard_age = map_option (\<lambda>g. pymax fzero (fsub now (gi_received g))) (bi_guard b),
       bs_soc_valid = soc_valid b now, bs_soc = map_option si_percentage (bi_soc b), bs_latched = bi_latched b \<rparr>"

subsection \<open>Missions\<close>

datatype battery_event =
    GuardSample bool bool string bool pyfloat
  | SocSample bool pyfloat pyfloat
  | EvaluateNow pyfloat
  | MissionBegins
  | MissionEnds

fun battery_step :: "patrol_battery_input \<Rightarrow> battery_event \<Rightarrow> patrol_battery_input \<times> battery_decision list" where
  "battery_step b (GuardSample ready fresh state rec now) =
     (let (b1, d) = ingest_guard b ready fresh state rec now in (b1, [d]))"
| "battery_step b (SocSample present pct now) = (let (b1, d) = ingest_soc b present pct now in (b1, [d]))"
| "battery_step b (EvaluateNow now) = (let (b1, d) = evaluate_battery b now in (b1, [d]))"
| "battery_step b MissionBegins = (begin_mission b, [])"
| "battery_step b MissionEnds = (end_mission b, [])"

lemmas battery_defs = ingest_guard_def ingest_soc_def begin_mission_def end_mission_def Let_def

text \<open>What one evaluation does: the guard is never forgotten, and the latch only rises, once.\<close>

lemma evaluate_seen:
  "evaluate_battery b now = (c, d) \<Longrightarrow>
     (bi_seen c \<longleftrightarrow> bi_seen b \<or> guard_valid b now) \<and> (bi_seen b \<longrightarrow> bd_source d \<noteq> FromSoc)"
  by (auto simp: evaluate_battery_def latch_return_def no_return_def Let_def split: if_splits)

lemma evaluate_latch:
  "evaluate_battery b now = (c, d) \<Longrightarrow>
     bi_latched c = bd_latched d \<and> bd_latched d = (bi_latched b \<or> bd_newly d) \<and> \<not> (bd_newly d \<and> bi_latched b)"
  by (auto simp: evaluate_battery_def latch_return_def no_return_def Let_def split: if_splits)

lemma evaluate_newly:
  "evaluate_battery b now = (c, d) \<Longrightarrow> bd_newly d \<Longrightarrow>
     (case bd_source d of
        FromGuard \<Rightarrow> guard_valid b now \<and> (case bi_guard b of None \<Rightarrow> False | Some g \<Rightarrow> gi_recommended g)
      | FromSoc \<Rightarrow> \<not> bi_seen b \<and> soc_valid b now \<and> (case bi_soc b of None \<Rightarrow> False | Some c \<Rightarrow> fle (si_percentage c) (bi_threshold b))
      | FromNothing \<Rightarrow> False)"
  by (auto simp: evaluate_battery_def latch_return_def no_return_def Let_def split: if_splits)

lemma step_seen: "bi_seen b \<Longrightarrow> bi_seen (fst (battery_step b e)) \<and> (\<forall>d\<in>set (snd (battery_step b e)). bd_source d \<noteq> FromSoc)"
  by (cases e) (auto simp: battery_defs dest!: evaluate_seen split: prod.splits)

interpretation soc_shut: latch battery_step bi_seen "\<lambda>d. bd_source d \<noteq> FromSoc"
  by unfold_locales (use step_seen in auto)

definition in_mission :: "battery_event \<Rightarrow> bool" where
  "in_mission e \<longleftrightarrow> e \<notin> {MissionBegins, MissionEnds}"

lemma step_latch:
  "in_mission e \<Longrightarrow> \<exists>d. snd (battery_step b e) = [d] \<and> bi_latched (fst (battery_step b e)) = (bi_latched b \<or> bd_newly d) \<and>
     \<not> (bd_newly d \<and> bi_latched b)"
  by (cases e) (auto simp: battery_defs in_mission_def dest!: evaluate_latch split: prod.splits)

lemma newly_run:
  "list_all in_mission es \<Longrightarrow>
     length (filter bd_newly (snd (run battery_step b es))) =
       (if bi_latched (fst (run battery_step b es)) \<and> \<not> bi_latched b then 1 else 0) \<and>
     (bi_latched b \<longrightarrow> bi_latched (fst (run battery_step b es)))"
proof (induction es arbitrary: b)
  case (Cons e es)
  obtain d where d: "snd (battery_step b e) = [d]"
    "bi_latched (fst (battery_step b e)) = (bi_latched b \<or> bd_newly d)" "\<not> (bd_newly d \<and> bi_latched b)"
    using step_latch [of e b] Cons.prems by auto
  show ?case using Cons.IH [of "fst (battery_step b e)"] Cons.prems d by (auto simp: run_Cons simp del: run.simps(2))
qed simp

subsection \<open>Properties\<close>

text \<open>
  The mission guard takes precedence: once a valid guard sample has been evaluated, no later decision,
  in this mission or the next ones, comes from the state of charge.
\<close>

lemma guard_precedence:
  assumes "guard_valid b now" "run battery_step (fst (evaluate_battery b now)) events = (c, decisions)"
  shows "list_all (\<lambda>d. bd_source d \<noteq> FromSoc) decisions"
proof -
  have "bi_seen (fst (evaluate_battery b now))"
    using assms(1) evaluate_seen [of b now] by (cases "evaluate_battery b now") auto
  from soc_shut.run_out [OF this, of _ events] assms(2) show ?thesis by (auto simp: list_all_iff)
qed

text \<open>
  A return is requested once per mission: over the events of one mission, exactly one decision is new
  when the latch rises and none otherwise, and the latch does not fall before the mission ends.
\<close>

lemma return_latched_once:
  assumes "list_all in_mission events" "run battery_step (begin_mission b) events = (c, decisions)"
  shows "length (filter bd_newly decisions) = (if bi_latched c then 1 else 0)"
  using newly_run [OF assms(1), of "begin_mission b"] assms(2) by (simp add: begin_mission_def)

subsection \<open>Witnesses\<close>

definition sample_battery_input :: patrol_battery_input where
  "sample_battery_input =
     \<lparr> bi_timeout = Fin 3, bi_threshold = Fin 25, bi_seen = False,
       bi_guard = Some \<lparr> gi_ready = True, gi_fresh = True, gi_state = ''LOW'', gi_recommended = True, gi_received = Fin 1 \<rparr>,
       bi_soc = None, bi_latched = False \<rparr>"

lemma guard_precedence_witness:
  "list_all (\<lambda>d. bd_source d \<noteq> FromSoc)
     (snd (run battery_step (fst (evaluate_battery sample_battery_input (Fin 1))) [SocSample True (Fin 0) (Fin 2)]))"
proof -
  have g: "guard_valid sample_battery_input (Fin 1)"
    by (simp add: guard_valid_def sample_battery_input_def invalid_guard_states_def fsub_def)
  obtain c ds where r: "run battery_step (fst (evaluate_battery sample_battery_input (Fin 1))) [SocSample True (Fin 0) (Fin 2)] = (c, ds)"
    by fastforce
  from guard_precedence [OF g r] r show ?thesis by simp
qed

lemma return_latched_once_witness:
  "length (filter bd_newly (snd (run battery_step (begin_mission sample_battery_input) [EvaluateNow (Fin 1), EvaluateNow (Fin 2)]))) = 1"
proof -
  let ?es = "[EvaluateNow (Fin 1), EvaluateNow (Fin 2)]"
  have i: "list_all in_mission ?es" by (simp add: in_mission_def)
  obtain c ds where r: "run battery_step (begin_mission sample_battery_input) ?es = (c, ds)" by fastforce
  have "bi_latched c" using r
    by (auto simp: evaluate_battery_def guard_valid_def begin_mission_def sample_battery_input_def invalid_guard_states_def
      fsub_def latch_return_def Let_def)
  then show ?thesis using return_latched_once [OF i r] r by simp
qed

end
