(* ===== verification/Patrol_Coordinator.thy ===== *)
theory Patrol_Coordinator
  imports Patrol_Battery Patrol_Store Route_Preparation
begin

section \<open>The patrol coordinator\<close>

text \<open>
  \<open>salus_navigation/patrol_mission_coordinator.py\<close>: the node that prepares a requested patrol, starts it,
  delegates each of its legs to the route executor and applies battery returns. Each handler is one step: the
  subscriptions, the timer and the services run under the node's lock. Only \<open>_finish_replacement\<close>, and the start of the new
  patrol in it, is called when a future is done and does not take the lock; that another handler runs in the midst of it is
  not modelled. What a handler asks of other nodes is its output. What comes from outside (the
  clock, the readiness of a service, the outcome of a call, the mission identifier, whether the file was
  written) is part of the event. An exception that no handler catches is the output \<open>Uncaught\<close>, after the
  changes of state made before it. Messages of errors are constructors.
\<close>

subsection \<open>Requests\<close>

record ll_route =
  lr_lats :: "pyfloat list"
  lr_lons :: "pyfloat list"
  lr_yaws :: "pyfloat list"
  lr_actions :: "string list"

record patrol_request =
  pq_loop :: ll_route
  pq_depart :: ll_route
  pq_return :: ll_route
  pq_home :: "pyfloat \<times> pyfloat \<times> pyfloat"
  pq_entry :: int
  pq_leg :: pyfloat
  pq_span :: pyfloat
  pq_max :: int

datatype request_error =
    NoWaypoint string
  | UnequalCoordinates string
  | BadCoordinates string
  | UnequalYaws string
  | BadYaws string
  | UnequalActions string
  | RefusedAction string action_error
  | BadHome
  | RefusedMission mission_error
  | RequestRaised py_exception

fun first_action_error :: "json_lib \<Rightarrow> string \<Rightarrow> int \<Rightarrow> string list \<Rightarrow> request_error option" where
  "first_action_error J label i [] = None"
| "first_action_error J label i (a # as) =
     (case parse_actions J a i of Inl e \<Rightarrow> Some (RequestRaised e) | Inr (Inl e) \<Rightarrow> Some (RefusedAction label e)
      | Inr (Inr r) \<Rightarrow> first_action_error J label (i + 1) as)"

definition request_point :: "nat \<Rightarrow> pyfloat \<Rightarrow> pyfloat \<Rightarrow> pyfloat \<Rightarrow> string \<Rightarrow> waypoint" where
  "request_point index lat lon yaw action =
     \<lparr> wp_lat = lat, wp_lon = lon, wp_yaw = yaw, wp_input_index = int index, wp_key = True, wp_action = action,
       wp_role = ''normal'', wp_x = None, wp_y = None, wp_yaw_explicit = isfinite yaw \<rparr>"

definition request_route :: "json_lib \<Rightarrow> ll_route \<Rightarrow> string \<Rightarrow> bool \<Rightarrow> request_error + patrol_route" where
  "request_route J q label allow_empty =
     (let n = length (lr_lats q);
          yaws = (if lr_yaws q = [] then replicate n NaN else lr_yaws q);
          actions = (if lr_actions q = [] then replicate n [] else lr_actions q)
      in if lr_lats q = [] \<and> \<not> allow_empty then Inl (NoWaypoint label)
         else if n \<noteq> length (lr_lons q) then Inl (UnequalCoordinates label)
         else if \<not> list_all isfinite (lr_lats q @ lr_lons q) then Inl (BadCoordinates label)
         else if lr_yaws q \<noteq> [] \<and> length (lr_yaws q) \<noteq> n then Inl (UnequalYaws label)
         else if \<not> list_all (\<lambda>v. isfinite v \<or> v = NaN) (lr_yaws q) then Inl (BadYaws label)
         else if lr_actions q \<noteq> [] \<and> length (lr_actions q) \<noteq> n then Inl (UnequalActions label)
         else case first_action_error J label 0 actions of
           Some e \<Rightarrow> Inl e
         | None \<Rightarrow>
             Inr \<lparr> pr_waypoints = map (\<lambda>i. request_point i (lr_lats q ! i) (lr_lons q ! i) (yaws ! i) (actions ! i)) [0..<n],
                   pr_actions = actions \<rparr>)"

definition home_point :: "pyfloat \<times> pyfloat \<times> pyfloat \<Rightarrow> waypoint" where
  "home_point h =
     (let (lat, lon, yaw) = h in
      \<lparr> wp_lat = lat, wp_lon = lon, wp_yaw = yaw, wp_input_index = - 1, wp_key = True, wp_action = [],
        wp_role = ''normal'', wp_x = None, wp_y = None, wp_yaw_explicit = True \<rparr>)"

definition spec_from_request ::
    "json_lib \<Rightarrow> pyfloat \<times> pyfloat \<times> int \<Rightarrow> patrol_request \<Rightarrow> request_error + patrol_spec" where
  "spec_from_request J defaults q =
     bind_res (request_route J (pq_loop q) ''loop'' False) (\<lambda>lp.
     bind_res (request_route J (pq_depart q) ''depart'' True) (\<lambda>depart.
     bind_res (request_route J (pq_return q) ''return connector'' True) (\<lambda>returning.
       let (lat, lon, yaw) = pq_home q; (leg0, span0, max0) = defaults in
       if \<not> list_all isfinite [lat, lon, yaw] then Inl BadHome
       else
         (let sp = \<lparr> sp_home = home_point (pq_home q), sp_loop = lp, sp_depart = depart, sp_returning = returning,
                sp_entry = pq_entry q, sp_leg_spacing = (if flt fzero (pq_leg q) then pq_leg q else leg0),
                sp_chunk_span = (if flt fzero (pq_span q) then pq_span q else span0),
                sp_chunk_max = (if pq_max q \<noteq> 0 then pq_max q else max0), sp_version = 1 \<rparr>
          in case patrol_machine J sp ''validation'' of
               Inr m \<Rightarrow> Inr sp
             | Inl (MissionRaised e) \<Rightarrow> Inl (RequestRaised e)
             | Inl e \<Rightarrow> Inl (RefusedMission e)))))"

subsection \<open>Resolution\<close>

definition normalise_route :: "trig \<Rightarrow> patrol_route \<Rightarrow> bool \<Rightarrow> patrol_route" where
  "normalise_route T r lp =
     (let closed = (lp \<and> 2 < length (pr_waypoints r) \<and>
            fle (distance_to (tg_hypot T) (hd (pr_waypoints r)) (last (pr_waypoints r))) (fl (5 / 100)));
          points = (if closed then butlast (pr_waypoints r) else pr_waypoints r);
          actions = (if closed then butlast (pr_actions r) else pr_actions r)
      in \<lparr> pr_waypoints = resolve_yaws T points lp False, pr_actions = actions \<rparr>)"

datatype leg_label = HomeLeg | LoopLeg | DepartLeg | ReturnLeg

definition resolved_spec :: "trig \<Rightarrow> patrol_spec \<Rightarrow> (leg_label \<Rightarrow> waypoint list) \<Rightarrow> patrol_spec" where
  "resolved_spec T sp converted =
     sp \<lparr> sp_home := converted HomeLeg ! 0,
          sp_loop := normalise_route T \<lparr> pr_waypoints = converted LoopLeg, pr_actions = pr_actions (sp_loop sp) \<rparr> True,
          sp_depart := normalise_route T \<lparr> pr_waypoints = converted DepartLeg, pr_actions = pr_actions (sp_depart sp) \<rparr> False,
          sp_returning := normalise_route T
            \<lparr> pr_waypoints = converted ReturnLeg, pr_actions = pr_actions (sp_returning sp) \<rparr> False \<rparr>"

definition belongs_to_dispatch :: "string \<Rightarrow> string \<Rightarrow> string \<Rightarrow> bool" where
  "belongs_to_dispatch current superseded candidate =
     (if current \<noteq> [] then candidate = current else candidate \<noteq> [] \<and> candidate \<noteq> superseded)"

subsection \<open>The state and the outputs\<close>

record coordinator_params =
  cp_trig :: trig
  cp_json :: json_lib
  cp_timeout :: pyfloat
  cp_tolerance :: pyfloat
  cp_defaults :: "pyfloat \<times> pyfloat \<times> int"

record preparation =
  pp_spec :: patrol_spec
  pp_points :: "(leg_label \<times> waypoint) list"
  pp_next :: nat
  pp_pending :: bool
  pp_deadline :: pyfloat
  pp_converted :: "leg_label \<Rightarrow> waypoint list"

datatype last_error =
    NoError
  | ConversionFailed
  | ConversionTimeout
  | ConversionUnavailable
  | NoPose
  | NotPersisted
  | NotReplaced
  | MachineReason string

record coordinator =
  co_machine :: "(patrol_spec \<times> patrol_state) option"
  co_spec :: "patrol_spec option"
  co_preparation :: "preparation option"
  co_route_id :: string
  co_superseded :: string
  co_indices :: "int list"
  co_polling :: bool
  co_status :: string
  co_error :: last_error
  co_pose :: "(pyfloat \<times> pyfloat) option"
  co_battery :: patrol_battery_input

record leg_request =
  lq_phase :: patrol_phase
  lq_route :: patrol_route
  lq_yaws :: "pyfloat list"
  lq_roles :: "string list"
  lq_loop :: bool
  lq_spacing :: pyfloat
  lq_span :: pyfloat
  lq_max :: int

datatype cancel_purpose = ForReplacement patrol_spec | ForBattery | ForExit | ForCancel

datatype patrol_output =
    SetRoute leg_request
  | CancelRoute cancel_purpose
  | BrakeNow
  | AskRouteState
  | AskConversion waypoint
  | Persist jval
  | Notice string
  | Uncaught

type_synonym coordinator_result = "coordinator \<times> patrol_output list"

text \<open>One action after another, and the end of a handler that raised.\<close>

definition then_do :: "coordinator_result \<Rightarrow> (coordinator \<Rightarrow> coordinator_result) \<Rightarrow> coordinator_result" where
  "then_do r f = (let (c1, os) = r; (c2, ps) = f c1 in (c2, os @ ps))"

definition phase_name :: "patrol_phase \<Rightarrow> string" where
  "phase_name p =
     (case p of Idle \<Rightarrow> ''IDLE'' | DepartHome \<Rightarrow> ''DEPART_HOME'' | JoinLoop \<Rightarrow> ''JOIN_LOOP'' | Patrol \<Rightarrow> ''PATROL''
      | ExitLoop \<Rightarrow> ''EXIT_LOOP'' | ReturnHome \<Rightarrow> ''RETURN_HOME'' | AtHome \<Rightarrow> ''AT_HOME'' | PatrolPaused \<Rightarrow> ''PAUSED''
      | PatrolAborted \<Rightarrow> ''ABORTED'')"

definition machine_active :: "coordinator \<Rightarrow> bool" where
  "machine_active c \<longleftrightarrow> (case co_machine c of None \<Rightarrow> False | Some (sp, m) \<Rightarrow> patrol_active m)"

definition set_machine :: "patrol_spec \<Rightarrow> patrol_state \<Rightarrow> coordinator \<Rightarrow> coordinator" where
  "set_machine sp m c = c \<lparr> co_machine := Some (sp, m) \<rparr>"

text \<open>\<open>machine.pause\<close> followed by the record of its reason.\<close>

definition pause_machine :: "string \<Rightarrow> coordinator \<Rightarrow> coordinator" where
  "pause_machine reason c =
     (case co_machine c of None \<Rightarrow> c
      | Some (sp, m) \<Rightarrow>
          (let m1 = patrol_pause reason m
           in set_machine sp m1 c \<lparr> co_error := MachineReason (pm_pause_reason m1) \<rparr>))"

definition abort_machine :: "string \<Rightarrow> coordinator \<Rightarrow> coordinator" where
  "abort_machine reason c =
     (case co_machine c of None \<Rightarrow> c
      | Some (sp, m) \<Rightarrow>
          (let m1 = patrol_abort reason m
           in set_machine sp m1 c \<lparr> co_status := phase_name (pm_phase m1), co_error := MachineReason (pm_pause_reason m1) \<rparr>))"

definition reject_patrol :: "last_error \<Rightarrow> coordinator \<Rightarrow> coordinator_result" where
  "reject_patrol e c = (c \<lparr> co_preparation := None, co_error := e \<rparr>, [Notice ''PATROL_MISSION_REJECTED''])"

text \<open>\<open>None\<close> is the exception of a HOME that has no map coordinates.\<close>

definition near_home :: "coordinator_params \<Rightarrow> pyfloat \<times> pyfloat \<Rightarrow> waypoint \<Rightarrow> bool option" where
  "near_home P pose home =
     (case (wp_x home, wp_y home) of
        (Some hx, Some hy) \<Rightarrow> Some (fle (tg_hypot (cp_trig P) (fsub (fst pose) hx) (fsub (snd pose) hy)) (cp_tolerance P))
      | _ \<Rightarrow> None)"

definition at_home :: "coordinator_params \<Rightarrow> coordinator \<Rightarrow> bool option" where
  "at_home P c =
     (case (co_pose c, co_spec c) of (Some pose, Some sp) \<Rightarrow> near_home P pose (sp_home sp) | _ \<Rightarrow> Some False)"

subsection \<open>Dispatch of a leg\<close>

definition leg_request_of :: "patrol_spec \<Rightarrow> patrol_phase \<Rightarrow> patrol_route \<Rightarrow> string list \<Rightarrow> bool \<Rightarrow> leg_request" where
  "leg_request_of sp phase r roles lp =
     \<lparr> lq_phase = phase, lq_route = r, lq_yaws = map (\<lambda>p. if wp_yaw_explicit p then wp_yaw p else NaN) (pr_waypoints r),
       lq_roles = roles, lq_loop = lp, lq_spacing = sp_leg_spacing sp, lq_span = sp_chunk_span sp, lq_max = sp_chunk_max sp \<rparr>"

definition dispatch_phase :: "bool \<Rightarrow> coordinator \<Rightarrow> coordinator_result" where
  "dispatch_phase ready c =
     (case co_machine c of
        None \<Rightarrow> (c, [])
      | Some (sp, m) \<Rightarrow>
          if \<not> patrol_active m then (c, [])
          else case current_route sp m of
            None \<Rightarrow> (c, [Uncaught])
          | Some (r, lp, start) \<Rightarrow>
              (let c1 = c \<lparr> co_indices := map wp_input_index (pr_waypoints r) \<rparr> in
               case route_roles (pm_phase m) r of
                 None \<Rightarrow> (c1, [Uncaught])
               | Some roles \<Rightarrow>
                   if \<not> ready then (pause_machine ''route executor unavailable'' c1, [])
                   else (c1 \<lparr> co_superseded := co_route_id c1, co_route_id := [] \<rparr>,
                         [SetRoute (leg_request_of sp (pm_phase m) r roles lp)])))"

definition route_dispatched :: "bool \<Rightarrow> patrol_phase \<Rightarrow> coordinator \<Rightarrow> coordinator_result" where
  "route_dispatched ok phase c =
     (case co_machine c of
        None \<Rightarrow> (c, [])
      | Some (sp, m) \<Rightarrow>
          if pm_phase m \<noteq> phase then (c, [])
          else if \<not> ok then (pause_machine ''route dispatch failed'' c, [Notice ''PATROL_PHASE_FAILED''])
          else (c, [Notice ''PATROL_PHASE_DISPATCHED'']))"

subsection \<open>Start\<close>

record start_env =
  se_mission :: string
  se_stored :: bool
  se_now :: pyfloat
  se_ready :: bool

definition start_spec :: "coordinator_params \<Rightarrow> start_env \<Rightarrow> patrol_spec \<Rightarrow> coordinator \<Rightarrow> coordinator_result" where
  "start_spec P env sp c =
     (case patrol_machine (cp_json P) sp (se_mission env) of
        Inl e \<Rightarrow> (c, [Uncaught])
      | Inr m0 \<Rightarrow>
          (case co_pose c of None \<Rightarrow> (c, [Uncaught]) | Some pose \<Rightarrow>
          (case near_home P pose (sp_home sp) of None \<Rightarrow> (c, [Uncaught]) | Some home \<Rightarrow>
           if \<not> se_stored env then reject_patrol NotPersisted c
           else
             (let (b, d) = evaluate_battery (begin_mission (co_battery c)) (se_now env) in
              case patrol_start sp m0 home (bd_latched d) of
                None \<Rightarrow> (c \<lparr> co_battery := b \<rparr>, [Persist (encode_mission sp), Uncaught])
              | Some m \<Rightarrow>
                  then_do
                    (c \<lparr> co_battery := b, co_machine := Some (sp, m), co_spec := Some sp, co_route_id := [],
                         co_status := phase_name (pm_phase m), co_error := NoError \<rparr>,
                     [Persist (encode_mission sp), Notice ''PATROL_MISSION_STARTED''] @
                     (if bd_latched d
                      then [Notice (if pm_phase m = AtHome then ''PATROL_HELD_AT_HOME_LOW_BATTERY'' else ''BATTERY_RETURN_DEFERRED'')]
                      else []))
                    (dispatch_phase (se_ready env))))))"

definition activate_spec :: "coordinator_params \<Rightarrow> start_env \<Rightarrow> patrol_spec \<Rightarrow> coordinator \<Rightarrow> coordinator_result" where
  "activate_spec P env sp c =
     (if co_pose c = None then reject_patrol NoPose c
      else if machine_active c then (c, [CancelRoute (ForReplacement sp)])
      else start_spec P env sp c)"

definition finish_replacement ::
    "coordinator_params \<Rightarrow> start_env \<Rightarrow> bool \<Rightarrow> patrol_spec \<Rightarrow> coordinator \<Rightarrow> coordinator_result" where
  "finish_replacement P env ok sp c = (if ok then start_spec P env sp c else reject_patrol NotReplaced c)"

subsection \<open>Preparation\<close>

definition set_patrol ::
    "coordinator_params \<Rightarrow> patrol_request \<Rightarrow> pyfloat \<Rightarrow> coordinator \<Rightarrow> coordinator \<times> request_error option" where
  "set_patrol P q now c =
     (case spec_from_request (cp_json P) (cp_defaults P) q of
        Inl e \<Rightarrow> (c, Some e)
      | Inr sp \<Rightarrow>
          (c \<lparr> co_preparation := Some
             \<lparr> pp_spec = sp,
               pp_points = (HomeLeg, sp_home sp) # map (Pair LoopLeg) (pr_waypoints (sp_loop sp)) @
                 map (Pair DepartLeg) (pr_waypoints (sp_depart sp)) @ map (Pair ReturnLeg) (pr_waypoints (sp_returning sp)),
               pp_next = 0, pp_pending = False, pp_deadline = fadd now (cp_timeout P), pp_converted = (\<lambda>l. []) \<rparr> \<rparr>, None))"

text \<open>The outcome of the pending conversion: not there yet, failed, or a map point.\<close>

datatype conversion = NotDone | Failed | Converted pyfloat pyfloat

record prepare_env =
  pe_result :: conversion
  pe_now :: pyfloat
  pe_later :: pyfloat
  pe_client :: bool
  pe_start :: start_env

definition converted_job :: "coordinator_params \<Rightarrow> pyfloat \<Rightarrow> pyfloat \<Rightarrow> pyfloat \<Rightarrow> preparation \<Rightarrow> preparation" where
  "converted_job P now x y job =
     (let (label, p) = pp_points job ! pp_next job in
      job \<lparr> pp_converted := (pp_converted job)(label := pp_converted job label @ [p \<lparr> wp_x := Some x, wp_y := Some y \<rparr>]),
            pp_next := pp_next job + 1, pp_pending := False, pp_deadline := fadd now (cp_timeout P) \<rparr>)"

definition next_conversion :: "coordinator_params \<Rightarrow> prepare_env \<Rightarrow> preparation \<Rightarrow> coordinator \<Rightarrow> coordinator_result" where
  "next_conversion P env job c =
     (if pp_next job = length (pp_points job)
      then activate_spec P (pe_start env) (resolved_spec (cp_trig P) (pp_spec job) (pp_converted job))
             (c \<lparr> co_preparation := None \<rparr>)
      else if \<not> pe_client env
      then (if flt (pp_deadline job) (pe_later env) then reject_patrol ConversionUnavailable c
            else (c \<lparr> co_preparation := Some job \<rparr>, []))
      else (c \<lparr> co_preparation := Some (job \<lparr> pp_pending := True \<rparr>) \<rparr>,
            [AskConversion (snd (pp_points job ! pp_next job))]))"

definition tick_preparation :: "coordinator_params \<Rightarrow> prepare_env \<Rightarrow> coordinator \<Rightarrow> coordinator_result" where
  "tick_preparation P env c =
     (case co_preparation c of
        None \<Rightarrow> (c, [])
      | Some job \<Rightarrow>
          if pp_pending job then
            (case pe_result env of
               Failed \<Rightarrow> reject_patrol ConversionFailed c
             | NotDone \<Rightarrow>
                 if flt (pp_deadline job) (pe_now env) then reject_patrol ConversionTimeout c else (c, [])
             | Converted x y \<Rightarrow> next_conversion P env (converted_job P (pe_now env) x y job) c)
          else next_conversion P env job c)"

subsection \<open>Battery\<close>

definition consume_decision ::
    "coordinator_params \<Rightarrow> bool \<Rightarrow> bool \<Rightarrow> battery_decision \<Rightarrow> coordinator \<Rightarrow> coordinator_result" where
  "consume_decision P brake_ready cancel_ready d c =
     (case co_machine c of
        None \<Rightarrow> (c, [])
      | Some (sp, m) \<Rightarrow>
          if \<not> bd_newly d then (c, [])
          else case at_home P c of
            None \<Rightarrow> (c, [Uncaught])
          | Some home \<Rightarrow>
              (let (m1, t) = latch_battery (tg_hypot (cp_trig P)) sp home m;
                   c1 = set_machine sp m1 c \<lparr> co_status := phase_name (pm_phase m1) \<rparr>
               in if \<not> bt_cancel t then (c1, [Notice ''BATTERY_RETURN_LATCHED''])
                  else
                    (let brake = (if brake_ready then [BrakeNow] else []) in
                     if \<not> cancel_ready
                     then (abort_machine ''battery return could not cancel departure route'' c1,
                           [Notice ''BATTERY_RETURN_LATCHED''] @ brake @ [Notice ''BATTERY_RETURN_CANCEL_UNAVAILABLE''])
                     else (c1, [Notice ''BATTERY_RETURN_LATCHED''] @ brake @ [CancelRoute ForBattery]))))"

definition departure_cancelled :: "bool \<Rightarrow> coordinator \<Rightarrow> coordinator_result" where
  "departure_cancelled ok c =
     (if ok \<or> co_machine c = None then (c, [])
      else (abort_machine ''battery departure cancellation failed'' c, [Notice ''BATTERY_RETURN_CANCEL_FAILED'']))"

subsection \<open>Reports of the route executor\<close>

definition tick_route_state :: "bool \<Rightarrow> coordinator \<Rightarrow> coordinator_result" where
  "tick_route_state ready c =
     (if \<not> machine_active c \<or> co_polling c \<or> \<not> ready then (c, [])
      else (c \<lparr> co_polling := True \<rparr>, [AskRouteState]))"

record route_report =
  rr_ok :: bool
  rr_mission :: string
  rr_status :: string

definition reported_status :: "coordinator_params \<Rightarrow> bool \<Rightarrow> string \<Rightarrow> coordinator \<Rightarrow> coordinator_result" where
  "reported_status P ready status c =
     (case co_machine c of
        None \<Rightarrow> (c, [])
      | Some (sp, m) \<Rightarrow>
          if status = ''COMPLETED'' \<and> pm_phase m \<in> {DepartHome, ReturnHome} then
            (case goal_succeeded (tg_hypot (cp_trig P)) sp None m of
               None \<Rightarrow> (c, [Uncaught])
             | Some m1 \<Rightarrow>
                 if pm_phase m = DepartHome then dispatch_phase ready (set_machine sp m1 c)
                 else (set_machine sp m1 c \<lparr> co_status := phase_name (pm_phase m1) \<rparr>, [Notice ''PATROL_AT_HOME'']))
          else if status \<in> {''PAUSED'', ''ABORTED'', ''CANCELLED''}
          then (pause_machine (''route executor '' @ py_lower status) c, [])
          else (c, []))"

definition on_route_state :: "coordinator_params \<Rightarrow> bool \<Rightarrow> route_report option \<Rightarrow> coordinator \<Rightarrow> coordinator_result" where
  "on_route_state P ready report c0 =
     (let c = c0 \<lparr> co_polling := False \<rparr> in
      if \<not> machine_active c then (c, [])
      else case report of
        None \<Rightarrow> (c, [])
      | Some r \<Rightarrow>
          if \<not> rr_ok r \<or> \<not> belongs_to_dispatch (co_route_id c) (co_superseded c) (rr_mission r) then (c, [])
          else reported_status P ready (rr_status r)
                 (if co_route_id c = [] then c \<lparr> co_route_id := rr_mission r \<rparr> else c))"

definition delegated_index :: "coordinator \<Rightarrow> int \<Rightarrow> int" where
  "delegated_index c i = (if 0 \<le> i \<and> i < int (length (co_indices c)) then co_indices c ! nat i else - 1)"

text \<open>A checkpoint event of the route executor: its mission and its index, as the text of the event has them.\<close>

definition on_checkpoint :: "coordinator_params \<Rightarrow> string option \<Rightarrow> string option \<Rightarrow> coordinator \<Rightarrow> coordinator_result" where
  "on_checkpoint P mission index_text c =
     (case co_machine c of
        None \<Rightarrow> (c, [])
      | Some (sp, m) \<Rightarrow>
          if pm_phase m \<notin> {JoinLoop, ExitLoop} then (c, [])
          else if co_route_id c = [] \<or> mission \<noteq> Some (co_route_id c) then (c, [])
          else case py_int_of_string (case index_text of None \<Rightarrow> ''-1'' | Some t \<Rightarrow> t) of
            None \<Rightarrow> (c, [Uncaught])
          | Some d \<Rightarrow>
              (let index = delegated_index c d in
               if pm_phase m = JoinLoop then
                 (case goal_succeeded (tg_hypot (cp_trig P)) sp (Some index) m of
                    None \<Rightarrow> (c, [Uncaught])
                  | Some m1 \<Rightarrow>
                      (set_machine sp m1 c,
                       Notice ''PATROL_LOOP_JOINED'' #
                       (if pm_phase m1 = ExitLoop then [Notice ''BATTERY_RETURN_HOME_REQUESTED''] else [])))
               else case pm_exit m of
                 None \<Rightarrow> (c, [])
               | Some x \<Rightarrow>
                   if index \<noteq> int (rx_index x) then (c, [])
                   else case goal_succeeded (tg_hypot (cp_trig P)) sp (Some index) m of
                     None \<Rightarrow> (c, [Uncaught])
                   | Some m1 \<Rightarrow> (set_machine sp m1 c, [CancelRoute ForExit])))"

definition after_exit_cancelled :: "bool \<Rightarrow> bool \<Rightarrow> coordinator \<Rightarrow> coordinator_result" where
  "after_exit_cancelled ok ready c =
     (if \<not> ok then (pause_machine ''return exit cancellation failed'' c, [])
      else case co_machine c of
        None \<Rightarrow> (c, [])
      | Some (sp, m) \<Rightarrow> if pm_phase m = ReturnHome then dispatch_phase ready c else (c, []))"

subsection \<open>Services\<close>

datatype return_answer = ReturnAccepted | NoMission | Unavailable patrol_phase

definition request_return_home :: "coordinator_params \<Rightarrow> coordinator \<Rightarrow> coordinator_result \<times> return_answer" where
  "request_return_home P c =
     (case co_machine c of
        None \<Rightarrow> ((c, []), NoMission)
      | Some (sp, m) \<Rightarrow>
          if pm_phase m \<in> {ExitLoop, ReturnHome} then ((c, []), ReturnAccepted)
          else
            (let (m1, accepted) = request_return (tg_hypot (cp_trig P)) sp ''operator'' m in
             if accepted then ((set_machine sp m1 c, [Notice ''RETURN_HOME_REQUESTED'']), ReturnAccepted)
             else ((set_machine sp m1 c, []), Unavailable (pm_phase m1))))"

definition cancel_patrol :: "coordinator \<Rightarrow> coordinator_result" where
  "cancel_patrol c =
     (c \<lparr> co_preparation := None, co_machine := None, co_route_id := [], co_superseded := [],
          co_battery := end_mission (co_battery c), co_status := ''IDLE'', co_error := NoError \<rparr>,
      if co_machine c = None then [] else [CancelRoute ForCancel, Notice ''PATROL_MISSION_CANCELLED''])"

record patrol_view =
  pv_active :: bool
  pv_phase :: string
  pv_low_battery :: bool
  pv_requested :: bool
  pv_returning :: bool
  pv_exit :: int
  pv_entry :: int
  pv_home :: bool
  pv_mission :: string
  pv_status :: string

definition patrol_view :: "coordinator \<Rightarrow> patrol_view" where
  "patrol_view c =
     (let m = map_option snd (co_machine c) in
      \<lparr> pv_active = machine_active c, pv_phase = (case m of None \<Rightarrow> ''idle'' | Some s \<Rightarrow> public_phase (pm_phase s)),
        pv_low_battery = (case m of None \<Rightarrow> False | Some s \<Rightarrow> pm_low_battery s),
        pv_requested = (case m of None \<Rightarrow> False | Some s \<Rightarrow> return_requested s),
        pv_returning = (case m of None \<Rightarrow> False | Some s \<Rightarrow> return_active s),
        pv_exit = (case m of None \<Rightarrow> - 1 | Some s \<Rightarrow> (case pm_exit s of None \<Rightarrow> - 1 | Some x \<Rightarrow> int (rx_index x))),
        pv_entry = (case co_spec c of None \<Rightarrow> - 1 | Some sp \<Rightarrow> sp_entry sp),
        pv_home = (co_spec c \<noteq> None), pv_mission = (case m of None \<Rightarrow> [] | Some s \<Rightarrow> pm_mission s),
        pv_status = (case m of None \<Rightarrow> co_status c | Some s \<Rightarrow> phase_name (pm_phase s)) \<rparr>)"

subsection \<open>Steps\<close>

datatype coordinator_event =
    PoseSeen pyfloat pyfloat
  | GuardMessage bool bool string bool pyfloat bool bool
  | SocMessage bool pyfloat pyfloat bool bool
  | DepartureCancelled bool
  | SetPatrol patrol_request pyfloat
  | TickPreparation prepare_env
  | ReplacementCancelled bool patrol_spec start_env
  | RouteDispatched bool patrol_phase
  | TickRouteState bool
  | RouteState "route_report option" bool
  | CheckpointEvent "string option" "string option"
  | ExitCancelled bool bool
  | ReturnService
  | CancelService

fun coordinator_step :: "coordinator_params \<Rightarrow> coordinator \<Rightarrow> coordinator_event \<Rightarrow> coordinator_result" where
  "coordinator_step P c (PoseSeen x y) = (c \<lparr> co_pose := Some (x, y) \<rparr>, [])"
| "coordinator_step P c (GuardMessage ready fresh state rec now brake_ready cancel_ready) =
     (let (b, d) = ingest_guard (co_battery c) ready fresh state rec now
      in consume_decision P brake_ready cancel_ready d (c \<lparr> co_battery := b \<rparr>))"
| "coordinator_step P c (SocMessage present pct now brake_ready cancel_ready) =
     (let (b, d) = ingest_soc (co_battery c) present pct now
      in consume_decision P brake_ready cancel_ready d (c \<lparr> co_battery := b \<rparr>))"
| "coordinator_step P c (DepartureCancelled ok) = departure_cancelled ok c"
| "coordinator_step P c (SetPatrol q now) = (fst (set_patrol P q now c), [])"
| "coordinator_step P c (TickPreparation env) = tick_preparation P env c"
| "coordinator_step P c (ReplacementCancelled ok sp env) = finish_replacement P env ok sp c"
| "coordinator_step P c (RouteDispatched ok phase) = route_dispatched ok phase c"
| "coordinator_step P c (TickRouteState ready) = tick_route_state ready c"
| "coordinator_step P c (RouteState report ready) = on_route_state P ready report c"
| "coordinator_step P c (CheckpointEvent mission index) = on_checkpoint P mission index c"
| "coordinator_step P c (ExitCancelled ok ready) = after_exit_cancelled ok ready c"
| "coordinator_step P c ReturnService = fst (request_return_home P c)"
| "coordinator_step P c CancelService = cancel_patrol c"

definition new_coordinator :: "patrol_battery_input \<Rightarrow> coordinator" where
  "new_coordinator b =
     \<lparr> co_machine = None, co_spec = None, co_preparation = None, co_route_id = [], co_superseded = [], co_indices = [],
       co_polling = False, co_status = ''IDLE'', co_error = NoError, co_pose = None, co_battery = b \<rparr>"

subsection \<open>The mission of the coordinator\<close>

text \<open>
  The mission the coordinator holds is a reachable one, it was started, its HOME has map coordinates, and
  the battery latch is its low battery.
\<close>

abbreviation co_hypot :: "coordinator_params \<Rightarrow> hypot" where
  "co_hypot P \<equiv> tg_hypot (cp_trig P)"

definition machine_ok :: "coordinator_params \<Rightarrow> patrol_spec \<Rightarrow> patrol_state \<Rightarrow> bool" where
  "machine_ok P sp m \<longleftrightarrow> patrol_reach (cp_json P) (co_hypot P) sp m \<and> pm_phase m \<noteq> Idle \<and>
     wp_x (sp_home sp) \<noteq> None \<and> wp_y (sp_home sp) \<noteq> None"

definition held_ok :: "coordinator_params \<Rightarrow> (patrol_spec \<times> patrol_state) option \<Rightarrow> patrol_spec option \<Rightarrow> bool \<Rightarrow> bool" where
  "held_ok P held spec latched \<longleftrightarrow>
     (case held of None \<Rightarrow> True | Some (sp, m) \<Rightarrow> machine_ok P sp m \<and> spec = Some sp \<and> latched = pm_low_battery m)"

definition mission_ok :: "coordinator_params \<Rightarrow> coordinator \<Rightarrow> bool" where
  "mission_ok P c \<longleftrightarrow> held_ok P (co_machine c) (co_spec c) (bi_latched (co_battery c))"

lemma held_ok_simps [simp]:
  "held_ok P None spec latched"
  "held_ok P (Some (sp, m)) spec latched \<longleftrightarrow> machine_ok P sp m \<and> spec = Some sp \<and> latched = pm_low_battery m"
  by (simp_all add: held_ok_def)

lemma machine_step:
  "machine_ok P sp m \<Longrightarrow> patrol_step (co_hypot P) sp m e = Some t \<Longrightarrow> machine_ok P sp t"
  using not_idle [of "co_hypot P" sp m e t] by (auto simp: machine_ok_def intro: patrol_reach.stepped)

lemma mission_some:
  "co_machine c = Some (sp, m) \<Longrightarrow> mission_ok P c \<longleftrightarrow> machine_ok P sp m \<and> co_spec c = Some sp \<and>
     bi_latched (co_battery c) = pm_low_battery m"
  by (simp add: mission_ok_def)

lemma mission_none: "co_machine c = None \<Longrightarrow> mission_ok P c"
  by (simp add: mission_ok_def)

lemma mission_cong:
  "co_machine d = co_machine c \<Longrightarrow> co_spec d = co_spec c \<Longrightarrow> co_battery d = co_battery c \<Longrightarrow> mission_ok P d = mission_ok P c"
  by (simp add: mission_ok_def)

lemma set_machine_fields [simp]:
  "co_machine (set_machine sp m c) = Some (sp, m)" "co_spec (set_machine sp m c) = co_spec c"
  "co_battery (set_machine sp m c) = co_battery c" "co_pose (set_machine sp m c) = co_pose c"
  by (simp_all add: set_machine_def)

lemma mission_set:
  "mission_ok P c \<Longrightarrow> co_machine c = Some (sp, m) \<Longrightarrow> patrol_step (co_hypot P) sp m e = Some t \<Longrightarrow>
     pm_low_battery t = pm_low_battery m \<Longrightarrow> mission_ok P (set_machine sp t c)"
  by (auto simp: mission_some dest: machine_step)

lemma pause_low [simp]: "pm_low_battery (patrol_pause r m) = pm_low_battery m"
  by (simp add: patrol_pause_def)

lemma abort_low [simp]: "pm_low_battery (patrol_abort r m) = pm_low_battery m"
  by (simp add: patrol_abort_def)

lemma request_low [simp]: "pm_low_battery (fst (request_return H sp r m)) = pm_low_battery m"
  by (simp add: request_return_def Let_def)

lemma goal_low: "goal_succeeded H sp r m = Some t \<Longrightarrow> pm_low_battery t = pm_low_battery m"
  by (auto simp: goal_succeeded_def Let_def split: if_splits option.splits)

lemma latch_low: "pm_low_battery (fst (latch_battery H sp h m))"
  by (auto simp: latch_battery_def Let_def)

lemma mission_pause: "mission_ok P c \<Longrightarrow> mission_ok P (pause_machine r c)"
proof (cases "co_machine c")
  case (Some q)
  assume a: "mission_ok P c"
  obtain sp m where q: "q = (sp, m)" by fastforce
  have "mission_ok P (set_machine sp (patrol_pause r m) c)" using mission_set [OF a, of sp m "PausePatrol r"] Some q by simp
  then show ?thesis using Some q by (simp add: pause_machine_def Let_def mission_ok_def)
qed (simp add: pause_machine_def)

lemma mission_abort: "mission_ok P c \<Longrightarrow> mission_ok P (abort_machine r c)"
proof (cases "co_machine c")
  case (Some q)
  assume a: "mission_ok P c"
  obtain sp m where q: "q = (sp, m)" by fastforce
  have "mission_ok P (set_machine sp (patrol_abort r m) c)" using mission_set [OF a, of sp m "AbortPatrol r"] Some q by simp
  then show ?thesis using Some q by (simp add: abort_machine_def Let_def mission_ok_def)
qed (simp add: abort_machine_def)

lemma mission_reject: "mission_ok P c \<Longrightarrow> mission_ok P (fst (reject_patrol e c))"
  by (simp add: reject_patrol_def mission_ok_def)

lemma mission_dispatch: "mission_ok P c \<Longrightarrow> mission_ok P (fst (dispatch_phase ready c))"
proof -
  assume a: "mission_ok P c"
  have "mission_ok P (c \<lparr> co_indices := is \<rparr>)" "mission_ok P (c \<lparr> co_indices := is, co_superseded := s, co_route_id := r \<rparr>)" for "is" s r
    using a by (simp_all add: mission_ok_def)
  then show ?thesis using a by (auto simp: dispatch_phase_def Let_def intro: mission_pause split: option.splits)
qed

lemma mission_dispatched: "mission_ok P c \<Longrightarrow> mission_ok P (fst (route_dispatched ok phase c))"
  by (auto simp: route_dispatched_def intro: mission_pause split: option.splits)

lemma start_reached:
  assumes "patrol_machine J sp name = Inr m0" "patrol_start sp m0 h l = Some m"
  shows "patrol_reach J H sp m" "pm_phase m \<noteq> Idle" "pm_low_battery m = l"
proof -
  have "patrol_reach J H sp m0" using assms(1) by (rule patrol_reach.created)
  then show "patrol_reach J H sp m" by (rule patrol_reach.stepped [where e = "Start h l"]) (simp add: assms(2))
  show "pm_phase m \<noteq> Idle" "pm_low_battery m = l" using assms(2) by (auto simp: patrol_start_def Let_def split: if_splits)
qed

lemma mission_start: "mission_ok P c \<Longrightarrow> mission_ok P (fst (start_spec P env sp c))"
proof (cases "patrol_machine (cp_json P) sp (se_mission env)")
  case (Inr m0)
  assume a: "mission_ok P c"
  show ?thesis
  proof (cases "se_stored env \<and> co_pose c \<noteq> None \<and> (case co_pose c of None \<Rightarrow> False | Some p \<Rightarrow> near_home P p (sp_home sp) \<noteq> None)")
    case True
    then obtain p home where p: "co_pose c = Some p" "near_home P p (sp_home sp) = Some home" by auto
    obtain b d where b: "evaluate_battery (begin_mission (co_battery c)) (se_now env) = (b, d)" by fastforce
    have l: "bi_latched b = bd_latched d" using evaluate_latch [OF b] by simp
    have h: "wp_x (sp_home sp) \<noteq> None" "wp_y (sp_home sp) \<noteq> None"
      using p(2) by (auto simp: near_home_def split: option.splits)
    have "m0 = new_patrol (se_mission env)" using Inr by (auto simp: patrol_machine_def split: option.splits)
    then obtain m where m: "patrol_start sp m0 home (bd_latched d) = Some m"
      by (cases "patrol_start sp m0 home (bd_latched d)") (auto simp: patrol_start_def new_patrol_def Let_def split: if_splits)
    note r = start_reached [OF Inr m]
    show ?thesis using True p b m h l r
      by (auto simp: start_spec_def Inr then_do_def Let_def case_prod_unfold intro!: mission_dispatch)
        (simp_all add: mission_ok_def machine_ok_def)
  qed (use a Inr in \<open>auto simp: start_spec_def intro: mission_reject split: option.splits\<close>)
qed (simp add: start_spec_def)

lemma mission_activate: "mission_ok P c \<Longrightarrow> mission_ok P (fst (activate_spec P env sp c))"
  by (auto simp: activate_spec_def intro: mission_reject mission_start)

lemma mission_prepare: "mission_ok P c \<Longrightarrow> mission_ok P (fst (tick_preparation P env c))"
proof -
  assume a: "mission_ok P c"
  have "mission_ok P (c \<lparr> co_preparation := x \<rparr>)" for x using a by (simp add: mission_ok_def)
  then have "mission_ok P (fst (next_conversion P env job c))" for job
    using a by (auto simp: next_conversion_def intro: mission_activate mission_reject)
  then show ?thesis using a by (auto simp: tick_preparation_def intro: mission_reject split: option.splits conversion.splits)
qed

lemma mission_consume:
  assumes "mission_ok P c" "bi_latched b = bd_latched d" "bd_latched d = (bi_latched (co_battery c) \<or> bd_newly d)"
  shows "mission_ok P (fst (consume_decision P br cr d (c \<lparr> co_battery := b \<rparr>)))"
proof (cases "co_machine c")
  case (Some q)
  obtain sp m where q: "q = (sp, m)" by fastforce
  then have m: "machine_ok P sp m" "co_spec c = Some sp" "bi_latched (co_battery c) = pm_low_battery m"
    using assms(1) Some by (simp_all add: mission_some)
  show ?thesis
  proof (cases "bd_newly d")
    case True
    obtain h where h: "at_home P (c \<lparr> co_battery := b \<rparr>) = Some h"
      using m(1,2) by (cases "co_pose c") (auto simp: at_home_def near_home_def machine_ok_def)
    obtain m1 t where l: "latch_battery (co_hypot P) sp h m = (m1, t)" by fastforce
    have "machine_ok P sp m1" by (rule machine_step [OF m(1), where e = "BatteryReturn h"]) (simp add: l)
    moreover have "pm_low_battery m1" using latch_low [of "co_hypot P" sp h m] l by simp
    ultimately have "mission_ok P (set_machine sp m1 (c \<lparr> co_battery := b \<rparr>) \<lparr> co_status := x \<rparr>)" for x
      using m(2) assms(2,3) True by (simp add: mission_ok_def)
    then show ?thesis using Some q True h l by (auto simp: consume_decision_def Let_def intro: mission_abort)
  qed (use Some q m assms in \<open>simp add: consume_decision_def mission_ok_def\<close>)
qed (simp add: consume_decision_def mission_ok_def)

lemma mission_status: "mission_ok P c \<Longrightarrow> mission_ok P (fst (reported_status P ready status c))"
proof (cases "co_machine c")
  case (Some q)
  assume a: "mission_ok P c"
  obtain sp m where q: "q = (sp, m)" by fastforce
  have g: "mission_ok P (set_machine sp m1 c)" if "goal_succeeded (co_hypot P) sp None m = Some m1" for m1
    using mission_set [OF a, of sp m "Reached None" m1] Some q goal_low [OF that] that by simp
  show ?thesis
  proof (cases "status = ''COMPLETED'' \<and> pm_phase m \<in> {DepartHome, ReturnHome}")
    case True
    show ?thesis
    proof (cases "goal_succeeded (co_hypot P) sp None m")
      case None
      then show ?thesis using a Some q True by (simp add: reported_status_def)
    next
      case m1: (Some m1)
      then have "mission_ok P (set_machine sp m1 c \<lparr> co_status := x \<rparr>)" for x
        using g [OF m1] by (simp add: mission_ok_def)
      then show ?thesis using Some q True m1 mission_dispatch [OF g [OF m1]] by (simp add: reported_status_def)
    qed
  next
    case False
    then show ?thesis using a Some q mission_pause [OF a] by (auto simp: reported_status_def)
  qed
qed (simp add: reported_status_def mission_ok_def)

lemma mission_route_state: "mission_ok P c \<Longrightarrow> mission_ok P (fst (on_route_state P ready report c))"
proof -
  assume a: "mission_ok P c"
  have "mission_ok P (c \<lparr> co_polling := x \<rparr>)" "mission_ok P (c \<lparr> co_polling := x, co_route_id := y \<rparr>)" for x y
    using a by (simp_all add: mission_ok_def)
  then show ?thesis by (auto simp: on_route_state_def Let_def intro!: mission_status split: option.splits)
qed

lemma mission_checkpoint: "mission_ok P c \<Longrightarrow> mission_ok P (fst (on_checkpoint P mission index c))"
proof (cases "co_machine c")
  case (Some q)
  assume a: "mission_ok P c"
  obtain sp m where q: "q = (sp, m)" by fastforce
  have "mission_ok P (set_machine sp m1 c)" if "goal_succeeded (co_hypot P) sp r m = Some m1" for m1 r
    using mission_set [OF a, of sp m "Reached r" m1] Some q goal_low [OF that] that by simp
  then show ?thesis using a Some q by (auto simp: on_checkpoint_def Let_def split: option.splits)
qed (simp add: on_checkpoint_def)

lemma mission_return: "mission_ok P c \<Longrightarrow> mission_ok P (fst (fst (request_return_home P c)))"
proof (cases "co_machine c")
  case (Some q)
  assume a: "mission_ok P c"
  obtain sp m where q: "q = (sp, m)" by fastforce
  have "mission_ok P (set_machine sp (fst (request_return (co_hypot P) sp ''operator'' m)) c)"
    using mission_set [OF a, of sp m "ReturnRequest ''operator''"] Some q by simp
  then show ?thesis using a Some q by (auto simp: request_return_home_def Let_def case_prod_unfold)
qed (simp add: request_return_home_def)

lemma mission_departure: "mission_ok P c \<Longrightarrow> mission_ok P (fst (departure_cancelled ok c))"
  by (simp add: departure_cancelled_def mission_abort)

lemma mission_replacement: "mission_ok P c \<Longrightarrow> mission_ok P (fst (finish_replacement P env ok sp c))"
  by (simp add: finish_replacement_def mission_start mission_reject)

lemma mission_tick: "mission_ok P c \<Longrightarrow> mission_ok P (fst (tick_route_state ready c))"
  by (simp add: tick_route_state_def mission_ok_def)

lemma mission_exit: "mission_ok P c \<Longrightarrow> mission_ok P (fst (after_exit_cancelled ok ready c))"
  by (cases "co_machine c") (auto simp: after_exit_cancelled_def mission_pause mission_dispatch)

lemma mission_cancel: "mission_ok P (fst (cancel_patrol c))"
  by (simp add: cancel_patrol_def mission_ok_def)

lemma mission_pose: "mission_ok P c \<Longrightarrow> mission_ok P (c \<lparr> co_pose := p \<rparr>)"
  by (simp add: mission_ok_def)

lemma mission_step: "mission_ok P c \<Longrightarrow> mission_ok P (fst (coordinator_step P c e))"
proof (cases e)
  case (GuardMessage ready fresh state rec now br cr)
  assume a: "mission_ok P c"
  obtain b d where b: "ingest_guard (co_battery c) ready fresh state rec now = (b, d)" by fastforce
  then have "bi_latched b = bd_latched d \<and> bd_latched d = (bi_latched (co_battery c) \<or> bd_newly d)"
    unfolding ingest_guard_def by (auto dest!: evaluate_latch)
  then show ?thesis using mission_consume [OF a] GuardMessage b by simp
next
  case (SocMessage present pct now br cr)
  assume a: "mission_ok P c"
  obtain b d where b: "ingest_soc (co_battery c) present pct now = (b, d)" by fastforce
  then have "bi_latched b = bd_latched d \<and> bd_latched d = (bi_latched (co_battery c) \<or> bd_newly d)"
    unfolding ingest_soc_def Let_def by (auto dest!: evaluate_latch)
  then show ?thesis using mission_consume [OF a] SocMessage b by simp
next
  case (SetPatrol q now)
  assume "mission_ok P c"
  then show ?thesis using SetPatrol by (auto simp: set_patrol_def mission_ok_def split: sum.splits)
qed (simp_all add: mission_departure mission_prepare mission_replacement mission_dispatched mission_tick mission_route_state
    mission_checkpoint mission_exit mission_return mission_cancel mission_pose)

interpretation coordinator: machine "coordinator_step P" "mission_ok P" for P
  by unfold_locales (rule mission_step)

subsection \<open>The way home\<close>

definition returning :: "coordinator \<Rightarrow> bool" where
  "returning c \<longleftrightarrow> (case co_machine c of None \<Rightarrow> False | Some (sp, m) \<Rightarrow> pm_phase m = ReturnHome)"

text \<open>The report of the delegated route at the chosen exit of the loop.\<close>

definition exit_event :: "coordinator \<Rightarrow> coordinator_event \<Rightarrow> bool" where
  "exit_event c e \<longleftrightarrow>
     (\<exists>sp m x t i. co_machine c = Some (sp, m) \<and> pm_phase m = ExitLoop \<and> pm_exit m = Some x \<and> co_route_id c \<noteq> [] \<and>
        e = CheckpointEvent (Some (co_route_id c)) t \<and>
        py_int_of_string (case t of None \<Rightarrow> ''-1'' | Some u \<Rightarrow> u) = Some i \<and> delegated_index c i = int (rx_index x))"

definition asks_return :: "patrol_output list \<Rightarrow> bool" where
  "asks_return os \<longleftrightarrow> (\<exists>q. SetRoute q \<in> set os \<and> lq_phase q = ReturnHome)"

lemma asks_return_simps [simp]:
  "\<not> asks_return []" "asks_return (xs @ ys) \<longleftrightarrow> asks_return xs \<or> asks_return ys"
  "asks_return (Notice t # os) = asks_return os" "asks_return (Uncaught # os) = asks_return os"
  "asks_return (Persist v # os) = asks_return os" "asks_return (CancelRoute r # os) = asks_return os"
  "asks_return (BrakeNow # os) = asks_return os" "asks_return (AskRouteState # os) = asks_return os"
  "asks_return (AskConversion p # os) = asks_return os"
  "asks_return (SetRoute q # os) \<longleftrightarrow> lq_phase q = ReturnHome \<or> asks_return os"
  by (auto simp: asks_return_def)

text \<open>What a handler does on the way home: it neither starts it nor asks for its leg by itself.\<close>

definition homeward :: "coordinator \<Rightarrow> coordinator_result \<Rightarrow> bool" where
  "homeward c r \<longleftrightarrow> (returning (fst r) \<longrightarrow> returning c) \<and> (asks_return (snd r) \<longrightarrow> returning c)"

lemma returning_set [simp]: "returning (set_machine sp m c) \<longleftrightarrow> pm_phase m = ReturnHome"
  by (simp add: returning_def)

lemma returning_cong: "co_machine d = co_machine c \<Longrightarrow> returning d = returning c"
  by (simp add: returning_def)

lemma returning_some: "co_machine c = Some (sp, m) \<Longrightarrow> returning c \<longleftrightarrow> pm_phase m = ReturnHome"
  by (simp add: returning_def)

lemma homeward_pause: "\<not> asks_return os \<Longrightarrow> homeward c (pause_machine r c, os)"
  by (cases "co_machine c") (auto simp: homeward_def pause_machine_def returning_def patrol_pause_def patrol_active_def set_machine_def Let_def split: if_splits)

lemma homeward_abort: "\<not> asks_return os \<Longrightarrow> homeward c (abort_machine r c, os)"
  by (cases "co_machine c") (auto simp: homeward_def abort_machine_def returning_def patrol_abort_def set_machine_def Let_def)

lemma homeward_same: "co_machine d = co_machine c \<Longrightarrow> \<not> asks_return os \<Longrightarrow> homeward c (d, os)"
  by (simp add: homeward_def returning_def)

lemma homeward_trans: "co_machine d = co_machine c \<Longrightarrow> homeward d r \<Longrightarrow> homeward c r"
  using returning_cong [of d c] by (simp add: homeward_def)

lemma homeward_paused: "homeward c (pause_machine x (c \<lparr> co_indices := is \<rparr>), [])"
proof -
  have "homeward (c \<lparr> co_indices := is \<rparr>) (pause_machine x (c \<lparr> co_indices := is \<rparr>), [])" by (rule homeward_pause) simp
  then show ?thesis by (rule homeward_trans [rotated]) simp
qed

lemma homeward_ask:
  "co_machine c = Some (sp, m) \<Longrightarrow> homeward c (c \<lparr> co_indices := is, co_superseded := s, co_route_id := t \<rparr>,
     [SetRoute (leg_request_of sp (pm_phase m) r roles lp)])"
  by (simp add: homeward_def returning_def leg_request_of_def)

lemma homeward_dispatch: "homeward c (dispatch_phase ready c)"
proof (cases "co_machine c")
  case (Some q)
  obtain sp m where q: "q = (sp, m)" by fastforce
  show ?thesis
  proof (cases "patrol_active m \<and> current_route sp m \<noteq> None")
    case True
    then obtain rt lp start where t: "current_route sp m = Some (rt, lp, start)" by (cases "current_route sp m") auto
    show ?thesis
    proof (cases "route_roles (pm_phase m) rt")
      case None
      then show ?thesis unfolding dispatch_phase_def Some q using True t by (simp add: Let_def homeward_same)
    next
      case (Some roles)
      then show ?thesis unfolding dispatch_phase_def \<open>co_machine c = Some q\<close> q
        using True t homeward_paused [of c] homeward_ask [OF \<open>co_machine c = Some q\<close> [unfolded q]] by (simp add: Let_def)
    qed
  next
    case False
    then show ?thesis using Some q by (cases "patrol_active m"; cases "current_route sp m") (auto simp: dispatch_phase_def homeward_same)
  qed
qed (simp add: dispatch_phase_def homeward_same)

lemma homeward_start: "homeward c (start_spec P env sp c)"
proof (cases "patrol_machine (cp_json P) sp (se_mission env)")
  case (Inr m0)
  have "homeward c (then_do (c \<lparr> co_battery := b, co_machine := Some (sp, m), co_spec := Some sp, co_route_id := [],
      co_status := x, co_error := NoError \<rparr>, os) (dispatch_phase ready))"
    if "patrol_start sp m0 home l = Some m" "\<not> asks_return os" for b m home l x os ready
  proof -
    define d where "d = c \<lparr> co_battery := b, co_machine := Some (sp, m), co_spec := Some sp, co_route_id := [],
      co_status := x, co_error := NoError \<rparr>"
    have "\<not> returning d" using that(1) by (auto simp: d_def returning_def patrol_start_def Let_def split: if_splits)
    then show ?thesis using homeward_dispatch [of d ready] that(2)
      by (auto simp: homeward_def then_do_def Let_def case_prod_unfold simp flip: d_def)
  qed
  then show ?thesis
    by (auto simp: start_spec_def Inr Let_def case_prod_unfold reject_patrol_def homeward_same split: option.splits)
qed (simp add: start_spec_def homeward_same)

lemma homeward_reject: "homeward c (reject_patrol e c)"
  by (simp add: reject_patrol_def homeward_same)

lemma homeward_next: "homeward c (next_conversion P env job c)"
proof -
  have "homeward c (activate_spec P en sp (c \<lparr> co_preparation := None \<rparr>))" for en sp
    using homeward_start [of "c \<lparr> co_preparation := None \<rparr>" P en sp] homeward_reject [of "c \<lparr> co_preparation := None \<rparr>" NoPose]
    by (auto simp: activate_spec_def homeward_same intro: homeward_trans [where d = "c \<lparr> co_preparation := None \<rparr>"])
  then show ?thesis by (simp add: next_conversion_def homeward_same homeward_reject)
qed

lemma homeward_prepare: "homeward c (tick_preparation P env c)"
  by (simp add: tick_preparation_def homeward_same homeward_reject homeward_next split: option.split conversion.split)

lemma homeward_consume: "homeward c (consume_decision P br cr d (c \<lparr> co_battery := b \<rparr>))"
proof (cases "co_machine c")
  case (Some q)
  obtain sp m where q: "q = (sp, m)" by fastforce
  have l: "pm_phase (fst (latch_battery (co_hypot P) sp h m)) = ReturnHome \<longleftrightarrow> pm_phase m = ReturnHome" for h
    by (auto simp: latch_battery_def request_return_def Let_def)
  have a: "\<not> returning (abort_machine x e)" if "co_machine e \<noteq> None" for x e
    using that by (auto simp: abort_machine_def patrol_abort_def returning_def set_machine_def Let_def)
  show ?thesis using Some q l
    by (auto simp: consume_decision_def Let_def case_prod_unfold homeward_def a returning_some split: option.splits)
qed (simp add: consume_decision_def homeward_same)

lemma homeward_status: "homeward c (reported_status P ready status c)"
proof (cases "co_machine c")
  case (Some q)
  obtain sp m where q: "q = (sp, m)" by fastforce
  show ?thesis
  proof (cases "status = ''COMPLETED'' \<and> pm_phase m \<in> {DepartHome, ReturnHome}")
    case True
    then consider "pm_phase m = DepartHome" | "pm_phase m = ReturnHome" by auto
    then show ?thesis
    proof cases
      case 1
      define d where "d = set_machine sp (m \<lparr> pm_phase := JoinLoop \<rparr>) c"
      have "\<not> returning d" by (simp add: d_def)
      then have "homeward c (dispatch_phase ready d)" using homeward_dispatch [of d ready] by (auto simp: homeward_def)
      then show ?thesis using Some q True 1 by (simp add: reported_status_def report_depart d_def)
    next
      case 2
      then show ?thesis using Some q True by (simp add: reported_status_def report_return homeward_def returning_def)
    qed
  next
    case False
    then show ?thesis using Some q homeward_pause [of "[]" c] homeward_same [of c c "[]"] by (auto simp: reported_status_def)
  qed
qed (simp add: reported_status_def homeward_same)

lemma homeward_route_state: "homeward c (on_route_state P ready report c)"
proof -
  have "homeward c (reported_status P ready st (c \<lparr> co_polling := x, co_route_id := y \<rparr>))"
    "homeward c (reported_status P ready st (c \<lparr> co_polling := x \<rparr>))" for st x y
    using homeward_status [of "c \<lparr> co_polling := x, co_route_id := y \<rparr>" P ready st]
      homeward_status [of "c \<lparr> co_polling := x \<rparr>" P ready st] by (auto intro: homeward_trans [rotated])
  then show ?thesis by (simp add: on_route_state_def Let_def homeward_same split: option.split)
qed

lemma homeward_return: "homeward c (fst (request_return_home P c))"
proof (cases "co_machine c")
  case (Some q)
  obtain sp m where q: "q = (sp, m)" by fastforce
  then show ?thesis using Some
    by (cases "pm_phase m = Patrol")
      (simp_all add: request_return_home_def request_return_def Let_def case_prod_unfold homeward_same,
       simp_all add: homeward_def returning_def)
qed (simp add: request_return_home_def homeward_same)

lemma checkpoint_home:
  "(returning (fst (on_checkpoint P mission t c)) \<longrightarrow> returning c \<or> exit_event c (CheckpointEvent mission t)) \<and>
     \<not> asks_return (snd (on_checkpoint P mission t c))"
proof (cases "co_machine c")
  case (Some q)
  obtain sp m where q: "q = (sp, m)" by fastforce
  show ?thesis
  proof (cases "pm_phase m \<in> {JoinLoop, ExitLoop} \<and> co_route_id c \<noteq> [] \<and> mission = Some (co_route_id c)")
    case True
    show ?thesis
    proof (cases "py_int_of_string (case t of None \<Rightarrow> ''-1'' | Some u \<Rightarrow> u)")
      case d: (Some d)
      have j: "pm_phase m1 \<noteq> ReturnHome" if "goal_succeeded (co_hypot P) sp r m = Some m1" "pm_phase m = JoinLoop" for r m1
        using that by (auto simp: goal_succeeded_def request_return_def Let_def split: if_splits)
      show ?thesis using Some q True d j
        by (auto simp: on_checkpoint_def Let_def exit_event_def returning_some split: option.splits)
    qed (use Some q True in \<open>simp add: on_checkpoint_def\<close>)
  qed (use Some q in \<open>auto simp: on_checkpoint_def returning_some\<close>)
qed (simp add: on_checkpoint_def)

lemma homeward_exit: "homeward c (after_exit_cancelled ok ready c)"
  using homeward_pause [of "[]" c] homeward_dispatch [of c ready] homeward_same [of c c "[]"]
  by (auto simp: after_exit_cancelled_def split: option.split)

lemma homeward_others:
  "homeward c (departure_cancelled ok c)" "homeward c (finish_replacement P env ok sp c)" "homeward c (tick_route_state ready c)"
  "homeward c (route_dispatched ok phase c)" "homeward c (fst (set_patrol P q now c), [])"
proof -
  show "homeward c (fst (set_patrol P q now c), [])"
    by (rule homeward_same) (auto simp: set_patrol_def split: sum.split)
  show "homeward c (route_dispatched ok phase c)"
    by (auto simp: route_dispatched_def homeward_same homeward_pause split: option.split)
qed (simp_all add: departure_cancelled_def finish_replacement_def tick_route_state_def homeward_same homeward_abort
    homeward_start homeward_reject)

lemma homeward_step: "homeward c (coordinator_step P c e) \<or> exit_event c e"
proof (cases e)
  case (CheckpointEvent mission t)
  then show ?thesis using checkpoint_home [of P mission t c] by (auto simp: homeward_def)
next
  case CancelService
  then show ?thesis by (auto simp: cancel_patrol_def homeward_def returning_def)
qed (auto simp: homeward_others homeward_prepare homeward_consume homeward_route_state homeward_exit homeward_return
    Let_def case_prod_unfold homeward_same)

lemma checkpoint_asks_nothing: "\<not> asks_return (snd (coordinator_step P c e)) \<or> homeward c (coordinator_step P c e)"
proof (cases e)
  case (CheckpointEvent mission t)
  then show ?thesis using checkpoint_home [of P mission t c] by simp
next
  case CancelService
  then show ?thesis by (auto simp: cancel_patrol_def homeward_def returning_def)
qed (auto simp: homeward_others homeward_prepare homeward_consume homeward_route_state homeward_exit homeward_return
    Let_def case_prod_unfold homeward_same)

text \<open>Some event of the history was the report at the exit, in the state of its time.\<close>

definition exit_reported :: "coordinator_params \<Rightarrow> coordinator \<Rightarrow> coordinator_event list \<Rightarrow> bool" where
  "exit_reported P c es \<longleftrightarrow> (\<exists>xs e ys. es = xs @ e # ys \<and> exit_event (fst (run (coordinator_step P) c xs)) e)"

lemma exit_reported_snoc: "exit_reported P c es \<Longrightarrow> exit_reported P c (es @ [e])"
  unfolding exit_reported_def by (metis append.assoc append_Cons)

lemma exit_reported_last: "exit_event (fst (run (coordinator_step P) c es)) e \<Longrightarrow> exit_reported P c (es @ [e])"
  unfolding exit_reported_def by blast

lemma home_trace:
  assumes "\<not> returning c"
  shows "(returning (fst (run (coordinator_step P) c es)) \<longrightarrow> exit_reported P c es) \<and>
    (asks_return (snd (run (coordinator_step P) c es)) \<longrightarrow> exit_reported P c es)"
proof (induction es rule: rev_induct)
  case Nil
  then show ?case using assms by simp
next
  case (snoc e es)
  define d where "d = fst (run (coordinator_step P) c es)"
  have f: "fst (run (coordinator_step P) c (es @ [e])) = fst (coordinator_step P d e)"
    "snd (run (coordinator_step P) c (es @ [e])) = snd (run (coordinator_step P) c es) @ snd (coordinator_step P d e)"
    by (simp_all add: d_def run_append Let_def case_prod_unfold)
  have "returning d \<Longrightarrow> exit_reported P c (es @ [e])" using snoc exit_reported_snoc by (auto simp: d_def)
  moreover have "exit_event d e \<Longrightarrow> exit_reported P c (es @ [e])" by (simp add: d_def exit_reported_last)
  ultimately show ?case using homeward_step [of d P e] checkpoint_asks_nothing [of P d e] snoc exit_reported_snoc
    by (auto simp: f homeward_def simp flip: d_def)
qed

subsection \<open>Properties\<close>

text \<open>
  Battery and mission agree: whatever messages, reports and requests the node has handled, the mission
  it holds is a reachable one that was started, its low battery is exactly the latch of the battery input,
  and while the return is latched the mission is not patrolling.
\<close>

lemma coordinator_battery_consistent:
  "case co_machine (fst (run (coordinator_step P) (new_coordinator b) events)) of
     None \<Rightarrow> True
   | Some (sp, m) \<Rightarrow>
       patrol_reach (cp_json P) (co_hypot P) sp m \<and> pm_phase m \<noteq> Idle \<and>
       bi_latched (co_battery (fst (run (coordinator_step P) (new_coordinator b) events))) = pm_low_battery m \<and>
       \<not> (pm_low_battery m \<and> pm_phase m = Patrol)"
proof -
  define c where "c = fst (run (coordinator_step P) (new_coordinator b) events)"
  have "mission_ok P (new_coordinator b)" by (simp add: mission_ok_def new_coordinator_def)
  then have i: "mission_ok P c" unfolding c_def by (rule coordinator.run_inv)
  show ?thesis
  proof (cases "co_machine c")
    case (Some q)
    obtain sp m where q: "q = (sp, m)" by fastforce
    then have m: "machine_ok P sp m" "bi_latched (co_battery c) = pm_low_battery m" using i Some by (simp_all add: mission_some)
    then have "patrol_inv (co_hypot P) sp m" using reach_inv by (auto simp: machine_ok_def)
    then show ?thesis using Some q m by (simp add: machine_ok_def patrol_inv_def flip: c_def)
  qed (simp flip: c_def)
qed

text \<open>
  C37. The robot is sent home only from the exit: from any state of the node whose mission is not yet on the
  way home, and over any history from there, a leg of the return phase is requested from the route executor
  only if, before, the delegated route reported its checkpoint at the exit chosen for the mission.
\<close>

theorem return_leg_needs_exit:
  assumes "\<not> returning c0" "run (coordinator_step P) c0 events = (c, outs)" "SetRoute q \<in> set outs" "lq_phase q = ReturnHome"
  shows "exit_reported P c0 events"
  using home_trace [OF assms(1), of P events] assms(2-4) by (auto simp: asks_return_def)

text \<open>
  A closed loop can lose the mission: when the last point of the requested loop closes it (within five
  centimetres of the first) and is also the entry of the departure, the request is accepted, but the
  resolved loop has one point less, and activating the mission raises an exception that nothing catches;
  the request is lost without a rejection.
\<close>

lemma closing_entry_raises:
  assumes "spec_from_request J defaults q = Inr sp" "sp_entry sp = int (length (pr_waypoints (sp_loop sp))) - 1"
    "length (converted LoopLeg) = length (pr_waypoints (sp_loop sp))" "2 < length (converted LoopLeg)"
    "fle (distance_to (tg_hypot T) (hd (converted LoopLeg)) (last (converted LoopLeg))) (fl (5 / 100))"
  shows "start_spec P env (resolved_spec T sp converted) c = (c, [Uncaught])"
proof -
  define r where "r = resolved_spec T sp converted"
  have "int (length (pr_waypoints (sp_loop r))) \<le> sp_entry r"
    using assms(2-5) by (simp add: r_def resolved_spec_def normalise_route_def resolve_yaws_def)
  then have "validate_mission (cp_json P) r \<noteq> None" using valid_mission(3) [of "cp_json P" r] by auto
  then show ?thesis by (auto simp: start_spec_def patrol_machine_def r_def)
qed

subsection \<open>Witnesses\<close>

definition sample_request :: patrol_request where
  "sample_request =
     \<lparr> pq_loop = \<lparr> lr_lats = [Fin 0, Fin 1, Fin 0], lr_lons = [Fin 0, Fin 0, Fin 0], lr_yaws = [], lr_actions = [] \<rparr>,
       pq_depart = \<lparr> lr_lats = [], lr_lons = [], lr_yaws = [], lr_actions = [] \<rparr>,
       pq_return = \<lparr> lr_lats = [], lr_lons = [], lr_yaws = [], lr_actions = [] \<rparr>, pq_home = (Fin 0, Fin 0, Fin 0),
       pq_entry = 2, pq_leg = Fin 0, pq_span = Fin 0, pq_max = 0 \<rparr>"

definition sample_coordinator_params :: coordinator_params where
  "sample_coordinator_params =
     \<lparr> cp_trig = sample_trig, cp_json = sample_json, cp_timeout = Fin 2, cp_tolerance = Fin 1,
       cp_defaults = (Fin 35, Fin 120, 5) \<rparr>"

definition sample_start :: start_env where
  "sample_start = \<lparr> se_mission = ''m'', se_stored = True, se_now = Fin 0, se_ready = True \<rparr>"

lemma closing_entry_raises_witness:
  "\<exists>sp. spec_from_request sample_json (Fin 35, Fin 120, 5) sample_request = Inr sp \<and>
     start_spec sample_coordinator_params sample_start (resolved_spec sample_trig sp (\<lambda>l. replicate 3 (sample_stop 0 0)))
       (new_coordinator sample_battery_input) = (new_coordinator sample_battery_input, [Uncaught])"
proof -
  have "\<exists>sp. spec_from_request sample_json (Fin 35, Fin 120, 5) sample_request = Inr sp \<and> sp_entry sp = 2 \<and>
      length (pr_waypoints (sp_loop sp)) = 3"
    by (simp add: spec_from_request_def request_route_def sample_request_def parse_actions_def patrol_machine_def validate_mission_def
        route_error_def or_error_def finite_waypoint_def request_point_def home_point_def upt_rec Let_def eval_nat_numeral)
  then obtain sp where sp: "spec_from_request sample_json (Fin 35, Fin 120, 5) sample_request = Inr sp" "sp_entry sp = 2"
    "length (pr_waypoints (sp_loop sp)) = 3" by blast
  have f: "distance_to (tg_hypot sample_trig) (sample_stop 0 0) (sample_stop 0 0) = Fin 0"
    by (simp add: distance_to_def sample_trig_def sample_stop_def or_zero_def fsub_def)
  have "fle (Fin 0) (fl (5 / 100))" using fl_mono [of 0 "5 / 100"] by simp
  then show ?thesis
    using closing_entry_raises [OF sp(1), of "\<lambda>l. replicate 3 (sample_stop 0 0)" sample_trig sample_coordinator_params sample_start
        "new_coordinator sample_battery_input"] sp f
    by (auto simp: eval_nat_numeral)
qed

definition sample_exit_state :: coordinator where
  "sample_exit_state = (new_coordinator sample_battery_input)
     \<lparr> co_machine := Some (sample_patrol, (new_patrol ''m'') \<lparr> pm_phase := ExitLoop,
         pm_exit := Some \<lparr> rx_index = 1, rx_waypoint = sample_patrol_point 4 1, rx_distance = Fin 1 \<rparr> \<rparr>),
       co_route_id := ''r'', co_indices := [0, 1] \<rparr>"

lemma return_leg_needs_exit_witness:
  "exit_reported sample_coordinator_params sample_exit_state [CheckpointEvent (Some ''r'') (Some ''1''), ExitCancelled True True]"
proof -
  let ?es = "[CheckpointEvent (Some ''r'') (Some ''1''), ExitCancelled True True]"
  have n: "\<not> returning sample_exit_state" by (simp add: returning_def sample_exit_state_def)
  have i: "py_int_of_string ''1'' = Some 1" by code_simp
  obtain c outs where r: "run (coordinator_step sample_coordinator_params) sample_exit_state ?es = (c, outs)" by fastforce
  have "\<exists>q. SetRoute q \<in> set outs \<and> lq_phase q = ReturnHome"
    using r by (auto simp: on_checkpoint_def sample_exit_state_def i delegated_index_def goal_succeeded_def after_exit_cancelled_def
        set_machine_def dispatch_phase_def patrol_active_def current_route_def sample_patrol_def route_roles_def leg_request_of_def Let_def)
  then show ?thesis using return_leg_needs_exit [OF n r] by blast
qed

end
