(* ===== verification/Route_Mission.thy ===== *)
theory Route_Mission
  imports Route_Executor
begin

section \<open>What the route executor guarantees\<close>

text \<open>
  The invariant of the node of \<open>Route_Executor\<close> and its properties over any history of events: goals are sent
  only for the active mission, a checkpoint is reported once, and an answer to an old goal changes nothing.
  One lemma per handler computes its weakest precondition.
\<close>

subsection \<open>What every handler keeps\<close>

fun checkpoint_of :: "route_output \<Rightarrow> identity list" where
  "checkpoint_of (CheckpointReached who n source) = [who]"
| "checkpoint_of o1 = []"

definition checkpoints :: "route_output list \<Rightarrow> identity list" where
  "checkpoints os = concat (map checkpoint_of os)"

lemma checkpoints_simps [simp]:
  "checkpoints [] = []" "checkpoints (o1 # os) = checkpoint_of o1 @ checkpoints os"
  "checkpoints (os @ os2) = checkpoints os @ checkpoints os2"
  by (simp_all add: checkpoints_def)

text \<open>Goals in a log belong to the mission and its phase is active.\<close>

fun goal_allowed :: "mission \<Rightarrow> route_output \<Rightarrow> bool" where
  "goal_allowed m (SetGoal e who q) \<longleftrightarrow> mi_phase m = RActive \<and> mi_id m = who"
| "goal_allowed m o1 \<longleftrightarrow> True"

fun is_goal :: "route_output \<Rightarrow> bool" where
  "is_goal (SetGoal e who q) = True"
| "is_goal o1 = False"

lemma goal_allowed_no_goal: "\<not> list_ex is_goal os \<Longrightarrow> list_all (goal_allowed m) os"
proof -
  have "\<not> is_goal o1 \<Longrightarrow> goal_allowed m o1" for o1 by (cases o1) auto
  then show "\<not> list_ex is_goal os \<Longrightarrow> list_all (goal_allowed m) os" by (auto simp: list_ex_iff list_all_iff)
qed

lemma goal_allowed_cong: "mi_phase m = mi_phase n \<Longrightarrow> mi_id m = mi_id n \<Longrightarrow> goal_allowed m = goal_allowed n"
proof
  fix o1 assume "mi_phase m = mi_phase n" "mi_id m = mi_id n"
  then show "goal_allowed m o1 = goal_allowed n o1" by (cases o1) auto
qed

lemma goal_allowed_update [simp]:
  "goal_allowed (m \<lparr> mi_target := i \<rparr>) = goal_allowed m" "goal_allowed (m \<lparr> mi_chunk := i \<rparr>) = goal_allowed m"
  "goal_allowed (m \<lparr> mi_iteration := i \<rparr>) = goal_allowed m" "goal_allowed (m \<lparr> mi_reached := i \<rparr>) = goal_allowed m"
  by (rule goal_allowed_cong; simp)+

text \<open>The part of the invariant that relates a state to the one before the handler, with its reached checkpoints,
  its mission and its goal epoch; \<open>b\<close> tells whether the mission may be active and checkpoints be reported.\<close>

definition exec_inv :: "executor \<Rightarrow> bool" where
  "exec_inv s \<longleftrightarrow> (rx_action s \<noteq> None \<longrightarrow> mi_phase (rx_mission s) \<in> {RActive, RCompleted}) \<and>
     (mi_phase (rx_mission s) = RCompleted \<longrightarrow> rx_chunk s = None) \<and> distinct (rx_reached s)"

definition same :: "'a \<Rightarrow> 'a \<Rightarrow> bool" where
  "same x y \<longleftrightarrow> x = y"

definition since :: "bool \<Rightarrow> identity list \<Rightarrow> string \<Rightarrow> int \<Rightarrow> executor \<Rightarrow> bool" where
  "since b R m e s \<longleftrightarrow> exec_inv s \<and> (b \<or> checkpoints (rx_log s) = [] \<and> mi_phase (rx_mission s) \<noteq> RActive) \<and>
     list_all (\<lambda>x. fst x = m) (checkpoints (rx_log s)) \<and> rx_reached s = R @ checkpoints (rx_log s) \<and> same m (mi_id (rx_mission s)) \<and>
     e \<le> rx_goal_epoch s \<and> list_all (goal_allowed (rx_mission s)) (rx_log s)"

definition no_goal_yet :: "executor \<Rightarrow> bool" where
  "no_goal_yet s \<longleftrightarrow> \<not> list_ex is_goal (rx_log s)"

definition active :: "executor \<Rightarrow> bool" where
  "active s \<longleftrightarrow> mi_phase (rx_mission s) = RActive"

lemmas inv_defs = since_def exec_inv_def no_goal_yet_def active_def

lemmas small_acts = emit_def event_def stop_brake_def the_route_def the_chunk_def

lemma wp_pause:
  assumes "since b R m e s" "no_goal_yet s"
  shows "wp (pause reason) (\<lambda>_ t. since b R m (e + 1) t \<and> no_goal_yet t \<and> \<not> active t) (\<lambda>t. False) s"
  using assms goal_allowed_no_goal
  by (auto simp: pause_def wp_simps enter_phase_def small_acts inv_defs transition_def split: option.splits)

lemma wp_prepare_tracker:
  assumes "since b R m e s" "no_goal_yet s" "active s"
  shows "wp (prepare_tracker W) (\<lambda>_ t. since b R m e t \<and> no_goal_yet t \<and> active t) (since b R m e) s"
  using assms
  by (auto simp: prepare_tracker_def wp_simps small_acts inv_defs split: option.splits sum.splits prod.splits)

lemma wp_send_chunk:
  assumes "since b R m e s" "no_goal_yet s" "active s"
  shows "wp (send_chunk W) (\<lambda>_ t. since b R m e t \<and> active t \<and> \<not> rx_at_checkpoint t) (since b R m e) s"
proof -
  have tr: "wp (prepare_tracker W) (\<lambda>_ t. since b R m e t \<and> no_goal_yet t \<and> active t) (since b R m e) (s \<lparr> rx_offset := k \<rparr>)" for k
    by (rule wp_prepare_tracker) (use assms in \<open>auto simp: inv_defs\<close>)
  show ?thesis
    using assms
    by (auto simp: send_chunk_def wp_simps small_acts inv_defs simp del: distinct_append split: option.splits intro!: wp_mono [OF tr])
qed

lemma wp_dispatch_chunk:
  assumes "since b R m e s" "no_goal_yet s" "active s"
  shows "wp (dispatch_chunk W) (\<lambda>_. since b R m e) (since b R m e) s"
proof -
  have sd: "wp (send_chunk W) (\<lambda>_ t. since b R m e t \<and> active t \<and> \<not> rx_at_checkpoint t) (since b R m e) t"
    if "since b R m e t" "no_goal_yet t" "active t" for t using that by (rule wp_send_chunk)
  have ps: "wp (pause r) (\<lambda>_ t. since b R m (e + 1) t \<and> no_goal_yet t \<and> \<not> active t) (\<lambda>t. False) t"
    if "since b R m e t" "no_goal_yet t" for r t using that by (rule wp_pause)
  show ?thesis
    using assms
    apply (auto simp: dispatch_chunk_def wp_simps small_acts complete_mission_def enter_phase_def transition_def Let_def split: option.splits sum.splits
      intro!: wp_mono [OF sd] wp_mono [OF ps])
    apply (auto simp: inv_defs goal_allowed_no_goal simp del: distinct_append)
    done
qed

lemma wp_advance:
  assumes "since b R m e s" "no_goal_yet s" "active s"
  shows "wp (advance W) (\<lambda>_. since b R m e) (since b R m e) s"
proof -
  have b: "b = True" using assms by (simp add: since_def active_def)
  have di: "wp (dispatch_chunk W) (\<lambda>_. since True R m e) (since True R m e) t" if "since True R m e t" "no_goal_yet t" "active t" for t
    using that by (rule wp_dispatch_chunk)
  show ?thesis
    using assms unfolding b
    by (auto simp: advance_def wp_simps small_acts Let_def inv_defs simp del: distinct_append split: option.splits intro!: di)
qed

lemma wp_start_actions:
  assumes "since b R m e s" "no_goal_yet s" "active s"
  shows "wp (start_actions index as now) (\<lambda>_ t. since b R m e t \<and> no_goal_yet t \<and> active t) (since b R m e) s"
  using assms
  by (auto simp: start_actions_def begin_action_def wp_simps small_acts Let_def inv_defs simp del: distinct_append
      split: option.splits prod.splits)

lemma wp_record_checkpoint:
  assumes "since True R m e s" "no_goal_yet s" "active s"
  shows "wp (record_checkpoint oc source) (\<lambda>_ t. since True R m e t \<and> no_goal_yet t \<and> active t) (since True R m e) s"
  using assms
  by (auto simp: record_checkpoint_def wp_simps inv_defs simp del: distinct_append append_assoc simp flip: append_assoc)
     (auto simp: identity_of_def same_def)

lemma wp_complete_chunk:
  assumes "since True R m e s" "no_goal_yet s" "active s"
  shows "wp (complete_chunk W source ck) (\<lambda>_. since True R m e) (since True R m e) s"
proof -
  have ad: "wp (advance W) (\<lambda>_. since True R m e) (since True R m e) t" if "since True R m e t" "no_goal_yet t" "active t" for t
    using that by (rule wp_advance)
  have rc: "wp (record_checkpoint oc source) (\<lambda>_ t. since True R m e t \<and> no_goal_yet t \<and> active t) (since True R m e) t"
    if "since True R m e t" "no_goal_yet t" "active t" for t oc using that by (rule wp_record_checkpoint)
  have sa: "wp (start_actions index as now) (\<lambda>_ t. since True R m e t \<and> no_goal_yet t \<and> active t) (since True R m e) t"
    if "since True R m e t" "no_goal_yet t" "active t" for t index "as" now using that by (rule wp_start_actions)
  have ps: "wp (pause r) (\<lambda>_ t. since True R m (e + 1) t \<and> no_goal_yet t \<and> \<not> active t) (\<lambda>t. False) t"
    if "since True R m e t" "no_goal_yet t" for r t using that by (rule wp_pause)
  show ?thesis
    using assms
    by (auto simp: complete_chunk_def wp_simps small_acts Let_def inv_defs simp del: distinct_append split: option.splits sum.splits
      intro!: wp_mono [OF rc] wp_mono [OF ps] wp_mono [OF ad] wp_mono [OF sa])
qed

lemma wp_tick_action:
  assumes "since b R m e s" "no_goal_yet s"
  shows "wp (tick_action W answer ck) (\<lambda>_. since b R m e) (since b R m e) s"
proof -
  have ps: "wp (pause r) (\<lambda>_ t. since b R m (e + 1) t \<and> no_goal_yet t \<and> \<not> active t) (\<lambda>t. False) t"
    if "since b R m e t" "no_goal_yet t" for r t using that by (rule wp_pause)
  have fin: "wp (advance W) (\<lambda>_. since b R m e) (since b R m e) t" if t: "since b R m e t" "no_goal_yet t" "active t \<or> rx_chunk t = None" for t
  proof (cases "active t")
    case True then show ?thesis using wp_advance t by blast
  next
    case False
    then show ?thesis using t
      by (auto simp: advance_def wp_simps small_acts split: option.splits)
  qed
  have ph: "mi_phase (rx_mission s) = RActive \<or> rx_chunk s = None" if "rx_action s \<noteq> None"
    using assms(1) that by (auto simp: inv_defs)
  show ?thesis
  proof (cases "\<exists>e. rx_action s = Some e \<and> ex_state e = ActRunning")
    case False
    then show ?thesis using assms by (auto simp: tick_action_def wp_simps split: option.splits)
  next
    case True
    then obtain e0 where e0: "rx_action s = Some e0" "ex_state e0 = ActRunning" by blast
    show ?thesis
    proof (cases "rx_action_future s")
      case True
      then show ?thesis using assms e0
        by (cases answer) (auto simp: tick_action_def fail_action_def wp_simps small_acts inv_defs simp del: distinct_append
          split: option.splits intro!: wp_mono [OF ps])
    next
      case False
      obtain e1 fo where c: "ex_complete e0 (ck 1) = (e1, fo)" by fastforce
      then show ?thesis using assms e0 ph False
        by (cases fo) (auto simp: tick_action_def begin_action_def wp_simps small_acts Let_def inv_defs simp del: distinct_append
            split: option.splits intro!: wp_mono [OF fin])
    qed
  qed
qed

subsection \<open>Handlers of recovery\<close>

lemma wp_finish_recovery:
  assumes "since b R m e s"
  shows "wp (finish_recovery accepted reason now)
    (\<lambda>_ t. since b R m e t \<and> (no_goal_yet s \<longrightarrow> no_goal_yet t) \<and> (active s \<longrightarrow> active t) \<and> (\<not> rx_at_checkpoint s \<longrightarrow> \<not> rx_at_checkpoint t)) (since b R m e) s"
  using assms
  by (auto simp: finish_recovery_def wp_simps small_acts inv_defs simp del: distinct_append split: option.splits)

lemma wp_check_clears:
  assumes "since b R m e s" "no_goal_yet s" "active s"
  shows "wp (check_clears W answer ck) (\<lambda>_ t. since b R m e t \<and> active t \<and> (no_goal_yet t \<or> \<not> rx_at_checkpoint t)) (since b R m e) s"
proof -
  have fr: "wp (finish_recovery a r n) (\<lambda>_ u. since b R m e u \<and> (no_goal_yet t \<longrightarrow> no_goal_yet u) \<and> (active t \<longrightarrow> active u) \<and>
      (\<not> rx_at_checkpoint t \<longrightarrow> \<not> rx_at_checkpoint u)) (since b R m e) t" if "since b R m e t" for a r n t
    using that by (rule wp_finish_recovery)
  have sd: "wp (send_chunk W) (\<lambda>_ t. since b R m e t \<and> active t \<and> \<not> rx_at_checkpoint t) (since b R m e) t"
    if "since b R m e t" "no_goal_yet t" "active t" for t using that by (rule wp_send_chunk)
  show ?thesis
    using assms
    by (cases answer)
       (auto simp: check_clears_def wp_simps small_acts Let_def inv_defs simp del: distinct_append
        split: option.splits intro!: wp_mono [OF fr] wp_mono [OF sd])
qed

lemma wp_begin_recovery_retry:
  assumes "since True R m e s" "active s" "no_goal_yet s \<or> \<not> rx_at_checkpoint s"
  shows "wp (begin_recovery_retry W ready ck) (\<lambda>_. since True R m e) (since True R m e) s"
proof -
  have fr: "wp (finish_recovery a r n) (\<lambda>_ u. since True R m e u \<and> (no_goal_yet t \<longrightarrow> no_goal_yet u) \<and> (active t \<longrightarrow> active u) \<and>
      (\<not> rx_at_checkpoint t \<longrightarrow> \<not> rx_at_checkpoint u)) (since True R m e) t" if "since True R m e t" for a r n t
    using that by (rule wp_finish_recovery)
  have cc: "wp (complete_chunk W src k) (\<lambda>_. since True R m e) (since True R m e) t"
    if "since True R m e t" "no_goal_yet t" "active t" for t src k using that by (rule wp_complete_chunk)
  show ?thesis
  proof (cases "rx_at_checkpoint s")
    case True
    then have "no_goal_yet s" using assms(3) by simp
    then show ?thesis using True assms(1,2)
      by (auto simp: begin_recovery_retry_def wp_simps inv_defs simp del: distinct_append intro!: wp_mono [OF fr] wp_mono [OF cc])
  next
    case False
    then show ?thesis using assms
      by (auto simp: begin_recovery_retry_def wp_simps small_acts inv_defs simp del: distinct_append
          split: option.splits intro!: wp_mono [OF fr])
  qed
qed

lemma wp_stop_for_recovery:
  assumes "since b R m e s"
  shows "wp stop_for_recovery (\<lambda>_. since b R m e) (since b R m e) s"
  using assms by (auto simp: stop_for_recovery_def wp_simps small_acts inv_defs simp del: distinct_append)

lemma wp_tick_recovery:
  assumes "since b R m e s" "no_goal_yet s" "active s \<longrightarrow> b"
  shows "wp (tick_recovery W clears ready ck) (\<lambda>_. since b R m e) (since b R m e) s"
proof (cases "active s")
  case False
  then show ?thesis using assms by (simp add: tick_recovery_def wp_simps active_def)
next
  case True
  then have b: "b" using assms(3) by simp
  have cl: "wp (check_clears W a k) (\<lambda>_ t. since True R m e t \<and> active t \<and> (no_goal_yet t \<or> \<not> rx_at_checkpoint t)) (since True R m e) t"
    if "since True R m e t" "no_goal_yet t" "active t" for a k t using that by (rule wp_check_clears)
  have br: "wp (begin_recovery_retry W ready ck) (\<lambda>_. since True R m e) (since True R m e) t"
    if "since True R m e t" "active t" "no_goal_yet t \<or> \<not> rx_at_checkpoint t" for t using that by (rule wp_begin_recovery_retry)
  have st: "wp stop_for_recovery (\<lambda>_. since True R m e) (since True R m e) t" if "since True R m e t" for t
    using that by (rule wp_stop_for_recovery)
  have upd: "since True R m e (t \<lparr> rx_recovery := q \<rparr>) = since True R m e t" "no_goal_yet (t \<lparr> rx_recovery := q \<rparr>) = no_goal_yet t"
    "active (t \<lparr> rx_recovery := q \<rparr>) = active t" "since True R m e (t \<lparr> rx_at_checkpoint := x \<rparr>) = since True R m e t"
    "no_goal_yet (t \<lparr> rx_at_checkpoint := x \<rparr>) = no_goal_yet t" "active (t \<lparr> rx_at_checkpoint := x \<rparr>) = active t" for t q x
    by (auto simp: inv_defs)
  show ?thesis
    using assms(1,2) True b
    by (auto simp: tick_recovery_def wp_simps upd split: option.splits intro!: wp_mono [OF cl] wp_mono [OF st] wp_mono [OF br])
qed

subsection \<open>The other handlers\<close>

lemma wp_on_pose:
  assumes "since b R m e s" "no_goal_yet s" "active s \<longrightarrow> b"
  shows "wp (on_pose W o1 now_ros ck) (\<lambda>_. since b R m e) (since b R m e) s"
proof (cases "active s")
  case False
  then show ?thesis using assms(1)
    by (auto simp: on_pose_def wp_simps Let_def inv_defs simp del: distinct_append split: option.splits)
next
  case True
  then have b: b using assms(3) by simp
  have rc: "wp (record_checkpoint oc src) (\<lambda>_ t. since True R m e t \<and> no_goal_yet t \<and> active t) (since True R m e) t"
    if "since True R m e t" "no_goal_yet t" "active t" for t oc src using that by (rule wp_record_checkpoint)
  show ?thesis using assms(1,2) True b
    by (auto simp: on_pose_def wp_simps Let_def inv_defs simp del: distinct_append split: option.splits prod.splits
        intro!: wp_mono [OF rc])
qed

lemma wp_terminal_result:
  assumes "since True R m e s" "no_goal_yet s" "active s"
  shows "wp (terminal_result W msg ck) (\<lambda>_. since True R m e) (since True R m e) s"
proof -
  have ps: "wp (pause r) (\<lambda>_ t. since True R m (e + 1) t \<and> no_goal_yet t \<and> \<not> active t) (\<lambda>t. False) t"
    if "since True R m e t" "no_goal_yet t" for r t using that by (rule wp_pause)
  have cc: "wp (complete_chunk W src k) (\<lambda>_. since True R m e) (since True R m e) t"
    if "since True R m e t" "no_goal_yet t" "active t" for t src k using that by (rule wp_complete_chunk)
  show ?thesis using assms
    by (auto simp: terminal_result_def wp_simps small_acts inv_defs simp del: distinct_append split: option.splits
        intro!: wp_mono [OF ps] wp_mono [OF cc])
qed

lemma wp_update_progress:
  assumes "since b R m e s" "no_goal_yet s" "active s"
  shows "wp (update_progress W) (\<lambda>_ t. since b R m e t \<and> no_goal_yet t \<and> active t) (since b R m e) s"
  using assms
  by (auto simp: update_progress_def wp_simps inv_defs simp del: distinct_append split: option.splits)

lemma wp_on_telemetry:
  assumes "since b R m e s" "no_goal_yet s" "active s \<longrightarrow> b"
  shows "wp (on_telemetry W msg ck) (\<lambda>_. since b R m e) (since b R m e) s"
proof (cases "active s")
  case False
  then show ?thesis using assms(1) by (simp add: on_telemetry_def wp_simps active_def)
next
  case True
  then have b: b using assms(3) by simp
  have ps: "wp (pause r) (\<lambda>_ t. since True R m (e + 1) t \<and> no_goal_yet t \<and> \<not> active t) (\<lambda>t. False) t"
    if "since True R m e t" "no_goal_yet t" for r t using that by (rule wp_pause)
  have tr: "wp (terminal_result W msg ck) (\<lambda>_. since True R m e) (since True R m e) t"
    if "since True R m e t" "no_goal_yet t" "active t" for t using that by (rule wp_terminal_result)
  have up: "wp (update_progress W) (\<lambda>_ t. since True R m e t \<and> no_goal_yet t \<and> active t) (since True R m e) t"
    if "since True R m e t" "no_goal_yet t" "active t" for t using that by (rule wp_update_progress)
  show ?thesis using assms(1,2) True b
    by (auto simp: on_telemetry_def wp_simps inv_defs simp del: distinct_append
        intro!: wp_mono [OF ps] wp_mono [OF up] wp_mono [OF tr])
qed

lemma wp_on_goal_request:
  assumes "since b R m e s" "no_goal_yet s"
  shows "wp (on_goal_request epoch answer now) (\<lambda>_. since b R m e) (since b R m e) s"
proof -
  have ps: "wp (pause r) (\<lambda>_ t. since b R m (e + 1) t \<and> no_goal_yet t \<and> \<not> active t) (\<lambda>t. False) t"
    if "since b R m e t" "no_goal_yet t" for r t using that by (rule wp_pause)
  have fr: "wp (finish_recovery a r n) (\<lambda>_ u. since b R m e u \<and> (no_goal_yet t \<longrightarrow> no_goal_yet u) \<and> (active t \<longrightarrow> active u) \<and>
      (\<not> rx_at_checkpoint t \<longrightarrow> \<not> rx_at_checkpoint u)) (since b R m e) t" if "since b R m e t" for a r n t
    using that by (rule wp_finish_recovery)
  show ?thesis using assms
    by (auto simp: on_goal_request_def wp_simps inv_defs simp del: distinct_append split: sum.splits
        intro!: wp_mono [OF ps] wp_mono [OF fr])
qed

lemma wp_set_mission:
  assumes "since b R m e s" "no_goal_yet s"
  shows "wp (set_mission W q ck) (\<lambda>_. since b R m e) (since b R m e) s"
  using assms
  by (auto simp: set_mission_def wp_simps small_acts inv_defs simp del: distinct_append split: sum.splits option.splits)

lemma wp_set_profile:
  assumes "since b R m e s" "no_goal_yet s"
  shows "wp (set_profile profile ready answer) (\<lambda>_. since b R m e) (since b R m e) s"
  using assms
  by (cases answer) (auto simp: set_profile_def wp_simps small_acts inv_defs Let_def simp del: distinct_append)

lemma wp_cancel_mission:
  assumes "since b R m e s" "no_goal_yet s" "checkpoints (rx_log s) = []"
  shows "wp (cancel_mission answer) (\<lambda>_ t. since False [] m (e + 1) t \<and> \<not> active t) (\<lambda>_. False) s"
  using assms
  by (cases answer) (auto simp: cancel_mission_def enter_phase_def transition_def wp_simps small_acts inv_defs goal_allowed_no_goal
      simp del: distinct_append split: option.splits)

text \<open>Activation replaces the mission by a new one, or leaves it alone.\<close>

definition replaced :: "bool \<Rightarrow> identity list \<Rightarrow> string \<Rightarrow> int \<Rightarrow> string \<Rightarrow> executor \<Rightarrow> bool" where
  "replaced b R m e uuid t \<longleftrightarrow> since b R m e t \<or> since True [] uuid e t"

lemma wp_start_mission:
  assumes "since b R m e s" "no_goal_yet s" "checkpoints (rx_log s) = []"
  shows "wp (start_mission W r policy uuid i) (\<lambda>_. since True [] uuid e) (\<lambda>t. replaced b R m e uuid t) s"
proof -
  have di: "wp (dispatch_chunk W) (\<lambda>_. since True [] uuid e) (since True [] uuid e) t"
    if "since True [] uuid e t" "no_goal_yet t" "active t" for t using that by (rule wp_dispatch_chunk)
  show ?thesis using assms
    by (auto simp: start_mission_def new_mission_def transition_def wp_simps inv_defs replaced_def same_def idle_mission_def goal_allowed_no_goal
        simp del: distinct_append intro!: wp_mono [OF di])
qed

lemma wp_activate_prepared:
  assumes "since b R m e s" "no_goal_yet s" "checkpoints (rx_log s) = []"
  shows "wp (activate_prepared W j uuid now_ros ck) (\<lambda>_. replaced b R m e uuid) (replaced b R m e uuid) s"
proof -
  have sm: "wp (start_mission W r policy uuid i) (\<lambda>_. since True [] uuid e) (\<lambda>t. replaced b R m e uuid t) t"
    if "since b R m e t" "no_goal_yet t" "checkpoints (rx_log t) = []" for r policy i t using that by (rule wp_start_mission)
  have re: "since True [] uuid e t \<Longrightarrow> replaced b R m e uuid t" "since b R m e t \<Longrightarrow> replaced b R m e uuid t" for t
    by (simp_all add: replaced_def)
  have ev: "since b R m e (t \<lparr> rx_event_id := k, rx_log := rx_log t @ [RouteEvent c] \<rparr>) = since b R m e t"
    "no_goal_yet (t \<lparr> rx_event_id := k, rx_log := rx_log t @ [RouteEvent c] \<rparr>) = no_goal_yet t"
    "since b R m e (t \<lparr> rx_preparation := p \<rparr>) = since b R m e t"  "no_goal_yet (t \<lparr> rx_preparation := p \<rparr>) = no_goal_yet t" for t k c p
    by (auto simp: inv_defs simp del: distinct_append)
  have ev2: "since b R m e (s \<lparr> rx_preparation := None, rx_event_id := k, rx_log := rx_log s @ [RouteEvent c] \<rparr>)" for k c
    using assms by (auto simp: inv_defs simp del: distinct_append)
  show ?thesis using assms
    by (auto simp: activate_prepared_def Let_def event_def wp_simps ev ev2 re split: option.splits loop_entry.splits
        intro!: wp_mono [OF sm])
qed

lemma wp_tick_preparation:
  assumes "since b R m e s" "no_goal_yet s" "checkpoints (rx_log s) = []"
  shows "wp (tick_route_preparation W answer ready uuid now_ros ck) (\<lambda>_. replaced b R m e uuid) (replaced b R m e uuid) s"
proof -
  have ap: "wp (activate_prepared W j uuid now_ros k) (\<lambda>_. replaced b R m e uuid) (replaced b R m e uuid) t"
    if "since b R m e t" "no_goal_yet t" "checkpoints (rx_log t) = []" for j k t using that by (rule wp_activate_prepared)
  have re: "since b R m e t \<Longrightarrow> replaced b R m e uuid t" for t by (simp add: replaced_def)
  have upd: "since b R m e (t \<lparr> rx_preparation := p \<rparr>) = since b R m e t"  "no_goal_yet (t \<lparr> rx_preparation := p \<rparr>) = no_goal_yet t"
    "since b R m e (t \<lparr> rx_preparation := p, rx_log := rx_log t @ [AskConversion x y] \<rparr>) = since b R m e t" for t p x y
    by (auto simp: inv_defs simp del: distinct_append)
  have co: "wp (continue_preparation W j ready uuid now_ros ck) (\<lambda>_. replaced b R m e uuid) (replaced b R m e uuid) t"
    if "since b R m e t" "no_goal_yet t" "checkpoints (rx_log t) = []" for j t
    using that by (auto simp: continue_preparation_def Let_def emit_def wp_simps upd re intro!: ap)
  show ?thesis using assms
    by (cases answer) (auto simp: tick_route_preparation_def Let_def wp_simps upd re split: option.splits intro!: co)
qed

subsection \<open>Steps of the node\<close>

definition outcome :: "route_event \<Rightarrow> executor \<Rightarrow> executor \<Rightarrow> bool" where
  "outcome v s =
     (case v of
        TickPreparation answer ready uuid now_ros \<Rightarrow> replaced (active s) (rx_reached s) (mi_id (rx_mission s)) (rx_goal_epoch s) uuid
      | CancelMission answer \<Rightarrow> (\<lambda>t. since False [] (mi_id (rx_mission s)) (rx_goal_epoch s + 1) t \<and> \<not> active t)
      | _ \<Rightarrow> since (active s) (rx_reached s) (mi_id (rx_mission s)) (rx_goal_epoch s))"

lemma outcome_log: "outcome v (s \<lparr> rx_log := l \<rparr>) = outcome v s"
  by (cases v) (simp_all add: outcome_def active_def)

lemma handler_outcome:
  assumes "exec_inv s" "rx_log s = []"
  shows "wp (route_handler W v ck) (\<lambda>_. outcome v s) (outcome v s) s"
proof -
  define R m e where d: "R = rx_reached s" "m = mi_id (rx_mission s)" "e = rx_goal_epoch s"
  have si: "since (active s) R m e s" using assms by (simp add: since_def same_def active_def d)
  have qu: "no_goal_yet s" using assms by (simp add: no_goal_yet_def)
  show ?thesis
  proof (cases v)
    case (TickPreparation a ready uuid n)
    then show ?thesis using wp_tick_preparation [OF si qu] assms(2) by (simp add: outcome_def d)
  next
    case (CancelMission a)
    have "wp (cancel_mission a) (\<lambda>_ t. since False [] m (e + 1) t \<and> \<not> active t) (\<lambda>_. False) s"
      using wp_cancel_mission [OF si qu] assms(2) by simp
    then show ?thesis using CancelMission by (auto simp: outcome_def d elim: wp_mono)
  next
    case (Health h)
    then show ?thesis using si by (auto simp: outcome_def d wp_simps inv_defs)
  qed (use si qu in \<open>simp_all add: outcome_def wp_on_pose wp_on_telemetry wp_tick_recovery wp_tick_action wp_on_goal_request wp_set_mission wp_set_profile flip: d\<close>)
qed

lemma step_outcome:
  assumes "exec_inv s" "executor_step W s (v, ck) = (s1, os)"
  shows "\<exists>t. s1 = t \<lparr> rx_log := [] \<rparr> \<and> (os = rx_log t \<or> os = rx_log t @ [Uncaught]) \<and> outcome v s t"
proof -
  define s0 where "s0 = s \<lparr> rx_log := [] \<rparr>"
  obtain t r where h: "route_handler W v ck s0 = (t, r)" by fastforce
  have "exec_inv s0" "rx_log s0 = []" using assms(1) by (simp_all add: s0_def exec_inv_def)
  then have "outcome v s0 t" using handler_outcome [of s0 W v ck] h by (simp add: wp_state)
  moreover have "outcome v s0 = outcome v s" by (simp add: s0_def outcome_log)
  ultimately have o1: "outcome v s t" by simp
  have "executor_step W s (v, ck) = (case (t, r) of
       (s1, Inr u) \<Rightarrow> (s1 \<lparr> rx_log := [] \<rparr>, rx_log s1) | (s1, Inl f) \<Rightarrow> (s1 \<lparr> rx_log := [] \<rparr>, rx_log s1 @ [Uncaught]))"
    by (simp only: executor_step_def prod.case h [symmetric] s0_def)
  then show ?thesis using assms(2) o1 by (cases r) auto
qed

lemma outcome_inv: "outcome v s t \<Longrightarrow> exec_inv t"
  by (cases v) (auto simp: outcome_def replaced_def since_def)

interpretation route_node: machine "executor_step W" "\<lambda>s. exec_inv s \<and> rx_log s = []" for W
proof
  fix s and i :: "route_event \<times> readings" assume "exec_inv s \<and> rx_log s = []"
  moreover obtain v ck where "i = (v, ck)" by (cases i)
  moreover obtain s1 os where "executor_step W s i = (s1, os)" by fastforce
  ultimately obtain t where "s1 = t \<lparr> rx_log := [] \<rparr>" "outcome v s t" "executor_step W s i = (s1, os)" using step_outcome by blast
  then show "exec_inv (fst (executor_step W s i)) \<and> rx_log (fst (executor_step W s i)) = []"
    using outcome_inv [of v s t] by (simp add: exec_inv_def)
qed

lemma new_executor_inv: "new_executor p = Some s \<Longrightarrow> exec_inv s \<and> rx_log s = [] \<and> \<not> active s \<and> rx_reached s = [] \<and> mi_id (rx_mission s) = []"
  by (auto simp: new_executor_def exec_inv_def idle_mission_def active_def split: if_splits)

lemma run_executor_inv:
  assumes "new_executor p = Some s0" "run (executor_step W) s0 is = (s, os)" shows "exec_inv s" "rx_log s = []"
  using route_node.run_inv [of s0 W "is"] new_executor_inv [OF assms(1)] assms(2) by simp_all

subsection \<open>Histories\<close>

fun uuids_of :: "route_event \<Rightarrow> string list" where
  "uuids_of (TickPreparation answer ready uuid now_ros) = [uuid]"
| "uuids_of v = []"

definition history_ok :: "identity list \<Rightarrow> string list \<Rightarrow> executor \<Rightarrow> bool" where
  "history_ok h U s \<longleftrightarrow> distinct h \<and> list_all (\<lambda>x. fst x \<in> set U) h \<and> mi_id (rx_mission s) \<in> set U \<and>
     (active s \<longrightarrow> list_all (\<lambda>x. fst x = mi_id (rx_mission s) \<longrightarrow> x \<in> set (rx_reached s)) h)"

lemma checkpoints_uncaught: "os = l \<or> os = l @ [Uncaught] \<Longrightarrow> checkpoints os = checkpoints l"
  by auto

lemma since_history:
  assumes "history_ok h U s" "since (active s) (rx_reached s) (mi_id (rx_mission s)) e t"
  shows "history_ok (h @ checkpoints (rx_log t)) U t"
proof -
  have m: "mi_id (rx_mission t) = mi_id (rx_mission s)" using assms(2) by (simp add: since_def same_def)
  have new: "list_all (\<lambda>x. fst x = mi_id (rx_mission s)) (checkpoints (rx_log t))"
    and re: "rx_reached t = rx_reached s @ checkpoints (rx_log t)" and di: "distinct (rx_reached t)"
    and ac: "active s \<or> checkpoints (rx_log t) = [] \<and> \<not> active t"
    using assms(2) by (auto simp: since_def exec_inv_def active_def)
  show ?thesis
  proof (cases "active s")
    case True
    then have "set h \<inter> set (checkpoints (rx_log t)) = {}"
      using assms(1) new di re by (fastforce simp: history_ok_def list_all_iff)
    then show ?thesis using assms(1) new di re m True
      by (auto simp: history_ok_def list_all_iff)
  next
    case False
    then show ?thesis using ac assms(1) m by (simp add: history_ok_def)
  qed
qed

lemma replaced_history:
  assumes "history_ok h U s" "since True [] uuid e t" "uuid \<notin> set U"
  shows "history_ok (h @ checkpoints (rx_log t)) (uuid # U) t"
proof -
  have m: "mi_id (rx_mission t) = uuid" "rx_reached t = checkpoints (rx_log t)" "distinct (checkpoints (rx_log t))"
    and new: "\<forall>x\<in>set (checkpoints (rx_log t)). fst x = uuid" using assms(2) by (auto simp: since_def same_def exec_inv_def list_all_iff)
  have old: "\<forall>x\<in>set h. fst x \<in> set U" "distinct h" using assms(1) by (auto simp: history_ok_def list_all_iff)
  then have "set h \<inter> set (checkpoints (rx_log t)) = {}" using new assms(3) by (metis disjoint_iff)
  then show ?thesis using m new old assms(3) by (auto simp: history_ok_def list_all_iff)
qed

lemma history_more: "history_ok h U s \<Longrightarrow> history_ok h (u # U) s"
  by (auto simp: history_ok_def list_all_iff)

lemma history_step:
  assumes "exec_inv s" "history_ok h U s" "executor_step W s (v, ck) = (s1, os)" "set (uuids_of v) \<inter> set U = {}"
  shows "history_ok (h @ checkpoints os) (uuids_of v @ U) s1"
proof -
  obtain t where t: "s1 = t \<lparr> rx_log := [] \<rparr>" "os = rx_log t \<or> os = rx_log t @ [Uncaught]" "outcome v s t"
    using step_outcome [OF assms(1,3)] by blast
  have si: "history_ok (h @ checkpoints (rx_log t)) U t"
    if "since (active s) (rx_reached s) (mi_id (rx_mission s)) e t" for e using since_history [OF assms(2) that] .
  have "history_ok (h @ checkpoints (rx_log t)) (uuids_of v @ U) t"
  proof (cases v)
    case (TickPreparation a r uuid n)
    then have "since (active s) (rx_reached s) (mi_id (rx_mission s)) (rx_goal_epoch s) t \<or> since True [] uuid (rx_goal_epoch s) t"
      using t(3) by (simp add: outcome_def replaced_def)
    then have "history_ok (h @ checkpoints (rx_log t)) U t \<or> history_ok (h @ checkpoints (rx_log t)) (uuid # U) t"
      using si replaced_history [OF assms(2)] assms(4) TickPreparation by auto
    then show ?thesis using TickPreparation history_more by auto
  next
    case (CancelMission a)
    then show ?thesis using t(3) assms(2) by (simp add: outcome_def history_ok_def since_def same_def active_def)
  qed (use t(3) in \<open>simp_all add: outcome_def si\<close>)
  then show ?thesis using checkpoints_uncaught [OF t(2)] t(1) by (simp add: history_ok_def active_def)
qed

lemma history_run:
  assumes "exec_inv s" "rx_log s = []" "history_ok h U s" "run (executor_step W) s is = (s1, os)"
    "distinct (concat (map (uuids_of \<circ> fst) is))" "set (concat (map (uuids_of \<circ> fst) is)) \<inter> set U = {}"
  shows "distinct (h @ checkpoints os)"
  using assms
proof (induction "is" arbitrary: s h U os)
  case Nil
  then show ?case by (simp add: history_ok_def)
next
  case (Cons i "is")
  obtain v ck where i: "i = (v, ck)" by (cases i)
  obtain s2 os1 where st: "executor_step W s i = (s2, os1)" by fastforce
  obtain os2 where r: "run (executor_step W) s2 is = (s1, os2)" "os = os1 @ os2"
    using Cons.prems(4) st by (cases "run (executor_step W) s2 is") auto
  have inv: "exec_inv s2 \<and> rx_log s2 = []" using route_node.step_inv [of s W i] Cons.prems(1,2) st by simp
  have "history_ok (h @ checkpoints os1) (uuids_of v @ U) s2"
    by (rule history_step [OF Cons.prems(1,3)]) (use st i Cons.prems(6) in auto)
  from Cons.IH [OF _ _ this r(1)] inv Cons.prems(5,6) i show ?case by (auto simp: r(2))
qed

text \<open>An inactive mission stays inactive until another one is activated, and the goal epoch never decreases.\<close>

lemma outcome_epoch: "outcome v s t \<Longrightarrow> rx_goal_epoch s \<le> rx_goal_epoch t"
  by (cases v) (auto simp: outcome_def replaced_def since_def)

lemma step_epoch: "exec_inv s \<Longrightarrow> rx_goal_epoch s \<le> rx_goal_epoch (fst (executor_step W s i))"
proof -
  assume a: "exec_inv s"
  obtain v ck where i: "i = (v, ck)" by (cases i)
  obtain s1 os where "executor_step W s (v, ck) = (s1, os)" by fastforce
  then show ?thesis using step_outcome [OF a] outcome_epoch i by fastforce
qed

lemma run_epoch:
  "exec_inv s \<Longrightarrow> rx_log s = [] \<Longrightarrow> rx_goal_epoch s \<le> rx_goal_epoch (fst (run (executor_step W) s is))"
proof (induction "is" arbitrary: s)
  case (Cons i "is")
  have "exec_inv (fst (executor_step W s i)) \<and> rx_log (fst (executor_step W s i)) = []"
    using route_node.step_inv Cons.prems by blast
  then have "rx_goal_epoch (fst (executor_step W s i)) \<le> rx_goal_epoch (fst (run (executor_step W) (fst (executor_step W s i)) is))"
    using Cons.IH by blast
  then show ?case using step_epoch [OF Cons.prems(1), of W i] by (simp add: run_Cons del: run.simps(2))
qed simp

definition not_mission :: "string \<Rightarrow> executor \<Rightarrow> bool" where
  "not_mission m s \<longleftrightarrow> mi_id (rx_mission s) = m \<longrightarrow> \<not> active s"

definition goal_of :: "string \<Rightarrow> route_output \<Rightarrow> bool" where
  "goal_of m o1 \<longleftrightarrow> (case o1 of SetGoal e who q \<Rightarrow> who = m | _ \<Rightarrow> False)"

lemma since_goals: "since b R m0 e t \<Longrightarrow> not_mission m t \<Longrightarrow> \<not> list_ex (goal_of m) (rx_log t)"
proof -
  assume a: "since b R m0 e t" "not_mission m t"
  have "\<not> goal_of m o1" if "o1 \<in> set (rx_log t)" for o1
  proof -
    have "goal_allowed (rx_mission t) o1" using a(1) that by (simp add: since_def list_all_iff)
    then show ?thesis using a(2) by (cases o1) (auto simp: goal_of_def not_mission_def active_def)
  qed
  then show ?thesis by (simp add: list_ex_iff)
qed

lemma since_not_mission: "since (active s) R (mi_id (rx_mission s)) e t \<Longrightarrow> not_mission m s \<Longrightarrow> not_mission m t"
  by (auto simp: not_mission_def since_def same_def active_def)

lemma step_not_mission:
  assumes "exec_inv s" "not_mission m s" "executor_step W s (v, ck) = (s1, os)" "m \<notin> set (uuids_of v)"
  shows "not_mission m s1 \<and> \<not> list_ex (goal_of m) os"
proof -
  obtain t where t: "s1 = t \<lparr> rx_log := [] \<rparr>" "os = rx_log t \<or> os = rx_log t @ [Uncaught]" "outcome v s t"
    using step_outcome [OF assms(1,3)] by blast
  have "\<exists>b R m0 e. since b R m0 e t \<and> not_mission m t"
  proof (cases v)
    case (TickPreparation a r uuid n)
    have "not_mission m t" if "since True [] uuid e t" for e
      using that assms(4) TickPreparation by (simp add: not_mission_def since_def same_def)
    then show ?thesis using TickPreparation t(3) since_not_mission [OF _ assms(2)] by (auto simp: outcome_def replaced_def)
  next
    case (CancelMission a)
    then show ?thesis using t(3) by (auto simp: outcome_def not_mission_def)
  qed (use t(3) since_not_mission [OF _ assms(2)] in \<open>auto simp: outcome_def\<close>)
  then have "not_mission m t \<and> \<not> list_ex (goal_of m) (rx_log t)" using since_goals by blast
  then show ?thesis using t(1,2) by (auto simp: not_mission_def active_def goal_of_def)
qed

lemma run_not_mission:
  "exec_inv s \<Longrightarrow> rx_log s = [] \<Longrightarrow> not_mission m s \<Longrightarrow> m \<notin> set (concat (map (uuids_of \<circ> fst) is)) \<Longrightarrow>
     \<not> list_ex (goal_of m) (snd (run (executor_step W) s is))"
proof (induction "is" arbitrary: s)
  case (Cons i "is")
  obtain v ck where i: "i = (v, ck)" by (cases i)
  obtain s1 os where st: "executor_step W s (v, ck) = (s1, os)" by fastforce
  have s1: "not_mission m s1 \<and> \<not> list_ex (goal_of m) os"
    using step_not_mission [OF Cons.prems(1,3) st] Cons.prems(4) i by auto
  have "exec_inv s1 \<and> rx_log s1 = []" using route_node.step_inv [of s W i] Cons.prems(1,2) st i by simp
  then show ?case using Cons.IH [of s1] Cons.prems(4) s1 st i by (simp add: run_Cons del: run.simps(2))
qed simp

subsection \<open>An action that outlives its mission\<close>

text \<open>Activation does not touch a running action, and the new mission has reached nothing.\<close>

definition action_kept :: "execution option \<Rightarrow> bool \<Rightarrow> executor \<Rightarrow> bool" where
  "action_kept a f s \<longleftrightarrow> (active s \<longrightarrow> rx_action s = a \<and> rx_action_future s = f \<and> mi_reached (rx_mission s) = 0)"

lemma kept_pause: "active s \<Longrightarrow> wp (pause r) (\<lambda>_ t. \<not> active t) (\<lambda>t. False) s"
  by (auto simp: pause_def wp_simps enter_phase_def small_acts transition_def active_def split: option.splits)

lemma kept_tracker: "action_kept a f s \<Longrightarrow> wp (prepare_tracker W) (\<lambda>_. action_kept a f) (action_kept a f) s"
  by (auto simp: prepare_tracker_def wp_simps small_acts action_kept_def active_def split: option.splits sum.splits prod.splits)

lemma kept_send: "action_kept a f s \<Longrightarrow> wp (send_chunk W) (\<lambda>_. action_kept a f) (action_kept a f) s"
proof -
  have "action_kept a f (s \<lparr> rx_offset := k \<rparr>) = action_kept a f s" for k by (simp add: action_kept_def active_def)
  then have tr: "action_kept a f s \<Longrightarrow> wp (prepare_tracker W) (\<lambda>_. action_kept a f) (action_kept a f) (s \<lparr> rx_offset := k \<rparr>)" for k
    using kept_tracker by simp
  assume "action_kept a f s"
  then show ?thesis
    by (auto simp: send_chunk_def wp_simps small_acts split: option.splits intro!: wp_mono [OF tr])
      (auto simp: action_kept_def active_def)
qed

lemma kept_dispatch: "action_kept a f s \<Longrightarrow> active s \<Longrightarrow> wp (dispatch_chunk W) (\<lambda>_. action_kept a f) (action_kept a f) s"
proof -
  have ps: "wp (pause r) (\<lambda>_ t. \<not> active t) (\<lambda>t. False) t" if "active t" for r t using that by (rule kept_pause)
  have sd: "wp (send_chunk W) (\<lambda>_. action_kept a f) (action_kept a f) t" if "action_kept a f t" for t using that by (rule kept_send)
  assume "action_kept a f s" "active s"
  then show ?thesis
    by (auto simp: dispatch_chunk_def wp_simps small_acts complete_mission_def enter_phase_def transition_def Let_def
        split: option.splits sum.splits intro!: wp_mono [OF sd] wp_mono [OF ps])
      (auto simp: action_kept_def active_def)
qed

lemma kept_start:
  "wp (start_mission W r policy uuid i) (\<lambda>_. action_kept (rx_action s) (rx_action_future s)) (action_kept (rx_action s) (rx_action_future s)) s"
proof -
  have di: "wp (dispatch_chunk W) (\<lambda>_. action_kept a f) (action_kept a f) t" if "action_kept a f t" "active t" for a f t
    using that by (rule kept_dispatch)
  show ?thesis
    by (auto simp: start_mission_def new_mission_def transition_def wp_simps intro!: wp_mono [OF di])
      (auto simp: action_kept_def active_def idle_mission_def)
qed

text \<open>The last action of an execution is due.\<close>

definition last_action_due :: "execution \<Rightarrow> pyfloat \<Rightarrow> bool" where
  "last_action_due e now \<longleftrightarrow> ex_state e = ActRunning \<and> length (ex_actions e) = Suc (ex_cursor e) \<and>
     (case ex_current e of None \<Rightarrow> False | Some a \<Rightarrow> ac_kind a = ''brake_hold'' \<longrightarrow> \<not> flt fzero (ex_remaining e now))"

lemma due_action_advances:
  assumes "rx_action s = Some e" "\<not> rx_action_future s" "last_action_due e (ck 0)" "active s"
    "rx_chunk s = Some c" "mi_prepared (rx_mission s) = Some r" "\<not> rt_loop r" "int (length (rt_waypoints r)) \<le> next_start r c" "0 \<le> next_start r c"
  shows "wp (tick_action W answer ck) (\<lambda>_ t. mi_phase (rx_mission t) = RCompleted \<and> mi_id (rx_mission t) = mi_id (rx_mission s) \<and>
    mi_reached (rx_mission t) = mi_reached (rx_mission s) \<and> rx_log t = rx_log s @ [RouteEvent ''ROUTE_WAYPOINT_ACTION_FINISHED'']) (\<lambda>_. False) s"
proof -
  have c: "ex_complete e (ck 1) = (e \<lparr> ex_cursor := ex_cursor e + 1, ex_started := None, ex_deadline := None, ex_state := ActSucceeded \<rparr>, None)"
    using assms(3) by (simp add: last_action_due_def ex_complete_def)
  obtain a where a: "ex_current e = Some a" "ac_kind a = ''brake_hold'' \<longrightarrow> \<not> flt fzero (ex_remaining e (ck 0))" "ex_state e = ActRunning"
    using assms(3) by (auto simp: last_action_due_def split: option.splits)
  have "ds_index (resolve_dispatch_start H r (next_start r c) pose t1 t2 []) = None" for H pose t1 t2
    using assms(7-9) by (auto simp: resolve_dispatch_start_def Let_def)
  then show ?thesis using assms a c
    by (auto simp: tick_action_def wp_simps small_acts advance_def dispatch_chunk_def Let_def complete_mission_def enter_phase_def
        transition_def active_def)
qed

definition old_or_kept :: "mission \<Rightarrow> execution option \<Rightarrow> bool \<Rightarrow> executor \<Rightarrow> bool" where
  "old_or_kept m a f t \<longleftrightarrow> rx_mission t = m \<and> rx_action t = a \<and> rx_action_future t = f \<or> action_kept a f t"

lemma kept_activate:
  assumes "rx_mission s = m" "rx_action s = a" "rx_action_future s = f"
  shows "wp (activate_prepared W j uuid n ck) (\<lambda>_. old_or_kept m a f) (old_or_kept m a f) s"
proof -
  have st: "wp (start_mission W r policy uuid i) (\<lambda>_. action_kept a f) (action_kept a f) t"
    if "rx_action t = a" "rx_action_future t = f" for r policy i t using kept_start [of W r policy uuid i t] that by simp
  show ?thesis using assms
    by (auto simp: activate_prepared_def Let_def event_def wp_simps old_or_kept_def split: option.splits loop_entry.splits
        intro!: wp_mono [OF st])
qed

definition old_state :: "mission \<Rightarrow> execution option \<Rightarrow> bool \<Rightarrow> executor \<Rightarrow> bool" where
  "old_state m a f t \<longleftrightarrow> rx_mission t = m \<and> rx_action t = a \<and> rx_action_future t = f"

lemma old_state_update [simp]:
  "old_state m a f (t \<lparr> rx_preparation := p \<rparr>) = old_state m a f t" "old_state m a f (t \<lparr> rx_log := l \<rparr>) = old_state m a f t"
  by (simp_all add: old_state_def)

lemma kept_tick_preparation:
  assumes "old_state m a f s"
  shows "wp (tick_route_preparation W answer ready uuid n ck) (\<lambda>_. old_or_kept m a f) (old_or_kept m a f) s"
proof -
  have ap: "wp (activate_prepared W j uuid n k) (\<lambda>_. old_or_kept m a f) (old_or_kept m a f) t"
    if "old_state m a f t" for j k t using that by (simp add: kept_activate old_state_def)
  have ok: "old_or_kept m a f t" if "old_state m a f t" for t using that by (simp add: old_or_kept_def old_state_def)
  have co: "wp (continue_preparation W j ready uuid n ck) (\<lambda>_. old_or_kept m a f) (old_or_kept m a f) t"
    if "old_state m a f t" for j t
    using that ap ok by (auto simp: continue_preparation_def Let_def emit_def wp_simps)
  show ?thesis using assms
    by (cases answer) (auto simp: tick_route_preparation_def Let_def wp_simps split: option.splits intro!: co ok)
qed

subsection \<open>Properties\<close>

text \<open>
  C25. Navigation goals are sent only for the active mission: after any history, every goal that a step sends
  carries the identifier of the mission, whose phase is then ACTIVE.
\<close>

theorem goals_only_when_active:
  assumes "new_executor p = Some s0" "run (executor_step W) s0 is = (s, os0)" "executor_step W s i = (s1, os)"
  shows "list_all (goal_allowed (rx_mission s1)) os"
proof -
  obtain v ck where i: "i = (v, ck)" by (cases i)
  obtain t where t: "s1 = t \<lparr> rx_log := [] \<rparr>" "os = rx_log t \<or> os = rx_log t @ [Uncaught]" "outcome v s t"
    using step_outcome [OF run_executor_inv(1) [OF assms(1,2)]] assms(3) i by blast
  have "list_all (goal_allowed (rx_mission t)) (rx_log t)" using t(3) by (cases v) (auto simp: outcome_def replaced_def since_def)
  then show ?thesis using t by auto
qed

text \<open>
  C26. A checkpoint of a mission is reported once: over any history in which the identifiers drawn for new
  missions differ, no identity of mission, iteration and index is reported twice.
\<close>

theorem checkpoints_reported_once:
  assumes "new_executor p = Some s0" "run (executor_step W) s0 is = (s, os)"
    "distinct ([] # concat (map (uuids_of \<circ> fst) is))"
  shows "distinct (checkpoints os)"
proof -
  have "history_ok [] [[]] s0" using new_executor_inv [OF assms(1)] by (simp add: history_ok_def)
  then have "distinct ([] @ checkpoints os)"
    using history_run [of s0 "[]" "[[]]" W "is" s os] new_executor_inv [OF assms(1)] assms(2,3) by auto
  then show ?thesis by simp
qed

text \<open>
  Cancelling stops a mission for good: after the cancellation of a mission no goal is sent for it any
  more, whatever happens, unless a new mission draws its identifier again.
\<close>

lemma cancelled_mission_gets_no_goal:
  assumes "new_executor p = Some s0" "run (executor_step W) s0 is = (s, os0)"
    "executor_step W s (CancelMission answer, ck) = (s1, os1)" "mi_id (rx_mission s) = m"
    "m \<notin> set (concat (map (uuids_of \<circ> fst) js))"
  shows "\<not> list_ex (goal_of m) (os1 @ snd (run (executor_step W) s1 js))"
proof -
  obtain t where t: "s1 = t \<lparr> rx_log := [] \<rparr>" "os1 = rx_log t \<or> os1 = rx_log t @ [Uncaught]" "outcome (CancelMission answer) s t"
    using step_outcome [OF run_executor_inv(1) [OF assms(1,2)] assms(3)] by blast
  then have "since False [] m (rx_goal_epoch s + 1) t" "\<not> active t" using assms(4) by (simp_all add: outcome_def)
  then have "not_mission m t \<and> \<not> list_ex (goal_of m) (rx_log t)" using since_goals by (auto simp: not_mission_def)
  moreover have "exec_inv s1 \<and> rx_log s1 = []" using t outcome_inv [OF t(3)] by (simp add: exec_inv_def)
  ultimately show ?thesis using run_not_mission [of s1 m js W] assms(5) t(1,2)
    by (auto simp: not_mission_def active_def goal_of_def)
qed

text \<open>
  An answer to an old goal changes nothing: after a cancellation, the answer to any goal that was sent
  before it leaves every later state as it is and has no effect outside.
\<close>

lemma late_answer_ignored:
  assumes "new_executor p = Some s0" "run (executor_step W) s0 is = (s, os0)"
    "executor_step W s (CancelMission answer, ck) = (s1, os1)" "run (executor_step W) s1 js = (s2, os2)"
    "epoch \<le> rx_goal_epoch s"
  shows "executor_step W s2 (GoalAnswer epoch result, ck2) = (s2, [])"
proof -
  obtain t where t: "s1 = t \<lparr> rx_log := [] \<rparr>" "outcome (CancelMission answer) s t"
    using step_outcome [OF run_executor_inv(1) [OF assms(1,2)] assms(3)] by blast
  have inv: "exec_inv s1 \<and> rx_log s1 = []" using t outcome_inv [OF t(2)] by (simp add: exec_inv_def)
  have "rx_goal_epoch s + 1 \<le> rx_goal_epoch s1" using t by (simp add: outcome_def since_def)
  moreover have "rx_goal_epoch s1 \<le> rx_goal_epoch s2" using run_epoch [of s1 W js] inv assms(4) by simp
  moreover have "rx_log s2 = []" using route_node.run_inv [of s1 W js] inv assms(4) by simp
  ultimately show ?thesis using assms(5)
    by (simp add: executor_step_def on_goal_request_def after_def gets_def ret_def)
qed

text \<open>
  An action that still runs when its mission is replaced ends the new mission: activation keeps the
  action, and when its last action is due the tick advances the new mission, so an open route that fits in
  one chunk is declared COMPLETED although none of its checkpoints was reached.
\<close>

lemma stale_action_ends_new_mission:
  assumes "executor_step W s0 (TickPreparation answer ready uuid now_ros, ck0) = (s1, os1)"
    "mi_id (rx_mission s0) \<noteq> uuid" "mi_id (rx_mission s1) = uuid" "mi_phase (rx_mission s1) = RActive"
    "rx_action s0 = Some e" "\<not> rx_action_future s0" "last_action_due e (ck 0)"
    "mi_prepared (rx_mission s1) = Some r" "\<not> rt_loop r" "rx_chunk s1 = Some c"
    "int (length (rt_waypoints r)) \<le> next_start r c" "0 \<le> next_start r c"
  shows "\<exists>s2. executor_step W s1 (TickAction result, ck) = (s2, [RouteEvent ''ROUTE_WAYPOINT_ACTION_FINISHED'']) \<and>
    mi_phase (rx_mission s2) = RCompleted \<and> mi_id (rx_mission s2) = uuid \<and> mi_reached (rx_mission s2) = 0"
proof -
  obtain t u where t: "route_handler W (TickPreparation answer ready uuid now_ros) ck0 (s0 \<lparr> rx_log := [] \<rparr>) = (t, u)" by fastforce
  then have s1: "s1 = t \<lparr> rx_log := [] \<rparr>" using assms(1) by (auto simp: executor_step_def simp del: route_handler.simps split: sum.splits)
  have "old_or_kept (rx_mission s0) (rx_action s0) (rx_action_future s0) t"
    using kept_tick_preparation [of "rx_mission s0" "rx_action s0" "rx_action_future s0" "s0 \<lparr> rx_log := [] \<rparr>" W answer ready uuid now_ros ck0] t by (simp add: wp_state old_state_def)
  then have k: "rx_action s1 = Some e" "\<not> rx_action_future s1" "mi_reached (rx_mission s1) = 0"
    using assms(2-6) by (auto simp: old_or_kept_def action_kept_def active_def s1)
  obtain t2 u2 where t2: "tick_action W result ck (s1 \<lparr> rx_log := [] \<rparr>) = (t2, u2)" by fastforce
  have "wp (tick_action W result ck) (\<lambda>_ t. mi_phase (rx_mission t) = RCompleted \<and> mi_id (rx_mission t) = mi_id (rx_mission (s1 \<lparr> rx_log := [] \<rparr>)) \<and>
    mi_reached (rx_mission t) = mi_reached (rx_mission (s1 \<lparr> rx_log := [] \<rparr>)) \<and> rx_log t = rx_log (s1 \<lparr> rx_log := [] \<rparr>) @ [RouteEvent ''ROUTE_WAYPOINT_ACTION_FINISHED'']) (\<lambda>_. False) (s1 \<lparr> rx_log := [] \<rparr>)"
    by (rule due_action_advances [where e = e and c = c and r = r]) (use k assms in \<open>simp_all add: active_def\<close>)
  then show ?thesis using t2 assms(3) k(3) by (auto simp: executor_step_def wp_def split: sum.splits)
qed

subsection \<open>Witnesses\<close>

definition executor_sample_params :: executor_params where
  "executor_sample_params = \<lparr> xp_reached_tol = Fin 1, xp_mode = ''single_checkpoint'', xp_leg_max = Fin 20, xp_dense_horizon = Fin 60,
     xp_goal_horizon = Fin 120, xp_pose_age = Fin (1 / 2), xp_fromll_timeout = Fin 2, xp_persistence = Fin 1, xp_retry_wait = Fin 5,
     xp_max_attempts = 3, xp_segment_tol = Fin 5, xp_clear_timeout = Fin 3 \<rparr>"

definition executor_sample_world :: route_world where
  "executor_sample_world = \<lparr> rw_trig = anchor_sample_trig, rw_json = sample_json, rw_params = executor_sample_params \<rparr>"

definition executor_sample :: executor where
  "executor_sample = the (new_executor executor_sample_params)"

lemma executor_sample_new: "new_executor executor_sample_params = Some executor_sample"
  by (simp add: executor_sample_def new_executor_def executor_sample_params_def)

definition executor_sample_request :: mission_request where
  "executor_sample_request = \<lparr> mq_lats = [fzero], mq_lons = [fzero], mq_yaws = [fzero], mq_actions = [], mq_roles = [], mq_loop = False,
     mq_spacing = fzero, mq_span = fzero, mq_max = 5, mq_policy = ''legacy'' \<rparr>"

definition executor_sample_job :: route_job where
  "executor_sample_job = \<lparr> jb_epoch = 2, jb_raw = [sample_point True], jb_converted = [(sample_point True) \<lparr> wp_y := Some fzero \<rparr>],
     jb_next = 1, jb_future = False, jb_request = executor_sample_request, jb_deadline = Fin 2 \<rparr>"

definition executor_sample_action :: execution where
  "executor_sample_action = \<lparr> ex_waypoint = 0, ex_actions = [(plain_action ''brake_hold'' []) \<lparr> ac_duration := Fin 1, ac_brake := 100 \<rparr>],
     ex_state = ActRunning, ex_cursor = 0, ex_started = Some fzero, ex_deadline = Some (Fin 1), ex_error = [] \<rparr>"

definition executor_sample_acting :: executor where
  "executor_sample_acting = executor_sample \<lparr> rx_mission := idle_mission \<lparr> mi_phase := RActive, mi_id := ''old'' \<rparr>,
     rx_pose := Some (fzero, fzero), rx_action := Some executor_sample_action, rx_preparation := Some executor_sample_job \<rparr>"

lemma executor_sample_prepared:
  "prepare_route anchor_sample_trig [(sample_point True) \<lparr> wp_y := Some fzero \<rparr>] False 1 fzero fzero 5 False =
     Some (\<lparr> rt_waypoints = [(sample_point True) \<lparr> wp_y := Some fzero \<rparr>], rt_loop = False, rt_input_count = 1, rt_leg_spacing = fzero,
       rt_chunk_span = fzero, rt_chunk_max = 5 \<rparr>, [])"
  by (simp add: prepare_route_def drop_closure_def resolve_yaws_def resolve_yaw_def expand_route_def sample_point_def Let_def)

lemma executor_sample_replacement:
  "\<exists>s1 os1 c r. executor_step executor_sample_world executor_sample_acting (TickPreparation Waiting True ''new'' fzero, \<lambda>_. fzero) = (s1, os1) \<and>
     mi_id (rx_mission s1) = ''new'' \<and> mi_phase (rx_mission s1) = RActive \<and> rx_chunk s1 = Some c \<and> mi_prepared (rx_mission s1) = Some r \<and>
     \<not> rt_loop r \<and> next_start r c = 1 \<and> length (rt_waypoints r) = 1"
proof -
  define W where "W = executor_sample_world"
  define r where "r = \<lparr> rt_waypoints = [(sample_point True) \<lparr> wp_y := Some fzero \<rparr>], rt_loop = False, rt_input_count = 1, rt_leg_spacing = fzero,
       rt_chunk_span = fzero, rt_chunk_max = 5 \<rparr>"
  define c where "c = \<lparr> ch_waypoints = [(sample_point True) \<lparr> wp_y := Some fzero \<rparr>], ch_start = 0, ch_end = 0, ch_iteration = 0, ch_iterations = [] \<rparr>"
  have start: "ds_index (resolve_dispatch_start H r 0 (Some (fzero, fzero)) t1 t2 []) = Some 0" for H t1 t2
    by (simp add: resolve_dispatch_start_def r_def sample_point_def Let_def)
  have built: "build_chunk H ''single_checkpoint'' lm hz r 0 0 = Inr (Some c)" for H lm hz
    by (simp add: build_chunk_def build_single_def r_def c_def sample_point_def step_index_def Let_def)
  have limited: "limit_to_horizon (tg_hypot anchor_sample_trig) r c (fzero, fzero) (Fin 120) = Inr (Some c)"
    by (simp add: limit_to_horizon_def c_def distance_to_waypoint_def anchor_sample_trig_def Let_def)
  have occs: "occurrences_of c (checkpoint_occurrences c) = Some [\<lparr> oc_index = 0, oc_iteration = 0, oc_x = fzero, oc_y = fzero \<rparr>]"
    by (simp add: c_def checkpoint_occurrences_def checkpoint_offsets_def occurrence_of_def sample_point_def Let_def)
  have tracker: "new_tracker [] (Fin (5 / 2)) (Fin (1 / 2)) (fl (1 / 10)) =
      Inr \<lparr> tk_occurrences = [], tk_radius = Fin (5 / 2), tk_max_age = Fin (1 / 2), tk_future = fl (1 / 10), tk_next = 0, tk_last = None, tk_min = [] \<rparr>"
    by (simp add: new_tracker_def tenth_eq)
  have req: "\<exists>q. chunk_goal_request W (Some c) r pol ap hd = Some q" for pol ap hd by (simp add: chunk_goal_request_def c_def)
  have entry: "open_entry_of W r t = Some 0" if "rx_pose t = Some (fzero, fzero)" for t
    using that by (simp add: open_entry_of_def select_anchor_def select_open_anchor_def r_def Let_def)
  have P: "rw_params W = executor_sample_params" "rw_trig W = anchor_sample_trig" by (simp_all add: W_def executor_sample_world_def)
  have pn: "py_nth [x] (- 1) = Some x" for x :: waypoint by (simp add: py_nth_def)
  have cs: "ch_waypoints c = [(sample_point True) \<lparr> wp_y := Some fzero \<rparr>]" "wp_x (sample_point True) = Some fzero" "wp_key (sample_point True)"
    by (simp_all add: c_def sample_point_def)
  define s0 where "s0 = executor_sample_acting \<lparr> rx_log := [] \<rparr>"
  have fields: "rx_preparation s0 = Some executor_sample_job" "rx_pose s0 = Some (fzero, fzero)" "rx_tracker_key s0 = None"
    by (simp_all add: s0_def executor_sample_acting_def executor_sample_def new_executor_def executor_sample_params_def)
  have job: "jb_future executor_sample_job = False" "jb_next executor_sample_job = length (jb_raw executor_sample_job)"
    "length (jb_raw executor_sample_job) = 1" "curve_tangent_policy (mq_policy (jb_request executor_sample_job)) = Some False"
    "prepare_route anchor_sample_trig (jb_converted executor_sample_job) (mq_loop (jb_request executor_sample_job)) 1
      (mq_spacing (jb_request executor_sample_job)) (mq_span (jb_request executor_sample_job)) (mq_max (jb_request executor_sample_job)) False = Some (r, [])"
    using executor_sample_prepared by (simp_all add: executor_sample_job_def executor_sample_request_def curve_tangent_policy_def r_def)
  have rl: "rt_loop r = False" by (simp add: r_def)
  have "wp (tick_route_preparation W Waiting True ''new'' fzero (\<lambda>_. fzero)) (\<lambda>_ t. mi_id (rx_mission t) = ''new'' \<and>
      mi_phase (rx_mission t) = RActive \<and> rx_chunk t = Some c \<and> mi_prepared (rx_mission t) = Some r) (\<lambda>_. False) s0"
    by (simp add: tick_route_preparation_def continue_preparation_def activate_prepared_def start_mission_def dispatch_chunk_def
      send_chunk_def prepare_tracker_def wp_simps small_acts Let_def fields job P rl entry new_mission_def transition_def start built limited occs
      tracker req executor_sample_params_def idle_mission_def pn cs split: option.splits)
  moreover have "next_start r c = 1" "length (rt_waypoints r) = 1" by (simp_all add: next_start_def r_def c_def)
  ultimately show ?thesis using rl
    by (auto simp: executor_step_def wp_def W_def s0_def split: prod.splits sum.splits)
qed

lemma goals_only_when_active_witness:
  "list_all (goal_allowed (rx_mission (fst (executor_step executor_sample_world executor_sample (CancelMission Waiting, \<lambda>_. fzero)))))
     (snd (executor_step executor_sample_world executor_sample (CancelMission Waiting, \<lambda>_. fzero)))"
  by (rule goals_only_when_active [OF executor_sample_new, of executor_sample_world "[]" executor_sample "[]"]) simp_all

definition executor_sample_history :: "(route_event \<times> readings) list" where
  "executor_sample_history =
     [(SetMission executor_sample_request, \<lambda>_. fzero), (TickPreparation Waiting True ''a'' fzero, \<lambda>_. fzero),
      (TickPreparation (Answered (fzero, fzero)) True ''b'' fzero, \<lambda>_. fzero), (CancelMission Waiting, \<lambda>_. fzero)]"

lemma checkpoints_reported_once_witness:
  "distinct (checkpoints (snd (run (executor_step executor_sample_world) executor_sample executor_sample_history)))"
  by (rule checkpoints_reported_once [OF executor_sample_new, of executor_sample_world executor_sample_history
      "fst (run (executor_step executor_sample_world) executor_sample executor_sample_history)"])
    (simp_all add: executor_sample_history_def del: run.simps)

lemma cancelled_mission_gets_no_goal_witness:
  "\<not> list_ex (goal_of []) (snd (executor_step executor_sample_world executor_sample (CancelMission Waiting, \<lambda>_. fzero)) @
     snd (run (executor_step executor_sample_world) (fst (executor_step executor_sample_world executor_sample (CancelMission Waiting, \<lambda>_. fzero)))
       executor_sample_history))"
proof -
  have "mi_id (rx_mission executor_sample) = []" using new_executor_inv [OF executor_sample_new] by simp
  then show ?thesis
    by (intro cancelled_mission_gets_no_goal [OF executor_sample_new, of executor_sample_world "[]" executor_sample "[]" Waiting "\<lambda>_. fzero"])
      (simp_all add: executor_sample_history_def)
qed

lemma late_answer_ignored_witness:
  "executor_step executor_sample_world (fst (executor_step executor_sample_world executor_sample (CancelMission Waiting, \<lambda>_. fzero)))
     (GoalAnswer 0 (Inr 7), \<lambda>_. fzero) =
   (fst (executor_step executor_sample_world executor_sample (CancelMission Waiting, \<lambda>_. fzero)), [])"
proof -
  have "rx_goal_epoch executor_sample = 0" by (simp add: executor_sample_def new_executor_def executor_sample_params_def)
  moreover obtain s1 os1 where "executor_step executor_sample_world executor_sample (CancelMission Waiting, \<lambda>_. fzero) = (s1, os1)" by fastforce
  ultimately show ?thesis
    using late_answer_ignored [OF executor_sample_new, of executor_sample_world "[]" executor_sample "[]" Waiting "\<lambda>_. fzero" s1 os1 "[]" s1 "[]" 0] by simp
qed

lemma stale_action_ends_new_mission_witness:
  "\<exists>s1 os1 s2. executor_step executor_sample_world executor_sample_acting (TickPreparation Waiting True ''new'' fzero, \<lambda>_. fzero) = (s1, os1) \<and>
     executor_step executor_sample_world s1 (TickAction Waiting, \<lambda>_. Fin 2) = (s2, [RouteEvent ''ROUTE_WAYPOINT_ACTION_FINISHED'']) \<and>
     mi_phase (rx_mission s2) = RCompleted \<and> mi_reached (rx_mission s2) = 0"
proof -
  obtain s1 os1 c r where s: "executor_step executor_sample_world executor_sample_acting (TickPreparation Waiting True ''new'' fzero, \<lambda>_. fzero) = (s1, os1)"
     "mi_id (rx_mission s1) = ''new''" "mi_phase (rx_mission s1) = RActive" "rx_chunk s1 = Some c" "mi_prepared (rx_mission s1) = Some r"
     "\<not> rt_loop r" "next_start r c = 1" "length (rt_waypoints r) = 1"
    using executor_sample_replacement by blast
  have f: "mi_id (rx_mission executor_sample_acting) \<noteq> ''new''" "rx_action executor_sample_acting = Some executor_sample_action"
    "\<not> rx_action_future executor_sample_acting"
    by (simp_all add: executor_sample_acting_def executor_sample_def new_executor_def executor_sample_params_def)
  have due: "last_action_due executor_sample_action (Fin 2)"
    by (simp add: last_action_due_def executor_sample_action_def ex_current_def ex_remaining_def plain_action_def fsub_def pymax_def Let_def)
  have "\<exists>s2. executor_step executor_sample_world s1 (TickAction Waiting, \<lambda>_. Fin 2) = (s2, [RouteEvent ''ROUTE_WAYPOINT_ACTION_FINISHED'']) \<and>
    mi_phase (rx_mission s2) = RCompleted \<and> mi_id (rx_mission s2) = ''new'' \<and> mi_reached (rx_mission s2) = 0"
    by (rule stale_action_ends_new_mission [OF s(1) f(1) s(2,3) f(2,3) due s(5,6,4)]) (simp_all add: s(7,8))
  then obtain s2 where "executor_step executor_sample_world s1 (TickAction Waiting, \<lambda>_. Fin 2) = (s2, [RouteEvent ''ROUTE_WAYPOINT_ACTION_FINISHED''])"
     "mi_phase (rx_mission s2) = RCompleted" "mi_reached (rx_mission s2) = 0"
    by blast
  then show ?thesis using s(1) by blast
qed

end
