(* ===== verification/Spec2Isabelle.thy ===== *)
theory Spec2Isabelle
  imports Goal_Server Path_Health Source_Selection Wheel_Odometry Course_Heading Zones Web_Server Gateway_Telemetry Gateway_Dispatch Navigation_Profiles Startup Recording Waypoint_Store Route_Library Legacy_Command Rtk Pylontech Ntrip_Source Operator_Lease Patrol_Coordinator Maneuver_Guard Route_Mission
begin

text \<open>
  A verification development for the control, navigation, web, localization and hardware logic of the
  SALUS robot: the Python packages \<open>salus_control\<close>, \<open>salus_navigation\<close>, \<open>salus_web\<close>,
  \<open>salus_localization\<close> and \<open>salus_hardware\<close> under \<open>src/src\<close>. Every definition is translated from the file its
  theory names; the properties of the manifest carry a claim number in the text before them.

  \<^bold>\<open>The program.\<close> An operator's browser (the Cockpit) talks JSON over a WebSocket to \<open>salus_web\<close>, which
  checks who may command the robot and turns requests into ROS service calls. \<open>salus_navigation\<close> prepares
  routes and patrols, cuts them into chunks that it sends to Nav2 as goals, follows their progress,
  recovers from blocked paths and judges every planned path on the costmap. Whatever velocity Nav2 or
  the operator asks for passes the arbiter of \<open>nav_command_server.py\<close>, whose output
  \<open>salus_control\<close> converts to speed and steering and writes to an ESP32 over a UART.
  \<open>salus_localization\<close> selects the sensors and computes odometry and heading, and \<open>salus_hardware\<close> reads the
  battery and brings RTCM corrections from an NTRIP caster to the autopilot's receiver.

  \<^bold>\<open>Foundations.\<close>
  \<^item> \<open>Py_Float\<close>: Python floats as exact rationals rounded to binary64 (and binary32 for message fields),
    with infinities and NaN; monotonicity of rounding and of the comparisons.
  \<^item> \<open>Prelude\<close>: results with an exception as a value, strings, machines run over lists of inputs, and the
    interfaces as locales: \<open>machine\<close> (steps keep an invariant), \<open>latch\<close> (a state that is never left and
    restricts the outputs), \<open>stamp_gate\<close> (accepted stamps increase) and \<open>stream_scanner\<close> (a decoder whose
    result does not depend on how its input is cut). Each is interpreted on components:
    \<open>machine\<close> on the serial client, the goal server, the executor, the coordinator, the tracker and the start-up;
    \<open>latch\<close> on the frames of the serial client, running and stopped, the battery nodes, the recovery and the maneuver wait;
    \<open>stamp_gate\<close> on the command consumer and the tracker; \<open>stream_scanner\<close> on the UART and RTCM decoders.
    \<open>Source_Selection\<close> and \<open>Web_Server\<close> declare interfaces of their own.
  \<^item> \<open>Handlers\<close>: callbacks as state and exception actions with a weakest precondition per construct.
  \<^item> \<open>Byte_Text\<close>: \<open>int(b, 16)\<close>, \<open>bytes.fromhex\<close>, \<open>find\<close> and \<open>strip\<close> on received bytes, and the writers they invert.

  \<^bold>\<open>From a velocity to the wire\<close> (\<open>salus_control\<close>).
  \<^item> \<open>Control_Logic\<close> (\<open>control_logic.py\<close>): conversion of a velocity to a drive command; limits hold for every input.
  \<^item> \<open>Canonical_Command\<close>, \<open>Legacy_Command\<close> (\<open>canonical_command_consumer.py\<close>, \<open>legacy_vehicle_command.py\<close>,
    \<open>vehicle_command_comparison.py\<close>): validation of canonical commands, watchdog, translation, comparison.
  \<^item> \<open>Battery\<close> (\<open>battery_estimator.py\<close>, \<open>external_battery.py\<close>): state of charge and the latched return guard.
  \<^item> \<open>Controller_Server\<close> (\<open>controller_server_node.py\<close>, \<open>transport_backends.py\<close>): the handlers and the control tick.
  \<^item> \<open>Esp_Protocol\<close>, \<open>Esp_Transport\<close> (\<open>rpy_esp32_comms\<close>): frames, CRC, resynchronising parser; the client with
    its threads as interleaved operations, the transmit path cut between the snapshot and the write of a frame.

  \<^bold>\<open>Navigation\<close> (\<open>salus_navigation\<close>).
  \<^item> \<open>Command_Arbiter\<close>, \<open>Goal_Server\<close> (\<open>nav_command_server.py\<close>, \<open>planner_failure.py\<close>): what may move the
    robot, specified by the history of events, and the goals as interleaved sections under one lock.
  \<^item> \<open>Path_Health\<close>, \<open>Maneuver_Guard\<close> (\<open>path_health.py\<close>, \<open>maneuver_guard.py\<close>): inspection of planned paths.
  \<^item> \<open>Route_Actions\<close>, \<open>Route_Preparation\<close>, \<open>Route_Chunker\<close>, \<open>Route_Anchor\<close>, \<open>Route_Recovery\<close>: the pure parts of a
    route mission, from the files of the same names, \<open>route_model.py\<close>, \<open>route_progress.py\<close>,
    \<open>route_state_machine.py\<close> and \<open>route_checkpoint_tracker.py\<close>.
  \<^item> \<open>Route_Executor\<close>, \<open>Route_Mission\<close> (\<open>route_executor_node.py\<close>): every handler of the node, and its invariant.
  \<^item> \<open>Patrol_Machine\<close>, \<open>Patrol_Battery\<close>, \<open>Patrol_Store\<close>, \<open>Patrol_Coordinator\<close> (\<open>patrol_domain.py\<close>,
    \<open>patrol_battery_input.py\<close>, \<open>patrol_store.py\<close>, \<open>patrol_mission_coordinator.py\<close>): patrols with battery return.
  \<^item> \<open>Navigation_Profiles\<close>, \<open>Startup\<close>, \<open>Zones\<close> (\<open>navigation_profiles.py\<close> and its coordinator,
    \<open>startup_readiness.py\<close>, \<open>nav2_startup_coordinator.py\<close>, \<open>zones_geojson.py\<close>, \<open>zones_manager.py\<close>).

  \<^bold>\<open>The Cockpit\<close> (\<open>salus_web\<close>).
  \<^item> \<open>Web_Protocol\<close>, \<open>Operator_Lease\<close>, \<open>Web_Server\<close> (\<open>protocol.py\<close>, \<open>operator_guard.py\<close>, \<open>operator_lease.py\<close>,
    \<open>websocket_server.py\<close>): requests, ownership of the control, queues, broadcasts and connections.
  \<^item> \<open>Ros_Request\<close>, \<open>Gateway_Dispatch\<close>, \<open>Gateway_Telemetry\<close> (\<open>ros_gateway.py\<close>, \<open>compact_telemetry.py\<close>).
  \<^item> \<open>Waypoint_Store\<close>, \<open>Route_Library\<close>, \<open>Recording\<close> (\<open>waypoint_repository.py\<close>, \<open>route_repository.py\<close>,
    \<open>recording_policy.py\<close>, \<open>recordings.py\<close>): what is kept in files.

  \<^bold>\<open>Sensors\<close> (\<open>salus_localization\<close>, \<open>salus_hardware\<close>).
  \<^item> \<open>Source_Selection\<close>, \<open>Wheel_Odometry\<close>, \<open>Course_Heading\<close>: the selectors, both odometry nodes, heading from fixes.
  \<^item> \<open>Rtk\<close>, \<open>Ntrip_Protocol\<close>, \<open>Ntrip_Source\<close> (\<open>rtk_domain.py\<close>, \<open>pixhawk_rtk_adapter.py\<close>, \<open>ntrip_protocol.py\<close>,
    \<open>ntrip_source_config.py\<close>, \<open>ntrip_rtcm_source.py\<close>): RTCM frames from the caster to the receiver.
  \<^item> \<open>Pylontech\<close> (\<open>pylontech_protocol.py\<close>, \<open>battery_backends.py\<close>, \<open>battery_node.py\<close>): the battery on RS485.

  \<^bold>\<open>Conventions.\<close> The state of an object or node is a record with its fields; a callback is a function of the
  state and an event, and what it publishes, calls or writes is its output. Whatever comes from outside (clock
  readings, answers of services, outcomes of socket, serial and file calls) is part of the event, so a
  property over all lists of events covers every environment; threads that share a lock are cut at the lock,
  and events interleave the pieces. Coarser than the code are an iteration of the UART receiver, the frames of
  one NTRIP payload, the recovery tick of the executor and the replacement of a patrol, each one step, and profile
  requests, which do not overlap; their theories say so. An exception is a value (\<open>Inl\<close>, \<open>None\<close>, or an output that
  says it escaped). A file that is written and moved into place has three outcomes: done, failed before the move,
  and failed after it with the new file in place.
  Functions of the C library whose last bits are not specified, the JSON and YAML libraries, and ROS services
  are parameters; where a property needs a fact about them it is a hypothesis and its witness gives an instance.

  \<^bold>\<open>What the lemmas show.\<close> Each theory proves the well-formedness of its state for every operation, then the
  behaviour of the operations, then its properties over runs; parsers and printers come with round trips.
  Some properties join components: what the arbiter does not permit never reaches the UART as motion (below);
  corrections go from the NTRIP source through the adapter, and from HTTP chunks through both decoders;
  a latched battery guard brings a patrol home; the lease decides what a client is told and what is dispatched.

  \<^bold>\<open>Loops and fuel.\<close> Decoders recurse on their buffer with a measure. The passes over a route in
  \<open>Route_Chunker\<close> take the number of waypoints as fuel; a pass visits each index once, and the lemmas on windows
  show that it ends before. \<open>drain\<close> takes the length of the buffer, and each scan consumes at least one byte.
  The sampling of a path and the angle loops of the odometry may run forever for some floats: they are
  partial functions, and that they end on the inputs of a vehicle is proved in \<open>Path_Health\<close> and
  \<open>Wheel_Odometry\<close>.

  \<^bold>\<open>Not modelled.\<close> ROS plumbing (publishers, parameters, executors, quality of service), log texts and diagnostic
  messages; text with characters above 255; the sign of a float zero.
  Of \<open>salus_web\<close>: the media server, ffmpeg processes and downloads of \<open>recordings.py\<close>, the process entry. Of
  \<open>salus_navigation\<close>: map snapshots and their drawing, diagnostics of Nav2, the report on backward plans. Of
  \<open>salus_hardware\<close>: cameras (vendor HTTP and ONVIF), Pixhawk sensor conversions, capability profiles, the
  calibration of drive measurements and the observers of the previous software. Of \<open>salus_localization\<close>: simulated sensors, datum and GPS profiles, antenna and
  map measurements. \<open>salus_perception\<close> works on numpy arrays. \<open>salus_evaluation\<close>, \<open>tools\<close>, the launch files and the
  simulator back ends measure or start the program and are no part of what runs on the robot; the
  C++ behaviour tree condition and costmap layer are plug-ins for Nav2 in another language.
\<close>

section \<open>From the arbiter to the wire\<close>

lemma stop_command:
  assumes "on_cmd_vel_final M now1 (stop_msg src b) c = Some c1"
  shows "dc_speed (cn_auto_cmd c1) = fzero \<and> dc_steer (cn_auto_cmd c1) = 0 \<and> cn_consumer c1 = cn_consumer c \<and> cn_client c1 = cn_client c"
proof -
  have "fle (fabs fzero) (pymax eps6 x)" for x
    using eps6_le_pymax [of x] by (simp add: eps6_eq) (cases "pymax (Fin (4722366482869645 / 4722366482869645213696)) x"; auto simp: fle_def)
  moreover have "fle (fabs fzero) eps6" by (simp add: eps6_eq)
  ultimately have "compute_ackermann M fzero fzero db me P s = Some ackermann_zero" for db me P s
    by (simp add: compute_ackermann_def Let_def)
  then show ?thesis using assms
    by (auto simp: on_cmd_vel_final_def stop_msg_def command_msg_def command_from_cmd_vel_def applied_speed_def ackermann_zero_def
      Let_def bind_eq_Some_conv split: option.splits)
qed

lemma stopped_tick:
  assumes "dc_speed (cn_auto_cmd c) = fzero" "dc_steer (cn_auto_cmd c) = 0" "cn_consumer c = None"
    "control_tick now c = Some (d, st)"
  shows "dc_speed (sx_command st) = fzero \<and> dc_steer (sx_command st) = 0 \<and> cn_client d = apply_command (sx_command st) (cn_client c)"
  using assms by (auto simp: control_tick_def pick_command_def select_effective_command_def safe_command_def Let_def
      split: prod.splits if_splits)

lemma zero_frame:
  assumes "comms_inv mx rv d" "dc_speed cmd = fzero" "dc_steer cmd = 0"
    "encode_pi_frame (cc_state (apply_command cmd d)) = Some f"
  shows "le16 (f ! 3) (f ! 4) = 0 \<and> sint (f ! 2) = 0"
proof -
  have "fclamp fzero (fneg (cs_max_reverse_mps (cc_state d))) (cs_max_speed_mps (cc_state d)) = fzero"
    using assms(1) pymax_pymin_id [of "fneg (cs_max_reverse_mps (cc_state d))" fzero "cs_max_speed_mps (cc_state d)"] fneg_nonpos
    by (auto simp: comms_inv_def command_state_ok_def fclamp_def)
  then show ?thesis using pi_frame_fields [OF assms(4)] assms(2,3)
    by (simp add: apply_command_fields speed_centi_def iclamp_def)
qed

text \<open>
  C35. Automatic motion that is not permitted never reaches the wheels: when the history of events does
  not permit an automatic velocity (stale scan, manual mode, path-health or collision stop) and the arbiter
  publishes a message in its place, then the controller, in the states its client maintains, turns that
  message at any later control tick into a UART frame with zero speed and centred steering.
\<close>

theorem unpermitted_motion_never_on_wire:
  assumes "snd (arbiter_step S (fst (run (arbiter_step S) (new_arbiter dn mt timeout required) h)) (SafeVelocity tw t)) = [m]"
    "\<not> permitted S dn timeout required h t"
    "on_cmd_vel_final M now1 m c = Some c1" "cn_consumer c = None" "comms_inv mx rv (cn_client c)"
    "control_tick now2 c1 = Some (d, st)"
  shows "\<exists>f. encode_pi_frame (cc_state (cn_client d)) = Some f \<and> le16 (f ! 3) (f ! 4) = 0 \<and> sint (f ! 2) = 0"
proof -
  obtain b where m: "m = stop_msg src_safety b"
    using assms(1,2) unfolding automatic_command_specified by (auto split: if_splits)
  note s = stop_command [OF assms(3) [unfolded m]]
  have "cn_consumer c1 = None" using s assms(4) by simp
  note t = stopped_tick [OF _ _ this assms(6)]
  have "comms_inv mx rv (cn_client d)" using t s assms(5) apply_command_inv by simp
  then obtain f where f: "encode_pi_frame (cc_state (cn_client d)) = Some f"
    using encodable [of "cc_state (cn_client d)"] by (auto simp: comms_inv_def)
  then show ?thesis using zero_frame [of mx rv "cn_client c" "sx_command st" f] s t assms(5) by simp
qed

lemma unpermitted_motion_never_on_wire_witness:
  "\<exists>c1 d st f. on_cmd_vel_final sample_libm (Fin 7) (stop_msg src_safety 0) sample_controller = Some c1 \<and>
     control_tick (Fin 7) c1 = Some (d, st) \<and> encode_pi_frame (cc_state (cn_client d)) = Some f \<and>
     le16 (f ! 3) (f ! 4) = 0 \<and> sint (f ! 2) = 0"
proof -
  have p: "\<not> permitted 1 0 (Fin 1) True [] (Fin 3)" by (simp add: permitted_def scan_ok_def last_scan_def)
  have o: "snd (arbiter_step 1 (fst (run (arbiter_step 1) (new_arbiter 0 (Fin 1) (Fin 1) True) [])) (SafeVelocity (Fin 2, Fin 1) (Fin 3))) =
      [stop_msg src_safety 0]"
    by (simp add: new_arbiter_def automatic_output_def scan_is_fresh_def)
  have "\<exists>cmd. command_from_cmd_vel sample_libm (cn_params sample_controller) fzero fzero 0 src_safety = Some cmd"
    using command_total [of sample_params 0 sample_libm fzero fzero src_safety]
    by (simp add: sample_params_def sample_libm_def sample_controller_def)
  then obtain c1 where c1: "on_cmd_vel_final sample_libm (Fin 7) (stop_msg src_safety 0) sample_controller = Some c1"
    by (auto simp: on_cmd_vel_final_def stop_msg_def command_msg_def clamp_brake_pct_def)
  have n: "cn_consumer sample_controller = None" "comms_inv (Fin 4) (Fin 1) (cn_client sample_controller)"
    by (simp_all add: sample_controller_def sample_client_def comms_inv_def command_state_ok_def limits_ok_def new_command_state_def
      new_parser_def frame_size_def new_stats_def)
  have "cn_consumer c1 = None" using stop_command [OF c1] n by simp
  then obtain d st where t: "control_tick (Fin 7) c1 = Some (d, st)"
    by (cases "pick_command c1 (Fin 7)") (simp add: control_tick_def)
  from unpermitted_motion_never_on_wire [OF o p c1 n t] c1 t show ?thesis by blast
qed

end
